(* ===== verification/Prelude.thy ===== *)
theory Prelude
  imports Main "HOL-Library.Word"
begin

text \<open>
  Conventions shared by every component.

  A Python operation that can raise returns \<open>'a res\<close>: \<open>Inl e\<close> for the exception and
  \<open>Inr v\<close> for the value.  An operation that also changes an object returns the new
  object inside the value.  Python integers are \<open>int\<close>; positions, ordinals and sizes that
  the code keeps nonnegative stay \<open>int\<close> too, so that the guards the code writes against
  negative values are real branches of the model.
\<close>

section \<open>Exceptions as values\<close>

datatype py_error =
    ValueError string
  | TypeError string
  | RuntimeError string
  | IndexError string
  | KeyError string
  | OverflowError string
  | AttributeError string
  | NotImplementedError string
  | ZeroDivisionError
  | StopIteration
  | TimeoutError string
  | WorkerDied string
  | OSError string
  | EOFError
  | UserException string string

type_synonym 'a res = "py_error + 'a"

definition rbind :: "'a res \<Rightarrow> ('a \<Rightarrow> 'b res) \<Rightarrow> 'b res" where
  "rbind m f = (case m of Inl e \<Rightarrow> Inl e | Inr v \<Rightarrow> f v)"

definition rmap :: "('a \<Rightarrow> 'b) \<Rightarrow> 'a res \<Rightarrow> 'b res" where
  "rmap f m = (case m of Inl e \<Rightarrow> Inl e | Inr v \<Rightarrow> Inr (f v))"

definition guard :: "bool \<Rightarrow> py_error \<Rightarrow> unit res" where
  "guard ok e = (if ok then Inr () else Inl e)"

lemma rbind_simps [simp]:
  "rbind (Inl e) f = Inl e"
  "rbind (Inr v) f = f v"
  by (simp_all add: rbind_def)

lemma rmap_simps [simp]:
  "rmap f (Inl e) = Inl e"
  "rmap f (Inr v) = Inr (f v)"
  by (simp_all add: rmap_def)

lemma rbind_eq_Inr: "rbind m f = Inr v \<longleftrightarrow> (\<exists>u. m = Inr u \<and> f u = Inr v)"
  by (cases m) simp_all

lemma rmap_eq_Inr: "rmap f m = Inr v \<longleftrightarrow> (\<exists>u. m = Inr u \<and> f u = v)"
  by (cases m) simp_all

lemma guard_simps [simp]:
  "guard True e = Inr ()"
  "guard False e = Inl e"
  by (simp_all add: guard_def)

lemma guard_eq_Inr [simp]: "guard b e = Inr u \<longleftrightarrow> b"
  by (simp add: guard_def)

text \<open>A list of fallible computations, run left to right; the first exception wins.\<close>

fun rtraverse :: "('a \<Rightarrow> 'b res) \<Rightarrow> 'a list \<Rightarrow> 'b list res" where
  "rtraverse f [] = Inr []"
| "rtraverse f (x # xs) = rbind (f x) (\<lambda>y. rbind (rtraverse f xs) (\<lambda>ys. Inr (y # ys)))"

lemma rtraverse_Inr:
  "(\<And>x. x \<in> set xs \<Longrightarrow> f x = Inr (g x)) \<Longrightarrow> rtraverse f xs = Inr (map g xs)"
  by (induction xs) simp_all

lemma rtraverse_eq_InrD:
  "rtraverse f xs = Inr ys \<Longrightarrow> list_all2 (\<lambda>x y. f x = Inr y) xs ys"
  by (induction xs arbitrary: ys) (auto simp: rbind_eq_Inr)

section \<open>Computations that may not return\<close>

text \<open>
  \<open>'a run\<close> is the outcome of code with a \<^verbatim>\<open>while True\<close> loop: \<open>None\<close> when the loop never
  exits, \<open>Some (Inl e)\<close> when it raises, \<open>Some (Inr v)\<close> when it returns \<open>v\<close>.
\<close>

type_synonym 'a run = "'a res option"

definition obind :: "'a run \<Rightarrow> ('a \<Rightarrow> 'b run) \<Rightarrow> 'b run" where
  "obind m f = (case m of None \<Rightarrow> None | Some (Inl e) \<Rightarrow> Some (Inl e) | Some (Inr v) \<Rightarrow> f v)"

lemma obind_simps [simp]:
  "obind None f = None"
  "obind (Some (Inl e)) f = Some (Inl e)"
  "obind (Some (Inr v)) f = f v"
  by (simp_all add: obind_def)

lemma obind_eq_Some_Inr:
  "obind m f = Some (Inr v) \<longleftrightarrow> (\<exists>u. m = Some (Inr u) \<and> f u = Some (Inr v))"
  by (auto simp: obind_def split: option.splits sum.splits)

fun otraverse :: "('a \<Rightarrow> 'b run) \<Rightarrow> 'a list \<Rightarrow> 'b list run" where
  "otraverse f [] = Some (Inr [])"
| "otraverse f (x # xs) =
     obind (f x) (\<lambda>y. obind (otraverse f xs) (\<lambda>ys. Some (Inr (y # ys))))"

lemma otraverse_Some:
  "(\<And>x. x \<in> set xs \<Longrightarrow> f x = Some (Inr (g x))) \<Longrightarrow> otraverse f xs = Some (Inr (map g xs))"
  by (induction xs) simp_all

lemma otraverse_cong:
  "(\<And>x. x \<in> set xs \<Longrightarrow> f x = g x) \<Longrightarrow> otraverse f xs = otraverse g xs"
  by (induction xs) simp_all

lemma otraverse_map: "otraverse f (map g xs) = otraverse (\<lambda>x. f (g x)) xs"
  by (induction xs) simp_all

text \<open>A computation without unbounded loops, as one that may contain them.\<close>

definition returns :: "'a res \<Rightarrow> 'a run" where
  "returns m = Some m"

lemma obind_returns [simp]:
  "obind (returns (Inl e)) f = Some (Inl e)"
  "obind (returns (Inr v)) f = f v"
  by (simp_all add: returns_def)

text \<open>Reading a list through a fallible map first, and a loop afterwards.\<close>

lemma otraverse_returns:
  "rtraverse f xs = Inr ys \<Longrightarrow> otraverse (\<lambda>x. obind (returns (f x)) g) xs = otraverse g ys"
  by (induction xs arbitrary: ys) (auto simp: rbind_eq_Inr)

section \<open>Configuration values\<close>

text \<open>A parameter that is either the sentinel \<^verbatim>\<open>AUTO\<close> or an explicit value.\<close>

datatype 'a auto = AUTO | Explicit 'a

section \<open>Text\<close>

text \<open>\<^verbatim>\<open>separator.join(parts)\<close>\<close>

fun join_strings :: "string \<Rightarrow> string list \<Rightarrow> string" where
  "join_strings separator [] = ''''"
| "join_strings separator [x] = x"
| "join_strings separator (x # xs) = x @ separator @ join_strings separator xs"

section \<open>Integers\<close>

text \<open>Python's \<^verbatim>\<open>divmod\<close>, \<^verbatim>\<open>//\<close> and \<^verbatim>\<open>%\<close> round towards minus infinity, as \<open>div\<close> and \<open>mod\<close> do, and raise on zero.\<close>

definition py_divmod :: "int \<Rightarrow> int \<Rightarrow> (int \<times> int) res" where
  "py_divmod a b = (if b = 0 then Inl ZeroDivisionError else Inr (a div b, a mod b))"

lemma py_divmod_nonzero [simp]: "b \<noteq> 0 \<Longrightarrow> py_divmod a b = Inr (a div b, a mod b)"
  by (simp add: py_divmod_def)

text \<open>Python's \<^verbatim>\<open>int.bit_length\<close>: the width of the absolute value.\<close>

fun bit_width :: "nat \<Rightarrow> nat" where
  "bit_width n = (if n = 0 then 0 else Suc (bit_width (n div 2)))"

declare bit_width.simps [simp del]

definition bit_length :: "int \<Rightarrow> nat" where
  "bit_length n = bit_width (nat \<bar>n\<bar>)"

lemma bit_width_upper: "n < 2 ^ bit_width n"
proof (induction n rule: bit_width.induct)
  case (1 n)
  then show ?case by (cases "n = 0") (auto simp: bit_width.simps [of n])
qed

lemma bit_width_lower: "n \<noteq> 0 \<Longrightarrow> 2 ^ (bit_width n - 1) \<le> n"
proof (induction n rule: bit_width.induct)
  case (1 n)
  show ?case
  proof (cases "n div 2 = 0")
    case True
    with "1.prems" have "n = 1" by auto
    then show ?thesis by (simp add: bit_width.simps)
  next
    case False
    with 1 have IH: "2 ^ (bit_width (n div 2) - 1) \<le> n div 2" by auto
    from False have "0 < bit_width (n div 2)" by (subst bit_width.simps) simp
    then obtain m where "bit_width (n div 2) = Suc m" using gr0_conv_Suc by blast
    with IH "1.prems" show ?thesis by (simp add: bit_width.simps [of n])
  qed
qed

lemma bit_length_upper: "0 \<le> n \<Longrightarrow> n < 2 ^ bit_length n"
  using bit_width_upper [of "nat n"] by (simp add: bit_length_def nat_less_iff)

lemma bit_length_lower: "0 < n \<Longrightarrow> 2 ^ (bit_length n - 1) \<le> n"
  using bit_width_lower [of "nat n"] by (simp add: bit_length_def le_nat_iff)

lemma int_add_mult_div:
  "0 \<le> r \<Longrightarrow> r < b \<Longrightarrow> (q * b + r) div b = (q::int)"
  "0 \<le> r \<Longrightarrow> r < b \<Longrightarrow> (q * b + r) mod b = r"
  by auto

lemma div_mult_le: "0 < b \<Longrightarrow> a div b * b \<le> (a::int)"
  by (simp flip: minus_mod_eq_div_mult)

lemma ceil_div:
  "0 < b \<Longrightarrow> (a + b - 1) div b = (if a mod b = 0 then a div b else a div b + (1::int))"
proof -
  assume b: "0 < b"
  have "a + b - 1 = a div b * b + (a mod b + b - 1)" by simp
  then have "(a + b - 1) div b = a div b + (a mod b + b - 1) div b"
    using b by (metis add.commute div_mult_self1 less_numeral_extra(3))
  moreover have "(a mod b + b - 1) div b = (if a mod b = 0 then 0 else 1)"
  proof (cases "a mod b = 0")
    case False
    with b have "0 \<le> a mod b - 1" "a mod b - 1 < b"
      using pos_mod_sign [OF b, of a] pos_mod_bound [OF b, of a] by auto
    then have "(1 * b + (a mod b - 1)) div b = 1" by (rule int_add_mult_div)
    with False show ?thesis by (simp add: algebra_simps)
  qed (use b in simp)
  ultimately show ?thesis by simp
qed

lemma digits_unique:
  fixes q :: int
  assumes "0 \<le> r" "r < b" "0 \<le> r'" "r' < b" "q * b + r = q' * b + r'"
  shows "q = q'" and "r = r'"
  using int_add_mult_div [of r b q] int_add_mult_div [of r' b q'] assms by metis+

text \<open>Python's \<^verbatim>\<open>range(lo, hi)\<close>.\<close>

definition irange :: "int \<Rightarrow> int \<Rightarrow> int list" where
  "irange lo hi = [lo..hi - 1]"

lemma set_irange [simp]: "set (irange lo hi) = {lo..<hi}"
  by (auto simp: irange_def)

lemma length_irange [simp]: "length (irange lo hi) = nat (hi - lo)"
  by (simp add: irange_def)

lemma distinct_irange [simp]: "distinct (irange lo hi)"
  by (simp add: irange_def)

lemma sorted_irange [simp]: "sorted (irange lo hi)"
  by (simp add: irange_def)

lemma irange_empty [simp]: "hi \<le> lo \<Longrightarrow> irange lo hi = []"
  by (simp add: irange_def)

lemma irange_Cons: "lo < hi \<Longrightarrow> irange lo hi = lo # irange (lo + 1) hi"
  by (simp add: irange_def upto_rec1)

lemma irange_snoc: "lo < hi \<Longrightarrow> irange lo hi = irange lo (hi - 1) @ [hi - 1]"
  by (simp add: irange_def upto_rec2)

lemma nth_irange [simp]: "k < nat (hi - lo) \<Longrightarrow> irange lo hi ! k = lo + int k"
  by (simp add: irange_def)

lemma irange_append:
  "lo \<le> mid \<Longrightarrow> mid \<le> hi \<Longrightarrow> irange lo mid @ irange mid hi = irange lo hi"
proof (induction "nat (mid - lo)" arbitrary: mid)
  case 0
  then show ?case by simp
next
  case (Suc n)
  then have *: "irange lo (mid - 1) @ irange (mid - 1) hi = irange lo hi" by simp
  from Suc show ?case by (simp add: irange_Cons [of "mid - 1" hi] irange_snoc [of lo mid] flip: *)
qed

lemma map_add_irange: "map (\<lambda>i. i + d) (irange lo hi) = irange (lo + d) (hi + d)"
  by (rule nth_equalityI) (simp_all add: algebra_simps)

text \<open>Adjacent ranges, glued together.\<close>

lemma concat_irange_mono:
  assumes "0 \<le> n" and "\<And>i. 0 \<le> i \<Longrightarrow> i < n \<Longrightarrow> f i \<le> f (i + 1)"
  shows "concat (map (\<lambda>i. irange (f i) (f (i + 1))) (irange 0 n)) = irange (f 0) (f n) \<and> f 0 \<le> f n"
  using assms
proof (induction "nat n" arbitrary: n)
  case 0
  then show ?case by simp
next
  case (Suc k)
  then have "concat (map (\<lambda>i. irange (f i) (f (i + 1))) (irange 0 (n - 1))) = irange (f 0) (f (n - 1))
      \<and> f 0 \<le> f (n - 1)"
    by (intro Suc.hyps) auto
  moreover have "f (n - 1) \<le> f n" using Suc.prems(2) [of "n - 1"] Suc.hyps(2) by simp
  ultimately show ?case
    using Suc.hyps(2) by (simp add: irange_snoc [of 0 n] irange_append)
qed

end
