(* ===== verification/Rng.thy ===== *)
theory Rng
  imports Prelude
begin

text \<open>
  The sealed random number contract of \<^verbatim>\<open>python/hyperloader/fallback/rng.py\<close>: the SplitMix64
  finaliser, the epoch key, ten-round Philox4x32 and the sample blocks derived from it.
  The definitions compute on Python integers exactly as the source does (masks and shifts on
  \<open>int\<close>); the lemmas show that nothing is lost on the way: SplitMix64 is injective on 64-bit
  values, so epochs and seeds have keys of their own, and Philox is injective on counters, so no
  two coordinates, draws or streams of one key share a block.
\<close>

unbundle bit_operations_syntax

section \<open>Masks and constants\<close>

definition MASK32 :: int where "MASK32 = push_bit 32 1 - 1"
definition MASK64 :: int where "MASK64 = push_bit 64 1 - 1"
definition PHILOX_M0 :: int where "PHILOX_M0 = 0xD2511F53"
definition PHILOX_M1 :: int where "PHILOX_M1 = 0xCD9E8D57"
definition PHILOX_W0 :: int where "PHILOX_W0 = 0x9E3779B9"
definition PHILOX_W1 :: int where "PHILOX_W1 = 0xBB67AE85"
definition FEISTEL_THRESHOLD :: int where "FEISTEL_THRESHOLD = push_bit 17 1"

lemmas rng_constants =
  PHILOX_M0_def PHILOX_M1_def PHILOX_W0_def PHILOX_W1_def

lemma MASK32_mask: "MASK32 = mask 32"
  by (simp add: MASK32_def mask_eq_exp_minus_1)

lemma MASK64_mask: "MASK64 = mask 64"
  by (simp add: MASK64_def mask_eq_exp_minus_1)

lemma FEISTEL_THRESHOLD_eq: "FEISTEL_THRESHOLD = 131072"
  by (simp add: FEISTEL_THRESHOLD_def)

lemma and_MASK32 [simp]: "x AND MASK32 = take_bit 32 x"
  by (simp add: MASK32_mask take_bit_eq_mask)

lemma and_MASK64 [simp]: "x AND MASK64 = take_bit 64 x"
  by (simp add: MASK64_mask take_bit_eq_mask)

section \<open>SplitMix64 and the epoch key\<close>

definition splitmix64 :: "int \<Rightarrow> int" where
  "splitmix64 value =
    (let value = value AND MASK64;
         value = value XOR drop_bit 30 value;
         value = (value * 0xBF58476D1CE4E5B9) AND MASK64;
         value = value XOR drop_bit 27 value;
         value = (value * 0x94D049BB133111EB) AND MASK64;
         value = value XOR drop_bit 31 value
     in value)"

definition epoch_tag :: "int \<Rightarrow> int" where
  "epoch_tag epoch = (push_bit 32 epoch OR 0x9E37) AND MASK64"

definition key64 :: "int \<Rightarrow> int \<Rightarrow> int" where
  "key64 root_seed epoch = splitmix64 root_seed XOR splitmix64 (epoch_tag epoch)"

section \<open>Philox4x32-10\<close>

type_synonym block = "int \<times> int \<times> int \<times> int"

text \<open>One turn of the source's round loop: the words, then the key bump of all but the last.\<close>

fun philox_round :: "nat \<Rightarrow> block \<times> int \<times> int \<Rightarrow> block \<times> int \<times> int" where
  "philox_round round_index ((w0, w1, w2, w3), key0, key1) =
    (let product0 = PHILOX_M0 * w0;
         product1 = PHILOX_M1 * w2;
         lo0 = product0 AND MASK32; hi0 = drop_bit 32 product0;
         lo1 = product1 AND MASK32; hi1 = drop_bit 32 product1;
         words = ((hi1 XOR w1 XOR key0) AND MASK32, lo1, (hi0 XOR w3 XOR key1) AND MASK32, lo0)
     in if round_index \<noteq> 9
        then (words, (key0 + PHILOX_W0) AND MASK32, (key1 + PHILOX_W1) AND MASK32)
        else (words, key0, key1))"

definition philox4x32_10 :: "block \<Rightarrow> int \<times> int \<Rightarrow> block" where
  "philox4x32_10 counter key =
    (case counter of (c0, c1, c2, c3) \<Rightarrow>
       let words = (c0 AND MASK32, c1 AND MASK32, c2 AND MASK32, c3 AND MASK32);
           key0 = fst key AND MASK32; key1 = snd key AND MASK32
       in fst (fold philox_round [0..<10] (words, key0, key1)))"

definition rng_block_from_key :: "int \<Rightarrow> int \<Rightarrow> int \<Rightarrow> int \<Rightarrow> block" where
  "rng_block_from_key key coord draw_index stream_id =
    philox4x32_10
      (coord AND MASK32, draw_index, stream_id, drop_bit 32 coord AND MASK32)
      (key AND MASK32, drop_bit 32 key)"

definition rng_block :: "int \<Rightarrow> int \<Rightarrow> int \<Rightarrow> int \<Rightarrow> int \<Rightarrow> block" where
  "rng_block root_seed epoch coord draw_index stream_id =
    rng_block_from_key (key64 root_seed epoch) coord draw_index stream_id"

definition sample_rng_context :: "int \<Rightarrow> int \<Rightarrow> int \<Rightarrow> int \<times> int \<times> int" where
  "sample_rng_context root_seed epoch coord =
    (let key = key64 root_seed epoch in
     case rng_block_from_key key coord 0 0 of
       (word0, word1, _, _) \<Rightarrow> (word0 OR push_bit 32 word1, key, coord))"

section \<open>SplitMix64 is injective on 64-bit values\<close>

lemma xor_left_cancel: "a XOR b = a XOR c \<longleftrightarrow> b = (c::int)"
proof
  assume "a XOR b = a XOR c"
  then have "a XOR (a XOR b) = a XOR (a XOR c)" by simp
  then show "b = c" by (simp flip: xor.assoc)
qed simp

lemma xor_right_cancel: "b XOR a = c XOR a \<longleftrightarrow> b = (c::int)"
  using xor_left_cancel [of a b c] by (simp add: xor.commute)

lemma xorshift_inj:
  fixes x y :: int
  assumes "0 < s" and "0 \<le> x" and "0 \<le> y"
    and eq: "x XOR drop_bit s x = y XOR drop_bit s y"
  shows "x = y"
proof -
  define z where "z = x XOR y"
  have "z = drop_bit s z"
  proof (rule bit_eqI)
    fix n
    from eq have "bit (x XOR drop_bit s x) n = bit (y XOR drop_bit s y) n" by simp
    then show "bit z n = bit (drop_bit s z) n"
      by (auto simp: z_def bit_simps add.commute)
  qed
  moreover have "0 \<le> z" using assms by (simp add: z_def)
  ultimately have "z = z div 2 ^ s" by (simp add: drop_bit_eq_div)
  moreover have "z div 2 ^ s < z" if "0 < z"
    using that \<open>0 < s\<close> int_div_less_self [of z "2 ^ s"] one_less_power [of "2::int" s] by simp
  ultimately have "z = 0" using \<open>0 \<le> z\<close> by fastforce
  then have "x XOR (x XOR y) = x" by (simp add: z_def)
  then show "x = y" by (simp add: flip: xor.assoc)
qed

lemma odd_mult_inj:
  fixes x y :: int
  assumes eq: "take_bit n (x * m) = take_bit n (y * m)"
    and inverse: "(m * i) mod 2 ^ n = 1"
    and range: "0 \<le> x" "x < 2 ^ n" "0 \<le> y" "y < 2 ^ n"
  shows "x = y"
proof -
  have cancel: "(z * m * i) mod 2 ^ n = z mod 2 ^ n" for z :: int
  proof -
    have "(z * m * i) mod 2 ^ n = (z * ((m * i) mod 2 ^ n)) mod 2 ^ n"
      by (simp add: mod_mult_right_eq mult.assoc)
    then show ?thesis by (simp add: inverse)
  qed
  from eq have "(x * m) mod 2 ^ n = (y * m) mod 2 ^ n" by (simp add: take_bit_eq_mod)
  then have "(x * m * i) mod 2 ^ n = (y * m * i) mod 2 ^ n" by (metis mod_mult_left_eq)
  with range show ?thesis by (simp add: cancel)
qed

lemma xorshift_range:
  fixes x :: int
  assumes "0 \<le> x" and "x < 2 ^ n"
  shows "0 \<le> x XOR drop_bit s x" and "x XOR drop_bit s x < 2 ^ n"
proof -
  have "drop_bit s x \<le> x" using assms(1)
    using zdiv_mono2 [of x 1 "2 ^ s"] by (simp add: drop_bit_eq_div)
  with assms have "0 \<le> drop_bit s x" "drop_bit s x < 2 ^ n" by auto
  with assms show "0 \<le> x XOR drop_bit s x" and "x XOR drop_bit s x < 2 ^ n"
    by (simp_all add: XOR_upper)
qed

lemma take_bit_range: "0 \<le> take_bit n (x::int)" "take_bit n x < 2 ^ n"
  by simp_all

lemma take_bit_bounds [simp]:
  "take_bit 32 (x::int) < 4294967296" "take_bit 64 (x::int) < 18446744073709551616"
  using take_bit_range [of 32 x] take_bit_range [of 64 x] by simp_all

lemma splitmix64_range: "0 \<le> splitmix64 v" "splitmix64 v < 2 ^ 64"
proof -
  define w where "w = take_bit 64 ((take_bit 64 ((take_bit 64 v XOR drop_bit 30 (take_bit 64 v))
    * 0xBF58476D1CE4E5B9) XOR drop_bit 27 (take_bit 64 ((take_bit 64 v XOR
    drop_bit 30 (take_bit 64 v)) * 0xBF58476D1CE4E5B9))) * 0x94D049BB133111EB)"
  have "splitmix64 v = w XOR drop_bit 31 w"
    by (simp add: splitmix64_def w_def Let_def)
  moreover have "0 \<le> w" "w < 2 ^ 64"
    unfolding w_def by (rule take_bit_range)+
  ultimately show "0 \<le> splitmix64 v" "splitmix64 v < 2 ^ 64"
    using xorshift_range [of w 64 31] by simp_all
qed

lemma splitmix64_mod: "splitmix64 (take_bit 64 v) = splitmix64 v"
  by (simp add: splitmix64_def)

definition mix_step :: "nat \<Rightarrow> int \<Rightarrow> int \<Rightarrow> int" where
  "mix_step s m v = take_bit 64 ((v XOR drop_bit s v) * m)"

lemma mix_step_range: "0 \<le> mix_step s m v" "mix_step s m v < 2 ^ 64"
  unfolding mix_step_def by (rule take_bit_range)+

lemma mix_step_inj:
  assumes "0 < s" and inv: "(m * i) mod 2 ^ 64 = 1"
    and "0 \<le> x" "x < 2 ^ 64" "0 \<le> y" "y < 2 ^ 64"
    and eq: "mix_step s m x = mix_step s m y"
  shows "x = y"
proof -
  have "x XOR drop_bit s x = y XOR drop_bit s y"
    by (rule odd_mult_inj [OF eq [unfolded mix_step_def] inv])
      (use assms xorshift_range [of x 64 s] xorshift_range [of y 64 s] in simp_all)
  then show ?thesis by (rule xorshift_inj [OF assms(1,3,5)])
qed

lemma splitmix64_steps:
  "splitmix64 v =
    (let w = mix_step 27 0x94D049BB133111EB (mix_step 30 0xBF58476D1CE4E5B9 (take_bit 64 v))
     in w XOR drop_bit 31 w)"
  by (simp add: splitmix64_def mix_step_def Let_def)

lemma splitmix64_inj_u64:
  assumes "0 \<le> x" "x < 2 ^ 64" "0 \<le> y" "y < 2 ^ 64" and eq: "splitmix64 x = splitmix64 y"
  shows "x = y"
proof -
  let ?m1 = "mix_step 30 0xBF58476D1CE4E5B9" and ?m2 = "mix_step 27 0x94D049BB133111EB"
  have id: "take_bit 64 x = x" "take_bit 64 y = y"
    using assms by (simp_all add: take_bit_int_eq_self)
  have "?m2 (?m1 x) = ?m2 (?m1 y)"
    by (rule xorshift_inj [where s = 31, OF _ mix_step_range(1) mix_step_range(1)])
      (use eq in \<open>simp_all add: splitmix64_steps id Let_def\<close>)
  then have "?m1 x = ?m1 y"
    by (rule mix_step_inj [where i = "0x319642b2d24d8ec3", rotated -1])
      (simp_all only: mix_step_range, simp_all)
  then show ?thesis
    by (rule mix_step_inj [where i = "0x96de1b173f119089", rotated -1]) (use assms in simp_all)
qed

text \<open>
  SplitMix64, as the source computes it on unbounded integers, is a bijection of the 64-bit
  values: no two seeds are mixed to the same word.
\<close>

theorem splitmix64_bij: "bij_betw splitmix64 {0..<2 ^ 64} {0..<2 ^ 64}"
proof -
  have inj: "inj_on splitmix64 {0..<2 ^ 64}"
    by (rule inj_onI) (auto intro: splitmix64_inj_u64)
  moreover have "splitmix64 ` {0..<2 ^ 64} \<subseteq> {0..<2 ^ 64}"
    using splitmix64_range by auto
  ultimately show ?thesis
    by (simp add: bij_betw_def endo_inj_surj)
qed

lemma epoch_tag_eq:
  assumes "0 \<le> e" "e < 2 ^ 32"
  shows "epoch_tag e = e * 2 ^ 32 + 0x9E37"
proof -
  have "push_bit 32 e OR 0x9E37 = push_bit 32 e + 0x9E37"
  proof (rule disjunctive_add [symmetric])
    fix n
    have "\<not> bit (0x9E37::int) n" if "32 \<le> n"
    proof -
      have "take_bit 32 (0x9E37::int) = 0x9E37" by (simp add: take_bit_int_eq_self)
      then show ?thesis using that by (metis bit_take_bit_iff not_less)
    qed
    then show "\<not> bit (push_bit 32 e) n \<or> \<not> bit (0x9E37::int) n"
      by (auto simp: bit_push_bit_iff_int)
  qed
  with assms show ?thesis
    by (simp add: epoch_tag_def push_bit_eq_mult take_bit_int_eq_self)
qed

lemma key64_range: "0 \<le> key64 r e" "key64 r e < 2 ^ 64"
  using splitmix64_range [of r] splitmix64_range [of "epoch_tag e"]
    XOR_upper [of "splitmix64 r" 64 "splitmix64 (epoch_tag e)"]
  by (simp_all add: key64_def)

text \<open>
  Two different epochs below \<open>2^32\<close> never share an epoch key under one root seed, and two
  different 64-bit root seeds never share a key in one epoch.
\<close>

theorem key64_separates:
  assumes "0 \<le> e1" "e1 < 2 ^ 32" "0 \<le> e2" "e2 < 2 ^ 32"
    and "0 \<le> r1" "r1 < 2 ^ 64" "0 \<le> r2" "r2 < 2 ^ 64"
  shows "(key64 r1 e1 = key64 r1 e2 \<longleftrightarrow> e1 = e2) \<and> (key64 r1 e1 = key64 r2 e1 \<longleftrightarrow> r1 = r2)"
proof
  have "splitmix64 (epoch_tag e1) = splitmix64 (epoch_tag e2) \<longleftrightarrow> e1 = e2"
    using assms splitmix64_inj_u64 [of "epoch_tag e1" "epoch_tag e2"] by (auto simp: epoch_tag_eq)
  then show "key64 r1 e1 = key64 r1 e2 \<longleftrightarrow> e1 = e2"
    by (simp add: key64_def xor_left_cancel)
  show "key64 r1 e1 = key64 r2 e1 \<longleftrightarrow> r1 = r2"
    using assms splitmix64_inj_u64 [of r1 r2]
    by (auto simp: key64_def xor_right_cancel)
qed

theorem key64_separates_witness:
  "key64 1701 0 \<noteq> key64 1701 1 \<and> key64 1701 0 \<noteq> key64 1702 0"
  using key64_separates [of 0 1 1701 1702] by simp_all

section \<open>Philox is injective on counters\<close>

fun u32x4 :: "block \<Rightarrow> bool" where
  "u32x4 (w0, w1, w2, w3) =
    (0 \<le> w0 \<and> w0 < 2 ^ 32 \<and> 0 \<le> w1 \<and> w1 < 2 ^ 32 \<and>
     0 \<le> w2 \<and> w2 < 2 ^ 32 \<and> 0 \<le> w3 \<and> w3 < 2 ^ 32)"

fun philox_words :: "int \<Rightarrow> int \<Rightarrow> block \<Rightarrow> block" where
  "philox_words key0 key1 (w0, w1, w2, w3) =
    (take_bit 32 (drop_bit 32 (PHILOX_M1 * w2) XOR w1 XOR key0), take_bit 32 (PHILOX_M1 * w2),
     take_bit 32 (drop_bit 32 (PHILOX_M0 * w0) XOR w3 XOR key1), take_bit 32 (PHILOX_M0 * w0))"

definition philox_keys :: "nat \<Rightarrow> int \<times> int \<Rightarrow> int \<times> int" where
  "philox_keys r k =
    (if r \<noteq> 9 then (take_bit 32 (fst k + PHILOX_W0), take_bit 32 (snd k + PHILOX_W1)) else k)"

lemma philox_round_split:
  "philox_round r (ws, k) = (philox_words (fst k) (snd k) ws, philox_keys r k)"
  by (cases ws; cases k) (simp add: Let_def philox_keys_def)

declare philox_round.simps [simp del]

lemma philox_words_u32x4 [simp]: "u32x4 (philox_words k0 k1 ws)"
  by (cases ws) (simp flip: take_bit_xor)

lemma xor_take_inj:
  fixes x y a k :: int
  assumes "take_bit 32 (a XOR x XOR k) = take_bit 32 (a XOR y XOR k)"
    and "0 \<le> x" "x < 2 ^ 32" "0 \<le> y" "y < 2 ^ 32"
  shows "x = y"
proof -
  from assms(1) have "take_bit 32 x = take_bit 32 y"
    by (simp only: take_bit_xor xor_left_cancel xor_right_cancel)
  with assms show ?thesis by (simp add: take_bit_int_eq_self)
qed

lemma mult_take_inj:
  assumes "take_bit 32 (m * x) = take_bit 32 (m * y)" "(m * i) mod 2 ^ 32 = (1::int)"
    and "0 \<le> x" "x < 2 ^ 32" "0 \<le> y" "y < 2 ^ 32"
  shows "x = y"
  using assms by (intro odd_mult_inj [of 32 x m y i]) (simp_all add: mult.commute)

lemma philox_words_inj:
  assumes "u32x4 v" "u32x4 w" and eq: "philox_words k0 k1 v = philox_words k0 k1 w"
  shows "v = w"
proof -
  obtain v0 v1 v2 v3 where v: "v = (v0, v1, v2, v3)" by (cases v)
  obtain w0 w1 w2 w3 where w: "w = (w0, w1, w2, w3)" by (cases w)
  have "v2 = w2"
    by (rule mult_take_inj [where m = PHILOX_M1 and i = "0x6d7cae67"])
      (use assms in \<open>simp_all add: v w PHILOX_M1_def\<close>)
  moreover have "v0 = w0"
    by (rule mult_take_inj [where m = PHILOX_M0 and i = "0x991a7cdb"])
      (use assms in \<open>simp_all add: v w PHILOX_M0_def\<close>)
  moreover have "v1 = w1"
    by (rule xor_take_inj [where a = "drop_bit 32 (PHILOX_M1 * v2)" and k = k0])
      (use assms \<open>v2 = w2\<close> in \<open>simp_all add: v w\<close>)
  moreover have "v3 = w3"
    by (rule xor_take_inj [where a = "drop_bit 32 (PHILOX_M0 * v0)" and k = k1])
      (use assms \<open>v0 = w0\<close> in \<open>simp_all add: v w\<close>)
  ultimately show ?thesis by (simp add: v w)
qed

lemma fold_philox_inj:
  "fst (fold philox_round rs (v, k)) = fst (fold philox_round rs (w, k)) \<Longrightarrow>
   u32x4 v \<Longrightarrow> u32x4 w \<Longrightarrow> v = w"
proof (induction rs arbitrary: v w k)
  case (Cons r rs)
  from Cons.prems(1)
  have "fst (fold philox_round rs (philox_words (fst k) (snd k) v, philox_keys r k))
      = fst (fold philox_round rs (philox_words (fst k) (snd k) w, philox_keys r k))"
    by (simp only: fold_simps comp_apply philox_round_split)
  then have "philox_words (fst k) (snd k) v = philox_words (fst k) (snd k) w"
    by (rule Cons.IH) simp_all
  then show ?case by (rule philox_words_inj [OF Cons.prems(2,3)])
qed simp

lemma fold_philox_u32x4: "u32x4 v \<Longrightarrow> u32x4 (fst (fold philox_round rs (v, k)))"
  by (induction rs arbitrary: v k) (simp_all add: philox_round_split)

lemma philox_range: "u32x4 (philox4x32_10 c k)"
  unfolding philox4x32_10_def Let_def
  by (cases c) (auto intro!: fold_philox_u32x4)

lemma philox_inj:
  assumes "u32x4 c" "u32x4 d" "philox4x32_10 c k = philox4x32_10 d k"
  shows "c = d"
proof -
  obtain c0 c1 c2 c3 where c: "c = (c0, c1, c2, c3)" by (cases c)
  obtain d0 d1 d2 d3 where d: "d = (d0, d1, d2, d3)" by (cases d)
  from assms(3) have "(take_bit 32 c0, take_bit 32 c1, take_bit 32 c2, take_bit 32 c3)
    = (take_bit 32 d0, take_bit 32 d1, take_bit 32 d2, take_bit 32 d3)"
    unfolding philox4x32_10_def Let_def c d and_MASK32 prod.case
    by (rule fold_philox_inj) simp_all
  with assms(1,2) show ?thesis by (simp add: c d take_bit_int_eq_self)
qed

lemma philox_masks_counter:
  "philox4x32_10 (take_bit 32 c0, c1, c2, c3) k = philox4x32_10 (c0, c1, c2, c3) k"
  by (simp add: philox4x32_10_def)

text \<open>
  Within one key, the random blocks of two draws are different as soon as their
  coordinates, their draw indices or their stream ids are: coordinates are told apart over all
  64 bits, draws and streams over 32.
\<close>

theorem rng_blocks_disjoint:
  assumes "0 \<le> coord1" "coord1 < 2 ^ 64" "0 \<le> coord2" "coord2 < 2 ^ 64"
    and "0 \<le> draw1" "draw1 < 2 ^ 32" "0 \<le> draw2" "draw2 < 2 ^ 32"
    and "0 \<le> stream1" "stream1 < 2 ^ 32" "0 \<le> stream2" "stream2 < 2 ^ 32"
  shows "rng_block_from_key key coord1 draw1 stream1 = rng_block_from_key key coord2 draw2 stream2
    \<longleftrightarrow> (coord1, draw1, stream1) = (coord2, draw2, stream2)"
proof
  assume "rng_block_from_key key coord1 draw1 stream1 = rng_block_from_key key coord2 draw2 stream2"
  then have eq: "(take_bit 32 coord1, draw1, stream1, take_bit 32 (drop_bit 32 coord1))
    = (take_bit 32 coord2, draw2, stream2, take_bit 32 (drop_bit 32 coord2))"
    unfolding rng_block_from_key_def and_MASK32
    by (rule philox_inj [rotated -1]) (use assms in simp_all)
  have whole: "c = take_bit 32 (drop_bit 32 c) * 2 ^ 32 + take_bit 32 c"
    if "0 \<le> c" "c < 2 ^ 64" for c :: int
  proof -
    have "take_bit 32 (drop_bit 32 c) = drop_bit 32 c"
      by (rule take_bit_int_eq_self) (use that in \<open>simp_all add: drop_bit_eq_div\<close>)
    then show ?thesis by (simp add: drop_bit_eq_div take_bit_eq_mod)
  qed
  from eq whole [of coord1] whole [of coord2] assms(1-4) have "coord1 = coord2"
    by (simp only: prod.inject)
  with eq show "(coord1, draw1, stream1) = (coord2, draw2, stream2)" by simp
qed simp

theorem rng_blocks_disjoint_witness:
  "rng_block_from_key 7 (2 ^ 40) 0 6 \<noteq> rng_block_from_key 7 0 0 6
  \<and> rng_block_from_key 7 3 0 6 \<noteq> rng_block_from_key 7 3 0 4"
  using rng_blocks_disjoint [of "2 ^ 40" 0 0 0 6 6 7] rng_blocks_disjoint [of 3 3 0 0 6 4 7]
  by simp_all

end
