(* ===== verification/Permutation.thy ===== *)
theory Permutation
  imports Rng "HOL-Library.Multiset"
begin

text \<open>
  The sealed sampler permutation of \<^verbatim>\<open>python/hyperloader/fallback/rng.py\<close>: below 131072 a
  materialised Fisher-Yates shuffle with rejection sampling, from there on a cycle-walked
  eight-round Feistel network.  Both contain a \<^verbatim>\<open>while True\<close> loop; the loops are partial
  functions whose value \<open>None\<close> is "does not return", and the theorems prove that they do return.
\<close>

unbundle bit_operations_syntax

section \<open>Cycle walking\<close>

text \<open>The \<^verbatim>\<open>while True\<close> of \<^verbatim>\<open>feistel_permute\<close>: apply the network until the value is in the domain.\<close>

partial_function (option) cycle_walk :: "(int \<Rightarrow> int) \<Rightarrow> int \<Rightarrow> int \<Rightarrow> int option" where
  "cycle_walk pass domain candidate =
    (let candidate' = pass candidate in
     if candidate' < domain then Some candidate' else cycle_walk pass domain candidate')"

locale walkable =
  fixes pass :: "int \<Rightarrow> int" and domain :: int and top :: int
  assumes pass_range: "x \<in> {0..<top} \<Longrightarrow> pass x \<in> {0..<top}"
    and pass_inj: "inj_on pass {0..<top}"
    and domain_le: "domain \<le> top"
begin

lemma iter_range: "x \<in> {0..<top} \<Longrightarrow> (pass ^^ k) x \<in> {0..<top}"
  by (induction k) (simp_all add: pass_range del: atLeastLessThan_iff)

lemma iter_inj:
  "(pass ^^ k) x = (pass ^^ k) y \<Longrightarrow> x \<in> {0..<top} \<Longrightarrow> y \<in> {0..<top} \<Longrightarrow> x = y"
proof (induction k)
  case (Suc k)
  then have "pass ((pass ^^ k) x) = pass ((pass ^^ k) y)" by simp
  moreover have "(pass ^^ k) x \<in> {0..<top}" "(pass ^^ k) y \<in> {0..<top}"
    using Suc.prems iter_range by blast+
  ultimately have "(pass ^^ k) x = (pass ^^ k) y" by (rule inj_onD [OF pass_inj])
  with Suc show ?case by simp
qed simp

text \<open>An injective map of a finite set into itself brings every point back.\<close>

lemma iter_returns:
  assumes x: "x \<in> {0..<top}"
  shows "\<exists>k>0. (pass ^^ k) x = x"
proof -
  have "\<not> inj (\<lambda>k. (pass ^^ k) x)"
  proof
    assume "inj (\<lambda>k. (pass ^^ k) x)"
    then have "infinite (range (\<lambda>k. (pass ^^ k) x))"
      using finite_imageD infinite_UNIV_nat by blast
    moreover have "range (\<lambda>k. (pass ^^ k) x) \<subseteq> {0..<top}" using iter_range [OF x] by blast
    ultimately show False using finite_subset finite_atLeastLessThan_int by blast
  qed
  then obtain a b where ab: "(pass ^^ a) x = (pass ^^ b) x" "a < b"
    unfolding inj_def by (metis linorder_neqE_nat)
  then have "(pass ^^ a) ((pass ^^ (b - a)) x) = (pass ^^ a) x"
    by (simp flip: funpow_add [THEN fun_cong, unfolded comp_apply])
  then have "(pass ^^ (b - a)) x = x"
    by (rule iter_inj) (use x iter_range in blast)+
  with ab(2) show ?thesis by (intro exI [of _ "b - a"]) simp
qed

text \<open>The walk returns the first iterate inside the domain.\<close>

lemma walk_first:
  "0 < k \<Longrightarrow> (pass ^^ k) x < domain \<Longrightarrow> (\<And>j. 0 < j \<Longrightarrow> j < k \<Longrightarrow> \<not> (pass ^^ j) x < domain) \<Longrightarrow>
   cycle_walk pass domain x = Some ((pass ^^ k) x)"
proof (induction k arbitrary: x)
  case (Suc k)
  show ?case
  proof (cases "k = 0")
    case True
    with Suc.prems show ?thesis by (subst cycle_walk.simps) simp
  next
    case False
    have "\<not> pass x < domain" using Suc.prems(3) [of 1] False by simp
    moreover have "cycle_walk pass domain (pass x) = Some ((pass ^^ k) (pass x))"
    proof (rule Suc.IH)
      show "(pass ^^ k) (pass x) < domain"
        using Suc.prems(2) by (simp add: funpow_swap1)
      show "\<not> (pass ^^ j) (pass x) < domain" if "0 < j" "j < k" for j
        using Suc.prems(3) [of "Suc j"] that by (simp add: funpow_swap1)
    qed (use False in simp)
    ultimately show ?thesis by (subst cycle_walk.simps) (simp add: funpow_swap1)
  qed
qed simp

lemma walk_spec:
  assumes x: "x \<in> {0..<domain}"
  obtains k where "0 < k" "cycle_walk pass domain x = Some ((pass ^^ k) x)"
    "(pass ^^ k) x \<in> {0..<domain}" "\<And>j. 0 < j \<Longrightarrow> j < k \<Longrightarrow> (pass ^^ j) x \<notin> {0..<domain}"
proof -
  have xtop: "x \<in> {0..<top}" using x domain_le by auto
  define P where "P k \<longleftrightarrow> 0 < k \<and> (pass ^^ k) x < domain" for k
  from iter_returns [OF xtop] obtain m where "0 < m" "(pass ^^ m) x = x" by blast
  with x have "P m" by (simp add: P_def)
  define k where "k = (LEAST k. P k)"
  have k: "P k" unfolding k_def by (rule LeastI) (rule \<open>P m\<close>)
  have least: "\<not> P j" if "j < k" for j using that unfolding k_def by (rule not_less_Least)
  show ?thesis
  proof (rule that [of k])
    show "cycle_walk pass domain x = Some ((pass ^^ k) x)"
      using k least by (intro walk_first) (auto simp: P_def)
    show "(pass ^^ k) x \<in> {0..<domain}"
      using k iter_range [OF xtop, of k] by (simp add: P_def)
    show "(pass ^^ j) x \<notin> {0..<domain}" if "0 < j" "j < k" for j
      using least [OF that(2)] that(1) by (simp add: P_def)
  qed (use k in \<open>simp add: P_def\<close>)
qed

lemma walk_returns: "x \<in> {0..<domain} \<Longrightarrow> \<exists>y \<in> {0..<domain}. cycle_walk pass domain x = Some y"
  by (erule walk_spec) blast

lemma walk_inj_le:
  assumes "x \<in> {0..<domain}" "y \<in> {0..<domain}" "k \<le> l" "0 < k"
    and "(pass ^^ k) x = (pass ^^ l) y"
    and "\<And>j. 0 < j \<Longrightarrow> j < l \<Longrightarrow> (pass ^^ j) y \<notin> {0..<domain}"
  shows "x = y"
proof -
  have "pass ^^ l = pass ^^ k \<circ> pass ^^ (l - k)" using assms(3) by (simp flip: funpow_add)
  then have "(pass ^^ k) x = (pass ^^ k) ((pass ^^ (l - k)) y)" using assms(5) by simp
  moreover have x: "x \<in> {0..<top}" and y: "y \<in> {0..<top}" using assms(1,2) domain_le by auto
  ultimately have eq: "x = (pass ^^ (l - k)) y" by (intro iter_inj [OF _ x iter_range [OF y]])
  show ?thesis
  proof (cases "l - k = 0")
    case True
    with eq show ?thesis by simp
  next
    case False
    then have "0 < l - k" "l - k < l" using assms(3,4) by simp_all
    then have "(pass ^^ (l - k)) y \<notin> {0..<domain}" by (rule assms(6))
    with eq assms(1) show ?thesis by simp
  qed
qed

lemma walk_inj:
  assumes "x \<in> {0..<domain}" "y \<in> {0..<domain}"
    and "cycle_walk pass domain x = cycle_walk pass domain y"
  shows "x = y"
proof -
  obtain k where k: "0 < k" "cycle_walk pass domain x = Some ((pass ^^ k) x)"
    "(pass ^^ k) x \<in> {0..<domain}" "\<And>j. 0 < j \<Longrightarrow> j < k \<Longrightarrow> (pass ^^ j) x \<notin> {0..<domain}"
    by (rule walk_spec [OF assms(1)], rule that, assumption+)
  obtain l where l: "0 < l" "cycle_walk pass domain y = Some ((pass ^^ l) y)"
    "(pass ^^ l) y \<in> {0..<domain}" "\<And>j. 0 < j \<Longrightarrow> j < l \<Longrightarrow> (pass ^^ j) y \<notin> {0..<domain}"
    by (rule walk_spec [OF assms(2)], rule that, assumption+)
  from k(2) l(2) assms(3) have eq: "(pass ^^ k) x = (pass ^^ l) y" by simp
  show ?thesis
  proof (cases "k \<le> l")
    case True
    then show ?thesis by (rule walk_inj_le [OF assms(1,2) _ k(1) eq l(4)])
  next
    case False
    then have "l \<le> k" by simp
    then have "y = x" by (rule walk_inj_le [OF assms(2,1) _ l(1) eq [symmetric] k(4)])
    then show ?thesis by (rule sym)
  qed
qed

lemma walk_bij: "bij_betw (\<lambda>x. the (cycle_walk pass domain x)) {0..<domain} {0..<domain}"
proof -
  let ?f = "\<lambda>x. the (cycle_walk pass domain x)"
  have "inj_on ?f {0..<domain}"
  proof (rule inj_onI)
    fix x y assume "x \<in> {0..<domain}" "y \<in> {0..<domain}" "?f x = ?f y"
    with walk_returns [of x] walk_returns [of y] show "x = y" by (auto intro: walk_inj)
  qed
  moreover have "?f ` {0..<domain} \<subseteq> {0..<domain}" using walk_returns by fastforce
  ultimately show ?thesis by (simp add: bij_betw_def endo_inj_surj)
qed

end

section \<open>The Feistel network\<close>

text \<open>
  One turn of \<^verbatim>\<open>for round_index in range(8)\<close> over \<open>(high, low, high_width)\<close>, and the eight of
  them on one candidate.
\<close>

fun feistel_round :: "nat \<Rightarrow> int \<times> int \<Rightarrow> nat \<Rightarrow> int \<times> int \<times> nat \<Rightarrow> int \<times> int \<times> nat" where
  "feistel_round bits key round_index (high, low, high_width) =
    (let mask = push_bit high_width 1 - 1;
         function = fst (philox4x32_10 (low, int round_index, 3, 0) key) AND mask
     in (low, (high + function) AND mask, bits - high_width))"

definition feistel_pass :: "nat \<Rightarrow> int \<times> int \<Rightarrow> int \<Rightarrow> int" where
  "feistel_pass bits key candidate =
    (let lower_width = bits div 2;
         high_width = bits - lower_width;
         high = drop_bit lower_width candidate;
         low = candidate AND (push_bit lower_width 1 - 1);
         (high, low, _) = fold (feistel_round bits key) [0..<8] (high, low, high_width)
     in push_bit lower_width high OR low)"

definition permutation_key :: "int \<Rightarrow> int \<Rightarrow> int \<times> int" where
  "permutation_key root_seed epoch =
    (let permutation_key = splitmix64 (key64 root_seed epoch XOR 5)
     in (permutation_key AND MASK32, drop_bit 32 permutation_key))"

definition feistel_permute :: "int \<Rightarrow> int \<Rightarrow> int \<Rightarrow> int \<Rightarrow> int run" where
  "feistel_permute root_seed epoch domain position =
    (if domain < FEISTEL_THRESHOLD \<or> \<not> (0 \<le> position \<and> position < domain)
     then Some (Inl (ValueError ''the Feistel permutation requires a domain of at least 131072 and a position inside it''))
     else map_option Inr
       (cycle_walk (feistel_pass (bit_length (domain - 1)) (permutation_key root_seed epoch))
          domain position))"

text \<open>The state of the network between rounds: both halves inside their widths.\<close>

fun halves :: "nat \<Rightarrow> int \<times> int \<times> nat \<Rightarrow> bool" where
  "halves bits (high, low, width) =
    (width \<le> bits \<and> 0 \<le> high \<and> high < 2 ^ width \<and> 0 \<le> low \<and> low < 2 ^ (bits - width))"

lemma mask_and: "x AND (2 ^ n - 1) = take_bit n (x::int)"
  by (simp add: take_bit_eq_mask mask_eq_exp_minus_1)

lemma feistel_round_eq:
  "feistel_round bits key r (high, low, width) =
    (low, take_bit width (high + fst (philox4x32_10 (low, int r, 3, 0) key)), bits - width)"
  by (simp add: Let_def mask_and take_bit_eq_mod mod_simps)

declare feistel_round.simps [simp del]

lemma feistel_round_halves: "halves bits s \<Longrightarrow> halves bits (feistel_round bits key r s)"
  by (cases s) (simp add: feistel_round_eq)

lemma feistel_round_width: "snd (snd (feistel_round bits key r s)) = bits - snd (snd s)"
  by (cases s) (simp add: feistel_round_eq)

lemma feistel_round_inj:
  assumes "halves bits s" "halves bits t" "snd (snd s) = snd (snd t)"
    and eq: "feistel_round bits key r s = feistel_round bits key r t"
  shows "s = t"
proof -
  obtain a b w where s: "s = (a, b, w)" by (cases s)
  obtain c d where t: "t = (c, d, w)" using assms(3) s by (cases t) simp
  define f where "f = fst (philox4x32_10 (b, int r, 3, 0) key)"
  from eq have "b = d" and "take_bit w (a + f) = take_bit w (c + f)"
    by (auto simp: s t feistel_round_eq f_def)
  then have "(a + f) mod 2 ^ w = (c + f) mod 2 ^ w" by (simp add: take_bit_eq_mod)
  then have "a mod 2 ^ w = c mod 2 ^ w"
    by (metis add_diff_cancel_right' mod_diff_left_eq)
  with assms(1,2) \<open>b = d\<close> show ?thesis by (simp add: s t)
qed

lemma fold_feistel_inj:
  "fold (feistel_round bits key) rs s = fold (feistel_round bits key) rs t \<Longrightarrow>
   halves bits s \<Longrightarrow> halves bits t \<Longrightarrow> snd (snd s) = snd (snd t) \<Longrightarrow> s = t"
proof (induction rs arbitrary: s t)
  case (Cons r rs)
  let ?f = "feistel_round bits key r"
  from Cons.prems(1)
  have "fold (feistel_round bits key) rs (?f s) = fold (feistel_round bits key) rs (?f t)"
    by (simp only: fold_simps comp_apply)
  then have "?f s = ?f t"
    by (rule Cons.IH) (use Cons.prems in \<open>simp_all add: feistel_round_halves feistel_round_width\<close>)
  then show ?case by (rule feistel_round_inj [OF Cons.prems(2-4)])
qed simp

lemma fold_feistel_halves:
  "halves bits s \<Longrightarrow> halves bits (fold (feistel_round bits key) rs s)"
  by (induction rs arbitrary: s) (simp_all add: feistel_round_halves del: halves.simps)

lemma feistel_eight_width:
  "w \<le> bits \<Longrightarrow> snd (snd (fold (feistel_round bits key) [0..<8] (h, l, w))) = w"
  by (simp add: upt_rec feistel_round_width)

lemma split_halves:
  assumes "0 \<le> x" "x < 2 ^ bits" "lw \<le> bits"
  shows "halves bits (drop_bit lw x, take_bit lw x, bits - lw)"
proof -
  have "x div 2 ^ lw * 2 ^ lw \<le> x" by (rule div_mult_le) simp
  also have "x < 2 ^ (bits - lw) * 2 ^ lw" using assms by (simp flip: power_add)
  finally have "x div 2 ^ lw < 2 ^ (bits - lw)" by simp
  with assms show ?thesis by (simp add: drop_bit_eq_div pos_imp_zdiv_nonneg_iff)
qed

lemma join_halves:
  assumes "halves bits (h, l, bits - lw)" "lw \<le> bits"
  shows "push_bit lw h OR l = h * 2 ^ lw + l" and "0 \<le> h * 2 ^ lw + l" and "h * 2 ^ lw + l < 2 ^ bits"
proof -
  have l: "0 \<le> l" "l < 2 ^ lw" and h: "0 \<le> h" "h < 2 ^ (bits - lw)" using assms by simp_all
  have low: "bit l n \<Longrightarrow> n < lw" for n
    using l by (metis bit_take_bit_iff take_bit_int_eq_self)
  have "push_bit lw h OR l = push_bit lw h + l"
    by (rule disjunctive_add [symmetric]) (metis low bit_push_bit_iff_int not_le)
  then show "push_bit lw h OR l = h * 2 ^ lw + l" by (simp add: push_bit_eq_mult)
  show "0 \<le> h * 2 ^ lw + l" using l h by simp
  have "h * 2 ^ lw + l < (h + 1) * 2 ^ lw" using l by (simp add: algebra_simps)
  also have "\<dots> \<le> 2 ^ (bits - lw) * 2 ^ lw" using h by (intro mult_right_mono) simp_all
  also have "\<dots> = 2 ^ bits" using assms(2) by (simp flip: power_add)
  finally show "h * 2 ^ lw + l < 2 ^ bits" .
qed

lemma feistel_pass_parts:
  assumes "0 \<le> x" "x < 2 ^ bits"
  obtains h l where
    "fold (feistel_round bits key) [0..<8]
       (drop_bit (bits div 2) x, take_bit (bits div 2) x, bits - bits div 2) = (h, l, bits - bits div 2)"
    "halves bits (h, l, bits - bits div 2)" "feistel_pass bits key x = h * 2 ^ (bits div 2) + l"
proof -
  let ?lw = "bits div 2" and ?fold = "fold (feistel_round bits key) [0..<8]"
  let ?s = "(drop_bit ?lw x, take_bit ?lw x, bits - ?lw)"
  obtain h l w where hl: "?fold ?s = (h, l, w)" by (cases "?fold ?s")
  have "halves bits ?s" using assms by (intro split_halves) simp_all
  then have inside: "halves bits (h, l, w)" using fold_feistel_halves hl by metis
  have w: "w = bits - ?lw"
    using feistel_eight_width [of "bits - ?lw" bits key "drop_bit ?lw x" "take_bit ?lw x"] hl by simp
  have "feistel_pass bits key x = push_bit ?lw h OR l"
    by (simp add: feistel_pass_def Let_def mask_and hl)
  with join_halves(1) [of bits h l ?lw] inside w
  have "feistel_pass bits key x = h * 2 ^ ?lw + l" by simp
  with hl inside w show ?thesis by (intro that [of h l]) simp_all
qed

lemma feistel_pass_range: "0 \<le> x \<Longrightarrow> x < 2 ^ bits \<Longrightarrow> feistel_pass bits key x \<in> {0..<2 ^ bits}"
proof (erule (1) feistel_pass_parts [of x bits key])
  fix h l
  assume "halves bits (h, l, bits - bits div 2)"
    and "feistel_pass bits key x = h * 2 ^ (bits div 2) + l"
  with join_halves(2,3) [of bits h l "bits div 2"] show "feistel_pass bits key x \<in> {0..<2 ^ bits}"
    by simp
qed

lemma feistel_pass_inj: "inj_on (feistel_pass bits key) {0..<2 ^ bits}"
proof (rule inj_onI)
  fix x y :: int
  let ?lw = "bits div 2" and ?fold = "fold (feistel_round bits key) [0..<8]"
  let ?s = "\<lambda>x. (drop_bit ?lw x, take_bit ?lw x, bits - ?lw)"
  assume x: "x \<in> {0..<2 ^ bits}" and y: "y \<in> {0..<2 ^ bits}"
    and eq: "feistel_pass bits key x = feistel_pass bits key y"
  from x have "0 \<le> x" "x < 2 ^ bits" by simp_all
  then obtain h l where hl: "?fold (?s x) = (h, l, bits - ?lw)" "halves bits (h, l, bits - ?lw)"
      "feistel_pass bits key x = h * 2 ^ ?lw + l"
    by (rule feistel_pass_parts)
  from y have "0 \<le> y" "y < 2 ^ bits" by simp_all
  then obtain h' l' where hl': "?fold (?s y) = (h', l', bits - ?lw)" "halves bits (h', l', bits - ?lw)"
      "feistel_pass bits key y = h' * 2 ^ ?lw + l'"
    by (rule feistel_pass_parts)
  have "l < 2 ^ ?lw" "l' < 2 ^ ?lw" "0 \<le> l" "0 \<le> l'" using hl(2) hl'(2) by simp_all
  moreover have "h * 2 ^ ?lw + l = h' * 2 ^ ?lw + l'" using eq hl(3) hl'(3) by simp
  ultimately have "h = h'" "l = l'"
    using digits_unique [of l "2 ^ ?lw" l' h h'] by blast+
  with hl(1) hl'(1) have "?fold (?s x) = ?fold (?s y)" by simp
  then have "?s x = ?s y"
    by (rule fold_feistel_inj) (use x y in \<open>simp_all del: halves.simps add: split_halves\<close>)
  then have "drop_bit ?lw x = drop_bit ?lw y" "take_bit ?lw x = take_bit ?lw y" by simp_all
  then show "x = y" by (metis bits_ident)
qed

lemma domain_fits: "domain \<le> 2 ^ bit_length (domain - 1)"
proof (cases "domain \<le> 0")
  case False
  then show ?thesis using bit_length_upper [of "domain - 1"] by simp
qed (simp add: order.trans [of _ 0])

interpretation feistel: walkable "feistel_pass (bit_length (domain - 1)) key" domain
  "2 ^ bit_length (domain - 1)"
  by unfold_locales (use feistel_pass_range in \<open>auto simp: domain_fits feistel_pass_inj\<close>)

lemma feistel_permute_total:
  assumes "FEISTEL_THRESHOLD \<le> domain"
  shows "\<exists>f. (\<forall>position. 0 \<le> position \<and> position < domain \<longrightarrow>
             feistel_permute root_seed epoch domain position = Some (Inr (f position)))
           \<and> bij_betw f {0..<domain} {0..<domain}"
proof -
  let ?walk = "cycle_walk (feistel_pass (bit_length (domain - 1)) (permutation_key root_seed epoch)) domain"
  have "feistel_permute root_seed epoch domain p = Some (Inr (the (?walk p)))"
    if p: "0 \<le> p \<and> p < domain" for p
  proof -
    obtain y where "?walk p = Some y"
      using p feistel.walk_returns [of p domain "permutation_key root_seed epoch"] by auto
    with p assms show ?thesis by (simp add: feistel_permute_def not_less)
  qed
  then show ?thesis
    using feistel.walk_bij [of domain "permutation_key root_seed epoch"]
    by (intro exI [of _ "\<lambda>p. the (?walk p)"] conjI allI impI)
qed

text \<open>
  C34: The cycle-walking loop of \<^verbatim>\<open>feistel_permute\<close> always exits, and for every domain of at least
  131072, every seed and every epoch the positions are mapped one to one onto the domain.
\<close>

theorem feistel_permute_bij:
  assumes "FEISTEL_THRESHOLD \<le> domain"
  shows "\<exists>f. (\<forall>position. 0 \<le> position \<and> position < domain \<longrightarrow>
             feistel_permute root_seed epoch domain position = Some (Inr (f position)))
           \<and> bij_betw f {0..<domain} {0..<domain}"
  using assms by (rule feistel_permute_total)

theorem feistel_permute_bij_witness:
  "FEISTEL_THRESHOLD \<le> 1000003 \<and>
   (\<exists>f. feistel_permute 1701 3 1000003 999999 = Some (Inr (f (999999::int)))
     \<and> bij_betw f {0..<1000003::int} {0..<1000003})"
proof -
  have "FEISTEL_THRESHOLD \<le> 1000003" by (simp add: FEISTEL_THRESHOLD_eq)
  with feistel_permute_bij [of 1000003 1701 3] show ?thesis by fastforce
qed

section \<open>The materialised permutation\<close>

text \<open>
  The rejection loop: draw words until one is below the largest multiple of \<open>upper\<close>.  The value
  is the selected slot and the next draw ordinal.
\<close>

definition draw_word :: "int \<times> int \<Rightarrow> int \<Rightarrow> int" where
  "draw_word key draw_ordinal = fst (philox4x32_10 (draw_ordinal, 8, 3, 0) key)"

definition draw_limit :: "int \<Rightarrow> int" where
  "draw_limit upper = push_bit 32 1 - push_bit 32 1 mod upper"

partial_function (option) draw_below :: "int \<times> int \<Rightarrow> int \<Rightarrow> int \<Rightarrow> (int \<times> int) option" where
  "draw_below key upper draw_ordinal =
    (let word = draw_word key draw_ordinal in
     if word < draw_limit upper then Some (word mod upper, draw_ordinal + 1)
     else draw_below key upper (draw_ordinal + 1))"

text \<open>The simultaneous assignment of two slots.\<close>

definition swap_slots :: "'a list \<Rightarrow> nat \<Rightarrow> nat \<Rightarrow> 'a list" where
  "swap_slots xs i j = xs[i := xs ! j, j := xs ! i]"

fun fisher_yates :: "int \<times> int \<Rightarrow> int list \<Rightarrow> int list \<Rightarrow> int \<Rightarrow> int list option" where
  "fisher_yates key [] permutation draw_ordinal = Some permutation"
| "fisher_yates key (upper # uppers) permutation draw_ordinal =
    (case draw_below key upper draw_ordinal of
       None \<Rightarrow> None
     | Some (selected, draw_ordinal') \<Rightarrow>
         fisher_yates key uppers (swap_slots permutation (nat (upper - 1)) (nat selected)) draw_ordinal')"

definition materialized_permutation :: "int \<Rightarrow> int \<Rightarrow> int \<Rightarrow> int list run" where
  "materialized_permutation root_seed epoch domain =
    (if \<not> (0 \<le> domain \<and> domain < FEISTEL_THRESHOLD)
     then Some (Inl (ValueError ''the materialized permutation requires a domain smaller than 131072''))
     else map_option Inr
       (fisher_yates (permutation_key root_seed epoch) (rev (irange 2 (domain + 1)))
          (irange 0 domain) 0))"

definition permutation_index :: "int \<Rightarrow> int \<Rightarrow> int \<Rightarrow> int \<Rightarrow> int run" where
  "permutation_index root_seed epoch domain position =
    (if \<not> (0 \<le> position \<and> position < domain)
     then Some (Inl (ValueError ''the permutation position must be inside its domain''))
     else if domain < FEISTEL_THRESHOLD
     then obind (materialized_permutation root_seed epoch domain)
            (\<lambda>permutation. Some (Inr (permutation ! nat position)))
     else feistel_permute root_seed epoch domain position)"

subsection \<open>Termination of the rejection loop\<close>

text \<open>Philox sees the draw ordinal modulo \<open>2^32\<close>, so the draws are periodic.\<close>

lemma draw_word_periodic: "draw_word key (take_bit 32 ordinal) = draw_word key ordinal"
  by (simp add: draw_word_def philox_masks_counter)

lemma draw_word_range: "0 \<le> draw_word key n" "draw_word key n < 2 ^ 32"
  using philox_range [of "(n, 8, 3, 0)" key]
  by (cases "philox4x32_10 (n, 8, 3, 0) key"; simp add: draw_word_def)+

lemma draw_below_accepts:
  "draw_word key (ordinal + int k) < draw_limit upper \<Longrightarrow>
   \<exists>selected ordinal'. draw_below key upper ordinal = Some (selected, ordinal')"
proof (induction k arbitrary: ordinal)
  case 0
  then show ?case by (subst draw_below.simps) simp
next
  case (Suc k)
  show ?case
  proof (cases "draw_word key ordinal < draw_limit upper")
    case True
    then show ?thesis by (subst draw_below.simps) simp
  next
    case False
    have "draw_word key (ordinal + 1 + int k) < draw_limit upper"
      using Suc.prems by (simp add: add_ac)
    from Suc.IH [OF this] False show ?thesis by (subst draw_below.simps) simp
  qed
qed

lemma draw_below_returns:
  assumes "draw_word key counter < draw_limit upper"
  shows "\<exists>selected ordinal'. draw_below key upper ordinal = Some (selected, ordinal')"
proof -
  define k where "k = nat ((counter - ordinal) mod 2 ^ 32)"
  have "(ordinal + int k) mod 2 ^ 32 = counter mod 2 ^ 32"
    by (simp add: k_def mod_simps)
  then have "draw_word key (ordinal + int k) = draw_word key counter"
    by (metis draw_word_periodic take_bit_eq_mod)
  with assms show ?thesis by (intro draw_below_accepts [of key ordinal k upper]) simp
qed

lemma draw_below_range:
  assumes ret: "draw_below key upper ordinal = Some (selected, ordinal')" and upper: "0 < upper"
  shows "0 \<le> selected \<and> selected < upper"
proof -
  have "0 < upper \<longrightarrow> 0 \<le> fst r \<and> fst r < upper"
    if "draw_below key upper ordinal = Some r" for r
  proof (rule draw_below.raw_induct [where P = "\<lambda>key upper ordinal r. 0 < upper \<longrightarrow> 0 \<le> fst r \<and> fst r < upper", OF _ that])
    fix f key upper ordinal r
    assume "\<And>key upper ordinal r. f key upper ordinal = Some r \<Longrightarrow> 0 < upper \<longrightarrow> 0 \<le> fst r \<and> fst r < (upper::int)"
      and "(let word = draw_word key ordinal in if word < draw_limit upper
             then Some (word mod upper, ordinal + 1) else f key upper (ordinal + 1)) = Some (r::int \<times> int)"
    then show "0 < upper \<longrightarrow> 0 \<le> fst r \<and> fst r < upper"
      by (auto simp: Let_def split: if_splits)
  qed
  with ret upper show ?thesis by fastforce
qed

subsection \<open>The result is a permutation\<close>

lemma length_swap_slots [simp]: "length (swap_slots xs i j) = length xs"
  by (simp add: swap_slots_def)

lemma mset_swap_slots [simp]:
  "i < length xs \<Longrightarrow> j < length xs \<Longrightarrow> mset (swap_slots xs i j) = mset xs"
  by (simp add: swap_slots_def mset_swap)

lemma fisher_yates_mset:
  "fisher_yates key uppers xs ordinal = Some ys \<Longrightarrow>
   \<forall>u \<in> set uppers. 0 < u \<and> u \<le> int (length xs) \<Longrightarrow> mset ys = mset xs"
proof (induction uppers arbitrary: xs ordinal)
  case (Cons u us)
  from Cons.prems obtain s o' where d: "draw_below key u ordinal = Some (s, o')"
    and rest: "fisher_yates key us (swap_slots xs (nat (u - 1)) (nat s)) o' = Some ys"
    by (auto split: option.splits)
  have "nat (u - 1) < length xs" "nat s < length xs"
    using Cons.prems(2) draw_below_range [OF d] by auto
  with Cons.IH [OF rest] Cons.prems(2) show ?case by simp
qed simp

lemma fisher_yates_returns:
  "\<forall>u \<in> set uppers. \<exists>c. draw_word key c < draw_limit u \<Longrightarrow>
   \<exists>ys. fisher_yates key uppers xs ordinal = Some ys"
proof (induction uppers arbitrary: xs ordinal)
  case (Cons u us)
  then obtain s o' where "draw_below key u ordinal = Some (s, o')"
    using draw_below_returns by (metis list.set_intros(1))
  with Cons show ?case by simp
qed simp

lemma draw_limit_lower: "0 < upper \<Longrightarrow> 2 ^ 32 - upper < draw_limit upper"
  by (simp add: draw_limit_def)

lemma materialized_permutation_total:
  assumes "0 \<le> domain" "domain < FEISTEL_THRESHOLD"
    and accepted: "draw_word (permutation_key root_seed epoch) counter < 2 ^ 32 - FEISTEL_THRESHOLD"
  shows "\<exists>permutation. materialized_permutation root_seed epoch domain = Some (Inr permutation)
    \<and> mset permutation = mset (irange 0 domain)"
proof -
  let ?key = "permutation_key root_seed epoch" and ?uppers = "rev (irange 2 (domain + 1))"
  have "draw_word ?key counter < draw_limit u" if "u \<in> set ?uppers" for u
    using that assms draw_limit_lower [of u] by (simp add: FEISTEL_THRESHOLD_eq)
  then obtain ys where ys: "fisher_yates ?key ?uppers (irange 0 domain) 0 = Some ys"
    using fisher_yates_returns by blast
  have "mset ys = mset (irange 0 domain)"
    by (rule fisher_yates_mset [OF ys]) (use assms in auto)
  with ys assms show ?thesis by (simp add: materialized_permutation_def)
qed

text \<open>
  Whenever the 32-bit stream of the epoch key holds one word below \<open>2^32 - 131072\<close>, the
  rejection loops of \<^verbatim>\<open>materialized_permutation\<close> all exit, from any draw ordinal and for every
  domain below 131072, and the result lists every position of the domain exactly once.
\<close>

theorem materialized_permutation_correct:
  assumes "0 \<le> domain" "domain < FEISTEL_THRESHOLD"
    and accepted: "draw_word (permutation_key root_seed epoch) counter < 2 ^ 32 - FEISTEL_THRESHOLD"
  shows "\<exists>permutation. materialized_permutation root_seed epoch domain = Some (Inr permutation)
    \<and> mset permutation = mset (irange 0 domain)"
  using assms by (rule materialized_permutation_total)

theorem materialized_permutation_correct_witness:
  "\<exists>permutation. materialized_permutation 1701 0 100000 = Some (Inr permutation)
    \<and> mset permutation = mset (irange 0 100000)"
proof (rule materialized_permutation_correct)
  show "draw_word (permutation_key 1701 0) 0 < 2 ^ 32 - FEISTEL_THRESHOLD" by code_simp
qed (simp_all add: FEISTEL_THRESHOLD_eq)

end
