(* ===== verification/Placement.thy ===== *)
theory Placement
  imports Permutation
begin

text \<open>
  The sampler stream of map-style datasets: the plans' position-to-index maps
  (\<^verbatim>\<open>planner/black_box.py\<close>, \<^verbatim>\<open>tensor.py\<close>, \<^verbatim>\<open>stages.py\<close>, \<^verbatim>\<open>structured/plan.py\<close>), the rank-local
  placement of \<^verbatim>\<open>distributed/map.py\<close>, the topology capture of \<^verbatim>\<open>distributed/runtime.py\<close> and the
  placement function of \<^verbatim>\<open>fallback/rng.py\<close>.
\<close>

section \<open>Index plans\<close>

record index_plan =
  plan_length :: int
  plan_shuffle :: bool

definition sampler_index :: "string \<Rightarrow> index_plan \<Rightarrow> int \<Rightarrow> int \<Rightarrow> int \<Rightarrow> int run" where
  "sampler_index message plan root_seed epoch position =
    (if \<not> (0 \<le> position \<and> position < plan_length plan) then Some (Inl (IndexError message))
     else if \<not> plan_shuffle plan then Some (Inr position)
     else permutation_index root_seed epoch (plan_length plan) position)"

definition black_box_index :: "index_plan \<Rightarrow> int \<Rightarrow> int \<Rightarrow> int \<Rightarrow> int run" where
  "black_box_index = sampler_index ''sampler position is outside the dataset''"

definition tensor_index :: "index_plan \<Rightarrow> int \<Rightarrow> int \<Rightarrow> int \<Rightarrow> int run" where
  "tensor_index = sampler_index ''sampler position is outside the dataset''"

definition stage_index :: "index_plan \<Rightarrow> int \<Rightarrow> int \<Rightarrow> int \<Rightarrow> int run" where
  "stage_index = sampler_index ''sampler position is outside the pipeline source''"

definition structure_index :: "index_plan \<Rightarrow> int \<Rightarrow> int \<Rightarrow> int \<Rightarrow> int run" where
  "structure_index = sampler_index ''sampler position is outside the structured dataset''"

text \<open>
  \<^verbatim>\<open>len(dataset)\<close> as the builder sees it: it raises \<^verbatim>\<open>TypeError\<close> on an unsized dataset, and may
  return something that is no integer.
\<close>

datatype sized = Unsized | Boolean_length bool | Other_length | Integer_length int

definition build_black_box_plan :: "sized \<Rightarrow> bool option \<Rightarrow> index_plan option res" where
  "build_black_box_plan dataset shuffle =
    (case dataset of
       Unsized \<Rightarrow> Inr None
     | Boolean_length _ \<Rightarrow> Inl (ValueError ''dataset length must be a nonnegative integer'')
     | Other_length \<Rightarrow> Inl (ValueError ''dataset length must be a nonnegative integer'')
     | Integer_length n \<Rightarrow>
         if n < 0 then Inl (ValueError ''dataset length must be a nonnegative integer'')
         else Inr (Some \<lparr>plan_length = n, plan_shuffle = (shuffle = Some True)\<rparr>))"

section \<open>Topology\<close>

record topology =
  topo_rank :: int
  topo_world_size :: int
  topo_enabled :: bool
  topo_discovered :: bool

text \<open>The argument \<open>runtime\<close> is what \<^verbatim>\<open>torch.distributed\<close> reports: nothing, or rank and world size.\<close>

fun capture_topology :: "int auto \<Rightarrow> int auto \<Rightarrow> (int \<times> int) option \<Rightarrow> topology res" where
  "capture_topology AUTO AUTO runtime =
    (case runtime of
       None \<Rightarrow> Inr \<lparr>topo_rank = 0, topo_world_size = 1, topo_enabled = False, topo_discovered = False\<rparr>
     | Some (runtime_rank, runtime_world_size) \<Rightarrow>
         Inr \<lparr>topo_rank = runtime_rank, topo_world_size = runtime_world_size,
              topo_enabled = True, topo_discovered = True\<rparr>)"
| "capture_topology (Explicit rank) (Explicit world_size) runtime =
    Inr \<lparr>topo_rank = rank, topo_world_size = world_size, topo_enabled = True, topo_discovered = False\<rparr>"
| "capture_topology _ _ runtime =
    Inl (TypeError ''distributed rank and world_size must both be explicit or both be auto'')"

definition validate_runtime_topology :: "topology \<Rightarrow> (int \<times> int) option \<Rightarrow> unit res" where
  "validate_runtime_topology topology runtime =
    (case runtime of
       None \<Rightarrow> Inr ()
     | Some (runtime_rank, runtime_world_size) \<Rightarrow>
         if (runtime_rank, runtime_world_size) = (topo_rank topology, topo_world_size topology)
         then Inr ()
         else Inl (RuntimeError ''torch.distributed topology changed after DataLoader construction''))"

section \<open>Rank-local placement\<close>

record map_placement =
  mp_dataset_length :: int
  mp_batch_size :: int
  mp_rank :: int
  mp_world_size :: int
  mp_drop_last :: bool
  mp_exact_count :: bool
  mp_enabled :: bool

definition global_batch :: "map_placement \<Rightarrow> int" where
  "global_batch p = mp_batch_size p * mp_world_size p"

definition placement_length :: "map_placement \<Rightarrow> int res" where
  "placement_length p =
    (if \<not> mp_enabled p then
       (if mp_drop_last p
        then rmap (\<lambda>(_, r). mp_dataset_length p - r) (py_divmod (mp_dataset_length p) (mp_batch_size p))
        else Inr (mp_dataset_length p))
     else rbind (py_divmod (mp_dataset_length p) (global_batch p)) (\<lambda>(full_batches, tail).
       let full_length = full_batches * mp_batch_size p in
       if mp_drop_last p \<or> tail = 0 then Inr full_length
       else if mp_exact_count p then
         rbind (py_divmod (mp_rank p * tail) (mp_world_size p)) (\<lambda>(start, _).
         rbind (py_divmod ((mp_rank p + 1) * tail) (mp_world_size p)) (\<lambda>(stop, _).
           Inr (full_length + stop - start)))
       else Inr ((full_batches + 1) * mp_batch_size p)))"

definition placement_identity :: "map_placement \<Rightarrow> bool res" where
  "placement_identity p =
    (if \<not> mp_enabled p then Inr True
     else if mp_world_size p \<noteq> 1 then Inr False
     else rmap (\<lambda>n. n = mp_dataset_length p) (placement_length p))"

definition batch_transport_safe :: "map_placement \<Rightarrow> bool res" where
  "batch_transport_safe p = placement_identity p"

definition coordinate :: "map_placement \<Rightarrow> int \<Rightarrow> int res" where
  "coordinate p position =
    rbind (placement_length p) (\<lambda>n.
      if \<not> (0 \<le> position \<and> position < n)
      then Inl (IndexError ''rank-local sampler position is outside the placement'')
      else if \<not> mp_enabled p then Inr position
      else rbind (py_divmod (mp_dataset_length p) (global_batch p)) (\<lambda>(full_batches, tail).
        let full_length = full_batches * mp_batch_size p in
        if position < full_length then
          rbind (py_divmod position (mp_batch_size p)) (\<lambda>(batch, offset).
            Inr (batch * global_batch p + mp_rank p * mp_batch_size p + offset))
        else if mp_exact_count p \<and> tail \<noteq> 0 then
          rbind (py_divmod (mp_rank p * tail) (mp_world_size p)) (\<lambda>(tail_start, _).
            Inr (full_batches * global_batch p + tail_start + position - full_length))
        else
          rbind (py_divmod position (mp_batch_size p)) (\<lambda>(batch, offset).
            Inr (batch * global_batch p + mp_rank p * mp_batch_size p + offset))))"

text \<open>\<^verbatim>\<open>MapPlacement.index\<close>, with the plan's \<^verbatim>\<open>index\<close> method as argument.\<close>

definition placement_index ::
  "(int \<Rightarrow> int \<Rightarrow> int \<Rightarrow> int run) \<Rightarrow> map_placement \<Rightarrow> int \<Rightarrow> int \<Rightarrow> int \<Rightarrow> int run" where
  "placement_index plan p root_seed epoch position =
    obind (returns (coordinate p position)) (\<lambda>c.
      if c < mp_dataset_length p then plan root_seed epoch c
      else obind (returns (py_divmod (c - mp_dataset_length p) (mp_dataset_length p))) (\<lambda>(_, r).
        plan root_seed epoch r))"

definition build_map_placement ::
  "int \<Rightarrow> int option \<Rightarrow> bool \<Rightarrow> bool \<Rightarrow> int auto \<Rightarrow> int auto \<Rightarrow> (int \<times> int) option \<Rightarrow>
   (topology \<times> map_placement) res" where
  "build_map_placement plan_len loader_batch_size loader_drop_last loader_exact_count cfg_rank cfg_world runtime =
    rbind (capture_topology cfg_rank cfg_world runtime) (\<lambda>t.
      Inr (t, \<lparr>mp_dataset_length = plan_len,
               mp_batch_size = (case loader_batch_size of None \<Rightarrow> 1 | Some b \<Rightarrow> if b = 0 then 1 else b),
               mp_rank = topo_rank t, mp_world_size = topo_world_size t, mp_drop_last = loader_drop_last,
               mp_exact_count = loader_exact_count, mp_enabled = topo_enabled t\<rparr>))"

definition validate_elastic_restore :: "int \<Rightarrow> bool \<Rightarrow> bool \<Rightarrow> int \<Rightarrow> int option \<Rightarrow> unit res" where
  "validate_elastic_restore recorded has_sampler has_batch_sampler placement_world loader_batch_size =
    (if recorded = 0 \<or> has_sampler \<or> has_batch_sampler then Inr ()
     else rbind (py_divmod recorded placement_world) (\<lambda>(required, remainder).
       if remainder \<noteq> 0
       then Inl (ValueError ''recorded B_g cannot resume: the required per-rank batch_size is not an integer'')
       else if (case loader_batch_size of None \<Rightarrow> 1 | Some b \<Rightarrow> if b = 0 then 1 else b) \<noteq> required
       then Inl (ValueError ''recorded B_g requires another per-rank batch_size'')
       else Inr ()))"

section \<open>The placement function of the fallback engine\<close>

definition placement_positions :: "int \<Rightarrow> int \<Rightarrow> int \<Rightarrow> int \<Rightarrow> bool \<Rightarrow> bool \<Rightarrow> (int \<times> int) list" where
  \<comment> \<open>the two loops of \<open>rank_placements\<close>: each position with the source it reads\<close>
  "placement_positions dataset_len batch_size world_size rank drop_last exact_count =
    (let global_batch = batch_size * world_size;
         full_end = dataset_len div global_batch * global_batch;
         regular_end = (if drop_last \<or> exact_count then full_end
                        else (dataset_len + global_batch - 1) div global_batch * global_batch);
         regular = concat (map (\<lambda>k.
           let rank_start = k * global_batch + rank * batch_size in
           map (\<lambda>position.
             (position, if position < dataset_len then position
                        else (position - dataset_len) mod dataset_len))
             (irange rank_start (rank_start + batch_size)))
           (irange 0 (regular_end div global_batch)));
         tail_size = dataset_len - full_end;
         rank_start = full_end + rank * tail_size div world_size;
         rank_end = full_end + (rank + 1) * tail_size div world_size
     in regular @
        (if exact_count \<and> \<not> drop_last
         then map (\<lambda>position. (position, position)) (irange rank_start rank_end) else []))"

definition rank_placements ::
  "int \<Rightarrow> int \<Rightarrow> int \<Rightarrow> int \<Rightarrow> int \<Rightarrow> int \<Rightarrow> bool \<Rightarrow> bool \<Rightarrow> (int \<times> int) list run" where
  "rank_placements root_seed epoch dataset_len batch_size world_size rank drop_last exact_count =
    (if batch_size \<le> 0 \<or> world_size \<le> 0 \<or> \<not> (0 \<le> rank \<and> rank < world_size)
     then Some (Inl (ValueError ''invalid placement configuration''))
     else if dataset_len = 0 then Some (Inr [])
     else
       let visits = placement_positions dataset_len batch_size world_size rank drop_last exact_count in
       if dataset_len < FEISTEL_THRESHOLD
       then obind (materialized_permutation root_seed epoch dataset_len) (\<lambda>permutation.
              otraverse (\<lambda>(position, source). Some (Inr (position, permutation ! nat source))) visits)
       else otraverse (\<lambda>(position, source).
              obind (feistel_permute root_seed epoch dataset_len source)
                (\<lambda>index. Some (Inr (position, index)))) visits)"

section \<open>Every plan visits every position once\<close>

text \<open>
  What the placement needs of a plan: below its length the index map returns, and it is one to
  one onto the dataset.
\<close>

lemma image_mset_bij_irange:
  assumes "bij_betw f {0..<n} {0..<n}"
  shows "image_mset f (mset (irange 0 n)) = mset (irange 0 n)"
proof -
  have "mset (map f (irange 0 n)) = mset (irange 0 n)"
  proof (rule set_eq_iff_mset_eq_distinct [THEN iffD1])
    show "distinct (map f (irange 0 n))" using assms by (simp add: distinct_map bij_betw_def)
    show "set (map f (irange 0 n)) = set (irange 0 n)" using assms by (simp add: bij_betw_def)
  qed simp
  then show ?thesis by simp
qed

locale index_stream =
  fixes index :: "int \<Rightarrow> int run" and n :: int
  assumes index_bij: "\<exists>f. (\<forall>i. 0 \<le> i \<and> i < n \<longrightarrow> index i = Some (Inr (f i))) \<and> bij_betw f {0..<n} {0..<n}"
begin

lemma visits:
  assumes "set ps \<subseteq> {0..<n}"
  shows "\<exists>f. otraverse index ps = Some (Inr (map f ps)) \<and> bij_betw f {0..<n} {0..<n}"
proof -
  obtain f where f: "\<And>i. 0 \<le> i \<Longrightarrow> i < n \<Longrightarrow> index i = Some (Inr (f i))"
    and bij: "bij_betw f {0..<n} {0..<n}"
    using index_bij by blast
  have "otraverse index ps = Some (Inr (map f ps))"
    by (rule otraverse_Some, rule f) (use assms in auto)
  with bij show ?thesis by blast
qed

text \<open>Reading a list that mentions every position once delivers every index once.\<close>

lemma visits_all_once:
  assumes "mset ps = mset (irange 0 n)"
  shows "\<exists>is. otraverse index ps = Some (Inr is) \<and> mset is = mset (irange 0 n)"
proof -
  have "set ps \<subseteq> {0..<n}" using assms by (metis set_irange set_mset_mset subset_refl)
  from visits [OF this] obtain f
    where f: "otraverse index ps = Some (Inr (map f ps))" and bij: "bij_betw f {0..<n} {0..<n}" by blast
  have "mset (map f ps) = image_mset f (mset (irange 0 n))" by (simp add: assms)
  also have "\<dots> = mset (irange 0 n)" using bij by (rule image_mset_bij_irange)
  finally show ?thesis using f by blast
qed

end

interpretation sequential: index_stream
  "black_box_index \<lparr>plan_length = n, plan_shuffle = False\<rparr> root_seed epoch" n
  by unfold_locales
    (auto simp: black_box_index_def sampler_index_def intro!: exI [of _ "\<lambda>i. i"] bij_betwI')

lemma nth_bij:
  assumes "mset xs = mset (irange 0 n)" "0 \<le> n"
  shows "bij_betw (\<lambda>i. xs ! nat i) {0..<n} {0..<n}"
proof -
  have "distinct xs" using assms(1) by (metis distinct_irange mset_eq_imp_distinct_iff)
  have len: "length xs = nat n" using assms by (metis length_irange mset_eq_length diff_zero)
  have set: "set xs = {0..<n}" using assms(1) by (metis set_irange mset_eq_setD)
  have "bij_betw ((!) xs) {..<nat n} (set xs)"
    using \<open>distinct xs\<close> len by (intro bij_betw_nth) simp_all
  moreover have "bij_betw nat {0..<n} {..<nat n}"
    using assms(2) by (intro bij_betw_byWitness [where f' = int]) auto
  ultimately show ?thesis using set bij_betw_trans [of nat _ _ "(!) xs"] by (simp add: comp_def)
qed

text \<open>The stream of acceptable draws that the small domains need.\<close>

definition shuffle_returns :: "int \<Rightarrow> int \<Rightarrow> int \<Rightarrow> bool" where
  "shuffle_returns root_seed epoch n \<longleftrightarrow>
    (n < FEISTEL_THRESHOLD \<longrightarrow>
      (\<exists>permutation. materialized_permutation root_seed epoch n = Some (Inr permutation)))"

lemma materialized_permutation_mset:
  assumes "materialized_permutation root_seed epoch n = Some (Inr xs)"
  shows "mset xs = mset (irange 0 n)"
proof -
  from assms have n: "0 \<le> n"
    and fy: "fisher_yates (permutation_key root_seed epoch) (rev (irange 2 (n + 1))) (irange 0 n) 0 = Some xs"
    by (auto simp: materialized_permutation_def split: if_splits)
  show ?thesis by (rule fisher_yates_mset [OF fy]) (use n in auto)
qed

lemma permutation_index_stream:
  assumes "shuffle_returns root_seed epoch n" "0 \<le> n"
  shows "index_stream (permutation_index root_seed epoch n) n"
proof (cases "n < FEISTEL_THRESHOLD")
  case True
  with assms(1) obtain xs where xs: "materialized_permutation root_seed epoch n = Some (Inr xs)"
    by (auto simp: shuffle_returns_def)
  have "\<forall>i. 0 \<le> i \<and> i < n \<longrightarrow> permutation_index root_seed epoch n i = Some (Inr (xs ! nat i))"
    using True xs by (simp add: permutation_index_def)
  with nth_bij [OF materialized_permutation_mset [OF xs] assms(2)] show ?thesis
    by unfold_locales (intro exI [of _ "\<lambda>i. xs ! nat i"] conjI)
next
  case False
  then have "FEISTEL_THRESHOLD \<le> n" by simp
  from feistel_permute_total [OF this, of root_seed epoch] obtain f
    where f: "\<forall>i. 0 \<le> i \<and> i < n \<longrightarrow> feistel_permute root_seed epoch n i = Some (Inr (f i))"
      and bij: "bij_betw f {0..<n} {0..<n}" by blast
  have "\<forall>i. 0 \<le> i \<and> i < n \<longrightarrow> permutation_index root_seed epoch n i = Some (Inr (f i))"
    using False f by (simp add: permutation_index_def)
  with bij show ?thesis by unfold_locales (intro exI [of _ f] conjI)
qed

lemma sampler_index_stream:
  assumes "plan_length plan = n" "0 \<le> n" "plan_shuffle plan \<Longrightarrow> shuffle_returns root_seed epoch n"
  shows "index_stream (sampler_index message plan root_seed epoch) n"
proof (cases "plan_shuffle plan")
  case True
  with assms have "index_stream (permutation_index root_seed epoch n) n"
    by (intro permutation_index_stream) simp_all
  then obtain f where "\<forall>i. 0 \<le> i \<and> i < n \<longrightarrow> permutation_index root_seed epoch n i = Some (Inr (f i))"
    "bij_betw f {0..<n} {0..<n}"
    using index_stream.index_bij by blast
  with True assms(1) show ?thesis
    by (intro index_stream.intro exI [of _ f]) (simp add: sampler_index_def)
next
  case False
  with assms(1) show ?thesis
    by unfold_locales (auto simp: sampler_index_def intro!: exI [of _ "\<lambda>i. i"] bij_betwI')
qed

section \<open>Rank streams\<close>

text \<open>A placement over a valid topology.\<close>

definition placement_ok :: "map_placement \<Rightarrow> bool" where
  "placement_ok p \<longleftrightarrow> mp_enabled p \<and> 0 \<le> mp_dataset_length p \<and> 0 < mp_batch_size p \<and>
     0 < mp_world_size p \<and> 0 \<le> mp_rank p \<and> mp_rank p < mp_world_size p"

text \<open>The boundary of the partial last batch that belongs to one rank.\<close>

definition tail_bound :: "map_placement \<Rightarrow> int \<Rightarrow> int" where
  "tail_bound p r = r * (mp_dataset_length p mod global_batch p) div mp_world_size p"

text \<open>How many whole local batches a rank delivers, and its share of the tail.\<close>

definition whole_batches :: "map_placement \<Rightarrow> int" where
  "whole_batches p =
    (if mp_drop_last p \<or> mp_exact_count p \<or> mp_dataset_length p mod global_batch p = 0
     then mp_dataset_length p div global_batch p else mp_dataset_length p div global_batch p + 1)"

definition tail_share :: "map_placement \<Rightarrow> int list" where
  "tail_share p =
    (if mp_exact_count p \<and> \<not> mp_drop_last p
     then irange (mp_dataset_length p div global_batch p * global_batch p + tail_bound p (mp_rank p))
                 (mp_dataset_length p div global_batch p * global_batch p + tail_bound p (mp_rank p + 1))
     else [])"

definition local_batch :: "map_placement \<Rightarrow> int \<Rightarrow> int list" where
  "local_batch p k =
    irange (k * global_batch p + mp_rank p * mp_batch_size p)
           (k * global_batch p + mp_rank p * mp_batch_size p + mp_batch_size p)"

definition rank_stream :: "map_placement \<Rightarrow> int list res" where
  "rank_stream p = rbind (placement_length p) (\<lambda>n. rtraverse (coordinate p) (irange 0 n))"

lemma global_batch_pos: "placement_ok p \<Longrightarrow> 0 < global_batch p"
  by (simp add: placement_ok_def global_batch_def)

lemma tail_bound_mono:
  assumes "placement_ok p" "r \<le> s"
  shows "tail_bound p r \<le> tail_bound p s"
  using assms global_batch_pos [OF assms(1)]
  by (auto simp: tail_bound_def placement_ok_def intro!: zdiv_mono1 mult_right_mono)

lemma whole_batches_nonneg: "placement_ok p \<Longrightarrow> 0 \<le> whole_batches p"
  using global_batch_pos [of p] by (simp add: whole_batches_def placement_ok_def pos_imp_zdiv_nonneg_iff)

lemma placement_length_ok:
  assumes ok: "placement_ok p"
  shows "placement_length p = Inr (whole_batches p * mp_batch_size p + int (length (tail_share p)))"
  using assms global_batch_pos [OF ok] tail_bound_mono [OF ok, of "mp_rank p" "mp_rank p + 1"]
  by (auto simp: placement_length_def placement_ok_def whole_batches_def tail_share_def Let_def
      tail_bound_def algebra_simps)

lemma coordinate_regular:
  assumes ok: "placement_ok p" and pos: "0 \<le> i" "i < whole_batches p * mp_batch_size p"
  shows "coordinate p i = Inr (i div mp_batch_size p * global_batch p
    + mp_rank p * mp_batch_size p + i mod mp_batch_size p)"
  using assms global_batch_pos [OF ok]
  by (auto simp: coordinate_def placement_length_ok [OF ok] placement_ok_def Let_def whole_batches_def
      split: if_splits)

lemma coordinate_tail:
  assumes ok: "placement_ok p"
    and j: "0 \<le> j" "j < int (length (tail_share p))"
  shows "coordinate p (whole_batches p * mp_batch_size p + j) = Inr (tail_share p ! nat j)"
  using assms global_batch_pos [OF ok] whole_batches_nonneg [OF ok]
  by (auto simp: coordinate_def placement_length_ok [OF ok] placement_ok_def Let_def whole_batches_def
      tail_share_def tail_bound_def split: if_splits)

lemma window_of_batch:
  assumes ok: "placement_ok p"
  shows "map (\<lambda>i. i div mp_batch_size p * global_batch p + mp_rank p * mp_batch_size p + i mod mp_batch_size p)
      (irange (k * mp_batch_size p) ((k + 1) * mp_batch_size p)) = local_batch p k"
    (is "map ?f ?window = _")
proof (rule nth_equalityI)
  let ?B = "mp_batch_size p"
  have B: "0 < ?B" using ok by (simp add: placement_ok_def)
  fix i assume i: "i < length (map ?f ?window)"
  then have "i < nat ?B" by (simp add: algebra_simps)
  then have d: "(k * ?B + int i) div ?B = k" "(k * ?B + int i) mod ?B = int i"
    using B by (simp_all only: int_add_mult_div)
  have "map ?f ?window ! i = ?f (k * ?B + int i)" using i by simp
  also have "\<dots> = local_batch p k ! i"
    using \<open>i < nat ?B\<close> by (simp only: d) (simp add: local_batch_def)
  finally show "map ?f ?window ! i = local_batch p k ! i" .
qed (simp add: local_batch_def algebra_simps)

text \<open>The local batches, concatenated, are the regular part of the stream.\<close>

lemma regular_stream:
  assumes ok: "placement_ok p" and m: "0 \<le> m"
  shows "map (\<lambda>i. i div mp_batch_size p * global_batch p + mp_rank p * mp_batch_size p + i mod mp_batch_size p)
      (irange 0 (m * mp_batch_size p)) = concat (map (local_batch p) (irange 0 m))"
  using m
proof (induction "nat m" arbitrary: m)
  case 0
  then show ?case by simp
next
  case (Suc k)
  let ?B = "mp_batch_size p"
  let ?f = "\<lambda>i. i div ?B * global_batch p + mp_rank p * ?B + i mod ?B"
  have B: "0 < ?B" using ok by (simp add: placement_ok_def)
  have split: "irange 0 (m * ?B) = irange 0 ((m - 1) * ?B) @ irange ((m - 1) * ?B) (m * ?B)"
    using Suc.hyps(2) B by (intro irange_append [symmetric]) (simp_all add: algebra_simps)
  have "map ?f (irange ((m - 1) * ?B) (m * ?B)) = local_batch p (m - 1)"
    using window_of_batch [OF ok, of "m - 1"] by simp
  moreover have "map ?f (irange 0 ((m - 1) * ?B)) = concat (map (local_batch p) (irange 0 (m - 1)))"
    using Suc.hyps by (intro Suc.hyps(1)) simp_all
  ultimately show ?case using Suc.hyps(2) by (simp add: split irange_snoc [of 0 m])
qed

lemma rank_stream_ok:
  assumes ok: "placement_ok p"
  shows "rank_stream p = Inr (concat (map (local_batch p) (irange 0 (whole_batches p))) @ tail_share p)"
proof -
  let ?n = "whole_batches p * mp_batch_size p" and ?t = "int (length (tail_share p))"
  let ?g = "\<lambda>i. if i < ?n then i div mp_batch_size p * global_batch p + mp_rank p * mp_batch_size p
      + i mod mp_batch_size p else tail_share p ! nat (i - ?n)"
  have n: "0 \<le> ?n" using whole_batches_nonneg [OF ok] ok by (simp add: placement_ok_def)
  have "rank_stream p = rtraverse (coordinate p) (irange 0 (?n + ?t))"
    by (simp add: rank_stream_def placement_length_ok [OF ok])
  also have "\<dots> = Inr (map ?g (irange 0 (?n + ?t)))"
  proof (rule rtraverse_Inr)
    fix i assume "i \<in> set (irange 0 (?n + ?t))"
    then show "coordinate p i = Inr (?g i)"
      using coordinate_regular [OF ok, of i] coordinate_tail [OF ok, of "i - ?n"] by auto
  qed
  also have "map ?g (irange 0 (?n + ?t)) = map ?g (irange 0 ?n) @ map ?g (irange ?n (?n + ?t))"
    using n by (simp add: irange_append flip: map_append)
  also have "map ?g (irange ?n (?n + ?t)) = tail_share p"
    by (rule nth_equalityI) simp_all
  also have "map ?g (irange 0 ?n) = concat (map (local_batch p) (irange 0 (whole_batches p)))"
    unfolding regular_stream [OF ok whole_batches_nonneg [OF ok], symmetric]
    by (rule map_cong) simp_all
  finally show ?thesis .
qed

text \<open>The placements of all ranks of one topology.\<close>

abbreviation at_rank :: "map_placement \<Rightarrow> int \<Rightarrow> map_placement" where
  "at_rank p r \<equiv> p\<lparr>mp_rank := r\<rparr>"

lemma at_rank_simps [simp]:
  "global_batch (at_rank p r) = global_batch p"
  "whole_batches (at_rank p r) = whole_batches p"
  "tail_bound (at_rank p r) = tail_bound p"
  by (simp_all add: global_batch_def whole_batches_def tail_bound_def fun_eq_iff)

lemma at_rank_ok: "placement_ok p \<Longrightarrow> 0 \<le> r \<Longrightarrow> r < mp_world_size p \<Longrightarrow> placement_ok (at_rank p r)"
  by (simp add: placement_ok_def)

lemma global_batch_of_ranks:
  assumes ok: "placement_ok p"
  shows "concat (map (\<lambda>r. local_batch (at_rank p r) k) (irange 0 (mp_world_size p)))
    = irange (k * global_batch p) ((k + 1) * global_batch p)"
proof -
  let ?f = "\<lambda>r. k * global_batch p + r * mp_batch_size p"
  have "concat (map (\<lambda>r. irange (?f r) (?f (r + 1))) (irange 0 (mp_world_size p)))
      = irange (?f 0) (?f (mp_world_size p))"
    by (rule conjunct1, rule concat_irange_mono) (use ok in \<open>auto simp: placement_ok_def algebra_simps\<close>)
  moreover have "?f (mp_world_size p) = (k + 1) * global_batch p"
    by (simp add: global_batch_def algebra_simps)
  ultimately show ?thesis by (simp add: local_batch_def algebra_simps)
qed

text \<open>Where the stream of all ranks ends.\<close>

definition stream_end :: "map_placement \<Rightarrow> int" where
  "stream_end p =
    (if mp_exact_count p \<and> \<not> mp_drop_last p then mp_dataset_length p
     else whole_batches p * global_batch p)"

lemma tail_of_ranks:
  assumes ok: "placement_ok p"
  shows "concat (map (\<lambda>r. tail_share (at_rank p r)) (irange 0 (mp_world_size p)))
    = irange (whole_batches p * global_batch p) (stream_end p)"
proof (cases "mp_exact_count p \<and> \<not> mp_drop_last p")
  case True
  let ?stop = "mp_dataset_length p div global_batch p * global_batch p"
  let ?f = "\<lambda>r. ?stop + tail_bound p r"
  have "concat (map (\<lambda>r. irange (?f r) (?f (r + 1))) (irange 0 (mp_world_size p)))
      = irange (?f 0) (?f (mp_world_size p))"
    by (rule conjunct1, rule concat_irange_mono)
      (use ok tail_bound_mono [OF ok] in \<open>auto simp: placement_ok_def\<close>)
  moreover have "?f 0 = whole_batches p * global_batch p"
    using True by (simp add: tail_bound_def whole_batches_def)
  moreover have "?f (mp_world_size p) = mp_dataset_length p"
    using ok by (simp add: tail_bound_def placement_ok_def)
  ultimately show ?thesis using True by (simp add: tail_share_def stream_end_def)
next
  case False
  then show ?thesis by (auto simp: tail_share_def stream_end_def)
qed

lemma mset_concat_irange: "mset (concat (map f (irange 0 n))) = (\<Sum>k\<in>{0..<n}. mset (f k))"
  by (simp add: mset_concat sum_list_distinct_conv_sum_set flip: set_irange)

lemma mset_global_stream:
  assumes ok: "placement_ok p"
  shows "(\<Sum>r\<in>{0..<mp_world_size p}.
      mset (concat (map (local_batch (at_rank p r)) (irange 0 (whole_batches p))) @ tail_share (at_rank p r)))
    = mset (irange 0 (stream_end p))"
proof -
  let ?W = "mp_world_size p" and ?m = "whole_batches p" and ?G = "global_batch p"
  have "(\<Sum>r\<in>{0..<?W}. mset (concat (map (local_batch (at_rank p r)) (irange 0 ?m))))
      = (\<Sum>k\<in>{0..<?m}. mset (concat (map (\<lambda>r. local_batch (at_rank p r) k) (irange 0 ?W))))"
    by (simp only: mset_concat_irange) (rule sum.swap)
  also have "\<dots> = mset (concat (map (\<lambda>k. irange (k * ?G) ((k + 1) * ?G)) (irange 0 ?m)))"
    by (simp only: global_batch_of_ranks [OF ok] mset_concat_irange)
  also have "\<dots> = mset (irange 0 (?m * ?G))"
    using concat_irange_mono [of ?m "\<lambda>k. k * ?G"] whole_batches_nonneg [OF ok] global_batch_pos [OF ok]
    by (simp add: algebra_simps)
  finally have regular: "(\<Sum>r\<in>{0..<?W}. mset (concat (map (local_batch (at_rank p r)) (irange 0 ?m))))
      = mset (irange 0 (?m * ?G))" .
  have tail: "(\<Sum>r\<in>{0..<?W}. mset (tail_share (at_rank p r))) = mset (irange (?m * ?G) (stream_end p))"
    by (simp only: tail_of_ranks [OF ok] flip: mset_concat_irange)
  have "?m * ?G \<le> stream_end p"
    using ok global_batch_pos [OF ok] div_mult_le [of ?G "mp_dataset_length p"]
    by (auto simp: stream_end_def whole_batches_def)
  moreover have "0 \<le> ?m * ?G" using whole_batches_nonneg [OF ok] global_batch_pos [OF ok] by simp
  ultimately have join: "mset (irange 0 (?m * ?G)) + mset (irange (?m * ?G) (stream_end p))
      = mset (irange 0 (stream_end p))"
    by (simp add: irange_append flip: mset_append)
  show ?thesis by (simp only: mset_append sum.distrib regular tail join)
qed

text \<open>
  The rank streams of one topology partition the global stream: taken together, the
  coordinates the ranks deliver are every position below the stream's end, each exactly once.
  With \<^verbatim>\<open>exact_count\<close> the end is the dataset length; otherwise it is the dataset length rounded
  down (\<^verbatim>\<open>drop_last\<close>) or up (padding) to whole global batches.
\<close>

theorem rank_streams_partition:
  assumes "placement_ok p"
  shows "\<exists>stream. (\<forall>r. 0 \<le> r \<and> r < mp_world_size p \<longrightarrow> rank_stream (at_rank p r) = Inr (stream r))
    \<and> (\<Sum>r\<in>{0..<mp_world_size p}. mset (stream r)) = mset (irange 0 (stream_end p))"
proof -
  let ?s = "\<lambda>r. concat (map (local_batch (at_rank p r)) (irange 0 (whole_batches p))) @ tail_share (at_rank p r)"
  have "rank_stream (at_rank p r) = Inr (?s r)" if "0 \<le> r" "r < mp_world_size p" for r
    using rank_stream_ok [OF at_rank_ok [OF assms that]] by simp
  with mset_global_stream [OF assms] show ?thesis
    by (intro exI [of _ ?s]) simp
qed

definition sample_placement :: map_placement where
  "sample_placement = \<lparr>mp_dataset_length = 11, mp_batch_size = 2, mp_rank = 0, mp_world_size = 2,
     mp_drop_last = False, mp_exact_count = True, mp_enabled = True\<rparr>"

theorem rank_streams_partition_witness:
  "\<exists>stream. rank_stream (at_rank sample_placement 1) = Inr (stream (1::int))
    \<and> mset (stream 0) + mset (stream 1) = mset (irange 0 11)"
proof -
  have ok: "placement_ok sample_placement" by (simp add: placement_ok_def sample_placement_def)
  have W: "mp_world_size sample_placement = 2" "stream_end sample_placement = 11"
    by (simp_all add: sample_placement_def stream_end_def)
  from rank_streams_partition [OF ok] obtain stream :: "int \<Rightarrow> int list" where
    r: "\<forall>r. 0 \<le> r \<and> r < 2 \<longrightarrow> rank_stream (at_rank sample_placement r) = Inr (stream r)" and
    s: "(\<Sum>r\<in>{0..<2}. mset (stream r)) = mset (irange 0 11)"
    unfolding W by blast
  have "{0..<2} = {0, 1::int}" by auto
  with s have "mset (stream 0) + mset (stream 1) = mset (irange 0 11)" by simp
  moreover from r have "rank_stream (at_rank sample_placement 1) = Inr (stream 1)" by simp
  ultimately show ?thesis by blast
qed

text \<open>
  The global stream does not depend on the topology: the \<open>k\<close>-th whole batches of all ranks,
  in rank order, are the \<open>k\<close>-th window of the global batch size.  Two topologies with the same
  global batch therefore deliver the same global batches in the same order, which is what an
  elastic resume relies on.
\<close>

theorem global_batches_topology_free:
  assumes "placement_ok p" "placement_ok q" and "global_batch p = global_batch q"
  shows "concat (map (\<lambda>r. local_batch (at_rank p r) k) (irange 0 (mp_world_size p)))
       = concat (map (\<lambda>r. local_batch (at_rank q r) k) (irange 0 (mp_world_size q)))
    \<and> (0 \<le> r \<and> r < mp_world_size p \<and> 0 \<le> k \<and> k < whole_batches p \<longrightarrow>
      rtraverse (coordinate (at_rank p r)) (irange (k * mp_batch_size p) ((k + 1) * mp_batch_size p))
        = Inr (local_batch (at_rank p r) k))"
proof (intro conjI impI)
  show "concat (map (\<lambda>r. local_batch (at_rank p r) k) (irange 0 (mp_world_size p)))
       = concat (map (\<lambda>r. local_batch (at_rank q r) k) (irange 0 (mp_world_size q)))"
    using assms by (simp add: global_batch_of_ranks)
next
  assume "0 \<le> r \<and> r < mp_world_size p \<and> 0 \<le> k \<and> k < whole_batches p"
  then have r: "0 \<le> r" "r < mp_world_size p" and k: "0 \<le> k" "k < whole_batches p" by simp_all
  let ?p = "at_rank p r" and ?B = "mp_batch_size p"
  let ?g = "\<lambda>i. i div ?B * global_batch p + r * ?B + i mod ?B"
  have ok: "placement_ok ?p" using assms(1) r by (rule at_rank_ok)
  have B: "0 < ?B" using assms(1) by (simp add: placement_ok_def)
  have "rtraverse (coordinate ?p) (irange (k * ?B) ((k + 1) * ?B))
      = Inr (map ?g (irange (k * ?B) ((k + 1) * ?B)))"
  proof (rule rtraverse_Inr)
    fix i assume i: "i \<in> set (irange (k * ?B) ((k + 1) * ?B))"
    have "(k + 1) * ?B \<le> whole_batches p * ?B" using k(2) B by (intro mult_right_mono) simp_all
    moreover have "0 \<le> k * ?B" using k(1) B by simp
    ultimately show "coordinate ?p i = Inr (?g i)"
      using coordinate_regular [OF ok, of i] i by auto
  qed
  also have "map ?g (irange (k * ?B) ((k + 1) * ?B)) = local_batch ?p k"
    using window_of_batch [OF ok, of k] by (simp add: algebra_simps)
  finally show "rtraverse (coordinate ?p) (irange (k * ?B) ((k + 1) * ?B)) = Inr (local_batch ?p k)" .
qed

theorem global_batches_topology_free_witness:
  "concat (map (\<lambda>r. local_batch (at_rank sample_placement r) 1) (irange 0 2))
    = concat (map (\<lambda>r. local_batch (at_rank (sample_placement\<lparr>mp_world_size := 4, mp_batch_size := 1\<rparr>) r) 1)
        (irange 0 4))
   \<and> rtraverse (coordinate (at_rank sample_placement 1)) (irange 2 4) = Inr [6, 7]"
proof -
  let ?q = "sample_placement\<lparr>mp_world_size := 4, mp_batch_size := 1\<rparr>"
  have ok: "placement_ok sample_placement" "placement_ok ?q" "global_batch sample_placement = global_batch ?q"
    by (simp_all add: placement_ok_def sample_placement_def global_batch_def)
  have W: "mp_world_size sample_placement = 2" "mp_batch_size sample_placement = 2"
    "mp_world_size ?q = 4" "whole_batches sample_placement = 2"
    by (simp_all add: sample_placement_def whole_batches_def global_batch_def)
  have "local_batch (at_rank sample_placement 1) 1 = [6, 7]"
    by (simp add: local_batch_def sample_placement_def global_batch_def irange_def upto_rec1)
  with global_batches_topology_free [OF ok, of 1 1]
  show ?thesis by (simp add: W)
qed

section \<open>An epoch over all ranks\<close>

lemma stream_nonneg:
  assumes ok: "placement_ok p"
    and c: "c \<in> set (concat (map (local_batch p) (irange 0 (whole_batches p))) @ tail_share p)"
  shows "0 \<le> c"
proof -
  have G: "0 < global_batch p" by (rule global_batch_pos [OF ok])
  consider k where "0 \<le> k" "c \<in> set (local_batch p k)" | "c \<in> set (tail_share p)"
    using c by auto
  then show ?thesis
  proof cases
    case 1
    moreover have "0 \<le> k * global_batch p" "0 \<le> mp_rank p * mp_batch_size p"
      using 1 G ok by (simp_all add: placement_ok_def)
    ultimately show ?thesis by (simp add: local_batch_def)
  next
    case 2
    have "0 \<le> tail_bound p (mp_rank p)"
      using tail_bound_mono [OF ok, of 0 "mp_rank p"] ok by (simp add: tail_bound_def placement_ok_def)
    moreover have "0 \<le> mp_dataset_length p div global_batch p * global_batch p"
      using ok G by (simp add: placement_ok_def pos_imp_zdiv_nonneg_iff)
    ultimately show ?thesis using 2 by (auto simp: tail_share_def split: if_splits)
  qed
qed

lemma placement_index_stream:
  assumes ok: "placement_ok p" and exact: "mp_exact_count p" "\<not> mp_drop_last p"
    and r: "0 \<le> r" "r < mp_world_size p"
    and stream: "rank_stream (at_rank p r) = Inr cs" and n: "placement_length (at_rank p r) = Inr n"
    and below: "set cs \<subseteq> {0..<mp_dataset_length p}"
  shows "otraverse (placement_index plan (at_rank p r) root_seed epoch) (irange 0 n)
    = otraverse (plan root_seed epoch) cs"
proof -
  have "rtraverse (coordinate (at_rank p r)) (irange 0 n) = Inr cs"
    using stream n by (simp add: rank_stream_def)
  from otraverse_returns [OF this] have
    "otraverse (placement_index plan (at_rank p r) root_seed epoch) (irange 0 n)
     = otraverse (\<lambda>c. if c < mp_dataset_length p then plan root_seed epoch c
         else obind (returns (py_divmod (c - mp_dataset_length p) (mp_dataset_length p)))
           (\<lambda>(_, s). plan root_seed epoch s)) cs"
    by (simp add: placement_index_def [abs_def] cong: if_cong)
  also have "\<dots> = otraverse (plan root_seed epoch) cs"
    by (rule otraverse_cong) (use below in auto)
  finally show ?thesis .
qed

text \<open>
  C30: Under \<^verbatim>\<open>exact_count\<close> an epoch delivers every dataset element exactly once over all ranks,
  whatever the topology, for the sequential sampler and for the shuffled one.
\<close>

theorem exact_epoch_covers_dataset:
  assumes ok: "placement_ok p" and exact: "mp_exact_count p" "\<not> mp_drop_last p"
    and plan: "plan_length plan = mp_dataset_length p"
    and shuffle: "plan_shuffle plan \<Longrightarrow> shuffle_returns root_seed epoch (mp_dataset_length p)"
  shows "\<exists>indices. (\<forall>r. 0 \<le> r \<and> r < mp_world_size p \<longrightarrow>
      (\<exists>n. placement_length (at_rank p r) = Inr n \<and>
        otraverse (placement_index (black_box_index plan) (at_rank p r) root_seed epoch) (irange 0 n)
          = Some (Inr (indices r))))
    \<and> (\<Sum>r\<in>{0..<mp_world_size p}. mset (indices r)) = mset (irange 0 (mp_dataset_length p))"
proof -
  let ?W = "mp_world_size p" and ?n = "mp_dataset_length p"
  let ?s = "\<lambda>r. concat (map (local_batch (at_rank p r)) (irange 0 (whole_batches p))) @ tail_share (at_rank p r)"
  have "0 \<le> ?n" using ok by (simp add: placement_ok_def)
  then have "index_stream (black_box_index plan root_seed epoch) ?n"
    unfolding black_box_index_def using plan shuffle by (intro sampler_index_stream)
  then obtain f where f: "\<forall>i. 0 \<le> i \<and> i < ?n \<longrightarrow> black_box_index plan root_seed epoch i = Some (Inr (f i))"
    and bij: "bij_betw f {0..<?n} {0..<?n}" using index_stream.index_bij by blast
  have all: "mset (concat (map ?s (irange 0 ?W))) = mset (irange 0 ?n)"
    using mset_global_stream [OF ok] exact by (simp only: mset_concat_irange stream_end_def) simp
  have below: "set (?s r) \<subseteq> {0..<?n}" if "0 \<le> r" "r < ?W" for r
  proof -
    have "set (?s r) \<subseteq> set (concat (map ?s (irange 0 ?W)))" using that by auto
    then show ?thesis using mset_eq_setD [OF all] by (simp only: set_irange)
  qed
  have reads: "\<exists>n. placement_length (at_rank p r) = Inr n \<and>
      otraverse (placement_index (black_box_index plan) (at_rank p r) root_seed epoch) (irange 0 n)
        = Some (Inr (map f (?s r)))" if r: "0 \<le> r" "r < ?W" for r
  proof -
    note okr = at_rank_ok [OF ok r]
    have "rank_stream (at_rank p r) = Inr (?s r)" using rank_stream_ok [OF okr] by simp
    from placement_index_stream [OF ok exact r this placement_length_ok [OF okr] below [OF r]]
    have "otraverse (placement_index (black_box_index plan) (at_rank p r) root_seed epoch)
        (irange 0 (whole_batches (at_rank p r) * mp_batch_size (at_rank p r) + int (length (tail_share (at_rank p r)))))
      = otraverse (black_box_index plan root_seed epoch) (?s r)" .
    also have "\<dots> = Some (Inr (map f (?s r)))"
      by (rule otraverse_Some) (use f below [OF r] in auto)
    finally show ?thesis using placement_length_ok [OF okr] by blast
  qed
  have "(\<Sum>r\<in>{0..<?W}. mset (map f (?s r))) = image_mset f (mset (irange 0 ?n))"
    by (simp only: mset_concat_irange [symmetric] all [symmetric] flip: mset_map)
      (simp add: map_concat comp_def)
  also have "\<dots> = mset (irange 0 ?n)"
    using bij by (rule image_mset_bij_irange)
  finally show ?thesis using reads by (intro exI [of _ "\<lambda>r. map f (?s r)"]) blast
qed

theorem exact_epoch_covers_dataset_witness:
  "\<exists>indices. (\<exists>n. placement_length (at_rank sample_placement 1) = Inr n \<and>
      otraverse (placement_index (black_box_index \<lparr>plan_length = 11, plan_shuffle = True\<rparr>)
        (at_rank sample_placement 1) 1701 0) (irange 0 n) = Some (Inr (indices (1::int))))
    \<and> (\<Sum>r\<in>{0..<2}. mset (indices r)) = mset (irange 0 11)"
proof -
  have "draw_word (permutation_key 1701 0) 0 < 2 ^ 32 - FEISTEL_THRESHOLD" by code_simp
  then have "shuffle_returns 1701 0 11"
    using materialized_permutation_total [of 11 1701 0 0]
    by (auto simp: shuffle_returns_def FEISTEL_THRESHOLD_eq)
  moreover have "placement_ok sample_placement" "mp_exact_count sample_placement"
    "\<not> mp_drop_last sample_placement" "mp_dataset_length sample_placement = 11"
    "mp_world_size sample_placement = 2"
    by (simp_all add: sample_placement_def placement_ok_def)
  ultimately obtain indices :: "int \<Rightarrow> int list" where
    *: "\<forall>r. 0 \<le> r \<and> r < 2 \<longrightarrow> (\<exists>n. placement_length (at_rank sample_placement r) = Inr n \<and>
        otraverse (placement_index (black_box_index \<lparr>plan_length = 11, plan_shuffle = True\<rparr>)
          (at_rank sample_placement r) 1701 0) (irange 0 n) = Some (Inr (indices r)))"
      "(\<Sum>r\<in>{0..<2}. mset (indices r)) = mset (irange 0 11)"
    using exact_epoch_covers_dataset [of sample_placement "\<lparr>plan_length = 11, plan_shuffle = True\<rparr>" 1701 0]
    by (auto simp del: otraverse.simps)
  then have "\<exists>n. placement_length (at_rank sample_placement 1) = Inr n \<and>
        otraverse (placement_index (black_box_index \<lparr>plan_length = 11, plan_shuffle = True\<rparr>)
          (at_rank sample_placement 1) 1701 0) (irange 0 n) = Some (Inr (indices 1))"
    by simp
  with *(2) show ?thesis by (intro exI [of _ indices] conjI)
qed

section \<open>The fallback engine agrees with the placement\<close>

text \<open>One entry of \<^verbatim>\<open>rank_placements\<close>, computed by the placement object.\<close>

definition placed_entry ::
  "(int \<Rightarrow> int \<Rightarrow> int \<Rightarrow> int run) \<Rightarrow> map_placement \<Rightarrow> int \<Rightarrow> int \<Rightarrow> int \<Rightarrow> (int \<times> int) run" where
  "placed_entry plan p root_seed epoch position =
    obind (returns (coordinate p position)) (\<lambda>c.
      obind (placement_index plan p root_seed epoch position) (\<lambda>index. Some (Inr (c, index))))"

definition source_of :: "map_placement \<Rightarrow> int \<Rightarrow> int" where
  "source_of p c = (if c < mp_dataset_length p then c else (c - mp_dataset_length p) mod mp_dataset_length p)"

lemma source_of_range: "0 < mp_dataset_length p \<Longrightarrow> 0 \<le> c \<Longrightarrow> 0 \<le> source_of p c \<and> source_of p c < mp_dataset_length p"
  by (simp add: source_of_def)

lemma placed_entry_eq:
  assumes "mp_dataset_length p \<noteq> 0"
  shows "placed_entry plan p root_seed epoch i =
    obind (returns (coordinate p i)) (\<lambda>c.
      obind (plan root_seed epoch (source_of p c)) (\<lambda>index. Some (Inr (c, index))))"
  using assms by (cases "coordinate p i") (simp_all add: placed_entry_def placement_index_def source_of_def)

lemma placement_positions_stream:
  assumes ok: "placement_ok p"
  shows "placement_positions (mp_dataset_length p) (mp_batch_size p) (mp_world_size p) (mp_rank p)
      (mp_drop_last p) (mp_exact_count p)
    = map (\<lambda>c. (c, source_of p c))
        (concat (map (local_batch p) (irange 0 (whole_batches p))) @ tail_share p)"
proof -
  let ?n = "mp_dataset_length p" and ?G = "global_batch p"
  have G: "0 < ?G" by (rule global_batch_pos [OF ok])
  have "(?n + ?G - 1) div ?G = (if ?n mod ?G = 0 then ?n div ?G else ?n div ?G + 1)"
    using G by (rule ceil_div)
  then have batches: "(if mp_drop_last p \<or> mp_exact_count p then ?n div ?G * ?G
      else (?n + ?G - 1) div ?G * ?G) div ?G = whole_batches p"
    using G by (simp add: whole_batches_def)
  have tail: "c < ?n" if "c \<in> set (tail_share p)" for c
  proof -
    from that have c: "c < ?n div ?G * ?G + tail_bound p (mp_rank p + 1)"
      by (auto simp: tail_share_def split: if_splits)
    have "tail_bound p (mp_rank p + 1) \<le> tail_bound p (mp_world_size p)"
      using ok by (intro tail_bound_mono) (simp_all add: placement_ok_def)
    also have "\<dots> = ?n mod ?G" using ok by (simp add: tail_bound_def placement_ok_def)
    finally show ?thesis using c by (smt (verit) div_mult_mod_eq)
  qed
  have "map (\<lambda>c. (c, source_of p c)) (tail_share p) = map (\<lambda>c. (c, c)) (tail_share p)"
    using tail by (simp add: source_of_def)
  moreover have "mp_batch_size p * mp_world_size p = ?G" "?n - ?n div ?G * ?G = ?n mod ?G"
    by (simp_all add: global_batch_def minus_div_mult_eq_mod)
  ultimately show ?thesis
    by (simp add: placement_positions_def Let_def batches map_concat comp_def)
      (simp add: local_batch_def source_of_def tail_share_def tail_bound_def)
qed

text \<open>
  The fallback engine's \<^verbatim>\<open>rank_placements\<close> and the placement object agree: wherever the
  shuffle returns, the list the engine computes is the coordinate and the permuted index that
  \<^verbatim>\<open>MapPlacement.coordinate\<close> and \<^verbatim>\<open>MapPlacement.index\<close> give for every local position, in order.
\<close>

theorem rank_placements_agree:
  assumes ok: "placement_ok p" and n: "0 < mp_dataset_length p"
    and shuffle: "shuffle_returns root_seed epoch (mp_dataset_length p)"
  shows "rank_placements root_seed epoch (mp_dataset_length p) (mp_batch_size p) (mp_world_size p)
      (mp_rank p) (mp_drop_last p) (mp_exact_count p)
    = obind (returns (placement_length p)) (\<lambda>length.
        otraverse (placed_entry
          (black_box_index \<lparr>plan_length = mp_dataset_length p, plan_shuffle = True\<rparr>) p root_seed epoch)
          (irange 0 length))"
proof -
  let ?n = "mp_dataset_length p"
  let ?index = "black_box_index \<lparr>plan_length = ?n, plan_shuffle = True\<rparr> root_seed epoch"
  let ?entry = "\<lambda>c. obind (?index (source_of p c)) (\<lambda>index. Some (Inr (c, index)))"
  define cs where "cs = concat (map (local_batch p) (irange 0 (whole_batches p))) @ tail_share p"
  have stream: "rank_stream p = Inr cs" unfolding cs_def by (rule rank_stream_ok [OF ok])
  obtain m where m: "placement_length p = Inr m" "rtraverse (coordinate p) (irange 0 m) = Inr cs"
    using stream placement_length_ok [OF ok] by (auto simp: rank_stream_def)
  have src: "0 \<le> source_of p c \<and> source_of p c < ?n" if "c \<in> set cs" for c
    using that unfolding cs_def by (intro source_of_range [OF n] stream_nonneg [OF ok])
  have "rank_placements root_seed epoch ?n (mp_batch_size p) (mp_world_size p) (mp_rank p)
      (mp_drop_last p) (mp_exact_count p) = otraverse ?entry cs"
  proof (cases "?n < FEISTEL_THRESHOLD")
    case True
    then obtain xs where xs: "materialized_permutation root_seed epoch ?n = Some (Inr xs)"
      using shuffle by (auto simp: shuffle_returns_def)
    have "otraverse (\<lambda>c. Some (Inr (c, xs ! nat (source_of p c)))) cs = otraverse ?entry cs"
      by (rule otraverse_cong)
        (use True xs src in \<open>simp add: black_box_index_def sampler_index_def permutation_index_def\<close>)
    with True ok n xs show ?thesis
      by (simp add: rank_placements_def placement_ok_def Let_def placement_positions_stream [OF ok]
          otraverse_map flip: cs_def)
  next
    case False
    have "otraverse (\<lambda>c. obind (feistel_permute root_seed epoch ?n (source_of p c))
        (\<lambda>index. Some (Inr (c, index)))) cs = otraverse ?entry cs"
      by (rule otraverse_cong)
        (use False src in \<open>simp add: black_box_index_def sampler_index_def permutation_index_def\<close>)
    with False ok n show ?thesis
      by (simp add: rank_placements_def placement_ok_def Let_def placement_positions_stream [OF ok]
          otraverse_map flip: cs_def)
  qed
  also have "\<dots> = otraverse (placed_entry (black_box_index \<lparr>plan_length = ?n, plan_shuffle = True\<rparr>) p
      root_seed epoch) (irange 0 m)"
    unfolding otraverse_returns [OF m(2), symmetric]
    by (rule otraverse_cong, rule placed_entry_eq [symmetric]) (use n in simp)
  finally show ?thesis by (simp add: m(1))
qed

theorem rank_placements_agree_witness:
  "rank_placements 1701 0 11 2 2 0 False True
    = obind (returns (placement_length sample_placement)) (\<lambda>length.
        otraverse (placed_entry (black_box_index \<lparr>plan_length = 11, plan_shuffle = True\<rparr>)
          sample_placement 1701 0) (irange 0 length))"
proof -
  have "draw_word (permutation_key 1701 0) 0 < 2 ^ 32 - FEISTEL_THRESHOLD" by code_simp
  then have "shuffle_returns 1701 0 11"
    using materialized_permutation_total [of 11 1701 0 0]
    by (auto simp: shuffle_returns_def FEISTEL_THRESHOLD_eq)
  then show ?thesis
    using rank_placements_agree [of sample_placement 1701 0]
    by (simp add: sample_placement_def placement_ok_def)
qed

end
