(* ===== verification/Collections.thy ===== *)
theory Collections
  imports Prelude "HOL-Library.FSet" "HOL-Library.AList"
begin

text \<open>
  The containers of the source.  A \<^verbatim>\<open>dict\<close> is an association list with distinct keys:
  \<open>AList.update\<close> overwrites in place and appends a new key, which is the insertion order Python
  keeps, and \<open>AList.delete\<close> is \<^verbatim>\<open>del\<close>.  A \<^verbatim>\<open>set\<close> is a finite set.  The last section is the
  loop two components share: advancing a contiguous base over positions delivered ahead of it.
\<close>

section \<open>Dictionaries\<close>

type_synonym ('k, 'v) dict = "('k \<times> 'v) list"

abbreviation dict_get :: "('k, 'v) dict \<Rightarrow> 'k \<Rightarrow> 'v option" where
  "dict_get \<equiv> map_of"

abbreviation dict_set :: "'k \<Rightarrow> 'v \<Rightarrow> ('k, 'v) dict \<Rightarrow> ('k, 'v) dict" where
  "dict_set \<equiv> AList.update"

abbreviation dict_del :: "'k \<Rightarrow> ('k, 'v) dict \<Rightarrow> ('k, 'v) dict" where
  "dict_del \<equiv> AList.delete"

definition dict_keys :: "('k, 'v) dict \<Rightarrow> 'k set" where
  "dict_keys d = fst ` set d"

definition dict_ok :: "('k, 'v) dict \<Rightarrow> bool" where
  "dict_ok d \<longleftrightarrow> distinct (map fst d)"

lemma dict_ok_Nil [simp]: "dict_ok []"
  by (simp add: dict_ok_def)

lemma dict_ok_set [simp]: "dict_ok d \<Longrightarrow> dict_ok (dict_set k v d)"
  by (simp add: dict_ok_def distinct_update)

lemma dict_ok_del [simp]: "dict_ok d \<Longrightarrow> dict_ok (dict_del k d)"
  by (simp add: dict_ok_def distinct_delete)

lemma dict_get_set [simp]: "dict_get (dict_set k v d) = (dict_get d)(k \<mapsto> v)"
  by (simp add: update_conv')

lemma dict_get_del [simp]: "dict_get (dict_del k d) = (dict_get d)(k := None)"
  by (simp add: delete_conv')

lemma dict_keys_dom: "dict_keys d = dom (dict_get d)"
  by (simp add: dict_keys_def dom_map_of_conv_image_fst)

lemma dict_keys_Nil [simp]: "dict_keys [] = {}"
  by (simp add: dict_keys_def)

lemma dict_keys_Cons [simp]: "dict_keys (x # d) = insert (fst x) (dict_keys d)"
  by (simp add: dict_keys_def)

lemma dict_keys_empty [simp]: "dict_keys d = {} \<longleftrightarrow> d = []"
  by (simp add: dict_keys_def)

lemma finite_dict_keys [simp]: "finite (dict_keys d)"
  by (simp add: dict_keys_def)

lemma dict_get_None: "dict_get d k = None \<longleftrightarrow> k \<notin> dict_keys d"
  by (simp add: dict_keys_def map_of_eq_None_iff)

lemma dict_get_keys: "dict_get d k = Some v \<Longrightarrow> k \<in> dict_keys d"
  by (metis dict_get_None option.distinct(1))

lemma dict_keys_get: "k \<in> dict_keys d \<Longrightarrow> \<exists>v. dict_get d k = Some v"
  by (metis dict_get_None not_None_eq)

lemma dict_keys_set [simp]: "dict_keys (dict_set k v d) = insert k (dict_keys d)"
  by (simp add: dict_keys_dom)

lemma dict_keys_del [simp]: "dict_keys (dict_del k d) = dict_keys d - {k}"
  by (simp add: dict_keys_dom)

lemma length_dict: "dict_ok d \<Longrightarrow> length d = card (dict_keys d)"
  by (metis dict_keys_def dict_ok_def distinct_card length_map list.set_map)

lemma length_dict_set_new: "k \<notin> dict_keys d \<Longrightarrow> dict_set k v d = d @ [(k, v)]"
  by (induction d) auto

lemma length_dict_set_old: "k \<in> dict_keys d \<Longrightarrow> length (dict_set k v d) = length d"
  by (induction d) auto

section \<open>A contiguous base and the positions ahead of it\<close>

function advance_base :: "int \<Rightarrow> int fset \<Rightarrow> int \<times> int fset" where
  "advance_base base ahead =
    (if base |\<in>| ahead then advance_base (base + 1) (ahead |-| {|base|}) else (base, ahead))"
  by pat_completeness auto
termination
proof (relation "measure (\<lambda>(base, ahead). fcard ahead)")
  fix base :: int and ahead
  assume "base |\<in>| ahead"
  moreover from this have "fcard ahead \<noteq> 0" by (metis fcard_0_eq fempty_iff)
  ultimately show "((base + 1, ahead |-| {|base|}), base, ahead) \<in> measure (\<lambda>(base, ahead). fcard ahead)"
    by (simp add: fcard_fminus_fsingleton_if flip: fcard_0_eq)
qed simp

declare advance_base.simps [simp del]

text \<open>Everything delivered: what is below the base, and what is ahead of it.\<close>

definition delivered_set :: "int \<Rightarrow> int fset \<Rightarrow> int set" where
  "delivered_set base ahead = {..<base} \<union> fset ahead"

lemma advance_base_spec:
  "advance_base base ahead = (base', ahead') \<Longrightarrow>
     base \<le> base' \<and> delivered_set base' ahead' = delivered_set base ahead \<and>
     base' |\<notin>| ahead' \<and> ahead' |\<subseteq>| ahead \<and> (\<forall>x. base \<le> x \<and> x < base' \<longrightarrow> x |\<in>| ahead) \<and>
     ((\<forall>x. x |\<in>| ahead \<longrightarrow> base \<le> x) \<longrightarrow> (\<forall>x. x |\<in>| ahead' \<longrightarrow> base' < x))"
proof (induction base ahead rule: advance_base.induct)
  case (1 base ahead)
  show ?case
  proof (cases "base |\<in>| ahead")
    case True
    then have "advance_base (base + 1) (ahead |-| {|base|}) = (base', ahead')"
      using "1.prems" by (simp add: advance_base.simps [of base ahead])
    note IH = "1.IH" [OF True this]
    have "delivered_set (base + 1) (ahead |-| {|base|}) = delivered_set base ahead"
      using True by (auto simp: delivered_set_def order_le_less)
    moreover have "\<forall>x. base \<le> x \<and> x < base' \<longrightarrow> x |\<in>| ahead"
      using IH True by (metis fminusD1 order_le_less zless_imp_add1_zle)
    moreover have "(\<forall>x. x |\<in>| ahead \<longrightarrow> base \<le> x) \<longrightarrow> (\<forall>x. x |\<in>| ahead |-| {|base|} \<longrightarrow> base + 1 \<le> x)"
      by force
    ultimately show ?thesis using IH by auto
  next
    case False
    with "1.prems" have "base' = base" "ahead' = ahead"
      by (simp_all add: advance_base.simps [of base ahead])
    moreover have "\<forall>x. x |\<in>| ahead \<longrightarrow> base \<le> x \<longrightarrow> base < x"
      using False by (metis order_le_less)
    ultimately show ?thesis using False by auto
  qed
qed

lemma delivered_set_insert:
  "base \<le> p \<Longrightarrow> delivered_set base (finsert p ahead) = insert p (delivered_set base ahead)"
  by (auto simp: delivered_set_def)

lemma delivered_set_step: "delivered_set (base + 1) ahead = insert base (delivered_set base ahead)"
  by (auto simp: delivered_set_def)

section \<open>Exactly-once delivery\<close>

text \<open>
  The contract of a scheduler: a step either commits one position that was not committed, or
  leaves the committed positions alone.  Every run then commits without repetition.
\<close>

locale exactly_once =
  fixes step :: "'s \<Rightarrow> 'e \<Rightarrow> 's \<times> int option"
    and committed :: "'s \<Rightarrow> int set"
    and inv :: "'s \<Rightarrow> bool"
  assumes step_inv: "inv s \<Longrightarrow> step s e = (s', out) \<Longrightarrow> inv s'"
    and step_commit: "inv s \<Longrightarrow> step s e = (s', Some p) \<Longrightarrow>
          p \<notin> committed s \<and> committed s' = insert p (committed s)"
    and step_quiet: "inv s \<Longrightarrow> step s e = (s', None) \<Longrightarrow> committed s' = committed s"
begin

fun run_steps :: "'s \<Rightarrow> 'e list \<Rightarrow> 's \<times> int list" where
  "run_steps s [] = (s, [])"
| "run_steps s (e # es) =
    (case step s e of (s', out) \<Rightarrow>
       case run_steps s' es of (s'', outs) \<Rightarrow>
         (s'', (case out of None \<Rightarrow> outs | Some p \<Rightarrow> p # outs)))"

lemma run_steps_inv: "inv s \<Longrightarrow> run_steps s es = (s', outs) \<Longrightarrow> inv s'"
  by (induction es arbitrary: s outs) (auto split: prod.splits dest: step_inv)

lemma run_steps_once:
  "inv s \<Longrightarrow> run_steps s es = (s', outs) \<Longrightarrow>
     distinct outs \<and> set outs \<inter> committed s = {} \<and> committed s' = committed s \<union> set outs"
proof (induction es arbitrary: s outs)
  case Nil
  then show ?case by simp
next
  case (Cons e es)
  obtain t out where t: "step s e = (t, out)" by (cases "step s e")
  obtain outs' where r: "run_steps t es = (s', outs')" and
    outs: "outs = (case out of None \<Rightarrow> outs' | Some p \<Rightarrow> p # outs')"
    using Cons.prems(2) t by (auto split: prod.splits)
  have "inv t" using step_inv [OF Cons.prems(1) t] .
  note IH = Cons.IH [OF this r]
  show ?case
  proof (cases out)
    case None
    with t step_quiet [OF Cons.prems(1)] have "committed t = committed s" by simp
    with IH outs None show ?thesis by simp
  next
    case (Some p)
    with t step_commit [OF Cons.prems(1)] have "p \<notin> committed s" "committed t = insert p (committed s)"
      by simp_all
    with IH outs Some show ?thesis by auto
  qed
qed

end

end
