(* ===== verification/Schedule.thy ===== *)
theory Schedule
  imports Collections
begin

text \<open>
  The bounded frontier: \<^verbatim>\<open>StaticSchedule\<close> of \<^verbatim>\<open>fallback/schedule.py\<close>, whose dispatch, completion
  and commit operations every executor drives.  The invariant \<open>schedule_ok\<close> is kept by every
  operation; from it follow the bound on the window, exactly-once commits in any order, and
  in-order commits when only the contiguous base is committed.
\<close>

section \<open>State and operations\<close>

datatype position_state = Dispatched | Ready

record schedule =
  sc_end :: int
  sc_depth :: int
  sc_worker_count :: int
  sc_worker_ceiling :: int
  sc_next_commit :: int
  sc_dispatch_ordinal :: int
  sc_positions :: "(int, position_state \<times> int) dict"
  sc_delivered :: "int fset"

definition new_schedule :: "int \<Rightarrow> int \<Rightarrow> int \<Rightarrow> int \<Rightarrow> schedule res" where
  "new_schedule start end depth worker_count =
    (if end < start then Inl (ValueError ''schedule end precedes its start'')
     else if depth \<le> 0 then Inl (ValueError ''frontier depth must be positive'')
     else if worker_count \<le> 0 then Inl (ValueError ''worker count must be positive'')
     else Inr \<lparr>sc_end = end, sc_depth = depth, sc_worker_count = worker_count,
               sc_worker_ceiling = worker_count, sc_next_commit = start, sc_dispatch_ordinal = 0,
               sc_positions = [], sc_delivered = {||}\<rparr>)"

definition window_stop :: "schedule \<Rightarrow> int" where
  "window_stop s = min (sc_end s) (sc_next_commit s + sc_depth s)"

definition dispatch_candidates :: "schedule \<Rightarrow> int list" where
  "dispatch_candidates s =
    filter (\<lambda>position. position \<notin> dict_keys (sc_positions s) \<and> position |\<notin>| sc_delivered s)
      (irange (sc_next_commit s) (window_stop s))"

definition dispatch_at :: "schedule \<Rightarrow> int \<Rightarrow> (int \<times> int) option" where
  "dispatch_at s position =
    (if position < sc_next_commit s \<or> window_stop s \<le> position
        \<or> position \<in> dict_keys (sc_positions s) \<or> position |\<in>| sc_delivered s
     then None else Some (position, sc_dispatch_ordinal s mod sc_worker_count s))"

definition next_dispatch :: "schedule \<Rightarrow> (int \<times> int) option" where
  "next_dispatch s =
    (case dispatch_candidates s of [] \<Rightarrow> None | candidate # _ \<Rightarrow> dispatch_at s candidate)"

definition mark_dispatched :: "int \<Rightarrow> int \<Rightarrow> schedule \<Rightarrow> schedule res" where
  "mark_dispatched position worker s =
    (if dispatch_at s position \<noteq> Some (position, worker)
     then Inl (ValueError ''dispatch is not an eligible frontier candidate'')
     else Inr (s\<lparr>sc_positions := dict_set position (Dispatched, worker) (sc_positions s),
                 sc_dispatch_ordinal := sc_dispatch_ordinal s + 1\<rparr>))"

definition mark_completed :: "int \<Rightarrow> int \<Rightarrow> schedule \<Rightarrow> schedule res" where
  "mark_completed position worker s =
    (case dict_get (sc_positions s) position of
       None \<Rightarrow> Inl (ValueError ''completion is outside the active frontier'')
     | Some (state, owner) \<Rightarrow>
         if state = Ready then Inl (ValueError ''position completed twice'')
         else if owner \<noteq> worker then Inl (ValueError ''completion came from the wrong worker'')
         else Inr (s\<lparr>sc_positions := dict_set position (Ready, worker) (sc_positions s)\<rparr>))"

definition try_commit_ready :: "int \<Rightarrow> schedule \<Rightarrow> schedule \<times> int option" where
  "try_commit_ready position s =
    (case dict_get (sc_positions s) position of
       Some (Ready, _) \<Rightarrow>
         let s = s\<lparr>sc_positions := dict_del position (sc_positions s)\<rparr> in
         if position = sc_next_commit s then
           (case advance_base (sc_next_commit s + 1) (sc_delivered s) of (base, ahead) \<Rightarrow>
              (s\<lparr>sc_next_commit := base, sc_delivered := ahead\<rparr>, Some position))
         else (s\<lparr>sc_delivered := finsert position (sc_delivered s)\<rparr>, Some position)
     | _ \<Rightarrow> (s, None))"

definition try_commit :: "schedule \<Rightarrow> schedule \<times> int option" where
  "try_commit s = try_commit_ready (sc_next_commit s) s"

definition delivered_positions :: "schedule \<Rightarrow> int list" where
  "delivered_positions s = sorted_list_of_fset (sc_delivered s)"

definition seed_delivered :: "int \<Rightarrow> schedule \<Rightarrow> schedule res" where
  "seed_delivered position s =
    (if position \<le> sc_next_commit s \<or> sc_end s \<le> position
     then Inl (ValueError ''restored delivery is outside the open position range'')
     else if position \<in> dict_keys (sc_positions s) \<or> position |\<in>| sc_delivered s
     then Inl (ValueError ''restored position was delivered twice'')
     else Inr (s\<lparr>sc_delivered := finsert position (sc_delivered s)\<rparr>))"

definition is_complete :: "schedule \<Rightarrow> bool" where
  "is_complete s \<longleftrightarrow>
    sc_next_commit s = sc_end s \<and> sc_positions s = [] \<and> sc_delivered s = {||}"

definition occupied :: "schedule \<Rightarrow> int" where
  "occupied s = int (length (sc_positions s))"

definition set_depth :: "int \<Rightarrow> schedule \<Rightarrow> schedule res" where
  "set_depth depth s =
    (if depth \<le> 0 then Inl (ValueError ''frontier depth must be positive'')
     else if \<exists>position \<in> dict_keys (sc_positions s). sc_next_commit s + depth \<le> position
     then Inl (ValueError ''frontier depth excludes an active position'')
     else Inr (s\<lparr>sc_depth := depth\<rparr>))"

definition set_worker_count :: "int \<Rightarrow> schedule \<Rightarrow> schedule res" where
  "set_worker_count worker_count s =
    (if worker_count \<le> 0 \<or> sc_worker_ceiling s < worker_count
     then Inl (ValueError ''live worker count is outside the plan ceiling'')
     else Inr (s\<lparr>sc_worker_count := worker_count,
                 sc_dispatch_ordinal := sc_dispatch_ordinal s mod worker_count\<rparr>))"

section \<open>The invariant\<close>

definition committed :: "schedule \<Rightarrow> int set" where
  "committed s = delivered_set (sc_next_commit s) (sc_delivered s)"

definition schedule_ok :: "schedule \<Rightarrow> bool" where
  "schedule_ok s \<longleftrightarrow>
     0 < sc_depth s \<and> 0 < sc_worker_count s \<and> sc_worker_count s \<le> sc_worker_ceiling s \<and>
     0 \<le> sc_dispatch_ordinal s \<and> sc_next_commit s \<le> sc_end s \<and> dict_ok (sc_positions s) \<and>
     (\<forall>p \<in> dict_keys (sc_positions s). sc_next_commit s \<le> p \<and> p < window_stop s \<and> p |\<notin>| sc_delivered s) \<and>
     (\<forall>p. p |\<in>| sc_delivered s \<longrightarrow> sc_next_commit s < p \<and> p < sc_end s) \<and>
     (\<forall>p state worker. dict_get (sc_positions s) p = Some (state, worker) \<longrightarrow>
        0 \<le> worker \<and> worker < sc_worker_ceiling s)"

named_theorems schedule_defs
declare new_schedule_def [schedule_defs] window_stop_def [schedule_defs] dispatch_at_def [schedule_defs]
  mark_dispatched_def [schedule_defs] mark_completed_def [schedule_defs] seed_delivered_def [schedule_defs]
  set_depth_def [schedule_defs] set_worker_count_def [schedule_defs] committed_def [schedule_defs]

lemma new_schedule_ok:
  "new_schedule start end depth worker_count = Inr s \<Longrightarrow> schedule_ok s"
  by (auto simp: schedule_defs schedule_ok_def split: if_splits)

lemma mark_dispatched_ok:
  assumes ok: "schedule_ok s" and "mark_dispatched p w s = Inr t"
  shows "schedule_ok t"
proof -
  have "0 < sc_worker_count s" "sc_worker_count s \<le> sc_worker_ceiling s"
    using ok by (simp_all add: schedule_ok_def)
  then have "sc_dispatch_ordinal s mod sc_worker_count s < sc_worker_ceiling s"
    by (rule order_less_le_trans [OF pos_mod_bound])
  with assms show ?thesis by (auto simp: schedule_defs schedule_ok_def split: if_splits)
qed

lemma mark_completed_ok:
  assumes ok: "schedule_ok s" and mark: "mark_completed p w s = Inr t"
  shows "schedule_ok t"
proof -
  from mark have p: "dict_get (sc_positions s) p = Some (Dispatched, w)"
    and t: "t = s\<lparr>sc_positions := dict_set p (Ready, w) (sc_positions s)\<rparr>"
    by (auto simp: mark_completed_def split: option.splits if_splits) (metis position_state.exhaust)+
  from p have "p \<in> dict_keys (sc_positions s)" by (auto intro: dict_get_keys)
  with ok p show ?thesis
    by (auto simp: t schedule_ok_def window_stop_def)
qed

lemma seed_delivered_ok:
  assumes "schedule_ok s" and "seed_delivered p s = Inr t"
  shows "schedule_ok t"
  using assms by (auto simp: schedule_defs schedule_ok_def split: if_splits)

lemma set_depth_ok:
  assumes "schedule_ok s" and "set_depth d s = Inr t"
  shows "schedule_ok t"
  using assms by (auto simp: schedule_defs schedule_ok_def not_le split: if_splits)

lemma set_worker_count_ok:
  assumes "schedule_ok s" and "set_worker_count w s = Inr t"
  shows "schedule_ok t"
  using assms by (auto simp: schedule_defs schedule_ok_def split: if_splits)

text \<open>What one commit does.\<close>

lemma try_commit_ready_None: "try_commit_ready p s = (t, None) \<Longrightarrow> t = s"
  by (auto simp: try_commit_ready_def Let_def split: option.splits position_state.splits if_splits prod.splits)

lemma try_commit_ready_Some:
  assumes "try_commit_ready p s = (t, Some q)"
  obtains w where "q = p" "dict_get (sc_positions s) p = Some (Ready, w)" "p = sc_next_commit s"
      "t = s\<lparr>sc_positions := dict_del p (sc_positions s),
             sc_next_commit := fst (advance_base (sc_next_commit s + 1) (sc_delivered s)),
             sc_delivered := snd (advance_base (sc_next_commit s + 1) (sc_delivered s))\<rparr>"
  | w where "q = p" "dict_get (sc_positions s) p = Some (Ready, w)" "p \<noteq> sc_next_commit s"
      "t = s\<lparr>sc_positions := dict_del p (sc_positions s),
             sc_delivered := finsert p (sc_delivered s)\<rparr>"
  using assms
  by (auto simp: try_commit_ready_def Let_def split: option.splits position_state.splits if_splits prod.splits)

lemma try_commit_ready_iff:
  "(\<exists>t. try_commit_ready p s = (t, Some p)) \<longleftrightarrow> (\<exists>w. dict_get (sc_positions s) p = Some (Ready, w))"
  by (auto simp: try_commit_ready_def Let_def split: option.splits position_state.splits prod.splits)

lemma try_commit_ready_ok:
  assumes ok: "schedule_ok s" and commit: "try_commit_ready p s = (t, out)"
  shows "schedule_ok t \<and>
    (case out of None \<Rightarrow> t = s
     | Some q \<Rightarrow> q = p \<and> p \<notin> committed s \<and> committed t = insert p (committed s) \<and> p < sc_end s)"
proof (cases out)
  case None
  with ok commit show ?thesis by (auto dest: try_commit_ready_None)
next
  case (Some q)
  with commit have "try_commit_ready p s = (t, Some q)" by simp
  then show ?thesis
  proof (cases rule: try_commit_ready_Some)
    case (1 w)
    obtain base ahead where adv: "advance_base (sc_next_commit s + 1) (sc_delivered s) = (base, ahead)"
      by (cases "advance_base (sc_next_commit s + 1) (sc_delivered s)")
    have key: "p \<in> dict_keys (sc_positions s)" using 1 by (auto intro: dict_get_keys)
    have gt: "\<forall>x. x |\<in>| sc_delivered s \<longrightarrow> sc_next_commit s + 1 \<le> x"
      using ok by (auto simp: schedule_ok_def)
    note spec = advance_base_spec [OF adv]
    have p: "p < sc_end s" "p \<notin> committed s"
      using ok key 1 by (auto simp: schedule_ok_def window_stop_def committed_def delivered_set_def)
    have le_end: "base \<le> sc_end s"
    proof (rule ccontr)
      assume "\<not> base \<le> sc_end s"
      with p 1 have "sc_end s |\<in>| sc_delivered s \<or> sc_end s \<le> sc_next_commit s" using spec by force
      with ok p 1 show False by (auto simp: schedule_ok_def)
    qed
    have ahead_sub: "\<forall>x. x |\<in>| ahead \<longrightarrow> x |\<in>| sc_delivered s" using spec by auto
    have keys: "\<forall>x \<in> dict_keys (sc_positions s) - {p}.
        base \<le> x \<and> x < sc_end s \<and> x < base + sc_depth s \<and> x |\<notin>| ahead"
    proof
      fix x assume "x \<in> dict_keys (sc_positions s) - {p}"
      with ok have x: "sc_next_commit s \<le> x" "x < sc_end s" "x < sc_next_commit s + sc_depth s"
        "x |\<notin>| sc_delivered s" "x \<noteq> p"
        by (auto simp: schedule_ok_def window_stop_def)
      have "base \<le> x"
      proof (rule ccontr)
        assume "\<not> base \<le> x"
        with x 1(3) have "sc_next_commit s + 1 \<le> x \<and> x < base" by simp
        with spec x(4) show False by blast
      qed
      moreover have "sc_next_commit s \<le> base" using spec by simp
      ultimately show "base \<le> x \<and> x < sc_end s \<and> x < base + sc_depth s \<and> x |\<notin>| ahead"
        using x ahead_sub by auto
    qed
    have t: "t = s\<lparr>sc_positions := dict_del p (sc_positions s), sc_next_commit := base, sc_delivered := ahead\<rparr>"
      using 1 adv by simp
    have "\<forall>x. x |\<in>| ahead \<longrightarrow> base < x" using spec gt by blast
    with ok ahead_sub have ahead: "\<forall>x. x |\<in>| ahead \<longrightarrow> base < x \<and> x < sc_end s"
      by (auto simp: schedule_ok_def)
    have "schedule_ok t"
      unfolding schedule_ok_def
    proof (intro conjI)
      show "\<forall>x\<in>dict_keys (sc_positions t). sc_next_commit t \<le> x \<and> x < window_stop t \<and> x |\<notin>| sc_delivered t"
        using keys by (simp add: t window_stop_def)
      show "\<forall>x. x |\<in>| sc_delivered t \<longrightarrow> sc_next_commit t < x \<and> x < sc_end t"
        using ahead by (simp add: t)
    qed (use ok le_end in \<open>simp_all add: t schedule_ok_def\<close>)
    moreover have "committed t = insert p (committed s)"
      using 1(3) spec by (simp add: t committed_def delivered_set_step)
    ultimately show ?thesis using Some 1 p by simp
  next
    case (2 w)
    have key: "p \<in> dict_keys (sc_positions s)" using 2 by (auto intro: dict_get_keys)
    have p: "sc_next_commit s < p" "p < sc_end s" "p |\<notin>| sc_delivered s"
      using ok key 2 by (auto simp: schedule_ok_def window_stop_def)
    have "schedule_ok t"
      using ok key p 2 by (auto simp: schedule_ok_def window_stop_def)
    moreover have "committed t = insert p (committed s)" "p \<notin> committed s"
      using 2 p by (auto simp: committed_def delivered_set_def)
    ultimately show ?thesis using Some 2 p by simp
  qed
qed

section \<open>Runs\<close>

text \<open>
  What an executor can do to a schedule.  An operation that raises leaves the schedule as it was:
  every check of the source comes before its first assignment.
\<close>

datatype schedule_event =
    Dispatch int int
  | Complete int int
  | Commit
  | Commit_ready int
  | Depth int
  | Workers int

fun schedule_step :: "schedule \<Rightarrow> schedule_event \<Rightarrow> schedule \<times> int option" where
  "schedule_step s (Dispatch p w) = (case mark_dispatched p w s of Inl _ \<Rightarrow> (s, None) | Inr t \<Rightarrow> (t, None))"
| "schedule_step s (Complete p w) = (case mark_completed p w s of Inl _ \<Rightarrow> (s, None) | Inr t \<Rightarrow> (t, None))"
| "schedule_step s Commit = try_commit s"
| "schedule_step s (Commit_ready p) = try_commit_ready p s"
| "schedule_step s (Depth d) = (case set_depth d s of Inl _ \<Rightarrow> (s, None) | Inr t \<Rightarrow> (t, None))"
| "schedule_step s (Workers w) = (case set_worker_count w s of Inl _ \<Rightarrow> (s, None) | Inr t \<Rightarrow> (t, None))"

lemma quiet_committed:
  "mark_dispatched p w s = Inr t \<Longrightarrow> committed t = committed s"
  "mark_completed p w s = Inr t \<Longrightarrow> committed t = committed s"
  "set_depth d s = Inr t \<Longrightarrow> committed t = committed s"
  "set_worker_count w s = Inr t \<Longrightarrow> committed t = committed s"
  by (auto simp: schedule_defs split: if_splits option.splits)

lemma schedule_step_spec:
  assumes "schedule_ok s" "schedule_step s e = (t, out)"
  shows "schedule_ok t \<and>
    (case out of None \<Rightarrow> committed t = committed s
     | Some q \<Rightarrow> q \<notin> committed s \<and> committed t = insert q (committed s) \<and> q < sc_end s) \<and>
    sc_end t = sc_end s"
proof (cases e)
  case Commit
  with assms show ?thesis
    using try_commit_ready_ok [OF assms(1), of "sc_next_commit s" t out]
    by (auto simp: try_commit_def try_commit_ready_def Let_def
        split: option.splits position_state.splits if_splits prod.splits)
next
  case (Commit_ready p)
  with assms show ?thesis
    using try_commit_ready_ok [OF assms(1), of p t out]
    by (auto simp: try_commit_ready_def Let_def
        split: option.splits position_state.splits if_splits prod.splits)
next
  case (Dispatch p w)
  with assms show ?thesis
    by (auto split: sum.splits dest: mark_dispatched_ok quiet_committed)
      (auto simp: mark_dispatched_def split: if_splits)
next
  case (Complete p w)
  with assms show ?thesis
    by (auto split: sum.splits dest: mark_completed_ok quiet_committed)
      (auto simp: mark_completed_def split: if_splits option.splits)
next
  case (Depth d)
  with assms show ?thesis
    by (auto split: sum.splits dest: set_depth_ok quiet_committed)
      (auto simp: set_depth_def split: if_splits)
next
  case (Workers w)
  with assms show ?thesis
    by (auto split: sum.splits dest: set_worker_count_ok quiet_committed)
      (auto simp: set_worker_count_def split: if_splits)
qed

interpretation sched: exactly_once schedule_step committed schedule_ok
proof unfold_locales
  fix s e t p and out :: "int option"
  assume ok: "schedule_ok s"
  show "schedule_ok t" if "schedule_step s e = (t, out)" for out
    using schedule_step_spec [OF ok that] by simp
  show "p \<notin> committed s \<and> committed t = insert p (committed s)" if "schedule_step s e = (t, Some p)"
    using schedule_step_spec [OF ok that] by simp
  show "committed t = committed s" if "schedule_step s e = (t, None)"
    using schedule_step_spec [OF ok that] by simp
qed

lemma run_end: "schedule_ok s \<Longrightarrow> sched.run_steps s es = (t, outs) \<Longrightarrow> sc_end t = sc_end s"
proof (induction es arbitrary: s outs)
  case (Cons e es)
  obtain u out where u: "schedule_step s e = (u, out)" by (cases "schedule_step s e")
  with Cons.prems(2) obtain outs' where r: "sched.run_steps u es = (t, outs')"
    by (auto split: prod.splits)
  from schedule_step_spec [OF Cons.prems(1) u] Cons.IH [OF _ r] show ?case by simp
qed simp

lemma committed_below_end: "schedule_ok s \<Longrightarrow> committed s \<subseteq> {..<sc_end s}"
  by (auto simp: schedule_ok_def committed_def delivered_set_def)

text \<open>
  Whatever an executor does to a fresh schedule, in whatever order completions arrive, each
  position of the range is committed at most once and no other position ever is; and what has
  been committed is exactly what the schedule remembers as delivered.
\<close>

theorem schedule_exactly_once:
  assumes new: "new_schedule start end depth worker_count = Inr s"
    and run: "sched.run_steps s events = (t, outs)"
  shows "distinct outs \<and> set outs \<subseteq> {start..<end} \<and> committed t = {..<start} \<union> set outs"
proof -
  have ok: "schedule_ok s" by (rule new_schedule_ok [OF new])
  have s: "committed s = {..<start}" "sc_end s = end"
    using new by (auto simp: schedule_defs delivered_set_def split: if_splits)
  from sched.run_steps_once [OF ok run] s(1)
  have o: "distinct outs" "set outs \<inter> {..<start} = {}" "committed t = {..<start} \<union> set outs" by auto
  have "committed t \<subseteq> {..<end}"
    using committed_below_end [OF sched.run_steps_inv [OF ok run]] run_end [OF ok run] s(2) by simp
  have "p \<in> {start..<end}" if "p \<in> set outs" for p
    using o that \<open>committed t \<subseteq> {..<end}\<close> by (auto simp: disjoint_iff not_less)
  with o show ?thesis by blast
qed

theorem schedule_exactly_once_witness:
  "sched.run_steps \<lparr>sc_end = 3, sc_depth = 2, sc_worker_count = 1, sc_worker_ceiling = 1,
       sc_next_commit = 0, sc_dispatch_ordinal = 0, sc_positions = [], sc_delivered = {||}\<rparr>
     [Dispatch 0 0, Dispatch 1 0, Complete 1 0, Commit, Commit_ready 1, Complete 0 0, Commit, Commit]
     = (\<lparr>sc_end = 3, sc_depth = 2, sc_worker_count = 1, sc_worker_ceiling = 1,
       sc_next_commit = 2, sc_dispatch_ordinal = 2, sc_positions = [], sc_delivered = {||}\<rparr>, [1, 0])
   \<and> distinct [1, 0::int] \<and> set [1, 0::int] \<subseteq> {0..<3}"
proof -
  let ?s = "\<lparr>sc_end = 3, sc_depth = 2, sc_worker_count = 1, sc_worker_ceiling = 1,
       sc_next_commit = 0, sc_dispatch_ordinal = 0, sc_positions = [], sc_delivered = {||}\<rparr>"
  have new: "new_schedule 0 3 2 1 = Inr ?s" by (simp add: new_schedule_def)
  have run: "sched.run_steps ?s
     [Dispatch 0 0, Dispatch 1 0, Complete 1 0, Commit, Commit_ready 1, Complete 0 0, Commit, Commit]
     = (\<lparr>sc_end = 3, sc_depth = 2, sc_worker_count = 1, sc_worker_ceiling = 1,
       sc_next_commit = 2, sc_dispatch_ordinal = 2, sc_positions = [], sc_delivered = {||}\<rparr>, [1, 0])"
    by (simp add: schedule_defs try_commit_def try_commit_ready_def advance_base.simps)
  from schedule_exactly_once [OF new run] run show ?thesis by simp
qed

text \<open>
  Committing only the contiguous base, as the in-order iterators do, delivers the range in order.
\<close>

lemma try_commit_in_order:
  assumes "sc_delivered s = {||}" "try_commit s = (t, Some q)"
  shows "q = sc_next_commit s \<and> sc_next_commit t = sc_next_commit s + 1 \<and> sc_delivered t = {||}"
  using assms
  by (auto simp: try_commit_def try_commit_ready_def Let_def advance_base.simps
      split: option.splits position_state.splits if_splits)

fun in_order_event :: "schedule_event \<Rightarrow> bool" where
  "in_order_event (Commit_ready _) = False"
| "in_order_event _ = True"

lemma in_order_step:
  assumes "sc_delivered s = {||}" "in_order_event e" "schedule_step s e = (t, out)"
  shows "sc_delivered t = {||} \<and>
    (case out of None \<Rightarrow> sc_next_commit t = sc_next_commit s
     | Some q \<Rightarrow> q = sc_next_commit s \<and> sc_next_commit t = sc_next_commit s + 1)"
proof (cases e)
  case Commit
  with assms show ?thesis
    by (cases out) (auto dest: try_commit_in_order try_commit_ready_None simp: try_commit_def)
qed (use assms in \<open>auto simp: schedule_defs split: if_splits sum.splits option.splits\<close>)

lemma in_order_run:
  "sc_delivered s = {||} \<Longrightarrow> list_all in_order_event es \<Longrightarrow> sched.run_steps s es = (t, outs) \<Longrightarrow>
   sc_delivered t = {||} \<and> sc_next_commit s \<le> sc_next_commit t \<and>
   outs = irange (sc_next_commit s) (sc_next_commit t)"
proof (induction es arbitrary: s outs)
  case (Cons e es)
  obtain u out where u: "schedule_step s e = (u, out)" by (cases "schedule_step s e")
  with Cons.prems(3) obtain outs' where r: "sched.run_steps u es = (t, outs')"
    and outs: "outs = (case out of None \<Rightarrow> outs' | Some p \<Rightarrow> p # outs')"
    by (auto split: prod.splits)
  have step: "sc_delivered u = {||} \<and>
    (case out of None \<Rightarrow> sc_next_commit u = sc_next_commit s
     | Some q \<Rightarrow> q = sc_next_commit s \<and> sc_next_commit u = sc_next_commit s + 1)"
    using Cons.prems by (intro in_order_step [OF _ _ u]) simp_all
  then have "sc_delivered t = {||} \<and> sc_next_commit u \<le> sc_next_commit t \<and>
      outs' = irange (sc_next_commit u) (sc_next_commit t)"
    using Cons.prems(2) by (intro Cons.IH [OF _ _ r]) simp_all
  with step outs show ?case
    by (cases out) (auto simp: irange_Cons)
qed auto

lemma occupied_bound:
  assumes ok: "schedule_ok s"
  shows "occupied s \<le> sc_depth s"
proof -
  have "dict_keys (sc_positions s) \<subseteq> {sc_next_commit s..<sc_next_commit s + sc_depth s}"
    using ok by (auto simp: schedule_ok_def window_stop_def)
  then have "card (dict_keys (sc_positions s)) \<le> card {sc_next_commit s..<sc_next_commit s + sc_depth s}"
    by (intro card_mono) simp_all
  moreover have "length (sc_positions s) = card (dict_keys (sc_positions s))" "0 < sc_depth s"
    using ok by (simp_all add: length_dict schedule_ok_def)
  ultimately show ?thesis by (simp add: occupied_def nat_le_iff le_nat_iff)
qed

text \<open>
  An executor that commits only the next position delivers, whatever the order of
  completions, exactly the prefix of the range from its start to the current base, in order.
\<close>

theorem schedule_in_order:
  assumes "new_schedule start end depth worker_count = Inr s"
    and "list_all in_order_event events" and "sched.run_steps s events = (t, outs)"
  shows "outs = irange start (sc_next_commit t)"
proof -
  have "sc_delivered s = {||}" "sc_next_commit s = start"
    using assms(1) by (auto simp: new_schedule_def split: if_splits)
  with in_order_run [OF _ assms(2,3)] show ?thesis by simp
qed

theorem schedule_in_order_witness:
  "list_all in_order_event [Dispatch 0 0, Dispatch 1 1, Complete 1 1, Commit, Complete 0 0, Commit, Commit]
   \<and> snd (sched.run_steps \<lparr>sc_end = 3, sc_depth = 2, sc_worker_count = 2, sc_worker_ceiling = 2,
       sc_next_commit = 0, sc_dispatch_ordinal = 0, sc_positions = [], sc_delivered = {||}\<rparr>
     [Dispatch 0 0, Dispatch 1 1, Complete 1 1, Commit, Complete 0 0, Commit, Commit]) = irange 0 2"
proof -
  let ?s = "\<lparr>sc_end = 3, sc_depth = 2, sc_worker_count = 2, sc_worker_ceiling = 2,
       sc_next_commit = 0, sc_dispatch_ordinal = 0, sc_positions = [], sc_delivered = {||}\<rparr>"
  let ?es = "[Dispatch 0 0, Dispatch 1 1, Complete 1 1, Commit, Complete 0 0, Commit, Commit]"
  obtain t outs where run: "sched.run_steps ?s ?es = (t, outs)" by (cases "sched.run_steps ?s ?es")
  have new: "new_schedule 0 3 2 2 = Inr ?s" by (simp add: new_schedule_def)
  have "sc_next_commit t = 2"
    using run by (auto simp: schedule_defs try_commit_def try_commit_ready_def advance_base.simps)
  with schedule_in_order [OF new _ run] run show ?thesis by simp
qed



text \<open>A finished schedule is one that has delivered its whole range.\<close>

lemma is_complete_iff:
  assumes ok: "schedule_ok s"
  shows "is_complete s \<longleftrightarrow> {..<sc_end s} \<subseteq> committed s"
proof
  assume "is_complete s"
  then show "{..<sc_end s} \<subseteq> committed s" by (auto simp: is_complete_def committed_def delivered_set_def)
next
  assume all: "{..<sc_end s} \<subseteq> committed s"
  have "sc_next_commit s = sc_end s"
  proof (rule ccontr)
    assume "sc_next_commit s \<noteq> sc_end s"
    with ok have "sc_next_commit s \<in> {..<sc_end s}" by (simp add: schedule_ok_def)
    with all have "sc_next_commit s |\<in>| sc_delivered s" by (auto simp: committed_def delivered_set_def)
    with ok show False by (auto simp: schedule_ok_def)
  qed
  then have "p \<notin> dict_keys (sc_positions s)" "p |\<notin>| sc_delivered s" for p
    using ok by (auto simp: schedule_ok_def window_stop_def)
  then have "dict_keys (sc_positions s) = {}" "sc_delivered s = {||}" by blast+
  then show "is_complete s" using \<open>sc_next_commit s = sc_end s\<close> by (simp add: is_complete_def)
qed

lemma dispatch_candidates_iff:
  "p \<in> set (dispatch_candidates s) \<longleftrightarrow> dispatch_at s p \<noteq> None"
  by (auto simp: dispatch_candidates_def dispatch_at_def)

lemma dispatch_candidates_sorted: "sorted (dispatch_candidates s) \<and> distinct (dispatch_candidates s)"
  by (simp add: dispatch_candidates_def sorted_wrt_filter)

text \<open>A routed dispatch is accepted.\<close>

lemma dispatch_routes:
  "dispatch_at s p = Some (q, w) \<Longrightarrow> \<exists>t. mark_dispatched q w s = Inr t"
  by (auto simp: mark_dispatched_def dispatch_at_def split: if_splits)

end
