(* ===== verification/Frontier.thy ===== *)
theory Frontier
  imports Schedule "HOL-Library.Product_Lexorder" "HOL-Library.Multiset"
begin

text \<open>
  \<^verbatim>\<open>FrontierRuntime\<close> of \<^verbatim>\<open>process/frontier.py\<close>: the schedule, the cost order of its dispatches and
  the growth of its depth on a stall.  The estimates are exact rationals in place of floats.
\<close>

section \<open>State and operations\<close>

record frontier =
  fr_schedule :: schedule
  fr_initial_depth :: int
  fr_depth :: int
  fr_ceiling :: int
  fr_growth_multiplier :: int
  fr_binding :: string
  fr_cost_estimator :: "(int \<Rightarrow> rat option) option"
  fr_max_occupied :: int
  fr_growth_events :: int
  fr_wait_ns :: int
  fr_active_ns :: int
  fr_stalled :: bool

definition new_frontier ::
  "int \<Rightarrow> int \<Rightarrow> int \<Rightarrow> int \<Rightarrow> int \<Rightarrow> string \<Rightarrow> (int \<Rightarrow> rat option) option \<Rightarrow> int \<Rightarrow> frontier res" where
  "new_frontier end depth limit worker_count growth_multiplier binding cost_estimator start =
    rmap (\<lambda>s. \<lparr>fr_schedule = s, fr_initial_depth = depth, fr_depth = depth, fr_ceiling = limit,
        fr_growth_multiplier = growth_multiplier, fr_binding = binding,
        fr_cost_estimator = cost_estimator, fr_max_occupied = 0, fr_growth_events = 0,
        fr_wait_ns = 0, fr_active_ns = 0, fr_stalled = False\<rparr>)
      (new_schedule start end depth worker_count)"

definition cost_key :: "(int \<Rightarrow> rat option) \<Rightarrow> int \<Rightarrow> bool \<times> rat \<times> int" where
  "cost_key estimates position =
    (estimates position = None,
     - (case estimates position of None \<Rightarrow> 0 | Some estimate \<Rightarrow> estimate), position)"

definition dispatch_order :: "frontier \<Rightarrow> int list" where
  "dispatch_order f =
    (let candidates = dispatch_candidates (fr_schedule f) in
     case fr_cost_estimator f of
       None \<Rightarrow> candidates
     | Some estimates \<Rightarrow>
         if \<not> list_ex (\<lambda>position. estimates position \<noteq> None) candidates then candidates
         else sort_key (cost_key estimates) candidates)"

definition fr_dispatch_at :: "frontier \<Rightarrow> int \<Rightarrow> (int \<times> int) option" where
  "fr_dispatch_at f position = dispatch_at (fr_schedule f) position"

definition fr_next_dispatch :: "frontier \<Rightarrow> (int \<times> int) option" where
  "fr_next_dispatch f = (case dispatch_order f of [] \<Rightarrow> None | position # _ \<Rightarrow> fr_dispatch_at f position)"

definition fr_mark_dispatched :: "int \<Rightarrow> int \<Rightarrow> frontier \<Rightarrow> frontier res" where
  "fr_mark_dispatched position worker f =
    rmap (\<lambda>s. f\<lparr>fr_schedule := s, fr_max_occupied := max (fr_max_occupied f) (occupied s)\<rparr>)
      (mark_dispatched position worker (fr_schedule f))"

definition fr_mark_completed :: "int \<Rightarrow> int \<Rightarrow> frontier \<Rightarrow> frontier res" where
  "fr_mark_completed position worker f =
    rmap (\<lambda>s. f\<lparr>fr_schedule := s\<rparr>) (mark_completed position worker (fr_schedule f))"

definition fr_try_commit :: "frontier \<Rightarrow> frontier \<times> int option" where
  "fr_try_commit f = (case try_commit (fr_schedule f) of (s, out) \<Rightarrow> (f\<lparr>fr_schedule := s\<rparr>, out))"

definition fr_try_commit_ready :: "int \<Rightarrow> frontier \<Rightarrow> frontier \<times> int option" where
  "fr_try_commit_ready position f =
    (case try_commit_ready position (fr_schedule f) of (s, out) \<Rightarrow> (f\<lparr>fr_schedule := s\<rparr>, out))"

definition fr_delivered_positions :: "frontier \<Rightarrow> int list" where
  "fr_delivered_positions f = delivered_positions (fr_schedule f)"

definition fr_seed_delivered :: "int \<Rightarrow> frontier \<Rightarrow> frontier res" where
  "fr_seed_delivered position f =
    rmap (\<lambda>s. f\<lparr>fr_schedule := s\<rparr>) (seed_delivered position (fr_schedule f))"

text \<open>An error of \<^verbatim>\<open>set_depth\<close> leaves the recorded wait and the stall flag behind.\<close>

definition record_wait :: "int \<Rightarrow> frontier \<Rightarrow> frontier \<times> unit res" where
  "record_wait wait_ns f =
    (let f = f\<lparr>fr_wait_ns := fr_wait_ns f + wait_ns, fr_stalled := True\<rparr> in
     if fr_ceiling f \<le> fr_depth f \<or> occupied (fr_schedule f) < fr_depth f then (f, Inr ())
     else
       let grown = min (fr_ceiling f) (fr_depth f * fr_growth_multiplier f) in
       if grown = fr_depth f then (f, Inr ())
       else
         (case set_depth grown (fr_schedule f) of
            Inl e \<Rightarrow> (f, Inl e)
          | Inr s \<Rightarrow> (f\<lparr>fr_schedule := s, fr_depth := grown,
                       fr_growth_events := fr_growth_events f + 1\<rparr>, Inr ())))"

definition record_active :: "int \<Rightarrow> frontier \<Rightarrow> frontier" where
  "record_active active_ns f = f\<lparr>fr_active_ns := fr_active_ns f + active_ns\<rparr>"

definition fr_set_worker_count :: "int \<Rightarrow> frontier \<Rightarrow> frontier res" where
  "fr_set_worker_count worker_count f =
    rmap (\<lambda>s. f\<lparr>fr_schedule := s\<rparr>) (set_worker_count worker_count (fr_schedule f))"

definition consume_stall_flag :: "frontier \<Rightarrow> frontier \<times> bool" where
  "consume_stall_flag f = (f\<lparr>fr_stalled := False\<rparr>, fr_stalled f)"

record frontier_report =
  rep_active_ns :: int
  rep_binding :: string
  rep_ceiling :: int
  rep_final_depth :: int
  rep_growth_events :: int
  rep_initial_depth :: int
  rep_max_occupied :: int
  rep_stall_fraction :: rat
  rep_wait_ns :: int

definition frontier_report :: "frontier \<Rightarrow> frontier_report" where
  "frontier_report f =
    \<lparr>rep_active_ns = fr_active_ns f, rep_binding = fr_binding f, rep_ceiling = fr_ceiling f,
     rep_final_depth = fr_depth f, rep_growth_events = fr_growth_events f,
     rep_initial_depth = fr_initial_depth f, rep_max_occupied = fr_max_occupied f,
     rep_stall_fraction = (if fr_active_ns f \<noteq> 0 then of_int (fr_wait_ns f) / of_int (fr_active_ns f) else 0),
     rep_wait_ns = fr_wait_ns f\<rparr>"

definition fr_occupied :: "frontier \<Rightarrow> int" where
  "fr_occupied f = occupied (fr_schedule f)"

text \<open>
  \<^verbatim>\<open>binding_cause\<close> over what it reads of the loader: the budget flag of the pool, the configured
  depth, the prefetch factor (None, automatic or explicit) and whether a cost profile has
  statistics.
\<close>

definition binding_cause :: "bool \<Rightarrow> int auto \<Rightarrow> int auto option \<Rightarrow> bool \<Rightarrow> string" where
  "binding_cause frontier_budget_bound frontier_depth prefetch_factor has_statistics =
    (if frontier_budget_bound then ''memory-budget''
     else if frontier_depth \<noteq> AUTO then ''explicit-depth''
     else if prefetch_factor \<noteq> Some AUTO \<and> prefetch_factor \<noteq> None then ''prefetch-hint''
     else if \<not> has_statistics then ''cold-variance''
     else ''profile-tail'')"

section \<open>The invariant\<close>

text \<open>
  The recorded depth is the depth of the schedule, never below the initial one, and above the
  ceiling only if it started there; the recorded peak is one the depth allowed.
\<close>

definition frontier_ok :: "frontier \<Rightarrow> bool" where
  "frontier_ok f \<longleftrightarrow>
     schedule_ok (fr_schedule f) \<and> fr_depth f = sc_depth (fr_schedule f) \<and>
     1 \<le> fr_growth_multiplier f \<and> fr_initial_depth f \<le> fr_depth f \<and>
     fr_depth f \<le> max (fr_ceiling f) (fr_initial_depth f) \<and>
     occupied (fr_schedule f) \<le> fr_depth f \<and> fr_max_occupied f \<le> fr_depth f"

lemma new_frontier_ok:
  assumes "new_frontier end depth limit workers multiplier binding estimator start = Inr f"
    and "1 \<le> multiplier"
  shows "frontier_ok f"
  using assms new_schedule_ok [of start "end" depth workers]
  by (auto simp: new_frontier_def frontier_ok_def new_schedule_def occupied_def split: if_splits)

lemma grown_depth:
  assumes "frontier_ok f" "fr_depth f < fr_ceiling f"
  shows "fr_depth f \<le> min (fr_ceiling f) (fr_depth f * fr_growth_multiplier f)"
proof -
  have "0 < fr_depth f" "1 \<le> fr_growth_multiplier f"
    using assms by (simp_all add: frontier_ok_def schedule_ok_def)
  then have "fr_depth f * 1 \<le> fr_depth f * fr_growth_multiplier f"
    by (intro mult_left_mono) simp_all
  with assms(2) show ?thesis by simp
qed

lemma set_depth_grows:
  assumes "schedule_ok s" "sc_depth s \<le> d"
  shows "set_depth d s = Inr (s\<lparr>sc_depth := d\<rparr>)"
  using assms by (fastforce simp: set_depth_def schedule_ok_def window_stop_def)

lemma record_wait_spec:
  assumes ok: "frontier_ok f" and rw: "record_wait w f = (g, out)"
  shows "frontier_ok g \<and> out = Inr () \<and> fr_depth f \<le> fr_depth g \<and> fr_stalled g \<and>
    (fr_depth f < fr_depth g \<longleftrightarrow> fr_depth f < fr_ceiling f \<and> fr_depth f = occupied (fr_schedule f)
        \<and> 1 < fr_growth_multiplier f) \<and>
    committed (fr_schedule g) = committed (fr_schedule f)"
proof (cases "fr_ceiling f \<le> fr_depth f \<or> occupied (fr_schedule f) < fr_depth f")
  case True
  with ok rw show ?thesis by (auto simp: record_wait_def frontier_ok_def)
next
  case False
  let ?d = "min (fr_ceiling f) (fr_depth f * fr_growth_multiplier f)"
  have s: "schedule_ok (fr_schedule f)" and d: "fr_depth f = sc_depth (fr_schedule f)" "0 < fr_depth f"
    "occupied (fr_schedule f) \<le> fr_depth f" "1 \<le> fr_growth_multiplier f"
    using ok by (simp_all add: frontier_ok_def schedule_ok_def)
  have le: "fr_depth f \<le> ?d" using grown_depth [OF ok] False by simp
  then have set: "set_depth ?d (fr_schedule f) = Inr ((fr_schedule f)\<lparr>sc_depth := ?d\<rparr>)"
    using set_depth_grows [OF s, of ?d] d by simp
  have grows: "fr_depth f < ?d \<longleftrightarrow> 1 < fr_growth_multiplier f"
    using False d(2,4) by (auto simp: not_le)
  show ?thesis
  proof (cases "?d = fr_depth f")
    case True
    with False ok rw grows show ?thesis
      by (auto simp: record_wait_def Let_def frontier_ok_def)
  next
    case False2: False
    with False rw set have g: "g = f\<lparr>fr_wait_ns := fr_wait_ns f + w, fr_stalled := True,
        fr_schedule := (fr_schedule f)\<lparr>sc_depth := ?d\<rparr>, fr_depth := ?d,
        fr_growth_events := fr_growth_events f + 1\<rparr>" "out = Inr ()"
      by (simp_all add: record_wait_def Let_def)
    have "schedule_ok ((fr_schedule f)\<lparr>sc_depth := ?d\<rparr>)" using set_depth_ok [OF s set] .
    moreover have "fr_depth f < ?d" by (rule order_le_neq_trans [OF le]) (use False2 in metis)
    ultimately show ?thesis
      using ok False grows d(3) by (auto simp: g frontier_ok_def committed_def occupied_def)
  qed
qed


lemma frontier_schedule_change:
  assumes "frontier_ok f" "schedule_ok s" "sc_depth s = sc_depth (fr_schedule f)"
    and "fr_schedule g = s" "fr_depth g = fr_depth f" "fr_ceiling g = fr_ceiling f"
      "fr_growth_multiplier g = fr_growth_multiplier f" "fr_initial_depth g = fr_initial_depth f"
      "fr_max_occupied g \<le> max (fr_max_occupied f) (occupied s)"
  shows "frontier_ok g"
  using assms occupied_bound [of s] by (simp add: frontier_ok_def) linarith

section \<open>Runs\<close>

datatype frontier_event =
    Scheduled schedule_event
  | Waited int
  | Active int
  | Stall_read

text \<open>
  The schedule's events reach it through the frontier's methods; \<open>Depth\<close> is no method of the
  frontier, whose depth changes by \<open>Waited\<close> alone.
\<close>

fun frontier_step :: "frontier \<Rightarrow> frontier_event \<Rightarrow> frontier \<times> int option" where
  "frontier_step f (Scheduled (Dispatch p w)) =
    (case fr_mark_dispatched p w f of Inl _ \<Rightarrow> (f, None) | Inr g \<Rightarrow> (g, None))"
| "frontier_step f (Scheduled (Complete p w)) =
    (case fr_mark_completed p w f of Inl _ \<Rightarrow> (f, None) | Inr g \<Rightarrow> (g, None))"
| "frontier_step f (Scheduled Commit) = fr_try_commit f"
| "frontier_step f (Scheduled (Commit_ready p)) = fr_try_commit_ready p f"
| "frontier_step f (Scheduled (Depth d)) = (f, None)"
| "frontier_step f (Scheduled (Workers w)) =
    (case fr_set_worker_count w f of Inl _ \<Rightarrow> (f, None) | Inr g \<Rightarrow> (g, None))"
| "frontier_step f (Waited ns) = (fst (record_wait ns f), None)"
| "frontier_step f (Active ns) = (record_active ns f, None)"
| "frontier_step f Stall_read = (fst (consume_stall_flag f), None)"

definition fr_committed :: "frontier \<Rightarrow> int set" where
  "fr_committed f = committed (fr_schedule f)"

lemma schedule_step_depth:
  "schedule_step s e = (t, out) \<Longrightarrow> (\<And>d. e \<noteq> Depth d) \<Longrightarrow> sc_depth t = sc_depth s"
  by (cases e) (auto simp: schedule_defs try_commit_def try_commit_ready_def Let_def
      split: sum.splits if_splits option.splits position_state.splits prod.splits)

lemma frontier_scheduled:
  assumes "frontier_step f (Scheduled e) = (g, out)" "\<And>d. e \<noteq> Depth d"
  shows "schedule_step (fr_schedule f) e = (fr_schedule g, out) \<and> fr_depth g = fr_depth f \<and>
    fr_ceiling g = fr_ceiling f \<and> fr_growth_multiplier g = fr_growth_multiplier f \<and>
    fr_initial_depth g = fr_initial_depth f \<and>
    fr_max_occupied g \<le> max (fr_max_occupied f) (occupied (fr_schedule g))"
proof (cases e)
  case (Dispatch p w)
  with assms show ?thesis
    by (cases "mark_dispatched p w (fr_schedule f)") (auto simp: fr_mark_dispatched_def)
next
  case (Complete p w)
  with assms show ?thesis
    by (cases "mark_completed p w (fr_schedule f)") (auto simp: fr_mark_completed_def)
next
  case Commit
  with assms show ?thesis
    by (cases "try_commit (fr_schedule f)") (auto simp: fr_try_commit_def)
next
  case (Commit_ready p)
  with assms show ?thesis
    by (cases "try_commit_ready p (fr_schedule f)") (auto simp: fr_try_commit_ready_def)
next
  case (Workers w)
  with assms show ?thesis
    by (cases "set_worker_count w (fr_schedule f)") (auto simp: fr_set_worker_count_def)
qed (use assms in simp)

lemma frontier_scheduled_ok:
  assumes ok: "frontier_ok f" and step: "frontier_step f (Scheduled e) = (g, out)"
    and e: "\<And>d. e \<noteq> Depth d"
  shows "frontier_ok g \<and> fr_depth f = fr_depth g \<and> fr_ceiling g = fr_ceiling f \<and>
    fr_initial_depth g = fr_initial_depth f \<and>
    (case out of None \<Rightarrow> fr_committed g = fr_committed f
     | Some q \<Rightarrow> q \<notin> fr_committed f \<and> fr_committed g = insert q (fr_committed f))"
proof -
  note sched = frontier_scheduled [OF step e]
  have s: "schedule_ok (fr_schedule f)" using ok by (simp add: frontier_ok_def)
  have step': "schedule_step (fr_schedule f) e = (fr_schedule g, out)" using sched by simp
  note spec = schedule_step_spec [OF s step']
  have "sc_depth (fr_schedule g) = sc_depth (fr_schedule f)"
    by (rule schedule_step_depth [OF step' e])
  with spec sched have "frontier_ok g"
    by (intro frontier_schedule_change [OF ok, of "fr_schedule g" g]) simp_all
  with spec sched show ?thesis by (cases out) (simp_all add: fr_committed_def)
qed

lemma frontier_step_spec:
  assumes ok: "frontier_ok f" and step: "frontier_step f e = (g, out)"
  shows "frontier_ok g \<and> fr_depth f \<le> fr_depth g \<and> fr_ceiling g = fr_ceiling f \<and>
    fr_initial_depth g = fr_initial_depth f \<and>
    (case out of None \<Rightarrow> fr_committed g = fr_committed f
     | Some q \<Rightarrow> q \<notin> fr_committed f \<and> fr_committed g = insert q (fr_committed f))"
proof (cases e)
  case (Scheduled e')
  show ?thesis
  proof (cases "\<exists>d. e' = Depth d")
    case True
    with Scheduled step ok show ?thesis by auto
  next
    case False
    with frontier_scheduled_ok [OF ok, of e' g out] Scheduled step show ?thesis by simp
  qed
next
  case (Waited ns)
  with step have wait: "record_wait ns f = (g, snd (record_wait ns f))" "out = None" by auto
  have "fr_ceiling g = fr_ceiling f" "fr_initial_depth g = fr_initial_depth f"
    using wait(1) by (auto simp: record_wait_def Let_def split: if_splits sum.splits)
  with record_wait_spec [OF ok wait(1)] wait(2) show ?thesis by (simp add: fr_committed_def)
next
  case (Active ns)
  with step ok show ?thesis by (auto simp: record_active_def frontier_ok_def fr_committed_def)
next
  case Stall_read
  with step ok show ?thesis by (auto simp: consume_stall_flag_def frontier_ok_def fr_committed_def)
qed

interpretation front: exactly_once frontier_step fr_committed frontier_ok
proof unfold_locales
  fix s e t p and out :: "int option"
  assume ok: "frontier_ok s"
  show "frontier_ok t" if "frontier_step s e = (t, out)" for out
    using frontier_step_spec [OF ok that] by simp
  show "p \<notin> fr_committed s \<and> fr_committed t = insert p (fr_committed s)" if "frontier_step s e = (t, Some p)"
    using frontier_step_spec [OF ok that] by simp
  show "fr_committed t = fr_committed s" if "frontier_step s e = (t, None)"
    using frontier_step_spec [OF ok that] by simp
qed

lemma frontier_run_depth:
  "frontier_ok f \<Longrightarrow> front.run_steps f es = (g, outs) \<Longrightarrow>
     fr_depth f \<le> fr_depth g \<and> fr_ceiling g = fr_ceiling f \<and> fr_initial_depth g = fr_initial_depth f"
proof (induction es arbitrary: f outs)
  case (Cons e es)
  obtain u out where u: "frontier_step f e = (u, out)" by (cases "frontier_step f e")
  with Cons.prems(2) obtain outs' where r: "front.run_steps u es = (g, outs')"
    by (auto split: prod.splits)
  from frontier_step_spec [OF Cons.prems(1) u] Cons.IH [OF _ r] show ?case by simp
qed simp

text \<open>
  C35: Whatever happens to a fresh frontier, positions are committed at most once, its depth only
  grows and stays at or below its ceiling, and neither the current occupancy nor the recorded
  peak exceeds the depth.
\<close>

theorem frontier_bounded_exactly_once:
  assumes new: "new_frontier end depth limit workers multiplier binding estimator start = Inr f"
    and "1 \<le> multiplier" "depth \<le> limit" and run: "front.run_steps f events = (g, outs)"
  shows "distinct outs \<and> fr_committed g = {..<start} \<union> set outs \<and>
    depth \<le> fr_depth g \<and> fr_depth g \<le> limit \<and> fr_occupied g \<le> fr_depth g \<and> fr_max_occupied g \<le> fr_depth g"
proof -
  have ok: "frontier_ok f" by (rule new_frontier_ok [OF new assms(2)])
  have f: "fr_committed f = {..<start}" "set outs \<inter> fr_committed f = {}" "fr_depth f = depth"
    "fr_ceiling f = limit" "fr_initial_depth f = depth"
    using new front.run_steps_once [OF ok run]
    by (auto simp: new_frontier_def new_schedule_def fr_committed_def committed_def delivered_set_def
        split: if_splits)
  from front.run_steps_inv [OF ok run] frontier_run_depth [OF ok run] front.run_steps_once [OF ok run] f assms(3)
  show ?thesis by (auto simp: frontier_ok_def fr_occupied_def)
qed

theorem frontier_bounded_exactly_once_witness:
  "\<exists>f. new_frontier 4 1 4 1 2 ''b'' None 0 = Inr f
    \<and> fr_depth (fst (front.run_steps f
         [Scheduled (Dispatch 0 0), Waited 5, Scheduled (Dispatch 1 0), Scheduled (Complete 1 0),
          Scheduled (Commit_ready 1)])) = 2
    \<and> distinct (snd (front.run_steps f
         [Scheduled (Dispatch 0 0), Waited 5, Scheduled (Dispatch 1 0), Scheduled (Complete 1 0),
          Scheduled (Commit_ready 1)]))"
proof -
  let ?es = "[Scheduled (Dispatch 0 0), Waited 5, Scheduled (Dispatch 1 0), Scheduled (Complete 1 0),
          Scheduled (Commit_ready 1)]"
  obtain f where f: "new_frontier 4 1 4 1 2 ''b'' None 0 = Inr f"
    by (simp add: new_frontier_def new_schedule_def)
  obtain g outs where run: "front.run_steps f ?es = (g, outs)" by (cases "front.run_steps f ?es")
  have "fr_depth g = 2"
    using run f by (auto simp: new_frontier_def new_schedule_def fr_mark_dispatched_def mark_dispatched_def
        dispatch_at_def window_stop_def occupied_def record_wait_def Let_def set_depth_def
        fr_mark_completed_def mark_completed_def fr_try_commit_ready_def try_commit_ready_def)
  with frontier_bounded_exactly_once [OF f _ _ run] f run show ?thesis by simp
qed

text \<open>
  The dispatch order is a permutation of the admitted candidates in which known costs come
  first, dearest first, and ties and unknown costs keep the order of positions.
\<close>

theorem dispatch_order_correct:
  "mset (dispatch_order f) = mset (dispatch_candidates (fr_schedule f)) \<and>
   (case fr_cost_estimator f of
      None \<Rightarrow> sorted (dispatch_order f)
    | Some estimates \<Rightarrow> sorted_wrt (\<lambda>p q. case (estimates p, estimates q) of
         (None, Some _) \<Rightarrow> False
       | (Some _, None) \<Rightarrow> True
       | (None, None) \<Rightarrow> p < q
       | (Some c, Some d) \<Rightarrow> d < c \<or> d = c \<and> p < q) (dispatch_order f))"
  (is "_ \<and> ?sorted")
proof
  let ?cs = "dispatch_candidates (fr_schedule f)"
  show "mset (dispatch_order f) = mset ?cs"
    by (auto simp: dispatch_order_def Let_def split: option.splits)
  have cs: "sorted_wrt (<) ?cs" using dispatch_candidates_sorted by (simp add: strict_sorted_iff)
  show ?sorted
  proof (cases "fr_cost_estimator f")
    case None
    then show ?thesis using dispatch_candidates_sorted by (simp add: dispatch_order_def)
  next
    case (Some estimates)
    let ?r = "\<lambda>p q. case (estimates p, estimates q) of
         (None, Some _) \<Rightarrow> False | (Some _, None) \<Rightarrow> True | (None, None) \<Rightarrow> p < q
       | (Some c, Some d) \<Rightarrow> d < c \<or> d = c \<and> p < q"
    show ?thesis
    proof (cases "list_ex (\<lambda>p. estimates p \<noteq> None) ?cs")
      case False
      then have "sorted_wrt ?r ?cs"
        by (intro sorted_wrt_mono_rel [OF _ cs]) (auto simp: list_ex_iff)
      with False Some show ?thesis by (simp add: dispatch_order_def)
    next
      case True
      let ?xs = "sort_key (cost_key estimates) ?cs"
      have "sorted_wrt (<) (map (cost_key estimates) ?xs)"
        using dispatch_candidates_sorted [of "fr_schedule f"]
        by (auto simp: strict_sorted_iff distinct_map inj_on_def cost_key_def)
      then have "sorted_wrt (\<lambda>p q. cost_key estimates p < cost_key estimates q) ?xs"
        by (simp add: sorted_wrt_map)
      then have "sorted_wrt ?r ?xs"
        by (rule sorted_wrt_mono_rel [rotated])
          (auto simp: cost_key_def less_prod_def less_eq_prod_def less_bool_def le_bool_def split: option.splits)
      with True Some show ?thesis by (simp add: dispatch_order_def)
    qed
  qed
qed

text \<open>Reordering the candidates only reorders: what a frontier dispatches first is eligible.\<close>

lemma fr_next_dispatch_eligible:
  "fr_next_dispatch f = Some (p, w) \<Longrightarrow> \<exists>g. fr_mark_dispatched p w f = Inr g"
proof -
  assume "fr_next_dispatch f = Some (p, w)"
  then have "dispatch_at (fr_schedule f) p = Some (p, w)"
    by (auto simp: fr_next_dispatch_def fr_dispatch_at_def dispatch_at_def split: list.splits if_splits)
  from dispatch_routes [OF this] show ?thesis by (auto simp: fr_mark_dispatched_def)
qed

end
