(* ===== verification/Decimal.thy ===== *)
theory Decimal
  imports Prelude
begin

text \<open>
  Integers as text: \<^verbatim>\<open>str(i)\<close> and \<^verbatim>\<open>int(text)\<close>, through which JSON keys and cache file names pass.
  Reading back what was printed gives the integer.
\<close>

abbreviation digit_char :: "nat \<Rightarrow> char" where
  "digit_char d \<equiv> char_of (48 + d)"

fun digits_of :: "nat \<Rightarrow> string" where
  "digits_of n = (if n < 10 then [digit_char n] else digits_of (n div 10) @ [digit_char (n mod 10)])"

declare digits_of.simps [simp del]

definition str_of_int :: "int \<Rightarrow> string" where
  "str_of_int i = (if i < 0 then CHR ''-'' # digits_of (nat (- i)) else digits_of (nat i))"

definition digit_value :: "char \<Rightarrow> nat option" where
  "digit_value c = (let n = of_char c in if 48 \<le> n \<and> n < 58 then Some (n - 48) else None)"

text \<open>Digits with single underscores between them; the flag says that a digit came last.\<close>

fun parse_digits :: "nat \<Rightarrow> bool \<Rightarrow> string \<Rightarrow> nat option" where
  "parse_digits acc after_digit [] = (if after_digit then Some acc else None)"
| "parse_digits acc after_digit (c # cs) =
    (if c = CHR ''_'' then (if after_digit then parse_digits acc False cs else None)
     else case digit_value c of
       None \<Rightarrow> None
     | Some d \<Rightarrow> parse_digits (acc * 10 + d) True cs)"

definition is_space :: "char \<Rightarrow> bool" where
  "is_space c \<longleftrightarrow> (of_char c :: nat) \<in> {9, 10, 11, 12, 13, 28, 29, 30, 31, 32}"

definition strip :: "string \<Rightarrow> string" where
  "strip s = rev (dropWhile is_space (rev (dropWhile is_space s)))"

definition parse_int :: "string \<Rightarrow> int option" where
  "parse_int text =
    (case strip text of
       [] \<Rightarrow> None
     | c # cs \<Rightarrow>
         if c = CHR ''-'' then map_option (\<lambda>n. - int n) (parse_digits 0 False cs)
         else if c = CHR ''+'' then map_option int (parse_digits 0 False cs)
         else map_option int (parse_digits 0 False (c # cs)))"

lemma digit_char_code: "d < 10 \<Longrightarrow> of_char (digit_char d) = 48 + d"
  by (simp add: of_char_of)

lemma digit_value_char [simp]: "d < 10 \<Longrightarrow> digit_value (digit_char d) = Some d"
  by (simp add: digit_value_def digit_char_code Let_def)

lemma digit_char_neq:
  assumes "d < 10"
  shows "digit_char d \<noteq> CHR ''_''" "digit_char d \<noteq> CHR ''-''" "digit_char d \<noteq> CHR ''+''"
    "\<not> is_space (digit_char d)"
proof -
  have "(of_char c :: nat) = 48 + d" if "digit_char d = c" for c
    using digit_char_code [OF assms] that by simp
  from this [of "CHR ''_''"] this [of "CHR ''-''"] this [of "CHR ''+''"] assms
  show "digit_char d \<noteq> CHR ''_''" "digit_char d \<noteq> CHR ''-''" "digit_char d \<noteq> CHR ''+''" by auto
  show "\<not> is_space (digit_char d)"
    using digit_char_code [OF assms] by (auto simp: is_space_def)
qed

lemma digits_of_chars: "\<forall>c \<in> set (digits_of n). \<exists>d < 10. c = digit_char d"
proof (induction n rule: digits_of.induct)
  case (1 n)
  then show ?case
    by (subst digits_of.simps) (auto intro: exI [of _ n] exI [of _ "n mod 10"])
qed

lemma digits_of_nonempty [simp]: "digits_of n \<noteq> []"
  by (subst digits_of.simps) simp

lemma parse_digits_append:
  "\<forall>c \<in> set xs. \<exists>d < 10. c = digit_char d \<Longrightarrow> xs \<noteq> [] \<Longrightarrow>
   parse_digits acc b (xs @ ys) = parse_digits (the (parse_digits acc b xs)) True ys"
proof (induction xs arbitrary: acc b)
  case (Cons c xs)
  then obtain d where "d < 10" "c = digit_char d" by auto
  with Cons show ?case by (cases xs) (auto simp: digit_char_neq)
qed simp

lemma parse_digits_of: "parse_digits 0 b (digits_of n) = Some n"
proof (induction n rule: digits_of.induct)
  case (1 n)
  show ?case
  proof (cases "n < 10")
    case True
    then show ?thesis by (subst digits_of.simps) (simp add: digit_char_neq)
  next
    case False
    then have "parse_digits 0 b (digits_of n)
        = parse_digits 0 b (digits_of (n div 10) @ [digit_char (n mod 10)])"
      by (subst digits_of.simps) simp
    also have "\<dots> = parse_digits (n div 10) True [digit_char (n mod 10)]"
      using 1 False by (subst parse_digits_append) (simp_all add: digits_of_chars)
    also have "\<dots> = Some n" by (simp add: digit_char_neq)
    finally show ?thesis .
  qed
qed

lemma strip_nonspace:
  assumes "\<forall>c \<in> set s. \<not> is_space c"
  shows "strip s = s"
proof -
  have "dropWhile is_space t = t" if "\<forall>c \<in> set t. \<not> is_space c" for t
    using that by (cases t) auto
  from this [of s] this [of "rev s"] assms show ?thesis by (simp add: strip_def)
qed

lemma parse_str_of_int [simp]: "parse_int (str_of_int i) = Some i"
proof -
  have chars: "\<forall>c \<in> set (digits_of n). \<not> is_space c \<and> c \<noteq> CHR ''-'' \<and> c \<noteq> CHR ''+''" for n
    using digits_of_chars [of n] by (metis digit_char_neq)
  have "\<not> is_space CHR ''-''" by (simp add: is_space_def)
  with chars have "strip (str_of_int i) = str_of_int i"
    by (intro strip_nonspace) (auto simp: str_of_int_def)
  moreover obtain c cs where "digits_of (nat i) = c # cs" by (cases "digits_of (nat i)") simp_all
  moreover from this chars [of "nat i"] have "c \<noteq> CHR ''-''" "c \<noteq> CHR ''+''" by auto
  ultimately show ?thesis
    using parse_digits_of [of False "nat i"] parse_digits_of [of False "nat (- i)"]
    by (simp add: parse_int_def str_of_int_def)
qed

lemma str_of_int_inj [simp]: "str_of_int i = str_of_int j \<longleftrightarrow> i = j"
  by (metis option.inject parse_str_of_int)

end
