(* ===== verification/Profile.thy ===== *)
theory Profile
  imports Complex_Main Collections Decimal "HOL-Library.Multiset"
begin

text \<open>
  The bounded cost profile of \<^verbatim>\<open>fallback/profile.py\<close>: exact or bucketed moving averages of
  execution costs under a byte ceiling, their statistics and their stored form, and the byte
  budget of \<^verbatim>\<open>profile/runtime.py\<close>.  Costs are exact rationals in place of floats.
\<close>

section \<open>State and operations\<close>

record cost_profile =
  cp_position_count :: int
  cp_alpha :: rat
  cp_bucket_count :: int
  cp_degraded :: bool
  cp_values :: "(int, rat) dict"

definition new_cost_profile :: "int \<Rightarrow> int \<Rightarrow> rat \<Rightarrow> cost_profile res" where
  "new_cost_profile position_count max_bytes alpha =
    (if position_count < 0 \<or> max_bytes < 0 then Inl (ValueError ''profile sizes must be nonnegative'')
     else if \<not> (0 < alpha \<and> alpha \<le> 1) then Inl (ValueError ''profile alpha must be in (0, 1]'')
     else let bucket_count = min position_count (max_bytes div 8) in
       Inr \<lparr>cp_position_count = position_count, cp_alpha = alpha, cp_bucket_count = bucket_count,
            cp_degraded = (bucket_count < position_count), cp_values = []\<rparr>)"

definition bucket_of :: "cost_profile \<Rightarrow> int \<Rightarrow> int res" where
  "bucket_of p position =
    (if \<not> (0 \<le> position \<and> position < cp_position_count p)
     then Inl (ValueError ''profile position is outside its domain'')
     else if cp_bucket_count p = 0
     then Inl (ValueError ''profile byte budget admits no observations'')
     else Inr (position mod cp_bucket_count p))"

definition observe :: "int \<Rightarrow> int \<Rightarrow> cost_profile \<Rightarrow> cost_profile res" where
  "observe position cost_ns p =
    rbind (bucket_of p position) (\<lambda>bucket.
      let value = of_int cost_ns;
          updated = (case dict_get (cp_values p) bucket of
                       None \<Rightarrow> value
                     | Some previous \<Rightarrow> cp_alpha p * value + (1 - cp_alpha p) * previous)
      in Inr (p\<lparr>cp_values := dict_set bucket updated (cp_values p)\<rparr>))"

definition estimate :: "cost_profile \<Rightarrow> int \<Rightarrow> rat option res" where
  "estimate p position = rmap (\<lambda>bucket. dict_get (cp_values p) bucket) (bucket_of p position)"

definition statistics_index :: "int \<Rightarrow> int" where
  "statistics_index n = min (n - 1) (\<lceil>999 / 1000 * (of_int n :: rat)\<rceil> - 1)"

definition statistics :: "cost_profile \<Rightarrow> (rat \<times> rat \<times> int) option" where
  "statistics p =
    (if cp_values p = [] then None
     else
       let values = sort (map snd (cp_values p));
           n = int (length values)
       in Some (sum_list values / of_int n, values ! nat (statistics_index n), n))"

definition payload_bytes :: "cost_profile \<Rightarrow> int" where
  "payload_bytes p = cp_bucket_count p * 8"

text \<open>
  The JSON object that \<open>save\<close> writes: the integer keys of the value table become text, in the
  order of the integers.  \<open>load\<close> reads such an object; a field that is missing is \<open>None\<close>.
\<close>

record stored_profile =
  sp_alpha :: "rat option"
  sp_bucket_count :: "int option"
  sp_position_count :: "int option"
  sp_values :: "(string \<times> rat) list option"

definition save_profile :: "cost_profile \<Rightarrow> stored_profile" where
  "save_profile p =
    \<lparr>sp_alpha = Some (cp_alpha p), sp_bucket_count = Some (cp_bucket_count p),
     sp_position_count = Some (cp_position_count p),
     sp_values = Some (map (\<lambda>(k, v). (str_of_int k, v)) (sort_key fst (cp_values p)))\<rparr>"

definition isclose :: "rat \<Rightarrow> rat \<Rightarrow> bool" where
  "isclose a b \<longleftrightarrow> a = b \<or> \<bar>a - b\<bar> \<le> 1 / 10 ^ 9 * max \<bar>a\<bar> \<bar>b\<bar>"

definition read_value :: "string \<times> rat \<Rightarrow> (int \<times> rat) res" where
  "read_value = (\<lambda>(key, value).
    case parse_int key of
      None \<Rightarrow> Inl (ValueError ''invalid literal for int()'')
    | Some k \<Rightarrow> Inr (k, value))"

definition load_profile :: "stored_profile \<Rightarrow> int \<Rightarrow> int \<Rightarrow> rat \<Rightarrow> cost_profile res" where
  "load_profile stored position_count max_bytes alpha =
    rbind (new_cost_profile position_count max_bytes alpha) (\<lambda>p.
      if sp_position_count stored \<noteq> Some position_count \<or> sp_bucket_count stored \<noteq> Some (cp_bucket_count p)
      then Inl (ValueError ''cost profile configuration changed'')
      else (case sp_alpha stored of
          None \<Rightarrow> Inl (TypeError ''float() argument must be a string or a real number'')
        | Some stored_alpha \<Rightarrow>
            if \<not> isclose stored_alpha alpha then Inl (ValueError ''cost profile configuration changed'')
            else (case sp_values stored of
                None \<Rightarrow> Inl (KeyError ''values'')
              | Some entries \<Rightarrow>
                  rmap (\<lambda>items. p\<lparr>cp_values := fold (\<lambda>(k, v) d. dict_set k v d) items []\<rparr>)
                    (rtraverse read_value entries))))"

text \<open>\<^verbatim>\<open>int(x)\<close> on a float truncates towards zero.\<close>

definition py_trunc :: "rat \<Rightarrow> int" where
  "py_trunc r = (if 0 \<le> r then \<lfloor>r\<rfloor> else \<lceil>r\<rceil>)"

definition profile_budget_bytes :: "rat \<Rightarrow> int \<Rightarrow> int res" where
  "profile_budget_bytes fraction free_disk_bytes =
    (if \<not> 0 < fraction then Inl (ValueError ''profile disk fraction must be positive'')
     else if free_disk_bytes < 0 then Inl (ValueError ''free disk bytes must be nonnegative'')
     else Inr (min free_disk_bytes (py_trunc (fraction * of_int free_disk_bytes))))"

section \<open>The invariant\<close>

text \<open>At most \<open>bucket_count\<close> buckets, each a value in the range of the observed costs.\<close>

definition profile_ok :: "rat \<Rightarrow> rat \<Rightarrow> cost_profile \<Rightarrow> bool" where
  "profile_ok lo hi p \<longleftrightarrow>
     0 < cp_alpha p \<and> cp_alpha p \<le> 1 \<and> 0 \<le> cp_bucket_count p \<and>
     cp_bucket_count p \<le> cp_position_count p \<and>
     (cp_degraded p \<longleftrightarrow> cp_bucket_count p < cp_position_count p) \<and> dict_ok (cp_values p) \<and>
     (\<forall>(k, v) \<in> set (cp_values p). 0 \<le> k \<and> k < cp_bucket_count p \<and> lo \<le> v \<and> v \<le> hi)"

lemma new_cost_profile_ok:
  "new_cost_profile n bytes alpha = Inr p \<Longrightarrow> profile_ok lo hi p \<and> payload_bytes p \<le> bytes"
  by (auto simp: new_cost_profile_def profile_ok_def payload_bytes_def Let_def min_def split: if_splits)

lemma set_dict_set: "(k', v') \<in> set (dict_set k v d) \<Longrightarrow> (k', v') = (k, v) \<or> (k', v') \<in> set d"
  by (induction d) (auto split: if_splits)

lemma convex_bounds:
  fixes a :: rat
  assumes "0 < a" "a \<le> 1" "lo \<le> x" "x \<le> hi" "lo \<le> y" "y \<le> hi"
  shows "lo \<le> a * x + (1 - a) * y" "a * x + (1 - a) * y \<le> hi"
proof -
  have "a * lo + (1 - a) * lo \<le> a * x + (1 - a) * y"
    using assms by (intro add_mono mult_left_mono) simp_all
  then show "lo \<le> a * x + (1 - a) * y" by (simp add: algebra_simps)
  have "a * x + (1 - a) * y \<le> a * hi + (1 - a) * hi"
    using assms by (intro add_mono mult_left_mono) simp_all
  then show "a * x + (1 - a) * y \<le> hi" by (simp add: algebra_simps)
qed

lemma observe_ok:
  assumes ok: "profile_ok lo hi p" and obs: "observe i c p = Inr q" and c: "lo \<le> of_int c" "of_int c \<le> hi"
  shows "profile_ok lo hi q"
proof -
  let ?b = "i mod cp_bucket_count p"
  from obs have b: "bucket_of p i = Inr ?b" "0 \<le> i" "i < cp_position_count p" "cp_bucket_count p \<noteq> 0"
    by (auto simp: observe_def bucket_of_def rbind_eq_Inr split: if_splits)
  obtain v where q: "q = p\<lparr>cp_values := dict_set ?b v (cp_values p)\<rparr>"
    and v: "v = (case dict_get (cp_values p) ?b of None \<Rightarrow> of_int c
      | Some previous \<Rightarrow> cp_alpha p * of_int c + (1 - cp_alpha p) * previous)"
    using obs b(1) by (auto simp: observe_def Let_def)
  have "lo \<le> v \<and> v \<le> hi"
  proof (cases "dict_get (cp_values p) ?b")
    case (Some previous)
    then have "(?b, previous) \<in> set (cp_values p)" by (rule map_of_SomeD)
    with ok have "lo \<le> previous" "previous \<le> hi" by (auto simp: profile_ok_def)
    with ok c Some v show ?thesis by (simp add: profile_ok_def convex_bounds)
  qed (use c v in simp)
  moreover have "0 < cp_bucket_count p" using ok b by (simp add: profile_ok_def)
  ultimately show ?thesis
    using ok by (auto simp: q profile_ok_def dest!: set_dict_set)
qed

fun observe_all :: "(int \<times> int) list \<Rightarrow> cost_profile \<Rightarrow> cost_profile res" where
  "observe_all [] p = Inr p"
| "observe_all ((i, c) # os) p = rbind (observe i c p) (observe_all os)"

lemma observe_all_ok:
  "profile_ok lo hi p \<Longrightarrow> observe_all os p = Inr q \<Longrightarrow> \<forall>(i, c) \<in> set os. lo \<le> of_int c \<and> of_int c \<le> hi \<Longrightarrow>
   profile_ok lo hi q"
proof (induction os arbitrary: p)
  case (Cons x os)
  obtain i c where x: "x = (i, c)" by (cases x)
  with Cons.prems(2) obtain r where r: "observe i c p = Inr r" "observe_all os r = Inr q"
    by (auto simp: rbind_eq_Inr)
  have "profile_ok lo hi r" using Cons.prems(1,3) x by (intro observe_ok [OF _ r(1)]) auto
  with Cons.prems(3) show ?case by (intro Cons.IH [OF _ r(2)]) auto
qed simp

lemma observe_all_frame:
  "observe_all os p = Inr q \<Longrightarrow>
     cp_bucket_count q = cp_bucket_count p \<and> cp_position_count q = cp_position_count p \<and>
     cp_alpha q = cp_alpha p \<and> cp_degraded q = cp_degraded p"
proof (induction os arbitrary: p)
  case (Cons x os)
  obtain i c where x: "x = (i, c)" by (cases x)
  with Cons.prems obtain r where r: "observe i c p = Inr r" "observe_all os r = Inr q"
    by (auto simp: rbind_eq_Inr)
  from r(1) Cons.IH [OF r(2)] show ?case by (auto simp: observe_def rbind_eq_Inr Let_def)
qed simp

section \<open>Statistics\<close>

lemma statistics_index_range: "0 < n \<Longrightarrow> 0 \<le> statistics_index n \<and> statistics_index n < n"
proof -
  assume "0 < n"
  then have "0 < 999 / 1000 * (of_int n :: rat)" by simp
  then have "1 \<le> \<lceil>999 / 1000 * (of_int n :: rat)\<rceil>" by linarith
  with \<open>0 < n\<close> show ?thesis by (simp add: statistics_index_def)
qed

lemma sum_list_bounds:
  fixes xs :: "rat list"
  shows "\<forall>x\<in>set xs. lo \<le> x \<and> x \<le> hi \<Longrightarrow>
    of_nat (length xs) * lo \<le> sum_list xs \<and> sum_list xs \<le> of_nat (length xs) * hi"
  by (induction xs) (auto simp: algebra_simps add_mono)

lemma length_buckets:
  assumes "profile_ok lo hi p"
  shows "int (length (cp_values p)) \<le> cp_bucket_count p"
proof -
  have "dict_keys (cp_values p) \<subseteq> {0..<cp_bucket_count p}"
    using assms by (auto simp: profile_ok_def dict_keys_def)
  then have "card (dict_keys (cp_values p)) \<le> card {0..<cp_bucket_count p}" by (intro card_mono) simp_all
  with assms show ?thesis by (simp add: profile_ok_def length_dict le_nat_iff)
qed

lemma statistics_bounds:
  assumes ok: "profile_ok lo hi p" and s: "statistics p = Some (m, tail, n)"
  shows "lo \<le> m \<and> m \<le> hi \<and> lo \<le> tail \<and> tail \<le> hi \<and> 0 < n \<and> n \<le> cp_bucket_count p \<and>
    n = int (length (cp_values p))"
proof -
  let ?vs = "sort (map snd (cp_values p))"
  have n: "n = int (length (cp_values p))" and n0: "0 < n"
    and m: "m = sum_list ?vs / of_int n" and tail: "tail = ?vs ! nat (statistics_index n)"
    using s by (auto simp: statistics_def Let_def split: if_splits)
  have vs: "\<forall>x\<in>set ?vs. lo \<le> x \<and> x \<le> hi" using ok by (auto simp: profile_ok_def)
  have "nat (statistics_index n) < length ?vs"
    using statistics_index_range [OF n0] n by (simp add: nat_less_iff)
  then have "tail \<in> set ?vs" unfolding tail by (rule nth_mem)
  moreover have "of_int n * lo \<le> sum_list ?vs \<and> sum_list ?vs \<le> of_int n * hi"
    using sum_list_bounds [OF vs] by (simp add: n)
  then have "lo \<le> m \<and> m \<le> hi"
    using n0 by (simp add: m le_divide_eq divide_le_eq mult.commute)
  ultimately show ?thesis using vs n0 n length_buckets [OF ok] by auto
qed

text \<open>
  A profile built from a stream of observations keeps its byte budget, and both the mean and the
  tail cost it reports lie between the least and the greatest observed cost; the mean is then
  positive when the costs are, so the ratio the frontier is sized by is defined.
\<close>

theorem profile_statistics_sound:
  assumes new: "new_cost_profile n bytes alpha = Inr p" and obs: "observe_all observations p = Inr q"
    and costs: "\<forall>(i, c) \<in> set observations. lo \<le> of_int c \<and> of_int c \<le> hi"
    and stats: "statistics q = Some (m, tail, populated)"
  shows "lo \<le> m \<and> m \<le> hi \<and> lo \<le> tail \<and> tail \<le> hi \<and> 0 < populated \<and> populated * 8 \<le> bytes"
proof -
  have "profile_ok lo hi p" "payload_bytes p \<le> bytes" using new_cost_profile_ok [OF new] by auto
  moreover have "cp_bucket_count q = cp_bucket_count p" using observe_all_frame [OF obs] by simp
  ultimately show ?thesis
    using statistics_bounds [OF observe_all_ok [OF _ obs costs] stats] by (auto simp: payload_bytes_def)
qed

theorem profile_statistics_sound_witness:
  "rbind (rbind (new_cost_profile 4 16 (1 / 2)) (observe_all [(0, 100), (2, 300), (1, 50)]))
     (\<lambda>q. Inr (statistics q)) = Inr (Some (125, 200, 2)) \<and> (50::rat) \<le> 125 \<and> (200::rat) \<le> 300 \<and> 2 * 8 \<le> (16::int)"
proof -
  obtain p where p: "new_cost_profile 4 16 (1 / 2) = Inr p" by (simp add: new_cost_profile_def)
  obtain q where q: "observe_all [(0, 100), (2, 300), (1, 50)] p = Inr q"
    using p by (auto simp: new_cost_profile_def Let_def observe_def bucket_of_def)
  have s: "statistics q = Some (125, 200, 2)"
    using p q by (auto simp: new_cost_profile_def Let_def observe_def bucket_of_def statistics_def
        statistics_index_def insort_key.simps)
  from profile_statistics_sound [OF p q _ s, of 50 300] p q s show ?thesis by simp
qed

section \<open>Round trip\<close>

lemma read_saved_values:
  "rtraverse read_value (map (\<lambda>(k, v). (str_of_int k, v)) items) = Inr items"
  by (induction items) (auto simp: read_value_def)

lemma fold_dict_set_distinct:
  "distinct (map fst items) \<Longrightarrow> dict_keys d \<inter> fst ` set items = {} \<Longrightarrow>
   fold (\<lambda>(k, v) d. dict_set k v d) items d = d @ items"
proof (induction items arbitrary: d)
  case (Cons x items)
  obtain k v where x: "x = (k, v)" by (cases x)
  have "dict_set k v d = d @ [(k, v)]" using Cons.prems x by (intro length_dict_set_new) auto
  moreover have "fold (\<lambda>(k, v) d. dict_set k v d) items (d @ [(k, v)]) = (d @ [(k, v)]) @ items"
    using Cons.prems x by (intro Cons.IH) (auto simp: dict_keys_def)
  ultimately show ?case by (simp add: x)
qed simp

text \<open>
  A saved profile loads again under the configuration it was built for, with the same
  estimates for every position and the same statistics.
\<close>

theorem profile_round_trip:
  assumes new: "new_cost_profile n bytes alpha = Inr p" and obs: "observe_all observations p = Inr q"
  shows "\<exists>r. load_profile (save_profile q) n bytes alpha = Inr r \<and>
    (\<forall>i. estimate r i = estimate q i) \<and> statistics r = statistics q"
proof -
  have q: "cp_bucket_count q = cp_bucket_count p" "cp_position_count q = cp_position_count p"
    "cp_alpha q = cp_alpha p" "cp_degraded q = cp_degraded p"
    using observe_all_frame [OF obs] by simp_all
  have p: "cp_position_count p = n" "cp_alpha p = alpha" using new
    by (auto simp: new_cost_profile_def Let_def split: if_splits)
  let ?items = "sort_key fst (cp_values q)"
  obtain lo hi where costs: "\<forall>(i, c) \<in> set observations. (lo::rat) \<le> of_int c \<and> of_int c \<le> (hi::rat)"
  proof (cases "observations = []")
    case False
    let ?cs = "(\<lambda>x. of_int (snd x)) ` set observations :: rat set"
    have "\<forall>(i, c) \<in> set observations. Min ?cs \<le> of_int c \<and> of_int c \<le> Max ?cs"
    proof clarify
      fix i c assume "(i, c) \<in> set observations"
      then have "of_int c \<in> ?cs" by force
      then show "Min ?cs \<le> of_int c \<and> of_int c \<le> Max ?cs" by simp
    qed
    then show ?thesis by (rule that)
  qed (use that in auto)
  have "profile_ok lo hi q" using new_cost_profile_ok [OF new] observe_all_ok [OF _ obs costs] by blast
  then have d: "distinct (map fst (cp_values q))" by (simp add: profile_ok_def dict_ok_def)
  then have di: "distinct (map fst ?items)" by (simp add: distinct_map)
  let ?r = "p\<lparr>cp_values := ?items\<rparr>"
  have "load_profile (save_profile q) n bytes alpha = Inr ?r"
    using fold_dict_set_distinct [OF di, of "[]"]
    by (simp add: load_profile_def new save_profile_def p q isclose_def read_saved_values)
  moreover have "map_of ?items = map_of (cp_values q)"
    using d di by (intro map_of_eqI) auto
  then have "\<forall>i. estimate ?r i = estimate q i"
    by (simp add: estimate_def bucket_of_def q p)
  ultimately have r: "load_profile (save_profile q) n bytes alpha = Inr ?r"
    "\<forall>i. estimate ?r i = estimate q i" by auto
  have "mset (map snd ?items) = mset (map snd (cp_values q))" by simp
  then have sorted: "sort (map snd ?items) = sort (map snd (cp_values q))"
    by (intro properties_for_sort) auto
  have "?items = [] \<longleftrightarrow> cp_values q = []" by (metis length_0_conv length_sort)
  with sorted have "statistics ?r = statistics q"
    by (simp add: statistics_def Let_def)
  with r show ?thesis by blast
qed

theorem profile_round_trip_witness:
  "\<exists>p q r. new_cost_profile 4 32 (1 / 2) = Inr p \<and> observe_all [(3, 100), (0, 7)] p = Inr q \<and>
     load_profile (save_profile q) 4 32 (1 / 2) = Inr r \<and> estimate r 3 = Inr (Some 100)"
proof -
  obtain p where p: "new_cost_profile 4 32 (1 / 2) = Inr p" by (simp add: new_cost_profile_def)
  obtain q where q: "observe_all [(3, 100), (0, 7)] p = Inr q"
    using p by (auto simp: new_cost_profile_def Let_def observe_def bucket_of_def)
  have "estimate q 3 = Inr (Some 100)"
    using p q by (auto simp: new_cost_profile_def Let_def observe_def bucket_of_def estimate_def)
  with profile_round_trip [OF p q] p q show ?thesis by metis
qed

end
