(* ===== verification/PyValue.thy ===== *)
theory PyValue
  imports Complex_Main Collections
begin

text \<open>
  The values that cross the public boundary: checkpoint payloads, fingerprints and configuration
  objects.  Floats are exact rationals, a dict is an association list with distinct keys, and
  an object the source only passes along is opaque, told apart by a number.  \<open>py_eq\<close> is Python's
  \<^verbatim>\<open>==\<close>: numbers compare across their types, dicts without regard to order.
\<close>

datatype pyval =
    PNone
  | PBool bool
  | PInt int
  | PFloat rat
  | PStr string
  | PBytes "int list"
  | PList "pyval list"
  | PTuple "pyval list"
  | PDict "(pyval \<times> pyval) list"
  | POpaque nat

type_synonym payload = "(pyval \<times> pyval) list"

section \<open>Equality and truth\<close>

fun num_of :: "pyval \<Rightarrow> rat option" where
  "num_of (PBool b) = Some (if b then 1 else 0)"
| "num_of (PInt i) = Some (of_int i)"
| "num_of (PFloat r) = Some r"
| "num_of _ = None"

function py_eq :: "pyval \<Rightarrow> pyval \<Rightarrow> bool"
  and py_eqs :: "pyval list \<Rightarrow> pyval list \<Rightarrow> bool"
  and py_within :: "(pyval \<times> pyval) list \<Rightarrow> (pyval \<times> pyval) list \<Rightarrow> bool"
  and py_item :: "pyval \<Rightarrow> pyval \<Rightarrow> (pyval \<times> pyval) list \<Rightarrow> bool" where
  "py_eq (PList xs) v = (case v of PList ys \<Rightarrow> py_eqs xs ys | _ \<Rightarrow> False)"
| "py_eq (PTuple xs) v = (case v of PTuple ys \<Rightarrow> py_eqs xs ys | _ \<Rightarrow> False)"
| "py_eq (PDict d) v = (case v of PDict e \<Rightarrow> length d = length e \<and> py_within d e | _ \<Rightarrow> False)"
| "py_eq PNone v = (v = PNone)"
| "py_eq (PStr s) v = (v = PStr s)"
| "py_eq (PBytes b) v = (v = PBytes b)"
| "py_eq (POpaque n) v = (v = POpaque n)"
| "py_eq (PBool b) v = (num_of v = num_of (PBool b))"
| "py_eq (PInt i) v = (num_of v = num_of (PInt i))"
| "py_eq (PFloat r) v = (num_of v = num_of (PFloat r))"
| "py_eqs [] ys = (ys = [])"
| "py_eqs (x # xs) ys = (case ys of [] \<Rightarrow> False | y # ys \<Rightarrow> py_eq x y \<and> py_eqs xs ys)"
| "py_within [] e = True"
| "py_within ((k, v) # d) e = (py_item k v e \<and> py_within d e)"
| "py_item k v [] = False"
| "py_item k v ((k', v') # e) = (py_eq k k' \<and> py_eq v v' \<or> py_item k v e)"
  by pat_completeness auto
termination
  by (relation "measures
      [case_sum (case_sum (\<lambda>(x, y). size x) (\<lambda>(xs, ys). size_list size xs))
         (case_sum (\<lambda>(d, e). size_list (size_prod size size) d) (\<lambda>(k, v, e). size k + size v + 1)),
       case_sum (\<lambda>_. 0) (case_sum (\<lambda>_. 0) (\<lambda>(k, v, e). length e))]") auto

lemma py_within_Cons: "py_within d e \<Longrightarrow> py_within d (x # e)"
  by (induction d) (auto, cases x, auto)

lemma py_eq_refl [simp]: "py_eq v v"
  and py_eqs_refl [simp]: "py_eqs xs xs"
  and py_within_refl [simp]: "py_within d d"
proof -
  have "py_eq v v" for v
  proof (induction v rule: pyval.induct)
    case (PList xs)
    then show ?case by (simp, induction xs) auto
  next
    case (PTuple xs)
    then show ?case by (simp, induction xs) auto
  next
    case (PDict d)
    have "py_within d d" using PDict
    proof (induction d)
      case (Cons x d)
      obtain k v where x: "x = (k, v)" by (cases x)
      with Cons.prems have "py_eq k k" "py_eq v v" by (force simp: Basic_BNFs.fsts.simps)+
      moreover have "py_within d d" using Cons by (metis list.set_intros(2))
      ultimately show ?case using x py_within_Cons by auto
    qed simp
    then show ?case by simp
  qed auto
  note eq = this
  then show "py_eq v v" .
  show "py_eqs xs xs" by (induction xs) (simp_all add: eq)
  show "py_within d d" by (induction d) (auto simp: eq intro: py_within_Cons)
qed

fun truthy :: "pyval \<Rightarrow> bool" where
  "truthy PNone = False"
| "truthy (PBool b) = b"
| "truthy (PInt i) = (i \<noteq> 0)"
| "truthy (PFloat r) = (r \<noteq> 0)"
| "truthy (PStr s) = (s \<noteq> [])"
| "truthy (PBytes b) = (b \<noteq> [])"
| "truthy (PList xs) = (xs \<noteq> [])"
| "truthy (PTuple xs) = (xs \<noteq> [])"
| "truthy (PDict d) = (d \<noteq> [])"
| "truthy (POpaque n) = True"

section \<open>Fields of a payload\<close>

definition pget :: "payload \<Rightarrow> string \<Rightarrow> pyval option" where
  "pget d key = dict_get d (PStr key)"

lemma pget_Nil [simp]: "pget [] key = None"
  by (simp add: pget_def)

lemma pget_Cons [simp]: "pget ((PStr k, v) # d) key = (if k = key then Some v else pget d key)"
  by (simp add: pget_def)

text \<open>\<^verbatim>\<open>payload.get(key)\<close>, with \<^verbatim>\<open>None\<close> for a missing key, and \<^verbatim>\<open>payload[key]\<close>.\<close>

definition get_or_none :: "payload \<Rightarrow> string \<Rightarrow> pyval" where
  "get_or_none d key = (case pget d key of None \<Rightarrow> PNone | Some v \<Rightarrow> v)"

definition get_item :: "payload \<Rightarrow> string \<Rightarrow> pyval res" where
  "get_item d key = (case pget d key of None \<Rightarrow> Inl (KeyError key) | Some v \<Rightarrow> Inr v)"

text \<open>
  The integer check that every checkpoint class makes: booleans are refused, and a value below
  zero or above the maximum is out of range.  \<open>who\<close> starts the message.
\<close>

definition checked_integer :: "string \<Rightarrow> payload \<Rightarrow> string \<Rightarrow> int option \<Rightarrow> int res" where
  "checked_integer who payload key maximum =
    (case get_or_none payload key of
       PInt value \<Rightarrow>
         if value < 0 then Inl (ValueError (who @ key @ '' must be nonnegative''))
         else if (case maximum of None \<Rightarrow> False | Some m \<Rightarrow> m < value)
         then Inl (ValueError (who @ key @ '' exceeds its supported range''))
         else Inr value
     | _ \<Rightarrow> Inl (TypeError (who @ key @ '' must be an integer'')))"

lemma checked_integer_iff:
  "checked_integer who d key maximum = Inr i \<longleftrightarrow>
     pget d key = Some (PInt i) \<and> 0 \<le> i \<and> (\<forall>m. maximum = Some m \<longrightarrow> i \<le> m)"
  by (auto simp: checked_integer_def get_or_none_def not_le split: option.splits pyval.splits)

fun as_dict :: "pyval \<Rightarrow> payload option" where
  "as_dict (PDict d) = Some d"
| "as_dict _ = None"

fun as_list :: "pyval \<Rightarrow> pyval list option" where
  "as_list (PList xs) = Some xs"
| "as_list _ = None"

fun as_str :: "pyval \<Rightarrow> string option" where
  "as_str (PStr s) = Some s"
| "as_str _ = None"

fun as_bytes :: "pyval \<Rightarrow> int list option" where
  "as_bytes (PBytes b) = Some b"
| "as_bytes _ = None"

fun as_int :: "pyval \<Rightarrow> int option" where
  \<comment> \<open>an integer that is no boolean\<close>
  "as_int (PInt i) = Some i"
| "as_int _ = None"

lemma as_simps [simp]:
  "as_dict v = Some d \<longleftrightarrow> v = PDict d" "as_list v = Some xs \<longleftrightarrow> v = PList xs"
  "as_str v = Some s \<longleftrightarrow> v = PStr s" "as_bytes v = Some b \<longleftrightarrow> v = PBytes b"
  "as_int v = Some i \<longleftrightarrow> v = PInt i"
  by (cases v; simp)+

section \<open>Checkpoint codecs\<close>

text \<open>
  The contract of the checkpoint classes: what \<open>to_dict\<close> of a well-formed state gives, \<open>from_dict\<close>
  reads back, and what \<open>from_dict\<close> accepts is well formed.
\<close>

locale checkpoint_codec =
  fixes encode :: "'s \<Rightarrow> payload" and decode :: "pyval \<Rightarrow> 's res" and valid :: "'s \<Rightarrow> bool"
  assumes decode_encode: "valid s \<Longrightarrow> decode (PDict (encode s)) = Inr s"
    and decode_valid: "decode p = Inr s \<Longrightarrow> valid s"
begin

lemma encode_inj: "valid s \<Longrightarrow> valid t \<Longrightarrow> encode s = encode t \<Longrightarrow> s = t"
  by (metis decode_encode sum.inject(2))

lemma accepted_stable: "decode p = Inr s \<Longrightarrow> decode (PDict (encode s)) = Inr s"
  by (rule decode_encode, rule decode_valid)

end

end
