(* ===== verification/Config.thy ===== *)
theory Config
  imports PyValue "HOL-Library.List_Lexorder" "HOL-Library.Char_ord"
begin

text \<open>
  The typed configuration (\<^verbatim>\<open>config/*.py\<close>): one record per dataclass with its defaults, and the
  check of each \<^verbatim>\<open>__post_init__\<close> in the order of the source.  A field declared as a number holds
  any Python number, so that the checks against booleans are part of the model; floats are exact
  rationals.
\<close>

section \<open>Numbers and automatic values\<close>

datatype py_number = Bool_value bool | Int_value int | Float_value rat

fun number_value :: "py_number \<Rightarrow> rat" where
  "number_value (Bool_value b) = (if b then 1 else 0)"
| "number_value (Int_value i) = of_int i"
| "number_value (Float_value r) = r"

fun is_bool_value :: "py_number \<Rightarrow> bool" where
  "is_bool_value (Bool_value _) = True"
| "is_bool_value _ = False"

fun is_int_value :: "py_number \<Rightarrow> bool" where
  \<comment> \<open>\<open>isinstance(value, int)\<close>, which booleans satisfy\<close>
  "is_int_value (Float_value _) = False"
| "is_int_value _ = True"

fun require_nonnegative_int :: "string \<Rightarrow> py_number auto \<Rightarrow> unit res" where
  "require_nonnegative_int name AUTO = Inr ()"
| "require_nonnegative_int name (Explicit value) =
    (if is_bool_value value \<or> number_value value < 0
     then Inl (ValueError (name @ '' must be auto or a nonnegative integer'')) else Inr ())"

definition require_positive :: "string \<Rightarrow> py_number \<Rightarrow> unit res" where
  "require_positive name value =
    (if number_value value \<le> 0 then Inl (ValueError (name @ '' must be positive'')) else Inr ())"

lemma require_nonnegative_int_iff [simp]:
  "require_nonnegative_int name v = Inr u \<longleftrightarrow>
     (\<forall>x. v = Explicit x \<longrightarrow> \<not> is_bool_value x \<and> 0 \<le> number_value x)"
  by (cases v) (auto simp: not_le not_less)

lemma require_positive_iff [simp]: "require_positive name v = Inr u \<longleftrightarrow> 0 < number_value v"
  by (simp add: require_positive_def)

section \<open>Ceilings and the controller\<close>

record ceiling_config =
  cc_cpu_cores :: "py_number auto"
  cc_bandwidth :: "py_number auto"

definition ceiling_post_init :: "ceiling_config \<Rightarrow> unit res" where
  "ceiling_post_init c =
    rbind (require_nonnegative_int ''control.ceilings.cpu_cores'' (cc_cpu_cores c)) (\<lambda>_.
      case cc_bandwidth c of
        AUTO \<Rightarrow> Inr ()
      | Explicit bandwidth \<Rightarrow>
          if number_value bandwidth < 0
          then Inl (ValueError ''control.ceilings.bandwidth must be auto or nonnegative'') else Inr ())"

definition default_ceilings :: ceiling_config where
  "default_ceilings = \<lparr>cc_cpu_cores = AUTO, cc_bandwidth = AUTO\<rparr>"

record control_config =
  ctl_cadence :: "py_number auto"
  ctl_machine_keeping :: string
  ctl_ceilings :: ceiling_config

definition control_post_init :: "control_config \<Rightarrow> unit res" where
  "control_post_init c =
    rbind (case ctl_cadence c of
             AUTO \<Rightarrow> Inr ()
           | Explicit cadence \<Rightarrow>
               if number_value cadence \<le> 0 then Inl (ValueError ''control.cadence must be auto or positive'')
               else Inr ()) (\<lambda>_.
      if ctl_machine_keeping c \<notin> {''auto'', ''off''}
      then Inl (ValueError ''control.machine_keeping must be auto or off'') else Inr ())"

definition default_control :: control_config where
  "default_control =
    \<lparr>ctl_cadence = AUTO, ctl_machine_keeping = ''auto'', ctl_ceilings = default_ceilings\<rparr>"

section \<open>Determinism\<close>

record determinism_config =
  det_exact_count :: bool
  det_fingerprint :: string
  det_decoder_pins :: "pyval auto"
  det_seeded_libs :: "string list auto"
  det_compat_resume :: string

definition determinism_post_init :: "determinism_config \<Rightarrow> unit res" where
  "determinism_post_init c =
    (case det_seeded_libs c of
       AUTO \<Rightarrow> Inr ()
     | Explicit libs \<Rightarrow>
         let unknown = sort (remdups (filter (\<lambda>l. l \<notin> {''torch'', ''random'', ''numpy''}) libs)) in
         if unknown \<noteq> []
         then Inl (ValueError (''determinism.seeded_libs contains unknown libraries: '' @ join_strings '', '' unknown))
         else if length (remdups libs) \<noteq> length libs
         then Inl (ValueError ''determinism.seeded_libs must not contain duplicates'')
         else Inr ())"

definition default_determinism :: determinism_config where
  "default_determinism =
    \<lparr>det_exact_count = False, det_fingerprint = ''content'', det_decoder_pins = AUTO,
     det_seeded_libs = AUTO, det_compat_resume = ''off''\<rparr>"

section \<open>Topology, execution, scheduling\<close>

record distributed_config =
  dist_rank :: "py_number auto"
  dist_world_size :: "py_number auto"

definition distributed_post_init :: "distributed_config \<Rightarrow> unit res" where
  "distributed_post_init c =
    rbind (require_nonnegative_int ''distributed.rank'' (dist_rank c)) (\<lambda>_.
    rbind (require_nonnegative_int ''distributed.world_size'' (dist_world_size c)) (\<lambda>_.
      case dist_world_size c of
        AUTO \<Rightarrow> Inr ()
      | Explicit world_size \<Rightarrow>
          if number_value world_size = 0
          then Inl (ValueError ''distributed.world_size must be auto or positive'')
          else (case dist_rank c of
                  AUTO \<Rightarrow> Inr ()
                | Explicit rank \<Rightarrow>
                    if number_value world_size \<le> number_value rank
                    then Inl (ValueError ''distributed.rank must be smaller than distributed.world_size'')
                    else Inr ())))"

definition default_distributed :: distributed_config where
  "default_distributed = \<lparr>dist_rank = AUTO, dist_world_size = AUTO\<rparr>"

record executor_config =
  exec_process_ceiling :: "py_number auto"
  exec_pin_policy :: string
  exec_on_worker_death :: string

definition executor_post_init :: "executor_config \<Rightarrow> unit res" where
  "executor_post_init c =
    rbind (require_nonnegative_int ''executor.process_ceiling'' (exec_process_ceiling c)) (\<lambda>_.
      if exec_on_worker_death c \<notin> {''close'', ''restart''}
      then Inl (ValueError ''executor.on_worker_death must be close or restart'') else Inr ())"

definition default_executor :: executor_config where
  "default_executor =
    \<lparr>exec_process_ceiling = AUTO, exec_pin_policy = ''auto'', exec_on_worker_death = ''close''\<rparr>"

text \<open>\<^verbatim>\<open>profile_cache\<close> is \<^verbatim>\<open>off\<close> or another string, a path object, automatic, or anything else.\<close>

datatype cache_choice = Cache_auto | Cache_string string | Cache_path | Cache_other

record scheduler_config =
  sch_frontier_depth :: "py_number auto"
  sch_frontier_budget :: "py_number auto"
  sch_early_dispatch :: bool
  sch_profile_cache :: cache_choice

definition scheduler_post_init :: "scheduler_config \<Rightarrow> unit res" where
  "scheduler_post_init c =
    rbind (require_nonnegative_int ''scheduler.frontier_depth'' (sch_frontier_depth c)) (\<lambda>_.
    rbind (require_nonnegative_int ''scheduler.frontier_budget'' (sch_frontier_budget c)) (\<lambda>_.
      if sch_profile_cache c = Cache_other
      then Inl (ValueError ''scheduler.profile_cache must be auto, a path, or off'') else Inr ()))"

definition default_scheduler :: scheduler_config where
  "default_scheduler =
    \<lparr>sch_frontier_depth = AUTO, sch_frontier_budget = AUTO, sch_early_dispatch = True,
     sch_profile_cache = Cache_auto\<rparr>"

section \<open>Memory, input and telemetry\<close>

record memory_config =
  mem_arena_backend :: string
  mem_batch_shape :: "pyval auto"
  mem_delivery_memory :: string
  mem_growth :: string

definition default_memory :: memory_config where
  "default_memory = \<lparr>mem_arena_backend = ''auto'', mem_batch_shape = AUTO,
     mem_delivery_memory = ''auto'', mem_growth = ''safe''\<rparr>"

record io_config =
  io_backend :: string
  io_direct :: string

definition default_io :: io_config where
  "default_io = \<lparr>io_backend = ''auto'', io_direct = ''auto''\<rparr>"

record telemetry_config =
  tel_enabled :: bool
  tel_benchmark_mode :: bool

definition default_telemetry :: telemetry_config where
  "default_telemetry = \<lparr>tel_enabled = True, tel_benchmark_mode = False\<rparr>"

section \<open>Factors\<close>

record factor_config =
  f_safety :: py_number
  f_mem :: py_number
  f_meta :: py_number
  f_q :: py_number
  f_cache :: py_number
  f_prof :: py_number
  f_stall :: py_number
  f_var :: py_number
  f_snap :: "py_number option"  \<comment> \<open>\<open>None\<close> is the literal \<open>off\<close>\<close>
  f_snap_bytes :: py_number
  f_cad_s :: py_number
  f_cad_b :: py_number
  f_attach :: py_number
  f_alpha :: py_number
  d_min :: "py_number auto"
  b_buf :: py_number
  step_clip :: py_number
  hysteresis :: py_number
  growth_mult :: py_number
  f_warm :: py_number

definition positive_factors :: "(string \<times> (factor_config \<Rightarrow> py_number)) list" where
  "positive_factors =
    [(''f_safety'', f_safety), (''f_mem'', f_mem), (''f_meta'', f_meta), (''f_q'', f_q),
     (''f_cache'', f_cache), (''f_prof'', f_prof), (''f_stall'', f_stall), (''f_var'', f_var),
     (''f_snap_bytes'', f_snap_bytes), (''f_cad_s'', f_cad_s), (''f_cad_b'', f_cad_b),
     (''f_attach'', f_attach), (''alpha'', f_alpha), (''b_buf'', b_buf), (''step_clip'', step_clip),
     (''hysteresis'', hysteresis), (''growth_mult'', growth_mult), (''f_warm'', f_warm)]"

definition factor_post_init :: "factor_config \<Rightarrow> unit res" where
  "factor_post_init c =
    rbind (rtraverse (\<lambda>(name, get). require_positive (''factors.'' @ name) (get c)) positive_factors) (\<lambda>_.
    rbind (case f_snap c of None \<Rightarrow> Inr () | Some snap \<Rightarrow> require_positive ''factors.f_snap'' snap) (\<lambda>_.
      if 1 < number_value (f_alpha c) then Inl (ValueError ''factors.alpha must not exceed one'')
      else if 1 < number_value (f_warm c) then Inl (ValueError ''factors.f_warm must not exceed one'')
      else if is_bool_value (growth_mult c) \<or> \<not> is_int_value (growth_mult c)
          \<or> number_value (growth_mult c) \<le> 1
      then Inl (ValueError ''factors.growth_mult must be an integer greater than one'')
      else require_nonnegative_int ''factors.d_min'' (d_min c)))"

definition default_factors :: factor_config where
  "default_factors =
    \<lparr>f_safety = Float_value (3 / 2), f_mem = Float_value (3 / 20), f_meta = Float_value 2,
     f_q = Float_value (3 / 2), f_cache = Float_value 2, f_prof = Float_value (1 / 100),
     f_stall = Float_value (1 / 1000), f_var = Float_value 8, f_snap = Some (Int_value 1),
     f_snap_bytes = Int_value (4 * 1024 * 1024), f_cad_s = Float_value 2, f_cad_b = Int_value 20,
     f_attach = Float_value 10, f_alpha = Float_value (3 / 10), d_min = AUTO, b_buf = Int_value 2,
     step_clip = Int_value 1, hysteresis = Int_value 3, growth_mult = Int_value 2,
     f_warm = Float_value (1 / 20)\<rparr>"

section \<open>The root configuration\<close>

record hyper_config =
  cfg_seed :: "int option"
  cfg_executor :: executor_config
  cfg_scheduler :: scheduler_config
  cfg_memory :: memory_config
  cfg_io :: io_config
  cfg_control :: control_config
  cfg_determinism :: determinism_config
  cfg_telemetry :: telemetry_config
  cfg_factors :: factor_config
  cfg_distributed :: distributed_config

definition default_config :: hyper_config where
  "default_config =
    \<lparr>cfg_seed = None, cfg_executor = default_executor, cfg_scheduler = default_scheduler,
     cfg_memory = default_memory, cfg_io = default_io, cfg_control = default_control,
     cfg_determinism = default_determinism, cfg_telemetry = default_telemetry,
     cfg_factors = default_factors, cfg_distributed = default_distributed\<rparr>"

text \<open>A root configuration can only be built from parts whose checks passed.\<close>

definition config_accepted :: "hyper_config \<Rightarrow> bool" where
  "config_accepted c \<longleftrightarrow>
     executor_post_init (cfg_executor c) = Inr () \<and> scheduler_post_init (cfg_scheduler c) = Inr () \<and>
     ceiling_post_init (ctl_ceilings (cfg_control c)) = Inr () \<and> control_post_init (cfg_control c) = Inr () \<and>
     determinism_post_init (cfg_determinism c) = Inr () \<and> factor_post_init (cfg_factors c) = Inr () \<and>
     distributed_post_init (cfg_distributed c) = Inr ()"

section \<open>What the checks guarantee\<close>

lemma rtraverse_unit_iff:
  "(\<exists>ys. rtraverse f xs = Inr ys) \<longleftrightarrow> (\<forall>x\<in>set xs. \<exists>y. f x = Inr y)"
  by (induction xs) (auto simp: rbind_eq_Inr rmap_eq_Inr)

lemma factor_post_init_iff:
  "factor_post_init c = Inr () \<longleftrightarrow>
     (\<forall>get \<in> snd ` set positive_factors. 0 < number_value (get c)) \<and>
     (\<forall>snap. f_snap c = Some snap \<longrightarrow> 0 < number_value snap) \<and>
     number_value (f_alpha c) \<le> 1 \<and> number_value (f_warm c) \<le> 1 \<and>
     (\<exists>g. growth_mult c = Int_value g \<and> 1 < g) \<and>
     (\<forall>d. d_min c = Explicit d \<longrightarrow> \<not> is_bool_value d \<and> 0 \<le> number_value d)"
proof -
  have "(\<exists>ys. rtraverse (\<lambda>(name, get). require_positive (''factors.'' @ name) (get c)) positive_factors = Inr ys)
      \<longleftrightarrow> (\<forall>get \<in> snd ` set positive_factors. 0 < number_value (get c))"
    by (auto simp: rtraverse_unit_iff)
  moreover have "\<not> is_bool_value x \<and> is_int_value x \<and> 1 < number_value x \<longleftrightarrow> (\<exists>g. x = Int_value g \<and> 1 < g)" for x
    by (cases x) auto
  ultimately show ?thesis
    by (auto simp: factor_post_init_def rbind_eq_Inr not_le not_less split: option.splits)
qed

lemma distributed_post_init_iff:
  "distributed_post_init c = Inr () \<longleftrightarrow>
     (\<forall>r. dist_rank c = Explicit r \<longrightarrow> \<not> is_bool_value r \<and> 0 \<le> number_value r) \<and>
     (\<forall>w. dist_world_size c = Explicit w \<longrightarrow> \<not> is_bool_value w \<and> 0 < number_value w \<and>
        (\<forall>r. dist_rank c = Explicit r \<longrightarrow> number_value r < number_value w))"
  by (auto simp: distributed_post_init_def rbind_eq_Inr not_le not_less less_le split: auto.splits)

lemma determinism_post_init_iff:
  "determinism_post_init c = Inr () \<longleftrightarrow>
     (\<forall>libs. det_seeded_libs c = Explicit libs \<longrightarrow>
        set libs \<subseteq> {''torch'', ''random'', ''numpy''} \<and> distinct libs)"
proof -
  have sorted: "sort xs = [] \<longleftrightarrow> xs = []" for xs :: "string list"
    by (metis length_0_conv length_sort)
  define known where "known = {''torch'', ''random'', ''numpy''}"
  have *: "sort (remdups (filter (\<lambda>l. l \<notin> known) libs)) = [] \<longleftrightarrow> set libs \<subseteq> known" for libs
    by (auto simp add: sorted filter_empty_conv)
  show ?thesis
    unfolding determinism_post_init_def Let_def known_def [symmetric]
    by (cases "det_seeded_libs c") (simp_all add: *)
qed

lemma default_config_accepted: "config_accepted default_config"
  by (simp add: config_accepted_def default_config_def default_executor_def default_scheduler_def
      default_control_def default_ceilings_def default_determinism_def default_factors_def
      default_distributed_def executor_post_init_def scheduler_post_init_def ceiling_post_init_def
      control_post_init_def determinism_post_init_def factor_post_init_iff distributed_post_init_iff
      positive_factors_def)

end
