(* ===== verification/Sizing.thy ===== *)
theory Sizing
  imports Profile Config Placement Frontier
begin

text \<open>
  Frontier and transport sizing (\<^verbatim>\<open>process/sizing.py\<close>).  The record holds what the functions read
  of the loader; \<open>free\<close> is the free host memory that \<^verbatim>\<open>process/resources.py\<close> measures.
\<close>

record sizing_loader =
  sz_batch_size :: "int option"
  sz_num_workers :: "int auto"
  sz_prefetch_factor :: "int auto option"
  sz_drop_last :: bool
  sz_frontier_depth :: "int auto"
  sz_frontier_budget :: "int auto"
  sz_f_safety :: rat
  sz_f_var :: rat
  sz_f_mem :: rat
  sz_d_min :: "int auto"
  sz_cost_profile :: "cost_profile option"
  sz_pool :: "(int \<times> int) option"  \<comment> \<open>ceiling and bytes per sample of a started pool\<close>
  sz_plan_length :: int
  sz_sampler_length :: "int option"
  sz_placement :: "map_placement option"

definition sz_batch :: "sizing_loader \<Rightarrow> int" where
  "sz_batch l = (case sz_batch_size l of None \<Rightarrow> 1 | Some b \<Rightarrow> b)"

definition worker_width :: "sizing_loader \<Rightarrow> int" where
  "worker_width l = (case sz_num_workers l of AUTO \<Rightarrow> 1 | Explicit n \<Rightarrow> n)"

definition profile_ratio :: "sizing_loader \<Rightarrow> rat option res" where
  "profile_ratio l =
    (case sz_cost_profile l of
       None \<Rightarrow> Inr None
     | Some p \<Rightarrow>
         (case statistics p of
            None \<Rightarrow> Inr None
          | Some (mean_ns, p999_ns, populated) \<Rightarrow>
              if mean_ns = 0 then Inl ZeroDivisionError else Inr (Some (max 1 (p999_ns / mean_ns)))))"

definition frontier_minimum :: "sizing_loader \<Rightarrow> int" where
  "frontier_minimum l =
    (case sz_d_min l of AUTO \<Rightarrow> 2 * sz_batch l | Explicit d \<Rightarrow> max (sz_batch l) d)"

definition frontier_budget :: "int \<Rightarrow> sizing_loader \<Rightarrow> int" where
  "frontier_budget free l =
    (case sz_frontier_budget l of
       Explicit bytes \<Rightarrow> bytes
     | AUTO \<Rightarrow> py_trunc (sz_f_mem l * of_int free))"

definition clip_budget :: "int \<Rightarrow> sizing_loader \<Rightarrow> int \<Rightarrow> int res" where
  "clip_budget free l depth =
    (case sz_pool l of
       None \<Rightarrow> Inr depth
     | Some (_, bytes_sample) \<Rightarrow>
         rmap (\<lambda>(capacity, _). max (frontier_minimum l) (min depth capacity))
           (py_divmod (frontier_budget free l) bytes_sample))"

definition frontier_ceiling :: "int \<Rightarrow> sizing_loader \<Rightarrow> int res" where
  "frontier_ceiling free l =
    (case sz_pool l of
       Some (pool_ceiling, _) \<Rightarrow> Inr pool_ceiling
     | None \<Rightarrow>
         rbind (profile_ratio l) (\<lambda>ratio.
           let ratio = (case ratio of None \<Rightarrow> sz_f_var l | Some r \<Rightarrow> r);
               requested = \<lceil>of_int (worker_width l) * ratio * sz_f_safety l\<rceil>
           in clip_budget free l (max (frontier_minimum l) requested)))"

definition frontier_depth :: "int \<Rightarrow> sizing_loader \<Rightarrow> int res" where
  "frontier_depth free l =
    (let minimum = frontier_minimum l in
     rbind (frontier_ceiling free l) (\<lambda>limit.
       case sz_frontier_depth l of
         Explicit configured \<Rightarrow> clip_budget free l (min limit (max minimum configured))
       | AUTO \<Rightarrow>
           (case sz_prefetch_factor l of
              Some (Explicit factor) \<Rightarrow>
                clip_budget free l (min limit (max minimum (factor * worker_width l * sz_batch l)))
            | _ \<Rightarrow>
                rbind (profile_ratio l) (\<lambda>ratio.
                  case ratio of
                    None \<Rightarrow> Inr minimum
                  | Some r \<Rightarrow>
                      clip_budget free l
                        (min limit (max minimum \<lceil>of_int (worker_width l) * r * sz_f_safety l\<rceil>))))))"

definition queue_capacity :: "int \<Rightarrow> int \<Rightarrow> int res" where
  "queue_capacity depth worker_count =
    rmap (\<lambda>(per_worker, _). max 2 (push_bit (bit_length (per_worker - 1)) 1))
      (py_divmod (depth + worker_count - 1) worker_count)"

definition delivery_length :: "sizing_loader \<Rightarrow> int res" where
  "delivery_length l =
    (case sz_sampler_length l of
       Some n \<Rightarrow> Inr n
     | None \<Rightarrow>
         (case sz_placement l of
            Some p \<Rightarrow>
              if mp_enabled p then placement_length p
              else if \<not> sz_drop_last l \<or> sz_batch_size l = None then Inr (sz_plan_length l)
              else rmap (\<lambda>(_, r). sz_plan_length l - r) (py_divmod (sz_plan_length l) (the (sz_batch_size l)))
          | None \<Rightarrow>
              if \<not> sz_drop_last l \<or> sz_batch_size l = None then Inr (sz_plan_length l)
              else rmap (\<lambda>(_, r). sz_plan_length l - r) (py_divmod (sz_plan_length l) (the (sz_batch_size l)))))"

section \<open>Bounds\<close>

text \<open>What a loader can be: a positive batch, and a pool whose ceiling is above the floor.\<close>

definition sizing_ok :: "sizing_loader \<Rightarrow> bool" where
  "sizing_ok l \<longleftrightarrow>
     0 < sz_batch l \<and>
     (\<forall>c b. sz_pool l = Some (c, b) \<longrightarrow> frontier_minimum l \<le> c \<and> 0 < b) \<and>
     (\<forall>p m t n. sz_cost_profile l = Some p \<and> statistics p = Some (m, t, n) \<longrightarrow> m \<noteq> 0)"

lemma frontier_minimum_batch: "0 < sz_batch l \<Longrightarrow> sz_batch l \<le> frontier_minimum l"
  by (auto simp: frontier_minimum_def split: auto.splits)

lemma profile_ratio_ok: "sizing_ok l \<Longrightarrow> \<exists>r. profile_ratio l = Inr r"
  by (auto simp: profile_ratio_def sizing_ok_def split: option.splits)

lemma clip_budget_ok:
  assumes "sizing_ok l" "frontier_minimum l \<le> d"
  shows "\<exists>e. clip_budget free l d = Inr e \<and> frontier_minimum l \<le> e \<and> e \<le> d \<and>
    (\<forall>c b. sz_pool l = Some (c, b) \<longrightarrow> e = frontier_minimum l \<or> e * b \<le> frontier_budget free l)"
proof (cases "sz_pool l")
  case None
  with assms(2) show ?thesis by (simp add: clip_budget_def)
next
  case (Some cb)
  obtain c b where cb: "sz_pool l = Some (c, b)" using Some by (cases cb) simp
  with assms(1) have b: "0 < b" by (simp add: sizing_ok_def)
  let ?k = "frontier_budget free l div b"
  have k: "?k * b \<le> frontier_budget free l" using b by (rule div_mult_le)
  let ?e = "max (frontier_minimum l) (min d ?k)"
  have "?e = frontier_minimum l \<or> ?e * b \<le> frontier_budget free l"
  proof (cases "min d ?k \<le> frontier_minimum l")
    case False
    then have "?e = min d ?k" by simp
    moreover have "min d ?k * b \<le> ?k * b" using b by (intro mult_right_mono) simp_all
    ultimately show ?thesis using k by simp
  qed simp
  with assms(2) cb b show ?thesis by (simp add: clip_budget_def py_divmod_def)
qed

lemma frontier_ceiling_ok:
  assumes "sizing_ok l"
  shows "\<exists>c. frontier_ceiling free l = Inr c \<and> frontier_minimum l \<le> c"
proof (cases "sz_pool l")
  case None
  obtain r where r: "profile_ratio l = Inr r" using profile_ratio_ok [OF assms] by blast
  let ?d = "max (frontier_minimum l)
    \<lceil>of_int (worker_width l) * (case r of None \<Rightarrow> sz_f_var l | Some r \<Rightarrow> r) * sz_f_safety l\<rceil>"
  obtain c where "clip_budget free l ?d = Inr c" "frontier_minimum l \<le> c"
    using clip_budget_ok [OF assms, of ?d free] by auto
  with None r show ?thesis by (simp add: frontier_ceiling_def)
next
  case (Some cb)
  with assms show ?thesis by (cases cb) (simp add: frontier_ceiling_def sizing_ok_def)
qed

text \<open>
  The depth a loader starts with never raises, always has room for a whole batch, never
  exceeds the plan's ceiling, and once a pool knows its bytes per sample the frontier fits the
  memory budget unless the liveness floor alone exceeds it.
\<close>

theorem frontier_depth_sound:
  assumes ok: "sizing_ok l"
  shows "\<exists>d c. frontier_depth free l = Inr d \<and> frontier_ceiling free l = Inr c \<and>
    sz_batch l \<le> d \<and> frontier_minimum l \<le> d \<and> d \<le> c \<and>
    (\<forall>k b. sz_pool l = Some (k, b) \<longrightarrow> d = frontier_minimum l \<or> d * b \<le> frontier_budget free l)"
proof -
  obtain c where c: "frontier_ceiling free l = Inr c" "frontier_minimum l \<le> c"
    using frontier_ceiling_ok [OF ok] by blast
  obtain r where r: "profile_ratio l = Inr r" using profile_ratio_ok [OF ok] by blast
  have B: "sz_batch l \<le> frontier_minimum l"
    using ok by (intro frontier_minimum_batch) (simp add: sizing_ok_def)
  have clipped: "\<exists>d. clip_budget free l (min c (max (frontier_minimum l) x)) = Inr d \<and> frontier_minimum l \<le> d \<and> d \<le> c \<and>
      (\<forall>k b. sz_pool l = Some (k, b) \<longrightarrow> d = frontier_minimum l \<or> d * b \<le> frontier_budget free l)" for x
    using clip_budget_ok [OF ok, of "min c (max (frontier_minimum l) x)" free] c(2) by auto
  have "\<exists>d. frontier_depth free l = Inr d \<and> frontier_minimum l \<le> d \<and> d \<le> c \<and>
      (\<forall>k b. sz_pool l = Some (k, b) \<longrightarrow> d = frontier_minimum l \<or> d * b \<le> frontier_budget free l)"
  proof (cases "sz_frontier_depth l")
    case (Explicit n)
    with clipped [of n] c show ?thesis by (simp add: frontier_depth_def)
  next
    case AUTO
    note auto_depth = AUTO
    show ?thesis
    proof (cases "\<exists>f. sz_prefetch_factor l = Some (Explicit f)")
      case True
      then obtain f where "sz_prefetch_factor l = Some (Explicit f)" ..
      with clipped [of "f * worker_width l * sz_batch l"] c auto_depth show ?thesis
        by (simp add: frontier_depth_def)
    next
      case False
      then have "frontier_depth free l = (case r of None \<Rightarrow> Inr (frontier_minimum l)
          | Some r \<Rightarrow> clip_budget free l (min c (max (frontier_minimum l)
              \<lceil>of_int (worker_width l) * r * sz_f_safety l\<rceil>)))"
        using auto_depth c r
        by (cases "sz_prefetch_factor l" rule: option.exhaust [case_names None Some])
          (auto simp: frontier_depth_def Let_def split: auto.splits)
      with clipped c(2) show ?thesis by (cases r) auto
    qed
  qed
  with B c show ?thesis by fastforce
qed

definition sample_sizing :: sizing_loader where
  "sample_sizing =
    \<lparr>sz_batch_size = Some 8, sz_num_workers = Explicit 4, sz_prefetch_factor = Some (Explicit 2),
     sz_drop_last = False, sz_frontier_depth = AUTO, sz_frontier_budget = Explicit 4000,
     sz_f_safety = 3 / 2, sz_f_var = 8, sz_f_mem = 3 / 20, sz_d_min = AUTO, sz_cost_profile = None,
     sz_pool = Some (48, 100), sz_plan_length = 1000, sz_sampler_length = None, sz_placement = None\<rparr>"

theorem frontier_depth_sound_witness:
  "frontier_depth 0 sample_sizing = Inr 40 \<and> sz_batch sample_sizing \<le> 40 \<and>
   frontier_ceiling 0 sample_sizing = Inr 48 \<and> (40::int) \<le> 48 \<and>
   40 * 100 \<le> frontier_budget 0 sample_sizing"
proof -
  have "sizing_ok sample_sizing"
    by (simp add: sizing_ok_def sample_sizing_def sz_batch_def frontier_minimum_def)
  from frontier_depth_sound [OF this, of 0] show ?thesis
    by (simp add: sample_sizing_def frontier_depth_def frontier_ceiling_def clip_budget_def sz_batch_def
        frontier_minimum_def worker_width_def frontier_budget_def py_divmod_def)
qed

text \<open>
  The transport of each worker has a capacity that is a power of two, and all of them together
  hold the whole frontier.
\<close>

theorem queue_capacity_covers:
  assumes "0 < depth" "0 < worker_count"
  shows "\<exists>c k. queue_capacity depth worker_count = Inr c \<and> c = 2 ^ k \<and> 2 \<le> c \<and> depth \<le> worker_count * c"
proof -
  let ?n = "(depth + worker_count - 1) div worker_count"
  let ?k = "bit_length (?n - 1)"
  let ?c = "max 2 (2 ^ ?k) :: int"
  have n: "0 < ?n" using assms by (simp add: pos_imp_zdiv_pos_iff)
  have "?n - 1 < 2 ^ ?k" using n by (intro bit_length_upper) simp
  then have nk: "?n \<le> ?c" by simp
  have "depth \<le> ?n * worker_count"
  proof (cases "depth mod worker_count = 0")
    case True
    then show ?thesis using ceil_div [OF assms(2), of depth] by auto
  next
    case False
    then have "?n * worker_count = depth div worker_count * worker_count + worker_count"
      using ceil_div [OF assms(2), of depth] by (simp add: algebra_simps)
    with pos_mod_bound [OF assms(2), of depth] div_mult_mod_eq [of depth worker_count]
    show ?thesis by linarith
  qed
  also have "\<dots> \<le> ?c * worker_count" using nk assms by (intro mult_right_mono) simp_all
  finally have "depth \<le> worker_count * ?c" by (simp add: mult.commute)
  moreover have "queue_capacity depth worker_count = Inr ?c"
    using assms by (simp add: queue_capacity_def py_divmod_def push_bit_eq_mult)
  moreover obtain k where "?c = 2 ^ k"
  proof (cases "?k = 0")
    case True
    then have "?c = 2 ^ 1" by simp
    then show ?thesis by (rule that)
  next
    case False
    then have "(2::int) ^ 1 \<le> 2 ^ ?k" by (intro power_increasing) simp_all
    then have "?c = 2 ^ ?k" by simp
    then show ?thesis by (rule that)
  qed
  ultimately show ?thesis by (intro exI [of _ ?c] exI [of _ k] conjI max.cobounded1)
qed

theorem queue_capacity_covers_witness:
  "queue_capacity 100 3 = Inr 64 \<and> (\<exists>k. (64::int) = 2 ^ k) \<and> (100::int) \<le> 3 * 64"
proof -
  have "queue_capacity 100 3 = Inr 64"
    by code_simp
  with queue_capacity_covers [of 100 3] show ?thesis by auto
qed

text \<open>
  A fresh frontier sized by these functions satisfies the frontier's invariant, for every
  accepted growth factor.
\<close>

lemma sized_frontier_ok:
  assumes "factor_post_init c = Inr ()" "growth_mult c = Int_value g"
    and "new_frontier stop d limit workers g binding est start = Inr f"
  shows "frontier_ok f"
  using assms by (intro new_frontier_ok [OF assms(3)]) (auto simp: factor_post_init_iff)

end
