(* ===== verification/Epoch.thy ===== *)
theory Epoch
  imports Prelude
begin

text \<open>
  The epoch state of a map-style loader (\<^verbatim>\<open>epoch.py\<close>): iterations begin, deliver, complete or are
  abandoned, and an explicit or restored epoch overrides the next one.  The last section shows
  that no two iterations that delivered something share an epoch, unless an override asked for it.
\<close>

section \<open>State and operations\<close>

datatype epoch_override = Override_explicit | Override_resume

record epoch_state =
  es_current :: int
  es_active_epoch :: "int option"
  es_active_delivered :: bool
  es_pending_override :: "epoch_override option"

definition new_epoch_state :: epoch_state where
  "new_epoch_state =
    \<lparr>es_current = 0, es_active_epoch = None, es_active_delivered = False, es_pending_override = None\<rparr>"

definition begin_iteration :: "epoch_state \<Rightarrow> epoch_state \<times> bool" where
  "begin_iteration s =
    (let advanced = (es_pending_override s = None \<and> es_active_delivered s);
         s = (if advanced then s\<lparr>es_current := es_current s + 1\<rparr> else s)
     in (s\<lparr>es_pending_override := None, es_active_epoch := Some (es_current s),
           es_active_delivered := False\<rparr>, advanced))"

definition begin_iterable_iteration :: "epoch_state \<Rightarrow> epoch_state" where
  "begin_iterable_iteration s =
    s\<lparr>es_pending_override := None, es_active_epoch := Some (es_current s), es_active_delivered := False\<rparr>"

definition mark_epoch_delivered :: "int \<Rightarrow> epoch_state \<Rightarrow> epoch_state" where
  "mark_epoch_delivered epoch s =
    (if es_active_epoch s = Some epoch then s\<lparr>es_active_delivered := True\<rparr> else s)"

definition complete_epoch :: "int \<Rightarrow> epoch_state \<Rightarrow> epoch_state" where
  "complete_epoch epoch s =
    (if es_active_epoch s \<noteq> Some epoch then s
     else
       let s = (if es_pending_override s = None \<and> es_current s = epoch
                then s\<lparr>es_current := es_current s + 1\<rparr> else s)
       in s\<lparr>es_active_epoch := None, es_active_delivered := False\<rparr>)"

text \<open>An epoch given from outside: a boolean, another object or an integer.\<close>

datatype epoch_value = Boolean_epoch bool | Other_epoch | Integer_epoch int

fun validate_epoch :: "epoch_value \<Rightarrow> int res" where
  "validate_epoch (Integer_epoch epoch) =
    (if epoch < 0 then Inl (ValueError ''epoch must be nonnegative'') else Inr epoch)"
| "validate_epoch _ = Inl (TypeError ''epoch must be an integer'')"

definition set_epoch :: "epoch_value \<Rightarrow> epoch_state \<Rightarrow> epoch_state res" where
  "set_epoch value s =
    rmap (\<lambda>epoch. s\<lparr>es_current := epoch, es_pending_override := Some Override_explicit\<rparr>) (validate_epoch value)"

definition restore_epoch :: "epoch_value \<Rightarrow> epoch_state \<Rightarrow> epoch_state res" where
  "restore_epoch value s =
    rmap (\<lambda>epoch. s\<lparr>es_current := epoch, es_pending_override := Some Override_resume\<rparr>) (validate_epoch value)"

section \<open>Runs\<close>

datatype epoch_event =
    Begin
  | Begin_iterable
  | Delivered int
  | Completed int
  | Set_epoch epoch_value
  | Restore_epoch epoch_value

fun epoch_step :: "epoch_state \<Rightarrow> epoch_event \<Rightarrow> epoch_state" where
  "epoch_step s Begin = fst (begin_iteration s)"
| "epoch_step s Begin_iterable = begin_iterable_iteration s"
| "epoch_step s (Delivered e) = mark_epoch_delivered e s"
| "epoch_step s (Completed e) = complete_epoch e s"
| "epoch_step s (Set_epoch v) = (case set_epoch v s of Inl _ \<Rightarrow> s | Inr t \<Rightarrow> t)"
| "epoch_step s (Restore_epoch v) = (case restore_epoch v s of Inl _ \<Rightarrow> s | Inr t \<Rightarrow> t)"

text \<open>
  The epochs in which something was delivered, one entry for each iteration that delivered: the
  first delivery an iteration accepts.
\<close>

fun delivering_epochs :: "epoch_state \<Rightarrow> epoch_event list \<Rightarrow> int list" where
  "delivering_epochs s [] = []"
| "delivering_epochs s (e # es) =
    (case e of
       Delivered epoch \<Rightarrow>
         if es_active_epoch s = Some epoch \<and> \<not> es_active_delivered s then [epoch] else []
     | _ \<Rightarrow> []) @ delivering_epochs (epoch_step s e) es"

fun map_style_event :: "epoch_event \<Rightarrow> bool" where
  "map_style_event Begin = True"
| "map_style_event (Delivered _) = True"
| "map_style_event (Completed _) = True"
| "map_style_event _ = False"

definition epoch_ok :: "epoch_state \<Rightarrow> bool" where
  "epoch_ok s \<longleftrightarrow>
     0 \<le> es_current s \<and>
     (es_active_delivered s \<longrightarrow> es_active_epoch s \<noteq> None) \<and>
     (es_pending_override s = None \<longrightarrow> (\<forall>e. es_active_epoch s = Some e \<longrightarrow> e = es_current s))"

lemmas epoch_defs = begin_iteration_def begin_iterable_iteration_def mark_epoch_delivered_def
  complete_epoch_def set_epoch_def restore_epoch_def

lemma new_epoch_state_ok: "epoch_ok new_epoch_state"
  by (simp add: epoch_ok_def new_epoch_state_def)

lemma epoch_step_ok: "epoch_ok s \<Longrightarrow> epoch_ok (epoch_step s e)"
proof (cases e)
  case (Set_epoch v)
  then show "epoch_ok s \<Longrightarrow> ?thesis"
    by (cases v) (auto simp: epoch_defs epoch_ok_def)
next
  case (Restore_epoch v)
  then show "epoch_ok s \<Longrightarrow> ?thesis"
    by (cases v) (auto simp: epoch_defs epoch_ok_def)
qed (auto simp: epoch_defs epoch_ok_def Let_def)

lemma map_style_no_override:
  "map_style_event e \<Longrightarrow> es_pending_override s = None \<Longrightarrow> es_pending_override (epoch_step s e) = None"
  by (cases e) (auto simp: epoch_defs Let_def)

lemma map_style_current:
  "map_style_event e \<Longrightarrow> es_current s \<le> es_current (epoch_step s e) \<and>
    (es_active_delivered s \<and> es_pending_override s = None \<longrightarrow>
      es_active_delivered (epoch_step s e) \<or> es_current s < es_current (epoch_step s e) \<or> \<not> epoch_ok s)"
  by (cases e) (auto simp: epoch_defs Let_def epoch_ok_def)

text \<open>The first epoch that can still be delivered in.\<close>

definition next_open :: "epoch_state \<Rightarrow> int" where
  "next_open s = (if es_active_delivered s then es_current s + 1 else es_current s)"

lemma delivering_epochs_increase:
  "epoch_ok s \<Longrightarrow> es_pending_override s = None \<Longrightarrow> list_all map_style_event es \<Longrightarrow>
   sorted_wrt (<) (delivering_epochs s es) \<and> (\<forall>e \<in> set (delivering_epochs s es). next_open s \<le> e)"
proof (induction es arbitrary: s)
  case (Cons e es)
  let ?t = "epoch_step s e"
  have IH: "sorted_wrt (<) (delivering_epochs ?t es) \<and> (\<forall>x \<in> set (delivering_epochs ?t es). next_open ?t \<le> x)"
    using Cons.prems by (intro Cons.IH) (simp_all add: epoch_step_ok map_style_no_override)
  have mono: "next_open s \<le> next_open ?t"
    using map_style_current [of e s] Cons.prems by (auto simp: next_open_def)
  show ?case
  proof (cases "\<exists>epoch. e = Delivered epoch \<and> es_active_epoch s = Some epoch \<and> \<not> es_active_delivered s")
    case True
    then obtain epoch where e: "e = Delivered epoch" "es_active_epoch s = Some epoch" "\<not> es_active_delivered s"
      by blast
    with Cons.prems have "epoch = es_current s" by (simp add: epoch_ok_def)
    with e have "next_open s = epoch" "next_open ?t = epoch + 1"
      by (simp_all add: next_open_def mark_epoch_delivered_def)
    with IH e show ?thesis by force
  next
    case False
    then have "delivering_epochs s (e # es) = delivering_epochs ?t es" by (cases e) auto
    with IH mono show ?thesis by force
  qed
qed simp

text \<open>
  In every history of iterations without an override, abandoned or completed in whatever
  order stale iterators report, the iterations that delivered something did so in strictly
  increasing epochs.  No epoch is delivered twice.
\<close>

theorem epochs_never_repeat:
  assumes "list_all map_style_event events"
  shows "sorted_wrt (<) (delivering_epochs new_epoch_state events)"
  using delivering_epochs_increase [OF new_epoch_state_ok _ assms] by (simp add: new_epoch_state_def)

theorem epochs_never_repeat_witness:
  "delivering_epochs new_epoch_state
     [Begin, Delivered 0, Begin, Completed 0, Delivered 1, Completed 1, Begin, Begin, Delivered 2] = [0, 1, 2]
   \<and> sorted_wrt (<) [0, 1, 2 :: int]"
proof -
  have "delivering_epochs new_epoch_state
     [Begin, Delivered 0, Begin, Completed 0, Delivered 1, Completed 1, Begin, Begin, Delivered 2] = [0, 1, 2]"
    by (simp add: new_epoch_state_def epoch_defs Let_def)
  with epochs_never_repeat
    [of "[Begin, Delivered 0, Begin, Completed 0, Delivered 1, Completed 1, Begin, Begin, Delivered 2]"]
  show ?thesis by simp
qed

text \<open>
  An override decides the next iteration: after a valid explicit or restored epoch the next
  iterator runs exactly that epoch, whatever was active, delivered or completed before it begins.
\<close>

theorem override_decides_next:
  assumes valid: "0 \<le> epoch" and stale: "list_all (\<lambda>e. map_style_event e \<and> e \<noteq> Begin) events"
    and override: "override \<in> {Set_epoch (Integer_epoch epoch), Restore_epoch (Integer_epoch epoch)}"
  shows "es_active_epoch (epoch_step (foldl epoch_step (epoch_step s override) events) Begin) = Some epoch"
proof -
  have "es_current (foldl epoch_step t events) = es_current t \<and>
      es_pending_override (foldl epoch_step t events) \<noteq> None"
    if "es_pending_override t \<noteq> None" for t
    using stale that
  proof (induction events arbitrary: t)
    case (Cons e events)
    then show ?case
      by (cases e) (auto simp: epoch_defs Let_def)
  qed simp
  from this [of "epoch_step s override"] valid override show ?thesis
    by (auto simp: epoch_defs Let_def)
qed

theorem override_decides_next_witness:
  "es_active_epoch (epoch_step (foldl epoch_step (epoch_step
      (foldl epoch_step new_epoch_state [Begin, Delivered 0]) (Set_epoch (Integer_epoch 7))) [Completed 0]) Begin)
    = Some 7"
  by (rule override_decides_next) simp_all

end
