(* ===== verification/Digest.thy ===== *)
theory Digest
  imports "HOL-Library.Word"
begin

text \<open>
  SHA-256 as \<^verbatim>\<open>hashlib\<close> computes it, on lists of bytes, and its hexadecimal digest: the hash of
  fingerprints, cache keys and strict content digests.
\<close>

unbundle bit_operations_syntax

type_synonym word32 = "32 word"

text \<open>The first 32 bits of the fractional parts of the cube roots of the first 64 primes, in decimal.\<close>

definition sha_constants :: "word32 list" where
  "sha_constants =
    [1116352408, 1899447441, 3049323471, 3921009573, 961987163, 1508970993, 2453635748,
     2870763221, 3624381080, 310598401, 607225278, 1426881987, 1925078388, 2162078206,
     2614888103, 3248222580, 3835390401, 4022224774, 264347078, 604807628, 770255983,
     1249150122, 1555081692, 1996064986, 2554220882, 2821834349, 2952996808, 3210313671,
     3336571891, 3584528711, 113926993, 338241895, 666307205, 773529912, 1294757372,
     1396182291, 1695183700, 1986661051, 2177026350, 2456956037, 2730485921, 2820302411,
     3259730800, 3345764771, 3516065817, 3600352804, 4094571909, 275423344, 430227734,
     506948616, 659060556, 883997877, 958139571, 1322822218, 1537002063, 1747873779,
     1955562222, 2024104815, 2227730452, 2361852424, 2428436474, 2756734187, 3204031479,
     3329325298]"

type_synonym sha_state =
  "word32 \<times> word32 \<times> word32 \<times> word32 \<times> word32 \<times> word32 \<times> word32 \<times> word32"

definition sha_initial :: sha_state where
  "sha_initial = (0x6a09e667, 0xbb67ae85, 0x3c6ef372, 0xa54ff53a, 0x510e527f, 0x9b05688c, 0x1f83d9ab, 0x5be0cd19)"

definition rotate_right :: "nat \<Rightarrow> word32 \<Rightarrow> word32" where
  "rotate_right n w = drop_bit n w OR push_bit (32 - n) w"

text \<open>The message: its bytes, one bit, zeros to a multiple of 64 bytes, and its length in bits.\<close>

definition length_bytes :: "nat \<Rightarrow> int list" where
  "length_bytes n = map (\<lambda>i. int (8 * n) div 256 ^ i mod 256) (rev [0..<8])"

definition sha_pad :: "int list \<Rightarrow> int list" where
  "sha_pad bytes =
    (let n = length bytes
     in bytes @ [0x80] @ replicate ((119 - n mod 64) mod 64) 0 @ length_bytes n)"

fun sha_words :: "int list \<Rightarrow> word32 list" where
  "sha_words (a # b # c # d # bytes) =
    word_of_int (((a * 256 + b) * 256 + c) * 256 + d) # sha_words bytes"
| "sha_words _ = []"

text \<open>The schedule is kept in reverse, so that each new word reads its predecessors by position.\<close>

fun sha_extend :: "nat \<Rightarrow> word32 list \<Rightarrow> word32 list" where
  "sha_extend 0 w = rev w"
| "sha_extend (Suc n) w =
    (let w15 = w ! 14; w2 = w ! 1;
         s0 = rotate_right 7 w15 XOR rotate_right 18 w15 XOR drop_bit 3 w15;
         s1 = rotate_right 17 w2 XOR rotate_right 19 w2 XOR drop_bit 10 w2
     in sha_extend n ((w ! 15 + s0 + w ! 6 + s1) # w))"

fun sha_round :: "word32 \<times> word32 \<Rightarrow> sha_state \<Rightarrow> sha_state" where
  "sha_round (k, w) (a, b, c, d, e, f, g, h) =
    (let s1 = rotate_right 6 e XOR rotate_right 11 e XOR rotate_right 25 e;
         ch = (e AND f) XOR (NOT e AND g);
         t1 = h + s1 + ch + k + w;
         s0 = rotate_right 2 a XOR rotate_right 13 a XOR rotate_right 22 a;
         maj = (a AND b) XOR (a AND c) XOR (b AND c)
     in (t1 + (s0 + maj), a, b, c, d + t1, e, f, g))"

fun sha_add :: "sha_state \<Rightarrow> sha_state \<Rightarrow> sha_state" where
  "sha_add (a, b, c, d, e, f, g, h) (a', b', c', d', e', f', g', h') =
    (a + a', b + b', c + c', d + d', e + e', f + f', g + g', h + h')"

definition sha_block :: "word32 list \<Rightarrow> sha_state \<Rightarrow> sha_state" where
  "sha_block words s = sha_add s (fold sha_round (zip sha_constants (sha_extend 48 (rev words))) s)"

fun sha_blocks :: "nat \<Rightarrow> word32 list \<Rightarrow> sha_state \<Rightarrow> sha_state" where
  "sha_blocks 0 words s = s"
| "sha_blocks (Suc n) words s = sha_blocks n (drop 16 words) (sha_block (take 16 words) s)"

definition hex_digit :: "int \<Rightarrow> char" where
  "hex_digit d = (if d < 10 then char_of (48 + d) else char_of (87 + d))"

definition hex_word :: "word32 \<Rightarrow> string" where
  "hex_word w = map (\<lambda>i. hex_digit (uint w div 16 ^ i mod 16)) (rev [0..<8])"

definition sha256_hex :: "int list \<Rightarrow> string" where
  "sha256_hex bytes =
    (let words = sha_words (sha_pad bytes)
     in case sha_blocks (length words div 16) words sha_initial of
       (a, b, c, d, e, f, g, h) \<Rightarrow> concat (map hex_word [a, b, c, d, e, f, g, h]))"

text \<open>The published digest of the message \<open>abc\<close>.\<close>

lemma sha256_abc:
  "sha256_hex [97, 98, 99] = ''ba7816bf8f01cfea414140de5dae2223b00361a396177a9cb410ff61f20015ad''"
  by code_simp

lemma pad_to_block:
  assumes "r < (64::nat)"
  shows "(64 * q + r + 1 + (119 - r) mod 64 + 8) mod 64 = 0"
proof (cases "r \<le> 55")
  case True
  then obtain k where k: "r + k = 55" by (metis le_add_diff_inverse)
  then have "119 - r = 64 + k" by simp
  moreover have "(64 + k) mod 64 = k" using k by simp
  ultimately have "64 * q + r + 1 + (119 - r) mod 64 + 8 = 64 * (q + 1)" using k by simp
  then show ?thesis by (metis mod_mult_self1_is_0)
next
  case False
  with assms have "(119 - r) mod 64 = 119 - r" by simp
  then have "64 * q + r + 1 + (119 - r) mod 64 + 8 = 64 * (q + 2)" using assms by simp
  then show ?thesis by (metis mod_mult_self1_is_0)
qed

lemma sha_pad_length: "length (sha_pad bytes) mod 64 = 0"
proof -
  let ?n = "length bytes"
  have "length (sha_pad bytes) = 64 * (?n div 64) + ?n mod 64 + 1 + (119 - ?n mod 64) mod 64 + 8"
    by (simp add: sha_pad_def length_bytes_def Let_def)
  with pad_to_block [of "?n mod 64" "?n div 64"] show ?thesis by simp
qed

lemma sha256_hex_length: "length (sha256_hex bytes) = 64"
proof -
  obtain a b c d e f g h where
    "sha_blocks (length (sha_words (sha_pad bytes)) div 16) (sha_words (sha_pad bytes)) sha_initial
      = (a, b, c, d, e, f, g, h)" by (metis prod.exhaust)
  then show ?thesis by (simp add: sha256_hex_def Let_def hex_word_def)
qed

end
