(* ===== verification/Json.thy ===== *)
theory Json
  imports PyValue Digest Decimal "HOL-Library.List_Lexorder" "HOL-Library.Char_ord"
begin

text \<open>
  Canonical JSON text, \<^verbatim>\<open>json.dumps(..., sort_keys=True)\<close> with \<^verbatim>\<open>ensure_ascii=False\<close>.  Strings are
  kept as their UTF-8 code units, so the text is also its encoding, and sorting by units is sorting
  by code points.  The text of a float is an argument, the interpreter's shortest decimal.
\<close>

definition nibble :: "nat \<Rightarrow> char" where
  "nibble d = (if d < 10 then char_of (48 + d) else char_of (87 + d))"

definition json_char :: "char \<Rightarrow> string" where
  "json_char c =
    (let n = of_char c :: nat in
     if c = CHR 0x22 then [CHR 0x5C, CHR 0x22]
     else if c = CHR 0x5C then [CHR 0x5C, CHR 0x5C]
     else if n = 10 then [CHR 0x5C, CHR ''n'']
     else if n = 13 then [CHR 0x5C, CHR ''r'']
     else if n = 9 then [CHR 0x5C, CHR ''t'']
     else if n = 12 then [CHR 0x5C, CHR ''f'']
     else if n = 8 then [CHR 0x5C, CHR ''b'']
     else if n < 32 then [CHR 0x5C, CHR ''u'', CHR ''0'', CHR ''0'', nibble (n div 16), nibble (n mod 16)]
     else [c])"

definition json_string :: "string \<Rightarrow> string" where
  "json_string s = [CHR 0x22] @ concat (map json_char s) @ [CHR 0x22]"

text \<open>
  A dict is written in the order of its keys; keys of different kinds do not compare, and a value
  or key that is no JSON value has no text.  The key text of a number is its own text.
\<close>

fun json_key :: "(rat \<Rightarrow> string) \<Rightarrow> pyval \<Rightarrow> string option" where
  "json_key repr_float (PStr s) = Some s"
| "json_key repr_float (PInt i) = Some (str_of_int i)"
| "json_key repr_float (PBool b) = Some (if b then ''true'' else ''false'')"
| "json_key repr_float (PFloat r) = Some (repr_float r)"
| "json_key repr_float PNone = Some ''null''"
| "json_key repr_float _ = None"

definition sort_items :: "(pyval \<times> 'a) list \<Rightarrow> (pyval \<times> 'a) list option" where
  "sort_items items =
    (if length items \<le> 1 then Some items
     else if list_all (\<lambda>(k, _). as_str k \<noteq> None) items
     then Some (sort_key (\<lambda>(k, _). the (as_str k)) items)
     else if list_all (\<lambda>(k, _). num_of k \<noteq> None) items
     then Some (sort_key (\<lambda>(k, _). the (num_of k)) items)
     else None)"

text \<open>The separators between items and after keys: none in canonical text, a blank in diagnostics.\<close>

record json_style =
  js_item :: string
  js_key :: string

definition compact_style :: json_style where
  "compact_style = \<lparr>js_item = '','', js_key = '':''\<rparr>"

definition spaced_style :: json_style where
  "spaced_style = \<lparr>js_item = '', '', js_key = '': ''\<rparr>"

fun json_text :: "(rat \<Rightarrow> string) \<Rightarrow> json_style \<Rightarrow> pyval \<Rightarrow> string option"
  and json_texts :: "(rat \<Rightarrow> string) \<Rightarrow> json_style \<Rightarrow> pyval list \<Rightarrow> string list option"
  and json_items :: "(rat \<Rightarrow> string) \<Rightarrow> json_style \<Rightarrow> (pyval \<times> pyval) list \<Rightarrow> (pyval \<times> string) list option" where
  "json_text repr_float style PNone = Some ''null''"
| "json_text repr_float style (PBool b) = Some (if b then ''true'' else ''false'')"
| "json_text repr_float style (PInt i) = Some (str_of_int i)"
| "json_text repr_float style (PFloat r) = Some (repr_float r)"
| "json_text repr_float style (PStr s) = Some (json_string s)"
| "json_text repr_float style (PList xs) =
    map_option (\<lambda>ts. ''['' @ join_strings (js_item style) ts @ '']'') (json_texts repr_float style xs)"
| "json_text repr_float style (PTuple xs) =
    map_option (\<lambda>ts. ''['' @ join_strings (js_item style) ts @ '']'') (json_texts repr_float style xs)"
| "json_text repr_float style (PDict d) =
    Option.bind (json_items repr_float style d) (\<lambda>items.
    Option.bind (sort_items items) (\<lambda>sorted.
    map_option (\<lambda>ts. ''{'' @ join_strings (js_item style) ts @ ''}'')
      (those (map (\<lambda>(k, t). map_option (\<lambda>s. json_string s @ js_key style @ t) (json_key repr_float k)) sorted))))"
| "json_text repr_float style (PBytes b) = None"
| "json_text repr_float style (POpaque n) = None"
| "json_texts repr_float style [] = Some []"
| "json_texts repr_float style (x # xs) =
    Option.bind (json_text repr_float style x) (\<lambda>t. map_option (Cons t) (json_texts repr_float style xs))"
| "json_items repr_float style [] = Some []"
| "json_items repr_float style ((k, v) # d) =
    Option.bind (json_text repr_float style v) (\<lambda>t. map_option (Cons (k, t)) (json_items repr_float style d))"

definition text_bytes :: "string \<Rightarrow> int list" where
  "text_bytes s = map (\<lambda>c. int (of_char c)) s"

lemma json_sorted_example:
  "json_text (\<lambda>_. '''') compact_style
     (PDict [(PStr ''b'', PList [PInt 1, PBool True]), (PStr ''a'', PStr [CHR ''x'', CHR 0x0A])])
   = Some ([CHR ''{'', CHR 0x22, CHR ''a'', CHR 0x22, CHR '':'', CHR 0x22, CHR ''x'', CHR 0x5C, CHR ''n'',
       CHR 0x22, CHR '','', CHR 0x22, CHR ''b'', CHR 0x22] @ '':[1,true]}'')"
  by code_simp

end
