(* ===== verification/Fingerprint.thy ===== *)
theory Fingerprint
  imports Json
begin

text \<open>
  Contract fingerprints: the immutable ordered elements with their SHA-256 digest
  (\<^verbatim>\<open>fingerprint/model.py\<close>), their assembly from a validated loader (\<^verbatim>\<open>fingerprint/builder.py\<close>) and
  the batch shape they record (\<^verbatim>\<open>process/shape.py\<close>).  \<open>rf\<close> is the text of a float throughout.
\<close>

section \<open>Elements and fingerprints\<close>

record fingerprint_element =
  fe_path :: string
  fe_value :: pyval

definition make_element :: "string \<Rightarrow> pyval \<Rightarrow> fingerprint_element res" where
  "make_element path value =
    (if path = '''' then Inl (ValueError ''fingerprint element path must not be empty'')
     else Inr \<lparr>fe_path = path, fe_value = value\<rparr>)"

record contract_fingerprint =
  cf_elements :: "fingerprint_element list"

definition element_payload :: "fingerprint_element \<Rightarrow> pyval" where
  "element_payload e = PDict [(PStr ''path'', PStr (fe_path e)), (PStr ''value'', fe_value e)]"

definition canonical_bytes :: "(rat \<Rightarrow> string) \<Rightarrow> fingerprint_element list \<Rightarrow> int list res" where
  "canonical_bytes rf elements =
    (case json_text rf compact_style (PList (map element_payload elements)) of
       None \<Rightarrow> Inl (TypeError ''fingerprint values must be canonical JSON values'')
     | Some document \<Rightarrow> Inr (text_bytes document))"

definition make_fingerprint :: "(rat \<Rightarrow> string) \<Rightarrow> fingerprint_element list \<Rightarrow> contract_fingerprint res" where
  "make_fingerprint rf elements =
    (if \<not> distinct (map fe_path elements)
     then Inl (ValueError ''fingerprint element paths must be unique'')
     else rmap (\<lambda>_. \<lparr>cf_elements = elements\<rparr>) (canonical_bytes rf elements))"

definition fp_digest :: "(rat \<Rightarrow> string) \<Rightarrow> contract_fingerprint \<Rightarrow> string res" where
  "fp_digest rf f = rmap sha256_hex (canonical_bytes rf (cf_elements f))"

definition fp_to_dict :: "(rat \<Rightarrow> string) \<Rightarrow> contract_fingerprint \<Rightarrow> payload res" where
  "fp_to_dict rf f =
    rmap (\<lambda>digest. [(PStr ''digest'', PStr digest),
                    (PStr ''elements'', PList (map element_payload (cf_elements f)))])
      (fp_digest rf f)"

definition read_element :: "pyval \<Rightarrow> fingerprint_element res" where
  "read_element raw =
    (case raw of
       PDict d \<Rightarrow>
         (case pget d ''path'' of
            Some (PStr path) \<Rightarrow> make_element path (get_or_none d ''value'')
          | _ \<Rightarrow> Inl (ValueError ''fingerprint elements must contain string paths''))
     | _ \<Rightarrow> Inl (ValueError ''fingerprint elements must contain string paths''))"

definition fp_from_dict :: "(rat \<Rightarrow> string) \<Rightarrow> payload \<Rightarrow> contract_fingerprint res" where
  "fp_from_dict rf payload =
    (case pget payload ''elements'' of
       Some (PList raw_elements) \<Rightarrow>
         rbind (rtraverse read_element raw_elements) (\<lambda>elements.
         rbind (make_fingerprint rf elements) (\<lambda>fingerprint.
         rbind (fp_digest rf fingerprint) (\<lambda>digest.
           if get_or_none payload ''digest'' \<noteq> PStr digest
           then Inl (ValueError ''fingerprint digest does not match its elements'')
           else Inr fingerprint)))
     | _ \<Rightarrow> Inl (ValueError ''fingerprint elements must be a list''))"

text \<open>The first path on which two fingerprints differ, in the order of the expected elements.\<close>

definition fp_values :: "contract_fingerprint \<Rightarrow> string \<Rightarrow> pyval option" where
  "fp_values f = map_of (map (\<lambda>e. (fe_path e, fe_value e)) (rev (cf_elements f)))"

definition ordered_paths :: "contract_fingerprint \<Rightarrow> contract_fingerprint \<Rightarrow> string list" where
  "ordered_paths expected actual =
    map fe_path (cf_elements expected) @
    filter (\<lambda>path. fp_values expected path = None) (map fe_path (cf_elements actual))"

fun same_value :: "pyval option \<Rightarrow> pyval option \<Rightarrow> bool" where
  "same_value None None = True"
| "same_value (Some old) (Some new) = py_eq old new"
| "same_value _ _ = False"

definition render :: "(rat \<Rightarrow> string) \<Rightarrow> pyval option \<Rightarrow> string res" where
  "render rf value =
    (case value of
       None \<Rightarrow> Inr ''<missing>''
     | Some v \<Rightarrow>
         (case json_text rf spaced_style v of
            None \<Rightarrow> Inl (TypeError ''Object is not JSON serializable'')
          | Some t \<Rightarrow> Inr t))"

definition require_fingerprint_match ::
  "(rat \<Rightarrow> string) \<Rightarrow> contract_fingerprint \<Rightarrow> contract_fingerprint \<Rightarrow> unit res" where
  "require_fingerprint_match rf expected actual =
    (case find (\<lambda>path. \<not> same_value (fp_values expected path) (fp_values actual path))
        (ordered_paths expected actual) of
       None \<Rightarrow> Inr ()
     | Some path \<Rightarrow>
         rbind (render rf (fp_values expected path)) (\<lambda>old.
         rbind (render rf (fp_values actual path)) (\<lambda>new.
           Inl (ValueError (''fingerprint mismatch at '' @ path @ '': expected '' @ old @ '', found '' @ new)))))"

section \<open>The codec\<close>

definition fp_valid :: "(rat \<Rightarrow> string) \<Rightarrow> contract_fingerprint \<Rightarrow> bool" where
  "fp_valid rf f \<longleftrightarrow>
     make_fingerprint rf (cf_elements f) = Inr f \<and> list_all (\<lambda>e. fe_path e \<noteq> '''') (cf_elements f)"

lemma read_element_payload: "fe_path e \<noteq> '''' \<Longrightarrow> read_element (element_payload e) = Inr e"
  by (simp add: read_element_def element_payload_def make_element_def get_or_none_def)

lemma read_elements_payload:
  "list_all (\<lambda>e. fe_path e \<noteq> '''') es \<Longrightarrow> rtraverse read_element (map element_payload es) = Inr es"
  by (induction es) (simp_all add: read_element_payload)

lemma read_element_path: "read_element raw = Inr e \<Longrightarrow> fe_path e \<noteq> ''''"
  by (auto simp: read_element_def make_element_def split: pyval.splits option.splits if_splits)

lemma read_elements_paths: "rtraverse read_element raws = Inr es \<Longrightarrow> list_all (\<lambda>e. fe_path e \<noteq> '''') es"
  by (induction raws arbitrary: es) (auto simp: rbind_eq_Inr rmap_eq_Inr dest: read_element_path)

lemma make_fingerprint_elements: "make_fingerprint rf es = Inr f \<Longrightarrow> cf_elements f = es"
  by (auto simp: make_fingerprint_def rmap_eq_Inr split: if_splits)

lemma fp_digest_defined: "fp_valid rf f \<Longrightarrow> \<exists>d. fp_digest rf f = Inr d"
  by (auto simp: fp_valid_def fp_digest_def make_fingerprint_def rmap_eq_Inr split: if_splits)

definition fp_encode :: "(rat \<Rightarrow> string) \<Rightarrow> contract_fingerprint \<Rightarrow> payload" where
  "fp_encode rf f = (case fp_to_dict rf f of Inl _ \<Rightarrow> [] | Inr d \<Rightarrow> d)"

lemma fp_to_dict_encode: "fp_valid rf f \<Longrightarrow> fp_to_dict rf f = Inr (fp_encode rf f)"
  using fp_digest_defined [of rf f] by (auto simp: fp_encode_def fp_to_dict_def)

text \<open>A fingerprint inside a checkpoint: it must be a dict.\<close>

definition fp_decode :: "(rat \<Rightarrow> string) \<Rightarrow> pyval \<Rightarrow> contract_fingerprint res" where
  "fp_decode rf v =
    (case as_dict v of
       None \<Rightarrow> Inl (TypeError ''loader state fingerprint must be a dictionary'')
     | Some d \<Rightarrow> fp_from_dict rf d)"

lemma fp_from_encode:
  assumes "fp_valid rf f"
  shows "fp_from_dict rf (fp_encode rf f) = Inr f"
proof -
  obtain d where d: "fp_digest rf f = Inr d" using fp_digest_defined [OF assms] by blast
  then have e: "fp_encode rf f = [(PStr ''digest'', PStr d),
      (PStr ''elements'', PList (map element_payload (cf_elements f)))]"
    by (simp add: fp_encode_def fp_to_dict_def)
  from assms have "rtraverse read_element (map element_payload (cf_elements f)) = Inr (cf_elements f)"
    "make_fingerprint rf (cf_elements f) = Inr f"
    by (simp_all add: fp_valid_def read_elements_payload)
  then show ?thesis by (simp add: e fp_from_dict_def d get_or_none_def)
qed

lemma fp_from_dict_valid: "fp_from_dict rf p = Inr f \<Longrightarrow> fp_valid rf f"
  by (auto simp: fp_from_dict_def fp_valid_def rbind_eq_Inr dest: read_elements_paths make_fingerprint_elements
      split: option.splits pyval.splits if_splits)

interpretation fpc: checkpoint_codec "fp_encode rf" "fp_decode rf" "fp_valid rf"
proof unfold_locales
  show "fp_decode rf (PDict (fp_encode rf s)) = Inr s" if "fp_valid rf s" for s
    using fp_from_encode [OF that] by (simp add: fp_decode_def)
  show "fp_valid rf s" if "fp_decode rf p = Inr s" for p s
    using that by (auto simp: fp_decode_def intro: fp_from_dict_valid split: option.splits)
qed

section \<open>Matching\<close>

lemma fp_values_path: "fp_values f path \<noteq> None \<longleftrightarrow> path \<in> fe_path ` set (cf_elements f)"
  by (force simp: fp_values_def map_of_eq_None_iff)

lemma ordered_paths_all:
  "fp_values e path \<noteq> None \<or> fp_values a path \<noteq> None \<longleftrightarrow> path \<in> set (ordered_paths e a)"
  using fp_values_path [of e path] fp_values_path [of a path]
  by (auto simp: ordered_paths_def simp del: not_None_eq)

lemma require_match_iff:
  "require_fingerprint_match rf expected actual = Inr () \<longleftrightarrow>
     (\<forall>path. same_value (fp_values expected path) (fp_values actual path))"
proof -
  have "find (\<lambda>path. \<not> same_value (fp_values expected path) (fp_values actual path))
        (ordered_paths expected actual) = None \<longleftrightarrow>
      (\<forall>path \<in> set (ordered_paths expected actual). same_value (fp_values expected path) (fp_values actual path))"
    by (auto simp: find_None_iff)
  also have "\<dots> \<longleftrightarrow> (\<forall>path. same_value (fp_values expected path) (fp_values actual path))"
  proof (intro iffI allI ballI)
    fix path
    assume *: "\<forall>path \<in> set (ordered_paths expected actual).
        same_value (fp_values expected path) (fp_values actual path)"
    show "same_value (fp_values expected path) (fp_values actual path)"
    proof (cases "path \<in> set (ordered_paths expected actual)")
      case False
      then show ?thesis using ordered_paths_all [of expected path actual] by simp
    qed (use * in blast)
  qed simp
  finally show ?thesis
    by (auto simp: require_fingerprint_match_def rbind_eq_Inr split: option.splits)
qed

lemma same_value_refl [simp]: "same_value v v"
  by (cases v) simp_all

end
