(* ===== verification/Contract.thy ===== *)
theory Contract
  imports Fingerprint
begin

text \<open>
  The result contract of a loader: the description of its batch shape (\<^verbatim>\<open>process/shape.py\<close>), the
  elastic form of that description, and the ordered contract elements (\<^verbatim>\<open>fingerprint/builder.py\<close>).
  The last section shows what an elastic resume relies on: the contract of a natively placed
  loader depends on the global batch alone, not on how it is split over ranks.
\<close>

section \<open>Batch shapes\<close>

text \<open>
  A probed sample as \<^verbatim>\<open>batch_shape\<close> classifies it.  Names of types and of dtypes are text; an array
  carries the torch dtype its default collation gives.
\<close>

datatype sample_key = Plain_key pyval | Other_key string

datatype number_kind = Bool_number | Int_number | Float_number

datatype sample =
    Tensor_sample string "int list"
  | Array_sample string string "int list"
  | Numpy_scalar string string
  | Mapping_sample string "(sample_key \<times> sample) list"
  | Namedtuple_sample string "sample list"
  | Sequence_sample string "sample list"
  | Number_sample number_kind string
  | Text_sample string
  | Opaque_sample string

definition int_list :: "int list \<Rightarrow> pyval" where
  "int_list xs = PList (map PInt xs)"

definition optional_int :: "int option \<Rightarrow> pyval" where
  "optional_int n = (case n of None \<Rightarrow> PNone | Some i \<Rightarrow> PInt i)"

fun stable_key :: "sample_key \<Rightarrow> pyval" where
  "stable_key (Plain_key v) = v"
| "stable_key (Other_key t) = PDict [(PStr ''type'', PStr t)]"

definition tensor_shape :: "string \<Rightarrow> int list \<Rightarrow> pyval" where
  "tensor_shape dtype dims =
    PDict [(PStr ''dtype'', PStr dtype), (PStr ''kind'', PStr ''tensor''), (PStr ''shape'', int_list dims)]"

fun number_dtype :: "number_kind \<Rightarrow> string" where
  "number_dtype Bool_number = ''torch.bool''"
| "number_dtype Float_number = ''torch.float64''"
| "number_dtype Int_number = ''torch.int64''"

definition with_batch :: "int option \<Rightarrow> int list \<Rightarrow> int list" where
  "with_batch batch_size dims = (case batch_size of None \<Rightarrow> dims | Some b \<Rightarrow> b # dims)"

definition opaque_shape :: "int option \<Rightarrow> string \<Rightarrow> pyval" where
  "opaque_shape batch_size t =
    PDict [(PStr ''batch_size'', optional_int batch_size), (PStr ''kind'', PStr ''opaque''), (PStr ''type'', PStr t)]"

fun batch_shape :: "sample \<Rightarrow> int option \<Rightarrow> pyval"
  and batch_shapes :: "sample list \<Rightarrow> int option \<Rightarrow> pyval list"
  and batch_items :: "(sample_key \<times> sample) list \<Rightarrow> int option \<Rightarrow> pyval list" where
  "batch_shape (Tensor_sample dtype dims) batch_size = tensor_shape dtype (with_batch batch_size dims)"
| "batch_shape (Array_sample dtype torch_dtype dims) batch_size =
    (case batch_size of
       None \<Rightarrow> PDict [(PStr ''dtype'', PStr dtype), (PStr ''kind'', PStr ''ndarray''),
                       (PStr ''shape'', int_list dims)]
     | Some b \<Rightarrow> tensor_shape torch_dtype (b # dims))"
| "batch_shape (Numpy_scalar dtype torch_dtype) batch_size =
    (case batch_size of
       None \<Rightarrow> PDict [(PStr ''dtype'', PStr dtype), (PStr ''kind'', PStr ''numpy-scalar''),
                       (PStr ''shape'', int_list [])]
     | Some b \<Rightarrow> tensor_shape torch_dtype [b])"
| "batch_shape (Mapping_sample t items) batch_size =
    PDict [(PStr ''items'', PList (batch_items items batch_size)), (PStr ''kind'', PStr ''mapping''),
           (PStr ''type'', PStr t)]"
| "batch_shape (Namedtuple_sample t xs) batch_size =
    PDict [(PStr ''items'', PList (batch_shapes xs batch_size)), (PStr ''kind'', PStr ''namedtuple''),
           (PStr ''type'', PStr t)]"
| "batch_shape (Sequence_sample t xs) batch_size =
    PDict [(PStr ''items'', PList (batch_shapes xs batch_size)), (PStr ''kind'', PStr ''sequence''),
           (PStr ''type'', PStr t)]"
| "batch_shape (Number_sample kind t) batch_size =
    (case batch_size of
       None \<Rightarrow> opaque_shape None t
     | Some b \<Rightarrow> tensor_shape (number_dtype kind) [b])"
| "batch_shape (Text_sample t) batch_size =
    PDict [(PStr ''item_type'', PStr t),
           (PStr ''kind'', PStr (if batch_size = None then ''scalar'' else ''sequence'')),
           (PStr ''length'', optional_int batch_size)]"
| "batch_shape (Opaque_sample t) batch_size = opaque_shape batch_size t"
| "batch_shapes [] batch_size = []"
| "batch_shapes (x # xs) batch_size = batch_shape x batch_size # batch_shapes xs batch_size"
| "batch_items [] batch_size = []"
| "batch_items ((k, x) # items) batch_size =
    PDict [(PStr ''key'', stable_key k), (PStr ''value'', batch_shape x batch_size)] # batch_items items batch_size"

section \<open>The elastic form\<close>

definition placement_marker :: pyval where
  "placement_marker = PDict [(PStr ''placement'', PStr ''per-rank-batch'')]"

definition mark_extent :: "int \<Rightarrow> string \<Rightarrow> payload \<Rightarrow> payload" where
  "mark_extent b key d =
    (if py_eq (get_or_none d key) (PInt b) then dict_set (PStr key) placement_marker d else d)"

definition mark_shape :: "int \<Rightarrow> payload \<Rightarrow> payload" where
  "mark_shape b d =
    (case pget d ''shape'' of
       Some (PList (extent # extents)) \<Rightarrow>
         if py_eq extent (PInt b) then dict_set (PStr ''shape'') (PList (placement_marker # extents)) d else d
     | _ \<Rightarrow> d)"

fun elastic_batch_shape :: "pyval \<Rightarrow> int \<Rightarrow> pyval"
  and elastic_list :: "pyval list \<Rightarrow> int \<Rightarrow> pyval list"
  and elastic_items :: "(pyval \<times> pyval) list \<Rightarrow> int \<Rightarrow> (pyval \<times> pyval) list" where
  "elastic_batch_shape (PList xs) b = PList (elastic_list xs b)"
| "elastic_batch_shape (PDict d) b =
    PDict (mark_extent b ''batch_size'' (mark_extent b ''length'' (mark_shape b (elastic_items d b))))"
| "elastic_batch_shape v b = v"
| "elastic_list [] b = []"
| "elastic_list (x # xs) b = elastic_batch_shape x b # elastic_list xs b"
| "elastic_items [] b = []"
| "elastic_items ((k, v) # d) b = (k, elastic_batch_shape v b) # elastic_items d b"

section \<open>The contract elements\<close>

datatype contract_sampler = Native_sampler | User_sampler pyval | Batch_sampler pyval

text \<open>
  What the assembly reads of a loader.  Identities of callables, the dataset's elements and the
  decoder selections come as the values their own functions give; \<open>ci_world_size\<close> is the captured or
  configured world size.
\<close>

record contract_inputs =
  ci_dataset_elements :: "fingerprint_element list"
  ci_map_style :: bool
  ci_sampler :: contract_sampler
  ci_shuffle :: bool
  ci_batch_size :: "int option"
  ci_topology_world :: "int option"
  ci_configured_world :: "int auto"
  ci_exact_count :: bool
  ci_num_workers :: "int auto"
  ci_worker_init :: pyval
  ci_decoder_pins :: "pyval list"
  ci_seeded_libs :: "string list auto"
  ci_placement_enabled :: "bool option"
  ci_mode :: string
  ci_delivery :: string
  ci_drop_last :: bool
  ci_collate_identity :: pyval
  ci_batch_shape :: pyval

definition contract_world_size :: "contract_inputs \<Rightarrow> int" where
  "contract_world_size c =
    (case ci_topology_world c of
       Some w \<Rightarrow> w
     | None \<Rightarrow> (case ci_configured_world c of AUTO \<Rightarrow> 1 | Explicit w \<Rightarrow> w))"

definition batch_or_one :: "int option \<Rightarrow> int" where
  \<comment> \<open>\<^verbatim>\<open>loader.batch_size or 1\<close>\<close>
  "batch_or_one b = (case b of None \<Rightarrow> 1 | Some n \<Rightarrow> if n = 0 then 1 else n)"

definition sampler_elements :: "contract_inputs \<Rightarrow> (string \<times> pyval) list \<times> int" where
  "sampler_elements c =
    (case ci_sampler c of
       Native_sampler \<Rightarrow>
         ([(''sampler.kind'', PStr ''native''), (''sampler.shuffle'', PBool (ci_shuffle c))],
          batch_or_one (ci_batch_size c) * contract_world_size c)
     | User_sampler identity \<Rightarrow>
         ([(''sampler.kind'', PStr ''user''), (''sampler.identity'', identity)], 0)
     | Batch_sampler identity \<Rightarrow>
         ([(''sampler.kind'', PStr ''batch-sampler''), (''sampler.identity'', identity)], 0))"

definition style_elements :: "contract_inputs \<Rightarrow> (string \<times> pyval) list" where
  "style_elements c =
    (if ci_map_style c then [(''placement.exact_count'', PBool (ci_exact_count c))]
     else
       [(''iterable.L'', PInt (max 1 (case ci_num_workers c of AUTO \<Rightarrow> 1 | Explicit n \<Rightarrow> n))),
        (''iterable.W'', PInt (contract_world_size c)),
        (''iterable.batch_size'', optional_int (ci_batch_size c)),
        (''iterable.worker_init_fn'', ci_worker_init c)])"

definition contract_batch_shape :: "contract_inputs \<Rightarrow> pyval" where
  "contract_batch_shape c =
    (if ci_map_style c \<and> ci_sampler c = Native_sampler \<and> ci_placement_enabled c = Some True
     then elastic_batch_shape (ci_batch_shape c) (batch_or_one (ci_batch_size c))
     else ci_batch_shape c)"

definition contract_elements :: "contract_inputs \<Rightarrow> (string \<times> pyval) list" where
  "contract_elements c =
    (case sampler_elements c of (sampler, global_batch) \<Rightarrow>
      [(''contract_version'', PInt 1)] @
      map (\<lambda>e. (fe_path e, fe_value e)) (ci_dataset_elements c) @
      [(''plan.kind'', PStr (if ci_map_style c then ''map'' else ''iterable''))] @
      sampler @
      [(''placement.B_g'', PInt global_batch)] @
      style_elements c @
      [(''decoder_pins'', PList (ci_decoder_pins c))] @
      (case ci_seeded_libs c of AUTO \<Rightarrow> [] | Explicit libs \<Rightarrow> [(''seeded_libs'', PList (map PStr libs))]) @
      [(''mode'', PStr (ci_mode c)), (''delivery'', PStr (ci_delivery c)),
       (''drop_last'', PBool (ci_drop_last c)), (''collate.identity'', ci_collate_identity c),
       (''batch_shape'', contract_batch_shape c)])"

definition build_contract_fingerprint :: "(rat \<Rightarrow> string) \<Rightarrow> contract_inputs \<Rightarrow> contract_fingerprint res" where
  "build_contract_fingerprint rf c =
    rbind (rtraverse (\<lambda>(path, value). make_element path value) (contract_elements c)) (make_fingerprint rf)"

section \<open>Elastic contracts\<close>

lemma elastic_ints [simp]: "elastic_list (map PInt xs) b = map PInt xs"
  by (induction xs) simp_all

lemma elastic_tensor:
  "elastic_batch_shape (tensor_shape dtype (b # dims)) b =
     PDict [(PStr ''dtype'', PStr dtype), (PStr ''kind'', PStr ''tensor''),
            (PStr ''shape'', PList (placement_marker # map PInt dims))]"
  by (simp add: tensor_shape_def int_list_def mark_shape_def mark_extent_def get_or_none_def)

lemma elastic_key:
  assumes "case k of Plain_key v \<Rightarrow> as_dict v = None \<and> as_list v = None | Other_key _ \<Rightarrow> True"
  shows "elastic_batch_shape (stable_key k) b = stable_key k"
proof (cases k)
  case (Plain_key v)
  with assms show ?thesis by (cases v) simp_all
qed (simp add: mark_shape_def mark_extent_def get_or_none_def)

text \<open>Keys are None, numbers or strings, or are described by their type.\<close>

fun keys_plain :: "sample \<Rightarrow> bool"
  and keys_plain_list :: "sample list \<Rightarrow> bool"
  and keys_plain_items :: "(sample_key \<times> sample) list \<Rightarrow> bool" where
  "keys_plain (Mapping_sample t items) = keys_plain_items items"
| "keys_plain (Namedtuple_sample t xs) = keys_plain_list xs"
| "keys_plain (Sequence_sample t xs) = keys_plain_list xs"
| "keys_plain _ = True"
| "keys_plain_list [] = True"
| "keys_plain_list (x # xs) = (keys_plain x \<and> keys_plain_list xs)"
| "keys_plain_items [] = True"
| "keys_plain_items ((k, x) # items) =
    ((case k of Plain_key v \<Rightarrow> as_dict v = None \<and> as_list v = None | Other_key _ \<Rightarrow> True)
     \<and> keys_plain x \<and> keys_plain_items items)"

lemma elastic_batch_free:
  "keys_plain s \<Longrightarrow> elastic_batch_shape (batch_shape s (Some b)) b = elastic_batch_shape (batch_shape s (Some c)) c"
  "keys_plain_list xs \<Longrightarrow> elastic_list (batch_shapes xs (Some b)) b = elastic_list (batch_shapes xs (Some c)) c"
  "keys_plain_items items \<Longrightarrow> elastic_list (batch_items items (Some b)) b = elastic_list (batch_items items (Some c)) c"
  by (induction s and xs and items rule: keys_plain_keys_plain_list_keys_plain_items.induct)
    (simp_all add: with_batch_def elastic_tensor opaque_shape_def optional_int_def mark_shape_def
      mark_extent_def get_or_none_def elastic_key)

lemma make_elements_Inr:
  "rtraverse (\<lambda>(path, value). make_element path value) xs = Inr es \<Longrightarrow>
     map (\<lambda>e. (fe_path e, fe_value e)) es = xs"
  by (induction xs arbitrary: es)
    (auto simp: rbind_eq_Inr rmap_eq_Inr make_element_def split: if_splits)

lemma fp_values_of_element:
  assumes "make_fingerprint rf es = Inr f" "(path, v) \<in> set (map (\<lambda>e. (fe_path e, fe_value e)) es)"
  shows "fp_values f path = Some v"
proof -
  from assms(1) have "cf_elements f = es" "distinct (map fe_path es)"
    by (auto simp: make_fingerprint_def rmap_eq_Inr split: if_splits)
  moreover from this have "distinct (map fst (map (\<lambda>e. (fe_path e, fe_value e)) (rev es)))"
    by (simp add: comp_def rev_map [symmetric])
  ultimately show ?thesis
    using assms(2) by (simp only: fp_values_def) (rule map_of_is_SomeI, auto)
qed

lemma built_value:
  assumes "build_contract_fingerprint rf c = Inr f" "(path, v) \<in> set (contract_elements c)"
  shows "fp_values f path = Some v"
proof -
  from assms(1) obtain es where es: "rtraverse (\<lambda>(path, value). make_element path value) (contract_elements c) = Inr es"
    "make_fingerprint rf es = Inr f"
    by (auto simp: build_contract_fingerprint_def rbind_eq_Inr)
  from assms(2) show ?thesis
    by (intro fp_values_of_element [OF es(2)]) (simp add: make_elements_Inr [OF es(1)] del: set_map)
qed

text \<open>The same loader under another split of its batch over ranks.\<close>

definition resplit :: "contract_inputs \<Rightarrow> sample \<Rightarrow> int \<Rightarrow> int \<Rightarrow> contract_inputs" where
  "resplit c s b w = c\<lparr>ci_batch_size := Some b, ci_topology_world := Some w, ci_batch_shape := batch_shape s (Some b)\<rparr>"

definition natively_placed :: "contract_inputs \<Rightarrow> bool" where
  "natively_placed c \<longleftrightarrow> ci_map_style c \<and> ci_sampler c = Native_sampler \<and> ci_placement_enabled c = Some True"

lemma resplit_contract:
  assumes "natively_placed c" "keys_plain s" "b \<noteq> 0" "b' \<noteq> 0" "b * w = b' * w'"
  shows "contract_elements (resplit c s b w) = contract_elements (resplit c s b' w')"
  using assms elastic_batch_free(1) [OF assms(2), of b b']
  by (simp add: contract_elements_def resplit_def natively_placed_def sampler_elements_def style_elements_def
      contract_batch_shape_def batch_or_one_def contract_world_size_def)

text \<open>
  The contract of a natively placed map-style loader records its global batch and not its
  split: two splits of one loader have matching fingerprints exactly when their global batches
  agree.  A checkpoint can therefore resume under another world size, and under no other batch.
\<close>

theorem elastic_contracts_match:
  assumes placed: "natively_placed c" "keys_plain s" and sizes: "b \<noteq> 0" "b' \<noteq> 0"
    and built: "build_contract_fingerprint rf (resplit c s b w) = Inr f"
      "build_contract_fingerprint rf (resplit c s b' w') = Inr g"
  shows "require_fingerprint_match rf f g = Inr () \<longleftrightarrow> b * w = b' * w'"
proof
  assume "require_fingerprint_match rf f g = Inr ()"
  then have same: "same_value (fp_values f ''placement.B_g'') (fp_values g ''placement.B_g'')"
    by (simp add: require_match_iff)
  have "(''placement.B_g'', PInt (x * y)) \<in> set (contract_elements (resplit c s x y))" if "x \<noteq> 0" for x y
    using placed that
    by (simp add: contract_elements_def sampler_elements_def resplit_def natively_placed_def
        batch_or_one_def contract_world_size_def)
  with sizes built have "fp_values f ''placement.B_g'' = Some (PInt (b * w))"
    "fp_values g ''placement.B_g'' = Some (PInt (b' * w'))"
    by (simp_all add: built_value)
  with same show "b * w = b' * w'" by (simp del: of_int_mult)
next
  assume "b * w = b' * w'"
  from resplit_contract [OF placed sizes this] built have "f = g"
    by (simp add: build_contract_fingerprint_def)
  then show "require_fingerprint_match rf f g = Inr ()" by (simp add: require_match_iff)
qed

definition sample_contract :: contract_inputs where
  "sample_contract =
    \<lparr>ci_dataset_elements = [], ci_map_style = True, ci_sampler = Native_sampler, ci_shuffle = True,
     ci_batch_size = Some 4, ci_topology_world = Some 2, ci_configured_world = AUTO,
     ci_exact_count = False, ci_num_workers = Explicit 2, ci_worker_init = PNone, ci_decoder_pins = [],
     ci_seeded_libs = AUTO, ci_placement_enabled = Some True, ci_mode = ''native'',
     ci_delivery = ''in-order'', ci_drop_last = False, ci_collate_identity = PNone, ci_batch_shape = PNone\<rparr>"

definition sample_image :: sample where
  "sample_image = Mapping_sample ''builtins.dict''
     [(Plain_key (PStr ''x''), Tensor_sample ''torch.float32'' [3, 8]),
      (Plain_key (PStr ''y''), Number_sample Int_number ''builtins.int'')]"

theorem elastic_contracts_match_witness:
  "\<exists>f g h. build_contract_fingerprint (\<lambda>_. '''') (resplit sample_contract sample_image 4 2) = Inr f
    \<and> build_contract_fingerprint (\<lambda>_. '''') (resplit sample_contract sample_image 2 4) = Inr g
    \<and> build_contract_fingerprint (\<lambda>_. '''') (resplit sample_contract sample_image 2 2) = Inr h
    \<and> require_fingerprint_match (\<lambda>_. '''') f g = Inr () \<and> require_fingerprint_match (\<lambda>_. '''') f h \<noteq> Inr ()"
proof -
  let ?build = "\<lambda>b w. build_contract_fingerprint (\<lambda>_. '''') (resplit sample_contract sample_image b w)"
  have "(case ?build 4 2 of Inr _ \<Rightarrow> True | _ \<Rightarrow> False)" "(case ?build 2 4 of Inr _ \<Rightarrow> True | _ \<Rightarrow> False)"
    "(case ?build 2 2 of Inr _ \<Rightarrow> True | _ \<Rightarrow> False)" by code_simp+
  then obtain f g h where built: "?build 4 2 = Inr f" "?build 2 4 = Inr g" "?build 2 2 = Inr h"
    by (auto split: sum.splits)
  have "natively_placed sample_contract" "keys_plain sample_image"
    by (simp_all add: natively_placed_def sample_contract_def sample_image_def)
  with elastic_contracts_match [OF _ _ _ _ built(1,2)] elastic_contracts_match [OF _ _ _ _ built(1,3)] built
  show ?thesis by auto
qed

end
