(* ===== verification/Delivery.thy ===== *)
theory Delivery
  imports Collections
begin

text \<open>
  The delivered-batch state of completion-order execution (\<^verbatim>\<open>state/delivery.py\<close>): a contiguous
  base, the ordinals delivered ahead of it, and the bitmap that carries them in a checkpoint.
\<close>

unbundle bit_operations_syntax

section \<open>State and operations\<close>

record delivered_batches =
  db_base :: int
  db_ahead :: "int fset"

definition new_delivered :: "int \<Rightarrow> int fset \<Rightarrow> delivered_batches" where
  "new_delivered base ahead = \<lparr>db_base = base, db_ahead = ahead\<rparr>"

definition mark_batch :: "int \<Rightarrow> delivered_batches \<Rightarrow> delivered_batches res" where
  "mark_batch ordinal s =
    (if ordinal < db_base s \<or> ordinal |\<in>| db_ahead s
     then Inl (RuntimeError ''completion-order delivery repeated a batch'')
     else if ordinal = db_base s then
       (case advance_base (db_base s + 1) (db_ahead s) of (base, ahead) \<Rightarrow>
          Inr (s\<lparr>db_base := base, db_ahead := ahead\<rparr>))
     else Inr (s\<lparr>db_ahead := finsert ordinal (db_ahead s)\<rparr>))"

definition set_offset :: "int \<Rightarrow> int \<Rightarrow> int list \<Rightarrow> int list" where
  "set_offset base ordinal bits =
    (let offset = nat (ordinal - base)
     in bits[offset div 8 := bits ! (offset div 8) OR push_bit (offset mod 8) 1])"

definition bitmap :: "delivered_batches \<Rightarrow> int list" where
  "bitmap s =
    (let ordinals = sorted_list_of_fset (db_ahead s) in
     if ordinals = [] then []
     else
       let highest = last ordinals - db_base s
       in fold (set_offset (db_base s)) ordinals (replicate (nat (highest div 8 + 1)) 0))"

definition bitmap_ordinals :: "int \<Rightarrow> int list \<Rightarrow> int list" where
  "bitmap_ordinals base bits =
    concat (map (\<lambda>(byte_index, byte).
        map (\<lambda>bit. base + int byte_index * 8 + int bit)
          (filter (\<lambda>bit. byte AND push_bit bit 1 \<noteq> 0) [0..<8]))
      (enumerate 0 bits))"

definition decode_delivered_bitmap :: "int \<Rightarrow> int list \<Rightarrow> int \<Rightarrow> int fset res" where
  "decode_delivered_bitmap base bits total_batches =
    (let delivered = fset_of_list (bitmap_ordinals base bits) in
     if total_batches < base
     then Inl (ValueError ''loader state cursor exceeds the delivery batch count'')
     else if base |\<in>| delivered
     then Inl (ValueError ''delivered_bitmap bit zero must name the first open gap'')
     else if fBex delivered (\<lambda>ordinal. total_batches \<le> ordinal)
     then Inl (ValueError ''delivered_bitmap exceeds the delivery batch count'')
     else Inr delivered)"

section \<open>The invariant\<close>

definition delivered_ok :: "delivered_batches \<Rightarrow> bool" where
  "delivered_ok s \<longleftrightarrow> (\<forall>x. x |\<in>| db_ahead s \<longrightarrow> db_base s < x)"

definition db_delivered :: "delivered_batches \<Rightarrow> int set" where
  "db_delivered s = delivered_set (db_base s) (db_ahead s)"

lemma mark_batch_spec:
  assumes ok: "delivered_ok s" and mark: "mark_batch p s = Inr t"
  shows "delivered_ok t \<and> p \<notin> db_delivered s \<and> db_delivered t = insert p (db_delivered s)"
proof (cases "p = db_base s")
  case True
  obtain base ahead where adv: "advance_base (db_base s + 1) (db_ahead s) = (base, ahead)"
    by (cases "advance_base (db_base s + 1) (db_ahead s)")
  note spec = advance_base_spec [OF adv]
  have gt: "\<forall>x. x |\<in>| db_ahead s \<longrightarrow> db_base s + 1 \<le> x" using ok by (auto simp: delivered_ok_def)
  have t: "t = s\<lparr>db_base := base, db_ahead := ahead\<rparr>"
    using mark True adv by (auto simp: mark_batch_def split: if_splits)
  have "p \<notin> db_delivered s" using mark True by (auto simp: mark_batch_def db_delivered_def delivered_set_def)
  moreover have "db_delivered t = insert p (db_delivered s)"
    using spec True by (simp add: t db_delivered_def delivered_set_step)
  moreover have "delivered_ok t" using spec gt by (simp add: t delivered_ok_def)
  ultimately show ?thesis by simp
next
  case False
  with mark have p: "db_base s < p" "p |\<notin>| db_ahead s" "t = s\<lparr>db_ahead := finsert p (db_ahead s)\<rparr>"
    by (auto simp: mark_batch_def split: if_splits)
  with ok show ?thesis
    by (auto simp: delivered_ok_def db_delivered_def delivered_set_def)
qed

lemma mark_batch_refuses:
  "delivered_ok s \<Longrightarrow> (\<exists>t. mark_batch p s = Inr t) \<longleftrightarrow> p \<notin> db_delivered s"
  by (auto simp: mark_batch_def db_delivered_def delivered_set_def split: prod.splits)

text \<open>Marking batches is a scheduler too: what it accepts, it accepts once.\<close>

fun delivered_step :: "delivered_batches \<Rightarrow> int \<Rightarrow> delivered_batches \<times> int option" where
  "delivered_step s p = (case mark_batch p s of Inl _ \<Rightarrow> (s, None) | Inr t \<Rightarrow> (t, Some p))"

interpretation marks: exactly_once delivered_step db_delivered delivered_ok
proof unfold_locales
  fix s t p e and out :: "int option"
  assume ok: "delivered_ok s"
  show "delivered_ok t" if "delivered_step s e = (t, out)" for out
    using that ok mark_batch_spec [OF ok] by (auto split: sum.splits)
  show "p \<notin> db_delivered s \<and> db_delivered t = insert p (db_delivered s)" if "delivered_step s e = (t, Some p)"
    using that mark_batch_spec [OF ok] by (auto split: sum.splits)
  show "db_delivered t = db_delivered s" if "delivered_step s e = (t, None)"
    using that by (auto split: sum.splits)
qed

section \<open>The bitmap\<close>

lemma bit_two_power: "bit ((2::int) ^ m) k \<longleftrightarrow> k = m"
  by (auto simp: bit_exp_iff)

lemma bit_push_one: "bit (push_bit m (1::int)) k \<longleftrightarrow> k = m"
  by (simp add: push_bit_eq_mult bit_two_power)

lemma and_push_one: "(b::int) AND push_bit k 1 \<noteq> 0 \<longleftrightarrow> bit b k"
proof
  assume "b AND push_bit k 1 \<noteq> 0"
  then obtain n where "bit (b AND push_bit k 1) n" by (metis bit_eqI bit_0_eq bot_apply bot_bool_def)
  then show "bit b k" by (auto simp: bit_and_iff bit_two_power)
next
  assume "bit b k"
  then have "bit (b AND push_bit k 1) k" by (simp add: bit_and_iff bit_two_power)
  then show "b AND push_bit k 1 \<noteq> 0" by (metis bit_0_eq bot_apply bot_bool_def)
qed

lemma bitmap_ordinals_iff:
  "x \<in> set (bitmap_ordinals base bits) \<longleftrightarrow>
     (\<exists>i k. i < length bits \<and> k < 8 \<and> bit (bits ! i) k \<and> x = base + int i * 8 + int k)"
proof -
  have "x \<in> set (bitmap_ordinals base bits) \<longleftrightarrow>
      (\<exists>(i, byte) \<in> set (enumerate 0 bits). \<exists>k < 8. bit byte k \<and> x = base + int i * 8 + int k)"
    unfolding bitmap_ordinals_def and_push_one by auto
  also have "\<dots> \<longleftrightarrow> (\<exists>i k. i < length bits \<and> k < 8 \<and> bit (bits ! i) k \<and> x = base + int i * 8 + int k)"
    by (force simp: in_set_enumerate_eq)
  finally show ?thesis .
qed

lemma length_set_offset [simp]: "length (set_offset base x bits) = length bits"
  by (simp add: set_offset_def Let_def)

lemma length_fold_offset [simp]: "length (fold (set_offset base) xs bits) = length bits"
  by (induction xs arbitrary: bits) simp_all

lemma bit_set_offset:
  assumes "nat (x - base) div 8 < length bits" "i < length bits" "k < 8"
  shows "bit (set_offset base x bits ! i) k \<longleftrightarrow> bit (bits ! i) k \<or> nat (x - base) = 8 * i + k"
proof -
  have "nat (x - base) div 8 = i \<and> nat (x - base) mod 8 = k \<longleftrightarrow> nat (x - base) = 8 * i + k"
    using assms(3) by auto
  with assms show ?thesis
    by (cases "i = nat (x - base) div 8")
      (auto simp: set_offset_def Let_def bit_or_iff bit_two_power)
qed

lemma bit_fold_offset:
  "\<forall>x \<in> set xs. nat (x - base) div 8 < length bits \<Longrightarrow> i < length bits \<Longrightarrow> k < 8 \<Longrightarrow>
   bit (fold (set_offset base) xs bits ! i) k \<longleftrightarrow> bit (bits ! i) k \<or> (\<exists>x \<in> set xs. nat (x - base) = 8 * i + k)"
  by (induction xs arbitrary: bits) (auto simp: bit_set_offset)

lemma sorted_last: "sorted xs \<Longrightarrow> x \<in> set xs \<Longrightarrow> x \<le> last xs"
  by (induction xs) auto

lemma bitmap_ordinals_bitmap:
  assumes ok: "delivered_ok s"
  shows "set (bitmap_ordinals (db_base s) (bitmap s)) = fset (db_ahead s)"
proof (cases "sorted_list_of_fset (db_ahead s) = []")
  case True
  then have "set (sorted_list_of_fset (db_ahead s)) = {}" by simp
  then have "fset (db_ahead s) = fset {||}" by simp
  then have "db_ahead s = {||}" by (simp only: fset_inject)
  then show ?thesis using True by (simp add: bitmap_def bitmap_ordinals_def)
next
  case False
  let ?xs = "sorted_list_of_fset (db_ahead s)" and ?b = "db_base s"
  let ?n = "nat ((last ?xs - ?b) div 8 + 1)"
  have xs: "set ?xs = fset (db_ahead s)" by simp
  have top: "\<forall>x \<in> set ?xs. ?b < x \<and> x \<le> last ?xs"
  proof
    fix x assume x: "x \<in> set ?xs"
    have "sorted ?xs" by (simp add: sorted_list_of_fset.rep_eq)
    then have "x \<le> last ?xs" using x by (rule sorted_last)
    moreover have "?b < x" using ok x by (simp add: delivered_ok_def)
    ultimately show "?b < x \<and> x \<le> last ?xs" by simp
  qed
  have fits: "nat (x - ?b) div 8 < ?n" if "x \<in> set ?xs" for x
  proof -
    have "(x - ?b) div 8 \<le> (last ?xs - ?b) div 8" using top that by (intro zdiv_mono1) simp_all
    moreover have "?b \<le> x" using top that by (metis order_less_imp_le)
    then have "int (nat (x - ?b) div 8) = (x - ?b) div 8" by (simp add: zdiv_int)
    ultimately show ?thesis by linarith
  qed
  have bm: "bitmap s = fold (set_offset ?b) ?xs (replicate ?n 0)"
    using False by (simp add: bitmap_def Let_def)
  have "x \<in> set (bitmap_ordinals ?b (bitmap s)) \<longleftrightarrow>
      (\<exists>i k. i < ?n \<and> k < 8 \<and> (\<exists>y \<in> set ?xs. nat (y - ?b) = 8 * i + k) \<and> x = ?b + int i * 8 + int k)" for x
    unfolding bitmap_ordinals_iff bm
    using fits by (simp add: bit_fold_offset cong: conj_cong)
  also have "\<dots> x \<longleftrightarrow> x \<in> set ?xs" for x
  proof
    assume "\<exists>i k. i < ?n \<and> k < 8 \<and> (\<exists>y \<in> set ?xs. nat (y - ?b) = 8 * i + k) \<and> x = ?b + int i * 8 + int k"
    then obtain i k y where y: "y \<in> set ?xs" "nat (y - ?b) = 8 * i + k" "x = ?b + int i * 8 + int k" by blast
    have "?b < y" using top y(1) by blast
    then have "int (nat (y - ?b)) = y - ?b" by simp
    with y(2) have "y - ?b = int (8 * i + k)" by metis
    with y(3) have "x = y" by simp
    with y show "x \<in> set ?xs" by simp
  next
    assume x: "x \<in> set ?xs"
    let ?d = "nat (x - ?b)"
    have "?d = 8 * (?d div 8) + ?d mod 8" by simp
    moreover have "x = ?b + int (?d div 8) * 8 + int (?d mod 8)"
    proof -
      have "?b < x" using top x by blast
      then have "x = ?b + int ?d" by simp
      also have "int ?d = int (?d div 8 * 8 + ?d mod 8)" by simp
      finally show ?thesis by (simp only: of_nat_add of_nat_mult)
    qed
    ultimately show "\<exists>i k. i < ?n \<and> k < 8 \<and> (\<exists>y \<in> set ?xs. nat (y - ?b) = 8 * i + k) \<and> x = ?b + int i * 8 + int k"
      using fits [OF x] x by (intro exI [of _ "?d div 8"] exI [of _ "?d mod 8"] conjI bexI [of _ x]) simp_all
  qed
  finally show ?thesis using xs by auto
qed

lemma bitmap_decodes:
  assumes ok: "delivered_ok s" and batches: "db_base s \<le> batches" "\<forall>x. x |\<in>| db_ahead s \<longrightarrow> x < batches"
  shows "decode_delivered_bitmap (db_base s) (bitmap s) batches = Inr (db_ahead s)"
proof -
  have "fset (fset_of_list (bitmap_ordinals (db_base s) (bitmap s))) = fset (db_ahead s)"
    using bitmap_ordinals_bitmap [OF ok] by (simp add: fset_of_list.rep_eq)
  then have "fset_of_list (bitmap_ordinals (db_base s) (bitmap s)) = db_ahead s" by (simp only: fset_inject)
  with ok batches show ?thesis
    by (auto simp: decode_delivered_bitmap_def delivered_ok_def Let_def)
qed

text \<open>
  The bitmap of a delivered-batch state restores it: decoded at the same base, it gives back
  exactly the ordinals delivered ahead, whatever the order of delivery was.
\<close>

theorem bitmap_round_trip:
  assumes "delivered_ok s" and "db_base s \<le> batches" "\<forall>x. x |\<in>| db_ahead s \<longrightarrow> x < batches"
  shows "decode_delivered_bitmap (db_base s) (bitmap s) batches = Inr (db_ahead s)"
  using assms by (rule bitmap_decodes)

theorem bitmap_round_trip_witness:
  "bitmap \<lparr>db_base = 3, db_ahead = {|5, 12|}\<rparr> = [4, 2]
   \<and> decode_delivered_bitmap 3 [4, 2] 20 = Inr {|5, 12|}"
proof -
  let ?s = "\<lparr>db_base = 3, db_ahead = {|5, 12 :: int|}\<rparr>"
  have b: "bitmap ?s = [4, 2]" by code_simp
  have "delivered_ok ?s" "\<forall>x. x |\<in>| db_ahead ?s \<longrightarrow> x < 20" by (auto simp: delivered_ok_def)
  with bitmap_round_trip [of ?s 20] b show ?thesis by simp
qed

text \<open>
  A bitmap is accepted only when it names ordinals above the open gap and below the number of
  batches, and it is then read bit by bit.
\<close>

theorem decode_bitmap_sound:
  assumes "decode_delivered_bitmap base bits batches = Inr ahead"
  shows "base \<le> batches \<and> (\<forall>x. x |\<in>| ahead \<longrightarrow> base < x \<and> x < batches) \<and>
    (\<forall>i k. i < length bits \<and> k < 8 \<longrightarrow> (bit (bits ! i) k \<longleftrightarrow> base + int i * 8 + int k |\<in>| ahead))"
proof -
  let ?d = "fset_of_list (bitmap_ordinals base bits)"
  from assms have d: "ahead = ?d" "base \<le> batches" "base |\<notin>| ahead" "\<forall>x. x |\<in>| ahead \<longrightarrow> x < batches"
    by (auto simp: decode_delivered_bitmap_def Let_def not_le split: if_splits)
  have mem: "x |\<in>| ahead \<longleftrightarrow> (\<exists>i k. i < length bits \<and> k < 8 \<and> bit (bits ! i) k \<and> x = base + int i * 8 + int k)" for x
    by (simp add: d(1) fset_of_list_elem bitmap_ordinals_iff)
  have "base < x" if "x |\<in>| ahead" for x
  proof -
    from that mem have "base \<le> x" by auto
    with d(3) that show ?thesis by (metis order_le_less)
  qed
  moreover have "bit (bits ! i) k \<longleftrightarrow> base + int i * 8 + int k |\<in>| ahead" if "i < length bits" "k < 8" for i k
  proof
    assume "base + int i * 8 + int k |\<in>| ahead"
    then obtain j l where j: "l < 8" "bit (bits ! j) l" "int i * 8 + int k = int j * 8 + int l"
      unfolding mem by auto
    with that(2) have "i = j" "k = l" by presburger+
    with j show "bit (bits ! i) k" by simp
  qed (use that mem in blast)
  ultimately show ?thesis using d by blast
qed

theorem decode_bitmap_sound_witness:
  "\<exists>ahead. decode_delivered_bitmap 3 [4, 2] 20 = Inr ahead \<and> 5 |\<in>| ahead \<and> 4 |\<notin>| ahead"
proof -
  have "decode_delivered_bitmap 3 [4, 2] 20 = Inr {|5, 12|}" by code_simp
  from decode_bitmap_sound [OF this] this show ?thesis by auto
qed

end
