(* ===== verification/MapState.thy ===== *)
theory MapState
  imports Fingerprint Epoch Delivery Sizing
begin

text \<open>
  The checkpoint of a map-style loader (\<^verbatim>\<open>state/map.py\<close>, \<^verbatim>\<open>state/runtime.py\<close>): its public form, the
  capture of the delivered prefix and the validated restore.
\<close>

section \<open>The coordinate\<close>

definition MAX_U64 :: int where "MAX_U64 = push_bit 64 1 - 1"

record map_state =
  ms_root_seed :: int
  ms_epoch :: int
  ms_cursor :: int
  ms_global_batch :: int
  ms_sampler_checksum :: int
  ms_delivered_bitmap :: "int list"
  ms_fingerprint :: contract_fingerprint
  ms_batch_shape :: pyval

definition map_to_dict :: "(rat \<Rightarrow> string) \<Rightarrow> map_state \<Rightarrow> payload res" where
  "map_to_dict rf s =
    rmap (\<lambda>fingerprint.
      [(PStr ''root_seed'', PInt (ms_root_seed s)), (PStr ''epoch'', PInt (ms_epoch s)),
       (PStr ''cursor'', PInt (ms_cursor s)), (PStr ''B_g'', PInt (ms_global_batch s)),
       (PStr ''sampler_checksum'', PInt (ms_sampler_checksum s)),
       (PStr ''delivered_bitmap'', PBytes (ms_delivered_bitmap s)),
       (PStr ''fingerprint'', PDict fingerprint), (PStr ''batch_shape'', ms_batch_shape s)])
      (fp_to_dict rf (ms_fingerprint s))"

definition byte_string :: "payload \<Rightarrow> string \<Rightarrow> int list res" where
  "byte_string payload key =
    (case pget payload key of
       None \<Rightarrow> Inr []
     | Some (PBytes b) \<Rightarrow> Inr b
     | _ \<Rightarrow> Inl (TypeError (''loader state '' @ key @ '' must be bytes'')))"

definition map_integer :: "payload \<Rightarrow> string \<Rightarrow> int option \<Rightarrow> int res" where
  "map_integer = checked_integer ''loader state ''"

definition map_from_dict :: "(rat \<Rightarrow> string) \<Rightarrow> pyval \<Rightarrow> map_state res" where
  "map_from_dict rf payload =
    (case as_dict payload of
       None \<Rightarrow> Inl (TypeError ''loader state must be a dictionary'')
     | Some d \<Rightarrow>
         (case as_dict (get_or_none d ''fingerprint'') of
            None \<Rightarrow> Inl (TypeError ''loader state fingerprint must be a dictionary'')
          | Some fingerprint_payload \<Rightarrow>
              rbind (map_integer d ''root_seed'' (Some MAX_U64)) (\<lambda>root_seed.
              rbind (map_integer d ''epoch'' None) (\<lambda>epoch.
              rbind (map_integer d ''cursor'' None) (\<lambda>cursor.
              rbind (map_integer d ''B_g'' None) (\<lambda>global_batch.
              rbind (map_integer d ''sampler_checksum'' (Some MAX_U64)) (\<lambda>checksum.
              rbind (byte_string d ''delivered_bitmap'') (\<lambda>delivered.
              rbind (fp_from_dict rf fingerprint_payload) (\<lambda>fingerprint.
                Inr \<lparr>ms_root_seed = root_seed, ms_epoch = epoch, ms_cursor = cursor,
                     ms_global_batch = global_batch, ms_sampler_checksum = checksum,
                     ms_delivered_bitmap = delivered, ms_fingerprint = fingerprint,
                     ms_batch_shape = get_or_none d ''batch_shape''\<rparr>)))))))))"

section \<open>The loader\<close>

text \<open>
  What capture and restore read and write of the loader and of its active iterator; the sizing
  record holds its batch size, placement and pool.
\<close>

record active_iterator =
  ai_complete :: bool
  ai_epoch :: int
  ai_delivered_batches :: int
  ai_sampler_checksum :: int
  ai_delivered_bitmap :: "int list"

record map_loader =
  ld_root_seed :: int
  ld_epoch_state :: epoch_state
  ld_cursor :: int
  ld_checksum :: int
  ld_bitmap :: "int list"
  ld_fingerprint :: contract_fingerprint
  ld_has_sampler :: bool
  ld_has_batch_sampler :: bool
  ld_delivery :: string
  ld_sizing :: sizing_loader
  ld_active :: "active_iterator option"

definition fingerprint_value :: "contract_fingerprint \<Rightarrow> string \<Rightarrow> pyval res" where
  "fingerprint_value f path =
    (case find (\<lambda>e. fe_path e = path) (cf_elements f) of
       Some e \<Rightarrow> Inr (fe_value e)
     | None \<Rightarrow> Inl (RuntimeError (''contract fingerprint is missing '' @ path)))"

fun int_of_value :: "pyval \<Rightarrow> int res" where
  \<comment> \<open>\<^verbatim>\<open>int(value)\<close>\<close>
  "int_of_value (PInt i) = Inr i"
| "int_of_value (PBool b) = Inr (if b then 1 else 0)"
| "int_of_value (PFloat r) = Inr (py_trunc r)"
| "int_of_value (PStr s) =
    (case parse_int s of None \<Rightarrow> Inl (ValueError ''invalid literal for int()'') | Some i \<Rightarrow> Inr i)"
| "int_of_value _ = Inl (TypeError ''int() argument must be a string or a real number'')"

definition capture_coordinate :: "map_loader \<Rightarrow> int \<times> int \<times> int \<times> int list" where
  "capture_coordinate l =
    (case ld_active l of
       None \<Rightarrow>
         if ld_cursor l \<noteq> 0 then (es_current (ld_epoch_state l), ld_cursor l, ld_checksum l, ld_bitmap l)
         else (es_current (ld_epoch_state l), 0, 0, [])
     | Some active \<Rightarrow>
         if ai_complete active then (es_current (ld_epoch_state l), 0, 0, [])
         else (ai_epoch active, ai_delivered_batches active,
               if ld_has_sampler l \<or> ld_has_batch_sampler l then ai_sampler_checksum active else 0,
               ai_delivered_bitmap active))"

definition capture_map_state :: "(rat \<Rightarrow> string) \<Rightarrow> map_loader \<Rightarrow> payload res" where
  "capture_map_state rf l =
    (case capture_coordinate l of (epoch, cursor, checksum, delivered) \<Rightarrow>
      rbind (rbind (fingerprint_value (ld_fingerprint l) ''placement.B_g'') int_of_value) (\<lambda>global_batch.
      rbind (fingerprint_value (ld_fingerprint l) ''batch_shape'') (\<lambda>shape.
        map_to_dict rf
          \<lparr>ms_root_seed = ld_root_seed l, ms_epoch = epoch, ms_cursor = cursor,
           ms_global_batch = global_batch, ms_sampler_checksum = checksum,
           ms_delivered_bitmap = delivered, ms_fingerprint = ld_fingerprint l, ms_batch_shape = shape\<rparr>)))"

definition close_loader :: "map_loader \<Rightarrow> map_loader" where
  "close_loader l =
    l\<lparr>ld_active := None, ld_sizing := (ld_sizing l)\<lparr>sz_sampler_length := None, sz_pool := None\<rparr>\<rparr>"

definition loader_width :: "map_loader \<Rightarrow> int" where
  \<comment> \<open>\<^verbatim>\<open>loader.batch_size or 1\<close>\<close>
  "loader_width l = (case sz_batch_size (ld_sizing l) of None \<Rightarrow> 1 | Some b \<Rightarrow> if b = 0 then 1 else b)"

definition placement_world_size :: "map_loader \<Rightarrow> int res" where
  "placement_world_size l =
    (case sz_placement (ld_sizing l) of
       None \<Rightarrow> Inl (AttributeError ''world_size'')
     | Some p \<Rightarrow> Inr (mp_world_size p))"

definition check_elastic :: "map_loader \<Rightarrow> int \<Rightarrow> unit res" where
  "check_elastic l recorded =
    (if recorded = 0 \<or> ld_has_sampler l \<or> ld_has_batch_sampler l then Inr ()
     else rbind (placement_world_size l) (\<lambda>w.
       validate_elastic_restore recorded (ld_has_sampler l) (ld_has_batch_sampler l) w
         (sz_batch_size (ld_sizing l))))"

definition restore_map_state :: "(rat \<Rightarrow> string) \<Rightarrow> map_loader \<Rightarrow> pyval \<Rightarrow> map_loader res" where
  "restore_map_state rf l payload =
    rbind (map_from_dict rf payload) (\<lambda>state.
    rbind (check_elastic l (ms_global_batch state)) (\<lambda>_.
    rbind (require_fingerprint_match rf (ms_fingerprint state) (ld_fingerprint l)) (\<lambda>_.
    rbind (rbind (fingerprint_value (ld_fingerprint l) ''placement.B_g'') int_of_value) (\<lambda>current_batch.
      if ms_global_batch state \<noteq> current_batch
      then Inl (ValueError ''loader state B_g does not match the current placement.B_g fingerprint'')
      else
    rbind (fingerprint_value (ld_fingerprint l) ''batch_shape'') (\<lambda>current_shape.
      if \<not> py_eq (ms_batch_shape state) current_shape
      then Inl (ValueError ''loader state batch_shape does not match the current fingerprint'')
      else if \<not> ld_has_sampler l \<and> \<not> ld_has_batch_sampler l \<and> ms_sampler_checksum state \<noteq> 0
      then Inl (ValueError ''native sampler state requires sampler_checksum=0'')
      else if ld_delivery l = ''in-order'' \<and> ms_delivered_bitmap state \<noteq> []
      then Inl (ValueError ''in-order loader state requires an empty delivered_bitmap'')
      else
    rbind (if ld_delivery l = ''on-completion'' \<and> ms_delivered_bitmap state \<noteq> []
           then rbind (delivery_length (ld_sizing l)) (\<lambda>n.
             rmap (\<lambda>_. ()) (decode_delivered_bitmap (ms_cursor state) (ms_delivered_bitmap state)
               ((n + loader_width l - 1) div loader_width l)))
           else Inr ()) (\<lambda>_.
    rbind (restore_epoch (Integer_epoch (ms_epoch state)) (ld_epoch_state l)) (\<lambda>epochs.
      Inr ((close_loader l)\<lparr>ld_root_seed := ms_root_seed state, ld_epoch_state := epochs,
            ld_cursor := ms_cursor state, ld_checksum := ms_sampler_checksum state,
            ld_bitmap := ms_delivered_bitmap state\<rparr>))))))))"

definition resume_sample_position :: "map_loader \<Rightarrow> int \<Rightarrow> int res" where
  "resume_sample_position l n =
    (let batches = (n + loader_width l - 1) div loader_width l in
     if batches < ld_cursor l
     then Inl (ValueError ''loader state cursor exceeds the delivered batches'')
     else Inr (min n (ld_cursor l * loader_width l)))"

section \<open>The codec\<close>

definition map_state_valid :: "(rat \<Rightarrow> string) \<Rightarrow> map_state \<Rightarrow> bool" where
  "map_state_valid rf s \<longleftrightarrow>
     0 \<le> ms_root_seed s \<and> ms_root_seed s \<le> MAX_U64 \<and> 0 \<le> ms_epoch s \<and> 0 \<le> ms_cursor s \<and>
     0 \<le> ms_global_batch s \<and> 0 \<le> ms_sampler_checksum s \<and> ms_sampler_checksum s \<le> MAX_U64 \<and>
     fp_valid rf (ms_fingerprint s)"

definition map_encode :: "(rat \<Rightarrow> string) \<Rightarrow> map_state \<Rightarrow> payload" where
  "map_encode rf s = (case map_to_dict rf s of Inl _ \<Rightarrow> [] | Inr d \<Rightarrow> d)"

lemma map_to_dict_encode: "map_state_valid rf s \<Longrightarrow> map_to_dict rf s = Inr (map_encode rf s)"
  by (simp add: map_encode_def map_to_dict_def map_state_valid_def fp_to_dict_encode)

lemma map_decode_encode:
  assumes "map_state_valid rf s"
  shows "map_from_dict rf (PDict (map_encode rf s)) = Inr s"
proof -
  have "fp_from_dict rf (fp_encode rf (ms_fingerprint s)) = Inr (ms_fingerprint s)"
    using assms by (intro fp_from_encode) (simp add: map_state_valid_def)
  with assms show ?thesis
    by (simp add: map_encode_def map_to_dict_def map_state_valid_def fp_to_dict_encode map_from_dict_def
        map_integer_def checked_integer_def byte_string_def get_or_none_def)
qed

lemma map_decode_valid: "map_from_dict rf p = Inr s \<Longrightarrow> map_state_valid rf s"
  by (auto simp: map_from_dict_def rbind_eq_Inr map_integer_def checked_integer_iff map_state_valid_def
      dest: fp_from_dict_valid split: option.splits)

interpretation msc: checkpoint_codec "map_encode rf" "map_from_dict rf" "map_state_valid rf"
  by unfold_locales (simp_all add: map_decode_encode map_decode_valid)

section \<open>Capture and restore\<close>

text \<open>
  A loader whose contract can be checkpointed: its fingerprint is well formed and names a
  nonnegative global batch and a batch shape.
\<close>

definition contract_ok :: "(rat \<Rightarrow> string) \<Rightarrow> map_loader \<Rightarrow> int \<Rightarrow> bool" where
  "contract_ok rf l g \<longleftrightarrow>
     fp_valid rf (ld_fingerprint l) \<and> 0 \<le> g \<and>
     fingerprint_value (ld_fingerprint l) ''placement.B_g'' = Inr (PInt g) \<and>
     (\<exists>v. fingerprint_value (ld_fingerprint l) ''batch_shape'' = Inr v)"

text \<open>The coordinate is in the range a checkpoint can carry.\<close>

definition coordinate_ok :: "map_loader \<Rightarrow> bool" where
  "coordinate_ok l \<longleftrightarrow>
     (case capture_coordinate l of (epoch, cursor, checksum, delivered) \<Rightarrow>
        0 \<le> epoch \<and> 0 \<le> cursor \<and> 0 \<le> checksum \<and> checksum \<le> MAX_U64) \<and>
     0 \<le> ld_root_seed l \<and> ld_root_seed l \<le> MAX_U64"

lemma capture_map_state_ok:
  assumes "contract_ok rf l g" "coordinate_ok l" "capture_coordinate l = (epoch, cursor, checksum, delivered)"
  obtains s where "capture_map_state rf l = Inr (map_encode rf s)" "map_state_valid rf s"
    "ms_root_seed s = ld_root_seed l" "ms_epoch s = epoch" "ms_cursor s = cursor"
    "ms_sampler_checksum s = checksum" "ms_delivered_bitmap s = delivered" "ms_global_batch s = g"
    "ms_fingerprint s = ld_fingerprint l" "fingerprint_value (ld_fingerprint l) ''batch_shape'' = Inr (ms_batch_shape s)"
proof -
  from assms(1) obtain v where v: "fingerprint_value (ld_fingerprint l) ''batch_shape'' = Inr v"
    by (auto simp: contract_ok_def)
  let ?s = "\<lparr>ms_root_seed = ld_root_seed l, ms_epoch = epoch, ms_cursor = cursor, ms_global_batch = g,
      ms_sampler_checksum = checksum, ms_delivered_bitmap = delivered, ms_fingerprint = ld_fingerprint l,
      ms_batch_shape = v\<rparr>"
  have valid: "map_state_valid rf ?s"
    using assms by (simp add: map_state_valid_def contract_ok_def coordinate_ok_def)
  moreover have "capture_map_state rf l = Inr (map_encode rf ?s)"
    using assms v map_to_dict_encode [OF valid] by (simp add: capture_map_state_def contract_ok_def)
  ultimately show thesis using v by (intro that [of ?s]) simp_all
qed

text \<open>
  What a restoring loader must agree on: the contract, an elastic placement of the global batch,
  and a bitmap only if it delivers on completion and the bitmap fits its batches.
\<close>

definition bitmap_fits :: "map_loader \<Rightarrow> int \<Rightarrow> int list \<Rightarrow> bool" where
  "bitmap_fits l cursor bits \<longleftrightarrow>
     bits = [] \<or>
     ld_delivery l = ''on-completion'' \<and>
     (\<exists>n s. delivery_length (ld_sizing l) = Inr n \<and> delivered_ok s \<and> db_base s = cursor \<and> bitmap s = bits \<and>
        cursor \<le> (n + loader_width l - 1) div loader_width l \<and>
        (\<forall>x. x |\<in>| db_ahead s \<longrightarrow> x < (n + loader_width l - 1) div loader_width l))"

lemma fp_match_refl: "require_fingerprint_match rf f f = Inr ()"
  by (simp add: require_match_iff)

lemma restored_accepts:
  assumes src: "contract_ok rf l g" "coordinate_ok l"
    and coordinate: "capture_coordinate l = (epoch, cursor, checksum, delivered)"
    and captured: "capture_map_state rf l = Inr p"
    and tgt: "ld_fingerprint m = ld_fingerprint l" "check_elastic m g = Inr ()"
      "bitmap_fits m cursor delivered"
      "checksum = 0 \<or> ld_has_sampler m \<or> ld_has_batch_sampler m"
  shows "\<exists>r. restore_map_state rf m (PDict p) = Inr r \<and> ld_root_seed r = ld_root_seed l \<and>
    es_current (ld_epoch_state r) = epoch \<and> es_pending_override (ld_epoch_state r) = Some Override_resume \<and>
    ld_cursor r = cursor \<and> ld_checksum r = checksum \<and> ld_bitmap r = delivered \<and> ld_active r = None"
proof -
  obtain s where s: "capture_map_state rf l = Inr (map_encode rf s)" "map_state_valid rf s"
    "ms_root_seed s = ld_root_seed l" "ms_epoch s = epoch" "ms_cursor s = cursor"
    "ms_sampler_checksum s = checksum" "ms_delivered_bitmap s = delivered" "ms_global_batch s = g"
    "ms_fingerprint s = ld_fingerprint l"
    "fingerprint_value (ld_fingerprint l) ''batch_shape'' = Inr (ms_batch_shape s)"
    using capture_map_state_ok [OF src coordinate] by metis
  have p: "map_from_dict rf (PDict p) = Inr s" using s(1,2) captured map_decode_encode by simp
  have g: "fingerprint_value (ld_fingerprint l) ''placement.B_g'' = Inr (PInt g)"
    using src by (simp add: contract_ok_def)
  let ?n = "\<lambda>n. (n + loader_width m - 1) div loader_width m"
  have bits: "(if ld_delivery m = ''on-completion'' \<and> delivered \<noteq> []
      then rbind (delivery_length (ld_sizing m)) (\<lambda>n. rmap (\<lambda>_. ()) (decode_delivered_bitmap cursor delivered (?n n)))
      else Inr ()) = Inr ()"
  proof (cases "delivered = []")
    case False
    with tgt(3) obtain n d where "delivery_length (ld_sizing m) = Inr n" "delivered_ok d" "db_base d = cursor"
      "bitmap d = delivered" "cursor \<le> ?n n" "\<forall>x. x |\<in>| db_ahead d \<longrightarrow> x < ?n n"
      by (auto simp: bitmap_fits_def)
    with bitmap_decodes [of d "?n n"] show ?thesis by simp
  qed simp
  have "0 \<le> epoch" using s(2,4) by (simp add: map_state_valid_def)
  moreover have "ld_delivery m = ''in-order'' \<longrightarrow> delivered = []" using tgt(3) by (auto simp: bitmap_fits_def)
  ultimately show ?thesis
    using s p g tgt bits
    by (auto simp: restore_map_state_def fp_match_refl restore_epoch_def close_loader_def)
qed

text \<open>
  C29: A checkpoint restores the coordinate it captured: a loader with the same contract accepts
  it, and then starts at the captured epoch, cursor, checksum and bitmap, under the captured root
  seed and with no iterator left active.
\<close>

theorem restore_captured:
  assumes "contract_ok rf l g" "coordinate_ok l"
    and "capture_coordinate l = (epoch, cursor, checksum, delivered)"
    and "capture_map_state rf l = Inr p"
    and "ld_fingerprint m = ld_fingerprint l" "check_elastic m g = Inr ()"
      "bitmap_fits m cursor delivered"
      "checksum = 0 \<or> ld_has_sampler m \<or> ld_has_batch_sampler m"
  shows "\<exists>r. restore_map_state rf m (PDict p) = Inr r \<and> ld_root_seed r = ld_root_seed l \<and>
    es_current (ld_epoch_state r) = epoch \<and> es_pending_override (ld_epoch_state r) = Some Override_resume \<and>
    ld_cursor r = cursor \<and> ld_checksum r = checksum \<and> ld_bitmap r = delivered \<and> ld_active r = None"
  using assms by (rule restored_accepts)

text \<open>
  What a restored loader gives when it is checkpointed before its first iterator: the coordinate
  it restored, except that a coordinate with cursor zero loses its bitmap and its checksum.
\<close>

lemma restored_coordinate:
  assumes "restore_map_state rf l p = Inr r" "map_from_dict rf p = Inr s"
  shows "capture_coordinate r =
    (if ms_cursor s \<noteq> 0 then (ms_epoch s, ms_cursor s, ms_sampler_checksum s, ms_delivered_bitmap s)
     else (ms_epoch s, 0, 0, []))"
  using assms
  by (auto simp: restore_map_state_def rbind_eq_Inr capture_coordinate_def close_loader_def restore_epoch_def
      split: if_splits)

text \<open>
  A checkpoint of a restored loader, taken before it iterates, is the checkpoint it restored
  when the cursor is not zero.  With cursor zero the delivered bitmap is dropped, so batches that
  were delivered ahead of the first gap would be delivered again.
\<close>

theorem recapture_restored:
  assumes restored: "restore_map_state rf l (PDict p) = Inr r" and s: "map_from_dict rf (PDict p) = Inr s"
    and contract: "contract_ok rf l g"
  shows "\<exists>q t. capture_map_state rf r = Inr q \<and> map_from_dict rf (PDict q) = Inr t \<and>
    ms_root_seed t = ms_root_seed s \<and> ms_epoch t = ms_epoch s \<and> ms_cursor t = ms_cursor s \<and>
    ms_delivered_bitmap t = (if ms_cursor s = 0 then [] else ms_delivered_bitmap s)"
proof -
  have r: "ld_fingerprint r = ld_fingerprint l" "ld_root_seed r = ms_root_seed s"
    using restored s by (auto simp: restore_map_state_def rbind_eq_Inr close_loader_def split: if_splits)
  then have contract: "contract_ok rf r g" using contract by (simp add: contract_ok_def)
  have valid: "map_state_valid rf s" by (rule map_decode_valid [OF s])
  let ?c = "if ms_cursor s \<noteq> 0 then (ms_epoch s, ms_cursor s, ms_sampler_checksum s, ms_delivered_bitmap s)
     else (ms_epoch s, 0, 0, [])"
  have c: "capture_coordinate r = ?c" by (rule restored_coordinate [OF restored s])
  have ok: "coordinate_ok r"
    using valid c r by (simp add: coordinate_ok_def map_state_valid_def MAX_U64_def)
  obtain e k x d where ekxd: "?c = (e, k, x, d)" by (metis prod_cases4)
  with c have c': "capture_coordinate r = (e, k, x, d)" by simp
  obtain t where t: "capture_map_state rf r = Inr (map_encode rf t)" "map_state_valid rf t"
    "ms_root_seed t = ld_root_seed r" "ms_epoch t = e" "ms_cursor t = k" "ms_delivered_bitmap t = d"
    using capture_map_state_ok [OF contract ok c'] by metis
  have u: "map_from_dict rf (PDict (map_encode rf t)) = Inr t" by (rule map_decode_encode [OF t(2)])
  have "e = ms_epoch s \<and> k = ms_cursor s \<and> d = (if ms_cursor s = 0 then [] else ms_delivered_bitmap s)"
    using ekxd by (auto split: if_splits)
  with t r u show ?thesis
    by (intro exI [of _ "map_encode rf t"] exI [of _ t] conjI) simp_all
qed

text \<open>A loader that delivered batch 1 ahead of batch 0, on completion.\<close>

definition sample_fingerprint :: contract_fingerprint where
  "sample_fingerprint = \<lparr>cf_elements =
     [\<lparr>fe_path = ''placement.B_g'', fe_value = PInt 8\<rparr>, \<lparr>fe_path = ''batch_shape'', fe_value = PNone\<rparr>]\<rparr>"

definition sample_loader :: map_loader where
  "sample_loader =
    \<lparr>ld_root_seed = 1701, ld_epoch_state = new_epoch_state, ld_cursor = 0, ld_checksum = 0, ld_bitmap = [],
     ld_fingerprint = sample_fingerprint, ld_has_sampler = False, ld_has_batch_sampler = False,
     ld_delivery = ''on-completion'',
     ld_sizing = sample_sizing\<lparr>sz_placement := Some (sample_placement\<lparr>mp_enabled := False, mp_world_size := 1\<rparr>)\<rparr>,
     ld_active = Some \<lparr>ai_complete = False, ai_epoch = 4, ai_delivered_batches = 0,
        ai_sampler_checksum = 0, ai_delivered_bitmap = [2]\<rparr>\<rparr>"

lemma sample_loader_ok:
  "contract_ok (\<lambda>_. '''') sample_loader 8" "coordinate_ok sample_loader"
  "capture_coordinate sample_loader = (4, 0, 0, [2])" "check_elastic sample_loader 8 = Inr ()"
  "bitmap_fits sample_loader 0 [2]"
proof -
  show "contract_ok (\<lambda>_. '''') sample_loader 8"
    by (simp add: contract_ok_def sample_loader_def sample_fingerprint_def fp_valid_def make_fingerprint_def
        canonical_bytes_def element_payload_def sort_items_def fingerprint_value_def)
  show c: "capture_coordinate sample_loader = (4, 0, 0, [2])"
    by (simp add: capture_coordinate_def sample_loader_def)
  then show "coordinate_ok sample_loader"
    by (simp add: coordinate_ok_def sample_loader_def MAX_U64_def)
  show "check_elastic sample_loader 8 = Inr ()"
    by (simp add: check_elastic_def sample_loader_def placement_world_size_def validate_elastic_restore_def
        sample_sizing_def py_divmod_def)
  have "delivery_length (ld_sizing sample_loader) = Inr 1000" "loader_width sample_loader = 8"
    by (simp_all add: sample_loader_def sample_sizing_def delivery_length_def loader_width_def)
  moreover have "bitmap \<lparr>db_base = 0, db_ahead = {|1|}\<rparr> = [2]" by code_simp
  ultimately show "bitmap_fits sample_loader 0 [2]"
    unfolding bitmap_fits_def
    by (intro disjI2 conjI exI [of _ 1000] exI [of _ "\<lparr>db_base = 0, db_ahead = {|1|}\<rparr>"])
      (simp_all add: sample_loader_def delivered_ok_def)
qed

lemma sample_captured: "\<exists>p s. capture_map_state (\<lambda>_. '''') sample_loader = Inr p \<and>
    map_from_dict (\<lambda>_. '''') (PDict p) = Inr s \<and> ms_cursor s = 0 \<and> ms_delivered_bitmap s = [2]"
proof -
  obtain s where "capture_map_state (\<lambda>_. '''') sample_loader = Inr (map_encode (\<lambda>_. '''') s)"
    "map_state_valid (\<lambda>_. '''') s" "ms_cursor s = 0" "ms_delivered_bitmap s = [2]"
    using capture_map_state_ok [OF sample_loader_ok(1-3)] by metis
  with map_decode_encode show ?thesis by blast
qed

theorem restore_captured_witness:
  "\<exists>p r. capture_map_state (\<lambda>_. '''') sample_loader = Inr p \<and>
     restore_map_state (\<lambda>_. '''') sample_loader (PDict p) = Inr r \<and>
     es_current (ld_epoch_state r) = 4 \<and> ld_bitmap r = [2]"
proof -
  obtain p where p: "capture_map_state (\<lambda>_. '''') sample_loader = Inr p" using sample_captured by blast
  from restore_captured [OF sample_loader_ok(1-3) p refl sample_loader_ok(4,5)] p show ?thesis by auto
qed

lemma sample_restored: "\<exists>p r s. capture_map_state (\<lambda>_. '''') sample_loader = Inr p \<and>
    restore_map_state (\<lambda>_. '''') sample_loader (PDict p) = Inr r \<and>
    map_from_dict (\<lambda>_. '''') (PDict p) = Inr s \<and> ms_cursor s = 0 \<and> ms_delivered_bitmap s = [2]"
proof -
  obtain p s where ps: "capture_map_state (\<lambda>_. '''') sample_loader = Inr p"
    "map_from_dict (\<lambda>_. '''') (PDict p) = Inr s" "ms_cursor s = 0" "ms_delivered_bitmap s = [2]"
    using sample_captured by blast
  with restored_accepts [OF sample_loader_ok(1-3) ps(1) refl sample_loader_ok(4,5)] show ?thesis by auto
qed

theorem recapture_restored_witness:
  "\<exists>p r q t. capture_map_state (\<lambda>_. '''') sample_loader = Inr p \<and>
     restore_map_state (\<lambda>_. '''') sample_loader (PDict p) = Inr r \<and>
     capture_map_state (\<lambda>_. '''') r = Inr q \<and> map_from_dict (\<lambda>_. '''') (PDict q) = Inr t \<and>
     ms_delivered_bitmap t = []"
proof -
  obtain p r s where *: "capture_map_state (\<lambda>_. '''') sample_loader = Inr p"
    "restore_map_state (\<lambda>_. '''') sample_loader (PDict p) = Inr r"
    "map_from_dict (\<lambda>_. '''') (PDict p) = Inr s" "ms_cursor s = 0" "ms_delivered_bitmap s = [2]"
    using sample_restored by blast
  from recapture_restored [OF *(2,3) sample_loader_ok(1)] * show ?thesis by auto
qed

end
