(* ===== verification/Transport.thy ===== *)
theory Transport
  imports Collections "HOL-Library.Multiset"
begin

text \<open>
  The transport between the owner and its workers without the native engine: bounded queues and one
  shared arena (\<^verbatim>\<open>fallback/transport/owner.py\<close>, \<^verbatim>\<open>worker.py\<close>, \<^verbatim>\<open>command.py\<close>).  A channel is the
  list of its messages, the arena a map from byte offsets.  The step relation interleaves the
  owner's and the workers' operations; along every run each slot is free or pending, never both,
  and the arena carries each payload unharmed, so the transport refines a queue of results per worker.
\<close>

section \<open>State\<close>

record worker_command =
  wc_position :: int
  wc_epoch :: int
  wc_index :: int
  wc_stage_plan :: int
  wc_worker :: int
  wc_batch_len :: int
  wc_slot :: int

text \<open>A completion message: position, status, length, cost and slot.\<close>

type_synonym completion = "int \<times> int \<times> int \<times> int \<times> int"

record transport =
  tr_worker_count :: int
  tr_queue_capacity :: int
  tr_payload_capacity :: int
  tr_exception_capacity :: int
  tr_dispatch :: "int \<Rightarrow> worker_command list"
  tr_completion :: "int \<Rightarrow> completion list"
  tr_free :: "int \<Rightarrow> int list"
  tr_pending :: "(int \<times> int, int) dict"
  tr_arena :: "int \<Rightarrow> int"
  tr_closed :: bool

definition new_transport :: "int \<Rightarrow> int \<Rightarrow> int \<Rightarrow> int \<Rightarrow> transport res" where
  "new_transport worker_count queue_capacity payload_capacity exception_capacity =
    (if \<not> (1 \<le> worker_count \<and> worker_count \<le> 1022)
     then Inl (ValueError ''worker_count must be between 1 and 1022'')
     else if queue_capacity \<le> 0 then Inl (ValueError ''queue capacity must be positive'')
     else if payload_capacity \<le> 0 \<or> exception_capacity \<le> 0
     then Inl (ValueError ''payload and exception capacities must be positive'')
     else Inr \<lparr>tr_worker_count = worker_count, tr_queue_capacity = queue_capacity,
               tr_payload_capacity = payload_capacity, tr_exception_capacity = exception_capacity,
               tr_dispatch = (\<lambda>_. []), tr_completion = (\<lambda>_. []), tr_free = (\<lambda>_. irange 0 queue_capacity),
               tr_pending = [], tr_arena = (\<lambda>_. 0), tr_closed = False\<rparr>)"

definition validate_worker :: "int \<Rightarrow> transport \<Rightarrow> unit res" where
  "validate_worker worker t =
    (if \<not> (0 \<le> worker \<and> worker < tr_worker_count t) then Inl (ValueError ''worker is out of range'') else Inr ())"

section \<open>The arena\<close>

definition slot_stride :: "transport \<Rightarrow> int" where
  "slot_stride t = tr_payload_capacity t + tr_exception_capacity t"

definition arena_offset :: "transport \<Rightarrow> int \<Rightarrow> int \<Rightarrow> bool \<Rightarrow> int" where
  "arena_offset t worker slot exception =
    (worker * tr_queue_capacity t + slot) * slot_stride t + (if exception then tr_payload_capacity t else 0)"

definition slot_capacity :: "transport \<Rightarrow> bool \<Rightarrow> int" where
  "slot_capacity t exception = (if exception then tr_exception_capacity t else tr_payload_capacity t)"

definition put_bytes :: "int \<Rightarrow> int list \<Rightarrow> (int \<Rightarrow> int) \<Rightarrow> int \<Rightarrow> int" where
  "put_bytes offset data arena =
    (\<lambda>i. if offset \<le> i \<and> i < offset + int (length data) then data ! nat (i - offset) else arena i)"

definition get_bytes :: "int \<Rightarrow> int \<Rightarrow> (int \<Rightarrow> int) \<Rightarrow> int list" where
  "get_bytes offset n arena = map arena (irange offset (offset + n))"

definition arena_write :: "int \<Rightarrow> int \<Rightarrow> int list \<Rightarrow> bool \<Rightarrow> transport \<Rightarrow> transport res" where
  "arena_write worker slot payload exception t =
    (if slot_capacity t exception < int (length payload)
     then Inl (ValueError ''payload exceeds its fallback arena slot'')
     else Inr (t\<lparr>tr_arena := put_bytes (arena_offset t worker slot exception) payload (tr_arena t)\<rparr>))"

definition arena_read :: "int \<Rightarrow> int \<Rightarrow> bool \<Rightarrow> int \<Rightarrow> transport \<Rightarrow> int list res" where
  "arena_read worker slot exception n t =
    (if \<not> (0 \<le> n \<and> n \<le> slot_capacity t exception)
     then Inl (RuntimeError ''completion length exceeds its fallback arena slot'')
     else Inr (get_bytes (arena_offset t worker slot exception) n (tr_arena t)))"

section \<open>The owner's operations\<close>

text \<open>
  \<open>_submit\<close>: \<open>broken\<close> says that the send into the dispatch pipe fails.
\<close>

definition transport_submit :: "bool \<Rightarrow> worker_command \<Rightarrow> int list option \<Rightarrow> transport \<Rightarrow> transport \<times> bool res" where
  "transport_submit broken c payload t =
    (if tr_closed t then (t, Inl (RuntimeError ''process resources are closed''))
     else let worker = wc_worker c; key = (worker, wc_position c) in
     case validate_worker worker t of
       Inl e \<Rightarrow> (t, Inl e)
     | Inr _ \<Rightarrow>
         if key \<in> dict_keys (tr_pending t) then (t, Inl (ValueError ''worker already has this position pending''))
         else
           (case tr_free t worker of
              [] \<Rightarrow> (t, Inr False)
            | slot # rest \<Rightarrow>
                let taken = t\<lparr>tr_free := (tr_free t)(worker := rest)\<rparr> in
                (case (case payload of None \<Rightarrow> Inr taken | Some p \<Rightarrow> arena_write worker slot p False taken) of
                   Inl e \<Rightarrow> (taken, Inl e)
                 | Inr u \<Rightarrow>
                     if broken then (u\<lparr>tr_free := (tr_free u)(worker := slot # rest)\<rparr>, Inr False)
                     else
                       (u\<lparr>tr_dispatch := (tr_dispatch u)(worker := tr_dispatch u worker @ [c\<lparr>wc_slot := slot\<rparr>]),
                          tr_pending := dict_set key slot (tr_pending u)\<rparr>, Inr True))))"

definition try_submit_sample ::
    "bool \<Rightarrow> int \<Rightarrow> int \<Rightarrow> int \<Rightarrow> int \<Rightarrow> int \<Rightarrow> int \<Rightarrow> transport \<Rightarrow> transport \<times> bool res" where
  "try_submit_sample broken epoch position index stage_plan worker batch_len t =
    transport_submit broken
      \<lparr>wc_position = position, wc_epoch = epoch, wc_index = index, wc_stage_plan = stage_plan, wc_worker = worker,
       wc_batch_len = batch_len, wc_slot = -1\<rparr> None t"

definition try_submit_command :: "bool \<Rightarrow> int \<Rightarrow> int \<Rightarrow> int \<Rightarrow> int list \<Rightarrow> transport \<Rightarrow> transport \<times> bool res" where
  "try_submit_command broken position stage_plan worker payload t =
    (if payload = [] then (t, Inl (ValueError ''command payload must not be empty''))
     else if tr_payload_capacity t < int (length payload)
     then (t, Inl (ValueError ''command payload exceeds its capacity''))
     else transport_submit broken
       \<lparr>wc_position = position, wc_epoch = 0, wc_index = int (length payload), wc_stage_plan = stage_plan,
        wc_worker = worker, wc_batch_len = 0, wc_slot = -1\<rparr> (Some payload) t)"

definition transport_receive :: "int \<Rightarrow> transport \<Rightarrow> transport \<times> (int \<times> int \<times> int list \<times> int) option res" where
  "transport_receive worker t =
    (case validate_worker worker t of
       Inl e \<Rightarrow> (t, Inl e)
     | Inr _ \<Rightarrow>
         (case tr_completion t worker of
            [] \<Rightarrow> (t, Inr None)
          | (position, status, produced, cost_ns, slot) # rest \<Rightarrow>
              let expected = dict_get (tr_pending t) (worker, position);
                  t = t\<lparr>tr_completion := (tr_completion t)(worker := rest),
                        tr_pending := dict_del (worker, position) (tr_pending t)\<rparr>
              in if expected \<noteq> Some slot
                 then (t, Inl (RuntimeError ''worker completed an unknown command coordinate''))
                 else
                   (t\<lparr>tr_free := (tr_free t)(worker := tr_free t worker @ [slot])\<rparr>,
                    rmap (\<lambda>payload. Some (position, status, payload, cost_ns))
                      (arena_read worker slot (status = 1) produced t))))"

fun reclaim_positions :: "int \<Rightarrow> int list \<Rightarrow> transport \<Rightarrow> transport" where
  "reclaim_positions worker [] t = t"
| "reclaim_positions worker (position # positions) t =
    (case dict_get (tr_pending t) (worker, position) of
       None \<Rightarrow> t
     | Some slot \<Rightarrow>
         let t = t\<lparr>tr_pending := dict_del (worker, position) (tr_pending t)\<rparr>;
             t = (if slot \<in> set (tr_free t worker) then t
                  else t\<lparr>tr_free := (tr_free t)(worker := tr_free t worker @ [slot])\<rparr>)
         in reclaim_positions worker positions t)"

definition pending_positions :: "int \<Rightarrow> transport \<Rightarrow> int list" where
  "pending_positions worker t = sort (map (snd \<circ> fst) (filter (\<lambda>e. fst (fst e) = worker) (tr_pending t)))"

definition replace_channels :: "int \<Rightarrow> transport \<Rightarrow> transport" where
  "replace_channels worker t =
    t\<lparr>tr_dispatch := (tr_dispatch t)(worker := []), tr_completion := (tr_completion t)(worker := [])\<rparr>"

definition reclaim_dead_worker :: "int \<Rightarrow> transport \<Rightarrow> transport \<times> int list res" where
  "reclaim_dead_worker worker t =
    (case validate_worker worker t of
       Inl e \<Rightarrow> (t, Inl e)
     | Inr _ \<Rightarrow>
         let positions = pending_positions worker t
         in (replace_channels worker (reclaim_positions worker positions t), Inr positions))"

definition close_transport :: "transport \<Rightarrow> transport" where
  "close_transport t = t\<lparr>tr_closed := True\<rparr>"

section \<open>The worker's operations\<close>

definition worker_receive :: "int \<Rightarrow> transport \<Rightarrow> transport \<times> worker_command option" where
  "worker_receive worker t =
    (case tr_dispatch t worker of
       [] \<Rightarrow> (t, None)
     | c # rest \<Rightarrow> (t\<lparr>tr_dispatch := (tr_dispatch t)(worker := rest)\<rparr>, Some c))"

definition read_command :: "worker_command \<Rightarrow> transport \<Rightarrow> int list res" where
  "read_command c t =
    (if \<not> (0 \<le> wc_index c \<and> wc_index c \<le> tr_payload_capacity t)
     then Inl (ValueError ''command length exceeds its fallback arena slot'')
     else Inr (get_bytes (arena_offset t (wc_worker c) (wc_slot c) False) (wc_index c) (tr_arena t)))"

definition write_batch_row :: "worker_command \<Rightarrow> int \<Rightarrow> int list \<Rightarrow> transport \<Rightarrow> transport res" where
  "write_batch_row c row_offset data t =
    (if row_offset < 0 \<or> tr_payload_capacity t < row_offset + int (length data)
     then Inl (ValueError ''batch row exceeds its fallback arena slot'')
     else Inr (t\<lparr>tr_arena :=
       put_bytes (arena_offset t (wc_worker c) (wc_slot c) False + row_offset) data (tr_arena t)\<rparr>))"

text \<open>\<open>broken\<close> says that the send into the completion pipe fails.\<close>

definition send_completion :: "bool \<Rightarrow> worker_command \<Rightarrow> int \<Rightarrow> int \<Rightarrow> int \<Rightarrow> transport \<Rightarrow> transport \<times> bool" where
  "send_completion broken c status produced cost_ns t =
    (if broken then (t, False)
     else (t\<lparr>tr_completion := (tr_completion t)(wc_worker c :=
             tr_completion t (wc_worker c) @ [(wc_position c, status, produced, cost_ns, wc_slot c)])\<rparr>, True))"

definition complete_payload ::
    "bool \<Rightarrow> bool \<Rightarrow> worker_command \<Rightarrow> int list \<Rightarrow> int \<Rightarrow> transport \<Rightarrow> transport \<times> bool res" where
  "complete_payload broken exception c payload cost_ns t =
    (case arena_write (wc_worker c) (wc_slot c) payload exception t of
       Inl e \<Rightarrow> (t, Inl e)
     | Inr t \<Rightarrow>
         (case send_completion broken c (if exception then 1 else 0) (int (length payload)) cost_ns t of
            (t, sent) \<Rightarrow> (t, Inr sent)))"

definition try_complete_ready :: "bool \<Rightarrow> worker_command \<Rightarrow> int list \<Rightarrow> int \<Rightarrow> transport \<Rightarrow> transport \<times> bool res" where
  "try_complete_ready broken = complete_payload broken False"

definition try_complete_exception :: "bool \<Rightarrow> worker_command \<Rightarrow> int list \<Rightarrow> int \<Rightarrow> transport \<Rightarrow> transport \<times> bool res" where
  "try_complete_exception broken = complete_payload broken True"

definition try_complete_batch :: "bool \<Rightarrow> worker_command \<Rightarrow> int \<Rightarrow> int \<Rightarrow> transport \<Rightarrow> transport \<times> bool res" where
  "try_complete_batch broken c produced_length cost_ns t =
    (if \<not> (0 \<le> produced_length \<and> produced_length \<le> tr_payload_capacity t)
     then (t, Inl (ValueError ''batch length exceeds its fallback arena slot''))
     else (case send_completion broken c 2 produced_length cost_ns t of (t, sent) \<Rightarrow> (t, Inr sent)))"

section \<open>Slots of the arena do not overlap\<close>

definition capacities_ok :: "transport \<Rightarrow> bool" where
  "capacities_ok t \<longleftrightarrow> 0 < tr_queue_capacity t \<and> 0 < tr_payload_capacity t \<and> 0 < tr_exception_capacity t"

lemma length_get_bytes [simp]: "0 \<le> n \<Longrightarrow> length (get_bytes offset n arena) = nat n"
  by (simp add: get_bytes_def)

lemma get_put_bytes: "get_bytes offset (int (length data)) (put_bytes offset data arena) = data"
proof (rule nth_equalityI)
  fix i assume "i < length (get_bytes offset (int (length data)) (put_bytes offset data arena))"
  then show "get_bytes offset (int (length data)) (put_bytes offset data arena) ! i = data ! i"
    by (simp add: get_bytes_def put_bytes_def irange_def)
qed simp

lemma get_put_apart:
  assumes "offset + int (length data) \<le> other \<or> other + n \<le> offset"
  shows "get_bytes other n (put_bytes offset data arena) = get_bytes other n arena"
  using assms by (auto simp: get_bytes_def put_bytes_def)

lemma arena_apart:
  assumes ok: "capacities_ok t"
    and slots: "0 \<le> s" "s < tr_queue_capacity t" "0 \<le> s'" "s' < tr_queue_capacity t"
    and other: "(w, s) \<noteq> (w', s')"
    and sizes: "int (length data) \<le> slot_capacity t e" "n \<le> slot_capacity t e'"
  shows "get_bytes (arena_offset t w' s' e') n (put_bytes (arena_offset t w s e) data arena) =
    get_bytes (arena_offset t w' s' e') n arena"
proof -
  let ?q = "tr_queue_capacity t" and ?k = "w * tr_queue_capacity t + s" and ?k' = "w' * tr_queue_capacity t + s'"
  let ?stride = "slot_stride t"
  have stride: "0 < ?stride" using ok by (simp add: slot_stride_def capacities_ok_def)
  have "?k \<noteq> ?k'"
  proof
    assume "?k = ?k'"
    then have "?k div ?q = ?k' div ?q" "?k mod ?q = ?k' mod ?q" by simp_all
    with slots other show False by simp
  qed
  then have "?k + 1 \<le> ?k' \<or> ?k' + 1 \<le> ?k" by linarith
  then have "?k * ?stride + ?stride \<le> ?k' * ?stride \<or> ?k' * ?stride + ?stride \<le> ?k * ?stride"
    using stride mult_right_mono [of "?k + 1" ?k' ?stride] mult_right_mono [of "?k' + 1" ?k ?stride]
    by (auto simp: distrib_right)
  with sizes ok show ?thesis
    by (intro get_put_apart) (auto simp: arena_offset_def slot_capacity_def slot_stride_def capacities_ok_def split: if_splits)
qed

section \<open>Runs\<close>

type_synonym result = "int \<times> int \<times> int list \<times> int"

datatype event =
    Submitted int int "int list option"
  | Taken int worker_command
  | Answered int result
  | Received int result
  | Reclaimed int "int list"

type_synonym system = "transport \<times> (int \<Rightarrow> worker_command option)"

text \<open>
  A worker runs one command at a time and answers it with an encoded value, an exception or rows
  written in place.
\<close>

inductive transport_step :: "system \<Rightarrow> event \<Rightarrow> system \<Rightarrow> bool" where
  submit: "(\<forall>p. payload = Some p \<longrightarrow> int (length p) \<le> tr_payload_capacity t) \<Longrightarrow>
    transport_submit False c payload t = (t', Inr True) \<Longrightarrow>
    transport_step (t, r) (Submitted (wc_worker c) (wc_position c) payload) (t', r)"
| take: "worker_receive w t = (t', Some c) \<Longrightarrow> r w = None \<Longrightarrow> transport_step (t, r) (Taken w c) (t', r(w := Some c))"
| answer: "r w = Some c \<Longrightarrow>
    (if exception then try_complete_exception else try_complete_ready) False c payload cost t = (t', Inr True) \<Longrightarrow>
    transport_step (t, r) (Answered w (wc_position c, if exception then 1 else 0, payload, cost)) (t', r(w := None))"
| rows: "r w = Some c \<Longrightarrow> write_batch_row c 0 data t = Inr u \<Longrightarrow>
    try_complete_batch False c (int (length data)) cost u = (t', Inr True) \<Longrightarrow>
    transport_step (t, r) (Answered w (wc_position c, 2, data, cost)) (t', r(w := None))"
| deliver: "transport_receive w t = (t', Inr (Some x)) \<Longrightarrow> transport_step (t, r) (Received w x) (t', r)"
| reclaim: "reclaim_dead_worker w t = (t', Inr positions) \<Longrightarrow> transport_step (t, r) (Reclaimed w positions) (t', r(w := None))"

text \<open>The specification: a queue of results per worker.\<close>

fun queue_step :: "(int \<Rightarrow> result list) \<Rightarrow> event \<Rightarrow> (int \<Rightarrow> result list) option" where
  "queue_step q (Answered w x) = Some (q(w := q w @ [x]))"
| "queue_step q (Received w x) = (case q w of [] \<Rightarrow> None | y # ys \<Rightarrow> if y = x then Some (q(w := ys)) else None)"
| "queue_step q (Reclaimed w _) = Some (q(w := []))"
| "queue_step q _ = Some q"

definition message_result :: "transport \<Rightarrow> int \<Rightarrow> completion \<Rightarrow> result" where
  "message_result t w m = (case m of (position, status, produced, cost, slot) \<Rightarrow>
    (position, status, get_bytes (arena_offset t w slot (status = 1)) produced (tr_arena t), cost))"

definition result_queues :: "transport \<Rightarrow> int \<Rightarrow> result list" where
  "result_queues t w = map (message_result t w) (tr_completion t w)"

text \<open>Where the commands of a worker are: dispatched, running or completed, each with its slot.\<close>

definition command_place :: "worker_command \<Rightarrow> int \<times> int" where
  "command_place c = (wc_position c, wc_slot c)"

definition message_place :: "completion \<Rightarrow> int \<times> int" where
  "message_place m = (case m of (position, _, _, _, slot) \<Rightarrow> (position, slot))"

definition places :: "system \<Rightarrow> int \<Rightarrow> (int \<times> int) list" where
  "places s w = (case s of (t, r) \<Rightarrow>
    map command_place (tr_dispatch t w) @ (case r w of None \<Rightarrow> [] | Some c \<Rightarrow> [command_place c]) @
    map message_place (tr_completion t w))"

text \<open>
  Each slot of a worker is either free or held by exactly one of its pending commands.
\<close>

definition slots_ok :: "int list \<Rightarrow> (int \<times> int) list \<Rightarrow> (int \<Rightarrow> int option) \<Rightarrow> int \<Rightarrow> bool" where
  "slots_ok free ps pend cap \<longleftrightarrow>
     distinct (map fst ps) \<and> (\<forall>p s. pend p = Some s \<longleftrightarrow> (p, s) \<in> set ps) \<and>
     distinct (free @ map snd ps) \<and> set free \<union> snd ` set ps = {0..<cap}"

definition message_fits :: "transport \<Rightarrow> completion \<Rightarrow> bool" where
  "message_fits t m = (case m of (_, status, produced, _, _) \<Rightarrow> 0 \<le> produced \<and> produced \<le> slot_capacity t (status = 1))"

definition worker_ok :: "system \<Rightarrow> int \<Rightarrow> bool" where
  "worker_ok s w \<longleftrightarrow> (case s of (t, r) \<Rightarrow>
     (\<forall>c \<in> set (tr_dispatch t w). wc_worker c = w) \<and> (\<forall>c. r w = Some c \<longrightarrow> wc_worker c = w) \<and>
     (\<forall>m \<in> set (tr_completion t w). message_fits t m) \<and>
     slots_ok (tr_free t w) (places s w) (\<lambda>p. dict_get (tr_pending t) (w, p)) (tr_queue_capacity t))"

definition transport_ok :: "system \<Rightarrow> bool" where
  "transport_ok s \<longleftrightarrow> capacities_ok (fst s) \<and> dict_ok (tr_pending (fst s)) \<and> (\<forall>w. worker_ok s w)"

inductive_cases transport_stepE: "transport_step s e s'"

lemma message_fits_simps [simp]:
  "message_fits (t\<lparr>tr_free := f\<rparr>) = message_fits t" "message_fits (t\<lparr>tr_arena := a\<rparr>) = message_fits t"
  "message_fits (t\<lparr>tr_dispatch := d\<rparr>) = message_fits t" "message_fits (t\<lparr>tr_completion := c\<rparr>) = message_fits t"
  "message_fits (t\<lparr>tr_pending := p\<rparr>) = message_fits t"
  by (simp_all add: message_fits_def slot_capacity_def fun_eq_iff)

lemma new_transport_ok:
  assumes "new_transport n q p x = Inr t"
  shows "transport_ok (t, \<lambda>_. None)"
  using assms
  by (auto simp: new_transport_def transport_ok_def capacities_ok_def worker_ok_def places_def slots_ok_def split: if_splits)

text \<open>A worker's condition depends on its own channels, slots and entries only.\<close>

lemma worker_ok_frame:
  assumes "worker_ok (t, r) v"
    and "tr_dispatch t' v = tr_dispatch t v" "tr_completion t' v = tr_completion t v" "tr_free t' v = tr_free t v" "r' v = r v"
    and "\<And>p. dict_get (tr_pending t') (v, p) = dict_get (tr_pending t) (v, p)"
    and "tr_queue_capacity t' = tr_queue_capacity t" "message_fits t' = message_fits t"
  shows "worker_ok (t', r') v"
  using assms by (simp add: worker_ok_def places_def)

lemma slots_mset:
  assumes "mset ps = mset qs"
  shows "slots_ok free ps pend cap = slots_ok free qs pend cap"
proof -
  have "mset (map fst ps) = mset (map fst qs)" "mset (free @ map snd ps) = mset (free @ map snd qs)"
    using assms by simp_all
  then have "distinct (map fst ps) = distinct (map fst qs)" "distinct (free @ map snd ps) = distinct (free @ map snd qs)"
    by (metis mset_eq_imp_distinct_iff)+
  moreover have "set ps = set qs" using assms by (rule mset_eq_setD)
  ultimately show ?thesis by (simp add: slots_ok_def)
qed

lemma slots_okI:
  assumes "distinct (map fst ps)" "\<And>p s. pend p = Some s \<longleftrightarrow> (p, s) \<in> set ps"
    "distinct free" "distinct (map snd ps)" "set free \<inter> snd ` set ps = {}" "set free \<union> snd ` set ps = {0..<cap}"
  shows "slots_ok free ps pend cap"
  using assms by (simp add: slots_ok_def)

lemma slots_okD:
  assumes "slots_ok free ps pend cap"
  shows "distinct (map fst ps)" "pend p = Some s \<longleftrightarrow> (p, s) \<in> set ps"
    "distinct free" "distinct (map snd ps)" "set free \<inter> snd ` set ps = {}" "set free \<union> snd ` set ps = {0..<cap}"
  using assms by (simp_all add: slots_ok_def)

lemma slots_take:
  assumes ok: "slots_ok (s # free) ps pend cap" and p: "pend p = None"
  shows "slots_ok free ((p, s) # ps) (pend(p \<mapsto> s)) cap"
proof (rule slots_okI)
  note d = slots_okD [OF ok]
  have new: "(p, q) \<notin> set ps" for q using d(2) [of p q] p by simp
  then have "p \<notin> fst ` set ps" by force
  with d(1) show "distinct (map fst ((p, s) # ps))" by simp
  show "(pend(p \<mapsto> s)) q = Some t \<longleftrightarrow> (q, t) \<in> set ((p, s) # ps)" for q t
    using d(2) [of q t] new by auto
  show "distinct free" "distinct (map snd ((p, s) # ps))" "set free \<inter> snd ` set ((p, s) # ps) = {}"
    "set free \<union> snd ` set ((p, s) # ps) = {0..<cap}"
    using d(3-6) by auto
qed

lemma slots_give:
  assumes ok: "slots_ok free ((p, s) # ps) pend cap"
  shows "slots_ok (free @ [s]) ps (pend(p := None)) cap"
proof (rule slots_okI)
  note d = slots_okD [OF ok]
  have new: "(p, q) \<notin> set ps" for q using d(1) by force
  show "distinct (map fst ps)" using d(1) by simp
  show "(pend(p := None)) q = Some t \<longleftrightarrow> (q, t) \<in> set ps" for q t
    using d(2) [of q t] new by auto
  show "distinct (free @ [s])" "distinct (map snd ps)" "set (free @ [s]) \<inter> snd ` set ps = {}"
    "set (free @ [s]) \<union> snd ` set ps = {0..<cap}"
    using d(3-6) by auto
qed

lemma slots_range:
  assumes "slots_ok free ps pend cap" "(p, s) \<in> set ps"
  shows "0 \<le> s \<and> s < cap \<and> s \<notin> set free"
proof -
  have "s \<in> snd ` set ps" using assms(2) by force
  with slots_okD(5,6) [OF assms(1)] show ?thesis by (metis IntI UnI2 atLeastLessThan_iff empty_iff)
qed

lemma slots_unique:
  assumes "slots_ok free ps pend cap" "(p, s) \<in> set ps" "(q, s) \<in> set ps"
  shows "p = q"
proof -
  have "inj_on snd (set ps)" using slots_okD(4) [OF assms(1)] by (simp add: distinct_map)
  from inj_onD [OF this _ assms(2,3)] show ?thesis by simp
qed

lemma worker_places: "worker_ok (t, r) w \<Longrightarrow>
    slots_ok (tr_free t w) (places (t, r) w) (\<lambda>p. dict_get (tr_pending t) (w, p)) (tr_queue_capacity t)"
  by (simp add: worker_ok_def)

lemma worker_okI:
  assumes "slots_ok (tr_free t w) (places (t, r) w) (\<lambda>p. dict_get (tr_pending t) (w, p)) (tr_queue_capacity t)"
    and "\<And>c. c \<in> set (tr_dispatch t w) \<Longrightarrow> wc_worker c = w" "\<And>c. r w = Some c \<Longrightarrow> wc_worker c = w"
    and "\<And>m. m \<in> set (tr_completion t w) \<Longrightarrow> message_fits t m"
  shows "worker_ok (t, r) w"
  using assms by (auto simp: worker_ok_def)

text \<open>
  An operation of one worker keeps the condition of all: its own places are rearranged, and the other
  workers' channels, slots and entries stay.
\<close>

lemma transport_ok_update:
  assumes ok: "transport_ok (t, r)"
    and slots: "slots_ok (tr_free t' w) qs (\<lambda>p. dict_get (tr_pending t') (w, p)) (tr_queue_capacity t')"
      "mset qs = mset (places (t', r') w)"
    and own: "\<And>c. c \<in> set (tr_dispatch t' w) \<Longrightarrow> wc_worker c = w" "\<And>c. r' w = Some c \<Longrightarrow> wc_worker c = w"
      "\<And>m. m \<in> set (tr_completion t' w) \<Longrightarrow> message_fits t' m"
    and others: "\<And>v. v \<noteq> w \<Longrightarrow> tr_dispatch t' v = tr_dispatch t v" "\<And>v. v \<noteq> w \<Longrightarrow> tr_completion t' v = tr_completion t v"
      "\<And>v. v \<noteq> w \<Longrightarrow> tr_free t' v = tr_free t v" "\<And>v. v \<noteq> w \<Longrightarrow> r' v = r v"
      "\<And>v p. v \<noteq> w \<Longrightarrow> dict_get (tr_pending t') (v, p) = dict_get (tr_pending t) (v, p)"
    and caps: "dict_ok (tr_pending t')" "tr_queue_capacity t' = tr_queue_capacity t"
      "tr_payload_capacity t' = tr_payload_capacity t" "tr_exception_capacity t' = tr_exception_capacity t"
  shows "transport_ok (t', r')"
proof -
  have cap: "message_fits t' = message_fits t" using caps by (simp add: message_fits_def slot_capacity_def fun_eq_iff)
  have "worker_ok (t', r') v" for v
  proof (cases "v = w")
    case True
    have "slots_ok (tr_free t' w) (places (t', r') w) (\<lambda>p. dict_get (tr_pending t') (w, p)) (tr_queue_capacity t')"
      using slots_mset [OF slots(2)] slots(1) by blast
    then show ?thesis unfolding True by (rule worker_okI) (use own in auto)
  next
    case False
    show ?thesis
      by (rule worker_ok_frame [of t r v]) (use ok False others caps cap in \<open>simp_all add: transport_ok_def\<close>)
  qed
  with ok caps show ?thesis by (simp add: transport_ok_def capacities_ok_def)
qed

lemma transport_worker: "transport_ok (t, r) \<Longrightarrow> worker_ok (t, r) w"
  by (simp add: transport_ok_def)

lemma transport_dict: "transport_ok (t, r) \<Longrightarrow> dict_ok (tr_pending t)"
  by (simp add: transport_ok_def)

lemma worker_okD:
  assumes "worker_ok (t, r) w"
  shows "c \<in> set (tr_dispatch t w) \<Longrightarrow> wc_worker c = w" "r w = Some c \<Longrightarrow> wc_worker c = w"
    "m \<in> set (tr_completion t w) \<Longrightarrow> message_fits t m"
  using assms by (auto simp: worker_ok_def)

section \<open>Each operation\<close>

definition submitted :: "worker_command \<Rightarrow> int list option \<Rightarrow> int \<Rightarrow> int list \<Rightarrow> transport \<Rightarrow> transport" where
  "submitted c payload slot rest t =
    t\<lparr>tr_free := (tr_free t)(wc_worker c := rest),
      tr_arena := (case payload of None \<Rightarrow> tr_arena t
        | Some p \<Rightarrow> put_bytes (arena_offset t (wc_worker c) slot False) p (tr_arena t)),
      tr_dispatch := (tr_dispatch t)(wc_worker c := tr_dispatch t (wc_worker c) @ [c\<lparr>wc_slot := slot\<rparr>]),
      tr_pending := dict_set (wc_worker c, wc_position c) slot (tr_pending t)\<rparr>"

lemma submit_form:
  assumes s: "transport_submit False c payload t = (t', Inr True)"
  shows "\<exists>slot rest. tr_free t (wc_worker c) = slot # rest \<and>
    dict_get (tr_pending t) (wc_worker c, wc_position c) = None \<and> t' = submitted c payload slot rest t"
proof (cases "tr_free t (wc_worker c)")
  case Nil
  with s show ?thesis by (simp add: transport_submit_def Let_def split: if_splits sum.splits)
next
  case (Cons slot rest)
  have new: "dict_get (tr_pending t) (wc_worker c, wc_position c) = None"
    using s by (simp add: transport_submit_def Let_def dict_get_None split: if_splits sum.splits)
  have "t' = submitted c payload slot rest t"
  proof (cases payload)
    case None
    with s Cons show ?thesis
      by (simp add: transport_submit_def Let_def submitted_def split: if_splits sum.splits)
  next
    case (Some p)
    with s Cons show ?thesis
      by (simp add: transport_submit_def Let_def submitted_def arena_write_def arena_offset_def slot_stride_def
          split: if_splits sum.splits)
  qed
  with Cons new show ?thesis by blast
qed

lemma submit_ok:
  assumes ok: "transport_ok (t, r)" and s: "transport_submit False c payload t = (t', Inr True)"
  shows "transport_ok (t', r)"
proof -
  obtain w where cw: "wc_worker c = w" by blast
  obtain slot rest where f: "tr_free t w = slot # rest" "dict_get (tr_pending t) (w, wc_position c) = None" and
    form: "t' = submitted c payload slot rest t"
    using submit_form [OF s] cw by blast
  note t' = form [unfolded submitted_def cw] and w = transport_worker [OF ok, of w]
  have "slots_ok rest ((wc_position c, slot) # places (t, r) w)
      ((\<lambda>p. dict_get (tr_pending t) (w, p))(wc_position c \<mapsto> slot)) (tr_queue_capacity t)"
    by (rule slots_take) (use worker_places [OF w] f in simp_all)
  moreover have "(\<lambda>p. dict_get (tr_pending t) (w, p))(wc_position c \<mapsto> slot) = (\<lambda>p. dict_get (tr_pending t') (w, p))"
    by (auto simp: t' fun_eq_iff)
  ultimately have slots: "slots_ok (tr_free t' w) ((wc_position c, slot) # places (t, r) w)
      (\<lambda>p. dict_get (tr_pending t') (w, p)) (tr_queue_capacity t')" by (simp add: t')
  have places: "mset ((wc_position c, slot) # places (t, r) w) = mset (places (t', r) w)"
    by (simp add: places_def t' command_place_def)
  show ?thesis
    by (rule transport_ok_update [OF ok slots places])
      (auto simp: t' cw transport_dict [OF ok] dest: worker_okD [OF w])
qed

lemma take_ok:
  assumes ok: "transport_ok (t, r)" and s: "worker_receive w t = (t', Some c)" and idle: "r w = None"
  shows "transport_ok (t', r(w := Some c))"
proof -
  obtain rest where f: "tr_dispatch t w = c # rest" and t': "t' = t\<lparr>tr_dispatch := (tr_dispatch t)(w := rest)\<rparr>"
    using s by (auto simp: worker_receive_def split: list.splits)
  note w = transport_worker [OF ok, of w]
  have slots: "slots_ok (tr_free t' w) (places (t, r) w) (\<lambda>p. dict_get (tr_pending t') (w, p)) (tr_queue_capacity t')"
    using worker_places [OF w] by (simp add: t')
  have places: "mset (places (t, r) w) = mset (places (t', r(w := Some c)) w)"
    by (simp add: places_def t' f idle)
  show ?thesis
    by (rule transport_ok_update [OF ok slots places])
      (use transport_dict [OF ok] f worker_okD [OF w] in \<open>auto simp: t'\<close>)
qed

text \<open>A worker's answer: its slot's bytes change, its command becomes a completion message.\<close>

definition answered :: "int \<Rightarrow> worker_command \<Rightarrow> int \<Rightarrow> int list \<Rightarrow> int \<Rightarrow> transport \<Rightarrow> transport" where
  "answered w c status payload cost t =
    t\<lparr>tr_arena := put_bytes (arena_offset t w (wc_slot c) (status = 1)) payload (tr_arena t),
      tr_completion := (tr_completion t)(w := tr_completion t w @ [(wc_position c, status, int (length payload), cost, wc_slot c)])\<rparr>"

lemma answered_ok:
  assumes ok: "transport_ok (t, r)" and c: "r w = Some c" and size: "int (length payload) \<le> slot_capacity t (status = 1)"
  shows "transport_ok (answered w c status payload cost t, r(w := None))"
proof -
  let ?t = "answered w c status payload cost t"
  note w = transport_worker [OF ok, of w]
  have slots: "slots_ok (tr_free ?t w) (places (t, r) w) (\<lambda>p. dict_get (tr_pending ?t) (w, p)) (tr_queue_capacity ?t)"
    using worker_places [OF w] by (simp add: answered_def)
  have places: "mset (places (t, r) w) = mset (places (?t, r(w := None)) w)"
    by (simp add: places_def answered_def c command_place_def message_place_def)
  have fits: "message_fits t (wc_position c, status, int (length payload), cost, wc_slot c)"
    using size by (simp add: message_fits_def)
  show ?thesis
    by (rule transport_ok_update [OF ok slots places])
      (use transport_dict [OF ok] worker_okD [OF w] fits in \<open>auto simp: answered_def simp del: split_paired_All\<close>)
qed

lemma answer_form:
  assumes "(if exception then try_complete_exception else try_complete_ready) False c payload cost t = (t', Inr True)"
  shows "t' = answered (wc_worker c) c (if exception then 1 else 0) payload cost t \<and>
    int (length payload) \<le> slot_capacity t ((if exception then 1 else 0 :: int) = 1)"
  using assms
  by (auto simp: try_complete_ready_def try_complete_exception_def complete_payload_def arena_write_def send_completion_def
      answered_def split: if_splits)

lemma rows_form:
  assumes "write_batch_row c 0 data t = Inr u" "try_complete_batch False c (int (length data)) cost u = (t', Inr True)"
  shows "t' = answered (wc_worker c) c 2 data cost t \<and> int (length data) \<le> slot_capacity t ((2::int) = 1)"
  using assms
  by (auto simp: write_batch_row_def try_complete_batch_def send_completion_def answered_def slot_capacity_def split: if_splits)

lemma pending_positions_set:
  assumes "dict_ok (tr_pending t)"
  shows "set (pending_positions w t) = {p. \<exists>s. dict_get (tr_pending t) (w, p) = Some s}"
proof -
  have "(\<exists>s. dict_get (tr_pending t) (w, p) = Some s) \<longleftrightarrow> (w, p) \<in> fst ` set (tr_pending t)" for p
    using dict_get_None [of "tr_pending t" "(w, p)"] by (auto simp: dict_keys_def)
  then show ?thesis by (auto simp: pending_positions_def image_iff) force+
qed

lemma pending_positions_distinct: "dict_ok (tr_pending t) \<Longrightarrow> distinct (pending_positions w t)"
proof -
  assume "dict_ok (tr_pending t)"
  then have "distinct (map fst (filter (\<lambda>e. fst (fst e) = w) (tr_pending t)))"
    by (simp add: dict_ok_def distinct_map_filter)
  moreover have "inj_on snd (set (map fst (filter (\<lambda>e. fst (fst e) = w) (tr_pending t))))"
    by (auto simp: inj_on_def)
  ultimately have "distinct (map snd (map fst (filter (\<lambda>e. fst (fst e) = w) (tr_pending t))))"
    by (simp only: distinct_map)
  then show ?thesis by (simp add: pending_positions_def)
qed

text \<open>A reply hands its slot back; a dead worker hands back all of its slots.\<close>

lemma receive_form:
  assumes "transport_receive w t = (t', Inr (Some x))"
  shows "\<exists>p st n cost s rest. tr_completion t w = (p, st, n, cost, s) # rest \<and> dict_get (tr_pending t) (w, p) = Some s \<and>
    x = message_result t w (p, st, n, cost, s) \<and>
    t' = t\<lparr>tr_completion := (tr_completion t)(w := rest), tr_pending := dict_del (w, p) (tr_pending t),
           tr_free := (tr_free t)(w := tr_free t w @ [s])\<rparr>"
proof (cases "tr_completion t w")
  case Nil
  with assms show ?thesis by (simp add: transport_receive_def split: sum.splits)
next
  case (Cons m rest)
  then show ?thesis using assms
    by (cases m) (simp add: transport_receive_def Let_def arena_read_def message_result_def arena_offset_def slot_stride_def
        slot_capacity_def split: sum.splits if_splits)
qed

lemma receive_ok:
  assumes ok: "transport_ok (t, r)" and s: "transport_receive w t = (t', Inr (Some x))"
  shows "transport_ok (t', r)"
proof -
  obtain p st n cost slot rest where f: "tr_completion t w = (p, st, n, cost, slot) # rest"
    "dict_get (tr_pending t) (w, p) = Some slot" and
    t': "t' = t\<lparr>tr_completion := (tr_completion t)(w := rest), tr_pending := dict_del (w, p) (tr_pending t),
           tr_free := (tr_free t)(w := tr_free t w @ [slot])\<rparr>"
    using receive_form [OF s] by blast
  note w = transport_worker [OF ok, of w]
  have "mset (places (t, r) w) = mset ((p, slot) # places (t', r) w)"
    by (simp add: places_def f t' message_place_def)
  from slots_mset [OF this] worker_places [OF w]
  have "slots_ok (tr_free t w) ((p, slot) # places (t', r) w) (\<lambda>p. dict_get (tr_pending t) (w, p)) (tr_queue_capacity t)"
    by blast
  from slots_give [OF this]
  have "slots_ok (tr_free t' w) (places (t', r) w) ((\<lambda>p. dict_get (tr_pending t) (w, p))(p := None)) (tr_queue_capacity t')"
    by (simp add: t')
  moreover have "(\<lambda>p. dict_get (tr_pending t) (w, p))(p := None) = (\<lambda>p. dict_get (tr_pending t') (w, p))"
    using ok by (auto simp: t' fun_eq_iff transport_ok_def)
  ultimately have slots: "slots_ok (tr_free t' w) (places (t', r) w) (\<lambda>p. dict_get (tr_pending t') (w, p)) (tr_queue_capacity t')"
    by simp
  show ?thesis
    by (rule transport_ok_update [OF ok slots refl]) (use transport_dict [OF ok] f worker_okD [OF w] in \<open>auto simp: t'\<close>)
qed

lemma reclaim_slots:
  assumes "slots_ok (tr_free t w) qs (\<lambda>p. dict_get (tr_pending t) (w, p)) cap" and "dict_ok (tr_pending t)"
    and "distinct ps" and "set ps = fst ` set qs"
  shows "slots_ok (tr_free (reclaim_positions w ps t) w) [] (\<lambda>p. dict_get (tr_pending (reclaim_positions w ps t)) (w, p)) cap \<and>
    dict_ok (tr_pending (reclaim_positions w ps t))"
  using assms
proof (induction w ps t arbitrary: qs rule: reclaim_positions.induct)
  case (1 w t)
  then show ?case by simp
next
  case (2 w p ps t)
  note d = slots_okD [OF 2(2)]
  have "p \<in> fst ` set qs" using 2(5) by (metis list.set_intros(1))
  then obtain s where s: "(p, s) \<in> set qs" by auto
  then have get: "dict_get (tr_pending t) (w, p) = Some s" using d(2) by simp
  have "mset qs = mset ((p, s) # remove1 (p, s) qs)" using s by simp
  from slots_mset [OF this] 2(2)
  have "slots_ok (tr_free t w) ((p, s) # remove1 (p, s) qs) (\<lambda>p. dict_get (tr_pending t) (w, p)) cap" by blast
  then have slots: "slots_ok (tr_free t w @ [s]) (remove1 (p, s) qs) ((\<lambda>p. dict_get (tr_pending t) (w, p))(p := None)) cap"
    and split: "slots_ok (tr_free t w) ((p, s) # remove1 (p, s) qs) (\<lambda>p. dict_get (tr_pending t) (w, p)) cap"
    by (auto intro: slots_give)
  have pend: "(\<lambda>p. dict_get (tr_pending t) (w, p))(p := None) = (\<lambda>q. dict_get (dict_del (w, p) (tr_pending t)) (w, q))"
    using 2(3) by (auto simp: fun_eq_iff)
  have fresh: "s \<notin> set (tr_free t w)" using slots_range [OF 2(2) s] by simp
  let ?t = "t\<lparr>tr_pending := dict_del (w, p) (tr_pending t), tr_free := (tr_free t)(w := tr_free t w @ [s])\<rparr>"
  have step: "reclaim_positions w (p # ps) t = reclaim_positions w ps ?t" using get fresh by simp
  have names: "set ps = fst ` set (remove1 (p, s) qs)"
  proof -
    have "distinct qs" using d(1) by (simp add: distinct_map)
    then have "set (remove1 (p, s) qs) = set qs - {(p, s)}" by (rule set_remove1_eq)
    moreover have "p \<notin> fst ` set (remove1 (p, s) qs)" using slots_okD(1) [OF split] by simp
    moreover have "insert p (set ps) = insert p (fst ` set (remove1 (p, s) qs))"
      using 2(5) s \<open>set (remove1 (p, s) qs) = set qs - {(p, s)}\<close> by force
    moreover have "p \<notin> set ps" using 2(4) by simp
    ultimately show ?thesis by (metis insert_ident)
  qed
  show ?case
    unfolding step
    by (rule 2(1) [OF get refl _ _ _ _ names]) (use slots pend 2(3,4) fresh in \<open>simp_all add: fun_eq_iff\<close>)
qed

lemma reclaim_others:
  "tr_dispatch (reclaim_positions w ps t) = tr_dispatch t \<and> tr_completion (reclaim_positions w ps t) = tr_completion t \<and>
   tr_arena (reclaim_positions w ps t) = tr_arena t \<and> tr_queue_capacity (reclaim_positions w ps t) = tr_queue_capacity t \<and>
   tr_payload_capacity (reclaim_positions w ps t) = tr_payload_capacity t \<and>
   tr_exception_capacity (reclaim_positions w ps t) = tr_exception_capacity t"
  by (induction w ps t rule: reclaim_positions.induct) (auto simp: Let_def split: option.splits)

lemma reclaim_other_workers:
  assumes "dict_ok (tr_pending t)" "v \<noteq> w"
  shows "tr_free (reclaim_positions w ps t) v = tr_free t v \<and>
    dict_get (tr_pending (reclaim_positions w ps t)) (v, p) = dict_get (tr_pending t) (v, p)"
  using assms by (induction w ps t rule: reclaim_positions.induct) (auto simp: Let_def split: option.splits)

lemma reclaim_form:
  assumes "reclaim_dead_worker w t = (t', Inr positions)"
  shows "positions = pending_positions w t \<and> t' = replace_channels w (reclaim_positions w positions t)"
  using assms by (auto simp: reclaim_dead_worker_def Let_def split: sum.splits)

lemma reclaim_ok:
  assumes ok: "transport_ok (t, r)" and s: "reclaim_dead_worker w t = (t', Inr positions)"
  shows "transport_ok (t', r(w := None))"
proof -
  let ?t = "reclaim_positions w (pending_positions w t) t"
  have t': "t' = replace_channels w ?t" using reclaim_form [OF s] by simp
  note w = worker_places [OF transport_worker [OF ok, of w]] and dict = transport_dict [OF ok]
  have "set (pending_positions w t) = fst ` set (places (t, r) w)"
    unfolding pending_positions_set [OF dict] using slots_okD(2) [OF w] by (force simp: image_iff)
  from reclaim_slots [OF w dict pending_positions_distinct [OF dict] this]
  have slots: "slots_ok (tr_free t' w) [] (\<lambda>p. dict_get (tr_pending t') (w, p)) (tr_queue_capacity t')"
    and dict': "dict_ok (tr_pending ?t)"
    by (simp_all add: t' replace_channels_def reclaim_others)
  have places: "mset [] = mset (places (t', r(w := None)) w)"
    by (simp add: places_def t' replace_channels_def)
  show ?thesis
    by (rule transport_ok_update [OF ok slots places])
      (simp_all add: t' replace_channels_def reclaim_others reclaim_other_workers [OF dict] dict')
qed

section \<open>The arena carries each result\<close>

lemma result_unharmed:
  assumes ok: "transport_ok (t, r)" and m: "(p, st, n, cost, slot) \<in> set (tr_completion t v)"
    and s: "0 \<le> s" "s < tr_queue_capacity t" and other: "(w, s) \<noteq> (v, slot)"
    and size: "int (length data) \<le> slot_capacity t e"
  shows "get_bytes (arena_offset t v slot (st = 1)) n (put_bytes (arena_offset t w s e) data (tr_arena t)) =
    get_bytes (arena_offset t v slot (st = 1)) n (tr_arena t)"
proof -
  note v = transport_worker [OF ok, of v]
  have "(p, slot) \<in> set (places (t, r) v)" using m by (force simp: places_def message_place_def)
  then have "0 \<le> slot" "slot < tr_queue_capacity t" using slots_range [OF worker_places [OF v]] by auto
  moreover have "n \<le> slot_capacity t (st = 1)" using worker_okD(3) [OF v m] by (simp add: message_fits_def)
  ultimately show ?thesis using ok s other size by (intro arena_apart) (simp_all add: transport_ok_def)
qed

lemma results_unharmed:
  assumes ok: "transport_ok (t, r)" and s: "0 \<le> s" "s < tr_queue_capacity t"
    and other: "\<And>v p st n cost. (p, st, n, cost, s) \<in> set (tr_completion t v) \<Longrightarrow> v \<noteq> w"
    and size: "int (length data) \<le> slot_capacity t e"
    and u: "tr_arena u = put_bytes (arena_offset t w s e) data (tr_arena t)" "arena_offset u = arena_offset t"
  shows "map (message_result u v) (tr_completion t v) = result_queues t v"
  unfolding result_queues_def
proof (rule map_cong [OF refl])
  fix m assume m: "m \<in> set (tr_completion t v)"
  obtain p st n cost slot where m5: "m = (p, st, n, cost, slot)" by (cases m)
  have "(w, s) \<noteq> (v, slot)" using m other unfolding m5 by blast
  from result_unharmed [OF ok m [unfolded m5] s this size]
  show "message_result u v m = message_result t v m" by (simp add: m5 message_result_def u)
qed

section \<open>The transport is a queue of results per worker\<close>

lemma submitted_results:
  assumes ok: "transport_ok (t, r)" and s: "transport_submit False c payload t = (t', Inr True)"
    and size: "\<forall>p. payload = Some p \<longrightarrow> int (length p) \<le> tr_payload_capacity t"
  shows "result_queues t' = result_queues t"
proof -
  let ?w = "wc_worker c"
  obtain slot rest where f: "tr_free t ?w = slot # rest" and t': "t' = submitted c payload slot rest t"
    using submit_form [OF s] by blast
  have offset: "arena_offset t' = arena_offset t"
    by (simp add: t' submitted_def arena_offset_def slot_stride_def fun_eq_iff)
  have completion: "tr_completion t' = tr_completion t" by (simp add: t' submitted_def)
  note d = slots_okD [OF worker_places [OF transport_worker [OF ok]]]
  show ?thesis
  proof (cases payload)
    case None
    then have "message_result t' v m = message_result t v m" for v m
      using offset by (simp add: t' submitted_def message_result_def)
    then show ?thesis by (simp add: result_queues_def fun_eq_iff completion)
  next
    case (Some p)
    have range: "0 \<le> slot" "slot < tr_queue_capacity t" using d(6) [of ?w] f by auto
    have "v \<noteq> ?w" if "(p, st, n, cost, slot) \<in> set (tr_completion t v)" for v p st n cost
    proof
      assume "v = ?w"
      then have "(p, slot) \<in> set (places (t, r) ?w)" using that by (force simp: places_def message_place_def)
      with d(5) [of ?w] f show False by force
    qed
    moreover have "int (length p) \<le> slot_capacity t False" using size Some by (simp add: slot_capacity_def)
    moreover have "tr_arena t' = put_bytes (arena_offset t ?w slot False) p (tr_arena t)"
      by (simp add: t' submitted_def Some)
    ultimately have "map (message_result t' v) (tr_completion t v) = result_queues t v" for v
      by (intro results_unharmed [OF ok range _ _ _ offset])
    then show ?thesis by (simp add: result_queues_def fun_eq_iff completion)
  qed
qed

lemma answered_results:
  assumes ok: "transport_ok (t, r)" and c: "r w = Some c" and size: "int (length payload) \<le> slot_capacity t (status = 1)"
  shows "result_queues (answered w c status payload cost t) =
    (result_queues t)(w := result_queues t w @ [(wc_position c, status, payload, cost)])"
proof -
  let ?t = "answered w c status payload cost t"
  have offset: "arena_offset ?t = arena_offset t"
    by (simp add: answered_def arena_offset_def slot_stride_def fun_eq_iff)
  have arena: "tr_arena ?t = put_bytes (arena_offset t w (wc_slot c) (status = 1)) payload (tr_arena t)"
    by (simp add: answered_def)
  note w = worker_places [OF transport_worker [OF ok, of w]]
  have "(wc_position c, wc_slot c) \<in> set (places (t, r) w)" using c by (simp add: places_def command_place_def)
  from slots_range [OF w this] have range: "0 \<le> wc_slot c" "wc_slot c < tr_queue_capacity t" by auto
  have "distinct (wc_slot c # map (snd \<circ> message_place) (tr_completion t w))"
    using slots_okD(4) [OF w] c by (simp add: places_def command_place_def)
  then have "v \<noteq> w" if "(p, st, n, cost, wc_slot c) \<in> set (tr_completion t v)" for v p st n cost
    using that by (force simp: message_place_def)
  then have old: "map (message_result ?t v) (tr_completion t v) = result_queues t v" for v
    by (intro results_unharmed [OF ok range _ size arena offset])
  have "message_result ?t w (wc_position c, status, int (length payload), cost, wc_slot c) =
      (wc_position c, status, payload, cost)"
    by (simp add: message_result_def offset arena get_put_bytes)
  moreover have "tr_completion ?t v = tr_completion t v @
      (if v = w then [(wc_position c, status, int (length payload), cost, wc_slot c)] else [])" for v
    by (simp add: answered_def)
  ultimately have "result_queues ?t v = result_queues t v @ (if v = w then [(wc_position c, status, payload, cost)] else [])" for v
    unfolding result_queues_def [of ?t] by (simp only: map_append old) auto
  then show ?thesis by (auto simp: fun_eq_iff)
qed

lemma received_results:
  assumes "transport_receive w t = (t', Inr (Some x))"
  shows "\<exists>xs. result_queues t w = x # xs \<and> result_queues t' = (result_queues t)(w := xs)"
proof -
  obtain p st n cost slot rest where f: "tr_completion t w = (p, st, n, cost, slot) # rest" and
    x: "x = message_result t w (p, st, n, cost, slot)" and
    t': "t' = t\<lparr>tr_completion := (tr_completion t)(w := rest), tr_pending := dict_del (w, p) (tr_pending t),
           tr_free := (tr_free t)(w := tr_free t w @ [slot])\<rparr>"
    using receive_form [OF assms] by blast
  have same: "message_result t' = message_result t"
    by (simp add: t' message_result_def arena_offset_def slot_stride_def fun_eq_iff)
  have "result_queues t w = x # map (message_result t w) rest" by (simp add: result_queues_def f x)
  moreover have "tr_completion t' = (tr_completion t)(w := rest)" by (simp add: t')
  with same have "result_queues t' = (result_queues t)(w := map (message_result t w) rest)"
    by (auto simp: result_queues_def [abs_def])
  ultimately show ?thesis by blast
qed

lemma reclaimed_results:
  assumes "reclaim_dead_worker w t = (t', Inr positions)"
  shows "result_queues t' = (result_queues t)(w := [])"
proof -
  have t': "t' = replace_channels w (reclaim_positions w positions t)" using reclaim_form [OF assms] by simp
  have "message_result t' = message_result t"
    by (simp add: t' replace_channels_def message_result_def arena_offset_def slot_stride_def fun_eq_iff reclaim_others)
  moreover have "tr_completion t' = (tr_completion t)(w := [])" by (simp add: t' replace_channels_def reclaim_others)
  ultimately show ?thesis by (auto simp: result_queues_def [abs_def])
qed

lemma step_refines:
  assumes "transport_step s e s'" and ok: "transport_ok s"
  shows "transport_ok s' \<and> queue_step (result_queues (fst s)) e = Some (result_queues (fst s'))"
  using assms
proof (cases rule: transport_step.cases)
  case (submit payload t c t' r)
  then show ?thesis using ok submit_ok submitted_results [of t r c payload t'] by auto
next
  case (take w t t' c r)
  then have "result_queues t' = result_queues t"
    by (auto simp: worker_receive_def result_queues_def message_result_def arena_offset_def slot_stride_def fun_eq_iff
        split: list.splits)
  with take show ?thesis using ok take_ok by auto
next
  case (answer r w c exception payload cost t t')
  have "wc_worker c = w" using worker_okD(2) [OF transport_worker] ok answer by blast
  then show ?thesis
    using answer ok answer_form [of exception c payload cost t t'] answered_ok [of t r w c payload "if exception then 1 else 0" cost]
      answered_results [of t r w c payload "if exception then 1 else 0" cost] by auto
next
  case (rows r w c data t u cost t')
  have "wc_worker c = w" using worker_okD(2) [OF transport_worker] ok rows by blast
  then show ?thesis
    using rows ok rows_form [of c data t u cost t'] answered_ok [of t r w c data 2 cost]
      answered_results [of t r w c data 2 cost] by auto
next
  case (deliver w t t' x r)
  then show ?thesis using ok receive_ok received_results [of w t t' x] by auto
next
  case (reclaim w t t' positions r)
  then show ?thesis using ok reclaim_ok reclaimed_results [of w t t' positions] by auto
qed

inductive transport_run :: "system \<Rightarrow> event list \<Rightarrow> system \<Rightarrow> bool" where
  start: "transport_run s [] s"
| further: "transport_run s es s' \<Longrightarrow> transport_step s' e s'' \<Longrightarrow> transport_run s (es @ [e]) s''"

fun queue_run :: "(int \<Rightarrow> result list) \<Rightarrow> event list \<Rightarrow> (int \<Rightarrow> result list) option" where
  "queue_run q [] = Some q"
| "queue_run q (e # es) = (case queue_step q e of None \<Rightarrow> None | Some q \<Rightarrow> queue_run q es)"

lemma step_capacity:
  assumes "transport_step s e s'"
  shows "tr_queue_capacity (fst s') = tr_queue_capacity (fst s)"
  using assms
proof (cases rule: transport_step.cases)
  case (submit payload t c t' r)
  then show ?thesis using submit_form [of c payload t t'] by (auto simp: submitted_def)
next
  case (take w t t' c r)
  then show ?thesis by (auto simp: worker_receive_def split: list.splits)
next
  case (answer r w c exception payload cost t t')
  then show ?thesis using answer_form [of exception c payload cost t t'] by (auto simp: answered_def)
next
  case (rows r w c data t u cost t')
  then show ?thesis using rows_form [of c data t u cost t'] by (auto simp: answered_def)
next
  case (deliver w t t' x r)
  then show ?thesis using receive_form [of w t t' x] by auto
next
  case (reclaim w t t' positions r)
  then show ?thesis using reclaim_form [of w t t' positions] by (auto simp: replace_channels_def reclaim_others)
qed

lemma run_capacity: "transport_run s es s' \<Longrightarrow> tr_queue_capacity (fst s') = tr_queue_capacity (fst s)"
  by (induction rule: transport_run.induct) (auto dest: step_capacity)

lemma queue_run_append: "queue_run q (es @ fs) = (case queue_run q es of None \<Rightarrow> None | Some q \<Rightarrow> queue_run q fs)"
  by (induction es arbitrary: q) (auto split: option.splits)

lemma run_refines:
  assumes "transport_run s es s'" and "transport_ok s"
  shows "transport_ok s' \<and> queue_run (result_queues (fst s)) es = Some (result_queues (fst s'))"
  using assms
proof (induction rule: transport_run.induct)
  case (start s)
  then show ?case by simp
next
  case (further s es s' e s'')
  then show ?case using step_refines [of s' e s''] by (simp add: queue_run_append)
qed

lemma slots_conserved:
  assumes "transport_ok (t, r)"
  shows "int (length (tr_free t w) + length (pending_positions w t)) = tr_queue_capacity t"
proof -
  note d = slots_okD [OF worker_places [OF transport_worker [OF assms, of w]]] and dict = transport_dict [OF assms]
  let ?ps = "places (t, r) w"
  have "set (pending_positions w t) = fst ` set ?ps"
    unfolding pending_positions_set [OF dict] using d(2) by (force simp: image_iff)
  then have "length (pending_positions w t) = card (fst ` set ?ps)"
    by (metis distinct_card pending_positions_distinct [OF dict])
  also have "\<dots> = length (map fst ?ps)" using distinct_card [OF d(1)] by simp
  finally have pending: "length (pending_positions w t) = length (map snd ?ps)" by simp
  have "length (tr_free t w @ map snd ?ps) = card (set (tr_free t w) \<union> snd ` set ?ps)"
    using distinct_card [of "tr_free t w @ map snd ?ps"] d(3-5) by simp
  with pending d(6) assms show ?thesis by (simp add: transport_ok_def capacities_ok_def)
qed

text \<open>
  C19: However the owner and the workers interleave, the transport is a queue of results per worker:
  each received result is the oldest the worker sent, byte for byte, a dead worker's results are
  dropped with its commands, and every arena slot is free or held by one pending command.
\<close>

theorem transport_refines_queue:
  assumes "new_transport n q p x = Inr t0" and "transport_run (t0, \<lambda>_. None) es (t, r)"
  shows "queue_run (\<lambda>_. []) es = Some (result_queues t) \<and>
    int (length (tr_free t w) + length (pending_positions w t)) = q"
proof -
  have "result_queues t0 = (\<lambda>_. [])"
    using assms(1) by (auto simp: new_transport_def result_queues_def split: if_splits)
  moreover have "tr_queue_capacity t = q" using run_capacity [OF assms(2)] assms(1)
    by (auto simp: new_transport_def split: if_splits)
  moreover note run = run_refines [OF assms(2) new_transport_ok [OF assms(1)]]
  ultimately show ?thesis using slots_conserved [of t r w] by simp
qed


definition first_transport :: transport where
  "first_transport = \<lparr>tr_worker_count = 1, tr_queue_capacity = 2, tr_payload_capacity = 4, tr_exception_capacity = 4,
     tr_dispatch = (\<lambda>_. []), tr_completion = (\<lambda>_. []), tr_free = (\<lambda>_. [0, 1]), tr_pending = [],
     tr_arena = (\<lambda>_. 0), tr_closed = False\<rparr>"

definition first_command :: worker_command where
  "first_command = \<lparr>wc_position = 5, wc_epoch = 0, wc_index = 8, wc_stage_plan = 0, wc_worker = 0, wc_batch_len = 0,
     wc_slot = -1\<rparr>"

lemma irange_two: "irange 0 2 = [0, 1]"
  by (simp add: irange_def upto_rec1)

theorem transport_refines_queue_witness:
  "\<exists>t r. new_transport 1 2 4 4 = Inr first_transport \<and>
     transport_run (first_transport, \<lambda>_. None)
       [Submitted 0 5 None, Taken 0 (first_command\<lparr>wc_slot := 0\<rparr>), Answered 0 (5, 0, [7, 9], 3),
        Received 0 (5, 0, [7, 9], 3)] (t, r) \<and>
     result_queues t 0 = [] \<and> int (length (tr_free t 0) + length (pending_positions 0 t)) = 2"
proof -
  let ?c = "first_command\<lparr>wc_slot := 0\<rparr>"
  let ?t1 = "submitted first_command None 0 [1] first_transport"
  let ?t2 = "?t1\<lparr>tr_dispatch := (tr_dispatch ?t1)(0 := [])\<rparr>"
  let ?t3 = "answered 0 ?c 0 [7, 9] 3 ?t2"
  note defs = first_command_def first_transport_def submitted_def
  have new: "new_transport 1 2 4 4 = Inr first_transport"
    by (simp add: new_transport_def first_transport_def irange_two)
  have "transport_submit False first_command None first_transport = (?t1, Inr True)"
    by (simp add: transport_submit_def defs validate_worker_def Let_def)
  from transport_step.submit [OF _ this, of "\<lambda>_. None"]
  have one: "transport_step (first_transport, \<lambda>_. None) (Submitted 0 5 None) (?t1, \<lambda>_. None)"
    by (simp add: first_command_def)
  have "worker_receive 0 ?t1 = (?t2, Some ?c)" by (simp add: worker_receive_def defs)
  from transport_step.take [OF this, of "\<lambda>_. None"]
  have two: "transport_step (?t1, \<lambda>_. None) (Taken 0 ?c) (?t2, (\<lambda>_. None)(0 := Some ?c))" by simp
  have "(if False then try_complete_exception else try_complete_ready) False ?c [7, 9] 3 ?t2 = (?t3, Inr True)"
    by (simp add: try_complete_ready_def complete_payload_def arena_write_def send_completion_def answered_def defs slot_capacity_def)
  from transport_step.answer [where exception = False, OF _ this, of "(\<lambda>_. None)(0 := Some ?c)" 0]
  have three: "transport_step (?t2, (\<lambda>_. None)(0 := Some ?c)) (Answered 0 (5, 0, [7, 9], 3)) (?t3, \<lambda>_. None)"
    by (simp add: first_command_def)
  obtain t4 where receive: "transport_receive 0 ?t3 = (t4, Inr (Some (5, 0, [7, 9], 3)))"
    by (simp add: transport_receive_def validate_worker_def answered_def defs arena_read_def slot_capacity_def
        arena_offset_def slot_stride_def get_bytes_def put_bytes_def irange_two)
  from transport_step.deliver [OF receive]
  have four: "transport_step (?t3, \<lambda>_. None) (Received 0 (5, 0, [7, 9], 3)) (t4, \<lambda>_. None)" .
  have run: "transport_run (first_transport, \<lambda>_. None)
      [Submitted 0 5 None, Taken 0 ?c, Answered 0 (5, 0, [7, 9], 3), Received 0 (5, 0, [7, 9], 3)] (t4, \<lambda>_. None)"
    using transport_run.further [OF transport_run.further [OF transport_run.further [OF transport_run.further
      [OF transport_run.start one] two] three] four] by simp
  from transport_refines_queue [OF new run, of 0] have results: "queue_run (\<lambda>_. [])
      [Submitted 0 5 None, Taken 0 ?c, Answered 0 (5, 0, [7, 9], 3), Received 0 (5, 0, [7, 9], 3)] = Some (result_queues t4)"
    and slots: "int (length (tr_free t4 0) + length (pending_positions 0 t4)) = 2" by blast+
  from results have "(\<lambda>_. [])(0 := []) = result_queues t4" by simp
  then have "result_queues t4 0 = []" by (metis fun_upd_same)
  with new run slots show ?thesis by auto
qed

end
