(* ===== verification/Samplers.thy ===== *)
theory Samplers
  imports MapState
begin

text \<open>
  User samplers: the lazy prefix of a sampler's stream and its rolling checksum
  (\<^verbatim>\<open>state/sampler.py\<close>), and the iterators that execute a user sampler
  (\<^verbatim>\<open>state/sampler_iterator.py\<close>, \<^verbatim>\<open>state/streaming_iterator.py\<close>).  A sampler is user code: its
  iterator is a state \<open>'s\<close> and a function that gives the next state and the next index or
  what \<^verbatim>\<open>next\<close> raises, \<open>StopIteration\<close> at its end; \<open>dumps\<close> is \<^verbatim>\<open>pickle.dumps\<close>.
\<close>

unbundle bit_operations_syntax

section \<open>CRC-32\<close>

definition crc_bit :: "int \<Rightarrow> int" where
  "crc_bit c = (if odd c then drop_bit 1 c XOR 0xEDB88320 else drop_bit 1 c)"

definition crc_byte :: "int \<Rightarrow> int \<Rightarrow> int" where
  "crc_byte c byte = (crc_bit ^^ 8) (c XOR byte)"

definition crc32 :: "int list \<Rightarrow> int \<Rightarrow> int" where
  "crc32 data start = foldl crc_byte (start XOR 0xFFFFFFFF) data XOR 0xFFFFFFFF"

primrec little_endian :: "nat \<Rightarrow> int \<Rightarrow> int list" where
  \<comment> \<open>\<^verbatim>\<open>n.to_bytes(width, "little")\<close>\<close>
  "little_endian 0 n = []"
| "little_endian (Suc width) n = n mod 256 # little_endian width (n div 256)"

type_synonym 'a dumps = "'a \<Rightarrow> int list res"
type_synonym ('s, 'a) source = "'s \<Rightarrow> 's \<times> 'a res"

definition update_checksum :: "'a dumps \<Rightarrow> int \<Rightarrow> 'a \<Rightarrow> int res" where
  "update_checksum dumps checksum v =
    rmap (\<lambda>payload. crc32 payload (crc32 (little_endian 8 (int (length payload))) checksum)) (dumps v)"

definition update_boundary :: "int \<Rightarrow> int \<Rightarrow> int" where
  "update_boundary checksum width = crc32 (text_bytes ''batch'' @ little_endian 8 width) checksum"

section \<open>The sample stream\<close>

record ('s, 'a) sampler_runtime =
  sa_length :: "int option"
  sa_iterator :: 's
  sa_indices :: "'a list"
  sa_checksums :: "int list"
  sa_exhausted :: bool
  sa_start_samples :: int

text \<open>
  An index whose pickling fails is in the list already when \<^verbatim>\<open>_update_checksum\<close> raises.
\<close>

function generate_to ::
    "('s, 'a) source \<Rightarrow> 'a dumps \<Rightarrow> int \<Rightarrow> bool \<Rightarrow> ('s, 'a) sampler_runtime \<Rightarrow> ('s, 'a) sampler_runtime \<times> unit res"
  where
  "generate_to nxt dumps wanted allow_end r =
    (if \<not> int (length (sa_indices r)) < wanted then (r, Inr ())
     else if sa_exhausted r then
       (r, if allow_end then Inr () else Inl (RuntimeError ''user sampler ended before the delivered prefix''))
     else
       case nxt (sa_iterator r) of
         (iterator, Inl e) \<Rightarrow>
           if e = StopIteration then
             (r\<lparr>sa_iterator := iterator, sa_exhausted := True\<rparr>,
              if allow_end then Inr () else Inl (RuntimeError ''user sampler ended before its declared length''))
           else (r\<lparr>sa_iterator := iterator\<rparr>, Inl e)
       | (iterator, Inr index) \<Rightarrow>
           (case update_checksum dumps (last (sa_checksums r)) index of
              Inl e \<Rightarrow> (r\<lparr>sa_iterator := iterator, sa_indices := sa_indices r @ [index]\<rparr>, Inl e)
            | Inr checksum \<Rightarrow>
                generate_to nxt dumps wanted allow_end
                  (r\<lparr>sa_iterator := iterator, sa_indices := sa_indices r @ [index],
                     sa_checksums := sa_checksums r @ [checksum]\<rparr>)))"
  by pat_completeness auto
termination
  by (relation "measure (\<lambda>(_, _, wanted, _, r). nat (wanted - int (length (sa_indices r))))") auto

declare generate_to.simps [simp del]

definition mismatch_error :: py_error where
  "mismatch_error = ValueError
    ''sampler checksum mismatch while restoring the delivered prefix; the sampler is nondeterministic or this rank's state belongs to a different rank''"

definition verify_checksum :: "int \<Rightarrow> int \<Rightarrow> unit res" where
  "verify_checksum expected actual = (if expected \<noteq> actual then Inl mismatch_error else Inr ())"

definition or_one :: "int option \<Rightarrow> int" where
  \<comment> \<open>\<^verbatim>\<open>batch_size or 1\<close>\<close>
  "or_one b = (case b of None \<Rightarrow> 1 | Some n \<Rightarrow> if n = 0 then 1 else n)"

definition new_sampler ::
    "('s, 'a) source \<Rightarrow> 'a dumps \<Rightarrow> int option \<Rightarrow> 's \<Rightarrow> int option \<Rightarrow> bool \<Rightarrow> int \<Rightarrow> int \<Rightarrow> ('s, 'a) sampler_runtime res"
  where
  "new_sampler nxt dumps declared iterator batch_size drop_last cursor_batches expected_checksum =
    (if (case declared of None \<Rightarrow> False | Some n \<Rightarrow> n < 0)
     then Inl (ValueError ''user sampler length must be nonnegative'')
     else
       let resolved_batch = or_one batch_size;
           requested_start = cursor_batches * resolved_batch
       in case generate_to nxt dumps requested_start True
                 \<lparr>sa_length = declared, sa_iterator = iterator, sa_indices = [], sa_checksums = [0],
                  sa_exhausted = False, sa_start_samples = 0\<rparr> of
            (_, Inl e) \<Rightarrow> Inl e
          | (r, Inr _) \<Rightarrow>
              let start_samples = min requested_start (int (length (sa_indices r)));
                  r = r\<lparr>sa_start_samples := start_samples\<rparr>;
                  full_batches = int (length (sa_indices r)) div resolved_batch;
                  remainder = int (length (sa_indices r)) mod resolved_batch;
                  available_batches = full_batches + (if remainder \<noteq> 0 \<and> \<not> drop_last then 1 else 0)
              in if sa_exhausted r \<and> available_batches < cursor_batches then Inl mismatch_error
                 else rmap (\<lambda>_. r) (verify_checksum expected_checksum (sa_checksums r ! nat start_samples)))"

definition runtime_index ::
    "('s, 'a) source \<Rightarrow> 'a dumps \<Rightarrow> int \<Rightarrow> ('s, 'a) sampler_runtime \<Rightarrow> ('s, 'a) sampler_runtime \<times> 'a res" where
  "runtime_index nxt dumps position r =
    (if position < 0 then (r, Inl (IndexError ''sampler position is outside the declared stream''))
     else case generate_to nxt dumps (position + 1) True r of
            (r, Inl e) \<Rightarrow> (r, Inl e)
          | (r, Inr _) \<Rightarrow>
              if int (length (sa_indices r)) \<le> position
              then (r, Inl (IndexError ''sampler position is outside the produced stream''))
              else (r, Inr (sa_indices r ! nat position)))"

definition has_index ::
    "('s, 'a) source \<Rightarrow> 'a dumps \<Rightarrow> int \<Rightarrow> ('s, 'a) sampler_runtime \<Rightarrow> ('s, 'a) sampler_runtime \<times> bool res" where
  "has_index nxt dumps position r =
    (if position < 0 then (r, Inr False)
     else case generate_to nxt dumps (position + 1) True r of
            (r, Inl e) \<Rightarrow> (r, Inl e)
          | (r, Inr _) \<Rightarrow> (r, Inr (position < int (length (sa_indices r)))))"

definition sampler_checksum_at ::
    "('s, 'a) source \<Rightarrow> 'a dumps \<Rightarrow> int \<Rightarrow> ('s, 'a) sampler_runtime \<Rightarrow> ('s, 'a) sampler_runtime \<times> int res" where
  "sampler_checksum_at nxt dumps delivered_samples r =
    (if delivered_samples < 0 then (r, Inl (ValueError ''delivered sampler prefix is outside the stream''))
     else case generate_to nxt dumps delivered_samples False r of
            (r, Inl e) \<Rightarrow> (r, Inl e)
          | (r, Inr _) \<Rightarrow> (r, Inr (sa_checksums r ! nat delivered_samples)))"

definition sampler_probe ::
    "('s, 'a) source \<Rightarrow> 'a dumps \<Rightarrow> ('s, 'a) sampler_runtime \<Rightarrow> ('s, 'a) sampler_runtime \<times> (int \<times> 'a) option res" where
  "sampler_probe nxt dumps r =
    (case has_index nxt dumps (sa_start_samples r) r of
       (r, Inl e) \<Rightarrow> (r, Inl e)
     | (r, Inr False) \<Rightarrow> (r, Inr None)
     | (r, Inr True) \<Rightarrow>
         (case runtime_index nxt dumps (sa_start_samples r) r of
            (r, Inl e) \<Rightarrow> (r, Inl e)
          | (r, Inr index) \<Rightarrow> (r, Inr (Some (sa_start_samples r, index)))))"

section \<open>The batch stream\<close>

text \<open>\<open>tuple_of\<close> is \<^verbatim>\<open>tuple(raw_batch)\<close>: \<open>None\<close> is its \<^verbatim>\<open>TypeError\<close>.\<close>

record ('s, 'a) batch_runtime =
  ba_length :: "int option"
  ba_start_batch :: int
  ba_iterator :: 's
  ba_batches :: "'a list list"
  ba_sample_offsets :: "int list"
  ba_checksums :: "int list"
  ba_exhausted :: bool

fun batch_checksum :: "'a dumps \<Rightarrow> int \<Rightarrow> 'a list \<Rightarrow> int res" where
  "batch_checksum dumps checksum [] = Inr checksum"
| "batch_checksum dumps checksum (index # batch) =
    rbind (update_checksum dumps checksum index) (\<lambda>checksum. batch_checksum dumps checksum batch)"

function generate_batches ::
    "('s, 'b) source \<Rightarrow> ('b \<Rightarrow> 'a list option) \<Rightarrow> 'a dumps \<Rightarrow> int \<Rightarrow> bool \<Rightarrow> ('s, 'a) batch_runtime \<Rightarrow>
     ('s, 'a) batch_runtime \<times> unit res"
  where
  "generate_batches nxt tuple_of dumps wanted allow_end r =
    (if \<not> int (length (ba_batches r)) < wanted then (r, Inr ())
     else if ba_exhausted r then
       (r, if allow_end then Inr () else Inl (RuntimeError ''user batch_sampler ended before the delivered prefix''))
     else
       case nxt (ba_iterator r) of
         (iterator, Inl e) \<Rightarrow>
           if e = StopIteration then
             (r\<lparr>ba_iterator := iterator, ba_exhausted := True\<rparr>,
              if allow_end then Inr () else Inl (RuntimeError ''user batch_sampler ended before its declared length''))
           else (r\<lparr>ba_iterator := iterator\<rparr>, Inl e)
       | (iterator, Inr raw_batch) \<Rightarrow>
           let r = r\<lparr>ba_iterator := iterator\<rparr> in
           (case tuple_of raw_batch of
              None \<Rightarrow> (r, Inl (TypeError ''user batch_sampler batches must be iterable''))
            | Some batch \<Rightarrow>
                (case batch_checksum dumps (update_boundary (last (ba_checksums r)) (int (length batch))) batch of
                   Inl e \<Rightarrow> (r, Inl e)
                 | Inr checksum \<Rightarrow>
                     generate_batches nxt tuple_of dumps wanted allow_end
                       (r\<lparr>ba_batches := ba_batches r @ [batch],
                          ba_sample_offsets := ba_sample_offsets r @ [last (ba_sample_offsets r) + int (length batch)],
                          ba_checksums := ba_checksums r @ [checksum]\<rparr>))))"
  by pat_completeness auto
termination
  by (relation "measure (\<lambda>(_, _, _, wanted, _, r). nat (wanted - int (length (ba_batches r))))") auto

declare generate_batches.simps [simp del]

definition new_batch_sampler ::
    "('s, 'b) source \<Rightarrow> ('b \<Rightarrow> 'a list option) \<Rightarrow> 'a dumps \<Rightarrow> int option \<Rightarrow> 's \<Rightarrow> int \<Rightarrow> int \<Rightarrow> ('s, 'a) batch_runtime res"
  where
  "new_batch_sampler nxt tuple_of dumps declared iterator cursor_batches expected_checksum =
    (if (case declared of None \<Rightarrow> False | Some n \<Rightarrow> n < 0)
     then Inl (ValueError ''user batch_sampler length must be nonnegative'')
     else
       case generate_batches nxt tuple_of dumps cursor_batches True
              \<lparr>ba_length = declared, ba_start_batch = cursor_batches, ba_iterator = iterator, ba_batches = [],
               ba_sample_offsets = [0], ba_checksums = [0], ba_exhausted = False\<rparr> of
         (_, Inl e) \<Rightarrow> Inl e
       | (r, Inr _) \<Rightarrow>
           if int (length (ba_batches r)) < cursor_batches then Inl mismatch_error
           else rmap (\<lambda>_. r) (verify_checksum expected_checksum (ba_checksums r ! nat cursor_batches)))"

definition batch_at ::
    "('s, 'b) source \<Rightarrow> ('b \<Rightarrow> 'a list option) \<Rightarrow> 'a dumps \<Rightarrow> int \<Rightarrow> ('s, 'a) batch_runtime \<Rightarrow>
     ('s, 'a) batch_runtime \<times> 'a list res" where
  "batch_at nxt tuple_of dumps ordinal r =
    (if ordinal < 0 then (r, Inl (IndexError ''batch sampler position is outside the declared stream''))
     else case generate_batches nxt tuple_of dumps (ordinal + 1) True r of
            (r, Inl e) \<Rightarrow> (r, Inl e)
          | (r, Inr _) \<Rightarrow>
              if int (length (ba_batches r)) \<le> ordinal
              then (r, Inl (IndexError ''batch sampler position is outside the produced stream''))
              else (r, Inr (ba_batches r ! nat ordinal)))"

definition has_batch ::
    "('s, 'b) source \<Rightarrow> ('b \<Rightarrow> 'a list option) \<Rightarrow> 'a dumps \<Rightarrow> int \<Rightarrow> ('s, 'a) batch_runtime \<Rightarrow>
     ('s, 'a) batch_runtime \<times> bool res" where
  "has_batch nxt tuple_of dumps ordinal r =
    (if ordinal < 0 then (r, Inr False)
     else case generate_batches nxt tuple_of dumps (ordinal + 1) True r of
            (r, Inl e) \<Rightarrow> (r, Inl e)
          | (r, Inr _) \<Rightarrow> (r, Inr (ordinal < int (length (ba_batches r)))))"

text \<open>\<^verbatim>\<open>sample_offset\<close> is called for the ordinals of batches that exist, which are not negative.\<close>

definition sample_offset ::
    "('s, 'b) source \<Rightarrow> ('b \<Rightarrow> 'a list option) \<Rightarrow> 'a dumps \<Rightarrow> int \<Rightarrow> ('s, 'a) batch_runtime \<Rightarrow>
     ('s, 'a) batch_runtime \<times> int res" where
  "sample_offset nxt tuple_of dumps ordinal r =
    (case generate_batches nxt tuple_of dumps ordinal False r of
       (r, Inl e) \<Rightarrow> (r, Inl e)
     | (r, Inr _) \<Rightarrow> (r, Inr (ba_sample_offsets r ! nat ordinal)))"

definition batch_checksum_at ::
    "('s, 'b) source \<Rightarrow> ('b \<Rightarrow> 'a list option) \<Rightarrow> 'a dumps \<Rightarrow> int \<Rightarrow> ('s, 'a) batch_runtime \<Rightarrow>
     ('s, 'a) batch_runtime \<times> int res" where
  "batch_checksum_at nxt tuple_of dumps delivered_batches r =
    (if delivered_batches < 0 then (r, Inl (ValueError ''delivered batch-sampler prefix is outside the stream''))
     else case generate_batches nxt tuple_of dumps delivered_batches False r of
            (r, Inl e) \<Rightarrow> (r, Inl e)
          | (r, Inr _) \<Rightarrow> (r, Inr (ba_checksums r ! nat delivered_batches)))"

definition batch_probe ::
    "('s, 'b) source \<Rightarrow> ('b \<Rightarrow> 'a list option) \<Rightarrow> 'a dumps \<Rightarrow> ('s, 'a) batch_runtime \<Rightarrow>
     ('s, 'a) batch_runtime \<times> (int \<times> 'a) option res" where
  "batch_probe nxt tuple_of dumps r =
    (case has_batch nxt tuple_of dumps (ba_start_batch r) r of
       (r, Inl e) \<Rightarrow> (r, Inl e)
     | (r, Inr False) \<Rightarrow> (r, Inr None)
     | (r, Inr True) \<Rightarrow>
         (case batch_at nxt tuple_of dumps (ba_start_batch r) r of
            (r, Inl e) \<Rightarrow> (r, Inl e)
          | (r, Inr batch) \<Rightarrow>
              if batch = [] then (r, Inl (ValueError ''user batch_sampler yielded an empty batch''))
              else (case sample_offset nxt tuple_of dumps (ba_start_batch r) r of
                      (r, Inl e) \<Rightarrow> (r, Inl e)
                    | (r, Inr offset) \<Rightarrow> (r, Inr (Some (offset, hd batch))))))"

section \<open>CRC-32 separates single bytes\<close>

definition u32 :: "int \<Rightarrow> bool" where "u32 c \<longleftrightarrow> 0 \<le> c \<and> c < 2 ^ 32"
definition u8 :: "int \<Rightarrow> bool" where "u8 b \<longleftrightarrow> 0 \<le> b \<and> b < 2 ^ 8"

lemma u32_take_bit: "u32 c \<longleftrightarrow> take_bit 32 c = c"
  by (simp add: u32_def take_bit_int_eq_self_iff)

lemma u32_xor: "u32 c \<Longrightarrow> u32 d \<Longrightarrow> u32 (c XOR d)"
  by (simp add: u32_take_bit take_bit_xor)

lemma u8_u32: "u8 b \<Longrightarrow> u32 b"
  by (simp add: u8_def u32_def)

lemma u32_const: "u32 0xEDB88320" "u32 0xFFFFFFFF"
  by (simp_all add: u32_def)

lemma u32_half: "u32 c \<Longrightarrow> 0 \<le> drop_bit 1 c \<and> drop_bit 1 c < 2 ^ 31"
  unfolding u32_def drop_bit_eq_div power_one_right by simp presburger

lemma u32_crc_bit:
  assumes "u32 c"
  shows "u32 (crc_bit c)"
proof -
  have "u32 (drop_bit 1 c)" using u32_half [OF assms] by (simp add: u32_def)
  then show ?thesis using u32_xor [OF _ u32_const(1)] by (simp add: crc_bit_def)
qed

lemma crc_bit_top:
  assumes "u32 c"
  shows "bit (crc_bit c) 31 \<longleftrightarrow> odd c"
proof -
  have "\<not> bit (drop_bit 1 c) 31"
    using u32_half [OF assms] by (simp add: bit_iff_odd drop_bit_eq_div)
  moreover have "bit (0xEDB88320 :: int) 31" by (simp add: bit_iff_odd)
  ultimately show ?thesis by (simp add: crc_bit_def bit_xor_iff)
qed

lemma crc_bit_inj:
  assumes "u32 c" "u32 d" "crc_bit c = crc_bit d"
  shows "c = d"
proof -
  have parity: "odd c \<longleftrightarrow> odd d" using crc_bit_top assms by metis
  then have "drop_bit 1 c = drop_bit 1 d"
    using assms(3) by (auto simp: crc_bit_def xor_right_cancel split: if_splits)
  then have "c div 2 = d div 2" by (simp add: drop_bit_eq_div)
  with parity show ?thesis by (metis bit_eq_rec)
qed

lemma crc_bits_inj: "u32 c \<Longrightarrow> u32 d \<Longrightarrow> (crc_bit ^^ n) c = (crc_bit ^^ n) d \<Longrightarrow> c = d"
proof (induction n arbitrary: c d)
  case (Suc n)
  then have "crc_bit c = crc_bit d"
    using Suc.IH [of "crc_bit c" "crc_bit d"] by (simp add: u32_crc_bit funpow_swap1)
  then show ?case by (rule crc_bit_inj [OF Suc.prems(1,2)])
qed simp

lemma u32_crc_bits: "u32 c \<Longrightarrow> u32 ((crc_bit ^^ n) c)"
  by (induction n) (simp_all add: u32_crc_bit)

lemma u32_crc_byte: "u32 c \<Longrightarrow> u8 b \<Longrightarrow> u32 (crc_byte c b)"
  unfolding crc_byte_def by (rule u32_crc_bits [OF u32_xor [OF _ u8_u32]])

lemma crc_byte_inj:
  assumes "u32 c" "u32 d" "u8 b" "crc_byte c b = crc_byte d b"
  shows "c = d"
proof -
  have "c XOR b = d XOR b"
    using crc_bits_inj [OF u32_xor [OF assms(1) u8_u32] u32_xor [OF assms(2) u8_u32]] assms(3,4)
    unfolding crc_byte_def by blast
  then show ?thesis by (simp add: xor_right_cancel)
qed

lemma crc_byte_data_inj:
  assumes "u32 c" "u8 a" "u8 b" "crc_byte c a = crc_byte c b"
  shows "a = b"
proof -
  have "c XOR a = c XOR b"
    using crc_bits_inj [OF u32_xor [OF assms(1) u8_u32] u32_xor [OF assms(1) u8_u32]] assms(2-4)
    unfolding crc_byte_def by blast
  then show ?thesis by (simp add: xor_left_cancel)
qed

lemma u32_fold: "u32 c \<Longrightarrow> \<forall>b\<in>set data. u8 b \<Longrightarrow> u32 (foldl crc_byte c data)"
  by (induction data arbitrary: c) (simp_all add: u32_crc_byte)

lemma crc_fold_inj:
  "u32 c \<Longrightarrow> u32 d \<Longrightarrow> \<forall>b\<in>set data. u8 b \<Longrightarrow> foldl crc_byte c data = foldl crc_byte d data \<Longrightarrow> c = d"
proof (induction data arbitrary: c d)
  case (Cons a data)
  then have "crc_byte c a = crc_byte d a" by (simp add: u32_crc_byte)
  with Cons.prems show ?case by (auto intro: crc_byte_inj)
qed simp

definition bytes_ok :: "int list \<Rightarrow> bool" where "bytes_ok data \<longleftrightarrow> (\<forall>b\<in>set data. u8 b)"

lemma u32_crc32: "u32 c \<Longrightarrow> bytes_ok data \<Longrightarrow> u32 (crc32 data c)"
  unfolding crc32_def bytes_ok_def by (intro u32_xor u32_fold u32_const) simp_all

lemma crc32_start_inj: "u32 c \<Longrightarrow> u32 d \<Longrightarrow> bytes_ok data \<Longrightarrow> crc32 data c = crc32 data d \<Longrightarrow> c = d"
  unfolding crc32_def bytes_ok_def xor_right_cancel
  using crc_fold_inj [of "c XOR 0xFFFFFFFF" "d XOR 0xFFFFFFFF" data] u32_xor [OF _ u32_const(2)]
  by (simp add: xor_right_cancel)

lemma crc32_single_byte:
  assumes "u32 c" "bytes_ok (p @ a # q)" "u8 b" "crc32 (p @ a # q) c = crc32 (p @ b # q) c"
  shows "a = b"
proof -
  let ?c = "foldl crc_byte (c XOR 0xFFFFFFFF) p"
  have c: "u32 ?c" using assms by (intro u32_fold u32_xor u32_const) (simp_all add: bytes_ok_def)
  from assms(4) have "foldl crc_byte (crc_byte ?c a) q = foldl crc_byte (crc_byte ?c b) q"
    by (simp add: crc32_def xor_right_cancel)
  then have "crc_byte ?c a = crc_byte ?c b"
    by (rule crc_fold_inj [rotated 3]) (use assms c in \<open>simp_all add: bytes_ok_def u32_crc_byte\<close>)
  then show ?thesis
    by (rule crc_byte_data_inj [rotated 3]) (use assms c in \<open>simp_all add: bytes_ok_def\<close>)
qed

lemma bytes_ok_little_endian: "bytes_ok (little_endian n v)"
  by (induction n arbitrary: v) (simp_all add: bytes_ok_def u8_def)

section \<open>Reading a stream lazily\<close>

text \<open>
  What the two runtimes share: items read of a source on demand, with a rolling checksum after each.
  \<open>yields nxt it xs it'\<close>: from the iterator state \<open>it\<close> the source gives \<open>xs\<close> and is in
  \<open>it'\<close>; \<open>rolls\<close> are the checksums after each of them.
\<close>

fun yields :: "('s, 'a) source \<Rightarrow> 's \<Rightarrow> 'a list \<Rightarrow> 's \<Rightarrow> bool" where
  "yields nxt it [] it' \<longleftrightarrow> it' = it"
| "yields nxt it (x # xs) it' \<longleftrightarrow> (case nxt it of (it1, Inr y) \<Rightarrow> y = x \<and> yields nxt it1 xs it' | _ \<Rightarrow> False)"

fun rolls :: "(int \<Rightarrow> 'a \<Rightarrow> int res) \<Rightarrow> int \<Rightarrow> 'a list \<Rightarrow> int list \<Rightarrow> bool" where
  "rolls upd c [] cs \<longleftrightarrow> cs = []"
| "rolls upd c (x # xs) cs \<longleftrightarrow>
     (case cs of [] \<Rightarrow> False | d # ds \<Rightarrow> upd c x = Inr d \<and> rolls upd d xs ds)"

lemma yields_Cons [simp]:
  "yields nxt it (x # xs) it' \<longleftrightarrow> (\<exists>it1. nxt it = (it1, Inr x) \<and> yields nxt it1 xs it')"
  by (auto split: prod.splits sum.splits)

lemma rolls_Cons [simp]:
  "rolls upd c (x # xs) cs \<longleftrightarrow> (\<exists>d ds. cs = d # ds \<and> upd c x = Inr d \<and> rolls upd d xs ds)"
  by (cases cs) auto

declare yields.simps(2) [simp del] rolls.simps(2) [simp del]

lemma yields_append: "yields nxt it (xs @ ys) it' \<longleftrightarrow> (\<exists>it1. yields nxt it xs it1 \<and> yields nxt it1 ys it')"
  by (induction xs arbitrary: it) auto

lemma rolls_length: "rolls upd c xs cs \<Longrightarrow> length cs = length xs"
  by (induction xs arbitrary: c cs) auto

lemma rolls_snoc: "rolls upd c xs cs \<Longrightarrow> upd (last (c # cs)) x = Inr d \<Longrightarrow> rolls upd c (xs @ [x]) (cs @ [d])"
  by (induction xs arbitrary: c cs) auto

lemma rolls_last: "rolls upd c (xs @ [x]) (cs @ [d]) \<Longrightarrow> upd (last (c # cs)) x = Inr d"
proof (induction xs arbitrary: c cs)
  case Nil
  then show ?case by (cases cs) auto
next
  case (Cons y ys)
  then show ?case by (cases cs) (auto dest: rolls_length)
qed

lemma rolls_take: "rolls upd c xs cs \<Longrightarrow> rolls upd c (take n xs) (take n cs)"
  by (induction xs arbitrary: c cs n) (auto simp: take_Cons' split: if_splits)

lemma rolls_det: "rolls upd c xs cs \<Longrightarrow> rolls upd c xs ds \<Longrightarrow> ds = cs"
  by (induction xs arbitrary: c cs ds) auto

lemma yields_det: "yields nxt it xs u \<Longrightarrow> yields nxt it xs v \<Longrightarrow> v = u"
  by (induction xs arbitrary: it) auto

text \<open>Two prefixes of one source: the shorter is a prefix of the longer.\<close>

lemma yields_comparable:
  "yields nxt it xs u \<Longrightarrow> yields nxt it ys v \<Longrightarrow> length xs \<le> length ys \<Longrightarrow> take (length xs) ys = xs"
proof (induction xs arbitrary: it ys)
  case (Cons x xs)
  then obtain y zs where "ys = y # zs" by (cases ys) auto
  with Cons show ?case by auto
qed simp

record ('s, 'a) reader =
  rd_iterator :: 's
  rd_items :: "'a list"
  rd_rolls :: "int list"
  rd_exhausted :: bool

function read_to :: "('s, 'a) source \<Rightarrow> (int \<Rightarrow> 'a \<Rightarrow> int res) \<Rightarrow> int \<Rightarrow> ('s, 'a) reader \<Rightarrow> ('s, 'a) reader option"
  where
  "read_to nxt upd n r =
    (if n \<le> int (length (rd_items r)) \<or> rd_exhausted r then Some r
     else case nxt (rd_iterator r) of
            (it, Inl e) \<Rightarrow> if e = StopIteration then Some (r\<lparr>rd_iterator := it, rd_exhausted := True\<rparr>) else None
          | (it, Inr x) \<Rightarrow>
              (case upd (last (rd_rolls r)) x of
                 Inl _ \<Rightarrow> None
               | Inr c \<Rightarrow>
                   read_to nxt upd n (r\<lparr>rd_iterator := it, rd_items := rd_items r @ [x], rd_rolls := rd_rolls r @ [c]\<rparr>)))"
  by pat_completeness auto
termination
  by (relation "measure (\<lambda>(_, _, n, r). nat (n - int (length (rd_items r))))") auto

declare read_to.simps [simp del]

definition follows :: "('s, 'a) source \<Rightarrow> (int \<Rightarrow> 'a \<Rightarrow> int res) \<Rightarrow> 's \<Rightarrow> ('s, 'a) reader \<Rightarrow> bool" where
  "follows nxt upd it r \<longleftrightarrow>
     (\<exists>it' cs. yields nxt it (rd_items r) it' \<and> rd_rolls r = 0 # cs \<and> rolls upd 0 (rd_items r) cs \<and>
        (if rd_exhausted r then snd (nxt it') = Inl StopIteration else it' = rd_iterator r))"

definition fresh_reader :: "'s \<Rightarrow> ('s, 'a) reader" where
  "fresh_reader it = \<lparr>rd_iterator = it, rd_items = [], rd_rolls = [0], rd_exhausted = False\<rparr>"

lemma follows_fresh: "follows nxt upd it (fresh_reader it)"
  by (simp add: follows_def fresh_reader_def)

lemma read_to_follows:
  "follows nxt upd it r \<Longrightarrow> read_to nxt upd n r = Some t \<Longrightarrow>
   follows nxt upd it t \<and> (n \<le> int (length (rd_items t)) \<or> rd_exhausted t)"
proof (induction nxt upd n r rule: read_to.induct)
  case (1 nxt upd n r)
  show ?case
  proof (cases "n \<le> int (length (rd_items r)) \<or> rd_exhausted r")
    case True
    with "1.prems" show ?thesis by (auto simp: read_to.simps [of nxt upd n])
  next
    case False
    obtain i o1 where n: "nxt (rd_iterator r) = (i, o1)" by (cases "nxt (rd_iterator r)")
    obtain cs where f: "yields nxt it (rd_items r) (rd_iterator r)" "rd_rolls r = 0 # cs"
      "rolls upd 0 (rd_items r) cs" using "1.prems"(1) False by (auto simp: follows_def)
    show ?thesis
    proof (cases o1)
      case (Inl e)
      with False n "1.prems"(2) have t: "t = r\<lparr>rd_iterator := i, rd_exhausted := True\<rparr>" "e = StopIteration"
        by (auto simp: read_to.simps [of nxt upd n] split: if_splits)
      with f n Inl show ?thesis by (auto simp: follows_def)
    next
      case (Inr x)
      with False n "1.prems"(2) obtain c where c: "upd (last (rd_rolls r)) x = Inr c"
        by (cases "upd (last (rd_rolls r)) x") (auto simp: read_to.simps [of nxt upd n])
      let ?r = "r\<lparr>rd_iterator := i, rd_items := rd_items r @ [x], rd_rolls := rd_rolls r @ [c]\<rparr>"
      have "follows nxt upd it ?r"
        using f n Inr c False rolls_snoc [OF f(3), of x c] by (auto simp: follows_def yields_append)
      moreover have "read_to nxt upd n ?r = Some t"
        using "1.prems"(2) False n Inr c by (simp add: read_to.simps [of nxt upd n r])
      ultimately show ?thesis
        by (intro "1.IH" [of i o1 x c]) (use False n Inr c in simp_all)
    qed
  qed
qed

lemma read_to_exact:
  "follows nxt upd it r \<Longrightarrow> \<not> rd_exhausted r \<Longrightarrow> yields nxt it xs u \<Longrightarrow> rolls upd 0 xs cs \<Longrightarrow>
   length (rd_items r) \<le> n \<Longrightarrow> n \<le> length xs \<Longrightarrow>
   \<exists>t. read_to nxt upd (int n) r = Some t \<and> rd_items t = take n xs \<and> rd_rolls t = 0 # take n cs \<and> \<not> rd_exhausted t"
proof (induction "n - length (rd_items r)" arbitrary: r)
  case 0
  then obtain cs' where "rd_rolls r = 0 # cs'" "rolls upd 0 (rd_items r) cs'" "yields nxt it (rd_items r) (rd_iterator r)"
    by (auto simp: follows_def)
  moreover from this have "rd_items r = take n xs"
    using yields_comparable [OF _ "0.prems"(3), of "rd_items r"] 0 by (metis diff_is_0_eq le_antisym)
  ultimately have "cs' = take n cs" using rolls_det rolls_take [OF "0.prems"(4), of n] by metis
  with 0 \<open>rd_items r = take n xs\<close> \<open>rd_rolls r = 0 # cs'\<close> show ?case
    by (auto simp: read_to.simps [of nxt upd "int n"])
next
  case (Suc m)
  then obtain cs' where f: "rd_rolls r = 0 # cs'" "rolls upd 0 (rd_items r) cs'"
    "yields nxt it (rd_items r) (rd_iterator r)" by (auto simp: follows_def)
  let ?k = "length (rd_items r)"
  have k: "?k < n" "?k < length xs" using Suc.hyps(2) Suc.prems(6) by simp_all
  have pre: "rd_items r = take ?k xs" using yields_comparable [OF f(3) Suc.prems(3)] k by simp
  have "xs = rd_items r @ xs ! ?k # drop (Suc ?k) xs"
    using pre k(2) id_take_nth_drop [of ?k xs] by simp
  with Suc.prems(3) obtain i where i: "nxt (rd_iterator r) = (i, Inr (xs ! ?k))"
    using yields_det [OF f(3)] by (metis yields_append yields_Cons)
  have "take (Suc ?k) xs = rd_items r @ [xs ! ?k]" using pre k(2) by (simp add: take_Suc_conv_app_nth)
  then have "rolls upd 0 (rd_items r @ [xs ! ?k]) (take (Suc ?k) cs)"
    using rolls_take [OF Suc.prems(4), of "Suc ?k"] by simp
  moreover have "cs' = take ?k cs" using rolls_det [OF f(2)] rolls_take [OF Suc.prems(4), of ?k] pre by metis
  moreover have len: "length cs = length xs" by (rule rolls_length [OF Suc.prems(4)])
  ultimately have c: "upd (last (rd_rolls r)) (xs ! ?k) = Inr (cs ! ?k)"
    and s: "rolls upd 0 (rd_items r @ [xs ! ?k]) (cs' @ [cs ! ?k])"
    using f(1,2) k(2) rolls_last [of upd 0 "rd_items r" "xs ! ?k" cs' "cs ! ?k"]
    by (simp_all add: take_Suc_conv_app_nth)
  let ?r = "r\<lparr>rd_iterator := i, rd_items := rd_items r @ [xs ! ?k], rd_rolls := rd_rolls r @ [cs ! ?k]\<rparr>"
  have "read_to nxt upd (int n) r = read_to nxt upd (int n) ?r"
    using k i c Suc.prems(2) by (simp add: read_to.simps [of nxt upd _ r])
  moreover have "follows nxt upd it ?r"
    using f s i Suc.prems(2) by (auto simp: follows_def yields_append)
  ultimately show ?case using Suc.hyps(1) [of ?r] Suc.hyps(2) Suc.prems k by simp
qed

lemma read_to_twice: "read_to nxt upd m r = Some s \<Longrightarrow> m \<le> n \<Longrightarrow> read_to nxt upd n r = read_to nxt upd n s"
proof (induction nxt upd m r rule: read_to.induct)
  case (1 nxt upd m r)
  show ?case
  proof (cases "m \<le> int (length (rd_items r)) \<or> rd_exhausted r")
    case True
    with "1.prems"(1) show ?thesis by (simp add: read_to.simps [of nxt upd m])
  next
    case False
    obtain i o1 where n: "nxt (rd_iterator r) = (i, o1)" by (cases "nxt (rd_iterator r)")
    show ?thesis
    proof (cases o1)
      case (Inl e)
      with False n "1.prems" show ?thesis
        by (auto simp: read_to.simps [of nxt upd m] read_to.simps [of nxt upd n] split: if_splits)
    next
      case (Inr x)
      with False n "1.prems"(1) obtain c where c: "upd (last (rd_rolls r)) x = Inr c"
        by (cases "upd (last (rd_rolls r)) x") (auto simp: read_to.simps [of nxt upd m])
      let ?r = "r\<lparr>rd_iterator := i, rd_items := rd_items r @ [x], rd_rolls := rd_rolls r @ [c]\<rparr>"
      have "read_to nxt upd m ?r = Some s"
        using "1.prems"(1) False n Inr c by (simp add: read_to.simps [of nxt upd m r])
      then have "read_to nxt upd n ?r = read_to nxt upd n s"
        using "1.IH" [of i o1 x c] "1.prems"(2) False n Inr c by simp
      then show ?thesis using False n Inr c "1.prems"(2) by (simp add: read_to.simps [of nxt upd n r])
    qed
  qed
qed

text \<open>
  The contract of a runtime: its generator reads its source as \<open>read_to\<close> does, and fails in
  addition when the end of the source is not allowed.
\<close>

locale lazy_runtime =
  fixes nxt :: "('s, 'a) source" and upd :: "int \<Rightarrow> 'a \<Rightarrow> int res"
    and core :: "'r \<Rightarrow> ('s, 'a) reader"
    and generate :: "int \<Rightarrow> bool \<Rightarrow> 'r \<Rightarrow> 'r \<times> unit res"
  assumes lenient: "(case generate n True r of (t, Inr _) \<Rightarrow> Some (core t) | _ \<Rightarrow> None) = read_to nxt upd n (core r)"
    and strict: "generate n False r = (t, Inr u) \<longleftrightarrow> generate n True r = (t, Inr u) \<and> n \<le> int (length (rd_items (core t)))"
begin

lemma generate_read: "generate n b r = (t, Inr u) \<Longrightarrow> read_to nxt upd n (core r) = Some (core t)"
  using lenient [of n r] strict [of n r t u] by (cases b) simp_all

lemma read_generate:
  assumes "read_to nxt upd n (core r) = Some c"
  shows "\<exists>t. generate n True r = (t, Inr ()) \<and> core t = c"
  using assms lenient [of n r] by (cases "generate n True r") (auto split: sum.splits)

lemma generate_follows:
  "follows nxt upd it (core r) \<Longrightarrow> generate n b r = (t, Inr u) \<Longrightarrow>
   follows nxt upd it (core t) \<and> (n \<le> int (length (rd_items (core t))) \<or> rd_exhausted (core t) \<and> b)"
  using read_to_follows [OF _ generate_read] strict [of n r t u] by (cases b) auto

lemma items_agree:
  assumes "follows nxt upd it (core r)" "follows nxt upd it (core t)"
    and "k < length (rd_items (core r))" "k < length (rd_items (core t))"
  shows "rd_items (core r) ! k = rd_items (core t) ! k"
proof -
  have *: "rd_items c ! k = rd_items d ! k"
    if "follows nxt upd it c" "follows nxt upd it d" "k < length (rd_items c)" "length (rd_items c) \<le> length (rd_items d)"
    for c d :: "('s, 'a) reader"
    using that yields_comparable by (metis follows_def nth_take)
  show ?thesis
  proof (cases "length (rd_items (core r)) \<le> length (rd_items (core t))")
    case True
    with * [OF assms(1,2,3)] show ?thesis by simp
  next
    case False
    with * [OF assms(2,1,4)] show ?thesis by simp
  qed
qed

lemma longer_not_exhausted:
  assumes "follows nxt upd it (core r)" "follows nxt upd it (core t)" "rd_exhausted (core r)"
  shows "length (rd_items (core t)) \<le> length (rd_items (core r))"
proof (rule ccontr)
  let ?m = "length (rd_items (core r))"
  assume "\<not> ?thesis"
  then have m: "?m < length (rd_items (core t))" by simp
  obtain u v where u: "yields nxt it (rd_items (core r)) u" "snd (nxt u) = Inl StopIteration"
    and v: "yields nxt it (rd_items (core t)) v" using assms by (auto simp: follows_def)
  have "rd_items (core t) = rd_items (core r) @ rd_items (core t) ! ?m # drop (Suc ?m) (rd_items (core t))"
    using yields_comparable [OF u(1) v] m id_take_nth_drop [OF m] by simp
  with v obtain w it1 x where w: "yields nxt it (rd_items (core r)) w" "nxt w = (it1, Inr x)"
    by (metis yields_append yields_Cons)
  from yields_det [OF u(1) w(1)] u(2) w(2) show False by simp
qed

text \<open>A second runtime of the same source reads the same prefix without an error.\<close>

lemma replay:
  assumes "follows nxt upd it (core r)" "core fresh = fresh_reader it" "n \<le> length (rd_items (core r))"
  shows "\<exists>t. generate (int n) True fresh = (t, Inr ()) \<and> rd_items (core t) = take n (rd_items (core r)) \<and>
    rd_rolls (core t) = take (n + 1) (rd_rolls (core r)) \<and> \<not> rd_exhausted (core t)"
proof -
  obtain u cs where r: "yields nxt it (rd_items (core r)) u" "rd_rolls (core r) = 0 # cs"
    "rolls upd 0 (rd_items (core r)) cs" using assms(1) by (auto simp: follows_def)
  have "follows nxt upd it (core fresh)" by (simp add: assms(2) follows_fresh)
  from read_to_exact [OF this _ r(1,3), of n] assms(2,3) r(2) show ?thesis
    using read_generate by (fastforce simp: fresh_reader_def)
qed

lemma replay_end:
  assumes "follows nxt upd it (core r)" "core fresh = fresh_reader it" "rd_exhausted (core r)"
    and "int (length (rd_items (core r))) < n"
  shows "\<exists>t. generate n True fresh = (t, Inr ()) \<and> rd_items (core t) = rd_items (core r) \<and>
    rd_rolls (core t) = rd_rolls (core r) \<and> rd_exhausted (core t)"
proof -
  let ?m = "length (rd_items (core r))"
  obtain u cs where r: "yields nxt it (rd_items (core r)) u" "snd (nxt u) = Inl StopIteration"
    "rd_rolls (core r) = 0 # cs" "rolls upd 0 (rd_items (core r)) cs"
    using assms(1,3) by (auto simp: follows_def)
  obtain s where s: "generate (int ?m) True fresh = (s, Inr ())" "rd_items (core s) = rd_items (core r)"
    "rd_rolls (core s) = rd_rolls (core r)" "\<not> rd_exhausted (core s)"
    using replay [OF assms(1,2), of ?m] r rolls_length [OF r(4)] by auto
  have "follows nxt upd it (core s)"
    using generate_follows [OF _ s(1)] assms(2) by (simp add: follows_fresh)
  then have u: "rd_iterator (core s) = u" using s r(1) yields_det by (fastforce simp: follows_def)
  obtain it1 where it1: "nxt u = (it1, Inl StopIteration)" using r(2) by (cases "nxt u") simp
  have "read_to nxt upd n (core fresh) = read_to nxt upd n (core s)"
    by (rule read_to_twice [OF generate_read [OF s(1)] less_imp_le [OF assms(4)]])
  also have "\<dots> = Some ((core s)\<lparr>rd_iterator := it1, rd_exhausted := True\<rparr>)"
    using assms(4) s u it1 by (simp add: read_to.simps [of nxt upd n "core s"])
  finally show ?thesis using s read_generate by fastforce
qed

end

section \<open>The two runtimes read lazily\<close>

definition sampler_core :: "('s, 'a) sampler_runtime \<Rightarrow> ('s, 'a) reader" where
  "sampler_core r =
    \<lparr>rd_iterator = sa_iterator r, rd_items = sa_indices r, rd_rolls = sa_checksums r, rd_exhausted = sa_exhausted r\<rparr>"

lemma generate_to_lenient:
  "(case generate_to nxt dumps n True r of (t, Inr _) \<Rightarrow> Some (sampler_core t) | _ \<Rightarrow> None) =
   read_to nxt (update_checksum dumps) n (sampler_core r)"
proof (induction nxt dumps n True r rule: generate_to.induct)
  case (1 nxt dumps n r)
  show ?case
  proof (cases "\<not> int (length (sa_indices r)) < n \<or> sa_exhausted r")
    case True
    then show ?thesis
      by (auto simp: generate_to.simps [of nxt dumps n] read_to.simps [of nxt _ n] sampler_core_def)
  next
    case False
    obtain i o1 where n: "nxt (sa_iterator r) = (i, o1)" by (cases "nxt (sa_iterator r)")
    show ?thesis
    proof (cases o1)
      case (Inl e)
      with False n show ?thesis
        by (auto simp: generate_to.simps [of nxt dumps n] read_to.simps [of nxt _ n] sampler_core_def)
    next
      case (Inr x)
      show ?thesis
      proof (cases "update_checksum dumps (last (sa_checksums r)) x")
        case (Inl e)
        with False n Inr show ?thesis
          by (simp add: generate_to.simps [of nxt dumps n] read_to.simps [of nxt _ n] sampler_core_def)
      next
        case c: (Inr c)
        let ?r = "r\<lparr>sa_iterator := i, sa_indices := sa_indices r @ [x], sa_checksums := sa_checksums r @ [c]\<rparr>"
        have "read_to nxt (update_checksum dumps) n (sampler_core r) = read_to nxt (update_checksum dumps) n (sampler_core ?r)"
          by (subst read_to.simps) (use False n Inr c in \<open>simp add: sampler_core_def\<close>)
        with "1" [of i o1 x c] False n Inr c show ?thesis
          by (simp add: generate_to.simps [of nxt dumps n _ r])
      qed
    qed
  qed
qed

lemma generate_to_strict:
  "generate_to nxt dumps n False r = (t, Inr u) \<longleftrightarrow>
   generate_to nxt dumps n True r = (t, Inr u) \<and> n \<le> int (length (rd_items (sampler_core t)))"
proof (induction nxt dumps n True r rule: generate_to.induct)
  case (1 nxt dumps n r)
  show ?case
  proof (cases "\<not> int (length (sa_indices r)) < n \<or> sa_exhausted r")
    case True
    then show ?thesis by (auto simp: generate_to.simps [of nxt dumps n] sampler_core_def)
  next
    case False
    obtain i o1 where n: "nxt (sa_iterator r) = (i, o1)" by (cases "nxt (sa_iterator r)")
    show ?thesis
    proof (cases o1)
      case (Inl e)
      with False n show ?thesis by (auto simp: generate_to.simps [of nxt dumps n] sampler_core_def)
    next
      case (Inr x)
      show ?thesis
      proof (cases "update_checksum dumps (last (sa_checksums r)) x")
        case (Inl e)
        with False n Inr show ?thesis by (simp add: generate_to.simps [of nxt dumps n])
      next
        case c: (Inr c)
        from "1" [of i o1 x c] False n Inr c show ?thesis
          by (simp add: generate_to.simps [of nxt dumps n _ r])
      qed
    qed
  qed
qed

interpretation ids: lazy_runtime nxt "update_checksum dumps" sampler_core "generate_to nxt dumps" for nxt dumps
  by unfold_locales (rule generate_to_lenient generate_to_strict)+

text \<open>A batch's checksum covers its width and its indices.\<close>

definition batch_source :: "('s, 'b) source \<Rightarrow> ('b \<Rightarrow> 'a list option) \<Rightarrow> ('s, 'a list) source" where
  "batch_source nxt tuple_of it =
    (case nxt it of
       (it, Inl e) \<Rightarrow> (it, Inl e)
     | (it, Inr raw_batch) \<Rightarrow>
         (it, case tuple_of raw_batch of
                None \<Rightarrow> Inl (TypeError ''user batch_sampler batches must be iterable'')
              | Some batch \<Rightarrow> Inr batch))"

definition batch_update :: "'a dumps \<Rightarrow> int \<Rightarrow> 'a list \<Rightarrow> int res" where
  "batch_update dumps checksum batch =
    batch_checksum dumps (update_boundary checksum (int (length batch))) batch"

definition batch_core :: "('s, 'a) batch_runtime \<Rightarrow> ('s, 'a list) reader" where
  "batch_core r =
    \<lparr>rd_iterator = ba_iterator r, rd_items = ba_batches r, rd_rolls = ba_checksums r, rd_exhausted = ba_exhausted r\<rparr>"

lemma generate_batches_step:
  assumes "int (length (ba_batches r)) < n" "\<not> ba_exhausted r"
  shows "generate_batches nxt tuple_of dumps n b r =
    (case batch_source nxt tuple_of (ba_iterator r) of
       (it, Inl e) \<Rightarrow>
         if e = StopIteration then
           (r\<lparr>ba_iterator := it, ba_exhausted := True\<rparr>,
            if b then Inr () else Inl (RuntimeError ''user batch_sampler ended before its declared length''))
         else (r\<lparr>ba_iterator := it\<rparr>, Inl e)
     | (it, Inr batch) \<Rightarrow>
         (case batch_update dumps (last (ba_checksums r)) batch of
            Inl e \<Rightarrow> (r\<lparr>ba_iterator := it\<rparr>, Inl e)
          | Inr c \<Rightarrow>
              generate_batches nxt tuple_of dumps n b
                (r\<lparr>ba_iterator := it, ba_batches := ba_batches r @ [batch],
                   ba_sample_offsets := ba_sample_offsets r @ [last (ba_sample_offsets r) + int (length batch)],
                   ba_checksums := ba_checksums r @ [c]\<rparr>)))"
  using assms
  by (simp add: generate_batches.simps [of nxt tuple_of dumps n b r] batch_source_def batch_update_def Let_def
      split: prod.split sum.split option.split)

lemma generate_batches_stop:
  "\<not> int (length (ba_batches r)) < n \<or> ba_exhausted r \<Longrightarrow>
   generate_batches nxt tuple_of dumps n b r =
     (r, if int (length (ba_batches r)) < n \<and> \<not> b
         then Inl (RuntimeError ''user batch_sampler ended before the delivered prefix'') else Inr ())"
  by (auto simp: generate_batches.simps [of nxt tuple_of dumps n b r])

lemma generate_batches_lenient:
  "(case generate_batches nxt tuple_of dumps n True r of (t, Inr _) \<Rightarrow> Some (batch_core t) | _ \<Rightarrow> None) =
   read_to (batch_source nxt tuple_of) (batch_update dumps) n (batch_core r)"
proof (induction "nat (n - int (length (ba_batches r)))" arbitrary: r rule: less_induct)
  case less
  show ?case
  proof (cases "\<not> int (length (ba_batches r)) < n \<or> ba_exhausted r")
    case True
    then show ?thesis
      by (auto simp: generate_batches_stop read_to.simps [of _ _ n] batch_core_def)
  next
    case False
    obtain i o1 where n: "batch_source nxt tuple_of (ba_iterator r) = (i, o1)"
      by (cases "batch_source nxt tuple_of (ba_iterator r)")
    show ?thesis
    proof (cases o1)
      case (Inl e)
      with False n show ?thesis
        by (simp add: generate_batches_step read_to.simps [of _ _ n] batch_core_def)
    next
      case (Inr x)
      show ?thesis
      proof (cases "batch_update dumps (last (ba_checksums r)) x")
        case (Inl e)
        with False n Inr show ?thesis
          by (simp add: generate_batches_step read_to.simps [of _ _ n] batch_core_def)
      next
        case c: (Inr c)
        let ?r = "r\<lparr>ba_iterator := i, ba_batches := ba_batches r @ [x],
          ba_sample_offsets := ba_sample_offsets r @ [last (ba_sample_offsets r) + int (length x)],
          ba_checksums := ba_checksums r @ [c]\<rparr>"
        have "read_to (batch_source nxt tuple_of) (batch_update dumps) n (batch_core r) =
          read_to (batch_source nxt tuple_of) (batch_update dumps) n (batch_core ?r)"
          by (subst read_to.simps) (use False n Inr c in \<open>simp add: batch_core_def\<close>)
        with less [of ?r] False n Inr c show ?thesis by (simp add: generate_batches_step [of r])
      qed
    qed
  qed
qed

lemma generate_batches_strict:
  "generate_batches nxt tuple_of dumps n False r = (t, Inr u) \<longleftrightarrow>
   generate_batches nxt tuple_of dumps n True r = (t, Inr u) \<and> n \<le> int (length (rd_items (batch_core t)))"
proof (induction "nat (n - int (length (ba_batches r)))" arbitrary: r rule: less_induct)
  case less
  show ?case
  proof (cases "\<not> int (length (ba_batches r)) < n \<or> ba_exhausted r")
    case True
    then show ?thesis by (auto simp: generate_batches_stop batch_core_def)
  next
    case False
    with less show ?thesis
      by (auto simp: generate_batches_step [of r] batch_core_def split: prod.split sum.split)
  qed
qed

interpretation bts: lazy_runtime "batch_source nxt tuple_of" "batch_update dumps" batch_core
    "generate_batches nxt tuple_of dumps" for nxt tuple_of dumps
  by unfold_locales (rule generate_batches_lenient generate_batches_strict)+

section \<open>Resuming a user sampler\<close>

text \<open>
  A runtime some operations after its construction from the sampler's iterator \<open>it\<close>: what every
  operation keeps.
\<close>

definition sampler_of :: "('s, 'a) source \<Rightarrow> 'a dumps \<Rightarrow> 's \<Rightarrow> ('s, 'a) sampler_runtime \<Rightarrow> bool" where
  "sampler_of nxt dumps it r \<longleftrightarrow> follows nxt (update_checksum dumps) it (sampler_core r)"

lemma sampler_of_generate:
  "sampler_of nxt dumps it r \<Longrightarrow> generate_to nxt dumps n b r = (t, Inr u) \<Longrightarrow> sampler_of nxt dumps it t"
  unfolding sampler_of_def by (drule (1) ids.generate_follows) simp

lemma sampler_of_index: "sampler_of nxt dumps it r \<Longrightarrow> runtime_index nxt dumps p r = (t, Inr v) \<Longrightarrow> sampler_of nxt dumps it t"
  by (auto simp: runtime_index_def split: if_splits prod.splits sum.splits dest: sampler_of_generate)

lemma sampler_of_has_index: "sampler_of nxt dumps it r \<Longrightarrow> has_index nxt dumps p r = (t, Inr v) \<Longrightarrow> sampler_of nxt dumps it t"
  by (auto simp: has_index_def split: if_splits prod.splits sum.splits dest: sampler_of_generate)

lemma new_sampler_of: "new_sampler nxt dumps declared it bs dl k c = Inr r \<Longrightarrow> sampler_of nxt dumps it r"
proof -
  assume new: "new_sampler nxt dumps declared it bs dl k c = Inr r"
  let ?fresh = "\<lparr>sa_length = declared, sa_iterator = it, sa_indices = [], sa_checksums = [0], sa_exhausted = False,
      sa_start_samples = 0\<rparr> :: ('a, 'b) sampler_runtime"
  have "sampler_core ?fresh = fresh_reader it" by (simp add: sampler_core_def fresh_reader_def)
  then have fresh: "sampler_of nxt dumps it ?fresh" by (simp add: sampler_of_def follows_fresh)
  from new obtain t u s where "generate_to nxt dumps (k * or_one bs) True ?fresh = (t, Inr u)"
    "r = t\<lparr>sa_start_samples := s\<rparr>"
    by (auto simp: new_sampler_def Let_def rmap_eq_Inr split: if_splits prod.splits sum.splits)
  with sampler_of_generate [OF fresh] show ?thesis by (auto simp: sampler_of_def sampler_core_def)
qed

lemma runtime_index_agrees:
  assumes "sampler_of nxt dumps it r" "sampler_of nxt dumps it t"
    and "snd (runtime_index nxt dumps p r) = Inr v" "snd (runtime_index nxt dumps p t) = Inr w"
  shows "v = w"
proof -
  have *: "\<exists>s. sampler_of nxt dumps it s \<and> nat p < length (sa_indices s) \<and> x = sa_indices s ! nat p"
    if "sampler_of nxt dumps it q" "snd (runtime_index nxt dumps p q) = Inr x" for q x
    using that
    by (auto simp: runtime_index_def not_le split: if_splits prod.splits sum.splits dest: sampler_of_generate)
  from * [OF assms(1,3)] * [OF assms(2,4)] show ?thesis
    using ids.items_agree [of nxt dumps it] by (auto simp: sampler_of_def sampler_core_def)
qed

text \<open>
  How many samples \<open>k\<close> delivered batches of a stream of \<open>n\<close> indices hold: all of them full, or
  the last of them the partial batch of an exhausted sampler.
\<close>

definition delivered_samples :: "int \<Rightarrow> bool \<Rightarrow> bool \<Rightarrow> int \<Rightarrow> int \<Rightarrow> int \<Rightarrow> bool" where
  "delivered_samples w drop_last exhausted n k d \<longleftrightarrow>
     0 \<le> k \<and> (d = k * w \<and> d \<le> n \<or> exhausted \<and> \<not> drop_last \<and> d = n \<and> (k - 1) * w < n \<and> n < k * w)"

lemma new_sampler_resumes:
  assumes of: "sampler_of nxt dumps it r" and declared: "\<And>n. declared = Some n \<Longrightarrow> 0 \<le> n"
    and batch: "\<And>b. bs = Some b \<Longrightarrow> 0 < b"
    and d: "delivered_samples (or_one bs) dl (sa_exhausted r) (int (length (sa_indices r))) k d"
    and c: "snd (sampler_checksum_at nxt dumps d r) = Inr c"
  shows "\<exists>t. new_sampler nxt dumps declared it bs dl k c = Inr t \<and> sa_start_samples t = d \<and> sampler_of nxt dumps it t"
proof -
  let ?w = "or_one bs" and ?n = "int (length (sa_indices r))"
  have w: "0 < ?w" using batch by (auto simp: or_one_def split: option.split)
  have d0: "0 \<le> d" "d \<le> ?n" "d \<le> k * ?w" using d w by (auto simp: delivered_samples_def)
  have c: "c = sa_checksums r ! nat d"
    using c d0 by (simp add: sampler_checksum_at_def generate_to.simps [of nxt dumps d])
  let ?fresh = "\<lparr>sa_length = declared, sa_iterator = it, sa_indices = [], sa_checksums = [0], sa_exhausted = False,
      sa_start_samples = 0\<rparr> :: ('a, 'b) sampler_runtime"
  have core: "sampler_core ?fresh = fresh_reader it" by (simp add: sampler_core_def fresh_reader_def)
  have follows: "follows nxt (update_checksum dumps) it (sampler_core r)" using of by (simp add: sampler_of_def)
  have "\<exists>t. generate_to nxt dumps (k * ?w) True ?fresh = (t, Inr ()) \<and> int (length (sa_indices t)) = d \<and>
      sa_checksums t ! nat d = c \<and> (sa_exhausted t \<longrightarrow> k \<le> d div ?w + (if d mod ?w \<noteq> 0 \<and> \<not> dl then 1 else 0))"
  proof (cases "d = k * ?w")
    case True
    from ids.replay [OF follows core, of "nat d"] d0 True
    have "nat d \<le> length (sa_indices r)" by (simp add: nat_le_iff)
    with ids.replay [OF follows core, of "nat d"] d0 True
    obtain t where "generate_to nxt dumps (k * ?w) True ?fresh = (t, Inr ())"
      "sa_indices t = take (nat d) (sa_indices r)" "sa_checksums t = take (nat d + 1) (sa_checksums r)" "\<not> sa_exhausted t"
      by (auto simp: sampler_core_def)
    with d0 c \<open>nat d \<le> length (sa_indices r)\<close> show ?thesis by (intro exI [of _ t]) simp
  next
    case False
    with d have p: "sa_exhausted r" "\<not> dl" "d = ?n" "(k - 1) * ?w < d" "d < k * ?w" by (auto simp: delivered_samples_def)
    from ids.replay_end [OF follows core, of "k * ?w"] p
    obtain t where t: "generate_to nxt dumps (k * ?w) True ?fresh = (t, Inr ())"
      "sa_indices t = sa_indices r" "sa_checksums t = sa_checksums r"
      by (auto simp: sampler_core_def)
    have "d div ?w = k - 1"
      using p(4,5) w by (intro int_div_pos_eq [of _ _ _ "d - (k - 1) * ?w"]) (auto simp: algebra_simps)
    moreover have "d mod ?w \<noteq> 0"
      using p(4) calculation minus_div_mult_eq_mod [of d ?w] by auto
    ultimately show ?thesis using t p c by (intro exI [of _ t]) simp
  qed
  then obtain t where t: "generate_to nxt dumps (k * ?w) True ?fresh = (t, Inr ())" "int (length (sa_indices t)) = d"
    "sa_checksums t ! nat d = c" "sa_exhausted t \<longrightarrow> k \<le> d div ?w + (if d mod ?w \<noteq> 0 \<and> \<not> dl then 1 else 0)"
    by blast
  have new: "new_sampler nxt dumps declared it bs dl k c = Inr (t\<lparr>sa_start_samples := d\<rparr>)"
    using t d0 declared by (auto simp: new_sampler_def Let_def verify_checksum_def min_def split: option.split)
  then show ?thesis using new_sampler_of [OF new] by auto
qed


text \<open>A sampler of the numbers below five, pickled as single bytes.\<close>

definition count_below :: "int \<Rightarrow> (int, int) source" where
  "count_below n it = (if it < n then (it + 1, Inr it) else (it, Inl StopIteration))"


section \<open>Resuming a user batch sampler\<close>

definition batches_of :: "('s, 'b) source \<Rightarrow> ('b \<Rightarrow> 'a list option) \<Rightarrow> 'a dumps \<Rightarrow> 's \<Rightarrow> ('s, 'a) batch_runtime \<Rightarrow> bool" where
  "batches_of nxt tuple_of dumps it r \<longleftrightarrow>
     follows (batch_source nxt tuple_of) (batch_update dumps) it (batch_core r) \<and>
     ba_sample_offsets r = map (\<lambda>k. \<Sum>b\<leftarrow>take k (ba_batches r). int (length b)) [0..<Suc (length (ba_batches r))]"

lemma generate_batches_offsets:
  "ba_sample_offsets r = map (\<lambda>k. \<Sum>b\<leftarrow>take k (ba_batches r). int (length b)) [0..<Suc (length (ba_batches r))] \<Longrightarrow>
   ba_sample_offsets (fst (generate_batches nxt tuple_of dumps n e r)) =
     map (\<lambda>k. \<Sum>b\<leftarrow>take k (ba_batches (fst (generate_batches nxt tuple_of dumps n e r))). int (length b))
       [0..<Suc (length (ba_batches (fst (generate_batches nxt tuple_of dumps n e r))))]"
proof (induction "nat (n - int (length (ba_batches r)))" arbitrary: r rule: less_induct)
  case less
  show ?case
  proof (cases "\<not> int (length (ba_batches r)) < n \<or> ba_exhausted r")
    case True
    then show ?thesis by (simp add: generate_batches_stop less.prems)
  next
    case False
    obtain i o1 where n: "batch_source nxt tuple_of (ba_iterator r) = (i, o1)"
      by (cases "batch_source nxt tuple_of (ba_iterator r)")
    show ?thesis
    proof (cases "\<exists>x c. o1 = Inr x \<and> batch_update dumps (last (ba_checksums r)) x = Inr c")
      case True
      then obtain x c where x: "o1 = Inr x" "batch_update dumps (last (ba_checksums r)) x = Inr c" by blast
      let ?r = "r\<lparr>ba_iterator := i, ba_batches := ba_batches r @ [x],
        ba_sample_offsets := ba_sample_offsets r @ [last (ba_sample_offsets r) + int (length x)],
        ba_checksums := ba_checksums r @ [c]\<rparr>"
      have "ba_sample_offsets ?r =
        map (\<lambda>k. \<Sum>b\<leftarrow>take k (ba_batches ?r). int (length b)) [0..<Suc (length (ba_batches ?r))]"
        by (simp add: less.prems)
      from less.hyps [of ?r, OF _ this] False show ?thesis by (simp add: generate_batches_step n x)
    next
      case no: False
      then show ?thesis
        using False less.prems
        by (cases o1; cases "batch_update dumps (last (ba_checksums r)) (projr o1)") (auto simp: generate_batches_step n)
    qed
  qed
qed

lemma batches_of_generate:
  assumes "batches_of nxt tuple_of dumps it r" "generate_batches nxt tuple_of dumps n b r = (t, Inr u)"
  shows "batches_of nxt tuple_of dumps it t"
  using bts.generate_follows [OF _ assms(2)] generate_batches_offsets [of r nxt tuple_of dumps n b] assms
  by (simp add: batches_of_def)

lemma generate_batches_start: "ba_start_batch (fst (generate_batches nxt tuple_of dumps n e r)) = ba_start_batch r"
proof (induction "nat (n - int (length (ba_batches r)))" arbitrary: r rule: less_induct)
  case less
  show ?case
  proof (cases "\<not> int (length (ba_batches r)) < n \<or> ba_exhausted r")
    case True
    then show ?thesis by (simp add: generate_batches_stop)
  next
    case False
    with less show ?thesis by (simp add: generate_batches_step split: prod.split sum.split)
  qed
qed

lemma batch_at_read:
  assumes "batches_of nxt tuple_of dumps it r" "snd (batch_at nxt tuple_of dumps p r) = Inr v"
  obtains s where "batches_of nxt tuple_of dumps it s" "0 \<le> p" "nat p < length (ba_batches s)" "v = ba_batches s ! nat p"
    "generate_batches nxt tuple_of dumps (p + 1) True r = (s, Inr ())"
  using assms
  by (auto simp: batch_at_def not_le split: if_splits prod.splits sum.splits dest: batches_of_generate)

lemma sample_offset_value:
  assumes of: "batches_of nxt tuple_of dumps it r" and p: "0 \<le> p"
    and s: "generate_batches nxt tuple_of dumps (p + 1) True r = (s, Inr ())" "nat p < length (ba_batches s)"
  shows "snd (sample_offset nxt tuple_of dumps p r) = Inr (\<Sum>b\<leftarrow>take (nat p) (ba_batches s). int (length b))"
proof -
  have follows: "follows (batch_source nxt tuple_of) (batch_update dumps) it (batch_core r)"
    using of by (simp add: batches_of_def)
  have sof: "batches_of nxt tuple_of dumps it s" by (rule batches_of_generate [OF of s(1)])
  show ?thesis
  proof (cases "nat p \<le> length (ba_batches r)")
    case True
    then have stop: "generate_batches nxt tuple_of dumps p False r = (r, Inr ())"
      using p by (simp add: generate_batches_stop nat_le_iff)
    have "take (nat p) (ba_batches r) = take (nat p) (ba_batches s)"
    proof (rule nth_equalityI)
      fix i assume "i < length (take (nat p) (ba_batches r))"
      then show "take (nat p) (ba_batches r) ! i = take (nat p) (ba_batches s) ! i"
        using bts.items_agree [OF follows, of s i] sof s(2) True by (simp add: batches_of_def batch_core_def)
    qed (use True s(2) in simp)
    with stop of True p show ?thesis
      by (simp add: sample_offset_def batches_of_def del: upt_Suc)
  next
    case False
    then have r: "\<not> ba_exhausted r"
      using s p by (auto simp: generate_batches_stop)
    from False have "length (ba_batches r) \<le> nat p" by simp
    moreover obtain u where "yields (batch_source nxt tuple_of) it (ba_batches s) u"
      "rolls (batch_update dumps) 0 (ba_batches s) (tl (ba_checksums s))"
      using sof by (auto simp: batches_of_def follows_def batch_core_def)
    ultimately obtain q where q: "read_to (batch_source nxt tuple_of) (batch_update dumps) p (batch_core r) = Some q"
      "rd_items q = take (nat p) (ba_batches s)"
      using read_to_exact [OF follows, of "ba_batches s" u "tl (ba_checksums s)" "nat p"] r s(2) p
      by (auto simp: batch_core_def)
    then obtain t where t: "generate_batches nxt tuple_of dumps p True r = (t, Inr ())" "batch_core t = q"
      using bts.read_generate by blast
    then have items: "ba_batches t = take (nat p) (ba_batches s)" using q by (auto simp: batch_core_def)
    with t(1) p s(2) have "generate_batches nxt tuple_of dumps p False r = (t, Inr ())"
      by (simp add: generate_batches_strict batch_core_def)
    moreover have "batches_of nxt tuple_of dumps it t" by (rule batches_of_generate [OF of t(1)])
    ultimately show ?thesis using items s(2)
      by (simp add: sample_offset_def batches_of_def del: upt_Suc)
  qed
qed

lemma batch_at_agrees:
  assumes "batches_of nxt tuple_of dumps it r" "batches_of nxt tuple_of dumps it t"
    and "snd (batch_at nxt tuple_of dumps p r) = Inr v" "snd (batch_at nxt tuple_of dumps p t) = Inr w"
  shows "v = w \<and> snd (sample_offset nxt tuple_of dumps p r) = snd (sample_offset nxt tuple_of dumps p t)"
proof -
  obtain s where s: "batches_of nxt tuple_of dumps it s" "0 \<le> p" "nat p < length (ba_batches s)" "v = ba_batches s ! nat p"
    "generate_batches nxt tuple_of dumps (p + 1) True r = (s, Inr ())" by (rule batch_at_read [OF assms(1,3)])
  obtain q where q: "batches_of nxt tuple_of dumps it q" "nat p < length (ba_batches q)" "w = ba_batches q ! nat p"
    "generate_batches nxt tuple_of dumps (p + 1) True t = (q, Inr ())" by (rule batch_at_read [OF assms(2,4)])
  have agree: "ba_batches s ! i = ba_batches q ! i" if "i \<le> nat p" for i
    using bts.items_agree [of nxt tuple_of dumps it s q i] s(1,3) q(1,2) that by (simp add: batches_of_def batch_core_def)
  then have "take (nat p) (ba_batches s) = take (nat p) (ba_batches q)"
    using s(3) q(2) by (intro nth_equalityI) auto
  with sample_offset_value [OF assms(1) s(2,5,3)] sample_offset_value [OF assms(2) s(2) q(4,2)] agree s(4) q(3)
  show ?thesis by simp
qed

lemma batches_of_fresh:
  "batches_of nxt tuple_of dumps it
    \<lparr>ba_length = declared, ba_start_batch = k, ba_iterator = it, ba_batches = [],
     ba_sample_offsets = [0], ba_checksums = [0], ba_exhausted = False\<rparr>"
  by (simp add: batches_of_def batch_core_def flip: fresh_reader_def) (simp add: fresh_reader_def follows_def)

lemma new_batch_sampler_resumes:
  assumes of: "batches_of nxt tuple_of dumps it r" and declared: "\<And>n. declared = Some n \<Longrightarrow> 0 \<le> n"
    and k: "0 \<le> k" "k \<le> int (length (ba_batches r))"
    and c: "snd (batch_checksum_at nxt tuple_of dumps k r) = Inr c"
  shows "\<exists>t. new_batch_sampler nxt tuple_of dumps declared it k c = Inr t \<and> ba_start_batch t = k \<and>
    batches_of nxt tuple_of dumps it t"
proof -
  have c: "c = ba_checksums r ! nat k"
    using c k by (simp add: batch_checksum_at_def generate_batches_stop)
  let ?fresh = "\<lparr>ba_length = declared, ba_start_batch = k, ba_iterator = it, ba_batches = [],
     ba_sample_offsets = [0], ba_checksums = [0], ba_exhausted = False\<rparr> :: ('a, 'c) batch_runtime"
  have core: "batch_core ?fresh = fresh_reader it" by (simp add: batch_core_def fresh_reader_def)
  have "nat k \<le> length (ba_batches r)" using k by (simp add: nat_le_iff)
  with bts.replay [OF _ core, of nxt tuple_of dumps r "nat k"] of k obtain t where
    t: "generate_batches nxt tuple_of dumps k True ?fresh = (t, Inr ())"
    "ba_batches t = take (nat k) (ba_batches r)" "ba_checksums t = take (nat k + 1) (ba_checksums r)"
    by (auto simp: batch_core_def batches_of_def)
  have t1: "batches_of nxt tuple_of dumps it t" by (rule batches_of_generate [OF batches_of_fresh t(1)])
  have t2: "ba_start_batch t = k" using generate_batches_start [of nxt tuple_of dumps k True ?fresh] t(1) by simp
  have "length (ba_batches t) = nat k" using t(2) \<open>nat k \<le> length (ba_batches r)\<close> by simp
  moreover have "ba_checksums t ! nat k = c" using t(3) c by simp
  ultimately have "new_batch_sampler nxt tuple_of dumps declared it k c = Inr t"
    using t(1) declared k by (auto simp: new_batch_sampler_def verify_checksum_def split: option.split)
  with t1 t2 show ?thesis by blast
qed

text \<open>
  A batch sampler that replays its stream resumes exactly: a new runtime at \<open>k\<close> delivered
  batches accepts the checksum recorded there, and gives the batches and sample offsets of the old.
\<close>

theorem batch_resume_exact:
  assumes "batches_of nxt tuple_of dumps it r" and "\<And>n. declared = Some n \<Longrightarrow> 0 \<le> n"
    and "0 \<le> k" "k \<le> int (length (ba_batches r))" and "snd (batch_checksum_at nxt tuple_of dumps k r) = Inr c"
  shows "\<exists>t. new_batch_sampler nxt tuple_of dumps declared it k c = Inr t \<and>
    (\<forall>p v w. snd (batch_at nxt tuple_of dumps p r) = Inr v \<longrightarrow> snd (batch_at nxt tuple_of dumps p t) = Inr w \<longrightarrow>
      v = w \<and> snd (sample_offset nxt tuple_of dumps p r) = snd (sample_offset nxt tuple_of dumps p t))"
proof -
  from new_batch_sampler_resumes [OF assms] obtain t where
    t: "new_batch_sampler nxt tuple_of dumps declared it k c = Inr t" "batches_of nxt tuple_of dumps it t" by blast
  have "v = w \<and> snd (sample_offset nxt tuple_of dumps p r) = snd (sample_offset nxt tuple_of dumps p t)"
    if "snd (batch_at nxt tuple_of dumps p r) = Inr v" "snd (batch_at nxt tuple_of dumps p t) = Inr w" for p v w
    using batch_at_agrees [OF assms(1) t(2) that] .
  with t(1) show ?thesis by blast
qed

section \<open>A diverging sampler\<close>

definition dumps_total :: "'a dumps \<Rightarrow> bool" where
  "dumps_total dumps \<longleftrightarrow> (\<forall>v. \<exists>payload. dumps v = Inr payload \<and> bytes_ok payload)"

lemma dumps_totalE:
  assumes "dumps_total dumps"
  obtains payload where "dumps v = Inr payload" "bytes_ok payload"
  using assms by (auto simp: dumps_total_def)

lemma u32_update:
  assumes "dumps_total dumps" "u32 c" "update_checksum dumps c v = Inr d"
  shows "u32 d"
  using assms by (auto simp: update_checksum_def rmap_eq_Inr bytes_ok_little_endian intro!: u32_crc32
      elim: dumps_totalE [of dumps v])

lemma batch_checksum_append:
  "batch_checksum dumps c (xs @ ys) = rbind (batch_checksum dumps c xs) (\<lambda>c. batch_checksum dumps c ys)"
  by (induction xs arbitrary: c) (simp_all add: rbind_def split: sum.split)

lemma batch_checksum_total: "dumps_total dumps \<Longrightarrow> u32 c \<Longrightarrow> \<exists>d. batch_checksum dumps c xs = Inr d \<and> u32 d"
proof (induction xs arbitrary: c)
  case (Cons x xs)
  obtain payload where "dumps x = Inr payload" by (rule dumps_totalE [OF Cons.prems(1)])
  then obtain d where d: "update_checksum dumps c x = Inr d" by (simp add: update_checksum_def)
  with Cons show ?case using u32_update [OF Cons.prems d] by simp
qed simp

lemma batch_checksum_inj:
  "dumps_total dumps \<Longrightarrow> u32 c \<Longrightarrow> u32 d \<Longrightarrow> batch_checksum dumps c xs = Inr e \<Longrightarrow> batch_checksum dumps d xs = Inr e \<Longrightarrow> c = d"
proof (induction xs arbitrary: c d)
  case (Cons x xs)
  obtain payload where p: "dumps x = Inr payload" "bytes_ok payload" by (rule dumps_totalE [OF Cons.prems(1)])
  let ?len = "little_endian 8 (int (length payload))"
  have u: "u32 (crc32 ?len c)" "u32 (crc32 ?len d)" using Cons.prems by (simp_all add: u32_crc32 bytes_ok_little_endian)
  have "crc32 payload (crc32 ?len c) = crc32 payload (crc32 ?len d)"
    using Cons.prems p u by (intro Cons.IH) (simp_all add: update_checksum_def u32_crc32)
  then have "crc32 ?len c = crc32 ?len d" by (rule crc32_start_inj [OF u p(2)])
  then show ?case by (rule crc32_start_inj [OF Cons.prems(2,3) bytes_ok_little_endian])
qed simp

lemma rolls_of_checksum:
  "batch_checksum dumps c xs = Inr d \<Longrightarrow> \<exists>cs. rolls (update_checksum dumps) c xs cs \<and> (c # cs) ! length xs = d"
proof (induction xs arbitrary: c)
  case (Cons x xs)
  then obtain e where e: "update_checksum dumps c x = Inr e" "batch_checksum dumps e xs = Inr d"
    by (auto simp: rbind_eq_Inr)
  from Cons.IH [OF e(2)] e(1) show ?case by (metis length_Cons nth_Cons_Suc rolls_Cons)
qed simp

lemma checksum_separates:
  assumes total: "dumps_total dumps" and x: "dumps x = Inr (p @ a # q)" and y: "dumps y = Inr (p @ b # q)" and "a \<noteq> b"
    and c: "batch_checksum dumps 0 (xs @ x # ys) = Inr c" and d: "batch_checksum dumps 0 (xs @ y # ys) = Inr d"
  shows "c \<noteq> d"
proof
  assume eq: "c = d"
  have zero: "u32 0" by (simp add: u32_def)
  obtain s where s: "batch_checksum dumps 0 xs = Inr s" "u32 s" using batch_checksum_total [OF total zero] by blast
  let ?len = "little_endian 8 (int (length (p @ a # q)))"
  let ?s = "crc32 ?len s"
  have u: "u32 ?s" using s by (simp add: u32_crc32 bytes_ok_little_endian)
  have ok: "bytes_ok (p @ a # q)" "bytes_ok (p @ b # q)"
    using total x y by (auto simp: dumps_total_def) (metis Inr_inject)+
  have "update_checksum dumps s x = Inr (crc32 (p @ a # q) ?s)" "update_checksum dumps s y = Inr (crc32 (p @ b # q) ?s)"
    using x y by (simp_all add: update_checksum_def)
  with c d s eq have "crc32 (p @ a # q) ?s = crc32 (p @ b # q) ?s"
    using batch_checksum_inj [OF total, of "crc32 (p @ a # q) ?s" "crc32 (p @ b # q) ?s" ys c] ok u
    by (simp add: batch_checksum_append u32_crc32)
  then have "a = b"
    using crc32_single_byte [OF u ok(1), of b] ok(2) by (simp add: bytes_ok_def)
  with \<open>a \<noteq> b\<close> show False ..
qed

text \<open>
  C17: A sampler that does not replay its stream is refused: when one index before the cursor comes
  back with another byte in its pickle, the restore raises the checksum mismatch.
\<close>

theorem diverging_sampler_refused:
  assumes "dumps_total dumps" and "dumps x = Inr (p @ a # q)" "dumps y = Inr (p @ b # q)" "a \<noteq> b"
    and "batch_checksum dumps 0 (xs @ x # ys) = Inr c"
    and "yields nxt it (xs @ y # ys) u" and "k * or_one bs = int (length (xs @ y # ys))"
    and "\<And>n. declared = Some n \<Longrightarrow> 0 \<le> n"
  shows "new_sampler nxt dumps declared it bs dl k c = Inl mismatch_error"
proof -
  let ?zs = "xs @ y # ys"
  have "u32 0" by (simp add: u32_def)
  then obtain d where d: "batch_checksum dumps 0 ?zs = Inr d" using batch_checksum_total [OF assms(1)] by blast
  have "c \<noteq> d" by (rule checksum_separates [OF assms(1-5) d])
  obtain cs where cs: "rolls (update_checksum dumps) 0 ?zs cs" "(0 # cs) ! length ?zs = d"
    using rolls_of_checksum [OF d] by blast
  let ?fresh = "\<lparr>sa_length = declared, sa_iterator = it, sa_indices = [], sa_checksums = [0], sa_exhausted = False,
      sa_start_samples = 0\<rparr> :: ('b, 'a) sampler_runtime"
  have core: "sampler_core ?fresh = fresh_reader it" by (simp add: sampler_core_def fresh_reader_def)
  have "\<exists>r. read_to nxt (update_checksum dumps) (int (length ?zs)) (sampler_core ?fresh) = Some r \<and>
      rd_items r = ?zs \<and> rd_rolls r = 0 # cs \<and> \<not> rd_exhausted r"
    using read_to_exact [of nxt "update_checksum dumps" it "fresh_reader it" ?zs u cs "length ?zs"] assms(6) cs(1)
      rolls_length [OF cs(1)]
    by (simp add: core follows_fresh) (simp add: fresh_reader_def)
  then obtain t where t: "generate_to nxt dumps (k * or_one bs) True ?fresh = (t, Inr ())" "sa_indices t = ?zs"
    "sa_checksums t = 0 # cs" "\<not> sa_exhausted t"
    using ids.read_generate assms(7) by (fastforce simp: sampler_core_def)
  have "int (length (sa_indices t)) = k * or_one bs" using t(2) assms(7) by simp
  moreover have "sa_checksums t ! nat (k * or_one bs) = d"
    using t(3) cs(2) by (simp only: assms(7) nat_int)
  ultimately show ?thesis
    using t(1,4) assms(8) \<open>c \<noteq> d\<close> by (auto simp: new_sampler_def Let_def verify_checksum_def split: option.split)
qed

text \<open>Where the stream \<open>0, 1\<close> was delivered the sampler now gives \<open>1, 1\<close>.\<close>

definition one_forever :: "(int, int) source" where
  "one_forever it = (it + 1, Inr 1)"

lemma diverging_sampler_refused_witness:
  "\<exists>c. batch_checksum (\<lambda>v. Inr [v mod 256]) 0 [0, 1] = Inr c \<and>
       new_sampler one_forever (\<lambda>v. Inr [v mod 256]) None 0 (Some 2) False 1 c = Inl mismatch_error"
proof -
  let ?d = "\<lambda>v :: int. Inr [v mod 256] :: int list res"
  have total: "dumps_total ?d" by (simp add: dumps_total_def bytes_ok_def u8_def)
  have "u32 0" by (simp add: u32_def)
  then obtain c where c: "batch_checksum ?d 0 ([] @ 0 # [1]) = Inr c" using batch_checksum_total [OF total] by blast
  have "new_sampler one_forever ?d None 0 (Some 2) False 1 c = Inl mismatch_error"
    by (rule diverging_sampler_refused [OF total _ _ _ c, where y = 1 and p = "[]" and q = "[]" and a = 0 and b = 1])
      (simp_all add: one_forever_def or_one_def)
  with c show ?thesis by auto
qed

end
