(* ===== verification/Streams.thy ===== *)
theory Streams
  imports Complex_Main Rng Collections
begin

text \<open>
  The random surfaces of user code: \<^verbatim>\<open>PhiloxRandom\<close> of \<^verbatim>\<open>process/random_surface.py\<close>, the sample
  pointer it arms itself from (\<^verbatim>\<open>process/sample_rng.py\<close>), the key derivation of the NumPy surface
  (\<^verbatim>\<open>process/numpy_surface.py\<close>), the installation of sample and collation streams
  (\<^verbatim>\<open>process/rng.py\<close>, \<^verbatim>\<open>inprocess/rng.py\<close>) and the accessor cache of \<^verbatim>\<open>rng.py\<close>.
\<close>

unbundle bit_operations_syntax

section \<open>The sample pointer\<close>

text \<open>
  A sample context is told apart from an equal one by its object identity, which \<^verbatim>\<open>is\<close> compares:
  the field \<open>sr_token\<close>.
\<close>

record sample_rng =
  sr_token :: nat
  sr_seed :: int
  sr_key :: int
  sr_coord :: int

definition install_sample :: "nat \<Rightarrow> int \<Rightarrow> int \<Rightarrow> int \<Rightarrow> sample_rng" where
  "install_sample token root_seed epoch coordinate =
    (case sample_rng_context root_seed epoch coordinate of (seed, key, coord) \<Rightarrow>
      \<lparr>sr_token = token, sr_seed = seed, sr_key = key, sr_coord = coord\<rparr>)"

definition install_collate :: "nat \<Rightarrow> int \<Rightarrow> int \<Rightarrow> int \<Rightarrow> sample_rng" where
  "install_collate token root_seed epoch ordinal =
    (case rng_block root_seed epoch ordinal 0 1 of (word0, word1, _, _) \<Rightarrow>
      case sample_rng_context root_seed epoch ordinal of (_, key, coord) \<Rightarrow>
        \<lparr>sr_token = token, sr_seed = word0 OR push_bit 32 word1, sr_key = key, sr_coord = coord\<rparr>)"

section \<open>The Philox-backed random module\<close>

definition STATE_RANDOM :: int where "STATE_RANDOM = 7"
definition DRAW_LIMIT :: int where "DRAW_LIMIT = push_bit 32 1"

record philox_random =
  pr_stream_id :: int
  pr_armed :: "nat option"
  pr_key :: int
  pr_coord :: int
  pr_next_block :: int
  pr_words :: "int list"
  pr_word_offset :: int
  pr_gauss_next :: "rat option"

definition new_philox :: "int \<Rightarrow> philox_random" where
  "new_philox stream_id =
    \<lparr>pr_stream_id = stream_id, pr_armed = None, pr_key = 0, pr_coord = 0, pr_next_block = 0,
     pr_words = [], pr_word_offset = 0, pr_gauss_next = None\<rparr>"

definition rekey :: "int \<Rightarrow> int \<Rightarrow> philox_random \<Rightarrow> philox_random" where
  "rekey key coord r =
    r\<lparr>pr_key := key, pr_coord := coord, pr_next_block := 0, pr_words := [], pr_word_offset := 0,
      pr_gauss_next := None\<rparr>"

text \<open>
  The argument \<open>current\<close> is the sample the pointer holds; it is \<open>None\<close> both for an empty pointer and
  for a generator that has no pointer.
\<close>

definition ensure_armed :: "sample_rng option \<Rightarrow> philox_random \<Rightarrow> philox_random" where
  "ensure_armed current r =
    (case current of
       None \<Rightarrow> r
     | Some sample \<Rightarrow>
         if pr_armed r = Some (sr_token sample) then r
         else (rekey (sr_key sample) (sr_coord sample) r)\<lparr>pr_armed := Some (sr_token sample)\<rparr>)"

text \<open>\<open>standard\<close> is what the standard generator's \<^verbatim>\<open>getrandbits(64)\<close> gives for the seed.\<close>

definition seed_random :: "sample_rng option \<Rightarrow> int \<Rightarrow> philox_random \<Rightarrow> philox_random" where
  "seed_random current standard r = (rekey standard 0 r)\<lparr>pr_armed := map_option sr_token current\<rparr>"

type_synonym random_state = "string \<times> int \<times> int \<times> int \<times> int list \<times> int \<times> rat option"

definition STATE_MARKER :: string where "STATE_MARKER = ''hyperloader-philox''"

definition getstate :: "sample_rng option \<Rightarrow> philox_random \<Rightarrow> philox_random \<times> random_state" where
  "getstate current r =
    (let r = ensure_armed current r in
     (r, STATE_MARKER, pr_key r, pr_coord r, pr_next_block r, pr_words r, pr_word_offset r, pr_gauss_next r))"

definition setstate :: "sample_rng option \<Rightarrow> random_state \<Rightarrow> philox_random \<Rightarrow> philox_random res" where
  "setstate current state r =
    (case state of (marker, key, coord, next_block, words, word_offset, gauss_next) \<Rightarrow>
      if marker \<noteq> STATE_MARKER
      then Inl (ValueError ''state does not describe a hyperloader Philox stream'')
      else if \<not> (0 \<le> next_block \<and> next_block \<le> DRAW_LIMIT)
      then Inl (ValueError ''random draw index is outside the Philox counter domain'')
      else if \<not> (0 \<le> word_offset \<and> word_offset \<le> int (length words) \<and> length words \<le> 4)
      then Inl (ValueError ''random state contains an invalid buffered-word range'')
      else Inr (r\<lparr>pr_key := key, pr_coord := coord, pr_next_block := next_block,
                  pr_words := map (\<lambda>word. word AND MASK32) words, pr_word_offset := word_offset,
                  pr_gauss_next := gauss_next, pr_armed := map_option sr_token current\<rparr>))"

definition block_words :: "block \<Rightarrow> int list" where
  "block_words b = (case b of (w0, w1, w2, w3) \<Rightarrow> [w0, w1, w2, w3])"

definition next_word :: "sample_rng option \<Rightarrow> philox_random \<Rightarrow> philox_random \<times> int res" where
  "next_word current r =
    (let r = ensure_armed current r in
     if pr_word_offset r = int (length (pr_words r)) then
       if pr_next_block r = DRAW_LIMIT
       then (r, Inl (OverflowError ''random draw index exhausted the Philox counter domain''))
       else
         let words = block_words (rng_block_from_key (pr_key r) (pr_coord r) (pr_next_block r) (pr_stream_id r))
         in (r\<lparr>pr_words := words, pr_next_block := pr_next_block r + 1, pr_word_offset := 1\<rparr>, Inr (words ! 0))
     else (r\<lparr>pr_word_offset := pr_word_offset r + 1\<rparr>, Inr (pr_words r ! nat (pr_word_offset r))))"

text \<open>A uniform value is 53 bits of two words; every operation on it is exact in a float.\<close>

definition random_value :: "sample_rng option \<Rightarrow> philox_random \<Rightarrow> philox_random \<times> rat res" where
  "random_value current r =
    (case next_word current r of
       (r, Inl e) \<Rightarrow> (r, Inl e)
     | (r, Inr word) \<Rightarrow>
         let upper = drop_bit 5 word in
         (case next_word current r of
            (r, Inl e) \<Rightarrow> (r, Inl e)
          | (r, Inr word) \<Rightarrow>
              let lower = drop_bit 6 word
              in (r, Inr (of_int (upper * 67108864 + lower) / 2 ^ 53))))"

function draw_bits :: "sample_rng option \<Rightarrow> nat \<Rightarrow> nat \<Rightarrow> int \<Rightarrow> philox_random \<Rightarrow> philox_random \<times> int res" where
  "draw_bits current k produced result r =
    (if k \<le> produced then (r, Inr result)
     else
       let width = min 32 (k - produced) in
       case next_word current r of
         (r, Inl e) \<Rightarrow> (r, Inl e)
       | (r, Inr word) \<Rightarrow>
           let word = (if width < 32 then drop_bit (32 - width) word else word)
           in draw_bits current k (produced + width) (result OR push_bit produced word) r)"
  by pat_completeness auto
termination
  by (relation "measure (\<lambda>(_, k, produced, _, _). k - produced)") auto

declare draw_bits.simps [simp del]

definition getrandbits :: "sample_rng option \<Rightarrow> int \<Rightarrow> philox_random \<Rightarrow> philox_random \<times> int res" where
  "getrandbits current k r =
    (if k < 0 then (r, Inl (ValueError ''number of bits must be non-negative''))
     else if k = 0 then (r, Inr 0)
     else draw_bits current (nat k) 0 0 r)"

section \<open>The stream\<close>

text \<open>Word \<open>n\<close> of the stream of a key and coordinate, and a generator that is at word \<open>n\<close>.\<close>

definition word_at :: "int \<Rightarrow> int \<Rightarrow> int \<Rightarrow> nat \<Rightarrow> int" where
  "word_at key coord stream n =
    block_words (rng_block_from_key key coord (int (n div 4)) stream) ! (n mod 4)"

definition at_word :: "nat \<Rightarrow> philox_random \<Rightarrow> bool" where
  "at_word n r \<longleftrightarrow>
     (pr_words r = [] \<and> pr_word_offset r = 0 \<and> 4 * pr_next_block r = int n) \<or>
     (\<exists>b k. pr_next_block r = int b + 1 \<and> pr_word_offset r = int k \<and> 0 < k \<and> k \<le> 4 \<and> n = 4 * b + k \<and>
        pr_words r = block_words (rng_block_from_key (pr_key r) (pr_coord r) (int b) (pr_stream_id r)))"

definition armed_for :: "sample_rng option \<Rightarrow> philox_random \<Rightarrow> bool" where
  "armed_for current r \<longleftrightarrow> (\<forall>s. current = Some s \<longrightarrow> pr_armed r = Some (sr_token s))"

definition same_stream :: "philox_random \<Rightarrow> philox_random \<Rightarrow> bool" where
  "same_stream r t \<longleftrightarrow>
     pr_key t = pr_key r \<and> pr_coord t = pr_coord r \<and> pr_stream_id t = pr_stream_id r \<and> pr_armed t = pr_armed r"

lemma length_block_words [simp]: "length (block_words b) = 4"
  by (simp add: block_words_def split: prod.splits)

lemma block_words_range:
  assumes "w \<in> set (block_words (rng_block_from_key key coord d s))"
  shows "0 \<le> w \<and> w < 2 ^ 32"
proof -
  have range: "u32x4 (rng_block_from_key key coord d s)" by (simp only: rng_block_from_key_def philox_range)
  obtain w0 w1 w2 w3 where "rng_block_from_key key coord d s = (w0, w1, w2, w3)"
    by (cases "rng_block_from_key key coord d s")
  with range assms show ?thesis by (auto simp: block_words_def)
qed

lemma word_at_range: "0 \<le> word_at key coord stream n \<and> word_at key coord stream n < 2 ^ 32"
  unfolding word_at_def by (rule block_words_range [OF nth_mem]) simp

lemma ensure_armed_id: "armed_for current r \<Longrightarrow> ensure_armed current r = r"
  by (auto simp: ensure_armed_def armed_for_def split: option.splits)

lemma ensure_armed_armed: "armed_for current (ensure_armed current r)"
  by (auto simp: ensure_armed_def armed_for_def split: option.splits)

lemma rekey_at_start: "at_word 0 (rekey key coord r)"
  by (simp add: at_word_def rekey_def)

lemma next_word_stream:
  assumes at: "at_word n r" and armed: "armed_for current r" and n: "n < 2 ^ 34"
  shows "\<exists>t. next_word current r = (t, Inr (word_at (pr_key r) (pr_coord r) (pr_stream_id r) n)) \<and>
    at_word (n + 1) t \<and> same_stream r t"
proof -
  let ?block = "\<lambda>d. block_words (rng_block_from_key (pr_key r) (pr_coord r) d (pr_stream_id r))"
  have id: "ensure_armed current r = r" by (rule ensure_armed_id [OF armed])
  have limit: "DRAW_LIMIT = 2 ^ 32" by (simp add: DRAW_LIMIT_def push_bit_eq_mult)
  consider (fresh) b where "pr_next_block r = int b" "n = 4 * b" "pr_word_offset r = int (length (pr_words r))"
    | (buffered) b k where "pr_next_block r = int b + 1" "pr_word_offset r = int k" "0 < k" "k < 4"
        "n = 4 * b + k" "pr_words r = ?block (int b)"
  proof -
    from at [unfolded at_word_def] show thesis
    proof (elim disjE conjE exE)
      assume "pr_words r = []" "pr_word_offset r = 0" "4 * pr_next_block r = int n"
      moreover from this have "pr_next_block r = int (nat (pr_next_block r))" by simp
      ultimately show thesis by (intro fresh [of "nat (pr_next_block r)"]) auto
    next
      fix b k assume *: "pr_next_block r = int b + 1" "pr_word_offset r = int k" "0 < k" "k \<le> 4"
        "n = 4 * b + k" "pr_words r = ?block (int b)"
      show thesis
      proof (cases "k = 4")
        case True
        with * show thesis by (intro fresh [of "b + 1"]) simp_all
      next
        case False
        with * show thesis by (intro buffered [of b k]) simp_all
      qed
    qed
  qed
  then show ?thesis
  proof cases
    case fresh
    with n have "pr_next_block r \<noteq> DRAW_LIMIT" by (simp add: limit)
    let ?t = "r\<lparr>pr_words := ?block (int b), pr_next_block := int b + 1, pr_word_offset := 1\<rparr>"
    have "next_word current r = (?t, Inr (?block (int b) ! 0))"
      using fresh \<open>pr_next_block r \<noteq> DRAW_LIMIT\<close> by (simp add: next_word_def id Let_def)
    moreover have "word_at (pr_key r) (pr_coord r) (pr_stream_id r) n = ?block (int b) ! 0"
      using fresh by (simp add: word_at_def)
    moreover have "at_word (n + 1) ?t"
      unfolding at_word_def using fresh by (intro disjI2 exI [of _ b] exI [of _ 1]) simp
    ultimately show ?thesis by (simp add: same_stream_def)
  next
    case buffered
    let ?t = "r\<lparr>pr_word_offset := int k + 1\<rparr>"
    have "next_word current r = (?t, Inr (?block (int b) ! k))"
      using buffered by (simp add: next_word_def id Let_def)
    moreover have "word_at (pr_key r) (pr_coord r) (pr_stream_id r) n = ?block (int b) ! k"
      using buffered by (simp add: word_at_def)
    moreover have "at_word (n + 1) ?t"
      unfolding at_word_def using buffered by (intro disjI2 exI [of _ b] exI [of _ "k + 1"]) simp
    ultimately show ?thesis by (simp add: same_stream_def)
  qed
qed

fun draw_words :: "sample_rng option \<Rightarrow> nat \<Rightarrow> philox_random \<Rightarrow> philox_random \<times> int list res" where
  "draw_words current 0 r = (r, Inr [])"
| "draw_words current (Suc n) r =
    (case next_word current r of
       (r, Inl e) \<Rightarrow> (r, Inl e)
     | (r, Inr w) \<Rightarrow> (case draw_words current n r of (r, ws) \<Rightarrow> (r, rmap (Cons w) ws)))"

lemma armed_same_stream: "armed_for current r \<Longrightarrow> same_stream r t \<Longrightarrow> armed_for current t"
  by (simp add: armed_for_def same_stream_def)

lemma draw_words_stream:
  "at_word n r \<Longrightarrow> armed_for current r \<Longrightarrow> n + m \<le> 2 ^ 34 \<Longrightarrow>
   \<exists>t. draw_words current m r = (t, Inr (map (word_at (pr_key r) (pr_coord r) (pr_stream_id r)) [n..<n + m])) \<and>
     at_word (n + m) t \<and> same_stream r t"
proof (induction m arbitrary: n r)
  case 0
  then show ?case by (simp add: same_stream_def)
next
  case (Suc m)
  then obtain t where t: "next_word current r = (t, Inr (word_at (pr_key r) (pr_coord r) (pr_stream_id r) n))"
    "at_word (n + 1) t" "same_stream r t" using next_word_stream [of n r current] by auto
  have "armed_for current t" by (rule armed_same_stream [OF Suc.prems(2) t(3)])
  moreover have "(n + 1) + m \<le> 2 ^ 34" using Suc.prems(3) by simp
  ultimately obtain u where u: "draw_words current m t = (u, Inr (map (word_at (pr_key t) (pr_coord t) (pr_stream_id t))
      [n + 1..<(n + 1) + m]))" "at_word ((n + 1) + m) u" "same_stream t u"
    using Suc.IH [OF t(2)] by blast
  have "[n..<n + Suc m] = n # [n + 1..<(n + 1) + m]" by (simp add: upt_rec [of n])
  with t u show ?case by (auto simp: same_stream_def)
qed

text \<open>
  A generator armed for a sample gives exactly the words of the sample's Philox stream, in
  order and without repetition or gap, over all \<open>2^34\<close> words its counter can name.
\<close>

theorem sample_stream_exact:
  assumes "m \<le> 2 ^ 34" and "pr_armed r \<noteq> Some (sr_token s)"
  shows "\<exists>t. draw_words (Some s) m r =
    (t, Inr (map (word_at (sr_key s) (sr_coord s) (pr_stream_id r)) [0..<m]))"
proof (cases m)
  case (Suc k)
  let ?r = "ensure_armed (Some s) r"
  have fresh: "at_word 0 ?r" "armed_for (Some s) ?r" "pr_key ?r = sr_key s" "pr_coord ?r = sr_coord s"
    "pr_stream_id ?r = pr_stream_id r"
    using assms(2) by (simp_all add: ensure_armed_def at_word_def rekey_def armed_for_def)
  have "next_word (Some s) r = next_word (Some s) ?r"
    by (simp add: next_word_def ensure_armed_id [OF fresh(2)])
  then have "draw_words (Some s) m r = draw_words (Some s) m ?r" by (simp add: Suc)
  with draw_words_stream [OF fresh(1,2), of m] assms(1) fresh(3-5) show ?thesis by auto
qed simp

theorem sample_stream_exact_witness:
  "\<exists>t. draw_words (Some \<lparr>sr_token = 1, sr_seed = 0, sr_key = 9, sr_coord = 3\<rparr>) 6 (new_philox STATE_RANDOM) =
    (t, Inr (map (word_at 9 3 7) [0..<6]))"
  using sample_stream_exact [of 6 "new_philox STATE_RANDOM" "\<lparr>sr_token = 1, sr_seed = 0, sr_key = 9, sr_coord = 3\<rparr>"]
  by (simp add: new_philox_def STATE_RANDOM_def)


section \<open>Saving and restoring a generator\<close>

text \<open>What every generator satisfies between calls.\<close>

definition philox_wf :: "philox_random \<Rightarrow> bool" where
  "philox_wf r \<longleftrightarrow> 0 \<le> pr_next_block r \<and> pr_next_block r \<le> DRAW_LIMIT \<and> length (pr_words r) \<le> 4 \<and>
     0 \<le> pr_word_offset r \<and> pr_word_offset r \<le> int (length (pr_words r)) \<and>
     (\<forall>w \<in> set (pr_words r). 0 \<le> w \<and> w < 2 ^ 32)"

lemma DRAW_LIMIT_eq: "DRAW_LIMIT = 2 ^ 32"
  by (simp add: DRAW_LIMIT_def push_bit_eq_mult)

lemma wf_new_philox: "philox_wf (new_philox stream_id)"
  by (simp add: philox_wf_def new_philox_def DRAW_LIMIT_eq)

lemma wf_rekey: "philox_wf (rekey key coord r)"
  by (simp add: philox_wf_def rekey_def DRAW_LIMIT_eq)

lemma wf_armed [simp]: "philox_wf (r\<lparr>pr_armed := a\<rparr>) = philox_wf r"
  by (simp add: philox_wf_def)

lemma wf_ensure_armed: "philox_wf r \<Longrightarrow> philox_wf (ensure_armed current r)"
  by (simp add: ensure_armed_def wf_rekey split: option.split)

lemma wf_seed_random: "philox_wf (seed_random current standard r)"
  by (simp add: seed_random_def wf_rekey)

lemma wf_next_word:
  assumes "philox_wf r"
  shows "philox_wf (fst (next_word current r))"
  using wf_ensure_armed [OF assms, of current]
  by (auto simp: next_word_def Let_def philox_wf_def dest: block_words_range)

lemma next_word_range:
  assumes "philox_wf r" and "next_word current r = (t, Inr w)"
  shows "0 \<le> w \<and> w < 2 ^ 32"
proof -
  let ?r = "ensure_armed current r"
  have wf: "philox_wf ?r" by (rule wf_ensure_armed [OF assms(1)])
  show ?thesis
  proof (cases "pr_word_offset ?r = int (length (pr_words ?r))")
    case True
    with assms(2) have "w = block_words (rng_block_from_key (pr_key ?r) (pr_coord ?r) (pr_next_block ?r) (pr_stream_id ?r)) ! 0"
      by (auto simp: next_word_def Let_def split: if_splits)
    moreover have "block_words b ! 0 \<in> set (block_words b)" for b by (rule nth_mem) simp
    ultimately show ?thesis using block_words_range by blast
  next
    case False
    with assms(2) have "w = pr_words ?r ! nat (pr_word_offset ?r)" by (auto simp: next_word_def Let_def)
    moreover have "nat (pr_word_offset ?r) < length (pr_words ?r)" using wf False by (auto simp: philox_wf_def)
    ultimately show ?thesis using wf nth_mem by (auto simp: philox_wf_def)
  qed
qed

lemma setstate_wf: "setstate current state r = Inr t \<Longrightarrow> philox_wf t"
  by (auto simp: setstate_def philox_wf_def split: prod.splits if_splits)

lemma masked_words: "\<forall>w \<in> set ws. 0 \<le> w \<and> w < 2 ^ 32 \<Longrightarrow> map (\<lambda>word. word AND MASK32) ws = ws"
  by (rule map_idI) (simp add: take_bit_int_eq_self)

text \<open>
  A generator restored from the state another one saved goes on exactly where the saved one
  stands: it is equal to it in every field a draw reads, and both are armed for the current sample.
\<close>

theorem random_state_roundtrip:
  assumes "philox_wf r" and "getstate current r = (saved, state)" and "pr_stream_id t = pr_stream_id r"
  shows "setstate current state t = Inr (saved\<lparr>pr_armed := map_option sr_token current\<rparr>)"
proof -
  have wf: "philox_wf (ensure_armed current r)" by (rule wf_ensure_armed [OF assms(1)])
  have "pr_stream_id (ensure_armed current r) = pr_stream_id r"
    by (simp add: ensure_armed_def rekey_def split: option.split)
  with wf assms show ?thesis
    by (auto simp: getstate_def setstate_def Let_def philox_wf_def masked_words simp del: and_MASK32
        intro!: philox_random.equality)
qed

theorem random_state_roundtrip_witness:
  "let r = rekey 9 3 (new_philox STATE_RANDOM); (saved, state) = getstate None r
   in setstate None state (new_philox STATE_RANDOM) = Inr saved"
proof -
  let ?r = "rekey 9 3 (new_philox STATE_RANDOM)"
  obtain saved state where s: "getstate None ?r = (saved, state)" by (cases "getstate None ?r")
  have "pr_armed saved = None" using s by (auto simp: getstate_def ensure_armed_def rekey_def new_philox_def)
  with random_state_roundtrip [OF wf_rekey s, of "new_philox STATE_RANDOM"] s show ?thesis
    by (simp add: rekey_def new_philox_def)
qed

section \<open>Bits and uniform values\<close>

lemma drop_bit_bound:
  assumes "(w::int) < 2 ^ (m + n)"
  shows "drop_bit n w < 2 ^ m"
proof (rule ccontr)
  assume "\<not> ?thesis"
  then have "2 ^ m * 2 ^ n \<le> (w div 2 ^ n) * 2 ^ n" by (intro mult_right_mono) (simp_all add: drop_bit_eq_div)
  moreover have "0 \<le> w mod 2 ^ n" by simp
  then have "(w div 2 ^ n) * 2 ^ n \<le> w" using minus_mod_eq_div_mult [of w "2 ^ n"] by linarith
  ultimately have "2 ^ m * 2 ^ n \<le> w" by linarith
  with assms show False by (simp add: power_add)
qed

lemma or_bits_bound:
  assumes "0 \<le> (x::int)" "x < 2 ^ p" "0 \<le> w" "w < 2 ^ n"
  shows "0 \<le> x OR push_bit p w \<and> x OR push_bit p w < 2 ^ (p + n)"
proof -
  have "push_bit p w < 2 ^ (p + n)" using assms by (simp add: push_bit_eq_mult power_add mult.commute)
  moreover have "x < 2 ^ (p + n)"
    by (rule less_le_trans [OF assms(2)]) (simp add: power_increasing)
  moreover have "0 \<le> push_bit p w" using assms by simp
  ultimately show ?thesis using assms OR_upper [of x "p + n" "push_bit p w"] by simp
qed

lemma draw_bits_bound:
  "philox_wf r \<Longrightarrow> produced \<le> k \<Longrightarrow> 0 \<le> result \<Longrightarrow> result < 2 ^ produced \<Longrightarrow>
   draw_bits current k produced result r = (t, Inr v) \<Longrightarrow> philox_wf t \<and> 0 \<le> v \<and> v < 2 ^ k"
proof (induction current k produced result r rule: draw_bits.induct)
  case (1 current k produced result r)
  show ?case
  proof (cases "k \<le> produced")
    case True
    with "1.prems"(2) have "produced = k" by simp
    with "1.prems" show ?thesis by (auto simp: draw_bits.simps [of current k k])
  next
    case False
    let ?width = "min 32 (k - produced)"
    obtain u o1 where n: "next_word current r = (u, o1)" by (cases "next_word current r")
    with False "1.prems"(5) obtain w where o1: "o1 = Inr w"
      by (cases o1) (auto simp: draw_bits.simps [of current k produced] Let_def)
    have w: "0 \<le> w" "w < 2 ^ 32" using next_word_range [OF "1.prems"(1)] n o1 by auto
    let ?w = "if ?width < 32 then drop_bit (32 - ?width) w else w"
    have "0 \<le> ?w" using w by simp
    moreover have "?w < 2 ^ ?width"
    proof (cases "?width < 32")
      case True
      then have "32 = ?width + (32 - ?width)" by simp
      with w have "w < 2 ^ (?width + (32 - ?width))" by metis
      moreover have "k - produced < 32" using True by simp
      ultimately show ?thesis using drop_bit_bound [of w ?width "32 - ?width"] by simp
    qed (use w in simp)
    ultimately have bits: "0 \<le> result OR push_bit produced ?w" "result OR push_bit produced ?w < 2 ^ (produced + ?width)"
      using or_bits_bound [of result produced ?w ?width] "1.prems"(3,4) by simp_all
    have wf: "philox_wf u" using wf_next_word [OF "1.prems"(1), of current] n by simp
    have "draw_bits current k (produced + ?width) (result OR push_bit produced ?w) u = (t, Inr v)"
      using "1.prems"(5) False n o1 by (simp add: draw_bits.simps [of current k produced] Let_def)
    with "1.IH" [OF False refl n [symmetric] o1 refl wf _ bits] False show ?thesis by simp
  qed
qed

lemma getrandbits_range:
  assumes "philox_wf r" "getrandbits current k r = (t, Inr v)"
  shows "philox_wf t \<and> 0 \<le> v \<and> v < 2 ^ nat k"
proof (cases "k \<le> 0")
  case True
  with assms show ?thesis by (auto simp: getrandbits_def split: if_splits)
next
  case False
  with assms have "draw_bits current (nat k) 0 0 r = (t, Inr v)" by (simp add: getrandbits_def)
  from draw_bits_bound [OF assms(1) _ _ _ this] show ?thesis by simp
qed

lemma random_value_range:
  assumes wf: "philox_wf r" and result: "random_value current r = (t, Inr v)"
  shows "0 \<le> v \<and> v < 1"
proof -
  obtain s u w0 w1 where
    d: "next_word current r = (s, Inr w0)" "next_word current s = (u, Inr w1)" and
    v: "v = of_int (drop_bit 5 w0 * 67108864 + drop_bit 6 w1) / 2 ^ 53"
    using result by (auto simp: random_value_def Let_def split: prod.splits sum.splits)
  have "philox_wf s" using wf_next_word [OF wf, of current] d(1) by simp
  then have w: "0 \<le> w0" "w0 < 2 ^ 32" "0 \<le> w1" "w1 < 2 ^ 32"
    using next_word_range [OF wf d(1)] next_word_range [OF _ d(2)] by simp_all
  have "drop_bit 5 w0 < 2 ^ 27" "drop_bit 6 w1 < 2 ^ 26"
    using drop_bit_bound [of w0 27 5] drop_bit_bound [of w1 26 6] w by simp_all
  then have "drop_bit 5 w0 * 67108864 + drop_bit 6 w1 < 2 ^ 53" by simp
  moreover have "0 \<le> drop_bit 5 w0 * 67108864 + drop_bit 6 w1" using w by simp
  ultimately show ?thesis unfolding v
    by (simp add: divide_less_eq of_int_less_iff [of _ "2 ^ 53", where 'a = rat, simplified])
qed

section \<open>The NumPy surface\<close>

definition STATE_NUMPY :: int where "STATE_NUMPY = 8"

text \<open>
  \<^verbatim>\<open>_splitmix64\<close> of the two Python modules does not mask its argument first. The record is the state
  dictionary of NumPy's \<^verbatim>\<open>Philox\<close>; \<open>'l\<close> is the legacy \<^verbatim>\<open>RandomState\<close>.
\<close>

definition splitmix64_raw :: "int \<Rightarrow> int" where
  "splitmix64_raw value =
    (let value = value XOR drop_bit 30 value;
         value = (value * 0xBF58476D1CE4E5B9) AND MASK64;
         value = value XOR drop_bit 27 value;
         value = (value * 0x94D049BB133111EB) AND MASK64;
         value = value XOR drop_bit 31 value
     in value)"

record numpy_state =
  ns_counter :: "int list"
  ns_key :: "int list"
  ns_buffer :: "int list"
  ns_buffer_pos :: int
  ns_has_uint32 :: int
  ns_uinteger :: int

record 'l numpy_surface =
  np_armed :: "nat option"
  np_state :: numpy_state
  np_legacy_seed :: int
  np_legacy_state :: "'l option"
  np_legacy_dirty :: bool

definition rekeyed_state :: "int \<Rightarrow> int \<Rightarrow> numpy_state \<Rightarrow> numpy_state" where
  "rekeyed_state stream_key coord state =
    state\<lparr>ns_counter := [coord, 0, 0, 0], ns_key := [stream_key, 0],
          ns_buffer := map (\<lambda>_. 0) (ns_buffer state), ns_buffer_pos := 4, ns_has_uint32 := 0, ns_uinteger := 0\<rparr>"

definition numpy_rekey :: "int \<Rightarrow> int \<Rightarrow> 'l numpy_surface \<Rightarrow> 'l numpy_surface" where
  "numpy_rekey key coord s =
    (let stream_key = (key XOR splitmix64_raw STATE_NUMPY) AND MASK64 in
     s\<lparr>np_state := rekeyed_state stream_key coord (np_state s),
       np_legacy_seed := stream_key AND (push_bit 32 1 - 1), np_legacy_dirty := True\<rparr>)"

definition numpy_ensure_armed :: "sample_rng option \<Rightarrow> 'l numpy_surface \<Rightarrow> 'l numpy_surface" where
  "numpy_ensure_armed current s =
    (case current of
       None \<Rightarrow> s
     | Some sample \<Rightarrow>
         if np_armed s = Some (sr_token sample) then s
         else (numpy_rekey (sr_key sample) (sr_coord sample) s)\<lparr>np_armed := Some (sr_token sample)\<rparr>)"

text \<open>\<open>fresh\<close> is a new \<^verbatim>\<open>RandomState()\<close> and \<open>seed\<close> its reseeding.\<close>

definition numpy_legacy :: "'l \<Rightarrow> (int \<Rightarrow> 'l \<Rightarrow> 'l) \<Rightarrow> sample_rng option \<Rightarrow> 'l numpy_surface \<Rightarrow> 'l numpy_surface \<times> 'l" where
  "numpy_legacy fresh seed current s =
    (let s = numpy_ensure_armed current s;
         legacy = (case np_legacy_state s of None \<Rightarrow> fresh | Some legacy \<Rightarrow> legacy)
     in if np_legacy_dirty s
        then (let legacy = seed (np_legacy_seed s) legacy
              in (s\<lparr>np_legacy_state := Some legacy, np_legacy_dirty := False\<rparr>, legacy))
        else (s\<lparr>np_legacy_state := Some legacy\<rparr>, legacy))"

definition numpy_seed :: "'l \<Rightarrow> (int \<Rightarrow> 'l \<Rightarrow> 'l) \<Rightarrow> sample_rng option \<Rightarrow> int \<Rightarrow> 'l numpy_surface \<Rightarrow> 'l numpy_surface" where
  "numpy_seed fresh reseed current a s =
    (case numpy_legacy fresh reseed current s of (s, legacy) \<Rightarrow>
      s\<lparr>np_legacy_state := Some (reseed a legacy), np_legacy_dirty := False\<rparr>)"

definition numpy_set_state :: "'l \<Rightarrow> (int \<Rightarrow> 'l \<Rightarrow> 'l) \<Rightarrow> sample_rng option \<Rightarrow> ('l \<Rightarrow> 'l) \<Rightarrow> 'l numpy_surface \<Rightarrow> 'l numpy_surface" where
  "numpy_set_state fresh reseed current restore s =
    (case numpy_legacy fresh reseed current s of (s, legacy) \<Rightarrow>
      s\<lparr>np_legacy_state := Some (restore legacy), np_legacy_dirty := False\<rparr>)"

lemma splitmix64_raw_eq: "0 \<le> value \<Longrightarrow> value < 2 ^ 64 \<Longrightarrow> splitmix64_raw value = splitmix64 value"
  by (simp add: splitmix64_raw_def splitmix64_def take_bit_int_eq_self)

lemma numpy_armed_state:
  assumes "np_armed s \<noteq> Some (sr_token sample)"
  shows "np_state (numpy_ensure_armed (Some sample) s) =
    \<lparr>ns_counter = [sr_coord sample, 0, 0, 0],
     ns_key = [(sr_key sample XOR splitmix64 STATE_NUMPY) AND MASK64, 0],
     ns_buffer = replicate (length (ns_buffer (np_state s))) 0, ns_buffer_pos = 4, ns_has_uint32 = 0, ns_uinteger = 0\<rparr>"
  using assms splitmix64_raw_eq [of STATE_NUMPY]
  by (simp add: numpy_ensure_armed_def numpy_rekey_def rekeyed_state_def Let_def STATE_NUMPY_def map_replicate_const)

lemma numpy_legacy_reseeded:
  assumes "np_armed s \<noteq> Some (sr_token sample)" and "\<And>seed old old'. reseed seed old = reseed seed old'"
  shows "snd (numpy_legacy fresh reseed (Some sample) s) =
    reseed (take_bit 32 (sr_key sample XOR splitmix64 STATE_NUMPY)) fresh"
proof -
  have "x AND (push_bit 32 1 - 1) = take_bit 32 x" for x :: int
    using and_MASK32 [of x] by (simp only: MASK32_def)
  with assms splitmix64_raw_eq [of STATE_NUMPY] show ?thesis
    by (auto simp: numpy_legacy_def numpy_ensure_armed_def numpy_rekey_def Let_def STATE_NUMPY_def split: option.splits)
qed

section \<open>The accessor cache\<close>

definition ACC_TORCH :: int where "ACC_TORCH = 4"
definition ACC_NUMPY :: int where "ACC_NUMPY = 5"
definition ACC_RANDOM :: int where "ACC_RANDOM = 6"

datatype rng_kind = Torch | Numpy | Random

text \<open>
  A generator is what the module last set of it: a torch generator is its manual seed, a NumPy one
  its bit generator's state, a Python one the Philox generator above.
\<close>

datatype generator = TorchGenerator int | NumpyGenerator numpy_state | RandomGenerator philox_random

record generator_cache =
  gc_tokens :: "(rng_kind \<times> nat) list"
  gc_generators :: "(rng_kind \<times> generator) list"

definition new_cache :: generator_cache where
  "new_cache = \<lparr>gc_tokens = [], gc_generators = []\<rparr>"

definition stream_seed :: "sample_rng \<Rightarrow> int \<Rightarrow> int" where
  "stream_seed sample stream_id =
    (case rng_block_from_key (sr_key sample) (sr_coord sample) 0 stream_id of
       (word0, word1, _, _) \<Rightarrow> word0 OR push_bit 32 word1)"

definition numpy_sample_state :: "sample_rng \<Rightarrow> numpy_state \<Rightarrow> numpy_state" where
  "numpy_sample_state sample state =
    rekeyed_state ((sr_key sample XOR splitmix64_raw ACC_NUMPY) AND MASK64) (sr_coord sample) state"

text \<open>The state of \<^verbatim>\<open>np.random.Philox(key=0, counter=0)\<close>: an exhausted buffer of four words.\<close>

definition zero_numpy_state :: numpy_state where
  "zero_numpy_state =
    \<lparr>ns_counter = [0, 0, 0, 0], ns_key = [0, 0], ns_buffer = [0, 0, 0, 0], ns_buffer_pos = 4,
     ns_has_uint32 = 0, ns_uinteger = 0\<rparr>"

fun build_generator :: "rng_kind \<Rightarrow> sample_rng \<Rightarrow> generator" where
  "build_generator Torch sample = TorchGenerator (stream_seed sample ACC_TORCH)"
| "build_generator Numpy sample = NumpyGenerator (numpy_sample_state sample zero_numpy_state)"
| "build_generator Random sample =
    RandomGenerator (rekey (sr_key sample) (sr_coord sample) (new_philox ACC_RANDOM))"

fun rekey_generator :: "rng_kind \<Rightarrow> generator \<Rightarrow> sample_rng \<Rightarrow> generator" where
  "rekey_generator Torch _ sample = TorchGenerator (stream_seed sample ACC_TORCH)"
| "rekey_generator Numpy (NumpyGenerator state) sample = NumpyGenerator (numpy_sample_state sample state)"
| "rekey_generator Random (RandomGenerator r) sample = RandomGenerator (rekey (sr_key sample) (sr_coord sample) r)"
| "rekey_generator _ g _ = g"

definition cache_resolve :: "rng_kind \<Rightarrow> sample_rng \<Rightarrow> generator_cache \<Rightarrow> generator_cache \<times> generator" where
  "cache_resolve kind sample c =
    (case map_of (gc_generators c) kind of
       None \<Rightarrow>
         let g = build_generator kind sample
         in (c\<lparr>gc_generators := dict_set kind g (gc_generators c), gc_tokens := dict_set kind (sr_token sample) (gc_tokens c)\<rparr>, g)
     | Some g \<Rightarrow>
         if map_of (gc_tokens c) kind \<noteq> Some (sr_token sample) then
           let g = rekey_generator kind g sample
           in (c\<lparr>gc_generators := dict_set kind g (gc_generators c), gc_tokens := dict_set kind (sr_token sample) (gc_tokens c)\<rparr>, g)
         else (c, g))"

definition rng_kinds :: "(string \<times> rng_kind) list" where
  "rng_kinds = [(''torch'', Torch), (''numpy'', Numpy), (''random'', Random)]"

definition rng :: "string \<Rightarrow> sample_rng option \<Rightarrow> generator_cache \<Rightarrow> generator_cache \<times> generator res" where
  "rng kind active c =
    (case map_of rng_kinds kind of
       None \<Rightarrow> (c, Inl (ValueError ''rng kind must be torch, numpy, or random''))
     | Some k \<Rightarrow>
         (case active of
            None \<Rightarrow> (c, Inl (RuntimeError ''hyperloader.rng() is available only while user code runs inside a native loader stage''))
          | Some sample \<Rightarrow> (case cache_resolve k sample c of (c, g) \<Rightarrow> (c, Inr g))))"

text \<open>
  What user code can do to a generator it was handed: any draw of it, which changes neither its kind
  nor, of the Philox generator, its stream.
\<close>

fun generator_ok :: "rng_kind \<Rightarrow> generator \<Rightarrow> bool" where
  "generator_ok Torch (TorchGenerator _) = True"
| "generator_ok Numpy (NumpyGenerator state) = (length (ns_buffer state) = 4)"
| "generator_ok Random (RandomGenerator r) = (pr_stream_id r = ACC_RANDOM \<and> pr_armed r = None)"
| "generator_ok _ _ = False"

definition cache_ok :: "generator_cache \<Rightarrow> bool" where
  "cache_ok c \<longleftrightarrow> (\<forall>kind g. map_of (gc_generators c) kind = Some g \<longrightarrow> generator_ok kind g)"

fun_cases generator_ok_cases: "generator_ok kind g"

lemma generator_ok_build [simp]: "generator_ok kind (build_generator kind sample)"
  by (cases kind) (simp_all add: numpy_sample_state_def rekeyed_state_def zero_numpy_state_def rekey_def new_philox_def)

lemma rekeyed_state_eq:
  "length (ns_buffer s) = length (ns_buffer t) \<Longrightarrow> rekeyed_state key coord s = rekeyed_state key coord t"
  by (simp add: rekeyed_state_def map_replicate_const)

lemma rekey_eq:
  "pr_stream_id r = pr_stream_id t \<Longrightarrow> pr_armed r = pr_armed t \<Longrightarrow> rekey key coord r = rekey key coord t"
  by (simp add: rekey_def)

lemma rekey_generator_build: "generator_ok kind g \<Longrightarrow> rekey_generator kind g sample = build_generator kind sample"
  by (erule generator_ok_cases)
    (auto simp: numpy_sample_state_def zero_numpy_state_def new_philox_def intro!: rekeyed_state_eq rekey_eq)

lemma cache_resolve_ok:
  "cache_ok c \<Longrightarrow> cache_resolve kind sample c = (d, g) \<Longrightarrow> cache_ok d \<and> generator_ok kind g"
  by (auto simp: cache_resolve_def cache_ok_def Let_def rekey_generator_build split: option.splits if_splits)

text \<open>
  The generator an accessor hands out at the first use for a sample is the one newly built for
  that sample, whatever samples and draws the thread's cache has seen before.
\<close>

theorem accessor_history_free:
  assumes "cache_ok c" and "map_of rng_kinds kind = Some k" and "map_of (gc_tokens c) k \<noteq> Some (sr_token sample)"
  shows "snd (rng kind (Some sample) c) = Inr (build_generator k sample)"
proof (cases "map_of (gc_generators c) k")
  case None
  with assms(2) show ?thesis by (simp add: rng_def cache_resolve_def Let_def)
next
  case (Some g)
  with assms(1) have "generator_ok k g" by (simp add: cache_ok_def)
  with Some assms(2,3) show ?thesis by (simp add: rng_def cache_resolve_def Let_def rekey_generator_build)
qed

theorem accessor_history_free_witness:
  "let first = \<lparr>sr_token = 1, sr_seed = 5, sr_key = 9, sr_coord = 3\<rparr>;
       second = \<lparr>sr_token = 2, sr_seed = 6, sr_key = 9, sr_coord = 4\<rparr>;
       c = fst (rng ''random'' (Some first) new_cache)
   in snd (rng ''random'' (Some second) c) = Inr (build_generator Random second)"
proof -
  let ?first = "\<lparr>sr_token = 1, sr_seed = 5, sr_key = 9, sr_coord = 3\<rparr>"
  let ?c = "fst (cache_resolve Random ?first new_cache)"
  have "cache_ok new_cache" by (simp add: cache_ok_def new_cache_def)
  then have "cache_ok ?c" using cache_resolve_ok [of new_cache Random ?first] prod.collapse by metis
  moreover have "map_of (gc_tokens ?c) Random \<noteq> Some (2::nat)"
    by (simp add: cache_resolve_def new_cache_def Let_def)
  moreover have "fst (rng ''random'' (Some ?first) new_cache) = ?c"
    by (simp add: rng_def rng_kinds_def split: prod.split)
  ultimately show ?thesis
    using accessor_history_free [of ?c "''random''" Random "\<lparr>sr_token = 2, sr_seed = 6, sr_key = 9, sr_coord = 4\<rparr>"]
    by (simp add: rng_kinds_def)
qed

end
