(* ===== verification/InProcess.thy ===== *)
theory InProcess
  imports Samplers Streams
begin

text \<open>
  Execution in the calling process (\<^verbatim>\<open>inprocess/iterator.py\<close>) and the iterators of user samplers
  over a process pool (\<^verbatim>\<open>state/streaming_iterator.py\<close>, \<^verbatim>\<open>state/sampler_iterator.py\<close>).

  User code is an argument: it computes from the stream context it runs under, which is the seed, key
  and coordinate of the installed sample, and from its own arguments, and it returns a value or raises.
\<close>

section \<open>User code\<close>

type_synonym stream_context = "int \<times> int \<times> int"

definition stream_context :: "sample_rng \<Rightarrow> stream_context" where
  "stream_context s = (sr_seed s, sr_key s, sr_coord s)"

text \<open>
  \<open>uc_native\<close> is the index object of a native position's integer; \<open>uc_collate_fn\<close> is \<open>None\<close>
  when the loader has no \<^verbatim>\<open>collate_fn\<close>, and its argument a single value when the loader does not
  batch.
\<close>

datatype 'v collate_argument = Values "'v list" | Single 'v

record ('s, 'b, 'a, 'v) user_code =
  uc_next :: "('s, 'a) source"
  uc_next_batch :: "('s, 'b) source"
  uc_tuple :: "'b \<Rightarrow> 'a list option"
  uc_dumps :: "'a dumps"
  uc_native :: "int \<Rightarrow> 'a"
  uc_getitem :: "stream_context \<Rightarrow> 'a \<Rightarrow> 'v res"
  uc_collate_fn :: "(stream_context \<Rightarrow> 'v collate_argument \<Rightarrow> 'v res) option"
  uc_default_collate :: "'v list \<Rightarrow> 'v res"

section \<open>The in-process iterator\<close>

datatype ('s, 'a) runtime = Sample_runtime "('s, 'a) sampler_runtime" | Batch_runtime "('s, 'a) batch_runtime"

record ('s, 'a) inprocess =
  ip_epoch :: int
  ip_runtime :: "('s, 'a) runtime option"
  ip_complete :: bool
  ip_valid :: bool
  ip_delivered :: int
  ip_ordinal :: int
  ip_length :: int
  ip_position :: int

definition start_batch :: "('s, 'a) runtime option \<Rightarrow> int res" where
  "start_batch rt = (case rt of Some (Batch_runtime b) \<Rightarrow> Inr (ba_start_batch b) | _ \<Rightarrow> Inl (AttributeError ''start_batch''))"

definition start_samples :: "('s, 'a) runtime option \<Rightarrow> int res" where
  "start_samples rt = (case rt of Some (Sample_runtime r) \<Rightarrow> Inr (sa_start_samples r) | _ \<Rightarrow> Inl (AttributeError ''start_samples''))"

definition new_inprocess :: "('s, 'a) runtime option \<Rightarrow> map_loader \<Rightarrow> ('s, 'a) inprocess res" where
  "new_inprocess rt l =
    rbind (if ld_has_batch_sampler l then start_batch rt else Inr (ld_cursor l)) (\<lambda>ordinal.
    rbind (if rt \<noteq> None then Inr 0 else delivery_length (ld_sizing l)) (\<lambda>n.
    rbind (if ld_has_sampler l then start_samples rt
           else if ld_has_batch_sampler l then Inr 0
           else resume_sample_position l n) (\<lambda>position.
      Inr \<lparr>ip_epoch = es_current (ld_epoch_state l), ip_runtime = rt, ip_complete = False, ip_valid = True,
           ip_delivered = ld_cursor l, ip_ordinal = ordinal, ip_length = n, ip_position = position\<rparr>)))"

text \<open>
  The loop that gathers a batch of a user sampler: at most \<open>n\<close> further indices.
\<close>

fun gather_indices ::
    "('s, 'a) source \<Rightarrow> 'a dumps \<Rightarrow> int \<Rightarrow> nat \<Rightarrow> 'a list \<Rightarrow> ('s, 'a) sampler_runtime \<Rightarrow> ('s, 'a) sampler_runtime \<times> 'a list res"
  where
  "gather_indices nxt dumps position 0 indices r = (r, Inr indices)"
| "gather_indices nxt dumps position (Suc n) indices r =
    (case has_index nxt dumps (position + int (length indices)) r of
       (r, Inl e) \<Rightarrow> (r, Inl e)
     | (r, Inr False) \<Rightarrow> (r, Inr indices)
     | (r, Inr True) \<Rightarrow>
         (case runtime_index nxt dumps (position + int (length indices)) r of
            (r, Inl e) \<Rightarrow> (r, Inl e)
          | (r, Inr index) \<Rightarrow> gather_indices nxt dumps position n (indices @ [index]) r))"

definition consecutive :: "int \<Rightarrow> nat \<Rightarrow> int list" where
  "consecutive start n = map (\<lambda>offset. start + int offset) [0..<n]"

definition native_index :: "(int \<Rightarrow> int \<Rightarrow> int \<Rightarrow> int run) \<Rightarrow> map_loader \<Rightarrow> int \<Rightarrow> int \<Rightarrow> int run" where
  \<comment> \<open>\<^verbatim>\<open>DataLoader._map_index\<close>\<close>
  "native_index plan l epoch position =
    (case sz_placement (ld_sizing l) of
       None \<Rightarrow> returns (Inl (AttributeError ''index''))
     | Some p \<Rightarrow> placement_index plan p (ld_root_seed l) epoch position)"

definition native_coordinate :: "map_loader \<Rightarrow> int \<Rightarrow> int res" where
  \<comment> \<open>\<^verbatim>\<open>DataLoader._map_coordinate\<close>\<close>
  "native_coordinate l position =
    (case sz_placement (ld_sizing l) of
       None \<Rightarrow> Inl (AttributeError ''coordinate'')
     | Some p \<Rightarrow> coordinate p position)"

definition next_indices ::
    "('s, 'b, 'a, 'v) user_code \<Rightarrow> (int \<Rightarrow> int \<Rightarrow> int \<Rightarrow> int run) \<Rightarrow> map_loader \<Rightarrow> ('s, 'a) inprocess \<Rightarrow>
     ('s, 'a) inprocess \<times> ('a list \<times> int list) option run" where
  "next_indices uc plan l it =
    (if ld_has_batch_sampler l then
       (case ip_runtime it of
          Some (Batch_runtime r) \<Rightarrow>
            (case has_batch (uc_next_batch uc) (uc_tuple uc) (uc_dumps uc) (ip_ordinal it) r of
               (r, Inl e) \<Rightarrow> (it\<lparr>ip_runtime := Some (Batch_runtime r)\<rparr>, Some (Inl e))
             | (r, Inr False) \<Rightarrow> (it\<lparr>ip_runtime := Some (Batch_runtime r)\<rparr>, Some (Inr None))
             | (r, Inr True) \<Rightarrow>
                 (case batch_at (uc_next_batch uc) (uc_tuple uc) (uc_dumps uc) (ip_ordinal it) r of
                    (r, Inl e) \<Rightarrow> (it\<lparr>ip_runtime := Some (Batch_runtime r)\<rparr>, Some (Inl e))
                  | (r, Inr indices) \<Rightarrow>
                      if indices = []
                      then (it\<lparr>ip_runtime := Some (Batch_runtime r)\<rparr>,
                            Some (Inl (ValueError ''user batch_sampler yielded an empty batch'')))
                      else
                        (case sample_offset (uc_next_batch uc) (uc_tuple uc) (uc_dumps uc) (ip_ordinal it) r of
                           (r, Inl e) \<Rightarrow> (it\<lparr>ip_runtime := Some (Batch_runtime r)\<rparr>, Some (Inl e))
                         | (r, Inr start) \<Rightarrow>
                             (it\<lparr>ip_runtime := Some (Batch_runtime r)\<rparr>,
                              Some (Inr (Some (indices, consecutive start (length indices))))))))
        | _ \<Rightarrow> (it, Some (Inl (AttributeError ''has_batch''))))
     else if ld_has_sampler l then
       (case ip_runtime it of
          Some (Sample_runtime r) \<Rightarrow>
            (case gather_indices (uc_next uc) (uc_dumps uc) (ip_position it) (nat (loader_width l)) [] r of
               (r, Inl e) \<Rightarrow> (it\<lparr>ip_runtime := Some (Sample_runtime r)\<rparr>, Some (Inl e))
             | (r, Inr indices) \<Rightarrow>
                 let it = it\<lparr>ip_runtime := Some (Sample_runtime r)\<rparr> in
                 if indices = [] \<or>
                    int (length indices) < loader_width l \<and> sz_batch_size (ld_sizing l) \<noteq> None \<and> sz_drop_last (ld_sizing l)
                 then (it, Some (Inr None))
                 else (it, Some (Inr (Some (indices, consecutive (ip_position it) (length indices))))))
        | _ \<Rightarrow> (it, Some (Inl (AttributeError ''has_index''))))
     else if ip_length it \<le> ip_position it then (it, Some (Inr None))
     else
       let stop = min (ip_length it) (ip_position it + loader_width l);
           positions = irange (ip_position it) stop
       in (it,
           obind (otraverse (native_index plan l (ip_epoch it)) positions) (\<lambda>indices.
           obind (returns (rtraverse (native_coordinate l) positions)) (\<lambda>coordinates.
             returns (Inr (Some (map (uc_native uc) indices, coordinates)))))))"

definition evaluate_in_process ::
    "('s, 'b, 'a, 'v) user_code \<Rightarrow> int \<Rightarrow> int \<Rightarrow> int \<times> 'a \<Rightarrow> 'v res" where
  "evaluate_in_process uc root_seed epoch entry =
    (case entry of (coord, index) \<Rightarrow>
      uc_getitem uc (stream_context (install_sample 0 root_seed epoch coord)) index)"

definition collate_in_process ::
    "('s, 'b, 'a, 'v) user_code \<Rightarrow> map_loader \<Rightarrow> int \<Rightarrow> int \<Rightarrow> 'v list \<Rightarrow> 'v res" where
  "collate_in_process uc l epoch delivered values =
    (let batched = sz_batch_size (ld_sizing l) \<noteq> None \<or> ld_has_batch_sampler l in
     case uc_collate_fn uc of
       Some collate_fn \<Rightarrow>
         collate_fn (stream_context (install_collate 0 (ld_root_seed l) epoch delivered))
           (if batched then Values values else Single (hd values))
     | None \<Rightarrow> if batched then uc_default_collate uc values else Inr (hd values))"

definition finish_inprocess :: "('s, 'a) inprocess \<Rightarrow> map_loader \<Rightarrow> ('s, 'a) inprocess \<times> map_loader" where
  "finish_inprocess it l =
    (if ip_complete it then (it, l)
     else (it\<lparr>ip_complete := True\<rparr>, l\<lparr>ld_epoch_state := complete_epoch (ip_epoch it) (ld_epoch_state l)\<rparr>))"

definition commit_inprocess :: "int \<Rightarrow> ('s, 'a) inprocess \<Rightarrow> map_loader \<Rightarrow> ('s, 'a) inprocess \<times> map_loader" where
  "commit_inprocess samples it l =
    (let it = (if ld_has_batch_sampler l then it\<lparr>ip_ordinal := ip_ordinal it + 1\<rparr>
               else it\<lparr>ip_position := ip_position it + samples\<rparr>)
     in (it\<lparr>ip_delivered := ip_delivered it + 1\<rparr>,
         l\<lparr>ld_epoch_state := mark_epoch_delivered (ip_epoch it) (ld_epoch_state l)\<rparr>))"

text \<open>
  One \<^verbatim>\<open>__next__\<close>.  When user code raises, the loader closes, which invalidates its active
  iterator, this one.
\<close>

definition inprocess_next ::
    "('s, 'b, 'a, 'v) user_code \<Rightarrow> (int \<Rightarrow> int \<Rightarrow> int \<Rightarrow> int run) \<Rightarrow> ('s, 'a) inprocess \<Rightarrow> map_loader \<Rightarrow>
     (('s, 'a) inprocess \<times> map_loader \<times> 'v res) option" where
  "inprocess_next uc plan it l =
    (if \<not> ip_valid it then Some (it, l, Inl (RuntimeError ''in-process iterator is no longer active''))
     else case next_indices uc plan l it of
            (it, None) \<Rightarrow> None
          | (it, Some (Inl e)) \<Rightarrow> Some (it, l, Inl e)
          | (it, Some (Inr None)) \<Rightarrow>
              (case finish_inprocess it l of (it, l) \<Rightarrow> Some (it, l, Inl StopIteration))
          | (it, Some (Inr (Some (indices, coordinates)))) \<Rightarrow>
              (case rbind (rtraverse (evaluate_in_process uc (ld_root_seed l) (ip_epoch it)) (zip coordinates indices))
                      (collate_in_process uc l (ip_epoch it) (ip_delivered it)) of
                 Inl e \<Rightarrow> Some (it\<lparr>ip_valid := False\<rparr>, close_loader l, Inl e)
               | Inr v \<Rightarrow>
                   (case commit_inprocess (int (length indices)) it l of (it, l) \<Rightarrow> Some (it, l, Inr v))))"

definition inprocess_checksum ::
    "('s, 'b, 'a, 'v) user_code \<Rightarrow> map_loader \<Rightarrow> ('s, 'a) inprocess \<Rightarrow> int res" where
  "inprocess_checksum uc l it =
    (if ld_has_batch_sampler l then
       (case ip_runtime it of
          Some (Batch_runtime r) \<Rightarrow> snd (batch_checksum_at (uc_next_batch uc) (uc_tuple uc) (uc_dumps uc) (ip_ordinal it) r)
        | _ \<Rightarrow> Inl (AttributeError ''checksum_at''))
     else if ld_has_sampler l then
       (case ip_runtime it of
          Some (Sample_runtime r) \<Rightarrow> snd (sampler_checksum_at (uc_next uc) (uc_dumps uc) (ip_position it) r)
        | _ \<Rightarrow> Inl (AttributeError ''checksum_at''))
     else Inr 0)"

section \<open>Iterating a loader\<close>

text \<open>
  What \<^verbatim>\<open>DataLoader.__iter__\<close> asks of a loader to choose its iterator, in the order of its
  branches; \<open>runtime_topology\<close> is the outcome of \<^verbatim>\<open>validate_runtime_topology\<close>.
\<close>

datatype tier =
    Compat_tier | Iterable_tier | In_process_tier | User_batch_tier | Streaming_tier
  | Process_tier | Tensor_tier | Structured_tier | Thread_tier

record tier_facts =
  tf_mode :: string
  tf_iterable :: bool
  tf_num_workers :: "int auto"
  tf_runtime_topology :: "unit res"
  tf_sampler :: bool
  tf_batch_sampler :: bool
  tf_fallback_engine :: bool
  tf_tensor_plan :: bool
  tf_native_batch_path :: bool
  tf_sample_thread_safe :: bool

definition select_tier :: "tier_facts \<Rightarrow> tier res" where
  "select_tier f =
    (if tf_mode f = ''torch-compat'' then Inr Compat_tier
     else if \<not> tf_iterable f \<and> tf_num_workers f = AUTO
     then Inl (RuntimeError ''the requested hyperloader execution tier is not initialized'')
     else if tf_mode f \<noteq> ''native''
     then Inl (RuntimeError ''the requested hyperloader execution mode is not initialized'')
     else rbind (tf_runtime_topology f) (\<lambda>_.
       Inr (if tf_iterable f then Iterable_tier
            else if tf_sampler f \<or> tf_batch_sampler f then
              (if tf_num_workers f = Explicit 0 then In_process_tier
               else if tf_batch_sampler f then User_batch_tier else Streaming_tier)
            else if tf_num_workers f = Explicit 0 then In_process_tier
            else if tf_fallback_engine f then Process_tier
            else if tf_tensor_plan f then Tensor_tier
            else if tf_native_batch_path f then Structured_tier
            else if tf_sample_thread_safe f then Thread_tier
            else Process_tier)))"

text \<open>The active iterator as a checkpoint sees it.\<close>

definition inprocess_view :: "('s, 'a) inprocess \<Rightarrow> int \<Rightarrow> active_iterator" where
  "inprocess_view it checksum =
    \<lparr>ai_complete = ip_complete it, ai_epoch = ip_epoch it, ai_delivered_batches = ip_delivered it,
     ai_sampler_checksum = checksum, ai_delivered_bitmap = []\<rparr>"

text \<open>
  \<^verbatim>\<open>build_sampler_runtime\<close>: the sampler's declared length and a fresh iterator of it are the
  arguments.
\<close>

definition build_sampler_runtime ::
    "('s, 'b, 'a, 'v) user_code \<Rightarrow> int option \<Rightarrow> 's \<Rightarrow> map_loader \<Rightarrow> ('s, 'a) runtime res" where
  "build_sampler_runtime uc declared iterator l =
    (if ld_has_batch_sampler l
     then rmap Batch_runtime (new_batch_sampler (uc_next_batch uc) (uc_tuple uc) (uc_dumps uc) declared iterator
            (ld_cursor l) (ld_checksum l))
     else rmap Sample_runtime (new_sampler (uc_next uc) (uc_dumps uc) declared iterator
            (sz_batch_size (ld_sizing l)) (sz_drop_last (ld_sizing l)) (ld_cursor l) (ld_checksum l)))"

text \<open>
  The start of \<^verbatim>\<open>__iter__\<close>: an epoch begins, an abandoned iterator closes the loader; the flag is
  whether the abandoned epoch advanced.
\<close>

definition begin_loader :: "map_loader \<Rightarrow> map_loader \<times> bool" where
  "begin_loader l =
    (case begin_iteration (ld_epoch_state l) of (epochs, advanced) \<Rightarrow>
      let l = l\<lparr>ld_epoch_state := epochs\<rparr> in
      (case ld_active l of
         None \<Rightarrow> (l, advanced)
       | Some active \<Rightarrow> (if ai_complete active then l else close_loader l, advanced)))"

text \<open>\<^verbatim>\<open>__iter__\<close> of a loader whose tier is the calling process.\<close>

definition iterate_in_process ::
    "('s, 'b, 'a, 'v) user_code \<Rightarrow> int option \<Rightarrow> 's \<Rightarrow> map_loader \<Rightarrow> map_loader \<times> (('s, 'a) inprocess \<times> bool) res" where
  "iterate_in_process uc declared iterator l =
    (case begin_loader l of (l, advanced) \<Rightarrow>
      (case rbind (if ld_has_sampler l \<or> ld_has_batch_sampler l
                   then rmap Some (build_sampler_runtime uc declared iterator l) else Inr None)
              (\<lambda>rt. new_inprocess rt l) of
         Inl e \<Rightarrow> (l, Inl e)
       | Inr it \<Rightarrow>
           (l\<lparr>ld_cursor := 0, ld_checksum := 0, ld_bitmap := [], ld_active := Some (inprocess_view it 0)\<rparr>,
            Inr (it, advanced))))"

text \<open>\<^verbatim>\<open>DataLoader.set_epoch\<close> of a native loader.\<close>

definition loader_set_epoch :: "epoch_value \<Rightarrow> map_loader \<Rightarrow> map_loader res" where
  "loader_set_epoch v l =
    rmap (\<lambda>epochs. l\<lparr>ld_epoch_state := epochs, ld_cursor := 0, ld_checksum := 0, ld_bitmap := []\<rparr>)
      (set_epoch v (ld_epoch_state l))"

section \<open>Runs of an iterator\<close>

primrec inprocess_run ::
    "('s, 'b, 'a, 'v) user_code \<Rightarrow> (int \<Rightarrow> int \<Rightarrow> int \<Rightarrow> int run) \<Rightarrow> nat \<Rightarrow> ('s, 'a) inprocess \<Rightarrow> map_loader \<Rightarrow>
     (('s, 'a) inprocess \<times> map_loader \<times> 'v list res) option" where
  "inprocess_run uc plan 0 it l = Some (it, l, Inr [])"
| "inprocess_run uc plan (Suc n) it l =
    (case inprocess_next uc plan it l of
       None \<Rightarrow> None
     | Some (it, l, Inl e) \<Rightarrow> Some (it, l, Inl e)
     | Some (it, l, Inr v) \<Rightarrow>
         (case inprocess_run uc plan n it l of
            None \<Rightarrow> None
          | Some (it, l, vs) \<Rightarrow> Some (it, l, rmap (Cons v) vs)))"

text \<open>The value of a native loader's batch, which no iterator state enters.\<close>

definition native_batch ::
    "('s, 'b, 'a, 'v) user_code \<Rightarrow> (int \<Rightarrow> int \<Rightarrow> int \<Rightarrow> int run) \<Rightarrow> map_loader \<Rightarrow> int \<Rightarrow> int \<Rightarrow> int \<Rightarrow> 'v run" where
  "native_batch uc plan l n epoch ordinal =
    (let positions = irange (min n (ordinal * loader_width l)) (min n (ordinal * loader_width l + loader_width l)) in
     obind (otraverse (native_index plan l epoch) positions) (\<lambda>indices.
     obind (returns (rtraverse (native_coordinate l) positions)) (\<lambda>coordinates.
       returns
         (rbind (rtraverse (evaluate_in_process uc (ld_root_seed l) epoch) (zip coordinates (map (uc_native uc) indices)))
           (collate_in_process uc l epoch ordinal)))))"

definition native_at :: "map_loader \<Rightarrow> int \<Rightarrow> int \<Rightarrow> ('s, 'a) inprocess \<Rightarrow> bool" where
  "native_at l epoch k it \<longleftrightarrow>
     \<not> ld_has_sampler l \<and> \<not> ld_has_batch_sampler l \<and> 0 < loader_width l \<and> 0 \<le> k \<and>
     ip_valid it \<and> \<not> ip_complete it \<and> ip_epoch it = epoch \<and> ip_delivered it = k \<and> ip_runtime it = None \<and>
     ip_position it = min (ip_length it) (k * loader_width l)"

text \<open>Loaders that read the same samples under the same streams.\<close>

definition same_data :: "map_loader \<Rightarrow> map_loader \<Rightarrow> bool" where
  "same_data l m \<longleftrightarrow>
     ld_root_seed m = ld_root_seed l \<and> ld_has_sampler m = ld_has_sampler l \<and>
     ld_has_batch_sampler m = ld_has_batch_sampler l \<and>
     sz_batch_size (ld_sizing m) = sz_batch_size (ld_sizing l) \<and>
     sz_placement (ld_sizing m) = sz_placement (ld_sizing l)"

lemma same_data_refl [simp]: "same_data l l" by (simp add: same_data_def)

lemma same_data_trans: "same_data l m \<Longrightarrow> same_data m n \<Longrightarrow> same_data l n" by (simp add: same_data_def)

lemma same_data_sym: "same_data l m \<Longrightarrow> same_data m l" by (simp add: same_data_def)

lemma same_data_width: "same_data l m \<Longrightarrow> loader_width m = loader_width l"
  by (simp add: same_data_def loader_width_def)

lemma same_data_batch:
  assumes "same_data l m"
  shows "native_batch uc plan m = native_batch uc plan l"
proof -
  have "native_index plan m = native_index plan l" "native_coordinate m = native_coordinate l"
    "collate_in_process uc m = collate_in_process uc l"
    using assms
    by (auto simp: fun_eq_iff native_index_def native_coordinate_def collate_in_process_def same_data_def Let_def
        split: option.split)
  moreover have "ld_root_seed m = ld_root_seed l" using assms by (simp add: same_data_def)
  ultimately show ?thesis by (intro ext) (simp only: native_batch_def same_data_width [OF assms])
qed

lemma native_index_epochs [simp]:
  "native_index plan (l\<lparr>ld_epoch_state := x\<rparr>) = native_index plan l" "native_coordinate (l\<lparr>ld_epoch_state := x\<rparr>) = native_coordinate l"
  by (simp_all add: native_index_def native_coordinate_def fun_eq_iff split: option.split)

lemma obind_comm: "obind m f = Some (Inl e) \<Longrightarrow> m = Some (Inl e) \<or> (\<exists>v. m = Some (Inr v) \<and> f v = Some (Inl e))"
  by (auto simp: obind_def split: option.splits sum.splits)

lemma otraverse_length: "otraverse f xs = Some (Inr ys) \<Longrightarrow> length ys = length xs"
  by (induction xs arbitrary: ys) (auto simp: obind_eq_Some_Inr)

lemma native_next_value:
  assumes at: "native_at l epoch k it" and step: "inprocess_next uc plan it l = Some (it', m, Inr v)"
  shows "native_batch uc plan l (ip_length it) epoch k = Some (Inr v) \<and> native_at m epoch (k + 1) it' \<and> same_data l m \<and>
    ip_length it' = ip_length it \<and> k * loader_width l < ip_length it \<and>
    (\<exists>epochs. m = l\<lparr>ld_epoch_state := epochs\<rparr>)"
proof -
  let ?w = "loader_width l" and ?n = "ip_length it"
  have fields: "\<not> ld_has_sampler l" "\<not> ld_has_batch_sampler l" "0 < ?w" "ip_valid it" "ip_epoch it = epoch"
    "ip_delivered it = k" "ip_position it = min ?n (k * ?w)" using at by (simp_all add: native_at_def)
  have more: "\<not> ?n \<le> ip_position it"
    using step fields by (auto simp: inprocess_next_def next_indices_def split: prod.splits)
  then have lt: "k * ?w < ?n" using fields(7) by simp
  then have pos: "ip_position it = k * ?w" using fields(7) by simp
  let ?positions = "irange (k * ?w) (min ?n (k * ?w + ?w))"
  from step fields more pos obtain indices coordinates where
    i: "otraverse (native_index plan l epoch) ?positions = Some (Inr indices)" and
    c: "rtraverse (native_coordinate l) ?positions = Inr coordinates" and
    v: "rbind (rtraverse (evaluate_in_process uc (ld_root_seed l) epoch) (zip coordinates (map (uc_native uc) indices)))
          (collate_in_process uc l epoch k) = Inr v" and
    out: "it' = fst (commit_inprocess (int (length indices)) it l)" "m = snd (commit_inprocess (int (length indices)) it l)"
    by (auto simp: inprocess_next_def next_indices_def Let_def returns_def obind_def split: option.splits sum.splits prod.splits)
  have len: "int (length indices) = min ?n (k * ?w + ?w) - k * ?w"
    using otraverse_length [OF i] lt fields(3) by simp
  have "native_batch uc plan l ?n epoch k = Some (Inr v)"
    using i c v lt by (simp add: native_batch_def returns_def min_def)
  moreover have "native_at m epoch (k + 1) it'" "ip_length it' = ?n" "same_data l m"
    using at out len pos lt
    by (simp_all add: commit_inprocess_def native_at_def same_data_def loader_width_def algebra_simps)
  moreover have "\<exists>epochs. m = l\<lparr>ld_epoch_state := epochs\<rparr>"
    using out by (auto simp: commit_inprocess_def Let_def)
  ultimately show ?thesis using lt by simp
qed

lemma native_next_step:
  assumes at: "native_at l epoch k it" and lt: "k * loader_width l < ip_length it"
    and v: "native_batch uc plan l (ip_length it) epoch k = Some (Inr v)"
  shows "\<exists>it' m. inprocess_next uc plan it l = Some (it', m, Inr v)"
proof -
  let ?w = "loader_width l" and ?n = "ip_length it"
  have fields: "\<not> ld_has_sampler l" "\<not> ld_has_batch_sampler l" "0 < ?w" "ip_valid it" "ip_epoch it = epoch"
    "ip_delivered it = k" "ip_position it = k * ?w" using at lt by (simp_all add: native_at_def)
  have "min ?n (k * ?w) = k * ?w" using lt by simp
  with v obtain indices coordinates where
    i: "otraverse (native_index plan l epoch) (irange (k * ?w) (min ?n (k * ?w + ?w))) = Some (Inr indices)" and
    c: "rtraverse (native_coordinate l) (irange (k * ?w) (min ?n (k * ?w + ?w))) = Inr coordinates" and
    v: "rbind (rtraverse (evaluate_in_process uc (ld_root_seed l) epoch) (zip coordinates (map (uc_native uc) indices)))
          (collate_in_process uc l epoch k) = Inr v"
    unfolding native_batch_def Let_def by (auto simp: obind_eq_Some_Inr returns_def)
  have "next_indices uc plan l it = (it, Some (Inr (Some (map (uc_native uc) indices, coordinates))))"
    using fields lt i c by (simp add: next_indices_def Let_def returns_def)
  with fields v show ?thesis
    by (simp add: inprocess_next_def split: prod.split)
qed

lemma native_run_values:
  "native_at l epoch k it \<Longrightarrow> inprocess_run uc plan m it l = Some (it', l', Inr vs) \<Longrightarrow>
   length vs = m \<and> native_at l' epoch (k + int m) it' \<and> same_data l l' \<and> ip_length it' = ip_length it \<and>
   (\<exists>epochs. l' = l\<lparr>ld_epoch_state := epochs\<rparr>) \<and>
   (\<forall>j < m. native_batch uc plan l (ip_length it) epoch (k + int j) = Some (Inr (vs ! j)) \<and>
      (k + int j) * loader_width l < ip_length it)"
proof (induction m arbitrary: k it l vs)
  case (Suc m)
  from Suc.prems(2) obtain it1 l1 v us where
    step: "inprocess_next uc plan it l = Some (it1, l1, Inr v)" and
    rest: "inprocess_run uc plan m it1 l1 = Some (it', l', Inr us)" and vs: "vs = v # us"
    by (auto simp: rmap_eq_Inr split: option.splits prod.splits sum.splits)
  note one = native_next_value [OF Suc.prems(1) step]
  then have at1: "native_at l1 epoch (k + 1) it1" and same: "same_data l l1" and n: "ip_length it1 = ip_length it" by simp_all
  obtain es1 where l1: "l1 = l\<lparr>ld_epoch_state := es1\<rparr>" using one by blast
  note more = Suc.IH [OF at1 rest]
  then have epochs: "\<exists>epochs. l' = l\<lparr>ld_epoch_state := epochs\<rparr>" using l1 by auto
  show ?case
  proof (intro conjI allI impI)
    fix j assume j: "j < Suc m"
    show "native_batch uc plan l (ip_length it) epoch (k + int j) = Some (Inr (vs ! j))"
    proof (cases j)
      case (Suc i)
      with j more n have "native_batch uc plan l1 (ip_length it) epoch (k + 1 + int i) = Some (Inr (us ! i))" by simp
      with Suc vs show ?thesis by (simp add: same_data_batch [OF same] algebra_simps)
    qed (use one vs in simp)
    show "(k + int j) * loader_width l < ip_length it"
    proof (cases j)
      case (Suc i)
      with j more n have "(k + 1 + int i) * loader_width l1 < ip_length it" by simp
      with Suc show ?thesis by (simp add: same_data_width [OF same] algebra_simps)
    qed (use one in simp)
  qed (use more vs n same epochs in \<open>auto intro: same_data_trans simp: algebra_simps\<close>)
next
  case 0
  then show ?case by (auto intro!: exI [of _ "ld_epoch_state l"])
qed

lemma native_run_steps:
  "native_at l epoch k it \<Longrightarrow>
   (\<And>j. j < m \<Longrightarrow> native_batch uc plan l (ip_length it) epoch (k + int j) = Some (Inr (f j)) \<and>
      (k + int j) * loader_width l < ip_length it) \<Longrightarrow>
   \<exists>it' l'. inprocess_run uc plan m it l = Some (it', l', Inr (map f [0..<m]))"
proof (induction m arbitrary: k it l f)
  case (Suc m)
  have "native_batch uc plan l (ip_length it) epoch k = Some (Inr (f 0))" "k * loader_width l < ip_length it"
    using Suc.prems(2) [of 0] by simp_all
  from native_next_step [OF Suc.prems(1) this(2,1)]
  obtain it1 l1 where step: "inprocess_next uc plan it l = Some (it1, l1, Inr (f 0))" by blast
  note one = native_next_value [OF Suc.prems(1) step]
  then have at1: "native_at l1 epoch (k + 1) it1" and same: "same_data l l1" and n: "ip_length it1 = ip_length it" by simp_all
  have "native_batch uc plan l1 (ip_length it1) epoch (k + 1 + int j) = Some (Inr (f (Suc j))) \<and>
      (k + 1 + int j) * loader_width l1 < ip_length it1" if "j < m" for j
    using Suc.prems(2) [of "Suc j"] that by (simp add: same_data_batch [OF same] same_data_width [OF same] n algebra_simps)
  from Suc.IH [OF at1 this] obtain it' l' where "inprocess_run uc plan m it1 l1 = Some (it', l', Inr (map (f \<circ> Suc) [0..<m]))"
    by (auto simp: comp_def)
  with step show ?case by (simp add: map_upt_Suc comp_def del: upt_Suc)
qed simp

lemma new_inprocess_native:
  assumes "\<not> ld_has_sampler l" "\<not> ld_has_batch_sampler l" "0 < loader_width l" "0 \<le> ld_cursor l"
    and "delivery_length (ld_sizing l) = Inr n"
    and "ld_cursor l \<le> (n + loader_width l - 1) div loader_width l"
  shows "\<exists>it. new_inprocess None l = Inr it \<and> native_at l (es_current (ld_epoch_state l)) (ld_cursor l) it \<and> ip_length it = n"
  using assms
  by (simp add: new_inprocess_def resume_sample_position_def Let_def native_at_def)

section \<open>Resuming\<close>

text \<open>A loader without user samplers, and one that reads the same samples in the same batches.\<close>

definition native_loader :: "map_loader \<Rightarrow> bool" where
  "native_loader l \<longleftrightarrow> \<not> ld_has_sampler l \<and> \<not> ld_has_batch_sampler l \<and> 0 < loader_width l \<and>
     sz_sampler_length (ld_sizing l) = None \<and> epoch_ok (ld_epoch_state l) \<and>
     0 \<le> ld_root_seed l \<and> ld_root_seed l \<le> MAX_U64 \<and> 0 \<le> ld_cursor l"

definition same_plan :: "map_loader \<Rightarrow> map_loader \<Rightarrow> bool" where
  "same_plan l t \<longleftrightarrow> ld_fingerprint t = ld_fingerprint l \<and>
     sz_batch_size (ld_sizing t) = sz_batch_size (ld_sizing l) \<and>
     sz_drop_last (ld_sizing t) = sz_drop_last (ld_sizing l) \<and>
     sz_plan_length (ld_sizing t) = sz_plan_length (ld_sizing l) \<and>
     sz_placement (ld_sizing t) = sz_placement (ld_sizing l)"

lemma delivery_length_plan:
  "same_plan l t \<Longrightarrow> sz_sampler_length (ld_sizing l) = None \<Longrightarrow> sz_sampler_length (ld_sizing t) = None \<Longrightarrow>
   delivery_length (ld_sizing t) = delivery_length (ld_sizing l)"
  by (cases "sz_placement (ld_sizing l)") (simp_all add: same_plan_def delivery_length_def)

lemma restored_fingerprint: "restore_map_state rf t p = Inr r \<Longrightarrow> ld_fingerprint r = ld_fingerprint t"
  by (auto simp: restore_map_state_def rbind_eq_Inr close_loader_def split: if_splits)

lemma epoch_ok_begin: "epoch_ok s \<Longrightarrow> epoch_ok (fst (begin_iteration s))"
  using epoch_step_ok [of s Begin] by simp

lemma iterate_native:
  assumes native: "native_loader l" and it: "iterate_in_process uc d i l = (l0, Inr (it, adv))"
  obtains n where "native_at l0 (es_current (ld_epoch_state l0)) (ld_cursor l) it" "ip_length it = n"
    "delivery_length (ld_sizing l0) = Inr n" "ld_cursor l \<le> (n + loader_width l0 - 1) div loader_width l0"
    "native_loader l0" "same_plan l l0" "ld_root_seed l0 = ld_root_seed l"
proof -
  let ?es = "fst (begin_iteration (ld_epoch_state l))"
  obtain m adv' where begun: "begin_loader l = (m, adv')" by (cases "begin_loader l")
  let ?m = m
  have m: "\<not> ld_has_sampler ?m" "\<not> ld_has_batch_sampler ?m" "0 < loader_width ?m" "ld_cursor ?m = ld_cursor l"
    "sz_sampler_length (ld_sizing ?m) = None" "ld_epoch_state ?m = ?es" "ld_root_seed ?m = ld_root_seed l" "same_plan l ?m"
    using native begun
    by (auto simp: begin_loader_def Let_def native_loader_def close_loader_def loader_width_def same_plan_def
        split: option.splits prod.splits if_splits)
  from it have new: "new_inprocess None ?m = Inr it" and
    l0: "l0 = ?m\<lparr>ld_cursor := 0, ld_checksum := 0, ld_bitmap := [], ld_active := Some (inprocess_view it 0)\<rparr>"
    using m(1,2) begun by (auto simp: iterate_in_process_def split: sum.splits)
  from new m obtain n where n: "delivery_length (ld_sizing ?m) = Inr n"
    "ld_cursor l \<le> (n + loader_width ?m - 1) div loader_width ?m"
    by (auto simp: new_inprocess_def rbind_eq_Inr resume_sample_position_def Let_def split: if_splits)
  have cursor: "0 \<le> ld_cursor l" using native by (simp add: native_loader_def)
  have "native_at ?m (es_current ?es) (ld_cursor l) it \<and> ip_length it = n"
    using new_inprocess_native [OF m(1-3) _ n(1)] n(2) new m(4,6) cursor by (metis Inr_inject)
  moreover have "loader_width l0 = loader_width ?m" by (simp add: l0 loader_width_def)
  ultimately have at: "native_at l0 (es_current ?es) (ld_cursor l) it" "ip_length it = n"
    by (simp_all add: native_at_def l0)
  have "native_loader l0" "same_plan l l0"
    using m native epoch_ok_begin [of "ld_epoch_state l"]
    by (simp_all add: l0 native_loader_def loader_width_def same_plan_def)
  moreover have "ld_epoch_state l0 = ?es" "ld_root_seed l0 = ld_root_seed l" "ld_sizing l0 = ld_sizing ?m"
    using m by (simp_all add: l0)
  ultimately show thesis
    using at n \<open>loader_width l0 = loader_width ?m\<close> by (intro that [of n]) simp_all
qed

lemma ceil_bound:
  assumes "0 < (w::int)" "(k - 1) * w < n"
  shows "k \<le> (n + w - 1) div w"
proof -
  have "k * w \<le> n + w - 1" using assms by (simp add: algebra_simps)
  then have "k * w div w \<le> (n + w - 1) div w" using assms by (intro zdiv_mono1)
  with assms show ?thesis by simp
qed

lemma resumed_continues:
  assumes native: "native_loader l" and it: "iterate_in_process uc d i l = (l0, Inr (it0, adv))"
    and run: "inprocess_run uc plan k it0 l0 = Some (itk, lk, Inr us)"
    and more: "inprocess_run uc plan m itk lk = Some (ite, le, Inr vs)"
    and captured: "capture_map_state rf (lk\<lparr>ld_active := Some (inprocess_view itk 0)\<rparr>) = Inr p"
    and contract: "contract_ok rf l g"
    and target: "native_loader t" "same_plan l t" "check_elastic t g = Inr ()" "ld_active t = None"
  shows "\<exists>r r0 it1. restore_map_state rf t (PDict p) = Inr r \<and>
    iterate_in_process uc d' i' r = (r0, Inr (it1, False)) \<and> (\<exists>it2 r2. inprocess_run uc plan m it1 r0 = Some (it2, r2, Inr vs))"
proof -
  obtain n where n: "native_at l0 (es_current (ld_epoch_state l0)) (ld_cursor l) it0" "ip_length it0 = n"
    "delivery_length (ld_sizing l0) = Inr n" "ld_cursor l \<le> (n + loader_width l0 - 1) div loader_width l0"
    "native_loader l0" "same_plan l l0" "ld_root_seed l0 = ld_root_seed l" by (rule iterate_native [OF native it])
  let ?w = "loader_width l0" and ?e = "es_current (ld_epoch_state l0)" and ?c = "ld_cursor l + int k"
  note prior = native_run_values [OF n(1) run]
  then obtain epochs where lk: "lk = l0\<lparr>ld_epoch_state := epochs\<rparr>" by blast
  have atk: "native_at lk ?e ?c itk" and same: "same_data l0 lk" and nk: "ip_length itk = n"
    using prior n(2) by simp_all
  have e0: "0 \<le> ?e" using n(5) by (simp add: native_loader_def epoch_ok_def)
  have c0: "0 \<le> ?c" using native by (simp add: native_loader_def)
  let ?lk = "lk\<lparr>ld_active := Some (inprocess_view itk 0)\<rparr>"
  have coordinate: "capture_coordinate ?lk = (?e, ?c, 0, [])"
    using atk by (simp add: capture_coordinate_def inprocess_view_def native_at_def)
  have "contract_ok rf ?lk g" using contract n(6) by (simp add: contract_ok_def same_plan_def lk)
  moreover have "coordinate_ok ?lk"
    using coordinate e0 c0 n(5) by (simp add: coordinate_ok_def native_loader_def lk MAX_U64_def)
  moreover have "ld_fingerprint t = ld_fingerprint ?lk" using target(2) n(6) by (simp add: same_plan_def lk)
  moreover have "bitmap_fits t ?c []" by (simp add: bitmap_fits_def)
  ultimately obtain r where r: "restore_map_state rf t (PDict p) = Inr r" "ld_root_seed r = ld_root_seed ?lk"
    "es_current (ld_epoch_state r) = ?e" "es_pending_override (ld_epoch_state r) = Some Override_resume"
    "ld_cursor r = ?c" "ld_active r = None"
    using restored_accepts [OF _ _ coordinate captured, of g t] target(3) by auto
  then have rt: "ld_sizing r = (ld_sizing t)\<lparr>sz_sampler_length := None, sz_pool := None\<rparr>"
    "ld_has_sampler r = ld_has_sampler t" "ld_has_batch_sampler r = ld_has_batch_sampler t"
    by (auto simp: restore_map_state_def rbind_eq_Inr close_loader_def split: if_splits)
  let ?m = "r\<lparr>ld_epoch_state := fst (begin_iteration (ld_epoch_state r))\<rparr>"
  have begun: "snd (begin_iteration (ld_epoch_state r)) = False"
    "es_current (fst (begin_iteration (ld_epoch_state r))) = ?e"
    using r(3,4) by (simp_all add: begin_iteration_def)
  have wm: "loader_width ?m = ?w"
    using rt(1) target(2) n(6) by (simp add: loader_width_def same_plan_def)
  have len: "delivery_length (ld_sizing ?m) = Inr n"
  proof -
    have "same_plan l0 ?m" using n(6) target(2) rt(1) r(2) restored_fingerprint [OF r(1)] by (simp add: same_plan_def)
    from delivery_length_plan [OF this] show ?thesis using n(3,5) rt(1) by (simp add: native_loader_def)
  qed
  have fits: "?c \<le> (n + ?w - 1) div ?w"
  proof (cases k)
    case 0
    with n(4) show ?thesis by simp
  next
    case (Suc j)
    with prior n(2) have "(ld_cursor l + int j) * ?w < n" by simp
    with Suc have "(?c - 1) * ?w < n" by (simp add: algebra_simps)
    moreover have "0 < ?w" using n(1) by (simp add: native_at_def)
    ultimately show ?thesis by (intro ceil_bound)
  qed
  have pre: "\<not> ld_has_sampler ?m" "\<not> ld_has_batch_sampler ?m" "0 < loader_width ?m" "0 \<le> ld_cursor ?m"
    using target(1) rt n(1) r(5) c0 wm by (simp_all add: native_loader_def native_at_def)
  from new_inprocess_native [OF pre len] fits wm r(5) begun(2) obtain it1 :: "('a, 'b) inprocess" where
    it1: "new_inprocess None ?m = Inr it1" "native_at ?m ?e ?c it1" "ip_length it1 = n" by auto
  let ?r0 = "?m\<lparr>ld_cursor := 0, ld_checksum := 0, ld_bitmap := [], ld_active := Some (inprocess_view it1 0)\<rparr>"
  have iter: "iterate_in_process uc d' i' r = (?r0, Inr (it1, False))"
    using it1(1) pre(1,2) r(6) begun(1)
    by (cases "begin_iteration (ld_epoch_state r)") (simp add: iterate_in_process_def begin_loader_def)
  have at0: "native_at ?r0 ?e ?c it1" using it1(2) by (simp add: native_at_def loader_width_def)
  have data: "same_data lk ?r0"
    using n(5,6) target(1,2) rt r(2) by (simp add: same_data_def native_loader_def same_plan_def lk)
  note tail = native_run_values [OF atk more]
  have "\<exists>it2 r2. inprocess_run uc plan m it1 ?r0 = Some (it2, r2, Inr (map (\<lambda>j. vs ! j) [0..<m]))"
    using tail nk it1(3)
    by (intro native_run_steps [OF at0]) (simp add: same_data_batch [OF data] same_data_width [OF data])
  moreover have "map (\<lambda>j. vs ! j) [0..<m] = vs" using tail map_nth [of vs] by simp
  ultimately show ?thesis using r(1) iter by auto
qed

text \<open>
  C2: A checkpoint continues the stream: what a loader restored from it delivers is exactly, batch
  for batch, what the uninterrupted iterator delivered after the capture.
\<close>

theorem resume_continues_stream:
  assumes "native_loader l" and "iterate_in_process uc d i l = (l0, Inr (it0, adv))"
    and "inprocess_run uc plan k it0 l0 = Some (itk, lk, Inr us)"
    and "inprocess_run uc plan m itk lk = Some (ite, le, Inr vs)"
    and "capture_map_state rf (lk\<lparr>ld_active := Some (inprocess_view itk 0)\<rparr>) = Inr p"
    and "contract_ok rf l g"
    and "native_loader t" "same_plan l t" "check_elastic t g = Inr ()" "ld_active t = None"
  shows "\<exists>r r0 it1. restore_map_state rf t (PDict p) = Inr r \<and>
    iterate_in_process uc d' i' r = (r0, Inr (it1, False)) \<and> (\<exists>it2 r2. inprocess_run uc plan m it1 r0 = Some (it2, r2, Inr vs))"
  by (rule resumed_continues [OF assms])

text \<open>
  A loader of a thousand numbers in batches of eight, checkpointed after its first batch; user code
  returns the index, and the batch is its first value.
\<close>

definition native_sizing :: sizing_loader where
  "native_sizing = sample_sizing\<lparr>sz_placement :=
     Some \<lparr>mp_dataset_length = 1000, mp_batch_size = 8, mp_rank = 0, mp_world_size = 1, mp_drop_last = False,
           mp_exact_count = False, mp_enabled = False\<rparr>\<rparr>"

definition sample_native :: map_loader where
  "sample_native = sample_loader\<lparr>ld_active := None, ld_sizing := native_sizing\<rparr>"

definition sample_code :: "(unit, unit, int, int) user_code" where
  "sample_code = \<lparr>uc_next = \<lambda>u. (u, Inl StopIteration), uc_next_batch = \<lambda>u. (u, Inl StopIteration),
     uc_tuple = \<lambda>_. None, uc_dumps = \<lambda>_. Inr [], uc_native = id, uc_getitem = \<lambda>_ i. Inr i,
     uc_collate_fn = None, uc_default_collate = \<lambda>vs. Inr (hd vs)\<rparr>"

definition sample_plan :: "int \<Rightarrow> int \<Rightarrow> int \<Rightarrow> int run" where
  "sample_plan = tensor_index \<lparr>plan_length = 1000, plan_shuffle = False\<rparr>"

lemma sample_native_simps:
  "ld_root_seed sample_native = 1701" "ld_epoch_state sample_native = new_epoch_state" "ld_cursor sample_native = 0"
  "\<not> ld_has_sampler sample_native" "\<not> ld_has_batch_sampler sample_native" "ld_active sample_native = None"
  "ld_sizing sample_native = native_sizing" "ld_fingerprint sample_native = sample_fingerprint"
  by (simp_all add: sample_native_def sample_loader_def)

lemma sample_native_ok: "native_loader sample_native" "same_plan sample_native sample_native"
    "check_elastic sample_native 8 = Inr ()" "contract_ok (\<lambda>_. '''') sample_native 8"
  using sample_loader_ok(1) new_epoch_state_ok
  by (simp_all add: native_loader_def same_plan_def sample_native_simps check_elastic_def contract_ok_def
      placement_world_size_def loader_width_def MAX_U64_def native_sizing_def sample_sizing_def
      validate_elastic_restore_def py_divmod_def sample_loader_def)

lemma sample_native_next:
  assumes "ld_root_seed l = 1701" "\<not> ld_has_sampler l" "\<not> ld_has_batch_sampler l" "ld_sizing l = native_sizing"
    and "ip_valid it" "ip_length it = 1000" "ip_position it = k * 8" "0 \<le> k" "k < 125"
  shows "inprocess_next sample_code sample_plan it l =
    Some (it\<lparr>ip_position := (k + 1) * 8, ip_delivered := ip_delivered it + 1\<rparr>,
      l\<lparr>ld_epoch_state := mark_epoch_delivered (ip_epoch it) (ld_epoch_state l)\<rparr>, Inr (k * 8))"
proof -
  let ?p = "irange (k * 8) (k * 8 + 8)"
  have w: "loader_width l = 8" "sz_batch_size (ld_sizing l) = Some 8"
    using assms(4) by (simp_all add: loader_width_def native_sizing_def sample_sizing_def)
  have "otraverse (native_index sample_plan l (ip_epoch it)) ?p = Some (Inr (map id ?p))"
    using assms(4,8,9)
    by (intro otraverse_Some) (simp add: native_index_def native_sizing_def sample_plan_def tensor_index_def
        sampler_index_def placement_index_def coordinate_def placement_length_def)
  moreover have "rtraverse (native_coordinate l) ?p = Inr (map id ?p)"
    using assms(4,8,9)
    by (intro rtraverse_Inr) (simp add: native_coordinate_def native_sizing_def coordinate_def placement_length_def)
  ultimately have "next_indices sample_code sample_plan l it = (it, Some (Inr (Some (?p, ?p))))"
    using assms w by (simp add: next_indices_def Let_def returns_def sample_code_def)
  moreover have "rtraverse (evaluate_in_process sample_code (ld_root_seed l) (ip_epoch it)) (zip ?p ?p) = Inr (map fst (zip ?p ?p))"
    by (intro rtraverse_Inr) (auto simp: evaluate_in_process_def sample_code_def set_zip)
  moreover have "hd ?p = k * 8" by (simp add: irange_def upto_rec1)
  ultimately show ?thesis
    using assms w by (simp add: inprocess_next_def collate_in_process_def sample_code_def commit_inprocess_def
        map_fst_zip algebra_simps)
qed

lemma sample_native_iterates:
  "\<exists>l0 it0. iterate_in_process sample_code None () sample_native = (l0, Inr (it0, False)) \<and>
     ld_root_seed l0 = 1701 \<and> \<not> ld_has_sampler l0 \<and> \<not> ld_has_batch_sampler l0 \<and> ld_sizing l0 = native_sizing \<and>
     ld_fingerprint l0 = sample_fingerprint \<and> es_current (ld_epoch_state l0) = 0 \<and>
     ip_valid it0 \<and> ip_length it0 = 1000 \<and> ip_position it0 = 0 \<and> ip_delivered it0 = 0 \<and> ip_epoch it0 = 0 \<and> \<not> ip_complete it0"
proof -
  have "delivery_length native_sizing = Inr 1000" "\<And>l. ld_sizing l = native_sizing \<Longrightarrow> loader_width l = 8"
    by (simp_all add: native_sizing_def sample_sizing_def delivery_length_def loader_width_def)
  then show ?thesis
    by (simp add: iterate_in_process_def begin_loader_def begin_iteration_def new_epoch_state_def sample_native_simps
        new_inprocess_def resume_sample_position_def)
qed

theorem resume_continues_stream_witness:
  "\<exists>l0 it0 itk lk p r r0 it1. iterate_in_process sample_code None () sample_native = (l0, Inr (it0, False)) \<and>
     inprocess_run sample_code sample_plan 1 it0 l0 = Some (itk, lk, Inr [0]) \<and>
     capture_map_state (\<lambda>_. '''') (lk\<lparr>ld_active := Some (inprocess_view itk 0)\<rparr>) = Inr p \<and>
     restore_map_state (\<lambda>_. '''') sample_native (PDict p) = Inr r \<and>
     iterate_in_process sample_code None () r = (r0, Inr (it1, False)) \<and>
     (\<exists>it2 r2. inprocess_run sample_code sample_plan 1 it1 r0 = Some (it2, r2, Inr [8]))"
proof -
  from sample_native_iterates obtain l0 it0 where
    iter: "iterate_in_process sample_code None () sample_native = (l0, Inr (it0, False))" and
    l0: "ld_root_seed l0 = 1701" "\<not> ld_has_sampler l0" "\<not> ld_has_batch_sampler l0" "ld_sizing l0 = native_sizing"
      "ld_fingerprint l0 = sample_fingerprint" "es_current (ld_epoch_state l0) = 0" and
    it0: "ip_valid it0" "ip_length it0 = 1000" "ip_position it0 = 0" "ip_delivered it0 = 0" "ip_epoch it0 = 0" "\<not> ip_complete it0"
    by blast
  let ?it1 = "it0\<lparr>ip_position := 8, ip_delivered := 1\<rparr>"
  let ?l1 = "l0\<lparr>ld_epoch_state := mark_epoch_delivered 0 (ld_epoch_state l0)\<rparr>"
  have one: "inprocess_next sample_code sample_plan it0 l0 = Some (?it1, ?l1, Inr 0)"
    using sample_native_next [of l0 it0 0] l0 it0 by simp
  obtain it2 l2 where two: "inprocess_next sample_code sample_plan ?it1 ?l1 = Some (it2, l2, Inr 8)"
    using sample_native_next [of ?l1 ?it1 1] l0 it0 by simp
  have runs: "inprocess_run sample_code sample_plan 1 it0 l0 = Some (?it1, ?l1, Inr [0])"
    "inprocess_run sample_code sample_plan 1 ?it1 ?l1 = Some (it2, l2, Inr [8])"
    using one two by simp_all
  let ?lk = "?l1\<lparr>ld_active := Some (inprocess_view ?it1 0)\<rparr>"
  have coordinate: "capture_coordinate ?lk = (0, 1, 0, [])"
    using l0 it0 by (simp add: capture_coordinate_def inprocess_view_def)
  have "contract_ok (\<lambda>_. '''') ?lk 8" using sample_native_ok(4) l0(5) by (simp add: contract_ok_def sample_native_simps)
  moreover have "coordinate_ok ?lk" using coordinate l0(1) by (simp add: coordinate_ok_def MAX_U64_def)
  ultimately obtain p where p: "capture_map_state (\<lambda>_. '''') ?lk = Inr p"
    using capture_map_state_ok [OF _ _ coordinate] by metis
  from resume_continues_stream [OF sample_native_ok(1) iter runs p sample_native_ok(4,1,2,3) sample_native_simps(6),
      where d' = None and i' = "()"]
  show ?thesis using iter runs(1) p by blast
qed

end
