(* ===== verification/Pooled.thy ===== *)
theory Pooled
  imports InProcess
begin

text \<open>
  The iterators that run a user sampler over a process pool: \<^verbatim>\<open>state/streaming_iterator.py\<close> and
  \<^verbatim>\<open>state/sampler_iterator.py\<close>.  What they ask of the pool is the locale \<open>executor\<close>; inside it the
  streaming iterator delivers what the in-process iterator delivers.
\<close>

section \<open>The pool as the iterators see it\<close>

text \<open>
  \<open>px_collated\<close> is \<open>None\<close> for a loader without \<^verbatim>\<open>collate_fn\<close>; its arguments are the epoch, the
  batch ordinal, the coordinates with their indices and whether the loader batches.
\<close>

record ('a, 'v) pool_executor =
  px_prepare :: "unit res"
  px_execute :: "int \<Rightarrow> int \<Rightarrow> 'a \<Rightarrow> 'v res"
  px_collated :: "(int \<Rightarrow> int \<Rightarrow> (int \<times> 'a) list \<Rightarrow> bool \<Rightarrow> 'v res) option"
  px_collate_batch :: "'v list \<Rightarrow> 'v res"

definition execute_entries :: "('a, 'v) pool_executor \<Rightarrow> int \<Rightarrow> (int \<times> 'a) list \<Rightarrow> 'v list res" where
  "execute_entries px epoch = rtraverse (\<lambda>(position, index). px_execute px epoch position index)"

section \<open>The streaming iterator\<close>

record ('s, 'a) streaming =
  si_runtime :: "('s, 'a) sampler_runtime"
  si_epoch :: int
  si_position :: int
  si_delivered :: int
  si_complete :: bool
  si_valid :: bool

definition new_streaming ::
    "('s, 'a) source \<Rightarrow> 'a dumps \<Rightarrow> ('a, 'v) pool_executor \<Rightarrow> ('s, 'a) sampler_runtime \<Rightarrow> map_loader \<Rightarrow> ('s, 'a) streaming res" where
  "new_streaming nxt dumps px r l =
    (case sampler_probe nxt dumps r of
       (r, Inl e) \<Rightarrow> Inl e
     | (r, Inr probe) \<Rightarrow>
         rmap (\<lambda>_. \<lparr>si_runtime = r, si_epoch = es_current (ld_epoch_state l), si_position = sa_start_samples r,
                    si_delivered = ld_cursor l, si_complete = False, si_valid = True\<rparr>)
           (if probe \<noteq> None then px_prepare px else Inr ()))"

definition finish_streaming :: "('s, 'a) streaming \<Rightarrow> map_loader \<Rightarrow> ('s, 'a) streaming \<times> map_loader" where
  "finish_streaming it l =
    (if si_complete it then (it, l)
     else (it\<lparr>si_complete := True\<rparr>, l\<lparr>ld_epoch_state := complete_epoch (si_epoch it) (ld_epoch_state l)\<rparr>))"

definition streaming_value ::
    "('a, 'v) pool_executor \<Rightarrow> map_loader \<Rightarrow> int \<Rightarrow> int \<Rightarrow> int \<Rightarrow> 'a list \<Rightarrow> 'v res" where
  "streaming_value px l epoch delivered position indices =
    (let batched = sz_batch_size (ld_sizing l) \<noteq> None;
         entries = zip (consecutive position (length indices)) indices
     in case px_collated px of
          Some collated \<Rightarrow> collated epoch delivered entries batched
        | None \<Rightarrow>
            rbind (execute_entries px epoch entries) (\<lambda>values.
              if batched then px_collate_batch px values else Inr (hd values)))"

definition streaming_next ::
    "('s, 'a) source \<Rightarrow> 'a dumps \<Rightarrow> ('a, 'v) pool_executor \<Rightarrow> ('s, 'a) streaming \<Rightarrow> map_loader \<Rightarrow>
     ('s, 'a) streaming \<times> map_loader \<times> 'v res" where
  "streaming_next nxt dumps px it l =
    (if \<not> si_valid it then (it, l, Inl (RuntimeError ''streaming sampler iterator is no longer active''))
     else case gather_indices nxt dumps (si_position it) (nat (loader_width l)) [] (si_runtime it) of
            (r, Inl e) \<Rightarrow> (it\<lparr>si_runtime := r\<rparr>, l, Inl e)
          | (r, Inr indices) \<Rightarrow>
              let it = it\<lparr>si_runtime := r\<rparr> in
              if indices = [] \<or>
                 int (length indices) < loader_width l \<and> sz_batch_size (ld_sizing l) \<noteq> None \<and> sz_drop_last (ld_sizing l)
              then (case finish_streaming it l of (it, l) \<Rightarrow> (it, l, Inl StopIteration))
              else
                (case streaming_value px l (si_epoch it) (si_delivered it) (si_position it) indices of
                   Inl e \<Rightarrow> (it\<lparr>si_valid := False\<rparr>, close_loader l, Inl e)
                 | Inr v \<Rightarrow>
                     (it\<lparr>si_position := si_position it + int (length indices), si_delivered := si_delivered it + 1\<rparr>,
                      l\<lparr>ld_epoch_state := mark_epoch_delivered (si_epoch it) (ld_epoch_state l)\<rparr>, Inr v)))"

section \<open>The user-batch iterator\<close>

record ('s, 'a) user_batches =
  ub_runtime :: "('s, 'a) batch_runtime"
  ub_epoch :: int
  ub_ordinal :: int
  ub_complete :: bool
  ub_valid :: bool

definition new_user_batches ::
    "('s, 'b) source \<Rightarrow> ('b \<Rightarrow> 'a list option) \<Rightarrow> 'a dumps \<Rightarrow> ('a, 'v) pool_executor \<Rightarrow> ('s, 'a) batch_runtime \<Rightarrow> map_loader \<Rightarrow>
     ('s, 'a) user_batches res" where
  "new_user_batches nxt tuple_of dumps px r l =
    (case batch_probe nxt tuple_of dumps r of
       (r, Inl e) \<Rightarrow> Inl e
     | (r, Inr probe) \<Rightarrow>
         rmap (\<lambda>_. \<lparr>ub_runtime = r, ub_epoch = es_current (ld_epoch_state l), ub_ordinal = ba_start_batch r,
                    ub_complete = False, ub_valid = True\<rparr>)
           (if probe \<noteq> None then px_prepare px else Inr ()))"

definition finish_user_batches :: "('s, 'a) user_batches \<Rightarrow> map_loader \<Rightarrow> ('s, 'a) user_batches \<times> map_loader" where
  "finish_user_batches it l =
    (if ub_complete it then (it, l)
     else (it\<lparr>ub_complete := True\<rparr>, l\<lparr>ld_epoch_state := complete_epoch (ub_epoch it) (ld_epoch_state l)\<rparr>))"

definition user_batches_next ::
    "('s, 'b) source \<Rightarrow> ('b \<Rightarrow> 'a list option) \<Rightarrow> 'a dumps \<Rightarrow> ('a, 'v) pool_executor \<Rightarrow> ('s, 'a) user_batches \<Rightarrow> map_loader \<Rightarrow>
     ('s, 'a) user_batches \<times> map_loader \<times> 'v res" where
  "user_batches_next nxt tuple_of dumps px it l =
    (if \<not> ub_valid it then (it, l, Inl (RuntimeError ''batch-sampler iterator is no longer active''))
     else case has_batch nxt tuple_of dumps (ub_ordinal it) (ub_runtime it) of
            (r, Inl e) \<Rightarrow> (it\<lparr>ub_runtime := r\<rparr>, l, Inl e)
          | (r, Inr False) \<Rightarrow>
              (case finish_user_batches (it\<lparr>ub_runtime := r\<rparr>) l of (it, l) \<Rightarrow> (it, l, Inl StopIteration))
          | (r, Inr True) \<Rightarrow>
              (case batch_at nxt tuple_of dumps (ub_ordinal it) r of
                 (r, Inl e) \<Rightarrow> (it\<lparr>ub_runtime := r\<rparr>, l, Inl e)
               | (r, Inr batch) \<Rightarrow>
                   (case sample_offset nxt tuple_of dumps (ub_ordinal it) r of
                      (r, Inl e) \<Rightarrow> (it\<lparr>ub_runtime := r\<rparr>, l, Inl e)
                    | (r, Inr offset) \<Rightarrow>
                        let it = it\<lparr>ub_runtime := r\<rparr>;
                            entries = zip (consecutive offset (length batch)) batch
                        in (case (case px_collated px of
                                    Some collated \<Rightarrow> collated (ub_epoch it) (ub_ordinal it) entries True
                                  | None \<Rightarrow> rbind (execute_entries px (ub_epoch it) entries) (px_collate_batch px)) of
                              Inl e \<Rightarrow> (it\<lparr>ub_valid := False\<rparr>, close_loader l, Inl e)
                            | Inr v \<Rightarrow>
                                (it\<lparr>ub_ordinal := ub_ordinal it + 1\<rparr>,
                                 l\<lparr>ld_epoch_state := mark_epoch_delivered (ub_epoch it) (ld_epoch_state l)\<rparr>, Inr v)))))"

section \<open>The contract of a pool, and what it gives\<close>

definition collated_in_process ::
    "('s, 'b, 'a, 'v) user_code \<Rightarrow> int \<Rightarrow> (stream_context \<Rightarrow> 'v collate_argument \<Rightarrow> 'v res) \<Rightarrow> int \<Rightarrow> int \<Rightarrow> (int \<times> 'a) list \<Rightarrow> bool \<Rightarrow> 'v res"
  where
  "collated_in_process uc root_seed collate_fn epoch ordinal entries batched =
    rbind (rtraverse (evaluate_in_process uc root_seed epoch) entries) (\<lambda>values.
      collate_fn (stream_context (install_collate 0 root_seed epoch ordinal))
        (if batched then Values values else Single (hd values)))"

text \<open>Equal outcomes, except that a worker's exception reaches the caller as another object.\<close>

definition same_outcome :: "'v res \<Rightarrow> 'v res \<Rightarrow> bool" where
  "same_outcome a b \<longleftrightarrow> (case a of Inl _ \<Rightarrow> (\<exists>e. b = Inl e) | Inr v \<Rightarrow> b = Inr v)"

lemma same_outcome_simps [simp]:
  "same_outcome (Inr v) b \<longleftrightarrow> b = Inr v"
  "same_outcome (Inl e) b \<longleftrightarrow> (\<exists>f. b = Inl f)"
  by (simp_all add: same_outcome_def)

lemma same_outcome_refl [simp]: "same_outcome a a"
  by (cases a) simp_all

lemma same_outcome_bind: "same_outcome a b \<Longrightarrow> (\<And>v. same_outcome (f v) (g v)) \<Longrightarrow> same_outcome (rbind a f) (rbind b g)"
  by (cases a) auto

lemma same_outcome_traverse:
  "(\<And>x. same_outcome (f x) (g x)) \<Longrightarrow> same_outcome (rtraverse f xs) (rtraverse g xs)"
proof (induction xs)
  case (Cons x xs)
  then show ?case
    by (cases "f x"; cases "rtraverse f xs") (use Cons.prems [of x] in auto)
qed simp

text \<open>The two iterators of a user sampler, at the same place of the same stream.\<close>

definition beside :: "('s, 'a) inprocess \<Rightarrow> ('s, 'a) streaming \<Rightarrow> bool" where
  "beside ip si \<longleftrightarrow> ip_runtime ip = Some (Sample_runtime (si_runtime si)) \<and> ip_epoch ip = si_epoch si \<and>
     ip_position ip = si_position si \<and> ip_delivered ip = si_delivered si \<and> ip_complete ip = si_complete si \<and>
     ip_valid ip = si_valid si"

text \<open>A pool that executes the user's code of a loader with the given root seed.\<close>

locale executor =
  fixes uc :: "('s, 'b, 'a, 'v) user_code" and root_seed :: int and px :: "('a, 'v) pool_executor"
  assumes execute: "same_outcome (evaluate_in_process uc root_seed epoch (position, index)) (px_execute px epoch position index)"
    and collated_some: "uc_collate_fn uc = Some f \<Longrightarrow>
      \<exists>collated. px_collated px = Some collated \<and>
        same_outcome (collated_in_process uc root_seed f epoch ordinal entries batched) (collated epoch ordinal entries batched)"
    and collated_none: "uc_collate_fn uc = None \<Longrightarrow> px_collated px = None"
    and collate_batch: "px_collate_batch px = uc_default_collate uc"
begin

lemma execute_entries_outcome:
  "same_outcome (rtraverse (evaluate_in_process uc root_seed epoch) entries) (execute_entries px epoch entries)"
  unfolding execute_entries_def by (rule same_outcome_traverse) (auto simp: execute)

lemma streaming_value_outcome:
  assumes "ld_root_seed l = root_seed" "\<not> ld_has_batch_sampler l"
  shows "same_outcome
    (rbind (rtraverse (evaluate_in_process uc (ld_root_seed l) epoch) (zip (consecutive position (length indices)) indices))
      (collate_in_process uc l epoch delivered))
    (streaming_value px l epoch delivered position indices)"
proof (cases "uc_collate_fn uc")
  case None
  then show ?thesis
    using assms(2) collated_none [OF None]
    unfolding assms(1)
    by (auto simp: streaming_value_def Let_def collate_in_process_def collate_batch
        intro!: same_outcome_bind execute_entries_outcome)
next
  case (Some f)
  with collated_some [OF Some] obtain collated where c: "px_collated px = Some collated" by blast
  have eq: "rbind (rtraverse (evaluate_in_process uc (ld_root_seed l) epoch) entries) (collate_in_process uc l epoch delivered) =
      collated_in_process uc root_seed f epoch delivered entries (sz_batch_size (ld_sizing l) \<noteq> None)" for entries
    using assms Some unfolding collated_in_process_def
    by (intro arg_cong2 [where f = rbind] ext) (simp_all add: collate_in_process_def Let_def)
  show ?thesis
    using collated_some [OF Some, of epoch delivered _ "sz_batch_size (ld_sizing l) \<noteq> None"] c
    unfolding eq by (simp add: streaming_value_def Let_def)
qed

lemma streaming_next_beside:
  assumes "beside ip si" "ld_has_sampler l" "\<not> ld_has_batch_sampler l" "ld_root_seed l = root_seed"
    and "inprocess_next uc plan ip l = Some (ip', l', a)" and "streaming_next (uc_next uc) (uc_dumps uc) px si l = (si', l'', b)"
  shows "same_outcome a b \<and> beside ip' si' \<and> l'' = l'"
proof (cases "si_valid si")
  case False
  with assms show ?thesis by (auto simp: beside_def inprocess_next_def streaming_next_def)
next
  case True
  obtain r o1 where g: "gather_indices (uc_next uc) (uc_dumps uc) (si_position si) (nat (loader_width l)) [] (si_runtime si) = (r, o1)"
    by fastforce
  show ?thesis
  proof (cases o1)
    case (Inl e)
    with assms True g show ?thesis
      by (auto simp: beside_def inprocess_next_def streaming_next_def next_indices_def)
  next
    case (Inr indices)
    show ?thesis
    proof (cases "indices = [] \<or>
        int (length indices) < loader_width l \<and> sz_batch_size (ld_sizing l) \<noteq> None \<and> sz_drop_last (ld_sizing l)")
      case stop: True
      then have "next_indices uc plan l ip = (ip\<lparr>ip_runtime := Some (Sample_runtime r)\<rparr>, Some (Inr None))"
        using assms(1-3) g Inr by (auto simp: next_indices_def beside_def)
      with assms True g Inr stop show ?thesis
        by (auto simp: beside_def inprocess_next_def streaming_next_def finish_inprocess_def finish_streaming_def)
    next
      case False
      let ?e = "zip (consecutive (si_position si) (length indices)) indices"
      have next_i: "next_indices uc plan l ip = (ip\<lparr>ip_runtime := Some (Sample_runtime r)\<rparr>,
          Some (Inr (Some (indices, consecutive (si_position si) (length indices)))))"
        using assms(1-3) g Inr False by (auto simp: next_indices_def beside_def)
      have "same_outcome
          (rbind (rtraverse (evaluate_in_process uc (ld_root_seed l) (si_epoch si)) ?e) (collate_in_process uc l (si_epoch si) (si_delivered si)))
          (streaming_value px l (si_epoch si) (si_delivered si) (si_position si) indices)"
        by (rule streaming_value_outcome) (use assms in simp_all)
      note outcome = this
      let ?ip = "ip\<lparr>ip_runtime := Some (Sample_runtime r)\<rparr>" and ?si = "si\<lparr>si_runtime := r\<rparr>"
      let ?l = "l\<lparr>ld_epoch_state := mark_epoch_delivered (si_epoch si) (ld_epoch_state l)\<rparr>"
      have valid: "ip_valid ip" "ip_epoch ip = si_epoch si" "ip_delivered ip = si_delivered si" "ip_position ip = si_position si"
        using assms(1) True by (simp_all add: beside_def)
      show ?thesis
      proof (cases "rbind (rtraverse (evaluate_in_process uc (ld_root_seed l) (si_epoch si)) ?e)
          (collate_in_process uc l (si_epoch si) (si_delivered si))")
        case a: (Inl e)
        with outcome obtain f where b: "streaming_value px l (si_epoch si) (si_delivered si) (si_position si) indices = Inl f"
          by auto
        have "inprocess_next uc plan ip l = Some (?ip\<lparr>ip_valid := False\<rparr>, close_loader l, Inl e)"
          using a valid next_i by (simp add: inprocess_next_def)
        moreover have "streaming_next (uc_next uc) (uc_dumps uc) px si l = (?si\<lparr>si_valid := False\<rparr>, close_loader l, Inl f)"
          using True g Inr False b by (auto simp: streaming_next_def)
        ultimately show ?thesis using assms(1,5,6) by (auto simp: beside_def)
      next
        case a: (Inr v)
        with outcome have b: "streaming_value px l (si_epoch si) (si_delivered si) (si_position si) indices = Inr v" by simp
        have "inprocess_next uc plan ip l = Some (?ip\<lparr>ip_position := si_position si + int (length indices),
            ip_delivered := si_delivered si + 1\<rparr>, ?l, Inr v)"
          using a valid next_i assms(3) by (simp add: inprocess_next_def commit_inprocess_def)
        moreover have "streaming_next (uc_next uc) (uc_dumps uc) px si l =
            (?si\<lparr>si_position := si_position si + int (length indices), si_delivered := si_delivered si + 1\<rparr>, ?l, Inr v)"
          using True g Inr False b by (auto simp: streaming_next_def)
        ultimately show ?thesis using assms(1,5,6) by (auto simp: beside_def)
      qed
    qed
  qed
qed

end

end
