(* ===== verification/Worker.thy ===== *)
theory Worker
  imports Pooled Decimal
begin

text \<open>
  A process worker: the wire format of results (\<^verbatim>\<open>process/serialization.py\<close>), in-place batches
  (\<^verbatim>\<open>process/batching.py\<close>), exceptions (\<^verbatim>\<open>process/exceptions.py\<close>), the evaluation of commands
  (\<^verbatim>\<open>process/worker.py\<close>, \<^verbatim>\<open>process/user_collation.py\<close>) and the publication of completions.
\<close>

section \<open>Result envelopes\<close>

definition MAGIC :: "int list" where "MAGIC = text_bytes ''HLRES'' @ [0]"
definition PICKLE_VALUE :: int where "PICKLE_VALUE = 0"
definition TENSOR_BASE :: int where "TENSOR_BASE = 1"
definition TENSOR_VIEW :: int where "TENSOR_VIEW = 2"

text \<open>
  The bodies that are pickled: a value, a storage number with its first tensor, or a storage number
  with the coordinates of a view (size, stride, offset and whether it requires a gradient).
\<close>

type_synonym view = "int list \<times> int list \<times> int \<times> bool"

datatype 'v body = Value_body 'v | Base_body int 'v | View_body int view

text \<open>
  What the wire asks of its surroundings: the pickler, the storage address and the view of a shareable
  tensor, and a tensor of a storage's base with a view's coordinates.
\<close>

record 'v codec =
  cd_pickle :: "'v body \<Rightarrow> int list"
  cd_unpickle :: "int list \<Rightarrow> 'v body res"
  cd_storage :: "'v \<Rightarrow> (int \<times> view) option"
  cd_view :: "'v \<Rightarrow> view \<Rightarrow> 'v"

definition envelope :: "int \<Rightarrow> int list \<Rightarrow> int list" where
  "envelope kind body = MAGIC @ [kind] @ body"

type_synonym encoder = "(int, int) dict"
type_synonym 'v decoder = "(int \<times> int, 'v) dict"

definition encode_uncached :: "'v codec \<Rightarrow> 'v \<Rightarrow> int list" where
  "encode_uncached cd v = envelope PICKLE_VALUE (cd_pickle cd (Value_body v))"

definition encode_result :: "'v codec \<Rightarrow> 'v \<Rightarrow> encoder \<Rightarrow> encoder \<times> int list" where
  "encode_result cd v ids =
    (case cd_storage cd v of
       None \<Rightarrow> (ids, encode_uncached cd v)
     | Some (storage_key, coordinates) \<Rightarrow>
         (case dict_get ids storage_key of
            None \<Rightarrow>
              let storage_id = int (length ids)
              in (dict_set storage_key storage_id ids, envelope TENSOR_BASE (cd_pickle cd (Base_body storage_id v)))
          | Some storage_id \<Rightarrow> (ids, envelope TENSOR_VIEW (cd_pickle cd (View_body storage_id coordinates)))))"

definition decode_result :: "'v codec \<Rightarrow> int list \<Rightarrow> int \<Rightarrow> 'v decoder \<Rightarrow> 'v decoder \<times> 'v res" where
  "decode_result cd payload worker bases =
    (if take (length MAGIC) payload \<noteq> MAGIC \<or> length payload = length MAGIC
     then (bases, Inl (RuntimeError ''Worker result envelope is invalid.''))
     else
       let kind = payload ! length MAGIC; body = cd_unpickle cd (drop (length MAGIC + 1) payload) in
       if kind = PICKLE_VALUE then
         (bases, rbind body (\<lambda>b. case b of Value_body v \<Rightarrow> Inr v | _ \<Rightarrow> Inl (ValueError ''unexpected body'')))
       else if kind = TENSOR_BASE then
         (case body of
            Inr (Base_body storage_id v) \<Rightarrow> (dict_set (worker, storage_id) v bases, Inr v)
          | Inr _ \<Rightarrow> (bases, Inl (ValueError ''unexpected body''))
          | Inl e \<Rightarrow> (bases, Inl e))
       else if kind \<noteq> TENSOR_VIEW then (bases, Inl (RuntimeError ''Worker result envelope kind is invalid.''))
       else
         (bases, rbind body (\<lambda>b. case b of
            View_body storage_id coordinates \<Rightarrow>
              (case dict_get bases (worker, storage_id) of
                 None \<Rightarrow> Inl (RuntimeError ''Worker tensor storage reference is unknown.'')
               | Some base \<Rightarrow> Inr (cd_view cd base coordinates))
          | _ \<Rightarrow> Inl (ValueError ''unexpected body''))))"

section \<open>The wire is transparent\<close>

text \<open>
  What the wire relies on: pickling round-trips, and a storage address names one storage for as long as
  the worker lives, so that a view of its base with the coordinates of any of its tensors is that tensor.
\<close>

definition codec_ok :: "'v codec \<Rightarrow> 'v set \<Rightarrow> bool" where
  "codec_ok cd vs \<longleftrightarrow> (\<forall>b. cd_unpickle cd (cd_pickle cd b) = Inr b) \<and>
     (\<forall>v \<in> vs. \<forall>w \<in> vs. \<forall>a c d. cd_storage cd v = Some (a, c) \<longrightarrow> cd_storage cd w = Some (a, d) \<longrightarrow> cd_view cd v d = w)"

text \<open>The owner holds the base of every storage the worker has numbered.\<close>

definition wire_ok :: "'v codec \<Rightarrow> 'v set \<Rightarrow> int \<Rightarrow> encoder \<Rightarrow> 'v decoder \<Rightarrow> bool" where
  "wire_ok cd vs worker ids bases \<longleftrightarrow> dict_ok ids \<and>
     (\<forall>a i. dict_get ids a = Some i \<longrightarrow> 0 \<le> i \<and> i < int (length ids)) \<and>
     (\<forall>a i. dict_get ids a = Some i \<longrightarrow> (\<exists>v c. v \<in> vs \<and> cd_storage cd v = Some (a, c) \<and> dict_get bases (worker, i) = Some v))"

fun transmit :: "'v codec \<Rightarrow> int \<Rightarrow> 'v list \<Rightarrow> encoder \<Rightarrow> 'v decoder \<Rightarrow> 'v res list" where
  "transmit cd worker [] ids bases = []"
| "transmit cd worker (v # vs) ids bases =
    (case encode_result cd v ids of (ids, payload) \<Rightarrow>
      case decode_result cd payload worker bases of (bases, r) \<Rightarrow> r # transmit cd worker vs ids bases)"

lemma wire_ok_fresh: "wire_ok cd vs worker [] bases"
  by (simp add: wire_ok_def)

lemma envelope_simps [simp]:
  "take (length MAGIC) (envelope k b) = MAGIC" "length (envelope k b) \<noteq> length MAGIC"
  "envelope k b ! length MAGIC = k" "drop (length MAGIC + 1) (envelope k b) = b"
  "drop (Suc (length MAGIC)) (envelope k b) = b"
  by (simp_all add: envelope_def nth_append)

lemma kind_simps [simp]:
  "PICKLE_VALUE \<noteq> TENSOR_BASE" "TENSOR_BASE \<noteq> PICKLE_VALUE" "TENSOR_VIEW \<noteq> PICKLE_VALUE" "TENSOR_VIEW \<noteq> TENSOR_BASE"
  by (simp_all add: PICKLE_VALUE_def TENSOR_BASE_def TENSOR_VIEW_def)

lemma length_sent_set_new: "dict_get d k = None \<Longrightarrow> length (dict_set k v d) = Suc (length d)"
  by (induction d) (auto split: if_splits)

lemma transmit_one:
  assumes ok: "codec_ok cd vs" and v: "v \<in> vs" and wire: "wire_ok cd vs worker ids bases"
    and e: "encode_result cd v ids = (ids', payload)" and d: "decode_result cd payload worker bases = (bases', r)"
  shows "r = Inr v \<and> wire_ok cd vs worker ids' bases'"
proof (cases "cd_storage cd v")
  case None
  with assms show ?thesis
    by (auto simp: encode_result_def encode_uncached_def decode_result_def codec_ok_def Let_def)
next
  case (Some ac)
  obtain a c where ac: "cd_storage cd v = Some (a, c)" using Some by (cases ac) simp
  show ?thesis
  proof (cases "dict_get ids a")
    case None
    let ?i = "int (length ids)"
    have "r = Inr v" and ids': "ids' = dict_set a ?i ids" and bases': "bases' = dict_set (worker, ?i) v bases"
      using e d ok ac None by (auto simp: encode_result_def decode_result_def codec_ok_def Let_def)
    moreover have "wire_ok cd vs worker ids' bases'"
      using wire ac v unfolding ids' bases' wire_ok_def
      by (cases c) (auto simp: length_sent_set_new [OF None] split: if_splits, fastforce+)
    ultimately show ?thesis by simp
  next
    case (Some i)
    with wire obtain w k where w: "w \<in> vs" "cd_storage cd w = Some (a, k)" "dict_get bases (worker, i) = Some w"
      unfolding wire_ok_def by blast
    with ok v ac have "cd_view cd w c = v" unfolding codec_ok_def by blast
    with e d ok ac Some w wire show ?thesis
      by (auto simp: encode_result_def decode_result_def codec_ok_def Let_def)
  qed
qed

lemma transmit_values:
  "codec_ok cd vs \<Longrightarrow> set us \<subseteq> vs \<Longrightarrow> wire_ok cd vs worker ids bases \<Longrightarrow> transmit cd worker us ids bases = map Inr us"
proof (induction us arbitrary: ids bases)
  case (Cons u us)
  obtain ids' payload where e: "encode_result cd u ids = (ids', payload)" by fastforce
  obtain bases' r where d: "decode_result cd payload worker bases = (bases', r)" by fastforce
  from transmit_one [OF Cons.prems(1) _ Cons.prems(3) e d] Cons.prems(2) have "r = Inr u" "wire_ok cd vs worker ids' bases'"
    by auto
  with Cons e d show ?case by simp
qed simp

text \<open>
  The wire is transparent: the values a worker sends are the values the owner decodes, in order and
  shared storages included, whatever an earlier worker of the same number left in the decoder.
\<close>

theorem results_round_trip:
  assumes "codec_ok cd (set vs)"
  shows "transmit cd worker vs [] bases = map Inr vs"
  by (rule transmit_values [OF assms subset_refl wire_ok_fresh])

text \<open>
  The hypothesis matters: the encoder remembers an address and not the storage, so a worker that gives a
  later tensor the address of a released storage is answered with a view of the released one.
\<close>

lemma released_address_is_stale:
  assumes "\<And>b. cd_unpickle cd (cd_pickle cd b) = Inr b"
    and "cd_storage cd v = Some (a, c)" "cd_storage cd w = Some (a, d)"
  shows "transmit cd worker [v, w] [] bases = [Inr v, Inr (cd_view cd v d)]"
  using assms by (simp add: encode_result_def decode_result_def Let_def)

text \<open>Numbers that are views of the storage of their tens, offset by their digit.\<close>

definition digit_codec :: "int codec" where
  "digit_codec =
    \<lparr>cd_pickle = \<lambda>b. (case b of Value_body v \<Rightarrow> [0, v] | Base_body i v \<Rightarrow> [1, i, v]
                     | View_body i (s, t, k, g) \<Rightarrow> [2, i, int (length s), k, if g then 1 else 0] @ s @ t),
     cd_unpickle = \<lambda>p.
       if p ! 0 = 0 then Inr (Value_body (p ! 1)) else if p ! 0 = 1 then Inr (Base_body (p ! 1) (p ! 2))
       else Inr (View_body (p ! 1) (take (nat (p ! 2)) (drop 5 p), drop (nat (p ! 2)) (drop 5 p), p ! 3, p ! 4 = 1)),
     cd_storage = \<lambda>v. Some (v div 10, [1], [1], v mod 10, False),
     cd_view = \<lambda>base (s, t, k, g). base div 10 * 10 + k\<rparr>"

lemma results_round_trip_witness:
  "transmit digit_codec 0 [12, 15, 23] [] [] = map Inr [12, 15, 23]"
proof -
  have "cd_unpickle digit_codec (cd_pickle digit_codec b) = Inr b" for b
    by (cases b) (auto simp: digit_codec_def simp del: drop_drop split: prod.split)
  then have "codec_ok digit_codec (set [12, 15, 23])"
    by (simp add: codec_ok_def) (simp add: digit_codec_def)
  from results_round_trip [OF this] show ?thesis .
qed

section \<open>In-place batches\<close>

text \<open>
  A batch layout is the dtype, the row shape and the row's bytes of the probed NumPy array; \<open>array\<close>
  is what \<^verbatim>\<open>batch_layout\<close> asks of a value.
\<close>

type_synonym layout = "string \<times> int list \<times> int"

record array_facts =
  af_ndarray :: bool
  af_contiguous :: bool
  af_object :: bool
  af_nbytes :: int
  af_torch_ok :: bool
  af_dtype :: string
  af_shape :: "int list"

definition batch_layout :: "array_facts \<Rightarrow> layout option" where
  "batch_layout a =
    (if \<not> af_ndarray a \<or> \<not> af_contiguous a \<or> af_object a \<or> af_nbytes a = 0 then None
     else if \<not> af_torch_ok a then None
     else Some (af_dtype a, af_shape a, af_nbytes a))"

definition matches_batch_layout :: "array_facts \<Rightarrow> layout \<Rightarrow> bool" where
  "matches_batch_layout a layout =
    (case layout of (dtype, shape, row_bytes) \<Rightarrow>
      af_ndarray a \<and> af_dtype a = dtype \<and> af_shape a = shape \<and> af_nbytes a = row_bytes \<and> af_contiguous a)"

text \<open>The number of rows a raw batch slot of so many bytes holds.\<close>

definition decode_rows :: "int \<Rightarrow> layout \<Rightarrow> int res" where
  "decode_rows nbytes layout =
    (case layout of (dtype, shape, row_bytes) \<Rightarrow>
      if nbytes = 0 then Inl (RuntimeError ''Worker batch slot has an invalid byte length.'')
      else rbind (py_divmod nbytes row_bytes) (\<lambda>(rows, r).
        if r \<noteq> 0 then Inl (RuntimeError ''Worker batch slot has an invalid byte length.'') else Inr rows))"

lemma layout_matches: "batch_layout a = Some layout \<Longrightarrow> matches_batch_layout a layout"
  by (auto simp: batch_layout_def matches_batch_layout_def split: if_splits)

lemma decode_rows_batch:
  "0 < row_bytes \<Longrightarrow> 0 < n \<Longrightarrow> decode_rows (n * row_bytes) (dtype, shape, row_bytes) = Inr n"
  by (simp add: decode_rows_def py_divmod_def)

section \<open>Exceptions\<close>

text \<open>
  A detached exception is its module, qualified name, message and formatted traceback.  \<open>ec_construct\<close>
  is the class called on a message and \<open>ec_keyword\<close> the class called with \<^verbatim>\<open>message=\<close>; \<open>None\<close>
  when the call raises.  The resolver gives no class for a name that is not importable.
\<close>

type_synonym detached = "string \<times> string \<times> string \<times> string"

record exception_class =
  ec_construct :: "string \<Rightarrow> py_error option"
  ec_has_message :: bool
  ec_keyword :: "string \<Rightarrow> py_error"

definition caught_message :: "string \<Rightarrow> int \<Rightarrow> string \<Rightarrow> string" where
  "caught_message qualname worker formatted =
    ''Caught '' @ qualname @ '' in DataLoader worker process '' @ str_of_int worker @ ''.'' @ [char_of (10::nat)] @
    ''Original '' @ formatted"

definition reraise_worker_exception ::
    "(string \<Rightarrow> string \<Rightarrow> exception_class option) \<Rightarrow> (string \<Rightarrow> string \<Rightarrow> bool) \<Rightarrow> detached \<Rightarrow> int \<Rightarrow> py_error" where
  "reraise_worker_exception resolve is_key_error payload worker =
    (case payload of (mod_name, qualname, original, formatted) \<Rightarrow>
      let message = caught_message qualname worker formatted in
      (case resolve mod_name qualname of
         None \<Rightarrow> RuntimeError message
       | Some cls \<Rightarrow>
           if \<not> is_key_error mod_name qualname \<and> ec_has_message cls then ec_keyword cls message
           else (case ec_construct cls message of None \<Rightarrow> RuntimeError message | Some e \<Rightarrow> e)))"

section \<open>Evaluating commands\<close>

definition BLACK_BOX_STAGE :: int where "BLACK_BOX_STAGE = 0"
definition USER_COLLATE_STAGE :: int where "USER_COLLATE_STAGE = 1"

text \<open>
  A command as the worker receives it; \<open>dp_command\<close> is what unpickling its payload gives: epoch,
  batch ordinal, coordinates with indices, and whether the loader batches.
\<close>

type_synonym 'a collated_command = "int \<times> int \<times> (int \<times> 'a) list \<times> bool"

record 'a dispatch =
  dp_stage_plan :: int
  dp_epoch :: int
  dp_position :: int
  dp_index :: int
  dp_batch_len :: int
  dp_command :: "'a collated_command res"

text \<open>
  A result: the detached exception, a value to be encoded, or rows written into the arena with their
  byte length; then the retained cost.
\<close>

datatype 'v outcome = Raised py_error | Ready 'v | Rows "'v list" int

text \<open>A black-box command's index is an integer; a sampler's own index objects travel by it too.\<close>

definition evaluate_sample ::
    "('s, 'b, 'a, 'v) user_code \<Rightarrow> int \<Rightarrow> int \<Rightarrow> int \<Rightarrow> 'a \<Rightarrow> 'v res" where
  "evaluate_sample uc root_seed epoch position index =
    uc_getitem uc (stream_context (install_sample 0 root_seed epoch position)) index"

text \<open>
  The batch loop: position \<open>index + offset\<close> for the remaining offsets, with the values so far; the
  probe values are a stack, popped at position zero.
\<close>

fun evaluate_rows ::
    "('s, 'b, 'a, 'v) user_code \<Rightarrow> int \<Rightarrow> int \<Rightarrow> int list \<Rightarrow> ('v \<times> int) list \<Rightarrow> 'v list \<Rightarrow> int \<Rightarrow>
     ('v \<times> int) list \<times> int \<times> 'v list res" where
  "evaluate_rows uc root_seed epoch [] probe_values values retained = (probe_values, retained, Inr values)"
| "evaluate_rows uc root_seed epoch (position # positions) probe_values values retained =
    (if position = 0 \<and> probe_values \<noteq> [] then
       (case last probe_values of (v, cost) \<Rightarrow>
         evaluate_rows uc root_seed epoch positions (butlast probe_values) (values @ [v]) cost)
     else
       (case evaluate_sample uc root_seed epoch position (uc_native uc position) of
          Inl e \<Rightarrow> (probe_values, retained, Inl e)
        | Inr v \<Rightarrow> evaluate_rows uc root_seed epoch positions probe_values (values @ [v]) retained))"

definition evaluate_dispatch ::
    "('s, 'b, 'a, 'v) user_code \<Rightarrow> ('v \<Rightarrow> array_facts) \<Rightarrow> int \<Rightarrow> layout option \<Rightarrow> 'a dispatch \<Rightarrow> ('v \<times> int) list \<Rightarrow>
     ('v \<times> int) list \<times> 'v outcome \<times> int" where
  "evaluate_dispatch uc facts root_seed layout d probe_values =
    (if dp_batch_len d = 0 then
       (probe_values,
        (case evaluate_sample uc root_seed (dp_epoch d) (dp_position d) (uc_native uc (dp_index d)) of
           Inl e \<Rightarrow> Raised e
         | Inr v \<Rightarrow> Ready v), 0)
     else
       (case evaluate_rows uc root_seed (dp_epoch d) (irange (dp_index d) (dp_index d + dp_batch_len d)) probe_values [] 0 of
          (probe_values, retained, Inl e) \<Rightarrow> (probe_values, Raised e, retained)
        | (probe_values, retained, Inr values) \<Rightarrow>
            (probe_values,
             (case layout of
                Some (dtype, shape, row_bytes) \<Rightarrow>
                  if \<forall>v \<in> set values. matches_batch_layout (facts v) (dtype, shape, row_bytes)
                  then Rows values (int (length values) * row_bytes)
                  else (case uc_default_collate uc values of Inl e \<Rightarrow> Raised e | Inr batch \<Rightarrow> Ready batch)
              | None \<Rightarrow> (case uc_default_collate uc values of Inl e \<Rightarrow> Raised e | Inr batch \<Rightarrow> Ready batch)),
             retained)))"

definition evaluate_user_collate ::
    "('s, 'b, 'a, 'v) user_code \<Rightarrow> int \<Rightarrow> 'a dispatch \<Rightarrow> 'v outcome" where
  "evaluate_user_collate uc root_seed d =
    (case uc_collate_fn uc of
       None \<Rightarrow> Raised (RuntimeError ''user collation command has no callable'')
     | Some collate_fn \<Rightarrow>
         (case dp_command d of
            Inl e \<Rightarrow> Raised e
          | Inr (epoch, ordinal, entries, auto_collation) \<Rightarrow>
              (case rtraverse (\<lambda>(position, index). evaluate_sample uc root_seed epoch position index) entries of
                 Inl e \<Rightarrow> Raised e
               | Inr values \<Rightarrow>
                   (case collate_fn (stream_context (install_collate 0 root_seed epoch ordinal))
                           (if auto_collation then Values values else Single (hd values)) of
                      Inl e \<Rightarrow> Raised e
                    | Inr v \<Rightarrow> Ready v))))"

text \<open>One command of \<^verbatim>\<open>run_commands\<close>.\<close>

definition run_command ::
    "('s, 'b, 'a, 'v) user_code \<Rightarrow> ('v \<Rightarrow> array_facts) \<Rightarrow> int \<Rightarrow> layout option \<Rightarrow> py_error option \<Rightarrow> 'a dispatch \<Rightarrow>
     ('v \<times> int) list \<Rightarrow> ('v \<times> int) list \<times> 'v outcome \<times> int" where
  "run_command uc facts root_seed layout startup_error d probe_values =
    (case startup_error of
       Some e \<Rightarrow> (probe_values, Raised e, 0)
     | None \<Rightarrow>
         if dp_stage_plan d = USER_COLLATE_STAGE then (probe_values, evaluate_user_collate uc root_seed d, 0)
         else if dp_stage_plan d \<noteq> BLACK_BOX_STAGE
         then (probe_values, Raised (RuntimeError (''unknown stage plan '' @ str_of_int (dp_stage_plan d))), 0)
         else evaluate_dispatch uc facts root_seed layout d probe_values)"

text \<open>
  \<^verbatim>\<open>publish_completion\<close>: each turn is whether the endpoint took the completion and what the control
  channel then holds.  The result is whether the worker goes on, stops or fails, with whether it
  signalled; \<open>None\<close> while the endpoint never takes it.
\<close>

datatype control = Stop | Other_command
datatype publication = Published bool | Stopped | Failed py_error

fun publish_completion :: "int option \<Rightarrow> 'a dispatch \<Rightarrow> (bool \<times> control option) list \<Rightarrow> publication option" where
  "publish_completion stride d [] = None"
| "publish_completion stride d ((taken, command) # turns) =
    (if taken then
       Some (Published (dp_stage_plan d = USER_COLLATE_STAGE \<or> dp_batch_len d \<noteq> 0 \<or>
         (case stride of None \<Rightarrow> False | Some n \<Rightarrow> (dp_position d + 1) mod n = 0)))
     else
       (case command of
          None \<Rightarrow> publish_completion stride d turns
        | Some Stop \<Rightarrow> Some Stopped
        | Some Other_command \<Rightarrow> Some (Failed (RuntimeError ''worker received an invalid control command''))))"

section \<open>What a worker computes\<close>

lemma evaluate_sample_in_process: "evaluate_sample uc root_seed epoch position index = evaluate_in_process uc root_seed epoch (position, index)"
  by (simp add: evaluate_sample_def evaluate_in_process_def)

lemma evaluate_rows_plain:
  "0 \<notin> set positions \<or> probe_values = [] \<Longrightarrow>
   evaluate_rows uc root_seed epoch positions probe_values acc retained =
     (probe_values, retained,
      rmap (\<lambda>vs. acc @ vs) (rtraverse (\<lambda>p. evaluate_in_process uc root_seed epoch (p, uc_native uc p)) positions))"
proof (induction positions arbitrary: acc)
  case (Cons p ps)
  then have "\<not> (p = 0 \<and> probe_values \<noteq> [])" by auto
  with Cons show ?case
    by (cases "evaluate_in_process uc root_seed epoch (p, uc_native uc p)";
        cases "rtraverse (\<lambda>p. evaluate_in_process uc root_seed epoch (p, uc_native uc p)) ps")
      (auto simp: evaluate_sample_in_process)
qed simp

text \<open>
  The batch that starts at the dataset's first sample takes the probe value as it is: the epoch of the
  command does not enter it.
\<close>

lemma evaluate_rows_probe:
  assumes "0 < n" "last probe_values = (v, cost)" "probe_values \<noteq> []"
  shows "evaluate_rows uc root_seed epoch (irange 0 n) probe_values [] 0 =
    (butlast probe_values, cost,
     rmap (Cons v) (rtraverse (\<lambda>p. evaluate_in_process uc root_seed epoch (p, uc_native uc p)) (irange 1 n)))"
proof -
  have "irange 0 n = 0 # irange 1 n" using assms(1) by (simp add: irange_def upto_rec1)
  moreover have "evaluate_rows uc root_seed epoch (irange 1 n) (butlast probe_values) [v] cost =
    (butlast probe_values, cost,
     rmap (\<lambda>vs. [v] @ vs) (rtraverse (\<lambda>p. evaluate_in_process uc root_seed epoch (p, uc_native uc p)) (irange 1 n)))"
    by (rule evaluate_rows_plain) simp
  ultimately show ?thesis using assms by simp
qed

text \<open>
  A worker's batch command computes what the calling process computes, the default collation of its
  samples under their own streams, unless it starts at position zero and a probe value is retained:
  then the probe value takes the place of the first sample.
\<close>

theorem worker_batch_value:
  assumes "0 < dp_batch_len d" "0 \<le> dp_index d" "length probe_values \<le> 1"
  shows "fst (snd (evaluate_dispatch uc facts root_seed None d probe_values)) =
    (case rbind
       (if dp_index d = 0 \<and> probe_values \<noteq> []
        then rmap (Cons (fst (hd probe_values)))
          (rtraverse (\<lambda>p. evaluate_in_process uc root_seed (dp_epoch d) (p, uc_native uc p)) (irange 1 (dp_batch_len d)))
        else rtraverse (\<lambda>p. evaluate_in_process uc root_seed (dp_epoch d) (p, uc_native uc p))
          (irange (dp_index d) (dp_index d + dp_batch_len d)))
       (uc_default_collate uc) of
     Inl e \<Rightarrow> Raised e | Inr batch \<Rightarrow> Ready batch)"
proof (cases "dp_index d = 0 \<and> probe_values \<noteq> []")
  case True
  then obtain v cost where "probe_values = [(v, cost)]"
    using assms(3) by (cases probe_values) auto
  with True assms show ?thesis
    using evaluate_rows_probe [of "dp_batch_len d" probe_values v cost uc root_seed "dp_epoch d"]
    by (simp add: evaluate_dispatch_def rbind_def rmap_def split: sum.split)
next
  case False
  then have "evaluate_rows uc root_seed (dp_epoch d) (irange (dp_index d) (dp_index d + dp_batch_len d)) probe_values [] 0 =
     (probe_values, 0, rmap (\<lambda>vs. [] @ vs)
       (rtraverse (\<lambda>p. evaluate_in_process uc root_seed (dp_epoch d) (p, uc_native uc p)) (irange (dp_index d) (dp_index d + dp_batch_len d))))"
    using assms by (intro evaluate_rows_plain) auto
  with False assms show ?thesis
    by (auto simp: evaluate_dispatch_def rbind_def rmap_def split: sum.split)
qed

text \<open>
  Ten numbers with their epoch's stream: a probe taken in epoch zero enters the first batch of epoch
  three.
\<close>

definition epoch_code :: "(unit, unit, int, int \<times> int) user_code" where
  "epoch_code = \<lparr>uc_next = \<lambda>u. (u, Inl StopIteration), uc_next_batch = \<lambda>u. (u, Inl StopIteration),
     uc_tuple = \<lambda>_. None, uc_dumps = \<lambda>_. Inr [], uc_native = id, uc_getitem = \<lambda>(seed, key, coord) i. Inr (key, i),
     uc_collate_fn = None, uc_default_collate = \<lambda>vs. Inr (hd vs)\<rparr>"

lemma worker_batch_value_witness:
  "fst (snd (evaluate_dispatch epoch_code (\<lambda>_. undefined) 1701 None
     \<lparr>dp_stage_plan = BLACK_BOX_STAGE, dp_epoch = 3, dp_position = 0, dp_index = 0, dp_batch_len = 1,
      dp_command = Inl ZeroDivisionError\<rparr> [((key64 1701 0, 0), 5)])) = Ready (key64 1701 0, 0)"
  using worker_batch_value [of "\<lparr>dp_stage_plan = BLACK_BOX_STAGE, dp_epoch = 3, dp_position = 0, dp_index = 0,
      dp_batch_len = 1, dp_command = Inl ZeroDivisionError\<rparr>" "[((key64 1701 0, 0), 5)]" epoch_code "\<lambda>_. undefined" 1701]
  by (simp add: epoch_code_def irange_def)

section \<open>Workers as executors\<close>

text \<open>
  What the owner gets for a command: \<open>reraise\<close> is the exception it raises for a worker's; by
  \<open>results_round_trip\<close> the wire gives back a ready value.  Sampler indices travel as integers.
\<close>

definition int_code :: "('s, 'b, int, 'v) user_code \<Rightarrow> ('s, 'b, int, 'v) user_code" where
  "int_code uc = uc\<lparr>uc_native := id\<rparr>"

fun delivered_outcome :: "(py_error \<Rightarrow> py_error) \<Rightarrow> 'v outcome \<Rightarrow> 'v res" where
  "delivered_outcome reraise (Raised e) = Inl (reraise e)"
| "delivered_outcome reraise (Ready v) = Inr v"
| "delivered_outcome reraise (Rows _ _) = Inl (RuntimeError ''raw batch completion has no probed layout'')"

definition sample_command :: "int \<Rightarrow> int \<Rightarrow> int \<Rightarrow> int dispatch" where
  "sample_command epoch position index =
    \<lparr>dp_stage_plan = BLACK_BOX_STAGE, dp_epoch = epoch, dp_position = position, dp_index = index, dp_batch_len = 0,
     dp_command = Inl EOFError\<rparr>"

definition collate_command :: "int \<Rightarrow> int \<Rightarrow> (int \<times> int) list \<Rightarrow> bool \<Rightarrow> int dispatch" where
  "collate_command epoch ordinal entries auto_collation =
    \<lparr>dp_stage_plan = USER_COLLATE_STAGE, dp_epoch = 0, dp_position = ordinal, dp_index = 0, dp_batch_len = 0,
     dp_command = Inr (epoch, ordinal, entries, auto_collation)\<rparr>"

definition worker_executor ::
    "('s, 'b, int, 'v) user_code \<Rightarrow> ('v \<Rightarrow> array_facts) \<Rightarrow> int \<Rightarrow> (py_error \<Rightarrow> py_error) \<Rightarrow> (int, 'v) pool_executor" where
  "worker_executor uc facts root_seed reraise =
    \<lparr>px_prepare = Inr (),
     px_execute = \<lambda>epoch position index.
       delivered_outcome reraise
         (fst (snd (run_command (int_code uc) facts root_seed None None (sample_command epoch position index) []))),
     px_collated = map_option (\<lambda>_ epoch ordinal entries batched.
       delivered_outcome reraise
         (fst (snd (run_command (int_code uc) facts root_seed None None (collate_command epoch ordinal entries batched) []))))
       (uc_collate_fn uc),
     px_collate_batch = uc_default_collate uc\<rparr>"

lemma stage_simps [simp]: "USER_COLLATE_STAGE \<noteq> BLACK_BOX_STAGE" "BLACK_BOX_STAGE \<noteq> USER_COLLATE_STAGE"
  by (simp_all add: USER_COLLATE_STAGE_def BLACK_BOX_STAGE_def)

lemma worker_execute:
  "same_outcome (evaluate_in_process (int_code uc) root_seed epoch (position, index))
    (px_execute (worker_executor uc facts root_seed reraise) epoch position index)"
  by (cases "evaluate_in_process (int_code uc) root_seed epoch (position, index)")
    (simp_all add: worker_executor_def run_command_def sample_command_def evaluate_dispatch_def
      evaluate_sample_in_process int_code_def)

lemma worker_collated:
  assumes "uc_collate_fn (int_code uc) = Some f"
  shows "\<exists>collated. px_collated (worker_executor uc facts root_seed reraise) = Some collated \<and>
    same_outcome (collated_in_process (int_code uc) root_seed f epoch ordinal entries batched) (collated epoch ordinal entries batched)"
proof -
  have "uc_collate_fn uc = Some f" using assms by (simp add: int_code_def)
  then have c: "px_collated (worker_executor uc facts root_seed reraise) = Some (\<lambda>epoch ordinal entries batched.
      delivered_outcome reraise
        (fst (snd (run_command (int_code uc) facts root_seed None None (collate_command epoch ordinal entries batched) []))))"
    by (simp add: worker_executor_def)
  have eq: "(\<lambda>(position, index). evaluate_sample (int_code uc) root_seed epoch position index) =
      evaluate_in_process (int_code uc) root_seed epoch"
    by (auto simp: evaluate_sample_in_process)
  show ?thesis
    using assms
    by (auto simp: c run_command_def collate_command_def evaluate_user_collate_def collated_in_process_def eq rbind_def
        split: sum.split)
qed

interpretation wx: executor "int_code uc" root_seed "worker_executor uc facts root_seed reraise"
  for uc facts root_seed reraise
  by unfold_locales (rule worker_execute worker_collated | simp add: worker_executor_def int_code_def)+


text \<open>A sampler of the numbers below five; the first batch of it.\<close>

definition counting_code :: "(int, unit, int, int) user_code" where
  "counting_code = \<lparr>uc_next = count_below 5, uc_next_batch = \<lambda>i. (i, Inl StopIteration),
     uc_tuple = \<lambda>_. None, uc_dumps = \<lambda>v. Inr [v], uc_native = id, uc_getitem = \<lambda>_ i. Inr i,
     uc_collate_fn = None, uc_default_collate = \<lambda>vs. Inr (hd vs)\<rparr>"

definition counting_runtime :: "(int, int) sampler_runtime" where
  "counting_runtime = \<lparr>sa_length = None, sa_iterator = 0, sa_indices = [], sa_checksums = [0], sa_exhausted = False,
     sa_start_samples = 0\<rparr>"

lemma inprocess_next_returns:
  assumes "ld_has_sampler l" "\<not> ld_has_batch_sampler l"
  shows "\<exists>it' l' a. inprocess_next uc plan it l = Some (it', l', a)"
proof -
  have "snd (next_indices uc plan l it) \<noteq> None"
    using assms by (auto simp: next_indices_def Let_def split: option.split runtime.split prod.split sum.split)
  then show ?thesis
    by (auto simp: inprocess_next_def split: prod.splits option.splits sum.splits)
qed


end
