(* ===== verification/Pool.thy ===== *)
theory Pool
  imports Transport Worker Sizing
begin

text \<open>
  The persistent process pool (\<^verbatim>\<open>process/pool.py\<close>, \<^verbatim>\<open>recovery.py\<close> and the owner's half of
  \<^verbatim>\<open>user_collation.py\<close>): routed submission, the retained construction probe, completions, the loops
  that wait for them, worker death and recovery.  The pool's pending work mirrors the transport's
  reserved slots, so a restart always finds room to replay what the dead worker held; what it
  replays is exactly the sample commands, and a user-collation command comes back as another one.
\<close>

section \<open>State\<close>

type_synonym pending_work = "(int \<times> int, int \<times> int \<times> int \<times> int) dict"

record pool =
  pl_worker_count :: int
  pl_restart :: bool
  pl_batch_size :: "int option"
  pl_batch_layout :: "layout option"
  pl_closed :: bool
  pl_next_worker :: int
  pl_resources :: "transport option"
  pl_signals :: "int list"
  pl_probe_position :: int
  pl_probe_key :: "int \<times> int \<times> int"
  pl_probe_status :: int
  pl_probe_payload :: "int list option"
  pl_probe_cost :: int
  pl_immediate :: "(int \<times> int \<times> int \<times> int list \<times> int) list"
  pl_pending :: pending_work
  pl_bytes_sample :: int
  pl_frontier_ceiling :: int
  pl_frontier_budget_bound :: bool

section \<open>Construction\<close>

text \<open>
  What the construction derives from the probe's reply, with the optional keyword arguments as
  options: bytes per sample, the ceiling and whether the budget bound it, and the queue capacity.
\<close>

definition pool_ceiling :: "int \<Rightarrow> int option \<Rightarrow> int option \<Rightarrow> int \<Rightarrow> int option \<Rightarrow> (int \<times> bool) res" where
  "pool_ceiling bytes_sample capacity requested minimum budget =
    (case capacity of
       None \<Rightarrow>
         (case (requested, budget) of
            (Some limit, Some budget) \<Rightarrow>
              let affordable = budget div bytes_sample;
                  resolved = max minimum (min limit affordable)
              in Inr (resolved, resolved < limit)
          | _ \<Rightarrow> Inl (ValueError ''derived queue capacity requires a frontier ceiling and budget''))
     | Some _ \<Rightarrow>
         Inr (case requested of None \<Rightarrow> minimum | Some c \<Rightarrow> if c = 0 then minimum else c, False))"

definition pool_capacity :: "int option \<Rightarrow> int \<Rightarrow> int option \<Rightarrow> int \<Rightarrow> int res" where
  "pool_capacity capacity depth batch_size worker_count =
    (case capacity of
       Some c \<Rightarrow> Inr c
     | None \<Rightarrow>
         queue_capacity (case batch_size of Some b \<Rightarrow> (depth + b - 1) div b | None \<Rightarrow> depth) worker_count)"

definition new_pool ::
    "int \<Rightarrow> int \<times> int \<times> int \<Rightarrow> int option \<Rightarrow> int option \<Rightarrow> int option \<Rightarrow> int \<Rightarrow> int option \<Rightarrow> bool \<Rightarrow> int option \<Rightarrow>
     int \<times> int list \<times> layout option \<times> int \<Rightarrow> pool res" where
  "new_pool worker_count probe probe_coordinate capacity requested minimum budget restart batch_size reply =
    (case (probe, reply) of ((probe_epoch, probe_position, probe_index), (status, payload, layout, cost_ns)) \<Rightarrow>
     let batch_size = (if layout = None then None else batch_size);
         bytes_sample = max 1 (case layout of Some (_, _, row_bytes) \<Rightarrow> row_bytes | None \<Rightarrow> int (length payload))
     in rbind (pool_ceiling bytes_sample capacity requested minimum budget) (\<lambda>(depth, bound).
        rbind (pool_capacity capacity depth batch_size worker_count) (\<lambda>capacity.
        let batch_capacity = (case (batch_size, layout) of (Some b, Some (_, _, row_bytes)) \<Rightarrow> b * row_bytes + 65536 | _ \<Rightarrow> 0);
            payload_capacity = max (max 262144 (int (length payload))) batch_capacity;
            exception_capacity = max 65536 (int (length payload))
        in rbind (new_transport worker_count capacity payload_capacity exception_capacity) (\<lambda>resources.
           Inr \<lparr>pl_worker_count = worker_count, pl_restart = restart, pl_batch_size = batch_size, pl_batch_layout = layout,
                pl_closed = False, pl_next_worker = 0, pl_resources = Some resources,
                pl_signals = replicate (nat worker_count) 0, pl_probe_position = probe_position,
                pl_probe_key = (probe_epoch,
                  (case probe_coordinate of None \<Rightarrow> probe_position | Some c \<Rightarrow> c), probe_index),
                pl_probe_status = status, pl_probe_payload = Some payload, pl_probe_cost = cost_ns,
                pl_immediate = [], pl_pending = [], pl_bytes_sample = bytes_sample, pl_frontier_ceiling = depth,
                pl_frontier_budget_bound = bound\<rparr>))))"

text \<open>The processes, which closing discards.\<close>

definition worker_count :: "pool \<Rightarrow> int" where
  "worker_count p = (if pl_closed p then 0 else pl_worker_count p)"

definition retained_probe_command :: "pool \<Rightarrow> int option" where
  "retained_probe_command p =
    (if pl_probe_payload p = None then None
     else Some (case pl_batch_size p of Some b \<Rightarrow> pl_probe_position p div b | None \<Rightarrow> pl_probe_position p))"

definition has_pending :: "pool \<Rightarrow> bool" where
  "has_pending p \<longleftrightarrow> pl_pending p \<noteq> []"

section \<open>Submission\<close>

definition pool_submit ::
    "bool \<Rightarrow> int \<Rightarrow> int \<Rightarrow> int \<Rightarrow> int \<Rightarrow> int \<Rightarrow> int option \<Rightarrow> pool \<Rightarrow> pool \<times> bool res" where
  \<comment> \<open>\<^verbatim>\<open>ProcessPool.try_submit\<close>; \<open>broken\<close> says that the send fails\<close>
  "pool_submit broken epoch position index worker batch_len coord p =
    (if pl_closed p then (p, Inl (RuntimeError ''process pool is closed''))
     else
       let command_position = (case coord of None \<Rightarrow> position | Some c \<Rightarrow> c);
           key = (epoch, command_position, index)
       in if batch_len < 0 then (p, Inl (ValueError ''batch length cannot be negative''))
       else
         case (if key = pl_probe_key p \<and> batch_len = 0 then pl_probe_payload p else None) of
           Some payload \<Rightarrow>
             if worker \<noteq> 0 then (p, Inl (RuntimeError ''construction probe must retain worker zero routing''))
             else (p\<lparr>pl_immediate := pl_immediate p @ [(worker, position, pl_probe_status p, payload, pl_probe_cost p)],
                     pl_probe_payload := None\<rparr>, Inr True)
         | None \<Rightarrow>
             let p = (if key = pl_probe_key p then p\<lparr>pl_probe_payload := None\<rparr> else p) in
             (case pl_resources p of
                None \<Rightarrow> (p, Inl (AttributeError ''try_submit''))
              | Some t \<Rightarrow>
                  (case try_submit_sample broken epoch command_position index BLACK_BOX_STAGE worker batch_len t of
                     (t, Inl e) \<Rightarrow> (p\<lparr>pl_resources := Some t\<rparr>, Inl e)
                   | (t, Inr accepted) \<Rightarrow>
                       let p = p\<lparr>pl_resources := Some t\<rparr>
                       in (if accepted
                           then p\<lparr>pl_pending := dict_set (worker, command_position) (epoch, index, batch_len, position) (pl_pending p)\<rparr>
                           else p, Inr accepted))))"

text \<open>
  A user-collation batch; \<open>payload\<close> is its pickled command.
\<close>

definition pool_submit_collated ::
    "bool \<Rightarrow> int \<Rightarrow> int \<Rightarrow> nat \<Rightarrow> int list \<Rightarrow> int \<Rightarrow> pool \<Rightarrow> pool \<times> bool res" where
  "pool_submit_collated broken epoch batch_ordinal entries payload worker p =
    (if pl_closed p then (p, Inl (RuntimeError ''process pool is closed''))
     else
       (case pl_resources p of
          None \<Rightarrow> (p, Inl (AttributeError ''try_submit_command''))
        | Some t \<Rightarrow>
            (case try_submit_command broken batch_ordinal USER_COLLATE_STAGE worker payload t of
               (t, Inl e) \<Rightarrow> (p\<lparr>pl_resources := Some t\<rparr>, Inl e)
             | (t, Inr accepted) \<Rightarrow>
                 let p = p\<lparr>pl_resources := Some t\<rparr>
                 in (if accepted
                     then p\<lparr>pl_pending := dict_set (worker, batch_ordinal) (epoch, 0, int entries, batch_ordinal) (pl_pending p)\<rparr>
                     else p, Inr accepted))))"

section \<open>Completions\<close>

definition receive_completion :: "int \<Rightarrow> pool \<Rightarrow> pool \<times> (int \<times> int \<times> int list \<times> int) option res" where
  "receive_completion worker p =
    (let signalled = pl_batch_size p \<noteq> None in
     if signalled \<and> int (length (pl_signals p)) \<le> worker then (p, Inl (IndexError ''list index out of range''))
     else if signalled \<and> pl_signals p ! nat worker = 0 then (p, Inr None)
     else
       (case pl_resources p of
          None \<Rightarrow> (p, Inl (AttributeError ''try_receive''))
        | Some t \<Rightarrow>
            (case transport_receive worker t of
               (t, Inl e) \<Rightarrow> (p\<lparr>pl_resources := Some t\<rparr>, Inl e)
             | (t, Inr None) \<Rightarrow>
                 (p\<lparr>pl_resources := Some t\<rparr>,
                  if signalled then Inl (RuntimeError ''worker signaled a completion before publishing it'') else Inr None)
             | (t, Inr (Some (coord, status, payload, cost_ns))) \<Rightarrow>
                 let p = p\<lparr>pl_resources := Some t\<rparr>;
                     p = (if signalled
                          then p\<lparr>pl_signals := (pl_signals p)[nat worker := pl_signals p ! nat worker - 1]\<rparr> else p)
                 in (case dict_get (pl_pending p) (worker, coord) of
                       None \<Rightarrow> (p, Inl (RuntimeError ''worker completed an unknown command coordinate''))
                     | Some (_, _, _, position) \<Rightarrow>
                         (p\<lparr>pl_pending := dict_del (worker, coord) (pl_pending p)\<rparr>,
                          Inr (Some (position, status, payload, cost_ns)))))))"

definition pool_receive :: "int \<Rightarrow> pool \<Rightarrow> pool \<times> (int \<times> int \<times> int list \<times> int) option res" where
  \<comment> \<open>\<^verbatim>\<open>ProcessPool.try_receive\<close>\<close>
  "pool_receive worker p =
    (case pl_immediate p of
       (w, position, status, payload, cost_ns) # rest \<Rightarrow>
         if w = worker then (p\<lparr>pl_immediate := rest\<rparr>, Inr (Some (position, status, payload, cost_ns)))
         else receive_completion worker p
     | [] \<Rightarrow> receive_completion worker p)"

section \<open>Shutdown\<close>

definition release_handles :: "pool \<Rightarrow> pool" where
  "release_handles p = p\<lparr>pl_signals := [], pl_pending := [], pl_resources := None\<rparr>"

text \<open>Graceful and immediate shutdown differ in how the processes end only.\<close>

definition close_pool :: "pool \<Rightarrow> pool" where
  "close_pool p = (if pl_closed p then p else release_handles (p\<lparr>pl_closed := True\<rparr>))"

definition abort_pool :: "pool \<Rightarrow> pool" where
  "abort_pool p = (if pl_closed p then p else release_handles (p\<lparr>pl_closed := True\<rparr>))"

section \<open>Recovery\<close>

fun resubmit ::
    "(int \<Rightarrow> bool) \<Rightarrow> int \<Rightarrow> int list \<Rightarrow> pending_work \<Rightarrow> transport \<Rightarrow> transport \<times> int list res" where
  "resubmit broken worker [] pending t = (t, Inr [])"
| "resubmit broken worker (coord # coords) pending t =
    (case dict_get pending (worker, coord) of
       None \<Rightarrow> (t, Inl (KeyError ''coordinate''))
     | Some (epoch, index, batch_len, position) \<Rightarrow>
         (case try_submit_sample (broken coord) epoch coord index BLACK_BOX_STAGE worker batch_len t of
            (t, Inl e) \<Rightarrow> (t, Inl e)
          | (t, Inr False) \<Rightarrow> (t, Inl (RuntimeError ''replacement worker transport rejected recovered work''))
          | (t, Inr True) \<Rightarrow>
              (case resubmit broken worker coords pending t of (t, r) \<Rightarrow> (t, rmap (Cons position) r))))"

definition restart_worker :: "(int \<Rightarrow> bool) \<Rightarrow> int \<Rightarrow> pool \<Rightarrow> pool \<times> int list res" where
  "restart_worker broken worker p =
    (case pl_resources p of
       None \<Rightarrow> (p, Inl (AttributeError ''restart_worker''))
     | Some t \<Rightarrow>
         (case reclaim_dead_worker worker t of
            (t, Inl e) \<Rightarrow> (p\<lparr>pl_resources := Some t\<rparr>, Inl e)
          | (t, Inr coords) \<Rightarrow>
              (case resubmit broken worker (sort coords) (pl_pending p) t of
                 (t, r) \<Rightarrow>
                   (p\<lparr>pl_resources := Some t, pl_signals := (pl_signals p)[nat worker := 0]\<rparr>, r))))"

text \<open>
  \<open>alive\<close> tells which processes live, \<open>expired\<close> whether the consumer's deadline has passed.
\<close>

definition check_worker :: "(int \<Rightarrow> bool) \<Rightarrow> bool \<Rightarrow> int \<Rightarrow> pool \<Rightarrow> pool \<times> unit res" where
  "check_worker alive expired worker p =
    (if worker_count p \<le> worker then (p, Inl (IndexError ''list index out of range''))
     else if \<not> alive worker then
       (case pl_resources p of
          None \<Rightarrow> (abort_pool p, Inl (RuntimeError ''hyperloader worker exited; closed''))
        | Some t \<Rightarrow>
            if pl_restart p then
              (case restart_worker (\<lambda>_. False) worker p of
                 (p, Inl e) \<Rightarrow> (p, Inl e)
               | (p, Inr _) \<Rightarrow> (p, Inl (WorkerDied ''hyperloader worker exited; restarted after reclaiming'')))
            else
              (case reclaim_dead_worker worker t of
                 (t, Inl e) \<Rightarrow> (p\<lparr>pl_resources := Some t\<rparr>, Inl e)
               | (t, Inr _) \<Rightarrow>
                   (abort_pool (p\<lparr>pl_resources := Some t\<rparr>), Inl (RuntimeError ''hyperloader worker exited; closed''))))
     else if expired then (abort_pool p, Inl (RuntimeError ''DataLoader timed out''))
     else (p, Inr ()))"

fun check_each :: "(int \<Rightarrow> bool) \<Rightarrow> bool \<Rightarrow> int list \<Rightarrow> pool \<Rightarrow> pool \<times> unit res" where
  "check_each alive expired [] p = (p, Inr ())"
| "check_each alive expired (worker # workers) p =
    (case check_worker alive expired worker p of
       (p, Inl e) \<Rightarrow> (p, Inl e)
     | (p, Inr _) \<Rightarrow> check_each alive expired workers p)"

definition check_workers :: "(int \<Rightarrow> bool) \<Rightarrow> bool \<Rightarrow> pool \<Rightarrow> pool \<times> unit res" where
  "check_workers alive expired p = check_each alive expired (irange 0 (worker_count p)) p"

section \<open>Waiting\<close>

text \<open>
  What happens while the owner waits: which processes live, whether the deadline passes, whether the
  next send would fail, how workers move the transport on, and what each control pipe then holds.
\<close>

datatype control_message = Ready_signal | Invalid_signal | Broken_control

record world =
  wd_alive :: "int \<Rightarrow> bool"
  wd_expired :: bool
  wd_broken :: bool
  wd_progress :: "transport \<Rightarrow> transport"
  wd_controls :: "(int \<times> control_message list) list"

fun drain_control :: "world \<Rightarrow> int \<Rightarrow> control_message list \<Rightarrow> bool \<Rightarrow> pool \<Rightarrow> pool \<times> bool res" where
  "drain_control w worker [] observed p = (p, Inr observed)"
| "drain_control w worker (Ready_signal # messages) observed p =
    drain_control w worker messages True
      (if pl_batch_size p = None then p
       else p\<lparr>pl_signals := (pl_signals p)[nat worker := pl_signals p ! nat worker + 1]\<rparr>)"
| "drain_control w worker (Invalid_signal # messages) observed p =
    (p, Inl (RuntimeError ''worker returned an invalid completion signal''))"
| "drain_control w worker (Broken_control # messages) observed p =
    (case check_worker (wd_alive w) (wd_expired w) worker p of
       (p, Inl e) \<Rightarrow> (p, Inl e)
     | (p, Inr _) \<Rightarrow> (p, Inr observed))"

fun drain_controls :: "world \<Rightarrow> (int \<times> control_message list) list \<Rightarrow> bool \<Rightarrow> pool \<Rightarrow> pool \<times> bool res" where
  "drain_controls w [] observed p = (p, Inr observed)"
| "drain_controls w ((worker, messages) # controls) observed p =
    (case drain_control w worker messages observed p of
       (p, Inl e) \<Rightarrow> (p, Inl e)
     | (p, Inr observed) \<Rightarrow> drain_controls w controls observed p)"

definition progress_pool :: "world \<Rightarrow> pool \<Rightarrow> pool" where
  "progress_pool w p = p\<lparr>pl_resources := map_option (wd_progress w) (pl_resources p)\<rparr>"

definition wait_for_completion :: "world \<Rightarrow> pool \<Rightarrow> pool \<times> bool res" where
  "wait_for_completion w p = drain_controls w (wd_controls w) False (progress_pool w p)"

section \<open>One request\<close>

text \<open>
  The loops of \<^verbatim>\<open>execute\<close> consume one \<open>world\<close> per turn; \<open>None\<close> when the list ends before the loop.
\<close>

fun await_completion :: "int \<Rightarrow> int \<Rightarrow> world list \<Rightarrow> pool \<Rightarrow> (pool \<times> (int \<times> int list) res) option" where
  "await_completion worker position [] p = None"
| "await_completion worker position (w # ws) p =
    (case pool_receive worker p of
       (p, Inl e) \<Rightarrow> Some (p, Inl e)
     | (p, Inr (Some (received, status, payload, _))) \<Rightarrow>
         if received \<noteq> position
         then Some (p, Inl (RuntimeError ''process completion position does not match dispatch''))
         else Some (p, Inr (status, payload))
     | (p, Inr None) \<Rightarrow>
         (case check_worker (wd_alive w) (wd_expired w) worker p of
            (p, Inl e) \<Rightarrow> Some (p, Inl e)
          | (p, Inr _) \<Rightarrow>
              (case wait_for_completion w p of
                 (p, Inl e) \<Rightarrow> Some (p, Inl e)
               | (p, Inr _) \<Rightarrow> await_completion worker position ws p)))"

fun submit_until :: "(bool \<Rightarrow> pool \<Rightarrow> pool \<times> bool res) \<Rightarrow> int \<Rightarrow> world list \<Rightarrow> pool \<Rightarrow> (world list \<times> pool \<times> unit res) option" where
  "submit_until submit worker [] p = None"
| "submit_until submit worker (w # ws) p =
    (case submit (wd_broken w) p of
       (p, Inl e) \<Rightarrow> Some (ws, p, Inl e)
     | (p, Inr True) \<Rightarrow> Some (w # ws, p, Inr ())
     | (p, Inr False) \<Rightarrow>
         (case check_worker (wd_alive w) (wd_expired w) worker p of
            (p, Inl e) \<Rightarrow> Some (ws, p, Inl e)
          | (p, Inr _) \<Rightarrow> submit_until submit worker ws (progress_pool w p)))"

text \<open>
  The worker, status and payload of one executed sample; \<^verbatim>\<open>decode\<close> turns them into the value.
\<close>

definition pool_execute :: "int \<Rightarrow> int \<Rightarrow> int \<Rightarrow> world list \<Rightarrow> pool \<Rightarrow> (pool \<times> (int \<times> int \<times> int list) res) option" where
  "pool_execute epoch position index ws p =
    (if pl_closed p then Some (p, Inl (RuntimeError ''process pool is closed''))
     else let worker = pl_next_worker p; p = p\<lparr>pl_next_worker := (pl_next_worker p + 1) mod worker_count p\<rparr> in
     case submit_until (\<lambda>broken. pool_submit broken epoch position index worker 0 None) worker ws p of
       None \<Rightarrow> None
     | Some (ws, p, Inl e) \<Rightarrow> Some (p, Inl e)
     | Some (ws, p, Inr _) \<Rightarrow>
         (case await_completion worker position ws p of
            None \<Rightarrow> None
          | Some (p, r) \<Rightarrow> Some (p, rmap (Pair worker) r)))"

definition execute_collated :: "int \<Rightarrow> int \<Rightarrow> nat \<Rightarrow> int list \<Rightarrow> world list \<Rightarrow> pool \<Rightarrow> (pool \<times> (int \<times> int \<times> int list) res) option" where
  "execute_collated epoch batch_ordinal entries payload ws p =
    (if pl_closed p then Some (p, Inl (RuntimeError ''process pool is closed''))
     else let worker = pl_next_worker p; p = p\<lparr>pl_next_worker := (pl_next_worker p + 1) mod worker_count p\<rparr> in
     case submit_until (\<lambda>broken. pool_submit_collated broken epoch batch_ordinal entries payload worker) worker ws p of
       None \<Rightarrow> None
     | Some (ws, p, Inl e) \<Rightarrow> Some (p, Inl e)
     | Some (ws, p, Inr _) \<Rightarrow>
         (case await_completion worker batch_ordinal ws p of
            None \<Rightarrow> None
          | Some (p, r) \<Rightarrow> Some (p, rmap (Pair worker) r)))"

text \<open>The value of a completion.\<close>

definition pool_decode ::
    "'v codec \<Rightarrow> (int list \<Rightarrow> py_error) \<Rightarrow> int \<Rightarrow> int list \<Rightarrow> int \<Rightarrow> 'v decoder \<Rightarrow> 'v decoder \<times> 'v res" where
  "pool_decode cd reraise status payload worker bases =
    (if status = 0 then decode_result cd payload worker bases else (bases, Inl (reraise payload)))"

definition pool_decode_batch ::
    "'v codec \<Rightarrow> (int list \<Rightarrow> py_error) \<Rightarrow> (layout \<Rightarrow> int list \<Rightarrow> 'v res) \<Rightarrow> pool \<Rightarrow> int \<Rightarrow> int list \<Rightarrow> int \<Rightarrow> 'v decoder \<Rightarrow>
     'v decoder \<times> 'v res" where
  "pool_decode_batch cd reraise rows p status payload worker bases =
    (if status = 2 then
       (bases, case pl_batch_layout p of
          None \<Rightarrow> Inl (RuntimeError ''raw batch completion has no probed layout'')
        | Some layout \<Rightarrow> rows layout payload)
     else pool_decode cd reraise status payload worker bases)"
section \<open>Pending work mirrors reserved slots\<close>

definition pool_ok :: "pool \<Rightarrow> (int \<Rightarrow> worker_command option) \<Rightarrow> bool" where
  "pool_ok p r \<longleftrightarrow>
    (if pl_closed p then pl_resources p = None \<and> pl_pending p = []
     else 0 \<le> pl_next_worker p \<and> pl_next_worker p < pl_worker_count p \<and> length (pl_signals p) = nat (pl_worker_count p) \<and>
       dict_ok (pl_pending p) \<and>
       (\<exists>t. pl_resources p = Some t \<and> transport_ok (t, r) \<and> \<not> tr_closed t \<and> tr_worker_count t = pl_worker_count p \<and>
          dict_keys (pl_pending p) = dict_keys (tr_pending t)))"

lemma pool_okD:
  assumes "pool_ok p r" "\<not> pl_closed p"
  obtains t where "pl_resources p = Some t" "transport_ok (t, r)" "\<not> tr_closed t" "tr_worker_count t = pl_worker_count p"
    "dict_keys (pl_pending p) = dict_keys (tr_pending t)" "dict_ok (pl_pending p)"
    "0 \<le> pl_next_worker p" "pl_next_worker p < pl_worker_count p" "length (pl_signals p) = nat (pl_worker_count p)"
  using assms by (auto simp: pool_ok_def)

lemma pool_okI:
  assumes "\<not> pl_closed p" "pl_resources p = Some t" "transport_ok (t, r)" "\<not> tr_closed t" "tr_worker_count t = pl_worker_count p"
    "dict_keys (pl_pending p) = dict_keys (tr_pending t)" "dict_ok (pl_pending p)"
    "0 \<le> pl_next_worker p" "pl_next_worker p < pl_worker_count p" "length (pl_signals p) = nat (pl_worker_count p)"
  shows "pool_ok p r"
  using assms by (auto simp: pool_ok_def)

lemma new_pool_ok:
  assumes "new_pool n probe coord capacity requested minimum budget restart batch_size reply = Inr p"
  shows "pool_ok p (\<lambda>_. None)"
proof -
  have "\<exists>c pc ec t. new_transport n c pc ec = Inr t \<and> pl_resources p = Some t \<and> \<not> pl_closed p \<and> pl_next_worker p = 0 \<and>
      pl_worker_count p = n \<and> pl_pending p = [] \<and> pl_signals p = replicate (nat n) 0"
    using assms by (clarsimp simp: new_pool_def Let_def rbind_eq_Inr split: prod.splits) blast
  then obtain c pc ec t where new: "new_transport n c pc ec = Inr t"
    and p: "pl_resources p = Some t" "\<not> pl_closed p" "pl_next_worker p = 0" "pl_worker_count p = n" "pl_pending p = []"
      "pl_signals p = replicate (nat n) 0"
    by blast
  from new have "1 \<le> n" "tr_worker_count t = n" "tr_pending t = []" "\<not> tr_closed t"
    by (auto simp: new_transport_def split: if_splits)
  with new_transport_ok [OF new] p show ?thesis by (intro pool_okI) auto
qed

section \<open>A restart replays the dead worker's work\<close>

definition replayed :: "int \<Rightarrow> pending_work \<Rightarrow> int \<Rightarrow> worker_command" where
  \<comment> \<open>the command a restart sends for a coordinate, before its slot is chosen\<close>
  "replayed worker pending coord =
    (case the (dict_get pending (worker, coord)) of (epoch, index, batch_len, position) \<Rightarrow>
      \<lparr>wc_position = coord, wc_epoch = epoch, wc_index = index, wc_stage_plan = BLACK_BOX_STAGE, wc_worker = worker,
       wc_batch_len = batch_len, wc_slot = -1\<rparr>)"

definition unslotted :: "worker_command \<Rightarrow> worker_command" where
  "unslotted c = c\<lparr>wc_slot := -1\<rparr>"

lemma submit_accepts:
  assumes "\<not> tr_closed t" "0 \<le> wc_worker c" "wc_worker c < tr_worker_count t"
    and "(wc_worker c, wc_position c) \<notin> dict_keys (tr_pending t)" "tr_free t (wc_worker c) = slot # rest"
  shows "transport_submit False c None t = (submitted c None slot rest t, Inr True)"
  using assms by (simp add: transport_submit_def Let_def validate_worker_def submitted_def)

lemma submitted_simps [simp]:
  "tr_worker_count (submitted c payload slot rest t) = tr_worker_count t"
  "tr_closed (submitted c payload slot rest t) = tr_closed t"
  "tr_completion (submitted c payload slot rest t) = tr_completion t"
  "tr_queue_capacity (submitted c payload slot rest t) = tr_queue_capacity t"
  "tr_pending (submitted c payload slot rest t) = dict_set (wc_worker c, wc_position c) slot (tr_pending t)"
  "tr_free (submitted c payload slot rest t) = (tr_free t)(wc_worker c := rest)"
  "tr_dispatch (submitted c payload slot rest t) =
    (tr_dispatch t)(wc_worker c := tr_dispatch t (wc_worker c) @ [c\<lparr>wc_slot := slot\<rparr>])"
  by (simp_all add: submitted_def)

lemma resubmit_accepts:
  assumes "transport_ok (t, r)" "\<not> tr_closed t" "0 \<le> worker" "worker < tr_worker_count t"
    and "distinct coords" "length coords \<le> length (tr_free t worker)"
    and "\<And>c. c \<in> set coords \<Longrightarrow> (worker, c) \<notin> dict_keys (tr_pending t)"
    and "\<And>c. c \<in> set coords \<Longrightarrow> (worker, c) \<in> dict_keys pending"
  shows "\<exists>t'. resubmit (\<lambda>_. False) worker coords pending t =
      (t', Inr (map (\<lambda>c. snd (snd (snd (the (dict_get pending (worker, c)))))) coords)) \<and>
    transport_ok (t', r) \<and> \<not> tr_closed t' \<and> tr_worker_count t' = tr_worker_count t \<and>
    map unslotted (tr_dispatch t' worker) = map unslotted (tr_dispatch t worker) @ map (replayed worker pending) coords \<and>
    tr_completion t' = tr_completion t \<and> (\<forall>v. v \<noteq> worker \<longrightarrow> tr_dispatch t' v = tr_dispatch t v) \<and>
    dict_keys (tr_pending t') = dict_keys (tr_pending t) \<union> Pair worker ` set coords"
  using assms
proof (induction coords arbitrary: t)
  case Nil
  then show ?case by simp
next
  case (Cons c cs)
  obtain slot rest where free: "tr_free t worker = slot # rest" using Cons.prems(6) by (cases "tr_free t worker") auto
  obtain epoch index batch_len position where work: "dict_get pending (worker, c) = Some (epoch, index, batch_len, position)"
    using Cons.prems(8) dict_keys_get by (metis list.set_intros(1) prod_cases4)
  let ?c = "replayed worker pending c"
  have c: "?c = \<lparr>wc_position = c, wc_epoch = epoch, wc_index = index, wc_stage_plan = BLACK_BOX_STAGE, wc_worker = worker,
       wc_batch_len = batch_len, wc_slot = -1\<rparr>" by (simp add: replayed_def work)
  let ?u = "submitted ?c None slot rest t"
  have one: "transport_submit False ?c None t = (?u, Inr True)"
    by (rule submit_accepts) (use Cons.prems free in \<open>simp_all add: c\<close>)
  have ok: "transport_ok (?u, r)" using submit_ok [OF Cons.prems(1) one] .
  have "\<exists>t'. resubmit (\<lambda>_. False) worker cs pending ?u =
      (t', Inr (map (\<lambda>c. snd (snd (snd (the (dict_get pending (worker, c)))))) cs)) \<and>
    transport_ok (t', r) \<and> \<not> tr_closed t' \<and> tr_worker_count t' = tr_worker_count ?u \<and>
    map unslotted (tr_dispatch t' worker) = map unslotted (tr_dispatch ?u worker) @ map (replayed worker pending) cs \<and>
    tr_completion t' = tr_completion ?u \<and> (\<forall>v. v \<noteq> worker \<longrightarrow> tr_dispatch t' v = tr_dispatch ?u v) \<and>
    dict_keys (tr_pending t') = dict_keys (tr_pending ?u) \<union> Pair worker ` set cs"
    by (rule Cons.IH) (use Cons.prems ok free in \<open>auto simp: c\<close>)
  then obtain t' where t': "resubmit (\<lambda>_. False) worker cs pending ?u =
      (t', Inr (map (\<lambda>c. snd (snd (snd (the (dict_get pending (worker, c)))))) cs))"
    "transport_ok (t', r)" "\<not> tr_closed t'" "tr_worker_count t' = tr_worker_count ?u"
    "map unslotted (tr_dispatch t' worker) = map unslotted (tr_dispatch ?u worker) @ map (replayed worker pending) cs"
    "tr_completion t' = tr_completion ?u" "\<forall>v. v \<noteq> worker \<longrightarrow> tr_dispatch t' v = tr_dispatch ?u v"
    "dict_keys (tr_pending t') = dict_keys (tr_pending ?u) \<union> Pair worker ` set cs" by blast
  have "resubmit (\<lambda>_. False) worker (c # cs) pending t =
      (t', Inr (map (\<lambda>c. snd (snd (snd (the (dict_get pending (worker, c)))))) (c # cs)))"
    using one by (simp add: work try_submit_sample_def t'(1) c [symmetric])
  moreover have "map unslotted (tr_dispatch t' worker) = map unslotted (tr_dispatch t worker) @ map (replayed worker pending) (c # cs)"
    using t'(5) by (simp add: unslotted_def c)
  ultimately show ?case using t' by (auto simp: c)
qed

lemma reclaim_keys:
  assumes ok: "transport_ok (t, r)" and s: "reclaim_dead_worker w t = (t', Inr coords)"
  shows "coords = pending_positions w t" "tr_worker_count t' = tr_worker_count t" "tr_closed t' = tr_closed t"
    "dict_keys (tr_pending t') = {k \<in> dict_keys (tr_pending t). fst k \<noteq> w}" "tr_completion t' w = []" "tr_dispatch t' w = []"
    "tr_queue_capacity t' = tr_queue_capacity t"
proof -
  note form = reclaim_form [OF s]
  then show "coords = pending_positions w t" by simp
  have same: "tr_worker_count (reclaim_positions w ps t) = tr_worker_count t \<and> tr_closed (reclaim_positions w ps t) = tr_closed t" for ps
    by (induction w ps t rule: reclaim_positions.induct) (auto simp: Let_def split: option.splits)
  then show "tr_worker_count t' = tr_worker_count t" "tr_closed t' = tr_closed t" "tr_completion t' w = []" "tr_dispatch t' w = []"
    "tr_queue_capacity t' = tr_queue_capacity t"
    using form by (simp_all add: replace_channels_def reclaim_others)
  have ok': "transport_ok (t', r(w := None))" using reclaim_ok [OF ok s] .
  have "pending_positions w t' = []"
  proof -
    have "places (t', r(w := None)) w = []"
      using form by (simp add: places_def replace_channels_def)
    with slots_okD(2) [OF worker_places [OF transport_worker [OF ok', of w]]]
    have "dict_get (tr_pending t') (w, p) = None" for p by (cases "dict_get (tr_pending t') (w, p)") simp_all
    then show ?thesis using pending_positions_set [OF transport_dict [OF ok'], of w] by simp
  qed
  then have none: "(w, p) \<notin> dict_keys (tr_pending t')" for p
    using pending_positions_set [OF transport_dict [OF ok'], of w] dict_keys_get by fastforce
  have others: "(v, p) \<in> dict_keys (tr_pending t') \<longleftrightarrow> (v, p) \<in> dict_keys (tr_pending t)" if "v \<noteq> w" for v p
    using reclaim_other_workers [OF transport_dict [OF ok] that] form
    by (simp add: replace_channels_def dict_keys_dom dom_def)
  show "dict_keys (tr_pending t') = {k \<in> dict_keys (tr_pending t). fst k \<noteq> w}"
    using none others by force
qed

lemma restart_succeeds:
  assumes ok: "pool_ok p r" and opened: "\<not> pl_closed p" and w: "0 \<le> worker" "worker < pl_worker_count p"
    and t: "pl_resources p = Some t"
  shows "\<exists>t'. restart_worker (\<lambda>_. False) worker p =
      (p\<lparr>pl_resources := Some t', pl_signals := (pl_signals p)[nat worker := 0]\<rparr>,
       Inr (map (\<lambda>c. snd (snd (snd (the (dict_get (pl_pending p) (worker, c)))))) (pending_positions worker t))) \<and>
    pool_ok (p\<lparr>pl_resources := Some t', pl_signals := (pl_signals p)[nat worker := 0]\<rparr>) (r(worker := None)) \<and>
    map unslotted (tr_dispatch t' worker) = map (replayed worker (pl_pending p)) (pending_positions worker t) \<and>
    tr_completion t' worker = [] \<and> (\<forall>v. v \<noteq> worker \<longrightarrow> tr_dispatch t' v = tr_dispatch t v \<and> tr_completion t' v = tr_completion t v)"
proof -
  have tok: "transport_ok (t, r)" "\<not> tr_closed t" "tr_worker_count t = pl_worker_count p"
    and keys: "dict_keys (pl_pending p) = dict_keys (tr_pending t)" and dict: "dict_ok (pl_pending p)"
    and rest: "0 \<le> pl_next_worker p" "pl_next_worker p < pl_worker_count p" "length (pl_signals p) = nat (pl_worker_count p)"
    using pool_okD [OF ok opened] t by auto
  obtain u where u: "reclaim_dead_worker worker t = (u, Inr (pending_positions worker t))"
    using w tok(3) by (auto simp: reclaim_dead_worker_def validate_worker_def Let_def)
  note k = reclaim_keys [OF tok(1) u] and uok = reclaim_ok [OF tok(1) u]
  let ?cs = "pending_positions worker t"
  have sorted: "sort ?cs = ?cs" by (simp add: pending_positions_def sorted_sort_id)
  have mem: "c \<in> set ?cs \<longleftrightarrow> (worker, c) \<in> dict_keys (tr_pending t)" for c
    using pending_positions_set [OF transport_dict [OF tok(1)], of worker] by (auto simp: dict_keys_dom)
  have room: "length ?cs \<le> length (tr_free u worker)"
  proof -
    have "(worker, c) \<notin> dict_keys (tr_pending u)" for c using k(4) by simp
    then have "pending_positions worker u = []"
      using pending_positions_set [OF transport_dict [OF uok], of worker] by (simp add: dict_get_None [symmetric])
    then show ?thesis using slots_conserved [OF uok, of worker] slots_conserved [OF tok(1), of worker] k(7) by simp
  qed
  have "\<exists>t'. resubmit (\<lambda>_. False) worker ?cs (pl_pending p) u =
      (t', Inr (map (\<lambda>c. snd (snd (snd (the (dict_get (pl_pending p) (worker, c)))))) ?cs)) \<and>
    transport_ok (t', r(worker := None)) \<and> \<not> tr_closed t' \<and> tr_worker_count t' = tr_worker_count u \<and>
    map unslotted (tr_dispatch t' worker) = map unslotted (tr_dispatch u worker) @ map (replayed worker (pl_pending p)) ?cs \<and>
    tr_completion t' = tr_completion u \<and> (\<forall>v. v \<noteq> worker \<longrightarrow> tr_dispatch t' v = tr_dispatch u v) \<and>
    dict_keys (tr_pending t') = dict_keys (tr_pending u) \<union> Pair worker ` set ?cs"
    by (rule resubmit_accepts [OF uok])
      (use w tok k room pending_positions_distinct [OF transport_dict [OF tok(1)]] mem keys in auto)
  then obtain t' where t': "resubmit (\<lambda>_. False) worker ?cs (pl_pending p) u =
      (t', Inr (map (\<lambda>c. snd (snd (snd (the (dict_get (pl_pending p) (worker, c)))))) ?cs))"
    "transport_ok (t', r(worker := None))" "\<not> tr_closed t'" "tr_worker_count t' = tr_worker_count u"
    "map unslotted (tr_dispatch t' worker) = map unslotted (tr_dispatch u worker) @ map (replayed worker (pl_pending p)) ?cs"
    "tr_completion t' = tr_completion u" "\<And>v. v \<noteq> worker \<Longrightarrow> tr_dispatch t' v = tr_dispatch u v"
    "dict_keys (tr_pending t') = dict_keys (tr_pending u) \<union> Pair worker ` set ?cs" by blast
  have same: "dict_keys (tr_pending t') = dict_keys (pl_pending p)"
    using t'(8) k(4) mem keys by (force simp: image_iff)
  have untouched: "tr_dispatch u v = tr_dispatch t v \<and> tr_completion u v = tr_completion t v" if "v \<noteq> worker" for v
    using reclaim_form [OF u] that by (simp add: replace_channels_def reclaim_others)
  have "restart_worker (\<lambda>_. False) worker p = (p\<lparr>pl_resources := Some t', pl_signals := (pl_signals p)[nat worker := 0]\<rparr>,
      Inr (map (\<lambda>c. snd (snd (snd (the (dict_get (pl_pending p) (worker, c)))))) ?cs))"
    by (simp add: restart_worker_def t u sorted t'(1))
  moreover have "pool_ok (p\<lparr>pl_resources := Some t', pl_signals := (pl_signals p)[nat worker := 0]\<rparr>) (r(worker := None))"
    by (rule pool_okI [where t = t']) (simp_all add: opened t'(2-4) k tok same dict rest)
  ultimately show ?thesis using t' k untouched by (intro exI [of _ t']) simp
qed

section \<open>Every operation keeps the mirror\<close>

text \<open>A submission is accepted, or leaves the transport's slots and queues as they are.\<close>

lemma submit_cases:
  assumes s: "transport_submit False c payload t = (t', x)"
    and size: "\<forall>p. payload = Some p \<longrightarrow> int (length p) \<le> tr_payload_capacity t"
  shows "x = Inr True \<or> x \<noteq> Inr True \<and> t' = t"
proof (cases "tr_free t (wc_worker c)")
  case Nil
  with s show ?thesis by (auto simp: transport_submit_def Let_def split: if_splits sum.splits)
next
  case (Cons slot rest)
  show ?thesis
  proof (cases payload)
    case None
    with s Cons show ?thesis by (auto simp: transport_submit_def Let_def split: if_splits sum.splits)
  next
    case (Some p)
    with size have "int (length p) \<le> tr_payload_capacity t" by simp
    with s Cons Some show ?thesis
      by (auto simp: transport_submit_def Let_def arena_write_def slot_capacity_def split: if_splits sum.splits)
  qed
qed

lemma submitted_mirror:
  assumes ok: "pool_ok p r" and opened: "\<not> pl_closed p" and t: "pl_resources p = Some t"
    and s: "transport_submit False c payload t = (t', Inr True)"
  shows "pool_ok (p\<lparr>pl_resources := Some t', pl_pending := dict_set (wc_worker c, wc_position c) work (pl_pending p)\<rparr>) r"
proof -
  from submit_form [OF s] obtain slot rest where t': "t' = submitted c payload slot rest t" by blast
  have tok: "transport_ok (t, r)" "\<not> tr_closed t" "tr_worker_count t = pl_worker_count p"
    and keys: "dict_keys (pl_pending p) = dict_keys (tr_pending t)" "dict_ok (pl_pending p)"
    and rest: "0 \<le> pl_next_worker p" "pl_next_worker p < pl_worker_count p" "length (pl_signals p) = nat (pl_worker_count p)"
    using pool_okD [OF ok opened] t by auto
  show ?thesis
    by (rule pool_okI [where t = t'])
      (simp_all add: opened submit_ok [OF tok(1) s, unfolded t'] t' tok(2,3) keys rest)
qed

lemma pool_ok_resources:
  "pool_ok p r \<Longrightarrow> pl_resources p = Some t \<Longrightarrow> pool_ok (p\<lparr>pl_resources := Some t\<rparr>) r"
  by (simp add: pool_ok_def split: if_splits)

lemma pool_ok_simps [simp]:
  "pool_ok (p\<lparr>pl_immediate := i\<rparr>) r = pool_ok p r"
  "pool_ok (p\<lparr>pl_probe_payload := x\<rparr>) r = pool_ok p r"
  by (simp_all add: pool_ok_def)

lemma pool_submit_collated_ok:
  assumes ok: "pool_ok p r" and s: "pool_submit_collated False epoch ordinal n payload worker p = (p', x)"
  shows "pool_ok p' r"
proof (cases "pl_closed p")
  case True
  with assms show ?thesis by (simp add: pool_submit_collated_def)
next
  case opened: False
  from pool_okD [OF ok opened] obtain t where t: "pl_resources p = Some t" by blast
  note same = pool_ok_resources [OF ok t]
  show ?thesis
  proof (cases "payload = [] \<or> tr_payload_capacity t < int (length payload)")
    case True
    then obtain e where "try_submit_command False ordinal USER_COLLATE_STAGE worker payload t = (t, Inl e)"
      unfolding try_submit_command_def by (cases "payload = []") simp_all
    with s same show ?thesis by (simp add: pool_submit_collated_def opened t)
  next
    case False
    let ?c = "\<lparr>wc_position = ordinal, wc_epoch = 0, wc_index = int (length payload), wc_stage_plan = USER_COLLATE_STAGE,
        wc_worker = worker, wc_batch_len = 0, wc_slot = -1\<rparr>"
    obtain t' y where y: "transport_submit False ?c (Some payload) t = (t', y)" by fastforce
    have tried: "try_submit_command False ordinal USER_COLLATE_STAGE worker payload t = (t', y)"
      using y False by (simp add: try_submit_command_def)
    show ?thesis
    proof (cases "y = Inr True")
      case True
      with s tried submitted_mirror [OF ok opened t y [unfolded True], of "(epoch, 0, int n, ordinal)"] show ?thesis
        by (auto simp: pool_submit_collated_def opened t)
    next
      case no: False
      have "t' = t" using submit_cases [OF y] no False by auto
      with s tried same no show ?thesis
        by (cases y) (auto simp: pool_submit_collated_def opened t)
    qed
  qed
qed

text \<open>The path of \<^verbatim>\<open>try_submit\<close> that reaches the transport.\<close>

definition sample_work :: "int \<Rightarrow> int \<Rightarrow> int \<Rightarrow> int \<Rightarrow> int \<Rightarrow> int \<Rightarrow> worker_command" where
  "sample_work epoch coord index worker batch_len slot =
    \<lparr>wc_position = coord, wc_epoch = epoch, wc_index = index, wc_stage_plan = BLACK_BOX_STAGE, wc_worker = worker,
     wc_batch_len = batch_len, wc_slot = slot\<rparr>"

lemma pool_submit_transport:
  assumes "\<not> pl_closed p" "0 \<le> batch_len" "pl_resources p = Some t"
    and "(if (epoch, c, index) = pl_probe_key p \<and> batch_len = 0 then pl_probe_payload p else None) = None"
    and "c = (case coord of None \<Rightarrow> position | Some c \<Rightarrow> c)"
    and "transport_submit broken (sample_work epoch c index worker batch_len (-1)) None t = (t', y)"
    and "q = (if (epoch, c, index) = pl_probe_key p then p\<lparr>pl_probe_payload := None\<rparr> else p)"
  shows "pool_submit broken epoch position index worker batch_len coord p =
    (if y = Inr True
     then q\<lparr>pl_resources := Some t', pl_pending := dict_set (worker, c) (epoch, index, batch_len, position) (pl_pending q)\<rparr>
     else q\<lparr>pl_resources := Some t'\<rparr>, y)"
proof -
  have "try_submit_sample broken epoch c index BLACK_BOX_STAGE worker batch_len t = (t', y)"
    using assms(6) by (simp add: try_submit_sample_def sample_work_def)
  then show ?thesis
    using assms(1-5,7) unfolding pool_submit_def Let_def assms(5) [symmetric]
    by (cases y) (simp_all del: split_paired_Ex)
qed

lemma pool_submit_ok:
  assumes ok: "pool_ok p r" and s: "pool_submit False epoch position index worker batch_len coord p = (p', x)"
  shows "pool_ok p' r"
proof (cases "pl_closed p \<or> batch_len < 0")
  case True
  with assms show ?thesis by (simp add: pool_submit_def Let_def split: if_splits)
next
  case False
  obtain c where c: "c = (case coord of None \<Rightarrow> position | Some c \<Rightarrow> c)" by blast
  let ?key = "(epoch, c, index)"
  define q where "q = (if ?key = pl_probe_key p then p\<lparr>pl_probe_payload := None\<rparr> else p)"
  have qok: "pool_ok q r" and opened: "\<not> pl_closed q" using ok False by (simp_all add: q_def)
  show ?thesis
  proof (cases "if ?key = pl_probe_key p \<and> batch_len = 0 then pl_probe_payload p else None")
    case (Some payload)
    then have key: "?key = pl_probe_key p" "batch_len = 0" "pl_probe_payload p = Some payload" by (simp_all split: if_splits)
    show ?thesis
      using s key False ok by (simp add: pool_submit_def Let_def c [symmetric] split: if_splits) (metis pool_ok_simps)?
  next
    case None
    from pool_okD [OF qok opened] obtain t where t: "pl_resources q = Some t" by blast
    then have pt: "pl_resources p = Some t" by (simp add: q_def split: if_splits)
    obtain t' y where y: "transport_submit False (sample_work epoch c index worker batch_len (-1)) None t = (t', y)" by fastforce
    note form = pool_submit_transport [OF _ _ pt None c y q_def]
    have p': "p' = (if y = Inr True
        then q\<lparr>pl_resources := Some t', pl_pending := dict_set (worker, c) (epoch, index, batch_len, position) (pl_pending q)\<rparr>
        else q\<lparr>pl_resources := Some t'\<rparr>)"
      using s form False by simp
    show ?thesis
    proof (cases "y = Inr True")
      case True
      from submitted_mirror [OF qok opened t y [unfolded True], of "(epoch, index, batch_len, position)"]
      show ?thesis using True by (simp add: p' sample_work_def)
    next
      case no: False
      then have "t' = t" using submit_cases [OF y] by auto
      with no pool_ok_resources [OF qok t] show ?thesis by (simp add: p')
    qed
  qed
qed

lemma receive_known:
  assumes ok: "transport_ok (t, r)" and w: "0 \<le> w" "w < tr_worker_count t"
  shows "\<exists>t' x. transport_receive w t = (t', Inr x) \<and> (x = None \<longrightarrow> t' = t) \<and>
    (\<forall>c y. x = Some (c, y) \<longrightarrow> (w, c) \<in> dict_keys (tr_pending t))"
proof (cases "tr_completion t w")
  case Nil
  with w show ?thesis by (simp add: transport_receive_def validate_worker_def)
next
  case (Cons m rest)
  obtain p st n cost slot where m: "m = (p, st, n, cost, slot)" by (cases m)
  have "(p, slot) \<in> set (places (t, r) w)" using Cons m by (force simp: places_def message_place_def)
  then have pending: "dict_get (tr_pending t) (w, p) = Some slot"
    using slots_okD(2) [OF worker_places [OF transport_worker [OF ok, of w]]] by simp
  have "0 \<le> n" "st = 1 \<longrightarrow> n \<le> tr_exception_capacity t" "st \<noteq> 1 \<longrightarrow> n \<le> tr_payload_capacity t"
    using worker_okD(3) [OF transport_worker [OF ok, of w], of m] Cons m
    by (simp_all add: message_fits_def slot_capacity_def split: if_splits)
  with w Cons m pending show ?thesis
    by (simp add: transport_receive_def validate_worker_def Let_def arena_read_def slot_capacity_def dict_get_keys [OF pending])
qed

lemma pool_ok_completed:
  assumes ok: "pool_ok p r" and opened: "\<not> pl_closed p" and t: "pl_resources p = Some t"
    and s: "transport_receive worker t = (t', Inr (Some (c, y)))" and signals: "length signals = length (pl_signals p)"
  shows "pool_ok (p\<lparr>pl_resources := Some t', pl_signals := signals, pl_pending := dict_del (worker, c) (pl_pending p)\<rparr>) r"
proof -
  have tok: "transport_ok (t, r)" "\<not> tr_closed t" "tr_worker_count t = pl_worker_count p"
    and keys: "dict_keys (pl_pending p) = dict_keys (tr_pending t)" "dict_ok (pl_pending p)"
    and rest: "0 \<le> pl_next_worker p" "pl_next_worker p < pl_worker_count p" "length (pl_signals p) = nat (pl_worker_count p)"
    using pool_okD [OF ok opened] t by auto
  from receive_form [OF s] obtain st n cost slot ms where m: "tr_completion t worker = (c, st, n, cost, slot) # ms"
    and t': "t' = t\<lparr>tr_completion := (tr_completion t)(worker := ms), tr_pending := dict_del (worker, c) (tr_pending t),
           tr_free := (tr_free t)(worker := tr_free t worker @ [slot])\<rparr>"
    by (auto simp: message_result_def)
  show ?thesis
    by (rule pool_okI [where t = t'])
      (simp_all add: opened receive_ok [OF tok(1) s, unfolded t'] t' tok(2,3) keys rest signals)
qed

lemma receive_completion_ok:
  assumes ok: "pool_ok p r" and opened: "\<not> pl_closed p" and w: "0 \<le> worker" "worker < pl_worker_count p"
    and s: "receive_completion worker p = (p', x)"
  shows "pool_ok p' r \<and> (pl_batch_size p = None \<longrightarrow> (\<exists>y. x = Inr y))"
proof -
  from pool_okD [OF ok opened] obtain t where t: "pl_resources p = Some t" "transport_ok (t, r)"
    "tr_worker_count t = pl_worker_count p" "dict_keys (pl_pending p) = dict_keys (tr_pending t)"
    "length (pl_signals p) = nat (pl_worker_count p)" by blast
  from receive_known [OF t(2) w(1)] w(2) t(3) obtain t' y where y: "transport_receive worker t = (t', Inr y)"
    "y = None \<longrightarrow> t' = t" "\<forall>c z. y = Some (c, z) \<longrightarrow> (worker, c) \<in> dict_keys (tr_pending t)" by auto
  show ?thesis
  proof (cases "pl_batch_size p \<noteq> None \<and> (int (length (pl_signals p)) \<le> worker \<or> pl_signals p ! nat worker = 0)")
    case True
    with s ok show ?thesis by (auto simp: receive_completion_def Let_def split: if_splits)
  next
    case False
    show ?thesis
    proof (cases y)
      case None
      with s False y t ok show ?thesis
        by (auto simp: receive_completion_def Let_def pool_ok_resources split: if_splits)
    next
      case (Some z)
      obtain c st payload cost where z: "z = (c, st, payload, cost)" by (cases z)
      from y(3) Some z t(4) have "(worker, c) \<in> dict_keys (pl_pending p)" by simp
      then obtain a where a: "dict_get (pl_pending p) (worker, c) = Some a" using dict_keys_get by metis
      obtain epoch index batch_len position where a4: "a = (epoch, index, batch_len, position)" by (cases a)
      let ?signals = "if pl_batch_size p = None then pl_signals p
        else (pl_signals p)[nat worker := pl_signals p ! nat worker - 1]"
      have "p' = p\<lparr>pl_resources := Some t', pl_signals := ?signals, pl_pending := dict_del (worker, c) (pl_pending p)\<rparr> \<and>
          x = Inr (Some (position, st, payload, cost))"
        using s False t(1) y(1) Some z a a4 by (auto simp: receive_completion_def Let_def)
      moreover have "pool_ok (p\<lparr>pl_resources := Some t', pl_signals := ?signals,
          pl_pending := dict_del (worker, c) (pl_pending p)\<rparr>) r"
        by (rule pool_ok_completed [OF ok opened t(1)]) (use y(1) Some z in auto)
      ultimately show ?thesis by simp
    qed
  qed
qed

lemma pool_receive_ok:
  assumes ok: "pool_ok p r" and opened: "\<not> pl_closed p" and w: "0 \<le> worker" "worker < pl_worker_count p"
    and s: "pool_receive worker p = (p', x)"
  shows "pool_ok p' r \<and> (pl_batch_size p = None \<longrightarrow> (\<exists>y. x = Inr y))"
proof (cases "\<exists>position status payload cost rest. pl_immediate p = (worker, position, status, payload, cost) # rest")
  case True
  with s ok show ?thesis by (auto simp: pool_receive_def)
next
  case False
  then have "pool_receive worker p = receive_completion worker p"
    by (auto simp: pool_receive_def split: list.splits)
  with receive_completion_ok [OF ok opened w] s show ?thesis by metis
qed

section \<open>Runs of the pool\<close>

text \<open>
  The owner's operations interleaved with the workers', who take commands and answer them; a restart
  happens after the worker died.
\<close>

inductive pool_step :: "pool \<times> (int \<Rightarrow> worker_command option) \<Rightarrow> pool \<times> (int \<Rightarrow> worker_command option) \<Rightarrow> bool" where
  submit: "pool_submit False epoch position index worker batch_len coord p = (p', x) \<Longrightarrow> pool_step (p, r) (p', r)"
| collated: "pool_submit_collated False epoch ordinal n payload worker p = (p', x) \<Longrightarrow> pool_step (p, r) (p', r)"
| receive: "0 \<le> worker \<Longrightarrow> worker < worker_count p \<Longrightarrow> pool_receive worker p = (p', x) \<Longrightarrow> pool_step (p, r) (p', r)"
| take: "pl_resources p = Some t \<Longrightarrow> transport_step (t, r) (Taken worker c) (t', r') \<Longrightarrow>
    pool_step (p, r) (p\<lparr>pl_resources := Some t'\<rparr>, r')"
| answer: "pl_resources p = Some t \<Longrightarrow> transport_step (t, r) (Answered worker y) (t', r') \<Longrightarrow>
    pool_step (p, r) (p\<lparr>pl_resources := Some t'\<rparr>, r')"
| signal: "length signals = length (pl_signals p) \<Longrightarrow> pool_step (p, r) (p\<lparr>pl_signals := signals\<rparr>, r)"
| restart: "0 \<le> worker \<Longrightarrow> worker < worker_count p \<Longrightarrow> restart_worker (\<lambda>_. False) worker p = (p', x) \<Longrightarrow>
    pool_step (p, r) (p', r(worker := None))"
| close: "pool_step (p, r) (close_pool p, r)"
| abort: "pool_step (p, r) (abort_pool p, r)"

lemma worker_step_same:
  assumes "transport_step (t, r) e (t', r')" and "(\<exists>w c. e = Taken w c) \<or> (\<exists>w y. e = Answered w y)"
  shows "tr_pending t' = tr_pending t \<and> tr_closed t' = tr_closed t \<and> tr_worker_count t' = tr_worker_count t"
  using assms(1)
proof (cases rule: transport_step.cases)
  case (take w c)
  then show ?thesis by (auto simp: worker_receive_def split: list.splits)
next
  case (answer w c exception payload cost)
  then show ?thesis using answer_form [of exception c payload cost t t'] by (auto simp: answered_def)
next
  case (rows w c data u cost)
  then show ?thesis using rows_form [of c data t u cost t'] by (auto simp: answered_def)
qed (use assms(2) in auto)

lemma pool_ok_worker_step:
  assumes ok: "pool_ok p r" and t: "pl_resources p = Some t" and s: "transport_step (t, r) e (t', r')"
    and e: "(\<exists>w c. e = Taken w c) \<or> (\<exists>w y. e = Answered w y)"
  shows "pool_ok (p\<lparr>pl_resources := Some t'\<rparr>) r'"
proof -
  have opened: "\<not> pl_closed p" using ok t by (simp add: pool_ok_def split: if_splits)
  have tok: "transport_ok (t, r)" "\<not> tr_closed t" "tr_worker_count t = pl_worker_count p"
    and keys: "dict_keys (pl_pending p) = dict_keys (tr_pending t)" "dict_ok (pl_pending p)"
    and rest: "0 \<le> pl_next_worker p" "pl_next_worker p < pl_worker_count p" "length (pl_signals p) = nat (pl_worker_count p)"
    using pool_okD [OF ok opened] t by auto
  have "transport_ok (t', r')" using step_refines [OF s] tok(1) by simp
  then show ?thesis
    by (intro pool_okI [where t = t']) (use worker_step_same [OF s e] in \<open>simp_all add: opened tok(2,3) keys rest\<close>)
qed

lemma pool_ok_signals: "length signals = length (pl_signals p) \<Longrightarrow> pool_ok p r \<Longrightarrow> pool_ok (p\<lparr>pl_signals := signals\<rparr>) r"
  by (auto simp: pool_ok_def split: if_splits)

lemma pool_ok_closed: "pool_ok p r \<Longrightarrow> pool_ok (close_pool p) r'" "pool_ok p r \<Longrightarrow> pool_ok (abort_pool p) r'"
  by (auto simp: pool_ok_def close_pool_def abort_pool_def release_handles_def)

lemma pool_step_ok:
  assumes "pool_step (p, r) (p', r')" and ok: "pool_ok p r"
  shows "pool_ok p' r'"
  using assms(1)
proof (cases rule: pool_step.cases)
  case (submit epoch position index worker batch_len coord x)
  with ok show ?thesis by (auto intro: pool_submit_ok)
next
  case (collated epoch ordinal n payload worker x)
  with ok show ?thesis by (auto intro: pool_submit_collated_ok)
next
  case (receive worker x)
  then show ?thesis using pool_receive_ok [OF ok] by (auto simp: worker_count_def split: if_splits)
next
  case (take t worker c t')
  with ok show ?thesis by (auto intro: pool_ok_worker_step)
next
  case (answer t worker y t')
  then show ?thesis using pool_ok_worker_step [OF ok answer(2,3)] by blast
next
  case (signal signals)
  with ok show ?thesis by (auto intro: pool_ok_signals)
next
  case (restart worker x)
  then have opened: "\<not> pl_closed p" "worker < pl_worker_count p" by (simp_all add: worker_count_def split: if_splits)
  from pool_okD [OF ok opened(1)] obtain t where "pl_resources p = Some t" by blast
  from restart_succeeds [OF ok opened(1) restart(2) opened(2) this] restart show ?thesis by auto
next
  case close
  with ok show ?thesis by (auto intro: pool_ok_closed)
next
  case abort
  with ok show ?thesis by (auto intro: pool_ok_closed)
qed

lemma pool_run_ok: "pool_step\<^sup>*\<^sup>* s s' \<Longrightarrow> pool_ok (fst s) (snd s) \<Longrightarrow> pool_ok (fst s') (snd s')"
  by (induction rule: rtranclp_induct) (auto dest: pool_step_ok)


text \<open>A pool of one worker with two slots per queue, whose probe was the sample at position zero.\<close>

definition sample_pool :: pool where
  "sample_pool =
    (let t = \<lparr>tr_worker_count = 1, tr_queue_capacity = 2, tr_payload_capacity = 262144, tr_exception_capacity = 65536,
         tr_dispatch = (\<lambda>_. []), tr_completion = (\<lambda>_. []), tr_free = (\<lambda>_. [0, 1]), tr_pending = [],
         tr_arena = (\<lambda>_. 0), tr_closed = False\<rparr>
     in \<lparr>pl_worker_count = 1, pl_restart = True, pl_batch_size = None, pl_batch_layout = None, pl_closed = False,
         pl_next_worker = 0, pl_resources = Some t, pl_signals = [0], pl_probe_position = 0, pl_probe_key = (0, 0, 0),
         pl_probe_status = 0, pl_probe_payload = Some [1], pl_probe_cost = 9, pl_immediate = [], pl_pending = [],
         pl_bytes_sample = 1, pl_frontier_ceiling = 1, pl_frontier_budget_bound = False\<rparr>)"

lemma sample_pool_new:
  "new_pool 1 (0, 0, 0) None (Some 2) None 1 None True None (0, [1], None, 9) = Inr sample_pool"
  by (simp add: new_pool_def pool_ceiling_def pool_capacity_def new_transport_def sample_pool_def Let_def irange_two)

lemma sample_pool_ok: "pool_ok sample_pool (\<lambda>_. None)"
  using new_pool_ok [OF sample_pool_new] .

definition busy_pool :: pool where
  "busy_pool = fst (pool_submit False 0 5 8 0 0 None sample_pool)"

lemma busy_pool_step: "pool_step (sample_pool, \<lambda>_. None) (busy_pool, \<lambda>_. None)"
  by (rule pool_step.submit [of 0 5 8 0 0 None sample_pool busy_pool "snd (pool_submit False 0 5 8 0 0 None sample_pool)"])
    (simp add: busy_pool_def)

lemma busy_pool_facts: "worker_count busy_pool = 1" "pl_batch_size busy_pool = None" "\<not> pl_closed busy_pool"
  by (simp_all add: busy_pool_def worker_count_def sample_pool_def pool_submit_def try_submit_sample_def transport_submit_def
      validate_worker_def Let_def)


section \<open>What a restart replays\<close>

text \<open>
  C22: After a worker died and was replaced, its queue holds, in the order of their coordinates, one
  sample command for each entry that was pending for it, with the entry's epoch, index and batch
  length; the other workers' queues are as they were.
\<close>

theorem restart_replays_pending:
  assumes "pool_ok p r" and "\<not> pl_closed p" and "0 \<le> worker" "worker < pl_worker_count p" and "pl_resources p = Some t"
  shows "\<exists>p' t'. restart_worker (\<lambda>_. False) worker p =
      (p', Inr (map (\<lambda>c. snd (snd (snd (the (dict_get (pl_pending p) (worker, c)))))) (pending_positions worker t))) \<and>
    pl_resources p' = Some t' \<and> pl_pending p' = pl_pending p \<and>
    map unslotted (tr_dispatch t' worker) = map (replayed worker (pl_pending p)) (pending_positions worker t) \<and>
    tr_completion t' worker = [] \<and> (\<forall>v. v \<noteq> worker \<longrightarrow> tr_dispatch t' v = tr_dispatch t v \<and> tr_completion t' v = tr_completion t v)"
proof -
  from restart_succeeds [OF assms] obtain t' where t':
    "restart_worker (\<lambda>_. False) worker p =
      (p\<lparr>pl_resources := Some t', pl_signals := (pl_signals p)[nat worker := 0]\<rparr>,
       Inr (map (\<lambda>c. snd (snd (snd (the (dict_get (pl_pending p) (worker, c)))))) (pending_positions worker t)))"
    "map unslotted (tr_dispatch t' worker) = map (replayed worker (pl_pending p)) (pending_positions worker t)"
    "tr_completion t' worker = []"
    "\<forall>v. v \<noteq> worker \<longrightarrow> tr_dispatch t' v = tr_dispatch t v \<and> tr_completion t' v = tr_completion t v" by blast
  from t'(2-4) show ?thesis
    by (intro exI [of _ "p\<lparr>pl_resources := Some t', pl_signals := (pl_signals p)[nat worker := 0]\<rparr>"] exI [of _ t'])
      (simp add: t'(1))
qed

lemma busy_pool_transport:
  "\<exists>t. pl_resources busy_pool = Some t \<and> pending_positions 0 t = [5] \<and> pl_worker_count busy_pool = 1 \<and>
     pl_pending busy_pool = [((0, 5), (0, 8, 0, 5))]"
  by (simp add: busy_pool_def sample_pool_def pool_submit_def try_submit_sample_def transport_submit_def
      validate_worker_def Let_def pending_positions_def)

theorem restart_replays_pending_witness:
  "\<exists>p' t'. restart_worker (\<lambda>_. False) 0 busy_pool = (p', Inr [5]) \<and> pl_resources p' = Some t' \<and>
     map unslotted (tr_dispatch t' 0) =
       [\<lparr>wc_position = 5, wc_epoch = 0, wc_index = 8, wc_stage_plan = 0, wc_worker = 0, wc_batch_len = 0, wc_slot = -1\<rparr>]"
proof -
  from busy_pool_transport obtain t where t: "pl_resources busy_pool = Some t" "pending_positions 0 t = [5]"
    "pl_worker_count busy_pool = 1" "pl_pending busy_pool = [((0, 5), (0, 8, 0, 5))]" by blast
  have "pool_ok busy_pool (\<lambda>_. None)" using pool_step_ok [OF busy_pool_step sample_pool_ok] .
  from restart_replays_pending [OF this busy_pool_facts(3) _ _ t(1), of 0] t show ?thesis
    by (auto simp: replayed_def BLACK_BOX_STAGE_def)
qed

text \<open>A command as the worker that takes it sees it.\<close>

definition dispatch_of :: "(int list \<Rightarrow> 'a collated_command res) \<Rightarrow> transport \<Rightarrow> worker_command \<Rightarrow> 'a dispatch" where
  "dispatch_of unpickle t c =
    \<lparr>dp_stage_plan = wc_stage_plan c, dp_epoch = wc_epoch c, dp_position = wc_position c, dp_index = wc_index c,
     dp_batch_len = wc_batch_len c, dp_command = rbind (read_command c t) unpickle\<rparr>"

lemma replayed_collation_value:
  assumes c: "unslotted c = \<lparr>wc_position = ordinal, wc_epoch = epoch, wc_index = 0, wc_stage_plan = BLACK_BOX_STAGE,
      wc_worker = worker, wc_batch_len = int n, wc_slot = -1\<rparr>" and n: "0 < n"
  shows "run_command uc facts root_seed None None (dispatch_of unpickle t c) [] =
    ([], case rbind (rtraverse (\<lambda>i. evaluate_in_process uc root_seed epoch (i, uc_native uc i)) (irange 0 (int n)))
           (uc_default_collate uc) of Inl e \<Rightarrow> Raised e | Inr batch \<Rightarrow> Ready batch, 0)"
proof -
  have "wc_stage_plan c = BLACK_BOX_STAGE" "wc_epoch c = epoch" "wc_index c = 0" "wc_batch_len c = int n"
    using c by (cases c; simp add: unslotted_def)+
  then show ?thesis
    using n by (simp add: run_command_def dispatch_of_def evaluate_dispatch_def evaluate_rows_plain rbind_def rmap_def
        split: sum.split)
qed

lemma distinct_set_singleton: "set xs = {x} \<Longrightarrow> distinct xs \<Longrightarrow> xs = [x]"
  by (cases xs; cases "tl xs") auto

lemma collation_accepted:
  assumes s: "pool_submit_collated False epoch ordinal n payload worker p = (q, Inr True)" and t: "pl_resources p = Some t"
  shows "\<exists>u. pl_resources q = Some u \<and> dict_keys (tr_pending u) = insert (worker, ordinal) (dict_keys (tr_pending t)) \<and>
    pl_pending q = dict_set (worker, ordinal) (epoch, 0, int n, ordinal) (pl_pending p) \<and> \<not> pl_closed q \<and>
    pl_worker_count q = pl_worker_count p"
proof -
  let ?c = "\<lparr>wc_position = ordinal, wc_epoch = 0, wc_index = int (length payload), wc_stage_plan = USER_COLLATE_STAGE,
        wc_worker = worker, wc_batch_len = 0, wc_slot = -1\<rparr>"
  obtain u y where y: "try_submit_command False ordinal USER_COLLATE_STAGE worker payload t = (u, y)" by fastforce
  with s t have opened: "\<not> pl_closed p" and acc: "y = Inr True" and
    q: "q = p\<lparr>pl_resources := Some u, pl_pending := dict_set (worker, ordinal) (epoch, 0, int n, ordinal) (pl_pending p)\<rparr>"
    by (auto simp: pool_submit_collated_def Let_def split: if_splits sum.splits)
  have "transport_submit False ?c (Some payload) t = (u, Inr True)"
    using y acc by (simp add: try_submit_command_def split: if_splits)
  from submit_form [OF this] have "dict_keys (tr_pending u) = insert (worker, ordinal) (dict_keys (tr_pending t))" by auto
  with opened q show ?thesis by simp
qed

text \<open>
  C23: A user-collation batch that a dead worker held does not survive the restart: the replacement
  computes the default collation of the first samples of the dataset, as many as the batch has, instead
  of the user's function on the batch's own samples.
\<close>

theorem restart_replaces_collation:
  assumes ok: "pool_ok p r" and "\<not> pl_closed p" and w: "0 \<le> worker" "worker < pl_worker_count p"
    and t: "pl_resources p = Some t" and idle: "pending_positions worker t = []"
    and s: "pool_submit_collated False epoch ordinal n payload worker p = (q, Inr True)" and n: "0 < n"
  shows "\<exists>q' u c. restart_worker (\<lambda>_. False) worker q = (q', Inr [ordinal]) \<and> pl_resources q' = Some u \<and>
    tr_dispatch u worker = [c] \<and>
    run_command uc facts root_seed None None (dispatch_of unpickle u c) [] =
      ([], case rbind (rtraverse (\<lambda>i. evaluate_in_process uc root_seed epoch (i, uc_native uc i)) (irange 0 (int n)))
             (uc_default_collate uc) of Inl e \<Rightarrow> Raised e | Inr batch \<Rightarrow> Ready batch, 0)"
proof -
  have qok: "pool_ok q r" using pool_submit_collated_ok [OF ok s] .
  from collation_accepted [OF s t] obtain v where v: "pl_resources q = Some v"
    "dict_keys (tr_pending v) = insert (worker, ordinal) (dict_keys (tr_pending t))"
    "pl_pending q = dict_set (worker, ordinal) (epoch, 0, int n, ordinal) (pl_pending p)" "\<not> pl_closed q"
    "pl_worker_count q = pl_worker_count p" by blast
  have tok: "transport_ok (t, r)" using pool_okD [OF ok assms(2)] t by auto
  have vok: "transport_ok (v, r)" using pool_okD [OF qok v(4)] v(1) by auto
  have mem: "c \<in> set (pending_positions worker t') \<longleftrightarrow> (worker, c) \<in> dict_keys (tr_pending t')"
    if "transport_ok (t', r)" for t' c
    using pending_positions_set [OF transport_dict [OF that], of worker] by (auto simp: dict_keys_dom)
  have "set (pending_positions worker v) = {ordinal}" using mem [OF vok] mem [OF tok] v(2) idle by auto
  then have ps: "pending_positions worker v = [ordinal]"
    using pending_positions_distinct [OF transport_dict [OF vok], of worker]
    by (rule distinct_set_singleton)
  from restart_succeeds [OF qok v(4) w(1) _ v(1)] w(2) v(5) ps obtain u where u:
    "restart_worker (\<lambda>_. False) worker q = (q\<lparr>pl_resources := Some u, pl_signals := (pl_signals q)[nat worker := 0]\<rparr>,
      Inr [snd (snd (snd (the (dict_get (pl_pending q) (worker, ordinal)))))])"
    "map unslotted (tr_dispatch u worker) = [replayed worker (pl_pending q) ordinal]" by auto
  then obtain c where c: "tr_dispatch u worker = [c]" "unslotted c = replayed worker (pl_pending q) ordinal" by auto
  have "unslotted c = \<lparr>wc_position = ordinal, wc_epoch = epoch, wc_index = 0, wc_stage_plan = BLACK_BOX_STAGE,
      wc_worker = worker, wc_batch_len = int n, wc_slot = -1\<rparr>" using c(2) by (simp add: replayed_def v(3))
  from replayed_collation_value [OF this n] u(1) c(1) v(3) show ?thesis by auto
qed

lemma key_of_sample: "fst (snd (stream_context (install_sample token seed epoch c))) = key64 seed epoch"
  by (simp add: stream_context_def install_sample_def sample_rng_context_def Let_def case_prod_unfold)

definition collated_pool :: pool where
  "collated_pool = fst (pool_submit_collated False 4 2 3 [7] 0 sample_pool)"

theorem restart_replaces_collation_witness:
  "\<exists>q' u c. restart_worker (\<lambda>_. False) 0 collated_pool = (q', Inr [2]) \<and> pl_resources q' = Some u \<and> tr_dispatch u 0 = [c] \<and>
     fst (snd (run_command epoch_code (\<lambda>_. undefined) 1701 None None (dispatch_of (\<lambda>_. Inl EOFError) u c) [])) =
       Ready (key64 1701 4, 0)"
proof -
  have q: "pool_submit_collated False 4 2 3 [7] 0 sample_pool = (collated_pool, Inr True)"
    by (simp add: collated_pool_def sample_pool_def pool_submit_collated_def try_submit_command_def transport_submit_def
        arena_write_def slot_capacity_def validate_worker_def Let_def)
  have p: "\<not> pl_closed sample_pool" "pl_worker_count sample_pool = 1"
    "\<exists>t. pl_resources sample_pool = Some t \<and> pending_positions 0 t = []"
    by (simp_all add: sample_pool_def Let_def pending_positions_def)
  have "irange 0 3 = [0, 1, 2]" by (simp add: irange_def upto_rec1)
  with p restart_replaces_collation [OF sample_pool_ok p(1) _ _ _ _ q, of _ epoch_code "\<lambda>_. undefined" 1701 "\<lambda>_. Inl EOFError"]
  show ?thesis by (auto simp: epoch_code_def evaluate_in_process_def case_prod_unfold key_of_sample)
qed

end
