(* ===== verification/Calibration.thy ===== *)
theory Calibration
  imports PyValue Decimal Json Digest
begin

text \<open>
  Calibration records (\<^verbatim>\<open>control/machine.py\<close>, \<^verbatim>\<open>record.py\<close> and \<^verbatim>\<open>cache.py\<close>): the machine identity and
  its hash, the measured curves with the checks of their constructors, the stable payload and its
  reader.  Floats are exact rationals, so neither NaN nor an infinity occurs; a boolean among the
  logical CPUs counts as its integer.  The reader accepts what the writer gives, and what it accepts
  is well formed, so a record that was saved for this machine is the record that is loaded.
\<close>

section \<open>Python's conversions\<close>

text \<open>
  \<^verbatim>\<open>str\<close>, \<^verbatim>\<open>int\<close> and \<^verbatim>\<open>float\<close> on the values of a payload.  The text of a float or a container and the
  float a text denotes are arguments.
\<close>

definition py_str :: "(pyval \<Rightarrow> string) \<Rightarrow> pyval \<Rightarrow> string" where
  "py_str repr v =
    (case v of
       PStr s \<Rightarrow> s
     | PInt i \<Rightarrow> str_of_int i
     | PBool b \<Rightarrow> (if b then ''True'' else ''False'')
     | PNone \<Rightarrow> ''None''
     | _ \<Rightarrow> repr v)"

definition py_int :: "pyval \<Rightarrow> int res" where
  "py_int v =
    (case v of
       PInt i \<Rightarrow> Inr i
     | PBool b \<Rightarrow> Inr (if b then 1 else 0)
     | PFloat r \<Rightarrow> Inr (if 0 \<le> r then \<lfloor>r\<rfloor> else \<lceil>r\<rceil>)
     | PStr s \<Rightarrow> (case parse_int s of None \<Rightarrow> Inl (ValueError ''invalid literal for int()'') | Some i \<Rightarrow> Inr i)
     | _ \<Rightarrow> Inl (TypeError ''int() argument must be a string or a real number''))"

definition py_float :: "(string \<Rightarrow> rat option) \<Rightarrow> pyval \<Rightarrow> rat res" where
  "py_float read_float v =
    (case v of
       PFloat r \<Rightarrow> Inr r
     | PInt i \<Rightarrow> Inr (of_int i)
     | PBool b \<Rightarrow> Inr (if b then 1 else 0)
     | PStr s \<Rightarrow> (case read_float s of None \<Rightarrow> Inl (ValueError ''could not convert string to float'') | Some r \<Rightarrow> Inr r)
     | _ \<Rightarrow> Inl (TypeError ''float() argument must be a string or a real number''))"

text \<open>\<^verbatim>\<open>value[key]\<close> with a string key, iteration over a value, and \<^verbatim>\<open>payload.get(key, default)\<close>.\<close>

definition subscript :: "pyval \<Rightarrow> string \<Rightarrow> pyval res" where
  "subscript v key =
    (case v of PDict d \<Rightarrow> get_item d key | _ \<Rightarrow> Inl (TypeError ''indices must be integers or slices, not str''))"

definition iterate :: "pyval \<Rightarrow> pyval list res" where
  "iterate v =
    (case v of
       PList xs \<Rightarrow> Inr xs
     | PTuple xs \<Rightarrow> Inr xs
     | PDict d \<Rightarrow> Inr (map fst d)
     | PStr s \<Rightarrow> Inr (map (\<lambda>c. PStr [c]) s)
     | PBytes b \<Rightarrow> Inr (map PInt b)
     | _ \<Rightarrow> Inl (TypeError ''object is not iterable''))"

definition get_default :: "payload \<Rightarrow> string \<Rightarrow> pyval \<Rightarrow> pyval" where
  "get_default d key otherwise = (case pget d key of None \<Rightarrow> otherwise | Some v \<Rightarrow> v)"

lemma conversion_simps [simp]:
  "py_str repr (PStr s) = s" "py_int (PInt i) = Inr i" "py_float rf (PFloat r) = Inr r"
  "subscript (PDict d) key = get_item d key" "iterate (PList xs) = Inr xs"
  by (simp_all add: py_str_def py_int_def py_float_def subscript_def iterate_def)

text \<open>Constructors run their checks when they are called.\<close>

definition checked :: "('s \<Rightarrow> unit res) \<Rightarrow> 's \<Rightarrow> 's res" where
  "checked post_init s = rmap (\<lambda>_. s) (post_init s)"

lemma checked_iff [simp]: "checked post s = Inr t \<longleftrightarrow> t = s \<and> post s = Inr ()"
  by (cases "post s") (auto simp: checked_def)

section \<open>The machine\<close>

record cpu_cluster =
  cl_name :: string
  cl_cpus :: "int list"
  cl_frequency :: "int option"

record machine =
  ma_cpu_model :: string
  ma_clusters :: "cpu_cluster list"
  ma_memory_bytes :: int

definition cluster_post_init :: "cpu_cluster \<Rightarrow> unit res" where
  "cluster_post_init c =
    rbind (guard (cl_name c \<noteq> [] \<and> cl_cpus c \<noteq> [])
      (ValueError ''CPU clusters require a name and at least one logical CPU'')) (\<lambda>_.
    rbind (guard (distinct (cl_cpus c)) (ValueError ''CPU cluster logical CPUs must be unique'')) (\<lambda>_.
    guard (case cl_frequency c of None \<Rightarrow> True | Some f \<Rightarrow> 0 < f)
      (ValueError ''CPU cluster maximum frequency must be positive'')))"

definition machine_post_init :: "machine \<Rightarrow> unit res" where
  "machine_post_init m =
    rbind (guard (strip (ma_cpu_model m) \<noteq> []) (ValueError ''machine identity requires a CPU model'')) (\<lambda>_.
    rbind (guard (ma_clusters m \<noteq> []) (ValueError ''machine identity requires CPU topology'')) (\<lambda>_.
    rbind (guard (0 < ma_memory_bytes m) (ValueError ''machine identity memory must be positive'')) (\<lambda>_.
    guard (distinct (concat (map cl_cpus (ma_clusters m))))
      (ValueError ''logical CPUs cannot appear in multiple clusters''))))"

definition cluster_to_dict :: "cpu_cluster \<Rightarrow> pyval" where
  "cluster_to_dict c =
    PDict [(PStr ''logical_cpus'', PList (map PInt (cl_cpus c))),
           (PStr ''max_frequency_hz'', case cl_frequency c of None \<Rightarrow> PNone | Some f \<Rightarrow> PInt f),
           (PStr ''name'', PStr (cl_name c))]"

definition machine_to_dict :: "machine \<Rightarrow> payload" where
  "machine_to_dict m =
    [(PStr ''clusters'', PList (map cluster_to_dict (ma_clusters m))),
     (PStr ''cpu_model'', PStr (ma_cpu_model m)),
     (PStr ''memory_bytes'', PInt (ma_memory_bytes m))]"

text \<open>The payload holds no float, so the text of a float plays no part.\<close>

definition machine_cache_key :: "machine \<Rightarrow> string" where
  "machine_cache_key m =
    (case json_text (\<lambda>_. '''') compact_style (PDict (machine_to_dict m)) of
       None \<Rightarrow> [] | Some t \<Rightarrow> sha256_hex (text_bytes t))"

fun as_cpu :: "pyval \<Rightarrow> int option" where
  \<comment> \<open>\<^verbatim>\<open>isinstance(cpu, int)\<close>, which holds of booleans\<close>
  "as_cpu (PInt i) = Some i"
| "as_cpu (PBool b) = Some (if b then 1 else 0)"
| "as_cpu _ = None"

definition cluster_from_dict :: "(pyval \<Rightarrow> string) \<Rightarrow> pyval \<Rightarrow> cpu_cluster res" where
  "cluster_from_dict repr raw =
    (case raw of
       PDict d \<Rightarrow>
         (case (case get_or_none d ''logical_cpus'' of PList cpus \<Rightarrow> those (map as_cpu cpus) | _ \<Rightarrow> None) of
            None \<Rightarrow> Inl (ValueError ''machine identity logical CPUs must be integers'')
          | Some cpus \<Rightarrow>
              (case (case get_or_none d ''max_frequency_hz'' of PNone \<Rightarrow> Some None | v \<Rightarrow> map_option Some (as_cpu v)) of
                 None \<Rightarrow> Inl (ValueError ''machine identity frequency must be an integer or null'')
               | Some frequency \<Rightarrow>
                   checked cluster_post_init
                     \<lparr>cl_name = py_str repr (get_default d ''name'' (PStr '''')), cl_cpus = cpus, cl_frequency = frequency\<rparr>))
     | _ \<Rightarrow> Inl (ValueError ''machine identity cluster must be an object''))"

definition machine_from_dict :: "(pyval \<Rightarrow> string) \<Rightarrow> payload \<Rightarrow> machine res" where
  "machine_from_dict repr d =
    (case get_or_none d ''clusters'' of
       PList raw \<Rightarrow>
         rbind (rtraverse (cluster_from_dict repr) raw) (\<lambda>clusters.
         rbind (py_int (get_default d ''memory_bytes'' (PInt 0))) (\<lambda>memory.
         checked machine_post_init
           \<lparr>ma_cpu_model = py_str repr (get_default d ''cpu_model'' (PStr '''')), ma_clusters = clusters,
            ma_memory_bytes = memory\<rparr>))
     | _ \<Rightarrow> Inl (ValueError ''machine identity clusters must be a list''))"

section \<open>Curves and costs\<close>

record steal_point =
  sp_cores :: int
  sp_loss_fraction :: rat

record steal_curve =
  cv_cluster :: string
  cv_work_shape :: string
  cv_points :: "steal_point list"
  cv_provenance :: string

record bandwidth_point =
  bp_bytes_per_second :: rat
  bp_compute_loss_fraction :: rat
  bp_bandwidth_loss_fraction :: rat

record pin_cost =
  pn_bytes :: int
  pn_nanoseconds :: int

record idle_state_tax =
  it_loss_fraction :: rat
  it_powered_down_residency_fraction :: rat
  it_warm_duty_fraction :: rat
  it_minimum_gap_nanoseconds :: int

record staged_copy_tax =
  st_batch_bytes :: int
  st_staging_copy_nanoseconds :: int
  st_transfer_benefit_nanoseconds :: int

record calibration =
  ca_machine :: machine
  ca_source :: string
  ca_measured_at :: string
  ca_steal_curves :: "steal_curve list"
  ca_bandwidth_curve :: "bandwidth_point list"
  ca_bandwidth_provenance :: string
  ca_spawn_nanoseconds :: int
  ca_pin_cost :: pin_cost
  ca_idle_state_tax :: "idle_state_tax option"
  ca_staged_copy_tax :: "staged_copy_tax option"
  ca_schema :: int

definition CALIBRATION_SCHEMA :: int where "CALIBRATION_SCHEMA = 3"
definition CALIBRATION_CORE_COUNTS :: "int list" where "CALIBRATION_CORE_COUNTS = [1, 2, 4, 8, 16]"

definition validate_loss :: "rat \<Rightarrow> unit res" where
  "validate_loss v = guard (0 \<le> v \<and> v < 1) (ValueError ''throughput loss fraction must be in [0, 1)'')"

definition validate_fraction :: "string \<Rightarrow> rat \<Rightarrow> unit res" where
  "validate_fraction name v = guard (0 \<le> v \<and> v \<le> 1) (ValueError (name @ '' fraction must be in [0, 1]''))"

definition validate_positive_fraction :: "string \<Rightarrow> rat \<Rightarrow> unit res" where
  "validate_positive_fraction name v = guard (0 < v \<and> v \<le> 1) (ValueError (name @ '' fraction must be in (0, 1]''))"

definition validate_points :: "'k::linorder list \<Rightarrow> unit res" where
  "validate_points coordinates =
    rbind (guard (2 \<le> length coordinates) (ValueError ''calibration curves require at least two points'')) (\<lambda>_.
    guard (coordinates = sort (remdups coordinates))
      (ValueError ''calibration curve coordinates must be unique and increasing''))"

definition provenances :: "string list" where
  "provenances = [''measured'', ''derived-prior'']"

definition point_post_init :: "steal_point \<Rightarrow> unit res" where
  "point_post_init p =
    rbind (guard (0 < sp_cores p) (ValueError ''steal-curve core count must be positive'')) (\<lambda>_. validate_loss (sp_loss_fraction p))"

definition curve_post_init :: "steal_curve \<Rightarrow> unit res" where
  "curve_post_init c =
    rbind (guard (cv_cluster c \<noteq> [] \<and> cv_work_shape c \<in> {''compute'', ''stream''})
      (ValueError ''steal curves require a cluster and known work shape'')) (\<lambda>_.
    rbind (validate_points (map sp_cores (cv_points c))) (\<lambda>_.
    rbind (guard (cv_provenance c \<in> set provenances)
      (ValueError ''calibration provenance must be measured or derived-prior'')) (\<lambda>_.
    guard (cv_provenance c = ''measured'' \<longrightarrow> map sp_cores (cv_points c) = CALIBRATION_CORE_COUNTS)
      (ValueError ''measured steal curves require the 1/2/4/8/16 core grid''))))"

definition bandwidth_post_init :: "bandwidth_point \<Rightarrow> unit res" where
  "bandwidth_post_init p =
    rbind (guard (0 \<le> bp_bytes_per_second p) (ValueError ''bandwidth rate must be nonnegative'')) (\<lambda>_.
    rbind (validate_loss (bp_compute_loss_fraction p)) (\<lambda>_. validate_loss (bp_bandwidth_loss_fraction p)))"

definition pin_post_init :: "pin_cost \<Rightarrow> unit res" where
  "pin_post_init p =
    guard (0 < pn_bytes p \<and> 0 < pn_nanoseconds p) (ValueError ''pin cost requires positive bytes and nanoseconds'')"

definition idle_post_init :: "idle_state_tax \<Rightarrow> unit res" where
  "idle_post_init t =
    rbind (validate_loss (it_loss_fraction t)) (\<lambda>_.
    rbind (validate_fraction ''powered-down residency'' (it_powered_down_residency_fraction t)) (\<lambda>_.
    rbind (validate_positive_fraction ''warm duty'' (it_warm_duty_fraction t)) (\<lambda>_.
    guard (0 < it_minimum_gap_nanoseconds t) (ValueError ''idle-state tax requires a positive minimum gap''))))"

definition staged_post_init :: "staged_copy_tax \<Rightarrow> unit res" where
  "staged_post_init t =
    rbind (guard (0 < st_batch_bytes t) (ValueError ''staged-copy tax requires a positive batch size'')) (\<lambda>_.
    rbind (guard (0 < st_staging_copy_nanoseconds t) (ValueError ''staged-copy tax requires a positive copy cost'')) (\<lambda>_.
    guard (0 \<le> st_transfer_benefit_nanoseconds t) (ValueError ''staged-copy transfer benefit must be nonnegative'')))"

definition staging_is_profitable :: "staged_copy_tax \<Rightarrow> bool" where
  "staging_is_profitable t \<longleftrightarrow> st_staging_copy_nanoseconds t < st_transfer_benefit_nanoseconds t"

definition calibration_post_init :: "calibration \<Rightarrow> unit res" where
  "calibration_post_init c =
    rbind (guard (ca_schema c = CALIBRATION_SCHEMA) (ValueError ''calibration schema is unsupported'')) (\<lambda>_.
    rbind (guard (ca_source c \<noteq> [] \<and> ca_measured_at c \<noteq> [])
      (ValueError ''calibration source and measurement time are required'')) (\<lambda>_.
    rbind (guard (0 < ca_spawn_nanoseconds c) (ValueError ''spawn cost must be positive'')) (\<lambda>_.
    rbind (guard (ca_steal_curves c \<noteq> [] \<and> ca_bandwidth_curve c \<noteq> [])
      (ValueError ''calibration records require compute and bandwidth curves'')) (\<lambda>_.
    rbind (guard (distinct (map (\<lambda>v. (cv_cluster v, cv_work_shape v)) (ca_steal_curves c)))
      (ValueError ''calibration steal curves must have unique keys'')) (\<lambda>_.
    rbind (guard (set (map cv_work_shape (ca_steal_curves c)) = {''compute'', ''stream''})
      (ValueError ''calibration records require compute and stream steal curves'')) (\<lambda>_.
    rbind (validate_points (map bp_bytes_per_second (ca_bandwidth_curve c))) (\<lambda>_.
    guard (ca_bandwidth_provenance c \<in> set provenances)
      (ValueError ''bandwidth provenance must be measured or derived-prior''))))))))"

section \<open>The payload\<close>

definition bandwidth_to_dict :: "bandwidth_point \<Rightarrow> pyval" where
  "bandwidth_to_dict p =
    PDict [(PStr ''bandwidth_loss_fraction'', PFloat (bp_bandwidth_loss_fraction p)),
           (PStr ''bytes_per_second'', PFloat (bp_bytes_per_second p)),
           (PStr ''compute_loss_fraction'', PFloat (bp_compute_loss_fraction p))]"

definition point_to_dict :: "steal_point \<Rightarrow> pyval" where
  "point_to_dict p = PDict [(PStr ''cores'', PInt (sp_cores p)), (PStr ''loss_fraction'', PFloat (sp_loss_fraction p))]"

definition curve_to_dict :: "steal_curve \<Rightarrow> pyval" where
  "curve_to_dict c =
    PDict [(PStr ''cluster'', PStr (cv_cluster c)), (PStr ''points'', PList (map point_to_dict (cv_points c))),
           (PStr ''provenance'', PStr (cv_provenance c)), (PStr ''work_shape'', PStr (cv_work_shape c))]"

definition pin_to_dict :: "pin_cost \<Rightarrow> pyval" where
  "pin_to_dict p = PDict [(PStr ''bytes'', PInt (pn_bytes p)), (PStr ''nanoseconds'', PInt (pn_nanoseconds p))]"

definition idle_to_dict :: "idle_state_tax \<Rightarrow> pyval" where
  "idle_to_dict t =
    PDict [(PStr ''loss_fraction'', PFloat (it_loss_fraction t)),
           (PStr ''minimum_gap_nanoseconds'', PInt (it_minimum_gap_nanoseconds t)),
           (PStr ''powered_down_residency_fraction'', PFloat (it_powered_down_residency_fraction t)),
           (PStr ''warm_duty_fraction'', PFloat (it_warm_duty_fraction t))]"

definition staged_to_dict :: "staged_copy_tax \<Rightarrow> pyval" where
  "staged_to_dict t =
    PDict [(PStr ''batch_bytes'', PInt (st_batch_bytes t)),
           (PStr ''staging_copy_nanoseconds'', PInt (st_staging_copy_nanoseconds t)),
           (PStr ''transfer_benefit_nanoseconds'', PInt (st_transfer_benefit_nanoseconds t))]"

definition calibration_to_dict :: "calibration \<Rightarrow> payload" where
  "calibration_to_dict c =
    [(PStr ''bandwidth_curve'', PList (map bandwidth_to_dict (ca_bandwidth_curve c))),
     (PStr ''bandwidth_provenance'', PStr (ca_bandwidth_provenance c)),
     (PStr ''machine'', PDict (machine_to_dict (ca_machine c))),
     (PStr ''machine_key'', PStr (machine_cache_key (ca_machine c))),
     (PStr ''measured_at'', PStr (ca_measured_at c)),
     (PStr ''pin_cost'', pin_to_dict (ca_pin_cost c)),
     (PStr ''idle_state_tax'', case ca_idle_state_tax c of None \<Rightarrow> PNone | Some t \<Rightarrow> idle_to_dict t),
     (PStr ''schema'', PInt (ca_schema c)),
     (PStr ''source'', PStr (ca_source c)),
     (PStr ''spawn_nanoseconds'', PInt (ca_spawn_nanoseconds c)),
     (PStr ''staged_copy_tax'', case ca_staged_copy_tax c of None \<Rightarrow> PNone | Some t \<Rightarrow> staged_to_dict t),
     (PStr ''steal_curves'', PList (map curve_to_dict (ca_steal_curves c)))]"


definition point_from_dict :: "(string \<Rightarrow> rat option) \<Rightarrow> pyval \<Rightarrow> steal_point res" where
  "point_from_dict read_float raw =
    rbind (rbind (subscript raw ''cores'') py_int) (\<lambda>cores.
    rbind (rbind (subscript raw ''loss_fraction'') (py_float read_float)) (\<lambda>loss.
    checked point_post_init \<lparr>sp_cores = cores, sp_loss_fraction = loss\<rparr>))"

definition curve_from_dict :: "(pyval \<Rightarrow> string) \<Rightarrow> (string \<Rightarrow> rat option) \<Rightarrow> pyval \<Rightarrow> steal_curve res" where
  "curve_from_dict repr read_float raw =
    rbind (subscript raw ''cluster'') (\<lambda>cluster.
    rbind (subscript raw ''work_shape'') (\<lambda>work_shape.
    rbind (rbind (subscript raw ''points'') iterate) (\<lambda>points.
    rbind (rtraverse (point_from_dict read_float) points) (\<lambda>points.
    rbind (subscript raw ''provenance'') (\<lambda>provenance.
    checked curve_post_init \<lparr>cv_cluster = py_str repr cluster, cv_work_shape = py_str repr work_shape, cv_points = points,
      cv_provenance = py_str repr provenance\<rparr>)))))"

definition bandwidth_from_dict :: "(string \<Rightarrow> rat option) \<Rightarrow> pyval \<Rightarrow> bandwidth_point res" where
  "bandwidth_from_dict read_float raw =
    rbind (rbind (subscript raw ''bytes_per_second'') (py_float read_float)) (\<lambda>rate.
    rbind (rbind (subscript raw ''compute_loss_fraction'') (py_float read_float)) (\<lambda>compute.
    rbind (rbind (subscript raw ''bandwidth_loss_fraction'') (py_float read_float)) (\<lambda>bandwidth.
    checked bandwidth_post_init
      \<lparr>bp_bytes_per_second = rate, bp_compute_loss_fraction = compute, bp_bandwidth_loss_fraction = bandwidth\<rparr>)))"

definition pin_from_dict :: "payload \<Rightarrow> pin_cost res" where
  "pin_from_dict d =
    rbind (py_int (get_default d ''bytes'' (PInt 0))) (\<lambda>bytes.
    rbind (py_int (get_default d ''nanoseconds'' (PInt 0))) (\<lambda>nanoseconds.
    checked pin_post_init \<lparr>pn_bytes = bytes, pn_nanoseconds = nanoseconds\<rparr>))"

definition idle_from_dict :: "(string \<Rightarrow> rat option) \<Rightarrow> payload \<Rightarrow> idle_state_tax res" where
  "idle_from_dict read_float d =
    rbind (py_float read_float (get_default d ''loss_fraction'' (PFloat (-1)))) (\<lambda>loss.
    rbind (py_float read_float (get_default d ''powered_down_residency_fraction'' (PFloat (-1)))) (\<lambda>residency.
    rbind (py_float read_float (get_default d ''warm_duty_fraction'' (PFloat (-1)))) (\<lambda>duty.
    rbind (py_int (get_default d ''minimum_gap_nanoseconds'' (PInt 0))) (\<lambda>gap.
    checked idle_post_init \<lparr>it_loss_fraction = loss, it_powered_down_residency_fraction = residency,
      it_warm_duty_fraction = duty, it_minimum_gap_nanoseconds = gap\<rparr>))))"

definition staged_from_dict :: "payload \<Rightarrow> staged_copy_tax res" where
  "staged_from_dict d =
    rbind (py_int (get_default d ''batch_bytes'' (PInt 0))) (\<lambda>bytes.
    rbind (py_int (get_default d ''staging_copy_nanoseconds'' (PInt 0))) (\<lambda>copy.
    rbind (py_int (get_default d ''transfer_benefit_nanoseconds'' (PInt (-1)))) (\<lambda>benefit.
    checked staged_post_init \<lparr>st_batch_bytes = bytes, st_staging_copy_nanoseconds = copy,
      st_transfer_benefit_nanoseconds = benefit\<rparr>)))"

text \<open>A tax is an object or null; a payload without the key is refused before.\<close>

definition tax_field :: "payload \<Rightarrow> string \<Rightarrow> string \<Rightarrow> payload option res" where
  "tax_field d key message =
    (case get_or_none d key of PNone \<Rightarrow> Inr None | PDict t \<Rightarrow> Inr (Some t) | _ \<Rightarrow> Inl (ValueError message))"

definition read_tax :: "(payload \<Rightarrow> 't res) \<Rightarrow> payload option \<Rightarrow> 't option res" where
  "read_tax read raw = (case raw of None \<Rightarrow> Inr None | Some t \<Rightarrow> rmap Some (read t))"

definition calibration_from_dict :: "(pyval \<Rightarrow> string) \<Rightarrow> (string \<Rightarrow> rat option) \<Rightarrow> payload \<Rightarrow> calibration res" where
  "calibration_from_dict repr read_float d =
    (case get_or_none d ''machine'' of
       PDict raw_machine \<Rightarrow>
         rbind (machine_from_dict repr raw_machine) (\<lambda>machine.
         rbind (guard (py_eq (get_or_none d ''machine_key'') (PStr (machine_cache_key machine)))
           (ValueError ''calibration machine key does not match its payload'')) (\<lambda>_.
         rbind (case (get_or_none d ''steal_curves'', get_or_none d ''bandwidth_curve'') of
             (PList raw_curves, PList raw_bandwidth) \<Rightarrow> Inr (raw_curves, raw_bandwidth)
           | _ \<Rightarrow> Inl (ValueError ''calibration curves must be lists'')) (\<lambda>(raw_curves, raw_bandwidth).
         rbind (rtraverse (curve_from_dict repr read_float) raw_curves) (\<lambda>curves.
         rbind (rtraverse (bandwidth_from_dict read_float) raw_bandwidth) (\<lambda>bandwidth.
         rbind (case get_or_none d ''pin_cost'' of PDict p \<Rightarrow> Inr p
           | _ \<Rightarrow> Inl (ValueError ''calibration pin cost must be an object'')) (\<lambda>raw_pin.
         rbind (guard (pget d ''idle_state_tax'' \<noteq> None \<and> pget d ''staged_copy_tax'' \<noteq> None)
           (ValueError ''calibration tax measurements are required'')) (\<lambda>_.
         rbind (tax_field d ''idle_state_tax'' ''calibration idle-state tax must be an object or null'') (\<lambda>raw_idle.
         rbind (tax_field d ''staged_copy_tax'' ''calibration staged-copy tax must be an object or null'') (\<lambda>raw_staged.
         rbind (py_int (get_default d ''spawn_nanoseconds'' (PInt 0))) (\<lambda>spawn.
         rbind (pin_from_dict raw_pin) (\<lambda>pin.
         rbind (read_tax (idle_from_dict read_float) raw_idle) (\<lambda>idle.
         rbind (read_tax staged_from_dict raw_staged) (\<lambda>staged.
         rbind (py_int (get_default d ''schema'' (PInt 0))) (\<lambda>schema.
         checked calibration_post_init
           \<lparr>ca_machine = machine, ca_source = py_str repr (get_default d ''source'' (PStr '''')),
            ca_measured_at = py_str repr (get_default d ''measured_at'' (PStr '''')), ca_steal_curves = curves,
            ca_bandwidth_curve = bandwidth,
            ca_bandwidth_provenance = py_str repr (get_default d ''bandwidth_provenance'' (PStr '''')),
            ca_spawn_nanoseconds = spawn, ca_pin_cost = pin, ca_idle_state_tax = idle, ca_staged_copy_tax = staged,
            ca_schema = schema\<rparr>))))))))))))))
     | _ \<Rightarrow> Inl (ValueError ''calibration machine must be an object''))"

section \<open>The cache\<close>

text \<open>
  The path of a record, and what \<^verbatim>\<open>load_calibration\<close> makes of the parsed file, if there is one.
\<close>

definition calibration_cache_path :: "string \<Rightarrow> machine \<Rightarrow> string" where
  "calibration_cache_path base m = base @ ''/calibration/'' @ machine_cache_key m @ ''.json''"

definition load_calibration ::
    "(pyval \<Rightarrow> string) \<Rightarrow> (string \<Rightarrow> rat option) \<Rightarrow> pyval option \<Rightarrow> machine \<Rightarrow> calibration option res" where
  "load_calibration repr read_float parsed m =
    (case parsed of
       None \<Rightarrow> Inr None
     | Some (PDict d) \<Rightarrow>
         rmap (\<lambda>r. if machine_cache_key (ca_machine r) = machine_cache_key m then Some r else None)
           (calibration_from_dict repr read_float d)
     | Some _ \<Rightarrow> Inl (ValueError ''calibration record must be a JSON object''))"

text \<open>
  \<^verbatim>\<open>resolve_calibration\<close>: the reader may also fail with an \<^verbatim>\<open>OSError\<close>; the prior is an argument.
\<close>

definition resolve_calibration ::
    "(machine \<Rightarrow> calibration option res) \<Rightarrow> (machine \<Rightarrow> calibration option res) \<Rightarrow> machine \<Rightarrow> calibration option res" where
  "resolve_calibration load prior m =
    (case load m of
       Inr (Some r) \<Rightarrow> Inr (Some r)
     | Inr None \<Rightarrow> prior m
     | Inl (ValueError _) \<Rightarrow> prior m
     | Inl (OSError _) \<Rightarrow> prior m
     | Inl e \<Rightarrow> Inl e)"

section \<open>What is written is read\<close>

definition machine_valid :: "machine \<Rightarrow> bool" where
  "machine_valid m \<longleftrightarrow> machine_post_init m = Inr () \<and> (\<forall>c \<in> set (ma_clusters m). cluster_post_init c = Inr ())"

definition curve_valid :: "steal_curve \<Rightarrow> bool" where
  "curve_valid c \<longleftrightarrow> curve_post_init c = Inr () \<and> (\<forall>p \<in> set (cv_points c). point_post_init p = Inr ())"

definition calibration_valid :: "calibration \<Rightarrow> bool" where
  "calibration_valid c \<longleftrightarrow> calibration_post_init c = Inr () \<and> machine_valid (ca_machine c) \<and>
     (\<forall>v \<in> set (ca_steal_curves c). curve_valid v) \<and> (\<forall>p \<in> set (ca_bandwidth_curve c). bandwidth_post_init p = Inr ()) \<and>
     pin_post_init (ca_pin_cost c) = Inr () \<and> (\<forall>t. ca_idle_state_tax c = Some t \<longrightarrow> idle_post_init t = Inr ()) \<and>
     (\<forall>t. ca_staged_copy_tax c = Some t \<longrightarrow> staged_post_init t = Inr ())"


lemma those_cpus [simp]: "those (map (as_cpu \<circ> PInt) xs) = Some xs"
  by (induction xs) simp_all

lemma payload_simps [simp]:
  "get_or_none [] k = PNone" "get_or_none ((PStr k', v) # d) k = (if k' = k then v else get_or_none d k)"
  "get_default [] k w = w" "get_default ((PStr k', v) # d) k w = (if k' = k then v else get_default d k w)"
  "get_item ((PStr k', v) # d) k = (if k' = k then Inr v else get_item d k)"
  by (simp_all add: get_or_none_def get_default_def get_item_def)

lemma rtraverse_written:
  "(\<And>x. x \<in> set xs \<Longrightarrow> f (g x) = Inr x) \<Longrightarrow> rtraverse f (map g xs) = Inr xs"
  by (induction xs) simp_all

lemma rtraverse_all:
  "rtraverse f xs = Inr ys \<Longrightarrow> (\<And>x y. f x = Inr y \<Longrightarrow> P y) \<Longrightarrow> \<forall>y \<in> set ys. P y"
  by (induction xs arbitrary: ys) (auto simp: rbind_eq_Inr)

lemma cluster_written: "cluster_post_init c = Inr () \<Longrightarrow> cluster_from_dict repr (cluster_to_dict c) = Inr c"
  by (cases c; cases "cl_frequency c") (simp_all add: cluster_from_dict_def cluster_to_dict_def)

lemma cluster_read: "cluster_from_dict repr v = Inr c \<Longrightarrow> cluster_post_init c = Inr ()"
  by (auto simp: cluster_from_dict_def split: pyval.splits option.splits)

lemma machine_written: "machine_valid m \<Longrightarrow> machine_from_dict repr (machine_to_dict m) = Inr m"
  by (cases m) (simp add: machine_from_dict_def machine_to_dict_def machine_valid_def rtraverse_written cluster_written)

lemma machine_read:
  assumes "machine_from_dict repr d = Inr m"
  shows "machine_valid m"
proof -
  from assms obtain raw where "rtraverse (cluster_from_dict repr) raw = Inr (ma_clusters m)" "machine_post_init m = Inr ()"
    by (auto simp: machine_from_dict_def rbind_eq_Inr split: pyval.splits)
  moreover from this(1) have "\<forall>c \<in> set (ma_clusters m). cluster_post_init c = Inr ()"
    by (rule rtraverse_all) (rule cluster_read)
  ultimately show ?thesis by (simp add: machine_valid_def)
qed

lemma point_written: "point_post_init p = Inr () \<Longrightarrow> point_from_dict rf (point_to_dict p) = Inr p"
  by (cases p) (simp add: point_from_dict_def point_to_dict_def)

lemma point_read: "point_from_dict rf v = Inr p \<Longrightarrow> point_post_init p = Inr ()"
  by (auto simp: point_from_dict_def rbind_eq_Inr)

lemma curve_written: "curve_valid c \<Longrightarrow> curve_from_dict repr rf (curve_to_dict c) = Inr c"
  by (cases c) (simp add: curve_from_dict_def curve_to_dict_def curve_valid_def rtraverse_written point_written)

lemma curve_read:
  assumes "curve_from_dict repr rf v = Inr c"
  shows "curve_valid c"
proof -
  from assms obtain raw where "rtraverse (point_from_dict rf) raw = Inr (cv_points c)" "curve_post_init c = Inr ()"
    by (auto simp: curve_from_dict_def rbind_eq_Inr)
  moreover from this(1) have "\<forall>p \<in> set (cv_points c). point_post_init p = Inr ()"
    by (rule rtraverse_all) (rule point_read)
  ultimately show ?thesis by (simp add: curve_valid_def)
qed

lemma bandwidth_written: "bandwidth_post_init p = Inr () \<Longrightarrow> bandwidth_from_dict rf (bandwidth_to_dict p) = Inr p"
  by (cases p) (simp add: bandwidth_from_dict_def bandwidth_to_dict_def)

lemma bandwidth_read: "bandwidth_from_dict rf v = Inr p \<Longrightarrow> bandwidth_post_init p = Inr ()"
  by (auto simp: bandwidth_from_dict_def rbind_eq_Inr)

lemma tax_written:
  "pin_post_init p = Inr () \<Longrightarrow> pin_to_dict p = PDict d \<Longrightarrow> pin_from_dict d = Inr p"
  "idle_post_init t = Inr () \<Longrightarrow> idle_to_dict t = PDict d \<Longrightarrow> idle_from_dict rf d = Inr t"
  "staged_post_init s = Inr () \<Longrightarrow> staged_to_dict s = PDict d \<Longrightarrow> staged_from_dict d = Inr s"
  subgoal by (cases p) (auto simp: pin_from_dict_def pin_to_dict_def)
  subgoal by (cases t) (auto simp: idle_from_dict_def idle_to_dict_def)
  subgoal by (cases s) (auto simp: staged_from_dict_def staged_to_dict_def)
  done

lemma tax_read:
  "pin_from_dict d = Inr p \<Longrightarrow> pin_post_init p = Inr ()"
  "idle_from_dict rf d = Inr t \<Longrightarrow> idle_post_init t = Inr ()"
  "staged_from_dict d = Inr s \<Longrightarrow> staged_post_init s = Inr ()"
  by (auto simp: pin_from_dict_def idle_from_dict_def staged_from_dict_def rbind_eq_Inr)

lemma tax_dicts:
  "\<exists>d. pin_to_dict p = PDict d" "\<exists>d. idle_to_dict t = PDict d" "\<exists>d. staged_to_dict s = PDict d"
  by (simp_all add: pin_to_dict_def idle_to_dict_def staged_to_dict_def)

lemma calibration_written:
  assumes "calibration_valid c"
  shows "calibration_from_dict repr rf (calibration_to_dict c) = Inr c"
proof -
  obtain p where p: "pin_to_dict (ca_pin_cost c) = PDict p" using tax_dicts(1) by blast
  have pin: "pin_from_dict p = Inr (ca_pin_cost c)" using tax_written(1) [OF _ p] assms by (simp add: calibration_valid_def)
  have idle: "\<exists>i. (\<forall>m. tax_field (calibration_to_dict c) ''idle_state_tax'' m = Inr i) \<and>
      read_tax (idle_from_dict rf) i = Inr (ca_idle_state_tax c)"
  proof (cases "ca_idle_state_tax c")
    case (Some t)
    obtain d where d: "idle_to_dict t = PDict d" using tax_dicts(2) by blast
    with Some assms tax_written(2) [OF _ d] show ?thesis
      by (simp add: tax_field_def calibration_to_dict_def read_tax_def calibration_valid_def)
  qed (simp add: tax_field_def calibration_to_dict_def read_tax_def)
  have staged: "\<exists>i. (\<forall>m. tax_field (calibration_to_dict c) ''staged_copy_tax'' m = Inr i) \<and>
      read_tax staged_from_dict i = Inr (ca_staged_copy_tax c)"
  proof (cases "ca_staged_copy_tax c")
    case (Some t)
    obtain d where d: "staged_to_dict t = PDict d" using tax_dicts(3) by blast
    with Some assms tax_written(3) [OF _ d] show ?thesis
      by (simp add: tax_field_def calibration_to_dict_def read_tax_def calibration_valid_def)
  qed (simp add: tax_field_def calibration_to_dict_def read_tax_def)
  obtain i where i: "\<And>m. tax_field (calibration_to_dict c) ''idle_state_tax'' m = Inr i" "read_tax (idle_from_dict rf) i = Inr (ca_idle_state_tax c)"
    using idle by blast
  obtain s where s: "\<And>m. tax_field (calibration_to_dict c) ''staged_copy_tax'' m = Inr s" "read_tax staged_from_dict s = Inr (ca_staged_copy_tax c)"
    using staged by blast
  have curves: "rtraverse (curve_from_dict repr rf) (map curve_to_dict (ca_steal_curves c)) = Inr (ca_steal_curves c)"
    "rtraverse (bandwidth_from_dict rf) (map bandwidth_to_dict (ca_bandwidth_curve c)) = Inr (ca_bandwidth_curve c)"
    using assms by (auto simp: calibration_valid_def intro!: rtraverse_written curve_written bandwidth_written)
  have fields: "get_or_none (calibration_to_dict c) ''machine'' = PDict (machine_to_dict (ca_machine c))"
    "get_or_none (calibration_to_dict c) ''machine_key'' = PStr (machine_cache_key (ca_machine c))"
    "get_or_none (calibration_to_dict c) ''steal_curves'' = PList (map curve_to_dict (ca_steal_curves c))"
    "get_or_none (calibration_to_dict c) ''bandwidth_curve'' = PList (map bandwidth_to_dict (ca_bandwidth_curve c))"
    "get_or_none (calibration_to_dict c) ''pin_cost'' = PDict p"
    "pget (calibration_to_dict c) ''idle_state_tax'' \<noteq> None" "pget (calibration_to_dict c) ''staged_copy_tax'' \<noteq> None"
    "get_default (calibration_to_dict c) ''spawn_nanoseconds'' (PInt 0) = PInt (ca_spawn_nanoseconds c)"
    "get_default (calibration_to_dict c) ''schema'' (PInt 0) = PInt (ca_schema c)"
    "get_default (calibration_to_dict c) ''source'' (PStr '''') = PStr (ca_source c)"
    "get_default (calibration_to_dict c) ''measured_at'' (PStr '''') = PStr (ca_measured_at c)"
    "get_default (calibration_to_dict c) ''bandwidth_provenance'' (PStr '''') = PStr (ca_bandwidth_provenance c)"
    by (simp_all add: calibration_to_dict_def p)
  have machine: "machine_from_dict repr (machine_to_dict (ca_machine c)) = Inr (ca_machine c)"
    using assms by (simp add: machine_written calibration_valid_def)
  have "calibration_post_init c = Inr ()" using assms by (simp add: calibration_valid_def)
  then have "calibration_post_init \<lparr>ca_machine = ca_machine c, ca_source = ca_source c, ca_measured_at = ca_measured_at c,
      ca_steal_curves = ca_steal_curves c, ca_bandwidth_curve = ca_bandwidth_curve c,
      ca_bandwidth_provenance = ca_bandwidth_provenance c, ca_spawn_nanoseconds = ca_spawn_nanoseconds c,
      ca_pin_cost = ca_pin_cost c, ca_idle_state_tax = ca_idle_state_tax c, ca_staged_copy_tax = ca_staged_copy_tax c,
      ca_schema = ca_schema c\<rparr> = Inr ()" by (cases c) simp
  then show ?thesis
    using assms by (simp add: calibration_from_dict_def fields machine curves pin i s calibration_valid_def)
qed

lemma calibration_read:
  assumes "calibration_from_dict repr rf d = Inr c"
  shows "calibration_valid c"
proof -
  from assms obtain raw_machine raw_curves raw_bandwidth raw_pin raw_idle raw_staged where
    m: "machine_from_dict repr raw_machine = Inr (ca_machine c)" and
    cs: "rtraverse (curve_from_dict repr rf) raw_curves = Inr (ca_steal_curves c)" and
    bs: "rtraverse (bandwidth_from_dict rf) raw_bandwidth = Inr (ca_bandwidth_curve c)" and
    p: "pin_from_dict raw_pin = Inr (ca_pin_cost c)" and
    i: "read_tax (idle_from_dict rf) raw_idle = Inr (ca_idle_state_tax c)" and
    s: "read_tax staged_from_dict raw_staged = Inr (ca_staged_copy_tax c)" and
    post: "calibration_post_init c = Inr ()"
    by (auto simp: calibration_from_dict_def rbind_eq_Inr split: pyval.splits)
  have "\<forall>t. ca_idle_state_tax c = Some t \<longrightarrow> idle_post_init t = Inr ()"
    using i by (auto simp: read_tax_def rmap_eq_Inr split: option.splits dest: tax_read)
  moreover have "\<forall>t. ca_staged_copy_tax c = Some t \<longrightarrow> staged_post_init t = Inr ()"
    using s by (auto simp: read_tax_def rmap_eq_Inr split: option.splits dest: tax_read)
  moreover from cs have "\<forall>v \<in> set (ca_steal_curves c). curve_valid v" by (rule rtraverse_all) (rule curve_read)
  moreover from bs have "\<forall>p \<in> set (ca_bandwidth_curve c). bandwidth_post_init p = Inr ()"
    by (rule rtraverse_all) (rule bandwidth_read)
  ultimately show ?thesis
    using machine_read [OF m] tax_read(1) [OF p] post by (simp add: calibration_valid_def)
qed

interpretation cal: checkpoint_codec calibration_to_dict
    "\<lambda>v. case v of PDict d \<Rightarrow> calibration_from_dict repr rf d | _ \<Rightarrow> Inl (ValueError ''calibration record must be a JSON object'')"
    calibration_valid for repr rf
  by unfold_locales (auto simp: calibration_written dest: calibration_read split: pyval.splits)

section \<open>Loading\<close>

text \<open>
  A saved calibration is loaded as it was for the machine it was measured on, and ignored on a
  machine with another key.
\<close>

theorem calibration_loads_saved:
  assumes "calibration_valid c"
  shows "load_calibration repr rf (Some (PDict (calibration_to_dict c))) m =
    Inr (if machine_cache_key (ca_machine c) = machine_cache_key m then Some c else None)"
  using cal.decode_encode [OF assms, of repr rf] by (simp add: load_calibration_def)

definition sample_machine :: machine where
  "sample_machine = \<lparr>ma_cpu_model = ''grace'',
     ma_clusters = [\<lparr>cl_name = ''all'', cl_cpus = [0, 1], cl_frequency = Some 3000\<rparr>], ma_memory_bytes = 64\<rparr>"

definition sample_curve :: "string \<Rightarrow> steal_curve" where
  "sample_curve shape = \<lparr>cv_cluster = ''all'', cv_work_shape = shape,
     cv_points = [\<lparr>sp_cores = 1, sp_loss_fraction = 1 / 50\<rparr>, \<lparr>sp_cores = 4, sp_loss_fraction = 1 / 10\<rparr>],
     cv_provenance = ''derived-prior''\<rparr>"

definition sample_calibration :: calibration where
  "sample_calibration = \<lparr>ca_machine = sample_machine, ca_source = ''run'', ca_measured_at = ''2025'',
     ca_steal_curves = [sample_curve ''compute'', sample_curve ''stream''],
     ca_bandwidth_curve = [\<lparr>bp_bytes_per_second = 0, bp_compute_loss_fraction = 0, bp_bandwidth_loss_fraction = 0\<rparr>,
       \<lparr>bp_bytes_per_second = 1000, bp_compute_loss_fraction = 1 / 10, bp_bandwidth_loss_fraction = 1 / 5\<rparr>],
     ca_bandwidth_provenance = ''measured'', ca_spawn_nanoseconds = 5, ca_pin_cost = \<lparr>pn_bytes = 1, pn_nanoseconds = 1\<rparr>,
     ca_idle_state_tax = None, ca_staged_copy_tax = Some \<lparr>st_batch_bytes = 1, st_staging_copy_nanoseconds = 1,
       st_transfer_benefit_nanoseconds = 2\<rparr>, ca_schema = 3\<rparr>"

lemma sample_machine_valid: "machine_valid sample_machine"
  by (simp add: machine_valid_def machine_post_init_def cluster_post_init_def sample_machine_def strip_def is_space_def)

lemma sample_calibration_valid: "calibration_valid sample_calibration"
  using sample_machine_valid
  by (auto simp: calibration_valid_def calibration_post_init_def sample_calibration_def sample_curve_def curve_valid_def
      curve_post_init_def validate_points_def point_post_init_def validate_loss_def bandwidth_post_init_def pin_post_init_def
      staged_post_init_def provenances_def CALIBRATION_SCHEMA_def)

theorem calibration_loads_saved_witness:
  "load_calibration (\<lambda>_. '''') (\<lambda>_. None) (Some (PDict (calibration_to_dict sample_calibration))) sample_machine =
    Inr (Some sample_calibration)"
  using calibration_loads_saved [OF sample_calibration_valid, of "\<lambda>_. ''''" "\<lambda>_. None" sample_machine]
  by (simp add: sample_calibration_def)

text \<open>
  A cached record of an older layout, here a steal curve without its provenance, is not a miss: the
  key is read before the schema is checked, and its \<^verbatim>\<open>KeyError\<close> passes the \<^verbatim>\<open>except\<close> of
  \<^verbatim>\<open>resolve_calibration\<close>.
\<close>

definition older_record :: payload where
  "older_record =
    [(PStr ''machine'', PDict (machine_to_dict sample_machine)),
     (PStr ''machine_key'', PStr (machine_cache_key sample_machine)),
     (PStr ''schema'', PInt 2),
     (PStr ''bandwidth_curve'', PList []),
     (PStr ''steal_curves'',
       PList [PDict [(PStr ''cluster'', PStr ''all''), (PStr ''points'', PList []), (PStr ''work_shape'', PStr ''compute'')]])]"

lemma older_record_escapes:
  "resolve_calibration (load_calibration repr rf (Some (PDict older_record))) prior sample_machine =
    Inl (KeyError ''provenance'')"
proof -
  have "machine_from_dict repr (machine_to_dict sample_machine) = Inr sample_machine"
    by (rule machine_written [OF sample_machine_valid])
  then have "calibration_from_dict repr rf older_record = Inl (KeyError ''provenance'')"
    by (simp add: calibration_from_dict_def older_record_def curve_from_dict_def get_item_def)
  then show ?thesis by (simp add: resolve_calibration_def load_calibration_def)
qed

end
