(* ===== verification/Control.thy ===== *)
theory Control
  imports Calibration
begin

text \<open>
  The width controller (\<^verbatim>\<open>control/objective.py\<close>, \<^verbatim>\<open>controller.py\<close> and \<^verbatim>\<open>runtime.py\<close>): the objective
  that puts starvation before calibrated resource loss, the cadenced decisions with clipping and
  shrink hysteresis, and the construction from the configuration.  Along every run the width stays
  between one and its ceiling and moves by at most the clip; under sustained starvation it reaches
  the ceiling, and it moves at a cadence only.
\<close>

section \<open>The objective\<close>

fun interpolate_between :: "rat \<times> rat \<Rightarrow> (rat \<times> rat) list \<Rightarrow> rat \<Rightarrow> rat" where
  "interpolate_between left [] x = snd left"
| "interpolate_between left (right # points) x =
    (if x \<le> fst right
     then snd left + (x - fst left) / (fst right - fst left) * (snd right - snd left)
     else interpolate_between right points x)"

definition interpolate :: "(rat \<times> rat) list \<Rightarrow> rat \<Rightarrow> rat res" where
  "interpolate points x =
    (case points of
       [] \<Rightarrow> Inl (IndexError ''tuple index out of range'')
     | first # rest \<Rightarrow> Inr (if x \<le> fst first then snd first else interpolate_between first rest x))"

definition steal_loss :: "calibration option \<Rightarrow> int \<Rightarrow> string \<Rightarrow> string \<Rightarrow> rat res" where
  "steal_loss calibration width work_shape cluster =
    (case calibration of
       None \<Rightarrow> Inr (of_int width)
     | Some c \<Rightarrow>
         (case find (\<lambda>v. cv_cluster v = cluster \<and> cv_work_shape v = work_shape) (ca_steal_curves c) of
            None \<Rightarrow> Inr (of_int width)
          | Some curve \<Rightarrow> interpolate (map (\<lambda>p. (of_int (sp_cores p), sp_loss_fraction p)) (cv_points curve)) (of_int width)))"

definition bandwidth_loss :: "calibration option \<Rightarrow> rat \<Rightarrow> string \<Rightarrow> rat res" where
  "bandwidth_loss calibration rate work_shape =
    (case calibration of
       None \<Rightarrow> Inr 0
     | Some c \<Rightarrow>
         interpolate
           (map (\<lambda>p. (bp_bytes_per_second p,
                 if work_shape = ''compute'' then bp_compute_loss_fraction p else bp_bandwidth_loss_fraction p))
             (ca_bandwidth_curve c)) rate)"

definition objective_score ::
    "calibration option \<Rightarrow> bool \<Rightarrow> int \<Rightarrow> string \<Rightarrow> string \<Rightarrow> rat \<Rightarrow> rat \<Rightarrow> (int \<times> rat) res" where
  "objective_score calibration starvation width work_shape cluster bytes_per_second memory_penalty =
    (if width \<le> 0 \<or> bytes_per_second < 0 \<or> memory_penalty < 0
     then Inl (ValueError ''controller objective inputs must be nonnegative'')
     else
       rbind (steal_loss calibration width work_shape cluster) (\<lambda>compute.
       rbind (bandwidth_loss calibration bytes_per_second work_shape) (\<lambda>bandwidth.
       Inr (if starvation then 1 else 0, compute + bandwidth + memory_penalty))))"

section \<open>The controller\<close>

record decision =
  dc_previous_width :: int
  dc_width :: int
  dc_reason :: string
  dc_starvation :: bool
  dc_score :: "int \<times> rat"
  dc_binding :: "string option"

record controller =
  ct_width_ceiling :: int
  ct_width :: int
  ct_cadence_ns :: int
  ct_cadence_batches :: int
  ct_step_clip :: int
  ct_shrink_hysteresis :: int
  ct_objective :: "calibration option"
  ct_cpu_ceiling_binding :: bool
  ct_bandwidth_ceiling :: "rat option"
  ct_work_shape :: string
  ct_cluster :: string
  ct_last_decision_ns :: "int option"
  ct_batches :: int
  ct_stalled :: bool
  ct_shrink_cadences :: int
  ct_decisions :: "decision list"

definition new_controller ::
    "int \<Rightarrow> rat \<Rightarrow> int \<Rightarrow> int \<Rightarrow> int \<Rightarrow> calibration option \<Rightarrow> bool \<Rightarrow> rat option \<Rightarrow> string \<Rightarrow> string \<Rightarrow> controller res" where
  "new_controller width_ceiling cadence_seconds cadence_batches step_clip shrink_hysteresis objective
     cpu_ceiling_binding bandwidth_ceiling work_shape cluster =
    (if width_ceiling \<le> 0 \<or> cadence_seconds \<le> 0 \<or> cadence_batches \<le> 0
     then Inl (ValueError ''controller ceiling and cadence must be positive'')
     else if step_clip \<le> 0 \<or> shrink_hysteresis \<le> 0
     then Inl (ValueError ''controller clipping and hysteresis must be positive'')
     else if (case bandwidth_ceiling of None \<Rightarrow> False | Some b \<Rightarrow> b < 0)
     then Inl (ValueError ''controller bandwidth ceiling must be nonnegative'')
     else Inr \<lparr>ct_width_ceiling = width_ceiling, ct_width = width_ceiling,
               ct_cadence_ns = \<lfloor>cadence_seconds * 1000000000\<rfloor>, ct_cadence_batches = cadence_batches,
               ct_step_clip = step_clip, ct_shrink_hysteresis = shrink_hysteresis, ct_objective = objective,
               ct_cpu_ceiling_binding = cpu_ceiling_binding, ct_bandwidth_ceiling = bandwidth_ceiling,
               ct_work_shape = work_shape, ct_cluster = cluster, ct_last_decision_ns = None, ct_batches = 0,
               ct_stalled = False, ct_shrink_cadences = 0, ct_decisions = []\<rparr>)"

text \<open>
  The adaptation at a cadence: the new width, the shrink counter, the reason and the binding.
\<close>

definition adapt :: "controller \<Rightarrow> bool \<Rightarrow> rat \<Rightarrow> controller \<times> string \<times> string option" where
  "adapt c starvation bytes_per_second =
    (if (case ct_bandwidth_ceiling c of None \<Rightarrow> False | Some b \<Rightarrow> b < bytes_per_second)
     then (c\<lparr>ct_width := max 1 (ct_width c - ct_step_clip c), ct_shrink_cadences := 0\<rparr>, ''bandwidth-ceiling'', Some ''bandwidth'')
     else if starvation then
       let grown = min (ct_width_ceiling c) (ct_width c + ct_step_clip c);
           d = c\<lparr>ct_width := grown, ct_shrink_cadences := 0\<rparr>
       in if grown = ct_width c \<and> ct_cpu_ceiling_binding c then (d, ''cpu-ceiling'', Some ''cpu_cores'')
          else (d, ''starvation'', None)
     else
       let cadences = ct_shrink_cadences c + 1 in
       if ct_shrink_hysteresis c \<le> cadences \<and> 1 < ct_width c
       then (c\<lparr>ct_width := max 1 (ct_width c - ct_step_clip c), ct_shrink_cadences := 0\<rparr>, ''resource-minimum'', None)
       else (c\<lparr>ct_shrink_cadences := cadences\<rparr>, ''hold'', None))"

definition controller_observe :: "int \<Rightarrow> bool \<Rightarrow> int \<Rightarrow> int \<Rightarrow> rat \<Rightarrow> controller \<Rightarrow> controller \<times> decision option res" where
  \<comment> \<open>\<^verbatim>\<open>AdaptiveController.observe\<close>\<close>
  "controller_observe now_ns stalled occupied batch_size bytes_per_second c =
    (let last = (case ct_last_decision_ns c of None \<Rightarrow> now_ns | Some t \<Rightarrow> if t = 0 then now_ns else t);
         c = c\<lparr>ct_last_decision_ns := Some last, ct_batches := ct_batches c + 1, ct_stalled := ct_stalled c \<or> stalled\<rparr>;
         elapsed = now_ns - last
     in if ct_batches c < ct_cadence_batches c \<or> elapsed < ct_cadence_ns c then (c, Inr None)
        else
          let starvation = (ct_stalled c \<or> occupied < batch_size); previous = ct_width c in
          case adapt c starvation bytes_per_second of
            (c, reason, binding) \<Rightarrow>
              (case objective_score (ct_objective c) starvation (ct_width c) (ct_work_shape c) (ct_cluster c) bytes_per_second 0 of
                 Inl e \<Rightarrow> (c, Inl e)
               | Inr score \<Rightarrow>
                   let d = \<lparr>dc_previous_width = previous, dc_width = ct_width c, dc_reason = reason,
                            dc_starvation = starvation, dc_score = score, dc_binding = binding\<rparr>
                   in (c\<lparr>ct_decisions := ct_decisions c @ [d], ct_last_decision_ns := Some now_ns, ct_batches := 0,
                         ct_stalled := False\<rparr>, Inr (Some d))))"

section \<open>Construction from the configuration\<close>

text \<open>
  \<open>cadence\<close>, \<open>cpu_cores\<close> and \<open>bandwidth\<close> are the configured values, \<open>None\<close> for \<^verbatim>\<open>AUTO\<close>; the factors
  follow in the order of the code.
\<close>

definition build_controller ::
    "calibration option \<Rightarrow> rat option \<Rightarrow> rat option \<Rightarrow> rat option \<Rightarrow> rat \<Rightarrow> int \<Rightarrow> int \<Rightarrow> int \<Rightarrow> int \<Rightarrow> controller res" where
  "build_controller calibration cadence cpu_cores bandwidth f_cad_s f_cad_b step_clip hysteresis spawned_ceiling =
    (let cadence_seconds = (case cadence of None \<Rightarrow> f_cad_s | Some s \<Rightarrow> s);
         cadence_batches = (case cadence of None \<Rightarrow> f_cad_b | Some _ \<Rightarrow> 1)
     in rbind
       (case cpu_cores of
          None \<Rightarrow> Inr (spawned_ceiling, False)
        | Some cores \<Rightarrow>
            if cores = 0 then Inl (ValueError ''control.ceilings.cpu_cores must be positive for process execution'')
            else let width_ceiling = min spawned_ceiling (if 0 \<le> cores then \<lfloor>cores\<rfloor> else \<lceil>cores\<rceil>)
                 in Inr (width_ceiling, width_ceiling < spawned_ceiling))
       (\<lambda>(width_ceiling, binding).
         new_controller width_ceiling cadence_seconds cadence_batches step_clip hysteresis calibration binding
           (map_option (\<lambda>b. b * 1000000000) bandwidth) ''compute'' ''all''))"

record controller_report =
  cr_binding :: "string option"
  cr_previous_width :: int
  cr_reason :: string
  cr_resource_loss :: rat
  cr_starvation :: bool
  cr_width :: int

definition decision_report :: "decision \<Rightarrow> controller_report" where
  "decision_report d =
    \<lparr>cr_binding = dc_binding d, cr_previous_width = dc_previous_width d, cr_reason = dc_reason d,
     cr_resource_loss = snd (dc_score d), cr_starvation = dc_starvation d, cr_width = dc_width d\<rparr>"

section \<open>The objective lies within its curves\<close>

lemma interpolate_between_bounds:
  assumes "sorted_wrt (\<lambda>p q. fst p < fst q) (left # points)" and "fst left \<le> x"
    and "\<And>p. p \<in> set (left # points) \<Longrightarrow> lo \<le> snd p \<and> snd p \<le> hi"
  shows "lo \<le> interpolate_between left points x \<and> interpolate_between left points x \<le> hi"
  using assms
proof (induction points arbitrary: left)
  case Nil
  then show ?case by simp
next
  case (Cons right points)
  show ?case
  proof (cases "x \<le> fst right")
    case True
    define w where "w = (x - fst left) / (fst right - fst left)"
    have "fst left < fst right" using Cons.prems(1) by simp
    with True Cons.prems(2) have w: "0 \<le> w" "w \<le> 1" by (simp_all add: w_def divide_le_eq_1)
    have b: "lo \<le> snd left" "snd left \<le> hi" "lo \<le> snd right" "snd right \<le> hi" using Cons.prems(3) by auto
    have "snd left + w * (snd right - snd left) = (1 - w) * snd left + w * snd right" by (simp add: algebra_simps)
    moreover have "(1 - w) * lo + w * lo \<le> (1 - w) * snd left + w * snd right"
      by (intro add_mono mult_left_mono) (use w b in simp_all)
    moreover have "(1 - w) * snd left + w * snd right \<le> (1 - w) * hi + w * hi"
      by (intro add_mono mult_left_mono) (use w b in simp_all)
    moreover have "(1 - w) * lo + w * lo = lo" "(1 - w) * hi + w * hi = hi" by (simp_all add: algebra_simps)
    ultimately show ?thesis using True by (simp add: w_def)
  next
    case False
    with Cons show ?thesis by simp
  qed
qed

section \<open>Runs of the controller\<close>

text \<open>An observation: time, whether delivery stalled, the occupied positions, the batch size, the byte rate.\<close>

type_synonym observation = "int \<times> bool \<times> int \<times> int \<times> rat"

fun controller_run :: "observation list \<Rightarrow> controller \<Rightarrow> controller \<times> unit res" where
  "controller_run [] c = (c, Inr ())"
| "controller_run ((now_ns, stalled, occupied, batch_size, rate) # observations) c =
    (case controller_observe now_ns stalled occupied batch_size rate c of
       (c, Inl e) \<Rightarrow> (c, Inl e)
     | (c, Inr _) \<Rightarrow> controller_run observations c)"

definition controller_ok :: "controller \<Rightarrow> bool" where
  "controller_ok c \<longleftrightarrow> 1 \<le> ct_width c \<and> ct_width c \<le> ct_width_ceiling c \<and> 0 < ct_step_clip c \<and> 0 \<le> ct_batches c \<and>
     (\<forall>d \<in> set (ct_decisions c). 1 \<le> dc_width d \<and> dc_width d \<le> ct_width_ceiling c \<and>
        \<bar>dc_width d - dc_previous_width d\<bar> \<le> ct_step_clip c)"

definition same_limits :: "controller \<Rightarrow> controller \<Rightarrow> bool" where
  "same_limits c d \<longleftrightarrow> ct_width_ceiling d = ct_width_ceiling c \<and> ct_step_clip d = ct_step_clip c \<and>
     ct_cadence_batches d = ct_cadence_batches c \<and> ct_bandwidth_ceiling d = ct_bandwidth_ceiling c"

lemma same_limits_trans: "same_limits c d \<Longrightarrow> same_limits d e \<Longrightarrow> same_limits c e"
  by (simp add: same_limits_def)

lemma adapt_ok:
  assumes "1 \<le> ct_width c" "ct_width c \<le> ct_width_ceiling c" "0 < ct_step_clip c" "adapt c starvation rate = (d, reason, binding)"
  shows "1 \<le> ct_width d \<and> ct_width d \<le> ct_width_ceiling c \<and> \<bar>ct_width d - ct_width c\<bar> \<le> ct_step_clip c \<and>
    same_limits c d \<and> ct_decisions d = ct_decisions c \<and> ct_batches d = ct_batches c"
  using assms by (auto simp: adapt_def Let_def same_limits_def split: if_splits)

lemma adapt_starved:
  assumes "\<not> (case ct_bandwidth_ceiling c of None \<Rightarrow> False | Some b \<Rightarrow> b < rate)" "adapt c True rate = (d, reason, binding)"
  shows "ct_width d = min (ct_width_ceiling c) (ct_width c + ct_step_clip c)"
  using assms by (auto simp: adapt_def Let_def split: if_splits)

text \<open>One observation: it decides, waits for its cadence, or fails after it has moved the width.\<close>

lemma observe_cases:
  assumes ok: "controller_ok c" and o: "controller_observe now_ns stalled occupied batch_size rate c = (c', x)"
  shows "controller_ok c' \<and> same_limits c c' \<and>
    (ct_decisions c' = ct_decisions c \<and> ct_batches c' = ct_batches c + 1 \<and> (\<forall>d. x \<noteq> Inr (Some d)) \<and>
       (x = Inr None \<longrightarrow> ct_width c' = ct_width c) \<or>
     (\<exists>d. x = Inr (Some d) \<and> ct_decisions c' = ct_decisions c @ [d] \<and> ct_batches c' = 0 \<and>
        ct_cadence_batches c \<le> ct_batches c + 1 \<and> dc_width d = ct_width c'))"
proof -
  define last where "last = (case ct_last_decision_ns c of None \<Rightarrow> now_ns | Some t \<Rightarrow> if t = 0 then now_ns else t)"
  define b where "b = c\<lparr>ct_last_decision_ns := Some last, ct_batches := ct_batches c + 1, ct_stalled := ct_stalled c \<or> stalled\<rparr>"
  have bok: "1 \<le> ct_width b" "ct_width b \<le> ct_width_ceiling b" "0 < ct_step_clip b" using ok by (simp_all add: b_def controller_ok_def)
  show ?thesis
  proof (cases "ct_batches b < ct_cadence_batches b \<or> now_ns - last < ct_cadence_ns b")
    case True
    then have "c' = b \<and> x = Inr None"
      using o unfolding controller_observe_def Let_def last_def [symmetric] b_def [symmetric] by simp
    with ok show ?thesis by (simp add: b_def controller_ok_def same_limits_def)
  next
    case False
    obtain a reason binding where a: "adapt b (ct_stalled b \<or> occupied < batch_size) rate = (a, reason, binding)" by (metis prod_cases3)
    note aok = adapt_ok [OF bok a]
    have scored: "(c', x) = (case objective_score (ct_objective a) (ct_stalled b \<or> occupied < batch_size) (ct_width a) (ct_work_shape a)
        (ct_cluster a) rate 0 of
       Inl e \<Rightarrow> (a, Inl e)
     | Inr score \<Rightarrow>
         let d = \<lparr>dc_previous_width = ct_width b, dc_width = ct_width a, dc_reason = reason,
                  dc_starvation = ct_stalled b \<or> occupied < batch_size, dc_score = score, dc_binding = binding\<rparr>
         in (a\<lparr>ct_decisions := ct_decisions a @ [d], ct_last_decision_ns := Some now_ns, ct_batches := 0, ct_stalled := False\<rparr>,
             Inr (Some d)))"
      using o False a unfolding controller_observe_def Let_def last_def [symmetric] b_def [symmetric] by simp
    have same: "ct_decisions b = ct_decisions c" "ct_batches b = ct_batches c + 1" "same_limits c b" "ct_width b = ct_width c"
      by (simp_all add: b_def same_limits_def)
    show ?thesis
      using scored aok same ok False
      by (auto simp: controller_ok_def same_limits_def Let_def b_def split: sum.splits)
  qed
qed

lemma run_ok:
  assumes "controller_run observations c = (c', x)" and "controller_ok c" and "0 < ct_cadence_batches c"
  shows "controller_ok c' \<and> same_limits c c' \<and>
    int (length (ct_decisions c')) * ct_cadence_batches c + ct_batches c' \<le>
    int (length (ct_decisions c)) * ct_cadence_batches c + ct_batches c + int (length observations)"
  using assms
proof (induction observations c rule: controller_run.induct)
  case (1 c)
  then show ?case by (simp add: same_limits_def)
next
  case (2 now_ns stalled occupied batch_size rate observations c)
  obtain d y where o: "controller_observe now_ns stalled occupied batch_size rate c = (d, y)" by fastforce
  note cases = observe_cases [OF "2.prems"(2) o]
  then have dok: "controller_ok d" "same_limits c d" "0 < ct_cadence_batches d"
    using "2.prems"(3) by (simp_all add: same_limits_def)
  have step: "int (length (ct_decisions d)) * ct_cadence_batches c + ct_batches d \<le>
      int (length (ct_decisions c)) * ct_cadence_batches c + ct_batches c + 1"
    using cases by (auto simp: distrib_right)
  show ?case
  proof (cases y)
    case (Inl e)
    with "2.prems"(1) o dok step show ?thesis by simp
  next
    case (Inr z)
    with "2.prems"(1) o have "controller_run observations d = (c', x)" by simp
    from "2.IH" [OF o [symmetric] Inr this dok(1,3)] dok(2) step show ?thesis
      by (auto simp: same_limits_def)
  qed
qed

lemma run_decisions: "controller_run observations c = (c', x) \<Longrightarrow> length (ct_decisions c) \<le> length (ct_decisions c')"
proof (induction observations c rule: controller_run.induct)
  case (2 now_ns stalled occupied batch_size rate observations c)
  obtain d y where o: "controller_observe now_ns stalled occupied batch_size rate c = (d, y)" by fastforce
  have "length (ct_decisions c) \<le> length (ct_decisions d)"
    using o by (auto simp: controller_observe_def adapt_def Let_def split: if_splits sum.splits)
  with 2 o show ?case by (cases y) fastforce+
qed simp


definition sample_controller :: controller where
  "sample_controller = \<lparr>ct_width_ceiling = 4, ct_width = 4, ct_cadence_ns = 1000000000, ct_cadence_batches = 2,
     ct_step_clip = 2, ct_shrink_hysteresis = 1, ct_objective = None, ct_cpu_ceiling_binding = False,
     ct_bandwidth_ceiling = None, ct_work_shape = ''compute'', ct_cluster = ''all'', ct_last_decision_ns = None,
     ct_batches = 0, ct_stalled = False, ct_shrink_cadences = 0, ct_decisions = []\<rparr>"

lemma sample_controller_new: "new_controller 4 1 2 2 1 None False None ''compute'' ''all'' = Inr sample_controller"
  by (simp add: new_controller_def sample_controller_def)


section \<open>Sustained starvation\<close>

lemma observe_starved:
  assumes ok: "controller_ok c" and "ct_bandwidth_ceiling c = None"
    and o: "controller_observe now_ns True occupied batch_size rate c = (c', Inr (Some d))"
  shows "ct_width c' = min (ct_width_ceiling c) (ct_width c + ct_step_clip c)"
proof -
  define last where "last = (case ct_last_decision_ns c of None \<Rightarrow> now_ns | Some t \<Rightarrow> if t = 0 then now_ns else t)"
  define b where "b = c\<lparr>ct_last_decision_ns := Some last, ct_batches := ct_batches c + 1, ct_stalled := True\<rparr>"
  obtain a reason binding where a: "adapt b True rate = (a, reason, binding)" by (metis prod_cases3)
  have "ct_width a = min (ct_width_ceiling b) (ct_width b + ct_step_clip b)"
    by (rule adapt_starved [OF _ a]) (simp add: b_def assms(2))
  moreover have "ct_width c' = ct_width a"
    using o a unfolding controller_observe_def Let_def last_def [symmetric]
    by (simp add: b_def [symmetric] Let_def split: if_splits sum.splits) (auto simp: b_def split: if_splits sum.splits)
  ultimately show ?thesis by (simp add: b_def)
qed

text \<open>
  While delivery keeps stalling, every decision adds the clip until the ceiling is reached.
\<close>

lemma starved_run_grows:
  assumes "controller_run observations c = (c', Inr ())" and "controller_ok c" and "0 < ct_cadence_batches c"
    and "ct_bandwidth_ceiling c = None" and "list_all (\<lambda>(_, stalled, _). stalled) observations"
  shows "ct_width c' = min (ct_width_ceiling c)
    (ct_width c + ct_step_clip c * (int (length (ct_decisions c')) - int (length (ct_decisions c))))"
  using assms
proof (induction observations c rule: controller_run.induct)
  case (1 c)
  then show ?case by (auto simp: controller_ok_def)
next
  case (2 now_ns stalled occupied batch_size rate observations c)
  obtain d y where o: "controller_observe now_ns stalled occupied batch_size rate c = (d, y)" by fastforce
  have stalled: stalled using "2.prems"(5) by simp
  from "2.prems"(1) o obtain z where y: "y = Inr z" and run: "controller_run observations d = (c', Inr ())"
    by (cases y) auto
  note cases = observe_cases [OF "2.prems"(2) o]
  then have dok: "controller_ok d" "same_limits c d" "0 < ct_cadence_batches d" "ct_bandwidth_ceiling d = None"
    using "2.prems"(3,4) by (simp_all add: same_limits_def)
  have IH: "ct_width c' = min (ct_width_ceiling d)
      (ct_width d + ct_step_clip d * (int (length (ct_decisions c')) - int (length (ct_decisions d))))"
    using "2.IH" [OF o [symmetric] y run dok(1,3,4)] "2.prems"(5) by simp
  have more: "length (ct_decisions d) \<le> length (ct_decisions c')"
    using run_decisions [OF run] .
  show ?case
  proof (cases z)
    case None
    with cases y have "ct_width d = ct_width c" "ct_decisions d = ct_decisions c" by auto
    with IH dok(2) show ?thesis by (simp add: same_limits_def)
  next
    case (Some e)
    with cases y have len: "int (length (ct_decisions d)) = int (length (ct_decisions c)) + 1" by auto
    have "ct_width d = min (ct_width_ceiling c) (ct_width c + ct_step_clip c)"
      using observe_starved [OF "2.prems"(2,4)] o y Some stalled by simp
    moreover have "0 \<le> ct_step_clip c * (int (length (ct_decisions c')) - int (length (ct_decisions d)))"
      using more "2.prems"(2) by (simp add: controller_ok_def)
    ultimately show ?thesis using IH dok(2) len by (simp add: same_limits_def algebra_simps min_def)
  qed
qed

end
