(* ===== verification/ProcessTier.thy ===== *)
theory ProcessTier
  imports Pool Control InProcess
begin

text \<open>
  The process iterator (\<^verbatim>\<open>process/iterator.py\<close>, \<^verbatim>\<open>completion.py\<close> and the owner's functions of
  \<^verbatim>\<open>user_collation.py\<close>): the frontier is kept full, completions are polled into the ready map, and
  batches are delivered in order, or in the order of their completion.  The samples of a user
  sampler are read by a pure function here, and the delivery telemetry plays no part.
\<close>

section \<open>State\<close>

record 'v process_state =
  ps_loader :: map_loader
  ps_pool :: pool
  ps_controller :: controller
  ps_profile :: "cost_profile option"
  ps_epoch :: int
  ps_length :: int
  ps_on_completion :: bool
  ps_position :: int
  ps_complete :: bool
  ps_valid :: bool
  ps_ready :: "(int, int \<times> int list \<times> int) dict"
  ps_delivered :: delivered_batches
  ps_ready_batches :: "int list"
  ps_queued_batches :: "int fset"
  ps_schedule :: frontier
  ps_worker_batches :: bool
  ps_user_collation :: bool
  ps_transport_batch_size :: "int option"
  ps_last_delivery_ns :: int
  ps_decoder :: "'v decoder"

text \<open>
  What the iterator needs beside its state: the native plan, the sampler's index by position, the
  pickled user-collation command, the wire codec, the exception a detached one becomes, raw batches
  and the owner's collation.
\<close>

record 'v process_env =
  pe_plan :: "int \<Rightarrow> int \<Rightarrow> int \<Rightarrow> int run"
  pe_sampler :: "(int \<Rightarrow> int res) option"
  pe_pickle :: "int \<Rightarrow> int \<Rightarrow> (int \<times> int) list \<Rightarrow> bool \<Rightarrow> int list"
  pe_codec :: "'v codec"
  pe_reraise :: "int list \<Rightarrow> py_error"
  pe_rows :: "layout \<Rightarrow> int list \<Rightarrow> 'v res"
  pe_collate :: "'v list \<Rightarrow> 'v res"

text \<open>One turn of a waiting loop: the world outside, how long the wait took, and the time after it.\<close>

record turn = world +
  tn_wait_ns :: int

section \<open>Dispatch\<close>

definition dispatch_cost :: "'v process_state \<Rightarrow> int \<Rightarrow> rat option" where
  \<comment> \<open>the positions of the schedule are the profile's, so \<open>estimate\<close> does not raise\<close>
  "dispatch_cost s position =
    (case ps_profile s of
       None \<Rightarrow> None
     | Some profile \<Rightarrow>
         let cost = (\<lambda>sample. case estimate profile sample of Inr r \<Rightarrow> r | Inl _ \<Rightarrow> None)
         in (case ps_transport_batch_size s of
              None \<Rightarrow> cost position
            | Some batch_size \<Rightarrow>
                let start = position * batch_size;
                    stop = min (start + batch_size) (ps_length s);
                    estimates = map cost (irange start stop)
                in if \<exists>e \<in> set estimates. e = None then None else Some (sum_list (map the estimates))))"

definition collated_command ::
    "(int \<Rightarrow> int \<Rightarrow> int \<Rightarrow> int run) \<Rightarrow> map_loader \<Rightarrow> int \<Rightarrow> int \<Rightarrow> int \<Rightarrow> ((int \<times> int) list \<times> bool) run" where
  "collated_command plan l epoch batch_ordinal n =
    (let width = loader_width l;
         start = batch_ordinal * width;
         stop = min n (start + width)
     in obind (otraverse (\<lambda>position. obind (returns (native_coordinate l position)) (\<lambda>c.
                obind (native_index plan l epoch position) (\<lambda>i. returns (Inr (c, i))))) (irange start stop)) (\<lambda>entries.
        returns (Inr (entries, sz_batch_size (ld_sizing l) \<noteq> None))))"

text \<open>The coordinate and the index of one command, and the samples it covers.\<close>

definition command_target :: "'v process_env \<Rightarrow> map_loader \<Rightarrow> int \<Rightarrow> int \<Rightarrow> (int \<times> int) run" where
  "command_target env l epoch sample_position =
    (case pe_sampler env of
       None \<Rightarrow> obind (returns (native_coordinate l sample_position)) (\<lambda>c.
               obind (native_index (pe_plan env) l epoch sample_position) (\<lambda>i. returns (Inr (c, i))))
     | Some index \<Rightarrow> obind (returns (index sample_position)) (\<lambda>i. returns (Inr (sample_position, i))))"

definition sample_position :: "'v process_state \<Rightarrow> int \<Rightarrow> int" where
  "sample_position s position = (case ps_transport_batch_size s of None \<Rightarrow> position | Some b \<Rightarrow> position * b)"

definition command_length :: "'v process_state \<Rightarrow> int \<Rightarrow> int" where
  "command_length s position =
    (case ps_transport_batch_size s of None \<Rightarrow> 0 | Some b \<Rightarrow> min b (ps_length s - sample_position s position))"

text \<open>
  One position of \<^verbatim>\<open>_fill_frontier\<close>'s loop: \<open>None\<close> when the index computation does not return, and
  the flag is whether the loop goes on.
\<close>

definition submit_position ::
    "'v process_env \<Rightarrow> bool \<Rightarrow> int \<Rightarrow> int \<Rightarrow> 'v process_state \<Rightarrow> ('v process_state \<times> bool res) option" where
  "submit_position env broken position worker s =
    (case (if ps_user_collation s then
             (case collated_command (pe_plan env) (ps_loader s) (ps_epoch s) position (ps_length s) of
                None \<Rightarrow> None
              | Some (Inl e) \<Rightarrow> Some (s, Inl e)
              | Some (Inr (entries, auto_collation)) \<Rightarrow>
                  (case pool_submit_collated broken (ps_epoch s) position (length entries)
                          (pe_pickle env (ps_epoch s) position entries auto_collation) worker (ps_pool s) of
                     (p, accepted) \<Rightarrow> Some (s\<lparr>ps_pool := p\<rparr>, accepted)))
           else
             (case command_target env (ps_loader s) (ps_epoch s) (sample_position s position) of
                None \<Rightarrow> None
              | Some (Inl e) \<Rightarrow> Some (s, Inl e)
              | Some (Inr (coord, index)) \<Rightarrow>
                  (case pool_submit broken (ps_epoch s) position index worker (command_length s position) (Some coord) (ps_pool s) of
                     (p, accepted) \<Rightarrow> Some (s\<lparr>ps_pool := p\<rparr>, accepted)))) of
       None \<Rightarrow> None
     | Some (s, Inl e) \<Rightarrow> Some (s, Inl e)
     | Some (s, Inr False) \<Rightarrow> Some (s, Inr False)
     | Some (s, Inr True) \<Rightarrow>
         (case fr_mark_dispatched position worker (ps_schedule s) of
            Inl e \<Rightarrow> Some (s, Inl e)
          | Inr f \<Rightarrow> Some (s\<lparr>ps_schedule := f\<rparr>, Inr True)))"

fun fill_positions ::
    "'v process_env \<Rightarrow> bool \<Rightarrow> int list \<Rightarrow> 'v process_state \<Rightarrow> ('v process_state \<times> unit res) option" where
  "fill_positions env broken [] s = Some (s, Inr ())"
| "fill_positions env broken (selected # order) s =
    (case fr_dispatch_at (ps_schedule s) selected of
       None \<Rightarrow> fill_positions env broken order s
     | Some (position, worker) \<Rightarrow>
         (case submit_position env broken position worker s of
            None \<Rightarrow> None
          | Some (s, Inl e) \<Rightarrow> Some (s, Inl e)
          | Some (s, Inr False) \<Rightarrow> Some (s, Inr ())
          | Some (s, Inr True) \<Rightarrow> fill_positions env broken order s))"

definition fill_order :: "'v process_state \<Rightarrow> int list" where
  "fill_order s =
    (let order = dispatch_order ((ps_schedule s)\<lparr>fr_cost_estimator := Some (dispatch_cost s)\<rparr>)
     in case retained_probe_command (ps_pool s) of
          Some probe \<Rightarrow> if \<not> ps_user_collation s \<and> probe \<in> set order then probe # remove1 probe order else order
        | None \<Rightarrow> order)"

definition fill_frontier :: "'v process_env \<Rightarrow> bool \<Rightarrow> 'v process_state \<Rightarrow> ('v process_state \<times> unit res) option" where
  "fill_frontier env broken s = fill_positions env broken (fill_order s) s"

section \<open>Completions\<close>

text \<open>\<^verbatim>\<open>CompletionBatchDelivery.observe\<close>.\<close>

definition observe_completion :: "int \<Rightarrow> 'v process_state \<Rightarrow> 'v process_state" where
  "observe_completion position s =
    (let width = loader_width (ps_loader s);
         ordinal = (if ps_worker_batches s then position else position div width)
     in if ordinal |\<in>| ps_queued_batches s then s
        else if \<not> ps_worker_batches s \<and>
                (\<exists>sample \<in> set (irange (ordinal * width) (min (ordinal * width + width) (ps_length s))).
                   sample \<notin> dict_keys (ps_ready s)) then s
        else s\<lparr>ps_queued_batches := finsert ordinal (ps_queued_batches s), ps_ready_batches := ps_ready_batches s @ [ordinal]\<rparr>)"

fun observe_each :: "int \<Rightarrow> int list \<Rightarrow> cost_profile \<Rightarrow> cost_profile \<times> unit res" where
  "observe_each cost_ns [] p = (p, Inr ())"
| "observe_each cost_ns (position # positions) p =
    (case observe position cost_ns p of
       Inl e \<Rightarrow> (p, Inl e)
     | Inr p \<Rightarrow> observe_each cost_ns positions p)"

definition record_cost :: "int \<Rightarrow> int \<Rightarrow> 'v process_state \<Rightarrow> 'v process_state \<times> unit res" where
  "record_cost position cost_ns s =
    (case ps_profile s of
       None \<Rightarrow> (s, Inr ())
     | Some profile \<Rightarrow>
         (case (case ps_transport_batch_size s of
                  None \<Rightarrow> Inr (cost_ns, [position])
                | Some batch_size \<Rightarrow>
                    let start = position * batch_size; batch_len = min batch_size (ps_length s - start)
                    in rmap (\<lambda>(share, _). (max 1 share, irange start (start + batch_len))) (py_divmod cost_ns batch_len)) of
            Inl e \<Rightarrow> (s, Inl e)
          | Inr (cost_ns, positions) \<Rightarrow>
              (case observe_each cost_ns positions profile of (profile, r) \<Rightarrow> (s\<lparr>ps_profile := Some profile\<rparr>, r))))"

definition take_completion :: "int \<Rightarrow> int \<times> int \<times> int list \<times> int \<Rightarrow> 'v process_state \<Rightarrow> 'v process_state \<times> unit res" where
  "take_completion worker completion s =
    (case completion of (position, status, payload, cost_ns) \<Rightarrow>
      (case fr_mark_completed position worker (ps_schedule s) of
         Inl e \<Rightarrow> (s, Inl e)
       | Inr f \<Rightarrow>
           let s = s\<lparr>ps_schedule := f, ps_ready := dict_set position (status, payload, worker) (ps_ready s)\<rparr>;
               s = (if ps_on_completion s then observe_completion position s else s)
           in if status = 0 \<or> status = 2 then record_cost position cost_ns s else (s, Inr ())))"

fun poll_workers :: "int list \<Rightarrow> bool \<Rightarrow> 'v process_state \<Rightarrow> 'v process_state \<times> bool res" where
  "poll_workers [] progressed s = (s, Inr progressed)"
| "poll_workers (worker # workers) progressed s =
    (case pool_receive worker (ps_pool s) of
       (p, Inl e) \<Rightarrow> (s\<lparr>ps_pool := p\<rparr>, Inl e)
     | (p, Inr None) \<Rightarrow> poll_workers workers progressed (s\<lparr>ps_pool := p\<rparr>)
     | (p, Inr (Some completion)) \<Rightarrow>
         (case take_completion worker completion (s\<lparr>ps_pool := p\<rparr>) of
            (s, Inl e) \<Rightarrow> (s, Inl e)
          | (s, Inr _) \<Rightarrow> poll_workers workers True s))"

definition poll_completions :: "'v process_state \<Rightarrow> 'v process_state \<times> bool res" where
  "poll_completions s = poll_workers (irange 0 (worker_count (ps_pool s))) False s"

text \<open>The end of a turn without progress: liveness, the wait, and its record in the frontier.\<close>

definition wait_turn :: "turn \<Rightarrow> 'v process_state \<Rightarrow> 'v process_state \<times> unit res" where
  "wait_turn t s =
    (case check_workers (wd_alive t) (wd_expired t) (ps_pool s) of
       (p, Inl e) \<Rightarrow> (s\<lparr>ps_pool := p\<rparr>, Inl e)
     | (p, Inr _) \<Rightarrow>
         (case wait_for_completion (world.truncate t) p of
            (p, Inl e) \<Rightarrow> (s\<lparr>ps_pool := p\<rparr>, Inl e)
          | (p, Inr _) \<Rightarrow>
              (case record_wait (tn_wait_ns t) (ps_schedule s) of
                 (f, r) \<Rightarrow> (s\<lparr>ps_pool := p, ps_schedule := f\<rparr>, r))))"

section \<open>Delivery\<close>

text \<open>
  \<^verbatim>\<open>_next_completion\<close>: the turns that pass while the position is awaited; \<open>None\<close> when they end
  before it is committed, or when an index computation does not return.
\<close>

fun next_completion ::
    "'v process_env \<Rightarrow> int \<Rightarrow> turn list \<Rightarrow> 'v process_state \<Rightarrow>
     ('v process_state \<times> turn list \<times> (int \<times> int list \<times> int) res) option" where
  "next_completion env expected [] s = None"
| "next_completion env expected (t # ts) s =
    (case fill_frontier env (wd_broken t) s of
       None \<Rightarrow> None
     | Some (s, Inl e) \<Rightarrow> Some (s, ts, Inl e)
     | Some (s, Inr _) \<Rightarrow>
         (case fr_try_commit (ps_schedule s) of
            (f, Some position) \<Rightarrow>
              let s = s\<lparr>ps_schedule := f\<rparr> in
              if position \<noteq> expected
              then Some (s, ts, Inl (RuntimeError ''scheduler committed a noncontiguous position''))
              else
                (case dict_get (ps_ready s) position of
                   None \<Rightarrow> Some (s, ts, Inl (KeyError ''position''))
                 | Some completion \<Rightarrow>
                     (case fill_frontier env (wd_broken t) (s\<lparr>ps_ready := dict_del position (ps_ready s)\<rparr>) of
                        None \<Rightarrow> None
                      | Some (s, Inl e) \<Rightarrow> Some (s, ts, Inl e)
                      | Some (s, Inr _) \<Rightarrow> Some (s, ts, Inr completion)))
          | (f, None) \<Rightarrow>
              (case poll_completions (s\<lparr>ps_schedule := f\<rparr>) of
                 (s, Inl e) \<Rightarrow> Some (s, ts, Inl e)
               | (s, Inr True) \<Rightarrow> next_completion env expected ts s
               | (s, Inr False) \<Rightarrow>
                   (case wait_turn t s of
                      (s, Inl e) \<Rightarrow> Some (s, ts, Inl e)
                    | (s, Inr _) \<Rightarrow> next_completion env expected ts s))))"

definition decode_sample :: "'v process_env \<Rightarrow> int \<times> int list \<times> int \<Rightarrow> 'v process_state \<Rightarrow> 'v process_state \<times> 'v res" where
  "decode_sample env completion s =
    (case completion of (status, payload, worker) \<Rightarrow>
      (case pool_decode (pe_codec env) (pe_reraise env) status payload worker (ps_decoder s) of
         (bases, r) \<Rightarrow> (s\<lparr>ps_decoder := bases\<rparr>, r)))"

definition decode_worker_batch :: "'v process_env \<Rightarrow> int \<times> int list \<times> int \<Rightarrow> 'v process_state \<Rightarrow> 'v process_state \<times> 'v res" where
  "decode_worker_batch env completion s =
    (case completion of (status, payload, worker) \<Rightarrow>
      (case pool_decode_batch (pe_codec env) (pe_reraise env) (pe_rows env) (ps_pool s) status payload worker (ps_decoder s) of
         (bases, r) \<Rightarrow> (s\<lparr>ps_decoder := bases\<rparr>, r)))"

definition next_sample ::
    "'v process_env \<Rightarrow> int \<Rightarrow> turn list \<Rightarrow> 'v process_state \<Rightarrow> ('v process_state \<times> turn list \<times> 'v res) option" where
  "next_sample env expected ts s =
    (case next_completion env expected ts s of
       None \<Rightarrow> None
     | Some (s, ts, Inl e) \<Rightarrow> Some (s, ts, Inl e)
     | Some (s, ts, Inr completion) \<Rightarrow> (case decode_sample env completion s of (s, r) \<Rightarrow> Some (s, ts, r)))"

fun next_samples ::
    "'v process_env \<Rightarrow> int list \<Rightarrow> turn list \<Rightarrow> 'v process_state \<Rightarrow> ('v process_state \<times> turn list \<times> 'v list res) option" where
  "next_samples env [] ts s = Some (s, ts, Inr [])"
| "next_samples env (position # positions) ts s =
    (case next_sample env position ts s of
       None \<Rightarrow> None
     | Some (s, ts, Inl e) \<Rightarrow> Some (s, ts, Inl e)
     | Some (s, ts, Inr v) \<Rightarrow>
         (case next_samples env positions ts s of
            None \<Rightarrow> None
          | Some (s, ts, r) \<Rightarrow> Some (s, ts, rmap (Cons v) r)))"

definition next_owner_batch ::
    "'v process_env \<Rightarrow> int \<Rightarrow> int \<Rightarrow> turn list \<Rightarrow> 'v process_state \<Rightarrow> ('v process_state \<times> turn list \<times> 'v res) option" where
  \<comment> \<open>\<^verbatim>\<open>_next_batch\<close>\<close>
  "next_owner_batch env start stop ts s =
    (case next_samples env (irange start stop) ts s of
       None \<Rightarrow> None
     | Some (s, ts, r) \<Rightarrow> Some (s, ts, rbind r (pe_collate env)))"

definition next_worker_batch ::
    "'v process_env \<Rightarrow> int \<Rightarrow> turn list \<Rightarrow> 'v process_state \<Rightarrow> ('v process_state \<times> turn list \<times> 'v res) option" where
  "next_worker_batch env ordinal ts s =
    (case next_completion env ordinal ts s of
       None \<Rightarrow> None
     | Some (s, ts, Inl e) \<Rightarrow> Some (s, ts, Inl e)
     | Some (s, ts, Inr completion) \<Rightarrow> (case decode_worker_batch env completion s of (s, r) \<Rightarrow> Some (s, ts, r)))"

text \<open>\<^verbatim>\<open>_take_ready_batch\<close>: the samples of a batch that is ready, committed one by one.\<close>

fun take_samples :: "'v process_env \<Rightarrow> int list \<Rightarrow> 'v process_state \<Rightarrow> 'v process_state \<times> 'v list res" where
  "take_samples env [] s = (s, Inr [])"
| "take_samples env (position # positions) s =
    (case dict_get (ps_ready s) position of
       None \<Rightarrow> (s, Inl (KeyError ''position''))
     | Some completion \<Rightarrow>
         (case fr_try_commit_ready position (ps_schedule s) of
            (f, out) \<Rightarrow>
              let s = s\<lparr>ps_ready := dict_del position (ps_ready s), ps_schedule := f\<rparr> in
              if out \<noteq> Some position then (s, Inl (RuntimeError ''ready sample could not commit''))
              else
                (case decode_sample env completion s of
                   (s, Inl e) \<Rightarrow> (s, Inl e)
                 | (s, Inr v) \<Rightarrow> (case take_samples env positions s of (s, r) \<Rightarrow> (s, rmap (Cons v) r)))))"

definition take_ready_batch :: "'v process_env \<Rightarrow> bool \<Rightarrow> 'v process_state \<Rightarrow> ('v process_state \<times> (int \<times> 'v \<times> int) res) option" where
  "take_ready_batch env broken s =
    (case ps_ready_batches s of
       [] \<Rightarrow> Some (s, Inl (IndexError ''pop from an empty deque''))
     | ordinal # rest \<Rightarrow>
         let s = s\<lparr>ps_ready_batches := rest, ps_queued_batches := ps_queued_batches s |-| {|ordinal|}\<rparr>;
             width = loader_width (ps_loader s);
             start = ordinal * width; stop = min (start + width) (ps_length s)
         in (case (if ps_worker_batches s then
                    (case dict_get (ps_ready s) ordinal of
                       None \<Rightarrow> (s, Inl (KeyError ''ordinal''))
                     | Some completion \<Rightarrow>
                         (case fr_try_commit_ready ordinal (ps_schedule s) of
                            (f, out) \<Rightarrow>
                              let s = s\<lparr>ps_ready := dict_del ordinal (ps_ready s), ps_schedule := f\<rparr> in
                              if out \<noteq> Some ordinal then (s, Inl (RuntimeError ''ready batch could not commit''))
                              else (case decode_worker_batch env completion s of
                                      (s, r) \<Rightarrow> (s, rmap (\<lambda>v. (v, min width (ps_length s - start))) r))))
                  else
                    (case take_samples env (irange start stop) s of
                       (s, r) \<Rightarrow>
                         (s, rbind r (\<lambda>values.
                               rmap (\<lambda>v. (v, stop - start))
                                 (if sz_batch_size (ld_sizing (ps_loader s)) = None then Inr (hd values)
                                  else pe_collate env values))))) of
              (s, Inl e) \<Rightarrow> Some (s, Inl e)
            | (s, Inr (v, delivered)) \<Rightarrow>
                (case fill_frontier env broken s of
                   None \<Rightarrow> None
                 | Some (s, Inl e) \<Rightarrow> Some (s, Inl e)
                 | Some (s, Inr _) \<Rightarrow> Some (s, Inr (ordinal, v, delivered)))))"

fun next_ready_batch ::
    "'v process_env \<Rightarrow> turn list \<Rightarrow> 'v process_state \<Rightarrow>
     ('v process_state \<times> turn list \<times> (int \<times> 'v \<times> int) res) option" where
  \<comment> \<open>\<^verbatim>\<open>CompletionBatchDelivery.next_batch\<close>\<close>
  "next_ready_batch env [] s = None"
| "next_ready_batch env (t # ts) s =
    (case fill_frontier env (wd_broken t) s of
       None \<Rightarrow> None
     | Some (s, Inl e) \<Rightarrow> Some (s, ts, Inl e)
     | Some (s, Inr _) \<Rightarrow>
         if ps_ready_batches s \<noteq> [] then map_option (\<lambda>(s, r). (s, ts, r)) (take_ready_batch env (wd_broken t) s)
         else
           (case poll_completions s of
              (s, Inl e) \<Rightarrow> Some (s, ts, Inl e)
            | (s, Inr True) \<Rightarrow> next_ready_batch env ts s
            | (s, Inr False) \<Rightarrow>
                (case wait_turn t s of
                   (s, Inl e) \<Rightarrow> Some (s, ts, Inl e)
                 | (s, Inr _) \<Rightarrow> next_ready_batch env ts s)))"

section \<open>The iterator\<close>

definition adapt_controller :: "int \<Rightarrow> int \<Rightarrow> 'v process_state \<Rightarrow> 'v process_state \<times> unit res" where
  "adapt_controller now_ns samples s =
    (let elapsed_ns = max 1 (now_ns - ps_last_delivery_ns s);
         s = s\<lparr>ps_last_delivery_ns := now_ns\<rparr>;
         (f, stalled) = consume_stall_flag (ps_schedule s);
         s = s\<lparr>ps_schedule := f\<rparr>
     in if ps_length s \<le> ps_position s then (s, Inr ())
        else
          let batch_size = (if ps_worker_batches s \<or> ps_user_collation s then loader_width (ps_loader s) else 1);
              rate = of_int (pl_bytes_sample (ps_pool s) * samples) * 1000000000 / of_int elapsed_ns
          in (case controller_observe now_ns stalled (fr_occupied f) batch_size rate (ps_controller s) of
               (c, Inl e) \<Rightarrow> (s\<lparr>ps_controller := c\<rparr>, Inl e)
             | (c, Inr None) \<Rightarrow> (s\<lparr>ps_controller := c\<rparr>, Inr ())
             | (c, Inr (Some d)) \<Rightarrow>
                 (case fr_set_worker_count (dc_width d) (ps_schedule s) of
                    Inl e \<Rightarrow> (s\<lparr>ps_controller := c\<rparr>, Inl e)
                  | Inr f \<Rightarrow> (s\<lparr>ps_controller := c, ps_schedule := f\<rparr>, Inr ()))))"

definition finish_process_epoch :: "'v process_state \<Rightarrow> 'v process_state" where
  "finish_process_epoch s =
    (if ps_complete s then s
     else s\<lparr>ps_loader := (ps_loader s)\<lparr>ld_epoch_state := complete_epoch (ps_epoch s) (ld_epoch_state (ps_loader s))\<rparr>,
            ps_complete := True\<rparr>)"

definition mark_delivered :: "'v process_state \<Rightarrow> 'v process_state" where
  "mark_delivered s =
    s\<lparr>ps_loader := (ps_loader s)\<lparr>ld_epoch_state := mark_epoch_delivered (ps_epoch s) (ld_epoch_state (ps_loader s))\<rparr>\<rparr>"

text \<open>The end of a delivery: the position, the epoch's mark and the controller's decision.\<close>

definition delivered_to :: "int \<Rightarrow> int \<Rightarrow> int \<Rightarrow> 'v \<Rightarrow> 'v process_state \<Rightarrow> 'v process_state \<times> 'v res" where
  "delivered_to position now_ns samples v s =
    (case adapt_controller now_ns samples (mark_delivered (s\<lparr>ps_position := position\<rparr>)) of
       (s, r) \<Rightarrow> (s, rmap (\<lambda>_. v) r))"

definition mark_ordinal :: "int \<Rightarrow> 'v process_state \<Rightarrow> 'v process_state \<times> unit res" where
  "mark_ordinal ordinal s =
    (case mark_batch ordinal (ps_delivered s) of
       Inl e \<Rightarrow> (s, Inl e)
     | Inr d \<Rightarrow> (s\<lparr>ps_delivered := d\<rparr>, Inr ()))"

text \<open>The branches of \<^verbatim>\<open>_next_value\<close>; \<open>now_ns\<close> is the time of the delivery.\<close>

definition next_user_batch ::
    "'v process_env \<Rightarrow> int \<Rightarrow> turn list \<Rightarrow> 'v process_state \<Rightarrow> ('v process_state \<times> 'v res) option" where
  "next_user_batch env now_ns ts s =
    (let width = loader_width (ps_loader s); ordinal = ps_position s div width in
     case next_sample env ordinal ts s of
       None \<Rightarrow> None
     | Some (s, _, Inl e) \<Rightarrow> Some (s, Inl e)
     | Some (s, _, Inr v) \<Rightarrow>
         let s = s\<lparr>ps_position := min (ps_length s) (ps_position s + width)\<rparr> in
         (case mark_ordinal ordinal s of
            (s, Inl e) \<Rightarrow> Some (s, Inl e)
          | (s, Inr _) \<Rightarrow>
              Some (delivered_to (ps_position s) now_ns (min width (ps_length s - ordinal * width)) v s)))"

definition next_completed ::
    "'v process_env \<Rightarrow> int \<Rightarrow> turn list \<Rightarrow> 'v process_state \<Rightarrow> ('v process_state \<times> 'v res) option" where
  "next_completed env now_ns ts s =
    (case next_ready_batch env ts s of
       None \<Rightarrow> None
     | Some (s, _, Inl e) \<Rightarrow> Some (s, Inl e)
     | Some (s, _, Inr (ordinal, v, samples)) \<Rightarrow>
         let s = s\<lparr>ps_position := ps_position s + samples\<rparr> in
         (case mark_ordinal ordinal s of
            (s, Inl e) \<Rightarrow> Some (s, Inl e)
          | (s, Inr _) \<Rightarrow> Some (delivered_to (ps_position s) now_ns samples v s)))"

definition next_in_order ::
    "'v process_env \<Rightarrow> int \<Rightarrow> turn list \<Rightarrow> 'v process_state \<Rightarrow> ('v process_state \<times> 'v res) option" where
  "next_in_order env now_ns ts s =
    (case (case sz_batch_size (ld_sizing (ps_loader s)) of
             None \<Rightarrow> (ps_position s + 1, next_sample env (ps_position s) ts s)
           | Some batch_size \<Rightarrow>
               let start = ps_position s; stop = min (start + batch_size) (ps_length s)
               in (stop, if ps_worker_batches s then next_worker_batch env (start div batch_size) ts s
                         else next_owner_batch env start stop ts s)) of
       (_, None) \<Rightarrow> None
     | (_, Some (s, _, Inl e)) \<Rightarrow> Some (s, Inl e)
     | (stop, Some (s, _, Inr v)) \<Rightarrow> Some (delivered_to stop now_ns (stop - ps_position s) v s))"

text \<open>
  An exception closes the loader and its pool, except the end of the iteration and the death of a
  worker that was restarted.
\<close>

definition close_on_error :: "'v process_state \<times> 'v res \<Rightarrow> 'v process_state \<times> 'v res" where
  "close_on_error out =
    (case out of
       (s, Inr v) \<Rightarrow> (s, Inr v)
     | (s, Inl StopIteration) \<Rightarrow> (s, Inl StopIteration)
     | (s, Inl (WorkerDied m)) \<Rightarrow> (s, Inl (WorkerDied m))
     | (s, Inl e) \<Rightarrow>
         (s\<lparr>ps_loader := close_loader (ps_loader s), ps_pool := close_pool (ps_pool s), ps_valid := False\<rparr>, Inl e))"

definition process_next :: "'v process_env \<Rightarrow> int \<Rightarrow> turn list \<Rightarrow> 'v process_state \<Rightarrow> ('v process_state \<times> 'v res) option" where
  "process_next env now_ns ts s =
    (if \<not> ps_valid s then Some (s, Inl (RuntimeError ''process iterator is no longer active''))
     else if ps_length s \<le> ps_position s then Some (finish_process_epoch s, Inl StopIteration)
     else map_option close_on_error
       (if ps_user_collation s then next_user_batch env now_ns ts s
        else if ps_on_completion s then next_completed env now_ns ts s
        else next_in_order env now_ns ts s))"

text \<open>
  \<^verbatim>\<open>__next__\<close>: whatever the outcome, the time spent is recorded; an iterator of no samples has no
  schedule.
\<close>

definition process_iterate ::
    "'v process_env \<Rightarrow> int \<Rightarrow> int \<Rightarrow> turn list \<Rightarrow> 'v process_state \<Rightarrow> ('v process_state \<times> 'v res) option" where
  "process_iterate env now_ns active_ns ts s =
    map_option (\<lambda>(s, r). (if ps_length s = 0 then s else s\<lparr>ps_schedule := record_active active_ns (ps_schedule s)\<rparr>, r))
      (process_next env now_ns ts s)"

text \<open>What a checkpoint reads of the iterator.\<close>

definition process_delivered_batches :: "'v process_state \<Rightarrow> int" where
  "process_delivered_batches s =
    (if ps_on_completion s then db_base (ps_delivered s)
     else let batch_size = loader_width (ps_loader s) in (ps_position s + batch_size - 1) div batch_size)"

definition process_delivered_bitmap :: "'v process_state \<Rightarrow> int list" where
  "process_delivered_bitmap s = (if ps_on_completion s then bitmap (ps_delivered s) else [])"

definition invalidate_process :: "'v process_state \<Rightarrow> 'v process_state" where
  "invalidate_process s = s\<lparr>ps_valid := False\<rparr>"

section \<open>Construction\<close>

text \<open>
  When \<^verbatim>\<open>prepare_process_pool\<close> starts a pool, and with which worker batch size: a pool with work of
  an abandoned iterator is closed first.  The arguments are what the function reads of the loader.
\<close>

definition retire_pool :: "pool option \<Rightarrow> pool option" where
  "retire_pool pool =
    (case pool of Some p \<Rightarrow> if has_pending p then None else Some p | None \<Rightarrow> None)"

definition pool_wanted :: "map_loader \<Rightarrow> pool option \<Rightarrow> int option \<Rightarrow> bool \<Rightarrow> bool res" where
  "pool_wanted l pool planned has_sampler =
    (if pool \<noteq> None \<or> planned = None \<or> planned = Some 0 then Inr False
     else if has_sampler then Inr True
     else rmap (\<lambda>n. n \<noteq> 0) (delivery_length (ld_sizing l)))"

definition worker_batch_size :: "string \<Rightarrow> bool \<Rightarrow> int option \<Rightarrow> bool \<Rightarrow> bool \<Rightarrow> bool \<Rightarrow> int option" where
  "worker_batch_size on_worker_death shuffle batch_size pipeline has_sampler safe =
    (case batch_size of
       None \<Rightarrow> None
     | Some b \<Rightarrow>
         if on_worker_death = ''close'' \<and> \<not> shuffle \<and> 1 < b \<and> \<not> pipeline \<and> \<not> has_sampler \<and> safe
         then Some b else None)"

text \<open>
  The geometry of the schedule: start, length, depth, ceiling and the positions already delivered,
  in transport commands.
\<close>

definition ceil_div :: "int \<Rightarrow> int \<Rightarrow> int" where
  "ceil_div a b = (a + b - 1) div b"

definition schedule_geometry ::
    "int option \<Rightarrow> int \<Rightarrow> int \<Rightarrow> int \<Rightarrow> int fset \<Rightarrow> int \<Rightarrow> int \<Rightarrow> int \<times> int \<times> int \<times> int \<times> int list" where
  "schedule_geometry transport_batch_size resume_position n width restored depth limit =
    (let start = (case transport_batch_size of None \<Rightarrow> resume_position | Some b \<Rightarrow> resume_position div b);
         stop = (case transport_batch_size of None \<Rightarrow> n | Some b \<Rightarrow> ceil_div n b);
         schedule_depth = (case transport_batch_size of None \<Rightarrow> depth | Some b \<Rightarrow> max 1 (ceil_div depth b));
         schedule_ceiling = (case transport_batch_size of None \<Rightarrow> limit | Some b \<Rightarrow> max 1 (ceil_div limit b));
         positions = (case transport_batch_size of
            Some _ \<Rightarrow> sorted_list_of_fset restored
          | None \<Rightarrow> concat (map (\<lambda>ordinal. irange (ordinal * width) (min ((ordinal + 1) * width) n)) (sorted_list_of_fset restored)))
     in if positions = [] then (start, stop, schedule_depth, schedule_ceiling, [])
        else let span = Max (set positions) - start + 1
             in (start, stop, max schedule_depth span, max schedule_ceiling span, sort positions))"

fun seed_positions :: "int list \<Rightarrow> frontier \<Rightarrow> frontier res" where
  "seed_positions [] f = Inr f"
| "seed_positions (position # positions) f = rbind (fr_seed_delivered position f) (seed_positions positions)"

text \<open>The iterator's state before its schedule: an iterator of no samples never uses one.\<close>

definition initial_state ::
    "map_loader \<Rightarrow> pool \<Rightarrow> controller \<Rightarrow> cost_profile option \<Rightarrow> bool \<Rightarrow> int \<Rightarrow> 'v decoder \<Rightarrow> int \<Rightarrow> int \<Rightarrow> int fset \<Rightarrow> frontier \<Rightarrow>
     'v process_state" where
  "initial_state l p c profile user_collation now_ns bases n resume_position restored f =
    (let width = loader_width l;
         restored_samples = (\<Sum>ordinal \<leftarrow> sorted_list_of_fset restored. min width (n - ordinal * width))
     in \<lparr>ps_loader = l, ps_pool = p, ps_controller = c, ps_profile = profile,
         ps_epoch = es_current (ld_epoch_state l), ps_length = n, ps_on_completion = (ld_delivery l = ''on-completion''),
         ps_position = resume_position + restored_samples, ps_complete = False, ps_valid = True, ps_ready = [],
         ps_delivered = new_delivered (ld_cursor l) restored, ps_ready_batches = [], ps_queued_batches = {||},
         ps_schedule = f, ps_worker_batches = (n \<noteq> 0 \<and> pl_batch_size p \<noteq> None), ps_user_collation = user_collation,
         ps_transport_batch_size =
           (if n = 0 then None else if user_collation then sz_batch_size (ld_sizing l) else pl_batch_size p),
         ps_last_delivery_ns = now_ns, ps_decoder = bases\<rparr>)"

definition no_schedule :: frontier where
  "no_schedule = \<lparr>fr_schedule = \<lparr>sc_end = 0, sc_depth = 1, sc_worker_count = 1, sc_worker_ceiling = 1, sc_next_commit = 0,
       sc_dispatch_ordinal = 0, sc_positions = [], sc_delivered = {||}\<rparr>,
     fr_initial_depth = 1, fr_depth = 1, fr_ceiling = 1, fr_growth_multiplier = 1, fr_binding = '''',
     fr_cost_estimator = None, fr_max_occupied = 0, fr_growth_events = 0, fr_wait_ns = 0, fr_active_ns = 0,
     fr_stalled = False\<rparr>"

text \<open>
  \<^verbatim>\<open>ProcessIterator.__init__\<close> of a loader whose pool is prepared: the loader's sizing shows the
  pool, \<open>free\<close> is the free host memory and \<open>binding\<close> what \<^verbatim>\<open>binding_cause\<close> says.
\<close>

definition new_process_iterator ::
    "'v process_env \<Rightarrow> bool \<Rightarrow> int \<Rightarrow> map_loader \<Rightarrow> pool \<Rightarrow> controller \<Rightarrow> cost_profile option \<Rightarrow> bool \<Rightarrow> int \<Rightarrow> string \<Rightarrow> int \<Rightarrow>
     'v decoder \<Rightarrow> 'v process_state run" where
  "new_process_iterator env broken free l p c profile user_collation growth binding now_ns bases =
    obind (returns (delivery_length (ld_sizing l))) (\<lambda>n.
    obind (returns (resume_sample_position l n)) (\<lambda>resume_position.
    obind (returns (if ld_delivery l = ''on-completion''
        then decode_delivered_bitmap (ld_cursor l) (ld_bitmap l) (ceil_div n (loader_width l)) else Inr {||})) (\<lambda>restored.
    let s = initial_state l p c profile user_collation now_ns bases n resume_position restored no_schedule in
    if n = 0 then returns (Inr s)
    else
      obind (returns (frontier_depth free (ld_sizing l))) (\<lambda>depth.
      obind (returns (frontier_ceiling free (ld_sizing l))) (\<lambda>limit.
      case schedule_geometry (ps_transport_batch_size s) resume_position n (loader_width l) restored depth limit of
        (start, stop, schedule_depth, schedule_ceiling, positions) \<Rightarrow>
          obind (returns (new_frontier stop schedule_depth schedule_ceiling (worker_count p) growth binding
            (Some (dispatch_cost s)) start)) (\<lambda>f.
          obind (returns (seed_positions positions f)) (\<lambda>f.
          obind (returns (fr_set_worker_count (ct_width c) f)) (\<lambda>f.
          case fill_frontier env broken (s\<lparr>ps_schedule := f\<rparr>) of
            None \<Rightarrow> None
          | Some (s, r) \<Rightarrow> returns (rmap (\<lambda>_. s) r)))))))))"

end
