(* ===== verification/Answers.thy ===== *)
theory Answers
  imports Pool
begin

text \<open>
  What travels through a pool: when the workers answer a command with what it asks for, every
  completion the owner receives answers the work of the position it names, through probes, restarts
  and any interleaving.  \<open>W\<close> relates a position to its work, \<open>A\<close> work to its possible answers.
\<close>

section \<open>Known commands and results\<close>

text \<open>The work of a command: epoch, coordinate, index and batch length.\<close>

type_synonym work = "int \<times> int \<times> int \<times> int"

definition command_known :: "pending_work \<Rightarrow> int \<Rightarrow> worker_command \<Rightarrow> bool" where
  "command_known pending w c \<longleftrightarrow> wc_stage_plan c = BLACK_BOX_STAGE \<and>
    (\<exists>position. dict_get pending (w, wc_position c) = Some (wc_epoch c, wc_index c, wc_batch_len c, position))"

definition result_known :: "(work \<Rightarrow> int \<Rightarrow> int list \<Rightarrow> bool) \<Rightarrow> pending_work \<Rightarrow> int \<Rightarrow> result \<Rightarrow> bool" where
  "result_known A pending w x \<longleftrightarrow> (case x of (c, status, payload, cost) \<Rightarrow>
    \<exists>e i b position. dict_get pending (w, c) = Some (e, i, b, position) \<and> A (e, c, i, b) status payload)"

definition queue_known ::
    "(work \<Rightarrow> int \<Rightarrow> int list \<Rightarrow> bool) \<Rightarrow> pending_work \<Rightarrow> transport \<Rightarrow> (int \<Rightarrow> worker_command option) \<Rightarrow> int \<Rightarrow> bool" where
  "queue_known A pending t r w \<longleftrightarrow> (\<forall>c \<in> set (tr_dispatch t w). command_known pending w c) \<and>
    (\<forall>c. r w = Some c \<longrightarrow> command_known pending w c) \<and> (\<forall>x \<in> set (result_queues t w). result_known A pending w x)"

definition work_known :: "(int \<Rightarrow> work \<Rightarrow> bool) \<Rightarrow> pending_work \<Rightarrow> bool" where
  "work_known W pending \<longleftrightarrow>
    (\<forall>w c e i b position. dict_get pending (w, c) = Some (e, i, b, position) \<longrightarrow> W position (e, c, i, b))"

definition answer_for ::
    "(int \<Rightarrow> work \<Rightarrow> bool) \<Rightarrow> (work \<Rightarrow> int \<Rightarrow> int list \<Rightarrow> bool) \<Rightarrow> int \<Rightarrow> int \<Rightarrow> int list \<Rightarrow> bool" where
  "answer_for W A position status payload \<longleftrightarrow> (\<exists>k. W position k \<and> A k status payload)"

definition immediate_known ::
    "(int \<Rightarrow> work \<Rightarrow> bool) \<Rightarrow> (work \<Rightarrow> int \<Rightarrow> int list \<Rightarrow> bool) \<Rightarrow> int \<times> int \<times> int \<times> int list \<times> int \<Rightarrow> bool" where
  "immediate_known W A x = (case x of (w, position, status, payload, cost) \<Rightarrow> answer_for W A position status payload)"

definition probe_known :: "(work \<Rightarrow> int \<Rightarrow> int list \<Rightarrow> bool) \<Rightarrow> pool \<Rightarrow> bool" where
  "probe_known A p \<longleftrightarrow> (\<forall>payload. pl_probe_payload p = Some payload \<longrightarrow>
    (case pl_probe_key p of (e, c, i) \<Rightarrow> A (e, c, i, 0) (pl_probe_status p) payload))"

lemma probe_known_simps [simp]:
  "probe_known A (p\<lparr>pl_resources := x\<rparr>) = probe_known A p" "probe_known A (p\<lparr>pl_pending := d\<rparr>) = probe_known A p"
  "probe_known A (p\<lparr>pl_signals := xs\<rparr>) = probe_known A p" "probe_known A (p\<lparr>pl_immediate := i\<rparr>) = probe_known A p"
  "probe_known A (p\<lparr>pl_probe_payload := None\<rparr>)"
  by (simp_all add: probe_known_def)

definition answers_ok ::
    "(int \<Rightarrow> work \<Rightarrow> bool) \<Rightarrow> (work \<Rightarrow> int \<Rightarrow> int list \<Rightarrow> bool) \<Rightarrow> pool \<Rightarrow> (int \<Rightarrow> worker_command option) \<Rightarrow> bool" where
  "answers_ok W A p r \<longleftrightarrow> pool_ok p r \<and> work_known W (pl_pending p) \<and>
    (\<forall>t. pl_resources p = Some t \<longrightarrow> (\<forall>w. queue_known A (pl_pending p) t r w)) \<and>
    (\<forall>x \<in> set (pl_immediate p). immediate_known W A x) \<and> probe_known A p"

lemma answers_pool: "answers_ok W A p r \<Longrightarrow> pool_ok p r"
  by (simp add: answers_ok_def)

lemma answers_queue: "answers_ok W A p r \<Longrightarrow> pl_resources p = Some t \<Longrightarrow> queue_known A (pl_pending p) t r w"
  by (simp add: answers_ok_def)

lemma answers_transport: "answers_ok W A p r \<Longrightarrow> pl_resources p = Some t \<Longrightarrow> transport_ok (t, r)"
  by (auto simp: answers_ok_def pool_ok_def split: if_splits)

text \<open>A pool that differs in its resources and its pending work alone.\<close>

lemma answers_update:
  assumes "answers_ok W A p r" and "pool_ok q r'" and "work_known W (pl_pending q)"
    and "\<And>t w. pl_resources q = Some t \<Longrightarrow> queue_known A (pl_pending q) t r' w"
    and "set (pl_immediate q) \<subseteq> set (pl_immediate p)"
    and "pl_probe_payload q = None \<or> pl_probe_payload q = pl_probe_payload p"
    and "pl_probe_key q = pl_probe_key p" "pl_probe_status q = pl_probe_status p"
  shows "answers_ok W A q r'"
  using assms unfolding answers_ok_def probe_known_def by auto

lemma answers_closed:
  assumes "answers_ok W A p r" and "pl_closed q" "pl_resources q = None" "pl_pending q = []"
    and "pl_immediate q = pl_immediate p" "pl_probe_payload q = pl_probe_payload p"
    "pl_probe_key q = pl_probe_key p" "pl_probe_status q = pl_probe_status p"
  shows "answers_ok W A q r'"
  by (rule answers_update [OF assms(1)]) (use assms(2-) in \<open>simp_all add: pool_ok_def work_known_def\<close>)

lemma answers_abort: "answers_ok W A p r \<Longrightarrow> answers_ok W A (abort_pool p) r"
  by (cases "pl_closed p") (auto simp: abort_pool_def release_handles_def intro!: answers_closed [of W A p r])

lemma answers_close: "answers_ok W A p r \<Longrightarrow> answers_ok W A (close_pool p) r"
  by (cases "pl_closed p") (auto simp: close_pool_def release_handles_def intro!: answers_closed [of W A p r])

lemma answers_same: "answers_ok W A p r \<Longrightarrow> pl_resources p = Some t \<Longrightarrow> answers_ok W A (p\<lparr>pl_resources := Some t\<rparr>) r"
  by (cases p) simp

section \<open>The workers\<close>

text \<open>A worker takes a command, or answers the one it holds with an answer to its work.\<close>

inductive honest_step :: "(work \<Rightarrow> int \<Rightarrow> int list \<Rightarrow> bool) \<Rightarrow> system \<Rightarrow> system \<Rightarrow> bool" for A where
  take: "transport_step (t, r) (Taken w c) (t', r') \<Longrightarrow> honest_step A (t, r) (t', r')"
| answer: "transport_step (t, r) (Answered w (position, status, payload, cost)) (t', r') \<Longrightarrow> r w = Some c \<Longrightarrow>
    A (wc_epoch c, wc_position c, wc_index c, wc_batch_len c) status payload \<Longrightarrow> honest_step A (t, r) (t', r')"

lemma taken_form:
  assumes "transport_step (t, r) (Taken w c) (t', r')"
  shows "\<exists>rest. tr_dispatch t w = c # rest \<and> t' = t\<lparr>tr_dispatch := (tr_dispatch t)(w := rest)\<rparr> \<and> r' = r(w := Some c)"
  using assms by (cases rule: transport_step.cases) (auto simp: worker_receive_def split: list.splits)

lemma answered_dispatch:
  assumes "transport_step (t, r) (Answered w x) (t', r')"
  shows "tr_dispatch t' = tr_dispatch t \<and> r' = r(w := None) \<and> (\<exists>c status payload cost. r w = Some c \<and> x = (wc_position c, status, payload, cost))"
  using assms
proof (cases rule: transport_step.cases)
  case (answer c exception payload cost)
  then show ?thesis using answer_form [of exception c payload cost t t'] by (auto simp: answered_def)
next
  case (rows c data u cost)
  then show ?thesis using rows_form [of c data t u cost t'] by (auto simp: answered_def)
qed

lemma honest_step_ok:
  assumes step: "honest_step A (t, r) (t', r')" and ok: "answers_ok W A p r" and t: "pl_resources p = Some t"
  shows "answers_ok W A (p\<lparr>pl_resources := Some t'\<rparr>) r'"
  using step
proof (cases rule: honest_step.cases)
  case (take w c)
  from taken_form [OF take] obtain rest where f: "tr_dispatch t w = c # rest"
    "t' = t\<lparr>tr_dispatch := (tr_dispatch t)(w := rest)\<rparr>" "r' = r(w := Some c)" by blast
  have same: "result_queues t' = result_queues t"
    using step_refines [OF take answers_transport [OF ok t]] by simp
  have "queue_known A (pl_pending p) t' r' v" for v
    using answers_queue [OF ok t, of v] f same by (auto simp: queue_known_def)
  then show ?thesis
    using ok pool_ok_worker_step [OF answers_pool [OF ok] t take] by (auto intro!: answers_update [OF ok] simp: answers_ok_def)
next
  case (answer w position status payload cost c)
  note d = answered_dispatch [OF answer(1)]
  have q: "result_queues t' = (result_queues t)(w := result_queues t w @ [(position, status, payload, cost)])"
    using step_refines [OF answer(1) answers_transport [OF ok t]] by simp
  have "command_known (pl_pending p) w c" using answers_queue [OF ok t, of w] answer(2) by (simp add: queue_known_def)
  with answer d have "result_known A (pl_pending p) w (position, status, payload, cost)"
    by (auto simp: result_known_def command_known_def)
  with answers_queue [OF ok t] q d have "queue_known A (pl_pending p) t' r' v" for v
    by (auto simp: queue_known_def)
  then show ?thesis
    using ok pool_ok_worker_step [OF answers_pool [OF ok] t answer(1)] by (auto intro!: answers_update [OF ok] simp: answers_ok_def)
qed

lemma honest_run_ok:
  assumes "(honest_step A)\<^sup>*\<^sup>* s s'" and "answers_ok W A p (snd s)" and "pl_resources p = Some (fst s)"
  shows "answers_ok W A (p\<lparr>pl_resources := Some (fst s')\<rparr>) (snd s')"
  using assms
proof (induction rule: rtranclp_induct)
  case base
  then have "p\<lparr>pl_resources := Some (fst s)\<rparr> = p" by (cases p) simp
  with base show ?case by (simp only:)
next
  case (step u v)
  have "answers_ok W A (p\<lparr>pl_resources := Some (fst u)\<rparr>) (snd u)" using step by simp
  from honest_step_ok [OF _ this, of "fst u" "fst v" "snd v"] step(2) show ?case by simp
qed

section \<open>The owner\<close>

text \<open>A submission without a payload touches no bytes and no completion.\<close>

lemma submit_quiet:
  assumes "transport_submit broken c None t = (t', x)"
  shows "message_result t' = message_result t \<and> tr_completion t' = tr_completion t"
  using assms by (auto simp: transport_submit_def Let_def message_result_def arena_offset_def slot_stride_def fun_eq_iff
      split: if_splits sum.splits list.splits)

lemma quiet_results: "message_result t' = message_result t \<Longrightarrow> tr_completion t' w = tr_completion t w \<Longrightarrow>
    result_queues t' w = result_queues t w"
  by (simp add: result_queues_def)

lemma submit_broken:
  assumes "transport_submit True c None t = (t', x)"
  shows "x \<noteq> Inr True \<and> t' = t"
proof (cases "tr_free t (wc_worker c)")
  case Nil
  with assms show ?thesis by (auto simp: transport_submit_def Let_def split: if_splits sum.splits)
next
  case (Cons slot rest)
  then have "(tr_free t)(wc_worker c := slot # rest) = tr_free t" by (simp add: fun_upd_idem)
  with assms Cons show ?thesis by (auto simp: transport_submit_def Let_def split: if_splits sum.splits)
qed

lemma submit_rejected:
  "transport_submit broken c None t = (t', x) \<Longrightarrow> x \<noteq> Inr True \<Longrightarrow> t' = t"
  using submit_broken [of c t t' x] submit_cases [of c None t t' x] by (cases broken) auto

lemma known_set:
  assumes "dict_get pending (w, c) = None"
  shows "command_known pending v d \<Longrightarrow> command_known (dict_set (w, c) x pending) v d"
    and "result_known A pending v y \<Longrightarrow> result_known A (dict_set (w, c) x pending) v y"
  using assms by (auto simp: command_known_def result_known_def)

lemma queue_known_submitted:
  assumes known: "queue_known A pending t r v" and new: "dict_get pending (w, c) = None"
    and s: "transport_submit False (sample_work e c i w b (-1)) None t = (t', Inr True)"
  shows "queue_known A (dict_set (w, c) (e, i, b, position) pending) t' r v"
proof -
  from submit_form [OF s] obtain slot rest where t': "t' = submitted (sample_work e c i w b (-1)) None slot rest t" by blast
  have "result_queues t' v = result_queues t v" by (rule quiet_results) (use submit_quiet [OF s] in simp_all)
  moreover have "tr_dispatch t' v = tr_dispatch t v @ (if v = w then [sample_work e c i w b slot] else [])"
    by (simp add: t' sample_work_def)
  moreover have "command_known (dict_set (w, c) (e, i, b, position) pending) w (sample_work e c i w b slot)"
    by (simp add: command_known_def sample_work_def)
  moreover have "\<forall>d \<in> set (tr_dispatch t v). command_known (dict_set (w, c) (e, i, b, position) pending) v d"
    "\<forall>d. r v = Some d \<longrightarrow> command_known (dict_set (w, c) (e, i, b, position) pending) v d"
    "\<forall>x \<in> set (result_queues t v). result_known A (dict_set (w, c) (e, i, b, position) pending) v x"
    using known known_set [OF new] by (simp_all add: queue_known_def)
  ultimately show ?thesis unfolding queue_known_def by (simp split: if_splits)
qed

lemma pool_submit_answers:
  assumes ok: "answers_ok W A p r" and work: "W position (epoch, command, index, batch_len)"
    and command: "command = (case coord of None \<Rightarrow> position | Some c \<Rightarrow> c)"
    and s: "pool_submit broken epoch position index worker batch_len coord p = (p', x)"
  shows "answers_ok W A p' r"
proof (cases "pl_closed p \<or> batch_len < 0")
  case True
  with assms show ?thesis by (simp add: pool_submit_def Let_def split: if_splits)
next
  case False
  let ?key = "(epoch, command, index)"
  define q where "q = (if ?key = pl_probe_key p then p\<lparr>pl_probe_payload := None\<rparr> else p)"
  have qok: "answers_ok W A q r" using ok by (auto simp: q_def answers_ok_def probe_known_def)
  have opened: "\<not> pl_closed q" using False by (simp add: q_def)
  show ?thesis
  proof (cases "if ?key = pl_probe_key p \<and> batch_len = 0 then pl_probe_payload p else None")
    case (Some payload)
    then have key: "pl_probe_key p = ?key" "batch_len = 0" "pl_probe_payload p = Some payload" by (simp_all split: if_splits)
    have "A (epoch, command, index, 0) (pl_probe_status p) payload" using ok key by (simp add: answers_ok_def probe_known_def)
    with work key(2) have "answer_for W A position (pl_probe_status p) payload" by (auto simp: answer_for_def)
    moreover have "p' = p \<or> p' = p\<lparr>pl_immediate := pl_immediate p @ [(worker, position, pl_probe_status p, payload, pl_probe_cost p)],
                     pl_probe_payload := None\<rparr>"
      using s key False by (auto simp: pool_submit_def Let_def command [symmetric] split: if_splits)
    ultimately show ?thesis using ok by (auto simp: answers_ok_def immediate_known_def probe_known_def)
  next
    case None
    from pool_okD [OF answers_pool [OF qok] opened] obtain t where t: "pl_resources q = Some t"
      "dict_keys (pl_pending q) = dict_keys (tr_pending t)" by blast
    then have pt: "pl_resources p = Some t" by (simp add: q_def split: if_splits)
    obtain t' y where y: "transport_submit broken (sample_work epoch command index worker batch_len (-1)) None t = (t', y)" by fastforce
    note form = pool_submit_transport [OF _ _ pt None command y q_def]
    show ?thesis
    proof (cases "y = Inr True")
      case True
      have b: "\<not> broken"
      proof
        assume broken
        with y True have "transport_submit True (sample_work epoch command index worker batch_len (-1)) None t = (t', Inr True)" by simp
        from submit_broken [OF this] show False by simp
      qed
      from y True b have sub: "transport_submit False (sample_work epoch command index worker batch_len (-1)) None t = (t', Inr True)" by simp
      have p': "p' = q\<lparr>pl_resources := Some t', pl_pending := dict_set (worker, command) (epoch, index, batch_len, position) (pl_pending q)\<rparr>"
        using s form False True by simp
      have "dict_get (tr_pending t) (worker, command) = None" using submit_form [OF sub] by (auto simp: sample_work_def)
      with t(2) have new: "dict_get (pl_pending q) (worker, command) = None" by (simp add: dict_get_None)
      have "pool_ok p' r"
        using submitted_mirror [OF answers_pool [OF qok] opened t(1) sub, of "(epoch, index, batch_len, position)"]
        by (simp add: p' sample_work_def)
      then show ?thesis
        by (rule answers_update [OF qok])
          (use qok work queue_known_submitted [OF answers_queue [OF qok t(1)] new sub] in
            \<open>auto simp: p' work_known_def answers_ok_def fun_upd_apply split: if_splits\<close>)
    next
      case no: False
      then have "t' = t" using submit_rejected [OF y] by simp
      with s form False no have "p' = q\<lparr>pl_resources := Some t\<rparr>" by simp
      with t(1) have "p' = q" by (cases q) simp
      with qok show ?thesis by simp
    qed
  qed
qed

text \<open>A completion carries an answer to the work of the position it names.\<close>

lemma known_del:
  assumes "(v, wc_position d) \<noteq> k"
  shows "command_known pending v d \<Longrightarrow> command_known (dict_del k pending) v d"
  using assms by (auto simp: command_known_def)

lemma result_known_del:
  assumes "(v, fst y) \<noteq> k"
  shows "result_known A pending v y \<Longrightarrow> result_known A (dict_del k pending) v y"
  using assms by (auto simp: result_known_def)

lemma received_apart:
  assumes ok: "transport_ok (t, r)" and s: "transport_receive w t = (t', Inr (Some (c, y)))"
  shows "(\<forall>d \<in> set (tr_dispatch t w). wc_position d \<noteq> c) \<and> (\<forall>d. r w = Some d \<longrightarrow> wc_position d \<noteq> c) \<and>
    (\<forall>x \<in> set (result_queues t' w). fst x \<noteq> c) \<and> tr_dispatch t' = tr_dispatch t"
proof -
  obtain p st n cost slot rest where f: "tr_completion t w = (p, st, n, cost, slot) # rest" and
    x: "(c, y) = message_result t w (p, st, n, cost, slot)" and
    t': "t' = t\<lparr>tr_completion := (tr_completion t)(w := rest), tr_pending := dict_del (w, p) (tr_pending t),
           tr_free := (tr_free t)(w := tr_free t w @ [slot])\<rparr>"
    using receive_form [OF s] by blast
  have c: "c = p" using x by (simp add: message_result_def)
  have "distinct (map fst (places (t, r) w))" using slots_okD(1) [OF worker_places [OF transport_worker [OF ok, of w]]] .
  then show ?thesis
    by (auto simp: places_def f c command_place_def message_place_def t' result_queues_def message_result_def image_iff
        split: prod.splits option.splits)
qed

lemma queue_known_received:
  assumes ok: "transport_ok (t, r)" and known: "\<And>w. queue_known A pending t r w"
    and s: "transport_receive w t = (t', Inr (Some (c, y)))"
  shows "queue_known A (dict_del (w, c) pending) t' r v"
proof -
  note apart = received_apart [OF ok s]
  obtain xs where xs: "result_queues t w = (c, y) # xs" "result_queues t' = (result_queues t)(w := xs)"
    using received_results [OF s] by blast
  have sub: "set (result_queues t' v) \<subseteq> set (result_queues t v)" using xs by auto
  have d: "command_known (dict_del (w, c) pending) v d" if "d \<in> set (tr_dispatch t v) \<or> r v = Some d" for d
  proof (rule known_del)
    show "(v, wc_position d) \<noteq> (w, c)" using apart that by auto
    show "command_known pending v d" using known [of v] that by (auto simp: queue_known_def)
  qed
  have x: "result_known A (dict_del (w, c) pending) v x" if "x \<in> set (result_queues t' v)" for x
  proof (rule result_known_del)
    show "(v, fst x) \<noteq> (w, c)" using apart that by auto
    show "result_known A pending v x" using known [of v] that sub by (auto simp: queue_known_def)
  qed
  from d x apart show ?thesis by (simp add: queue_known_def)
qed

lemma receive_completion_answers:
  assumes ok: "answers_ok W A p r" and opened: "\<not> pl_closed p" and w: "0 \<le> worker" "worker < pl_worker_count p"
    and s: "receive_completion worker p = (p', x)"
  shows "answers_ok W A p' r \<and>
    (\<forall>position status payload cost. x = Inr (Some (position, status, payload, cost)) \<longrightarrow> answer_for W A position status payload)"
proof -
  from pool_okD [OF answers_pool [OF ok] opened] obtain t where t: "pl_resources p = Some t" "transport_ok (t, r)"
    "tr_worker_count t = pl_worker_count p" by blast
  from receive_known [OF t(2) w(1)] w(2) t(3) obtain t' y where y: "transport_receive worker t = (t', Inr y)"
    "y = None \<longrightarrow> t' = t" by auto
  note same = answers_same [OF ok t(1)]
  show ?thesis
  proof (cases "pl_batch_size p \<noteq> None \<and> (int (length (pl_signals p)) \<le> worker \<or> pl_signals p ! nat worker = 0)")
    case True
    with s ok show ?thesis by (auto simp: receive_completion_def Let_def split: if_splits)
  next
    case False
    show ?thesis
    proof (cases y)
      case None
      with s False y t ok same show ?thesis by (auto simp: receive_completion_def Let_def split: if_splits)
    next
      case (Some z)
      obtain c st payload cost where z: "z = (c, st, payload, cost)" by (cases z)
      have rec: "transport_receive worker t = (t', Inr (Some (c, st, payload, cost)))" using y(1) Some z by simp
      obtain xs where "result_queues t worker = (c, st, payload, cost) # xs" using received_results [OF rec] by blast
      with answers_queue [OF ok t(1), of worker] have "result_known A (pl_pending p) worker (c, st, payload, cost)"
        by (simp add: queue_known_def)
      then obtain e i b position where work: "dict_get (pl_pending p) (worker, c) = Some (e, i, b, position)"
        "A (e, c, i, b) st payload" by (auto simp: result_known_def)
      let ?signals = "if pl_batch_size p = None then pl_signals p
        else (pl_signals p)[nat worker := pl_signals p ! nat worker - 1]"
      let ?q = "p\<lparr>pl_resources := Some t', pl_signals := ?signals, pl_pending := dict_del (worker, c) (pl_pending p)\<rparr>"
      have form: "p' = ?q \<and> x = Inr (Some (position, st, payload, cost))"
        using s False t(1) rec work(1) by (cases "pl_batch_size p") (auto simp: receive_completion_def Let_def)
      have "pool_ok ?q r" by (rule pool_ok_completed [OF answers_pool [OF ok] opened t(1) rec]) auto
      then have "answers_ok W A ?q r"
        by (rule answers_update [OF ok])
          (use ok queue_known_received [OF t(2) answers_queue [OF ok t(1)] rec] in \<open>auto simp: answers_ok_def work_known_def\<close>)
      moreover have "answer_for W A position st payload"
        unfolding answer_for_def using ok work
        by (intro exI [of _ "(e, c, i, b)"]) (simp add: answers_ok_def work_known_def)
      ultimately show ?thesis using form by auto
    qed
  qed
qed

lemma pool_receive_answers:
  assumes ok: "answers_ok W A p r" and opened: "\<not> pl_closed p" and w: "0 \<le> worker" "worker < pl_worker_count p"
    and s: "pool_receive worker p = (p', x)"
  shows "answers_ok W A p' r \<and>
    (\<forall>position status payload cost. x = Inr (Some (position, status, payload, cost)) \<longrightarrow> answer_for W A position status payload)"
proof (cases "\<exists>position status payload cost rest. pl_immediate p = (worker, position, status, payload, cost) # rest")
  case True
  then obtain position status payload cost rest where i: "pl_immediate p = (worker, position, status, payload, cost) # rest" by blast
  then have "answer_for W A position status payload" using ok by (simp add: answers_ok_def immediate_known_def)
  moreover have "answers_ok W A (p\<lparr>pl_immediate := rest\<rparr>) r"
    using ok i by (simp add: answers_ok_def)
  ultimately show ?thesis using s i by (auto simp: pool_receive_def)
next
  case False
  then have "pool_receive worker p = receive_completion worker p"
    by (auto simp: pool_receive_def split: list.splits)
  with receive_completion_answers [OF ok opened w] s show ?thesis by metis
qed

text \<open>A replacement worker gets the pending work again.\<close>

lemma resubmit_quiet:
  "resubmit broken worker coords pending t = (t', x) \<Longrightarrow>
     message_result t' = message_result t \<and> tr_completion t' = tr_completion t"
proof (induction coords arbitrary: t t' x)
  case (Cons c cs)
  show ?case
  proof (cases "dict_get pending (worker, c)")
    case None
    with Cons.prems show ?thesis by auto
  next
    case (Some k)
    obtain epoch index batch_len position where k: "k = (epoch, index, batch_len, position)" by (cases k)
    obtain u y where u: "try_submit_sample (broken c) epoch c index BLACK_BOX_STAGE worker batch_len t = (u, y)" by fastforce
    then have "message_result u = message_result t \<and> tr_completion u = tr_completion t"
      unfolding try_submit_sample_def by (rule submit_quiet)
    with Cons.prems Cons.IH Some k u show ?thesis
      by (auto split: sum.splits bool.splits prod.splits)
  qed
qed simp

lemma restart_answers:
  assumes ok: "answers_ok W A p r" and opened: "\<not> pl_closed p" and w: "0 \<le> worker" "worker < pl_worker_count p"
    and s: "restart_worker (\<lambda>_. False) worker p = (p', x)"
  shows "answers_ok W A p' (r(worker := None))"
proof -
  from pool_okD [OF answers_pool [OF ok] opened] obtain t where t: "pl_resources p = Some t" "transport_ok (t, r)"
    "tr_worker_count t = pl_worker_count p" "dict_keys (pl_pending p) = dict_keys (tr_pending t)" by blast
  obtain u where u: "reclaim_dead_worker worker t = (u, Inr (pending_positions worker t))"
    using w t(3) by (auto simp: reclaim_dead_worker_def validate_worker_def Let_def)
  from restart_succeeds [OF answers_pool [OF ok] opened w t(1)] obtain t' y where
    t': "restart_worker (\<lambda>_. False) worker p = (p\<lparr>pl_resources := Some t', pl_signals := (pl_signals p)[nat worker := 0]\<rparr>, y)"
    "pool_ok (p\<lparr>pl_resources := Some t', pl_signals := (pl_signals p)[nat worker := 0]\<rparr>) (r(worker := None))"
    "map unslotted (tr_dispatch t' worker) = map (replayed worker (pl_pending p)) (pending_positions worker t)"
    "tr_completion t' worker = []" "\<And>v. v \<noteq> worker \<Longrightarrow> tr_dispatch t' v = tr_dispatch t v \<and> tr_completion t' v = tr_completion t v"
    by blast
  obtain v z where z0: "resubmit (\<lambda>_. False) worker (sort (pending_positions worker t)) (pl_pending p) u = (v, z)" by fastforce
  then have "p\<lparr>pl_resources := Some v, pl_signals := (pl_signals p)[nat worker := 0]\<rparr> =
      p\<lparr>pl_resources := Some t', pl_signals := (pl_signals p)[nat worker := 0]\<rparr>"
    using t'(1) by (simp add: restart_worker_def t(1) u)
  from arg_cong [OF this, of pl_resources] have z: "resubmit (\<lambda>_. False) worker (sort (pending_positions worker t)) (pl_pending p) u = (t', z)"
    using z0 by simp
  have "message_result u = message_result t"
    using reclaim_form [OF u] by (simp add: replace_channels_def message_result_def arena_offset_def slot_stride_def
        fun_eq_iff reclaim_others)
  then have msg: "message_result t' = message_result t" using resubmit_quiet [OF z] by simp
  have mine: "command_known (pl_pending p) worker d" if d: "d \<in> set (tr_dispatch t' worker)" for d
  proof -
    have "unslotted d \<in> set (map unslotted (tr_dispatch t' worker))" using d by simp
    then obtain c where c: "c \<in> set (pending_positions worker t)" "unslotted d = replayed worker (pl_pending p) c"
      unfolding t'(3) by auto
    have "(worker, c) \<in> dict_keys (pl_pending p)"
      using c(1) pending_positions_set [OF transport_dict [OF t(2)], of worker] t(4) by (auto simp: dict_keys_dom)
    then obtain k where k: "dict_get (pl_pending p) (worker, c) = Some k" using dict_keys_get by metis
    obtain e i b position where k4: "k = (e, i, b, position)" by (cases k)
    have "unslotted d = sample_work e c i worker b (-1)" using c(2) by (simp add: replayed_def k k4 sample_work_def)
    then have "wc_position d = c" "wc_epoch d = e" "wc_index d = i" "wc_batch_len d = b" "wc_stage_plan d = BLACK_BOX_STAGE"
      by (cases d; simp add: unslotted_def sample_work_def)+
    with k k4 show ?thesis by (simp add: command_known_def)
  qed
  have "queue_known A (pl_pending p) t' (r(worker := None)) v" for v
  proof (cases "v = worker")
    case True
    with mine t'(4) show ?thesis by (simp add: queue_known_def result_queues_def)
  next
    case False
    with answers_queue [OF ok t(1), of v] t'(5) [OF False] msg show ?thesis
      by (simp add: queue_known_def result_queues_def)
  qed
  with ok t'(1,2) s show ?thesis
    by (auto intro!: answers_update [OF ok] simp: answers_ok_def)
qed

lemma check_worker_answers:
  assumes ok: "answers_ok W A p r" and w: "0 \<le> worker" and s: "check_worker alive expired worker p = (p', x)"
  shows "\<exists>r'. answers_ok W A p' r'"
proof (cases "worker_count p \<le> worker \<or> alive worker")
  case True
  with s ok answers_abort [OF ok] show ?thesis by (auto simp: check_worker_def split: if_splits)
next
  case False
  then have opened: "\<not> pl_closed p" "worker < pl_worker_count p" using w by (auto simp: worker_count_def split: if_splits)
  from pool_okD [OF answers_pool [OF ok] opened(1)] obtain t where t: "pl_resources p = Some t" "tr_worker_count t = pl_worker_count p" by blast
  show ?thesis
  proof (cases "pl_restart p")
    case True
    obtain q y where q: "restart_worker (\<lambda>_. False) worker p = (q, y)" by fastforce
    from restart_answers [OF ok opened(1) w opened(2) q] s False True t(1) q show ?thesis
      by (auto simp: check_worker_def split: sum.splits)
  next
    case no: False
    obtain u where u: "reclaim_dead_worker worker t = (u, Inr (pending_positions worker t))"
      using w opened t(2) by (auto simp: reclaim_dead_worker_def validate_worker_def Let_def)
    have "p' = abort_pool (p\<lparr>pl_resources := Some u\<rparr>)" using s False no t(1) u by (auto simp: check_worker_def)
    moreover have "answers_ok W A (abort_pool (p\<lparr>pl_resources := Some u\<rparr>)) r"
      using opened by (intro answers_closed [OF ok]) (simp_all add: abort_pool_def release_handles_def)
    ultimately show ?thesis by blast
  qed
qed


lemma check_each_answers:
  "answers_ok W A p r \<Longrightarrow> \<forall>w \<in> set workers. 0 \<le> w \<Longrightarrow> check_each alive expired workers p = (p', x) \<Longrightarrow>
     \<exists>r'. answers_ok W A p' r'"
proof (induction workers arbitrary: p r)
  case (Cons w ws)
  obtain q y where q: "check_worker alive expired w p = (q, y)" by fastforce
  from check_worker_answers [OF Cons.prems(1) _ q] Cons.prems(2) obtain r' where r': "answers_ok W A q r'" by auto
  with Cons q show ?case by (auto split: sum.splits)
qed auto

lemma check_workers_answers:
  assumes "answers_ok W A p r" "check_workers alive expired p = (p', x)"
  shows "\<exists>r'. answers_ok W A p' r'"
  by (rule check_each_answers [OF assms(1) _ assms(2) [unfolded check_workers_def]]) simp

section \<open>Waiting\<close>

text \<open>
  A world is honest when its workers make honest steps from every state the owner can be in, and its
  control pipes belong to workers.
\<close>

definition honest_world :: "(int \<Rightarrow> work \<Rightarrow> bool) \<Rightarrow> (work \<Rightarrow> int \<Rightarrow> int list \<Rightarrow> bool) \<Rightarrow> world \<Rightarrow> bool" where
  "honest_world W A w \<longleftrightarrow> (\<forall>p r t. answers_ok W A p r \<longrightarrow> pl_resources p = Some t \<longrightarrow>
      (\<exists>r'. (honest_step A)\<^sup>*\<^sup>* (t, r) (wd_progress w t, r'))) \<and>
    (\<forall>(worker, messages) \<in> set (wd_controls w). 0 \<le> worker)"

lemma progress_answers:
  assumes "honest_world W A w" "answers_ok W A p r"
  shows "\<exists>r'. answers_ok W A (progress_pool w p) r'"
proof (cases "pl_resources p")
  case None
  then have "progress_pool w p = p" by (cases p) (simp add: progress_pool_def)
  with assms show ?thesis by auto
next
  case (Some t)
  with assms obtain r' where "(honest_step A)\<^sup>*\<^sup>* (t, r) (wd_progress w t, r')" unfolding honest_world_def by blast
  from honest_run_ok [OF this] assms(2) Some show ?thesis by (auto simp: progress_pool_def)
qed

lemma answers_signals:
  assumes "answers_ok W A p r" "length xs = length (pl_signals p)"
  shows "answers_ok W A (p\<lparr>pl_signals := xs\<rparr>) r"
  by (rule answers_update [OF assms(1)])
    (use assms pool_ok_signals [of xs p r] in \<open>auto simp: answers_ok_def\<close>)

lemma drain_control_answers:
  "answers_ok W A p r \<Longrightarrow> 0 \<le> worker \<Longrightarrow> drain_control w worker messages observed p = (p', x) \<Longrightarrow> \<exists>r'. answers_ok W A p' r'"
proof (induction w worker messages observed p rule: drain_control.induct)
  case (2 w worker messages observed p)
  then show ?case by (cases "pl_batch_size p = None") (simp_all add: answers_signals)
next
  case (4 w worker messages observed p)
  obtain q y where q: "check_worker (wd_alive w) (wd_expired w) worker p = (q, y)" by fastforce
  from check_worker_answers [OF 4(1,2) q] 4(3) q show ?case by (auto split: sum.splits)
qed auto

lemma drain_controls_answers:
  "answers_ok W A p r \<Longrightarrow> \<forall>(worker, messages) \<in> set controls. 0 \<le> worker \<Longrightarrow>
     drain_controls w controls observed p = (p', x) \<Longrightarrow> \<exists>r'. answers_ok W A p' r'"
proof (induction controls arbitrary: observed p r)
  case (Cons c cs)
  obtain worker messages where c: "c = (worker, messages)" by (cases c)
  obtain q y where q: "drain_control w worker messages observed p = (q, y)" by fastforce
  have "0 \<le> worker" using Cons.prems(2) c by simp
  from drain_control_answers [OF Cons.prems(1) this q] obtain r' where "answers_ok W A q r'" by blast
  with Cons c q show ?case by (auto split: sum.splits)
qed auto

lemma wait_answers:
  assumes "honest_world W A w" "answers_ok W A p r" "wait_for_completion w p = (p', x)"
  shows "\<exists>r'. answers_ok W A p' r'"
proof -
  from progress_answers [OF assms(1,2)] obtain r' where "answers_ok W A (progress_pool w p) r'" by blast
  from drain_controls_answers [OF this] assms(1,3) show ?thesis
    unfolding wait_for_completion_def honest_world_def by blast
qed

end
