(* ===== verification/Ordered.thy ===== *)
theory Ordered
  imports ProcessTier Answers
begin

text \<open>
  What strict-order delivery promises: the completions the process iterator hands out are, position by
  position, answers to the work of that position.
\<close>

section \<open>The invariant\<close>

text \<open>The work the frontier submits for a position, and what a completion must answer.\<close>

definition position_work :: "'v process_env \<Rightarrow> 'v process_state \<Rightarrow> int \<Rightarrow> work \<Rightarrow> bool" where
  "position_work env s position k \<longleftrightarrow> (case k of (e, c, i, b) \<Rightarrow>
    e = ps_epoch s \<and> b = command_length s position \<and>
    command_target env (ps_loader s) (ps_epoch s) (sample_position s position) = Some (Inr (c, i)))"

text \<open>What waiting for a completion leaves alone.\<close>

definition same_delivery :: "'v process_state \<Rightarrow> 'v process_state \<Rightarrow> bool" where
  "same_delivery s s' \<longleftrightarrow> ps_loader s' = ps_loader s \<and> ps_epoch s' = ps_epoch s \<and> ps_length s' = ps_length s \<and>
    ps_transport_batch_size s' = ps_transport_batch_size s \<and> ps_user_collation s' = ps_user_collation s \<and>
    ps_position s' = ps_position s \<and> ps_decoder s' = ps_decoder s \<and> ps_on_completion s' = ps_on_completion s \<and>
    ps_worker_batches s' = ps_worker_batches s"

lemma same_delivery_refl [simp]: "same_delivery s s" by (simp add: same_delivery_def)

lemma same_delivery_trans [trans]: "same_delivery s s' \<Longrightarrow> same_delivery s' s'' \<Longrightarrow> same_delivery s s''"
  by (simp add: same_delivery_def)

lemma same_delivery_work: "same_delivery s s' \<Longrightarrow> position_work env s' = position_work env s"
  by (auto simp: same_delivery_def position_work_def command_length_def sample_position_def fun_eq_iff split: option.splits)

abbreviation base :: "'v process_state \<Rightarrow> int" where
  "base s \<equiv> sc_next_commit (fr_schedule (ps_schedule s))"

definition ready_ok ::
    "(int \<Rightarrow> int \<Rightarrow> int list \<Rightarrow> bool) \<Rightarrow> schedule \<Rightarrow> (int, int \<times> int list \<times> int) dict \<Rightarrow> bool" where
  "ready_ok Q sched ready \<longleftrightarrow>
    (\<forall>p. p \<in> dict_keys ready \<longleftrightarrow> (\<exists>w. dict_get (sc_positions sched) p = Some (position_state.Ready, w))) \<and>
    (\<forall>p st payload w. dict_get ready p = Some (st, payload, w) \<longrightarrow> Q p st payload)"

definition tier_ok ::
    "(work \<Rightarrow> int \<Rightarrow> int list \<Rightarrow> bool) \<Rightarrow> 'v process_env \<Rightarrow> 'v process_state \<Rightarrow> (int \<Rightarrow> worker_command option) \<Rightarrow> bool" where
  "tier_ok A env s r \<longleftrightarrow> answers_ok (position_work env s) A (ps_pool s) r \<and> \<not> ps_user_collation s \<and>
    schedule_ok (fr_schedule (ps_schedule s)) \<and> sc_delivered (fr_schedule (ps_schedule s)) = {||} \<and>
    ready_ok (answer_for (position_work env s) A) (fr_schedule (ps_schedule s)) (ps_ready s)"

lemma ready_ok_dispatched:
  assumes "ready_ok Q sched ready" "mark_dispatched p w sched = Inr sched'"
  shows "ready_ok Q sched' ready"
proof -
  have "p \<notin> dict_keys (sc_positions sched)" "sched' = sched\<lparr>sc_positions := dict_set p (Dispatched, w) (sc_positions sched),
      sc_dispatch_ordinal := sc_dispatch_ordinal sched + 1\<rparr>"
    using assms(2) by (auto simp: mark_dispatched_def dispatch_at_def split: if_splits)
  moreover from this have "dict_get (sc_positions sched) p = None" by (simp add: dict_get_None)
  ultimately show ?thesis using assms(1) by (auto simp: ready_ok_def)
qed

lemma ready_ok_completed:
  assumes "ready_ok Q sched ready" "mark_completed p w sched = Inr sched'" "Q p st payload"
  shows "ready_ok Q sched' (dict_set p (st, payload, w) ready)"
  using assms by (auto simp: ready_ok_def mark_completed_def split: option.splits if_splits)

lemma ready_ok_schedule:
  "ready_ok Q sched ready \<Longrightarrow> sc_positions sched' = sc_positions sched \<Longrightarrow> ready_ok Q sched' ready"
  by (simp add: ready_ok_def)

section \<open>Filling the frontier\<close>

lemma mark_dispatched_frame:
  "mark_dispatched p w s = Inr t \<Longrightarrow> sc_next_commit t = sc_next_commit s \<and> sc_delivered t = sc_delivered s"
  by (auto simp: mark_dispatched_def split: if_splits)

lemma submit_position_ok:
  assumes ok: "tier_ok A env s r" and s: "submit_position env broken position worker s = Some (s', x)"
  shows "tier_ok A env s' r \<and> same_delivery s s' \<and> base s' = base s"
proof -
  have plain: "\<not> ps_user_collation s" using ok by (simp add: tier_ok_def)
  obtain y where y: "command_target env (ps_loader s) (ps_epoch s) (sample_position s position) = Some y"
    using s plain by (auto simp: submit_position_def split: option.splits)
  show ?thesis
  proof (cases y)
    case (Inl e)
    with s plain y ok show ?thesis by (simp add: submit_position_def)
  next
    case (Inr ci)
    obtain coord index where ci: "ci = (coord, index)" by (cases ci)
    obtain p accepted where p: "pool_submit broken (ps_epoch s) position index worker (command_length s position) (Some coord) (ps_pool s)
        = (p, accepted)" by fastforce
    let ?s = "s\<lparr>ps_pool := p\<rparr>"
    have "position_work env s position (ps_epoch s, coord, index, command_length s position)"
      using y Inr ci by (simp add: position_work_def)
    then have pool: "answers_ok (position_work env s) A p r"
      using pool_submit_answers [OF _ _ _ p] ok by (simp add: tier_ok_def)
    have work: "position_work env ?s = position_work env s" by (rule same_delivery_work) (simp add: same_delivery_def)
    have ok': "tier_ok A env ?s r" using ok pool work by (simp add: tier_ok_def)
    show ?thesis
    proof (cases "accepted = Inr True")
      case False
      with s plain y Inr ci p have "s' = ?s" by (auto simp: submit_position_def split: sum.splits bool.splits)
      with ok' show ?thesis by (simp add: same_delivery_def)
    next
      case True
      show ?thesis
      proof (cases "fr_mark_dispatched position worker (ps_schedule s)")
        case (Inl e)
        with s plain y Inr ci p True have "s' = ?s" by (simp add: submit_position_def)
        with ok' show ?thesis by (simp add: same_delivery_def)
      next
        case (Inr f)
        with s plain y \<open>y = Inr ci\<close> ci p True have s': "s' = ?s\<lparr>ps_schedule := f\<rparr>" by (simp add: submit_position_def)
        obtain sched where sched: "mark_dispatched position worker (fr_schedule (ps_schedule s)) = Inr sched" "fr_schedule f = sched"
          using Inr by (auto simp: fr_mark_dispatched_def rmap_eq_Inr)
        have same: "same_delivery s s'" by (simp add: s' same_delivery_def)
        have "tier_ok A env s' r"
          using ok pool same_delivery_work [OF same] mark_dispatched_ok [OF _ sched(1)] mark_dispatched_frame [OF sched(1)]
            ready_ok_dispatched [OF _ sched(1)] sched(2)
          by (simp add: tier_ok_def s')
        with same mark_dispatched_frame [OF sched(1)] sched(2) show ?thesis by (simp add: s')
      qed
    qed
  qed
qed

lemma fill_positions_ok:
  "tier_ok A env s r \<Longrightarrow> fill_positions env broken order s = Some (s', x) \<Longrightarrow>
     tier_ok A env s' r \<and> same_delivery s s' \<and> base s' = base s"
proof (induction order arbitrary: s)
  case (Cons selected order)
  show ?case
  proof (cases "fr_dispatch_at (ps_schedule s) selected")
    case None
    with Cons show ?thesis by simp
  next
    case (Some pw)
    obtain position worker where pw: "pw = (position, worker)" by (cases pw)
    obtain u y where u: "submit_position env broken position worker s = Some (u, y)"
      using Cons.prems(2) Some pw by (auto split: option.splits prod.splits)
    note one = submit_position_ok [OF Cons.prems(1) u]
    show ?thesis
    proof (cases "y = Inr True")
      case True
      with Cons.prems(2) Some pw u have "fill_positions env broken order u = Some (s', x)" by simp
      from Cons.IH [OF _ this] one same_delivery_trans [of s u s'] show ?thesis by auto
    next
      case False
      with Cons.prems(2) Some pw u have "s' = u" by (auto split: sum.splits bool.splits)
      with one show ?thesis by simp
    qed
  qed
qed simp

lemma fill_frontier_ok:
  "tier_ok A env s r \<Longrightarrow> fill_frontier env broken s = Some (s', x) \<Longrightarrow>
     tier_ok A env s' r \<and> same_delivery s s' \<and> base s' = base s"
  unfolding fill_frontier_def by (rule fill_positions_ok)

section \<open>Polling\<close>

lemma observe_completion_frame:
  "same_delivery s (observe_completion p s) \<and> ps_pool (observe_completion p s) = ps_pool s \<and>
   ps_schedule (observe_completion p s) = ps_schedule s \<and> ps_ready (observe_completion p s) = ps_ready s"
  by (simp add: observe_completion_def Let_def same_delivery_def)

lemma record_cost_frame:
  "record_cost p c s = (s', x) \<Longrightarrow> same_delivery s s' \<and> ps_pool s' = ps_pool s \<and> ps_schedule s' = ps_schedule s \<and> ps_ready s' = ps_ready s"
  by (auto simp: record_cost_def same_delivery_def split: option.splits sum.splits prod.splits)

lemma tier_ok_frame:
  assumes "tier_ok A env s r" "same_delivery s s'" "ps_pool s' = ps_pool s" "ps_schedule s' = ps_schedule s" "ps_ready s' = ps_ready s"
  shows "tier_ok A env s' r"
  using assms same_delivery_work [OF assms(2)] by (simp add: tier_ok_def same_delivery_def)

lemma mark_completed_frame:
  "mark_completed p w s = Inr t \<Longrightarrow> sc_next_commit t = sc_next_commit s \<and> sc_delivered t = sc_delivered s"
  by (auto simp: mark_completed_def split: option.splits if_splits)

lemma take_completion_ok:
  assumes ok: "tier_ok A env s r" and answer: "answer_for (position_work env s) A p st payload"
    and s: "take_completion w (p, st, payload, cost) s = (s', x)"
  shows "tier_ok A env s' r \<and> same_delivery s s' \<and> base s' = base s \<and> ps_pool s' = ps_pool s"
proof (cases "fr_mark_completed p w (ps_schedule s)")
  case (Inl e)
  with s ok show ?thesis by (simp add: take_completion_def)
next
  case (Inr f)
  then obtain sched where sched: "mark_completed p w (fr_schedule (ps_schedule s)) = Inr sched" "fr_schedule f = sched"
    by (auto simp: fr_mark_completed_def rmap_eq_Inr)
  let ?u = "s\<lparr>ps_schedule := f, ps_ready := dict_set p (st, payload, w) (ps_ready s)\<rparr>"
  let ?v = "if ps_on_completion s then observe_completion p ?u else ?u"
  have same: "same_delivery s ?u" by (simp add: same_delivery_def)
  have u: "tier_ok A env ?u r"
    using ok same_delivery_work [OF same] mark_completed_ok [OF _ sched(1)] mark_completed_frame [OF sched(1)] sched(2)
      ready_ok_completed [where Q = "answer_for (position_work env s) A", OF _ sched(1) answer]
    by (simp add: tier_ok_def)
  have v: "same_delivery ?u ?v \<and> ps_pool ?v = ps_pool ?u \<and> ps_schedule ?v = ps_schedule ?u \<and> ps_ready ?v = ps_ready ?u"
    using observe_completion_frame [of ?u p] by simp
  have s': "same_delivery ?v s' \<and> ps_pool s' = ps_pool ?v \<and> ps_schedule s' = ps_schedule ?v \<and> ps_ready s' = ps_ready ?v"
    using s Inr record_cost_frame [of p cost ?v s' x] by (auto simp: take_completion_def Let_def split: if_splits)
  have "same_delivery ?u s'" using v s' same_delivery_trans by blast
  moreover have "ps_pool s' = ps_pool ?u" "ps_schedule s' = ps_schedule ?u" "ps_ready s' = ps_ready ?u" using v s' by simp_all
  ultimately have "tier_ok A env s' r" "same_delivery s s'" using tier_ok_frame [OF u] same same_delivery_trans by blast+
  then show ?thesis using v s' sched mark_completed_frame [OF sched(1)] by simp
qed

lemma pool_receive_frame:
  "pool_receive w p = (p', x) \<Longrightarrow> pl_closed p' = pl_closed p \<and> pl_worker_count p' = pl_worker_count p"
  by (auto simp: pool_receive_def receive_completion_def Let_def split: list.splits if_splits option.splits sum.splits prod.splits)

lemma poll_workers_ok:
  "tier_ok A env s r \<Longrightarrow> \<forall>w \<in> set ws. 0 \<le> w \<and> w < worker_count (ps_pool s) \<Longrightarrow> poll_workers ws progressed s = (s', x) \<Longrightarrow>
     tier_ok A env s' r \<and> same_delivery s s' \<and> base s' = base s"
proof (induction ws arbitrary: s progressed)
  case (Cons w ws)
  have opened: "\<not> pl_closed (ps_pool s)" "w < pl_worker_count (ps_pool s)" "0 \<le> w"
    using Cons.prems(2) by (auto simp: worker_count_def split: if_splits)
  obtain p y where p: "pool_receive w (ps_pool s) = (p, y)" by fastforce
  let ?s = "s\<lparr>ps_pool := p\<rparr>"
  have same: "same_delivery s ?s" by (simp add: same_delivery_def)
  note work = same_delivery_work [OF same]
  have "answers_ok (position_work env s) A (ps_pool s) r" using Cons.prems(1) by (simp add: tier_ok_def)
  note rec = pool_receive_answers [OF this opened(1,3,2) p]
  have ok: "tier_ok A env ?s r" using Cons.prems(1) rec work by (simp add: tier_ok_def)
  have ws: "\<forall>w \<in> set ws. 0 \<le> w \<and> w < worker_count p"
    using Cons.prems(2) pool_receive_frame [OF p] opened(1) by (simp add: worker_count_def)
  consider e where "y = Inl e" | "y = Inr None" | c where "y = Inr (Some c)" by (metis sum.exhaust option.exhaust)
  then show ?case
  proof cases
    case 1
    with Cons.prems(3) p have s': "s' = ?s" by simp
    show ?thesis unfolding s' using ok same by simp
  next
    case 2
    with Cons.prems(3) p have "poll_workers ws progressed ?s = (s', x)" by simp
    from Cons.IH [OF ok _ this] ws same_delivery_trans [OF same] show ?thesis by simp
  next
    case (3 c)
    obtain position st payload cost where c: "c = (position, st, payload, cost)" by (cases c)
    obtain u z where u: "take_completion w c ?s = (u, z)" by fastforce
    have "answer_for (position_work env ?s) A position st payload" using rec 3 c work by simp
    from take_completion_ok [OF ok this u [unfolded c]]
    have u_ok: "tier_ok A env u r" "same_delivery ?s u" "base u = base s" "ps_pool u = p" by simp_all
    have su: "same_delivery s u" by (rule same_delivery_trans [OF same u_ok(2)])
    show ?thesis
    proof (cases z)
      case (Inl e)
      with Cons.prems(3) p 3 u have "s' = u" by simp
      with u_ok su show ?thesis by simp
    next
      case (Inr _)
      with Cons.prems(3) p 3 u have "poll_workers ws True u = (s', x)" by simp
      from Cons.IH [OF u_ok(1) _ this] ws u_ok su same_delivery_trans [OF su] show ?thesis by simp
    qed
  qed
qed simp

lemma poll_completions_ok:
  assumes "tier_ok A env s r" "poll_completions s = (s', x)"
  shows "tier_ok A env s' r \<and> same_delivery s s' \<and> base s' = base s"
  by (rule poll_workers_ok [OF assms(1) _ assms(2) [unfolded poll_completions_def]]) simp


section \<open>Waiting and committing\<close>

lemma tier_ok_pool:
  assumes "tier_ok A env s r" "answers_ok (position_work env s) A p r'"
  shows "tier_ok A env (s\<lparr>ps_pool := p\<rparr>) r'"
  using assms same_delivery_work [of s "s\<lparr>ps_pool := p\<rparr>" env] by (simp add: tier_ok_def same_delivery_def)

lemma tier_ok_schedule:
  assumes "tier_ok A env s r" "schedule_ok (fr_schedule f)" "sc_delivered (fr_schedule f) = {||}"
    and "sc_positions (fr_schedule f) = sc_positions (fr_schedule (ps_schedule s))"
  shows "tier_ok A env (s\<lparr>ps_schedule := f\<rparr>) r"
  using assms same_delivery_work [of s "s\<lparr>ps_schedule := f\<rparr>" env]
  by (simp add: tier_ok_def same_delivery_def ready_ok_def)

lemma record_wait_frame:
  assumes "schedule_ok (fr_schedule f)" "record_wait ns f = (g, x)"
  shows "schedule_ok (fr_schedule g) \<and> sc_positions (fr_schedule g) = sc_positions (fr_schedule f) \<and>
    sc_delivered (fr_schedule g) = sc_delivered (fr_schedule f) \<and> sc_next_commit (fr_schedule g) = sc_next_commit (fr_schedule f)"
proof -
  have depth: "schedule_ok t \<and> sc_positions t = sc_positions (fr_schedule f) \<and> sc_delivered t = sc_delivered (fr_schedule f) \<and>
      sc_next_commit t = sc_next_commit (fr_schedule f)" if "set_depth d (fr_schedule f) = Inr t" for d t
    using set_depth_ok [OF assms(1) that] that by (auto simp: set_depth_def split: if_splits)
  show ?thesis using assms depth by (auto simp: record_wait_def Let_def split: if_splits sum.splits)
qed

lemma wait_turn_ok:
  assumes ok: "tier_ok A env s r" and honest: "honest_world (position_work env s) A (world.truncate t)"
    and s: "wait_turn t s = (s', x)"
  shows "\<exists>r'. tier_ok A env s' r' \<and> same_delivery s s' \<and> base s' = base s"
proof -
  obtain p y where p: "check_workers (wd_alive t) (wd_expired t) (ps_pool s) = (p, y)" by fastforce
  have "answers_ok (position_work env s) A (ps_pool s) r" using ok by (simp add: tier_ok_def)
  from check_workers_answers [OF this p] obtain r1 where r1: "answers_ok (position_work env s) A p r1" by blast
  show ?thesis
  proof (cases y)
    case (Inl e)
    with s p tier_ok_pool [OF ok r1] show ?thesis by (auto simp: wait_turn_def same_delivery_def intro!: exI [of _ r1])
  next
    case (Inr _)
    obtain q z where q: "wait_for_completion (world.truncate t) p = (q, z)" by fastforce
    from wait_answers [OF honest r1 q] obtain r2 where r2: "answers_ok (position_work env s) A q r2" by blast
    note ok2 = tier_ok_pool [OF ok r2]
    show ?thesis
    proof (cases z)
      case (Inl e)
      with s p Inr q ok2 show ?thesis by (auto simp: wait_turn_def same_delivery_def intro!: exI [of _ r2])
    next
      case (Inr _)
      obtain f w where f: "record_wait (tn_wait_ns t) (ps_schedule s) = (f, w)" by fastforce
      have "schedule_ok (fr_schedule (ps_schedule s))" using ok by (simp add: tier_ok_def)
      note fr = record_wait_frame [OF this f]
      have "tier_ok A env (s\<lparr>ps_pool := q, ps_schedule := f\<rparr>) r2"
        using tier_ok_schedule [OF ok2, of f] fr ok by (simp add: tier_ok_def)
      moreover have "s' = s\<lparr>ps_pool := q, ps_schedule := f\<rparr>"
        using s p \<open>y = Inr _\<close> q Inr f by (simp add: wait_turn_def)
      ultimately show ?thesis using fr by (auto simp: same_delivery_def intro!: exI [of _ r2])
    qed
  qed
qed

lemma try_commit_tier:
  assumes ok: "tier_ok A env s r" and c: "fr_try_commit (ps_schedule s) = (f, out)"
  shows "case out of
      None \<Rightarrow> f = ps_schedule s
    | Some p \<Rightarrow> p = base s \<and> sc_next_commit (fr_schedule f) = base s + 1 \<and>
        (\<exists>st payload w. dict_get (ps_ready s) p = Some (st, payload, w) \<and> answer_for (position_work env s) A p st payload) \<and>
        tier_ok A env (s\<lparr>ps_schedule := f, ps_ready := dict_del p (ps_ready s)\<rparr>) r"
proof (cases out)
  case None
  with c have "f = ps_schedule s"
    by (auto simp: fr_try_commit_def try_commit_def dest!: try_commit_ready_None split: prod.splits)
  with None show ?thesis by simp
next
  case (Some p)
  let ?sched = "fr_schedule (ps_schedule s)"
  from c Some obtain t where t: "try_commit_ready (base s) ?sched = (t, Some p)" "f = (ps_schedule s)\<lparr>fr_schedule := t\<rparr>"
    by (auto simp: fr_try_commit_def try_commit_def split: prod.splits)
  have none: "sc_delivered ?sched = {||}" and sok: "schedule_ok ?sched" using ok by (simp_all add: tier_ok_def)
  from t(1) obtain w where w: "p = base s" "dict_get (sc_positions ?sched) p = Some (position_state.Ready, w)"
    "t = ?sched\<lparr>sc_positions := dict_del p (sc_positions ?sched), sc_next_commit := base s + 1, sc_delivered := {||}\<rparr>"
    by (cases rule: try_commit_ready_Some) (use none in \<open>simp_all add: advance_base.simps\<close>)
  have ready: "ready_ok (answer_for (position_work env s) A) ?sched (ps_ready s)" using ok by (simp add: tier_ok_def)
  then have "p \<in> dict_keys (ps_ready s)" using w(2) by (auto simp: ready_ok_def)
  then obtain st payload v where get: "dict_get (ps_ready s) p = Some (st, payload, v)" using dict_keys_get by (metis prod_cases3)
  moreover from this have "answer_for (position_work env s) A p st payload" using ready by (simp add: ready_ok_def)
  moreover have "schedule_ok t" using try_commit_ready_ok [OF sok t(1)] by simp
  moreover have "ready_ok (answer_for (position_work env s) A) t (dict_del p (ps_ready s))"
    using ready by (simp add: ready_ok_def w(3))
  ultimately show ?thesis
    using Some ok w t(2) same_delivery_work [of s "s\<lparr>ps_schedule := f, ps_ready := dict_del p (ps_ready s)\<rparr>" env]
    by (simp add: tier_ok_def same_delivery_def)
qed

lemma next_completion_ok:
  "tier_ok A env s r \<Longrightarrow> base s = expected \<Longrightarrow> \<forall>t \<in> set ts. honest_world (position_work env s) A (world.truncate t) \<Longrightarrow>
     next_completion env expected ts s = Some (s', ts', x) \<Longrightarrow>
     \<exists>r'. set ts' \<subseteq> set ts \<and> same_delivery s s' \<and> tier_ok A env s' r' \<and>
       (\<forall>st payload w. x = Inr (st, payload, w) \<longrightarrow>
          base s' = expected + 1 \<and> answer_for (position_work env s) A expected st payload)"
proof (induction ts arbitrary: s r)
  case Nil
  then show ?case by simp
next
  case (Cons t ts)
  obtain u y where u: "fill_frontier env (wd_broken t) s = Some (u, y)"
    using Cons.prems(4) by (auto split: option.splits)
  note fill = fill_frontier_ok [OF Cons.prems(1) u]
  then have fill_ok: "tier_ok A env u r" and su: "same_delivery s u" and bu: "base u = expected" using Cons.prems(2) by simp_all
  note work = same_delivery_work [OF su, of env]
  show ?case
  proof (cases y)
    case (Inl e)
    with Cons.prems(4) u fill_ok su show ?thesis by (auto intro!: exI [of _ r])
  next
    case y: (Inr _)
    obtain f out where f: "fr_try_commit (ps_schedule u) = (f, out)" by fastforce
    note commit = try_commit_tier [OF fill_ok f]
    show ?thesis
    proof (cases out)
      case (Some p)
      with commit bu have p: "p = expected" by simp
      from commit Some p obtain st payload w where c: "dict_get (ps_ready u) expected = Some (st, payload, w)"
        "answer_for (position_work env u) A expected st payload" "sc_next_commit (fr_schedule f) = expected + 1"
        "tier_ok A env (u\<lparr>ps_schedule := f, ps_ready := dict_del expected (ps_ready u)\<rparr>) r" using bu by auto
      let ?v = "u\<lparr>ps_schedule := f, ps_ready := dict_del expected (ps_ready u)\<rparr>"
      obtain a b where v: "fill_frontier env (wd_broken t) ?v = Some (a, b)"
        using Cons.prems(4) u y f Some p c(1) by (auto simp: Let_def split: option.splits)
      note second = fill_frontier_ok [OF c(4) v]
      have "same_delivery u ?v" by (simp add: same_delivery_def)
      then have sa: "same_delivery s a" using su second same_delivery_trans by blast
      have "s' = a \<and> ts' = ts \<and> (\<forall>c. x = Inr c \<longrightarrow> c = (st, payload, w))"
        using Cons.prems(4) u y f Some p c(1) v by (auto simp: Let_def split: sum.splits)
      then show ?thesis using second sa c work by (auto intro!: exI [of _ r])
    next
      case None
      then have fu: "f = ps_schedule u" using commit by simp
      obtain v z where v: "poll_completions u = (v, z)" by fastforce
      have uf: "u\<lparr>ps_schedule := f\<rparr> = u" by (simp add: fu)
      note poll = poll_completions_ok [OF fill_ok v]
      have sv: "same_delivery s v" using su poll same_delivery_trans by blast
      have vw: "position_work env v = position_work env s" by (rule same_delivery_work [OF sv])
      consider e where "z = Inl e" | "z = Inr True" | "z = Inr False" by (cases z) auto
      then show ?thesis
      proof cases
        case 1
        with Cons.prems(4) u y f None uf v poll sv show ?thesis by (auto intro!: exI [of _ r])
      next
        case 2
        have "next_completion env expected ts v = Some (s', ts', x)" using Cons.prems(4) u y f None uf v 2 by simp
        from Cons.IH [OF _ _ _ this, of r] poll bu Cons.prems(3) obtain r' where r': "set ts' \<subseteq> set ts" "same_delivery v s'"
          "tier_ok A env s' r'" "\<forall>st payload w. x = Inr (st, payload, w) \<longrightarrow>
          base s' = expected + 1 \<and> answer_for (position_work env s) A expected st payload" by (auto simp: vw)
        with same_delivery_trans [OF sv r'(2)] show ?thesis by (intro exI [of _ r']) auto
      next
        case 3
        obtain a b where a: "wait_turn t v = (a, b)" by fastforce
        have vok: "tier_ok A env v r" and "honest_world (position_work env v) A (world.truncate t)"
          using poll Cons.prems(3) by (simp_all add: vw)
        from wait_turn_ok [OF this a] obtain r' where r': "tier_ok A env a r'" "same_delivery v a" "base a = base v" by blast
        have sa: "same_delivery s a" by (rule same_delivery_trans [OF sv r'(2)])
        have aw: "position_work env a = position_work env s" by (rule same_delivery_work [OF sa])
        show ?thesis
        proof (cases b)
          case (Inl e)
          with Cons.prems(4) u y f None uf v 3 a r' sa show ?thesis by (auto intro!: exI [of _ r'])
        next
          case (Inr _)
          have "next_completion env expected ts a = Some (s', ts', x)" using Cons.prems(4) u y f None uf v 3 a Inr by simp
          from Cons.IH [OF r'(1) _ _ this] r' poll bu Cons.prems(3) obtain r'' where r'': "set ts' \<subseteq> set ts" "same_delivery a s'"
            "tier_ok A env s' r''" "\<forall>st payload w. x = Inr (st, payload, w) \<longrightarrow>
            base s' = expected + 1 \<and> answer_for (position_work env s) A expected st payload" by (auto simp: aw)
          with same_delivery_trans [OF sa r''(2)] show ?thesis by (intro exI [of _ r'']) auto
        qed
      qed
    qed
  qed
qed


section \<open>Samples in order\<close>

text \<open>The values of a sequence of completions.\<close>

fun decode_all :: "'v process_env \<Rightarrow> (int \<times> int list \<times> int) list \<Rightarrow> 'v decoder \<Rightarrow> 'v decoder \<times> 'v list res" where
  "decode_all env [] bases = (bases, Inr [])"
| "decode_all env ((status, payload, worker) # cs) bases =
    (case pool_decode (pe_codec env) (pe_reraise env) status payload worker bases of
       (bases, Inl e) \<Rightarrow> (bases, Inl e)
     | (bases, Inr v) \<Rightarrow> (case decode_all env cs bases of (bases, r) \<Rightarrow> (bases, rmap (Cons v) r)))"

definition answers_position :: "(int \<Rightarrow> int \<Rightarrow> int list \<Rightarrow> bool) \<Rightarrow> int \<Rightarrow> int \<times> int list \<times> int \<Rightarrow> bool" where
  "answers_position Q p c = (case c of (status, payload, worker) \<Rightarrow> Q p status payload)"

definition same_samples :: "'v process_state \<Rightarrow> 'v process_state \<Rightarrow> bool" where
  "same_samples s s' \<longleftrightarrow> ps_loader s' = ps_loader s \<and> ps_epoch s' = ps_epoch s \<and> ps_length s' = ps_length s \<and>
    ps_transport_batch_size s' = ps_transport_batch_size s \<and> ps_user_collation s' = ps_user_collation s \<and>
    ps_position s' = ps_position s \<and> ps_on_completion s' = ps_on_completion s \<and>
    ps_worker_batches s' = ps_worker_batches s"

lemma same_samples_refl [simp]: "same_samples s s" by (simp add: same_samples_def)

lemma same_samples_trans: "same_samples s s' \<Longrightarrow> same_samples s' s'' \<Longrightarrow> same_samples s s''"
  by (simp add: same_samples_def)

lemma same_samples_work: "same_samples s s' \<Longrightarrow> position_work env s' = position_work env s"
  by (auto simp: same_samples_def position_work_def command_length_def sample_position_def fun_eq_iff split: option.splits)

lemma tier_ok_decoder: "tier_ok A env s r \<Longrightarrow> tier_ok A env (s\<lparr>ps_decoder := d\<rparr>) r"
  using same_samples_work [of s "s\<lparr>ps_decoder := d\<rparr>" env] by (simp add: tier_ok_def same_samples_def)

lemma next_sample_ok:
  assumes ok: "tier_ok A env s r" and base: "base s = p"
    and honest: "\<forall>t \<in> set ts. honest_world (position_work env s) A (world.truncate t)"
    and s: "next_sample env p ts s = Some (s', ts', Inr v)"
  shows "\<exists>r' status payload worker. set ts' \<subseteq> set ts \<and> same_samples s s' \<and> tier_ok A env s' r' \<and> base s' = p + 1 \<and>
    answer_for (position_work env s) A p status payload \<and>
    pool_decode (pe_codec env) (pe_reraise env) status payload worker (ps_decoder s) = (ps_decoder s', Inr v)"
proof -
  obtain u x where u: "next_completion env p ts s = Some (u, ts', Inr x)"
    using s by (auto simp: next_sample_def split: option.splits sum.splits prod.splits)
  obtain status payload worker where x: "x = (status, payload, worker)" by (cases x)
  from next_completion_ok [OF ok base honest u] x obtain r' where r': "set ts' \<subseteq> set ts" "same_delivery s u" "tier_ok A env u r'"
    "base u = p + 1" "answer_for (position_work env s) A p status payload" by auto
  obtain d y where d: "pool_decode (pe_codec env) (pe_reraise env) status payload worker (ps_decoder u) = (d, y)" by fastforce
  have "s' = u\<lparr>ps_decoder := d\<rparr>" "y = Inr v"
    using s u x d by (auto simp: next_sample_def decode_sample_def)
  moreover have "ps_decoder u = ps_decoder s" "same_samples s (u\<lparr>ps_decoder := d\<rparr>)"
    using r'(2) by (simp_all add: same_delivery_def same_samples_def)
  ultimately show ?thesis using r' d tier_ok_decoder [OF r'(3)]
    by (intro exI [of _ r'] exI [of _ status] exI [of _ payload] exI [of _ worker]) auto
qed

lemma next_samples_ok:
  "tier_ok A env s r \<Longrightarrow> base s = a \<Longrightarrow> \<forall>t \<in> set ts. honest_world (position_work env s) A (world.truncate t) \<Longrightarrow>
     next_samples env (irange a b) ts s = Some (s', ts', Inr vs) \<Longrightarrow> a \<le> b \<Longrightarrow>
     \<exists>r' cs. same_samples s s' \<and> tier_ok A env s' r' \<and> base s' = b \<and>
       list_all2 (answers_position (answer_for (position_work env s) A)) (irange a b) cs \<and>
       decode_all env cs (ps_decoder s) = (ps_decoder s', Inr vs)"
proof (induction "irange a b" arbitrary: a s ts r vs)
  case Nil
  then have "a = b" by (cases "a < b") (simp_all add: irange_Cons)
  with Nil show ?case by (auto simp: intro!: exI [of _ r] exI [of _ "[]"])
next
  case (Cons p ps)
  then have lt: "a < b" by (cases "a < b") simp_all
  with Cons.hyps(2) have p: "p = a" "ps = irange (a + 1) b" "irange a b = a # irange (a + 1) b" by (simp_all add: irange_Cons)
  obtain u us v ws where u: "next_sample env a ts s = Some (u, us, Inr v)" and
    w: "next_samples env (irange (a + 1) b) us u = Some (s', ts', Inr ws)" and vs: "vs = v # ws"
    using Cons.prems(4) p(3) by (auto simp: rmap_eq_Inr split: option.splits sum.splits prod.splits)
  from next_sample_ok [OF Cons.prems(1-3) u] obtain r' status payload worker where
    r': "set us \<subseteq> set ts" "same_samples s u" "tier_ok A env u r'" "base u = a + 1"
    "answer_for (position_work env s) A a status payload"
    "pool_decode (pe_codec env) (pe_reraise env) status payload worker (ps_decoder s) = (ps_decoder u, Inr v)" by blast
  note work = same_samples_work [OF r'(2), of env]
  have "\<forall>t \<in> set us. honest_world (position_work env u) A (world.truncate t)" using Cons.prems(3) r'(1) work by auto
  from Cons.hyps(1) [OF p(2) r'(3,4) this w] lt obtain r'' cs where
    rest: "same_samples u s'" "tier_ok A env s' r''" "base s' = b"
      "list_all2 (answers_position (answer_for (position_work env s) A)) (irange (a + 1) b) cs"
      "decode_all env cs (ps_decoder u) = (ps_decoder s', Inr ws)" unfolding work by auto
  have "list_all2 (answers_position (answer_for (position_work env s) A)) (irange a b) ((status, payload, worker) # cs)"
    unfolding p(3) using r'(5) rest(4) by (simp add: answers_position_def)
  moreover have "decode_all env ((status, payload, worker) # cs) (ps_decoder s) = (ps_decoder s', Inr vs)"
    using r'(6) rest(5) vs by simp
  ultimately show ?case using rest(2,3) same_samples_trans [OF r'(2) rest(1)] by blast
qed


section \<open>The values\<close>

text \<open>
  What a worker may answer to a sample command: the encoded result of running it, or its exception.
  The encoder's cache enters with shared storages only.
\<close>

definition worker_answer ::
    "('s, 'b, 'a, 'v) user_code \<Rightarrow> ('v \<Rightarrow> array_facts) \<Rightarrow> 'v codec \<Rightarrow> int \<Rightarrow> work \<Rightarrow> int \<Rightarrow> int list \<Rightarrow> bool" where
  "worker_answer uc facts cd root_seed k status payload \<longleftrightarrow> (case k of (e, c, i, b) \<Rightarrow>
    (case fst (snd (run_command uc facts root_seed None None
        \<lparr>dp_stage_plan = BLACK_BOX_STAGE, dp_epoch = e, dp_position = c, dp_index = i, dp_batch_len = b,
         dp_command = Inl EOFError\<rparr> [])) of
       Raised _ \<Rightarrow> status = 1
     | Ready v \<Rightarrow> status = 0 \<and> (\<exists>ids. payload = snd (encode_result cd v ids))
     | Rows _ _ \<Rightarrow> status = 2))"

text \<open>The environment of a loader with a native plan whose values share no storage.\<close>

definition native_env ::
    "('s, 'b, 'a, 'v) user_code \<Rightarrow> (int \<Rightarrow> int \<Rightarrow> int \<Rightarrow> int run) \<Rightarrow> 'v process_env \<Rightarrow> bool" where
  "native_env uc plan env \<longleftrightarrow> pe_plan env = plan \<and> pe_sampler env = None \<and> pe_collate env = uc_default_collate uc \<and>
    uc_collate_fn uc = None \<and> (\<forall>v. cd_storage (pe_codec env) v = None) \<and>
    (\<forall>b. cd_unpickle (pe_codec env) (cd_pickle (pe_codec env) b) = Inr b)"

lemma decoded_answer:
  assumes env: "native_env uc plan env" and mode: "ps_transport_batch_size s = None"
    and a: "answer_for (position_work env s) (worker_answer uc facts (pe_codec env) (ld_root_seed (ps_loader s))) p status payload"
    and d: "pool_decode (pe_codec env) (pe_reraise env) status payload worker bases = (bases', Inr v)"
  shows "\<exists>c i. native_coordinate (ps_loader s) p = Inr c \<and> native_index plan (ps_loader s) (ps_epoch s) p = Some (Inr i) \<and>
    evaluate_in_process uc (ld_root_seed (ps_loader s)) (ps_epoch s) (c, uc_native uc i) = Inr v"
proof -
  let ?root = "ld_root_seed (ps_loader s)"
  have zero: "status = 0" using d by (auto simp: pool_decode_def split: if_splits)
  from a obtain e c i b where k: "position_work env s p (e, c, i, b)"
    "worker_answer uc facts (pe_codec env) ?root (e, c, i, b) status payload" by (auto simp: answer_for_def)
  have work: "e = ps_epoch s" "b = 0" "native_coordinate (ps_loader s) p = Inr c"
    "native_index plan (ps_loader s) (ps_epoch s) p = Some (Inr i)"
    using k(1) env mode
    by (auto simp: position_work_def command_length_def sample_position_def command_target_def native_env_def returns_def
        obind_eq_Some_Inr)
  obtain w where w: "evaluate_in_process uc ?root e (c, uc_native uc i) = Inr w" "\<exists>ids. payload = snd (encode_result (pe_codec env) w ids)"
    using k(2) zero work(2)
    by (auto simp: worker_answer_def run_command_def evaluate_dispatch_def evaluate_sample_in_process split: sum.splits)
  then have "payload = encode_uncached (pe_codec env) w" using env by (auto simp: encode_result_def native_env_def)
  then have "v = w" using d zero env
    by (simp add: pool_decode_def decode_result_def encode_uncached_def native_env_def Let_def)
  with w work show ?thesis by auto
qed

lemma decoded_values:
  assumes env: "native_env uc plan env" and mode: "ps_transport_batch_size s = None"
  shows "list_all2 (answers_position (answer_for (position_work env s)
      (worker_answer uc facts (pe_codec env) (ld_root_seed (ps_loader s))))) ps cs \<Longrightarrow>
    decode_all env cs bases = (bases', Inr vs) \<Longrightarrow>
    \<exists>coords indices. rtraverse (native_coordinate (ps_loader s)) ps = Inr coords \<and>
      otraverse (native_index plan (ps_loader s) (ps_epoch s)) ps = Some (Inr indices) \<and>
      rtraverse (evaluate_in_process uc (ld_root_seed (ps_loader s)) (ps_epoch s)) (zip coords (map (uc_native uc) indices)) = Inr vs"
proof (induction cs arbitrary: ps bases vs)
  case Nil
  then show ?case by simp
next
  case (Cons x cs)
  obtain status payload worker where x: "x = (status, payload, worker)" by (cases x)
  from Cons.prems(1) obtain p qs where ps: "ps = p # qs" "answers_position (answer_for (position_work env s)
      (worker_answer uc facts (pe_codec env) (ld_root_seed (ps_loader s)))) p x"
    "list_all2 (answers_position (answer_for (position_work env s)
      (worker_answer uc facts (pe_codec env) (ld_root_seed (ps_loader s))))) qs cs"
    by (auto simp: list_all2_Cons2)
  from Cons.prems(2) obtain b1 v ws where d: "pool_decode (pe_codec env) (pe_reraise env) status payload worker bases = (b1, Inr v)"
    "decode_all env cs b1 = (bases', Inr ws)" "vs = v # ws"
    by (auto simp: x rmap_eq_Inr split: prod.splits sum.splits)
  from decoded_answer [OF env mode _ d(1), of facts p] ps(2) obtain c i where one: "native_coordinate (ps_loader s) p = Inr c"
    "native_index plan (ps_loader s) (ps_epoch s) p = Some (Inr i)"
    "evaluate_in_process uc (ld_root_seed (ps_loader s)) (ps_epoch s) (c, uc_native uc i) = Inr v"
    by (auto simp: answers_position_def x)
  from Cons.IH [OF ps(3) d(2)] obtain coords indices where rest: "rtraverse (native_coordinate (ps_loader s)) qs = Inr coords"
    "otraverse (native_index plan (ps_loader s) (ps_epoch s)) qs = Some (Inr indices)"
    "rtraverse (evaluate_in_process uc (ld_root_seed (ps_loader s)) (ps_epoch s)) (zip coords (map (uc_native uc) indices)) = Inr ws"
    by blast
  show ?case by (rule exI [of _ "c # coords"], rule exI [of _ "i # indices"]) (simp add: ps(1) one rest d(3))
qed

section \<open>Batches\<close>

text \<open>An iterator between two batches of the loader, all of whose samples travel alone.\<close>

definition process_at ::
    "('s, 'b, 'a, 'v) user_code \<Rightarrow> ('v \<Rightarrow> array_facts) \<Rightarrow> 'v process_env \<Rightarrow> int \<Rightarrow> 'v process_state \<Rightarrow>
     (int \<Rightarrow> worker_command option) \<Rightarrow> bool" where
  "process_at uc facts env k s r \<longleftrightarrow>
    tier_ok (worker_answer uc facts (pe_codec env) (ld_root_seed (ps_loader s))) env s r \<and>
    ps_transport_batch_size s = None \<and> \<not> ps_worker_batches s \<and> \<not> ps_on_completion s \<and>
    (\<exists>b. sz_batch_size (ld_sizing (ps_loader s)) = Some b \<and> 0 < b) \<and> 0 \<le> k \<and>
    base s = min (ps_length s) (k * loader_width (ps_loader s)) \<and> ps_position s = base s"

text \<open>What the turns of a run must be: honest worlds for the work the iterator began with.\<close>

definition honest_turns ::
    "('s, 'b, 'a, 'v) user_code \<Rightarrow> ('v \<Rightarrow> array_facts) \<Rightarrow> 'v process_env \<Rightarrow> 'v process_state \<Rightarrow> turn list \<Rightarrow> bool" where
  "honest_turns uc facts env s ts \<longleftrightarrow> (\<forall>t \<in> set ts. honest_world (position_work env s)
    (worker_answer uc facts (pe_codec env) (ld_root_seed (ps_loader s))) (world.truncate t))"

definition same_run :: "'v process_state \<Rightarrow> 'v process_state \<Rightarrow> bool" where
  "same_run s s' \<longleftrightarrow> ps_epoch s' = ps_epoch s \<and> ps_length s' = ps_length s \<and>
    ps_transport_batch_size s' = ps_transport_batch_size s \<and>
    (\<exists>epochs. ps_loader s' = (ps_loader s)\<lparr>ld_epoch_state := epochs\<rparr>)"

lemma same_run_refl [simp]: "same_run s s" by (auto simp: same_run_def intro: exI [of _ "ld_epoch_state (ps_loader s)"])

lemma same_run_trans: "same_run s s' \<Longrightarrow> same_run s' s'' \<Longrightarrow> same_run s s''" by (auto simp: same_run_def)

lemma same_run_samples: "same_samples s s' \<Longrightarrow> same_run s s'"
  by (auto simp: same_samples_def same_run_def intro: exI [of _ "ld_epoch_state (ps_loader s)"])

lemma same_run_work: "same_run s s' \<Longrightarrow> position_work env s' = position_work env s"
  by (auto simp: same_run_def position_work_def command_length_def sample_position_def command_target_def fun_eq_iff
      split: option.splits)

lemma same_run_batch: "same_run s s' \<Longrightarrow> native_batch uc plan (ps_loader s') = native_batch uc plan (ps_loader s)"
  by (rule same_data_batch) (auto simp: same_run_def same_data_def)

lemma adapt_controller_frame:
  assumes "schedule_ok (fr_schedule (ps_schedule s))" "adapt_controller now n s = (s', x)"
  shows "ps_loader s' = ps_loader s \<and> ps_epoch s' = ps_epoch s \<and> ps_length s' = ps_length s \<and> ps_pool s' = ps_pool s \<and>
    ps_transport_batch_size s' = ps_transport_batch_size s \<and> ps_user_collation s' = ps_user_collation s \<and>
    ps_position s' = ps_position s \<and> ps_on_completion s' = ps_on_completion s \<and> ps_worker_batches s' = ps_worker_batches s \<and>
    ps_ready s' = ps_ready s \<and> ps_valid s' = ps_valid s \<and> schedule_ok (fr_schedule (ps_schedule s')) \<and>
    sc_positions (fr_schedule (ps_schedule s')) = sc_positions (fr_schedule (ps_schedule s)) \<and>
    sc_delivered (fr_schedule (ps_schedule s')) = sc_delivered (fr_schedule (ps_schedule s)) \<and> base s' = base s"
proof -
  let ?sched = "fr_schedule (ps_schedule s)"
  have width: "schedule_ok t \<and> sc_positions t = sc_positions ?sched \<and> sc_delivered t = sc_delivered ?sched \<and>
      sc_next_commit t = sc_next_commit ?sched" if "set_worker_count w ?sched = Inr t" for w t
    using set_worker_count_ok [OF assms(1) that] that by (auto simp: set_worker_count_def split: if_splits)
  show ?thesis
    using assms width
    by (auto simp: adapt_controller_def Let_def consume_stall_flag_def fr_set_worker_count_def rmap_eq_Inr
        split: if_splits prod.splits sum.splits option.splits)
qed


text \<open>One batch.\<close>

lemma next_in_order_batch:
  assumes at: "process_at uc facts env k s r" and env: "native_env uc plan env" and turns: "honest_turns uc facts env s ts"
    and more: "\<not> ps_length s \<le> ps_position s" and s: "next_in_order env now ts s = Some (s', Inr v)"
  shows "\<exists>r'. native_batch uc plan (ps_loader s) (ps_length s) (ps_epoch s) k = Some (Inr v) \<and>
    process_at uc facts env (k + 1) s' r' \<and> same_run s s'"
proof -
  let ?l = "ps_loader s" and ?n = "ps_length s"
  let ?A = "worker_answer uc facts (pe_codec env) (ld_root_seed ?l)"
  obtain b where b: "sz_batch_size (ld_sizing ?l) = Some b" "0 < b" using at by (auto simp: process_at_def)
  have w: "loader_width ?l = b" using b by (simp add: loader_width_def)
  have ok: "tier_ok ?A env s r" and mode: "ps_transport_batch_size s = None" "\<not> ps_worker_batches s" and k: "0 \<le> k"
    and pos: "ps_position s = k * b" "base s = k * b" "k * b < ?n"
    using at more by (auto simp: process_at_def w)
  let ?stop = "min (k * b + b) ?n"
  obtain u ts' where u: "next_owner_batch env (k * b) ?stop ts s = Some (u, ts', Inr v)" and
    s': "delivered_to ?stop now (?stop - ps_position u) v u = (s', Inr v)"
    using s b mode pos by (auto simp: next_in_order_def Let_def delivered_to_def rmap_eq_Inr split: option.splits sum.splits prod.splits)
  obtain vs where vs: "next_samples env (irange (k * b) ?stop) ts s = Some (u, ts', Inr vs)" "pe_collate env vs = Inr v"
    using u by (auto simp: next_owner_batch_def rbind_eq_Inr split: option.splits prod.splits)
  from next_samples_ok [OF ok pos(2) _ vs(1)] turns pos(3) b(2) obtain r' cs where r': "same_samples s u" "tier_ok ?A env u r'"
    "base u = ?stop" "list_all2 (answers_position (answer_for (position_work env s) ?A)) (irange (k * b) ?stop) cs"
    "decode_all env cs (ps_decoder s) = (ps_decoder u, Inr vs)" by (auto simp: honest_turns_def)
  from decoded_values [OF env mode(1) r'(4,5)] obtain coords indices where parts:
    "rtraverse (native_coordinate ?l) (irange (k * b) ?stop) = Inr coords"
    "otraverse (native_index plan ?l (ps_epoch s)) (irange (k * b) ?stop) = Some (Inr indices)"
    "rtraverse (evaluate_in_process uc (ld_root_seed ?l) (ps_epoch s)) (zip coords (map (uc_native uc) indices)) = Inr vs" by blast
  have clip: "min ?n (k * b) = k * b" "min ?n (k * b + b) = ?stop" using pos(3) by auto
  have "collate_in_process uc ?l (ps_epoch s) k vs = Inr v"
    using vs(2) env b by (simp add: collate_in_process_def native_env_def)
  then have val: "native_batch uc plan ?l ?n (ps_epoch s) k = Some (Inr v)"
    unfolding native_batch_def w clip using parts by (simp add: returns_def)
  let ?v = "mark_delivered (u\<lparr>ps_position := ?stop\<rparr>)"
  obtain x where x: "adapt_controller now (?stop - ps_position u) ?v = (s', x)"
    using s' by (auto simp: delivered_to_def split: prod.splits)
  have uk: "schedule_ok (fr_schedule (ps_schedule u))" using r'(2) by (simp add: tier_ok_def)
  then have vk: "schedule_ok (fr_schedule (ps_schedule ?v))" by (simp add: mark_delivered_def)
  note frame = adapt_controller_frame [OF vk x]
  have run_u: "same_run s u" by (rule same_run_samples [OF r'(1)])
  have run: "same_run u s'" using frame by (auto simp: same_run_def mark_delivered_def)
  have run_s: "same_run s s'" by (rule same_run_trans [OF run_u run])
  have "tier_ok ?A env s' r'"
    using r'(2) frame same_run_work [OF run, of env] by (simp add: tier_ok_def mark_delivered_def ready_ok_def)
  then have "process_at uc facts env (k + 1) s' r'"
    using at frame run_s r'(1,3) b k w pos
    by (auto simp: process_at_def same_run_def same_samples_def mark_delivered_def loader_width_def algebra_simps)
  with val run_s show ?thesis by blast
qed

section \<open>Runs\<close>

text \<open>Successive calls of \<^verbatim>\<open>__next__\<close>: the time of delivery, the time spent, the turns of the waiting loops.\<close>

primrec process_run ::
    "'v process_env \<Rightarrow> (int \<times> int \<times> turn list) list \<Rightarrow> 'v process_state \<Rightarrow> ('v process_state \<times> 'v list res) option" where
  "process_run env [] s = Some (s, Inr [])"
| "process_run env (call # calls) s =
    (case call of (now_ns, active_ns, ts) \<Rightarrow>
      (case process_iterate env now_ns active_ns ts s of
         None \<Rightarrow> None
       | Some (s, Inl e) \<Rightarrow> Some (s, Inl e)
       | Some (s, Inr v) \<Rightarrow> map_option (\<lambda>(s, r). (s, rmap (Cons v) r)) (process_run env calls s)))"

lemma close_on_error_Inr [simp]: "close_on_error out = (s, Inr v) \<longleftrightarrow> out = (s, Inr v)"
  by (auto simp: close_on_error_def split: prod.splits sum.splits py_error.splits)

lemma record_active_frame [simp]: "fr_schedule (record_active ns f) = fr_schedule f"
  by (simp add: record_active_def)

lemma process_iterate_batch:
  assumes at: "process_at uc facts env k s r" and env: "native_env uc plan env" and turns: "honest_turns uc facts env s ts"
    and s: "process_iterate env now active ts s = Some (s', Inr v)"
  shows "\<exists>r'. native_batch uc plan (ps_loader s) (ps_length s) (ps_epoch s) k = Some (Inr v) \<and>
    k * loader_width (ps_loader s) < ps_length s \<and> process_at uc facts env (k + 1) s' r' \<and> same_run s s'"
proof -
  have mode: "\<not> ps_user_collation s" "\<not> ps_on_completion s" using at by (simp_all add: process_at_def tier_ok_def)
  obtain u where u: "process_next env now ts s = Some (u, Inr v)"
    and s': "s' = (if ps_length u = 0 then u else u\<lparr>ps_schedule := record_active active (ps_schedule u)\<rparr>)"
    using s by (auto simp: process_iterate_def)
  have more: "\<not> ps_length s \<le> ps_position s" and n: "next_in_order env now ts s = Some (u, Inr v)"
    using u mode by (auto simp: process_next_def split: if_splits)
  from next_in_order_batch [OF at env turns more n] obtain r' where
    r': "native_batch uc plan (ps_loader s) (ps_length s) (ps_epoch s) k = Some (Inr v)"
      "process_at uc facts env (k + 1) u r'" "same_run s u" by blast
  have "same_run u s'" by (auto simp: s' same_run_def intro: exI [of _ "ld_epoch_state (ps_loader u)"])
  moreover from same_run_work [OF this, of env] have "process_at uc facts env (k + 1) s' r'"
    using r'(2) by (simp add: s' process_at_def tier_ok_def)
  moreover have "k * loader_width (ps_loader s) < ps_length s" using more at by (simp add: process_at_def)
  ultimately show ?thesis using r' same_run_trans by blast
qed

lemma honest_turns_run: "same_run s s' \<Longrightarrow> honest_turns uc facts env s' ts = honest_turns uc facts env s ts"
  using same_run_work [of s s' env] by (auto simp: honest_turns_def same_run_def)

lemma process_run_values:
  "process_at uc facts env k s r \<Longrightarrow> native_env uc plan env \<Longrightarrow>
   \<forall>call \<in> set calls. honest_turns uc facts env s (snd (snd call)) \<Longrightarrow> process_run env calls s = Some (s', Inr vs) \<Longrightarrow>
   length vs = length calls \<and>
   (\<forall>j < length vs. native_batch uc plan (ps_loader s) (ps_length s) (ps_epoch s) (k + int j) = Some (Inr (vs ! j)) \<and>
      (k + int j) * loader_width (ps_loader s) < ps_length s)"
proof (induction calls arbitrary: k s r vs)
  case Nil
  then show ?case by simp
next
  case (Cons call calls)
  obtain now active ts where call: "call = (now, active, ts)" by (cases call)
  obtain u v us where step: "process_iterate env now active ts s = Some (u, Inr v)" and
    rest: "process_run env calls u = Some (s', Inr us)" and vs: "vs = v # us"
    using Cons.prems(4) by (auto simp: call rmap_eq_Inr split: option.splits sum.splits prod.splits)
  have "honest_turns uc facts env s ts" using Cons.prems(3) by (simp add: call)
  from process_iterate_batch [OF Cons.prems(1,2) this step] obtain r' where
    one: "native_batch uc plan (ps_loader s) (ps_length s) (ps_epoch s) k = Some (Inr v)"
      "k * loader_width (ps_loader s) < ps_length s" "process_at uc facts env (k + 1) u r'" "same_run s u" by blast
  have "\<forall>call \<in> set calls. honest_turns uc facts env u (snd (snd call))"
    using Cons.prems(3) by (simp add: honest_turns_run [OF one(4)])
  note ih = Cons.IH [OF one(3) Cons.prems(2) this rest]
  have same: "ps_length u = ps_length s" "ps_epoch u = ps_epoch s" "loader_width (ps_loader u) = loader_width (ps_loader s)"
    using one(4) by (auto simp: same_run_def loader_width_def)
  have "native_batch uc plan (ps_loader s) (ps_length s) (ps_epoch s) (k + int j) = Some (Inr (vs ! j)) \<and>
      (k + int j) * loader_width (ps_loader s) < ps_length s" if j: "j < length vs" for j
  proof (cases j)
    case 0
    with one(1,2) vs show ?thesis by simp
  next
    case (Suc i)
    with j vs have "i < length us" by simp
    with ih have "native_batch uc plan (ps_loader u) (ps_length s) (ps_epoch s) (k + 1 + int i) = Some (Inr (us ! i)) \<and>
        (k + 1 + int i) * loader_width (ps_loader s) < ps_length s" by (simp add: same)
    with Suc vs show ?thesis by (simp add: same_run_batch [OF one(4)] algebra_simps)
  qed
  with ih vs show ?case by simp
qed

section \<open>A new iterator\<close>

lemma new_pool_answers:
  assumes new: "new_pool n (e, q, i) coord capacity requested minimum budget restart None (status, payload, layout, cost) = Inr p"
    and probe: "A (e, case coord of None \<Rightarrow> q | Some c \<Rightarrow> c, i, 0) status payload"
  shows "answers_ok W A p (\<lambda>_. None)" "pl_batch_size p = None"
proof -
  obtain c pc ec t where t: "new_transport n c pc ec = Inr t" and p: "pl_resources p = Some t" "pl_pending p = []" "pl_immediate p = []"
    "pl_probe_key p = (e, case coord of None \<Rightarrow> q | Some c \<Rightarrow> c, i)" "pl_probe_status p = status" "pl_probe_payload p = Some payload"
    and b: "pl_batch_size p = None"
    using new by (clarsimp simp: new_pool_def Let_def rbind_eq_Inr split: prod.splits)
  have "tr_dispatch t = (\<lambda>_. [])" "result_queues t = (\<lambda>_. [])"
    using t by (auto simp: new_transport_def result_queues_def fun_eq_iff split: if_splits)
  then show "answers_ok W A p (\<lambda>_. None)"
    using new_pool_ok [OF new] p probe by (simp add: answers_ok_def work_known_def queue_known_def probe_known_def)
  show "pl_batch_size p = None" by (rule b)
qed

lemma new_process_at:
  assumes new: "new_process_iterator env broken free l p c profile False growth binding now bases = Some (Inr s)"
    and pool: "\<And>W. answers_ok W (worker_answer uc facts (pe_codec env) (ld_root_seed l)) p r" "pl_batch_size p = None"
    and l: "ld_delivery l \<noteq> ''on-completion''" "sz_batch_size (ld_sizing l) = Some b" "0 < b" "0 \<le> ld_cursor l"
  shows "process_at uc facts env (ld_cursor l) s r" "ps_loader s = l" "ps_epoch s = es_current (ld_epoch_state l)"
    "delivery_length (ld_sizing l) = Inr (ps_length s)" "ld_cursor l \<le> (ps_length s + loader_width l - 1) div loader_width l"
proof -
  let ?A = "worker_answer uc facts (pe_codec env) (ld_root_seed l)"
  have w: "loader_width l = b" using l by (simp add: loader_width_def)
  obtain n where n: "delivery_length (ld_sizing l) = Inr n" using new by (auto simp: new_process_iterator_def returns_def obind_eq_Some_Inr)
  obtain q where q: "resume_sample_position l n = Inr q" using new n by (auto simp: new_process_iterator_def returns_def obind_eq_Some_Inr)
  have qv: "q = min n (ld_cursor l * b)" "ld_cursor l \<le> (n + b - 1) div b"
    using q by (auto simp: resume_sample_position_def w Let_def split: if_splits)
  define s0 where "s0 = initial_state l p c profile False now bases n q {||} no_schedule"
  have s0: "ps_loader s0 = l" "ps_epoch s0 = es_current (ld_epoch_state l)" "ps_length s0 = n" "ps_pool s0 = p"
    "ps_transport_batch_size s0 = None" "\<not> ps_worker_batches s0" "\<not> ps_on_completion s0" "\<not> ps_user_collation s0"
    "ps_position s0 = q" "ps_ready s0 = []" "ps_schedule s0 = no_schedule"
    using l(1) pool(2) by (simp_all add: s0_def initial_state_def Let_def sorted_list_of_fset.rep_eq)
  have start: "tier_ok ?A env (s0\<lparr>ps_schedule := f\<rparr>) r"
    if "schedule_ok (fr_schedule f)" "sc_positions (fr_schedule f) = []" "sc_delivered (fr_schedule f) = {||}" for f
    using that pool(1) by (simp add: tier_ok_def s0 ready_ok_def)
  have "tier_ok ?A env s r \<and> same_delivery s0 s \<and> base s = q"
  proof (cases "n = 0")
    case True
    then have "s = s0" using new n q l(1) by (simp add: new_process_iterator_def returns_def s0_def)
    then have "s = s0\<lparr>ps_schedule := no_schedule\<rparr>" using s0(11) by (cases s0) simp
    moreover have "q = 0" using True qv l(3,4) by (auto simp: min_def)
    ultimately show ?thesis using start [of no_schedule]
      by (simp add: no_schedule_def schedule_ok_def window_stop_def same_delivery_def)
  next
    case False
    obtain depth limit where dl: "frontier_depth free (ld_sizing l) = Inr depth" "frontier_ceiling free (ld_sizing l) = Inr limit"
      using new n q l(1) False by (auto simp: new_process_iterator_def returns_def obind_eq_Some_Inr Let_def)
    obtain f g x where f: "new_frontier n depth limit (worker_count p) growth binding (Some (dispatch_cost s0)) q = Inr f"
      "fr_set_worker_count (ct_width c) f = Inr g" "fill_frontier env broken (s0\<lparr>ps_schedule := g\<rparr>) = Some (s, x)"
      using new n q l(1) False dl s0(5)
      by (auto simp: new_process_iterator_def returns_def obind_eq_Some_Inr s0_def [symmetric] schedule_geometry_def rmap_eq_Inr
          split: option.splits)
    obtain t where t: "new_schedule q n depth (worker_count p) = Inr t" "fr_schedule f = t"
      using f(1) by (auto simp: new_frontier_def rmap_eq_Inr)
    have t_ok: "schedule_ok t" "sc_positions t = []" "sc_delivered t = {||}" "sc_next_commit t = q"
      using new_schedule_ok [OF t(1)] t(1) by (auto simp: new_schedule_def split: if_splits)
    obtain u where u: "set_worker_count (ct_width c) t = Inr u" "fr_schedule g = u"
      using f(2) t(2) by (auto simp: fr_set_worker_count_def rmap_eq_Inr)
    have "schedule_ok u" "sc_positions u = []" "sc_delivered u = {||}" "sc_next_commit u = q"
      using set_worker_count_ok [OF t_ok(1) u(1)] u(1) t_ok by (auto simp: set_worker_count_def split: if_splits)
    with fill_frontier_ok [OF start f(3)] u(2) show ?thesis by (auto simp: same_delivery_def)
  qed
  then have ok: "tier_ok ?A env s r" and same: "same_delivery s0 s" and q': "base s = q" by simp_all
  show "ps_loader s = l" "ps_epoch s = es_current (ld_epoch_state l)"
    "delivery_length (ld_sizing l) = Inr (ps_length s)" "ld_cursor l \<le> (ps_length s + loader_width l - 1) div loader_width l"
    using same n qv by (simp_all add: same_delivery_def s0 w)
  show "process_at uc facts env (ld_cursor l) s r"
    using ok same q' qv l by (simp add: process_at_def same_delivery_def s0 w)
qed


text \<open>One number in a batch of its own, one worker that has answered it as the probe, one call of two turns.\<close>

definition sample_remote :: map_loader where
  "sample_remote = sample_native\<lparr>ld_delivery := ''strict-order'', ld_sizing := native_sizing\<lparr>sz_batch_size := Some 1,
     sz_num_workers := Explicit 1, sz_plan_length := 1\<rparr>\<rparr>"

definition remote_env :: "int process_env" where
  "remote_env = \<lparr>pe_plan = sample_plan, pe_sampler = None, pe_pickle = \<lambda>_ _ _ _. [],
     pe_codec = digit_codec\<lparr>cd_storage := \<lambda>_. None\<rparr>, pe_reraise = \<lambda>_. EOFError, pe_rows = \<lambda>_ _. Inl EOFError,
     pe_collate = uc_default_collate sample_code\<rparr>"

definition remote_pool :: "pool res" where
  "remote_pool = new_pool 1 (0, 0, 0) None (Some 2) None 1 None False None (0, encode_uncached (pe_codec remote_env) 0, None, 5)"

definition remote_start :: "int process_state run" where
  "remote_start = obind (returns remote_pool) (\<lambda>p. obind (returns (new_controller 1 1 2 2 1 None False None ''compute'' ''all'')) (\<lambda>c.
     new_process_iterator remote_env False 0 sample_remote p c None False 2 ''cold-variance'' 0 []))"

definition remote_turn :: turn where
  "remote_turn = \<lparr>wd_alive = \<lambda>_. True, wd_expired = False, wd_broken = False, wd_progress = id, wd_controls = [], tn_wait_ns = 7\<rparr>"

lemma remote_runs:
  "(case remote_start of Some (Inr s) \<Rightarrow>
     (case process_run remote_env [(20, 9, [remote_turn, remote_turn])] s of Some (_, Inr vs) \<Rightarrow> vs = [0] | _ \<Rightarrow> False)
   | _ \<Rightarrow> False)"
  by code_simp

lemma remote_env_native: "native_env sample_code sample_plan remote_env"
proof -
  have "cd_unpickle digit_codec (cd_pickle digit_codec b) = Inr b" for b
    by (cases b) (auto simp: digit_codec_def simp del: drop_drop split: prod.split)
  then show ?thesis by (simp add: native_env_def remote_env_def sample_code_def)
qed


end
