(* ===== verification/Threads.thy ===== *)
theory Threads
  imports InProcess Profile
begin

text \<open>
  Execution of declared thread-safe datasets in threads (\<^verbatim>\<open>thread/pool.py\<close>, \<^verbatim>\<open>thread/iterator.py\<close>).
  Dataset code is a function of its index and of the sample it is bound to, as in the calling
  process; when a thread runs it and how long it takes is the environment's.
\<close>

section \<open>The pool\<close>

record thread_pool =
  tp_root_seed :: int
  tp_closed :: bool

text \<open>A submitted call: epoch, coordinate and index.\<close>

type_synonym thread_call = "int \<times> int \<times> int"

definition thread_submit :: "thread_pool \<Rightarrow> int \<Rightarrow> int \<Rightarrow> int \<Rightarrow> int option \<Rightarrow> thread_call res" where
  "thread_submit p epoch position index coord =
    (if tp_closed p then Inl (RuntimeError ''thread pool is closed'')
     else Inr (epoch, case coord of None \<Rightarrow> position | Some c \<Rightarrow> c, index))"

text \<open>
  What a thread does with a call: \<open>init\<close> is the exception of a \<^verbatim>\<open>worker_init_fn\<close> that this call was
  the first of its thread to run, if any.
\<close>

definition thread_evaluate ::
    "('s, 'b, 'a, 'v) user_code \<Rightarrow> thread_pool \<Rightarrow> py_error option \<Rightarrow> thread_call \<Rightarrow> 'v res" where
  "thread_evaluate uc p init call =
    (case init of
       Some e \<Rightarrow> Inl e
     | None \<Rightarrow> (case call of (epoch, coord, index) \<Rightarrow>
         uc_getitem uc (stream_context (install_sample 0 (tp_root_seed p) epoch coord)) (uc_native uc index)))"

section \<open>The iterator\<close>

record thread_state =
  th_loader :: map_loader
  th_profile :: "cost_profile option"
  th_pool :: thread_pool
  th_epoch :: int
  th_length :: int
  th_on_completion :: bool
  th_restored :: "int fset"
  th_position :: int
  th_next_submit :: int
  th_depth :: int
  th_complete :: bool
  th_valid :: bool
  th_futures :: "(int, thread_call) dict"
  th_ready_batches :: "int list"
  th_queued :: "int fset"
  th_delivered :: delivered_batches

text \<open>
  What the environment decides of the calls in flight: which fail to initialise their thread, their
  cost, and which of them a bounded wait gives up on.
\<close>

record thread_world =
  tw_init :: "int \<Rightarrow> py_error option"
  tw_cost :: "int \<Rightarrow> int"
  tw_late :: "int \<Rightarrow> bool"

text \<open>One report of the queue of completions: a position, or nothing in time, and which calls are done.\<close>

record completion_event =
  ce_position :: "int option"
  ce_done :: "int \<Rightarrow> bool"

function fill_threads :: "(int \<Rightarrow> int \<Rightarrow> int \<Rightarrow> int run) \<Rightarrow> thread_state \<Rightarrow> (thread_state \<times> unit res) option" where
  "fill_threads plan s =
    (if th_next_submit s < th_length s \<and> int (length (th_futures s)) < th_depth s then
       let position = th_next_submit s in
       if position div loader_width (th_loader s) |\<in>| th_restored s
       then fill_threads plan (s\<lparr>th_next_submit := position + 1\<rparr>)
       else
         (case native_coordinate (th_loader s) position of
            Inl e \<Rightarrow> Some (s, Inl e)
          | Inr c \<Rightarrow>
              (case native_index plan (th_loader s) (th_epoch s) position of
                 None \<Rightarrow> None
               | Some (Inl e) \<Rightarrow> Some (s, Inl e)
               | Some (Inr i) \<Rightarrow>
                   (case thread_submit (th_pool s) (th_epoch s) position i (Some c) of
                      Inl e \<Rightarrow> Some (s, Inl e)
                    | Inr call \<Rightarrow>
                        fill_threads plan (s\<lparr>th_futures := dict_set position call (th_futures s), th_next_submit := position + 1\<rparr>))))
     else Some (s, Inr ()))"
  by pat_completeness auto
termination by (relation "measure (\<lambda>(plan, s). nat (th_length s - th_next_submit s))") auto

declare fill_threads.simps [simp del]

definition observe_cost :: "int \<Rightarrow> int \<Rightarrow> thread_state \<Rightarrow> thread_state \<times> unit res" where
  "observe_cost position cost_ns s =
    (case th_profile s of
       None \<Rightarrow> (s, Inr ())
     | Some profile \<Rightarrow>
         (case observe position cost_ns profile of
            Inl e \<Rightarrow> (s, Inl e)
          | Inr profile \<Rightarrow> (s\<lparr>th_profile := Some profile\<rparr>, Inr ())))"

definition next_thread_sample ::
    "('s, 'b, 'a, 'v) user_code \<Rightarrow> (int \<Rightarrow> int \<Rightarrow> int \<Rightarrow> int run) \<Rightarrow> thread_world \<Rightarrow> thread_state \<Rightarrow>
     (thread_state \<times> 'v res) option" where
  "next_thread_sample uc plan w s =
    (let position = th_position s in
     case dict_get (th_futures s) position of
       None \<Rightarrow> Some (s, Inl (KeyError ''position''))
     | Some call \<Rightarrow>
         let s = s\<lparr>th_futures := dict_del position (th_futures s)\<rparr> in
         if tw_late w position then Some (s, Inl (TimeoutError ''''))
         else
           (case thread_evaluate uc (th_pool s) (tw_init w position) call of
              Inl e \<Rightarrow> Some (s, Inl e)
            | Inr v \<Rightarrow>
                (case observe_cost position (tw_cost w position) s of
                   (s, Inl e) \<Rightarrow> Some (s, Inl e)
                 | (s, Inr _) \<Rightarrow>
                     map_option (\<lambda>(s, r). (s, rmap (\<lambda>_. v) r)) (fill_threads plan (s\<lparr>th_position := position + 1\<rparr>)))))"

fun next_thread_samples ::
    "('s, 'b, 'a, 'v) user_code \<Rightarrow> (int \<Rightarrow> int \<Rightarrow> int \<Rightarrow> int run) \<Rightarrow> thread_world \<Rightarrow> nat \<Rightarrow> thread_state \<Rightarrow>
     (thread_state \<times> 'v list res) option" where
  "next_thread_samples uc plan w 0 s = Some (s, Inr [])"
| "next_thread_samples uc plan w (Suc n) s =
    (case next_thread_sample uc plan w s of
       None \<Rightarrow> None
     | Some (s, Inl e) \<Rightarrow> Some (s, Inl e)
     | Some (s, Inr v) \<Rightarrow> map_option (\<lambda>(s, r). (s, rmap (Cons v) r)) (next_thread_samples uc plan w n s))"

text \<open>One report of a completed position: its batch becomes ready when all its calls are done.\<close>

definition batch_stop :: "thread_state \<Rightarrow> int \<Rightarrow> int" where
  "batch_stop s ordinal = min (ordinal * loader_width (th_loader s) + loader_width (th_loader s)) (th_length s)"

definition note_completion :: "int \<Rightarrow> (int \<Rightarrow> bool) \<Rightarrow> thread_state \<Rightarrow> thread_state" where
  "note_completion position finished s =
    (let width = loader_width (th_loader s); ordinal = position div width in
     if ordinal |\<in>| th_queued s then s
     else if (\<forall>sample \<in> set (irange (ordinal * width) (batch_stop s ordinal)). sample \<in> dict_keys (th_futures s) \<and> finished sample)
     then s\<lparr>th_queued := finsert ordinal (th_queued s), th_ready_batches := th_ready_batches s @ [ordinal]\<rparr>
     else s)"

text \<open>The loop over completions; \<open>None\<close> when the reports end before a batch is ready.\<close>

fun await_batch :: "completion_event list \<Rightarrow> thread_state \<Rightarrow> (thread_state \<times> unit res) option" where
  "await_batch events s =
    (if th_ready_batches s \<noteq> [] then Some (s, Inr ())
     else
       (case events of
          [] \<Rightarrow> None
        | event # events \<Rightarrow>
            (case ce_position event of
               None \<Rightarrow> Some (s, Inl (RuntimeError ''DataLoader timed out''))
             | Some position \<Rightarrow> await_batch events (note_completion position (ce_done event) s))))"

fun collect_futures ::
    "('s, 'b, 'a, 'v) user_code \<Rightarrow> thread_world \<Rightarrow> int list \<Rightarrow> thread_state \<Rightarrow> thread_state \<times> 'v list res" where
  "collect_futures uc w [] s = (s, Inr [])"
| "collect_futures uc w (position # positions) s =
    (case dict_get (th_futures s) position of
       None \<Rightarrow> (s, Inl (KeyError ''position''))
     | Some call \<Rightarrow>
         let s = s\<lparr>th_futures := dict_del position (th_futures s)\<rparr> in
         (case thread_evaluate uc (th_pool s) (tw_init w position) call of
            Inl e \<Rightarrow> (s, Inl e)
          | Inr v \<Rightarrow>
              (case observe_cost position (tw_cost w position) s of
                 (s, Inl e) \<Rightarrow> (s, Inl e)
               | (s, Inr _) \<Rightarrow> (case collect_futures uc w positions s of (s, r) \<Rightarrow> (s, rmap (Cons v) r)))))"

definition take_thread_batch ::
    "('s, 'b, 'a, 'v) user_code \<Rightarrow> (int \<Rightarrow> int \<Rightarrow> int \<Rightarrow> int run) \<Rightarrow> thread_world \<Rightarrow> thread_state \<Rightarrow>
     (thread_state \<times> (int \<times> 'v \<times> int) res) option" where
  "take_thread_batch uc plan w s =
    (case th_ready_batches s of
       [] \<Rightarrow> Some (s, Inl (IndexError ''pop from an empty deque''))
     | ordinal # rest \<Rightarrow>
         let s = s\<lparr>th_ready_batches := rest, th_queued := th_queued s |-| {|ordinal|}\<rparr>;
             start = ordinal * loader_width (th_loader s); stop = batch_stop s ordinal
         in (case collect_futures uc w (irange start stop) s of
               (s, Inl e) \<Rightarrow> Some (s, Inl e)
             | (s, Inr vs) \<Rightarrow>
                 (case fill_threads plan s of
                    None \<Rightarrow> None
                  | Some (s, Inl e) \<Rightarrow> Some (s, Inl e)
                  | Some (s, Inr _) \<Rightarrow>
                      Some (s, rmap (\<lambda>v. (ordinal, v, stop - start))
                        (if sz_batch_size (ld_sizing (th_loader s)) = None then Inr (hd vs) else uc_default_collate uc vs)))))"

definition next_thread_batch ::
    "('s, 'b, 'a, 'v) user_code \<Rightarrow> (int \<Rightarrow> int \<Rightarrow> int \<Rightarrow> int run) \<Rightarrow> thread_world \<Rightarrow> completion_event list \<Rightarrow> thread_state \<Rightarrow>
     (thread_state \<times> (int \<times> 'v \<times> int) res) option" where
  "next_thread_batch uc plan w events s =
    (case await_batch events s of
       None \<Rightarrow> None
     | Some (s, Inl e) \<Rightarrow> Some (s, Inl e)
     | Some (s, Inr _) \<Rightarrow> take_thread_batch uc plan w s)"

definition mark_thread_epoch :: "thread_state \<Rightarrow> thread_state" where
  "mark_thread_epoch s =
    s\<lparr>th_loader := (th_loader s)\<lparr>ld_epoch_state := mark_epoch_delivered (th_epoch s) (ld_epoch_state (th_loader s))\<rparr>\<rparr>"

definition finish_threads :: "thread_state \<Rightarrow> thread_state" where
  "finish_threads s =
    (if th_complete s then s
     else s\<lparr>th_loader := (th_loader s)\<lparr>ld_epoch_state := complete_epoch (th_epoch s) (ld_epoch_state (th_loader s))\<rparr>,
            th_complete := True\<rparr>)"

definition thread_completed ::
    "('s, 'b, 'a, 'v) user_code \<Rightarrow> (int \<Rightarrow> int \<Rightarrow> int \<Rightarrow> int run) \<Rightarrow> thread_world \<Rightarrow> completion_event list \<Rightarrow> thread_state \<Rightarrow>
     (thread_state \<times> 'v res) option" where
  "thread_completed uc plan w events s =
    (case next_thread_batch uc plan w events s of
       None \<Rightarrow> None
     | Some (s, Inl e) \<Rightarrow> Some (s, Inl e)
     | Some (s, Inr (ordinal, v, delivered)) \<Rightarrow>
         let s = s\<lparr>th_position := th_position s + delivered\<rparr> in
         (case mark_batch ordinal (th_delivered s) of
            Inl e \<Rightarrow> Some (s, Inl e)
          | Inr d \<Rightarrow> Some (mark_thread_epoch (s\<lparr>th_delivered := d\<rparr>), Inr v)))"

definition thread_in_order ::
    "('s, 'b, 'a, 'v) user_code \<Rightarrow> (int \<Rightarrow> int \<Rightarrow> int \<Rightarrow> int run) \<Rightarrow> thread_world \<Rightarrow> thread_state \<Rightarrow> (thread_state \<times> 'v res) option" where
  "thread_in_order uc plan w s =
    (case sz_batch_size (ld_sizing (th_loader s)) of
       None \<Rightarrow>
         (case next_thread_sample uc plan w s of
            None \<Rightarrow> None
          | Some (s, Inl e) \<Rightarrow> Some (s, Inl e)
          | Some (s, Inr v) \<Rightarrow> Some (mark_thread_epoch s, Inr v))
     | Some batch_size \<Rightarrow>
         let stop = min (th_position s + batch_size) (th_length s) in
         (case next_thread_samples uc plan w (nat (stop - th_position s)) s of
            None \<Rightarrow> None
          | Some (s, Inl e) \<Rightarrow> Some (s, Inl e)
          | Some (s, Inr vs) \<Rightarrow> Some (mark_thread_epoch s, uc_default_collate uc vs)))"

definition thread_value ::
    "('s, 'b, 'a, 'v) user_code \<Rightarrow> (int \<Rightarrow> int \<Rightarrow> int \<Rightarrow> int run) \<Rightarrow> thread_world \<Rightarrow> completion_event list \<Rightarrow> thread_state \<Rightarrow>
     (thread_state \<times> 'v res) option" where
  "thread_value uc plan w events s =
    (if \<not> th_valid s then Some (s, Inl (RuntimeError ''thread iterator is no longer active''))
     else if th_length s \<le> th_position s then Some (finish_threads s, Inl StopIteration)
     else if th_on_completion s then thread_completed uc plan w events s
     else thread_in_order uc plan w s)"

text \<open>\<^verbatim>\<open>__next__\<close>: every exception but the end of the iteration closes the loader, its pool and this iterator.\<close>

definition close_threads :: "thread_state \<Rightarrow> thread_state" where
  "close_threads s = s\<lparr>th_loader := close_loader (th_loader s), th_pool := (th_pool s)\<lparr>tp_closed := True\<rparr>, th_valid := False\<rparr>"

definition thread_next ::
    "('s, 'b, 'a, 'v) user_code \<Rightarrow> (int \<Rightarrow> int \<Rightarrow> int \<Rightarrow> int run) \<Rightarrow> thread_world \<Rightarrow> completion_event list \<Rightarrow> thread_state \<Rightarrow>
     (thread_state \<times> 'v res) option" where
  "thread_next uc plan w events s =
    map_option (\<lambda>(s, r). (case r of Inl e \<Rightarrow> if e = StopIteration then s else close_threads s | Inr _ \<Rightarrow> s, r))
      (thread_value uc plan w events s)"

text \<open>What a checkpoint reads.\<close>

definition thread_delivered_batches :: "thread_state \<Rightarrow> int" where
  "thread_delivered_batches s =
    (if th_on_completion s then db_base (th_delivered s)
     else (th_position s + loader_width (th_loader s) - 1) div loader_width (th_loader s))"

definition thread_delivered_bitmap :: "thread_state \<Rightarrow> int list" where
  "thread_delivered_bitmap s = (if th_on_completion s then bitmap (th_delivered s) else [])"

definition invalidate_threads :: "thread_state \<Rightarrow> thread_state" where
  "invalidate_threads s = s\<lparr>th_valid := False\<rparr>"

section \<open>Construction\<close>

text \<open>\<^verbatim>\<open>ThreadIterator.__init__\<close> over the loader's pool; \<open>free\<close> is the free host memory.\<close>

definition thread_depth :: "int \<Rightarrow> int \<Rightarrow> int \<Rightarrow> int fset \<Rightarrow> int \<Rightarrow> int" where
  "thread_depth n resume_position width restored depth =
    (let restored_span = (if restored = {||} then 0 else fMax restored * width + width - resume_position)
     in min (n - resume_position) (max depth restored_span))"

definition new_thread_iterator ::
    "(int \<Rightarrow> int \<Rightarrow> int \<Rightarrow> int run) \<Rightarrow> int \<Rightarrow> map_loader \<Rightarrow> cost_profile option \<Rightarrow> thread_pool \<Rightarrow> thread_state run" where
  "new_thread_iterator plan free l profile p =
    obind (returns (delivery_length (ld_sizing l))) (\<lambda>n.
    obind (returns (resume_sample_position l n)) (\<lambda>resume_position.
    let width = loader_width l; on_completion = (ld_delivery l = ''on-completion'') in
    obind (returns (if on_completion
        then decode_delivered_bitmap (ld_cursor l) (ld_bitmap l) ((n + width - 1) div width) else Inr {||})) (\<lambda>restored.
    obind (returns (frontier_depth free (ld_sizing l))) (\<lambda>depth.
    let restored_samples = (\<Sum>ordinal \<leftarrow> sorted_list_of_fset restored. min width (n - ordinal * width));
        s = \<lparr>th_loader = l, th_profile = profile, th_pool = p, th_epoch = es_current (ld_epoch_state l), th_length = n,
             th_on_completion = on_completion, th_restored = restored, th_position = resume_position + restored_samples,
             th_next_submit = resume_position, th_depth = thread_depth n resume_position width restored depth,
             th_complete = False, th_valid = True, th_futures = [], th_ready_batches = [], th_queued = {||},
             th_delivered = new_delivered (ld_cursor l) restored\<rparr>
    in if n = 0 then returns (Inr s)
       else (case fill_threads plan s of None \<Rightarrow> None | Some (s, r) \<Rightarrow> returns (rmap (\<lambda>_. s) r))))))"

section \<open>The calls in flight\<close>

text \<open>A call of a position carries its coordinate and its index; what it gives is the sample in the calling process.\<close>

definition sample_at ::
    "('s, 'b, 'a, 'v) user_code \<Rightarrow> (int \<Rightarrow> int \<Rightarrow> int \<Rightarrow> int run) \<Rightarrow> map_loader \<Rightarrow> int \<Rightarrow> int \<Rightarrow> 'v \<Rightarrow> bool" where
  "sample_at uc plan l epoch position v \<longleftrightarrow>
    (\<exists>c i. native_coordinate l position = Inr c \<and> native_index plan l epoch position = Some (Inr i) \<and>
       evaluate_in_process uc (ld_root_seed l) epoch (c, uc_native uc i) = Inr v)"

definition thread_ok :: "(int \<Rightarrow> int \<Rightarrow> int \<Rightarrow> int run) \<Rightarrow> thread_state \<Rightarrow> bool" where
  "thread_ok plan s \<longleftrightarrow>
    tp_root_seed (th_pool s) = ld_root_seed (th_loader s) \<and>
    (\<forall>p epoch c i. dict_get (th_futures s) p = Some (epoch, c, i) \<longrightarrow>
       epoch = th_epoch s \<and> native_coordinate (th_loader s) p = Inr c \<and>
       native_index plan (th_loader s) (th_epoch s) p = Some (Inr i))"

text \<open>What the iterator does between two deliveries leaves these alone.\<close>

definition same_threads :: "thread_state \<Rightarrow> thread_state \<Rightarrow> bool" where
  "same_threads s s' \<longleftrightarrow> th_loader s' = th_loader s \<and> th_pool s' = th_pool s \<and> th_epoch s' = th_epoch s \<and>
    th_length s' = th_length s \<and> th_on_completion s' = th_on_completion s \<and> th_valid s' = th_valid s \<and>
    th_delivered s' = th_delivered s"

lemma same_threads_refl [simp]: "same_threads s s" by (simp add: same_threads_def)

lemma same_threads_trans: "same_threads s s' \<Longrightarrow> same_threads s' s'' \<Longrightarrow> same_threads s s''"
  by (simp add: same_threads_def)

lemma thread_ok_del [intro]: "thread_ok plan s \<Longrightarrow> thread_ok plan (s\<lparr>th_futures := dict_del p (th_futures s)\<rparr>)"
  unfolding thread_ok_def by (auto split: if_splits)

lemma thread_ok_updates [simp]:
  "thread_ok plan (s\<lparr>th_profile := a\<rparr>) = thread_ok plan s" "thread_ok plan (s\<lparr>th_position := b\<rparr>) = thread_ok plan s"
  "thread_ok plan (s\<lparr>th_next_submit := b\<rparr>) = thread_ok plan s" "thread_ok plan (s\<lparr>th_queued := c\<rparr>) = thread_ok plan s"
  "thread_ok plan (s\<lparr>th_ready_batches := d\<rparr>) = thread_ok plan s" "thread_ok plan (s\<lparr>th_delivered := g\<rparr>) = thread_ok plan s"
  by (simp_all add: thread_ok_def)

lemma fill_threads_ok:
  "thread_ok plan s \<Longrightarrow> fill_threads plan s = Some (s', r) \<Longrightarrow>
   thread_ok plan s' \<and> same_threads s s' \<and> th_position s' = th_position s \<and>
   th_ready_batches s' = th_ready_batches s \<and> th_queued s' = th_queued s"
proof (induction plan s arbitrary: s' r rule: fill_threads.induct)
  case (1 plan s)
  let ?p = "th_next_submit s" and ?skip = "s\<lparr>th_next_submit := th_next_submit s + 1\<rparr>"
  show ?case
  proof (cases "th_next_submit s < th_length s \<and> int (length (th_futures s)) < th_depth s")
    case True
    show ?thesis
    proof (cases "?p div loader_width (th_loader s) |\<in>| th_restored s")
      case restored: True
      with True 1(4) have "fill_threads plan ?skip = Some (s', r)" by (subst (asm) fill_threads.simps) (simp add: Let_def)
      from 1(1) [OF True refl restored _ this] 1(3) show ?thesis by (simp add: same_threads_def)
    next
      case False
      show ?thesis
      proof (cases "native_coordinate (th_loader s) ?p")
        case (Inl e)
        with True False 1(3,4) show ?thesis by (subst (asm) fill_threads.simps) (simp add: Let_def)
      next
        case c: (Inr c)
        show ?thesis
        proof (cases "\<exists>i. native_index plan (th_loader s) (th_epoch s) ?p = Some (Inr i) \<and> \<not> tp_closed (th_pool s)")
          case False
          with True \<open>?p div loader_width (th_loader s) |\<notin>| th_restored s\<close> c 1(3,4) show ?thesis
            by (subst (asm) fill_threads.simps) (auto simp: Let_def thread_submit_def split: option.splits sum.splits if_splits)
        next
          case submit: True
          then obtain i where i: "native_index plan (th_loader s) (th_epoch s) ?p = Some (Inr i)"
            and call: "thread_submit (th_pool s) (th_epoch s) ?p i (Some c) = Inr (th_epoch s, c, i)"
            by (auto simp: thread_submit_def)
          let ?t = "s\<lparr>th_futures := dict_set ?p (th_epoch s, c, i) (th_futures s), th_next_submit := ?p + 1\<rparr>"
          have "fill_threads plan ?t = Some (s', r)"
            using True False c i call 1(4) by (subst (asm) fill_threads.simps) (simp add: Let_def)
          moreover have "thread_ok plan ?t" using 1(3) c i by (auto simp: thread_ok_def)
          ultimately show ?thesis using 1(2) [OF True refl False c i refl call] by (simp add: same_threads_def)
        qed
      qed
    qed
  next
    case False
    with 1(3,4) show ?thesis by (subst (asm) fill_threads.simps) simp
  qed
qed

lemma observe_cost_ok:
  "observe_cost position c s = (s', r) \<Longrightarrow> \<exists>profile. s' = s\<lparr>th_profile := profile\<rparr>"
  by (auto simp: observe_cost_def intro: exI [of _ "th_profile s"] split: option.splits sum.splits)

text \<open>A call that returns gives its position's sample.\<close>

lemma thread_evaluate_sample:
  assumes "thread_ok plan s" "dict_get (th_futures s) p = Some call" "thread_evaluate uc (th_pool s) init call = Inr v"
  shows "sample_at uc plan (th_loader s) (th_epoch s) p v"
proof -
  obtain epoch c i where call: "call = (epoch, c, i)" by (cases call)
  with assms(1,2) have "epoch = th_epoch s" "native_coordinate (th_loader s) p = Inr c"
    "native_index plan (th_loader s) (th_epoch s) p = Some (Inr i)" "tp_root_seed (th_pool s) = ld_root_seed (th_loader s)"
    unfolding thread_ok_def by blast+
  with assms(3) call show ?thesis
    by (simp add: thread_evaluate_def sample_at_def evaluate_in_process_def split: option.splits)
qed

lemma next_thread_sample_ok:
  assumes ok: "thread_ok plan s" and s: "next_thread_sample uc plan w s = Some (s', Inr v)"
  shows "thread_ok plan s' \<and> same_threads s s' \<and> th_position s' = th_position s + 1 \<and>
    sample_at uc plan (th_loader s) (th_epoch s) (th_position s) v"
proof -
  let ?p = "th_position s"
  let ?t = "s\<lparr>th_futures := dict_del ?p (th_futures s)\<rparr>"
  obtain call u x where call: "dict_get (th_futures s) ?p = Some call" and
    v: "thread_evaluate uc (th_pool s) (tw_init w ?p) call = Inr v" and
    u: "observe_cost ?p (tw_cost w ?p) ?t = (u, Inr x)" and
    f: "fill_threads plan (u\<lparr>th_position := ?p + 1\<rparr>) = Some (s', Inr ())"
    using s by (auto simp: next_thread_sample_def Let_def rmap_eq_Inr split: option.splits if_splits sum.splits prod.splits)
  obtain profile where p: "u = ?t\<lparr>th_profile := profile\<rparr>" using observe_cost_ok [OF u] by blast
  have "thread_ok plan ?t" using ok by (rule thread_ok_del)
  then have "thread_ok plan (u\<lparr>th_position := ?p + 1\<rparr>)" by (simp add: p)
  from fill_threads_ok [OF this f] thread_evaluate_sample [OF ok call v]
  show ?thesis by (simp add: p same_threads_def)
qed

lemma next_thread_samples_ok:
  "thread_ok plan s \<Longrightarrow> next_thread_samples uc plan w n s = Some (s', Inr vs) \<Longrightarrow>
   thread_ok plan s' \<and> same_threads s s' \<and> th_position s' = th_position s + int n \<and>
   list_all2 (sample_at uc plan (th_loader s) (th_epoch s)) (irange (th_position s) (th_position s + int n)) vs"
proof (induction n arbitrary: s vs)
  case (Suc n)
  obtain t v us where t: "next_thread_sample uc plan w s = Some (t, Inr v)" and
    rest: "next_thread_samples uc plan w n t = Some (s', Inr us)" and vs: "vs = v # us"
    using Suc.prems(2) by (auto simp: rmap_eq_Inr split: option.splits sum.splits prod.splits)
  note one = next_thread_sample_ok [OF Suc.prems(1) t]
  then have "thread_ok plan t" by simp
  note ih = Suc.IH [OF this rest]
  have "irange (th_position s) (th_position s + int (Suc n)) =
      th_position s # irange (th_position s + 1) (th_position s + 1 + int n)"
    by (simp add: irange_def upto_rec1 algebra_simps)
  with one ih vs show ?case by (auto simp: same_threads_def algebra_simps)
qed simp

lemma collect_futures_ok:
  "thread_ok plan s \<Longrightarrow> collect_futures uc w ps s = (s', Inr vs) \<Longrightarrow>
   thread_ok plan s' \<and> same_threads s s' \<and> th_position s' = th_position s \<and> th_ready_batches s' = th_ready_batches s \<and>
   th_queued s' = th_queued s \<and> list_all2 (sample_at uc plan (th_loader s) (th_epoch s)) ps vs"
proof (induction ps arbitrary: s vs)
  case (Cons p ps)
  let ?t = "s\<lparr>th_futures := dict_del p (th_futures s)\<rparr>"
  obtain call v u x us where call: "dict_get (th_futures s) p = Some call" and
    v: "thread_evaluate uc (th_pool s) (tw_init w p) call = Inr v" and
    u: "observe_cost p (tw_cost w p) ?t = (u, Inr x)" and
    rest: "collect_futures uc w ps u = (s', Inr us)" and vs: "vs = v # us"
    using Cons.prems(2) by (auto simp: Let_def rmap_eq_Inr split: option.splits sum.splits prod.splits)
  obtain profile where p: "u = ?t\<lparr>th_profile := profile\<rparr>" using observe_cost_ok [OF u] by blast
  have "thread_ok plan u" using thread_ok_del [OF Cons.prems(1)] by (simp add: p)
  from Cons.IH [OF this rest] thread_evaluate_sample [OF Cons.prems(1) call v]
  show ?case by (simp add: p vs same_threads_def)
qed simp

text \<open>The samples of a batch, collated, are the batch of the calling process.\<close>

lemma samples_native:
  "list_all2 (sample_at uc plan l epoch) ps vs \<Longrightarrow>
   \<exists>cs is. rtraverse (native_coordinate l) ps = Inr cs \<and> otraverse (native_index plan l epoch) ps = Some (Inr is) \<and>
     rtraverse (evaluate_in_process uc (ld_root_seed l) epoch) (zip cs (map (uc_native uc) is)) = Inr vs"
proof (induction rule: list_all2_induct)
  case Nil
  then show ?case by (simp add: returns_def)
next
  case (Cons p ps v vs)
  then obtain c i cs "is" where "native_coordinate l p = Inr c" "native_index plan l epoch p = Some (Inr i)"
    "evaluate_in_process uc (ld_root_seed l) epoch (c, uc_native uc i) = Inr v"
    "rtraverse (native_coordinate l) ps = Inr cs" "otraverse (native_index plan l epoch) ps = Some (Inr is)"
    "rtraverse (evaluate_in_process uc (ld_root_seed l) epoch) (zip cs (map (uc_native uc) is)) = Inr vs"
    by (auto simp: sample_at_def)
  then show ?case
    by (intro exI [of _ "c # cs"] exI [of _ "i # is"]) (simp add: obind_def returns_def)
qed

lemma thread_batch_native:
  assumes samples: "list_all2 (sample_at uc plan l epoch) (irange (k * loader_width l) (min (k * loader_width l + loader_width l) n)) vs"
    and k: "k * loader_width l \<le> n" and uc: "uc_collate_fn uc = None" "\<not> ld_has_batch_sampler l"
    and v: "(if sz_batch_size (ld_sizing l) = None then Inr (hd vs) else uc_default_collate uc vs) = Inr v"
  shows "native_batch uc plan l n epoch k = Some (Inr v)"
proof -
  have clip: "min n (k * loader_width l) = k * loader_width l"
    "min n (k * loader_width l + loader_width l) = min (k * loader_width l + loader_width l) n" using k by auto
  have "collate_in_process uc l epoch k vs = Inr v"
    using v uc by (auto simp: collate_in_process_def split: if_splits)
  with samples_native [OF samples] show ?thesis
    unfolding native_batch_def Let_def clip by (auto simp: returns_def)
qed

end
