(* ===== verification/ThreadRuns.thy ===== *)
theory ThreadRuns
  imports Threads
begin

text \<open>
  Runs of the thread iterator: in order they are the calling process's, on completion every batch of
  the epoch is delivered once.
\<close>

section \<open>Runs\<close>

text \<open>Successive calls of \<^verbatim>\<open>__next__\<close>, each with what its environment does.\<close>

primrec thread_run ::
    "('s, 'b, 'a, 'v) user_code \<Rightarrow> (int \<Rightarrow> int \<Rightarrow> int \<Rightarrow> int run) \<Rightarrow> (thread_world \<times> completion_event list) list \<Rightarrow>
     thread_state \<Rightarrow> (thread_state \<times> 'v list res) option" where
  "thread_run uc plan [] s = Some (s, Inr [])"
| "thread_run uc plan (call # calls) s =
    (case thread_next uc plan (fst call) (snd call) s of
       None \<Rightarrow> None
     | Some (s, Inl e) \<Rightarrow> Some (s, Inl e)
     | Some (s, Inr v) \<Rightarrow> map_option (\<lambda>(s, r). (s, rmap (Cons v) r)) (thread_run uc plan calls s))"

text \<open>What deliveries keep.\<close>

definition same_epoch :: "thread_state \<Rightarrow> thread_state \<Rightarrow> bool" where
  "same_epoch s s' \<longleftrightarrow> th_epoch s' = th_epoch s \<and> th_length s' = th_length s \<and> th_on_completion s' = th_on_completion s \<and>
    (\<exists>epochs. th_loader s' = (th_loader s)\<lparr>ld_epoch_state := epochs\<rparr>)"

lemma same_epoch_refl [simp]: "same_epoch s s"
  by (auto simp: same_epoch_def intro: exI [of _ "ld_epoch_state (th_loader s)"])

lemma same_epoch_trans: "same_epoch s s' \<Longrightarrow> same_epoch s' s'' \<Longrightarrow> same_epoch s s''"
  by (auto simp: same_epoch_def)

lemma same_epoch_threads: "same_threads s s' \<Longrightarrow> same_epoch s s'"
  by (auto simp: same_threads_def same_epoch_def intro: exI [of _ "ld_epoch_state (th_loader s)"])

lemma same_epoch_batch: "same_epoch s s' \<Longrightarrow> native_batch uc plan (th_loader s') = native_batch uc plan (th_loader s)"
  by (rule same_data_batch) (auto simp: same_epoch_def same_data_def)

lemma same_epoch_width: "same_epoch s s' \<Longrightarrow> loader_width (th_loader s') = loader_width (th_loader s)"
  by (auto simp: same_epoch_def loader_width_def)

lemma mark_thread_epoch_keeps:
  "same_epoch s (mark_thread_epoch s)" "thread_ok plan (mark_thread_epoch s) = thread_ok plan s"
  "th_position (mark_thread_epoch s) = th_position s" "th_delivered (mark_thread_epoch s) = th_delivered s"
  "th_ready_batches (mark_thread_epoch s) = th_ready_batches s" "th_on_completion (mark_thread_epoch s) = th_on_completion s"
  "th_length (mark_thread_epoch s) = th_length s"
  "th_epoch (mark_thread_epoch s) = th_epoch s" "loader_width (th_loader (mark_thread_epoch s)) = loader_width (th_loader s)"
  "sz_batch_size (ld_sizing (th_loader (mark_thread_epoch s))) = sz_batch_size (ld_sizing (th_loader s))"
  "ld_has_batch_sampler (th_loader (mark_thread_epoch s)) = ld_has_batch_sampler (th_loader s)"
  by (auto simp: mark_thread_epoch_def same_epoch_def thread_ok_def loader_width_def)

text \<open>A loader whose batches are the samples at consecutive positions.\<close>

definition plain_threads :: "('s, 'b, 'a, 'v) user_code \<Rightarrow> thread_state \<Rightarrow> bool" where
  "plain_threads uc s \<longleftrightarrow> uc_collate_fn uc = None \<and> \<not> ld_has_batch_sampler (th_loader s) \<and>
    (case sz_batch_size (ld_sizing (th_loader s)) of None \<Rightarrow> True | Some b \<Rightarrow> 0 < b)"

lemma plain_width: "plain_threads uc s \<Longrightarrow> 0 < loader_width (th_loader s)"
  by (auto simp: plain_threads_def loader_width_def split: option.splits)

lemma plain_same: "same_epoch s s' \<Longrightarrow> plain_threads uc s' = plain_threads uc s"
  by (auto simp: same_epoch_def plain_threads_def)

section \<open>In order\<close>

definition thread_at :: "(int \<Rightarrow> int \<Rightarrow> int \<Rightarrow> int run) \<Rightarrow> int \<Rightarrow> thread_state \<Rightarrow> bool" where
  "thread_at plan k s \<longleftrightarrow> thread_ok plan s \<and> \<not> th_on_completion s \<and> 0 \<le> k \<and>
    th_position s = min (th_length s) (k * loader_width (th_loader s))"

lemma thread_next_Inr [simp]:
  "thread_next uc plan w ev s = Some (s', Inr v) \<longleftrightarrow> thread_value uc plan w ev s = Some (s', Inr v)"
  by (auto simp: thread_next_def split: option.splits sum.splits prod.splits if_splits)

lemma thread_next_in_order:
  assumes at: "thread_at plan k s" and plain: "plain_threads uc s" and s: "thread_next uc plan w ev s = Some (s', Inr v)"
  shows "native_batch uc plan (th_loader s) (th_length s) (th_epoch s) k = Some (Inr v) \<and>
    k * loader_width (th_loader s) < th_length s \<and> thread_at plan (k + 1) s' \<and> same_epoch s s'"
proof -
  let ?w = "loader_width (th_loader s)" and ?n = "th_length s" and ?l = "th_loader s"
  have w: "0 < ?w" using plain by (rule plain_width)
  have inord: "thread_in_order uc plan w s = Some (s', Inr v)" and more: "\<not> ?n \<le> th_position s"
    using s at by (auto simp: thread_value_def thread_at_def split: if_splits)
  have ok: "thread_ok plan s" and pos: "th_position s = k * ?w" "k * ?w < ?n" using at more by (auto simp: thread_at_def)
  have uc: "uc_collate_fn uc = None" "\<not> ld_has_batch_sampler ?l" using plain by (simp_all add: plain_threads_def)
  obtain t vs where t: "thread_ok plan t" "same_threads s t" "th_position t = min (k * ?w + ?w) ?n"
    "list_all2 (sample_at uc plan ?l (th_epoch s)) (irange (k * ?w) (min (k * ?w + ?w) ?n)) vs"
    "(if sz_batch_size (ld_sizing ?l) = None then Inr (hd vs) else uc_default_collate uc vs) = Inr v"
    and s': "s' = mark_thread_epoch t"
  proof (cases "sz_batch_size (ld_sizing ?l)")
    case None
    then have one: "?w = 1" by (simp add: loader_width_def)
    from inord None obtain t where t: "next_thread_sample uc plan w s = Some (t, Inr v)" "s' = mark_thread_epoch t"
      by (auto simp: thread_in_order_def split: option.splits sum.splits prod.splits)
    from next_thread_sample_ok [OF ok t(1)] pos None one show ?thesis
      by (intro that [of t "[v]"] t(2)) (simp_all add: min_def irange_def)
  next
    case (Some b)
    then have b: "?w = b" using plain by (simp add: plain_threads_def loader_width_def)
    from inord Some pos b obtain t vs where
      t: "next_thread_samples uc plan w (nat (min (k * b + b) ?n - k * b)) s = Some (t, Inr vs)"
        "s' = mark_thread_epoch t" "uc_default_collate uc vs = Inr v"
      by (auto simp: thread_in_order_def Let_def split: option.splits sum.splits prod.splits)
    from next_thread_samples_ok [OF ok t(1)] pos b w Some t(3) show ?thesis
      by (intro that [of t vs] t(2)) simp_all
  qed
  have same: "same_epoch s s'"
    using same_epoch_trans [OF same_epoch_threads [OF t(2)] mark_thread_epoch_keeps(1)] by (simp add: s')
  have "k * ?w \<le> ?n" using pos by simp
  from thread_batch_native [OF t(4) this uc t(5)] have "native_batch uc plan ?l ?n (th_epoch s) k = Some (Inr v)" .
  moreover have "thread_at plan (k + 1) s'"
    using t(1,2,3) at
    by (simp add: s' thread_at_def mark_thread_epoch_keeps same_threads_def algebra_simps min.commute)
  ultimately show ?thesis using same pos(2) by simp
qed

lemma thread_run_values:
  "thread_at plan k s \<Longrightarrow> plain_threads uc s \<Longrightarrow> thread_run uc plan calls s = Some (s', Inr vs) \<Longrightarrow>
   length vs = length calls \<and>
   (\<forall>j < length vs. native_batch uc plan (th_loader s) (th_length s) (th_epoch s) (k + int j) = Some (Inr (vs ! j)) \<and>
      (k + int j) * loader_width (th_loader s) < th_length s)"
proof (induction calls arbitrary: k s vs)
  case (Cons call calls)
  obtain u v us where step: "thread_next uc plan (fst call) (snd call) s = Some (u, Inr v)" and
    rest: "thread_run uc plan calls u = Some (s', Inr us)" and vs: "vs = v # us"
    using Cons.prems(3) by (auto simp: rmap_eq_Inr split: option.splits sum.splits prod.splits)
  note one = thread_next_in_order [OF Cons.prems(1,2) step]
  then have at: "thread_at plan (k + 1) u" and same: "same_epoch s u" by simp_all
  have "plain_threads uc u" using Cons.prems(2) by (simp add: plain_same [OF same])
  note ih = Cons.IH [OF at this rest]
  have f: "th_length u = th_length s" "th_epoch u = th_epoch s" using same by (simp_all add: same_epoch_def)
  have "native_batch uc plan (th_loader s) (th_length s) (th_epoch s) (k + int j) = Some (Inr (vs ! j)) \<and>
      (k + int j) * loader_width (th_loader s) < th_length s" if j: "j < length vs" for j
  proof (cases j)
    case 0
    with one vs show ?thesis by simp
  next
    case (Suc i)
    with j vs have "i < length us" by simp
    with ih have "native_batch uc plan (th_loader u) (th_length s) (th_epoch s) (k + 1 + int i) = Some (Inr (us ! i)) \<and>
        (k + 1 + int i) * loader_width (th_loader u) < th_length s" by (simp add: f)
    with Suc vs show ?thesis by (simp add: same_epoch_batch [OF same] same_epoch_width [OF same] algebra_simps)
  qed
  with ih vs show ?case by simp
qed simp

text \<open>Construction.\<close>

lemma new_threads:
  assumes new: "new_thread_iterator plan free l profile p = Some (Inr s)" and p: "tp_root_seed p = ld_root_seed l"
  obtains n restored where
    "delivery_length (ld_sizing l) = Inr n" "ld_cursor l \<le> (n + loader_width l - 1) div loader_width l"
    "(if ld_delivery l = ''on-completion''
      then decode_delivered_bitmap (ld_cursor l) (ld_bitmap l) ((n + loader_width l - 1) div loader_width l) else Inr {||}) = Inr restored"
    "thread_ok plan s" "th_loader s = l" "th_epoch s = es_current (ld_epoch_state l)" "th_length s = n"
    "th_on_completion s = (ld_delivery l = ''on-completion'')" "th_ready_batches s = []"
    "th_delivered s = new_delivered (ld_cursor l) restored"
    "th_position s = min n (ld_cursor l * loader_width l) +
       (\<Sum>ordinal \<leftarrow> sorted_list_of_fset restored. min (loader_width l) (n - ordinal * loader_width l))"
proof -
  obtain n where n: "delivery_length (ld_sizing l) = Inr n"
    using new by (auto simp: new_thread_iterator_def returns_def obind_eq_Some_Inr)
  obtain q where q: "resume_sample_position l n = Inr q" using new n by (auto simp: new_thread_iterator_def returns_def obind_eq_Some_Inr)
  have qv: "q = min n (ld_cursor l * loader_width l)" "ld_cursor l \<le> (n + loader_width l - 1) div loader_width l"
    using q by (auto simp: resume_sample_position_def Let_def split: if_splits)
  obtain restored where r: "(if ld_delivery l = ''on-completion''
      then decode_delivered_bitmap (ld_cursor l) (ld_bitmap l) ((n + loader_width l - 1) div loader_width l) else Inr {||}) = Inr restored"
    using new n q by (auto simp: new_thread_iterator_def returns_def obind_eq_Some_Inr Let_def)
  obtain depth where d: "frontier_depth free (ld_sizing l) = Inr depth"
    using new n q r by (auto simp: new_thread_iterator_def returns_def obind_eq_Some_Inr Let_def)
  define s0 where "s0 = \<lparr>th_loader = l, th_profile = profile, th_pool = p, th_epoch = es_current (ld_epoch_state l), th_length = n,
     th_on_completion = (ld_delivery l = ''on-completion''), th_restored = restored, th_position = q +
       (\<Sum>ordinal \<leftarrow> sorted_list_of_fset restored. min (loader_width l) (n - ordinal * loader_width l)),
     th_next_submit = q, th_depth = thread_depth n q (loader_width l) restored depth, th_complete = False, th_valid = True,
     th_futures = [], th_ready_batches = [], th_queued = {||}, th_delivered = new_delivered (ld_cursor l) restored\<rparr>"
  have ok: "thread_ok plan s0" using p by (simp add: thread_ok_def s0_def)
  have "s = s0 \<or> fill_threads plan s0 = Some (s, Inr ())"
    using new n q r d by (auto simp: new_thread_iterator_def returns_def obind_eq_Some_Inr Let_def s0_def rmap_eq_Inr
        split: if_splits option.splits prod.splits sum.splits)
  with ok fill_threads_ok [OF ok] have s: "thread_ok plan s \<and> same_threads s0 s \<and> th_position s = th_position s0 \<and>
     th_ready_batches s = th_ready_batches s0" by auto
  show ?thesis using s by (intro that [OF n qv(2) r]) (simp_all add: same_threads_def s0_def qv(1))
qed

lemma case_run:
  "(case x of Some (s, Inr v) \<Rightarrow> P s v | _ \<Rightarrow> False) \<longleftrightarrow> (\<exists>s v. x = Some (s, Inr v) \<and> P s v)"
  "(case x of Some (s, Inl e) \<Rightarrow> Q s e | _ \<Rightarrow> False) \<longleftrightarrow> (\<exists>s e. x = Some (s, Inl e) \<and> Q s e)"
  "(case y of Some (Inr s) \<Rightarrow> R s | _ \<Rightarrow> False) \<longleftrightarrow> (\<exists>s. y = Some (Inr s) \<and> R s)"
  by (auto split: option.splits sum.splits)

text \<open>Two numbers in batches of their own; on completion the second finishes first.\<close>

definition sample_threaded :: "string \<Rightarrow> map_loader" where
  "sample_threaded delivery = sample_native\<lparr>ld_delivery := delivery, ld_sizing := native_sizing\<lparr>sz_batch_size := Some 1,
     sz_num_workers := Explicit 1, sz_plan_length := 2\<rparr>\<rparr>"

definition sample_threads :: "string \<Rightarrow> thread_state run" where
  "sample_threads delivery = new_thread_iterator sample_plan 0 (sample_threaded delivery) None \<lparr>tp_root_seed = 1701, tp_closed = False\<rparr>"

definition quiet_world :: thread_world where
  "quiet_world = \<lparr>tw_init = \<lambda>_. None, tw_cost = \<lambda>_. 5, tw_late = \<lambda>_. False\<rparr>"

definition finished :: "int \<Rightarrow> completion_event" where
  "finished p = \<lparr>ce_position = Some p, ce_done = \<lambda>q. q = p\<rparr>"

lemma sample_threads_run:
  "(case sample_threads ''strict-order'' of Some (Inr s) \<Rightarrow>
     (case thread_run sample_code sample_plan [(quiet_world, []), (quiet_world, [])] s of Some (_, Inr vs) \<Rightarrow> vs = [0, 1] | _ \<Rightarrow> False)
   | _ \<Rightarrow> False)"
  "(case sample_threads ''on-completion'' of Some (Inr s) \<Rightarrow>
     (case thread_run sample_code sample_plan [(quiet_world, [finished 1]), (quiet_world, [finished 0])] s of
        Some (s, Inr vs) \<Rightarrow> vs = [1, 0] \<and> \<not> th_complete s \<and>
          (case thread_next sample_code sample_plan quiet_world [] s of
             Some (s, Inl e) \<Rightarrow> e = StopIteration \<and> th_complete s | _ \<Rightarrow> False)
      | _ \<Rightarrow> False)
   | _ \<Rightarrow> False)"
  by code_simp+



section \<open>On completion\<close>

text \<open>The samples of a batch, and the batches of an epoch.\<close>

definition batch_samples :: "int \<Rightarrow> int \<Rightarrow> int \<Rightarrow> int" where
  "batch_samples width n ordinal = min width (n - ordinal * width)"

definition batch_count :: "int \<Rightarrow> int \<Rightarrow> int" where
  "batch_count width n = (n + width - 1) div width"

lemma batch_count_iff:
  assumes w: "0 < w"
  shows "k < batch_count w n \<longleftrightarrow> k * w < n"
proof
  assume "k < batch_count w n"
  then have "(k + 1) * w \<le> batch_count w n * w" using w by (intro mult_right_mono) simp_all
  moreover have "batch_count w n * w \<le> n + w - 1"
    using pos_mod_sign [OF w, of "n + w - 1"] by (simp add: batch_count_def minus_mod_eq_div_mult [symmetric])
  ultimately show "k * w < n" by (simp add: algebra_simps)
next
  assume "k * w < n"
  with ceil_bound [OF w, of "k + 1" n] show "k < batch_count w n" by (simp add: batch_count_def)
qed

lemma batch_samples_pos: "0 < w \<Longrightarrow> k < batch_count w n \<Longrightarrow> 0 < batch_samples w n k"
  by (simp add: batch_count_iff batch_samples_def)

lemma sum_batches:
  assumes w: "0 < w" and n: "0 \<le> n"
  shows "int k \<le> batch_count w n \<Longrightarrow> (\<Sum>o' \<in> {0..<int k}. batch_samples w n o') = min n (int k * w)"
proof (induction k)
  case (Suc k)
  then have "int k < batch_count w n" by simp
  then have "int k * w < n" by (simp add: batch_count_iff [OF w])
  moreover have "{0..<int (Suc k)} = insert (int k) {0..<int k}" by auto
  ultimately show ?case using Suc by (simp add: batch_samples_def algebra_simps min_def)
qed (use n in simp)

lemma sum_all_batches:
  assumes w: "0 < w" and n: "0 \<le> n"
  shows "(\<Sum>o' \<in> {0..<batch_count w n}. batch_samples w n o') = n"
proof -
  have nn: "0 \<le> batch_count w n" using w n by (simp add: batch_count_def pos_imp_zdiv_nonneg_iff)
  have "\<not> batch_count w n * w < n" using batch_count_iff [OF w, of "batch_count w n" n] by simp
  with sum_batches [OF w n, of "nat (batch_count w n)"] nn show ?thesis by simp
qed

lemma sum_batches_full:
  assumes w: "0 < w" and n: "0 \<le> n" and E: "E \<subseteq> {0..<batch_count w n}" and full: "n \<le> (\<Sum>o' \<in> E. batch_samples w n o')"
  shows "E = {0..<batch_count w n}"
proof (rule ccontr)
  assume "E \<noteq> {0..<batch_count w n}"
  with E have "{0..<batch_count w n} - E \<noteq> {}" by blast
  then have "0 < (\<Sum>o' \<in> {0..<batch_count w n} - E. batch_samples w n o')"
    by (intro sum_pos) (auto intro: batch_samples_pos [OF w])
  with sum.subset_diff [OF E, of "batch_samples w n"] full sum_all_batches [OF w n] show False by simp
qed

text \<open>The iterator between two batches, and what the queue of completions reports.\<close>

definition delivered_here :: "thread_state \<Rightarrow> int set" where
  "delivered_here s = db_delivered (th_delivered s) \<inter> {0..<batch_count (loader_width (th_loader s)) (th_length s)}"

definition completing :: "(int \<Rightarrow> int \<Rightarrow> int \<Rightarrow> int run) \<Rightarrow> thread_state \<Rightarrow> bool" where
  "completing plan s \<longleftrightarrow> thread_ok plan s \<and> th_on_completion s \<and> 0 \<le> th_length s \<and> delivered_ok (th_delivered s) \<and>
    set (th_ready_batches s) \<subseteq> {0..<batch_count (loader_width (th_loader s)) (th_length s)} \<and>
    th_position s = (\<Sum>k \<in> delivered_here s. batch_samples (loader_width (th_loader s)) (th_length s) k)"

definition events_of :: "int \<Rightarrow> completion_event list \<Rightarrow> bool" where
  "events_of n events \<longleftrightarrow> (\<forall>event \<in> set events. \<forall>p. ce_position event = Some p \<longrightarrow> 0 \<le> p \<and> p < n)"

definition queue_frame :: "thread_state \<Rightarrow> thread_state \<Rightarrow> bool" where
  "queue_frame s s' \<longleftrightarrow> same_threads s s' \<and> th_futures s' = th_futures s \<and> th_position s' = th_position s \<and>
    set (th_ready_batches s') \<subseteq> {0..<batch_count (loader_width (th_loader s)) (th_length s)}"

lemma note_completion_ok:
  assumes w: "0 < loader_width (th_loader s)" and p: "0 \<le> p" "p < th_length s" and ready: "queue_frame s s"
  shows "queue_frame s (note_completion p is_done s)"
proof -
  let ?w = "loader_width (th_loader s)"
  have "p div ?w * ?w \<le> p" using pos_mod_sign [OF w, of p] by (simp add: minus_mod_eq_div_mult [symmetric])
  then have "p div ?w < batch_count ?w (th_length s)" using p by (simp add: batch_count_iff [OF w])
  moreover have "0 \<le> p div ?w" using w p by (simp add: pos_imp_zdiv_nonneg_iff)
  ultimately show ?thesis using ready by (simp add: queue_frame_def note_completion_def Let_def same_threads_def)
qed

lemma queue_frame_trans: "queue_frame s s' \<Longrightarrow> queue_frame s' s'' \<Longrightarrow> queue_frame s s''"
  by (simp add: queue_frame_def same_threads_def)

lemma queue_frame_self: "queue_frame s s' \<Longrightarrow> queue_frame s' s'"
  by (simp add: queue_frame_def same_threads_def)

lemma await_batch_ok:
  "0 < loader_width (th_loader s) \<Longrightarrow> events_of (th_length s) events \<Longrightarrow> queue_frame s s \<Longrightarrow>
   await_batch events s = Some (s', Inr ()) \<Longrightarrow> queue_frame s s'"
proof (induction events arbitrary: s)
  case Nil
  then show ?case by (simp split: if_splits)
next
  case (Cons event events)
  show ?case
  proof (cases "th_ready_batches s = []")
    case True
    with Cons.prems(4) obtain p where p: "ce_position event = Some p"
      and rest: "await_batch events (note_completion p (ce_done event) s) = Some (s', Inr ())"
      by (auto split: option.splits)
    have q: "0 \<le> p" "p < th_length s" "events_of (th_length s) events" using Cons.prems(2) p by (auto simp: events_of_def)
    let ?t = "note_completion p (ce_done event) s"
    have t: "queue_frame s ?t" by (rule note_completion_ok [OF Cons.prems(1) q(1,2) Cons.prems(3)])
    then have f: "th_loader ?t = th_loader s" "th_length ?t = th_length s" by (simp_all add: queue_frame_def same_threads_def)
    have "queue_frame ?t s'"
      using Cons.IH [OF _ _ queue_frame_self [OF t] rest] Cons.prems(1) q(3) by (simp only: f)
    with t show ?thesis by (rule queue_frame_trans)
  qed (use Cons.prems in simp)
qed

lemma take_thread_batch_ok:
  assumes ok: "thread_ok plan s" and plain: "plain_threads uc s"
    and ready: "set (th_ready_batches s) \<subseteq> {0..<batch_count (loader_width (th_loader s)) (th_length s)}"
    and s: "take_thread_batch uc plan w s = Some (s', Inr (ordinal, v, delivered))"
  shows "thread_ok plan s' \<and> same_threads s s' \<and> th_position s' = th_position s \<and>
    ordinal \<in> {0..<batch_count (loader_width (th_loader s)) (th_length s)} \<and>
    set (th_ready_batches s') \<subseteq> set (th_ready_batches s) \<and>
    delivered = batch_samples (loader_width (th_loader s)) (th_length s) ordinal \<and>
    native_batch uc plan (th_loader s) (th_length s) (th_epoch s) ordinal = Some (Inr v)"
proof -
  let ?w = "loader_width (th_loader s)" and ?n = "th_length s" and ?l = "th_loader s"
  obtain rest where r: "th_ready_batches s = ordinal # rest"
    using s by (auto simp: take_thread_batch_def Let_def rmap_eq_Inr split: list.splits option.splits sum.splits prod.splits if_splits)
  let ?t = "s\<lparr>th_ready_batches := rest, th_queued := th_queued s |-| {|ordinal|}\<rparr>"
  let ?stop = "min (ordinal * ?w + ?w) ?n"
  obtain u vs where u: "collect_futures uc w (irange (ordinal * ?w) ?stop) ?t = (u, Inr vs)"
    and f: "fill_threads plan u = Some (s', Inr ())"
    and v: "(if sz_batch_size (ld_sizing (th_loader s')) = None then Inr (hd vs) else uc_default_collate uc vs) = Inr v"
    and d: "delivered = ?stop - ordinal * ?w"
    using s r by (auto simp: take_thread_batch_def Let_def rmap_eq_Inr batch_stop_def split: option.splits sum.splits prod.splits if_splits)
  have "thread_ok plan ?t" using ok by simp
  note c = collect_futures_ok [OF this u]
  then have "thread_ok plan u" by simp
  note g = fill_threads_ok [OF this f]
  have o: "ordinal \<in> {0..<batch_count ?w ?n}" using ready r by simp
  have "ordinal < batch_count ?w ?n" using o by simp
  then have le: "ordinal * ?w \<le> ?n" by (simp add: batch_count_iff [OF plain_width [OF plain]])
  have same: "th_loader s' = ?l" using c g by (simp add: same_threads_def)
  have uc: "uc_collate_fn uc = None" "\<not> ld_has_batch_sampler ?l" using plain by (simp_all add: plain_threads_def)
  have samples: "list_all2 (sample_at uc plan ?l (th_epoch s)) (irange (ordinal * ?w) ?stop) vs" using c by simp
  from thread_batch_native [OF samples le uc] v same
  have "native_batch uc plan ?l ?n (th_epoch s) ordinal = Some (Inr v)" by simp
  with c g o d r show ?thesis by (auto simp: same_threads_def batch_samples_def min_diff_distrib_left min.commute)
qed

lemma thread_next_completed:
  assumes at: "completing plan s" and plain: "plain_threads uc s" and ev: "events_of (th_length s) ev"
    and s: "thread_next uc plan w ev s = Some (s', Inr v)"
  shows "\<exists>k. k \<in> {0..<batch_count (loader_width (th_loader s)) (th_length s)} - delivered_here s \<and>
    native_batch uc plan (th_loader s) (th_length s) (th_epoch s) k = Some (Inr v) \<and>
    completing plan s' \<and> same_epoch s s' \<and> delivered_here s' = insert k (delivered_here s)"
proof -
  let ?w = "loader_width (th_loader s)" and ?n = "th_length s"
  have w: "0 < ?w" using plain by (rule plain_width)
  have "thread_completed uc plan w ev s = Some (s', Inr v)"
    using s at by (auto simp: thread_value_def completing_def split: if_splits)
  then obtain t u k size d where t: "await_batch ev s = Some (t, Inr ())" and
    u: "take_thread_batch uc plan w t = Some (u, Inr (k, v, size))" and
    d: "mark_batch k (th_delivered u) = Inr d" and
    s': "s' = mark_thread_epoch (u\<lparr>th_position := th_position u + size, th_delivered := d\<rparr>)"
    by (auto simp: thread_completed_def next_thread_batch_def Let_def split: option.splits sum.splits prod.splits)
  have "queue_frame s s" using at by (simp add: queue_frame_def completing_def)
  from await_batch_ok [OF w ev this t] have q: "same_threads s t" "th_futures t = th_futures s" "th_position t = th_position s"
    "set (th_ready_batches t) \<subseteq> {0..<batch_count ?w ?n}" by (simp_all add: queue_frame_def)
  have "thread_ok plan t = thread_ok plan s" using q(1,2) by (simp add: thread_ok_def same_threads_def)
  then have "thread_ok plan t" using at by (simp add: completing_def)
  moreover have "plain_threads uc t" using plain plain_same [OF same_epoch_threads [OF q(1)], of uc] by simp
  moreover have tl: "th_loader t = th_loader s" "th_length t = ?n" "th_epoch t = th_epoch s" using q(1) by (simp_all add: same_threads_def)
  ultimately have b: "thread_ok plan u" "same_threads t u" "th_position u = th_position t" "k \<in> {0..<batch_count ?w ?n}"
    "set (th_ready_batches u) \<subseteq> {0..<batch_count ?w ?n}" "size = batch_samples ?w ?n k"
    "native_batch uc plan (th_loader s) ?n (th_epoch s) k = Some (Inr v)"
    using take_thread_batch_ok [of plan t uc w u k v size] u q(4) by auto
  have su: "same_threads s u" using q(1) b(2) by (rule same_threads_trans)
  have ok: "delivered_ok (th_delivered u)" using at su by (simp add: completing_def same_threads_def)
  note mark = mark_batch_spec [OF ok d]
  have same: "same_epoch s s'"
    using su by (auto simp: s' same_epoch_def same_threads_def mark_thread_epoch_def)
  have same_l: "loader_width (th_loader s') = ?w" "th_length s' = ?n" "th_delivered s' = d"
    using same_epoch_width [OF same] same by (simp_all add: same_epoch_def) (simp add: s' mark_thread_epoch_keeps)
  have here: "delivered_here s' = insert k (delivered_here s)" and fresh: "k \<notin> delivered_here s"
    using mark b(4) su by (auto simp: delivered_here_def same_l same_threads_def)
  have "finite (delivered_here s)" by (simp add: delivered_here_def)
  then have "th_position s' = (\<Sum>k \<in> delivered_here s'. batch_samples ?w ?n k)"
    using at b(3,6) q(3) here fresh by (simp add: s' mark_thread_epoch_keeps completing_def)
  then have "completing plan s'"
    using at same b(1,5) mark same_l by (simp add: completing_def same_epoch_def s' mark_thread_epoch_keeps)
  with b(4,7) same here fresh show ?thesis by blast
qed

lemma thread_run_completed:
  "completing plan s \<Longrightarrow> plain_threads uc s \<Longrightarrow> \<forall>call \<in> set calls. events_of (th_length s) (snd call) \<Longrightarrow>
   thread_run uc plan calls s = Some (s', Inr vs) \<Longrightarrow>
   \<exists>ks. distinct ks \<and> set ks \<subseteq> {0..<batch_count (loader_width (th_loader s)) (th_length s)} - delivered_here s \<and>
     list_all2 (\<lambda>k v. native_batch uc plan (th_loader s) (th_length s) (th_epoch s) k = Some (Inr v)) ks vs \<and>
     completing plan s' \<and> same_epoch s s' \<and> delivered_here s' = set ks \<union> delivered_here s"
proof (induction calls arbitrary: s vs)
  case Nil
  then show ?case by (intro exI [of _ "[]"]) simp
next
  case (Cons call calls)
  obtain u v us where step: "thread_next uc plan (fst call) (snd call) s = Some (u, Inr v)" and
    rest: "thread_run uc plan calls u = Some (s', Inr us)" and vs: "vs = v # us"
    using Cons.prems(4) by (auto simp: rmap_eq_Inr split: option.splits sum.splits prod.splits)
  from thread_next_completed [OF Cons.prems(1,2) _ step] Cons.prems(3) obtain k where
    k: "k \<in> {0..<batch_count (loader_width (th_loader s)) (th_length s)} - delivered_here s"
      "native_batch uc plan (th_loader s) (th_length s) (th_epoch s) k = Some (Inr v)"
      "completing plan u" "same_epoch s u" "delivered_here u = insert k (delivered_here s)" by auto
  have f: "th_length u = th_length s" "th_epoch u = th_epoch s" using k(4) by (simp_all add: same_epoch_def)
  have "plain_threads uc u" using Cons.prems(2) by (simp add: plain_same [OF k(4)])
  from Cons.IH [OF k(3) this _ rest] Cons.prems(3) obtain ks where ks: "distinct ks"
    "set ks \<subseteq> {0..<batch_count (loader_width (th_loader s)) (th_length s)} - delivered_here u"
    "list_all2 (\<lambda>k v. native_batch uc plan (th_loader s) (th_length s) (th_epoch s) k = Some (Inr v)) ks us"
    "completing plan s'" "same_epoch u s'" "delivered_here s' = set ks \<union> delivered_here u"
    by (auto simp: f same_epoch_batch [OF k(4)] same_epoch_width [OF k(4)])
  show ?case
    by (rule exI [of _ "k # ks"]) (use k ks vs same_epoch_trans [OF k(4) ks(5)] in auto)
qed

text \<open>Only the end test completes the epoch.\<close>

lemma fill_threads_complete: "fill_threads plan s = Some (s', r) \<Longrightarrow> th_complete s' \<Longrightarrow> th_complete s"
proof (induction plan s arbitrary: s' r rule: fill_threads.induct)
  case (1 plan s)
  let ?p = "th_next_submit s"
  show ?case
  proof (cases "th_next_submit s < th_length s \<and> int (length (th_futures s)) < th_depth s")
    case True
    show ?thesis
    proof (cases "?p div loader_width (th_loader s) |\<in>| th_restored s")
      case restored: True
      with True 1(3) have "fill_threads plan (s\<lparr>th_next_submit := ?p + 1\<rparr>) = Some (s', r)"
        by (subst (asm) fill_threads.simps) (simp add: Let_def)
      from 1(1) [OF True refl restored this 1(4)] show ?thesis by simp
    next
      case False
      from 1(3) have "s' = s \<or> (\<exists>c i call. native_coordinate (th_loader s) ?p = Inr c \<and>
          native_index plan (th_loader s) (th_epoch s) ?p = Some (Inr i) \<and>
          thread_submit (th_pool s) (th_epoch s) ?p i (Some c) = Inr call \<and>
          fill_threads plan (s\<lparr>th_futures := dict_set ?p call (th_futures s), th_next_submit := ?p + 1\<rparr>) = Some (s', r))"
        using True False by (subst (asm) fill_threads.simps) (auto simp: Let_def split: sum.splits option.splits)
      with 1(2) [OF True refl False] 1(4) show ?thesis by fastforce
    qed
  next
    case False
    with 1(3) have "s' = s" by (subst (asm) fill_threads.simps) simp
    with 1(4) show ?thesis by simp
  qed
qed

lemma observe_cost_complete: "observe_cost position c s = (s', r) \<Longrightarrow> th_complete s' \<Longrightarrow> th_complete s"
  using observe_cost_ok by fastforce

lemma next_thread_sample_complete:
  assumes "next_thread_sample uc plan w s = Some (s', r)" "th_complete s'"
  shows "th_complete s"
  using assms
  by (auto simp: next_thread_sample_def Let_def split: option.splits if_splits sum.splits prod.splits
      dest: observe_cost_complete dest!: fill_threads_complete)

lemma next_thread_samples_complete:
  "next_thread_samples uc plan w n s = Some (s', r) \<Longrightarrow> th_complete s' \<Longrightarrow> th_complete s"
proof (induction n arbitrary: s r)
  case (Suc n)
  then obtain t y where t: "next_thread_sample uc plan w s = Some (t, y)" by (auto split: option.splits)
  have "th_complete t"
  proof (cases y)
    case (Inl e)
    with t Suc.prems show ?thesis by simp
  next
    case (Inr v)
    with t Suc.prems(1) obtain z where "next_thread_samples uc plan w n t = Some (s', z)" by (auto split: option.splits)
    with Suc.IH Suc.prems(2) show ?thesis by blast
  qed
  with next_thread_sample_complete [OF t] show ?case by simp
qed simp

lemma await_batch_complete: "await_batch events s = Some (s', r) \<Longrightarrow> th_complete s' \<Longrightarrow> th_complete s"
proof (induction events arbitrary: s)
  case (Cons event events)
  then consider "s' = s" | p where "await_batch events (note_completion p (ce_done event) s) = Some (s', r)"
    by (auto simp del: await_batch.simps simp: await_batch.simps [of "event # events"] split: if_splits option.splits)
  then show ?case
  proof cases
    case 2
    from Cons.IH [OF this Cons.prems(2)] show ?thesis by (simp add: note_completion_def Let_def split: if_splits)
  qed (use Cons.prems in simp)
qed (simp split: if_splits)

lemma collect_futures_complete: "collect_futures uc w ps s = (s', r) \<Longrightarrow> th_complete s' \<Longrightarrow> th_complete s"
proof (induction ps arbitrary: s r)
  case (Cons p ps)
  then consider "th_complete s' = th_complete s" | u x z where
      "observe_cost p (tw_cost w p) (s\<lparr>th_futures := dict_del p (th_futures s)\<rparr>) = (u, x)"
      "u = s' \<or> collect_futures uc w ps u = (s', z)"
    by (fastforce simp: Let_def split: option.splits sum.splits prod.splits)
  then show ?case
  proof cases
    case 2
    with Cons.IH [OF _ Cons.prems(2)] Cons.prems(2) have "th_complete u" by blast
    with observe_cost_complete [OF 2(1)] show ?thesis by simp
  qed (use Cons.prems in simp)
qed simp

lemma take_thread_batch_complete:
  assumes "take_thread_batch uc plan w s = Some (s', r)" "th_complete s'"
  shows "th_complete s"
proof (cases "th_ready_batches s")
  case (Cons k rest)
  let ?t = "s\<lparr>th_ready_batches := rest, th_queued := th_queued s |-| {|k|}\<rparr>"
  obtain u y where u: "collect_futures uc w (irange (k * loader_width (th_loader s)) (batch_stop s k)) ?t = (u, y)"
    by (cases "collect_futures uc w (irange (k * loader_width (th_loader s)) (batch_stop s k)) ?t")
  have "u = s' \<or> (\<exists>z. fill_threads plan u = Some (s', z))"
    using assms(1) Cons u by (auto simp: take_thread_batch_def Let_def batch_stop_def split: option.splits sum.splits prod.splits)
  with assms(2) fill_threads_complete have "th_complete u" by blast
  with collect_futures_complete [OF u] show ?thesis by simp
qed (use assms in \<open>simp add: take_thread_batch_def\<close>)

lemma thread_next_complete:
  assumes call: "thread_next uc plan w ev s = Some (s', r)" and new: "\<not> th_complete s" "th_complete s'"
  shows "th_length s \<le> th_position s"
proof (rule ccontr)
  assume more: "\<not> th_length s \<le> th_position s"
  obtain t where t: "thread_value uc plan w ev s = Some (t, r)"
      "s' = (case r of Inl e \<Rightarrow> if e = StopIteration then t else close_threads t | Inr _ \<Rightarrow> t)"
    using call by (auto simp: thread_next_def)
  with new(2) have "th_complete t" by (simp add: close_threads_def split: if_splits sum.splits)
  note t = t(1) this
  have "th_complete s" if "thread_in_order uc plan w s = Some (t, r)"
    using that t(2) unfolding thread_in_order_def mark_thread_epoch_def Let_def
    by (auto split: option.splits sum.splits prod.splits dest: next_thread_sample_complete next_thread_samples_complete)
  moreover have "th_complete s" if c: "thread_completed uc plan w ev s = Some (t, r)"
  proof -
    obtain u y where u: "next_thread_batch uc plan w ev s = Some (u, y)" "th_complete u"
      using c t(2) unfolding thread_completed_def mark_thread_epoch_def Let_def
      by (auto split: option.splits sum.splits prod.splits)
    from u(1) consider e where "await_batch ev s = Some (u, Inl e)" |
        x t where "await_batch ev s = Some (t, Inr x)" "take_thread_batch uc plan w t = Some (u, y)"
      unfolding next_thread_batch_def by (auto simp del: await_batch.simps split: option.splits sum.splits)
    then show ?thesis
    proof cases
      case 2
      from take_thread_batch_complete [OF this(2) u(2)] await_batch_complete [OF this(1)] show ?thesis by blast
    qed (use u(2) await_batch_complete in blast)
  qed
  ultimately show False using t new(1) more by (auto simp: thread_value_def split: if_splits)
qed



end
