(* ===== verification/LaneState.thy ===== *)
theory LaneState
  imports MapState Config Profile
begin

text \<open>
  The state of an iterable loader: the bounded ring of source snapshots (\<^verbatim>\<open>iterable/snapshot.py\<close>), the
  coordinate of a sample (\<^verbatim>\<open>iterable/rng.py\<close>) and the checkpoint with its public form
  (\<^verbatim>\<open>iterable/state.py\<close>).
\<close>

section \<open>Snapshot rings\<close>

type_synonym snapshot = "int \<times> int list"  \<comment> \<open>arrival and payload\<close>

record ring =
  ri_stateful :: bool
  ri_cadence :: "py_number option"  \<comment> \<open>\<open>None\<close> is the literal \<open>off\<close>\<close>
  ri_maximum_bytes :: int
  ri_depth :: nat
  ri_entries :: "snapshot list"
  ri_snapshotless :: bool

definition new_ring :: "bool \<Rightarrow> py_number option \<Rightarrow> int \<Rightarrow> int \<Rightarrow> ring" where
  "new_ring stateful cadence maximum_bytes depth =
    \<lparr>ri_stateful = stateful, ri_cadence = cadence, ri_maximum_bytes = maximum_bytes, ri_depth = nat (max 1 depth),
     ri_entries = [], ri_snapshotless = (cadence = None \<or> \<not> stateful)\<rparr>"

text \<open>\<^verbatim>\<open>deque.append\<close> of a deque with a maximal length.\<close>

definition append_bounded :: "nat \<Rightarrow> 'a list \<Rightarrow> 'a \<Rightarrow> 'a list" where
  "append_bounded maxlen xs x = drop (Suc (length xs) - maxlen) (xs @ [x])"

definition int_of_number :: "py_number \<Rightarrow> int" where
  \<comment> \<open>\<^verbatim>\<open>int(value)\<close>\<close>
  "int_of_number v = py_trunc (number_value v)"

definition ring_due :: "int \<Rightarrow> bool \<Rightarrow> ring \<Rightarrow> bool res" where
  "ring_due produced_batches force r =
    (if ri_snapshotless r then Inr False
     else if force then Inr True
     else (case ri_cadence r of
             None \<Rightarrow> Inl (ValueError ''invalid literal for int()'')
           | Some c \<Rightarrow> rmap (\<lambda>(_, m). m = 0) (py_divmod produced_batches (int_of_number c))))"

definition ring_push :: "int \<Rightarrow> int list \<Rightarrow> ring \<Rightarrow> ring \<times> bool" where
  "ring_push arrival payload r =
    (if ri_maximum_bytes r < int (length payload) then (r\<lparr>ri_snapshotless := True, ri_entries := []\<rparr>, False)
     else (r\<lparr>ri_entries := append_bounded (ri_depth r) (ri_entries r) (arrival, payload)\<rparr>, True))"

definition ring_seed :: "snapshot \<Rightarrow> ring \<Rightarrow> ring" where
  "ring_seed snapshot r =
    (if ri_snapshotless r then r
     else r\<lparr>ri_entries := append_bounded (ri_depth r) (ri_entries r) snapshot\<rparr>)"

definition ring_select :: "int \<Rightarrow> ring \<Rightarrow> snapshot option" where
  "ring_select delivered r =
    fold (\<lambda>entry selected. if fst entry \<le> delivered then Some entry else selected) (ri_entries r) None"

definition discard_before :: "int \<Rightarrow> ring \<Rightarrow> ring" where
  "discard_before delivered r =
    r\<lparr>ri_entries := (case ring_select delivered r of None \<Rightarrow> [] | Some s \<Rightarrow> [s]) @
      filter (\<lambda>entry. delivered < fst entry) (ri_entries r)\<rparr>"

section \<open>Coordinates\<close>

definition RANK_LIMIT :: int where "RANK_LIMIT = push_bit 12 1"
definition LANE_LIMIT :: int where "LANE_LIMIT = push_bit 12 1"
definition ARRIVAL_LIMIT :: int where "ARRIVAL_LIMIT = push_bit 40 1"

definition bounded :: "string \<Rightarrow> int \<Rightarrow> int \<Rightarrow> unit res" where
  "bounded name v limit =
    (if 0 \<le> v \<and> v < limit then Inr () else Inl (ValueError (''iterable '' @ name @ '' must be in range'')))"

definition iterable_coordinate :: "int \<Rightarrow> int \<Rightarrow> int \<Rightarrow> int res" where
  "iterable_coordinate rank lane arrival =
    rbind (bounded ''rank'' rank RANK_LIMIT) (\<lambda>_.
    rbind (bounded ''lane'' lane LANE_LIMIT) (\<lambda>_.
    rbind (bounded ''arrival'' arrival ARRIVAL_LIMIT) (\<lambda>_.
      Inr (push_bit 52 rank OR push_bit 40 lane OR arrival))))"

section \<open>The checkpoint\<close>

record lane_checkpoint =
  lc_lane :: int
  lc_delivered_arrival :: int
  lc_stateful :: bool
  lc_snapshot_arrival :: "int option"
  lc_snapshot :: "int list option"

record iterable_checkpoint =
  ic_root_seed :: int
  ic_epoch :: int
  ic_world_size :: int
  ic_lane_count :: int
  ic_lane_order :: "int list"
  ic_lanes :: "lane_checkpoint list"
  ic_fingerprint :: contract_fingerprint

definition lane_to_dict :: "lane_checkpoint \<Rightarrow> payload" where
  "lane_to_dict c =
    [(PStr ''lane'', PInt (lc_lane c)), (PStr ''delivered_arrival'', PInt (lc_delivered_arrival c)),
     (PStr ''stateful'', PBool (lc_stateful c)),
     (PStr ''snapshot_arrival'', case lc_snapshot_arrival c of None \<Rightarrow> PNone | Some a \<Rightarrow> PInt a),
     (PStr ''snapshot'', case lc_snapshot c of None \<Rightarrow> PNone | Some b \<Rightarrow> PBytes b)]"

definition iterable_integer :: "payload \<Rightarrow> string \<Rightarrow> int option \<Rightarrow> int res" where
  "iterable_integer = checked_integer ''iterable loader state ''"

fun sequence_integer :: "string \<Rightarrow> pyval \<Rightarrow> int res" where
  "sequence_integer name (PInt v) =
    (if v < 0 then Inl (ValueError (''iterable loader state '' @ name @ '' entries must be nonnegative'')) else Inr v)"
| "sequence_integer name _ = Inl (TypeError (''iterable loader state '' @ name @ '' entries must be integers''))"

definition lane_from_dict :: "pyval \<Rightarrow> lane_checkpoint res" where
  "lane_from_dict payload =
    (case as_dict payload of
       None \<Rightarrow> Inl (TypeError ''iterable lane state must be a dictionary'')
     | Some d \<Rightarrow>
         rbind (case get_or_none d ''stateful'' of PBool b \<Rightarrow> Inr b
                | _ \<Rightarrow> Inl (TypeError ''iterable lane stateful must be a boolean'')) (\<lambda>stateful.
         rbind (case get_or_none d ''snapshot'' of PNone \<Rightarrow> Inr None | PBytes b \<Rightarrow> Inr (Some b)
                | _ \<Rightarrow> Inl (TypeError ''iterable lane snapshot must be bytes or None'')) (\<lambda>snapshot.
         rbind (if get_or_none d ''snapshot_arrival'' = PNone then Inr None
                else rmap Some (iterable_integer d ''snapshot_arrival'' None)) (\<lambda>snapshot_arrival.
           if (snapshot = None) \<noteq> (snapshot_arrival = None)
           then Inl (ValueError ''iterable lane snapshot and snapshot_arrival must appear together'')
           else if \<not> stateful \<and> snapshot \<noteq> None
           then Inl (ValueError ''plain iterable lane cannot carry a source snapshot'')
           else
         rbind (iterable_integer d ''delivered_arrival'' None) (\<lambda>delivered.
           if (case snapshot_arrival of None \<Rightarrow> False | Some a \<Rightarrow> delivered < a)
           then Inl (ValueError ''iterable lane snapshot exceeds its delivered arrival'')
           else
         rbind (iterable_integer d ''lane'' None) (\<lambda>lane.
           Inr \<lparr>lc_lane = lane, lc_delivered_arrival = delivered, lc_stateful = stateful,
                lc_snapshot_arrival = snapshot_arrival, lc_snapshot = snapshot\<rparr>))))))"

definition iterable_to_dict :: "(rat \<Rightarrow> string) \<Rightarrow> iterable_checkpoint \<Rightarrow> payload res" where
  "iterable_to_dict rf c =
    rmap (\<lambda>fingerprint.
      [(PStr ''kind'', PStr ''iterable''), (PStr ''root_seed'', PInt (ic_root_seed c)), (PStr ''epoch'', PInt (ic_epoch c)),
       (PStr ''world_size'', PInt (ic_world_size c)), (PStr ''lane_count'', PInt (ic_lane_count c)),
       (PStr ''lane_order'', PList (map PInt (ic_lane_order c))),
       (PStr ''lanes'', PList (map (PDict \<circ> lane_to_dict) (ic_lanes c))), (PStr ''fingerprint'', PDict fingerprint)])
      (fp_to_dict rf (ic_fingerprint c))"

definition iterable_from_dict :: "(rat \<Rightarrow> string) \<Rightarrow> pyval \<Rightarrow> iterable_checkpoint res" where
  "iterable_from_dict rf payload =
    (case as_dict payload of
       None \<Rightarrow> Inl (TypeError ''loader state must be a dictionary'')
     | Some d \<Rightarrow>
         if get_or_none d ''kind'' \<noteq> PStr ''iterable'' then Inl (ValueError ''iterable loader state requires kind=iterable'')
         else
         (case as_dict (get_or_none d ''fingerprint'') of
            None \<Rightarrow> Inl (TypeError ''loader state fingerprint must be a dictionary'')
          | Some fingerprint_payload \<Rightarrow>
              rbind (iterable_integer d ''lane_count'' None) (\<lambda>lane_count.
              case as_list (get_or_none d ''lanes'') of
                None \<Rightarrow> Inl (TypeError ''iterable loader state lanes must be a list'')
              | Some raw_lanes \<Rightarrow>
              rbind (rtraverse lane_from_dict raw_lanes) (\<lambda>lanes.
                if lanes \<noteq> [] \<and> sort (map lc_lane lanes) \<noteq> irange 0 lane_count
                then Inl (ValueError ''iterable loader state lanes must contain every logical lane once'')
                else
              case as_list (get_or_none d ''lane_order'') of
                None \<Rightarrow> Inl (TypeError ''iterable loader state lane_order must be a list'')
              | Some raw_order \<Rightarrow>
              rbind (rtraverse (sequence_integer ''lane_order'') raw_order) (\<lambda>lane_order.
                if \<not> distinct lane_order \<or> (\<exists>lane \<in> set lane_order. lane_count \<le> lane)
                then Inl (ValueError ''iterable loader state lane_order must contain unique valid lanes'')
                else
              rbind (iterable_integer d ''root_seed'' (Some MAX_U64)) (\<lambda>root_seed.
              rbind (iterable_integer d ''epoch'' None) (\<lambda>epoch.
              rbind (iterable_integer d ''world_size'' None) (\<lambda>world_size.
              rbind (fp_from_dict rf fingerprint_payload) (\<lambda>fingerprint.
                Inr \<lparr>ic_root_seed = root_seed, ic_epoch = epoch, ic_world_size = world_size, ic_lane_count = lane_count,
                     ic_lane_order = lane_order, ic_lanes = lanes, ic_fingerprint = fingerprint\<rparr>)))))))))"

section \<open>The codec\<close>

definition lane_valid :: "lane_checkpoint \<Rightarrow> bool" where
  "lane_valid c \<longleftrightarrow> 0 \<le> lc_lane c \<and> 0 \<le> lc_delivered_arrival c \<and> (lc_snapshot c = None \<longleftrightarrow> lc_snapshot_arrival c = None) \<and>
    (lc_snapshot c \<noteq> None \<longrightarrow> lc_stateful c) \<and>
    (\<forall>a. lc_snapshot_arrival c = Some a \<longrightarrow> 0 \<le> a \<and> a \<le> lc_delivered_arrival c)"

definition iterable_valid :: "(rat \<Rightarrow> string) \<Rightarrow> iterable_checkpoint \<Rightarrow> bool" where
  "iterable_valid rf c \<longleftrightarrow> 0 \<le> ic_root_seed c \<and> ic_root_seed c \<le> MAX_U64 \<and> 0 \<le> ic_epoch c \<and> 0 \<le> ic_world_size c \<and>
    0 \<le> ic_lane_count c \<and> (\<forall>lane \<in> set (ic_lanes c). lane_valid lane) \<and>
    (ic_lanes c \<noteq> [] \<longrightarrow> sort (map lc_lane (ic_lanes c)) = irange 0 (ic_lane_count c)) \<and>
    distinct (ic_lane_order c) \<and> set (ic_lane_order c) \<subseteq> {0..<ic_lane_count c} \<and> fp_valid rf (ic_fingerprint c)"

definition iterable_encode :: "(rat \<Rightarrow> string) \<Rightarrow> iterable_checkpoint \<Rightarrow> payload" where
  "iterable_encode rf c = (case iterable_to_dict rf c of Inl _ \<Rightarrow> [] | Inr d \<Rightarrow> d)"

lemma lane_decode_encode: "lane_valid c \<Longrightarrow> lane_from_dict (PDict (lane_to_dict c)) = Inr c"
  by (cases c) (auto simp: lane_from_dict_def lane_to_dict_def lane_valid_def get_or_none_def iterable_integer_def
      checked_integer_def split: option.splits)

lemma lane_decode_valid: "lane_from_dict p = Inr c \<Longrightarrow> lane_valid c"
  by (auto simp: lane_from_dict_def lane_valid_def rbind_eq_Inr rmap_eq_Inr iterable_integer_def checked_integer_iff
      split: option.splits pyval.splits if_splits)

lemma iterable_to_dict_encode: "iterable_valid rf c \<Longrightarrow> iterable_to_dict rf c = Inr (iterable_encode rf c)"
  by (simp add: iterable_encode_def iterable_to_dict_def iterable_valid_def fp_to_dict_encode)

lemma lanes_decode_encode:
  "\<forall>c \<in> set cs. lane_valid c \<Longrightarrow> rtraverse lane_from_dict (map (PDict \<circ> lane_to_dict) cs) = Inr cs"
  by (induction cs) (simp_all add: lane_decode_encode)

lemma order_decode_encode: "\<forall>i \<in> set xs. 0 \<le> i \<Longrightarrow> rtraverse (sequence_integer name) (map PInt xs) = Inr xs"
  by (induction xs) (simp_all add: not_less)

lemma iterable_decode_encode:
  assumes "iterable_valid rf c"
  shows "iterable_from_dict rf (PDict (iterable_encode rf c)) = Inr c"
proof -
  have fp: "fp_from_dict rf (fp_encode rf (ic_fingerprint c)) = Inr (ic_fingerprint c)"
    and order: "rtraverse (sequence_integer ''lane_order'') (map PInt (ic_lane_order c)) = Inr (ic_lane_order c)"
    and lanes: "rtraverse lane_from_dict (map (PDict \<circ> lane_to_dict) (ic_lanes c)) = Inr (ic_lanes c)"
    using assms by (auto simp: iterable_valid_def fp_from_encode intro!: order_decode_encode lanes_decode_encode)
  have "\<not> (\<exists>lane \<in> set (ic_lane_order c). ic_lane_count c \<le> lane)" using assms by (force simp: iterable_valid_def)
  moreover have "\<not> (ic_lanes c \<noteq> [] \<and> sort (map lc_lane (ic_lanes c)) \<noteq> irange 0 (ic_lane_count c))"
    using assms unfolding iterable_valid_def by blast
  ultimately show ?thesis using assms fp order lanes
    by (simp add: iterable_encode_def iterable_to_dict_def iterable_valid_def fp_to_dict_encode iterable_from_dict_def comp_def
        iterable_integer_def checked_integer_def get_or_none_def)
qed

lemma iterable_decode_valid:
  assumes "iterable_from_dict rf p = Inr c"
  shows "iterable_valid rf c"
proof -
  have order: "rtraverse (sequence_integer name) xs = Inr ys \<Longrightarrow> \<forall>y \<in> set ys. 0 \<le> y" for name xs ys
  proof (induction xs arbitrary: ys)
    case (Cons x xs)
    then show ?case by (cases x) (auto simp: rbind_eq_Inr split: if_splits)
  qed simp
  have lanes: "rtraverse lane_from_dict xs = Inr ys \<Longrightarrow> \<forall>y \<in> set ys. lane_valid y" for xs ys
    by (induction xs arbitrary: ys) (auto simp: rbind_eq_Inr lane_decode_valid)
  show ?thesis using assms
    by (auto simp: iterable_from_dict_def iterable_valid_def rbind_eq_Inr iterable_integer_def checked_integer_iff
        fp_from_dict_valid not_le dest!: order lanes split: option.splits if_splits)
qed

interpretation icp: checkpoint_codec "iterable_encode rf" "iterable_from_dict rf" "iterable_valid rf" for rf
  by unfold_locales (auto simp: iterable_decode_encode intro: iterable_decode_valid)

section \<open>Coordinates never collide\<close>

lemma iterable_coordinate_ok:
  "iterable_coordinate rank lane arrival = Inr c \<longleftrightarrow>
     0 \<le> rank \<and> rank < 2 ^ 12 \<and> 0 \<le> lane \<and> lane < 2 ^ 12 \<and> 0 \<le> arrival \<and> arrival < 2 ^ 40 \<and>
     c = (rank * 2 ^ 12 + lane) * 2 ^ 40 + arrival"
proof -
  have join: "push_bit n a OR b = a * 2 ^ n + b" if "0 \<le> b" "b < 2 ^ n" for a b :: int and n
  proof -
    have low: "\<not> bit b i" if "n \<le> i" for i
      using \<open>0 \<le> b\<close> \<open>b < 2 ^ n\<close> that by (metis bit_take_bit_iff take_bit_int_eq_self not_less)
    have "push_bit n a OR b = push_bit n a + b"
      by (rule disjunctive_add [symmetric]) (metis low bit_push_bit_iff_int)
    then show ?thesis by (simp add: push_bit_eq_mult)
  qed
  have "push_bit 52 rank OR push_bit 40 lane OR arrival = (rank * 2 ^ 12 + lane) * 2 ^ 40 + arrival"
    if "0 \<le> lane" "lane < 2 ^ 12" "0 \<le> arrival" "arrival < 2 ^ 40"
  proof -
    have "push_bit 40 (push_bit 12 rank OR lane) OR arrival = (rank * 2 ^ 12 + lane) * 2 ^ 40 + arrival"
      using that by (simp add: join)
    then show ?thesis by (simp add: push_bit_or or.assoc)
  qed
  then show ?thesis
    by (auto simp: iterable_coordinate_def bounded_def RANK_LIMIT_def LANE_LIMIT_def ARRIVAL_LIMIT_def rbind_eq_Inr)
qed

lemma digits_eq:
  assumes "0 \<le> b" "b < m" "0 \<le> b'" "b' < m"
  shows "a * m + b = a' * m + b' \<longleftrightarrow> a = a' \<and> b = (b' :: int)"
proof
  assume eq: "a * m + b = a' * m + b'"
  have "(a * m + b) mod m = b" "(a' * m + b') mod m = b'" using assms by simp_all
  with eq have "b = b'" by simp
  with eq assms show "a = a' \<and> b = b'" by simp
qed simp

text \<open>
  The coordinate of an iterable sample is a 64-bit value that names its rank, its lane and its arrival:
  two samples that any ranks and lanes may draw in an epoch never share a random stream.
\<close>

theorem iterable_coordinate_injective:
  assumes "iterable_coordinate rank lane arrival = Inr c" "iterable_coordinate rank' lane' arrival' = Inr c'"
  shows "0 \<le> c \<and> c < 2 ^ 64 \<and> (c = c' \<longleftrightarrow> rank = rank' \<and> lane = lane' \<and> arrival = arrival')"
proof -
  have c: "c = (rank * 2 ^ 12 + lane) * 2 ^ 40 + arrival" "c' = (rank' * 2 ^ 12 + lane') * 2 ^ 40 + arrival'"
    and r: "0 \<le> rank" "rank < 2 ^ 12" "0 \<le> lane" "lane < 2 ^ 12" "0 \<le> arrival" "arrival < 2 ^ 40"
      "0 \<le> lane'" "lane' < 2 ^ 12" "0 \<le> arrival'" "arrival' < 2 ^ 40"
    using assms by (simp_all add: iterable_coordinate_ok)
  have "c = c' \<longleftrightarrow> rank = rank' \<and> lane = lane' \<and> arrival = arrival'"
    unfolding c digits_eq [OF r(5,6,9,10)] digits_eq [OF r(3,4,7,8)] by blast
  with r c show ?thesis by simp
qed

theorem iterable_coordinate_injective_witness:
  "(3 * 2 ^ 12 + 5) * 2 ^ 40 + 7 \<noteq> ((3 * 2 ^ 12 + 6) * 2 ^ 40 + 7 :: int)"
  using iterable_coordinate_injective [of 3 5 7 "(3 * 2 ^ 12 + 5) * 2 ^ 40 + 7" 3 6 7 "(3 * 2 ^ 12 + 6) * 2 ^ 40 + 7"]
  by (simp add: iterable_coordinate_ok)

end
