(* ===== verification/Lanes.thy ===== *)
theory Lanes
  imports LaneState InProcess
begin

text \<open>
  Iterable loaders: logical lanes over copies of one pickled source, their snapshots, replay and
  recovery (\<^verbatim>\<open>iterable/runtime.py\<close>, \<^verbatim>\<open>iterable/iterator.py\<close>), and the loader around them.  A source
  is user code, a parameter: \<open>'d\<close> is a dataset with the iterator made of it, \<open>'q\<close> a state
  dictionary and \<open>'v\<close> a value.
\<close>

section \<open>Sources\<close>

text \<open>What \<^verbatim>\<open>getattr\<close> finds: nothing or \<^verbatim>\<open>None\<close>, an object that cannot be called, or a method.\<close>

datatype 'f hook = Absent | Uncallable | Present 'f

text \<open>The worker identity user code may ask for: lane, number of lanes and the sample's seed.\<close>

type_synonym worker_view = "(int \<times> int \<times> int option) option"

text \<open>
  \<open>None\<close> of a state method is a value that is not a dictionary, \<open>None\<close> of \<open>is_next\<close> is
  \<^verbatim>\<open>StopIteration\<close>.
\<close>

record ('d, 'q, 'v) source_code =
  is_loads :: "int list \<Rightarrow> 'd res"
  is_shard :: "'d \<Rightarrow> (int \<Rightarrow> int \<Rightarrow> int \<Rightarrow> int \<Rightarrow> 'd res) hook"
  is_init :: "(worker_view \<Rightarrow> int \<Rightarrow> 'd \<Rightarrow> 'd res) option"
  is_save :: "'d \<Rightarrow> (worker_view \<Rightarrow> 'd \<times> 'q option res) hook"
  is_load :: "'d \<Rightarrow> (worker_view \<Rightarrow> 'q \<Rightarrow> 'd res) hook"
  is_dumps :: "'q \<Rightarrow> int list res"
  is_loads_state :: "int list \<Rightarrow> 'q option res"
  is_iter :: "worker_view \<Rightarrow> 'd \<Rightarrow> 'd res"
  is_next :: "worker_view \<Rightarrow> stream_context \<Rightarrow> 'd \<Rightarrow> 'd \<times> 'v option res"
  is_collate :: "'v list \<Rightarrow> 'v res"

record iterable_loader =
  il_root_seed :: int
  il_epoch_state :: epoch_state
  il_batch_size :: "int option"
  il_drop_last :: bool
  il_num_workers :: "int auto"
  il_rank :: int
  il_world_size :: int
  il_payload :: "int list"
  il_factors :: factor_config
  il_fingerprint :: contract_fingerprint
  il_resume :: "iterable_checkpoint option"
  il_snapshot_notice :: bool
  il_restart_notice :: bool

definition logical_lane_count :: "iterable_loader \<Rightarrow> int" where
  "logical_lane_count l = (case il_num_workers l of Explicit n \<Rightarrow> if 0 < n then n else 1 | AUTO \<Rightarrow> 1)"

definition worker_context :: "iterable_loader \<Rightarrow> int \<Rightarrow> int \<Rightarrow> int option \<Rightarrow> worker_view" where
  "worker_context l lane_count identity seed =
    (if il_num_workers l = Explicit 0 then None else Some (identity, lane_count, seed))"

definition apply_source_shard ::
    "('d, 'q, 'v) source_code \<Rightarrow> iterable_loader \<Rightarrow> int \<Rightarrow> int \<Rightarrow> 'd \<Rightarrow> 'd res" where
  "apply_source_shard us l lane lane_count d =
    (case is_shard us d of
       Absent \<Rightarrow> Inr d
     | Uncallable \<Rightarrow> Inl (TypeError ''iterable source shard must be callable'')
     | Present shard \<Rightarrow> shard (il_rank l) (il_world_size l) lane lane_count)"

definition has_state_pair :: "('d, 'q, 'v) source_code \<Rightarrow> 'd \<Rightarrow> bool res" where
  "has_state_pair us d =
    (case (is_save us d, is_load us d) of
       (Absent, Absent) \<Rightarrow> Inr False
     | (Present _, Present _) \<Rightarrow> Inr True
     | _ \<Rightarrow> Inl (TypeError ''iterable stateful source requires callable state_dict and load_state_dict''))"

definition capture_source_state :: "('d, 'q, 'v) source_code \<Rightarrow> worker_view \<Rightarrow> 'd \<Rightarrow> 'd \<times> 'q res" where
  "capture_source_state us view d =
    (case is_save us d of
       Absent \<Rightarrow> (d, Inl (AttributeError ''state_dict''))
     | Uncallable \<Rightarrow> (d, Inl (TypeError ''object is not callable''))
     | Present save \<Rightarrow>
         (case save view of
            (d, Inl e) \<Rightarrow> (d, Inl e)
          | (d, Inr None) \<Rightarrow> (d, Inl (TypeError ''iterable source state_dict must return a dictionary''))
          | (d, Inr (Some q)) \<Rightarrow> (d, Inr q)))"

definition restore_source_state :: "('d, 'q, 'v) source_code \<Rightarrow> worker_view \<Rightarrow> 'd \<Rightarrow> 'q \<Rightarrow> 'd res" where
  "restore_source_state us view d q =
    (case is_load us d of
       Absent \<Rightarrow> Inl (AttributeError ''load_state_dict'')
     | Uncallable \<Rightarrow> Inl (TypeError ''object is not callable'')
     | Present load \<Rightarrow> load view q)"

section \<open>Lanes\<close>

record 'd lane =
  ln_identity :: int
  ln_source :: 'd
  ln_arrival :: int
  ln_produced :: int

text \<open>
  The live lanes are objects of \<open>rt_store\<close>, named by their index: \<open>rt_all_lanes\<close> and the
  iterator's queue refer to the same ones.
\<close>

record 'd lane_runtime =
  rt_loader :: iterable_loader
  rt_epoch :: int
  rt_lane_count :: int
  rt_store :: "'d lane list"
  rt_all_lanes :: "(int, nat) dict"
  rt_rings :: "(int, ring) dict"
  rt_delivered :: "(int, int) dict"

definition new_runtime :: "iterable_loader \<Rightarrow> int \<Rightarrow> int \<Rightarrow> 'd lane_runtime" where
  "new_runtime l epoch lane_count =
    \<lparr>rt_loader = l, rt_epoch = epoch, rt_lane_count = lane_count, rt_store = [], rt_all_lanes = [], rt_rings = [],
     rt_delivered = map (\<lambda>lane. (lane, 0)) (irange 0 lane_count)\<rparr>"

definition snapshotless_notice :: "'d lane_runtime \<Rightarrow> 'd lane_runtime" where
  "snapshotless_notice rt = rt\<lparr>rt_loader := (rt_loader rt)\<lparr>il_snapshot_notice := True\<rparr>\<rparr>"

definition restart_notice :: "'d lane_runtime \<Rightarrow> 'd lane_runtime" where
  "restart_notice rt = rt\<lparr>rt_loader := (rt_loader rt)\<lparr>il_restart_notice := True\<rparr>\<rparr>"

text \<open>
  \<^verbatim>\<open>_advance\<close> by at most \<open>n\<close> values; the flag tells that the source ended.
\<close>

fun advance_lane ::
    "('d, 'q, 'v) source_code \<Rightarrow> iterable_loader \<Rightarrow> int \<Rightarrow> int \<Rightarrow> nat \<Rightarrow> 'd lane \<Rightarrow> 'd lane \<times> ('v list \<times> bool) res" where
  "advance_lane us l epoch lane_count 0 lane = (lane, Inr ([], False))"
| "advance_lane us l epoch lane_count (Suc n) lane =
    (case iterable_coordinate (il_rank l) (ln_identity lane) (ln_arrival lane) of
       Inl e \<Rightarrow> (lane, Inl e)
     | Inr c \<Rightarrow>
         let sample = sample_rng_context (il_root_seed l) epoch c in
         (case is_next us (worker_context l lane_count (ln_identity lane) (Some (fst sample))) sample (ln_source lane) of
            (d, Inl e) \<Rightarrow> (lane\<lparr>ln_source := d\<rparr>, Inl e)
          | (d, Inr None) \<Rightarrow> (lane\<lparr>ln_source := d\<rparr>, Inr ([], True))
          | (d, Inr (Some v)) \<Rightarrow>
              (case advance_lane us l epoch lane_count n (lane\<lparr>ln_source := d, ln_arrival := ln_arrival lane + 1\<rparr>) of
                 (lane, r) \<Rightarrow> (lane, rmap (\<lambda>(vs, exhausted). (v # vs, exhausted)) r))))"

definition rt_advance :: "('d, 'q, 'v) source_code \<Rightarrow> nat \<Rightarrow> nat \<Rightarrow> 'd lane_runtime \<Rightarrow> 'd lane_runtime \<times> ('v list \<times> bool) res" where
  "rt_advance us n ref rt =
    (case advance_lane us (rt_loader rt) (rt_epoch rt) (rt_lane_count rt) n (rt_store rt ! ref) of
       (lane, r) \<Rightarrow> (rt\<lparr>rt_store := (rt_store rt)[ref := lane]\<rparr>, r))"

definition replay_to :: "('d, 'q, 'v) source_code \<Rightarrow> nat \<Rightarrow> int \<Rightarrow> 'd lane_runtime \<Rightarrow> 'd lane_runtime \<times> unit res" where
  "replay_to us ref target rt =
    (let remaining = target - ln_arrival (rt_store rt ! ref) in
     if remaining < 0 then (rt, Inl (ValueError ''iterable snapshot exceeds the delivered cursor''))
     else if remaining = 0 then (rt, Inr ())
     else
       (case rt_advance us (nat remaining) ref rt of
          (rt, Inl e) \<Rightarrow> (rt, Inl e)
        | (rt, Inr (vs, exhausted)) \<Rightarrow>
            (rt, if exhausted \<or> int (length vs) \<noteq> remaining
                 then Inl (RuntimeError ''iterable source ended before its replay cursor'') else Inr ())))"

text \<open>\<^verbatim>\<open>pickle.dumps\<close> errors become one \<^verbatim>\<open>TypeError\<close>.\<close>

definition capture_snapshot :: "('d, 'q, 'v) source_code \<Rightarrow> nat \<Rightarrow> bool \<Rightarrow> 'd lane_runtime \<Rightarrow> 'd lane_runtime \<times> unit res" where
  "capture_snapshot us ref force rt =
    (let lane = rt_store rt ! ref; identity = ln_identity lane in
     case dict_get (rt_rings rt) identity of
       None \<Rightarrow> (rt, Inl (KeyError ''identity''))
     | Some ring \<Rightarrow>
         (case ring_due (ln_produced lane) force ring of
            Inl e \<Rightarrow> (rt, Inl e)
          | Inr False \<Rightarrow> (rt, Inr ())
          | Inr True \<Rightarrow>
              (case capture_source_state us (worker_context (rt_loader rt) (rt_lane_count rt) identity None) (ln_source lane) of
                 (d, r) \<Rightarrow>
                   let rt = rt\<lparr>rt_store := (rt_store rt)[ref := lane\<lparr>ln_source := d\<rparr>]\<rparr> in
                   (case rbind r (\<lambda>q. case is_dumps us q of Inl _ \<Rightarrow> Inl (TypeError ''iterable source state must be pickleable'')
                                      | Inr payload \<Rightarrow> Inr payload) of
                      Inl e \<Rightarrow> (rt, Inl e)
                    | Inr payload \<Rightarrow>
                        (case ring_push (ln_arrival lane) payload ring of
                           (ring, kept) \<Rightarrow>
                             let rt = rt\<lparr>rt_rings := dict_set identity ring (rt_rings rt)\<rparr>
                             in (if kept then rt else snapshotless_notice rt, Inr ()))))))"

text \<open>\<^verbatim>\<open>_restore_selected\<close>: the restored source, its arrival and the entry that seeds the ring.\<close>

definition restore_selected ::
    "('d, 'q, 'v) source_code \<Rightarrow> worker_view \<Rightarrow> 'd \<Rightarrow> lane_checkpoint option \<Rightarrow> ('d \<times> int \<times> snapshot option) res" where
  "restore_selected us view d checkpoint =
    (case checkpoint of
       None \<Rightarrow> Inr (d, 0, None)
     | Some c \<Rightarrow>
         (case lc_snapshot c of
            None \<Rightarrow> Inr (d, 0, None)
          | Some payload \<Rightarrow>
              rbind (is_loads_state us payload) (\<lambda>restored.
              case restored of
                None \<Rightarrow> Inl (TypeError ''iterable source snapshot must decode to a dictionary'')
              | Some q \<Rightarrow>
                  rbind (restore_source_state us view d q) (\<lambda>d.
                  case lc_snapshot_arrival c of
                    None \<Rightarrow> Inl (TypeError ''int() argument must be a number'')
                  | Some arrival \<Rightarrow> Inr (d, arrival, Some (arrival, payload))))))"

definition loader_ring :: "iterable_loader \<Rightarrow> bool \<Rightarrow> ring res" where
  "loader_ring l stateful =
    (let cadence = f_snap (il_factors l);
         step = (case cadence of None \<Rightarrow> 1 | Some c \<Rightarrow> int_of_number c)
     in rmap (\<lambda>(windows, _). new_ring stateful cadence (int_of_number (f_snap_bytes (il_factors l))) (max 2 (windows + 1)))
          (py_divmod (int_of_number (b_buf (il_factors l)) + step - 1) step))"

text \<open>The part of \<^verbatim>\<open>_build_lane\<close> before the lane exists: a fresh copy, sharded, initialised, restored, iterated.\<close>

definition prepare_source :: "('d, 'q, 'v) source_code \<Rightarrow> iterable_loader \<Rightarrow> int \<Rightarrow> int \<Rightarrow> 'd res" where
  "prepare_source us l lane_count identity =
    rbind (is_loads us (il_payload l)) (\<lambda>d.
    rbind (apply_source_shard us l identity lane_count d) (\<lambda>d.
    case (if il_num_workers l = Explicit 0 then None else is_init us) of
      None \<Rightarrow> Inr d
    | Some init \<Rightarrow> init (worker_context l lane_count identity None) identity d))"

definition open_source ::
    "('d, 'q, 'v) source_code \<Rightarrow> iterable_loader \<Rightarrow> int \<Rightarrow> int \<Rightarrow> lane_checkpoint option \<Rightarrow> ('d \<times> bool \<times> int \<times> snapshot option) res" where
  "open_source us l lane_count identity checkpoint =
    (let view = worker_context l lane_count identity None in
     rbind (prepare_source us l lane_count identity) (\<lambda>d.
     rbind (has_state_pair us d) (\<lambda>stateful.
       if (case checkpoint of None \<Rightarrow> False | Some c \<Rightarrow> lc_stateful c \<noteq> stateful)
       then Inl (ValueError ''iterable source stateful protocol changed since checkpoint'')
       else
     rbind (restore_selected us view d checkpoint) (\<lambda>(d, start, selected).
     rbind (is_iter us view d) (\<lambda>d. Inr (d, stateful, start, selected))))))"

definition build_lane ::
    "('d, 'q, 'v) source_code \<Rightarrow> int \<Rightarrow> lane_checkpoint option \<Rightarrow> 'd lane_runtime \<Rightarrow> 'd lane_runtime \<times> nat res" where
  "build_lane us identity checkpoint rt =
    (case rbind (open_source us (rt_loader rt) (rt_lane_count rt) identity checkpoint) (\<lambda>(d, stateful, start, selected).
            rmap (\<lambda>ring. (d, stateful, start, case selected of None \<Rightarrow> ring | Some s \<Rightarrow> ring_seed s ring))
              (loader_ring (rt_loader rt) stateful)) of
       Inl e \<Rightarrow> (rt, Inl e)
     | Inr (d, stateful, start, ring) \<Rightarrow>
         let ref = length (rt_store rt);
             rt = rt\<lparr>rt_store := rt_store rt @ [\<lparr>ln_identity = identity, ln_source = d, ln_arrival = start, ln_produced = 0\<rparr>],
                     rt_all_lanes := dict_set identity ref (rt_all_lanes rt),
                     rt_rings := dict_set identity ring (rt_rings rt)\<rparr>;
             rt = (if stateful \<and> ri_snapshotless ring then snapshotless_notice rt else rt);
             target = (case checkpoint of None \<Rightarrow> 0 | Some c \<Rightarrow> lc_delivered_arrival c)
         in (case replay_to us ref target rt of
               (rt, Inl e) \<Rightarrow> (rt, Inl e)
             | (rt, Inr _) \<Rightarrow>
                 (case capture_snapshot us ref True (rt\<lparr>rt_delivered := dict_set identity target (rt_delivered rt)\<rparr>) of
                    (rt, r) \<Rightarrow> (rt, rmap (\<lambda>_. ref) r))))"

fun build_each ::
    "('d, 'q, 'v) source_code \<Rightarrow> (int, lane_checkpoint) dict \<Rightarrow> int list \<Rightarrow> 'd lane_runtime \<Rightarrow> 'd lane_runtime \<times> unit res" where
  "build_each us checkpoints [] rt = (rt, Inr ())"
| "build_each us checkpoints (identity # identities) rt =
    (case build_lane us identity (dict_get checkpoints identity) rt of
       (rt, Inl e) \<Rightarrow> (rt, Inl e)
     | (rt, Inr _) \<Rightarrow> build_each us checkpoints identities rt)"

text \<open>\<^verbatim>\<open>deque(self.all_lanes[identity] for identity in order)\<close>.\<close>

definition lane_refs :: "'d lane_runtime \<Rightarrow> int list \<Rightarrow> nat list res" where
  "lane_refs rt order =
    rtraverse (\<lambda>identity. case dict_get (rt_all_lanes rt) identity of None \<Rightarrow> Inl (KeyError ''identity'') | Some ref \<Rightarrow> Inr ref) order"

definition build_lanes ::
    "('d, 'q, 'v) source_code \<Rightarrow> iterable_checkpoint option \<Rightarrow> 'd lane_runtime \<Rightarrow> 'd lane_runtime \<times> nat list res" where
  "build_lanes us resume rt =
    (let plain = (case resume of None \<Rightarrow> False | Some c \<Rightarrow> \<exists>lane \<in> set (ic_lanes c). \<not> lc_stateful lane);
         rt = (if plain then restart_notice rt else rt);
         resume = (if plain then None else resume);
         checkpoints = (case resume of None \<Rightarrow> [] | Some c \<Rightarrow> fold (\<lambda>lane. dict_set (lc_lane lane) lane) (ic_lanes c) []);
         order = (case resume of None \<Rightarrow> irange 0 (rt_lane_count rt) | Some c \<Rightarrow> ic_lane_order c)
     in (case build_each us checkpoints (irange 0 (rt_lane_count rt)) rt of
           (rt, Inl e) \<Rightarrow> (rt, Inl e)
         | (rt, Inr _) \<Rightarrow> (rt, lane_refs rt order)))"

text \<open>\<^verbatim>\<open>next_batch\<close>: a batch of one lane and, when it is not empty, the snapshot that may be due.\<close>

definition next_lane_batch :: "('d, 'q, 'v) source_code \<Rightarrow> nat \<Rightarrow> 'd lane_runtime \<Rightarrow> 'd lane_runtime \<times> ('v list \<times> bool) res" where
  "next_lane_batch us ref rt =
    (let n = (case il_batch_size (rt_loader rt) of None \<Rightarrow> 1 | Some b \<Rightarrow> if b = 0 then 1 else b) in
     case rt_advance us (nat n) ref rt of
       (rt, Inl e) \<Rightarrow> (rt, Inl e)
     | (rt, Inr (vs, exhausted)) \<Rightarrow>
         if vs = [] then (rt, Inr (vs, exhausted))
         else
           let lane = rt_store rt ! ref;
               rt = rt\<lparr>rt_store := (rt_store rt)[ref := lane\<lparr>ln_produced := ln_produced lane + 1\<rparr>]\<rparr>
           in (case capture_snapshot us ref False rt of (rt, r) \<Rightarrow> (rt, rmap (\<lambda>_. (vs, exhausted)) r)))"

text \<open>The source discards twice, to the same effect.\<close>

definition mark_lane_delivered :: "nat \<Rightarrow> 'd lane_runtime \<Rightarrow> 'd lane_runtime \<times> unit res" where
  "mark_lane_delivered ref rt =
    (let lane = rt_store rt ! ref;
         rt = rt\<lparr>rt_delivered := dict_set (ln_identity lane) (ln_arrival lane) (rt_delivered rt)\<rparr>
     in case dict_get (rt_rings rt) (ln_identity lane) of
          None \<Rightarrow> (rt, Inl (KeyError ''identity''))
        | Some ring \<Rightarrow>
            (rt\<lparr>rt_rings := dict_set (ln_identity lane)
                 (discard_before (ln_arrival lane) (discard_before (ln_arrival lane) ring)) (rt_rings rt)\<rparr>, Inr ()))"

definition capture_lane :: "'d lane_runtime \<Rightarrow> int \<Rightarrow> lane_checkpoint res" where
  "capture_lane rt identity =
    (case dict_get (rt_rings rt) identity of
       None \<Rightarrow> Inl (KeyError ''identity'')
     | Some ring \<Rightarrow>
         (case dict_get (rt_delivered rt) identity of
            None \<Rightarrow> Inl (KeyError ''identity'')
          | Some delivered \<Rightarrow>
              let selected = ring_select delivered ring
              in Inr \<lparr>lc_lane = identity, lc_delivered_arrival = delivered, lc_stateful = ri_stateful ring,
                      lc_snapshot_arrival = map_option fst selected, lc_snapshot = map_option snd selected\<rparr>))"

definition capture_lanes :: "int list \<Rightarrow> 'd lane_runtime \<Rightarrow> iterable_checkpoint res" where
  "capture_lanes order rt =
    rmap (\<lambda>lanes. \<lparr>ic_root_seed = il_root_seed (rt_loader rt), ic_epoch = rt_epoch rt,
        ic_world_size = il_world_size (rt_loader rt), ic_lane_count = rt_lane_count rt, ic_lane_order = order,
        ic_lanes = lanes, ic_fingerprint = il_fingerprint (rt_loader rt)\<rparr>)
      (rtraverse (capture_lane rt) (irange 0 (rt_lane_count rt)))"

text \<open>\<^verbatim>\<open>recover_lane\<close>: a stateful lane from its checkpoint, and every lane from its start otherwise.\<close>

definition rt_recover_lane ::
    "('d, 'q, 'v) source_code \<Rightarrow> int \<Rightarrow> int list \<Rightarrow> 'd lane_runtime \<Rightarrow> 'd lane_runtime \<times> nat list res" where
  "rt_recover_lane us identity order rt =
    (if identity \<notin> set order then (rt, Inl (ValueError ''iterable recovery lane is not active''))
     else
       (case dict_get (rt_rings rt) identity of
          None \<Rightarrow> (rt, Inl (KeyError ''identity''))
        | Some ring \<Rightarrow>
            if \<not> ri_stateful ring then
              let all = irange 0 (rt_lane_count rt);
                  rt = (restart_notice rt)\<lparr>rt_all_lanes := [], rt_rings := [], rt_delivered := map (\<lambda>lane. (lane, 0)) all\<rparr>
              in (case build_each us [] all rt of
                    (rt, Inl e) \<Rightarrow> (rt, Inl e)
                  | (rt, Inr _) \<Rightarrow> (rt, lane_refs rt all))
            else
              (case capture_lane rt identity of
                 Inl e \<Rightarrow> (rt, Inl e)
               | Inr checkpoint \<Rightarrow>
                   (case build_lane us identity (Some checkpoint) rt of
                      (rt, Inl e) \<Rightarrow> (rt, Inl e)
                    | (rt, Inr _) \<Rightarrow> (rt, lane_refs rt order)))))"

section \<open>The iterator\<close>

record 'd lane_iterator =
  it_runtime :: "'d lane_runtime"
  it_delivered :: int
  it_complete :: bool
  it_valid :: bool
  it_lanes :: "nat list"

abbreviation it_loader :: "'d lane_iterator \<Rightarrow> iterable_loader" where
  "it_loader it \<equiv> rt_loader (it_runtime it)"

definition new_lane_iterator :: "('d, 'q, 'v) source_code \<Rightarrow> iterable_loader \<Rightarrow> 'd lane_iterator res" where
  "new_lane_iterator us l =
    (case build_lanes us (il_resume l) (new_runtime l (es_current (il_epoch_state l)) (logical_lane_count l)) of
       (rt, Inl e) \<Rightarrow> Inl e
     | (rt, Inr lanes) \<Rightarrow>
         Inr \<lparr>it_runtime = rt, it_delivered = 0, it_complete = False, it_valid = True, it_lanes = lanes\<rparr>)"

definition with_epochs :: "(epoch_state \<Rightarrow> epoch_state) \<Rightarrow> 'd lane_iterator \<Rightarrow> 'd lane_iterator" where
  "with_epochs f it =
    it\<lparr>it_runtime := (it_runtime it)\<lparr>rt_loader := (it_loader it)\<lparr>il_epoch_state := f (il_epoch_state (it_loader it))\<rparr>\<rparr>\<rparr>"

definition finish_lanes :: "'d lane_iterator \<Rightarrow> 'd lane_iterator" where
  "finish_lanes it =
    (if it_complete it then it
     else (with_epochs (complete_epoch (rt_epoch (it_runtime it))) it)\<lparr>it_complete := True\<rparr>)"

text \<open>What \<^verbatim>\<open>__next__\<close> does with the values of a lane that it keeps.\<close>

definition deliver_lane ::
    "('d, 'q, 'v) source_code \<Rightarrow> nat \<Rightarrow> 'v list \<Rightarrow> 'd lane_iterator \<Rightarrow> 'd lane_iterator \<times> 'v res" where
  "deliver_lane us ref vs it =
    (let it = it\<lparr>it_delivered := it_delivered it + 1\<rparr> in
     case mark_lane_delivered ref (it_runtime it) of
       (rt, Inl e) \<Rightarrow> (it\<lparr>it_runtime := rt\<rparr>, Inl e)
     | (rt, Inr _) \<Rightarrow>
         let it = with_epochs (mark_epoch_delivered (rt_epoch rt)) (it\<lparr>it_runtime := rt\<rparr>)
         in (it, if il_batch_size (it_loader it) = None then Inr (hd vs) else is_collate us vs))"

definition dropped :: "iterable_loader \<Rightarrow> bool \<Rightarrow> nat \<Rightarrow> bool" where
  "dropped l exhausted n \<longleftrightarrow>
    exhausted \<and> (case il_batch_size l of None \<Rightarrow> False | Some b \<Rightarrow> int n < b) \<and> il_drop_last l"

partial_function (option) take_lanes ::
    "('d, 'q, 'v) source_code \<Rightarrow> 'd lane_iterator \<Rightarrow> ('d lane_iterator \<times> 'v res) option" where
  "take_lanes us it =
    (case it_lanes it of
       [] \<Rightarrow> Some (finish_lanes it, Inl StopIteration)
     | ref # rest \<Rightarrow>
         (case next_lane_batch us ref (it_runtime it) of
            (rt, r) \<Rightarrow>
              (case r of
                 Inl e \<Rightarrow> Some (it\<lparr>it_runtime := rt, it_lanes := rest\<rparr>, Inl e)
               | Inr (vs, exhausted) \<Rightarrow>
                   let it = it\<lparr>it_runtime := rt, it_lanes := if exhausted then rest else rest @ [ref]\<rparr> in
                   if vs = [] \<or> dropped (it_loader it) exhausted (length vs) then take_lanes us it
                   else Some (deliver_lane us ref vs it))))"

definition lanes_next :: "('d, 'q, 'v) source_code \<Rightarrow> 'd lane_iterator \<Rightarrow> ('d lane_iterator \<times> 'v res) option" where
  "lanes_next us it =
    (if \<not> it_valid it then Some (it, Inl (RuntimeError ''iterable lane iterator is no longer active''))
     else take_lanes us it)"

definition lane_order :: "'d lane_iterator \<Rightarrow> int list" where
  "lane_order it = map (\<lambda>ref. ln_identity (rt_store (it_runtime it) ! ref)) (it_lanes it)"

definition capture_checkpoint :: "'d lane_iterator \<Rightarrow> iterable_checkpoint res" where
  "capture_checkpoint it = capture_lanes (lane_order it) (it_runtime it)"

definition recover_lane :: "('d, 'q, 'v) source_code \<Rightarrow> int \<Rightarrow> 'd lane_iterator \<Rightarrow> 'd lane_iterator \<times> unit res" where
  "recover_lane us identity it =
    (case rt_recover_lane us identity (lane_order it) (it_runtime it) of
       (rt, Inl e) \<Rightarrow> (it\<lparr>it_runtime := rt\<rparr>, Inl e)
     | (rt, Inr lanes) \<Rightarrow> (it\<lparr>it_runtime := rt, it_lanes := lanes\<rparr>, Inr ()))"

definition invalidate_lanes :: "'d lane_iterator \<Rightarrow> 'd lane_iterator" where
  "invalidate_lanes it = it\<lparr>it_valid := False, it_lanes := []\<rparr>"

section \<open>The loader\<close>

text \<open>
  \<^verbatim>\<open>__iter__\<close> of an iterable loader: an iterator in progress is closed, the pending checkpoint is
  consumed.  The new iterator holds the loader.
\<close>

definition iterate_lanes :: "('d, 'q, 'v) source_code \<Rightarrow> iterable_loader \<Rightarrow> iterable_loader \<times> 'd lane_iterator res" where
  "iterate_lanes us l =
    (let l = l\<lparr>il_epoch_state := begin_iterable_iteration (il_epoch_state l)\<rparr> in
     case new_lane_iterator us l of
       Inl e \<Rightarrow> (l, Inl e)
     | Inr it \<Rightarrow>
         let it = it\<lparr>it_runtime := (it_runtime it)\<lparr>rt_loader := (it_loader it)\<lparr>il_resume := None\<rparr>\<rparr>\<rparr>
         in (it_loader it, Inr it))"

text \<open>\<^verbatim>\<open>capture_iterable_state\<close> with the active iterator, if it still exists.\<close>

definition capture_iterable_state ::
    "(rat \<Rightarrow> string) \<Rightarrow> iterable_loader \<Rightarrow> 'd lane_iterator option \<Rightarrow> payload res" where
  "capture_iterable_state rf l active =
    (case (active, il_resume l) of
       (None, Some resume) \<Rightarrow> iterable_to_dict rf resume
     | _ \<Rightarrow>
         if (case active of None \<Rightarrow> False | Some it \<Rightarrow> \<not> it_complete it)
         then rbind (capture_checkpoint (the active)) (iterable_to_dict rf)
         else
           let lanes = logical_lane_count l
           in iterable_to_dict rf \<lparr>ic_root_seed = il_root_seed l, ic_epoch = es_current (il_epoch_state l),
                ic_world_size = il_world_size l, ic_lane_count = lanes, ic_lane_order = irange 0 lanes, ic_lanes = [],
                ic_fingerprint = il_fingerprint l\<rparr>)"

text \<open>Closing the loader invalidates its active iterator, of which the loader's fields here know nothing.\<close>

definition restore_iterable_state :: "(rat \<Rightarrow> string) \<Rightarrow> iterable_loader \<Rightarrow> pyval \<Rightarrow> iterable_loader res" where
  "restore_iterable_state rf l payload =
    rbind (iterable_from_dict rf payload) (\<lambda>state.
    rbind (require_fingerprint_match rf (ic_fingerprint state) (il_fingerprint l)) (\<lambda>_.
      let lanes = logical_lane_count l in
      if ic_world_size state \<noteq> il_world_size l then Inl (ValueError ''iterable resume requires the same world_size'')
      else if ic_lane_count state \<noteq> lanes then Inl (ValueError ''iterable resume requires the same logical lane count'')
      else
        let l = l\<lparr>il_root_seed := ic_root_seed state\<rparr> in
        rmap (\<lambda>epochs. l\<lparr>il_epoch_state := epochs, il_resume := Some state\<rparr>)
          (restore_epoch (Integer_epoch (ic_epoch state)) (il_epoch_state l))))"

text \<open>\<^verbatim>\<open>DataLoader.set_epoch\<close> of an iterable loader.\<close>

definition iterable_set_epoch :: "epoch_value \<Rightarrow> iterable_loader \<Rightarrow> iterable_loader res" where
  "iterable_set_epoch v l = rmap (\<lambda>epochs. l\<lparr>il_epoch_state := epochs\<rparr>) (set_epoch v (il_epoch_state l))"

end
