(* ===== verification/LaneResume.thy ===== *)
theory LaneResume
  imports Lanes
begin

text \<open>
  A checkpoint of an iterable loader continues its stream: the lanes are refined to a queue of lane
  names and their arrivals, which the original iterator and the resumed one share.
\<close>

section \<open>What a stateful source promises\<close>

text \<open>
  The values of every lane by arrival, when a source of a lane has produced a number of them, and
  which pickled states describe that.
\<close>

record ('d, 'v) source_spec =
  sp_value :: "int \<Rightarrow> int \<Rightarrow> 'v option"
  sp_lives :: "int \<Rightarrow> int \<Rightarrow> 'd \<Rightarrow> bool"
  sp_saved :: "int \<Rightarrow> int \<Rightarrow> int list \<Rightarrow> bool"

abbreviation lane_view :: "iterable_loader \<Rightarrow> int \<Rightarrow> int option \<Rightarrow> worker_view" where
  "lane_view l i seed \<equiv> worker_context l (logical_lane_count l) i seed"

definition source_opens :: "('d, 'q, 'v) source_code \<Rightarrow> iterable_loader \<Rightarrow> ('d, 'v) source_spec \<Rightarrow> int \<Rightarrow> bool" where
  "source_opens us l sp i \<longleftrightarrow>
    (\<exists>d. prepare_source us l (logical_lane_count l) i = Inr d \<and> has_state_pair us d = Inr True \<and>
      (\<exists>d'. is_iter us (lane_view l i None) d = Inr d' \<and> sp_lives sp i 0 d') \<and>
      (\<forall>a b. sp_saved sp i a b \<longrightarrow> (\<exists>q d1 d2. is_loads_state us b = Inr (Some q) \<and>
         restore_source_state us (lane_view l i None) d q = Inr d1 \<and>
         is_iter us (lane_view l i None) d1 = Inr d2 \<and> sp_lives sp i a d2)))"

definition source_produces ::
    "('d, 'q, 'v) source_code \<Rightarrow> iterable_loader \<Rightarrow> int \<Rightarrow> ('d, 'v) source_spec \<Rightarrow> int \<Rightarrow> bool" where
  "source_produces us l epoch sp i \<longleftrightarrow>
    (\<forall>a d c. sp_lives sp i a d \<longrightarrow> iterable_coordinate (il_rank l) i a = Inr c \<longrightarrow>
      (let s = sample_rng_context (il_root_seed l) epoch c in
       \<exists>d'. is_next us (lane_view l i (Some (fst s))) s d = (d', Inr (sp_value sp i a)) \<and>
         sp_lives sp i (if sp_value sp i a = None then a else a + 1) d'))"

definition source_saves :: "('d, 'q, 'v) source_code \<Rightarrow> iterable_loader \<Rightarrow> ('d, 'v) source_spec \<Rightarrow> int \<Rightarrow> bool" where
  "source_saves us l sp i \<longleftrightarrow>
    (\<forall>a d. sp_lives sp i a d \<longrightarrow> (\<exists>d' q b. capture_source_state us (lane_view l i None) d = (d', Inr q) \<and>
      is_dumps us q = Inr b \<and> sp_lives sp i a d' \<and> sp_saved sp i a b))"

definition stateful_source :: "('d, 'q, 'v) source_code \<Rightarrow> iterable_loader \<Rightarrow> int \<Rightarrow> ('d, 'v) source_spec \<Rightarrow> bool" where
  "stateful_source us l epoch sp \<longleftrightarrow>
    0 \<le> il_rank l \<and> il_rank l < 2 ^ 12 \<and> logical_lane_count l \<le> 2 ^ 12 \<and>
    (\<forall>i \<in> {0..<logical_lane_count l}. source_opens us l sp i \<and> source_produces us l epoch sp i \<and> source_saves us l sp i \<and>
      (\<forall>a. sp_value sp i a \<noteq> None \<longrightarrow> a + 1 < 2 ^ 40))"

text \<open>Loaders of the same lanes and the same random streams.\<close>

definition same_lanes :: "iterable_loader \<Rightarrow> iterable_loader \<Rightarrow> bool" where
  "same_lanes l m \<longleftrightarrow> il_root_seed m = il_root_seed l \<and> il_batch_size m = il_batch_size l \<and> il_drop_last m = il_drop_last l \<and>
    il_num_workers m = il_num_workers l \<and> il_rank m = il_rank l \<and> il_world_size m = il_world_size l \<and>
    il_payload m = il_payload l \<and> il_fingerprint m = il_fingerprint l"

definition cadence_ok :: "py_number option \<Rightarrow> bool" where
  "cadence_ok cadence \<longleftrightarrow> (\<forall>c. cadence = Some c \<longrightarrow> int_of_number c \<noteq> 0)"

lemma same_lanes_refl [simp]: "same_lanes l l" by (simp add: same_lanes_def)

lemma same_lanes_trans: "same_lanes l m \<Longrightarrow> same_lanes m k \<Longrightarrow> same_lanes l k" by (simp add: same_lanes_def)

lemma same_lanes_count: "same_lanes l m \<Longrightarrow> logical_lane_count m = logical_lane_count l"
  by (simp add: same_lanes_def logical_lane_count_def)

lemma same_lanes_context: "same_lanes l m \<Longrightarrow> worker_context m = worker_context l"
  by (simp add: same_lanes_def worker_context_def fun_eq_iff)

lemma same_lanes_dropped: "same_lanes l m \<Longrightarrow> dropped m = dropped l"
  by (simp add: same_lanes_def dropped_def fun_eq_iff)

lemma same_lanes_prepare:
  assumes "same_lanes l m"
  shows "prepare_source us m = prepare_source us l"
proof -
  have "apply_source_shard us m = apply_source_shard us l"
    using assms by (simp add: same_lanes_def apply_source_shard_def fun_eq_iff split: hook.split)
  moreover have "il_payload m = il_payload l" "il_num_workers m = il_num_workers l" using assms by (simp_all add: same_lanes_def)
  ultimately show ?thesis using same_lanes_context [OF assms] by (intro ext) (simp only: prepare_source_def)
qed

lemma same_lanes_source: "same_lanes l m \<Longrightarrow> stateful_source us m epoch sp = stateful_source us l epoch sp"
  by (simp add: stateful_source_def source_opens_def source_produces_def source_saves_def same_lanes_count
      same_lanes_context same_lanes_prepare) (simp add: same_lanes_def)

section \<open>The abstract stream\<close>

definition reach :: "('d, 'v) source_spec \<Rightarrow> int \<Rightarrow> int \<Rightarrow> bool" where
  "reach sp i a \<longleftrightarrow> 0 \<le> a \<and> (\<forall>b. 0 \<le> b \<and> b < a \<longrightarrow> sp_value sp i b \<noteq> None)"

lemma reach_0 [simp]: "reach sp i 0" by (auto simp: reach_def)

lemma reach_Suc: "reach sp i a \<Longrightarrow> sp_value sp i a \<noteq> None \<Longrightarrow> reach sp i (a + 1)"
  by (auto simp: reach_def) (metis linorder_neqE_linordered_idom not_less)

fun lane_take :: "('d, 'v) source_spec \<Rightarrow> int \<Rightarrow> nat \<Rightarrow> int \<Rightarrow> 'v list \<times> bool" where
  "lane_take sp i 0 a = ([], False)"
| "lane_take sp i (Suc n) a =
    (case sp_value sp i a of
       None \<Rightarrow> ([], True)
     | Some v \<Rightarrow> (case lane_take sp i n (a + 1) of (vs, exhausted) \<Rightarrow> (v # vs, exhausted)))"

lemma lane_take_length: "lane_take sp i n a = (vs, exhausted) \<Longrightarrow> length vs \<le> n \<and> (exhausted \<longleftrightarrow> length vs < n)"
  by (induction n arbitrary: a vs) (auto split: option.splits prod.splits)

lemma lane_take_reach: "reach sp i (a + int n) \<Longrightarrow> 0 \<le> a \<Longrightarrow> \<exists>vs. lane_take sp i n a = (vs, False) \<and> length vs = n"
proof (induction n arbitrary: a)
  case (Suc n)
  then have "sp_value sp i a \<noteq> None" "reach sp i (a + 1 + int n)" by (auto simp: reach_def algebra_simps)
  with Suc.IH [of "a + 1"] Suc.prems(2) show ?case by auto
qed simp

definition lane_width :: "iterable_loader \<Rightarrow> nat" where
  "lane_width l = nat (case il_batch_size l of None \<Rightarrow> 1 | Some b \<Rightarrow> if b = 0 then 1 else b)"

text \<open>The next batch of a queue of lanes, from the arrivals of all of them.\<close>

fun spec_next ::
    "('d, 'v) source_spec \<Rightarrow> iterable_loader \<Rightarrow> int list \<Rightarrow> (int \<Rightarrow> int) \<Rightarrow> int list \<times> (int \<Rightarrow> int) \<times> 'v list option" where
  "spec_next sp l [] arr = ([], arr, None)"
| "spec_next sp l (i # order) arr =
    (case lane_take sp i (lane_width l) (arr i) of
       (vs, exhausted) \<Rightarrow>
         if vs = [] \<or> dropped l exhausted (length vs) then spec_next sp l order arr
         else (if exhausted then order else order @ [i], arr(i := arr i + int (length vs)), Some vs))"

lemma stateful_lane:
  assumes "stateful_source us l epoch sp" "i \<in> {0..<logical_lane_count l}"
  shows "source_opens us l sp i" "source_produces us l epoch sp i" "source_saves us l sp i"
    "reach sp i a \<Longrightarrow> \<exists>c. iterable_coordinate (il_rank l) i a = Inr c"
proof -
  have i: "\<forall>a. sp_value sp i a \<noteq> None \<longrightarrow> a + 1 < 2 ^ 40" using assms unfolding stateful_source_def by blast
  show "source_opens us l sp i" "source_produces us l epoch sp i" "source_saves us l sp i"
    using assms unfolding stateful_source_def by blast+
  assume a: "reach sp i a"
  have "a < 2 ^ 40"
  proof (cases "a = 0")
    case False
    with a have "sp_value sp i (a - 1) \<noteq> None" by (simp add: reach_def)
    with i have "a - 1 + 1 < 2 ^ 40" by blast
    then show ?thesis by simp
  qed simp
  with assms a show "\<exists>c. iterable_coordinate (il_rank l) i a = Inr c"
    by (simp add: iterable_coordinate_ok stateful_source_def reach_def)
qed

lemma source_step:
  assumes "source_produces us l epoch sp i" "sp_lives sp i a d" "iterable_coordinate (il_rank l) i a = Inr c"
    "s = sample_rng_context (il_root_seed l) epoch c"
  obtains d' where "is_next us (lane_view l i (Some (fst s))) s d = (d', Inr (sp_value sp i a))"
    "sp_lives sp i (if sp_value sp i a = None then a else a + 1) d'"
  using assms unfolding source_produces_def Let_def by blast

lemma advance_lane_take:
  assumes src: "stateful_source us l epoch sp" and i: "i \<in> {0..<logical_lane_count l}"
  shows "ln_identity lane = i \<Longrightarrow> sp_lives sp i (ln_arrival lane) (ln_source lane) \<Longrightarrow> reach sp i (ln_arrival lane) \<Longrightarrow>
    lane_take sp i n (ln_arrival lane) = (vs, exhausted) \<Longrightarrow>
    \<exists>d. advance_lane us l epoch (logical_lane_count l) n lane =
        (lane\<lparr>ln_source := d, ln_arrival := ln_arrival lane + int (length vs)\<rparr>, Inr (vs, exhausted)) \<and>
      sp_lives sp i (ln_arrival lane + int (length vs)) d \<and> reach sp i (ln_arrival lane + int (length vs))"
proof (induction n arbitrary: lane vs)
  case 0
  then show ?case by (auto intro!: exI [of _ "ln_source lane"])
next
  case (Suc n)
  let ?a = "ln_arrival lane"
  obtain c where c: "iterable_coordinate (il_rank l) i ?a = Inr c" using stateful_lane(4) [OF src i Suc.prems(3)] by blast
  let ?s = "sample_rng_context (il_root_seed l) epoch c"
  obtain d where d: "is_next us (lane_view l i (Some (fst ?s))) ?s (ln_source lane) = (d, Inr (sp_value sp i ?a))"
    "sp_lives sp i (if sp_value sp i ?a = None then ?a else ?a + 1) d"
    using source_step [OF stateful_lane(2) [OF src i] Suc.prems(2) c refl] by blast
  show ?case
  proof (cases "sp_value sp i ?a")
    case None
    with Suc.prems c d show ?thesis by (auto simp: Let_def)
  next
    case (Some v)
    let ?lane = "lane\<lparr>ln_source := d, ln_arrival := ?a + 1\<rparr>"
    obtain ws where ws: "lane_take sp i n (?a + 1) = (ws, exhausted)" "vs = v # ws"
      using Suc.prems(4) Some by (auto split: prod.splits)
    have "reach sp i (?a + 1)" using reach_Suc [OF Suc.prems(3)] Some by simp
    with Suc.IH [of ?lane ws] Suc.prems(1) Some d(2) ws(1) obtain e where
      e: "advance_lane us l epoch (logical_lane_count l) n ?lane =
          (?lane\<lparr>ln_source := e, ln_arrival := ?a + 1 + int (length ws)\<rparr>, Inr (ws, exhausted))"
        "sp_lives sp i (?a + 1 + int (length ws)) e" "reach sp i (?a + 1 + int (length ws))" by auto
    have "?a + 1 + int (length ws) = ?a + int (length vs)" by (simp add: ws(2))
    with e Some c d(1) Suc.prems(1) ws(2) show ?thesis by (auto simp: Let_def intro!: exI [of _ e])
  qed
qed

section \<open>Good lanes\<close>

definition source_good :: "('d, 'v) source_spec \<Rightarrow> int \<Rightarrow> int \<Rightarrow> 'd lane \<Rightarrow> bool" where
  "source_good sp i a lane \<longleftrightarrow> ln_identity lane = i \<and> ln_arrival lane = a \<and> sp_lives sp i a (ln_source lane) \<and> reach sp i a"

definition ring_good :: "('d, 'v) source_spec \<Rightarrow> int \<Rightarrow> ring \<Rightarrow> bool" where
  "ring_good sp i ring \<longleftrightarrow> ri_stateful ring \<and> cadence_ok (ri_cadence ring) \<and> (ri_cadence ring = None \<longrightarrow> ri_snapshotless ring) \<and>
    (\<forall>(a, b) \<in> set (ri_entries ring). 0 \<le> a \<and> sp_saved sp i a b)"

definition rt_frame :: "iterable_loader \<Rightarrow> int \<Rightarrow> 'd lane_runtime \<Rightarrow> bool" where
  "rt_frame l epoch rt \<longleftrightarrow> same_lanes l (rt_loader rt) \<and> cadence_ok (f_snap (il_factors (rt_loader rt))) \<and> rt_epoch rt = epoch \<and>
    rt_lane_count rt = logical_lane_count l \<and>
    (\<forall>i ref. dict_get (rt_all_lanes rt) i = Some ref \<longrightarrow> ref < length (rt_store rt) \<and> ln_identity (rt_store rt ! ref) = i)"

text \<open>A lane whose live source has produced \<open>a\<close> values, of which \<open>d\<close> were delivered.\<close>

definition lane_good :: "('d, 'v) source_spec \<Rightarrow> 'd lane_runtime \<Rightarrow> int \<Rightarrow> int \<Rightarrow> int \<Rightarrow> bool" where
  "lane_good sp rt i a d \<longleftrightarrow> reach sp i d \<and> dict_get (rt_delivered rt) i = Some d \<and>
    (\<exists>ref. dict_get (rt_all_lanes rt) i = Some ref \<and> source_good sp i a (rt_store rt ! ref)) \<and>
    (\<exists>ring. dict_get (rt_rings rt) i = Some ring \<and> ring_good sp i ring)"

text \<open>A change that concerns one lane only.\<close>

definition lane_step :: "iterable_loader \<Rightarrow> int \<Rightarrow> int \<Rightarrow> 'd lane_runtime \<Rightarrow> 'd lane_runtime \<Rightarrow> bool" where
  "lane_step l epoch i rt rt' \<longleftrightarrow> rt_frame l epoch rt' \<and>
    (\<forall>j. j \<noteq> i \<longrightarrow> dict_get (rt_all_lanes rt') j = dict_get (rt_all_lanes rt) j \<and> dict_get (rt_rings rt') j = dict_get (rt_rings rt) j \<and>
       dict_get (rt_delivered rt') j = dict_get (rt_delivered rt) j \<and>
       (\<forall>ref. dict_get (rt_all_lanes rt) j = Some ref \<longrightarrow> rt_store rt' ! ref = rt_store rt ! ref))"

lemma lane_step_trans: "lane_step l epoch i rt rt1 \<Longrightarrow> lane_step l epoch i rt1 rt2 \<Longrightarrow> lane_step l epoch i rt rt2"
  by (simp add: lane_step_def)

lemma lane_step_good: "lane_step l epoch i rt rt' \<Longrightarrow> j \<noteq> i \<Longrightarrow> lane_good sp rt j a d \<Longrightarrow> lane_good sp rt' j a d"
  by (auto simp: lane_step_def lane_good_def)

lemma lane_step_frame: "lane_step l epoch i rt rt' \<Longrightarrow> rt_frame l epoch rt'" by (simp add: lane_step_def)

lemma lane_stepI:
  assumes "rt_frame l epoch rt" "dict_get (rt_all_lanes rt) i = Some ref" "ln_identity x = i"
    and "rt_store rt' = (rt_store rt)[ref := x]" "rt_all_lanes rt' = rt_all_lanes rt"
    and "\<And>j. j \<noteq> i \<Longrightarrow> dict_get (rt_rings rt') j = dict_get (rt_rings rt) j"
    and "\<And>j. j \<noteq> i \<Longrightarrow> dict_get (rt_delivered rt') j = dict_get (rt_delivered rt) j"
    and "rt_epoch rt' = rt_epoch rt" "rt_lane_count rt' = rt_lane_count rt"
    and "same_lanes l (rt_loader rt')" "il_factors (rt_loader rt') = il_factors (rt_loader rt)"
  shows "lane_step l epoch i rt rt'"
proof -
  have refs: "r < length (rt_store rt)" "ln_identity (rt_store rt ! r) = j" if "dict_get (rt_all_lanes rt) j = Some r" for j r
    using assms(1) that by (auto simp: rt_frame_def)
  have other: "r \<noteq> ref" if "dict_get (rt_all_lanes rt) j = Some r" "j \<noteq> i" for j r
    using refs [OF that(1)] refs [OF assms(2)] that(2) by auto
  have "ln_identity (rt_store rt' ! r) = j" if "dict_get (rt_all_lanes rt) j = Some r" for j r
  proof (cases "j = i")
    case True
    with that assms(2) have "r = ref" by simp
    with True refs [OF that] assms(3,4) show ?thesis by simp
  next
    case False
    with refs [OF that] other [OF that] assms(4) show ?thesis by simp
  qed
  then have "rt_frame l epoch rt'" using assms refs by (simp add: rt_frame_def)
  moreover have "rt_store rt' ! r = rt_store rt ! r" if "dict_get (rt_all_lanes rt) j = Some r" "j \<noteq> i" for j r
    using other [OF that] by (metis assms(4) nth_list_update_neq)
  ultimately show ?thesis using assms by (simp add: lane_step_def)
qed

lemma rt_advance_good:
  assumes src: "stateful_source us l epoch sp" and i: "i \<in> {0..<logical_lane_count l}" and fr: "rt_frame l epoch rt"
    and ref: "dict_get (rt_all_lanes rt) i = Some ref" and good: "source_good sp i a (rt_store rt ! ref)"
    and take: "lane_take sp i n a = (vs, exhausted)"
  shows "\<exists>lane. rt_advance us n ref rt = (rt\<lparr>rt_store := (rt_store rt)[ref := lane]\<rparr>, Inr (vs, exhausted)) \<and>
    source_good sp i (a + int (length vs)) lane \<and> lane_step l epoch i rt (rt\<lparr>rt_store := (rt_store rt)[ref := lane]\<rparr>)"
proof -
  let ?lane = "rt_store rt ! ref"
  have same: "same_lanes l (rt_loader rt)" and e: "rt_epoch rt = epoch" "rt_lane_count rt = logical_lane_count (rt_loader rt)"
    using fr same_lanes_count [of l "rt_loader rt"] by (simp_all add: rt_frame_def)
  have src': "stateful_source us (rt_loader rt) epoch sp" "i \<in> {0..<logical_lane_count (rt_loader rt)}"
    using src i same_lanes_source [OF same, of us epoch sp] same_lanes_count [OF same] by simp_all
  have g: "ln_identity ?lane = i" "ln_arrival ?lane = a" "sp_lives sp i a (ln_source ?lane)" "reach sp i a"
    using good by (simp_all add: source_good_def)
  obtain d where d: "advance_lane us (rt_loader rt) epoch (logical_lane_count (rt_loader rt)) n ?lane =
      (?lane\<lparr>ln_source := d, ln_arrival := a + int (length vs)\<rparr>, Inr (vs, exhausted))"
    "sp_lives sp i (a + int (length vs)) d" "reach sp i (a + int (length vs))"
    using advance_lane_take [OF src' g(1), of n vs exhausted] g take by auto
  let ?new = "?lane\<lparr>ln_source := d, ln_arrival := a + int (length vs)\<rparr>"
  have "rt_advance us n ref rt = (rt\<lparr>rt_store := (rt_store rt)[ref := ?new]\<rparr>, Inr (vs, exhausted))"
    using d(1) e by (simp add: rt_advance_def)
  moreover have "source_good sp i (a + int (length vs)) ?new" using d g by (simp add: source_good_def)
  moreover have "lane_step l epoch i rt (rt\<lparr>rt_store := (rt_store rt)[ref := ?new]\<rparr>)"
    by (rule lane_stepI [OF fr ref, of ?new]) (simp_all add: g same)
  ultimately show ?thesis by blast
qed

lemma append_bounded_set: "set (append_bounded n xs x) \<subseteq> insert x (set xs)"
  by (auto simp: append_bounded_def dest: in_set_dropD)

lemma capture_snapshot_good:
  assumes src: "stateful_source us l epoch sp" and i: "i \<in> {0..<logical_lane_count l}" and fr: "rt_frame l epoch rt"
    and ref: "dict_get (rt_all_lanes rt) i = Some ref" and good: "source_good sp i a (rt_store rt ! ref)"
    and ring: "dict_get (rt_rings rt) i = Some ring" "ring_good sp i ring"
  shows "\<exists>rt'. capture_snapshot us ref force rt = (rt', Inr ()) \<and> lane_step l epoch i rt rt' \<and>
    rt_all_lanes rt' = rt_all_lanes rt \<and> rt_delivered rt' = rt_delivered rt \<and> source_good sp i a (rt_store rt' ! ref) \<and>
    (\<exists>ring. dict_get (rt_rings rt') i = Some ring \<and> ring_good sp i ring)"
proof -
  let ?lane = "rt_store rt ! ref"
  have same: "same_lanes l (rt_loader rt)" and lanes: "rt_lane_count rt = logical_lane_count l" and lt: "ref < length (rt_store rt)"
    using fr ref by (simp_all add: rt_frame_def)
  have g: "ln_identity ?lane = i" "ln_arrival ?lane = a" "sp_lives sp i a (ln_source ?lane)" "reach sp i a"
    using good by (simp_all add: source_good_def)
  have "\<exists>due. ring_due (ln_produced ?lane) force ring = Inr due"
    using ring(2) by (auto simp: ring_due_def ring_good_def cadence_ok_def split: option.split)
  then obtain due where due: "ring_due (ln_produced ?lane) force ring = Inr due" ..
  show ?thesis
  proof (cases due)
    case False
    have "lane_step l epoch i rt rt" using fr by (simp add: lane_step_def)
    with False due ring good g show ?thesis by (auto simp: capture_snapshot_def Let_def)
  next
    case True
    obtain d q b where d: "capture_source_state us (worker_context (rt_loader rt) (rt_lane_count rt) i None) (ln_source ?lane) = (d, Inr q)"
      "is_dumps us q = Inr b" "sp_lives sp i a d" "sp_saved sp i a b"
      using stateful_lane(3) [OF src i] g(3) unfolding source_saves_def same_lanes_context [OF same] lanes by blast
    let ?new = "?lane\<lparr>ln_source := d\<rparr>"
    obtain ring' kept where push: "ring_push a b ring = (ring', kept)" by fastforce
    have good': "ring_good sp i ring'"
      using ring(2) push d(4) g(4) append_bounded_set [of "ri_depth ring" "ri_entries ring" "(a, b)"]
      by (auto simp: ring_good_def ring_push_def reach_def split: if_splits)
    let ?rt = "rt\<lparr>rt_store := (rt_store rt)[ref := ?new], rt_rings := dict_set i ring' (rt_rings rt)\<rparr>"
    let ?rt' = "if kept then ?rt else snapshotless_notice ?rt"
    have "capture_snapshot us ref force rt = (?rt', Inr ())"
      using True due ring d push g(1,2) by (simp add: capture_snapshot_def Let_def)
    moreover have "same_lanes l ((rt_loader rt)\<lparr>il_snapshot_notice := True\<rparr>)" using same by (simp add: same_lanes_def)
    then have "lane_step l epoch i rt ?rt'"
      by (intro lane_stepI [OF fr ref, of ?new]) (simp_all add: g same snapshotless_notice_def)
    moreover have "source_good sp i a ?new" using d g by (simp add: source_good_def)
    ultimately show ?thesis using good' lt by (intro exI [of _ ?rt']) (simp add: snapshotless_notice_def)
  qed
qed

lemma lane_good_ref:
  assumes "lane_good sp rt i a d"
  obtains ref ring where "dict_get (rt_all_lanes rt) i = Some ref" "source_good sp i a (rt_store rt ! ref)"
    "dict_get (rt_rings rt) i = Some ring" "ring_good sp i ring" "dict_get (rt_delivered rt) i = Some d" "reach sp i d"
  using assms unfolding lane_good_def by blast

lemma next_lane_batch_good:
  assumes src: "stateful_source us l epoch sp" and i: "i \<in> {0..<logical_lane_count l}" and fr: "rt_frame l epoch rt"
    and ref: "dict_get (rt_all_lanes rt) i = Some ref" and good: "lane_good sp rt i a d"
    and take: "lane_take sp i (lane_width l) a = (vs, exhausted)"
  shows "\<exists>rt'. next_lane_batch us ref rt = (rt', Inr (vs, exhausted)) \<and> lane_step l epoch i rt rt' \<and>
    rt_all_lanes rt' = rt_all_lanes rt \<and> lane_good sp rt' i (a + int (length vs)) d"
proof -
  obtain ring where sg: "source_good sp i a (rt_store rt ! ref)" and ring: "dict_get (rt_rings rt) i = Some ring" "ring_good sp i ring"
    and d: "dict_get (rt_delivered rt) i = Some d" "reach sp i d"
    using lane_good_ref [OF good] ref by (metis option.inject)
  from rt_advance_good [OF src i fr ref sg take] obtain lane where
    adv: "rt_advance us (lane_width l) ref rt = (rt\<lparr>rt_store := (rt_store rt)[ref := lane]\<rparr>, Inr (vs, exhausted))"
      "source_good sp i (a + int (length vs)) lane" "lane_step l epoch i rt (rt\<lparr>rt_store := (rt_store rt)[ref := lane]\<rparr>)" by blast
  have lt: "ref < length (rt_store rt)" using fr ref by (simp add: rt_frame_def)
  have width: "nat (case il_batch_size (rt_loader rt) of None \<Rightarrow> 1 | Some b \<Rightarrow> if b = 0 then 1 else b) = lane_width l"
    using fr by (simp add: rt_frame_def same_lanes_def lane_width_def)
  show ?thesis
  proof (cases "vs = []")
    case True
    with adv width ref ring d lt show ?thesis by (auto simp: next_lane_batch_def Let_def lane_good_def)
  next
    case False
    let ?new = "lane\<lparr>ln_produced := ln_produced lane + 1\<rparr>"
    let ?rt = "rt\<lparr>rt_store := (rt_store rt)[ref := ?new]\<rparr>"
    have sg': "source_good sp i (a + int (length vs)) ?new" using adv(2) by (simp add: source_good_def)
    have step: "lane_step l epoch i rt ?rt"
      using fr sg' by (intro lane_stepI [OF fr ref, of ?new]) (simp_all add: source_good_def rt_frame_def)
    have "dict_get (rt_all_lanes ?rt) i = Some ref" "source_good sp i (a + int (length vs)) (rt_store ?rt ! ref)"
      "dict_get (rt_rings ?rt) i = Some ring" using ref sg' lt ring by simp_all
    from capture_snapshot_good [OF src i lane_step_frame [OF step] this ring(2), of False] obtain rt' where
      rt': "capture_snapshot us ref False ?rt = (rt', Inr ())" "lane_step l epoch i ?rt rt'" "rt_all_lanes rt' = rt_all_lanes rt"
        "rt_delivered rt' = rt_delivered rt" "source_good sp i (a + int (length vs)) (rt_store rt' ! ref)"
        "\<exists>ring. dict_get (rt_rings rt') i = Some ring \<and> ring_good sp i ring" by auto
    have "next_lane_batch us ref rt = (rt', Inr (vs, exhausted))"
      using False adv(1) width lt rt'(1) by (simp add: next_lane_batch_def Let_def)
    with rt' d ref lane_step_trans [OF step rt'(2)] show ?thesis by (auto simp: lane_good_def)
  qed
qed

lemma ring_select_entry: "ring_select delivered r = Some e \<Longrightarrow> e \<in> set (ri_entries r) \<and> fst e \<le> delivered"
proof -
  have "fold (\<lambda>entry selected. if fst entry \<le> delivered then Some entry else selected) xs acc = Some e \<Longrightarrow>
      acc = Some e \<or> e \<in> set xs \<and> fst e \<le> delivered" for xs acc
    by (induction xs arbitrary: acc) (auto split: if_splits)
  then show "ring_select delivered r = Some e \<Longrightarrow> ?thesis" by (fastforce simp: ring_select_def)
qed

lemma discard_before_good: "ring_good sp i ring \<Longrightarrow> ring_good sp i (discard_before a ring)"
proof -
  assume good: "ring_good sp i ring"
  have "set (ri_entries (discard_before a ring)) \<subseteq> set (ri_entries ring)"
    using ring_select_entry [of a ring] by (cases "ring_select a ring") (auto simp: discard_before_def)
  with good show ?thesis by (auto simp: ring_good_def discard_before_def)
qed

lemma mark_lane_good:
  assumes fr: "rt_frame l epoch rt" and ref: "dict_get (rt_all_lanes rt) i = Some ref" and good: "lane_good sp rt i a d"
  shows "\<exists>rt'. mark_lane_delivered ref rt = (rt', Inr ()) \<and> lane_step l epoch i rt rt' \<and>
    rt_all_lanes rt' = rt_all_lanes rt \<and> lane_good sp rt' i a a"
proof -
  obtain ring where sg: "source_good sp i a (rt_store rt ! ref)" and ring: "dict_get (rt_rings rt) i = Some ring" "ring_good sp i ring"
    using lane_good_ref [OF good] ref by (metis option.inject)
  have lane: "ln_identity (rt_store rt ! ref) = i" "ln_arrival (rt_store rt ! ref) = a" "reach sp i a"
    using sg by (simp_all add: source_good_def)
  let ?rt = "rt\<lparr>rt_delivered := dict_set i a (rt_delivered rt),
    rt_rings := dict_set i (discard_before a (discard_before a ring)) (rt_rings rt)\<rparr>"
  have "mark_lane_delivered ref rt = (?rt, Inr ())" using lane ring by (simp add: mark_lane_delivered_def Let_def)
  moreover have "lane_step l epoch i rt ?rt"
    using fr lane by (intro lane_stepI [OF fr ref, of "rt_store rt ! ref"]) (simp_all add: rt_frame_def)
  ultimately show ?thesis using ref sg lane(3) discard_before_good [OF discard_before_good [OF ring(2)]]
    by (auto simp: lane_good_def)
qed

section \<open>The iterator refines the abstract stream\<close>

definition iter_good ::
    "iterable_loader \<Rightarrow> int \<Rightarrow> ('d, 'v) source_spec \<Rightarrow> 'd lane_iterator \<Rightarrow> int list \<Rightarrow> (int \<Rightarrow> int) \<Rightarrow> bool" where
  "iter_good l epoch sp it order arr \<longleftrightarrow> it_valid it \<and> rt_frame l epoch (it_runtime it) \<and>
    distinct order \<and> set order \<subseteq> {0..<logical_lane_count l} \<and>
    list_all2 (\<lambda>ref i. dict_get (rt_all_lanes (it_runtime it)) i = Some ref) (it_lanes it) order \<and>
    (\<forall>i \<in> {0..<logical_lane_count l}. \<exists>a. lane_good sp (it_runtime it) i a (arr i) \<and> (i \<in> set order \<longrightarrow> a = arr i))"

lemma with_epochs_simps [simp]:
  "it_valid (with_epochs f it) = it_valid it" "it_lanes (with_epochs f it) = it_lanes it" "it_complete (with_epochs f it) = it_complete it"
  "rt_all_lanes (it_runtime (with_epochs f it)) = rt_all_lanes (it_runtime it)"
  "lane_good sp (it_runtime (with_epochs f it)) i a d = lane_good sp (it_runtime it) i a d"
  "rt_frame l epoch (it_runtime (with_epochs f it)) = rt_frame l epoch (it_runtime it)"
  by (simp_all add: with_epochs_def lane_good_def rt_frame_def same_lanes_def)

lemma iter_good_epochs [simp]: "iter_good l epoch sp (with_epochs f it) order arr = iter_good l epoch sp it order arr"
  by (simp add: iter_good_def)

lemma iter_good_fields [simp]:
  "iter_good l epoch sp (it\<lparr>it_delivered := x\<rparr>) order arr = iter_good l epoch sp it order arr"
  "iter_good l epoch sp (it\<lparr>it_complete := c\<rparr>) order arr = iter_good l epoch sp it order arr"
  by (simp_all add: iter_good_def)

definition batch_result :: "('d, 'q, 'v) source_code \<Rightarrow> iterable_loader \<Rightarrow> 'v list option \<Rightarrow> 'v res" where
  "batch_result us l out =
    (case out of None \<Rightarrow> Inl StopIteration
     | Some vs \<Rightarrow> if il_batch_size l = None then Inr (hd vs) else is_collate us vs)"

lemma lanes_after_step:
  assumes it: "iter_good l epoch sp it (i # order) arr" and step: "lane_step l epoch i (it_runtime it) rt"
    and all: "rt_all_lanes rt = rt_all_lanes (it_runtime it)" and good: "lane_good sp rt i a (arr' i)"
    and arr: "\<And>j. j \<noteq> i \<Longrightarrow> arr' j = arr j"
    and nxt: "(order' = order \<and> lanes = tl (it_lanes it)) \<or>
      (order' = order @ [i] \<and> lanes = tl (it_lanes it) @ [hd (it_lanes it)] \<and> a = arr' i)"
  shows "iter_good l epoch sp (it\<lparr>it_runtime := rt, it_lanes := lanes\<rparr>) order' arr'"
proof -
  obtain ref rest where q: "it_lanes it = ref # rest" "dict_get (rt_all_lanes (it_runtime it)) i = Some ref"
    "list_all2 (\<lambda>ref i. dict_get (rt_all_lanes (it_runtime it)) i = Some ref) rest order"
    using it by (auto simp: iter_good_def list_all2_Cons2)
  have lanes: "\<exists>a. lane_good sp rt j a (arr' j) \<and> (j \<in> set order' \<longrightarrow> a = arr' j)" if j: "j \<in> {0..<logical_lane_count l}" for j
  proof (cases "j = i")
    case True
    have "i \<notin> set order" using it by (simp add: iter_good_def)
    with good nxt True show ?thesis by auto
  next
    case False
    from it j obtain b where "lane_good sp (it_runtime it) j b (arr j)" "j \<in> set (i # order) \<longrightarrow> b = arr j"
      unfolding iter_good_def by blast
    then have "lane_good sp rt j b (arr' j)" "j \<in> set order' \<longrightarrow> b = arr' j"
      using lane_step_good [OF step False] arr [OF False] nxt False by auto
    then show ?thesis by blast
  qed
  show ?thesis
    using it q lanes nxt lane_step_frame [OF step] unfolding iter_good_def
    by (auto simp: all intro: list_all2_appendI)
qed

lemma take_lanes_good:
  assumes src: "stateful_source us l epoch sp" and width: "\<forall>b. il_batch_size l = Some b \<longrightarrow> 0 < b"
  shows "iter_good l epoch sp it order arr \<Longrightarrow> spec_next sp l order arr = (order', arr', out) \<Longrightarrow>
    \<exists>it'. take_lanes us it = Some (it', batch_result us l out) \<and> iter_good l epoch sp it' order' arr' \<and>
      (it_complete it' \<longleftrightarrow> it_complete it \<or> out = None)"
proof (induction order arbitrary: it arr)
  case Nil
  then have "it_lanes it = []" by (simp add: iter_good_def)
  then have "take_lanes us it = Some (finish_lanes it, Inl StopIteration)" by (subst take_lanes.simps) simp
  moreover have "iter_good l epoch sp (finish_lanes it) [] arr" "it_complete (finish_lanes it)"
    using Nil by (simp_all add: finish_lanes_def)
  ultimately show ?case using Nil by (auto simp: batch_result_def)
next
  case (Cons i order)
  let ?n = "lane_width l"
  obtain ref rest where q: "it_lanes it = ref # rest" "dict_get (rt_all_lanes (it_runtime it)) i = Some ref"
    using Cons.prems(1) by (auto simp: iter_good_def list_all2_Cons2)
  have i: "i \<in> {0..<logical_lane_count l}" and fr: "rt_frame l epoch (it_runtime it)"
    and good: "lane_good sp (it_runtime it) i (arr i) (arr i)"
    using Cons.prems(1) by (fastforce simp: iter_good_def)+
  obtain vs exhausted where take: "lane_take sp i ?n (arr i) = (vs, exhausted)" by fastforce
  let ?a = "arr i + int (length vs)"
  from next_lane_batch_good [OF src i fr q(2) good take] obtain rt where
    rt: "next_lane_batch us ref (it_runtime it) = (rt, Inr (vs, exhausted))" "lane_step l epoch i (it_runtime it) rt"
      "rt_all_lanes rt = rt_all_lanes (it_runtime it)" "lane_good sp rt i ?a (arr i)" by blast
  have loader: "same_lanes l (rt_loader rt)" using lane_step_frame [OF rt(2)] by (simp add: rt_frame_def)
  let ?lanes = "if exhausted then rest else rest @ [ref]"
  let ?it = "it\<lparr>it_runtime := rt, it_lanes := ?lanes\<rparr>"
  have unfold: "take_lanes us it =
      (if vs = [] \<or> dropped l exhausted (length vs) then take_lanes us ?it else Some (deliver_lane us ref vs ?it))"
    by (subst take_lanes.simps) (simp add: q rt same_lanes_dropped [OF loader])
  show ?case
  proof (cases "vs = [] \<or> dropped l exhausted (length vs)")
    case True
    have pos: "0 < ?n" using width by (auto simp: lane_width_def split: option.split)
    have ex: exhausted
      using True lane_take_length [OF take] pos by (auto simp: dropped_def)
    have "iter_good l epoch sp ?it order arr"
      by (rule lanes_after_step [where arr' = arr, OF Cons.prems(1) rt(2-4)]) (simp_all add: ex q)
    moreover have "spec_next sp l order arr = (order', arr', out)" using Cons.prems(2) take True by simp
    ultimately obtain it' where "take_lanes us ?it = Some (it', batch_result us l out)" "iter_good l epoch sp it' order' arr'"
      "it_complete it' \<longleftrightarrow> it_complete ?it \<or> out = None" using Cons.IH by blast
    with unfold True show ?thesis by auto
  next
    case False
    have spec: "order' = (if exhausted then order else order @ [i])" "arr' = arr(i := ?a)" "out = Some vs"
      using Cons.prems(2) take False by auto
    have ref': "dict_get (rt_all_lanes rt) i = Some ref" using q rt by simp
    from mark_lane_good [OF lane_step_frame [OF rt(2)] ref' rt(4)] obtain rt' where
      rt': "mark_lane_delivered ref rt = (rt', Inr ())" "lane_step l epoch i rt rt'" "rt_all_lanes rt' = rt_all_lanes rt"
        "lane_good sp rt' i ?a ?a" by blast
    have good': "iter_good l epoch sp (it\<lparr>it_runtime := rt', it_lanes := ?lanes\<rparr>) order' arr'"
      by (rule lanes_after_step [OF Cons.prems(1) lane_step_trans [OF rt(2) rt'(2)], where a = ?a])
        (auto simp: rt' rt spec q)
    have loader': "same_lanes l (rt_loader rt')" using lane_step_frame [OF rt'(2)] by (simp add: rt_frame_def)
    let ?it' = "with_epochs (mark_epoch_delivered (rt_epoch rt')) (it\<lparr>it_runtime := rt', it_lanes := ?lanes, it_delivered := it_delivered it + 1\<rparr>)"
    have "deliver_lane us ref vs ?it = (?it', batch_result us l out)"
      using loader' by (simp add: deliver_lane_def Let_def rt' spec batch_result_def with_epochs_def same_lanes_def)
    moreover have "iter_good l epoch sp ?it' order' arr'"
      using good' by (simp add: iter_good_def)
    ultimately show ?thesis using unfold False spec(3) by simp
  qed
qed

section \<open>Building lanes\<close>

definition checkpoint_good :: "('d, 'v) source_spec \<Rightarrow> int \<Rightarrow> lane_checkpoint option \<Rightarrow> int \<Rightarrow> bool" where
  "checkpoint_good sp i checkpoint d \<longleftrightarrow>
    (case checkpoint of
       None \<Rightarrow> d = 0
     | Some c \<Rightarrow> lc_stateful c \<and> lc_delivered_arrival c = d \<and> reach sp i d \<and>
         (case lc_snapshot c of
            None \<Rightarrow> lc_snapshot_arrival c = None
          | Some b \<Rightarrow> \<exists>a. lc_snapshot_arrival c = Some a \<and> 0 \<le> a \<and> a \<le> d \<and> sp_saved sp i a b))"

lemma reach_mono: "reach sp i d \<Longrightarrow> 0 \<le> a \<Longrightarrow> a \<le> d \<Longrightarrow> reach sp i a"
  by (auto simp: reach_def)

lemma open_source_good:
  assumes src: "stateful_source us l epoch sp" and i: "i \<in> {0..<logical_lane_count l}" and same: "same_lanes l m"
    and c: "checkpoint_good sp i checkpoint d"
  shows "\<exists>x start selected. open_source us m (logical_lane_count l) i checkpoint = Inr (x, True, start, selected) \<and>
    sp_lives sp i start x \<and> 0 \<le> start \<and> start \<le> d \<and> (\<forall>a b. selected = Some (a, b) \<longrightarrow> 0 \<le> a \<and> sp_saved sp i a b)"
proof -
  let ?view = "lane_view l i None"
  have m: "prepare_source us m = prepare_source us l" "worker_context m = worker_context l"
    using same_lanes_prepare [OF same] same_lanes_context [OF same] by simp_all
  obtain x y where x: "prepare_source us l (logical_lane_count l) i = Inr x" "has_state_pair us x = Inr True"
    "is_iter us ?view x = Inr y" "sp_lives sp i 0 y"
    and saved: "\<forall>a b. sp_saved sp i a b \<longrightarrow> (\<exists>q d1 d2. is_loads_state us b = Inr (Some q) \<and>
      restore_source_state us ?view x q = Inr d1 \<and> is_iter us ?view d1 = Inr d2 \<and> sp_lives sp i a d2)"
    using stateful_lane(1) [OF src i] unfolding source_opens_def by blast
  have d: "0 \<le> d" using c by (auto simp: checkpoint_good_def reach_def split: option.splits)
  show ?thesis
  proof (cases "\<exists>cp b. checkpoint = Some cp \<and> lc_snapshot cp = Some b")
    case True
    then obtain cp b where cp: "checkpoint = Some cp" "lc_snapshot cp = Some b" by blast
    with c obtain a where a: "lc_stateful cp" "lc_snapshot_arrival cp = Some a" "0 \<le> a" "a \<le> d" "sp_saved sp i a b"
      by (auto simp: checkpoint_good_def)
    from saved a(5) obtain q d1 d2 where "is_loads_state us b = Inr (Some q)" "restore_source_state us ?view x q = Inr d1"
      "is_iter us ?view d1 = Inr d2" "sp_lives sp i a d2" by blast
    with x cp a show ?thesis by (simp add: open_source_def Let_def m restore_selected_def)
  next
    case False
    with c have "restore_selected us ?view x checkpoint = Inr (x, 0, None)" "\<forall>cp. checkpoint = Some cp \<longrightarrow> lc_stateful cp"
      by (auto simp: restore_selected_def checkpoint_good_def split: option.splits)
    with x d show ?thesis by (auto simp: open_source_def Let_def m split: option.split)
  qed
qed

lemma loader_ring_good:
  assumes "cadence_ok (f_snap (il_factors m))"
  obtains ring where "loader_ring m True = Inr ring" "ring_good sp i ring"
proof -
  let ?step = "case f_snap (il_factors m) of None \<Rightarrow> 1 | Some c \<Rightarrow> int_of_number c"
  have "?step \<noteq> 0" using assms by (auto simp: cadence_ok_def split: option.split)
  then show ?thesis using assms that
    by (auto simp: loader_ring_def Let_def new_ring_def ring_good_def)
qed

lemma ring_seed_good: "ring_good sp i ring \<Longrightarrow> 0 \<le> a \<Longrightarrow> sp_saved sp i a b \<Longrightarrow> ring_good sp i (ring_seed (a, b) ring)"
  using append_bounded_set [of "ri_depth ring" "ri_entries ring" "(a, b)"]
  by (auto simp: ring_good_def ring_seed_def)

lemma rt_replay_good:
  assumes src: "stateful_source us l epoch sp" and i: "i \<in> {0..<logical_lane_count l}" and fr: "rt_frame l epoch rt"
    and ref: "dict_get (rt_all_lanes rt) i = Some ref" and good: "source_good sp i a (rt_store rt ! ref)"
    and d: "a \<le> d" "reach sp i d"
  shows "\<exists>rt'. replay_to us ref d rt = (rt', Inr ()) \<and> lane_step l epoch i rt rt' \<and> rt_all_lanes rt' = rt_all_lanes rt \<and>
    rt_rings rt' = rt_rings rt \<and> rt_delivered rt' = rt_delivered rt \<and> source_good sp i d (rt_store rt' ! ref)"
proof (cases "a = d")
  case True
  have "lane_step l epoch i rt rt" using fr by (simp add: lane_step_def)
  with True good show ?thesis by (auto simp: replay_to_def source_good_def)
next
  case False
  have a: "ln_arrival (rt_store rt ! ref) = a" "0 \<le> a" using good by (simp_all add: source_good_def reach_def)
  obtain vs where vs: "lane_take sp i (nat (d - a)) a = (vs, False)" "int (length vs) = d - a"
    using lane_take_reach [of sp i a "nat (d - a)"] d a False by auto
  from rt_advance_good [OF src i fr ref good vs(1)] obtain lane where
    adv: "rt_advance us (nat (d - a)) ref rt = (rt\<lparr>rt_store := (rt_store rt)[ref := lane]\<rparr>, Inr (vs, False))"
      "source_good sp i d lane" "lane_step l epoch i rt (rt\<lparr>rt_store := (rt_store rt)[ref := lane]\<rparr>)" using vs(2) by auto
  have "ref < length (rt_store rt)" using fr ref by (simp add: rt_frame_def)
  with adv vs(2) a d False show ?thesis by (simp add: replay_to_def)
qed

lemma build_lane_good:
  assumes src: "stateful_source us l epoch sp" and i: "i \<in> {0..<logical_lane_count l}" and fr: "rt_frame l epoch rt"
    and c: "checkpoint_good sp i checkpoint d"
  shows "\<exists>rt' ref. build_lane us i checkpoint rt = (rt', Inr ref) \<and> lane_step l epoch i rt rt' \<and> lane_good sp rt' i d d"
proof -
  have same: "same_lanes l (rt_loader rt)" and n: "rt_lane_count rt = logical_lane_count l"
    and cad: "cadence_ok (f_snap (il_factors (rt_loader rt)))" using fr by (simp_all add: rt_frame_def)
  have d: "reach sp i d" using c by (auto simp: checkpoint_good_def split: option.splits)
  from open_source_good [OF src i same c] obtain x start selected where
    x: "open_source us (rt_loader rt) (logical_lane_count l) i checkpoint = Inr (x, True, start, selected)"
      "sp_lives sp i start x" "0 \<le> start" "start \<le> d" "\<forall>a b. selected = Some (a, b) \<longrightarrow> 0 \<le> a \<and> sp_saved sp i a b" by blast
  from loader_ring_good [OF cad] obtain fresh where fresh: "loader_ring (rt_loader rt) True = Inr fresh" "ring_good sp i fresh" .
  let ?ring = "case selected of None \<Rightarrow> fresh | Some s \<Rightarrow> ring_seed s fresh"
  have ring: "ring_good sp i ?ring"
    using fresh(2) x(5) by (auto split: option.split intro!: ring_seed_good)
  let ?ref = "length (rt_store rt)"
  let ?lane = "\<lparr>ln_identity = i, ln_source = x, ln_arrival = start, ln_produced = 0\<rparr>"
  let ?rt0 = "rt\<lparr>rt_store := rt_store rt @ [?lane], rt_all_lanes := dict_set i ?ref (rt_all_lanes rt),
    rt_rings := dict_set i ?ring (rt_rings rt)\<rparr>"
  define rt1 where "rt1 = (if ri_snapshotless ?ring then snapshotless_notice ?rt0 else ?rt0)"
  have sel: "rt_store rt1 = rt_store rt @ [?lane]" "rt_all_lanes rt1 = dict_set i ?ref (rt_all_lanes rt)"
    "rt_rings rt1 = dict_set i ?ring (rt_rings rt)" "rt_delivered rt1 = rt_delivered rt" "rt_epoch rt1 = rt_epoch rt"
    "rt_lane_count rt1 = rt_lane_count rt" "same_lanes l (rt_loader rt1)" "il_factors (rt_loader rt1) = il_factors (rt_loader rt)"
    using same by (simp_all add: rt1_def snapshotless_notice_def same_lanes_def)
  have refs: "r < ?ref" "ln_identity (rt_store rt ! r) = j" if "dict_get (rt_all_lanes rt) j = Some r" for j r
    using fr that by (simp_all add: rt_frame_def)
  have fr1: "rt_frame l epoch rt1"
    using fr refs cad by (auto simp: rt_frame_def sel nth_append intro: less_SucI)
  have step1: "lane_step l epoch i rt rt1"
    using fr1 refs by (simp add: lane_step_def sel nth_append)
  have ref: "dict_get (rt_all_lanes rt1) i = Some ?ref" by (simp add: sel)
  have "source_good sp i start (rt_store rt1 ! ?ref)"
    using x reach_mono [OF d] by (simp add: sel source_good_def)
  from rt_replay_good [OF src i fr1 ref this x(4) d] obtain rt2 where
    rt2: "replay_to us ?ref d rt1 = (rt2, Inr ())" "lane_step l epoch i rt1 rt2" "rt_all_lanes rt2 = rt_all_lanes rt1"
      "rt_rings rt2 = rt_rings rt1" "source_good sp i d (rt_store rt2 ! ?ref)" by blast
  let ?rt3 = "rt2\<lparr>rt_delivered := dict_set i d (rt_delivered rt2)\<rparr>"
  have step3: "lane_step l epoch i rt2 ?rt3"
    using lane_step_frame [OF rt2(2)] by (simp add: lane_step_def rt_frame_def)
  have "dict_get (rt_all_lanes ?rt3) i = Some ?ref" "source_good sp i d (rt_store ?rt3 ! ?ref)" "dict_get (rt_rings ?rt3) i = Some ?ring"
    using ref rt2 by (simp_all add: sel)
  from capture_snapshot_good [OF src i lane_step_frame [OF step3] this ring, of True] obtain rt4 where
    rt4: "capture_snapshot us ?ref True ?rt3 = (rt4, Inr ())" "lane_step l epoch i ?rt3 rt4" "rt_all_lanes rt4 = rt_all_lanes rt1"
      "rt_delivered rt4 = dict_set i d (rt_delivered rt2)" "source_good sp i d (rt_store rt4 ! ?ref)"
      "\<exists>ring. dict_get (rt_rings rt4) i = Some ring \<and> ring_good sp i ring" using rt2(3) by auto
  have target: "(case checkpoint of None \<Rightarrow> 0 | Some c \<Rightarrow> lc_delivered_arrival c) = d"
    using c by (auto simp: checkpoint_good_def split: option.splits)
  have "build_lane us i checkpoint rt = (rt4, Inr ?ref)"
    unfolding build_lane_def n x(1) using fresh rt2(1) rt4(1) target rt1_def by (simp add: Let_def)
  moreover have "lane_step l epoch i rt rt4"
    using lane_step_trans [OF lane_step_trans [OF step1 rt2(2)] lane_step_trans [OF step3 rt4(2)]] .
  moreover have "lane_good sp rt4 i d d" using d rt4(3-6) ref by (auto simp: lane_good_def)
  ultimately show ?thesis by blast
qed

lemma build_each_good:
  assumes src: "stateful_source us l epoch sp"
  shows "rt_frame l epoch rt \<Longrightarrow> distinct is \<Longrightarrow> set is \<subseteq> {0..<logical_lane_count l} \<Longrightarrow>
    (\<And>i. i \<in> set is \<Longrightarrow> checkpoint_good sp i (dict_get cps i) (arr i)) \<Longrightarrow>
    \<exists>rt'. build_each us cps is rt = (rt', Inr ()) \<and> rt_frame l epoch rt' \<and>
      (\<forall>i \<in> set is. lane_good sp rt' i (arr i) (arr i)) \<and>
      (\<forall>j a d. j \<notin> set is \<longrightarrow> lane_good sp rt j a d \<longrightarrow> lane_good sp rt' j a d)"
proof (induction "is" arbitrary: rt)
  case Nil
  then show ?case by simp
next
  case (Cons i "is")
  then have i: "i \<in> {0..<logical_lane_count l}" and c: "checkpoint_good sp i (dict_get cps i) (arr i)" by simp_all
  from build_lane_good [OF src i Cons.prems(1) c] obtain rt1 ref where
    one: "build_lane us i (dict_get cps i) rt = (rt1, Inr ref)" "lane_step l epoch i rt rt1" "lane_good sp rt1 i (arr i) (arr i)" by blast
  from Cons.IH [OF lane_step_frame [OF one(2)]] Cons.prems obtain rt' where
    rest: "build_each us cps is rt1 = (rt', Inr ())" "rt_frame l epoch rt'" "\<forall>i \<in> set is. lane_good sp rt' i (arr i) (arr i)"
      "\<forall>j a d. j \<notin> set is \<longrightarrow> lane_good sp rt1 j a d \<longrightarrow> lane_good sp rt' j a d" by auto
  have "lane_good sp rt' i (arr i) (arr i)" using rest(4) one(3) Cons.prems(2) by simp
  moreover have "lane_good sp rt' j a d" if "j \<notin> set (i # is)" "lane_good sp rt j a d" for j a d
    using rest(4) that lane_step_good [OF one(2) _ that(2)] by simp
  ultimately show ?case using one(1) rest by auto
qed

lemma lane_refs_good:
  "\<forall>i \<in> set order. lane_good sp rt i (arr i) (arr i) \<Longrightarrow>
    \<exists>refs. lane_refs rt order = Inr refs \<and> list_all2 (\<lambda>ref i. dict_get (rt_all_lanes rt) i = Some ref) refs order"
  unfolding lane_refs_def
proof (induction order)
  case (Cons i order)
  then obtain refs where refs: "rtraverse (\<lambda>i. case dict_get (rt_all_lanes rt) i of None \<Rightarrow> Inl (KeyError ''identity'') | Some ref \<Rightarrow> Inr ref) order = Inr refs"
    "list_all2 (\<lambda>ref i. dict_get (rt_all_lanes rt) i = Some ref) refs order" by auto
  from Cons.prems obtain ref where "dict_get (rt_all_lanes rt) i = Some ref" by (auto simp: lane_good_def)
  with refs show ?case by simp
qed simp

text \<open>What a checkpoint says of its lanes.\<close>

definition resume_good ::
    "iterable_loader \<Rightarrow> ('d, 'v) source_spec \<Rightarrow> iterable_checkpoint option \<Rightarrow> int list \<Rightarrow> (int \<Rightarrow> int) \<Rightarrow> bool" where
  "resume_good l sp resume order arr \<longleftrightarrow> distinct order \<and> set order \<subseteq> {0..<logical_lane_count l} \<and>
    (case resume of
       None \<Rightarrow> order = irange 0 (logical_lane_count l) \<and> (\<forall>i. arr i = 0)
     | Some c \<Rightarrow> ic_lane_order c = order \<and> map lc_lane (ic_lanes c) = irange 0 (logical_lane_count l) \<and>
         (\<forall>lane \<in> set (ic_lanes c). checkpoint_good sp (lc_lane lane) (Some lane) (arr (lc_lane lane))))"

lemma checkpoints_by_lane:
  "distinct (map lc_lane cs) \<Longrightarrow> c \<in> set cs \<Longrightarrow>
    dict_get (fold (\<lambda>lane. dict_set (lc_lane lane) lane) cs d) (lc_lane c) = Some c"
proof (induction cs rule: rev_induct)
  case (snoc x cs)
  then show ?case by (auto simp: image_iff)
qed simp

lemma new_runtime_count [simp]: "rt_lane_count (new_runtime l epoch n) = n"
  by (simp add: new_runtime_def)

lemma new_lane_iterator_good:
  assumes src: "stateful_source us l epoch sp" and same: "same_lanes l m" and cad: "cadence_ok (f_snap (il_factors m))"
    and epoch: "epoch = es_current (il_epoch_state m)" and resume: "resume_good l sp (il_resume m) order arr"
  shows "\<exists>it. new_lane_iterator us m = Inr it \<and> iter_good l epoch sp it order arr \<and> \<not> it_complete it"
proof -
  let ?n = "logical_lane_count l"
  let ?cps = "case il_resume m of None \<Rightarrow> [] | Some c \<Rightarrow> fold (\<lambda>lane. dict_set (lc_lane lane) lane) (ic_lanes c) []"
  let ?rt = "new_runtime m epoch ?n"
  have n: "logical_lane_count m = ?n" by (rule same_lanes_count [OF same])
  have stateful: "\<not> (case il_resume m of None \<Rightarrow> False | Some c \<Rightarrow> \<exists>lane \<in> set (ic_lanes c). \<not> lc_stateful lane)"
    using resume by (auto simp: resume_good_def checkpoint_good_def split: option.splits)
  have cps: "checkpoint_good sp i (dict_get ?cps i) (arr i)" if i: "i \<in> {0..<?n}" for i
  proof (cases "il_resume m")
    case None
    with resume show ?thesis by (simp add: resume_good_def checkpoint_good_def)
  next
    case (Some c)
    with resume have lanes: "map lc_lane (ic_lanes c) = irange 0 ?n"
      "\<forall>lane \<in> set (ic_lanes c). checkpoint_good sp (lc_lane lane) (Some lane) (arr (lc_lane lane))" by (simp_all add: resume_good_def)
    have "i \<in> set (map lc_lane (ic_lanes c))" using i by (simp add: lanes(1))
    then obtain lane where lane: "lane \<in> set (ic_lanes c)" "lc_lane lane = i" by auto
    have "distinct (map lc_lane (ic_lanes c))" by (simp add: lanes(1))
    from checkpoints_by_lane [OF this lane(1), of "[]"] lane lanes(2) Some show ?thesis by auto
  qed
  have fr: "rt_frame l epoch ?rt" using same cad by (simp add: rt_frame_def new_runtime_def)
  from build_each_good [OF src fr, of "irange 0 ?n" ?cps arr] cps obtain rt where
    rt: "build_each us ?cps (irange 0 ?n) ?rt = (rt, Inr ())" "rt_frame l epoch rt" "\<forall>i \<in> {0..<?n}. lane_good sp rt i (arr i) (arr i)" by auto
  have order: "distinct order" "set order \<subseteq> {0..<?n}"
    "(case il_resume m of None \<Rightarrow> irange 0 ?n | Some c \<Rightarrow> ic_lane_order c) = order"
    using resume by (auto simp: resume_good_def split: option.splits)
  have "\<forall>i \<in> set order. lane_good sp rt i (arr i) (arr i)" using rt(3) order(2) by blast
  from lane_refs_good [OF this] obtain refs where refs: "lane_refs rt order = Inr refs"
    "list_all2 (\<lambda>ref i. dict_get (rt_all_lanes rt) i = Some ref) refs order" by blast
  have "build_lanes us (il_resume m) ?rt = (rt, Inr refs)"
    using stateful rt(1) order(3) refs(1) by (cases "il_resume m") (simp_all add: build_lanes_def Let_def)
  then have "new_lane_iterator us m =
      Inr \<lparr>it_runtime = rt, it_delivered = 0, it_complete = False, it_valid = True, it_lanes = refs\<rparr>"
    by (simp add: new_lane_iterator_def n epoch)
  then show ?thesis using rt(2,3) order refs by (auto simp: iter_good_def)
qed

section \<open>Runs, checkpoints and resumption\<close>

text \<open>Successive calls of \<^verbatim>\<open>__next__\<close>, whatever they raise.\<close>

primrec lanes_run :: "('d, 'q, 'v) source_code \<Rightarrow> nat \<Rightarrow> 'd lane_iterator \<Rightarrow> ('d lane_iterator \<times> 'v res list) option" where
  "lanes_run us 0 it = Some (it, [])"
| "lanes_run us (Suc n) it =
    (case lanes_next us it of
       None \<Rightarrow> None
     | Some (it, r) \<Rightarrow> map_option (\<lambda>(it, rs). (it, r # rs)) (lanes_run us n it))"

primrec spec_run ::
    "('d, 'v) source_spec \<Rightarrow> iterable_loader \<Rightarrow> nat \<Rightarrow> int list \<Rightarrow> (int \<Rightarrow> int) \<Rightarrow> int list \<times> (int \<Rightarrow> int) \<times> 'v list option list" where
  "spec_run sp l 0 order arr = (order, arr, [])"
| "spec_run sp l (Suc n) order arr =
    (case spec_next sp l order arr of (order, arr, out) \<Rightarrow>
      (case spec_run sp l n order arr of (order, arr, outs) \<Rightarrow> (order, arr, out # outs)))"

lemma lanes_run_good:
  assumes src: "stateful_source us l epoch sp" and width: "\<forall>b. il_batch_size l = Some b \<longrightarrow> 0 < b"
  shows "iter_good l epoch sp it order arr \<Longrightarrow> spec_run sp l n order arr = (order', arr', outs) \<Longrightarrow>
    \<exists>it'. lanes_run us n it = Some (it', map (batch_result us l) outs) \<and> iter_good l epoch sp it' order' arr'"
proof (induction n arbitrary: it order arr outs)
  case (Suc n)
  obtain order1 arr1 out where one: "spec_next sp l order arr = (order1, arr1, out)" by (metis prod_cases3)
  obtain outs1 where rest: "spec_run sp l n order1 arr1 = (order', arr', outs1)" "outs = out # outs1"
    using Suc.prems(2) one by (auto split: prod.splits)
  from take_lanes_good [OF src width Suc.prems(1) one] obtain it1 where
    it1: "take_lanes us it = Some (it1, batch_result us l out)" "iter_good l epoch sp it1 order1 arr1" by blast
  have "lanes_next us it = Some (it1, batch_result us l out)"
    using it1(1) Suc.prems(1) by (simp add: lanes_next_def iter_good_def)
  with Suc.IH [OF it1(2) rest(1)] rest(2) show ?case by auto
qed simp

lemma lanes_run_same:
  assumes "stateful_source us l epoch sp" "\<forall>b. il_batch_size l = Some b \<longrightarrow> 0 < b"
    and "iter_good l epoch sp it order arr" "iter_good l epoch sp it' order arr"
  shows "\<exists>out. map_option snd (lanes_run us n it) = Some out \<and> map_option snd (lanes_run us n it') = Some out"
proof -
  obtain order' arr' outs where "spec_run sp l n order arr = (order', arr', outs)" by (metis prod_cases3)
  from lanes_run_good [OF assms(1-3) this] lanes_run_good [OF assms(1,2,4) this] show ?thesis by auto
qed

lemma capture_lane_good:
  assumes "lane_good sp rt i a d"
  shows "\<exists>c. capture_lane rt i = Inr c \<and> lc_lane c = i \<and> checkpoint_good sp i (Some c) d"
proof -
  obtain ring where ring: "dict_get (rt_rings rt) i = Some ring" "ring_good sp i ring" and d: "dict_get (rt_delivered rt) i = Some d"
    "reach sp i d" using lane_good_ref [OF assms] by metis

  have sel: "\<forall>a b. ring_select d ring = Some (a, b) \<longrightarrow> 0 \<le> a \<and> a \<le> d \<and> sp_saved sp i a b"
    using ring_select_entry [of d ring] ring(2) by (fastforce simp: ring_good_def)
  show ?thesis
  proof (cases "ring_select d ring")
    case None
    with ring d show ?thesis by (simp add: capture_lane_def checkpoint_good_def ring_good_def)
  next
    case (Some e)
    with ring d sel show ?thesis by (cases e) (simp add: capture_lane_def checkpoint_good_def ring_good_def)
  qed
qed

lemma capture_lanes_good:
  assumes good: "\<forall>i \<in> {0..<n}. \<exists>a. lane_good sp rt i a (arr i)"
  shows "\<exists>cs. rtraverse (capture_lane rt) (irange 0 n) = Inr cs \<and> map lc_lane cs = irange 0 n \<and>
    (\<forall>c \<in> set cs. checkpoint_good sp (lc_lane c) (Some c) (arr (lc_lane c)))"
proof -
  have "\<exists>cs. rtraverse (capture_lane rt) is = Inr cs \<and> map lc_lane cs = is \<and>
      (\<forall>c \<in> set cs. checkpoint_good sp (lc_lane c) (Some c) (arr (lc_lane c)))" if "set is \<subseteq> {0..<n}" for "is"
    using that
  proof (induction "is")
    case (Cons i "is")
    then have "i \<in> {0..<n}" by simp
    with good obtain a where "lane_good sp rt i a (arr i)" by blast
    from capture_lane_good [OF this] Cons show ?case by fastforce
  qed simp
  then show ?thesis by simp
qed

lemma lane_order_good:
  assumes it: "iter_good l epoch sp it order arr"
  shows "lane_order it = order"
proof -
  have "list_all2 (\<lambda>ref i. dict_get (rt_all_lanes (it_runtime it)) i = Some ref) (it_lanes it) order" "rt_frame l epoch (it_runtime it)"
    using it by (simp_all add: iter_good_def)
  then show ?thesis unfolding lane_order_def rt_frame_def by (induction rule: list_all2_induct) auto
qed

lemma capture_checkpoint_good:
  assumes it: "iter_good l epoch sp it order arr"
  shows "\<exists>c. capture_checkpoint it = Inr c \<and> resume_good l sp (Some c) order arr \<and> ic_root_seed c = il_root_seed l \<and>
    ic_epoch c = epoch \<and> ic_world_size c = il_world_size l \<and> ic_lane_count c = logical_lane_count l \<and>
    ic_fingerprint c = il_fingerprint l"
proof -
  let ?rt = "it_runtime it"
  have fr: "rt_frame l epoch ?rt" using it by (simp add: iter_good_def)
  note order = lane_order_good [OF it]
  have "\<forall>i \<in> {0..<logical_lane_count l}. \<exists>a. lane_good sp ?rt i a (arr i)" using it unfolding iter_good_def by blast
  from capture_lanes_good [OF this] obtain cs where cs: "rtraverse (capture_lane ?rt) (irange 0 (logical_lane_count l)) = Inr cs"
    "map lc_lane cs = irange 0 (logical_lane_count l)" "\<forall>c \<in> set cs. checkpoint_good sp (lc_lane c) (Some c) (arr (lc_lane c))" by blast
  with fr order it show ?thesis
    by (simp add: capture_checkpoint_def capture_lanes_def rt_frame_def same_lanes_def resume_good_def iter_good_def)
qed

lemma checkpoint_good_valid: "checkpoint_good sp i (Some c) d \<Longrightarrow> 0 \<le> lc_lane c \<Longrightarrow> lane_valid c"
  by (auto simp: checkpoint_good_def lane_valid_def reach_def split: option.splits)

lemma resume_good_valid:
  assumes "resume_good l sp (Some c) order arr" "0 \<le> ic_root_seed c" "ic_root_seed c \<le> MAX_U64" "0 \<le> ic_epoch c"
    "0 \<le> ic_world_size c" "ic_lane_count c = logical_lane_count l" "fp_valid rf (ic_fingerprint c)"
  shows "iterable_valid rf c"
proof -
  have lanes: "map lc_lane (ic_lanes c) = irange 0 (logical_lane_count l)"
    "\<forall>lane \<in> set (ic_lanes c). checkpoint_good sp (lc_lane lane) (Some lane) (arr (lc_lane lane))"
    and order: "distinct (ic_lane_order c)" "set (ic_lane_order c) \<subseteq> {0..<logical_lane_count l}"
    using assms(1) by (auto simp: resume_good_def)
  have "0 \<le> lc_lane lane" if "lane \<in> set (ic_lanes c)" for lane
  proof -
    have "lc_lane lane \<in> set (map lc_lane (ic_lanes c))" using that by simp
    then show ?thesis unfolding lanes(1) by simp
  qed
  then have "\<forall>lane \<in> set (ic_lanes c). lane_valid lane" using lanes(2) checkpoint_good_valid by blast
  moreover have "0 \<le> logical_lane_count l" by (simp add: logical_lane_count_def split: auto.split)
  moreover have "sort (map lc_lane (ic_lanes c)) = irange 0 (logical_lane_count l)"
    unfolding lanes(1) by (simp add: sorted_sort_id)
  ultimately show ?thesis using assms order by (simp add: iterable_valid_def)
qed

lemma iterate_lanes_good:
  assumes src: "stateful_source us l epoch sp" and same: "same_lanes l m" and cad: "cadence_ok (f_snap (il_factors m))"
    and epoch: "epoch = es_current (il_epoch_state m)" and resume: "resume_good l sp (il_resume m) order arr"
  shows "\<exists>m' it. iterate_lanes us m = (m', Inr it) \<and> iter_good l epoch sp it order arr \<and> \<not> it_complete it"
proof -
  let ?m = "m\<lparr>il_epoch_state := begin_iterable_iteration (il_epoch_state m)\<rparr>"
  have "same_lanes l ?m" "epoch = es_current (il_epoch_state ?m)"
    using same epoch by (simp_all add: same_lanes_def begin_iterable_iteration_def)
  from new_lane_iterator_good [OF src this(1) _ this(2), of order arr] cad resume obtain it where
    it: "new_lane_iterator us ?m = Inr it" "iter_good l epoch sp it order arr" "\<not> it_complete it" by auto
  have "iter_good l epoch sp (it\<lparr>it_runtime := (it_runtime it)\<lparr>rt_loader := (it_loader it)\<lparr>il_resume := None\<rparr>\<rparr>\<rparr>) order arr"
    using it(2) by (simp add: iter_good_def rt_frame_def lane_good_def same_lanes_def)
  with it show ?thesis by (auto simp: iterate_lanes_def Let_def)
qed

text \<open>What a loader must be for its checkpoints to be accepted.\<close>

definition iterable_loader_ok :: "(rat \<Rightarrow> string) \<Rightarrow> iterable_loader \<Rightarrow> bool" where
  "iterable_loader_ok rf l \<longleftrightarrow> 0 \<le> il_root_seed l \<and> il_root_seed l \<le> MAX_U64 \<and> 0 \<le> es_current (il_epoch_state l) \<and>
    0 \<le> il_world_size l \<and> fp_valid rf (il_fingerprint l) \<and> (\<forall>b. il_batch_size l = Some b \<longrightarrow> 0 < b) \<and>
    cadence_ok (f_snap (il_factors l))"

lemma restore_captured_lanes:
  assumes it: "iter_good l epoch sp it order arr" "\<not> it_complete it"
    and ok: "iterable_loader_ok rf l" "0 \<le> epoch" and same: "same_lanes l (r\<lparr>il_root_seed := il_root_seed l\<rparr>)"
  shows "\<exists>p m. capture_iterable_state rf (it_loader it) (Some it) = Inr p \<and> restore_iterable_state rf r (PDict p) = Inr m \<and>
    same_lanes l m \<and> il_factors m = il_factors r \<and> es_current (il_epoch_state m) = epoch \<and> resume_good l sp (il_resume m) order arr"
proof -
  from capture_checkpoint_good [OF it(1)] obtain c where
    c: "capture_checkpoint it = Inr c" "resume_good l sp (Some c) order arr" "ic_root_seed c = il_root_seed l"
      "ic_epoch c = epoch" "ic_world_size c = il_world_size l" "ic_lane_count c = logical_lane_count l"
      "ic_fingerprint c = il_fingerprint l" by blast
  have valid: "iterable_valid rf c"
    using resume_good_valid [OF c(2)] c ok by (simp add: iterable_loader_ok_def)
  have r: "il_fingerprint r = il_fingerprint l" "il_world_size r = il_world_size l" "logical_lane_count r = logical_lane_count l"
    using same by (simp_all add: same_lanes_def logical_lane_count_def)
  let ?m = "r\<lparr>il_root_seed := il_root_seed l,
    il_epoch_state := (il_epoch_state r)\<lparr>es_current := epoch, es_pending_override := Some Override_resume\<rparr>, il_resume := Some c\<rparr>"
  have "capture_iterable_state rf (it_loader it) (Some it) = Inr (iterable_encode rf c)"
    using it(2) c(1) iterable_to_dict_encode [OF valid] by (simp add: capture_iterable_state_def)
  moreover have "restore_iterable_state rf r (PDict (iterable_encode rf c)) = Inr ?m"
    using iterable_decode_encode [OF valid] c r ok(2)
    by (simp add: restore_iterable_state_def fp_match_refl Let_def restore_epoch_def)
  moreover have "same_lanes l ?m" using same by (simp add: same_lanes_def)
  ultimately show ?thesis using c(2) by (intro exI [of _ "iterable_encode rf c"] exI [of _ ?m]) simp
qed

lemma first_run_good:
  assumes src: "stateful_source us l (es_current (il_epoch_state l)) sp" and ok: "iterable_loader_ok rf l" "il_resume l = None"
  obtains l0 it0 itk rs order arr where "iterate_lanes us l = (l0, Inr it0)" "lanes_run us k it0 = Some (itk, rs)"
    "iter_good l (es_current (il_epoch_state l)) sp itk order arr"
proof -
  have width: "\<forall>b. il_batch_size l = Some b \<longrightarrow> 0 < b" and cad: "cadence_ok (f_snap (il_factors l))"
    using ok(1) by (simp_all add: iterable_loader_ok_def)
  have "resume_good l sp (il_resume l) (irange 0 (logical_lane_count l)) (\<lambda>_. 0)" by (simp add: resume_good_def ok(2))
  from iterate_lanes_good [OF src same_lanes_refl cad refl this] obtain l0 it0 where
    it0: "iterate_lanes us l = (l0, Inr it0)"
      "iter_good l (es_current (il_epoch_state l)) sp it0 (irange 0 (logical_lane_count l)) (\<lambda>_. 0)" by blast
  obtain order arr outs where "spec_run sp l k (irange 0 (logical_lane_count l)) (\<lambda>_. 0) = (order, arr, outs)" by (metis prod_cases3)
  from lanes_run_good [OF src width it0(2) this] it0(1) that show ?thesis by blast
qed

text \<open>
  C3: An iterable loader resumes exactly.  When its source keeps the promises of a stateful source, the
  iterator never stalls, a checkpoint taken between any two batches is accepted by every loader of
  the same lanes, and from there on the restored iterator gives call by call what the interrupted one
  gives, the end of the epoch included.
\<close>

theorem iterable_resume_exact:
  assumes src: "stateful_source us l (es_current (il_epoch_state l)) sp"
    and ok: "iterable_loader_ok rf l" "il_resume l = None"
    and other: "cadence_ok (f_snap (il_factors r))" "same_lanes l (r\<lparr>il_root_seed := il_root_seed l\<rparr>)"
  shows "\<exists>l0 it0 itk rs. iterate_lanes us l = (l0, Inr it0) \<and> lanes_run us k it0 = Some (itk, rs) \<and>
    (it_complete itk \<or>
      (\<exists>p m m1 it1. capture_iterable_state rf (it_loader itk) (Some itk) = Inr p \<and>
        restore_iterable_state rf r (PDict p) = Inr m \<and> iterate_lanes us m = (m1, Inr it1) \<and>
        (\<forall>n. \<exists>out. map_option snd (lanes_run us n itk) = Some out \<and> map_option snd (lanes_run us n it1) = Some out)))"
proof -
  let ?e = "es_current (il_epoch_state l)"
  have width: "\<forall>b. il_batch_size l = Some b \<longrightarrow> 0 < b" and cad: "cadence_ok (f_snap (il_factors l))" and e: "0 \<le> ?e"
    using ok(1) by (simp_all add: iterable_loader_ok_def)
  from first_run_good [OF src ok] obtain l0 it0 itk rs order arr where it0: "iterate_lanes us l = (l0, Inr it0)" and
    itk: "lanes_run us k it0 = Some (itk, rs)" "iter_good l ?e sp itk order arr" by blast
  show ?thesis
  proof (cases "it_complete itk")
    case False
    from restore_captured_lanes [OF itk(2) False ok(1) e other(2)] obtain p m where
      m: "capture_iterable_state rf (it_loader itk) (Some itk) = Inr p" "restore_iterable_state rf r (PDict p) = Inr m"
        "same_lanes l m" "il_factors m = il_factors r" "es_current (il_epoch_state m) = ?e"
        "resume_good l sp (il_resume m) order arr" by blast
    from iterate_lanes_good [OF src m(3) _ m(5) [symmetric] m(6)] m(4) other(1) obtain m1 it1 where
      it1: "iterate_lanes us m = (m1, Inr it1)" "iter_good l ?e sp it1 order arr" by auto
    note lanes_run_same [OF src width itk(2) it1(2)]
    with it0 itk(1) m(1,2) it1(1) show ?thesis by blast
  qed (use it0 itk(1) in blast)
qed

text \<open>Two lanes of three numbers, delivered in pairs and checkpointed after the first batch.\<close>

definition number_source :: "(int \<times> int, int \<times> int, int) source_code" where
  "number_source =
    \<lparr>is_loads = \<lambda>_. Inr (0, 0), is_shard = \<lambda>_. Present (\<lambda>_ _ lane _. Inr (lane, 0)), is_init = None,
     is_save = \<lambda>d. Present (\<lambda>_. (d, Inr (Some d))), is_load = \<lambda>_. Present (\<lambda>_ q. Inr q),
     is_dumps = \<lambda>(i, a). Inr [i, a], is_loads_state = \<lambda>b. Inr (Some (b ! 0, b ! 1)), is_iter = \<lambda>_. Inr,
     is_next = \<lambda>_ _ (i, a). if a < 3 then ((i, a + 1), Inr (Some (10 * i + a))) else ((i, a), Inr None),
     is_collate = \<lambda>vs. Inr (sum_list vs)\<rparr>"

definition number_spec :: "(int \<times> int, int) source_spec" where
  "number_spec = \<lparr>sp_value = \<lambda>i a. if a < 3 then Some (10 * i + a) else None, sp_lives = \<lambda>i a d. d = (i, a),
     sp_saved = \<lambda>i a b. b = [i, a]\<rparr>"

definition number_loader :: iterable_loader where
  "number_loader =
    \<lparr>il_root_seed = 1701, il_epoch_state = new_epoch_state, il_batch_size = Some 2, il_drop_last = False,
     il_num_workers = Explicit 2, il_rank = 0, il_world_size = 1, il_payload = [], il_factors = default_factors,
     il_fingerprint = sample_fingerprint, il_resume = None, il_snapshot_notice = False, il_restart_notice = False\<rparr>"

lemma number_source_ok: "stateful_source number_source number_loader 0 number_spec"
proof -
  have n: "logical_lane_count number_loader = 2" by (simp add: logical_lane_count_def number_loader_def)
  have "source_opens number_source number_loader number_spec i" for i
    by (simp add: source_opens_def prepare_source_def number_source_def number_spec_def number_loader_def has_state_pair_def
        apply_source_shard_def restore_source_state_def)
  moreover have "source_produces number_source number_loader 0 number_spec i" for i
    by (simp add: source_produces_def number_source_def number_spec_def Let_def)
  moreover have "source_saves number_source number_loader number_spec i" for i
    by (simp add: source_saves_def number_source_def number_spec_def capture_source_state_def)
  ultimately show ?thesis unfolding stateful_source_def n
    by (auto simp: number_loader_def number_spec_def split: if_splits)
qed

lemma number_loader_ok: "iterable_loader_ok (\<lambda>_. '''') number_loader" "es_current (il_epoch_state number_loader) = 0"
  using sample_loader_ok(1)
  by (simp_all add: iterable_loader_ok_def number_loader_def MAX_U64_def new_epoch_state_def cadence_ok_def default_factors_def
      int_of_number_def py_trunc_def contract_ok_def sample_loader_def)

declare take_lanes.simps [code]

lemma number_loader_fresh: "il_resume number_loader = None" by (simp add: number_loader_def)

lemma number_run:
  "(case snd (iterate_lanes number_source number_loader) of
     Inl _ \<Rightarrow> False
   | Inr it \<Rightarrow> (case lanes_run number_source 1 it of None \<Rightarrow> False | Some (it, rs) \<Rightarrow> \<not> it_complete it \<and> rs = [Inr 1] \<and> lane_order it = [1, 0]))"
  by code_simp

lemma number_iterates: "(case snd (iterate_lanes number_source number_loader) of Inl _ \<Rightarrow> False | Inr it \<Rightarrow> il_batch_size (it_loader it) = Some 2)"
  by code_simp

theorem iterable_resume_exact_witness:
  "\<exists>l0 it0 itk p m m1 it1. iterate_lanes number_source number_loader = (l0, Inr it0) \<and>
    lanes_run number_source 1 it0 = Some (itk, [Inr 1]) \<and>
    capture_iterable_state (\<lambda>_. '''') (it_loader itk) (Some itk) = Inr p \<and>
    restore_iterable_state (\<lambda>_. '''') number_loader (PDict p) = Inr m \<and> iterate_lanes number_source m = (m1, Inr it1) \<and>
    map_option snd (lanes_run number_source 5 itk) = map_option snd (lanes_run number_source 5 it1)"
proof -
  have "cadence_ok (f_snap (il_factors number_loader))" using number_loader_ok(1) by (simp add: iterable_loader_ok_def)
  from iterable_resume_exact [of number_source number_loader number_spec "\<lambda>_. ''''" number_loader 1]
    number_source_ok number_loader_ok this obtain l0 it0 itk rs where
    run: "iterate_lanes number_source number_loader = (l0, Inr it0)" "lanes_run number_source 1 it0 = Some (itk, rs)" and
    alt: "it_complete itk \<or>
      (\<exists>p m m1 it1. capture_iterable_state (\<lambda>_. '''') (it_loader itk) (Some itk) = Inr p \<and>
        restore_iterable_state (\<lambda>_. '''') number_loader (PDict p) = Inr m \<and> iterate_lanes number_source m = (m1, Inr it1) \<and>
        (\<forall>n. \<exists>out. map_option snd (lanes_run number_source n itk) = Some out \<and> map_option snd (lanes_run number_source n it1) = Some out))"
    by (auto simp: number_loader_def same_lanes_def)
  have "\<not> it_complete itk \<and> rs = [Inr 1]" using number_run run by simp
  with run alt show ?thesis by metis
qed

section \<open>Recovery\<close>

lemma recover_lane_good:
  assumes src: "stateful_source us l epoch sp" and it: "iter_good l epoch sp it order arr" and i: "i \<in> set order"
  shows "\<exists>it'. recover_lane us i it = (it', Inr ()) \<and> iter_good l epoch sp it' order arr"
proof -
  let ?rt = "it_runtime it"
  have fr: "rt_frame l epoch ?rt" and n: "i \<in> {0..<logical_lane_count l}" "set order \<subseteq> {0..<logical_lane_count l}" "distinct order"
    using it i by (auto simp: iter_good_def)
  have good: "lane_good sp ?rt j (arr j) (arr j)" if "j \<in> set order" for j
    using it that n(2) unfolding iter_good_def by blast
  note order = lane_order_good [OF it]
  from capture_lane_good [OF good [OF i]] obtain c where c: "capture_lane ?rt i = Inr c" "checkpoint_good sp i (Some c) (arr i)" by blast
  obtain ring where ring: "dict_get (rt_rings ?rt) i = Some ring" "ri_stateful ring"
    using lane_good_ref [OF good [OF i]] by (metis ring_good_def)
  from build_lane_good [OF src n(1) fr c(2)] obtain rt ref where
    rt: "build_lane us i (Some c) ?rt = (rt, Inr ref)" "lane_step l epoch i ?rt rt" "lane_good sp rt i (arr i) (arr i)" by blast
  have all: "lane_good sp rt j (arr j) (arr j)" if "j \<in> set order" for j
    using rt(3) lane_step_good [OF rt(2) _ good [OF that]] by (cases "j = i") auto
  then obtain refs where refs: "lane_refs rt order = Inr refs"
    "list_all2 (\<lambda>ref i. dict_get (rt_all_lanes rt) i = Some ref) refs order" using lane_refs_good by blast
  let ?it = "it\<lparr>it_runtime := rt, it_lanes := refs\<rparr>"
  have rec: "recover_lane us i it = (?it, Inr ())"
    using i order ring c(1) rt(1) refs(1) by (simp add: recover_lane_def rt_recover_lane_def)
  have "\<exists>a. lane_good sp rt j a (arr j) \<and> (j \<in> set order \<longrightarrow> a = arr j)" if j: "j \<in> {0..<logical_lane_count l}" for j
  proof (cases "j \<in> set order")
    case False
    with it j obtain a where "lane_good sp ?rt j a (arr j)" unfolding iter_good_def by blast
    with False i lane_step_good [OF rt(2)] show ?thesis by metis
  qed (use all in blast)
  then have "iter_good l epoch sp ?it order arr"
    using it lane_step_frame [OF rt(2)] refs(2) by (simp add: iter_good_def)
  with rec show ?thesis by blast
qed

text \<open>
  C26: Rebuilding an active lane from the state its source saved before the last delivered batch cannot be
  seen: the iterator goes on call by call as if nothing had happened.
\<close>

theorem recovery_transparent:
  assumes src: "stateful_source us l (es_current (il_epoch_state l)) sp" and ok: "iterable_loader_ok rf l" "il_resume l = None"
    and start: "iterate_lanes us l = (l0, Inr it0)" and run: "lanes_run us k it0 = Some (it, rs)" and i: "i \<in> set (lane_order it)"
  shows "\<exists>it' out. recover_lane us i it = (it', Inr ()) \<and>
    map_option snd (lanes_run us n it) = Some out \<and> map_option snd (lanes_run us n it') = Some out"
proof -
  have width: "\<forall>b. il_batch_size l = Some b \<longrightarrow> 0 < b" using ok(1) by (simp add: iterable_loader_ok_def)
  obtain order arr where it: "iter_good l (es_current (il_epoch_state l)) sp it order arr"
    using first_run_good [OF src ok] start run by (metis Pair_inject option.inject sum.inject(2))
  from recover_lane_good [OF src it] i lane_order_good [OF it] obtain it' where
    it': "recover_lane us i it = (it', Inr ())" "iter_good l (es_current (il_epoch_state l)) sp it' order arr" by auto
  with lanes_run_same [OF src width it it'(2)] show ?thesis by blast
qed

theorem recovery_transparent_witness:
  "\<exists>l0 it0 it it' out. iterate_lanes number_source number_loader = (l0, Inr it0) \<and> lanes_run number_source 1 it0 = Some (it, [Inr 1]) \<and>
    recover_lane number_source 0 it = (it', Inr ()) \<and> map_option snd (lanes_run number_source 4 it) = Some out \<and>
    map_option snd (lanes_run number_source 4 it') = Some out"
proof -
  obtain l0 it0 it rs where run: "iterate_lanes number_source number_loader = (l0, Inr it0)" "lanes_run number_source 1 it0 = Some (it, rs)"
    using first_run_good [of number_source number_loader number_spec "\<lambda>_. ''''" 1] number_source_ok number_loader_ok
    by (metis number_loader_fresh)
  with number_run have "rs = [Inr 1]" "0 \<in> set (lane_order it)" by simp_all
  with recovery_transparent [of number_source number_loader number_spec "\<lambda>_. ''''" l0 it0 1 it rs 0 4]
    number_source_ok number_loader_ok number_loader_fresh run show ?thesis by auto
qed

section \<open>Every call returns\<close>

lemma advance_lane_stops:
  "advance_lane us l epoch lanes n lane = (lane', Inr (vs, exhausted)) \<Longrightarrow>
    (exhausted \<longleftrightarrow> length vs < n) \<and> ln_identity lane' = ln_identity lane"
  by (induction n arbitrary: lane vs) (auto simp: Let_def rmap_eq_Inr split: sum.splits prod.splits option.splits)

text \<open>What a batch of a lane leaves of the runtime.\<close>

definition same_setup :: "'d lane_runtime \<Rightarrow> 'd lane_runtime \<Rightarrow> bool" where
  "same_setup rt rt' \<longleftrightarrow> il_batch_size (rt_loader rt') = il_batch_size (rt_loader rt) \<and>
    map ln_identity (rt_store rt') = map ln_identity (rt_store rt)"

lemma same_setup_refl [simp]: "same_setup rt rt" by (simp add: same_setup_def)

lemma same_setup_trans: "same_setup rt rt1 \<Longrightarrow> same_setup rt1 rt2 \<Longrightarrow> same_setup rt rt2" by (simp add: same_setup_def)

lemma same_identities: "(ref < length xs \<Longrightarrow> ln_identity x = ln_identity (xs ! ref)) \<Longrightarrow> map ln_identity (xs[ref := x]) = map ln_identity xs"
  by (cases "ref < length xs") (simp_all add: map_update list_update_same_conv list_update_beyond)

lemma advance_lane_identity: "advance_lane us l epoch lanes n lane = (lane', r) \<Longrightarrow> ln_identity lane' = ln_identity lane"
  by (induction n arbitrary: lane r) (auto simp: Let_def split: sum.splits prod.splits option.splits)

lemma rt_advance_setup: "rt_advance us n ref rt = (rt', r) \<Longrightarrow> same_setup rt rt'"
  by (auto simp: rt_advance_def same_setup_def intro!: same_identities dest: advance_lane_identity split: prod.splits)

lemma capture_snapshot_setup: "capture_snapshot us ref force rt = (rt', r) \<Longrightarrow> same_setup rt rt'"
  by (auto simp: capture_snapshot_def Let_def same_setup_def snapshotless_notice_def intro!: same_identities
      split: option.splits sum.splits bool.splits prod.splits if_splits)

lemma next_lane_batch_setup:
  assumes "next_lane_batch us ref rt = (rt', r)"
  shows "same_setup rt rt'"
proof -
  let ?n = "nat (case il_batch_size (rt_loader rt) of None \<Rightarrow> 1 | Some b \<Rightarrow> if b = 0 then 1 else b)"
  obtain rt1 r1 where one: "rt_advance us ?n ref rt = (rt1, r1)" by fastforce
  note step = rt_advance_setup [OF one]
  have keep: "same_setup rt1 (rt1\<lparr>rt_store := (rt_store rt1)[ref := (rt_store rt1 ! ref)\<lparr>ln_produced := k\<rparr>]\<rparr>)" for k
    by (simp add: same_setup_def same_identities)
  show ?thesis
    using assms one step
    by (auto simp: next_lane_batch_def Let_def split: sum.splits prod.splits if_splits
        dest: same_setup_trans [OF step same_setup_trans [OF keep capture_snapshot_setup]])
qed

lemma next_lane_batch_exhausts:
  assumes "next_lane_batch us ref rt = (rt', Inr ([], exhausted))" "\<forall>b. il_batch_size (rt_loader rt) = Some b \<longrightarrow> 0 < b"
  shows exhausted
proof -
  let ?n = "nat (case il_batch_size (rt_loader rt) of None \<Rightarrow> 1 | Some b \<Rightarrow> if b = 0 then 1 else b)"
  obtain rt1 r1 where one: "rt_advance us ?n ref rt = (rt1, r1)" by fastforce
  have "r1 = Inr ([], exhausted)"
    using assms(1) one by (auto simp: next_lane_batch_def Let_def rmap_eq_Inr split: sum.splits prod.splits if_splits)
  with one obtain lane where "advance_lane us (rt_loader rt) (rt_epoch rt) (rt_lane_count rt) ?n (rt_store rt ! ref) = (lane, Inr ([], exhausted))"
    by (auto simp: rt_advance_def split: prod.splits)
  moreover have "0 < ?n" using assms(2) by (auto split: option.split)
  ultimately show ?thesis using advance_lane_stops by fastforce
qed

text \<open>
  C25: \<^verbatim>\<open>__next__\<close> returns for every source: it asks each lane for at most one batch that it does not
  deliver, since such a lane has ended, so its loop stops after one turn per lane left.
\<close>

theorem lanes_next_returns:
  assumes "\<forall>b. il_batch_size (it_loader it) = Some b \<longrightarrow> 0 < b"
  shows "\<exists>out. lanes_next us it = Some out"
proof -
  have "\<forall>b. il_batch_size (it_loader it) = Some b \<longrightarrow> 0 < b \<Longrightarrow> length (it_lanes it) = n \<Longrightarrow> \<exists>out. take_lanes us it = Some out" for n
  proof (induction n arbitrary: it)
    case 0
    then show ?case by (subst take_lanes.simps) simp
  next
    case (Suc n)
    then obtain ref rest where q: "it_lanes it = ref # rest" "length rest = n" by (cases "it_lanes it") auto
    obtain rt r where b: "next_lane_batch us ref (it_runtime it) = (rt, r)" by fastforce
    show ?case
    proof (cases r)
      case (Inl e)
      then show ?thesis by (subst take_lanes.simps) (simp add: q b)
    next
      case (Inr x)
      obtain vs exhausted where x: "x = (vs, exhausted)" by (cases x)
      have width: "\<forall>b. il_batch_size (rt_loader rt) = Some b \<longrightarrow> 0 < b"
        using next_lane_batch_setup [OF b] Suc.prems(1) by (simp add: same_setup_def)
      have "exhausted" if "vs = [] \<or> dropped (rt_loader rt) exhausted (length vs)"
        using that next_lane_batch_exhausts [of us ref "it_runtime it" rt exhausted] b Inr x Suc.prems(1)
        by (auto simp: dropped_def)
      with Suc.IH [of "it\<lparr>it_runtime := rt, it_lanes := rest\<rparr>"] q(2) width show ?thesis
        by (subst take_lanes.simps) (auto simp: q b Inr x Let_def)
    qed
  qed
  with assms show ?thesis by (simp add: lanes_next_def)
qed

theorem lanes_next_returns_witness:
  "\<exists>l it out. iterate_lanes number_source number_loader = (l, Inr it) \<and> lanes_next number_source it = Some out"
proof -
  obtain l it where it: "iterate_lanes number_source number_loader = (l, Inr it)"
    using number_run by (cases "iterate_lanes number_source number_loader") (auto split: sum.splits)
  then have "\<forall>b. il_batch_size (it_loader it) = Some b \<longrightarrow> 0 < b"
    using number_iterates by simp
  from lanes_next_returns [OF this] it show ?thesis by blast
qed

section \<open>A lane that raises\<close>

text \<open>
  A lane whose source raises inside a batch is lost: the exception reaches the consumer, and recovering
  that lane, as the code's documentation offers for a failed one, is refused because it is no longer queued.
\<close>

theorem failed_lane_unrecoverable:
  assumes lanes: "it_valid it" "it_lanes it = ref # rest" "\<forall>r \<in> set (it_lanes it). r < length (rt_store (it_runtime it))"
      "distinct (lane_order it)"
    and raises: "next_lane_batch us ref (it_runtime it) = (rt, Inl e)"
  shows "\<exists>it'. lanes_next us it = Some (it', Inl e) \<and> ln_identity (rt_store (it_runtime it) ! ref) \<notin> set (lane_order it') \<and>
    recover_lane us (ln_identity (rt_store (it_runtime it) ! ref)) it' =
      (it', Inl (ValueError ''iterable recovery lane is not active''))"
proof -
  let ?it = "it\<lparr>it_runtime := rt, it_lanes := rest\<rparr>" and ?i = "ln_identity (rt_store (it_runtime it) ! ref)"
  have ids: "map ln_identity (rt_store rt) = map ln_identity (rt_store (it_runtime it))"
    using next_lane_batch_setup [OF raises] by (simp add: same_setup_def)
  have "ln_identity (rt_store rt ! r) = ln_identity (rt_store (it_runtime it) ! r)" if "r \<in> set rest" for r
    using that lanes(2,3) ids by (metis length_map list.set_intros(2) nth_map)
  then have "lane_order ?it = map (\<lambda>r. ln_identity (rt_store (it_runtime it) ! r)) rest" by (simp add: lane_order_def)
  then have "?i \<notin> set (lane_order ?it)" using lanes(2,4) by (simp add: lane_order_def)
  moreover have "lanes_next us it = Some (?it, Inl e)"
    using lanes(1,2) raises by (simp add: lanes_next_def take_lanes.simps [of us it])
  ultimately show ?thesis by (auto simp: recover_lane_def rt_recover_lane_def)
qed

text \<open>The source of lane 0 raises at its second number.\<close>

definition broken_source :: "(int \<times> int, int \<times> int, int) source_code" where
  "broken_source = number_source\<lparr>is_next := \<lambda>_ _ (i, a). if i = 0 \<and> a = 1 then ((i, a), Inl EOFError) else ((i, a + 1), Inr (Some a))\<rparr>"

lemma broken_run:
  "(case snd (iterate_lanes broken_source number_loader) of
     Inl _ \<Rightarrow> False
   | Inr it \<Rightarrow> it_valid it \<and> it_lanes it = [0, 1] \<and> length (rt_store (it_runtime it)) = 2 \<and> lane_order it = [0, 1] \<and>
       snd (next_lane_batch broken_source 0 (it_runtime it)) = Inl EOFError)"
  by code_simp

theorem failed_lane_unrecoverable_witness:
  "\<exists>l it it'. iterate_lanes broken_source number_loader = (l, Inr it) \<and> lanes_next broken_source it = Some (it', Inl EOFError) \<and>
    recover_lane broken_source 0 it' = (it', Inl (ValueError ''iterable recovery lane is not active''))"
proof -
  obtain l it where it: "iterate_lanes broken_source number_loader = (l, Inr it)"
    using broken_run by (cases "iterate_lanes broken_source number_loader") (auto split: sum.splits)
  have b: "it_valid it" "it_lanes it = [0, 1]" "length (rt_store (it_runtime it)) = 2" "lane_order it = [0, 1]"
    "snd (next_lane_batch broken_source 0 (it_runtime it)) = Inl EOFError" using broken_run it by simp_all
  obtain rt where "next_lane_batch broken_source 0 (it_runtime it) = (rt, Inl EOFError)"
    using b(5) by (cases "next_lane_batch broken_source 0 (it_runtime it)") simp
  moreover have "ln_identity (rt_store (it_runtime it) ! 0) = 0" using b(2,4) by (simp add: lane_order_def)
  ultimately show ?thesis
    using failed_lane_unrecoverable [OF b(1,2), of broken_source rt EOFError] b it by auto
qed

end
