(* ===== verification/CompatZero.thy ===== *)
theory CompatZero
  imports MapState Config
begin

text \<open>
  The torch-compatible mode without workers (\<^verbatim>\<open>compat/rng.py\<close>, \<^verbatim>\<open>compat/state.py\<close>, \<^verbatim>\<open>compat/zero.py\<close>):
  torch's own loader runs in the calling process, and a checkpoint carries the random states at the
  start of the iterator and at the capture.  Torch's loader, its iterator and the dataset behind them
  are a function of their state and of the random states of the process.
\<close>

section \<open>Random states of the process\<close>

text \<open>Python's, NumPy's and torch's ambient generators, and the explicit torch generator of the loader.\<close>

record ('r, 'n, 't) cpu =
  cpu_random :: 'r
  cpu_numpy :: 'n
  cpu_torch :: 't
  cpu_generator :: "'t option"

text \<open>Their byte forms: \<^verbatim>\<open>pickle\<close> of \<^verbatim>\<open>getstate\<close> for the first two, the state tensor for torch.\<close>

record ('r, 'n, 't) rng_codec =
  rc_dump_random :: "'r \<Rightarrow> int list"
  rc_load_random :: "int list \<Rightarrow> 'r res"
  rc_dump_numpy :: "'n \<Rightarrow> int list"
  rc_load_numpy :: "int list \<Rightarrow> 'n res"
  rc_torch_bytes :: "'t \<Rightarrow> int list"
  rc_torch_state :: "int list \<Rightarrow> 't res"

record cpu_globals =
  cg_random :: "int list"
  cg_numpy :: "int list"
  cg_torch :: "int list"

definition capture_globals :: "('r, 'n, 't) rng_codec \<Rightarrow> ('r, 'n, 't) cpu \<Rightarrow> cpu_globals" where
  "capture_globals rc c =
    \<lparr>cg_random = rc_dump_random rc (cpu_random c), cg_numpy = rc_dump_numpy rc (cpu_numpy c),
     cg_torch = rc_torch_bytes rc (cpu_torch c)\<rparr>"

definition globals_payload :: "cpu_globals \<Rightarrow> payload" where
  "globals_payload g =
    [(PStr ''random'', PBytes (cg_random g)), (PStr ''numpy'', PBytes (cg_numpy g)), (PStr ''torch'', PBytes (cg_torch g))]"

definition globals_bytes :: "payload \<Rightarrow> string \<Rightarrow> int list res" where
  "globals_bytes d name =
    (case get_or_none d name of PBytes b \<Rightarrow> Inr b | _ \<Rightarrow> Inl (TypeError (''compat '' @ name @ '' RNG state must be bytes'')))"

definition validate_globals :: "pyval \<Rightarrow> cpu_globals res" where
  "validate_globals payload =
    (case as_dict payload of
       None \<Rightarrow> Inl (TypeError ''compat RNG state must contain random, numpy, and torch'')
     | Some d \<Rightarrow>
         if set (map fst d) \<noteq> {PStr ''random'', PStr ''numpy'', PStr ''torch''}
         then Inl (TypeError ''compat RNG state must contain random, numpy, and torch'')
         else
           rbind (globals_bytes d ''random'') (\<lambda>random.
           rbind (globals_bytes d ''numpy'') (\<lambda>numpy.
           rbind (globals_bytes d ''torch'') (\<lambda>torch.
             Inr \<lparr>cg_random = random, cg_numpy = numpy, cg_torch = torch\<rparr>))))"

definition restore_globals ::
    "('r, 'n, 't) rng_codec \<Rightarrow> pyval \<Rightarrow> ('r, 'n, 't) cpu \<Rightarrow> ('r, 'n, 't) cpu \<times> unit res" where
  "restore_globals rc payload c =
    (case validate_globals payload of
       Inl e \<Rightarrow> (c, Inl e)
     | Inr states \<Rightarrow>
         (case rc_load_random rc (cg_random states) of
            Inl e \<Rightarrow> (c, Inl e)
          | Inr r \<Rightarrow>
              let c = c\<lparr>cpu_random := r\<rparr> in
              (case rc_load_numpy rc (cg_numpy states) of
                 Inl e \<Rightarrow> (c, Inl e)
               | Inr n \<Rightarrow>
                   let c = c\<lparr>cpu_numpy := n\<rparr> in
                   (case rc_torch_state rc (cg_torch states) of
                      Inl e \<Rightarrow> (c, Inl e)
                    | Inr t \<Rightarrow> (c\<lparr>cpu_torch := t\<rparr>, Inr ())))))"

definition capture_generator :: "('r, 'n, 't) rng_codec \<Rightarrow> ('r, 'n, 't) cpu \<Rightarrow> int list option" where
  "capture_generator rc c = map_option (rc_torch_bytes rc) (cpu_generator c)"

definition restore_generator ::
    "('r, 'n, 't) rng_codec \<Rightarrow> int list option \<Rightarrow> ('r, 'n, 't) cpu \<Rightarrow> ('r, 'n, 't) cpu \<times> unit res" where
  "restore_generator rc payload c =
    (case payload of
       None \<Rightarrow> (c, if cpu_generator c \<noteq> None then Inl (ValueError ''compat checkpoint generator presence changed'') else Inr ())
     | Some b \<Rightarrow>
         if cpu_generator c = None then (c, Inl (ValueError ''compat checkpoint requires its torch generator''))
         else (case rc_torch_state rc b of Inl e \<Rightarrow> (c, Inl e) | Inr t \<Rightarrow> (c\<lparr>cpu_generator := Some t\<rparr>, Inr ())))"

section \<open>The checkpoint\<close>

record compat_zero_checkpoint =
  cz_delivered :: int
  cz_iterator_globals :: cpu_globals
  cz_current_globals :: cpu_globals
  cz_iterator_generator :: "int list option"
  cz_current_generator :: "int list option"
  cz_fingerprint :: contract_fingerprint

definition optional_payload :: "int list option \<Rightarrow> pyval" where
  "optional_payload b = (case b of None \<Rightarrow> PNone | Some b \<Rightarrow> PBytes b)"

definition zero_to_dict :: "(rat \<Rightarrow> string) \<Rightarrow> compat_zero_checkpoint \<Rightarrow> payload res" where
  "zero_to_dict rf s =
    rmap (\<lambda>fingerprint.
      [(PStr ''kind'', PStr ''compat-zero''), (PStr ''sampler_position'', PInt (cz_delivered s)),
       (PStr ''delivered_cursor'', PInt (cz_delivered s)),
       (PStr ''iterator_globals'', PDict (globals_payload (cz_iterator_globals s))),
       (PStr ''current_globals'', PDict (globals_payload (cz_current_globals s))),
       (PStr ''iterator_generator'', optional_payload (cz_iterator_generator s)),
       (PStr ''current_generator'', optional_payload (cz_current_generator s)),
       (PStr ''fingerprint'', PDict fingerprint)])
      (fp_to_dict rf (cz_fingerprint s))"

definition compat_integer :: "payload \<Rightarrow> string \<Rightarrow> int res" where
  "compat_integer payload key = checked_integer ''compat loader state '' payload key None"

definition optional_bytes :: "payload \<Rightarrow> string \<Rightarrow> int list option res" where
  "optional_bytes payload key =
    (case get_or_none payload key of
       PNone \<Rightarrow> Inr None
     | PBytes b \<Rightarrow> Inr (Some b)
     | _ \<Rightarrow> Inl (TypeError (''compat loader state '' @ key @ '' must be bytes or None'')))"

definition zero_from_dict :: "(rat \<Rightarrow> string) \<Rightarrow> pyval \<Rightarrow> compat_zero_checkpoint res" where
  "zero_from_dict rf payload =
    (case as_dict payload of
       None \<Rightarrow> Inl (TypeError ''loader state must be a dictionary'')
     | Some d \<Rightarrow>
         if get_or_none d ''kind'' \<noteq> PStr ''compat-zero''
         then Inl (ValueError ''compat zero-worker state requires kind=compat-zero'')
         else
         rbind (compat_integer d ''sampler_position'') (\<lambda>sampler_position.
         rbind (compat_integer d ''delivered_cursor'') (\<lambda>delivered_cursor.
           if sampler_position \<noteq> delivered_cursor
           then Inl (ValueError ''compat sampler position must match delivered cursor'')
           else
         (case as_dict (get_or_none d ''fingerprint'') of
            None \<Rightarrow> Inl (TypeError ''loader state fingerprint must be a dictionary'')
          | Some fingerprint \<Rightarrow>
         rbind (optional_bytes d ''iterator_generator'') (\<lambda>iterator_generator.
         rbind (optional_bytes d ''current_generator'') (\<lambda>current_generator.
           if (iterator_generator = None) \<noteq> (current_generator = None)
           then Inl (ValueError ''compat generator states must appear together'')
           else
         rbind (validate_globals (get_or_none d ''iterator_globals'')) (\<lambda>iterator_globals.
         rbind (validate_globals (get_or_none d ''current_globals'')) (\<lambda>current_globals.
         rbind (fp_from_dict rf fingerprint) (\<lambda>fingerprint.
           Inr \<lparr>cz_delivered = delivered_cursor, cz_iterator_globals = iterator_globals, cz_current_globals = current_globals,
                cz_iterator_generator = iterator_generator, cz_current_generator = current_generator,
                cz_fingerprint = fingerprint\<rparr>)))))))))"

section \<open>The loader and its iterator\<close>

text \<open>Torch's loader: a fresh iterator of it, and one \<^verbatim>\<open>next\<close>.\<close>

record ('r, 'n, 't, 'it, 'v) torch_loader =
  tl_iter :: "('r, 'n, 't) cpu \<Rightarrow> ('r, 'n, 't) cpu \<times> 'it res"
  tl_next :: "'it \<Rightarrow> ('r, 'n, 't) cpu \<Rightarrow> 'it \<times> ('r, 'n, 't) cpu \<times> 'v res"

record 'it compat_zero_iterator =
  zi_iterator :: 'it
  zi_globals :: cpu_globals
  zi_generator :: "int list option"
  zi_delivered :: int
  zi_complete :: bool
  zi_valid :: bool

record 'it compat_loader =
  cl_fingerprint :: contract_fingerprint
  cl_root_seed :: int
  cl_epoch_state :: epoch_state
  cl_resume :: "compat_zero_checkpoint option"
  cl_active :: "'it compat_zero_iterator option"

definition zero_next ::
    "('r, 'n, 't, 'it, 'v) torch_loader \<Rightarrow> 'it compat_zero_iterator \<Rightarrow> ('r, 'n, 't) cpu \<Rightarrow>
     'it compat_zero_iterator \<times> ('r, 'n, 't) cpu \<times> 'v res" where
  "zero_next t w c =
    (if \<not> zi_valid w then (w, c, Inl (RuntimeError ''compat iterator is no longer active''))
     else
       (case tl_next t (zi_iterator w) c of
          (it, c, Inl e) \<Rightarrow> (w\<lparr>zi_iterator := it, zi_complete := (zi_complete w \<or> e = StopIteration)\<rparr>, c, Inl e)
        | (it, c, Inr v) \<Rightarrow> (w\<lparr>zi_iterator := it, zi_delivered := zi_delivered w + 1\<rparr>, c, Inr v)))"

definition zero_checkpoint ::
    "('r, 'n, 't) rng_codec \<Rightarrow> ('r, 'n, 't) cpu \<Rightarrow> contract_fingerprint \<Rightarrow> 'it compat_zero_iterator \<Rightarrow> compat_zero_checkpoint" where
  "zero_checkpoint rc c fingerprint w =
    \<lparr>cz_delivered = zi_delivered w, cz_iterator_globals = zi_globals w, cz_current_globals = capture_globals rc c,
     cz_iterator_generator = zi_generator w, cz_current_generator = capture_generator rc c, cz_fingerprint = fingerprint\<rparr>"

definition invalidate_zero :: "'it compat_zero_iterator \<Rightarrow> 'it compat_zero_iterator" where
  "invalidate_zero w = w\<lparr>zi_valid := False\<rparr>"

definition close_compat :: "'it compat_loader \<Rightarrow> 'it compat_loader" where
  \<comment> \<open>\<^verbatim>\<open>DataLoader.close\<close>: the active iterator is invalidated and forgotten\<close>
  "close_compat l = l\<lparr>cl_active := None\<rparr>"

text \<open>
  \<^verbatim>\<open>prepare\<close>: the worker count, the generator and the root seed; \<open>manual_seed\<close> is a fresh torch
  generator seeded, \<open>initial_seed\<close> the seed a generator was given.
\<close>

definition prepare_zero ::
    "int auto \<Rightarrow> 't option \<Rightarrow> int option \<Rightarrow> (int \<Rightarrow> 't) \<Rightarrow> ('t \<Rightarrow> int) \<Rightarrow> contract_fingerprint \<Rightarrow>
     ('t option \<times> 'it compat_loader) res" where
  "prepare_zero num_workers generator seed manual_seed initial_seed fingerprint =
    (let workers = (case num_workers of AUTO \<Rightarrow> 0 | Explicit n \<Rightarrow> n) in
     if workers \<noteq> 0 then Inl (ValueError ''zero-worker compatibility requires num_workers=0'')
     else
       let generator = (if generator = None then map_option manual_seed seed else generator)
       in Inr (generator,
            \<lparr>cl_fingerprint = fingerprint, cl_root_seed = (case generator of None \<Rightarrow> 0 | Some g \<Rightarrow> initial_seed g),
             cl_epoch_state = new_epoch_state, cl_resume = None, cl_active = None\<rparr>))"

text \<open>The delivered prefix replayed from a fresh iterator.\<close>

fun zero_replay ::
    "('r, 'n, 't, 'it, 'v) torch_loader \<Rightarrow> nat \<Rightarrow> 'it \<Rightarrow> ('r, 'n, 't) cpu \<Rightarrow> 'it \<times> ('r, 'n, 't) cpu \<times> unit res" where
  "zero_replay t 0 it c = (it, c, Inr ())"
| "zero_replay t (Suc n) it c =
    (case tl_next t it c of
       (it, c, Inl e) \<Rightarrow>
         (it, c, Inl (if e = StopIteration then RuntimeError ''compat source ended before its delivered cursor'' else e))
     | (it, c, Inr v) \<Rightarrow> zero_replay t n it c)"

text \<open>Effects on the random states in sequence, up to the first exception.\<close>

definition and_then :: "('s \<Rightarrow> 's \<times> 'a res) \<Rightarrow> ('a \<Rightarrow> 's \<Rightarrow> 's \<times> 'b res) \<Rightarrow> 's \<Rightarrow> 's \<times> 'b res" where
  "and_then f g s = (case f s of (s, Inl e) \<Rightarrow> (s, Inl e) | (s, Inr v) \<Rightarrow> g v s)"

definition resume_zero ::
    "('r, 'n, 't) rng_codec \<Rightarrow> ('r, 'n, 't, 'it, 'v) torch_loader \<Rightarrow> compat_zero_checkpoint \<Rightarrow> ('r, 'n, 't) cpu \<Rightarrow>
     ('r, 'n, 't) cpu \<times> 'it res" where
  "resume_zero rc t resume =
    and_then (restore_globals rc (PDict (globals_payload (cz_iterator_globals resume)))) (\<lambda>_.
    and_then (restore_generator rc (cz_iterator_generator resume)) (\<lambda>_.
    and_then (tl_iter t) (\<lambda>it.
    and_then (\<lambda>c. case zero_replay t (nat (cz_delivered resume)) it c of (it, c, r) \<Rightarrow> (c, rmap (\<lambda>_. it) r)) (\<lambda>it.
    and_then (restore_generator rc (cz_current_generator resume)) (\<lambda>_.
    and_then (restore_globals rc (PDict (globals_payload (cz_current_globals resume)))) (\<lambda>_ c.
      (c, Inr it)))))))"

definition iterate_zero ::
    "('r, 'n, 't) rng_codec \<Rightarrow> ('r, 'n, 't, 'it, 'v) torch_loader \<Rightarrow> 'it compat_loader \<Rightarrow> ('r, 'n, 't) cpu \<Rightarrow>
     'it compat_loader \<times> ('r, 'n, 't) cpu \<times> 'it compat_zero_iterator res" where
  "iterate_zero rc t l c =
    (let l = (case cl_active l of None \<Rightarrow> l | Some w \<Rightarrow> if zi_complete w then l else close_compat l);
         (globals, generator, delivered, started) =
           (case cl_resume l of
              None \<Rightarrow> (capture_globals rc c, capture_generator rc c, 0, tl_iter t c)
            | Some resume \<Rightarrow>
                (cz_iterator_globals resume, cz_iterator_generator resume, cz_delivered resume, resume_zero rc t resume c))
     in case started of
          (c, Inl e) \<Rightarrow> (l, c, Inl e)
        | (c, Inr it) \<Rightarrow>
            let w = \<lparr>zi_iterator = it, zi_globals = globals, zi_generator = generator, zi_delivered = delivered,
                     zi_complete = False, zi_valid = True\<rparr>
            in (l\<lparr>cl_resume := None, cl_active := Some w\<rparr>, c, Inr w))"

definition capture_zero ::
    "(rat \<Rightarrow> string) \<Rightarrow> ('r, 'n, 't) rng_codec \<Rightarrow> 'it compat_loader \<Rightarrow> ('r, 'n, 't) cpu \<Rightarrow> payload res" where
  "capture_zero rf rc l c =
    (let pristine =
       (case cl_resume l of
          Some resume \<Rightarrow> zero_to_dict rf resume
        | None \<Rightarrow>
            zero_to_dict rf
              \<lparr>cz_delivered = 0, cz_iterator_globals = capture_globals rc c, cz_current_globals = capture_globals rc c,
               cz_iterator_generator = capture_generator rc c, cz_current_generator = capture_generator rc c,
               cz_fingerprint = cl_fingerprint l\<rparr>)
     in case cl_active l of
          None \<Rightarrow> pristine
        | Some w \<Rightarrow> if zi_complete w then pristine else zero_to_dict rf (zero_checkpoint rc c (cl_fingerprint l) w))"

definition restore_zero ::
    "(rat \<Rightarrow> string) \<Rightarrow> ('r, 'n, 't) rng_codec \<Rightarrow> pyval \<Rightarrow> 'it compat_loader \<Rightarrow> ('r, 'n, 't) cpu \<Rightarrow>
     'it compat_loader \<times> ('r, 'n, 't) cpu \<times> unit res" where
  "restore_zero rf rc payload l c =
    (case rbind (zero_from_dict rf payload)
        (\<lambda>state. rmap (\<lambda>_. state) (require_fingerprint_match rf (cz_fingerprint state) (cl_fingerprint l))) of
       Inl e \<Rightarrow> (l, c, Inl e)
     | Inr state \<Rightarrow>
         let l = close_compat l in
         (case and_then (restore_generator rc (cz_current_generator state))
             (\<lambda>_. restore_globals rc (PDict (globals_payload (cz_current_globals state)))) c of
            (c, Inl e) \<Rightarrow> (l, c, Inl e)
          | (c, Inr _) \<Rightarrow> (l\<lparr>cl_resume := Some state\<rparr>, c, Inr ())))"

text \<open>\<^verbatim>\<open>DataLoader.set_epoch\<close> in this mode.\<close>

definition compat_set_epoch :: "epoch_value \<Rightarrow> 'it compat_loader \<Rightarrow> 'it compat_loader res" where
  "compat_set_epoch v l =
    rmap (\<lambda>epochs. l\<lparr>cl_epoch_state := epochs, cl_resume := None\<rparr>) (set_epoch v (cl_epoch_state l))"

section \<open>The codec\<close>

definition zero_valid :: "(rat \<Rightarrow> string) \<Rightarrow> compat_zero_checkpoint \<Rightarrow> bool" where
  "zero_valid rf s \<longleftrightarrow> 0 \<le> cz_delivered s \<and> (cz_iterator_generator s = None \<longleftrightarrow> cz_current_generator s = None) \<and>
    fp_valid rf (cz_fingerprint s)"

definition zero_encode :: "(rat \<Rightarrow> string) \<Rightarrow> compat_zero_checkpoint \<Rightarrow> payload" where
  "zero_encode rf s = (case zero_to_dict rf s of Inl _ \<Rightarrow> [] | Inr d \<Rightarrow> d)"

lemma globals_round_trip [simp]: "validate_globals (PDict (globals_payload g)) = Inr g"
  by (simp add: validate_globals_def globals_payload_def globals_bytes_def get_or_none_def insert_commute)

lemma zero_to_dict_encode: "zero_valid rf s \<Longrightarrow> zero_to_dict rf s = Inr (zero_encode rf s)"
  by (simp add: zero_encode_def zero_to_dict_def zero_valid_def fp_to_dict_encode)

lemma zero_decode_encode:
  assumes "zero_valid rf s"
  shows "zero_from_dict rf (PDict (zero_encode rf s)) = Inr s"
proof -
  have "fp_from_dict rf (fp_encode rf (cz_fingerprint s)) = Inr (cz_fingerprint s)"
    using assms by (intro fp_from_encode) (simp add: zero_valid_def)
  with assms show ?thesis
    by (cases "cz_iterator_generator s"; cases "cz_current_generator s")
      (simp_all add: zero_encode_def zero_to_dict_def zero_valid_def fp_to_dict_encode zero_from_dict_def compat_integer_def
        checked_integer_def get_or_none_def optional_bytes_def optional_payload_def)
qed

lemma zero_decode_valid: "zero_from_dict rf p = Inr s \<Longrightarrow> zero_valid rf s"
  by (auto simp: zero_from_dict_def rbind_eq_Inr compat_integer_def checked_integer_iff zero_valid_def
      dest: fp_from_dict_valid split: option.splits if_splits)

interpretation zcp: checkpoint_codec "zero_encode rf" "zero_from_dict rf" "zero_valid rf" for rf
  by unfold_locales (auto simp: zero_decode_encode intro: zero_decode_valid)

section \<open>Resumption\<close>

text \<open>
  What the libraries document: a state written is the state read.  And what a source must keep to be
  replayed: it looks at the random states only through \<open>view\<close>, which the rest of the program leaves
  alone while the iterator is in use.
\<close>

definition rng_codec_ok :: "('r, 'n, 't) rng_codec \<Rightarrow> bool" where
  "rng_codec_ok rc \<longleftrightarrow> (\<forall>r. rc_load_random rc (rc_dump_random rc r) = Inr r) \<and>
    (\<forall>n. rc_load_numpy rc (rc_dump_numpy rc n) = Inr n) \<and> (\<forall>t. rc_torch_state rc (rc_torch_bytes rc t) = Inr t)"

definition advances :: "('r, 'n, 't, 'it, 'v) torch_loader \<Rightarrow> 'it \<Rightarrow> ('r, 'n, 't) cpu \<Rightarrow> 'it \<Rightarrow> ('r, 'n, 't) cpu \<Rightarrow> bool" where
  "advances t it c it' c' \<longleftrightarrow> (\<exists>v. tl_next t it c = (it', c', Inr v))"

definition replayable :: "('r, 'n, 't, 'it, 'v) torch_loader \<Rightarrow> (('r, 'n, 't) cpu \<Rightarrow> 'w) \<Rightarrow> bool" where
  "replayable t view \<longleftrightarrow> (\<forall>it c it' c' d. advances t it c it' c' \<and> view d = view c \<longrightarrow>
    (\<exists>d'. advances t it d it' d' \<and> view d' = view c'))"

definition restored :: "('r, 'n, 't) rng_codec \<Rightarrow> ('r, 'n, 't) cpu \<Rightarrow> cpu_globals \<Rightarrow> int list option \<Rightarrow> bool" where
  "restored rc c globals generator \<longleftrightarrow> globals = capture_globals rc c \<and> generator = capture_generator rc c"

text \<open>The history an iterator can be rebuilt from.\<close>

definition zero_good ::
    "('r, 'n, 't) rng_codec \<Rightarrow> ('r, 'n, 't, 'it, 'v) torch_loader \<Rightarrow> (('r, 'n, 't) cpu \<Rightarrow> 'w) \<Rightarrow>
     'it compat_zero_iterator \<Rightarrow> ('r, 'n, 't) cpu \<Rightarrow> bool" where
  "zero_good rc t view w c \<longleftrightarrow> zi_valid w \<and> \<not> zi_complete w \<and> 0 \<le> zi_delivered w \<and>
    (\<exists>c0 c1 it0 d. restored rc c0 (zi_globals w) (zi_generator w) \<and>
       (cpu_generator c0 = None \<longleftrightarrow> cpu_generator c = None) \<and> tl_iter t c0 = (c1, Inr it0) \<and>
       zero_replay t (nat (zi_delivered w)) it0 c1 = (zi_iterator w, d, Inr ()) \<and> view d = view c)"

lemma and_then_Inr: "and_then f g s = (u, Inr v) \<longleftrightarrow> (\<exists>t x. f s = (t, Inr x) \<and> g x t = (u, Inr v))"
  by (auto simp: and_then_def split: prod.splits sum.splits)

lemma restore_cpu:
  assumes "rng_codec_ok rc"
  shows "restore_globals rc (PDict (globals_payload (capture_globals rc d))) c =
      (c\<lparr>cpu_random := cpu_random d, cpu_numpy := cpu_numpy d, cpu_torch := cpu_torch d\<rparr>, Inr ())"
    and "(cpu_generator d = None) = (cpu_generator c = None) \<Longrightarrow>
      restore_generator rc (capture_generator rc d) c = (c\<lparr>cpu_generator := cpu_generator d\<rparr>, Inr ())"
  using assms
  by (auto simp: rng_codec_ok_def restore_globals_def capture_globals_def restore_generator_def capture_generator_def
      split: option.splits)

lemma zero_replay_Suc:
  "zero_replay t n it c = (it', c', Inr ()) \<Longrightarrow> advances t it' c' it'' c'' \<Longrightarrow> zero_replay t (Suc n) it c = (it'', c'', Inr ())"
proof (induction n arbitrary: it c)
  case (Suc n)
  from Suc.prems(1) obtain it1 c1 v where one: "tl_next t it c = (it1, c1, Inr v)" "zero_replay t n it1 c1 = (it', c', Inr ())"
    by (auto split: prod.splits sum.splits)
  from Suc.IH [OF this(2) Suc.prems(2)] one(1) show ?case by (simp del: zero_replay.simps add: zero_replay.simps(2) [of t "Suc n"])
qed (auto simp: advances_def)

lemma zero_next_good:
  assumes good: "zero_good rc t view w c" and r: "replayable t view" and d: "view d = view c"
    "cpu_generator d = None \<longleftrightarrow> cpu_generator c = None"
    and generator: "\<And>it c it' c'. advances t it c it' c' \<Longrightarrow> cpu_generator c' = None \<longleftrightarrow> cpu_generator c = None"
    and step: "zero_next t w d = (w', c', Inr v)"
  shows "zero_good rc t view w' c' \<and> zi_delivered w' = zi_delivered w + 1"
proof -
  have valid: "zi_valid w" "0 \<le> zi_delivered w" using good by (simp_all add: zero_good_def)
  from step valid obtain it where it: "tl_next t (zi_iterator w) d = (it, c', Inr v)"
    "w' = w\<lparr>zi_iterator := it, zi_delivered := zi_delivered w + 1\<rparr>"
    by (auto simp: zero_next_def split: prod.splits sum.splits)
  then have adv: "advances t (zi_iterator w) d it c'" by (auto simp: advances_def)
  from good obtain c0 c1 it0 e where h: "restored rc c0 (zi_globals w) (zi_generator w)"
    "cpu_generator c0 = None \<longleftrightarrow> cpu_generator c = None" "tl_iter t c0 = (c1, Inr it0)"
    "zero_replay t (nat (zi_delivered w)) it0 c1 = (zi_iterator w, e, Inr ())" "view e = view c" by (auto simp: zero_good_def)
  from r adv have "\<exists>e'. advances t (zi_iterator w) e it e' \<and> view e' = view c'"
    using h(5) d(1) unfolding replayable_def by metis
  then obtain e' where e': "advances t (zi_iterator w) e it e'" "view e' = view c'" by blast
  have "nat (zi_delivered w + 1) = Suc (nat (zi_delivered w))" using valid(2) by simp
  with zero_replay_Suc [OF h(4) e'(1)] have "zero_replay t (nat (zi_delivered w')) it0 c1 = (zi_iterator w', e', Inr ())"
    by (simp only: it(2)) simp
  with good h(1-3) e'(2) generator [OF adv] d(2) it(2) show ?thesis
    unfolding zero_good_def by (intro conjI exI [of _ c0] exI [of _ c1] exI [of _ it0] exI [of _ e']) simp_all
qed

text \<open>A fresh iterator of a loader without a loaded checkpoint.\<close>

lemma iterate_zero_good:
  assumes "cl_resume l = None" "iterate_zero rc t l c = (l', c', Inr w)"
    and "\<And>it. tl_iter t c = (c', Inr it) \<Longrightarrow> cpu_generator c' = None \<longleftrightarrow> cpu_generator c = None"
  shows "zero_good rc t view w c'" "zi_delivered w = 0" "cl_fingerprint l' = cl_fingerprint l" "cl_resume l' = None"
proof -
  obtain it where it: "tl_iter t c = (c', Inr it)" "w = \<lparr>zi_iterator = it, zi_globals = capture_globals rc c,
      zi_generator = capture_generator rc c, zi_delivered = 0, zi_complete = False, zi_valid = True\<rparr>"
    "cl_fingerprint l' = cl_fingerprint l" "cl_resume l' = None"
    using assms(1,2) by (auto simp: iterate_zero_def Let_def close_compat_def split: prod.splits sum.splits option.splits if_splits)
  with assms(3) show "zero_good rc t view w c'" "zi_delivered w = 0" "cl_fingerprint l' = cl_fingerprint l" "cl_resume l' = None"
    by (auto simp: zero_good_def restored_def)
qed

text \<open>A capture, restored anywhere, gives the iterator back together with the random states.\<close>

lemma zero_resumes:
  assumes rc: "rng_codec_ok rc" and good: "zero_good rc t view w c"
    and generator: "\<And>it c it' c'. advances t it c it' c' \<Longrightarrow> cpu_generator c' = None \<longleftrightarrow> cpu_generator c = None"
      "\<And>c c' it. tl_iter t c = (c', Inr it) \<Longrightarrow> cpu_generator c' = None \<longleftrightarrow> cpu_generator c = None"
    and d: "cpu_generator d = None \<longleftrightarrow> cpu_generator c = None"
  shows "resume_zero rc t (zero_checkpoint rc c fingerprint w) d = (c, Inr (zi_iterator w))"
proof -
  from good obtain c0 c1 it0 e where h: "restored rc c0 (zi_globals w) (zi_generator w)"
    "cpu_generator c0 = None \<longleftrightarrow> cpu_generator c = None" "tl_iter t c0 = (c1, Inr it0)"
    "zero_replay t (nat (zi_delivered w)) it0 c1 = (zi_iterator w, e, Inr ())" by (auto simp: zero_good_def)
  let ?d1 = "d\<lparr>cpu_random := cpu_random c0, cpu_numpy := cpu_numpy c0, cpu_torch := cpu_torch c0\<rparr>"
  have start: "?d1\<lparr>cpu_generator := cpu_generator c0\<rparr> = c0" by (cases d; cases c0) simp
  have replay: "zero_replay t n it x = (it', x', Inr ()) \<Longrightarrow> cpu_generator x' = None \<longleftrightarrow> cpu_generator x = None" for n it x it' x'
  proof (induction n arbitrary: it x)
    case (Suc n)
    from Suc.prems obtain it1 x1 v where "tl_next t it x = (it1, x1, Inr v)" "zero_replay t n it1 x1 = (it', x', Inr ())"
      by (auto split: prod.splits sum.splits)
    with Suc.IH generator(1) [of it x it1 x1] show ?case by (auto simp: advances_def)
  qed simp
  have e: "cpu_generator c = None \<longleftrightarrow> cpu_generator e = None" using replay [OF h(4)] generator(2) [OF h(3)] h(2) by simp
  let ?e1 = "e\<lparr>cpu_generator := cpu_generator c\<rparr>"
  have stop: "?e1\<lparr>cpu_random := cpu_random c, cpu_numpy := cpu_numpy c, cpu_torch := cpu_torch c\<rparr> = c" by (cases e; cases c) simp
  have g1: "(cpu_generator c0 = None) = (cpu_generator ?d1 = None)" using h(2) d by simp
  from h(1) show ?thesis
    using restore_cpu(1) [OF rc, of c0 d] restore_cpu(2) [OF rc g1] restore_cpu(1) [OF rc, of c ?e1]
      restore_cpu(2) [OF rc e] h(3,4)
    by (simp add: resume_zero_def restored_def zero_checkpoint_def and_then_def start stop)
qed

text \<open>Runs: before each call the rest of the program may change the random states.\<close>

fun zero_run ::
    "('r, 'n, 't, 'it, 'v) torch_loader \<Rightarrow> (('r, 'n, 't) cpu \<Rightarrow> ('r, 'n, 't) cpu) list \<Rightarrow> 'it compat_zero_iterator \<Rightarrow>
     ('r, 'n, 't) cpu \<Rightarrow> 'it compat_zero_iterator \<times> ('r, 'n, 't) cpu \<times> 'v list res" where
  "zero_run t [] w c = (w, c, Inr [])"
| "zero_run t (g # gs) w c =
    (case zero_next t w (g c) of
       (w, c, Inl e) \<Rightarrow> (w, c, Inl e)
     | (w, c, Inr v) \<Rightarrow> (case zero_run t gs w c of (w, c, r) \<Rightarrow> (w, c, rmap (Cons v) r)))"

text \<open>A torch loader never replaces its generator object, nor does the program.\<close>

definition keeps_generator :: "('r, 'n, 't, 'it, 'v) torch_loader \<Rightarrow> bool" where
  "keeps_generator t \<longleftrightarrow>
    (\<forall>it c it' c'. advances t it c it' c' \<longrightarrow> (cpu_generator c' = None \<longleftrightarrow> cpu_generator c = None)) \<and>
    (\<forall>c c' it. tl_iter t c = (c', Inr it) \<longrightarrow> (cpu_generator c' = None \<longleftrightarrow> cpu_generator c = None))"

definition harmless :: "(('r, 'n, 't) cpu \<Rightarrow> 'w) \<Rightarrow> (('r, 'n, 't) cpu \<Rightarrow> ('r, 'n, 't) cpu) \<Rightarrow> bool" where
  "harmless view g \<longleftrightarrow> (\<forall>c. view (g c) = view c \<and> (cpu_generator (g c) = None \<longleftrightarrow> cpu_generator c = None))"

lemma zero_run_good:
  "zero_good rc t view w c \<Longrightarrow> replayable t view \<Longrightarrow> keeps_generator t \<Longrightarrow> \<forall>g \<in> set gs. harmless view g \<Longrightarrow>
   zero_run t gs w c = (w', c', Inr vs) \<Longrightarrow> zero_good rc t view w' c' \<and> zi_delivered w' = zi_delivered w + int (length gs)"
proof (induction gs arbitrary: w c vs)
  case (Cons g gs)
  from Cons.prems(5) obtain u d v us where step: "zero_next t w (g c) = (u, d, Inr v)" and
    rest: "zero_run t gs u d = (w', c', Inr us)" by (auto simp: rmap_eq_Inr split: prod.splits sum.splits)
  have g: "view (g c) = view c" "cpu_generator (g c) = None \<longleftrightarrow> cpu_generator c = None" using Cons.prems(4) by (simp_all add: harmless_def)
  from Cons.prems(3) have k: "\<And>it c it' c'. advances t it c it' c' \<Longrightarrow> cpu_generator c' = None \<longleftrightarrow> cpu_generator c = None"
    unfolding keeps_generator_def by blast
  from zero_next_good [OF Cons.prems(1,2) g k step] have u: "zero_good rc t view u d" "zi_delivered u = zi_delivered w + 1" by simp_all
  from Cons.IH [OF u(1) Cons.prems(2,3) _ rest] Cons.prems(4) u(2) show ?case by simp
qed simp

text \<open>
  C7: a checkpoint of the torch-compatible mode taken after any number of batches gives, in any process,
  the same iterator over the same random states, as long as the source reads the random states only
  where the rest of the program leaves them alone; every later batch is then the same.
\<close>

theorem compat_zero_resume_exact:
  assumes rc: "rng_codec_ok rc" and t: "replayable t view" "keeps_generator t" and gs: "\<forall>g \<in> set gs. harmless view g"
    and l: "fp_valid rf (cl_fingerprint l)" "cl_resume l = None"
    and start: "iterate_zero rc t l c0 = (l1, c1, Inr w0)"
    and run: "zero_run t gs w0 c1 = (w, c, Inr vs)"
    and capture: "capture_zero rf rc (l1\<lparr>cl_active := Some w\<rparr>) c = Inr p"
    and m: "cl_fingerprint m = cl_fingerprint l"
    and d: "cpu_generator d = None \<longleftrightarrow> cpu_generator c = None" "cpu_generator e = None \<longleftrightarrow> cpu_generator c = None"
  shows "\<exists>m1 m2. restore_zero rf rc (PDict p) m d = (m1, c, Inr ()) \<and> iterate_zero rc t m1 e = (m2, c, Inr w) \<and>
    zi_delivered w = int (length gs)"
proof -
  have k: "\<And>it c it' c'. advances t it c it' c' \<Longrightarrow> cpu_generator c' = None \<longleftrightarrow> cpu_generator c = None"
    "\<And>c c' it. tl_iter t c = (c', Inr it) \<Longrightarrow> cpu_generator c' = None \<longleftrightarrow> cpu_generator c = None"
    using t(2) unfolding keeps_generator_def by blast+
  note fresh = iterate_zero_good [OF l(2) start k(2)]
  from zero_run_good [OF fresh(1) t gs run] fresh(2) have good: "zero_good rc t view w c" and n: "zi_delivered w = int (length gs)" by simp_all
  let ?s = "zero_checkpoint rc c (cl_fingerprint l) w"
  from good obtain g0 :: "('a, 'b, 'c) cpu" where g0: "zi_generator w = capture_generator rc g0" "cpu_generator g0 = None \<longleftrightarrow> cpu_generator c = None"
    "zi_valid w" "\<not> zi_complete w" "0 \<le> zi_delivered w" by (auto simp: zero_good_def restored_def)
  then have valid: "zero_valid rf ?s"
    using l(1) by (simp add: zero_valid_def zero_checkpoint_def capture_generator_def)
  have p: "p = zero_encode rf ?s"
    using capture g0(4) fresh(3) zero_to_dict_encode [OF valid] by (simp add: capture_zero_def)
  have decode: "zero_from_dict rf (PDict p) = Inr ?s" unfolding p by (rule zcp.decode_encode [OF valid])
  have fp: "require_fingerprint_match rf (cz_fingerprint ?s) (cl_fingerprint m) = Inr ()"
    by (simp add: require_match_iff zero_checkpoint_def m)
  have again: "and_then (restore_generator rc (capture_generator rc c)) (\<lambda>_. restore_globals rc (PDict (globals_payload (capture_globals rc c)))) d = (c, Inr ())"
    using restore_cpu(1) [OF rc, of c "d\<lparr>cpu_generator := cpu_generator c\<rparr>"] restore_cpu(2) [OF rc, of c d] d(1)
    by (cases c) (simp add: and_then_def)
  let ?m1 = "(close_compat m)\<lparr>cl_resume := Some ?s\<rparr>"
  have "restore_zero rf rc (PDict p) m d = (?m1, c, Inr ())"
    using decode fp again by (simp add: restore_zero_def zero_checkpoint_def)
  moreover have "resume_zero rc t ?s e = (c, Inr (zi_iterator w))" by (rule zero_resumes [OF rc good k d(2)])
  then have "iterate_zero rc t ?m1 e = (?m1\<lparr>cl_resume := None, cl_active := Some w\<rparr>, c, Inr w)"
    using g0(3,4) by (cases w) (simp add: iterate_zero_def close_compat_def zero_checkpoint_def Let_def)
  ultimately show ?thesis using n by blast
qed

text \<open>A source whose order comes from the generator and whose samples draw from torch's ambient state, which the program moves too.\<close>

definition sample_rng_codec :: "(int, int, int) rng_codec" where
  "sample_rng_codec = \<lparr>rc_dump_random = \<lambda>n. [n], rc_load_random = \<lambda>b. Inr (hd b), rc_dump_numpy = \<lambda>n. [n],
     rc_load_numpy = \<lambda>b. Inr (hd b), rc_torch_bytes = \<lambda>n. [n], rc_torch_state = \<lambda>b. Inr (hd b)\<rparr>"

definition sample_torch :: "(int, int, int, int, int) torch_loader" where
  "sample_torch = \<lparr>tl_iter = \<lambda>c. (c, Inr (case cpu_generator c of None \<Rightarrow> 0 | Some g \<Rightarrow> g)),
     tl_next = \<lambda>it c. (it + 1, c\<lparr>cpu_torch := cpu_torch c + 5, cpu_generator := map_option ((+) 1) (cpu_generator c)\<rparr>,
       Inr (it * 100 + cpu_torch c))\<rparr>"

definition sample_compat :: "int compat_loader" where
  "sample_compat = \<lparr>cl_fingerprint = sample_fingerprint, cl_root_seed = 0, cl_epoch_state = new_epoch_state, cl_resume = None, cl_active = None\<rparr>"

definition sample_cpu :: "int \<Rightarrow> int \<Rightarrow> (int, int, int) cpu" where
  "sample_cpu torch generator = \<lparr>cpu_random = 1, cpu_numpy = 2, cpu_torch = torch, cpu_generator = Some generator\<rparr>"

theorem compat_zero_resume_exact_witness:
  "\<exists>p m1 m2 w. restore_zero (\<lambda>_. '''') sample_rng_codec (PDict p) sample_compat (sample_cpu 0 0) = (m1, sample_cpu 20 9, Inr ()) \<and>
     iterate_zero sample_rng_codec sample_torch m1 (sample_cpu 0 0) = (m2, sample_cpu 20 9, Inr w) \<and>
     zi_iterator w = 9 \<and> zi_delivered w = 2"
proof -
  let ?fresh = "\<lparr>zi_iterator = 7, zi_globals = capture_globals sample_rng_codec (sample_cpu 3 7), zi_generator = Some [7], zi_delivered = 0,
    zi_complete = False, zi_valid = True\<rparr> :: int compat_zero_iterator"
  let ?w = "?fresh\<lparr>zi_iterator := 9, zi_delivered := 2\<rparr>"
  let ?gs = "[id, \<lambda>c. c\<lparr>cpu_torch := cpu_torch c + 7\<rparr>] :: ((int, int, int) cpu \<Rightarrow> (int, int, int) cpu) list"
  have rc: "rng_codec_ok sample_rng_codec" by (simp add: rng_codec_ok_def sample_rng_codec_def)
  have t: "replayable sample_torch cpu_generator" "keeps_generator sample_torch"
    by (auto simp: replayable_def keeps_generator_def advances_def sample_torch_def)
  have gs: "\<forall>g \<in> set ?gs. harmless cpu_generator g" by (simp add: harmless_def)
  have l: "fp_valid (\<lambda>_. '''') (cl_fingerprint sample_compat)" "cl_resume sample_compat = None"
    using sample_loader_ok(1) by (simp_all add: sample_compat_def contract_ok_def sample_loader_def)
  have start: "iterate_zero sample_rng_codec sample_torch sample_compat (sample_cpu 3 7) =
      (sample_compat\<lparr>cl_active := Some ?fresh\<rparr>, sample_cpu 3 7, Inr ?fresh)"
    by (simp add: iterate_zero_def Let_def sample_compat_def sample_torch_def capture_generator_def sample_rng_codec_def sample_cpu_def)
  have run: "zero_run sample_torch ?gs ?fresh (sample_cpu 3 7) = (?w, sample_cpu 20 9, Inr [703, 815])"
    by (simp add: zero_next_def sample_torch_def sample_cpu_def)
  have w: "zero_valid (\<lambda>_. '''') (zero_checkpoint sample_rng_codec (sample_cpu 20 9) (cl_fingerprint sample_compat) ?w)"
    using l(1) by (simp add: zero_valid_def zero_checkpoint_def capture_generator_def sample_cpu_def)
  have capture: "capture_zero (\<lambda>_. '''') sample_rng_codec (sample_compat\<lparr>cl_active := Some ?fresh\<rparr>\<lparr>cl_active := Some ?w\<rparr>) (sample_cpu 20 9) =
      Inr (zero_encode (\<lambda>_. '''') (zero_checkpoint sample_rng_codec (sample_cpu 20 9) (cl_fingerprint sample_compat) ?w))"
    using zero_to_dict_encode [OF w] by (simp add: capture_zero_def)
  have "cpu_generator (sample_cpu 0 0) = None \<longleftrightarrow> cpu_generator (sample_cpu 20 9) = None" by (simp add: sample_cpu_def)
  from compat_zero_resume_exact [OF rc t gs l start run capture refl this this] show ?thesis by fastforce
qed

end
