(* ===== verification/CompatLanes.thy ===== *)
theory CompatLanes
  imports CompatZero
begin

text \<open>
  The torch-compatible mode with workers (\<^verbatim>\<open>compat/lane_*.py\<close>, \<^verbatim>\<open>compat/multi*.py\<close>): torch's index sampler
  is read ahead, its units are sent to lanes that each run a free-running copy of the dataset, and the
  answers are delivered.  A lane takes its commands in order; which lanes make progress while the owner
  waits is the environment's.
\<close>

section \<open>Lanes\<close>

record 'v tagged_batch =
  tb_batch :: int
  tb_worker :: int
  tb_seed :: int
  tb_value :: 'v
  tb_state :: "int list"

datatype 'v lane_value = Plain 'v | Tagged "'v tagged_batch" | LaneExhausted int

text \<open>
  What is not this code: torch's index sampler with the generator behind it, the fetcher of a lane over
  the lane's own random states, the bytes of both, and whether the transport has room for a command
  given the number a lane already owns.
\<close>

record ('s, 'g, 'u, 'l, 'v) lane_env =
  le_sampler :: "'g \<Rightarrow> 's"
  le_unit :: "'s \<Rightarrow> 'g \<Rightarrow> 's \<times> 'g \<times> 'u res"
  le_fetch :: "'l \<Rightarrow> 'u \<Rightarrow> 'l \<times> 'v res"
  le_capture :: "'l \<Rightarrow> int list"
  le_start :: "int \<Rightarrow> int \<Rightarrow> 'l res"
  le_restore :: "int list \<Rightarrow> 'l \<Rightarrow> 'l res"
  le_reset :: "'l \<Rightarrow> 'l"
  le_room :: "int \<Rightarrow> int \<Rightarrow> bool"
  le_draw_seed :: "'g \<Rightarrow> int \<times> 'g"
  le_source_bytes :: "'g \<Rightarrow> int list"
  le_source_state :: "int list \<Rightarrow> 'g res"

text \<open>A lane: its state, or the exception of its start.\<close>

type_synonym 'l compat_lane = "'l res"

definition initialize_lane ::
    "('s, 'g, 'u, 'l, 'v) lane_env \<Rightarrow> int \<Rightarrow> int \<Rightarrow> int list option \<Rightarrow> 'l compat_lane" where
  "initialize_lane env base_seed worker state =
    rbind (le_start env base_seed worker) (\<lambda>l. case state of None \<Rightarrow> Inr l | Some b \<Rightarrow> le_restore env b l)"

definition fetch_batch ::
    "('s, 'g, 'u, 'l, 'v) lane_env \<Rightarrow> 'l \<Rightarrow> 'u \<Rightarrow> int \<Rightarrow> int \<Rightarrow> int \<Rightarrow> bool \<Rightarrow> bool \<Rightarrow> 'l \<times> 'v lane_value res" where
  "fetch_batch env l u batch worker seed capture iterable =
    (let state = (if capture then le_capture env l else []) in
     case le_fetch env l u of
       (l, Inl e) \<Rightarrow> (l, if e = StopIteration \<and> iterable then Inr (LaneExhausted worker) else Inl e)
     | (l, Inr v) \<Rightarrow>
         (l, Inr (if capture
             then Tagged \<lparr>tb_batch = batch, tb_worker = worker, tb_seed = seed, tb_value = v, tb_state = state\<rparr>
             else Plain v)))"

section \<open>The pool\<close>

record ('u, 'l, 'v) lane_pool =
  lp_workers :: int
  lp_base_seed :: int
  lp_capture :: bool
  lp_iterable :: bool
  lp_closed :: bool
  lp_pending :: "(int, int) dict"
  lp_lanes :: "int \<Rightarrow> 'l compat_lane"
  lp_commands :: "int \<Rightarrow> (int \<times> 'u) list"
  lp_results :: "int \<Rightarrow> (int \<times> 'v lane_value res) list"

text \<open>The commands a lane's queue holds, from the prefetch factor of the reference loader.\<close>

definition lane_capacity :: "int \<Rightarrow> int" where
  "lane_capacity prefetch = max 2 (push_bit (bit_length (max 1 prefetch)) 1)"

definition new_lane_pool ::
    "('s, 'g, 'u, 'l, 'v) lane_env \<Rightarrow> int \<Rightarrow> bool \<Rightarrow> int \<Rightarrow> (int, int list) dict \<Rightarrow> bool \<Rightarrow> ('u, 'l, 'v) lane_pool" where
  "new_lane_pool env workers iterable base_seed lane_states capture =
    \<lparr>lp_workers = workers, lp_base_seed = base_seed, lp_capture = capture, lp_iterable = iterable, lp_closed = False,
     lp_pending = [], lp_lanes = \<lambda>w. initialize_lane env base_seed w (dict_get lane_states w),
     lp_commands = \<lambda>_. [], lp_results = \<lambda>_. []\<rparr>"

text \<open>One command of a lane: \<^verbatim>\<open>_run_lane\<close> for one dispatch.\<close>

definition lane_dispatch ::
    "('s, 'g, 'u, 'l, 'v) lane_env \<Rightarrow> int \<Rightarrow> bool \<Rightarrow> bool \<Rightarrow> int \<Rightarrow> 'l compat_lane \<Rightarrow> int \<Rightarrow> 'u \<Rightarrow>
     'l compat_lane \<times> 'v lane_value res" where
  "lane_dispatch env base_seed capture iterable w lane task u =
    (case lane of
       Inl e \<Rightarrow> (Inl e, Inl e)
     | Inr l \<Rightarrow> (case fetch_batch env l u task w (base_seed + w) capture iterable of (l, r) \<Rightarrow> (Inr l, r)))"

definition lane_step :: "('s, 'g, 'u, 'l, 'v) lane_env \<Rightarrow> int \<Rightarrow> ('u, 'l, 'v) lane_pool \<Rightarrow> ('u, 'l, 'v) lane_pool" where
  "lane_step env w p =
    (case lp_commands p w of
       [] \<Rightarrow> p
     | (task, u) # rest \<Rightarrow>
         (case lane_dispatch env (lp_base_seed p) (lp_capture p) (lp_iterable p) w (lp_lanes p w) task u of
            (lane, r) \<Rightarrow>
              p\<lparr>lp_lanes := (lp_lanes p)(w := lane), lp_commands := (lp_commands p)(w := rest),
                lp_results := (lp_results p)(w := lp_results p w @ [(task, r)])\<rparr>))"

definition pending_for :: "int \<Rightarrow> ('u, 'l, 'v) lane_pool \<Rightarrow> int" where
  "pending_for w p = int (length (filter (\<lambda>entry. snd entry = w) (lp_pending p)))"

definition lane_submit ::
    "('s, 'g, 'u, 'l, 'v) lane_env \<Rightarrow> int \<Rightarrow> 'u \<Rightarrow> int \<Rightarrow> ('u, 'l, 'v) lane_pool \<Rightarrow> ('u, 'l, 'v) lane_pool \<times> bool res" where
  "lane_submit env task u w p =
    (if lp_closed p then (p, Inl (AttributeError ''try_submit_command''))
     else if le_room env w (pending_for w p)
     then (p\<lparr>lp_pending := dict_set task w (lp_pending p),
             lp_commands := (lp_commands p)(w := lp_commands p w @ [(task, u)])\<rparr>, Inr True)
     else (p, Inr False))"

fun lane_receive_from :: "int list \<Rightarrow> ('u, 'l, 'v) lane_pool \<Rightarrow> ('u, 'l, 'v) lane_pool \<times> (int \<times> 'v lane_value) option res" where
  "lane_receive_from [] p = (p, Inr None)"
| "lane_receive_from (w # ws) p =
    (case lp_results p w of
       [] \<Rightarrow> lane_receive_from ws p
     | (task, r) # rest \<Rightarrow>
         let owner = dict_get (lp_pending p) task;
             p = p\<lparr>lp_results := (lp_results p)(w := rest), lp_pending := dict_del task (lp_pending p)\<rparr>
         in if owner \<noteq> Some w then (p, Inl (RuntimeError ''compat completion lane does not match dispatch''))
            else (p, rmap (\<lambda>v. Some (task, v)) r))"

definition lane_receive :: "('u, 'l, 'v) lane_pool \<Rightarrow> ('u, 'l, 'v) lane_pool \<times> (int \<times> 'v lane_value) option res" where
  "lane_receive p = lane_receive_from (irange 0 (lp_workers p)) p"

definition close_lanes :: "('u, 'l, 'v) lane_pool \<Rightarrow> ('u, 'l, 'v) lane_pool" where
  "close_lanes p =
    (if lp_closed p then p
     else p\<lparr>lp_closed := True, lp_workers := 0, lp_pending := [], lp_commands := \<lambda>_. [], lp_results := \<lambda>_. []\<rparr>)"

text \<open>What happens while the owner waits: lanes that answer a command each, and the checks that follow.\<close>

record lane_turn =
  lt_progress :: "int list"
  lt_dead :: bool
  lt_expired :: bool

definition check_lanes :: "lane_turn \<Rightarrow> ('u, 'l, 'v) lane_pool \<Rightarrow> ('u, 'l, 'v) lane_pool \<times> unit res" where
  "check_lanes turn p =
    (if lt_dead turn then (close_lanes p, Inl (RuntimeError ''DataLoader worker exited unexpectedly''))
     else if lt_expired turn then (close_lanes p, Inl (RuntimeError ''DataLoader timed out''))
     else (p, Inr ()))"

definition wait_for_lanes ::
    "('s, 'g, 'u, 'l, 'v) lane_env \<Rightarrow> lane_turn \<Rightarrow> ('u, 'l, 'v) lane_pool \<Rightarrow> ('u, 'l, 'v) lane_pool \<times> unit res" where
  "wait_for_lanes env turn p = check_lanes turn (fold (lane_step env) (lt_progress turn) p)"

text \<open>\<^verbatim>\<open>drain\<close>: one turn per iteration.\<close>

fun drain_lanes ::
    "('s, 'g, 'u, 'l, 'v) lane_env \<Rightarrow> lane_turn list \<Rightarrow> ('u, 'l, 'v) lane_pool \<Rightarrow> (('u, 'l, 'v) lane_pool \<times> unit res) option" where
  "drain_lanes env turns p =
    (if lp_pending p = [] then Some (p, Inr ())
     else
       (case turns of
          [] \<Rightarrow> None
        | turn # turns \<Rightarrow>
            (case lane_receive p of
               (p, Inl e) \<Rightarrow> Some (p, Inl e)
             | (p, Inr (Some _)) \<Rightarrow> drain_lanes env turns p
             | (p, Inr None) \<Rightarrow>
                 (case wait_for_lanes env turn p of
                    (p, Inl e) \<Rightarrow> Some (p, Inl e)
                  | (p, Inr _) \<Rightarrow> drain_lanes env turns p))))"

text \<open>\<^verbatim>\<open>reset_iterable\<close>, once every lane has answered the reset.\<close>

definition reset_lanes :: "('s, 'g, 'u, 'l, 'v) lane_env \<Rightarrow> ('u, 'l, 'v) lane_pool \<Rightarrow> ('u, 'l, 'v) lane_pool res" where
  "reset_lanes env p =
    (if \<not> lp_iterable p then Inl (RuntimeError ''only iterable compat lanes can be reset'')
     else if lp_pending p \<noteq> [] then Inl (RuntimeError ''compat lanes must drain before iterable reset'')
     else Inr (p\<lparr>lp_lanes := (\<lambda>w. rmap (le_reset env) (lp_lanes p w))\<rparr>))"

section \<open>The runtime\<close>

record ('s, 'g, 'u, 'l, 'v) lane_delivery =
  cr_workers :: int
  cr_in_order :: bool
  cr_iterable :: bool
  cr_persistent :: bool
  cr_pool :: "('u, 'l, 'v) lane_pool"
  cr_source :: 'g
  cr_sampler :: 's
  cr_start_task :: int
  cr_next_task :: int
  cr_next_delivery :: int
  cr_phase :: int
  cr_active_workers :: "int fset"
  cr_worker_cursor :: int
  cr_limit :: int
  cr_ready :: "(int, 'v lane_value) dict"
  cr_exhausted :: bool
  cr_closed :: bool

text \<open>\<^verbatim>\<open>_next_worker\<close>: the phase for map-style order, otherwise the next active lane with room.\<close>

fun scan_workers :: "int \<Rightarrow> nat \<Rightarrow> ('s, 'g, 'u, 'l, 'v) lane_delivery \<Rightarrow> ('s, 'g, 'u, 'l, 'v) lane_delivery \<times> int option" where
  "scan_workers task_limit 0 s = (s, None)"
| "scan_workers task_limit (Suc n) s =
    (let worker = cr_worker_cursor s mod cr_workers s;
         s = s\<lparr>cr_worker_cursor := cr_worker_cursor s + 1\<rparr>
     in if worker |\<notin>| cr_active_workers s then scan_workers task_limit n s
        else if cr_in_order s \<or> pending_for worker (cr_pool s) < task_limit then (s, Some worker)
        else scan_workers task_limit n s)"

definition next_worker :: "('s, 'g, 'u, 'l, 'v) lane_delivery \<Rightarrow> ('s, 'g, 'u, 'l, 'v) lane_delivery \<times> int option res" where
  "next_worker s =
    (if cr_in_order s \<and> \<not> cr_iterable s
     then (s, Inr (Some ((cr_phase s + cr_next_task s - cr_start_task s) mod cr_workers s)))
     else if cr_active_workers s = {||} then (s, Inl ZeroDivisionError)
     else
       (case scan_workers (max 1 (cr_limit s div int (fcard (cr_active_workers s)))) (nat (cr_workers s)) s of
          (s, w) \<Rightarrow> (s, Inr w)))"

text \<open>\<^verbatim>\<open>_fill\<close> up to a target.\<close>

partial_function (option) fill_to ::
    "('s, 'g, 'u, 'l, 'v) lane_env \<Rightarrow> int \<Rightarrow> ('s, 'g, 'u, 'l, 'v) lane_delivery \<Rightarrow>
     (('s, 'g, 'u, 'l, 'v) lane_delivery \<times> unit res) option" where
  "fill_to env target s =
    (if cr_exhausted s \<or> target \<le> int (length (cr_ready s)) + int (length (lp_pending (cr_pool s))) then Some (s, Inr ())
     else
       (case le_unit env (cr_sampler s) (cr_source s) of
          (sampler, source, r) \<Rightarrow>
            let s = s\<lparr>cr_sampler := sampler, cr_source := source\<rparr> in
            (case r of
               Inl e \<Rightarrow> if e = StopIteration then Some (s\<lparr>cr_exhausted := True\<rparr>, Inr ()) else Some (s, Inl e)
             | Inr u \<Rightarrow>
                 (case next_worker s of
                    (s, Inl e) \<Rightarrow> Some (s, Inl e)
                  | (s, Inr None) \<Rightarrow> Some (s\<lparr>cr_exhausted := True\<rparr>, Inr ())
                  | (s, Inr (Some worker)) \<Rightarrow>
                      (case lane_submit env (cr_next_task s) u worker (cr_pool s) of
                         (p, Inl e) \<Rightarrow> Some (s\<lparr>cr_pool := p\<rparr>, Inl e)
                       | (p, Inr accepted) \<Rightarrow>
                           if accepted then fill_to env target (s\<lparr>cr_pool := p, cr_next_task := cr_next_task s + 1\<rparr>)
                           else Some (s\<lparr>cr_pool := p\<rparr>, Inr ()))))))"

declare fill_to.simps [code]

definition fill_lanes ::
    "('s, 'g, 'u, 'l, 'v) lane_env \<Rightarrow> ('s, 'g, 'u, 'l, 'v) lane_delivery \<Rightarrow> (('s, 'g, 'u, 'l, 'v) lane_delivery \<times> unit res) option" where
  "fill_lanes env s = fill_to env (cr_limit s) s"

definition accept_value :: "int \<Rightarrow> 'v lane_value \<Rightarrow> ('s, 'g, 'u, 'l, 'v) lane_delivery \<Rightarrow> ('s, 'g, 'u, 'l, 'v) lane_delivery" where
  "accept_value task v s =
    (let s = s\<lparr>cr_ready := dict_set task v (cr_ready s)\<rparr> in
     case v of
       LaneExhausted worker \<Rightarrow>
         let active = cr_active_workers s |-| {|worker|}
         in s\<lparr>cr_active_workers := active, cr_exhausted := (cr_exhausted s \<or> active = {||})\<rparr>
     | _ \<Rightarrow> s)"

text \<open>The task delivered next, if its answer is there.\<close>

definition next_ready :: "('s, 'g, 'u, 'l, 'v) lane_delivery \<Rightarrow> (int \<times> 'v lane_value) option" where
  "next_ready s =
    (if cr_in_order s then map_option (\<lambda>v. (cr_next_delivery s, v)) (dict_get (cr_ready s) (cr_next_delivery s))
     else (case cr_ready s of [] \<Rightarrow> None | entry # _ \<Rightarrow> Some entry))"

text \<open>\<^verbatim>\<open>__next__\<close>: one turn per iteration of its loop.\<close>

fun lane_next ::
    "('s, 'g, 'u, 'l, 'v) lane_env \<Rightarrow> lane_turn list \<Rightarrow> ('s, 'g, 'u, 'l, 'v) lane_delivery \<Rightarrow>
     (('s, 'g, 'u, 'l, 'v) lane_delivery \<times> 'v lane_value res) option" where
  "lane_next env [] s = (if cr_closed s then Some (s, Inl StopIteration) else None)"
| "lane_next env (turn # turns) s =
    (if cr_closed s then Some (s, Inl StopIteration)
     else
       (case fill_lanes env s of
          None \<Rightarrow> None
        | Some (s, Inl e) \<Rightarrow> Some (s, Inl e)
        | Some (s, Inr _) \<Rightarrow>
            (case next_ready s of
               Some (task, v) \<Rightarrow>
                 (case fill_lanes env (s\<lparr>cr_ready := dict_del task (cr_ready s), cr_next_delivery := cr_next_delivery s + 1\<rparr>) of
                    None \<Rightarrow> None
                  | Some (s, Inl e) \<Rightarrow> Some (s, Inl e)
                  | Some (s, Inr _) \<Rightarrow>
                      (case v of LaneExhausted _ \<Rightarrow> lane_next env turns s | _ \<Rightarrow> Some (s, Inr v)))
             | None \<Rightarrow>
                 if cr_exhausted s \<and> lp_pending (cr_pool s) = [] \<and> cr_ready s = []
                 then Some (s\<lparr>cr_closed := True,
                              cr_pool := if cr_persistent s then cr_pool s else close_lanes (cr_pool s)\<rparr>, Inl StopIteration)
                 else
                   (case lane_receive (cr_pool s) of
                      (p, Inl e) \<Rightarrow> Some (s\<lparr>cr_pool := p\<rparr>, Inl e)
                    | (p, Inr (Some (task, v))) \<Rightarrow> lane_next env turns (accept_value task v (s\<lparr>cr_pool := p\<rparr>))
                    | (p, Inr None) \<Rightarrow>
                        (case wait_for_lanes env turn p of
                           (p, Inl e) \<Rightarrow> Some (s\<lparr>cr_pool := p\<rparr>, Inl e)
                         | (p, Inr _) \<Rightarrow> lane_next env turns (s\<lparr>cr_pool := p\<rparr>))))))"

text \<open>The units of the delivered prefix are drawn and dropped.\<close>

fun skip_units :: "('s, 'g, 'u, 'l, 'v) lane_env \<Rightarrow> nat \<Rightarrow> 's \<Rightarrow> 'g \<Rightarrow> 's \<times> 'g \<times> unit res" where
  "skip_units env 0 sampler g = (sampler, g, Inr ())"
| "skip_units env (Suc n) sampler g =
    (case le_unit env sampler g of
       (sampler, g, Inl e) \<Rightarrow> (sampler, g, if e = StopIteration then Inr () else Inl e)
     | (sampler, g, Inr _) \<Rightarrow> skip_units env n sampler g)"

text \<open>
  \<^verbatim>\<open>CompatLaneRuntime.__init__\<close>.  Its argument \<^verbatim>\<open>prefetch\<close> is assigned the factor of the reference loader
  before it is read, so the construction fills to that factor whatever the caller asked for.
\<close>

definition new_lane_delivery ::
    "('s, 'g, 'u, 'l, 'v) lane_env \<Rightarrow> int \<Rightarrow> int option \<Rightarrow> bool \<Rightarrow> bool \<Rightarrow> bool \<Rightarrow> ('u, 'l, 'v) lane_pool \<Rightarrow> 'g \<Rightarrow>
     int \<Rightarrow> int \<Rightarrow> int option \<Rightarrow> (('s, 'g, 'u, 'l, 'v) lane_delivery \<times> unit res) option" where
  "new_lane_delivery env workers prefetch_factor in_order iterable persistent p g skip phase prefetch =
    (case skip_units env (nat skip) (le_sampler env g) g of
       (sampler, g, r) \<Rightarrow>
         let prefetch = (case prefetch_factor of None \<Rightarrow> 2 | Some f \<Rightarrow> if f = 0 then 2 else f);
             s = \<lparr>cr_workers = workers, cr_in_order = in_order, cr_iterable = iterable, cr_persistent = persistent,
                  cr_pool = p, cr_source = g, cr_sampler = sampler, cr_start_task = skip, cr_next_task = skip,
                  cr_next_delivery = skip, cr_phase = phase, cr_active_workers = fset_of_list (irange 0 workers),
                  cr_worker_cursor = phase, cr_limit = workers * prefetch, cr_ready = [], cr_exhausted = False,
                  cr_closed = False\<rparr>
         in (case r of Inl e \<Rightarrow> Some (s, Inl e) | Inr _ \<Rightarrow> fill_to env prefetch s))"

definition shutdown_lanes :: "('s, 'g, 'u, 'l, 'v) lane_delivery \<Rightarrow> ('s, 'g, 'u, 'l, 'v) lane_delivery" where
  "shutdown_lanes s = s\<lparr>cr_closed := True, cr_pool := close_lanes (cr_pool s)\<rparr>"

text \<open>The snapshots of a checkpoint: the first answer of each lane that is not delivered yet.\<close>

definition add_point :: "'v lane_value \<Rightarrow> (int, 'v tagged_batch) dict \<Rightarrow> (int, 'v tagged_batch) dict" where
  "add_point v points =
    (case v of
       Tagged b \<Rightarrow> if dict_get points (tb_worker b) = None then dict_set (tb_worker b) b points else points
     | _ \<Rightarrow> points)"

definition snapshot_points :: "('s, 'g, 'u, 'l, 'v) lane_delivery \<Rightarrow> (int, 'v tagged_batch) dict" where
  "snapshot_points s = fold (\<lambda>task. add_point (the (dict_get (cr_ready s) task))) (sort (map fst (cr_ready s))) []"

fun gather_points ::
    "('s, 'g, 'u, 'l, 'v) lane_env \<Rightarrow> int set \<Rightarrow> (int, 'v tagged_batch) dict \<Rightarrow> lane_turn list \<Rightarrow> ('s, 'g, 'u, 'l, 'v) lane_delivery \<Rightarrow>
     (('s, 'g, 'u, 'l, 'v) lane_delivery \<times> (int, 'v tagged_batch) dict res) option" where
  "gather_points env targets points turns s =
    (if targets \<subseteq> dict_keys points \<or> lp_pending (cr_pool s) = [] then Some (s, Inr points)
     else
       (case turns of
          [] \<Rightarrow> None
        | turn # turns \<Rightarrow>
            (case lane_receive (cr_pool s) of
               (p, Inl e) \<Rightarrow> Some (s\<lparr>cr_pool := p\<rparr>, Inl e)
             | (p, Inr (Some (task, v))) \<Rightarrow>
                 gather_points env targets (add_point v points) turns (accept_value task v (s\<lparr>cr_pool := p\<rparr>))
             | (p, Inr None) \<Rightarrow>
                 (case wait_for_lanes env turn p of
                    (p, Inl e) \<Rightarrow> Some (s\<lparr>cr_pool := p\<rparr>, Inl e)
                  | (p, Inr _) \<Rightarrow> gather_points env targets points turns (s\<lparr>cr_pool := p\<rparr>)))))"

definition capture_points ::
    "('s, 'g, 'u, 'l, 'v) lane_env \<Rightarrow> lane_turn list \<Rightarrow> ('s, 'g, 'u, 'l, 'v) lane_delivery \<Rightarrow>
     (('s, 'g, 'u, 'l, 'v) lane_delivery \<times> 'v tagged_batch list res) option" where
  "capture_points env turns s =
    (let points = snapshot_points s; targets = set (map snd (lp_pending (cr_pool s))) \<union> dict_keys points in
     map_option (\<lambda>(s, r). (s, rmap (\<lambda>points. map (\<lambda>w. the (dict_get points w)) (sort (map fst points))) r))
       (gather_points env targets points turns s))"

end
