(* ===== verification/CompatPool.thy ===== *)
theory CompatPool
  imports CompatLanes
begin

text \<open>
  The invariant of the lanes of a map-style loader: every lane answers its own commands in sequence, and
  the owner reads its answers in that sequence, whatever the lanes' speed.
\<close>

section \<open>One lane\<close>

text \<open>What a lane makes of its commands, one after the other.\<close>

fun lane_process ::
    "('s, 'g, 'u, 'l, 'v) lane_env \<Rightarrow> int \<Rightarrow> bool \<Rightarrow> int \<Rightarrow> 'l compat_lane \<Rightarrow> (int \<times> 'u) list \<Rightarrow>
     'l compat_lane \<times> (int \<times> 'v lane_value res) list" where
  "lane_process env base capture w lane [] = (lane, [])"
| "lane_process env base capture w lane ((task, u) # cs) =
    (case lane_dispatch env base capture False w lane task u of
       (lane, r) \<Rightarrow> (case lane_process env base capture w lane cs of (lane, rs) \<Rightarrow> (lane, (task, r) # rs)))"

lemma lane_process_append:
  "fst (lane_process env base cap w lane (cs @ ds)) =
     fst (lane_process env base cap w (fst (lane_process env base cap w lane cs)) ds)"
  "snd (lane_process env base cap w lane (cs @ ds)) =
     snd (lane_process env base cap w lane cs) @
     snd (lane_process env base cap w (fst (lane_process env base cap w lane cs)) ds)"
proof -
  have "lane_process env base cap w lane (cs @ ds) =
     (fst (lane_process env base cap w (fst (lane_process env base cap w lane cs)) ds),
      snd (lane_process env base cap w lane cs) @ snd (lane_process env base cap w (fst (lane_process env base cap w lane cs)) ds))"
  proof (induction cs arbitrary: lane)
    case (Cons c cs)
    then show ?case by (cases c) (simp add: case_prod_beta)
  qed simp
  then show "fst (lane_process env base cap w lane (cs @ ds)) =
     fst (lane_process env base cap w (fst (lane_process env base cap w lane cs)) ds)"
    "snd (lane_process env base cap w lane (cs @ ds)) =
     snd (lane_process env base cap w lane cs) @
     snd (lane_process env base cap w (fst (lane_process env base cap w lane cs)) ds)" by simp_all
qed

lemma lane_process_tasks: "map fst (snd (lane_process env base cap w lane cs)) = map fst cs"
  by (induction cs arbitrary: lane) (auto simp: case_prod_beta)

lemma lane_process_length [simp]: "length (snd (lane_process env base cap w lane cs)) = length cs"
  using lane_process_tasks [of env base cap w lane cs] by (metis length_map)

lemma lane_process_take:
  "snd (lane_process env base cap w lane (take n cs)) = take n (snd (lane_process env base cap w lane cs))"
  by (induction cs arbitrary: n lane) (auto simp: take_Cons case_prod_beta split: nat.split)

lemma lane_process_map_values:
  "(k, Inr (LaneExhausted x)) \<notin> set (snd (lane_process env base cap w lane cs))"
proof (induction cs arbitrary: lane)
  case (Cons c cs)
  obtain task u where c: "c = (task, u)" by (cases c)
  have "snd (lane_dispatch env base cap False w lane task u) \<noteq> Inr (LaneExhausted x)"
    by (auto simp: lane_dispatch_def fetch_batch_def split: sum.splits prod.splits if_splits)
  with Cons show ?case by (auto simp: c case_prod_beta)
qed simp

section \<open>The pool\<close>

text \<open>The commands of a lane among all tasks, \<open>owner\<close> being the lane of a task.\<close>

definition lane_tasks :: "(int \<Rightarrow> int) \<Rightarrow> (int \<times> 'u) list \<Rightarrow> int \<Rightarrow> (int \<times> 'u) list" where
  "lane_tasks owner ts w = filter (\<lambda>t. owner (fst t) = w) ts"

definition answers ::
    "('s, 'g, 'u, 'l, 'v) lane_env \<Rightarrow> int \<Rightarrow> bool \<Rightarrow> (int \<Rightarrow> 'l compat_lane) \<Rightarrow> (int \<Rightarrow> int) \<Rightarrow> (int \<times> 'u) list \<Rightarrow> int \<Rightarrow>
     (int \<times> 'v lane_value res) list" where
  "answers env base cap L owner ts w = snd (lane_process env base cap w (L w) (lane_tasks owner ts w))"

text \<open>
  Of its commands lane \<open>w\<close> has answered the first \<open>dn w\<close>, of which the owner has read the first \<open>rc w\<close>.
\<close>

definition pool_inv ::
    "('s, 'g, 'u, 'l, 'v) lane_env \<Rightarrow> int \<Rightarrow> int \<Rightarrow> bool \<Rightarrow> (int \<Rightarrow> 'l compat_lane) \<Rightarrow> (int \<Rightarrow> int) \<Rightarrow> (int \<times> 'u) list \<Rightarrow>
     (int \<Rightarrow> nat) \<Rightarrow> (int \<Rightarrow> nat) \<Rightarrow> ('u, 'l, 'v) lane_pool \<Rightarrow> bool" where
  "pool_inv env W base cap L owner ts rc dn p \<longleftrightarrow>
    lp_workers p = W \<and> lp_base_seed p = base \<and> lp_capture p = cap \<and> \<not> lp_iterable p \<and> \<not> lp_closed p \<and>
    distinct (map fst ts) \<and> (\<forall>t \<in> set ts. owner (fst t) \<in> {0..<W}) \<and>
    (\<forall>w. rc w \<le> dn w \<and> dn w \<le> length (lane_tasks owner ts w) \<and>
       lp_commands p w = drop (dn w) (lane_tasks owner ts w) \<and>
       lp_lanes p w = fst (lane_process env base cap w (L w) (take (dn w) (lane_tasks owner ts w))) \<and>
       lp_results p w = drop (rc w) (take (dn w) (answers env base cap L owner ts w))) \<and>
    dict_ok (lp_pending p) \<and>
    (\<forall>k w. dict_get (lp_pending p) k = Some w \<longleftrightarrow> w = owner k \<and> k \<in> fst ` set (drop (rc w) (lane_tasks owner ts w)))"

lemma pool_invD:
  assumes "pool_inv env W base cap L owner ts rc dn p"
  shows "lp_workers p = W" "lp_base_seed p = base" "lp_capture p = cap" "\<not> lp_iterable p" "\<not> lp_closed p"
    "distinct (map fst ts)" "t \<in> set ts \<Longrightarrow> owner (fst t) \<in> {0..<W}" "rc w \<le> dn w" "dn w \<le> length (lane_tasks owner ts w)"
    "lp_commands p w = drop (dn w) (lane_tasks owner ts w)"
    "lp_lanes p w = fst (lane_process env base cap w (L w) (take (dn w) (lane_tasks owner ts w)))"
    "lp_results p w = drop (rc w) (take (dn w) (answers env base cap L owner ts w))"
    "dict_ok (lp_pending p)"
    "dict_get (lp_pending p) k = Some w \<longleftrightarrow> w = owner k \<and> k \<in> fst ` set (drop (rc w) (lane_tasks owner ts w))"
  using assms unfolding pool_inv_def by blast+

lemma lane_tasks_distinct: "distinct (map fst ts) \<Longrightarrow> distinct (map fst (lane_tasks owner ts w))"
  by (simp add: lane_tasks_def distinct_map_filter)

lemma answers_length [simp]: "length (answers env base cap L owner ts w) = length (lane_tasks owner ts w)"
  by (simp add: answers_def)

lemma answers_tasks: "map fst (answers env base cap L owner ts w) = map fst (lane_tasks owner ts w)"
  by (simp add: answers_def lane_process_tasks)

lemma answers_append: "\<exists>more. answers env base cap L owner (ts @ us) w = answers env base cap L owner ts w @ more"
  by (simp add: answers_def lane_tasks_def lane_process_append)

lemma lane_step_ok:
  assumes inv: "pool_inv env W base cap L owner ts rc dn p"
  shows "\<exists>dn'. pool_inv env W base cap L owner ts rc dn' (lane_step env w p)"
proof (cases "lp_commands p w")
  case Nil
  then show ?thesis using inv by (intro exI [of _ dn]) (simp add: lane_step_def)
next
  case (Cons c rest)
  let ?lt = "lane_tasks owner ts w" and ?n = "dn w"
  note D = pool_invD [OF inv]
  obtain task u where c: "c = (task, u)" by (cases c)
  have n: "?n < length ?lt" "?lt ! ?n = (task, u)" "rest = drop (Suc ?n) ?lt"
    using D(10) [of w] Cons c by (metis drop_all list.distinct(1) not_le, metis Cons_nth_drop_Suc drop_all list.distinct(1) list.inject not_le,
        metis Cons_nth_drop_Suc drop_all list.distinct(1) list.inject not_le)
  have tk: "take (Suc ?n) ?lt = take ?n ?lt @ [(task, u)]" using n by (simp add: take_Suc_conv_app_nth)
  obtain lane r where d: "lane_dispatch env base cap False w (lp_lanes p w) task u = (lane, r)" by fastforce
  have proc: "fst (lane_process env base cap w (L w) (take (Suc ?n) ?lt)) = lane"
    using d D(11) [of w] by (simp add: tk lane_process_append)
  have "snd (lane_process env base cap w (L w) (take (Suc ?n) ?lt)) = snd (lane_process env base cap w (L w) (take ?n ?lt)) @ [(task, r)]"
    using d D(11) [of w] by (simp add: tk lane_process_append)
  then have res: "take (Suc ?n) (answers env base cap L owner ts w) = take ?n (answers env base cap L owner ts w) @ [(task, r)]"
    unfolding answers_def lane_process_take .
  have p': "lane_step env w p = p\<lparr>lp_lanes := (lp_lanes p)(w := lane), lp_commands := (lp_commands p)(w := rest),
      lp_results := (lp_results p)(w := lp_results p w @ [(task, r)])\<rparr>"
    using Cons c d D(2-4) by (simp add: lane_step_def)
  have "rc w \<le> ?n" by (rule D(8))
  then have "lp_results p w @ [(task, r)] = drop (rc w) (take (Suc ?n) (answers env base cap L owner ts w))"
    using D(12) [of w] D(9) [of w] by (simp add: res)
  then have "pool_inv env W base cap L owner ts rc (dn(w := Suc ?n)) (lane_step env w p)"
    using inv n proc unfolding p' pool_inv_def by (auto simp: le_Suc_eq)
  then show ?thesis by blast
qed

lemma lane_steps_ok:
  "pool_inv env W base cap L owner ts rc dn p \<Longrightarrow> \<exists>dn'. pool_inv env W base cap L owner ts rc dn' (fold (lane_step env) ws p)"
proof (induction ws arbitrary: p dn)
  case (Cons w ws)
  from lane_step_ok [OF Cons.prems] obtain dn' where "pool_inv env W base cap L owner ts rc dn' (lane_step env w p)" by blast
  from Cons.IH [OF this] show ?case by simp
qed auto

lemma wait_for_lanes_ok:
  assumes "pool_inv env W base cap L owner ts rc dn p" "wait_for_lanes env turn p = (p', Inr ())"
  shows "\<exists>dn'. pool_inv env W base cap L owner ts rc dn' p'"
  using lane_steps_ok [OF assms(1)] assms(2) by (auto simp: wait_for_lanes_def check_lanes_def split: if_splits)

lemma lane_submit_ok:
  assumes inv: "pool_inv env W base cap L owner ts rc dn p" and k: "k \<notin> fst ` set ts" "owner k \<in> {0..<W}"
    and room: "le_room env (owner k) (pending_for (owner k) p)"
  shows "\<exists>p'. lane_submit env k u (owner k) p = (p', Inr True) \<and> pool_inv env W base cap L owner (ts @ [(k, u)]) rc dn p' \<and>
    lp_pending p' = dict_set k (owner k) (lp_pending p)"
proof -
  note D = pool_invD [OF inv]
  let ?p = "p\<lparr>lp_pending := dict_set k (owner k) (lp_pending p), lp_commands := (lp_commands p)(owner k := lp_commands p (owner k) @ [(k, u)])\<rparr>"
  have lt: "lane_tasks owner (ts @ [(k, u)]) w = lane_tasks owner ts w @ (if owner k = w then [(k, u)] else [])" for w
    by (simp add: lane_tasks_def)
  have le: "rc w \<le> dn w" "dn w \<le> length (lane_tasks owner ts w)" for w using D(8,9) by blast+
  have take: "take (dn w) (lane_tasks owner (ts @ [(k, u)]) w) = take (dn w) (lane_tasks owner ts w)" for w
    using le(2) [of w] by (simp add: lt)
  have ans: "take (dn w) (answers env base cap L owner (ts @ [(k, u)]) w) = take (dn w) (answers env base cap L owner ts w)" for w
    unfolding answers_def lane_process_take [symmetric] take ..
  have drop: "drop n (lane_tasks owner (ts @ [(k, u)]) w) = drop n (lane_tasks owner ts w) @ (if owner k = w then [(k, u)] else [])"
    if "n \<le> length (lane_tasks owner ts w)" for n w using that by (simp add: lt)
  have rl: "rc w \<le> length (lane_tasks owner ts w)" for w using le [of w] by simp
  have fresh: "k \<notin> fst ` set (drop (rc w) (lane_tasks owner ts w))" for w
    using k(1) by (auto simp: lane_tasks_def image_iff dest!: in_set_dropD)
  have "pool_inv env W base cap L owner (ts @ [(k, u)]) rc dn ?p"
    unfolding pool_inv_def
  proof (intro conjI allI)
    show "distinct (map fst (ts @ [(k, u)]))" using D(6) k(1) by (auto simp: image_iff)
    show "\<forall>t \<in> set (ts @ [(k, u)]). owner (fst t) \<in> {0..<W}" using D(7) k(2) by auto
    show "dn w \<le> length (lane_tasks owner (ts @ [(k, u)]) w)" for w using le(2) [of w] by (simp add: lt)
    show "lp_commands ?p w = drop (dn w) (lane_tasks owner (ts @ [(k, u)]) w)" for w
      using D(10) [of w] drop [OF le(2) [of w]] by (cases "owner k = w") simp_all
    show "lp_lanes ?p w = fst (lane_process env base cap w (L w) (take (dn w) (lane_tasks owner (ts @ [(k, u)]) w)))" for w
      using D(11) [of w] by (simp add: take)
    show "lp_results ?p w = drop (rc w) (take (dn w) (answers env base cap L owner (ts @ [(k, u)]) w))" for w
      using D(12) [of w] by (simp add: ans)
    show "dict_get (lp_pending ?p) j = Some w \<longleftrightarrow> w = owner j \<and> j \<in> fst ` set (drop (rc w) (lane_tasks owner (ts @ [(k, u)]) w))" for j w
    proof -
      have "fst ` set (drop (rc w) (lane_tasks owner (ts @ [(k, u)]) w)) =
          fst ` set (drop (rc w) (lane_tasks owner ts w)) \<union> (if owner k = w then {k} else {})"
        by (simp add: drop [OF rl [of w]])
      then show ?thesis using D(14) [of j w] fresh [of w] by auto
    qed
  qed (use D le in simp_all)
  moreover have "lane_submit env k u (owner k) p = (?p, Inr True)" using room D(5) by (simp add: lane_submit_def)
  moreover have "lp_pending ?p = dict_set k (owner k) (lp_pending p)" by simp
  ultimately show ?thesis by blast
qed

lemma lane_receive_ok:
  assumes inv: "pool_inv env W base cap L owner ts rc dn p"
  shows "lane_receive_from ws p = (p', Inr (Some (k, v))) \<Longrightarrow>
    \<exists>w rc'. pool_inv env W base cap L owner ts rc' dn p' \<and> w = owner k \<and> rc' = rc(w := Suc (rc w)) \<and>
      rc w < length (lane_tasks owner ts w) \<and> answers env base cap L owner ts w ! rc w = (k, Inr v) \<and>
      lp_pending p' = dict_del k (lp_pending p) \<and> dict_get (lp_pending p) k = Some w"
    and "lane_receive_from ws p = (p', Inr None) \<Longrightarrow> p' = p"
proof -
  note D = pool_invD [OF inv]
  show "lane_receive_from ws p = (p', Inr None) \<Longrightarrow> p' = p"
    by (induction ws) (auto simp: Let_def rmap_eq_Inr split: list.splits if_splits)
  show "\<exists>w rc'. pool_inv env W base cap L owner ts rc' dn p' \<and> w = owner k \<and> rc' = rc(w := Suc (rc w)) \<and>
      rc w < length (lane_tasks owner ts w) \<and> answers env base cap L owner ts w ! rc w = (k, Inr v) \<and>
      lp_pending p' = dict_del k (lp_pending p) \<and> dict_get (lp_pending p) k = Some w" if "lane_receive_from ws p = (p', Inr (Some (k, v)))"
    using that
  proof (induction ws)
    case (Cons w ws)
    show ?case
    proof (cases "lp_results p w")
      case Nil
      with Cons show ?thesis by simp
    next
      case (Cons entry rest)
      let ?a = "answers env base cap L owner ts w" and ?lt = "lane_tasks owner ts w"
      obtain task r where e: "entry = (task, r)" by (cases entry)
      with Cons \<open>lane_receive_from (w # ws) p = (p', Inr (Some (k, v)))\<close> have
        k: "task = k" "r = Inr v" "dict_get (lp_pending p) k = Some w"
          "p' = p\<lparr>lp_results := (lp_results p)(w := rest), lp_pending := dict_del k (lp_pending p)\<rparr>"
        by (auto simp: Let_def rmap_eq_Inr split: if_splits)
      have w: "w = owner k" using D(14) [of k w] k(3) by simp
      have res: "drop (rc w) (take (dn w) ?a) = (k, Inr v) # rest" using D(12) [of w] Cons e k by simp
      have len: "rc w < dn w" using res D(8) [of w] D(9) [of w]
        by (metis drop_all length_take list.distinct(1) min.absorb2 answers_length not_le order_trans)
      have nth: "?a ! rc w = (k, Inr v)" "rest = drop (Suc (rc w)) (take (dn w) ?a)"
      proof -
        have "rc w < length (take (dn w) ?a)" using len D(9) [of w] by simp
        from Cons_nth_drop_Suc [OF this] res have "take (dn w) ?a ! rc w = (k, Inr v)" "rest = drop (Suc (rc w)) (take (dn w) ?a)" by simp_all
        with len show "?a ! rc w = (k, Inr v)" "rest = drop (Suc (rc w)) (take (dn w) ?a)" by simp_all
      qed
      have rl: "rc w < length ?lt" using len D(9) [of w] by simp
      have "map fst ?a ! rc w = map fst ?lt ! rc w" by (simp only: answers_tasks)
      then have kt: "fst (?lt ! rc w) = k" using nth(1) rl by simp
      have d: "drop (rc w) ?lt = ?lt ! rc w # drop (Suc (rc w)) ?lt" using rl by (simp add: Cons_nth_drop_Suc)
      have dist: "distinct (map fst ?lt)" by (rule lane_tasks_distinct [OF D(6)])
      then have "distinct (map fst (drop (rc w) ?lt))" by (metis distinct_drop drop_map)
      then have k_once: "k \<notin> fst ` set (drop (Suc (rc w)) ?lt)" using kt by (simp add: d)
      let ?rc = "rc(w := Suc (rc w))"
      have "pool_inv env W base cap L owner ts ?rc dn p'"
        unfolding pool_inv_def k(4)
      proof (intro conjI allI)
        show "?rc x \<le> dn x" for x using D(8) [of x] len by simp
        show "dict_get (lp_pending (p\<lparr>lp_results := (lp_results p)(w := rest), lp_pending := dict_del k (lp_pending p)\<rparr>)) j = Some x \<longleftrightarrow>
            x = owner j \<and> j \<in> fst ` set (drop (?rc x) (lane_tasks owner ts x))" for j x
        proof (cases "x = w")
          case True
          have "set (drop (rc w) ?lt) = insert (?lt ! rc w) (set (drop (Suc (rc w)) ?lt))" by (simp add: d)
          with True D(14) [of j w] k_once kt w show ?thesis by auto
        next
          case False
          with D(14) [of j x] w show ?thesis by auto
        qed
        show "lp_results (p\<lparr>lp_results := (lp_results p)(w := rest), lp_pending := dict_del k (lp_pending p)\<rparr>) x =
            drop (?rc x) (take (dn x) (answers env base cap L owner ts x))" for x
          using D(12) [of x] nth(2) by simp
      qed (use D in simp_all)
      moreover have "lp_pending p' = dict_del k (lp_pending p)" by (simp add: k(4))
      ultimately show ?thesis using w rl nth(1) k(3) by blast
    qed
  qed simp
qed

end
