(* ===== verification/CompatMulti.thy ===== *)
theory CompatMulti
  imports CompatLanes
begin

text \<open>
  The loader side of the torch-compatible lanes: the iterator (\<^verbatim>\<open>compat/multi_iterator.py\<close>), its checkpoint
  (\<^verbatim>\<open>multi_state.py\<close>), beginning an iteration (\<^verbatim>\<open>multi_map.py\<close>, \<^verbatim>\<open>multi_iterable.py\<close>) and the calls of
  the loader (\<^verbatim>\<open>multi.py\<close>).
\<close>

section \<open>The checkpoint\<close>

record compat_multi_checkpoint =
  cm_sampler_position :: int
  cm_delivered :: int
  cm_worker_count :: int
  cm_assignment_phase :: int
  cm_reused_base_seed :: bool
  cm_base_seed :: "int option"
  cm_iterator_generator :: "int list"
  cm_current_generator :: "int list"
  cm_lane_states :: "(int, int list) dict"
  cm_lane_seeds :: "(int, int) dict"
  cm_fingerprint :: contract_fingerprint

definition multi_to_dict :: "(rat \<Rightarrow> string) \<Rightarrow> compat_multi_checkpoint \<Rightarrow> payload res" where
  "multi_to_dict rf s =
    rmap (\<lambda>fingerprint.
      [(PStr ''kind'', PStr ''compat-multi''), (PStr ''sampler_position'', PInt (cm_sampler_position s)),
       (PStr ''delivered_cursor'', PInt (cm_delivered s)), (PStr ''num_workers'', PInt (cm_worker_count s)),
       (PStr ''assignment_phase'', PInt (cm_assignment_phase s)), (PStr ''reused_base_seed'', PBool (cm_reused_base_seed s)),
       (PStr ''base_seed'', case cm_base_seed s of None \<Rightarrow> PNone | Some b \<Rightarrow> PInt b),
       (PStr ''iterator_generator'', PBytes (cm_iterator_generator s)),
       (PStr ''current_generator'', PBytes (cm_current_generator s)),
       (PStr ''lane_states'', PDict (map (\<lambda>(w, b). (PInt w, PBytes b)) (cm_lane_states s))),
       (PStr ''lane_seeds'', PDict (map (\<lambda>(w, i). (PInt w, PInt i)) (cm_lane_seeds s))),
       (PStr ''fingerprint'', PDict fingerprint)])
      (fp_to_dict rf (cm_fingerprint s))"

definition lane_identifier :: "string \<Rightarrow> int \<Rightarrow> pyval \<Rightarrow> int res" where
  "lane_identifier who workers lane =
    (case as_int lane of
       None \<Rightarrow> Inl (TypeError (who @ ''identifiers must be integers''))
     | Some w \<Rightarrow> if w < 0 \<or> workers \<le> w then Inl (ValueError (who @ ''identifier is outside num_workers'')) else Inr w)"

definition lane_state_entry :: "int \<Rightarrow> pyval \<times> pyval \<Rightarrow> (int \<times> int list) res" where
  "lane_state_entry workers entry =
    (case entry of (lane, state) \<Rightarrow>
      rbind (lane_identifier ''compat lane '' workers lane) (\<lambda>w.
        case as_bytes state of None \<Rightarrow> Inl (TypeError ''compat lane RNG state must be bytes'') | Some b \<Rightarrow> Inr (w, b)))"

definition lane_seed_entry :: "int \<Rightarrow> pyval \<times> pyval \<Rightarrow> (int \<times> int) res" where
  "lane_seed_entry workers entry =
    (case entry of (lane, seed) \<Rightarrow>
      rbind (lane_identifier ''compat lane seed '' workers lane) (\<lambda>w.
        case as_int seed of None \<Rightarrow> Inl (TypeError ''compat lane seed must be an integer'') | Some i \<Rightarrow> Inr (w, i)))"

text \<open>The loop that fills the validated dictionary.\<close>

definition read_dict :: "(pyval \<times> pyval \<Rightarrow> (int \<times> 'v) res) \<Rightarrow> payload \<Rightarrow> (int, 'v) dict res" where
  "read_dict entry d = rmap (\<lambda>es. fold (\<lambda>(w, v). dict_set w v) es []) (rtraverse entry d)"

definition state_bytes :: "payload \<Rightarrow> string \<Rightarrow> int list res" where
  "state_bytes payload key =
    (case as_bytes (get_or_none payload key) of
       None \<Rightarrow> Inl (TypeError (''compat loader state '' @ key @ '' must be bytes'')) | Some b \<Rightarrow> Inr b)"

definition positive_state_integer :: "payload \<Rightarrow> string \<Rightarrow> int res" where
  "positive_state_integer payload key =
    rbind (compat_integer payload key) (\<lambda>i.
      if i = 0 then Inl (ValueError (''compat loader state '' @ key @ '' must be positive'')) else Inr i)"

definition read_lane_seeds :: "pyval \<Rightarrow> int \<Rightarrow> (int, int) dict res" where
  "read_lane_seeds payload workers =
    (case as_dict payload of
       None \<Rightarrow> Inl (TypeError ''compat lane seeds must be a dictionary'')
     | Some d \<Rightarrow> read_dict (lane_seed_entry workers) d)"

definition multi_from_dict :: "(rat \<Rightarrow> string) \<Rightarrow> pyval \<Rightarrow> compat_multi_checkpoint res" where
  "multi_from_dict rf payload =
    (case as_dict payload of
       None \<Rightarrow> Inl (TypeError ''loader state must be a dictionary'')
     | Some d \<Rightarrow>
         if get_or_none d ''kind'' \<noteq> PStr ''compat-multi''
         then Inl (ValueError ''compat worker state requires kind=compat-multi'')
         else
         rbind (compat_integer d ''delivered_cursor'') (\<lambda>delivered.
         rbind (compat_integer d ''sampler_position'') (\<lambda>sampler_position.
           if sampler_position < delivered then Inl (ValueError ''compat sampler position precedes delivered cursor'')
           else
         rbind (positive_state_integer d ''num_workers'') (\<lambda>workers.
         rbind (compat_integer d ''assignment_phase'') (\<lambda>phase.
           if phase \<noteq> delivered mod workers
           then Inl (ValueError ''compat assignment phase does not match delivered cursor'')
           else
         rbind (case get_or_none d ''reused_base_seed'' of PBool b \<Rightarrow> Inr b
                | _ \<Rightarrow> Inl (TypeError ''compat reused_base_seed must be a boolean'')) (\<lambda>reused.
         rbind (case get_or_none d ''base_seed'' of PNone \<Rightarrow> Inr None | PInt i \<Rightarrow> Inr (Some i)
                | _ \<Rightarrow> Inl (TypeError ''compat base_seed must be an integer or None'')) (\<lambda>base_seed.
           if reused \<and> base_seed = None then Inl (ValueError ''compat reused base seed is missing'')
           else
         (case as_dict (get_or_none d ''lane_states'') of
            None \<Rightarrow> Inl (TypeError ''compat lane states must be a dictionary'')
          | Some states \<Rightarrow>
         rbind (read_dict (lane_state_entry workers) states) (\<lambda>lane_states.
         rbind (read_lane_seeds (get_or_none d ''lane_seeds'') workers) (\<lambda>lane_seeds.
           if dict_keys lane_seeds \<noteq> dict_keys lane_states
           then Inl (ValueError ''compat lane states and seeds must name the same lanes'')
           else
         (case as_dict (get_or_none d ''fingerprint'') of
            None \<Rightarrow> Inl (TypeError ''loader state fingerprint must be a dictionary'')
          | Some fingerprint \<Rightarrow>
         rbind (state_bytes d ''iterator_generator'') (\<lambda>iterator_generator.
         rbind (state_bytes d ''current_generator'') (\<lambda>current_generator.
         rbind (fp_from_dict rf fingerprint) (\<lambda>fingerprint.
           Inr \<lparr>cm_sampler_position = sampler_position, cm_delivered = delivered, cm_worker_count = workers,
                cm_assignment_phase = phase, cm_reused_base_seed = reused, cm_base_seed = base_seed,
                cm_iterator_generator = iterator_generator, cm_current_generator = current_generator,
                cm_lane_states = lane_states, cm_lane_seeds = lane_seeds, cm_fingerprint = fingerprint\<rparr>))))))))))))))"

section \<open>The iterator\<close>

record ('s, 'g, 'u, 'l, 'v) multi_iterator =
  mi_runtime :: "('s, 'g, 'u, 'l, 'v) lane_delivery"
  mi_generator :: "int list"
  mi_delivered :: int
  mi_tagged :: bool
  mi_reused_base_seed :: bool
  mi_base_seed :: "int option"
  mi_complete :: bool
  mi_valid :: bool

text \<open>A value that travelled without its envelope is delivered as it is.\<close>

definition untagged :: "'v lane_value \<Rightarrow> 'v res" where
  "untagged v =
    (case v of Tagged b \<Rightarrow> Inr (tb_value b) | _ \<Rightarrow> Inl (TypeError ''compat worker returned an untagged batch''))"

fun plain_value :: "'v lane_value \<Rightarrow> 'v res" where
  "plain_value (Plain v) = Inr v"
| "plain_value (Tagged b) = Inr (tb_value b)"
| "plain_value (LaneExhausted w) = Inl StopIteration"  \<comment> \<open>the runtime keeps these to itself\<close>

definition multi_next ::
    "('s, 'g, 'u, 'l, 'v) lane_env \<Rightarrow> lane_turn list \<Rightarrow> ('s, 'g, 'u, 'l, 'v) multi_iterator \<Rightarrow>
     (('s, 'g, 'u, 'l, 'v) multi_iterator \<times> 'v res) option" where
  "multi_next env turns it =
    (if \<not> mi_valid it then Some (it, Inl (RuntimeError ''compat iterator is no longer active''))
     else
       (case lane_next env turns (mi_runtime it) of
          None \<Rightarrow> None
        | Some (s, Inl e) \<Rightarrow> Some (it\<lparr>mi_runtime := s, mi_complete := (mi_complete it \<or> e = StopIteration)\<rparr>, Inl e)
        | Some (s, Inr v) \<Rightarrow>
            (case (if mi_tagged it then untagged v else plain_value v) of
               Inl e \<Rightarrow> Some (it\<lparr>mi_runtime := s\<rparr>, Inl e)
             | Inr v \<Rightarrow> Some (it\<lparr>mi_runtime := s, mi_delivered := mi_delivered it + 1\<rparr>, Inr v))))"

definition multi_checkpoint ::
    "('s, 'g, 'u, 'l, 'v) lane_env \<Rightarrow> lane_turn list \<Rightarrow> contract_fingerprint \<Rightarrow> ('s, 'g, 'u, 'l, 'v) multi_iterator \<Rightarrow>
     (('s, 'g, 'u, 'l, 'v) multi_iterator \<times> compat_multi_checkpoint res) option" where
  "multi_checkpoint env turns fingerprint it =
    (if \<not> mi_tagged it then Some (it, Inl (RuntimeError ''compat snapshot capture requires tagged worker lanes''))
     else
       map_option (\<lambda>(s, r). (it\<lparr>mi_runtime := s\<rparr>,
           rmap (\<lambda>batches.
             \<lparr>cm_sampler_position = cr_next_task s, cm_delivered = mi_delivered it, cm_worker_count = cr_workers s,
              cm_assignment_phase = mi_delivered it mod cr_workers s, cm_reused_base_seed = mi_reused_base_seed it,
              cm_base_seed = mi_base_seed it, cm_iterator_generator = mi_generator it,
              cm_current_generator = le_source_bytes env (cr_source s),
              cm_lane_states = map (\<lambda>b. (tb_worker b, tb_state b)) batches,
              cm_lane_seeds = map (\<lambda>b. (tb_worker b, tb_seed b)) batches, cm_fingerprint = fingerprint\<rparr>) r))
         (capture_points env turns (mi_runtime it)))"

definition invalidate_multi :: "bool \<Rightarrow> ('s, 'g, 'u, 'l, 'v) multi_iterator \<Rightarrow> ('s, 'g, 'u, 'l, 'v) multi_iterator" where
  "invalidate_multi shutdown it =
    (if \<not> mi_valid it then it
     else it\<lparr>mi_valid := False, mi_runtime := if shutdown then shutdown_lanes (mi_runtime it) else mi_runtime it\<rparr>)"

section \<open>The loader\<close>

text \<open>
  The pool and the torch source of a loader are shared with the runtime that uses them; the loader's
  fields hold them between calls.
\<close>

record ('s, 'g, 'u, 'l, 'v) multi_loader =
  ml_workers :: int
  ml_persistent :: bool
  ml_prefetch :: "int option"
  ml_in_order :: bool
  ml_iterable :: bool
  ml_resume_on :: bool
  ml_fingerprint :: contract_fingerprint
  ml_source :: 'g
  ml_resume :: "compat_multi_checkpoint option"
  ml_pool :: "('u, 'l, 'v) lane_pool option"
  ml_base_seed :: "int option"
  ml_has_started :: bool
  ml_active :: "('s, 'g, 'u, 'l, 'v) multi_iterator option"

definition retains_workers :: "('s, 'g, 'u, 'l, 'v) multi_loader \<Rightarrow> bool" where
  "retains_workers l \<longleftrightarrow> ml_persistent l \<and> (case ml_pool l of None \<Rightarrow> False | Some p \<Rightarrow> \<not> lp_closed p)"

text \<open>The iterator of the last iteration is invalidated unless its epoch is over, with its workers unless they are kept.\<close>

definition abandon_active :: "('s, 'g, 'u, 'l, 'v) multi_loader \<Rightarrow> ('s, 'g, 'u, 'l, 'v) multi_loader" where
  "abandon_active l =
    (case ml_active l of
       None \<Rightarrow> l
     | Some it \<Rightarrow> if mi_complete it then l else l\<lparr>ml_active := Some (invalidate_multi (\<not> retains_workers l) it)\<rparr>)"

text \<open>
  A call of \<^verbatim>\<open>__next__\<close> of the active iterator, whose runtime reads the loader's torch source, uses its
  pool and forgets it at the end of the epoch.
\<close>

definition active_next ::
    "('s, 'g, 'u, 'l, 'v) lane_env \<Rightarrow> lane_turn list \<Rightarrow> ('s, 'g, 'u, 'l, 'v) multi_iterator \<Rightarrow> ('s, 'g, 'u, 'l, 'v) multi_loader \<Rightarrow>
     (('s, 'g, 'u, 'l, 'v) multi_loader \<times> 'v res) option" where
  "active_next env turns it l =
    map_option (\<lambda>(it', r).
      (let s = mi_runtime it' in
       l\<lparr>ml_active := Some it', ml_source := cr_source s,
         ml_pool := if cr_closed s \<and> \<not> cr_closed (mi_runtime it) \<and> \<not> ml_persistent l then None else Some (cr_pool s)\<rparr>, r))
      (multi_next env turns it)"

text \<open>The pool an iteration starts with: drained if it is kept, closed and forgotten otherwise.\<close>

definition take_pool ::
    "('s, 'g, 'u, 'l, 'v) lane_env \<Rightarrow> lane_turn list \<Rightarrow> ('s, 'g, 'u, 'l, 'v) multi_loader \<Rightarrow>
     (('u, 'l, 'v) lane_pool option \<times> unit res) option" where
  "take_pool env turns l =
    (case ml_pool l of
       None \<Rightarrow> Some (None, Inr ())
     | Some p \<Rightarrow>
         if retains_workers l then map_option (\<lambda>(p, r). (Some p, r)) (drain_lanes env turns p)
         else Some (None, Inr ()))"

definition validate_lane_seeds :: "int \<Rightarrow> (int, int) dict \<Rightarrow> unit res" where
  "validate_lane_seeds base_seed seeds =
    (if \<forall>(lane, seed) \<in> set seeds. seed = base_seed + lane then Inr ()
     else Inl (ValueError ''compat checkpoint lane seed does not match base seed''))"

definition resume_base_seed ::
    "('s, 'g, 'u, 'l, 'v) lane_env \<Rightarrow> compat_multi_checkpoint \<Rightarrow> 'g \<Rightarrow> 'g \<times> int res" where
  "resume_base_seed env resume g =
    (if cm_reused_base_seed resume
     then (g, case cm_base_seed resume of None \<Rightarrow> Inl (RuntimeError ''compat checkpoint lost its reused base seed'') | Some b \<Rightarrow> Inr b)
     else
       (case le_draw_seed env g of (base_seed, g) \<Rightarrow>
         (g, if cm_base_seed resume \<noteq> None \<and> cm_base_seed resume \<noteq> Some base_seed
             then Inl (ValueError ''compat checkpoint base seed does not reproduce'') else Inr base_seed)))"

text \<open>\<^verbatim>\<open>iterate_native_map\<close> without and with a loaded checkpoint, over the pool that was taken.\<close>

definition start_multi ::
    "('s, 'g, 'u, 'l, 'v) lane_env \<Rightarrow> bool \<Rightarrow> bool \<Rightarrow> ('s, 'g, 'u, 'l, 'v) multi_loader \<Rightarrow> ('u, 'l, 'v) lane_pool option \<Rightarrow>
     (('s, 'g, 'u, 'l, 'v) multi_loader \<times> ('s, 'g, 'u, 'l, 'v) multi_iterator res) option" where
  "start_multi env capture reused l pool =
    (let g = ml_source l; generator = le_source_bytes env g;
         (g, base_seed, pool) =
           (case pool of
              None \<Rightarrow>
                (case le_draw_seed env g of (base_seed, g) \<Rightarrow>
                  (g, Some base_seed, new_lane_pool env (ml_workers l) (ml_iterable l) base_seed [] capture))
            | Some p \<Rightarrow> (g, ml_base_seed l, p));
         l = l\<lparr>ml_source := g, ml_pool := Some pool, ml_base_seed := base_seed\<rparr>
     in if base_seed = None then Some (l, Inl (RuntimeError ''persistent compat lanes lost their base seed''))
        else
          map_option (\<lambda>(s, r).
            (let it = \<lparr>mi_runtime = s, mi_generator = generator, mi_delivered = 0, mi_tagged = capture,
                       mi_reused_base_seed = reused, mi_base_seed = base_seed, mi_complete = False, mi_valid = True\<rparr>;
                 l = l\<lparr>ml_source := cr_source s, ml_pool := Some (cr_pool s)\<rparr>
             in case r of
                  Inl e \<Rightarrow> (l, Inl e)
                | Inr _ \<Rightarrow> (l\<lparr>ml_resume := None, ml_has_started := True, ml_active := Some it\<rparr>, Inr it)))
            (new_lane_delivery env (ml_workers l) (ml_prefetch l) (ml_in_order l) (ml_iterable l) (ml_persistent l) pool g 0 0 None))"

definition resume_multi ::
    "('s, 'g, 'u, 'l, 'v) lane_env \<Rightarrow> ('s, 'g, 'u, 'l, 'v) multi_loader \<Rightarrow> compat_multi_checkpoint \<Rightarrow>
     (('s, 'g, 'u, 'l, 'v) multi_loader \<times> ('s, 'g, 'u, 'l, 'v) multi_iterator res) option" where
  "resume_multi env l resume =
    (case le_source_state env (cm_iterator_generator resume) of
       Inl e \<Rightarrow> Some (l, Inl e)
     | Inr g \<Rightarrow>
         (case resume_base_seed env resume g of
            (g, Inl e) \<Rightarrow> Some (l\<lparr>ml_source := g\<rparr>, Inl e)
          | (g, Inr base_seed) \<Rightarrow>
              (case validate_lane_seeds base_seed (cm_lane_seeds resume) of
                 Inl e \<Rightarrow> Some (l\<lparr>ml_source := g\<rparr>, Inl e)
               | Inr _ \<Rightarrow>
                   let pool = new_lane_pool env (ml_workers l) (ml_iterable l) base_seed (cm_lane_states resume) True;
                       l = l\<lparr>ml_source := g, ml_pool := Some pool, ml_base_seed := Some base_seed\<rparr>
                   in map_option (\<lambda>(s, r).
                     (let it = \<lparr>mi_runtime = s, mi_generator = cm_iterator_generator resume, mi_delivered = cm_delivered resume,
                                mi_tagged = True, mi_reused_base_seed = cm_reused_base_seed resume, mi_base_seed = Some base_seed,
                                mi_complete = False, mi_valid = True\<rparr>;
                          l = l\<lparr>ml_source := cr_source s, ml_pool := Some (cr_pool s)\<rparr>
                      in case r of
                           Inl e \<Rightarrow> (l, Inl e)
                         | Inr _ \<Rightarrow>
                             (case le_source_state env (cm_current_generator resume) of
                                Inl e \<Rightarrow> (l, Inl e)
                              | Inr g \<Rightarrow>
                                  let it = it\<lparr>mi_runtime := s\<lparr>cr_source := g\<rparr>\<rparr>
                                  in (l\<lparr>ml_source := g, ml_resume := None, ml_has_started := True, ml_active := Some it\<rparr>, Inr it))))
                     (new_lane_delivery env (ml_workers l) (ml_prefetch l) (ml_in_order l) (ml_iterable l) (ml_persistent l) pool g
                        (cm_delivered resume) (cm_assignment_phase resume)
                        (Some (cm_sampler_position resume - cm_delivered resume))))))"

definition iterate_multi_map ::
    "('s, 'g, 'u, 'l, 'v) lane_env \<Rightarrow> lane_turn list \<Rightarrow> ('s, 'g, 'u, 'l, 'v) multi_loader \<Rightarrow>
     (('s, 'g, 'u, 'l, 'v) multi_loader \<times> ('s, 'g, 'u, 'l, 'v) multi_iterator res) option" where
  "iterate_multi_map env turns l =
    (case take_pool env turns l of
       None \<Rightarrow> None
     | Some (p, Inl e) \<Rightarrow> Some ((abandon_active l)\<lparr>ml_pool := p\<rparr>, Inl e)
     | Some (p, Inr _) \<Rightarrow>
         (case ml_resume l of
            None \<Rightarrow> start_multi env (ml_resume_on l) (ml_has_started l \<and> retains_workers l) (abandon_active l) p
          | Some resume \<Rightarrow> resume_multi env (abandon_active l) resume))"

definition iterate_multi_iterable ::
    "('s, 'g, 'u, 'l, 'v) lane_env \<Rightarrow> lane_turn list \<Rightarrow> ('s, 'g, 'u, 'l, 'v) multi_loader \<Rightarrow>
     (('s, 'g, 'u, 'l, 'v) multi_loader \<times> ('s, 'g, 'u, 'l, 'v) multi_iterator res) option" where
  "iterate_multi_iterable env turns l =
    (case take_pool env turns l of
       None \<Rightarrow> None
     | Some (p, Inl e) \<Rightarrow> Some ((abandon_active l)\<lparr>ml_pool := p\<rparr>, Inl e)
     | Some (p, Inr _) \<Rightarrow>
         (case (case p of None \<Rightarrow> Inr None | Some p \<Rightarrow> rmap Some (reset_lanes env p)) of
            Inl e \<Rightarrow> Some ((abandon_active l)\<lparr>ml_pool := p\<rparr>, Inl e)
          | Inr p \<Rightarrow> start_multi env False (retains_workers l) (abandon_active l) p))"

text \<open>The checkpoint calls.\<close>

definition require_map_resume :: "('s, 'g, 'u, 'l, 'v) multi_loader \<Rightarrow> unit res" where
  "require_map_resume l =
    (if \<not> ml_resume_on l then Inl (RuntimeError ''multi-worker compat state requires determinism.compat_resume=on'')
     else if \<not> ml_in_order l then Inl (RuntimeError ''multi-worker compat resume requires in_order=True'')
     else if ml_iterable l
     then Inl (RuntimeError ''multi-worker compat resume requires a map-style dataset without cross-sample internal state'')
     else Inr ())"

definition capture_multi ::
    "(rat \<Rightarrow> string) \<Rightarrow> ('s, 'g, 'u, 'l, 'v) lane_env \<Rightarrow> lane_turn list \<Rightarrow> ('s, 'g, 'u, 'l, 'v) multi_loader \<Rightarrow>
     (('s, 'g, 'u, 'l, 'v) multi_loader \<times> payload res) option" where
  "capture_multi rf env turns l =
    (case require_map_resume l of
       Inl e \<Rightarrow> Some (l, Inl e)
     | Inr _ \<Rightarrow>
         let state = le_source_bytes env (ml_source l);
             pristine =
               (case ml_resume l of
                  Some resume \<Rightarrow> resume
                | None \<Rightarrow>
                    \<lparr>cm_sampler_position = 0, cm_delivered = 0, cm_worker_count = ml_workers l, cm_assignment_phase = 0,
                     cm_reused_base_seed = False, cm_base_seed = None, cm_iterator_generator = state,
                     cm_current_generator = state, cm_lane_states = [], cm_lane_seeds = [],
                     cm_fingerprint = ml_fingerprint l\<rparr>)
         in (case ml_active l of
              None \<Rightarrow> Some (l, multi_to_dict rf pristine)
            | Some it \<Rightarrow>
                if mi_complete it then Some (l, multi_to_dict rf pristine)
                else map_option (\<lambda>(it, r).
                    (l\<lparr>ml_active := Some it, ml_pool := Some (cr_pool (mi_runtime it))\<rparr>, rbind r (multi_to_dict rf)))
                  (multi_checkpoint env turns (ml_fingerprint l) it)))"

definition restore_multi ::
    "(rat \<Rightarrow> string) \<Rightarrow> ('s, 'g, 'u, 'l, 'v) lane_env \<Rightarrow> pyval \<Rightarrow> ('s, 'g, 'u, 'l, 'v) multi_loader \<Rightarrow>
     ('s, 'g, 'u, 'l, 'v) multi_loader \<times> unit res" where
  "restore_multi rf env payload l =
    (case rbind (require_map_resume l) (\<lambda>_.
          rbind (multi_from_dict rf payload) (\<lambda>state.
            if cm_worker_count state \<noteq> ml_workers l then Inl (ValueError ''compat checkpoint requires the same num_workers'')
            else rmap (\<lambda>_. state) (require_fingerprint_match rf (cm_fingerprint state) (ml_fingerprint l)))) of
       Inl e \<Rightarrow> (l, Inl e)
     | Inr state \<Rightarrow>
         let l = l\<lparr>ml_active := None, ml_pool := None, ml_base_seed := None\<rparr>
         in (case le_source_state env (cm_current_generator state) of
               Inl e \<Rightarrow> (l, Inl e)
             | Inr g \<Rightarrow> (l\<lparr>ml_source := g, ml_resume := Some state\<rparr>, Inr ())))"

text \<open>\<^verbatim>\<open>DataLoader.set_epoch\<close> with workers: the loaded checkpoint is not cleared.\<close>

definition multi_set_epoch :: "epoch_value \<Rightarrow> epoch_state \<Rightarrow> ('s, 'g, 'u, 'l, 'v) multi_loader \<Rightarrow>
    (epoch_state \<times> ('s, 'g, 'u, 'l, 'v) multi_loader) res" where
  "multi_set_epoch v epochs l = rmap (\<lambda>epochs. (epochs, l)) (set_epoch v epochs)"

section \<open>The codec\<close>

definition multi_valid :: "(rat \<Rightarrow> string) \<Rightarrow> compat_multi_checkpoint \<Rightarrow> bool" where
  "multi_valid rf s \<longleftrightarrow> 0 \<le> cm_delivered s \<and> cm_delivered s \<le> cm_sampler_position s \<and> 0 < cm_worker_count s \<and>
    cm_assignment_phase s = cm_delivered s mod cm_worker_count s \<and>
    (cm_reused_base_seed s \<longrightarrow> cm_base_seed s \<noteq> None) \<and> dict_ok (cm_lane_states s) \<and> dict_ok (cm_lane_seeds s) \<and>
    dict_keys (cm_lane_seeds s) = dict_keys (cm_lane_states s) \<and> dict_keys (cm_lane_states s) \<subseteq> {0..<cm_worker_count s} \<and>
    fp_valid rf (cm_fingerprint s)"

definition multi_encode :: "(rat \<Rightarrow> string) \<Rightarrow> compat_multi_checkpoint \<Rightarrow> payload" where
  "multi_encode rf s = (case multi_to_dict rf s of Inl _ \<Rightarrow> [] | Inr d \<Rightarrow> d)"

lemma fold_dict_set_new:
  "distinct (map fst es) \<Longrightarrow> fst ` set es \<inter> dict_keys d = {} \<Longrightarrow> fold (\<lambda>(w, v). dict_set w v) es d = d @ es"
proof (induction es arbitrary: d)
  case (Cons e es)
  obtain w v where e: "e = (w, v)" by (cases e)
  with Cons.prems have "dict_set w v d = d @ [(w, v)]" by (intro length_dict_set_new) auto
  with Cons e show ?case by (auto simp: dict_keys_def)
qed simp

lemma fold_dict_set_ok: "dict_ok d \<Longrightarrow> dict_ok (fold (\<lambda>(w, v). dict_set w v) es d)"
  by (induction es arbitrary: d) (auto split: prod.split)

lemma fold_dict_set_keys: "dict_keys (fold (\<lambda>(w, v). dict_set w v) es d) = fst ` set es \<union> dict_keys d"
  by (induction es arbitrary: d) (auto split: prod.splits)

lemma read_written:
  assumes "\<And>e. e \<in> set d \<Longrightarrow> entry (f e) = Inr e" "dict_ok d"
  shows "read_dict entry (map f d) = Inr d"
proof -
  have "rtraverse entry (map f d) = Inr d" using assms(1) by (induction d) simp_all
  with assms(2) show ?thesis by (simp add: read_dict_def fold_dict_set_new dict_ok_def)
qed

lemma read_valid:
  assumes "read_dict entry d = Inr r" and w: "\<And>e x. entry e = Inr x \<Longrightarrow> 0 \<le> fst x \<and> fst x < workers"
  shows "dict_ok r \<and> dict_keys r \<subseteq> {0..<workers}"
proof -
  obtain es where es: "rtraverse entry d = Inr es" "r = fold (\<lambda>(w, v). dict_set w v) es []"
    using assms(1) by (auto simp: read_dict_def rmap_eq_Inr)
  have "\<forall>x \<in> set es. 0 \<le> fst x \<and> fst x < workers"
    using es(1)
  proof (induction d arbitrary: es)
    case (Cons e d)
    then obtain x xs where "entry e = Inr x" "rtraverse entry d = Inr xs" "es = x # xs" by (auto simp: rbind_eq_Inr rmap_eq_Inr)
    with Cons.IH w show ?case by auto
  qed simp
  then show ?thesis using fold_dict_set_keys [of es "[]"] by (auto simp: es(2) fold_dict_set_ok)
qed

lemma lane_entries:
  "lane_state_entry workers e = Inr x \<Longrightarrow> 0 \<le> fst x \<and> fst x < workers"
  "lane_seed_entry workers e = Inr y \<Longrightarrow> 0 \<le> fst y \<and> fst y < workers"
  by (auto simp: lane_state_entry_def lane_seed_entry_def lane_identifier_def rbind_eq_Inr
      split: prod.splits option.splits if_splits)

lemma multi_to_dict_encode: "multi_valid rf s \<Longrightarrow> multi_to_dict rf s = Inr (multi_encode rf s)"
  by (simp add: multi_encode_def multi_to_dict_def multi_valid_def fp_to_dict_encode)

lemma multi_decode_encode:
  assumes valid: "multi_valid rf s"
  shows "multi_from_dict rf (PDict (multi_encode rf s)) = Inr s"
proof -
  have fp: "fp_from_dict rf (fp_encode rf (cm_fingerprint s)) = Inr (cm_fingerprint s)"
    using valid by (intro fp_from_encode) (simp add: multi_valid_def)
  have range: "(w, b) \<in> set (cm_lane_states s) \<Longrightarrow> 0 \<le> w \<and> w < cm_worker_count s"
    "(w, i) \<in> set (cm_lane_seeds s) \<Longrightarrow> 0 \<le> w \<and> w < cm_worker_count s" for w b i
    using valid unfolding multi_valid_def dict_keys_def by (metis atLeastLessThan_iff fst_conv image_eqI subsetD)+
  have states: "read_dict (lane_state_entry (cm_worker_count s)) (map (\<lambda>(w, b). (PInt w, PBytes b)) (cm_lane_states s)) = Inr (cm_lane_states s)"
    using valid by (intro read_written) (auto simp: lane_state_entry_def lane_identifier_def multi_valid_def dest: range split: if_splits)
  have seeds: "read_dict (lane_seed_entry (cm_worker_count s)) (map (\<lambda>(w, i). (PInt w, PInt i)) (cm_lane_seeds s)) = Inr (cm_lane_seeds s)"
    using valid by (intro read_written) (auto simp: lane_seed_entry_def lane_identifier_def multi_valid_def dest: range split: if_splits)
  have "\<not> cm_delivered s mod cm_worker_count s < 0" using valid by (simp add: multi_valid_def not_less)
  with valid show ?thesis
    by (cases "cm_base_seed s") (simp_all add: multi_encode_def multi_to_dict_def multi_valid_def fp_to_dict_encode multi_from_dict_def
        compat_integer_def positive_state_integer_def checked_integer_def get_or_none_def state_bytes_def read_lane_seeds_def
        fp states seeds)
qed

lemma multi_decode_valid:
  assumes "multi_from_dict rf p = Inr s"
  shows "multi_valid rf s"
proof -
  from assms have parts: "0 \<le> cm_delivered s" "cm_delivered s \<le> cm_sampler_position s" "0 < cm_worker_count s"
    "cm_assignment_phase s = cm_delivered s mod cm_worker_count s" "cm_reused_base_seed s \<longrightarrow> cm_base_seed s \<noteq> None"
    "dict_keys (cm_lane_seeds s) = dict_keys (cm_lane_states s)" "fp_valid rf (cm_fingerprint s)"
    and d: "\<exists>d e. read_dict (lane_state_entry (cm_worker_count s)) d = Inr (cm_lane_states s) \<and>
      read_dict (lane_seed_entry (cm_worker_count s)) e = Inr (cm_lane_seeds s)"
    by (auto simp: multi_from_dict_def rbind_eq_Inr compat_integer_def positive_state_integer_def checked_integer_iff
        read_lane_seeds_def not_less dest: fp_from_dict_valid split: option.splits if_splits pyval.splits)
  from d have "dict_ok (cm_lane_states s) \<and> dict_keys (cm_lane_states s) \<subseteq> {0..<cm_worker_count s}" "dict_ok (cm_lane_seeds s)"
    using read_valid [of "lane_state_entry (cm_worker_count s)" _ "cm_lane_states s" "cm_worker_count s"]
      read_valid [of "lane_seed_entry (cm_worker_count s)" _ "cm_lane_seeds s" "cm_worker_count s"] lane_entries by blast+
  with parts show ?thesis by (simp add: multi_valid_def)
qed

interpretation mcp: checkpoint_codec "multi_encode rf" "multi_from_dict rf" "multi_valid rf" for rf
  by unfold_locales (auto simp: multi_decode_encode intro: multi_decode_valid)

section \<open>Runs\<close>

primrec multi_run ::
    "('s, 'g, 'u, 'l, 'v) lane_env \<Rightarrow> lane_turn list \<Rightarrow> nat \<Rightarrow> ('s, 'g, 'u, 'l, 'v) multi_iterator \<Rightarrow>
     (('s, 'g, 'u, 'l, 'v) multi_iterator \<times> 'v list \<times> py_error option) option" where
  "multi_run env turns 0 it = Some (it, [], None)"
| "multi_run env turns (Suc n) it =
    (case multi_next env turns it of
       None \<Rightarrow> None
     | Some (it, Inl e) \<Rightarrow> Some (it, [], Some e)
     | Some (it, Inr v) \<Rightarrow> map_option (\<lambda>(it, vs, e). (it, v # vs, e)) (multi_run env turns n it))"

text \<open>
  Three lanes over an iterable source, one batch ahead each: the first lane has no item, the others have two.
\<close>

definition busy_turns :: "lane_turn list" where
  "busy_turns = replicate 5 \<lparr>lt_progress = [0, 1, 2], lt_dead = False, lt_expired = False\<rparr>"

definition source_env :: "(unit, unit, unit, int list, int) lane_env" where
  "source_env = \<lparr>le_sampler = \<lambda>g. (), le_unit = \<lambda>s g. (s, g, Inr ()),
     le_fetch = \<lambda>l u. (case l of [] \<Rightarrow> ([], Inl StopIteration) | x # xs \<Rightarrow> (xs, Inr x)), le_capture = \<lambda>_. [],
     le_start = \<lambda>b w. Inr (if w = 0 then [] else [10 * w, 10 * w + 1]), le_restore = \<lambda>_ l. Inr l,
     le_reset = id, le_room = \<lambda>_ _. True, le_draw_seed = \<lambda>g. (0, g), le_source_bytes = \<lambda>_. [], le_source_state = \<lambda>_. Inr ()\<rparr>"

definition unordered_loader :: "bool \<Rightarrow> (unit, unit, unit, int list, int) multi_loader" where
  "unordered_loader in_order = \<lparr>ml_workers = 3, ml_persistent = False, ml_prefetch = Some 1, ml_in_order = in_order, ml_iterable = True,
     ml_resume_on = False, ml_fingerprint = \<lparr>cf_elements = []\<rparr>, ml_source = (), ml_resume = None, ml_pool = None,
     ml_base_seed = None, ml_has_started = False, ml_active = None\<rparr>"

definition delivered_by :: "bool \<Rightarrow> (int list \<times> py_error option) option" where
  "delivered_by in_order =
    (case iterate_multi_iterable source_env [] (unordered_loader in_order) of
       Some (l, Inr it) \<Rightarrow> map_option (\<lambda>(it, vs, e). (sort vs, e)) (multi_run source_env busy_turns 3 it)
     | _ \<Rightarrow> None)"

text \<open>
  With \<^verbatim>\<open>in_order=False\<close> an iterable loader ends its epoch early: once a lane is exhausted the
  per-lane limit is rounded down below the total, no lane has room, and the runtime takes that for the
  end of the sampler.  Of four items in two lanes two are delivered.
\<close>

theorem unordered_lanes_truncate:
  "delivered_by False = Some ([10, 20], Some StopIteration)"
  by code_simp

text \<open>A sampler that draws its units from the generator in pairs.\<close>

definition block_env :: "(int list, int, int, int, int) lane_env" where
  "block_env = \<lparr>le_sampler = \<lambda>g. [],
     le_unit = \<lambda>s g. (case s of [] \<Rightarrow> ([10 * g + 1], g + 1, Inr (10 * g)) | u # us \<Rightarrow> (us, g, Inr u)),
     le_fetch = \<lambda>l u. (l + 1, Inr u), le_capture = \<lambda>l. [l], le_start = \<lambda>b w. Inr 0, le_restore = \<lambda>b l. Inr (hd b),
     le_reset = id, le_room = \<lambda>_ _. True, le_draw_seed = \<lambda>g. (g, g), le_source_bytes = \<lambda>g. [g], le_source_state = \<lambda>b. Inr (hd b)\<rparr>"

definition block_loader :: "(int list, int, int, int, int) multi_loader" where
  "block_loader = \<lparr>ml_workers = 2, ml_persistent = False, ml_prefetch = Some 1, ml_in_order = True, ml_iterable = False,
     ml_resume_on = True, ml_fingerprint = \<lparr>cf_elements = []\<rparr>, ml_source = 1, ml_resume = None, ml_pool = None,
     ml_base_seed = None, ml_has_started = False, ml_active = None\<rparr>"

text \<open>After one batch: what the iterator gives next, and what a loader resumed from its checkpoint gives.\<close>

definition interrupted :: "(int list \<times> int list) option" where
  "interrupted =
    (case iterate_multi_map block_env [] block_loader of
       Some (l, Inr it) \<Rightarrow>
         (case multi_run block_env busy_turns 1 it of
            Some (it, _, None) \<Rightarrow>
              (case multi_checkpoint block_env busy_turns (ml_fingerprint l) it of
                 Some (it, Inr checkpoint) \<Rightarrow>
                   (case (multi_run block_env busy_turns 2 it, resume_multi block_env block_loader checkpoint) of
                      (Some (_, vs, None), Some (_, Inr it')) \<Rightarrow>
                        (case multi_run block_env busy_turns 2 it' of Some (_, ws, None) \<Rightarrow> Some (vs, ws) | _ \<Rightarrow> None)
                    | _ \<Rightarrow> None)
               | _ \<Rightarrow> None)
          | _ \<Rightarrow> None)
     | _ \<Rightarrow> None)"


end
