(* ===== verification/CompatOrder.thy ===== *)
theory CompatOrder
  imports CompatPool CompatMulti
begin

text \<open>
  In order, over a map-style dataset, the lanes are torch's: unit \<open>k\<close> of the sampler is answered by lane
  \<open>k\<close> modulo the width, each lane takes its units in sequence, and the answers come in the sampler's
  order, whatever the lanes' speed.
\<close>

section \<open>Torch's order\<close>

text \<open>Units drawn from the sampler one after the other.\<close>

fun draw_units ::
    "('s, 'g, 'u, 'l, 'v) lane_env \<Rightarrow> nat \<Rightarrow> 's \<Rightarrow> 'g \<Rightarrow> ('s \<times> 'g \<times> 'u list) res" where
  "draw_units env 0 sampler g = Inr (sampler, g, [])"
| "draw_units env (Suc n) sampler g =
    (case le_unit env sampler g of
       (sampler, g, Inl e) \<Rightarrow> Inl e
     | (sampler, g, Inr u) \<Rightarrow> rmap (\<lambda>(sampler, g, us). (sampler, g, u # us)) (draw_units env n sampler g))"

lemma draw_units_snoc:
  "draw_units env n s g = Inr (s1, g1, us) \<Longrightarrow> le_unit env s1 g1 = (s2, g2, Inr u) \<Longrightarrow>
   draw_units env (Suc n) s g = Inr (s2, g2, us @ [u])"
proof (induction n arbitrary: s g us)
  case (Suc n)
  from Suc.prems(1) obtain s3 g3 x xs where x: "le_unit env s g = (s3, g3, Inr x)" "draw_units env n s3 g3 = Inr (s1, g1, xs)" "us = x # xs"
    by (auto simp: rmap_eq_Inr split: prod.splits sum.splits)
  from Suc.IH [OF x(2) Suc.prems(2)] x(1,3) show ?case by simp
qed simp

lemma draw_units_length: "draw_units env n s g = Inr (s1, g1, us) \<Longrightarrow> length us = n"
  by (induction n arbitrary: s g us) (auto simp: rmap_eq_Inr split: prod.splits sum.splits)

lemma draw_units_take:
  "draw_units env n s g = Inr (s1, g1, us) \<Longrightarrow> m \<le> n \<Longrightarrow> \<exists>s2 g2. draw_units env m s g = Inr (s2, g2, take m us)"
proof (induction n arbitrary: s g us m)
  case (Suc n)
  from Suc.prems(1) obtain s3 g3 x xs where x: "le_unit env s g = (s3, g3, Inr x)" "draw_units env n s3 g3 = Inr (s1, g1, xs)" "us = x # xs"
    by (auto simp: rmap_eq_Inr split: prod.splits sum.splits)
  show ?case
  proof (cases m)
    case (Suc k)
    with Suc.IH [OF x(2), of k] Suc.prems(2) x(1,3) show ?thesis by auto
  qed simp
qed simp

text \<open>Unit \<open>k\<close> is answered by the lane of the phase, each lane taking its units in order.\<close>

definition lane_of :: "int \<Rightarrow> int \<Rightarrow> int \<Rightarrow> int \<Rightarrow> int" where
  "lane_of W start phase k = (phase + k - start) mod W"

fun torch_answers ::
    "('s, 'g, 'u, 'l, 'v) lane_env \<Rightarrow> int \<Rightarrow> bool \<Rightarrow> (int \<Rightarrow> int) \<Rightarrow> int \<Rightarrow> 'u list \<Rightarrow> (int \<Rightarrow> 'l compat_lane) \<Rightarrow>
     'v lane_value res list" where
  "torch_answers env base cap owner k [] L = []"
| "torch_answers env base cap owner k (u # us) L =
    (case lane_dispatch env base cap False (owner k) (L (owner k)) k u of
       (lane, r) \<Rightarrow> r # torch_answers env base cap owner (k + 1) us (L(owner k := lane)))"

fun numbered :: "int \<Rightarrow> 'u list \<Rightarrow> (int \<times> 'u) list" where
  "numbered k [] = []"
| "numbered k (u # us) = (k, u) # numbered (k + 1) us"

lemma numbered_append: "numbered k (us @ vs) = numbered k us @ numbered (k + int (length us)) vs"
  by (induction us arbitrary: k) (simp_all add: algebra_simps)

lemma numbered_tasks: "fst ` set (numbered k us) = {k..<k + int (length us)}"
proof (induction us arbitrary: k)
  case (Cons u us)
  have "insert k {k + 1..<k + 1 + int (length us)} = {k..<k + int (length (u # us))}" by auto
  with Cons show ?case by simp
qed simp

lemma numbered_distinct: "distinct (map fst (numbered k us))"
proof (induction us arbitrary: k)
  case (Cons u us)
  then show ?case using numbered_tasks [of "k + 1" us] by auto
qed simp

lemma torch_answers_length [simp]: "length (torch_answers env base cap owner k us L) = length us"
  by (induction us arbitrary: k L) (simp_all add: case_prod_beta)

lemma torch_answers_take: "torch_answers env base cap owner k (take n us) L = take n (torch_answers env base cap owner k us L)"
  by (induction us arbitrary: k L n) (auto simp: take_Cons case_prod_beta split: nat.split)

lemma torch_answers_nth:
  "j < length us \<Longrightarrow> (k + int j, torch_answers env base cap owner k us L ! j) \<in>
    set (answers env base cap L owner (numbered k us) (owner (k + int j)))"
proof (induction us arbitrary: k L j)
  case (Cons u us)
  obtain lane r where d: "lane_dispatch env base cap False (owner k) (L (owner k)) k u = (lane, r)" by fastforce
  have a: "answers env base cap L owner (numbered k (u # us)) w =
      (if owner k = w then [(k, r)] else []) @ answers env base cap (L(owner k := lane)) owner (numbered (k + 1) us) w" for w
  proof (cases "owner k = w")
    case True
    then show ?thesis using d by (simp add: answers_def lane_tasks_def case_prod_beta True [symmetric])
  next
    case False
    then show ?thesis by (simp add: answers_def lane_tasks_def)
  qed
  show ?case
  proof (cases j)
    case 0
    have "(k, r) \<in> set (answers env base cap L owner (numbered k (u # us)) (owner k))" unfolding a by simp
    with 0 d show ?thesis by simp
  next
    case (Suc i)
    have "(k + 1 + int i, torch_answers env base cap owner (k + 1) us (L(owner k := lane)) ! i) \<in>
        set (answers env base cap (L(owner k := lane)) owner (numbered (k + 1) us) (owner (k + 1 + int i)))"
      using Suc Cons.prems by (intro Cons.IH) simp
    moreover have "k + 1 + int i = k + int j" using Suc by simp
    ultimately have "(k + int j, torch_answers env base cap owner (k + 1) us (L(owner k := lane)) ! i) \<in>
        set (answers env base cap L owner (numbered k (u # us)) (owner (k + int j)))" unfolding a by simp
    with Suc d show ?thesis by simp
  qed
qed simp

lemma answers_unique:
  assumes "distinct (map fst ts)" "(k, x) \<in> set (answers env base cap L owner ts w)" "(k, y) \<in> set (answers env base cap L owner ts w)"
  shows "x = y"
proof -
  have "distinct (map fst (answers env base cap L owner ts w))"
    using lane_tasks_distinct [OF assms(1)] by (simp add: answers_tasks)
  with assms(2,3) show ?thesis by (metis map_of_eq_Some_iff option.inject)
qed

section \<open>The runtime\<close>

definition roomy :: "('s, 'g, 'u, 'l, 'v) lane_env \<Rightarrow> int \<Rightarrow> bool" where
  \<comment> \<open>the transport accepts a command of a lane that owns fewer than the capacity it was built with\<close>
  "roomy env prefetch \<longleftrightarrow> (\<forall>w n. n < lane_capacity prefetch \<longrightarrow> le_room env w n)"

lemma lane_capacity_exceeds: "prefetch < lane_capacity prefetch"
proof -
  have "max 1 prefetch < 2 ^ bit_length (max 1 prefetch)" by (rule bit_length_upper) simp
  then show ?thesis by (simp add: lane_capacity_def push_bit_eq_mult)
qed

definition runtime_inv ::
    "('s, 'g, 'u, 'l, 'v) lane_env \<Rightarrow> int \<Rightarrow> int \<Rightarrow> int \<Rightarrow> bool \<Rightarrow> (int \<Rightarrow> 'l compat_lane) \<Rightarrow> int \<Rightarrow> int \<Rightarrow> 's \<Rightarrow> 'g \<Rightarrow> 'u list \<Rightarrow>
     ('s, 'g, 'u, 'l, 'v) lane_delivery \<Rightarrow> bool" where
  "runtime_inv env W prefetch base cap L start phase s0 g0 us s \<longleftrightarrow>
    0 < W \<and> cr_workers s = W \<and> cr_in_order s \<and> \<not> cr_iterable s \<and> cr_start_task s = start \<and> cr_phase s = phase \<and>
    cr_limit s = W * prefetch \<and> cr_next_task s = start + int (length us) \<and> start \<le> cr_next_delivery s \<and>
    cr_next_delivery s \<le> cr_next_task s \<and>
    (\<exists>s1 g1. draw_units env (length us) s0 g0 = Inr (s1, g1, us) \<and>
       (if cr_exhausted s then \<exists>s2 g2. le_unit env s1 g1 = (s2, g2, Inl StopIteration) else cr_sampler s = s1 \<and> cr_source s = g1)) \<and>
    (\<exists>rc dn. pool_inv env W base cap L (lane_of W start phase) (numbered start us) rc dn (cr_pool s)) \<and>
    dict_ok (cr_ready s) \<and>
    (\<forall>k v. dict_get (cr_ready s) k = Some v \<longrightarrow>
       (k, Inr v) \<in> set (answers env base cap L (lane_of W start phase) (numbered start us) (lane_of W start phase k))) \<and>
    dict_keys (cr_ready s) \<inter> dict_keys (lp_pending (cr_pool s)) = {} \<and>
    dict_keys (cr_ready s) \<union> dict_keys (lp_pending (cr_pool s)) = {cr_next_delivery s..<cr_next_task s}"

lemma runtime_invD:
  assumes "runtime_inv env W prefetch base cap L start phase s0 g0 us s"
  shows "0 < W" "cr_workers s = W" "cr_in_order s" "\<not> cr_iterable s" "cr_start_task s = start" "cr_phase s = phase"
    "cr_limit s = W * prefetch" "cr_next_task s = start + int (length us)" "start \<le> cr_next_delivery s"
    "cr_next_delivery s \<le> cr_next_task s"
    "\<exists>s1 g1. draw_units env (length us) s0 g0 = Inr (s1, g1, us) \<and>
       (if cr_exhausted s then \<exists>s2 g2. le_unit env s1 g1 = (s2, g2, Inl StopIteration) else cr_sampler s = s1 \<and> cr_source s = g1)"
    "\<exists>rc dn. pool_inv env W base cap L (lane_of W start phase) (numbered start us) rc dn (cr_pool s)"
    "dict_ok (cr_ready s)"
    "dict_get (cr_ready s) k = Some v \<Longrightarrow>
       (k, Inr v) \<in> set (answers env base cap L (lane_of W start phase) (numbered start us) (lane_of W start phase k))"
    "dict_keys (cr_ready s) \<inter> dict_keys (lp_pending (cr_pool s)) = {}"
    "dict_keys (cr_ready s) \<union> dict_keys (lp_pending (cr_pool s)) = {cr_next_delivery s..<cr_next_task s}"
  using assms unfolding runtime_inv_def by blast+

lemma outstanding_count:
  assumes "runtime_inv env W prefetch base cap L start phase s0 g0 us s"
  shows "int (length (cr_ready s)) + int (length (lp_pending (cr_pool s))) = cr_next_task s - cr_next_delivery s"
proof -
  note D = runtime_invD [OF assms]
  from D(12) have "dict_ok (lp_pending (cr_pool s))" using pool_invD(13) by blast
  then have "length (cr_ready s) + length (lp_pending (cr_pool s)) = card (dict_keys (cr_ready s)) + card (dict_keys (lp_pending (cr_pool s)))"
    using D(13) by (simp add: length_dict)
  also have "\<dots> = card (dict_keys (cr_ready s) \<union> dict_keys (lp_pending (cr_pool s)))"
    by (rule card_Un_disjoint [symmetric]) (simp_all only: D(15) finite_dict_keys)
  finally show ?thesis using D(10) by (simp add: D(16))
qed

text \<open>A lane owns fewer commands than it has room for: those of the window that share its residue.\<close>

lemma lane_has_room:
  assumes inv: "runtime_inv env W prefetch base cap L start phase s0 g0 us s" and room: "roomy env prefetch"
    and window: "cr_next_task s - cr_next_delivery s < W * prefetch"
  shows "le_room env (lane_of W start phase (cr_next_task s)) (pending_for (lane_of W start phase (cr_next_task s)) (cr_pool s))"
proof -
  let ?owner = "lane_of W start phase" and ?nt = "cr_next_task s" and ?nd = "cr_next_delivery s" and ?p = "lp_pending (cr_pool s)"
  let ?mine = "{k \<in> dict_keys ?p. dict_get ?p k = Some (?owner ?nt)}"
  note D = runtime_invD [OF inv]
  have W: "0 < W" by (rule D(1))
  from D(12) obtain rc dn where pool: "pool_inv env W base cap L ?owner (numbered start us) rc dn (cr_pool s)" by blast
  have ok: "dict_ok ?p" by (rule pool_invD(13) [OF pool])
  have own: "w = ?owner k" if "dict_get ?p k = Some w" for k w using that unfolding pool_invD(14) [OF pool] ..
  have get: "dict_get ?p k = Some w \<longleftrightarrow> (k, w) \<in> set ?p" for k w using ok by (simp add: dict_ok_def)
  let ?f = "filter (\<lambda>entry. snd entry = ?owner ?nt) ?p"
  have mine: "fst ` set ?f = ?mine"
  proof (intro set_eqI iffI)
    fix k assume "k \<in> fst ` set (filter (\<lambda>entry. snd entry = ?owner ?nt) ?p)"
    then have "(k, ?owner ?nt) \<in> set ?p" by auto
    then show "k \<in> ?mine" unfolding dict_keys_def mem_Collect_eq get by (metis fst_conv image_eqI)
  next
    fix k assume "k \<in> ?mine"
    then have "(k, ?owner ?nt) \<in> set ?p" unfolding mem_Collect_eq get by blast
    then show "k \<in> fst ` set (filter (\<lambda>entry. snd entry = ?owner ?nt) ?p)" by force
  qed
  have "distinct (map fst ?f)" using ok by (simp add: dict_ok_def distinct_map_filter)
  from distinct_card [OF this] have "card (fst ` set ?f) = length ?f" by (simp only: set_map length_map)
  then have count: "pending_for (?owner ?nt) (cr_pool s) = int (card ?mine)" unfolding mine pending_for_def by simp
  have "?mine \<subseteq> (\<lambda>j. ?nt - W * j) ` {1..prefetch - 1}"
  proof
    fix k assume k: "k \<in> ?mine"
    then have "k \<in> {?nd..<?nt}" using D(16) by blast
    then have r: "?nd \<le> k" "k < ?nt" by simp_all
    have "?owner k = ?owner ?nt" using k own by auto
    then have "(phase + ?nt - start) mod W = (phase + k - start) mod W" by (simp add: lane_of_def)
    then have "W dvd (phase + ?nt - start) - (phase + k - start)" by (rule mod_eq_dvd_iff [THEN iffD1])
    then have "W dvd ?nt - k" by (simp add: algebra_simps)
    then obtain j where j: "?nt - k = W * j" by (auto simp: dvd_def)
    have "0 < j" using j r(2) W by (metis diff_gt_0_iff_gt zero_less_mult_pos)
    moreover have "W * j < W * prefetch" using j r(1) window by simp
    then have "j < prefetch" using W by simp
    ultimately show "k \<in> (\<lambda>j. ?nt - W * j) ` {1..prefetch - 1}" using j by (intro image_eqI [of _ _ j]) auto
  qed
  then have "card ?mine \<le> card ((\<lambda>j. ?nt - W * j) ` {1..prefetch - 1})" by (rule card_mono [rotated]) simp
  also have "\<dots> \<le> card {1..prefetch - 1}" by (rule card_image_le) simp
  finally have "int (card ?mine) \<le> max 0 (prefetch - 1)" by simp
  then have "int (card ?mine) < lane_capacity prefetch"
    using lane_capacity_exceeds [of prefetch] by (auto simp: lane_capacity_def)
  with room count show ?thesis by (simp add: roomy_def)
qed

lemma answers_extend:
  "(k, r) \<in> set (answers env base cap L owner (numbered start us) w) \<Longrightarrow>
   (k, r) \<in> set (answers env base cap L owner (numbered start (us @ vs)) w)"
  using answers_append [of env base cap L owner "numbered start us" "numbered (start + int (length us)) vs" w]
  by (auto simp: numbered_append)

lemma fill_to_ok:
  assumes room: "roomy env prefetch"
  shows "runtime_inv env W prefetch base cap L start phase s0 g0 us s \<Longrightarrow> target \<le> W * prefetch \<Longrightarrow>
    fill_to env target s = Some (s', Inr ()) \<Longrightarrow>
    \<exists>more. runtime_inv env W prefetch base cap L start phase s0 g0 (us @ more) s' \<and>
      cr_next_delivery s' = cr_next_delivery s \<and> cr_ready s' = cr_ready s \<and> cr_closed s' = cr_closed s"
proof (induction "nat (target - (cr_next_task s - cr_next_delivery s))" arbitrary: s us rule: less_induct)
  case less
  note inv = less.prems(1)
  note count = outstanding_count [OF inv]
  show ?case
  proof (cases "cr_exhausted s \<or> target \<le> cr_next_task s - cr_next_delivery s")
    case True
    then have "fill_to env target s = Some (s, Inr ())" by (subst fill_to.simps) (auto simp: count)
    with less.prems(3) have "s' = s" by simp
    with inv show ?thesis by (intro exI [of _ "[]"]) simp
  next
    case False
    obtain sampler source r where unit: "le_unit env (cr_sampler s) (cr_source s) = (sampler, source, r)"
      by (cases "le_unit env (cr_sampler s) (cr_source s)") auto
    let ?s = "s\<lparr>cr_sampler := sampler, cr_source := source\<rparr>"
    have drawn: "draw_units env (length us) s0 g0 = Inr (cr_sampler s, cr_source s, us)"
      using inv False by (auto simp: runtime_inv_def)
    show ?thesis
    proof (cases r)
      case (Inl e)
      have "fill_to env target s = (if e = StopIteration then Some (?s\<lparr>cr_exhausted := True\<rparr>, Inr ()) else Some (?s, Inl e))"
        using False by (subst fill_to.simps) (simp add: count unit Inl)
      with less.prems(3) have s': "e = StopIteration" "s' = ?s\<lparr>cr_exhausted := True\<rparr>" by (auto split: if_splits)
      with inv drawn unit Inl show ?thesis by (intro exI [of _ "[]"]) (auto simp: runtime_inv_def)
    next
      case (Inr u)
      let ?owner = "lane_of W start phase" and ?nt = "cr_next_task s"
      have next_w: "next_worker ?s = (?s, Inr (Some (?owner ?nt)))"
        using inv by (simp add: next_worker_def runtime_inv_def lane_of_def)
      from inv obtain rc dn where pool: "pool_inv env W base cap L ?owner (numbered start us) rc dn (cr_pool s)"
        by (auto simp: runtime_inv_def)
      have nt: "?nt = start + int (length us)" using inv by (simp add: runtime_inv_def)
      have "?nt \<notin> fst ` set (numbered start us)" by (simp add: numbered_tasks nt)
      moreover have "?owner ?nt \<in> {0..<W}" using inv by (simp add: lane_of_def runtime_inv_def)
      moreover have "cr_next_task s - cr_next_delivery s < W * prefetch" using False less.prems(2) by simp
      ultimately obtain p where p: "lane_submit env ?nt u (?owner ?nt) (cr_pool s) = (p, Inr True)"
        "pool_inv env W base cap L ?owner (numbered start us @ [(?nt, u)]) rc dn p"
        "lp_pending p = dict_set ?nt (?owner ?nt) (lp_pending (cr_pool s))"
        using lane_submit_ok [OF pool] lane_has_room [OF inv room] by blast
      let ?t = "?s\<lparr>cr_pool := p, cr_next_task := ?nt + 1\<rparr>"
      have fill: "fill_to env target ?t = Some (s', Inr ())"
        using False less.prems(3) by (subst (asm) fill_to.simps) (simp add: count unit Inr next_w p(1))
      have keys: "dict_keys (cr_ready s) \<union> dict_keys (lp_pending (cr_pool s)) = {cr_next_delivery s..<?nt}"
        "dict_keys (cr_ready s) \<inter> dict_keys (lp_pending (cr_pool s)) = {}" using inv by (simp_all add: runtime_inv_def)
      have le: "cr_next_delivery s \<le> ?nt" using inv by (simp add: runtime_inv_def)
      have fresh: "?nt \<notin> dict_keys (cr_ready s)" using keys(1) by auto
      have keys': "dict_keys (cr_ready s) \<union> dict_keys (lp_pending p) = {cr_next_delivery s..<?nt + 1}"
        "dict_keys (cr_ready s) \<inter> dict_keys (lp_pending p) = {}"
        using keys fresh le by (auto simp: p(3))
      have "runtime_inv env W prefetch base cap L start phase s0 g0 (us @ [u]) ?t"
        unfolding runtime_inv_def
      proof (intro conjI)
        have "draw_units env (length (us @ [u])) s0 g0 = Inr (sampler, source, us @ [u])"
          using draw_units_snoc [OF drawn] unit Inr by simp
        then show "\<exists>s1 g1. draw_units env (length (us @ [u])) s0 g0 = Inr (s1, g1, us @ [u]) \<and>
            (if cr_exhausted ?t then \<exists>s2 g2. le_unit env s1 g1 = (s2, g2, Inl StopIteration) else cr_sampler ?t = s1 \<and> cr_source ?t = g1)"
          using False by simp
        show "\<exists>rc dn. pool_inv env W base cap L ?owner (numbered start (us @ [u])) rc dn (cr_pool ?t)"
          using p(2) nt by (auto simp: numbered_append)
        show "\<forall>k v. dict_get (cr_ready ?t) k = Some v \<longrightarrow>
            (k, Inr v) \<in> set (answers env base cap L ?owner (numbered start (us @ [u])) (?owner k))"
          using inv answers_extend by (fastforce simp: runtime_inv_def)
      qed (use inv keys' nt in \<open>simp_all add: runtime_inv_def\<close>)
      moreover have "nat (target - (cr_next_task ?t - cr_next_delivery ?t)) < nat (target - (?nt - cr_next_delivery s))"
        using False by simp
      ultimately obtain more where "runtime_inv env W prefetch base cap L start phase s0 g0 ((us @ [u]) @ more) s' \<and>
          cr_next_delivery s' = cr_next_delivery ?t \<and> cr_ready s' = cr_ready ?t \<and> cr_closed s' = cr_closed ?t"
        using less.hyps [of ?t "us @ [u]"] less.prems(2) fill by blast
      then show ?thesis by (intro exI [of _ "u # more"]) simp
    qed
  qed
qed

lemma answers_values:
  assumes "(k, Inr v) \<in> set (answers env base cap L owner ts w)"
  shows "v \<noteq> LaneExhausted x"
  using assms lane_process_map_values [of k x env base cap w "L w" "lane_tasks owner ts w"] by (auto simp: answers_def)

lemma runtime_frame:
  assumes inv: "runtime_inv env W prefetch base cap L start phase s0 g0 us s"
    and pool: "pool_inv env W base cap L (lane_of W start phase) (numbered start us) rc dn p" and ok: "dict_ok ready"
    and ans: "\<And>k v. dict_get ready k = Some v \<Longrightarrow>
      (k, Inr v) \<in> set (answers env base cap L (lane_of W start phase) (numbered start us) (lane_of W start phase k))"
    and keys: "dict_keys ready \<inter> dict_keys (lp_pending p) = {}" "dict_keys ready \<union> dict_keys (lp_pending p) = {nd..<cr_next_task s}"
    and nd: "start \<le> nd" "nd \<le> cr_next_task s"
  shows "runtime_inv env W prefetch base cap L start phase s0 g0 us (s\<lparr>cr_pool := p, cr_ready := ready, cr_next_delivery := nd\<rparr>)"
proof -
  note D = runtime_invD [OF inv]
  let ?s = "s\<lparr>cr_pool := p, cr_ready := ready, cr_next_delivery := nd\<rparr>"
  have pools: "\<exists>rc dn. pool_inv env W base cap L (lane_of W start phase) (numbered start us) rc dn p" using pool by blast
  have same: "cr_workers ?s = cr_workers s" "cr_in_order ?s = cr_in_order s" "cr_iterable ?s = cr_iterable s" "cr_start_task ?s = cr_start_task s"
    "cr_phase ?s = cr_phase s" "cr_limit ?s = cr_limit s" "cr_next_task ?s = cr_next_task s" "cr_next_delivery ?s = nd"
    "cr_exhausted ?s = cr_exhausted s" "cr_sampler ?s = cr_sampler s" "cr_source ?s = cr_source s" "cr_pool ?s = p" "cr_ready ?s = ready"
    by simp_all
  show ?thesis
    unfolding runtime_inv_def same
    by (intro conjI D(1-11) allI impI ans ok keys nd pools) assumption
qed

text \<open>One answer arrives.\<close>

lemma arrival_ok:
  assumes inv: "runtime_inv env W prefetch base cap L start phase s0 g0 us s"
    and recv: "lane_receive (cr_pool s) = (p, Inr (Some (k, v)))"
  shows "runtime_inv env W prefetch base cap L start phase s0 g0 us (accept_value k v (s\<lparr>cr_pool := p\<rparr>))"
    "cr_next_delivery (accept_value k v (s\<lparr>cr_pool := p\<rparr>)) = cr_next_delivery s"
proof -
  let ?owner = "lane_of W start phase" and ?ts = "numbered start us"
  note D = runtime_invD [OF inv]
  from D(12) obtain rc dn where pool: "pool_inv env W base cap L ?owner ?ts rc dn (cr_pool s)" by blast
  from lane_receive_ok(1) [OF pool recv [unfolded lane_receive_def]] obtain rc' where
    p: "pool_inv env W base cap L ?owner ?ts rc' dn p" "rc (?owner k) < length (lane_tasks ?owner ?ts (?owner k))"
      "answers env base cap L ?owner ?ts (?owner k) ! rc (?owner k) = (k, Inr v)"
      "lp_pending p = dict_del k (lp_pending (cr_pool s))" "dict_get (lp_pending (cr_pool s)) k = Some (?owner k)" by blast
  have ans: "(k, Inr v) \<in> set (answers env base cap L ?owner ?ts (?owner k))"
    using p(2,3) nth_mem [of "rc (?owner k)" "answers env base cap L ?owner ?ts (?owner k)"] by simp
  have acc: "accept_value k v (s\<lparr>cr_pool := p\<rparr>) = s\<lparr>cr_pool := p, cr_ready := dict_set k v (cr_ready s)\<rparr>"
    using answers_values [OF ans] by (cases v) (auto simp: accept_value_def)
  have k: "k \<in> dict_keys (lp_pending (cr_pool s))" by (rule dict_get_keys [OF p(5)])
  have keys: "dict_keys (dict_set k v (cr_ready s)) \<inter> dict_keys (lp_pending p) = {}"
    "dict_keys (dict_set k v (cr_ready s)) \<union> dict_keys (lp_pending p) = {cr_next_delivery s..<cr_next_task s}"
    using D(15,16) k by (auto simp: p(4))
  have ready: "(j, Inr x) \<in> set (answers env base cap L ?owner ?ts (?owner j))" if "dict_get (dict_set k v (cr_ready s)) j = Some x" for j x
    using that D(14) [of j x] ans by (simp split: if_splits)
  from D(13) have "dict_ok (dict_set k v (cr_ready s))" by simp
  from runtime_frame [OF inv p(1) this ready keys D(9,10)]
  show "runtime_inv env W prefetch base cap L start phase s0 g0 us (accept_value k v (s\<lparr>cr_pool := p\<rparr>))"
    unfolding acc by simp
  show "cr_next_delivery (accept_value k v (s\<lparr>cr_pool := p\<rparr>)) = cr_next_delivery s" by (simp add: acc)
qed

text \<open>The answer whose turn it is leaves.\<close>

lemma departure_ok:
  assumes inv: "runtime_inv env W prefetch base cap L start phase s0 g0 us s"
    and v: "dict_get (cr_ready s) (cr_next_delivery s) = Some v"
  shows "runtime_inv env W prefetch base cap L start phase s0 g0 us
    (s\<lparr>cr_ready := dict_del (cr_next_delivery s) (cr_ready s), cr_next_delivery := cr_next_delivery s + 1\<rparr>)"
proof -
  let ?nd = "cr_next_delivery s"
  note D = runtime_invD [OF inv]
  have nd: "?nd \<in> dict_keys (cr_ready s)" by (rule dict_get_keys [OF v])
  with D(16) have lt: "?nd < cr_next_task s" by auto
  have keys: "dict_keys (dict_del ?nd (cr_ready s)) \<inter> dict_keys (lp_pending (cr_pool s)) = {}"
    "dict_keys (dict_del ?nd (cr_ready s)) \<union> dict_keys (lp_pending (cr_pool s)) = {?nd + 1..<cr_next_task s}"
  proof -
    have "{?nd + 1..<cr_next_task s} = {?nd..<cr_next_task s} - {?nd}" by auto
    with D(15,16) nd show "dict_keys (dict_del ?nd (cr_ready s)) \<union> dict_keys (lp_pending (cr_pool s)) = {?nd + 1..<cr_next_task s}" by auto
    show "dict_keys (dict_del ?nd (cr_ready s)) \<inter> dict_keys (lp_pending (cr_pool s)) = {}" using D(15) by auto
  qed
  from D(12) obtain rc dn where pool: "pool_inv env W base cap L (lane_of W start phase) (numbered start us) rc dn (cr_pool s)" by blast
  have ready: "(k, Inr x) \<in> set (answers env base cap L (lane_of W start phase) (numbered start us) (lane_of W start phase k))"
    if "dict_get (dict_del ?nd (cr_ready s)) k = Some x" for k x using that D(14) [of k x] by (simp split: if_splits)
  from D(13) have "dict_ok (dict_del ?nd (cr_ready s))" by simp
  from runtime_frame [OF inv pool this ready keys] lt D(9) show ?thesis by simp
qed

lemma wait_for_lanes_pending:
  assumes "wait_for_lanes env turn p = (q, Inr ())"
  shows "lp_pending q = lp_pending p"
proof -
  have "lp_pending (fold (lane_step env) ws p) = lp_pending p" for ws
    by (induction ws arbitrary: p) (auto simp: lane_step_def split: list.split prod.split)
  with assms show ?thesis by (auto simp: wait_for_lanes_def check_lanes_def split: if_splits)
qed

lemma scan_workers_closed: "cr_closed (fst (scan_workers l n s)) = cr_closed s"
  by (induction n arbitrary: s) (auto simp: Let_def)

lemma next_worker_closed: "next_worker s = (s', w) \<Longrightarrow> cr_closed s' = cr_closed s"
  using scan_workers_closed [of "max 1 (cr_limit s div int (fcard (cr_active_workers s)))" "nat (cr_workers s)" s]
  by (auto simp: next_worker_def split: if_splits prod.splits)

lemma fill_to_keeps: "fill_to env target s = Some t \<Longrightarrow> cr_closed (fst t) = cr_closed s"
proof (induction rule: fill_to.raw_induct [rotated 1, consumes 1, case_names step])
  case (step f env target s t)
  show ?case
  proof (cases "cr_exhausted s \<or> target \<le> int (length (cr_ready s)) + int (length (lp_pending (cr_pool s)))")
    case False
    obtain sampler source q where unit: "le_unit env (cr_sampler s) (cr_source s) = (sampler, source, q)"
      by (cases "le_unit env (cr_sampler s) (cr_source s)") auto
    let ?s = "s\<lparr>cr_sampler := sampler, cr_source := source\<rparr>"
    obtain s1 w where worker: "next_worker ?s = (s1, w)" by fastforce
    have s1: "cr_closed s1 = cr_closed s" using next_worker_closed [OF worker] by simp
    show ?thesis
    proof (cases "\<exists>u k. q = Inr u \<and> w = Inr (Some k)")
      case True
      then obtain u k where uk: "q = Inr u" "w = Inr (Some k)" by blast
      obtain p a where p: "lane_submit env (cr_next_task s1) u k (cr_pool s1) = (p, a)" by fastforce
      show ?thesis
      proof (cases "a = Inr True")
        case True
        with step(2) False have "f env target (s1\<lparr>cr_pool := p, cr_next_task := cr_next_task s1 + 1\<rparr>) = Some t"
          by (simp add: unit uk worker p)
        from step(1) [OF this] s1 show ?thesis by simp
      qed (use step(2) False s1 in \<open>auto simp: unit uk worker p split: sum.splits if_splits\<close>)
    qed (use step(2) False s1 in \<open>cases q; auto simp: Let_def unit worker split: sum.splits option.splits if_splits\<close>)
  qed (use step(2) in auto)
qed

lemma fill_to_closed: "fill_to env target s = Some (s', r) \<Longrightarrow> cr_closed s' = cr_closed s"
  by (drule fill_to_keeps) simp

text \<open>One iteration of the loop of \<^verbatim>\<open>__next__\<close>: it delivers, closes, fails or goes on.\<close>

lemma lane_next_turn:
  assumes room: "roomy env prefetch" and inv: "runtime_inv env W prefetch base cap L start phase s0 g0 us s"
    and run: "lane_next env (turn # turns) s = Some (s', r)" and open_s: "\<not> cr_closed s"
  obtains
    (delivers) v more where "r = Inr v" "\<not> cr_closed s'" "runtime_inv env W prefetch base cap L start phase s0 g0 (us @ more) s'"
      "cr_next_delivery s' = cr_next_delivery s + 1"
      "(cr_next_delivery s, Inr v) \<in> set (answers env base cap L (lane_of W start phase) (numbered start (us @ more))
         (lane_of W start phase (cr_next_delivery s)))"
  | (closes) t more where "r = Inl StopIteration" "runtime_inv env W prefetch base cap L start phase s0 g0 (us @ more) t"
      "cr_exhausted t" "cr_next_delivery t = cr_next_delivery s" "cr_next_task t = cr_next_delivery t"
  | (fails) e where "r = Inl e" "\<not> cr_closed s'"
  | (goes_on) t more where "runtime_inv env W prefetch base cap L start phase s0 g0 (us @ more) t" "\<not> cr_closed t"
      "cr_next_delivery t = cr_next_delivery s" "lane_next env turns t = Some (s', r)"
proof -
  let ?owner = "lane_of W start phase" and ?inv = "runtime_inv env W prefetch base cap L start phase s0 g0"
  have limit: "cr_limit t \<le> W * prefetch" if "?inv ws t" for ws t using runtime_invD(7) [OF that] by simp
  have closed: "cr_closed y = cr_closed x" if "fill_lanes env x = Some (y, q)" for x y q
    using that unfolding fill_lanes_def by (rule fill_to_closed)
  from run open_s obtain s1 q where fill: "fill_lanes env s = Some (s1, q)" by (auto split: option.splits)
  with open_s closed have open1: "\<not> cr_closed s1" by simp
  show thesis
  proof (cases q)
    case (Inl e)
    with run open_s fill open1 show thesis by (intro fails) auto
  next
    case (Inr z)
    then have fill: "fill_lanes env s = Some (s1, Inr ())" using fill by simp
    from fill_to_ok [OF room inv limit [OF inv] fill [unfolded fill_lanes_def]] obtain m1 where
      s1: "?inv (us @ m1) s1" "cr_next_delivery s1 = cr_next_delivery s" by blast
    note D = runtime_invD [OF s1(1)]
    show thesis
    proof (cases "dict_get (cr_ready s1) (cr_next_delivery s1)")
      case (Some x)
      let ?s2 = "s1\<lparr>cr_ready := dict_del (cr_next_delivery s1) (cr_ready s1), cr_next_delivery := cr_next_delivery s1 + 1\<rparr>"
      have s2: "?inv (us @ m1) ?s2" by (rule departure_ok [OF s1(1) Some])
      have x: "(cr_next_delivery s, Inr x) \<in> set (answers env base cap L ?owner (numbered start (us @ m1)) (?owner (cr_next_delivery s)))"
        using D(14) [OF Some] s1(2) by simp
      have deliver: "case_lane_value (\<lambda>_. Some (t, Inr x)) (\<lambda>_. Some (t, Inr x)) (\<lambda>_. lane_next env turns t) x = Some (t, Inr x)" for t
        using answers_values [OF x] by (cases x) auto
      from run open_s fill D(3) Some obtain t q2 where fill2: "fill_lanes env ?s2 = Some (t, q2)"
        by (auto simp: next_ready_def split: option.splits)
      with closed open1 have open2: "\<not> cr_closed t" by fastforce
      show thesis
      proof (cases q2)
        case (Inl e)
        with run open_s fill D(3) Some fill2 open2 show thesis by (intro fails) (auto simp: next_ready_def)
      next
        case (Inr u)
        then have fill2: "fill_lanes env ?s2 = Some (t, Inr ())" using fill2 by simp
        with run open_s fill D(3) Some deliver have r: "r = Inr x" "s' = t" by (auto simp: next_ready_def)
        from fill_to_ok [OF room s2 limit [OF s2] fill2 [unfolded fill_lanes_def]] obtain m2 where
          t: "?inv ((us @ m1) @ m2) t" "cr_next_delivery t = cr_next_delivery ?s2" by blast
        from answers_extend [OF x, of m2] t s1(2) r open2 show thesis by (intro delivers [of x "m1 @ m2"]) simp_all
      qed
    next
      case None
      with D(3) have nr: "next_ready s1 = None" by (simp add: next_ready_def)
      show thesis
      proof (cases "cr_exhausted s1 \<and> lp_pending (cr_pool s1) = [] \<and> cr_ready s1 = []")
        case True
        with outstanding_count [OF s1(1)] have "cr_next_task s1 = cr_next_delivery s1" by simp
        with True run open_s fill nr s1 show thesis by (intro closes [of m1 s1]) auto
      next
        case False
        obtain p r1 where recv: "lane_receive (cr_pool s1) = (p, r1)" by fastforce
        from run open_s fill nr False recv consider (err) e where "r1 = Inl e" "s' = s1\<lparr>cr_pool := p\<rparr>" "r = Inl e"
          | (got) k x where "r1 = Inr (Some (k, x))" "lane_next env turns (accept_value k x (s1\<lparr>cr_pool := p\<rparr>)) = Some (s', r)"
          | (waited) o' w where "r1 = Inr None" "wait_for_lanes env turn p = (w, o')"
            "case o' of Inl e \<Rightarrow> s' = s1\<lparr>cr_pool := w\<rparr> \<and> r = Inl e | Inr _ \<Rightarrow> lane_next env turns (s1\<lparr>cr_pool := w\<rparr>) = Some (s', r)"
          by (auto split: sum.splits option.splits prod.splits)
        then show thesis
        proof cases
          case err
          with open1 show thesis by (intro fails) simp_all
        next
          case got
          have "\<not> cr_closed (accept_value k x (s1\<lparr>cr_pool := p\<rparr>))" using open1 by (simp add: accept_value_def Let_def split: lane_value.split)
          with got arrival_ok [OF s1(1) recv [unfolded got(1)]] s1(2) show thesis by (intro goes_on) simp_all
        next
          case waited
          show thesis
          proof (cases o')
            case (Inl e)
            with waited(3) open1 show thesis by (intro fails) simp_all
          next
            case (Inr u)
            with waited have wait: "wait_for_lanes env turn p = (w, Inr ())" "lane_next env turns (s1\<lparr>cr_pool := w\<rparr>) = Some (s', r)" by simp_all
            from D(12) obtain rc dn where pool: "pool_inv env W base cap L ?owner (numbered start (us @ m1)) rc dn (cr_pool s1)" by blast
            have p: "p = cr_pool s1" by (rule lane_receive_ok(2) [OF pool]) (use recv waited(1) in \<open>simp add: lane_receive_def\<close>)
            from wait_for_lanes_ok [OF pool wait(1) [unfolded p]] obtain dn' where
              w: "pool_inv env W base cap L ?owner (numbered start (us @ m1)) rc dn' w" by blast
            have pend: "lp_pending w = lp_pending (cr_pool s1)" by (rule wait_for_lanes_pending [OF wait(1) [unfolded p]])
            from runtime_frame [OF s1(1) w D(13) D(14) _ _ D(9,10)] D(15,16) have "?inv (us @ m1) (s1\<lparr>cr_pool := w\<rparr>)"
              by (simp add: pend)
            with wait(2) s1(2) open1 show thesis by (intro goes_on) simp_all
          qed
        qed
      qed
    qed
  qed
qed

lemma lane_next_value:
  assumes room: "roomy env prefetch"
  shows "runtime_inv env W prefetch base cap L start phase s0 g0 us s \<Longrightarrow> lane_next env turns s = Some (s', Inr v) \<Longrightarrow>
    \<exists>more. runtime_inv env W prefetch base cap L start phase s0 g0 (us @ more) s' \<and> \<not> cr_closed s' \<and>
      cr_next_delivery s' = cr_next_delivery s + 1 \<and>
      (cr_next_delivery s, Inr v) \<in> set (answers env base cap L (lane_of W start phase) (numbered start (us @ more))
         (lane_of W start phase (cr_next_delivery s)))"
proof (induction turns arbitrary: us s)
  case (Cons turn turns)
  have "\<not> cr_closed s" using Cons.prems(2) by (auto split: if_splits)
  show ?case
  proof (cases rule: lane_next_turn [OF room Cons.prems \<open>\<not> cr_closed s\<close>, case_names delivers closes fails goes_on])
    case (goes_on t more)
    from Cons.IH [OF goes_on(1,4)] goes_on(3) show ?thesis by (metis append.assoc)
  qed auto
qed (simp split: if_splits)

lemma lane_next_closes:
  assumes room: "roomy env prefetch"
  shows "runtime_inv env W prefetch base cap L start phase s0 g0 us s \<Longrightarrow> lane_next env turns s = Some (s', Inl e) \<Longrightarrow>
    \<not> cr_closed s \<Longrightarrow> cr_closed s' \<Longrightarrow>
    \<exists>more t. runtime_inv env W prefetch base cap L start phase s0 g0 (us @ more) t \<and> cr_exhausted t \<and>
      cr_next_delivery t = cr_next_delivery s \<and> cr_next_task t = cr_next_delivery t"
proof (induction turns arbitrary: us s)
  case (Cons turn turns)
  show ?case
  proof (cases rule: lane_next_turn [OF room Cons.prems(1-3), case_names delivers closes fails goes_on])
    case (goes_on t more)
    from Cons.IH [OF goes_on(1,4,2) Cons.prems(4)] goes_on(3) show ?thesis by (metis append.assoc)
  next
    case (closes t more)
    then show ?thesis by metis
  qed (use Cons.prems(4) in auto)
qed simp

section \<open>Epochs\<close>

text \<open>Calls of \<^verbatim>\<open>__next__\<close>, each with its own turns, up to the first exception.\<close>

fun multi_calls ::
    "('s, 'g, 'u, 'l, 'v) lane_env \<Rightarrow> lane_turn list list \<Rightarrow> ('s, 'g, 'u, 'l, 'v) multi_iterator \<Rightarrow>
     (('s, 'g, 'u, 'l, 'v) multi_iterator \<times> 'v list \<times> py_error option) option" where
  "multi_calls env [] it = Some (it, [], None)"
| "multi_calls env (turns # tss) it =
    (case multi_next env turns it of
       None \<Rightarrow> None
     | Some (it, Inl e) \<Rightarrow> Some (it, [], Some e)
     | Some (it, Inr v) \<Rightarrow> map_option (\<lambda>(it, vs, e). (it, v # vs, e)) (multi_calls env tss it))"

text \<open>
  Torch's own order, the specification: unit \<open>k\<close> goes to lane \<open>k mod W\<close>, a lane whose start failed
  answers every unit with that exception, and a lane keeps its state from unit to unit.
\<close>

fun torch_values ::
    "('s, 'g, 'u, 'l, 'v) lane_env \<Rightarrow> int \<Rightarrow> int \<Rightarrow> 'u list \<Rightarrow> (int \<Rightarrow> 'l res) \<Rightarrow> 'v res list" where
  "torch_values env W k [] L = []"
| "torch_values env W k (u # us) L =
    (case L (k mod W) of
       Inl e \<Rightarrow> Inl e # torch_values env W (k + 1) us L
     | Inr l \<Rightarrow> (case le_fetch env l u of (l, r) \<Rightarrow> r # torch_values env W (k + 1) us (L(k mod W := Inr l))))"

lemma torch_values_length [simp]: "length (torch_values env W k us L) = length us"
  by (induction us arbitrary: k L) (auto split: sum.split prod.split)

lemma torch_values_answers:
  assumes "\<And>k. owner k = k mod W"
  shows "map (\<lambda>r. rbind r plain_value) (torch_answers env base cap owner k us L) = torch_values env W k us L"
proof (induction us arbitrary: k L)
  case (Cons u us)
  show ?case
  proof (cases "L (k mod W)")
    case (Inl e)
    then have "L(k mod W := Inl e) = L" by auto
    with Inl Cons show ?thesis by (simp add: assms lane_dispatch_def)
  next
    case (Inr l)
    with Cons show ?thesis
      by (cases "le_fetch env l u") (auto simp: assms lane_dispatch_def fetch_batch_def fun_upd_def split: sum.split)
  qed
qed simp

lemma multi_calls_ok:
  assumes room: "roomy env prefetch"
  shows "runtime_inv env W prefetch base cap L start phase s0 g0 us (mi_runtime it) \<Longrightarrow> \<not> cr_closed (mi_runtime it) \<Longrightarrow>
    multi_calls env tss it = Some (it', vs, e) \<Longrightarrow>
    \<exists>more t. runtime_inv env W prefetch base cap L start phase s0 g0 (us @ more) t \<and>
      cr_next_delivery t = cr_next_delivery (mi_runtime it) + int (length vs) \<and>
      (\<forall>i < length vs. \<exists>v. plain_value v = Inr (vs ! i) \<and>
         (cr_next_delivery (mi_runtime it) + int i, Inr v) \<in> set (answers env base cap L (lane_of W start phase)
            (numbered start (us @ more)) (lane_of W start phase (cr_next_delivery (mi_runtime it) + int i)))) \<and>
      (cr_closed (mi_runtime it') \<longrightarrow> cr_exhausted t \<and> cr_next_task t = cr_next_delivery t)"
proof (induction tss arbitrary: us it vs)
  case Nil
  then show ?case by (intro exI [of _ "[]"] exI [of _ "mi_runtime it"]) simp
next
  case (Cons turns tss)
  let ?inv = "runtime_inv env W prefetch base cap L start phase s0 g0" and ?nd = "cr_next_delivery (mi_runtime it)"
  let ?ans = "\<lambda>ws k. answers env base cap L (lane_of W start phase) (numbered start ws) (lane_of W start phase k)"
  note inv = Cons.prems(1)
  have quiet: ?case if "vs = []" "mi_runtime it' = mi_runtime it"
    using that inv Cons.prems(2) by (intro exI [of _ "[]"] exI [of _ "mi_runtime it"]) simp
  show ?case
  proof (cases "mi_valid it")
    case False
    with Cons.prems(3) show ?thesis by (intro quiet) (auto simp: multi_next_def)
  next
    case True
    with Cons.prems(3) obtain s r where nx: "lane_next env turns (mi_runtime it) = Some (s, r)"
      by (auto simp: multi_next_def split: option.splits)
    show ?thesis
    proof (cases r)
      case (Inl x)
      with Cons.prems(3) True nx have out: "vs = []" "mi_runtime it' = s" by (auto simp: multi_next_def)
      show ?thesis
      proof (cases "cr_closed s")
        case False
        with out inv show ?thesis by (intro exI [of _ "[]"] exI [of _ "mi_runtime it"]) simp
      next
        case True
        from lane_next_closes [OF room inv nx [unfolded Inl] Cons.prems(2) True] out show ?thesis by auto
      qed
    next
      case (Inr v)
      from lane_next_value [OF room inv nx [unfolded Inr]] obtain more where
        s: "?inv (us @ more) s" "\<not> cr_closed s" "cr_next_delivery s = ?nd + 1" "(?nd, Inr v) \<in> set (?ans (us @ more) ?nd)" by blast
      show ?thesis
      proof (cases "if mi_tagged it then untagged v else plain_value v")
        case (Inl x)
        with Cons.prems(3) True nx Inr have out: "vs = []" "mi_runtime it' = s" by (auto simp: multi_next_def)
        with s(2) inv show ?thesis by (intro exI [of _ "[]"] exI [of _ "mi_runtime it"]) simp
      next
        case (Inr x)
        then have plain: "plain_value v = Inr x" by (cases v) (auto simp: untagged_def split: if_splits)
        let ?it = "it\<lparr>mi_runtime := s, mi_delivered := mi_delivered it + 1\<rparr>"
        from Cons.prems(3) True nx \<open>r = Inr v\<close> Inr obtain ws where
          rest: "multi_calls env tss ?it = Some (it', ws, e)" "vs = x # ws" by (auto simp: multi_next_def)
        from Cons.IH [OF _ _ rest(1), of "us @ more"] s(1,2) obtain m2 t where
          t: "?inv ((us @ more) @ m2) t" "cr_next_delivery t = cr_next_delivery s + int (length ws)"
            "\<forall>i < length ws. \<exists>v. plain_value v = Inr (ws ! i) \<and>
              (cr_next_delivery s + int i, Inr v) \<in> set (?ans ((us @ more) @ m2) (cr_next_delivery s + int i))"
            "cr_closed (mi_runtime it') \<longrightarrow> cr_exhausted t \<and> cr_next_task t = cr_next_delivery t" by auto
        have "\<exists>v. plain_value v = Inr (vs ! i) \<and> (?nd + int i, Inr v) \<in> set (?ans ((us @ more) @ m2) (?nd + int i))"
          if "i < length vs" for i
        proof (cases i)
          case 0
          with plain rest(2) answers_extend [OF s(4), of m2] show ?thesis by auto
        next
          case (Suc j)
          with that rest(2) have "j < length ws" by simp
          with t(3) obtain y where "plain_value y = Inr (ws ! j)"
            "(cr_next_delivery s + int j, Inr y) \<in> set (?ans ((us @ more) @ m2) (cr_next_delivery s + int j))" by blast
          moreover have "cr_next_delivery s + int j = ?nd + int i" using s(3) Suc by simp
          ultimately show ?thesis using Suc rest(2) by auto
        qed
        with t(1,2,4) s(3) rest(2) show ?thesis by (intro exI [of _ "more @ m2"] exI [of _ t]) simp
      qed
    qed
  qed
qed

definition prefetch_depth :: "int option \<Rightarrow> int" where
  "prefetch_depth f = (case f of None \<Rightarrow> 2 | Some f \<Rightarrow> if f = 0 then 2 else f)"

lemma new_lane_pool_inv:
  "pool_inv env W base cap (\<lambda>w. initialize_lane env base w (dict_get states w)) owner [] (\<lambda>_. 0) (\<lambda>_. 0)
     (new_lane_pool env W False base states cap)"
  by (simp add: pool_inv_def new_lane_pool_def lane_tasks_def answers_def)

lemma new_lane_delivery_ok:
  assumes W: "0 < W" and pf: "1 \<le> prefetch_depth f" and room: "roomy env (prefetch_depth f)"
    and pool: "pool_inv env W base cap L (lane_of W skip phase) [] rc dn p" "lp_pending p = []"
    and skipped: "skip_units env (nat skip) (le_sampler env g) g = (s0, g0, Inr ())"
    and new: "new_lane_delivery env W f True False pers p g skip phase d = Some (s, Inr ())"
  shows "\<exists>us. runtime_inv env W (prefetch_depth f) base cap L skip phase s0 g0 us s \<and> cr_next_delivery s = skip \<and> \<not> cr_closed s"
proof -
  let ?pf = "prefetch_depth f"
  let ?s = "\<lparr>cr_workers = W, cr_in_order = True, cr_iterable = False, cr_persistent = pers, cr_pool = p, cr_source = g0,
     cr_sampler = s0, cr_start_task = skip, cr_next_task = skip, cr_next_delivery = skip, cr_phase = phase,
     cr_active_workers = fset_of_list (irange 0 W), cr_worker_cursor = phase, cr_limit = W * ?pf, cr_ready = [],
     cr_exhausted = False, cr_closed = False\<rparr>"
  have inv: "runtime_inv env W ?pf base cap L skip phase s0 g0 [] ?s"
    using W pool by (auto simp: runtime_inv_def dict_ok_def dict_keys_def)
  have fill: "fill_to env ?pf ?s = Some (s, Inr ())"
    using new skipped by (simp add: new_lane_delivery_def prefetch_depth_def Let_def)
  have "?pf \<le> W * ?pf" using W pf by (simp add: mult_le_cancel_right1)
  from fill_to_ok [OF room inv this fill] show ?thesis by auto
qed

lemma start_multi_runtime:
  assumes "start_multi env cap reused l None = Some (l1, Inr it)" "le_draw_seed env (ml_source l) = (base, g)"
  shows "new_lane_delivery env (ml_workers l) (ml_prefetch l) (ml_in_order l) (ml_iterable l) (ml_persistent l)
      (new_lane_pool env (ml_workers l) (ml_iterable l) base [] cap) g 0 0 None = Some (mi_runtime it, Inr ())"
  using assms by (auto simp: start_multi_def Let_def split: sum.splits) (metis (full_types) old.unit.exhaust sum.exhaust)

lemma abandon_active_fields:
  "ml_source (abandon_active l) = ml_source l" "ml_workers (abandon_active l) = ml_workers l"
  "ml_prefetch (abandon_active l) = ml_prefetch l" "ml_in_order (abandon_active l) = ml_in_order l"
  "ml_iterable (abandon_active l) = ml_iterable l" "ml_persistent (abandon_active l) = ml_persistent l"
  by (auto simp: abandon_active_def split: option.split)

text \<open>
  C8: over a map-style dataset and in order, what an epoch delivers is what torch's rule gives for the
  units of the sampler, each exactly once and in the sampler's order, however fast the lanes are; an
  epoch that ends has delivered them all.
\<close>

theorem lanes_deliver_torch_order:
  assumes l: "0 < ml_workers l" "1 \<le> prefetch_depth (ml_prefetch l)" "ml_in_order l" "\<not> ml_iterable l"
      "ml_resume l = None" "\<not> retains_workers l"
    and room: "roomy env (prefetch_depth (ml_prefetch l))" and seed: "le_draw_seed env (ml_source l) = (base, g)"
    and iter: "iterate_multi_map env ts l = Some (l1, Inr it)" and run: "multi_calls env tss it = Some (it', vs, e)"
  shows "\<exists>us s1 g1. draw_units env (length us) (le_sampler env g) g = Inr (s1, g1, us) \<and>
    map Inr vs = take (length vs) (torch_values env (ml_workers l) 0 us (le_start env base)) \<and>
    (cr_closed (mi_runtime it') \<longrightarrow> length vs = length us \<and> (\<exists>s2 g2. le_unit env s1 g1 = (s2, g2, Inl StopIteration)))"
proof -
  let ?W = "ml_workers l" and ?cap = "ml_resume_on l" and ?L = "\<lambda>w. initialize_lane env base w None"
  have started: "start_multi env ?cap (ml_has_started l \<and> retains_workers l) (abandon_active l) None = Some (l1, Inr it)"
    using iter l(5,6) by (auto simp: iterate_multi_map_def take_pool_def split: option.splits)
  have "le_draw_seed env (ml_source (abandon_active l)) = (base, g)" using seed by (simp add: abandon_active_fields)
  from start_multi_runtime [OF started this, unfolded abandon_active_fields] l(3,4) have
    new: "new_lane_delivery env ?W (ml_prefetch l) True False (ml_persistent l) (new_lane_pool env ?W False base [] ?cap) g 0 0 None =
      Some (mi_runtime it, Inr ())"
    by simp
  have pool: "pool_inv env ?W base ?cap ?L (lane_of ?W 0 0) [] (\<lambda>_. 0) (\<lambda>_. 0) (new_lane_pool env ?W False base [] ?cap)"
    using new_lane_pool_inv [of env ?W base ?cap "[]" "lane_of ?W 0 0"] by simp
  obtain us0 where start: "runtime_inv env ?W (prefetch_depth (ml_prefetch l)) base ?cap ?L 0 0 (le_sampler env g) g us0 (mi_runtime it)"
    "cr_next_delivery (mi_runtime it) = 0" "\<not> cr_closed (mi_runtime it)"
    using new_lane_delivery_ok [OF l(1,2) room pool _ _ new] by (auto simp: new_lane_pool_def)
  from multi_calls_ok [OF room start(1,3) run] obtain more t where
    t: "runtime_inv env ?W (prefetch_depth (ml_prefetch l)) base ?cap ?L 0 0 (le_sampler env g) g (us0 @ more) t"
      "cr_next_delivery t = int (length vs)"
    and vals: "\<And>i. i < length vs \<Longrightarrow> \<exists>v. plain_value v = Inr (vs ! i) \<and>
        (int i, Inr v) \<in> set (answers env base ?cap ?L (lane_of ?W 0 0) (numbered 0 (us0 @ more)) (lane_of ?W 0 0 (int i)))"
    and ended: "cr_closed (mi_runtime it') \<longrightarrow> cr_exhausted t \<and> cr_next_task t = cr_next_delivery t"
    using start(2) by auto
  let ?us = "us0 @ more"
  note D = runtime_invD [OF t(1)]
  have len: "length vs \<le> length ?us" using D(8,10) t(2) by simp
  have torch: "map (\<lambda>r. rbind r plain_value) (torch_answers env base ?cap (lane_of ?W 0 0) 0 ?us ?L) = torch_values env ?W 0 ?us (le_start env base)"
  proof -
    have "?L w = le_start env base w" for w by (cases "le_start env base w") (simp_all add: initialize_lane_def)
    then have "?L = le_start env base" by (rule ext)
    then show ?thesis using torch_values_answers [of "lane_of ?W 0 0" ?W env base ?cap 0 ?us ?L] by (simp add: lane_of_def)
  qed
  have "map Inr vs = take (length vs) (torch_values env ?W 0 ?us (le_start env base))"
  proof (rule nth_equalityI)
    show "length (map Inr vs) = length (take (length vs) (torch_values env ?W 0 ?us (le_start env base)))" using len by simp
    fix i assume "i < length (map Inr vs)"
    then have i: "i < length vs" by simp
    with len have iu: "i < length ?us" by simp
    from vals [OF i] obtain v where v: "plain_value v = Inr (vs ! i)"
      "(int i, Inr v) \<in> set (answers env base ?cap ?L (lane_of ?W 0 0) (numbered 0 ?us) (lane_of ?W 0 0 (int i)))" by blast
    from torch_answers_nth [OF iu, of 0 env base ?cap "lane_of ?W 0 0" ?L]
    have "(int i, torch_answers env base ?cap (lane_of ?W 0 0) 0 ?us ?L ! i) \<in>
        set (answers env base ?cap ?L (lane_of ?W 0 0) (numbered 0 ?us) (lane_of ?W 0 0 (int i)))" by simp
    from answers_unique [OF numbered_distinct v(2) this] have "torch_answers env base ?cap (lane_of ?W 0 0) 0 ?us ?L ! i = Inr v" ..
    then have "torch_values env ?W 0 ?us (le_start env base) ! i = Inr (vs ! i)"
      unfolding torch [symmetric] using iu v(1) by simp
    with i show "map Inr vs ! i = take (length vs) (torch_values env ?W 0 ?us (le_start env base)) ! i" by simp
  qed
  moreover obtain s1 g1 where drawn: "draw_units env (length ?us) (le_sampler env g) g = Inr (s1, g1, ?us)"
    "if cr_exhausted t then \<exists>s2 g2. le_unit env s1 g1 = (s2, g2, Inl StopIteration) else cr_sampler t = s1 \<and> cr_source t = g1"
    using D(11) by blast
  moreover have "length vs = length ?us \<and> (\<exists>s2 g2. le_unit env s1 g1 = (s2, g2, Inl StopIteration))" if "cr_closed (mi_runtime it')"
    using ended that drawn(2) D(8) t(2) by simp
  ultimately show ?thesis by (intro exI [of _ ?us] exI [of _ s1] exI [of _ g1]) blast
qed

text \<open>Three units over two lanes that count what they have answered; the lanes wake one at a time.\<close>

definition queue_env :: "(int list, int, int, int, int) lane_env" where
  "queue_env = \<lparr>le_sampler = \<lambda>g. [7, 8, 9],
     le_unit = \<lambda>s g. (case s of [] \<Rightarrow> ([], g, Inl StopIteration) | u # us \<Rightarrow> (us, g, Inr u)),
     le_fetch = \<lambda>l u. (l + 1, Inr (100 * l + u)), le_capture = \<lambda>l. [l], le_start = \<lambda>b w. Inr (10 * b + w), le_restore = \<lambda>b l. Inr (hd b),
     le_reset = id, le_room = \<lambda>_ _. True, le_draw_seed = \<lambda>g. (g, g + 1), le_source_bytes = \<lambda>g. [g], le_source_state = \<lambda>b. Inr (hd b)\<rparr>"

definition late_turns :: "lane_turn list" where
  "late_turns = map (\<lambda>w. \<lparr>lt_progress = [w], lt_dead = False, lt_expired = False\<rparr>) [1, 1, 0, 0, 1, 0]"

definition late_epoch :: "(int list \<times> py_error option \<times> bool) option" where
  "late_epoch =
    (case iterate_multi_map queue_env [] block_loader of
       Some (_, Inr it) \<Rightarrow> map_option (\<lambda>(it', vs, e). (vs, e, cr_closed (mi_runtime it'))) (multi_calls queue_env (replicate 4 late_turns) it)
     | _ \<Rightarrow> None)"

theorem lanes_deliver_torch_order_witness:
  "late_epoch = Some ([1007, 1108, 1109], Some StopIteration, True) \<and>
   (\<exists>us s1 g1. draw_units queue_env (length us) [7, 8, 9] 2 = Inr (s1, g1, us) \<and> length us = 3 \<and>
      map Inr [1007, 1108, 1109] = take 3 (torch_values queue_env 2 0 us (le_start queue_env 1)))"
proof
  show ep: "late_epoch = Some ([1007, 1108, 1109], Some StopIteration, True)" by code_simp
  then obtain l1 it it' where it: "iterate_multi_map queue_env [] block_loader = Some (l1, Inr it)"
    "multi_calls queue_env (replicate 4 late_turns) it = Some (it', [1007, 1108, 1109], Some StopIteration)" "cr_closed (mi_runtime it')"
    by (auto simp: late_epoch_def split: option.splits prod.splits sum.splits)
  have l: "0 < ml_workers block_loader" "1 \<le> prefetch_depth (ml_prefetch block_loader)" "ml_in_order block_loader"
    "\<not> ml_iterable block_loader" "ml_resume block_loader = None" "\<not> retains_workers block_loader"
    by (simp_all add: block_loader_def prefetch_depth_def retains_workers_def)
  have room: "roomy queue_env (prefetch_depth (ml_prefetch block_loader))" by (simp add: roomy_def queue_env_def)
  have seed: "le_draw_seed queue_env (ml_source block_loader) = (1, 2)" by (simp add: queue_env_def block_loader_def)
  have sampler: "le_sampler queue_env 2 = [7, 8, 9]" "ml_workers block_loader = 2" by (simp_all add: queue_env_def block_loader_def)
  from lanes_deliver_torch_order [OF l room seed it(1,2), unfolded sampler] it(3) obtain us s1 g1 where
    us: "draw_units queue_env (length us) [7, 8, 9] 2 = Inr (s1, g1, us)" "length [1007, 1108, 1109 :: int] = length us"
      "map Inr [1007, 1108, 1109] = take (length [1007, 1108, 1109 :: int]) (torch_values queue_env 2 0 us (le_start queue_env 1))" by blast
  have n: "length [1007, 1108, 1109 :: int] = 3" by simp
  from us show "\<exists>us s1 g1. draw_units queue_env (length us) [7, 8, 9] 2 = Inr (s1, g1, us) \<and> length us = 3 \<and>
      map Inr [1007, 1108, 1109] = take 3 (torch_values queue_env 2 0 us (le_start queue_env 1))"
    unfolding n by (intro exI [of _ us] exI [of _ s1] exI [of _ g1] conjI) simp_all
qed

section \<open>An exception in a lane\<close>

text \<open>A runtime that waits for an answer nobody owes: it is neither held back nor on its way.\<close>

definition stuck :: "('s, 'g, 'u, 'l, 'v) lane_delivery \<Rightarrow> bool" where
  "stuck s \<longleftrightarrow> \<not> cr_closed s \<and> cr_exhausted s \<and> cr_in_order s \<and> dict_get (cr_ready s) (cr_next_delivery s) = None \<and>
    cr_ready s \<noteq> [] \<and> lp_pending (cr_pool s) = [] \<and>
    (\<forall>w \<in> set (irange 0 (lp_workers (cr_pool s))). lp_results (cr_pool s) w = [] \<and> lp_commands (cr_pool s) w = [])"

definition alive :: "int list \<Rightarrow> lane_turn list \<Rightarrow> bool" where
  "alive ws turns \<longleftrightarrow> (\<forall>turn \<in> set turns. set (lt_progress turn) \<subseteq> set ws \<and> \<not> lt_dead turn \<and> \<not> lt_expired turn)"

lemma idle_lanes: "\<forall>w \<in> set ws. lp_commands p w = [] \<Longrightarrow> fold (lane_step env) ws p = p"
  by (induction ws) (simp_all add: lane_step_def)

lemma nothing_received: "\<forall>w \<in> set ws. lp_results p w = [] \<Longrightarrow> lane_receive_from ws p = (p, Inr None)"
  by (induction ws) simp_all

lemma stuck_turn:
  assumes "stuck s" "alive (irange 0 (lp_workers (cr_pool s))) [turn]"
  shows "next_ready s = None" "lane_receive (cr_pool s) = (cr_pool s, Inr None)"
    "wait_for_lanes env turn (cr_pool s) = (cr_pool s, Inr ())" "fill_lanes env s = Some (s, Inr ())"
proof -
  have "fold (lane_step env) (lt_progress turn) (cr_pool s) = cr_pool s"
    using assms by (intro idle_lanes) (auto simp: stuck_def alive_def)
  then show "wait_for_lanes env turn (cr_pool s) = (cr_pool s, Inr ())"
    using assms(2) by (simp add: wait_for_lanes_def check_lanes_def alive_def)
  show "lane_receive (cr_pool s) = (cr_pool s, Inr None)"
    using assms(1) unfolding lane_receive_def by (intro nothing_received) (simp add: stuck_def)
  show "next_ready s = None" "fill_lanes env s = Some (s, Inr ())"
    using assms(1) by (simp_all add: stuck_def next_ready_def fill_lanes_def fill_to.simps)
qed

lemma stuck_forever:
  "stuck s \<Longrightarrow> alive (irange 0 (lp_workers (cr_pool s))) turns \<Longrightarrow> lane_next env turns s = None"
proof (induction turns)
  case (Cons turn turns)
  from Cons.prems(2) have "alive (irange 0 (lp_workers (cr_pool s))) [turn]" "alive (irange 0 (lp_workers (cr_pool s))) turns"
    by (simp_all add: alive_def)
  with Cons.IH [OF Cons.prems(1)] stuck_turn [OF Cons.prems(1), of turn] Cons.prems(1) show ?case
    by (simp add: stuck_def)
qed (simp add: stuck_def)

lemma stuck_after_fill:
  assumes "\<not> cr_closed s" "fill_lanes env s = Some (t, Inr ())" "stuck t" "alive (irange 0 (lp_workers (cr_pool t))) turns"
  shows "lane_next env turns s = None"
proof (cases turns)
  case (Cons turn rest)
  with assms(4) have a: "alive (irange 0 (lp_workers (cr_pool t))) [turn]" "alive (irange 0 (lp_workers (cr_pool t))) rest"
    by (simp_all add: alive_def)
  from stuck_turn [OF assms(3) a(1)] stuck_forever [OF assms(3) a(2), of env] assms(1-3) show ?thesis
    by (simp add: Cons stuck_def)
qed (use assms(1) in simp)

text \<open>Three units of which the second raises.\<close>

definition faulty_env :: "(int list, int, int, int, int) lane_env" where
  "faulty_env = queue_env\<lparr>le_fetch := \<lambda>l u. (l, if u = 8 then Inl (ValueError ''bad sample'') else Inr u)\<rparr>"

definition faulty_iterator :: "((int list, int, int, int, int) multi_iterator \<times> int list \<times> py_error option) option" where
  "faulty_iterator =
    (case iterate_multi_map faulty_env [] block_loader of
       Some (_, Inr it) \<Rightarrow>
         multi_calls faulty_env (replicate 2 (map (\<lambda>w. \<lparr>lt_progress = [w], lt_dead = False, lt_expired = False\<rparr>) [0, 0, 1, 0])) it
     | _ \<Rightarrow> None)"

definition waits :: "((int list, int, int, int, int) multi_iterator \<times> int list \<times> py_error option) option \<Rightarrow> bool" where
  "waits r = (case r of
     Some (it, _) \<Rightarrow> mi_valid it \<and> \<not> cr_closed (mi_runtime it) \<and>
       (case fill_lanes faulty_env (mi_runtime it) of Some (t, Inr _) \<Rightarrow> stuck t \<and> lp_workers (cr_pool t) = 2 | _ \<Rightarrow> False)
   | None \<Rightarrow> False)"



end
