(* ===== verification/Pinned.thy ===== *)
theory Pinned
  imports Calibration
begin

text \<open>
  Pinned delivery buffers (\<^verbatim>\<open>memory/pinned/pool.py\<close>, \<^verbatim>\<open>registration.py\<close>, \<^verbatim>\<open>delivery.py\<close>): batches are copied
  into reusable buffers, or the allocations behind a view source are registered with the device runtime
  instead.  Buffers are addresses of a store; what CPython's reference count says of a buffer is the set
  of buffers somebody else holds, an argument.
\<close>

section \<open>The buffer pool\<close>

text \<open>A batch: tensors to copy with their layout, values left as they are, and containers.\<close>

datatype ('k, 'm, 'x) batch_tree =
    Leaf 'm 'x
  | Other nat
  | Node nat "('k \<times> ('k, 'm, 'x) batch_tree) list"

record ('k, 'm, 'c) pinned_pool =
  pn_layouts :: "('k list \<times> 'm, int list) dict"
  pn_copied_bytes :: int
  pn_allocation_count :: int
  pn_held_events :: int
  pn_capacity_bytes :: int
  pn_store :: "int \<Rightarrow> 'c option"  \<comment> \<open>the contents of the buffers\<close>
  pn_building :: "int list"  \<comment> \<open>the buffers of the batch under construction, referred to by its containers\<close>

definition new_pinned_pool :: "('k, 'm, 'c) pinned_pool" where
  "new_pinned_pool =
    \<lparr>pn_layouts = [], pn_copied_bytes = 0, pn_allocation_count = 0, pn_held_events = 0, pn_capacity_bytes = 0,
     pn_store = \<lambda>_. None, pn_building = []\<rparr>"

text \<open>\<^verbatim>\<open>acquire\<close>: the first buffer of the layout nobody refers to, or a new one.\<close>

definition acquire ::
    "('m \<Rightarrow> int) \<Rightarrow> int set \<Rightarrow> 'k list \<Rightarrow> 'm \<Rightarrow> ('k, 'm, 'c) pinned_pool \<Rightarrow> ('k, 'm, 'c) pinned_pool \<times> int" where
  "acquire bytes held path layout p =
    (let key = (path, layout);
         tensors = (case dict_get (pn_layouts p) key of None \<Rightarrow> [] | Some ts \<Rightarrow> ts);
         p = p\<lparr>pn_layouts := dict_set key tensors (pn_layouts p)\<rparr>
     in case find (\<lambda>b. b \<notin> held \<and> b \<notin> set (pn_building p)) tensors of
          Some b \<Rightarrow> (p, b)
        | None \<Rightarrow>
            let b = pn_allocation_count p in
            (p\<lparr>pn_held_events := pn_held_events p + (if tensors = [] then 0 else 1),
               pn_layouts := dict_set key (tensors @ [b]) (pn_layouts p),
               pn_allocation_count := pn_allocation_count p + 1,
               pn_capacity_bytes := max (pn_capacity_bytes p) (bytes layout)\<rparr>, b))"

definition stage_tensor ::
    "('m \<Rightarrow> int) \<Rightarrow> int set \<Rightarrow> 'k list \<Rightarrow> 'm \<Rightarrow> 'c \<Rightarrow> ('k, 'm, 'c) pinned_pool \<Rightarrow> ('k, 'm, 'c) pinned_pool \<times> int" where
  "stage_tensor bytes held path layout c p =
    (case acquire bytes held path layout p of
       (p, b) \<Rightarrow> (p\<lparr>pn_store := (pn_store p)(b \<mapsto> c), pn_copied_bytes := pn_copied_bytes p + bytes layout,
                   pn_building := b # pn_building p\<rparr>, b))"

fun stage_tree ::
    "('m \<Rightarrow> int) \<Rightarrow> int set \<Rightarrow> 'k list \<Rightarrow> ('k, 'm, 'c) batch_tree \<Rightarrow> ('k, 'm, 'c) pinned_pool \<Rightarrow>
     ('k, 'm, 'c) pinned_pool \<times> ('k, 'm, int) batch_tree"
  and stage_items :: "('m \<Rightarrow> int) \<Rightarrow> int set \<Rightarrow> 'k list \<Rightarrow> ('k \<times> ('k, 'm, 'c) batch_tree) list \<Rightarrow> ('k, 'm, 'c) pinned_pool \<Rightarrow> ('k, 'm, 'c) pinned_pool \<times> ('k \<times> ('k, 'm, int) batch_tree) list" where
  "stage_tree bytes held path (Leaf layout c) p =
    (case stage_tensor bytes held path layout c p of (p, b) \<Rightarrow> (p, Leaf layout b))"
| "stage_tree bytes held path (Other n) p = (p, Other n)"
| "stage_tree bytes held path (Node kind items) p =
    (case stage_items bytes held path items p of (p, items) \<Rightarrow> (p, Node kind items))"
| "stage_items bytes held path [] p = (p, [])"
| "stage_items bytes held path ((k, t) # items) p =
    (case stage_tree bytes held (path @ [k]) t p of
       (p, t) \<Rightarrow> (case stage_items bytes held path items p of (p, items) \<Rightarrow> (p, (k, t) # items)))"

text \<open>\<^verbatim>\<open>stage\<close>: the containers under construction are the batch's own; \<^verbatim>\<open>close\<close> forgets the buffers.\<close>

definition pool_stage ::
    "('m \<Rightarrow> int) \<Rightarrow> int set \<Rightarrow> ('k, 'm, 'c) batch_tree \<Rightarrow> ('k, 'm, 'c) pinned_pool \<Rightarrow>
     ('k, 'm, 'c) pinned_pool \<times> ('k, 'm, int) batch_tree" where
  "pool_stage bytes held t p = stage_tree bytes held [] t (p\<lparr>pn_building := []\<rparr>)"

definition close_pinned_pool :: "('k, 'm, 'c) pinned_pool \<Rightarrow> ('k, 'm, 'c) pinned_pool" where
  "close_pinned_pool p = p\<lparr>pn_layouts := []\<rparr>"

section \<open>Staging is a copy\<close>

text \<open>Reading a staged batch through the store.\<close>

fun read_tree :: "(int \<Rightarrow> 'c option) \<Rightarrow> ('k, 'm, int) batch_tree \<Rightarrow> ('k, 'm, 'c) batch_tree option"
and read_items :: "(int \<Rightarrow> 'c option) \<Rightarrow> ('k \<times> ('k, 'm, int) batch_tree) list \<Rightarrow> ('k \<times> ('k, 'm, 'c) batch_tree) list option" where
  "read_tree st (Leaf layout b) = map_option (Leaf layout) (st b)"
| "read_tree st (Other n) = Some (Other n)"
| "read_tree st (Node kind items) = map_option (Node kind) (read_items st items)"
| "read_items st [] = Some []"
| "read_items st ((k, t) # items) =
    Option.bind (read_tree st t) (\<lambda>t. map_option (Cons (k, t)) (read_items st items))"

fun tree_buffers :: "('k, 'm, 'x) batch_tree \<Rightarrow> 'x list" and items_buffers :: "('k \<times> ('k, 'm, 'x) batch_tree) list \<Rightarrow> 'x list" where
  "tree_buffers (Leaf layout b) = [b]"
| "tree_buffers (Other n) = []"
| "tree_buffers (Node kind items) = items_buffers items"
| "items_buffers [] = []"
| "items_buffers ((k, t) # items) = tree_buffers t @ items_buffers items"

fun tree_bytes :: "('m \<Rightarrow> int) \<Rightarrow> ('k, 'm, 'x) batch_tree \<Rightarrow> int" and items_bytes :: "('m \<Rightarrow> int) \<Rightarrow> ('k \<times> ('k, 'm, 'x) batch_tree) list \<Rightarrow> int" where
  "tree_bytes bytes (Leaf layout b) = bytes layout"
| "tree_bytes bytes (Other n) = 0"
| "tree_bytes bytes (Node kind items) = items_bytes bytes items"
| "items_bytes bytes [] = 0"
| "items_bytes bytes ((k, t) # items) = tree_bytes bytes t + items_bytes bytes items"

text \<open>Every buffer of the pool, and every one under construction, has been allocated.\<close>

definition buffers_ok :: "('k, 'm, 'c) pinned_pool \<Rightarrow> bool" where
  "buffers_ok p \<longleftrightarrow> (\<forall>key ts. dict_get (pn_layouts p) key = Some ts \<longrightarrow> set ts \<subseteq> {0..<pn_allocation_count p}) \<and>
    set (pn_building p) \<subseteq> {0..<pn_allocation_count p} \<and> 0 \<le> pn_allocation_count p"

lemma layouts_set:
  "\<forall>key ts. dict_get d key = Some ts \<longrightarrow> set ts \<subseteq> A \<Longrightarrow> set us \<subseteq> A \<Longrightarrow>
   dict_get (dict_set k us d) key = Some ts \<Longrightarrow> set ts \<subseteq> A"
  by (simp split: if_splits)

lemma find_member: "find P xs = Some x \<Longrightarrow> x \<in> set xs \<and> P x"
  by (auto simp: find_Some_iff)

lemma acquire_ok:
  assumes ok: "buffers_ok p" and held: "held \<subseteq> {..<pn_allocation_count p}" and acq: "acquire bytes held path layout p = (q, b)"
  shows "buffers_ok q \<and> b \<notin> held \<and> b \<notin> set (pn_building p) \<and> b \<in> {0..<pn_allocation_count q} \<and>
    pn_store q = pn_store p \<and> pn_building q = pn_building p \<and> pn_copied_bytes q = pn_copied_bytes p \<and>
    pn_allocation_count p \<le> pn_allocation_count q"
proof -
  let ?key = "(path, layout)"
  let ?ts = "case dict_get (pn_layouts p) ?key of None \<Rightarrow> [] | Some ts \<Rightarrow> ts"
  have ts: "set ?ts \<subseteq> {0..<pn_allocation_count p}"
    using ok by (cases "dict_get (pn_layouts p) ?key") (auto simp: buffers_ok_def)
  have ok': "\<forall>key ts. dict_get (pn_layouts p) key = Some ts \<longrightarrow> set ts \<subseteq> {0..<pn_allocation_count p}"
    "set (pn_building p) \<subseteq> {0..<pn_allocation_count p}" "0 \<le> pn_allocation_count p"
    using ok by (simp_all add: buffers_ok_def)
  note old = layouts_set [OF ok'(1) ts]
  show ?thesis
  proof (cases "find (\<lambda>b. b \<notin> held \<and> b \<notin> set (pn_building p)) ?ts")
    case None
    with acq have q: "q = p\<lparr>pn_layouts := dict_set ?key (?ts @ [pn_allocation_count p]) (pn_layouts p),
        pn_held_events := pn_held_events p + (if ?ts = [] then 0 else 1), pn_allocation_count := pn_allocation_count p + 1,
        pn_capacity_bytes := max (pn_capacity_bytes p) (bytes layout)\<rparr>" "b = pn_allocation_count p"
      by (auto simp: acquire_def Let_def)
    have fresh: "pn_allocation_count p \<notin> set (pn_building p)" "pn_allocation_count p \<notin> held" using ok'(2) held by auto
    have wide: "{0..<pn_allocation_count p} \<subseteq> {0..<pn_allocation_count p + 1}" by auto
    have "\<forall>key us. dict_get (pn_layouts p) key = Some us \<longrightarrow> set us \<subseteq> {0..<pn_allocation_count p + 1}"
      using ok'(1) wide by blast
    moreover have "set (?ts @ [pn_allocation_count p]) \<subseteq> {0..<pn_allocation_count p + 1}" using ts wide ok'(3) by auto
    ultimately have "set us \<subseteq> {0..<pn_allocation_count p + 1}"
      if "dict_get (dict_set ?key (?ts @ [pn_allocation_count p]) (pn_layouts p)) key = Some us" for key us
      using that by (rule layouts_set)
    moreover have "set (pn_building p) \<subseteq> {0..<pn_allocation_count p + 1}" using ok'(2) wide by blast
    ultimately have "buffers_ok q" using ok'(3) unfolding q buffers_ok_def by simp
    with fresh ok'(3) show ?thesis by (simp add: q)
  next
    case (Some c)
    with acq have q: "q = p\<lparr>pn_layouts := dict_set ?key ?ts (pn_layouts p)\<rparr>" "b = c" by (simp_all add: acquire_def Let_def)
    from find_member [OF Some] have "c \<in> set ?ts" "c \<notin> held" "c \<notin> set (pn_building p)" by blast+
    moreover have "buffers_ok q" using ok'(2,3) old unfolding q buffers_ok_def by simp
    ultimately show ?thesis using ts by (auto simp: q)
  qed
qed

lemma read_tree_cong:
  fixes u :: "('k, 'm, int) batch_tree" and us :: "('k \<times> ('k, 'm, int) batch_tree) list"
  shows "\<forall>b \<in> set (tree_buffers u). st b = st' b \<Longrightarrow> read_tree st u = read_tree st' u"
  "\<forall>b \<in> set (items_buffers us). st b = st' b \<Longrightarrow> read_items st us = read_items st' us"
  by (induction u and us rule: tree_buffers_items_buffers.induct) auto

text \<open>What staging a part of a batch does: its buffers are new to everybody, the others keep their contents.\<close>

definition staged_ok ::
    "int set \<Rightarrow> ('k, 'm, 'c) pinned_pool \<Rightarrow> ('k, 'm, 'c) pinned_pool \<Rightarrow> int list \<Rightarrow> int \<Rightarrow> bool" where
  "staged_ok held p q bs n \<longleftrightarrow>
    buffers_ok q \<and> pn_allocation_count p \<le> pn_allocation_count q \<and> distinct bs \<and> set bs \<inter> (held \<union> set (pn_building p)) = {} \<and>
    set (pn_building q) = set (pn_building p) \<union> set bs \<and> (\<forall>b \<in> held \<union> set (pn_building p). pn_store q b = pn_store p b) \<and>
    pn_copied_bytes q = pn_copied_bytes p + n"

lemma staged_ok_refl: "buffers_ok p \<Longrightarrow> staged_ok held p p [] 0"
  by (simp add: staged_ok_def)

lemma staged_ok_trans:
  "staged_ok held p q bs n \<Longrightarrow> staged_ok held q r cs m \<Longrightarrow> staged_ok held p r (bs @ cs) (n + m)"
  unfolding staged_ok_def by auto

lemma stage_tensor_ok:
  assumes ok: "buffers_ok p" "held \<subseteq> {..<pn_allocation_count p}" and st: "stage_tensor bytes held path layout c p = (q, b)"
  shows "staged_ok held p q [b] (bytes layout) \<and> pn_store q b = Some c"
proof -
  obtain r where r: "acquire bytes held path layout p = (r, b)"
    and q: "q = r\<lparr>pn_store := (pn_store r)(b \<mapsto> c), pn_copied_bytes := pn_copied_bytes r + bytes layout, pn_building := b # pn_building r\<rparr>"
    using st by (auto simp: stage_tensor_def split: prod.splits)
  from acquire_ok [OF ok r] show ?thesis by (auto simp: q staged_ok_def buffers_ok_def)
qed

lemma stage_tree_ok:
  "buffers_ok p \<Longrightarrow> held \<subseteq> {..<pn_allocation_count p} \<Longrightarrow> stage_tree bytes held path t p = (q, u) \<Longrightarrow>
     staged_ok held p q (tree_buffers u) (tree_bytes bytes t) \<and> read_tree (pn_store q) u = Some t"
  "buffers_ok p \<Longrightarrow> held \<subseteq> {..<pn_allocation_count p} \<Longrightarrow> stage_items bytes held path ts p = (q, us) \<Longrightarrow>
     staged_ok held p q (items_buffers us) (items_bytes bytes ts) \<and> read_items (pn_store q) us = Some ts"
proof (induction bytes held path t p and bytes held path ts p arbitrary: q u and q us rule: stage_tree_stage_items.induct)
  case (1 bytes held path layout c p)
  then show ?case using stage_tensor_ok [OF 1(1,2)] by (auto split: prod.splits)
next
  case (5 bytes held path k t items p)
  from 5(5) obtain r v vs where r: "stage_tree bytes held (path @ [k]) t p = (r, v)" "stage_items bytes held path items r = (q, vs)" "us = (k, v) # vs"
    by (auto split: prod.splits)
  from 5(1) [OF 5(3,4) r(1)] have a: "staged_ok held p r (tree_buffers v) (tree_bytes bytes t)" "read_tree (pn_store r) v = Some t" by simp_all
  have "buffers_ok r" "held \<subseteq> {..<pn_allocation_count r}" using a(1) 5(4) by (auto simp: staged_ok_def)
  from 5(2) [OF r(1) [symmetric] this r(2)] have b: "staged_ok held r q (items_buffers vs) (items_bytes bytes items)"
    "read_items (pn_store q) vs = Some items" by simp_all
  have "\<forall>x \<in> set (tree_buffers v). pn_store q x = pn_store r x" using a(1) b(1) by (auto simp: staged_ok_def)
  then have "read_tree (pn_store q) v = read_tree (pn_store r) v" by (rule read_tree_cong)
  with a(2) b(2) staged_ok_trans [OF a(1) b(1)] show ?case by (simp add: r(3))
qed (auto simp: staged_ok_refl split: prod.splits)



end
