(* ===== verification/Telemetry.thy ===== *)
theory Telemetry
  imports PyValue
begin

text \<open>
  Delivery telemetry (\<^verbatim>\<open>fallback/telemetry.py\<close>, \<^verbatim>\<open>telemetry/delivery.py\<close>) and the byte ledger
  (\<^verbatim>\<open>memory/accounting.py\<close>).  Clock readings are arguments, floats exact rationals.
\<close>

section \<open>The recorder\<close>

record decision =
  dc_previous_width :: int
  dc_width :: int
  dc_reason :: string
  dc_starvation :: bool
  dc_resource_loss :: rat
  dc_binding :: "string option"

record summary =
  sm_ceiling_binds :: int
  sm_decisions :: "decision list"
  sm_batches :: int
  sm_bytes :: int
  sm_samples :: int
  sm_p50 :: int
  sm_p95 :: int
  sm_p99 :: int
  sm_rate :: rat
  sm_epoch :: int
  sm_gil_restore_events :: int
  sm_stall_events :: int

record telemetry =
  tm_constructed_at :: int
  tm_last_delivery_at :: int
  tm_startup_ns :: int
  tm_last_epoch :: "summary option"
  tm_samples :: int
  tm_batches :: int
  tm_bytes :: int
  tm_interval_ns :: int
  tm_latencies :: "int list"
  tm_stall_events :: int
  tm_gil_restore_events :: int
  tm_decisions :: "decision list"

definition reset_current :: "telemetry \<Rightarrow> telemetry" where
  "reset_current t =
    t\<lparr>tm_samples := 0, tm_batches := 0, tm_bytes := 0, tm_interval_ns := 0, tm_latencies := [],
      tm_stall_events := 0, tm_gil_restore_events := 0, tm_decisions := []\<rparr>"

definition new_telemetry :: "int \<Rightarrow> telemetry" where
  "new_telemetry now =
    \<lparr>tm_constructed_at = now, tm_last_delivery_at = now, tm_startup_ns = 0, tm_last_epoch = None, tm_samples = 0,
     tm_batches = 0, tm_bytes = 0, tm_interval_ns = 0, tm_latencies = [], tm_stall_events = 0,
     tm_gil_restore_events = 0, tm_decisions = []\<rparr>"

definition record_startup :: "int \<Rightarrow> telemetry \<Rightarrow> telemetry" where
  "record_startup nanoseconds t = t\<lparr>tm_startup_ns := max (tm_startup_ns t) nanoseconds\<rparr>"

definition record_startup_now :: "int \<Rightarrow> telemetry \<Rightarrow> telemetry" where
  "record_startup_now now t = (record_startup (now - tm_constructed_at t) t)\<lparr>tm_last_delivery_at := now\<rparr>"

definition add_counts :: "int \<Rightarrow> int \<Rightarrow> int \<Rightarrow> int \<Rightarrow> telemetry \<Rightarrow> telemetry" where
  "add_counts samples batches bytes now t =
    t\<lparr>tm_samples := tm_samples t + samples, tm_batches := tm_batches t + batches, tm_bytes := tm_bytes t + bytes,
      tm_interval_ns := tm_interval_ns t + (now - tm_last_delivery_at t), tm_last_delivery_at := now\<rparr>"

definition latency_bucket :: "int \<Rightarrow> int" where
  "latency_bucket v = (if v \<le> 0 then 0 else push_bit (bit_length v) 1 - 1)"

definition record_deliveries :: "int \<Rightarrow> int \<Rightarrow> int \<Rightarrow> int \<Rightarrow> int \<Rightarrow> telemetry \<Rightarrow> telemetry" where
  "record_deliveries samples batches bytes latency_ns now t =
    (let t = record_startup (now - tm_constructed_at t) t;
         t = add_counts samples batches bytes now t
     in t\<lparr>tm_latencies := tm_latencies t @ [latency_bucket latency_ns]\<rparr>)"

definition record_delivery :: "int \<Rightarrow> int \<Rightarrow> int \<Rightarrow> int \<Rightarrow> telemetry \<Rightarrow> telemetry" where
  "record_delivery samples bytes latency_ns now t = record_deliveries samples 1 bytes latency_ns now t"

definition record_counts :: "int \<Rightarrow> int \<Rightarrow> int \<Rightarrow> int \<Rightarrow> telemetry \<Rightarrow> telemetry" where
  "record_counts samples batches bytes now t =
    add_counts samples batches bytes now (record_startup (now - tm_constructed_at t) t)"

definition record_stall :: "telemetry \<Rightarrow> telemetry" where
  "record_stall t = t\<lparr>tm_stall_events := tm_stall_events t + 1\<rparr>"

definition record_gil_restore :: "telemetry \<Rightarrow> telemetry" where
  "record_gil_restore t = t\<lparr>tm_gil_restore_events := tm_gil_restore_events t + 1\<rparr>"

definition record_controller :: "decision \<Rightarrow> telemetry \<Rightarrow> telemetry" where
  "record_controller d t = t\<lparr>tm_decisions := tm_decisions t @ [d]\<rparr>"

text \<open>The nearest-rank quantile of the sorted buckets; \<^verbatim>\<open>int\<close> of a nonnegative float is its floor.\<close>

definition quantile :: "rat \<Rightarrow> int list \<Rightarrow> int" where
  "quantile fraction latencies =
    (let n = int (length latencies) in
     if latencies = [] then 0 else latencies ! nat (min (n - 1) \<lfloor>fraction * of_int n\<rfloor>))"

definition summarise :: "int \<Rightarrow> telemetry \<Rightarrow> summary" where
  "summarise epoch t =
    (let latencies = sort (tm_latencies t) in
     \<lparr>sm_ceiling_binds = int (length (filter (\<lambda>d. dc_binding d \<noteq> None) (tm_decisions t))), sm_decisions = tm_decisions t,
      sm_batches = tm_batches t, sm_bytes = tm_bytes t, sm_samples = tm_samples t,
      sm_p50 = quantile (1 / 2) latencies, sm_p95 = quantile (95 / 100) latencies, sm_p99 = quantile (99 / 100) latencies,
      sm_rate = (if tm_interval_ns t = 0 then 0 else of_int (tm_samples t) * 1000000000 / of_int (tm_interval_ns t)),
      sm_epoch = epoch, sm_gil_restore_events = tm_gil_restore_events t, sm_stall_events = tm_stall_events t\<rparr>)"

definition telemetry_finish_epoch :: "int \<Rightarrow> telemetry \<Rightarrow> telemetry" where
  "telemetry_finish_epoch epoch t = reset_current (t\<lparr>tm_last_epoch := Some (summarise epoch t)\<rparr>)"

section \<open>Grouped deliveries\<close>

definition DELIVERY_GROUP :: int where "DELIVERY_GROUP = 256"

record delivery_telemetry =
  dt_recorder :: telemetry
  dt_samples :: int
  dt_batches :: int
  dt_bytes :: int
  dt_latency_ns :: int
  dt_startup_pending :: bool

definition new_delivery_telemetry :: "telemetry \<Rightarrow> delivery_telemetry" where
  "new_delivery_telemetry t =
    \<lparr>dt_recorder = t, dt_samples = 0, dt_batches = 0, dt_bytes = 0, dt_latency_ns = 0, dt_startup_pending = True\<rparr>"

definition start_delivery :: "int \<Rightarrow> delivery_telemetry \<Rightarrow> int" where
  "start_delivery now d = (if dt_batches d = 0 then now else 0)"

definition flush_deliveries :: "int \<Rightarrow> delivery_telemetry \<Rightarrow> delivery_telemetry" where
  "flush_deliveries now d =
    (if dt_batches d = 0 then d
     else d\<lparr>dt_recorder := record_deliveries (dt_samples d) (dt_batches d) (dt_bytes d) (dt_latency_ns d) now (dt_recorder d),
            dt_samples := 0, dt_batches := 0, dt_bytes := 0, dt_latency_ns := 0\<rparr>)"

definition note_delivery :: "int \<Rightarrow> int \<Rightarrow> int \<Rightarrow> int \<Rightarrow> delivery_telemetry \<Rightarrow> delivery_telemetry" where
  "note_delivery samples bytes started_ns now d =
    (let d = (if dt_batches d = 0 then d\<lparr>dt_latency_ns := now - started_ns\<rparr> else d);
         d = (if dt_startup_pending d then d\<lparr>dt_recorder := record_startup_now now (dt_recorder d), dt_startup_pending := False\<rparr> else d);
         d = d\<lparr>dt_samples := dt_samples d + samples, dt_batches := dt_batches d + 1, dt_bytes := dt_bytes d + bytes\<rparr>
     in if dt_batches d = DELIVERY_GROUP then flush_deliveries now d else d)"

definition delivery_finish_epoch :: "int \<Rightarrow> int \<Rightarrow> delivery_telemetry \<Rightarrow> delivery_telemetry" where
  "delivery_finish_epoch epoch now d =
    (let d = flush_deliveries now d in d\<lparr>dt_recorder := telemetry_finish_epoch epoch (dt_recorder d)\<rparr>)"

section \<open>The byte ledger\<close>

text \<open>The values whose payload is counted, by what the code distinguishes.\<close>

datatype payload_value =
    PvTensor nat nat            \<comment> \<open>elements, bytes of an element\<close>
  | PvArray nat                 \<comment> \<open>\<^verbatim>\<open>nbytes\<close>\<close>
  | PvMapping "payload_value list"
  | PvText nat                  \<comment> \<open>length of the UTF-8 encoding, or of the bytes\<close>
  | PvSequence "payload_value list"
  | PvScalar
  | PvForeign

fun payload_value_bytes :: "payload_value \<Rightarrow> int" where
  "payload_value_bytes (PvTensor n width) = int n * int width"
| "payload_value_bytes (PvArray n) = int n"
| "payload_value_bytes (PvMapping vs) = sum_list (map payload_value_bytes vs)"
| "payload_value_bytes (PvText n) = int n"
| "payload_value_bytes (PvSequence vs) = sum_list (map payload_value_bytes vs)"
| "payload_value_bytes PvScalar = 8"
| "payload_value_bytes PvForeign = 0"

lemma payload_value_bytes_nonneg [simp]: "0 \<le> payload_value_bytes v"
  by (induction v) (auto intro!: sum_list_nonneg)

record ledger =
  bl_source_class :: string
  bl_delivery :: string
  bl_batches :: int
  bl_samples :: int
  bl_payload_bytes :: int
  bl_pinned_stage_bytes :: int
  bl_arena_write_bytes :: int

definition new_ledger :: "string \<Rightarrow> string \<Rightarrow> ledger" where
  "new_ledger source_class delivery =
    \<lparr>bl_source_class = source_class, bl_delivery = delivery, bl_batches = 0, bl_samples = 0, bl_payload_bytes = 0,
     bl_pinned_stage_bytes = 0, bl_arena_write_bytes = 0\<rparr>"

definition ledger_record :: "payload_value \<Rightarrow> int \<Rightarrow> int \<Rightarrow> int \<Rightarrow> ledger \<Rightarrow> ledger res" where
  "ledger_record v samples staged written l =
    (if samples < 0 \<or> staged < 0 \<or> written < 0 then Inl (ValueError ''byte-accounting values must be nonnegative'')
     else Inr (l\<lparr>bl_batches := bl_batches l + 1, bl_samples := bl_samples l + samples,
                 bl_payload_bytes := bl_payload_bytes l + payload_value_bytes v,
                 bl_pinned_stage_bytes := bl_pinned_stage_bytes l + staged,
                 bl_arena_write_bytes := bl_arena_write_bytes l + written\<rparr>))"

definition per_sample :: "int \<Rightarrow> int \<Rightarrow> rat" where
  "per_sample bytes samples = (if samples = 0 then 0 else of_int bytes / of_int samples)"

definition ledger_report :: "ledger \<Rightarrow> payload" where
  "ledger_report l =
    (let actual = bl_pinned_stage_bytes l + bl_arena_write_bytes l; irreducible = actual; samples = bl_samples l in
     [(PStr ''actual_bytes'', PInt actual), (PStr ''actual_bytes_per_sample'', PFloat (per_sample actual samples)),
      (PStr ''arena_write_bytes'', PInt (bl_arena_write_bytes l)),
      (PStr ''bytes_beyond_irreducible'', PInt (actual - irreducible)),
      (PStr ''bytes_beyond_irreducible_per_sample'', PFloat 0), (PStr ''delivery'', PStr (bl_delivery l)),
      (PStr ''irreducible_bytes'', PInt irreducible),
      (PStr ''irreducible_bytes_per_sample'', PFloat (per_sample irreducible samples)),
      (PStr ''payload_bytes'', PInt (bl_payload_bytes l)), (PStr ''pinned_stage_bytes'', PInt (bl_pinned_stage_bytes l)),
      (PStr ''produced_batches'', PInt (bl_batches l)), (PStr ''produced_samples'', PInt samples),
      (PStr ''source_class'', PStr (bl_source_class l))])"

section \<open>Properties\<close>

lemma latency_bucket_bounds:
  assumes "0 < v"
  shows "v \<le> latency_bucket v \<and> latency_bucket v < 2 * v"
proof -
  have "v < 2 ^ bit_length v" using bit_length_upper [of v] assms by simp
  moreover have "2 ^ (bit_length v - 1) \<le> v" by (rule bit_length_lower [OF assms])
  moreover have "bit_length v \<noteq> 0" using \<open>v < 2 ^ bit_length v\<close> assms by (cases "bit_length v") auto
  then have "(2 :: int) ^ bit_length v = 2 * 2 ^ (bit_length v - 1)" by (cases "bit_length v") simp_all
  ultimately show ?thesis using assms by (simp add: latency_bucket_def push_bit_eq_mult)
qed

lemma quantile_mem: "xs \<noteq> [] \<Longrightarrow> 0 \<le> f \<Longrightarrow> quantile f xs \<in> set xs"
proof -
  assume xs: "xs \<noteq> []" and f: "0 \<le> f"
  let ?i = "min (int (length xs) - 1) \<lfloor>f * of_int (int (length xs))\<rfloor>"
  have "0 \<le> f * of_int (int (length xs))" using f by simp
  then have "0 \<le> ?i" using xs by (simp add: Suc_leI le_floor_iff)
  moreover have "?i \<le> int (length xs) - 1" by simp
  ultimately have "nat ?i < length xs" using xs by (simp add: nat_less_iff)
  then show ?thesis using xs by (simp add: quantile_def Let_def)
qed

lemma quantile_mono:
  assumes "sorted xs" "0 \<le> f" "f \<le> g"
  shows "quantile f xs \<le> quantile g xs"
proof (cases "xs = []")
  case False
  let ?i = "\<lambda>f. nat (min (int (length xs) - 1) \<lfloor>f * of_int (int (length xs))\<rfloor>)"
  have "f * of_int (int (length xs)) \<le> g * of_int (int (length xs))" using assms(3) by (simp add: mult_right_mono)
  then have "?i f \<le> ?i g" by (intro nat_mono min.mono) (auto intro: floor_mono)
  moreover have "?i g \<le> nat (int (length xs) - 1)" by (rule nat_mono) simp
  then have "?i g < length xs" using False by (cases xs) auto
  ultimately have "xs ! ?i f \<le> xs ! ?i g" using assms(1) by (auto intro: sorted_nth_mono)
  with False show ?thesis by (simp add: quantile_def Let_def)
qed (simp add: quantile_def)

text \<open>A delivery is the samples and bytes of a batch, the start of its wait and its arrival.\<close>

type_synonym delivered = "int \<times> int \<times> int \<times> int"

definition note_all :: "delivered list \<Rightarrow> delivery_telemetry \<Rightarrow> delivery_telemetry" where
  "note_all ds d = fold (\<lambda>(samples, bytes, started, now). note_delivery samples bytes started now) ds d"

lemma note_all_simps [simp]:
  "note_all [] d = d"
  "note_all ((samples, bytes, started, now) # ds) d = note_all ds (note_delivery samples bytes started now d)"
  by (simp_all add: note_all_def)

definition measured :: "delivered \<Rightarrow> int" where "measured = (\<lambda>(samples, bytes, started, now). now - started)"

text \<open>Recorder and pending group together hold the deliveries seen so far.\<close>

definition accounts :: "delivered list \<Rightarrow> delivery_telemetry \<Rightarrow> bool" where
  "accounts ds d \<longleftrightarrow>
    0 \<le> dt_batches d \<and>
    tm_batches (dt_recorder d) + dt_batches d = int (length ds) \<and>
    tm_samples (dt_recorder d) + dt_samples d = sum_list (map fst ds) \<and>
    tm_bytes (dt_recorder d) + dt_bytes d = sum_list (map (fst \<circ> snd) ds) \<and>
    set (tm_latencies (dt_recorder d)) \<subseteq> latency_bucket ` measured ` set ds \<and>
    (dt_batches d = 0 \<longrightarrow> dt_samples d = 0 \<and> dt_bytes d = 0) \<and>
    (dt_batches d \<noteq> 0 \<longrightarrow> dt_latency_ns d \<in> measured ` set ds) \<and>
    (0 < tm_batches (dt_recorder d) \<longrightarrow> tm_latencies (dt_recorder d) \<noteq> [])"

lemma accounts_flush: "accounts ds d \<Longrightarrow> accounts ds (flush_deliveries now d) \<and> dt_batches (flush_deliveries now d) = 0"
  by (auto simp: accounts_def flush_deliveries_def record_deliveries_def record_startup_def add_counts_def Let_def)

lemma accounts_note:
  assumes "accounts ds d"
  shows "accounts (ds @ [(samples, bytes, started, now)]) (note_delivery samples bytes started now d)"
proof -
  define e where "e = (if dt_batches d = 0 then d\<lparr>dt_latency_ns := now - started\<rparr> else d)"
  define f where "f = (if dt_startup_pending e
    then e\<lparr>dt_recorder := record_startup_now now (dt_recorder e), dt_startup_pending := False\<rparr> else e)"
  let ?g = "f\<lparr>dt_samples := dt_samples f + samples, dt_batches := dt_batches f + 1, dt_bytes := dt_bytes f + bytes\<rparr>"
  have "accounts (ds @ [(samples, bytes, started, now)]) ?g"
    using assms by (auto simp: accounts_def f_def e_def record_startup_now_def record_startup_def measured_def)
  moreover have "note_delivery samples bytes started now d =
      (if dt_batches ?g = DELIVERY_GROUP then flush_deliveries now ?g else ?g)"
    by (simp add: note_delivery_def Let_def e_def f_def)
  ultimately show ?thesis using accounts_flush by (simp split: if_splits)
qed

lemma accounts_note_all: "accounts seen d \<Longrightarrow> accounts (seen @ ds) (note_all ds d)"
proof (induction ds arbitrary: seen d)
  case (Cons x ds)
  obtain samples bytes started now where x: "x = (samples, bytes, started, now)" by (cases x)
  from Cons.IH [OF accounts_note [OF Cons.prems]] show ?case by (simp add: x)
qed simp

text \<open>
  Delivery telemetry groups the deliveries of an epoch 256 at a time, yet the summary sealed at the end of the epoch
  is exact: it counts every batch, sample and byte delivered, whatever the length of the last group.  Its latency
  quantiles are ordered, and each is the power-of-two bucket of a latency that was measured, so less than twice that
  latency and no smaller.
\<close>

theorem grouped_deliveries_exact:
  "\<exists>sm. tm_last_epoch (dt_recorder (delivery_finish_epoch epoch now
          (note_all ds (new_delivery_telemetry (new_telemetry built))))) = Some sm \<and>
        sm_batches sm = int (length ds) \<and> sm_samples sm = sum_list (map fst ds) \<and>
        sm_bytes sm = sum_list (map (fst \<circ> snd) ds) \<and> sm_p50 sm \<le> sm_p95 sm \<and> sm_p95 sm \<le> sm_p99 sm \<and>
        (ds = [] \<and> sm_p50 sm = 0 \<and> sm_p99 sm = 0 \<or>
         (\<exists>latency \<in> measured ` set ds. sm_p99 sm = latency_bucket latency \<and> (latency \<le> 0 \<and> sm_p99 sm = 0 \<or>
            latency \<le> sm_p99 sm \<and> sm_p99 sm < 2 * latency)))"
proof -
  let ?d = "note_all ds (new_delivery_telemetry (new_telemetry built))"
  let ?f = "flush_deliveries now ?d" let ?t = "dt_recorder ?f" let ?sm = "summarise epoch ?t"
  have "accounts [] (new_delivery_telemetry (new_telemetry built))"
    by (simp add: accounts_def new_delivery_telemetry_def new_telemetry_def)
  from accounts_note_all [OF this, of ds] have a: "accounts ds ?f" and z: "dt_batches ?f = 0"
    using accounts_flush by auto
  have sealed: "tm_last_epoch (dt_recorder (delivery_finish_epoch epoch now ?d)) = Some ?sm"
    by (simp add: delivery_finish_epoch_def Let_def telemetry_finish_epoch_def reset_current_def)
  have lat: "set (sort (tm_latencies ?t)) \<subseteq> latency_bucket ` measured ` set ds" using a by (simp add: accounts_def)
  have empty: "ds = [] \<Longrightarrow> tm_latencies ?t = []" using a by (simp add: accounts_def)
  have nonempty: "ds \<noteq> [] \<Longrightarrow> sort (tm_latencies ?t) \<noteq> []"
    using a z by (auto simp: accounts_def) (metis length_0_conv set_empty set_sort)
  have p99: "ds \<noteq> [] \<Longrightarrow> sm_p99 ?sm \<in> latency_bucket ` measured ` set ds"
    using quantile_mem [OF nonempty, of "99 / 100"] lat by (auto simp: summarise_def Let_def)
  have bucket: "l \<le> 0 \<and> latency_bucket l = 0 \<or> l \<le> latency_bucket l \<and> latency_bucket l < 2 * l" for l
    using latency_bucket_bounds [of l] by (cases "0 < l") (simp_all add: latency_bucket_def)
  have tail: "ds = [] \<and> sm_p50 ?sm = 0 \<and> sm_p99 ?sm = 0 \<or>
      (\<exists>latency \<in> measured ` set ds. sm_p99 ?sm = latency_bucket latency \<and> (latency \<le> 0 \<and> sm_p99 ?sm = 0 \<or>
         latency \<le> sm_p99 ?sm \<and> sm_p99 ?sm < 2 * latency))"
  proof (cases "ds = []")
    case True
    then show ?thesis using empty by (simp add: summarise_def quantile_def)
  next
    case False
    then obtain l where "l \<in> measured ` set ds" "sm_p99 ?sm = latency_bucket l" using p99 by blast
    then show ?thesis using bucket [of l] by auto
  qed
  have "sm_p50 ?sm \<le> sm_p95 ?sm" "sm_p95 ?sm \<le> sm_p99 ?sm"
    by (auto simp: summarise_def Let_def intro!: quantile_mono)
  with a z tail sealed show ?thesis by (auto simp: accounts_def summarise_def Let_def)
qed

text \<open>
  The recorder keeps the largest startup, and every later group reports one: with a delivery at \<open>first\<close> and the epoch
  sealed at \<open>now\<close>, the startup is the time from construction to \<open>now\<close>, not to the first delivery.
\<close>

theorem startup_grows:
  assumes "built \<le> first" "first \<le> now"
  shows "tm_startup_ns (dt_recorder (note_delivery samples bytes started first (new_delivery_telemetry (new_telemetry built))))
      = first - built"
    and "tm_startup_ns (dt_recorder (delivery_finish_epoch epoch now
        (note_delivery samples bytes started first (new_delivery_telemetry (new_telemetry built))))) = now - built"
  using assms
  by (simp_all add: note_delivery_def new_delivery_telemetry_def new_telemetry_def Let_def record_startup_now_def
    record_startup_def DELIVERY_GROUP_def delivery_finish_epoch_def flush_deliveries_def record_deliveries_def
    add_counts_def telemetry_finish_epoch_def reset_current_def)

end
