(* ===== verification/PinnedMemory.thy ===== *)
theory PinnedMemory
  imports Pinned Telemetry "HOL-Library.Multiset"
begin

text \<open>
  The choice of delivery memory (\<^verbatim>\<open>memory/pinned/registration.py\<close>, \<^verbatim>\<open>memory/pinned/delivery.py\<close>): source
  allocations registered with the device runtime, buffers of the dataset's own, a staging pool, or host
  memory.  The runtime is the multiset of registered pointers; its answers are an argument.
\<close>

section \<open>Registration\<close>

datatype view_source = TensorSource bool int int | ArraySource int int | UnknownSource

fun source_allocation :: "view_source \<Rightarrow> (int \<times> int) list" where
  "source_allocation (TensorSource pinned pointer bytes) = (if \<not> pinned \<and> pointer \<noteq> 0 \<and> bytes \<noteq> 0 then [(pointer, bytes)] else [])"
| "source_allocation (ArraySource pointer bytes) = (if pointer \<noteq> 0 \<and> bytes \<noteq> 0 then [(pointer, bytes)] else [])"
| "source_allocation UnknownSource = []"

definition allocations :: "view_source list \<Rightarrow> (int \<times> int) list" where
  "allocations sources = sort_key fst (sort_key snd (remdups (concat (map source_allocation sources))))"

text \<open>\<^verbatim>\<open>cudaHostRegister\<close> returns a code or raises; \<^verbatim>\<open>activate\<close> catches two classes of exception.\<close>

datatype register_answer = Registered | Refused int | RegisterRaises py_error

record registration =
  hr_registered :: "int list"
  hr_registered_bytes :: int

definition new_registration :: registration where "new_registration = \<lparr>hr_registered = [], hr_registered_bytes = 0\<rparr>"

definition close_registration :: "registration \<Rightarrow> int multiset \<Rightarrow> registration \<times> int multiset" where
  "close_registration r device =
    (if hr_registered r = [] then (r, device)
     else (new_registration, fold (\<lambda>pointer device. device - {#pointer#}) (rev (hr_registered r)) device))"

fun register_all ::
    "(int \<times> int \<Rightarrow> register_answer) \<Rightarrow> (int \<times> int) list \<Rightarrow> registration \<Rightarrow> int multiset \<Rightarrow>
     (py_error + bool) \<times> registration \<times> int multiset" where
  "register_all answer [] r device = (Inr True, r, device)"
| "register_all answer (a # as) r device =
    (case answer a of
       Registered \<Rightarrow>
         register_all answer as
           (r\<lparr>hr_registered := hr_registered r @ [fst a], hr_registered_bytes := hr_registered_bytes r + snd a\<rparr>)
           (device + {#fst a#})
     | Refused code \<Rightarrow> (Inr False, close_registration r device)
     | RegisterRaises e \<Rightarrow>
         (case e of
            RuntimeError _ \<Rightarrow> (Inr False, close_registration r device)
          | TypeError _ \<Rightarrow> (Inr False, close_registration r device)
          | _ \<Rightarrow> (Inl e, r, device)))"

definition activate_registration ::
    "(int \<times> int \<Rightarrow> register_answer) \<Rightarrow> view_source list \<Rightarrow> int multiset \<Rightarrow> (py_error + bool) \<times> registration \<times> int multiset" where
  "activate_registration answer sources device =
    (if allocations sources = [] then (Inr False, new_registration, device)
     else register_all answer (allocations sources) new_registration device)"

text \<open>The sources of a plan whose samples are views of retained storage.\<close>

datatype view_plan =
    StorageTensor bool view_source                       \<comment> \<open>a \<^verbatim>\<open>TensorPlan\<close>: shuffle, the dataset\<close>
  | MappedPlan "string option" bool "view_source list" view_source  \<comment> \<open>mapping, shuffle, tensors, array\<close>

fun view_sources :: "view_plan \<Rightarrow> view_source list" where
  "view_sources (StorageTensor shuffle dataset) = (if \<not> shuffle then [dataset] else [])"
| "view_sources (MappedPlan mapping shuffle tensors array) =
    (if mapping = Some ''torch-tensor-dataset'' \<and> \<not> shuffle then tensors
     else if mapping = Some ''numpy-memmap'' \<and> \<not> shuffle then [array] else [])"

section \<open>Selection\<close>

definition effective_memory :: "staged_copy_tax option \<Rightarrow> bool \<Rightarrow> string \<Rightarrow> string" where
  "effective_memory tax cuda requested =
    (if requested \<noteq> ''auto'' then requested
     else case tax of
       None \<Rightarrow> ''host''
     | Some t \<Rightarrow> if st_transfer_benefit_nanoseconds t \<le> 0 then ''host'' else if cuda then ''pinned'' else ''host'')"

record ('k, 'm, 'c) pinned_delivery =
  pd_pricing :: "staged_copy_tax option"
  pd_requested_memory :: string
  pd_effective_memory :: string
  pd_registration :: "registration option"
  pd_pool :: "('k, 'm, 'c) pinned_pool option"
  pd_consumer_thread_ids :: "int set"
  pd_staging_thread_ids :: "int set"
  pd_staging_on_consumer_thread :: bool

definition delivery_profitable :: "staged_copy_tax option \<Rightarrow> bool" where
  "delivery_profitable tax = (case tax of None \<Rightarrow> False | Some t \<Rightarrow> staging_is_profitable t)"

text \<open>\<^verbatim>\<open>PinnedDelivery.__init__\<close>; \<open>direct\<close> is the answer of the dataset's own pinned delivery, if it has one.\<close>

definition new_pinned_delivery ::
    "(int \<times> int \<Rightarrow> register_answer) \<Rightarrow> staged_copy_tax option \<Rightarrow> bool \<Rightarrow> string \<Rightarrow> view_plan \<Rightarrow> bool option \<Rightarrow> int multiset \<Rightarrow>
     (py_error + ('k, 'm, 'c) pinned_delivery) \<times> int multiset" where
  "new_pinned_delivery answer tax cuda requested plan direct device =
    (let d = \<lparr>pd_pricing = tax, pd_requested_memory = requested, pd_effective_memory = effective_memory tax cuda requested,
              pd_registration = None, pd_pool = None, pd_consumer_thread_ids = {}, pd_staging_thread_ids = {},
              pd_staging_on_consumer_thread = False\<rparr>;
         otherwise = (\<lambda>device.
           if direct = Some True then (Inr d, device)
           else if requested = ''auto'' \<and> \<not> delivery_profitable tax then (Inr (d\<lparr>pd_effective_memory := ''host''\<rparr>), device)
           else (Inr (d\<lparr>pd_pool := Some new_pinned_pool\<rparr>), device))
     in if pd_effective_memory d \<noteq> ''pinned'' then (Inr d, device)
        else if view_sources plan = [] then otherwise device
        else case activate_registration answer (view_sources plan) device of
            (Inl e, r, device) \<Rightarrow> (Inl e, device)
          | (Inr True, r, device) \<Rightarrow> (Inr (d\<lparr>pd_registration := Some r\<rparr>), device)
          | (Inr False, r, device) \<Rightarrow> otherwise device)"

definition delivery_stages :: "('k, 'm, 'c) pinned_delivery \<Rightarrow> bool" where
  "delivery_stages d = (pd_pool d \<noteq> None)"

definition reports_selection :: "('k, 'm, 'c) pinned_delivery \<Rightarrow> bool" where
  "reports_selection d \<longleftrightarrow> pd_effective_memory d = ''pinned'' \<or> pd_pricing d \<noteq> None"

text \<open>\<^verbatim>\<open>stage\<close> and \<^verbatim>\<open>bind_consumer_thread\<close> keep who stages and who consumes.\<close>

definition delivery_stage ::
    "('m \<Rightarrow> int) \<Rightarrow> int set \<Rightarrow> int \<Rightarrow> ('k, 'm, 'c) batch_tree \<Rightarrow> ('k, 'm, 'c) pinned_delivery \<Rightarrow>
     ('k, 'm, 'c) pinned_delivery \<times> (('k, 'm, 'c) batch_tree + ('k, 'm, int) batch_tree)" where
  "delivery_stage bytes held thread t d =
    (let d = d\<lparr>pd_staging_thread_ids := insert thread (pd_staging_thread_ids d)\<rparr>;
         d = (if thread \<in> pd_consumer_thread_ids d then d\<lparr>pd_staging_on_consumer_thread := True\<rparr> else d)
     in case pd_pool d of
          None \<Rightarrow> (d, Inl t)
        | Some p \<Rightarrow> (case pool_stage bytes held t p of (p, u) \<Rightarrow> (d\<lparr>pd_pool := Some p\<rparr>, Inr u)))"

definition bind_consumer_thread :: "int \<Rightarrow> ('k, 'm, 'c) pinned_delivery \<Rightarrow> ('k, 'm, 'c) pinned_delivery" where
  "bind_consumer_thread thread d =
    (let d = d\<lparr>pd_consumer_thread_ids := insert thread (pd_consumer_thread_ids d)\<rparr>
     in if thread \<in> pd_staging_thread_ids d then d\<lparr>pd_staging_on_consumer_thread := True\<rparr> else d)"

definition delivery_report :: "('k, 'm, 'c) pinned_delivery \<Rightarrow> payload" where
  "delivery_report d =
    [(PStr ''delivery_memory'', PStr (pd_effective_memory d)),
     (PStr ''pinned_registered_bytes'', PInt (case pd_registration d of None \<Rightarrow> 0 | Some r \<Rightarrow> hr_registered_bytes r)),
     (PStr ''pinned_staged_bytes'', PInt (case pd_pool d of None \<Rightarrow> 0 | Some p \<Rightarrow> pn_copied_bytes p)),
     (PStr ''staging_copy_nanoseconds'',
       case pd_pricing d of None \<Rightarrow> PNone | Some t \<Rightarrow> PInt (st_staging_copy_nanoseconds t)),
     (PStr ''staging_transfer_benefit_nanoseconds'',
       case pd_pricing d of None \<Rightarrow> PNone | Some t \<Rightarrow> PInt (st_transfer_benefit_nanoseconds t)),
     (PStr ''staging_profitable'', PBool (delivery_profitable (pd_pricing d))),
     (PStr ''staging_prefetch_depth'', PInt (if delivery_stages d then 1 else 0)),
     (PStr ''staging_thread_count'', PInt (int (card (pd_staging_thread_ids d)))),
     (PStr ''staging_on_consumer_thread'', PBool (pd_staging_on_consumer_thread d))]"

definition report_int :: "payload \<Rightarrow> string \<Rightarrow> int" where
  "report_int d key = (case pget d key of Some (PInt n) \<Rightarrow> n | _ \<Rightarrow> 0)"

definition compose_memory_report :: "('k, 'm, 'c) pinned_delivery \<Rightarrow> payload \<Rightarrow> payload" where
  "compose_memory_report d memory =
    (let report = delivery_report d;
         memory = fold (\<lambda>(k, v). dict_set k v) report memory;
         staged = report_int report ''pinned_staged_bytes''
     in if staged = 0 \<or> pget memory ''actual_bytes'' = None then memory
        else
          let actual = report_int memory ''actual_bytes'' + staged;
              overhead = report_int memory ''bytes_beyond_irreducible'' + staged;
              samples = report_int memory ''produced_samples''
          in dict_set (PStr ''bytes_beyond_irreducible_per_sample'') (PFloat (per_sample overhead samples))
            (dict_set (PStr ''actual_bytes_per_sample'') (PFloat (per_sample actual samples))
            (dict_set (PStr ''bytes_beyond_irreducible'') (PInt overhead)
            (dict_set (PStr ''actual_bytes'') (PInt actual) memory))))"

text \<open>\<^verbatim>\<open>close\<close>, after the iterators are closed.\<close>

definition close_delivery :: "('k, 'm, 'c) pinned_delivery \<Rightarrow> int multiset \<Rightarrow> ('k, 'm, 'c) pinned_delivery \<times> int multiset" where
  "close_delivery d device =
    (case pd_registration d of
       None \<Rightarrow> (d\<lparr>pd_pool := None\<rparr>, device)
     | Some r \<Rightarrow> (d\<lparr>pd_registration := None, pd_pool := None\<rparr>, snd (close_registration r device)))"

section \<open>All or nothing\<close>

lemma fold_remove: "fold (\<lambda>p device. device - {#p#}) ps (device + mset ps) = device"
  by (induction ps arbitrary: device) (simp_all add: add.commute)

lemma close_registration_restores:
  "snd (close_registration r (device + mset (hr_registered r))) = device"
  using fold_remove [of "rev (hr_registered r)" device] by (simp add: close_registration_def)

lemma close_registration_empty:
  "hr_registered r = [] \<Longrightarrow> hr_registered_bytes r = 0 \<Longrightarrow> fst (close_registration r device) = new_registration"
  "hr_registered r \<noteq> [] \<Longrightarrow> fst (close_registration r device) = new_registration"
  by (simp_all add: close_registration_def new_registration_def)

text \<open>What was registered before is given back on refusal, and kept with its bytes otherwise.\<close>

lemma register_all_outcome:
  assumes "register_all answer as r (device + mset (hr_registered r)) = (Inr ok, q, device')"
    "hr_registered r = [] \<longrightarrow> hr_registered_bytes r = 0"
  shows "if ok then hr_registered q = hr_registered r @ map fst as \<and> device' = device + mset (hr_registered q) \<and>
           hr_registered_bytes q = hr_registered_bytes r + sum_list (map snd as)
         else q = new_registration \<and> device' = device"
  using assms
proof (induction as arbitrary: r)
  case Nil
  then show ?case by auto
next
  case (Cons a as)
  have refuse: "fst (close_registration r d) = new_registration" for d
    using Cons.prems(2) close_registration_empty by (cases "hr_registered r = []") auto
  show ?case
  proof (cases "answer a")
    case Registered
    let ?r = "r\<lparr>hr_registered := hr_registered r @ [fst a], hr_registered_bytes := hr_registered_bytes r + snd a\<rparr>"
    have "register_all answer as ?r (device + mset (hr_registered ?r)) = (Inr ok, q, device')"
      using Cons.prems(1) Registered by simp
    from Cons.IH [OF this] show ?thesis by (simp split: if_splits)
  next
    case (Refused code)
    then have "close_registration r (device + mset (hr_registered r)) = (q, device')" "\<not> ok" using Cons.prems(1) by auto
    then show ?thesis using close_registration_restores [of r device] refuse [of "device + mset (hr_registered r)"] by simp
  next
    case (RegisterRaises e)
    then have "close_registration r (device + mset (hr_registered r)) = (q, device')" "\<not> ok"
      using Cons.prems(1) by (auto split: py_error.splits)
    then show ?thesis using close_registration_restores [of r device] refuse [of "device + mset (hr_registered r)"] by simp
  qed
qed

lemma activate_outcome:
  assumes "activate_registration answer sources device = (Inr ok, q, device')"
  shows "if ok then hr_registered q = map fst (allocations sources) \<and> device' = device + mset (hr_registered q) \<and>
           hr_registered_bytes q = sum_list (map snd (allocations sources)) \<and> allocations sources \<noteq> []
         else q = new_registration \<and> device' = device"
proof (cases "allocations sources = []")
  case True
  then show ?thesis using assms by (auto simp: activate_registration_def)
next
  case False
  then have "register_all answer (allocations sources) new_registration (device + mset (hr_registered new_registration)) = (Inr ok, q, device')"
    using assms by (simp add: activate_registration_def new_registration_def)
  from register_all_outcome [OF this] False show ?thesis by (simp add: new_registration_def split: if_splits)
qed

text \<open>
  C39: Once the delivery memory of a loader is chosen, the device holds the pointers of exactly the source allocations the
  loader reports as registered bytes, every one of them, or none: a refused registration leaves nothing behind.
  Registration and staging exclude each other and both imply pinned memory; an automatic choice never stages at a loss;
  and closing the delivery gives the device back as it was.
\<close>

theorem delivery_memory_all_or_nothing:
  fixes d :: "('k, 'm, 'c) pinned_delivery"
  assumes "new_pinned_delivery answer tax cuda requested plan direct device = (Inr d, device')"
  shows "(pd_registration d = None \<and> device' = device \<or>
      (\<exists>r. pd_registration d = Some r \<and> pd_pool d = None \<and> hr_registered r = map fst (allocations (view_sources plan)) \<and>
         device' = device + mset (hr_registered r) \<and>
         report_int (delivery_report d) ''pinned_registered_bytes'' = sum_list (map snd (allocations (view_sources plan))))) \<and>
    (pd_registration d \<noteq> None \<or> delivery_stages d \<longrightarrow> pd_effective_memory d = ''pinned'') \<and>
    (delivery_stages d \<and> requested = ''auto'' \<longrightarrow> (\<exists>t. tax = Some t \<and> staging_is_profitable t)) \<and>
    snd (close_delivery d device') = device"
proof -
  let ?d = "\<lparr>pd_pricing = tax, pd_requested_memory = requested, pd_effective_memory = effective_memory tax cuda requested,
    pd_registration = None, pd_pool = None, pd_consumer_thread_ids = {}, pd_staging_thread_ids = {},
    pd_staging_on_consumer_thread = False\<rparr> :: ('k, 'm, 'c) pinned_delivery"
  let ?otherwise = "d = ?d \<or> d = ?d\<lparr>pd_effective_memory := ''host''\<rparr> \<or>
    pd_effective_memory ?d = ''pinned'' \<and> \<not> (requested = ''auto'' \<and> \<not> delivery_profitable tax) \<and>
    d = ?d\<lparr>pd_pool := Some new_pinned_pool\<rparr>"
  have "?otherwise \<and> device' = device \<or>
      (\<exists>r. activate_registration answer (view_sources plan) device = (Inr True, r, device') \<and>
        d = ?d\<lparr>pd_registration := Some r\<rparr> \<and> pd_effective_memory ?d = ''pinned'')"
    using assms activate_outcome [of answer "view_sources plan" device False]
    by (auto simp: new_pinned_delivery_def Let_def split: if_splits sum.splits bool.splits prod.splits)
  then show ?thesis
  proof
    assume "?otherwise \<and> device' = device"
    then show ?thesis
      by (auto simp: delivery_stages_def close_delivery_def delivery_profitable_def split: option.splits)
  next
    assume "\<exists>r. activate_registration answer (view_sources plan) device = (Inr True, r, device') \<and>
        d = ?d\<lparr>pd_registration := Some r\<rparr> \<and> pd_effective_memory ?d = ''pinned''"
    then obtain r where r: "activate_registration answer (view_sources plan) device = (Inr True, r, device')"
      "d = ?d\<lparr>pd_registration := Some r\<rparr>" "effective_memory tax cuda requested = ''pinned''" by auto
    with activate_outcome [OF r(1)] close_registration_restores [of r device] show ?thesis
      by (simp add: delivery_stages_def close_delivery_def report_int_def delivery_report_def)
  qed
qed

text \<open>Two tensors of which the second is refused: the first is given back and the batches are staged.\<close>

theorem delivery_memory_all_or_nothing_witness:
  "\<exists>d. new_pinned_delivery (\<lambda>a. if fst a = 8 then Refused 1 else Registered)
      (Some \<lparr>st_batch_bytes = 64, st_staging_copy_nanoseconds = 3, st_transfer_benefit_nanoseconds = 5\<rparr>) True ''auto''
      (MappedPlan (Some ''torch-tensor-dataset'') False [TensorSource False 8 64, TensorSource False 4 32] UnknownSource)
      None {#2#} = (Inr (d :: (int, int, string) pinned_delivery), {#2#}) \<and> delivery_stages d \<and> snd (close_delivery d {#2#}) = {#2#}"
proof -
  let ?run = "new_pinned_delivery (\<lambda>a. if fst a = 8 then Refused 1 else Registered)
      (Some \<lparr>st_batch_bytes = 64, st_staging_copy_nanoseconds = 3, st_transfer_benefit_nanoseconds = 5\<rparr>) True ''auto''
      (MappedPlan (Some ''torch-tensor-dataset'') False [TensorSource False 8 64, TensorSource False 4 32] UnknownSource)
      None {#2#}"
  have alloc: "allocations [TensorSource False 8 64, TensorSource False 4 32] = [(4, 32), (8, 64)]"
    by (simp add: allocations_def)
  obtain d where d: "?run = (Inr (d :: (int, int, string) pinned_delivery), {#2#})" "delivery_stages d"
    by (simp add: new_pinned_delivery_def Let_def effective_memory_def activate_registration_def alloc new_registration_def
      close_registration_def delivery_profitable_def staging_is_profitable_def delivery_stages_def)
  from delivery_memory_all_or_nothing [OF d(1)] d show ?thesis by blast
qed

section \<open>Staging threads and reports\<close>

text \<open>The flag says exactly that some thread both staged and consumed, in whichever order it did.\<close>

definition threads_ok :: "('k, 'm, 'c) pinned_delivery \<Rightarrow> bool" where
  "threads_ok d \<longleftrightarrow> (pd_staging_on_consumer_thread d \<longleftrightarrow> pd_staging_thread_ids d \<inter> pd_consumer_thread_ids d \<noteq> {})"

lemma threads_ok_stage: "threads_ok d \<Longrightarrow> threads_ok (fst (delivery_stage bytes held thread t d))"
  by (auto simp: threads_ok_def delivery_stage_def Let_def split: option.splits prod.splits)

lemma threads_ok_bind: "threads_ok d \<Longrightarrow> threads_ok (bind_consumer_thread thread d)"
  by (auto simp: threads_ok_def bind_consumer_thread_def Let_def)

text \<open>Added to the report of a ledger, the bytes staged are the whole of the traffic beyond the irreducible.\<close>

lemma composed_ledger_report:
  assumes p: "pd_pool d = Some p" and n: "pn_copied_bytes p \<noteq> 0"
  shows "pget (compose_memory_report d (ledger_report l)) ''bytes_beyond_irreducible'' = Some (PInt (pn_copied_bytes p))"
    "pget (compose_memory_report d (ledger_report l)) ''actual_bytes'' =
      Some (PInt (bl_pinned_stage_bytes l + bl_arena_write_bytes l + pn_copied_bytes p))"
  using n by (simp_all add: compose_memory_report_def ledger_report_def delivery_report_def p report_int_def Let_def pget_def)

end
