(* ===== verification/Staging.thy ===== *)
theory Staging
  imports Collections
begin

text \<open>
  Staged delivery (\<^verbatim>\<open>memory/pinned/iterator.py\<close>): a thread reads the execution iterator one batch ahead
  and hands each batch over a queue of one place; an event acknowledges the hand-over.  The two threads
  are two step functions over the shared state, \<^const>\<open>None\<close> where a thread is blocked, and a run is any
  interleaving of their steps.
\<close>

section \<open>The two threads\<close>

record coordinate_view =
  cv_epoch :: int
  cv_delivered :: int
  cv_checksum :: int
  cv_bitmap :: "int list"

datatype 'v staged_item = StagedBatch 'v coordinate_view | StageEnd | StageRaised py_error

text \<open>
  The wrapped iterator: one \<^verbatim>\<open>next\<close>, the coordinate it reports, its checkpoint, its \<^verbatim>\<open>invalidate\<close>, and
  the copy into pinned memory, which may raise.
\<close>

record ('it, 'v, 'c) staged_source =
  ss_next :: "'it \<Rightarrow> 'it \<times> 'v res"
  ss_view :: "'it \<Rightarrow> coordinate_view"
  ss_checkpoint :: "'it \<Rightarrow> 'c"
  ss_invalidate :: "'it \<Rightarrow> 'it"
  ss_stage :: "'v \<Rightarrow> 'v res"

text \<open>Where the staging thread is in \<^verbatim>\<open>_produce\<close>, and where the consumer is in \<^verbatim>\<open>__next__\<close>.\<close>

datatype 'v producer = NotStarted | Top | Produced "'v staged_item" | Cleared "'v staged_item" | Waiting "'v staged_item" | Exited

datatype consumer = Idle | Getting | Joining py_error

record ('it, 'v) staging =
  sg_iterator :: 'it
  sg_queue :: "'v staged_item list"
  sg_acknowledged :: bool
  sg_stopped :: bool
  sg_producer :: "'v producer"
  sg_consumer :: consumer
  sg_complete :: bool
  sg_view :: coordinate_view
  sg_out :: "'v res list"  \<comment> \<open>what the calls of \<^verbatim>\<open>__next__\<close> gave, for the properties\<close>

definition new_staging :: "('it, 'v, 'c) staged_source \<Rightarrow> 'it \<Rightarrow> ('it, 'v) staging" where
  "new_staging src it =
    \<lparr>sg_iterator = it, sg_queue = [], sg_acknowledged = False, sg_stopped = False, sg_producer = NotStarted,
     sg_consumer = Idle, sg_complete = False, sg_view = ss_view src it, sg_out = []\<rparr>"

text \<open>One item: the batch staged with the coordinate read after it, the end, or the exception of either.\<close>

definition produce_item :: "('it, 'v, 'c) staged_source \<Rightarrow> 'it \<Rightarrow> 'it \<times> 'v staged_item" where
  "produce_item src it =
    (case ss_next src it of
       (it, Inl e) \<Rightarrow> (it, if e = StopIteration then StageEnd else StageRaised e)
     | (it, Inr v) \<Rightarrow>
         (it, case ss_stage src v of
            Inl e \<Rightarrow> if e = StopIteration then StageEnd else StageRaised e
          | Inr w \<Rightarrow> StagedBatch w (ss_view src it)))"

fun final_item :: "'v staged_item \<Rightarrow> bool" where
  "final_item (StagedBatch v c) = False"
| "final_item _ = True"

definition producer_step :: "('it, 'v, 'c) staged_source \<Rightarrow> ('it, 'v) staging \<Rightarrow> ('it, 'v) staging option" where
  "producer_step src s =
    (case sg_producer s of
       NotStarted \<Rightarrow> None
     | Top \<Rightarrow>
         if sg_stopped s then Some (s\<lparr>sg_producer := Exited\<rparr>)
         else (case produce_item src (sg_iterator s) of (it, x) \<Rightarrow> Some (s\<lparr>sg_iterator := it, sg_producer := Produced x\<rparr>))
     | Produced x \<Rightarrow>
         if sg_stopped s then Some (s\<lparr>sg_producer := Exited\<rparr>)
         else Some (s\<lparr>sg_acknowledged := False, sg_producer := Cleared x\<rparr>)
     | Cleared x \<Rightarrow>
         if sg_queue s = [] then Some (s\<lparr>sg_queue := [x], sg_producer := Waiting x\<rparr>) else None
     | Waiting x \<Rightarrow>
         if sg_stopped s \<or> sg_acknowledged s then Some (s\<lparr>sg_producer := if final_item x then Exited else Top\<rparr>) else None
     | Exited \<Rightarrow> None)"

text \<open>
  The consumer: a call that starts the thread if there is none, the hand-over with its acknowledgement,
  and after a last item the join of the thread.
\<close>

definition consumer_step :: "('it, 'v) staging \<Rightarrow> ('it, 'v) staging option" where
  "consumer_step s =
    (case sg_consumer s of
       Idle \<Rightarrow>
         if sg_complete s then Some (s\<lparr>sg_out := sg_out s @ [Inl StopIteration]\<rparr>)
         else Some (s\<lparr>sg_consumer := Getting, sg_producer := if sg_producer s = NotStarted then Top else sg_producer s\<rparr>)
     | Getting \<Rightarrow>
         (case sg_queue s of
            [] \<Rightarrow> None
          | x # rest \<Rightarrow>
              let s = s\<lparr>sg_queue := rest, sg_acknowledged := True\<rparr> in
              (case x of
                 StagedBatch v c \<Rightarrow> Some (s\<lparr>sg_consumer := Idle, sg_view := c, sg_out := sg_out s @ [Inr v]\<rparr>)
               | StageEnd \<Rightarrow> Some (s\<lparr>sg_consumer := Joining StopIteration, sg_complete := True\<rparr>)
               | StageRaised e \<Rightarrow> Some (s\<lparr>sg_consumer := Joining e, sg_complete := True\<rparr>)))
     | Joining e \<Rightarrow>
         if sg_producer s = Exited then Some (s\<lparr>sg_consumer := Idle, sg_out := sg_out s @ [Inl e]\<rparr>) else None)"

text \<open>Invalidating, closing (the thread is joined and forgotten) and the checkpoint, which is the wrapped iterator's.\<close>

definition invalidate_staging :: "('it, 'v, 'c) staged_source \<Rightarrow> ('it, 'v) staging \<Rightarrow> ('it, 'v) staging" where
  "invalidate_staging src s =
    s\<lparr>sg_stopped := True, sg_acknowledged := True, sg_iterator := ss_invalidate src (sg_iterator s)\<rparr>"

text \<open>\<^verbatim>\<open>close\<close> joins the thread: it ends on its own, which the steps left to it show, and is forgotten.\<close>

fun settle :: "('it, 'v, 'c) staged_source \<Rightarrow> nat \<Rightarrow> ('it, 'v) staging \<Rightarrow> ('it, 'v) staging" where
  "settle src 0 s = s"
| "settle src (Suc n) s = (case producer_step src s of None \<Rightarrow> s | Some t \<Rightarrow> settle src n t)"

definition close_staging :: "('it, 'v, 'c) staged_source \<Rightarrow> ('it, 'v) staging \<Rightarrow> ('it, 'v) staging option" where
  "close_staging src s =
    (let s = settle src 3 (invalidate_staging src s) in
     case sg_producer s of
       NotStarted \<Rightarrow> Some s
     | Exited \<Rightarrow> Some (s\<lparr>sg_producer := NotStarted\<rparr>)
     | _ \<Rightarrow> None)"

definition staging_checkpoint :: "('it, 'v, 'c) staged_source \<Rightarrow> ('it, 'v) staging \<Rightarrow> 'c" where
  "staging_checkpoint src s = ss_checkpoint src (sg_iterator s)"

inductive staging_step :: "('it, 'v, 'c) staged_source \<Rightarrow> ('it, 'v) staging \<Rightarrow> ('it, 'v) staging \<Rightarrow> bool" for src where
  produce: "producer_step src s = Some t \<Longrightarrow> staging_step src s t"
| consume: "consumer_step s = Some t \<Longrightarrow> staging_step src s t"

inductive_cases staging_stepE: "staging_step src s t"

inductive staging_run :: "('it, 'v, 'c) staged_source \<Rightarrow> ('it, 'v) staging \<Rightarrow> ('it, 'v) staging \<Rightarrow> bool" for src where
  refl: "staging_run src s s"
| step: "staging_run src s t \<Longrightarrow> staging_step src t u \<Longrightarrow> staging_run src s u"

section \<open>The specification: reading without a thread\<close>

text \<open>The iterator after some reads, and the item of a read; nothing is read after a last item.\<close>

fun reads :: "('it, 'v, 'c) staged_source \<Rightarrow> 'it \<Rightarrow> nat \<Rightarrow> 'it" where
  "reads src it 0 = it"
| "reads src it (Suc n) = fst (produce_item src (reads src it n))"

definition item_at :: "('it, 'v, 'c) staged_source \<Rightarrow> 'it \<Rightarrow> nat \<Rightarrow> 'v staged_item" where
  "item_at src it n = snd (produce_item src (reads src it n))"

fun item_result :: "'v staged_item \<Rightarrow> 'v res" where
  "item_result (StagedBatch v c) = Inr v"
| "item_result StageEnd = Inl StopIteration"
| "item_result (StageRaised e) = Inl e"

text \<open>What the calls of an unstaged iterator give: its items until a last one, then \<^verbatim>\<open>StopIteration\<close>.\<close>

definition live :: "('it, 'v, 'c) staged_source \<Rightarrow> 'it \<Rightarrow> nat \<Rightarrow> bool" where
  "live src it n \<longleftrightarrow> (\<forall>i < n. \<not> final_item (item_at src it i))"

definition call_result :: "('it, 'v, 'c) staged_source \<Rightarrow> 'it \<Rightarrow> nat \<Rightarrow> 'v res" where
  "call_result src it n = (if live src it n then item_result (item_at src it n) else Inl StopIteration)"

definition view_after :: "('it, 'v, 'c) staged_source \<Rightarrow> 'it \<Rightarrow> nat \<Rightarrow> coordinate_view" where
  "view_after src it n = ss_view src (reads src it n)"

section \<open>The invariant\<close>

declare reads.simps(2) [simp del]

lemma produce_reads: "produce_item src (reads src it n) = (reads src it (Suc n), item_at src it n)"
  by (simp add: item_at_def reads.simps(2))

text \<open>The staging thread against the \<open>m\<close> items handed over; \<open>ahead\<close> says whether one more is read.\<close>

definition producer_ok :: "('it, 'v, 'c) staged_source \<Rightarrow> 'it \<Rightarrow> nat \<Rightarrow> ('it, 'v) staging \<Rightarrow> bool" where
  "producer_ok src it0 m s \<longleftrightarrow>
    (case sg_producer s of
       NotStarted \<Rightarrow> m = 0 \<and> sg_consumer s = Idle \<and> sg_queue s = [] \<and> sg_iterator s = it0
     | Top \<Rightarrow> sg_queue s = [] \<and> sg_iterator s = reads src it0 m
     | Produced x \<Rightarrow> sg_queue s = [] \<and> sg_iterator s = reads src it0 (Suc m) \<and> x = item_at src it0 m
     | Cleared x \<Rightarrow> sg_queue s = [] \<and> sg_iterator s = reads src it0 (Suc m) \<and> x = item_at src it0 m \<and> \<not> sg_acknowledged s
     | Waiting x \<Rightarrow>
         (sg_queue s = [x] \<and> \<not> sg_acknowledged s \<and> sg_iterator s = reads src it0 (Suc m) \<and> x = item_at src it0 m) \<or>
         (sg_queue s = [] \<and> sg_acknowledged s \<and> sg_iterator s = reads src it0 m \<and> \<not> final_item x)
     | Exited \<Rightarrow> False)"

definition outputs_ok :: "('it, 'v, 'c) staged_source \<Rightarrow> 'it \<Rightarrow> 'v res list \<Rightarrow> bool" where
  "outputs_ok src it out \<longleftrightarrow> (\<forall>i < length out. out ! i = call_result src it i)"

lemma outputs_ok_snoc [simp]:
  "outputs_ok src it (out @ [r]) \<longleftrightarrow> outputs_ok src it out \<and> r = call_result src it (length out)"
  by (auto simp: outputs_ok_def nth_append less_Suc_eq)

definition staging_inv :: "('it, 'v, 'c) staged_source \<Rightarrow> 'it \<Rightarrow> ('it, 'v) staging \<Rightarrow> bool" where
  "staging_inv src it0 s \<longleftrightarrow>
    \<not> sg_stopped s \<and> outputs_ok src it0 (sg_out s) \<and>
    (if sg_complete s
     then
       (\<exists>m. live src it0 m \<and> final_item (item_at src it0 m) \<and> sg_view s = view_after src it0 m \<and> sg_queue s = [] \<and>
         (case sg_consumer s of
            Idle \<Rightarrow> sg_producer s = Exited \<and> m < length (sg_out s)
          | Getting \<Rightarrow> False
          | Joining e \<Rightarrow> length (sg_out s) = m \<and> item_result (item_at src it0 m) = Inl e \<and>
              (sg_producer s = Exited \<or> sg_producer s = Waiting (item_at src it0 m) \<and> sg_acknowledged s)))
     else
       live src it0 (length (sg_out s)) \<and> sg_view s = view_after src it0 (length (sg_out s)) \<and>
       producer_ok src it0 (length (sg_out s)) s \<and> sg_consumer s \<in> {Idle, Getting})"

lemma live_Suc [simp]: "live src it (Suc n) \<longleftrightarrow> live src it n \<and> \<not> final_item (item_at src it n)"
  by (auto simp: live_def less_Suc_eq)

lemma live_0 [simp]: "live src it 0"
  by (simp add: live_def)

lemma call_result_dead: "final_item (item_at src it m) \<Longrightarrow> m < n \<Longrightarrow> call_result src it n = Inl StopIteration"
  by (auto simp: call_result_def live_def)

lemma new_staging_inv: "staging_inv src it (new_staging src it)"
  by (simp add: staging_inv_def new_staging_def view_after_def producer_ok_def outputs_ok_def)

lemma item_view: "item_at src it m = StagedBatch v c \<Longrightarrow> c = view_after src it (Suc m)"
  by (auto simp: item_at_def view_after_def reads.simps(2) produce_item_def split: prod.splits sum.splits if_splits)

lemma producer_step_inv:
  assumes inv: "staging_inv src it s" and step: "producer_step src s = Some t"
  shows "staging_inv src it t"
proof (cases "sg_complete s")
  case True
  show ?thesis
  proof (cases "sg_consumer s")
    case (Joining e)
    with True inv obtain m where m: "live src it m" "final_item (item_at src it m)" "length (sg_out s) = m"
      "item_result (item_at src it m) = Inl e" "sg_producer s = Exited \<or> sg_producer s = Waiting (item_at src it m) \<and> sg_acknowledged s"
      by (auto simp: staging_inv_def)
    with step have "t = s\<lparr>sg_producer := Exited\<rparr>" by (auto simp: producer_step_def split: if_splits)
    with inv True Joining show ?thesis by (auto simp: staging_inv_def)
  qed (use True inv step in \<open>auto simp: staging_inv_def producer_step_def\<close>)
next
  case False
  with inv step show ?thesis
    by (cases "sg_producer s") (auto simp: staging_inv_def producer_step_def producer_ok_def produce_reads split: if_splits)
qed

lemma consumer_step_inv:
  assumes inv: "staging_inv src it s" and step: "consumer_step s = Some t"
  shows "staging_inv src it t"
proof (cases "sg_consumer s")
  case Idle
  show ?thesis
  proof (cases "sg_complete s")
    case True
    with inv Idle obtain m where m: "final_item (item_at src it m)" "m < length (sg_out s)" by (auto simp: staging_inv_def)
    from True Idle step have "t = s\<lparr>sg_out := sg_out s @ [Inl StopIteration]\<rparr>" by (simp add: consumer_step_def)
    with inv True Idle call_result_dead [OF m] show ?thesis by (auto simp: staging_inv_def)
  next
    case False
    with Idle step inv show ?thesis
      by (auto simp: staging_inv_def consumer_step_def producer_ok_def split: producer.splits if_splits)
  qed
next
  case Getting
  with inv have busy: "\<not> sg_complete s" by (auto simp: staging_inv_def)
  let ?m = "length (sg_out s)"
  from Getting step obtain x rest where q: "sg_queue s = x # rest" by (auto simp: consumer_step_def split: list.splits)
  with inv busy have p: "sg_producer s = Waiting x" "rest = []" "x = item_at src it ?m" "sg_iterator s = reads src it (Suc ?m)"
    and l: "live src it ?m" "sg_view s = view_after src it ?m" "\<not> sg_stopped s"
      "outputs_ok src it (sg_out s)"
    by (auto simp: staging_inv_def producer_ok_def split: producer.splits)
  have out: "call_result src it ?m = item_result x" using l(1) p(3) by (simp add: call_result_def)
  show ?thesis
  proof (cases x)
    case (StagedBatch v c)
    with Getting step q p(2) have t: "t = s\<lparr>sg_queue := [], sg_acknowledged := True, sg_consumer := Idle, sg_view := c, sg_out := sg_out s @ [Inr v]\<rparr>"
      by (simp add: consumer_step_def Let_def)
    have "c = view_after src it (Suc ?m)" by (rule item_view [of _ _ _ v]) (use StagedBatch p(3) in simp)
    moreover have "call_result src it ?m = Inr v" using out StagedBatch by simp
    moreover have "\<not> final_item (item_at src it ?m)" using StagedBatch p(3) by (metis final_item.simps(1))
    ultimately show ?thesis using busy p l StagedBatch unfolding t staging_inv_def producer_ok_def by auto
  next
    case StageEnd
    with Getting step q p(2) have t: "t = s\<lparr>sg_queue := [], sg_acknowledged := True, sg_consumer := Joining StopIteration, sg_complete := True\<rparr>"
      by (simp add: consumer_step_def Let_def)
    have "item_at src it ?m = StageEnd" using StageEnd p(3) by simp
    with p(1,4) l StageEnd show ?thesis unfolding t staging_inv_def by (auto intro!: exI [of _ ?m])
  next
    case (StageRaised e)
    with Getting step q p(2) have t: "t = s\<lparr>sg_queue := [], sg_acknowledged := True, sg_consumer := Joining e, sg_complete := True\<rparr>"
      by (simp add: consumer_step_def Let_def)
    have "item_at src it ?m = StageRaised e" using StageRaised p(3) by simp
    with p(1,4) l StageRaised show ?thesis unfolding t staging_inv_def by (auto intro!: exI [of _ ?m])
  qed
next
  case (Joining e)
  with inv have "sg_complete s" by (auto simp: staging_inv_def split: if_splits)
  with Joining inv step show ?thesis
    by (auto simp: staging_inv_def consumer_step_def call_result_def split: if_splits)
qed

lemma staging_run_inv: "staging_run src s t \<Longrightarrow> staging_inv src it s \<Longrightarrow> staging_inv src it t"
  by (induction rule: staging_run.induct) (auto elim!: staging_stepE intro: producer_step_inv consumer_step_inv)

section \<open>Properties\<close>

text \<open>
  C14: however the staging thread and the consumer interleave, the calls of \<^verbatim>\<open>__next__\<close> give what the
  wrapped iterator gives, in its order, exceptions and the end included; the coordinate a checkpoint
  takes is that of the batches given, while the wrapped iterator is at most one batch further.
\<close>

theorem staging_refines_iterator:
  assumes run: "staging_run src (new_staging src it) s"
  shows "(\<forall>i < length (sg_out s). sg_out s ! i = call_result src it i) \<and> length (sg_queue s) \<le> 1 \<and>
    (\<not> sg_complete s \<longrightarrow> sg_view s = view_after src it (length (sg_out s)) \<and>
       sg_iterator s \<in> {reads src it (length (sg_out s)), reads src it (Suc (length (sg_out s)))})"
proof -
  have inv: "staging_inv src it s" by (rule staging_run_inv [OF run new_staging_inv])
  then have "\<forall>i < length (sg_out s). sg_out s ! i = call_result src it i" by (simp add: staging_inv_def outputs_ok_def)
  moreover have "length (sg_queue s) \<le> 1"
    using inv by (cases "sg_producer s") (auto simp: staging_inv_def producer_ok_def split: if_splits)
  moreover have "sg_view s = view_after src it (length (sg_out s)) \<and>
      sg_iterator s \<in> {reads src it (length (sg_out s)), reads src it (Suc (length (sg_out s)))}" if "\<not> sg_complete s"
    using that inv by (cases "sg_producer s") (auto simp: staging_inv_def producer_ok_def)
  ultimately show ?thesis by blast
qed

text \<open>The steps the staging thread can still take before the consumer must act.\<close>

definition producer_rank :: "('it, 'v) staging \<Rightarrow> nat" where
  "producer_rank s =
    (case sg_producer s of
       NotStarted \<Rightarrow> 0 | Exited \<Rightarrow> 0
     | Top \<Rightarrow> 4 | Produced _ \<Rightarrow> 3 | Cleared _ \<Rightarrow> 2
     | Waiting _ \<Rightarrow> if sg_acknowledged s then 5 else 1)"

definition call_rank :: "('it, 'v) staging \<Rightarrow> nat" where
  "call_rank s = producer_rank s + (if sg_consumer s = Getting then 6 else 0)"

lemma complete_producer:
  "staging_inv src it s \<Longrightarrow> sg_complete s \<Longrightarrow>
    sg_consumer s \<noteq> Getting \<and> (sg_producer s = Exited \<or> (\<exists>x. sg_producer s = Waiting x \<and> sg_acknowledged s \<and> final_item x))"
  by (cases "sg_consumer s") (auto simp: staging_inv_def)

lemma busy_producer: "staging_inv src it s \<Longrightarrow> \<not> sg_complete s \<Longrightarrow> producer_ok src it (length (sg_out s)) s"
  by (simp add: staging_inv_def)

lemma producer_rank_decreases:
  assumes "staging_inv src it s" "producer_step src s = Some t"
  shows "producer_rank t < producer_rank s \<and> sg_consumer t = sg_consumer s"
proof (cases "sg_complete s")
  case True
  with complete_producer [OF assms(1)] assms(2) show ?thesis
    by (auto simp: producer_step_def producer_rank_def split: if_splits)
next
  case False
  have "\<not> sg_stopped s" using assms(1) by (simp add: staging_inv_def)
  with False assms(2) busy_producer [OF assms(1)] show ?thesis
    by (cases "sg_producer s") (auto simp: producer_step_def producer_rank_def producer_ok_def split: if_splits prod.splits)
qed

lemma busy_enabled:
  assumes inv: "staging_inv src it s" and busy: "sg_consumer s \<noteq> Idle"
  shows "\<exists>t. staging_step src s t"
proof (cases "sg_complete s")
  case True
  with complete_producer [OF inv] busy obtain e where c: "sg_consumer s = Joining e"
    "sg_producer s = Exited \<or> (\<exists>x. sg_producer s = Waiting x \<and> sg_acknowledged s)" by (cases "sg_consumer s") auto
  from c(2) show ?thesis
  proof
    assume "sg_producer s = Exited"
    with c(1) have "consumer_step s \<noteq> None" by (simp add: consumer_step_def)
    then show ?thesis by (blast intro: consume)
  next
    assume "\<exists>x. sg_producer s = Waiting x \<and> sg_acknowledged s"
    then have "producer_step src s \<noteq> None" by (auto simp: producer_step_def)
    then show ?thesis by (blast intro: produce)
  qed
next
  case False
  with inv busy have c: "sg_consumer s = Getting" "producer_ok src it (length (sg_out s)) s" by (auto simp: staging_inv_def)
  show ?thesis
  proof (cases "sg_queue s")
    case Nil
    with c have "producer_step src s \<noteq> None"
      by (cases "sg_producer s") (auto simp: producer_ok_def producer_step_def split: prod.split)
    then show ?thesis by (blast intro: produce)
  next
    case (Cons x rest)
    with c(1) have "consumer_step s \<noteq> None" by (cases x) (simp_all add: consumer_step_def Let_def)
    then show ?thesis by (blast intro: consume)
  qed
qed

text \<open>
  C37: a call of \<^verbatim>\<open>__next__\<close> returns under every schedule: while it is under way some thread can step, and
  every step of either thread brings its return nearer.
\<close>

theorem staging_call_returns:
  assumes run: "staging_run src (new_staging src it) s" and busy: "sg_consumer s \<noteq> Idle"
  shows "(\<exists>t. staging_step src s t) \<and> (\<forall>t. staging_step src s t \<longrightarrow> sg_consumer t = Idle \<or> call_rank t < call_rank s)"
proof -
  have inv: "staging_inv src it s" by (rule staging_run_inv [OF run new_staging_inv])
  have "sg_consumer t = Idle \<or> call_rank t < call_rank s" if "staging_step src s t" for t
    using that
  proof cases
    case produce
    with producer_rank_decreases [OF inv] show ?thesis by (simp add: call_rank_def)
  next
    case consume
    show ?thesis
    proof (cases "sg_consumer s")
      case Getting
      then have "call_rank s \<ge> 6" by (simp add: call_rank_def)
      moreover have "producer_rank t \<le> 5" by (simp add: producer_rank_def split: producer.split)
      moreover have "sg_consumer t \<noteq> Getting"
        using consume Getting by (auto simp: consumer_step_def Let_def split: list.splits staged_item.splits)
      ultimately show ?thesis by (simp add: call_rank_def)
    next
      case (Joining e)
      with consume show ?thesis by (auto simp: consumer_step_def split: if_splits)
    qed (use busy in simp)
  qed
  with busy_enabled [OF inv busy] show ?thesis by blast
qed

text \<open>A schedule: which thread steps next, the staging thread for \<^const>\<open>True\<close>.\<close>

fun schedule :: "('it, 'v, 'c) staged_source \<Rightarrow> bool list \<Rightarrow> ('it, 'v) staging \<Rightarrow> ('it, 'v) staging option" where
  "schedule src [] s = Some s"
| "schedule src (b # bs) s =
    (case (if b then producer_step src s else consumer_step s) of None \<Rightarrow> None | Some t \<Rightarrow> schedule src bs t)"

lemma schedule_append:
  "schedule src (bs @ cs) s = (case schedule src bs s of None \<Rightarrow> None | Some t \<Rightarrow> schedule src cs t)"
  by (induction bs arbitrary: s) (auto split: option.split)

lemma schedule_run: "schedule src bs s = Some t \<Longrightarrow> staging_run src s t"
proof (induction bs arbitrary: t rule: rev_induct)
  case (snoc b bs)
  then obtain u where u: "schedule src bs s = Some u" "(if b then producer_step src u else consumer_step u) = Some t"
    by (auto simp: schedule_append split: option.splits)
  have "staging_step src u t" using u(2) by (cases b) (simp_all add: produce consume)
  with snoc.IH [OF u(1)] show ?case by (rule staging_run.step)
qed (simp add: staging_run.refl)

text \<open>A source of three batches, its checkpoint the number it has delivered.\<close>

definition three_batches :: "(int list \<times> int, int, int) staged_source" where
  "three_batches = \<lparr>ss_next = \<lambda>(vs, n). (case vs of [] \<Rightarrow> (([], n), Inl StopIteration) | v # vs \<Rightarrow> ((vs, n + 1), Inr v)),
     ss_view = \<lambda>(vs, n). \<lparr>cv_epoch = 0, cv_delivered = n, cv_checksum = 0, cv_bitmap = []\<rparr>, ss_checkpoint = snd,
     ss_invalidate = id, ss_stage = Inr\<rparr>"

definition fresh_staging :: "(int list \<times> int, int) staging" where
  "fresh_staging = new_staging three_batches ([5, 6, 7], 0)"

theorem staging_refines_iterator_witness:
  "\<exists>s. staging_run three_batches (new_staging three_batches ([5, 6, 7], 0)) s \<and> sg_out s = [Inr 5, Inr 6] \<and>
     sg_out s ! 1 = call_result three_batches ([5, 6, 7], 0) 1"
proof -
  have "map_option sg_out (schedule three_batches [False, True, True, True, False, True, True, True, False, True, False] fresh_staging) = Some [Inr 5, Inr 6]"
    by code_simp
  then obtain s where s: "staging_run three_batches fresh_staging s" "sg_out s = [Inr 5, Inr 6]" using schedule_run by blast
  have "1 < length (sg_out s)" by (simp add: s(2))
  with staging_refines_iterator [OF s(1) [unfolded fresh_staging_def]] s show ?thesis unfolding fresh_staging_def by blast
qed

theorem staging_call_returns_witness:
  "\<exists>s t. staging_run three_batches (new_staging three_batches ([5, 6, 7], 0)) s \<and> sg_consumer s = Getting \<and> staging_step three_batches s t"
proof -
  have "map_option sg_consumer (schedule three_batches [False, True] fresh_staging) = Some Getting" by code_simp
  then obtain s where s: "staging_run three_batches fresh_staging s" "sg_consumer s = Getting" using schedule_run by blast
  with staging_call_returns [OF s(1) [unfolded fresh_staging_def]] show ?thesis unfolding fresh_staging_def by auto
qed

text \<open>Closing joins the thread: it has at most three steps left.\<close>

lemma close_returns:
  assumes "staging_inv src it s"
  shows "close_staging src s \<noteq> None"
proof (cases "sg_complete s")
  case True
  with complete_producer [OF assms] show ?thesis
    by (auto simp: close_staging_def invalidate_staging_def producer_step_def numeral_3_eq_3)
next
  case False
  with busy_producer [OF assms] show ?thesis
    by (cases "sg_producer s")
      (auto simp: producer_ok_def close_staging_def invalidate_staging_def producer_step_def numeral_3_eq_3)
qed

text \<open>The consumer's calls after \<^verbatim>\<open>close\<close>: what the first gives, if it returns, and whether the second can.\<close>

definition after_close :: "bool list \<Rightarrow> bool list \<Rightarrow> (int list \<times> int, int) staging option" where
  "after_close before later =
    Option.bind (schedule three_batches before fresh_staging) (\<lambda>s. Option.bind (close_staging three_batches s) (schedule three_batches later))"

text \<open>
  A call of \<^verbatim>\<open>__next__\<close> on a closed staged iterator is not refused: it gives a batch that was staged
  before, or, when nothing was, waits for ever, since the new thread ends at once.
\<close>

theorem closed_staging_not_refused:
  "(\<exists>s. after_close [False, True, True, True, False, True, True, True, True] [False, False] = Some s \<and> sg_out s = [Inr 5, Inr 6]) \<and>
   (\<exists>s. after_close [False, True, True, True, False] [False, True] = Some s \<and> sg_out s = [Inr 5] \<and> sg_consumer s = Getting \<and>
      \<not> (\<exists>t. staging_step three_batches s t))"
proof
  have "map_option sg_out (after_close [False, True, True, True, False, True, True, True, True] [False, False]) = Some [Inr 5, Inr 6]"
    by code_simp
  then show "\<exists>s. after_close [False, True, True, True, False, True, True, True, True] [False, False] = Some s \<and> sg_out s = [Inr 5, Inr 6]" by blast
  have "map_option (\<lambda>s. (sg_out s, sg_consumer s, producer_step three_batches s = None \<and> consumer_step s = None))
      (after_close [False, True, True, True, False] [False, True]) = Some ([Inr 5], Getting, True)" by code_simp
  then show "\<exists>s. after_close [False, True, True, True, False] [False, True] = Some s \<and> sg_out s = [Inr 5] \<and> sg_consumer s = Getting \<and>
      \<not> (\<exists>t. staging_step three_batches s t)" by (auto elim!: staging_stepE)
qed

text \<open>
  The checkpoint of a staged iterable loader is the wrapped iterator's, which has already read the
  batch after the last one given: after one batch it may say two.
\<close>

theorem staged_checkpoint_ahead:
  "\<exists>s. staging_run three_batches (new_staging three_batches ([5, 6, 7], 0)) s \<and> sg_out s = [Inr 5] \<and>
     cv_delivered (sg_view s) = 1 \<and> staging_checkpoint three_batches s = 2"
proof -
  have "map_option (\<lambda>s. (sg_out s, cv_delivered (sg_view s), staging_checkpoint three_batches s))
      (schedule three_batches [False, True, True, True, False, True, True] fresh_staging) = Some ([Inr 5], 1, 2)" by code_simp
  then show ?thesis using schedule_run unfolding fresh_staging_def by blast
qed

end
