(* ===== verification/Structured.thy ===== *)
theory Structured
  imports MapState Telemetry
begin

text \<open>
  Batch-native execution (\<^verbatim>\<open>structured/pipeline.py\<close>, \<^verbatim>\<open>structured/iterator.py\<close>, \<^verbatim>\<open>structured/probe.py\<close>): a
  bounded frontier of complete batches, each produced by a pool thread.  The dataset and the collation are
  arguments that compute a value or raise, so a future stands for the range it was submitted with.
\<close>

section \<open>Producing a batch\<close>

record ('v, 'b) native_code =
  nc_item :: "int \<Rightarrow> 'v res"
  nc_collate :: "'v list \<Rightarrow> 'b res"
  nc_shape :: "'v \<Rightarrow> nat"
  nc_sample :: "'v \<Rightarrow> payload_value"
  nc_payload :: "'b \<Rightarrow> payload_value"

record 'b produced_batch =
  pb_batch :: 'b
  pb_samples :: int
  pb_sample_bytes :: int
  pb_output_bytes :: int
  pb_minimum_sample_bytes :: int
  pb_maximum_sample_bytes :: int
  pb_first_shape :: "nat option"
  pb_variable_shape :: bool

definition finish_batch :: "('v, 'b) native_code \<Rightarrow> 'v list \<Rightarrow> 'b produced_batch res" where
  "finish_batch nc vs =
    rmap (\<lambda>batch.
      let shapes = map (nc_shape nc) vs; sizes = map (payload_value_bytes \<circ> nc_sample nc) vs in
      \<lparr>pb_batch = batch, pb_samples = int (length vs), pb_sample_bytes = sum_list sizes,
       pb_output_bytes = payload_value_bytes (nc_payload nc batch),
       pb_minimum_sample_bytes = (if sizes = [] then 0 else foldr min (tl sizes) (hd sizes)),
       pb_maximum_sample_bytes = foldr max sizes 0,
       pb_first_shape = (if shapes = [] then None else Some (hd shapes)), pb_variable_shape = 1 < length (remdups shapes)\<rparr>)
    (nc_collate nc vs)"

definition produce_batch :: "('v, 'b) native_code \<Rightarrow> int \<times> int \<Rightarrow> 'b produced_batch res" where
  "produce_batch nc r = rbind (rtraverse (nc_item nc) (irange (fst r) (snd r))) (finish_batch nc)"

section \<open>The adapter\<close>

text \<open>\<open>na_started\<close> is the log of the ranges whose production has been submitted.\<close>

record native_adapter =
  na_source_class :: string
  na_sample_open :: bool
  na_batch_open :: bool
  na_futures :: "(int, int \<times> int) dict"
  na_epoch_length :: int
  na_next_batch_submit :: int
  na_batch_size :: int
  na_batch_prefetch :: int
  na_sample_shape :: "nat option"
  na_variable_shape :: bool
  na_produced_batches :: int
  na_produced_samples :: int
  na_sample_bytes :: int
  na_output_bytes :: int
  na_minimum_sample_bytes :: "int option"
  na_maximum_sample_bytes :: int
  na_memory :: ledger
  na_started :: "(int \<times> int) list"

definition new_adapter :: "string \<Rightarrow> native_adapter" where
  "new_adapter source_class =
    \<lparr>na_source_class = source_class, na_sample_open = False, na_batch_open = False, na_futures = [], na_epoch_length = 0,
     na_next_batch_submit = 0, na_batch_size = 1, na_batch_prefetch = 1, na_sample_shape = None, na_variable_shape = False,
     na_produced_batches = 0, na_produced_samples = 0, na_sample_bytes = 0, na_output_bytes = 0,
     na_minimum_sample_bytes = None, na_maximum_sample_bytes = 0, na_memory = new_ledger source_class ''single-write'',
     na_started = []\<rparr>"

definition submit_batch :: "int \<times> int \<Rightarrow> native_adapter \<Rightarrow> native_adapter" where
  "submit_batch r a = a\<lparr>na_batch_open := True, na_started := na_started a @ [r]\<rparr>"

text \<open>The \<^verbatim>\<open>while\<close> loop of \<^verbatim>\<open>_fill_frontier\<close>, \<open>k\<close> rounds of it; the room left is enough.\<close>

fun fill_rounds :: "nat \<Rightarrow> native_adapter \<Rightarrow> native_adapter" where
  "fill_rounds 0 a = a"
| "fill_rounds (Suc k) a =
    (if na_next_batch_submit a < na_epoch_length a \<and> int (length (na_futures a)) < na_batch_prefetch a then
       let start = na_next_batch_submit a;
           stop = min (start + na_batch_size a) (na_epoch_length a);
           a = submit_batch (start, stop) a
       in fill_rounds k (a\<lparr>na_futures := dict_set start (start, stop) (na_futures a), na_next_batch_submit := stop\<rparr>)
     else a)"

definition fill_batches :: "native_adapter \<Rightarrow> native_adapter" where
  "fill_batches a = fill_rounds (nat (na_epoch_length a - na_next_batch_submit a)) a"

definition record_produced :: "('v, 'b) native_code \<Rightarrow> 'b produced_batch \<Rightarrow> native_adapter \<Rightarrow> native_adapter \<times> unit res" where
  "record_produced nc p a =
    (let a = (if na_sample_shape a = None then a\<lparr>na_sample_shape := pb_first_shape p\<rparr>
              else if pb_first_shape p \<noteq> na_sample_shape a then a\<lparr>na_variable_shape := True\<rparr> else a);
         a = a\<lparr>na_variable_shape := na_variable_shape a \<or> pb_variable_shape p,
               na_sample_bytes := na_sample_bytes a + pb_sample_bytes p,
               na_maximum_sample_bytes := max (na_maximum_sample_bytes a) (pb_maximum_sample_bytes p)\<rparr>;
         a = (if pb_samples p \<noteq> 0
              then a\<lparr>na_minimum_sample_bytes := Some (case na_minimum_sample_bytes a of
                  None \<Rightarrow> pb_minimum_sample_bytes p | Some m \<Rightarrow> min m (pb_minimum_sample_bytes p))\<rparr>
              else a);
         a = a\<lparr>na_produced_batches := na_produced_batches a + 1, na_produced_samples := na_produced_samples a + pb_samples p,
               na_output_bytes := na_output_bytes a + pb_output_bytes p\<rparr>
     in case ledger_record (nc_payload nc (pb_batch p)) (pb_samples p)
          (if na_source_class a = ''pinned-decode'' then pb_sample_bytes p else 0) (pb_output_bytes p) (na_memory a) of
        Inl e \<Rightarrow> (a, Inl e)
      | Inr memory \<Rightarrow> (a\<lparr>na_memory := memory\<rparr>, Inr ()))"

definition record_batch :: "('v, 'b) native_code \<Rightarrow> 'b produced_batch \<Rightarrow> native_adapter \<Rightarrow> native_adapter \<times> 'b res" where
  "record_batch nc p a = (case record_produced nc p a of (a, r) \<Rightarrow> (a, rmap (\<lambda>_. pb_batch p) r))"

definition pipeline_batch :: "('v, 'b) native_code \<Rightarrow> int \<Rightarrow> int \<Rightarrow> native_adapter \<Rightarrow> native_adapter \<times> 'b res" where
  "pipeline_batch nc start stop a =
    (if na_epoch_length a = 0 then
       let a = a\<lparr>na_sample_open := True, na_started := na_started a @ [(start, stop)]\<rparr> in
       case produce_batch nc (start, stop) of Inl e \<Rightarrow> (a, Inl e) | Inr p \<Rightarrow> record_batch nc p a
     else
       case (case dict_get (na_futures a) start of
               Some r \<Rightarrow> (r, a\<lparr>na_futures := dict_del start (na_futures a)\<rparr>)
             | None \<Rightarrow> ((start, stop), submit_batch (start, stop) a)) of
         (r, a) \<Rightarrow>
           (case produce_batch nc r of Inl e \<Rightarrow> (a, Inl e) | Inr p \<Rightarrow> record_batch nc p (fill_batches a)))"

definition begin_native_epoch :: "int \<Rightarrow> int \<Rightarrow> int \<Rightarrow> int \<Rightarrow> native_adapter \<Rightarrow> native_adapter" where
  "begin_native_epoch n depth start batch_size a =
    fill_batches
      (a\<lparr>na_sample_open := False, na_futures := [], na_epoch_length := n, na_next_batch_submit := start,
         na_batch_size := batch_size, na_batch_prefetch := max 1 ((depth + batch_size - 1) div batch_size)\<rparr>)"

definition close_adapter :: "native_adapter \<Rightarrow> native_adapter" where
  "close_adapter a =
    a\<lparr>na_sample_open := False, na_batch_open := False, na_futures := [], na_epoch_length := 0, na_next_batch_submit := 0,
      na_batch_prefetch := 1\<rparr>"

section \<open>The probe and the iterator\<close>

record 'b structured_world =
  sw_loader :: map_loader
  sw_adapter :: native_adapter
  sw_probe :: "'b res option"

text \<open>The samples an epoch delivers: a short last batch is dropped on request.\<close>

definition structured_length :: "map_loader \<Rightarrow> int" where
  "structured_length l =
    (case sz_batch_size (ld_sizing l) of
       Some b \<Rightarrow> if sz_drop_last (ld_sizing l) then sz_plan_length (ld_sizing l) - sz_plan_length (ld_sizing l) mod b
                 else sz_plan_length (ld_sizing l)
     | None \<Rightarrow> sz_plan_length (ld_sizing l))"

definition prepare_native_batch :: "('v, 'b) native_code \<Rightarrow> 'b structured_world \<Rightarrow> 'b structured_world" where
  "prepare_native_batch nc w =
    (if sz_plan_length (ld_sizing (sw_loader w)) = 0 \<or> structured_length (sw_loader w) = 0 then w
     else case pipeline_batch nc 0 (min (loader_width (sw_loader w)) (structured_length (sw_loader w))) (sw_adapter w) of
            (a, r) \<Rightarrow> w\<lparr>sw_adapter := a, sw_probe := Some r\<rparr>)"

record structured =
  sr_epoch :: int
  sr_length :: int
  sr_position :: int
  sr_complete :: bool
  sr_valid :: bool
  sr_delivery_telemetry :: "delivery_telemetry option"

definition new_structured ::
    "int \<Rightarrow> telemetry option \<Rightarrow> 'b structured_world \<Rightarrow> (structured \<times> 'b structured_world) res" where
  "new_structured free recorder w =
    (let l = sw_loader w; n = structured_length l in
     rbind (resume_sample_position l n) (\<lambda>position.
     rbind (frontier_depth free (ld_sizing l)) (\<lambda>depth.
       let width = loader_width l;
           retained = (if position = 0 \<and> sw_probe w \<noteq> None then min width n else position);
           w = (if position \<noteq> 0 then w\<lparr>sw_probe := None\<rparr> else w)
       in Inr (\<lparr>sr_epoch = es_current (ld_epoch_state l), sr_length = n, sr_position = position, sr_complete = False,
                sr_valid = True, sr_delivery_telemetry = map_option new_delivery_telemetry recorder\<rparr>,
               w\<lparr>sw_adapter := begin_native_epoch n depth retained width (sw_adapter w)\<rparr>))))"

definition next_native_batch ::
    "('v, 'b) native_code \<Rightarrow> int \<Rightarrow> int \<Rightarrow> 'b structured_world \<Rightarrow> 'b structured_world \<times> 'b res" where
  "next_native_batch nc start stop w =
    (if start \<noteq> 0 \<or> sw_probe w = None then
       (case pipeline_batch nc start stop (sw_adapter w) of (a, r) \<Rightarrow> (w\<lparr>sw_adapter := a\<rparr>, r))
     else (w\<lparr>sw_probe := None\<rparr>, the (sw_probe w)))"

definition finish_structured :: "int \<Rightarrow> structured \<Rightarrow> 'b structured_world \<Rightarrow> structured \<times> 'b structured_world" where
  "finish_structured now it w =
    (if sr_complete it then (it, w)
     else (it\<lparr>sr_delivery_telemetry := map_option (delivery_finish_epoch (sr_epoch it) now) (sr_delivery_telemetry it),
              sr_complete := True\<rparr>,
           w\<lparr>sw_loader := (sw_loader w)\<lparr>ld_epoch_state := complete_epoch (sr_epoch it) (ld_epoch_state (sw_loader w))\<rparr>\<rparr>))"

text \<open>\<^verbatim>\<open>loader.close()\<close> invalidates the active iterator, which this is, and closes the adapter.\<close>

definition close_structured :: "structured \<Rightarrow> 'b structured_world \<Rightarrow> structured \<times> 'b structured_world" where
  "close_structured it w =
    (it\<lparr>sr_valid := False\<rparr>,
     w\<lparr>sw_loader := close_loader (sw_loader w), sw_adapter := close_adapter (sw_adapter w), sw_probe := None\<rparr>)"

definition structured_next ::
    "('v, 'b) native_code \<Rightarrow> int \<times> int \<Rightarrow> structured \<Rightarrow> 'b structured_world \<Rightarrow> structured \<times> 'b structured_world \<times> 'b res" where
  "structured_next nc clock it w =
    (if \<not> sr_valid it then (it, w, Inl (RuntimeError ''structured iterator is no longer active''))
     else if sr_length it \<le> sr_position it then
       (case finish_structured (snd clock) it w of (it, w) \<Rightarrow> (it, w, Inl StopIteration))
     else case sz_batch_size (ld_sizing (sw_loader w)) of
       None \<Rightarrow> (it, w, Inl (RuntimeError ''batch-native delivery requires automatic batching''))
     | Some batch_size \<Rightarrow>
         let start = sr_position it;
             stop = min (start + batch_size) (sr_length it);
             started = (case sr_delivery_telemetry it of None \<Rightarrow> 0 | Some d \<Rightarrow> start_delivery (fst clock) d)
         in case next_native_batch nc start stop w of
              (w, Inl e) \<Rightarrow> (case close_structured (it\<lparr>sr_position := start\<rparr>) w of (it, w) \<Rightarrow> (it, w, Inl e))
            | (w, Inr v) \<Rightarrow>
                (it\<lparr>sr_position := stop,
                   sr_delivery_telemetry :=
                     map_option (note_delivery (stop - start) (payload_value_bytes (nc_payload nc v)) started (snd clock))
                       (sr_delivery_telemetry it)\<rparr>,
                 w\<lparr>sw_loader := (sw_loader w)\<lparr>ld_epoch_state := mark_epoch_delivered (sr_epoch it) (ld_epoch_state (sw_loader w))\<rparr>\<rparr>,
                 Inr v))"

definition structured_delivered_batches :: "map_loader \<Rightarrow> structured \<Rightarrow> int" where
  "structured_delivered_batches l it = (sr_position it + loader_width l - 1) div loader_width l"

definition invalidate_structured :: "structured \<Rightarrow> structured" where
  "invalidate_structured it = it\<lparr>sr_valid := False\<rparr>"

section \<open>The frontier\<close>

function batch_ranges :: "int \<Rightarrow> int \<Rightarrow> int \<Rightarrow> (int \<times> int) list" where
  "batch_ranges b n start =
    (if b \<le> 0 \<or> n \<le> start then [] else (start, min (start + b) n) # batch_ranges b n (min (start + b) n))"
  by pat_completeness auto
termination by (relation "measure (\<lambda>(b, n, start). nat (n - start))") auto

declare batch_ranges.simps [simp del]

lemma batch_ranges_Nil [simp]: "n \<le> start \<Longrightarrow> batch_ranges b n start = []"
  by (simp add: batch_ranges.simps)

lemma batch_ranges_Cons:
  "0 < b \<Longrightarrow> start < n \<Longrightarrow> batch_ranges b n start = (start, min (start + b) n) # batch_ranges b n (min (start + b) n)"
  by (subst batch_ranges.simps) simp

lemma batch_ranges_starts: "r \<in> set (batch_ranges b n start) \<Longrightarrow> start \<le> fst r \<and> fst r < snd r \<and> snd r \<le> n"
  by (induction b n start rule: batch_ranges.induct) (subst (asm) (2) batch_ranges.simps, fastforce split: if_splits)

text \<open>
  Between two calls the frontier holds the next ranges from \<open>pos\<close>, in order, as many as fit; the log holds the
  ranges before the next submission.
\<close>

definition batches_ok :: "int \<Rightarrow> int \<Rightarrow> int \<Rightarrow> (int \<times> int) list \<Rightarrow> (int \<times> int) list \<Rightarrow> native_adapter \<Rightarrow> bool" where
  "batches_ok b n pos before pre a \<longleftrightarrow>
    na_batch_size a = b \<and> na_epoch_length a = n \<and> 1 \<le> na_batch_prefetch a \<and> int (length pre) \<le> na_batch_prefetch a \<and>
    na_futures a = map (\<lambda>r. (fst r, r)) pre \<and> pos \<le> na_next_batch_submit a \<and> (\<forall>r \<in> set pre. fst r < na_next_batch_submit a \<and> snd r \<le> na_next_batch_submit a) \<and>
    batch_ranges b n pos = pre @ batch_ranges b n (na_next_batch_submit a) \<and> na_started a = before @ pre"

definition batches_full :: "(int \<times> int) list \<Rightarrow> native_adapter \<Rightarrow> bool" where
  "batches_full pre a \<longleftrightarrow> int (length pre) = na_batch_prefetch a \<or> na_epoch_length a \<le> na_next_batch_submit a"

lemma dict_set_new_key: "k \<notin> fst ` set d \<Longrightarrow> dict_set k v d = d @ [(k, v)]"
  by (rule length_dict_set_new) (simp add: dict_keys_def)

lemma fill_rounds_ok:
  "0 < b \<Longrightarrow> batches_ok b n pos before pre a \<Longrightarrow> nat (na_epoch_length a - na_next_batch_submit a) \<le> k \<Longrightarrow>
   \<exists>more. batches_ok b n pos before (pre @ more) (fill_rounds k a) \<and> batches_full (pre @ more) (fill_rounds k a)"
proof (induction k arbitrary: pre a)
  case 0
  then show ?case by (intro exI [of _ "[]"]) (simp add: batches_full_def)
next
  case (Suc k)
  show ?case
  proof (cases "na_next_batch_submit a < na_epoch_length a \<and> int (length (na_futures a)) < na_batch_prefetch a")
    case True
    define start where "start = na_next_batch_submit a"
    define stop where "stop = min (start + na_batch_size a) (na_epoch_length a)"
    define c where "c = (submit_batch (start, stop) a)\<lparr>na_futures := dict_set start (start, stop) (na_futures a), na_next_batch_submit := stop\<rparr>"
    have ok: "batches_ok b n pos before pre a" by fact
    have "fill_rounds (Suc k) a = fill_rounds k c"
      using True by (simp add: c_def start_def stop_def Let_def submit_batch_def)
    moreover have "batches_ok b n pos before (pre @ [(start, stop)]) c"
    proof -
      have "start \<notin> fst ` set (na_futures a)" using ok by (fastforce simp: batches_ok_def start_def)
      moreover have "batch_ranges b n start = (start, stop) # batch_ranges b n stop"
        using True ok Suc.prems(1) by (simp add: batches_ok_def start_def stop_def batch_ranges_Cons)
      moreover have "start < stop" using True ok Suc.prems(1) by (simp add: batches_ok_def start_def stop_def)
      ultimately show ?thesis
        using ok True by (auto simp: batches_ok_def c_def start_def submit_batch_def dict_set_new_key)
    qed
    moreover have "nat (na_epoch_length c - na_next_batch_submit c) \<le> k"
      using True ok Suc.prems by (auto simp: c_def start_def stop_def batches_ok_def submit_batch_def)
    ultimately show ?thesis using Suc.IH [OF Suc.prems(1)] by (metis append.assoc)
  next
    case False
    then have "fill_rounds (Suc k) a = a" by auto
    moreover have "batches_full pre a" using False Suc.prems(2) by (auto simp: batches_full_def batches_ok_def)
    ultimately show ?thesis using Suc.prems(2) by (intro exI [of _ "[]"]) simp
  qed
qed

lemma fill_batches_ok:
  "0 < b \<Longrightarrow> batches_ok b n pos before pre a \<Longrightarrow>
   \<exists>more. batches_ok b n pos before (pre @ more) (fill_batches a) \<and> batches_full (pre @ more) (fill_batches a)"
  unfolding fill_batches_def by (rule fill_rounds_ok) simp_all

definition native_reference :: "('v, 'b) native_code \<Rightarrow> int \<times> int \<Rightarrow> 'b res" where
  "native_reference nc r = rbind (rtraverse (nc_item nc) (irange (fst r) (snd r))) (nc_collate nc)"

lemma produce_batch_reference: "rmap pb_batch (produce_batch nc r) = native_reference nc r"
  by (cases "rtraverse (nc_item nc) (irange (fst r) (snd r))")
    (simp_all add: produce_batch_def native_reference_def finish_batch_def Let_def rmap_def rbind_def split: sum.splits)

lemma record_batch_ok:
  assumes "produce_batch nc r = Inr p"
  shows "\<exists>c. record_batch nc p a = (c, Inr (pb_batch p)) \<and>
    (\<forall>b n pos before pre. batches_ok b n pos before pre c = batches_ok b n pos before pre a) \<and>
    (\<forall>pre. batches_full pre c = batches_full pre a) \<and> na_started c = na_started a"
proof -
  obtain vs where p: "finish_batch nc vs = Inr p"
    using assms by (auto simp: produce_batch_def rbind_def split: sum.splits)
  then have "0 \<le> pb_samples p" "0 \<le> pb_sample_bytes p" "0 \<le> pb_output_bytes p"
    by (auto simp: finish_batch_def rmap_def Let_def intro!: sum_list_nonneg split: sum.splits)
  then show ?thesis
    by (auto simp: record_batch_def record_produced_def ledger_record_def Let_def batches_ok_def batches_full_def rmap_def)
qed

lemma pipeline_batch_ok:
  assumes b: "0 < b" and ok: "batches_ok b n pos before pre a" and full: "batches_full pre a" and pos: "0 \<le> pos" "pos < n"
  shows "\<exists>c. pipeline_batch nc pos (min (pos + b) n) a = (c, native_reference nc (pos, min (pos + b) n)) \<and>
    (\<forall>v. native_reference nc (pos, min (pos + b) n) = Inr v \<longrightarrow>
      (\<exists>later. batches_ok b n (min (pos + b) n) (before @ [(pos, min (pos + b) n)]) later c \<and> batches_full later c))"
proof -
  let ?r = "(pos, min (pos + b) n)"
  have ranges: "batch_ranges b n pos = ?r # batch_ranges b n (min (pos + b) n)" using b pos by (simp add: batch_ranges_Cons)
  have "pre \<noteq> []"
  proof
    assume "pre = []"
    with full ok have "n \<le> na_next_batch_submit a" by (auto simp: batches_full_def batches_ok_def)
    with ok ranges \<open>pre = []\<close> show False by (simp add: batches_ok_def)
  qed
  with ok ranges obtain rest where pre: "pre = ?r # rest" by (cases pre) (auto simp: batches_ok_def)
  let ?c = "a\<lparr>na_futures := dict_del pos (na_futures a)\<rparr>"
  have later: "\<forall>r \<in> set rest. pos < fst r"
  proof
    fix r assume "r \<in> set rest"
    then have "r \<in> set (batch_ranges b n (min (pos + b) n))" using ok ranges pre by (auto simp: batches_ok_def)
    from batch_ranges_starts [OF this] b pos show "pos < fst r" by auto
  qed
  then have del: "dict_del pos (na_futures a) = map (\<lambda>r. (fst r, r)) rest"
    using ok pre by (auto simp: batches_ok_def AList.delete_eq filter_id_conv)
  have n: "na_epoch_length a = n" "n \<noteq> 0" "dict_get (na_futures a) pos = Some ?r"
    using ok pos pre by (simp_all add: batches_ok_def)
  have "rest @ batch_ranges b n (na_next_batch_submit a) = batch_ranges b n (min (pos + b) n)"
    using ok ranges pre by (simp add: batches_ok_def)
  moreover have "min (pos + b) n \<le> na_next_batch_submit a" using ok pre by (simp add: batches_ok_def)
  ultimately have "batches_ok b n (min (pos + b) n) (before @ [?r]) rest ?c"
    using ok pre del by (simp add: batches_ok_def)
  from fill_batches_ok [OF b this] obtain more where
    filled: "batches_ok b n (min (pos + b) n) (before @ [?r]) (rest @ more) (fill_batches ?c)" "batches_full (rest @ more) (fill_batches ?c)"
    by blast
  have run: "pipeline_batch nc pos (min (pos + b) n) a =
      (case produce_batch nc ?r of Inl e \<Rightarrow> (?c, Inl e) | Inr p \<Rightarrow> record_batch nc p (fill_batches ?c))"
    using n by (simp add: pipeline_batch_def)
  show ?thesis
  proof (cases "produce_batch nc ?r")
    case (Inl e)
    then have "native_reference nc ?r = Inl e" by (simp flip: produce_batch_reference add: rmap_def)
    then show ?thesis by (simp add: run Inl)
  next
    case (Inr p)
    then have "native_reference nc ?r = Inr (pb_batch p)" by (simp flip: produce_batch_reference add: rmap_def)
    with record_batch_ok [OF Inr, of "fill_batches ?c"] filled show ?thesis by (auto simp: run Inr)
  qed
qed

section \<open>The iterator against direct production\<close>

text \<open>
  \<open>before\<close> are the ranges produced for the batches delivered so far, and for the probe while it is kept; the probe is the first batch.
\<close>

definition structured_ok ::
    "('v, 'b) native_code \<Rightarrow> int \<Rightarrow> int \<Rightarrow> (int \<times> int) list \<Rightarrow> structured \<Rightarrow> 'b structured_world \<Rightarrow> bool" where
  "structured_ok nc b n before it w \<longleftrightarrow>
    0 < b \<and> 0 \<le> sr_position it \<and> sr_length it = n \<and> sr_valid it \<and> sz_batch_size (ld_sizing (sw_loader w)) = Some b \<and>
    (if sr_position it = 0 \<and> sw_probe w \<noteq> None
     then 0 < n \<and> sw_probe w = Some (native_reference nc (0, min b n)) \<and>
       (\<exists>pre. batches_ok b n (min b n) (before @ [(0, min b n)]) pre (sw_adapter w) \<and> batches_full pre (sw_adapter w))
     else \<exists>pre. batches_ok b n (sr_position it) before pre (sw_adapter w) \<and> batches_full pre (sw_adapter w))"

lemma structured_step:
  assumes ok: "structured_ok nc b n before it w" and more: "sr_position it < n"
  defines "r \<equiv> (sr_position it, min (sr_position it + b) n)"
  shows "\<exists>it' w'. structured_next nc clock it w = (it', w', native_reference nc r) \<and>
    (\<forall>e. native_reference nc r = Inl e \<longrightarrow> sr_position it' = sr_position it \<and> \<not> sr_valid it') \<and>
    (\<forall>v. native_reference nc r = Inr v \<longrightarrow> sr_position it' = snd r \<and> structured_ok nc b n (before @ [r]) it' w')"
proof (cases "sr_position it = 0 \<and> sw_probe w \<noteq> None")
  case True
  then have fetch: "next_native_batch nc (sr_position it) (snd r) w = (w\<lparr>sw_probe := None\<rparr>, native_reference nc r)"
    using ok by (simp add: next_native_batch_def structured_ok_def r_def)
  show ?thesis
  proof (cases "native_reference nc r")
    case (Inl e)
    then show ?thesis using ok more fetch
      by (auto simp: structured_next_def structured_ok_def close_structured_def r_def Let_def)
  next
    case (Inr v)
    then show ?thesis using ok more fetch True
      by (auto simp: structured_next_def structured_ok_def r_def Let_def)
  qed
next
  case False
  then obtain pre where pre: "batches_ok b n (sr_position it) before pre (sw_adapter w)" "batches_full pre (sw_adapter w)"
    using ok unfolding structured_ok_def by auto
  have bounds: "0 < b" "0 \<le> sr_position it" using ok by (simp_all add: structured_ok_def)
  from pipeline_batch_ok [OF bounds(1) pre bounds(2) more, of nc, folded r_def] obtain c where
    c: "pipeline_batch nc (sr_position it) (snd r) (sw_adapter w) = (c, native_reference nc r)"
    "\<And>v. native_reference nc r = Inr v \<Longrightarrow> \<exists>later. batches_ok b n (snd r) (before @ [r]) later c \<and> batches_full later c"
    by (auto simp: r_def)
  have fetch: "next_native_batch nc (sr_position it) (snd r) w = (w\<lparr>sw_adapter := c\<rparr>, native_reference nc r)"
    using False by (auto simp: next_native_batch_def c(1))
  show ?thesis
  proof (cases "native_reference nc r")
    case (Inl e)
    then show ?thesis using ok more fetch
      by (auto simp: structured_next_def structured_ok_def close_structured_def r_def Let_def)
  next
    case (Inr v)
    have "0 < snd r" using bounds more by (simp add: r_def)
    with Inr c(2) [OF Inr] show ?thesis using ok more fetch
      by (auto simp: structured_next_def structured_ok_def r_def Let_def)
  qed
qed

text \<open>The results of a series of \<^verbatim>\<open>__next__\<close> calls, and what direct production in order would answer.\<close>

fun structured_calls ::
    "('v, 'b) native_code \<Rightarrow> (int \<times> int) list \<Rightarrow> structured \<Rightarrow> 'b structured_world \<Rightarrow> structured \<times> 'b structured_world \<times> 'b res list" where
  "structured_calls nc [] it w = (it, w, [])"
| "structured_calls nc (clock # clocks) it w =
    (case structured_next nc clock it w of
       (it, w, r) \<Rightarrow> (case structured_calls nc clocks it w of (it, w, rs) \<Rightarrow> (it, w, r # rs)))"

fun direct_answers :: "('v, 'b) native_code \<Rightarrow> (int \<times> int) list \<Rightarrow> nat \<Rightarrow> 'b res list" where
  "direct_answers nc rs 0 = []"
| "direct_answers nc [] (Suc m) = Inl StopIteration # direct_answers nc [] m"
| "direct_answers nc (r # rs) (Suc m) =
    native_reference nc r #
    (case native_reference nc r of
       Inl e \<Rightarrow> replicate m (Inl (RuntimeError ''structured iterator is no longer active''))
     | Inr v \<Rightarrow> direct_answers nc rs m)"

lemma calls_invalid:
  "\<not> sr_valid it \<Longrightarrow> snd (snd (structured_calls nc clocks it w)) =
     replicate (length clocks) (Inl (RuntimeError ''structured iterator is no longer active''))"
  by (induction clocks arbitrary: it w) (simp_all add: structured_next_def case_prod_beta)

lemma calls_finished:
  "sr_valid it \<Longrightarrow> sr_length it \<le> sr_position it \<Longrightarrow>
   snd (snd (structured_calls nc clocks it w)) = direct_answers nc [] (length clocks) \<and>
   sw_adapter (fst (snd (structured_calls nc clocks it w))) = sw_adapter w"
proof (induction clocks arbitrary: it w)
  case (Cons clock clocks)
  obtain it' w' where fin: "finish_structured (snd clock) it w = (it', w')" by fastforce
  then have "structured_next nc clock it w = (it', w', Inl StopIteration)" using Cons.prems by (simp add: structured_next_def)
  moreover have "sr_valid it'" "sr_length it' \<le> sr_position it'" "sw_adapter w' = sw_adapter w"
    using fin Cons.prems by (auto simp: finish_structured_def split: if_splits)
  moreover note Cons.IH [OF this(1,2), of w']
  ultimately show ?case by (simp add: case_prod_beta)
qed simp

lemma calls_match:
  "structured_ok nc b n before it w \<Longrightarrow>
   snd (snd (structured_calls nc clocks it w)) = direct_answers nc (batch_ranges b n (sr_position it)) (length clocks)"
proof (induction clocks arbitrary: before it w)
  case (Cons clock clocks)
  show ?case
  proof (cases "sr_position it < n")
    case True
    let ?r = "(sr_position it, min (sr_position it + b) n)"
    have ranges: "batch_ranges b n (sr_position it) = ?r # batch_ranges b n (snd ?r)"
      using Cons.prems True by (simp add: structured_ok_def batch_ranges_Cons)
    from structured_step [OF Cons.prems True, of clock] obtain it' w' where
      step: "structured_next nc clock it w = (it', w', native_reference nc ?r)"
      "\<And>e. native_reference nc ?r = Inl e \<Longrightarrow> \<not> sr_valid it'"
      "\<And>v. native_reference nc ?r = Inr v \<Longrightarrow> sr_position it' = snd ?r \<and> structured_ok nc b n (before @ [?r]) it' w'"
      by blast
    have tail: "snd (snd (structured_calls nc clocks it' w')) =
        (case native_reference nc ?r of
           Inl e \<Rightarrow> replicate (length clocks) (Inl (RuntimeError ''structured iterator is no longer active''))
         | Inr v \<Rightarrow> direct_answers nc (batch_ranges b n (snd ?r)) (length clocks))"
    proof (cases "native_reference nc ?r")
      case (Inl e)
      from calls_invalid [OF step(2) [OF Inl]] show ?thesis by (simp only: Inl sum.case)
    next
      case (Inr v)
      from step(3) [OF Inr] Cons.IH have "snd (snd (structured_calls nc clocks it' w')) = direct_answers nc (batch_ranges b n (sr_position it')) (length clocks)"
        by blast
      then show ?thesis using step(3) [OF Inr] by (simp only: Inr sum.case)
    qed
    have "snd (snd (structured_calls nc (clock # clocks) it w)) = native_reference nc ?r # snd (snd (structured_calls nc clocks it' w'))"
      by (simp add: step(1) case_prod_beta)
    then show ?thesis by (simp only: ranges tail direct_answers.simps list.size add_0_right One_nat_def add_Suc_right)
  next
    case False
    moreover have "sr_valid it" "sr_length it = n" using Cons.prems by (simp_all add: structured_ok_def)
    ultimately show ?thesis using calls_finished [of it nc "clock # clocks" w] by simp
  qed
qed simp

text \<open>A loader over a fresh adapter, probed or not.\<close>

definition structured_start :: "('v, 'b) native_code \<Rightarrow> bool \<Rightarrow> string \<Rightarrow> map_loader \<Rightarrow> 'b structured_world" where
  "structured_start nc probed source_class l =
    (let w = \<lparr>sw_loader = l, sw_adapter = new_adapter source_class, sw_probe = None\<rparr>
     in if probed then prepare_native_batch nc w else w)"

definition probe_reads :: "bool \<Rightarrow> map_loader \<Rightarrow> (int \<times> int) list" where
  "probe_reads probed l =
    (if probed \<and> sz_plan_length (ld_sizing l) \<noteq> 0 \<and> structured_length l \<noteq> 0
     then [(0, min (loader_width l) (structured_length l))] else [])"

lemma structured_start_probe:
  "sw_loader (structured_start nc probed src l) = l \<and>
   sw_probe (structured_start nc probed src l) =
     (if probe_reads probed l = [] then None else Some (native_reference nc (0, min (loader_width l) (structured_length l)))) \<and>
   na_started (sw_adapter (structured_start nc probed src l)) = probe_reads probed l"
proof (cases "probe_reads probed l = []")
  case True
  then show ?thesis by (cases probed) (auto simp: structured_start_def prepare_native_batch_def probe_reads_def new_adapter_def Let_def split: if_splits)
next
  case False
  let ?r = "(0, min (loader_width l) (structured_length l))"
  let ?a = "(new_adapter src)\<lparr>na_sample_open := True, na_started := [?r]\<rparr>"
  have "pipeline_batch nc 0 (snd ?r) (new_adapter src) =
      (case produce_batch nc ?r of Inl e \<Rightarrow> (?a, Inl e) | Inr p \<Rightarrow> record_batch nc p ?a)"
    by (cases "produce_batch nc ?r") (simp_all add: pipeline_batch_def new_adapter_def Let_def)
  then have "\<exists>c. pipeline_batch nc 0 (snd ?r) (new_adapter src) = (c, native_reference nc ?r) \<and> na_started c = [?r]"
    using record_batch_ok [of nc ?r _ ?a]
    by (cases "produce_batch nc ?r") (auto simp flip: produce_batch_reference simp: rmap_def)
  with False show ?thesis
    by (auto simp: structured_start_def prepare_native_batch_def probe_reads_def Let_def split: if_splits)
qed

lemma begin_native_epoch_ok:
  assumes "0 < b"
  shows "\<exists>pre. batches_ok b n start (na_started a) pre (begin_native_epoch n depth start b a) \<and>
    batches_full pre (begin_native_epoch n depth start b a)"
proof -
  let ?a = "a\<lparr>na_sample_open := False, na_futures := [], na_epoch_length := n, na_next_batch_submit := start,
    na_batch_size := b, na_batch_prefetch := max 1 ((depth + b - 1) div b)\<rparr>"
  have "batches_ok b n start (na_started a) [] ?a" by (simp add: batches_ok_def)
  from fill_batches_ok [OF assms this] show ?thesis by (simp add: begin_native_epoch_def)
qed

definition structured_loader_ok :: "int \<Rightarrow> map_loader \<Rightarrow> bool" where
  "structured_loader_ok b l \<longleftrightarrow>
    0 < b \<and> sz_batch_size (ld_sizing l) = Some b \<and> 0 \<le> sz_plan_length (ld_sizing l) \<and> 0 \<le> ld_cursor l"

text \<open>The first range to deliver.\<close>

definition structured_resume :: "int \<Rightarrow> map_loader \<Rightarrow> int" where
  "structured_resume b l = min (structured_length l) (ld_cursor l * b)"

lemma new_structured_ok:
  assumes l: "structured_loader_ok b l" and new: "new_structured free recorder (structured_start nc probed src l) = Inr (it, w)"
  shows "structured_ok nc b (structured_length l) (if structured_resume b l = 0 then [] else probe_reads probed l) it w \<and>
    sr_position it = structured_resume b l"
proof -
  let ?w = "structured_start nc probed src l" and ?n = "structured_length l" and ?p = "structured_resume b l"
  note start = structured_start_probe [of nc probed src l]
  have width: "loader_width l = b" using l by (simp add: structured_loader_ok_def loader_width_def)
  have n: "0 \<le> ?n"
    using l by (auto simp: structured_loader_ok_def structured_length_def) (smt (verit) mult_sign_intros(1) minus_mod_eq_mult_div pos_imp_zdiv_nonneg_iff)
  have p: "0 \<le> ?p" using l n by (simp add: structured_resume_def structured_loader_ok_def)
  from new start width obtain depth where depth:
    "it = \<lparr>sr_epoch = es_current (ld_epoch_state l), sr_length = ?n, sr_position = ?p, sr_complete = False, sr_valid = True,
       sr_delivery_telemetry = map_option new_delivery_telemetry recorder\<rparr>"
    "w = (if ?p \<noteq> 0 then ?w\<lparr>sw_probe := None\<rparr> else ?w)\<lparr>sw_adapter :=
       begin_native_epoch ?n depth (if ?p = 0 \<and> sw_probe ?w \<noteq> None then min b ?n else ?p) b (sw_adapter ?w)\<rparr>"
    by (auto simp: new_structured_def resume_sample_position_def structured_resume_def rbind_def Let_def split: sum.splits if_splits)
  have b: "0 < b" and size: "sz_batch_size (ld_sizing l) = Some b" using l by (simp_all add: structured_loader_ok_def)
  show ?thesis
  proof (cases "?p = 0 \<and> probe_reads probed l \<noteq> []")
    case True
    then have read: "probe_reads probed l = [(0, min b ?n)]" and "?n \<noteq> 0" using width by (auto simp: probe_reads_def split: if_splits)
    moreover have "\<exists>pre. batches_ok b ?n (min b ?n) [(0, min b ?n)] pre (sw_adapter w) \<and> batches_full pre (sw_adapter w)"
      using begin_native_epoch_ok [OF b, of ?n "min b ?n" "sw_adapter ?w" depth] True start read by (simp add: depth(2))
    ultimately show ?thesis using True start n b size width by (simp add: structured_ok_def depth)
  next
    case False
    then have "\<exists>pre. batches_ok b ?n ?p (probe_reads probed l) pre (sw_adapter w) \<and> batches_full pre (sw_adapter w)"
      using begin_native_epoch_ok [OF b, of ?n ?p "sw_adapter ?w" depth] start by (auto simp: depth(2) split: if_splits)
    then show ?thesis using False start b p size by (auto simp: structured_ok_def depth)
  qed
qed

text \<open>
  C10: The structured tier delivers exactly what producing the batches one by one in the calling thread would: whatever the
  frontier depth, with or without the construction probe, from the start or from a checkpoint, the calls answer with the
  batches in order, then the end of the epoch; the first batch whose items or collation raise answers with that exception,
  and every call after it with the error of a replaced iterator.
\<close>

theorem structured_matches_direct:
  assumes "structured_loader_ok b l" "new_structured free recorder (structured_start nc probed src l) = Inr (it, w)"
  shows "snd (snd (structured_calls nc clocks it w)) =
    direct_answers nc (batch_ranges b (structured_length l) (structured_resume b l)) (length clocks)"
  using new_structured_ok [OF assms] calls_match [of nc b "structured_length l" _ it w clocks] by metis

text \<open>Reading ahead.\<close>

lemma fill_rounds_prefetch [simp]: "na_batch_prefetch (fill_rounds k a) = na_batch_prefetch a"
  by (induction k arbitrary: a) (simp_all add: Let_def submit_batch_def)

lemma record_batch_prefetch: "na_batch_prefetch (fst (record_batch nc p a)) = na_batch_prefetch a"
  by (auto simp: record_batch_def record_produced_def Let_def split: sum.splits)

lemma pipeline_batch_prefetch: "na_batch_prefetch (fst (pipeline_batch nc start stop a)) = na_batch_prefetch a"
  by (auto simp: pipeline_batch_def Let_def fill_batches_def submit_batch_def record_batch_prefetch split: sum.splits option.splits)

lemma structured_next_prefetch:
  assumes "structured_next nc clock it w = (it', w', r)" "sr_valid it'"
  shows "na_batch_prefetch (sw_adapter w') = na_batch_prefetch (sw_adapter w)"
  using assms pipeline_batch_prefetch [of nc "sr_position it" _ "sw_adapter w"]
  by (auto simp: structured_next_def next_native_batch_def finish_structured_def close_structured_def Let_def
    split: if_splits option.splits prod.splits sum.splits) (metis fst_conv)+

definition answered_batches :: "'b res list \<Rightarrow> nat" where
  "answered_batches rs = length (filter (\<lambda>r. case r of Inl e \<Rightarrow> False | Inr v \<Rightarrow> True) rs)"

lemma calls_log:
  "structured_ok nc b n before it w \<Longrightarrow> structured_calls nc clocks it w = (it', w', rs) \<Longrightarrow> sr_valid it' \<Longrightarrow>
   \<exists>given. structured_ok nc b n (before @ given) it' w' \<and> length given = answered_batches rs \<and>
     batch_ranges b n (sr_position it) = given @ batch_ranges b n (sr_position it') \<and>
     na_batch_prefetch (sw_adapter w') = na_batch_prefetch (sw_adapter w) \<and>
     sr_position it \<le> sr_position it' \<and> (given \<noteq> [] \<longrightarrow> sr_position it < sr_position it')"
proof (induction clocks arbitrary: before it w rs)
  case Nil
  then show ?case by (intro exI [of _ "[]"]) (simp add: answered_batches_def)
next
  case (Cons clock clocks)
  obtain i v r rs' where one: "structured_next nc clock it w = (i, v, r)" and
    rest: "structured_calls nc clocks i v = (it', w', rs')" "rs = r # rs'"
    using Cons.prems(2) by (auto split: prod.splits)
  have valid: "sr_valid i"
  proof (rule ccontr)
    assume "\<not> sr_valid i"
    then have "\<not> sr_valid it'" using rest(1)
    proof (induction clocks arbitrary: i v rs')
      case (Cons c cs)
      then show ?case by (auto simp: structured_next_def split: prod.splits)
    qed simp
    with Cons.prems(3) show False by simp
  qed
  note keep = structured_next_prefetch [OF one valid]
  show ?case
  proof (cases "sr_position it < n")
    case True
    let ?r = "(sr_position it, min (sr_position it + b) n)"
    from structured_step [OF Cons.prems(1) True, of clock] one valid obtain x where
      x: "r = Inr x" "sr_position i = snd ?r" "structured_ok nc b n (before @ [?r]) i v"
      by (cases "native_reference nc ?r") auto
    from Cons.IH [OF x(3) rest(1) Cons.prems(3)] obtain given where
      "structured_ok nc b n (before @ ?r # given) it' w'" "length given = answered_batches rs'"
      "batch_ranges b n (sr_position i) = given @ batch_ranges b n (sr_position it')"
      "na_batch_prefetch (sw_adapter w') = na_batch_prefetch (sw_adapter v)" "sr_position i \<le> sr_position it'" by auto
    moreover have "sr_position it < snd ?r" using Cons.prems(1) True by (simp add: structured_ok_def)
    then have "sr_position it < sr_position it'" using calculation(5) x(2) by linarith
    moreover have "batch_ranges b n (sr_position it) = ?r # batch_ranges b n (snd ?r)"
      using Cons.prems(1) True by (simp add: structured_ok_def batch_ranges_Cons)
    ultimately show ?thesis using x keep by (intro exI [of _ "?r # given"]) (simp add: rest(2) answered_batches_def)
  next
    case False
    then have "structured_ok nc b n before i v \<and> sr_position i = sr_position it \<and> r = Inl StopIteration"
      using one Cons.prems(1) by (auto simp: structured_next_def structured_ok_def finish_structured_def split: if_splits)
    with Cons.IH [of before i v rs'] rest Cons.prems(3) keep show ?thesis by (auto simp: answered_batches_def)
  qed
qed

text \<open>
  C11: The structured tier never reads a range of the dataset twice and never runs further ahead than its frontier: at any
  moment the ranges submitted for production are, in order, those of the batches delivered and those of at most
  \<open>prefetch\<close> further ones (and the kept probe), the depth of the frontier in batches; a probe of a loader that resumes
  is the only read to waste.
\<close>

theorem structured_read_ahead:
  assumes "structured_loader_ok b l" "new_structured free recorder (structured_start nc probed src l) = Inr (it, w)"
    "structured_calls nc clocks it w = (it', w', rs)" "sr_valid it'" "frontier_depth free (ld_sizing l) = Inr depth"
  shows "\<exists>k. na_started (sw_adapter w') =
      (if structured_resume b l = 0 then [] else probe_reads probed l) @
        take k (batch_ranges b (structured_length l) (structured_resume b l)) \<and>
    int k \<le> int (answered_batches rs) + max 1 ((depth + b - 1) div b) + (if answered_batches rs = 0 then 1 else 0)"
proof -
  let ?n = "structured_length l" and ?p = "structured_resume b l"
  let ?before = "if ?p = 0 then [] else probe_reads probed l"
  from new_structured_ok [OF assms(1,2)] have ok: "structured_ok nc b ?n ?before it w" and at: "sr_position it = ?p" by simp_all
  have width: "loader_width l = b" using assms(1) by (simp add: structured_loader_ok_def loader_width_def)
  have room: "na_batch_prefetch (sw_adapter w) = max 1 ((depth + b - 1) div b)"
    using assms(2,5) structured_start_probe [of nc probed src l] width
    by (auto simp: new_structured_def rbind_def Let_def begin_native_epoch_def fill_batches_def split: sum.splits)
  from calls_log [OF ok assms(3,4)] obtain given where given: "structured_ok nc b ?n (?before @ given) it' w'" "length given = answered_batches rs"
    "batch_ranges b ?n ?p = given @ batch_ranges b ?n (sr_position it')" "na_batch_prefetch (sw_adapter w') = max 1 ((depth + b - 1) div b)"
    "given \<noteq> [] \<longrightarrow> sr_position it < sr_position it'" using at room by auto
  show ?thesis
  proof (cases "sr_position it' = 0 \<and> sw_probe w' \<noteq> None")
    case True
    then obtain pre where pre: "batches_ok b ?n (min b ?n) ((?before @ given) @ [(0, min b ?n)]) pre (sw_adapter w')" "0 < ?n"
      using given(1) by (auto simp: structured_ok_def)
    have "given = []" using given(5) True ok by (auto simp: structured_ok_def)
    have "batch_ranges b ?n ?p = (0, min b ?n) # pre @ batch_ranges b ?n (na_next_batch_submit (sw_adapter w'))"
      using given(3) True \<open>given = []\<close> pre assms(1) by (simp add: batch_ranges_Cons structured_loader_ok_def batches_ok_def)
    then show ?thesis using pre given(2,4) \<open>given = []\<close>
      by (intro exI [of _ "Suc (length pre)"]) (auto simp: batches_ok_def)
  next
    case False
    then obtain pre where pre: "batches_ok b ?n (sr_position it') (?before @ given) pre (sw_adapter w')"
      using given(1) unfolding structured_ok_def by (auto split: if_splits)
    then have "batch_ranges b ?n ?p = (given @ pre) @ batch_ranges b ?n (na_next_batch_submit (sw_adapter w'))"
      using given(3) by (simp add: batches_ok_def)
    then show ?thesis using pre given(2,4)
      by (intro exI [of _ "length (given @ pre)"]) (auto simp: batches_ok_def)
  qed
qed

section \<open>Witnesses\<close>

text \<open>Twenty samples in batches of eight, on four workers.\<close>

definition sample_structured :: map_loader where
  "sample_structured = sample_loader\<lparr>ld_sizing := sample_sizing\<lparr>sz_plan_length := 20, sz_pool := None, sz_frontier_depth := Explicit 16\<rparr>, ld_cursor := 1\<rparr>"

definition squares_code :: "(int, int list) native_code" where
  "squares_code = \<lparr>nc_item = (\<lambda>i. if i = 19 then Inl (ValueError ''bad sample'') else Inr (i * i)), nc_collate = Inr,
     nc_shape = (\<lambda>_. 0), nc_sample = (\<lambda>_. PvScalar), nc_payload = (\<lambda>vs. PvSequence (map (\<lambda>_. PvScalar) vs))\<rparr>"

lemma sample_structured_ok: "structured_loader_ok 8 sample_structured"
  by (simp add: structured_loader_ok_def sample_structured_def sample_loader_def sample_sizing_def)

lemma sample_structured_depth: "frontier_depth 0 (ld_sizing sample_structured) = Inr 16"
  by (simp add: sample_structured_def sample_loader_def sample_sizing_def frontier_depth_def frontier_ceiling_def frontier_minimum_def
    sz_batch_def clip_budget_def profile_ratio_def rbind_def Let_def worker_width_def)

lemma sample_structured_new:
  "\<exists>it w. new_structured 0 None (structured_start squares_code True ''pinned-decode'' sample_structured) = Inr (it, w)"
proof -
  have "resume_sample_position sample_structured 20 = Inr 8"
    by (simp add: resume_sample_position_def sample_structured_def sample_loader_def sample_sizing_def loader_width_def Let_def)
  moreover have "structured_length sample_structured = 20"
    by (simp add: structured_length_def sample_structured_def sample_loader_def sample_sizing_def)
  ultimately show ?thesis
    using structured_start_probe [of squares_code True "''pinned-decode''" sample_structured]
    by (simp add: new_structured_def sample_structured_depth rbind_def Let_def)
qed

lemma sample_ranges: "batch_ranges 8 (structured_length sample_structured) (structured_resume 8 sample_structured) = [(8, 16), (16, 20)]"
  by (simp add: structured_length_def structured_resume_def sample_structured_def sample_loader_def sample_sizing_def batch_ranges_Cons)

theorem structured_matches_direct_witness:
  "\<exists>it w. new_structured 0 None (structured_start squares_code True ''pinned-decode'' sample_structured) = Inr (it, w) \<and>
     snd (snd (structured_calls squares_code [(0, 0), (0, 0), (0, 0)] it w)) =
       [Inr [64, 81, 100, 121, 144, 169, 196, 225], Inl (ValueError ''bad sample''),
        Inl (RuntimeError ''structured iterator is no longer active'')]"
proof -
  obtain it w where new: "new_structured 0 None (structured_start squares_code True ''pinned-decode'' sample_structured) = Inr (it, w)"
    using sample_structured_new by blast
  have "direct_answers squares_code [(8, 16), (16, 20)] 3 =
      [Inr [64, 81, 100, 121, 144, 169, 196, 225], Inl (ValueError ''bad sample''),
       Inl (RuntimeError ''structured iterator is no longer active'')]"
    by (simp add: numeral_eq_Suc native_reference_def squares_code_def irange_def upto.simps rbind_def)
  with structured_matches_direct [OF sample_structured_ok new, of "[(0, 0), (0, 0), (0, 0)]"] new sample_ranges
  show ?thesis by (auto simp: numeral_3_eq_3)
qed

theorem structured_read_ahead_witness:
  "\<exists>it w. new_structured 0 None (structured_start squares_code True ''pinned-decode'' sample_structured) = Inr (it, w) \<and>
     (\<exists>k. na_started (sw_adapter w) = (0, 8) # take k [(8, 16), (16, 20)])"
proof -
  obtain it w where new: "new_structured 0 None (structured_start squares_code True ''pinned-decode'' sample_structured) = Inr (it, w)"
    using sample_structured_new by blast
  have run: "structured_calls squares_code [] it w = (it, w, [])" by simp
  have "sr_valid it" using new_structured_ok [OF sample_structured_ok new] by (simp add: structured_ok_def)
  from structured_read_ahead [OF sample_structured_ok new run this sample_structured_depth] sample_ranges
  have "\<exists>k. na_started (sw_adapter w) = (0, 8) # take k [(8, 16), (16, 20)]"
    by (auto simp: probe_reads_def structured_resume_def structured_length_def sample_structured_def sample_loader_def sample_sizing_def loader_width_def)
  with new show ?thesis by blast
qed

end
