(* ===== verification/TensorTier.thy ===== *)
theory TensorTier
  imports InProcess Telemetry
begin

text \<open>
  Batch views of contiguous tensor datasets (\<^verbatim>\<open>tensor/iterator.py\<close>) and their sampled telemetry.  The dataset is an
  argument: an item, a slice or a gather of rows, or an exception.
\<close>

section \<open>The iterator\<close>

record 'b tensor_code =
  tc_item :: "int \<Rightarrow> 'b res"
  tc_slice :: "int \<Rightarrow> int \<Rightarrow> 'b res"
  tc_gather :: "int list \<Rightarrow> 'b res"
  tc_payload :: "'b \<Rightarrow> payload_value"
  tc_shuffle :: bool

record tensor_world =
  tw_loader :: map_loader
  tw_ledger :: "ledger option"
  tw_recorder :: "telemetry option"

record tensor_iterator =
  te_epoch :: int
  te_length :: int
  te_position :: int
  te_complete :: bool
  te_valid :: bool
  te_flushed_position :: int
  te_next_sample_position :: int
  te_sample_bytes :: int

definition new_tensor_iterator :: "'b tensor_code \<Rightarrow> tensor_world \<Rightarrow> tensor_iterator res" where
  "new_tensor_iterator tc w =
    (let l = tw_loader w in
     rbind (delivery_length (ld_sizing l)) (\<lambda>n.
     rbind (resume_sample_position l n) (\<lambda>position.
     rbind (if n = 0 then Inr 0 else rmap (payload_value_bytes \<circ> tc_payload tc) (tc_item tc 0)) (\<lambda>sample_bytes.
       Inr \<lparr>te_epoch = es_current (ld_epoch_state l), te_length = n, te_position = position, te_complete = False,
            te_valid = True, te_flushed_position = 0, te_next_sample_position = 0, te_sample_bytes = sample_bytes\<rparr>))))"

definition batch_ordinal :: "map_loader \<Rightarrow> int \<Rightarrow> int" where
  "batch_ordinal l position = (position + loader_width l - 1) div loader_width l"

definition flush_tensor_telemetry :: "int \<Rightarrow> tensor_iterator \<Rightarrow> tensor_world \<Rightarrow> tensor_iterator \<times> tensor_world" where
  "flush_tensor_telemetry now it w =
    (case tw_recorder w of
       None \<Rightarrow> (it, w)
     | Some t \<Rightarrow>
         if te_position it = te_flushed_position it then (it, w)
         else
           let samples = te_position it - te_flushed_position it;
               batches = batch_ordinal (tw_loader w) (te_position it) - batch_ordinal (tw_loader w) (te_flushed_position it)
           in (it\<lparr>te_flushed_position := te_position it\<rparr>,
               w\<lparr>tw_recorder := Some (record_counts samples batches (samples * te_sample_bytes it) now t)\<rparr>))"

definition record_telemetry_sample :: "int \<Rightarrow> int \<Rightarrow> tensor_iterator \<Rightarrow> tensor_world \<Rightarrow> tensor_iterator \<times> tensor_world" where
  "record_telemetry_sample started now it w =
    (let samples = te_position it - te_flushed_position it;
         batches = batch_ordinal (tw_loader w) (te_position it) - batch_ordinal (tw_loader w) (te_flushed_position it)
     in (it\<lparr>te_flushed_position := te_position it,
            te_next_sample_position := te_position it + loader_width (tw_loader w) * (DELIVERY_GROUP - 1)\<rparr>,
         w\<lparr>tw_recorder :=
           map_option (record_deliveries samples batches (samples * te_sample_bytes it) (now - started) now) (tw_recorder w)\<rparr>))"

definition finish_tensor :: "int \<Rightarrow> tensor_iterator \<Rightarrow> tensor_world \<Rightarrow> tensor_iterator \<times> tensor_world" where
  "finish_tensor now it w =
    (if te_complete it then (it, w)
     else
       let w = w\<lparr>tw_loader := (tw_loader w)\<lparr>ld_epoch_state := complete_epoch (te_epoch it) (ld_epoch_state (tw_loader w))\<rparr>\<rparr>
       in case flush_tensor_telemetry now it w of
            (it, w) \<Rightarrow> (it\<lparr>te_complete := True\<rparr>,
                       w\<lparr>tw_recorder := map_option (telemetry_finish_epoch (te_epoch it)) (tw_recorder w)\<rparr>))"

definition mark_tensor :: "tensor_iterator \<Rightarrow> tensor_world \<Rightarrow> tensor_world" where
  "mark_tensor it w =
    w\<lparr>tw_loader := (tw_loader w)\<lparr>ld_epoch_state := mark_epoch_delivered (te_epoch it) (ld_epoch_state (tw_loader w))\<rparr>\<rparr>"

text \<open>The memory ledger counts the items and the slices, not the gathers.\<close>

definition tensor_ledger :: "'b tensor_code \<Rightarrow> 'b \<Rightarrow> int \<Rightarrow> tensor_world \<Rightarrow> tensor_world res" where
  "tensor_ledger tc v samples w =
    (case tw_ledger w of
       None \<Rightarrow> Inr w
     | Some ledger \<Rightarrow> rmap (\<lambda>ledger. w\<lparr>tw_ledger := Some ledger\<rparr>) (ledger_record (tc_payload tc v) samples 0 0 ledger))"

text \<open>\<^verbatim>\<open>not plan.shuffle and placement.identity\<close>\<close>

definition tensor_direct :: "'b tensor_code \<Rightarrow> map_loader \<Rightarrow> bool res" where
  "tensor_direct tc l =
    (if tc_shuffle tc then Inr False
     else case sz_placement (ld_sizing l) of
       None \<Rightarrow> Inl (AttributeError ''identity'')
     | Some p \<Rightarrow> placement_identity p)"

text \<open>The value between \<open>start\<close> and \<open>stop\<close>, and the loader after it; the position has moved before.\<close>

definition tensor_value ::
    "'b tensor_code \<Rightarrow> (int \<Rightarrow> int \<Rightarrow> int \<Rightarrow> int run) \<Rightarrow> int \<Rightarrow> int \<Rightarrow> int \<Rightarrow> tensor_world \<Rightarrow> ('b \<times> tensor_world) run" where
  "tensor_value tc plan epoch start stop w =
    (let l = tw_loader w in
     if sz_batch_size (ld_sizing l) = None then
       obind (native_index plan l epoch start) (\<lambda>index.
       returns (rbind (tc_item tc index) (\<lambda>v. rmap (Pair v) (tensor_ledger tc v 1 w))))
     else
       obind (returns (tensor_direct tc l)) (\<lambda>direct.
       if direct then returns (rbind (tc_slice tc start stop) (\<lambda>v. rmap (Pair v) (tensor_ledger tc v (stop - start) w)))
       else
         obind (otraverse (native_index plan l epoch) (irange start stop)) (\<lambda>indices.
         returns (rmap (\<lambda>v. (v, w)) (tc_gather tc indices)))))"

definition tensor_next_value ::
    "'b tensor_code \<Rightarrow> (int \<Rightarrow> int \<Rightarrow> int \<Rightarrow> int run) \<Rightarrow> int \<Rightarrow> tensor_iterator \<Rightarrow> tensor_world \<Rightarrow>
     (tensor_iterator \<times> tensor_world \<times> 'b res) option" where
  "tensor_next_value tc plan now it w =
    (if \<not> te_valid it then Some (it, w, Inl (RuntimeError ''tensor iterator is no longer active''))
     else if te_length it \<le> te_position it then
       (case finish_tensor now it w of (it, w) \<Rightarrow> Some (it, w, Inl StopIteration))
     else
       let start = te_position it;
           stop = (case sz_batch_size (ld_sizing (tw_loader w)) of None \<Rightarrow> start + 1 | Some b \<Rightarrow> min (start + b) (te_length it));
           it = it\<lparr>te_position := stop\<rparr>
       in case tensor_value tc plan (te_epoch it) start stop w of
            None \<Rightarrow> None
          | Some (Inl e) \<Rightarrow> Some (it, w, Inl e)
          | Some (Inr (v, w)) \<Rightarrow> Some (it, mark_tensor it w, Inr v))"

definition tensor_next ::
    "'b tensor_code \<Rightarrow> (int \<Rightarrow> int \<Rightarrow> int \<Rightarrow> int run) \<Rightarrow> int \<times> int \<Rightarrow> tensor_iterator \<Rightarrow> tensor_world \<Rightarrow>
     (tensor_iterator \<times> tensor_world \<times> 'b res) option" where
  "tensor_next tc plan clock it w =
    (let sample_delivery = (tw_recorder w \<noteq> None \<and> te_next_sample_position it \<le> te_position it);
         started = (if sample_delivery then fst clock else 0)
     in case tensor_next_value tc plan (snd clock) it w of
          None \<Rightarrow> None
        | Some (it, w, Inl e) \<Rightarrow> Some (it, w, Inl e)
        | Some (it, w, Inr v) \<Rightarrow>
            (case if sample_delivery then record_telemetry_sample started (snd clock) it w else (it, w) of
               (it, w) \<Rightarrow> Some (it, w, Inr v)))"

definition tensor_delivered_batches :: "map_loader \<Rightarrow> tensor_iterator \<Rightarrow> int" where
  "tensor_delivered_batches l it = batch_ordinal l (te_position it)"

definition invalidate_tensor :: "tensor_iterator \<Rightarrow> tensor_iterator" where
  "invalidate_tensor it = it\<lparr>te_valid := False\<rparr>"

fun tensor_calls ::
    "'b tensor_code \<Rightarrow> (int \<Rightarrow> int \<Rightarrow> int \<Rightarrow> int run) \<Rightarrow> (int \<times> int) list \<Rightarrow> tensor_iterator \<Rightarrow> tensor_world \<Rightarrow>
     (tensor_iterator \<times> tensor_world \<times> 'b res list) option" where
  "tensor_calls tc plan [] it w = Some (it, w, [])"
| "tensor_calls tc plan (clock # clocks) it w =
    (case tensor_next tc plan clock it w of
       None \<Rightarrow> None
     | Some (it, w, r) \<Rightarrow> map_option (\<lambda>(it, w, rs). (it, w, r # rs)) (tensor_calls tc plan clocks it w))"

section \<open>Accounting\<close>

text \<open>What the recorder holds is the part of the epoch before the flushed position.\<close>

definition tensor_accounts :: "int \<Rightarrow> int \<Rightarrow> int \<Rightarrow> tensor_iterator \<Rightarrow> tensor_world \<Rightarrow> bool" where
  "tensor_accounts width n bytes it w \<longleftrightarrow>
    loader_width (tw_loader w) = width \<and> (\<forall>b. sz_batch_size (ld_sizing (tw_loader w)) = Some b \<longrightarrow> 0 < b) \<and> te_length it = n \<and> te_sample_bytes it = bytes \<and> 0 \<le> te_position it \<and> te_position it \<le> n \<and>
    (\<exists>t. tw_recorder w = Some t \<and>
      (if te_complete it
       then te_position it = n \<and> (\<exists>sm. tm_last_epoch t = Some sm \<and> sm_samples sm = n \<and>
           sm_batches sm = (n + width - 1) div width \<and> sm_bytes sm = n * bytes)
       else tm_samples t = te_flushed_position it \<and>
         tm_batches t = (te_flushed_position it + width - 1) div width \<and> tm_bytes t = te_flushed_position it * bytes))"

lemma width_epoch [simp]: "loader_width (l\<lparr>ld_epoch_state := s\<rparr>) = loader_width l"
  by (simp add: loader_width_def)

lemma accounts_sample:
  assumes "tensor_accounts width n bytes it w" "\<not> te_complete it"
  shows "tensor_accounts width n bytes (fst (record_telemetry_sample started now it w)) (snd (record_telemetry_sample started now it w))"
  using assms
  by (auto simp: tensor_accounts_def record_telemetry_sample_def record_deliveries_def record_startup_def add_counts_def
    batch_ordinal_def Let_def algebra_simps)

lemma accounts_finish:
  assumes "tensor_accounts width n bytes it w" "te_position it = n"
  shows "tensor_accounts width n bytes (fst (finish_tensor now it w)) (snd (finish_tensor now it w))"
  using assms
  by (cases "te_position it = te_flushed_position it") (auto simp: tensor_accounts_def finish_tensor_def flush_tensor_telemetry_def record_counts_def record_startup_def add_counts_def
    telemetry_finish_epoch_def reset_current_def summarise_def batch_ordinal_def Let_def algebra_simps)

lemma tensor_world_self: "\<exists>ledger. w = w\<lparr>tw_ledger := ledger\<rparr>"
  by (intro exI [of _ "tw_ledger w"]) simp

lemma tensor_ledger_world: "tensor_ledger tc v samples w = Inr w' \<Longrightarrow> \<exists>ledger. w' = w\<lparr>tw_ledger := ledger\<rparr>"
  by (auto simp: tensor_ledger_def rmap_def split: option.splits sum.splits intro: tensor_world_self)

lemma tensor_value_world:
  "tensor_value tc plan epoch start stop w = Some (Inr (v, w')) \<Longrightarrow> \<exists>ledger. w' = w\<lparr>tw_ledger := ledger\<rparr>"
  by (auto simp: tensor_value_def obind_eq_Some_Inr returns_def rbind_eq_Inr rmap_eq_Inr Let_def split: if_splits
    dest!: tensor_ledger_world intro: tensor_world_self)

lemma accounts_ledger [simp]: "tensor_accounts width n bytes it (w\<lparr>tw_ledger := ledger\<rparr>) = tensor_accounts width n bytes it w"
  by (simp add: tensor_accounts_def)

lemma accounts_mark [simp]: "tensor_accounts width n bytes it (mark_tensor i w) = tensor_accounts width n bytes it w"
  by (simp add: tensor_accounts_def mark_tensor_def)

lemma accounts_move:
  assumes "tensor_accounts width n bytes it w" "te_position it < n"
  shows "tensor_accounts width n bytes (it\<lparr>te_position :=
      case sz_batch_size (ld_sizing (tw_loader w)) of None \<Rightarrow> te_position it + 1 | Some b \<Rightarrow> min (te_position it + b) (te_length it)\<rparr>) w \<and>
    \<not> te_complete it"
  using assms by (auto simp: tensor_accounts_def split: option.splits)

lemma accounts_next_value:
  assumes ok: "tensor_accounts width n bytes it w" and step: "tensor_next_value tc plan now it w = Some (it', w', r)"
  shows "tensor_accounts width n bytes it' w' \<and> (\<forall>v. r = Inr v \<longrightarrow> \<not> te_complete it')"
proof (cases "te_valid it \<and> te_position it < te_length it")
  case True
  have n: "te_length it = n" using ok by (simp add: tensor_accounts_def)
  from step True accounts_move [OF ok] tensor_value_world show ?thesis
    by (auto simp: tensor_next_value_def Let_def n split: option.splits sum.splits prod.splits; fastforce)
next
  case False
  have "\<not> te_position it < te_length it \<Longrightarrow> te_position it = n" using ok by (simp add: tensor_accounts_def)
  with step False accounts_finish [OF ok, of now] ok show ?thesis
    by (auto simp: tensor_next_value_def split: if_splits prod.splits)
qed

lemma tensor_next_parts:
  assumes "tensor_next tc plan clock it w = Some (it', w', r)"
  shows "\<exists>i v. tensor_next_value tc plan (snd clock) it w = Some (i, v, r) \<and>
    (it', w') = (if tw_recorder w \<noteq> None \<and> te_next_sample_position it \<le> te_position it \<and> (\<exists>x. r = Inr x)
      then record_telemetry_sample (fst clock) (snd clock) i v else (i, v))"
proof -
  from assms obtain i v s where inner: "tensor_next_value tc plan (snd clock) it w = Some (i, v, s)"
    by (auto simp: tensor_next_def Let_def split: option.splits)
  show ?thesis using assms inner by (cases s) (auto simp: tensor_next_def Let_def split: prod.splits if_splits)
qed

lemma accounts_next:
  assumes ok: "tensor_accounts width n bytes it w" and step: "tensor_next tc plan clock it w = Some (it', w', r)"
  shows "tensor_accounts width n bytes it' w'"
proof -
  from tensor_next_parts [OF step] obtain i v where value_step: "tensor_next_value tc plan (snd clock) it w = Some (i, v, r)"
    and out: "(it', w') = (if tw_recorder w \<noteq> None \<and> te_next_sample_position it \<le> te_position it \<and> (\<exists>x. r = Inr x)
      then record_telemetry_sample (fst clock) (snd clock) i v else (i, v))" by blast
  from accounts_next_value [OF ok value_step] have i: "tensor_accounts width n bytes i v" "\<And>x. r = Inr x \<Longrightarrow> \<not> te_complete i" by auto
  show ?thesis
  proof (cases r)
    case (Inl e)
    with out i show ?thesis by simp
  next
    case (Inr x)
    with out accounts_sample [OF i(1) i(2) [OF Inr]] i(1) show ?thesis by (auto simp: prod_eq_iff split: if_splits)
  qed
qed

lemma accounts_calls:
  "tensor_accounts width n bytes it w \<Longrightarrow> tensor_calls tc plan clocks it w = Some (it', w', rs) \<Longrightarrow> tensor_accounts width n bytes it' w'"
  by (induction clocks arbitrary: it w rs) (auto split: option.splits dest: accounts_next)

text \<open>
  The tensor tier takes a latency sample once in a group of 256 batches and flushes the rest without one, yet the summary
  of a finished epoch is exact from its first sample to its last: it counts the samples, batches and bytes of the whole
  epoch, of which a resumed iterator delivered only those after its checkpoint.
\<close>

theorem tensor_epoch_accounted:
  assumes new: "new_tensor_iterator tc w = Inr it" and recorder: "tw_recorder w = Some (new_telemetry built)"
    and sizes: "\<forall>b. sz_batch_size (ld_sizing (tw_loader w)) = Some b \<longrightarrow> 0 < b" "0 \<le> ld_cursor (tw_loader w)" "0 \<le> te_length it"
    and run: "tensor_calls tc plan clocks it w = Some (it', w', rs)" and complete: "te_complete it'"
  shows "\<exists>t sm. tw_recorder w' = Some t \<and> tm_last_epoch t = Some sm \<and> sm_samples sm = te_length it \<and>
    sm_batches sm = batch_ordinal (tw_loader w) (te_length it) \<and> sm_bytes sm = te_length it * te_sample_bytes it"
proof -
  have width: "1 \<le> loader_width (tw_loader w)" using sizes(1) by (cases "sz_batch_size (ld_sizing (tw_loader w))") (auto simp: loader_width_def)
  have "tensor_accounts (loader_width (tw_loader w)) (te_length it) (te_sample_bytes it) it w"
    using new recorder sizes width
    by (auto simp: tensor_accounts_def new_tensor_iterator_def resume_sample_position_def rbind_def new_telemetry_def Let_def
      split: sum.splits if_splits)
  from accounts_calls [OF this run] complete show ?thesis by (auto simp: tensor_accounts_def batch_ordinal_def)
qed

text \<open>After a checkpoint of \<open>p\<close> samples the first delivery records those samples again, in one latency sample.\<close>

theorem tensor_resume_recounts:
  assumes "new_tensor_iterator tc w = Inr it" "0 \<le> te_position it" "te_position it < te_length it" "tw_recorder w = Some (new_telemetry built)"
    "sz_batch_size (ld_sizing (tw_loader w)) = Some b" "tensor_next tc plan clock it w = Some (it', w', Inr v)"
  shows "\<exists>t. tw_recorder w' = Some t \<and> tm_samples t = min (te_position it + b) (te_length it) \<and> tm_latencies t \<noteq> []"
proof -
  have it: "te_flushed_position it = 0" "te_valid it" "te_next_sample_position it = 0"
    using assms(1) by (auto simp: new_tensor_iterator_def rbind_eq_Inr Let_def)
  from tensor_next_parts [OF assms(6)] obtain i u where i: "tensor_next_value tc plan (snd clock) it w = Some (i, u, Inr v)"
    "(it', w') = record_telemetry_sample (fst clock) (snd clock) i u" using assms(2,4) it(3) by auto
  have "te_position i = min (te_position it + b) (te_length it) \<and> te_flushed_position i = 0 \<and> tw_recorder u = tw_recorder w"
    using i(1) it assms(3,5) tensor_value_world
    by (fastforce simp: tensor_next_value_def mark_tensor_def Let_def split: option.splits sum.splits prod.splits if_splits)
  with i(2) assms(4) show ?thesis
    by (auto simp: record_telemetry_sample_def record_deliveries_def record_startup_def add_counts_def new_telemetry_def Let_def)
qed

text \<open>The position moves before the dataset is read, so a batch that raised is taken for delivered.\<close>

theorem tensor_error_skips:
  assumes "te_valid it" "te_position it < te_length it" "sz_batch_size (ld_sizing (tw_loader w)) = Some b"
    "tensor_next tc plan clock it w = Some (it', w', Inl e)"
  shows "te_position it' = min (te_position it + b) (te_length it) \<and> te_valid it'"
  using assms by (auto simp: tensor_next_def tensor_next_value_def Let_def split: option.splits sum.splits prod.splits if_splits)

text \<open>Twenty samples in batches of eight, resumed after the first.\<close>

definition tensor_sample :: "int list tensor_code" where
  "tensor_sample = \<lparr>tc_item = (\<lambda>i. Inr [i]), tc_slice = (\<lambda>a b. Inr (irange a b)), tc_gather = Inr,
     tc_payload = (\<lambda>xs. PvArray (8 * length xs)), tc_shuffle = False\<rparr>"

definition tensor_sample_world :: tensor_world where
  "tensor_sample_world = \<lparr>tw_loader = sample_loader\<lparr>ld_cursor := 1,
       ld_sizing := (ld_sizing sample_loader)\<lparr>sz_plan_length := 20, sz_drop_last := False\<rparr>\<rparr>,
     tw_ledger = None, tw_recorder = Some (new_telemetry 5)\<rparr>"

lemmas tensor_sample_defs = tensor_sample_def tensor_sample_world_def sample_loader_def sample_sizing_def sample_placement_def

lemma tensor_sample_new:
  "new_tensor_iterator tensor_sample tensor_sample_world =
     Inr \<lparr>te_epoch = 0, te_length = 20, te_position = 8, te_complete = False, te_valid = True, te_flushed_position = 0,
          te_next_sample_position = 0, te_sample_bytes = 8\<rparr>"
  by (simp add: tensor_sample_defs new_tensor_iterator_def delivery_length_def resume_sample_position_def loader_width_def
    new_epoch_state_def Let_def)

theorem tensor_epoch_accounted_witness:
  "\<exists>it it' w' rs t sm. new_tensor_iterator tensor_sample tensor_sample_world = Inr it \<and>
     tensor_calls tensor_sample (\<lambda>_ _ i. Some (Inr i)) [(7, 9), (10, 11), (12, 13)] it tensor_sample_world = Some (it', w', rs) \<and>
     rs = [Inr [8, 9, 10, 11, 12, 13, 14, 15], Inr [16, 17, 18, 19], Inl StopIteration] \<and>
     tw_recorder w' = Some t \<and> tm_last_epoch t = Some sm \<and> sm_samples sm = 20"
proof -
  let ?it = "\<lparr>te_epoch = 0, te_length = 20, te_position = 8, te_complete = False, te_valid = True, te_flushed_position = 0,
    te_next_sample_position = 0, te_sample_bytes = 8\<rparr>"
  have new: "new_tensor_iterator tensor_sample tensor_sample_world = Inr ?it" by (rule tensor_sample_new)
  obtain it' w' where run: "tensor_calls tensor_sample (\<lambda>_ _ i. Some (Inr i)) [(7, 9), (10, 11), (12, 13)] ?it tensor_sample_world =
      Some (it', w', [Inr [8, 9, 10, 11, 12, 13, 14, 15], Inr [16, 17, 18, 19], Inl StopIteration])" "te_complete it'"
    by (simp add: tensor_sample_defs tensor_next_def tensor_next_value_def tensor_value_def tensor_direct_def placement_identity_def
      tensor_ledger_def mark_tensor_def record_telemetry_sample_def loader_width_def DELIVERY_GROUP_def finish_tensor_def
      flush_tensor_telemetry_def irange_def upto.simps returns_def Let_def)
  have sizes: "\<forall>b. sz_batch_size (ld_sizing (tw_loader tensor_sample_world)) = Some b \<longrightarrow> 0 < b" "0 \<le> ld_cursor (tw_loader tensor_sample_world)"
    "te_length ?it = 20" "tw_recorder tensor_sample_world = Some (new_telemetry 5)"
    by (auto simp: tensor_sample_defs)
  from tensor_epoch_accounted [OF new sizes(4,1,2) _ run] sizes(3) new run(1) show ?thesis by auto
qed

end
