(* ===== verification/Construction.thy ===== *)
theory Construction
  imports Config InProcess
begin

text \<open>
  Building a loader (\<^verbatim>\<open>constructor.py\<close>, the wiring of \<^verbatim>\<open>api.py\<close>, \<^verbatim>\<open>structured/probe.py\<close> and the selection in
  \<^verbatim>\<open>structured/pipeline.py\<close>): the options it accepts, and what it prepares for the tier that will iterate it.
\<close>

section \<open>Options\<close>

text \<open>The arguments; an option that is only tested for \<^verbatim>\<open>None\<close> is a truth value.\<close>

record constructor_options =
  co_pipeline :: bool
  co_batch_size :: pyval
  co_shuffle :: bool
  co_sampler :: bool
  co_batch_sampler :: bool
  co_num_workers :: "pyval auto"
  co_collate_fn :: bool
  co_pin_memory :: bool
  co_drop_last :: bool
  co_timeout :: rat
  co_prefetch_factor :: "pyval auto"
  co_thread_safe :: pyval
  co_mode :: string
  co_in_order :: bool
  co_delivery :: "string auto"
  co_seed :: "int option"
  co_device :: bool
  co_config :: "hyper_config option"

record resolved_options =
  ro_config :: hyper_config
  ro_seed :: "int option"
  ro_delivery :: string
  ro_delivery_memory :: string
  ro_io_backend :: string

fun is_bool :: "pyval \<Rightarrow> bool" where
  "is_bool (PBool b) = True"
| "is_bool _ = False"

text \<open>\<^verbatim>\<open>value <= bound\<close> for a number, an exception for what does not compare with one.\<close>

fun at_most :: "pyval \<Rightarrow> rat \<Rightarrow> bool res" where
  "at_most (PBool b) r = Inr ((if b then 1 else 0) \<le> r)"
| "at_most (PInt i) r = Inr (of_int i \<le> r)"
| "at_most (PFloat x) r = Inr (x \<le> r)"
| "at_most _ r = Inl (TypeError ''not supported between instances'')"

definition require_nonnegative_workers :: "pyval auto \<Rightarrow> unit res" where
  "require_nonnegative_workers workers =
    (case workers of
       AUTO \<Rightarrow> Inr ()
     | Explicit n \<Rightarrow>
         (case n of
            PInt i \<Rightarrow> if i < 0 then Inl (ValueError ''num_workers must be nonnegative'') else Inr ()
          | _ \<Rightarrow> Inl (TypeError ''num_workers must be auto or an integer'')))"

definition resolve_delivery :: "bool \<Rightarrow> string auto \<Rightarrow> string res" where
  "resolve_delivery in_order delivery =
    (let expected = (if in_order then ''in-order'' else ''on-completion'') in
     case delivery of
       AUTO \<Rightarrow> Inr expected
     | Explicit d \<Rightarrow>
         if d = ''auto'' then Inr expected
         else if d \<notin> {''in-order'', ''on-completion''}
         then Inl (ValueError ''delivery must be auto, in-order, or on-completion'')
         else if d \<noteq> expected then Inl (ValueError ''delivery conflicts with in_order'')
         else Inr d)"

definition check_sampling :: "constructor_options \<Rightarrow> unit res" where
  "check_sampling a =
    (if co_sampler a \<and> co_shuffle a then Inl (ValueError ''sampler option is mutually exclusive with shuffle'')
     else if co_batch_sampler a \<and>
         (\<not> py_eq (co_batch_size a) (PInt 1) \<or> co_shuffle a \<or> co_sampler a \<or> co_drop_last a)
     then Inl (ValueError ''batch_sampler is mutually exclusive with batch_size, shuffle, sampler, and drop_last'')
     else if (case co_batch_size a of PNone \<Rightarrow> False | PInt i \<Rightarrow> i \<le> 0 | _ \<Rightarrow> True)
     then Inl (ValueError ''batch_size must be a positive integer or None'')
     else if co_batch_size a = PNone \<and> co_drop_last a
     then Inl (ValueError ''batch_size=None is mutually exclusive with drop_last'')
     else if co_pipeline a \<and> co_collate_fn a
     then Inl (ValueError ''pipeline Collate is mutually exclusive with collate_fn'')
     else Inr ())"

definition check_execution :: "constructor_options \<Rightarrow> unit res" where
  "check_execution a =
    rbind (require_nonnegative_workers (co_num_workers a)) (\<lambda>_.
      if co_timeout a < 0 then Inl (ValueError ''timeout must be nonnegative'')
      else
        rbind (case co_prefetch_factor a of
                 AUTO \<Rightarrow> Inr ()
               | Explicit factor \<Rightarrow>
                   if factor = PNone then Inr ()
                   else rbind (if is_bool factor then Inr True else at_most factor 0) (\<lambda>refused.
                     if refused then Inl (ValueError ''prefetch_factor must be auto, None, or positive'')
                     else if co_num_workers a = Explicit (PInt 0)
                     then Inl (ValueError ''prefetch_factor can only be specified when num_workers is positive'')
                     else Inr ())) (\<lambda>_.
        if co_mode a \<notin> {''native'', ''torch-compat''} then Inl (ValueError ''mode must be native or torch-compat'')
        else if \<not> is_bool (co_thread_safe a) then Inl (TypeError ''thread_safe must be a boolean declaration'')
        else Inr ()))"

definition requested_memory :: "constructor_options \<Rightarrow> string option" where
  "requested_memory a = (if co_device a then Some ''device'' else if co_pin_memory a then Some ''pinned'' else None)"

definition resolve_memory :: "string \<Rightarrow> string option \<Rightarrow> string res" where
  "resolve_memory configured requested =
    (if configured \<noteq> ''auto'' \<and> requested \<noteq> None \<and> Some configured \<noteq> requested
     then Inl (ValueError ''memory.delivery_memory conflicts with pin_memory or device'')
     else Inr (if configured \<noteq> ''auto'' then configured else case requested of Some r \<Rightarrow> r | None \<Rightarrow> ''auto''))"

definition validate_constructor :: "(string \<Rightarrow> string res) \<Rightarrow> constructor_options \<Rightarrow> resolved_options res" where
  "validate_constructor io_backend_kind a =
    rbind (check_sampling a) (\<lambda>_.
    rbind (check_execution a) (\<lambda>_.
      let c = (case co_config a of Some c \<Rightarrow> c | None \<Rightarrow> default_config) in
      rbind (io_backend_kind (io_backend (cfg_io c))) (\<lambda>backend.
      if co_seed a \<noteq> None \<and> cfg_seed c \<noteq> None \<and> co_seed a \<noteq> cfg_seed c
      then Inl (ValueError ''seed conflicts with config.seed'')
      else if (case (exec_process_ceiling (cfg_executor c), co_num_workers a) of
          (Explicit limit, Explicit (PInt n)) \<Rightarrow> number_value limit \<noteq> of_int n | _ \<Rightarrow> False)
      then Inl (ValueError ''num_workers conflicts with config.executor.process_ceiling'')
      else if co_mode a = ''torch-compat'' \<and> exec_on_worker_death (cfg_executor c) = ''restart''
      then Inl (ValueError ''worker restart is unavailable in torch-compat mode'')
      else
        rbind (resolve_delivery (co_in_order a) (co_delivery a)) (\<lambda>delivery.
        rbind (resolve_memory (mem_delivery_memory (cfg_memory c)) (requested_memory a)) (\<lambda>memory.
          Inr \<lparr>ro_config = c, ro_seed = (if co_seed a \<noteq> None then co_seed a else cfg_seed c), ro_delivery = delivery,
               ro_delivery_memory = memory, ro_io_backend = backend\<rparr>)))))"

text \<open>What the accepted options are.\<close>

definition sampling_ok :: "constructor_options \<Rightarrow> bool" where
  "sampling_ok a \<longleftrightarrow>
    (co_batch_size a = PNone \<or> (\<exists>i > 0. co_batch_size a = PInt i)) \<and>
    \<not> (co_sampler a \<and> co_shuffle a) \<and> \<not> (co_batch_size a = PNone \<and> co_drop_last a) \<and> \<not> (co_pipeline a \<and> co_collate_fn a) \<and>
    (co_batch_sampler a \<longrightarrow> co_batch_size a = PInt 1 \<and> \<not> co_shuffle a \<and> \<not> co_sampler a \<and> \<not> co_drop_last a)"

definition execution_ok :: "constructor_options \<Rightarrow> bool" where
  "execution_ok a \<longleftrightarrow>
    (co_num_workers a = AUTO \<or> (\<exists>i \<ge> 0. co_num_workers a = Explicit (PInt i))) \<and> 0 \<le> co_timeout a \<and>
    (\<forall>factor. co_prefetch_factor a = Explicit factor \<longrightarrow> factor = PNone \<or>
       (\<not> is_bool factor \<and> at_most factor 0 = Inr False \<and> co_num_workers a \<noteq> Explicit (PInt 0))) \<and>
    co_mode a \<in> {''native'', ''torch-compat''} \<and> is_bool (co_thread_safe a)"

definition options_agree :: "constructor_options \<Rightarrow> hyper_config \<Rightarrow> bool" where
  "options_agree a c \<longleftrightarrow>
    (co_seed a = None \<or> cfg_seed c = None \<or> co_seed a = cfg_seed c) \<and>
    (\<forall>limit n. exec_process_ceiling (cfg_executor c) = Explicit limit \<and> co_num_workers a = Explicit (PInt n) \<longrightarrow>
       number_value limit = of_int n) \<and>
    (co_mode a = ''torch-compat'' \<longrightarrow> exec_on_worker_death (cfg_executor c) \<noteq> ''restart'') \<and>
    co_delivery a \<in> {AUTO, Explicit ''auto'', Explicit (if co_in_order a then ''in-order'' else ''on-completion'')} \<and>
    (mem_delivery_memory (cfg_memory c) = ''auto'' \<or> requested_memory a = None \<or>
     requested_memory a = Some (mem_delivery_memory (cfg_memory c)))"

lemma if_Inl: "(if b then Inl e else x) = Inr v \<longleftrightarrow> \<not> b \<and> x = Inr v"
  by simp

lemma py_eq_one: "(\<exists>i > 0. v = PInt i) \<Longrightarrow> py_eq v (PInt 1) \<longleftrightarrow> v = PInt 1"
  by auto

lemma check_sampling_iff: "check_sampling a = Inr u \<longleftrightarrow> sampling_ok a"
  by (cases "co_batch_size a") (auto simp: check_sampling_def sampling_ok_def)

lemma require_workers_iff:
  "require_nonnegative_workers w = Inr u \<longleftrightarrow> w = AUTO \<or> (\<exists>i \<ge> 0. w = Explicit (PInt i))"
  by (auto simp: require_nonnegative_workers_def split: auto.splits pyval.splits)

lemma check_execution_iff: "check_execution a = Inr u \<longleftrightarrow> execution_ok a"
  by (auto simp: check_execution_def execution_ok_def rbind_eq_Inr require_workers_iff split: auto.splits if_splits)

lemma resolve_delivery_iff:
  "resolve_delivery in_order delivery = Inr d \<longleftrightarrow>
    d = (if in_order then ''in-order'' else ''on-completion'') \<and> delivery \<in> {AUTO, Explicit ''auto'', Explicit d}"
  by (auto simp: resolve_delivery_def Let_def split: auto.splits if_splits)

lemma resolve_memory_iff:
  "resolve_memory configured requested = Inr m \<longleftrightarrow>
    (configured = ''auto'' \<or> requested = None \<or> requested = Some configured) \<and>
    m = (case requested of Some r \<Rightarrow> r | None \<Rightarrow> configured)"
  by (auto simp: resolve_memory_def split: option.splits if_splits)

text \<open>
  C32: The constructor accepts exactly the options that do not contradict each other or the configuration, and
  resolves them without a silent choice: the batch size is a positive integer or \<open>None\<close>, the number of workers
  automatic or nonnegative, a seed or a delivery memory given twice is the same, delivery in order is what
  \<^verbatim>\<open>in_order\<close> asks for, and \<^verbatim>\<open>pin_memory\<close> and \<^verbatim>\<open>device\<close> win over an automatic delivery memory only.
\<close>

theorem constructor_accepts_iff:
  "validate_constructor io_backend_kind a = Inr r \<longleftrightarrow>
    sampling_ok a \<and> execution_ok a \<and> options_agree a (ro_config r) \<and>
    ro_config r = (case co_config a of Some c \<Rightarrow> c | None \<Rightarrow> default_config) \<and>
    io_backend_kind (io_backend (cfg_io (ro_config r))) = Inr (ro_io_backend r) \<and>
    ro_seed r = (if co_seed a \<noteq> None then co_seed a else cfg_seed (ro_config r)) \<and>
    ro_delivery r = (if co_in_order a then ''in-order'' else ''on-completion'') \<and>
    ro_delivery_memory r = (case requested_memory a of Some m \<Rightarrow> m | None \<Rightarrow> mem_delivery_memory (cfg_memory (ro_config r)))"
proof -
  define c where "c = (case co_config a of Some c \<Rightarrow> c | None \<Rightarrow> default_config)"
  have clash: "(case (exec_process_ceiling (cfg_executor c), co_num_workers a) of
      (Explicit limit, Explicit (PInt n)) \<Rightarrow> number_value limit \<noteq> of_int n | _ \<Rightarrow> False) \<longleftrightarrow>
    \<not> (\<forall>limit n. exec_process_ceiling (cfg_executor c) = Explicit limit \<and> co_num_workers a = Explicit (PInt n) \<longrightarrow>
       number_value limit = of_int n)" for c
    by (auto split: auto.splits pyval.splits)
  have "validate_constructor io_backend_kind a = Inr r \<longleftrightarrow>
      sampling_ok a \<and> execution_ok a \<and> (\<exists>b. io_backend_kind (io_backend (cfg_io c)) = Inr b \<and>
        \<not> (co_seed a \<noteq> None \<and> cfg_seed c \<noteq> None \<and> co_seed a \<noteq> cfg_seed c) \<and>
        (\<forall>limit n. exec_process_ceiling (cfg_executor c) = Explicit limit \<and> co_num_workers a = Explicit (PInt n) \<longrightarrow>
           number_value limit = of_int n) \<and>
        \<not> (co_mode a = ''torch-compat'' \<and> exec_on_worker_death (cfg_executor c) = ''restart'') \<and>
        (\<exists>d. resolve_delivery (co_in_order a) (co_delivery a) = Inr d \<and>
          (\<exists>m. resolve_memory (mem_delivery_memory (cfg_memory c)) (requested_memory a) = Inr m \<and>
            Inr \<lparr>ro_config = c, ro_seed = (if co_seed a \<noteq> None then co_seed a else cfg_seed c), ro_delivery = d,
                 ro_delivery_memory = m, ro_io_backend = b\<rparr> = (Inr r :: resolved_options res))))"
    by (simp only: validate_constructor_def c_def [symmetric] Let_def rbind_eq_Inr if_Inl check_sampling_iff check_execution_iff clash not_not) blast
  note unfolded = this [unfolded resolve_delivery_iff resolve_memory_iff]
  define d where "d = (if co_in_order a then ''in-order'' else ''on-completion'')"
  define seed where "seed = (if co_seed a \<noteq> None then co_seed a else cfg_seed c)"
  define m where "m = (case requested_memory a of Some m \<Rightarrow> m | None \<Rightarrow> mem_delivery_memory (cfg_memory c))"
  show ?thesis
  proof (cases "ro_config r = c")
    case True
    show ?thesis
      unfolding unfolded options_agree_def c_def [symmetric] True d_def [symmetric] m_def [symmetric] seed_def [symmetric]
      using True by (cases r) (simp, rule iffI; elim conjE; intro conjI; simp)
  next
    case False
    then show ?thesis unfolding unfolded c_def [symmetric] by (auto simp del: not_None_eq)
  qed
qed

section \<open>What the constructor prepares\<close>

text \<open>The plan of the dataset, and what the choice of the native adapter asks of a pipeline.\<close>

datatype plan_kind =
    Iterable_plan
  | Tensor_plan bool        \<comment> \<open>shuffle\<close>
  | Black_box_plan
  | Stage_plan bool         \<comment> \<open>sample stages are thread safe\<close>
  | Structure_plan bool     \<comment> \<open>native batch\<close>

datatype sample_stage = Pinned_decode | Other_stage

record pipeline_facts =
  pf_sample_stages :: "sample_stage list"
  pf_declares_tensor :: bool
  pf_tensor_source :: bool
  pf_known_collate :: bool
  pf_indexable :: bool

record loader_facts =
  lf_pipeline :: "pipeline_facts option"
  lf_plan :: plan_kind
  lf_shuffle :: bool
  lf_fallback_engine :: bool
  lf_identity :: bool         \<comment> \<open>the placement is the identity\<close>
  lf_plan_length :: int
  lf_batch_size :: "int option"
  lf_num_workers :: "int auto"
  lf_sampler :: bool
  lf_batch_sampler :: bool
  lf_collate_fn :: bool
  lf_thread_safe :: bool
  lf_mode :: string
  lf_runtime_topology :: "unit res"

definition source_class :: "pipeline_facts \<Rightarrow> string option" where
  "source_class p =
    (if pf_sample_stages p = [] \<and> pf_declares_tensor p \<and> pf_tensor_source p then Some ''tokenized-text''
     else if pf_sample_stages p = [Pinned_decode] then Some ''pinned-decode''
     else None)"

text \<open>\<^verbatim>\<open>bind_native_pipeline\<close>: the class of the adapter, or the dataset as it is.\<close>

definition bind_native_pipeline :: "loader_facts \<Rightarrow> string option" where
  "bind_native_pipeline f =
    (case lf_pipeline f of
       None \<Rightarrow> None
     | Some p \<Rightarrow>
         if lf_shuffle f \<or> (case lf_num_workers f of AUTO \<Rightarrow> True | Explicit n \<Rightarrow> n \<le> 0) \<or> \<not> pf_known_collate p \<or> \<not> pf_indexable p
         then None else source_class p)"

definition native_adapter_enabled :: "loader_facts \<Rightarrow> bool" where
  "native_adapter_enabled f \<longleftrightarrow> \<not> lf_fallback_engine f \<and> bind_native_pipeline f \<noteq> None"

definition sample_thread_safe :: "loader_facts \<Rightarrow> bool" where
  "sample_thread_safe f =
    (if lf_fallback_engine f then False else case lf_plan f of Stage_plan safe \<Rightarrow> safe | _ \<Rightarrow> lf_thread_safe f)"

definition check_thread_safe :: "loader_facts \<Rightarrow> unit res" where
  "check_thread_safe f =
    (if lf_thread_safe f \<and> lf_plan f = Stage_plan False
     then Inl (ValueError ''thread_safe=True conflicts with an isolated pipeline sample stage'') else Inr ())"

definition is_native_batch_path :: "loader_facts \<Rightarrow> bool" where
  "is_native_batch_path f \<longleftrightarrow>
    (lf_plan f = Structure_plan True \<or> native_adapter_enabled f) \<and> lf_batch_size f \<noteq> None \<and>
    (case lf_num_workers f of AUTO \<Rightarrow> False | Explicit n \<Rightarrow> 0 < n) \<and> \<not> lf_sampler f \<and> \<not> lf_batch_sampler f \<and>
    \<not> lf_collate_fn f \<and> lf_mode f = ''native'' \<and> (native_adapter_enabled f \<or> \<not> sample_thread_safe f)"

definition keeps_view_ledger :: "loader_facts \<Rightarrow> bool" where
  "keeps_view_ledger f \<longleftrightarrow> \<not> lf_fallback_engine f \<and> lf_plan f = Tensor_plan False \<and> lf_identity f"

definition probes_native_batch :: "loader_facts \<Rightarrow> bool" where
  "probes_native_batch f \<longleftrightarrow> lf_num_workers f \<noteq> Explicit 0 \<and> is_native_batch_path f \<and> lf_identity f"

definition prepares_pool :: "loader_facts \<Rightarrow> bool" where
  "prepares_pool f \<longleftrightarrow>
    (lf_fallback_engine f \<or> (case lf_plan f of Black_box_plan \<Rightarrow> True | Stage_plan _ \<Rightarrow> True | Structure_plan _ \<Rightarrow> True | _ \<Rightarrow> False)) \<and>
    (case lf_num_workers f of AUTO \<Rightarrow> False | Explicit n \<Rightarrow> 0 < n) \<and> \<not> lf_sampler f \<and> \<not> lf_batch_sampler f \<and>
    lf_mode f = ''native'' \<and> \<not> sample_thread_safe f \<and> \<not> (is_native_batch_path f \<and> lf_identity f)"

text \<open>What \<^verbatim>\<open>__iter__\<close> sees of the loader so built.\<close>

definition loader_tier_facts :: "loader_facts \<Rightarrow> tier_facts" where
  "loader_tier_facts f =
    \<lparr>tf_mode = lf_mode f, tf_iterable = (lf_plan f = Iterable_plan), tf_num_workers = lf_num_workers f,
     tf_runtime_topology = (if lf_plan f = Iterable_plan then lf_runtime_topology f else Inr ()), tf_sampler = lf_sampler f,
     tf_batch_sampler = lf_batch_sampler f, tf_fallback_engine = lf_fallback_engine f,
     tf_tensor_plan = (case lf_plan f of Tensor_plan _ \<Rightarrow> True | _ \<Rightarrow> False),
     tf_native_batch_path = (is_native_batch_path f \<and> lf_identity f), tf_sample_thread_safe = sample_thread_safe f\<rparr>"

text \<open>A map-style loader with workers and without a sampler of the user's.\<close>

definition pooled_loader :: "loader_facts \<Rightarrow> bool" where
  "pooled_loader f \<longleftrightarrow>
    lf_plan f \<noteq> Iterable_plan \<and> (\<exists>n > 0. lf_num_workers f = Explicit n) \<and> \<not> lf_sampler f \<and> \<not> lf_batch_sampler f \<and>
    lf_mode f = ''native'' \<and> (lf_pipeline f \<noteq> None \<longrightarrow> (\<exists>safe. lf_plan f = Stage_plan safe))"


text \<open>A structured dataset on two workers: probed where the placement is the identity, in worker processes elsewhere.\<close>

definition sample_facts :: loader_facts where
  "sample_facts = \<lparr>lf_pipeline = None, lf_plan = Structure_plan True, lf_shuffle = False, lf_fallback_engine = False, lf_identity = True,
     lf_plan_length = 20, lf_batch_size = Some 4, lf_num_workers = Explicit 2, lf_sampler = False, lf_batch_sampler = False,
     lf_collate_fn = False, lf_thread_safe = False, lf_mode = ''native'', lf_runtime_topology = Inr ()\<rparr>"


text \<open>Under the fallback engine a probe is taken for a tier that never delivers it, and the pool is not started.\<close>

theorem fallback_probe_wasted:
  assumes "pooled_loader f" "lf_fallback_engine f" "probes_native_batch f"
  shows "select_tier (loader_tier_facts f) = Inr Process_tier \<and> \<not> prepares_pool f"
  using assms
  by (auto simp: pooled_loader_def select_tier_def loader_tier_facts_def prepares_pool_def probes_native_batch_def)

end
