(* ===== verification/MachineKeeping.thy ===== *)
theory MachineKeeping
  imports Collections
begin

text \<open>
  Machine keeping (\<^verbatim>\<open>control/machine_keeping.py\<close>): a wrapper that measures the gaps between deliveries and keeps a
  native actuator awake on the processors of the consumer.  The actuator is a number with a log of what is asked
  of it; clocks, the current processor and the interrupt route are readings, one set for each call.
\<close>

section \<open>State\<close>

datatype keeper_call = Observe_gap nat int | Park nat | Defer_park nat int | Close nat

text \<open>The loader's fields, the keepers created so far, those not closed, and their log.\<close>

record keeping_loader =
  kl_keeper :: "nat option"
  kl_cpus :: "int list"
  kl_interrupt_cpus :: "int list"
  kl_consumer_cpu :: "int option"
  kl_refresh_ns :: int
  kl_route_batches :: int
  kl_last_delivery_ns :: int
  kl_created :: nat
  kl_alive :: "nat list"
  kl_log :: "keeper_call list"

record keeping_config =
  kc_minimum_gap_ns :: int
  kc_gapless_limit :: rat
  kc_gapless_limit_ns :: int
  kc_route_cadence_ns :: int
  kc_route_cadence_batches :: rat

text \<open>\<^verbatim>\<open>__init__\<close>: the products of the cadence, the hysteresis and the calibrated minimum.\<close>

definition keeping_config :: "int \<Rightarrow> rat \<Rightarrow> rat \<Rightarrow> rat \<Rightarrow> keeping_config" where
  "keeping_config minimum_gap f_cad_b f_cad_s hysteresis =
    \<lparr>kc_minimum_gap_ns = minimum_gap, kc_gapless_limit = f_cad_b * hysteresis,
     kc_gapless_limit_ns = \<lfloor>f_cad_s * hysteresis * 1000000000\<rfloor>, kc_route_cadence_ns = \<lfloor>f_cad_s * 1000000000\<rfloor>,
     kc_route_cadence_batches = f_cad_b\<rparr>"

record reading =
  rd_now :: int
  rd_delivered :: int
  rd_interrupts :: "int list option"  \<comment> \<open>what the interrupt route refreshes to, if there is one\<close>
  rd_cpu :: "int option"
  rd_keeper :: "unit res"             \<comment> \<open>whether a native keeper can be built\<close>

record 'i keeping =
  mk_iterator :: 'i
  mk_gap_started_ns :: int
  mk_gapless_batches :: int
  mk_gapless_started_ns :: "int option"
  mk_interrupt_cpus :: "int list"
  mk_consumer_cpu :: "int option"

definition new_keeping :: "int option \<Rightarrow> 'i \<Rightarrow> keeping_loader \<Rightarrow> 'i keeping" where
  "new_keeping cpu it l =
    \<lparr>mk_iterator = it, mk_gap_started_ns = kl_last_delivery_ns l, mk_gapless_batches = 0, mk_gapless_started_ns = None,
     mk_interrupt_cpus = kl_interrupt_cpus l, mk_consumer_cpu = (case cpu of None \<Rightarrow> kl_consumer_cpu l | Some c \<Rightarrow> Some c)\<rparr>"

section \<open>The keeper\<close>

definition route_refresh_due :: "keeping_config \<Rightarrow> int \<Rightarrow> keeping_loader \<Rightarrow> keeping_loader \<times> bool" where
  "route_refresh_due cfg now l =
    (if kl_refresh_ns l = 0 then (l\<lparr>kl_refresh_ns := now\<rparr>, False)
     else (l, kc_route_cadence_batches cfg \<le> of_int (kl_route_batches l) \<and> kc_route_cadence_ns cfg \<le> now - kl_refresh_ns l))"

definition target_cpus ::
    "keeping_config \<Rightarrow> reading \<Rightarrow> bool \<Rightarrow> 'i keeping \<Rightarrow> keeping_loader \<Rightarrow> 'i keeping \<times> keeping_loader \<times> int list" where
  "target_cpus cfg r force it l =
    (case if force then (l, True) else route_refresh_due cfg (rd_now r) l of
       (l, due) \<Rightarrow>
         let interrupts = (if due then (case rd_interrupts r of None \<Rightarrow> [] | Some cpus \<Rightarrow> cpus) else mk_interrupt_cpus it);
             consumer = (if due \<and> rd_cpu r \<noteq> None then rd_cpu r else mk_consumer_cpu it);
             it = it\<lparr>mk_interrupt_cpus := interrupts, mk_consumer_cpu := consumer\<rparr>;
             l = (if due then l\<lparr>kl_interrupt_cpus := interrupts, kl_consumer_cpu := consumer, kl_refresh_ns := rd_now r, kl_route_batches := 0\<rparr>
                  else l)
         in (it, l, sort (remdups (interrupts @ (case consumer of None \<Rightarrow> [] | Some c \<Rightarrow> [c])))))"

definition new_keeper :: "reading \<Rightarrow> keeping_loader \<Rightarrow> keeping_loader \<times> nat res" where
  "new_keeper r l =
    (case rd_keeper r of
       Inl e \<Rightarrow> (l, Inl e)
     | Inr _ \<Rightarrow> (l\<lparr>kl_created := kl_created l + 1, kl_alive := kl_alive l @ [kl_created l]\<rparr>, Inr (kl_created l)))"

definition close_keeper :: "nat \<Rightarrow> keeping_loader \<Rightarrow> keeping_loader" where
  "close_keeper k l = l\<lparr>kl_alive := filter (\<lambda>j. j \<noteq> k) (kl_alive l), kl_log := kl_log l @ [Close k]\<rparr>"

definition replace_keeper :: "reading \<Rightarrow> int list \<Rightarrow> keeping_loader \<Rightarrow> keeping_loader \<times> unit res" where
  "replace_keeper r cpus l =
    (if cpus = [] \<or> cpus = kl_cpus l then (l, Inr ())
     else case new_keeper r l of
       (l, Inl e) \<Rightarrow> (l, Inl e)
     | (l, Inr k) \<Rightarrow>
         (case kl_keeper l of
            None \<Rightarrow> (l, Inl (AttributeError ''close''))
          | Some old \<Rightarrow> ((close_keeper old l)\<lparr>kl_keeper := Some k, kl_cpus := cpus\<rparr>, Inr ())))"

definition construct_keeper :: "reading \<Rightarrow> int list \<Rightarrow> keeping_loader \<Rightarrow> keeping_loader \<times> unit res" where
  "construct_keeper r cpus l =
    (case new_keeper r l of
       (l, Inl e) \<Rightarrow> (l, Inl e)
     | (l, Inr k) \<Rightarrow> (l\<lparr>kl_keeper := Some k, kl_cpus := cpus\<rparr>, Inr ()))"

definition ensure_keeper ::
    "keeping_config \<Rightarrow> reading \<Rightarrow> 'i keeping \<Rightarrow> keeping_loader \<Rightarrow> 'i keeping \<times> keeping_loader \<times> unit res" where
  "ensure_keeper cfg r it l =
    (case target_cpus cfg r (kl_keeper l = None) it l of
       (it, l, cpus) \<Rightarrow>
         if cpus = [] then (it, l, Inr ())
         else if kl_keeper l \<noteq> None then
           (if cpus = kl_cpus l then (it, l, Inr ()) else (case replace_keeper r cpus l of (l, u) \<Rightarrow> (it, l, u)))
         else (case construct_keeper r cpus l of (l, u) \<Rightarrow> (it, l, u)))"

definition ask_keeper :: "(nat \<Rightarrow> keeper_call) \<Rightarrow> keeping_loader \<Rightarrow> keeping_loader" where
  "ask_keeper call l = (case kl_keeper l of None \<Rightarrow> l | Some k \<Rightarrow> l\<lparr>kl_log := kl_log l @ [call k]\<rparr>)"

section \<open>A call\<close>

definition refresh_route ::
    "keeping_config \<Rightarrow> reading \<Rightarrow> 'i keeping \<Rightarrow> keeping_loader \<Rightarrow> 'i keeping \<times> keeping_loader \<times> unit res" where
  "refresh_route cfg r it l =
    (if kl_keeper l = None then (it, l, Inr ())
     else case route_refresh_due cfg (rd_now r) l of
       (l, False) \<Rightarrow> (it, l, Inr ())
     | (l, True) \<Rightarrow>
         (case target_cpus cfg r False it l of
            (it, l, cpus) \<Rightarrow> (case replace_keeper r cpus l of (l, u) \<Rightarrow> (it, l, u))))"

datatype gap_kind = Unmeasured | Long_gap | Gapless

text \<open>The gap before the call; the kind is what the call took it for, and whether it parked the keeper.\<close>

definition measure_gap ::
    "keeping_config \<Rightarrow> reading \<Rightarrow> 'i keeping \<Rightarrow> keeping_loader \<Rightarrow> 'i keeping \<times> keeping_loader \<times> (gap_kind \<times> bool) res" where
  "measure_gap cfg r it l =
    (if mk_gap_started_ns it = 0 then (it, l, Inr (Unmeasured, False))
     else
       let gap = rd_now r - mk_gap_started_ns it in
       if kc_minimum_gap_ns cfg \<le> gap then
         (case ensure_keeper cfg r it l of
            (it, l, Inl e) \<Rightarrow> (it, l, Inl e)
          | (it, l, Inr _) \<Rightarrow>
              (it\<lparr>mk_gapless_batches := 0, mk_gapless_started_ns := None\<rparr>, ask_keeper (\<lambda>k. Observe_gap k gap) l, Inr (Long_gap, False)))
       else if kl_keeper l = None then (it, l, Inr (Unmeasured, False))
       else
         let started = (case mk_gapless_started_ns it of None \<Rightarrow> rd_now r | Some t \<Rightarrow> t);
             it = it\<lparr>mk_gapless_started_ns := Some started, mk_gapless_batches := mk_gapless_batches it + 1\<rparr>
         in if kc_gapless_limit cfg \<le> of_int (mk_gapless_batches it) \<and> kc_gapless_limit_ns cfg \<le> rd_now r - started
            then (it, ask_keeper Park l, Inr (Gapless, True))
            else (it, l, Inr (Gapless, False)))"

definition before_next ::
    "keeping_config \<Rightarrow> reading \<Rightarrow> 'i keeping \<Rightarrow> keeping_loader \<Rightarrow> 'i keeping \<times> keeping_loader \<times> (gap_kind \<times> bool) res" where
  "before_next cfg r it l =
    (case refresh_route cfg r it l of
       (it, l, Inl e) \<Rightarrow> (it, l, Inl e)
     | (it, l, Inr _) \<Rightarrow> measure_gap cfg r it l)"

definition keeping_next ::
    "('i \<Rightarrow> 'i \<times> 'v res) \<Rightarrow> keeping_config \<Rightarrow> reading \<Rightarrow> 'i keeping \<Rightarrow> keeping_loader \<Rightarrow> 'i keeping \<times> keeping_loader \<times> 'v res" where
  "keeping_next inner cfg r it l =
    (case before_next cfg r it l of
       (it, l, Inl e) \<Rightarrow> (it, l, Inl e)
     | (it, l, Inr _) \<Rightarrow>
         (case inner (mk_iterator it) of
            (i, Inl e) \<Rightarrow>
              (it\<lparr>mk_iterator := i\<rparr>,
               if e = StopIteration then ask_keeper (\<lambda>k. Defer_park k (kc_gapless_limit_ns cfg)) l else ask_keeper Park l, Inl e)
          | (i, Inr v) \<Rightarrow>
              (it\<lparr>mk_iterator := i, mk_gap_started_ns := rd_delivered r\<rparr>,
               l\<lparr>kl_last_delivery_ns := rd_delivered r, kl_route_batches := kl_route_batches l + 1\<rparr>, Inr v)))"

definition invalidate_keeping :: "('i \<Rightarrow> 'i) \<Rightarrow> 'i keeping \<Rightarrow> keeping_loader \<Rightarrow> 'i keeping \<times> keeping_loader" where
  "invalidate_keeping invalidate it l = (it\<lparr>mk_iterator := invalidate (mk_iterator it)\<rparr>, ask_keeper Park l)"

text \<open>The keeper's share of \<^verbatim>\<open>DataLoader.close\<close>.\<close>

definition close_keeping :: "keeping_loader \<Rightarrow> keeping_loader" where
  "close_keeping l =
    (case kl_keeper l of
       None \<Rightarrow> l\<lparr>kl_last_delivery_ns := 0\<rparr>
     | Some k \<Rightarrow>
         (close_keeper k l)\<lparr>kl_keeper := None, kl_cpus := [], kl_interrupt_cpus := [], kl_consumer_cpu := None,
           kl_refresh_ns := 0, kl_route_batches := 0, kl_last_delivery_ns := 0\<rparr>)"

definition attaches_keeping :: "string \<Rightarrow> 'c option \<Rightarrow> ('c \<Rightarrow> 't option) \<Rightarrow> bool" where
  "attaches_keeping machine_keeping calibration idle_tax \<longleftrightarrow>
    machine_keeping \<noteq> ''off'' \<and> (case calibration of None \<Rightarrow> False | Some c \<Rightarrow> idle_tax c \<noteq> None)"

section \<open>At most one keeper, and no effect on the batches\<close>

definition keeper_ok :: "keeping_loader \<Rightarrow> bool" where
  "keeper_ok l \<longleftrightarrow>
    (case kl_keeper l of None \<Rightarrow> kl_alive l = [] | Some k \<Rightarrow> kl_alive l = [k] \<and> k < kl_created l \<and> kl_cpus l \<noteq> [])"

lemma keeper_ok_frame [simp]:
  "keeper_ok (l\<lparr>kl_refresh_ns := a\<rparr>) = keeper_ok l" "keeper_ok (l\<lparr>kl_log := g\<rparr>) = keeper_ok l"
  "keeper_ok (l\<lparr>kl_interrupt_cpus := b, kl_consumer_cpu := c, kl_refresh_ns := a, kl_route_batches := d\<rparr>) = keeper_ok l"
  "keeper_ok (l\<lparr>kl_last_delivery_ns := a, kl_route_batches := d\<rparr>) = keeper_ok l"
  by (simp_all add: keeper_ok_def split: option.split)

lemma ask_keeper_frame [simp]: "keeper_ok (ask_keeper c l) = keeper_ok l" "kl_keeper (ask_keeper c l) = kl_keeper l"
  by (simp_all add: ask_keeper_def split: option.splits)

lemma route_refresh_due_frame:
  "route_refresh_due cfg now l = (m, b) \<Longrightarrow> keeper_ok m = keeper_ok l \<and> kl_keeper m = kl_keeper l \<and> kl_cpus m = kl_cpus l"
  by (auto simp: route_refresh_due_def split: if_splits)

lemma target_cpus_frame:
  "target_cpus cfg r force it l = (j, m, cpus) \<Longrightarrow>
   keeper_ok m = keeper_ok l \<and> kl_keeper m = kl_keeper l \<and> kl_cpus m = kl_cpus l \<and> mk_iterator j = mk_iterator it \<and>
   mk_gap_started_ns j = mk_gap_started_ns it \<and> mk_gapless_batches j = mk_gapless_batches it \<and>
   mk_gapless_started_ns j = mk_gapless_started_ns it"
  by (auto simp: target_cpus_def Let_def split: if_splits prod.splits dest: route_refresh_due_frame)

lemma replace_keeper_ok:
  "replace_keeper r cpus l = (m, u) \<Longrightarrow> keeper_ok l \<Longrightarrow> kl_keeper l \<noteq> None \<Longrightarrow>
   keeper_ok m \<and> kl_keeper m \<noteq> None \<and> (rd_keeper r = Inr () \<longrightarrow> u = Inr ())"
  by (auto simp: replace_keeper_def new_keeper_def close_keeper_def keeper_ok_def split: if_splits sum.splits option.splits)

lemma construct_keeper_ok:
  "construct_keeper r cpus l = (m, u) \<Longrightarrow> keeper_ok l \<Longrightarrow> kl_keeper l = None \<Longrightarrow> cpus \<noteq> [] \<Longrightarrow>
   keeper_ok m \<and> (rd_keeper r = Inr () \<longrightarrow> u = Inr ())"
  by (auto simp: construct_keeper_def new_keeper_def keeper_ok_def split: if_splits sum.splits)

lemma ensure_keeper_ok:
  assumes "ensure_keeper cfg r it l = (j, m, u)" "keeper_ok l"
  shows "keeper_ok m \<and> (rd_keeper r = Inr () \<longrightarrow> u = Inr ()) \<and> mk_iterator j = mk_iterator it \<and>
    mk_gap_started_ns j = mk_gap_started_ns it \<and> mk_gapless_batches j = mk_gapless_batches it \<and>
    mk_gapless_started_ns j = mk_gapless_started_ns it"
proof -
  obtain j' l' cpus where t: "target_cpus cfg r (kl_keeper l = None) it l = (j', l', cpus)" by (metis prod_cases3)
  note frame = target_cpus_frame [OF t]
  show ?thesis using assms frame t replace_keeper_ok [of r cpus l'] construct_keeper_ok [of r cpus l']
    by (auto simp: ensure_keeper_def split: if_splits prod.splits)
qed

lemma refresh_route_ok:
  assumes "refresh_route cfg r it l = (j, m, u)" "keeper_ok l"
  shows "keeper_ok m \<and> (rd_keeper r = Inr () \<longrightarrow> u = Inr ()) \<and> mk_iterator j = mk_iterator it \<and>
    mk_gap_started_ns j = mk_gap_started_ns it \<and> mk_gapless_batches j = mk_gapless_batches it \<and>
    mk_gapless_started_ns j = mk_gapless_started_ns it"
proof (cases "kl_keeper l = None")
  case True
  with assms show ?thesis by (auto simp: refresh_route_def)
next
  case False
  obtain n due where d: "route_refresh_due cfg (rd_now r) l = (n, due)" by fastforce
  obtain j' l' cpus where t: "target_cpus cfg r False it n = (j', l', cpus)" by (metis prod_cases3)
  show ?thesis using assms False d t route_refresh_due_frame [OF d] target_cpus_frame [OF t] replace_keeper_ok [of r cpus l']
    by (auto simp: refresh_route_def split: if_splits prod.splits bool.splits)
qed

lemma before_next_ok:
  assumes "before_next cfg r it l = (j, m, u)" "keeper_ok l"
  shows "keeper_ok m \<and> (rd_keeper r = Inr () \<longrightarrow> (\<exists>x. u = Inr x)) \<and> mk_iterator j = mk_iterator it"
proof -
  obtain i n v where one: "refresh_route cfg r it l = (i, n, v)" by (metis prod_cases3)
  obtain i' n' w where two: "ensure_keeper cfg r i n = (i', n', w)" by (metis prod_cases3)
  note a = refresh_route_ok [OF one assms(2)]
  then have b: "keeper_ok n' \<and> (rd_keeper r = Inr () \<longrightarrow> w = Inr ()) \<and> mk_iterator i' = mk_iterator i"
    using ensure_keeper_ok [OF two] by blast
  show ?thesis using assms(1) one two a b
    by (auto simp: before_next_def measure_gap_def Let_def split: sum.splits if_splits option.splits)
qed

lemma keeping_next_ok:
  assumes "keeping_next inner cfg r it l = (j, m, v)" "keeper_ok l"
  shows "keeper_ok m \<and> (rd_keeper r = Inr () \<longrightarrow> inner (mk_iterator it) = (mk_iterator j, v))"
proof -
  obtain i n u where one: "before_next cfg r it l = (i, n, u)" by (metis prod_cases3)
  from before_next_ok [OF one assms(2)] assms(1) one show ?thesis
    by (auto simp: keeping_next_def split: sum.splits prod.splits if_splits)
qed

fun keeping_calls ::
    "('i \<Rightarrow> 'i \<times> 'v res) \<Rightarrow> keeping_config \<Rightarrow> reading list \<Rightarrow> 'i keeping \<Rightarrow> keeping_loader \<Rightarrow> 'i keeping \<times> keeping_loader \<times> 'v res list" where
  "keeping_calls inner cfg [] it l = (it, l, [])"
| "keeping_calls inner cfg (r # rs) it l =
    (case keeping_next inner cfg r it l of
       (it, l, v) \<Rightarrow> (case keeping_calls inner cfg rs it l of (it, l, vs) \<Rightarrow> (it, l, v # vs)))"

fun plain_calls :: "('i \<Rightarrow> 'i \<times> 'v res) \<Rightarrow> nat \<Rightarrow> 'i \<Rightarrow> 'i \<times> 'v res list" where
  "plain_calls inner 0 i = (i, [])"
| "plain_calls inner (Suc n) i =
    (case inner i of (i, v) \<Rightarrow> (case plain_calls inner n i of (i, vs) \<Rightarrow> (i, v # vs)))"

lemma keeping_calls_ok:
  "keeping_calls inner cfg rs it l = (j, m, vs) \<Longrightarrow> keeper_ok l \<Longrightarrow>
   keeper_ok m \<and> ((\<forall>r \<in> set rs. rd_keeper r = Inr ()) \<longrightarrow> plain_calls inner (length rs) (mk_iterator it) = (mk_iterator j, vs))"
proof (induction rs arbitrary: it l vs)
  case (Cons r rs)
  obtain i n v where one: "keeping_next inner cfg r it l = (i, n, v)" by (metis prod_cases3)
  obtain ws where rest: "keeping_calls inner cfg rs i n = (j, m, ws)" "vs = v # ws"
    using Cons.prems(1) one by (auto split: prod.splits)
  from keeping_next_ok [OF one Cons.prems(2)] Cons.IH [OF rest(1)] show ?case by (auto simp: rest(2))
qed simp


section \<open>Parking\<close>

text \<open>The calls of a run as the wrapper takes them: the time, the kind of the gap before it, and whether it parked the keeper.\<close>

fun keeping_trace ::
    "('i \<Rightarrow> 'i \<times> 'v res) \<Rightarrow> keeping_config \<Rightarrow> reading list \<Rightarrow> 'i keeping \<Rightarrow> keeping_loader \<Rightarrow> (int \<times> gap_kind \<times> bool) list" where
  "keeping_trace inner cfg [] it l = []"
| "keeping_trace inner cfg (r # rs) it l =
    (rd_now r, case snd (snd (before_next cfg r it l)) of Inl e \<Rightarrow> (Unmeasured, False) | Inr x \<Rightarrow> x) #
    (case keeping_next inner cfg r it l of (it, l, v) \<Rightarrow> keeping_trace inner cfg rs it l)"

text \<open>The calls with a short gap since the last long one.\<close>

definition gapless_since :: "(int \<times> gap_kind \<times> bool) list \<Rightarrow> int list" where
  "gapless_since tr = map fst (filter (\<lambda>x. fst (snd x) = Gapless) (rev (takeWhile (\<lambda>x. fst (snd x) \<noteq> Long_gap) (rev tr))))"

lemma gapless_since_snoc:
  "gapless_since (tr @ [(t, k, b)]) =
    (case k of Long_gap \<Rightarrow> [] | Gapless \<Rightarrow> gapless_since tr @ [t] | Unmeasured \<Rightarrow> gapless_since tr)"
  by (auto simp: gapless_since_def split: gap_kind.split)

definition counters_ok :: "(int \<times> gap_kind \<times> bool) list \<Rightarrow> 'i keeping \<Rightarrow> bool" where
  "counters_ok tr it \<longleftrightarrow>
    mk_gapless_batches it = int (length (gapless_since tr)) \<and>
    mk_gapless_started_ns it = (case gapless_since tr of [] \<Rightarrow> None | t # ts \<Rightarrow> Some t)"

text \<open>A call that parks ends a series of short gaps that is long enough in calls and in time.\<close>

definition park_earned :: "keeping_config \<Rightarrow> (int \<times> gap_kind \<times> bool) list \<Rightarrow> int \<Rightarrow> bool" where
  "park_earned cfg tr now \<longleftrightarrow>
    (\<exists>first rest. gapless_since tr = first # rest \<and> kc_gapless_limit cfg \<le> of_int (int (length (gapless_since tr))) \<and>
      kc_gapless_limit_ns cfg \<le> now - first)"

lemma before_next_counters:
  assumes ok: "counters_ok tr it" "keeper_ok l" and step: "before_next cfg r it l = (j, m, u)"
  defines "x \<equiv> (case u of Inl e \<Rightarrow> (Unmeasured, False) | Inr x \<Rightarrow> x)"
  shows "counters_ok (tr @ [(rd_now r, x)]) j \<and> (snd x \<longrightarrow> park_earned cfg (tr @ [(rd_now r, x)]) (rd_now r))"
proof -
  obtain i n v where one: "refresh_route cfg r it l = (i, n, v)" by (metis prod_cases3)
  note a = refresh_route_ok [OF one ok(2)]
  obtain i' n' w where two: "ensure_keeper cfg r i n = (i', n', w)" by (metis prod_cases3)
  from a have b: "mk_gapless_batches i' = mk_gapless_batches i \<and> mk_gapless_started_ns i' = mk_gapless_started_ns i"
    using ensure_keeper_ok [OF two] by blast
  have c: "counters_ok tr i" using ok(1) a by (simp add: counters_ok_def)
  show ?thesis
    using step one two a b c
    by (auto simp: before_next_def measure_gap_def Let_def x_def counters_ok_def gapless_since_snoc park_earned_def
      split: sum.splits if_splits option.splits list.splits)
qed

lemma keeping_next_counters:
  "keeping_next inner cfg r it l = (j, m, v) \<Longrightarrow> before_next cfg r it l = (i, n, u) \<Longrightarrow>
   mk_gapless_batches j = mk_gapless_batches i \<and> mk_gapless_started_ns j = mk_gapless_started_ns i"
  by (auto simp: keeping_next_def split: sum.splits prod.splits if_splits)

lemma trace_parks:
  "counters_ok tr it \<Longrightarrow> keeper_ok l \<Longrightarrow> keeping_trace inner cfg rs it l = new \<Longrightarrow> k < length new \<Longrightarrow> snd (snd (new ! k)) \<Longrightarrow>
   park_earned cfg (tr @ take (Suc k) new) (fst (new ! k))"
proof (induction rs arbitrary: tr it l new k)
  case (Cons r rs)
  obtain i n u where one: "before_next cfg r it l = (i, n, u)" by (metis prod_cases3)
  obtain j m v where step: "keeping_next inner cfg r it l = (j, m, v)" by (metis prod_cases3)
  define x where "x = (case u of Inl e \<Rightarrow> (Unmeasured, False) | Inr x \<Rightarrow> x)"
  have new: "new = (rd_now r, x) # keeping_trace inner cfg rs j m"
    using Cons.prems(3) one step by (simp add: x_def)
  from before_next_counters [OF Cons.prems(1,2) one, folded x_def]
  have here: "counters_ok (tr @ [(rd_now r, x)]) i" "snd x \<longrightarrow> park_earned cfg (tr @ [(rd_now r, x)]) (rd_now r)" by auto
  have "counters_ok (tr @ [(rd_now r, x)]) j" using here(1) keeping_next_counters [OF step one] by (simp add: counters_ok_def)
  note later = Cons.IH [OF this _ refl]
  show ?case
  proof (cases k)
    case 0
    then show ?thesis using here(2) Cons.prems(5) by (simp add: new)
  next
    case (Suc k')
    then show ?thesis using later [of m k'] keeping_next_ok [OF step Cons.prems(2)] Cons.prems(4,5) by (simp add: new)
  qed
qed simp

text \<open>
  A keeper is parked between two deliveries only after a series of short gaps without a long one among them, which
  is as many calls long as the cadence times the hysteresis and lasted as many seconds: a single short gap, or
  short gaps broken by a long one, never park it.
\<close>

theorem keeper_parked_after_hysteresis:
  assumes "keeper_ok l" "k < length rs" "keeping_trace inner cfg rs (new_keeping cpu i l) l = tr" "snd (snd (tr ! k))"
  shows "park_earned cfg (take (Suc k) tr) (fst (tr ! k))"
proof -
  have "length (keeping_trace inner cfg rs it l) = length rs" for it l
    by (induction rs arbitrary: it l) (simp_all add: case_prod_beta)
  then have "k < length tr" using assms(2,3) by auto
  moreover have "counters_ok [] (new_keeping cpu i l)" by (simp add: counters_ok_def new_keeping_def gapless_since_def)
  ultimately show ?thesis using trace_parks [of "[]"] assms by fastforce
qed

section \<open>Witnesses\<close>

text \<open>Four calls over a counter: a delivery, two short gaps that park the keeper, and a long one that moves it.\<close>

definition keeping_sample :: keeping_loader where
  "keeping_sample = \<lparr>kl_keeper = Some 0, kl_cpus = [3], kl_interrupt_cpus = [], kl_consumer_cpu = Some 3, kl_refresh_ns = 1,
     kl_route_batches = 0, kl_last_delivery_ns = 0, kl_created = 1, kl_alive = [0], kl_log = []\<rparr>"

definition keeping_sample_config :: keeping_config where
  "keeping_sample_config = \<lparr>kc_minimum_gap_ns = 100, kc_gapless_limit = 2, kc_gapless_limit_ns = 5, kc_route_cadence_ns = 20,
     kc_route_cadence_batches = 3\<rparr>"

definition keeping_readings :: "reading list" where
  "keeping_readings = map (\<lambda>(now, delivered). \<lparr>rd_now = now, rd_delivered = delivered, rd_interrupts = Some [7], rd_cpu = Some 2,
     rd_keeper = Inr ()\<rparr>) [(1000, 1001), (1002, 1003), (1010, 1011), (1200, 1201)]"

definition count_up :: "int \<Rightarrow> int \<times> int res" where "count_up n = (n + 1, Inr n)"

lemma keeping_sample_ok: "keeper_ok keeping_sample"
  by (simp add: keeper_ok_def keeping_sample_def)

lemmas keeping_run_defs = keeping_sample_def keeping_sample_config_def keeping_readings_def count_up_def new_keeping_def
  keeping_next_def before_next_def refresh_route_def route_refresh_due_def measure_gap_def ensure_keeper_def target_cpus_def
  replace_keeper_def new_keeper_def close_keeper_def ask_keeper_def Let_def


theorem keeper_parked_after_hysteresis_witness:
  "\<exists>tr. keeping_trace count_up keeping_sample_config keeping_readings (new_keeping (Some 3) 5 keeping_sample) keeping_sample = tr \<and>
     snd (snd (tr ! 2)) \<and> park_earned keeping_sample_config (take (Suc 2) tr) 1010"
proof -
  let ?tr = "keeping_trace count_up keeping_sample_config keeping_readings (new_keeping (Some 3) 5 keeping_sample) keeping_sample"
  have tr: "snd (snd (?tr ! 2))" "fst (?tr ! 2) = 1010" by (simp_all add: keeping_run_defs)
  have "2 < length keeping_readings" by (simp add: keeping_readings_def)
  from keeper_parked_after_hysteresis [OF keeping_sample_ok this refl tr(1)] tr show ?thesis by auto
qed

end
