(* ===== verification/Stages.thy ===== *)
theory Stages
  imports PyValue
begin

text \<open>
  Typed pipelines (\<^verbatim>\<open>stages/\<close>) and the decoder pins of their decode stages (\<^verbatim>\<open>decoder/selection.py\<close>,
  \<^verbatim>\<open>decoder/pins.py\<close>).  Python classes are a type with \<^verbatim>\<open>issubclass\<close> as an argument; the user's functions
  compute a value or raise.
\<close>

section \<open>Declarations\<close>

datatype stage_io = IO_none | IO_read

datatype thread_safety = Isolated | Thread_safe

definition normalize_io :: "string \<Rightarrow> stage_io res" where
  "normalize_io v =
    (if v = ''none'' then Inr IO_none else if v = ''read'' then Inr IO_read
     else Inl (ValueError ''io must be none or read''))"

definition normalize_thread_safety :: "string \<Rightarrow> thread_safety res" where
  "normalize_thread_safety v =
    (if v = ''isolated'' then Inr Isolated else if v = ''thread-safe'' then Inr Thread_safe
     else Inl (ValueError ''thread_safety must be isolated or thread-safe''))"

fun validate_cost_hint :: "pyval \<Rightarrow> unit res" where
  "validate_cost_hint PNone = Inr ()"
| "validate_cost_hint (PInt i) = (if i \<le> 0 then Inl (ValueError ''cost_hint_ns must be positive'') else Inr ())"
| "validate_cost_hint _ = Inl (TypeError ''cost_hint_ns must be an integer or None'')"

text \<open>The classes, \<^verbatim>\<open>object\<close> among them, and \<^verbatim>\<open>issubclass\<close>.\<close>

record 't class_table =
  ct_object :: 't
  ct_subclass :: "'t \<Rightarrow> 't \<Rightarrow> bool"

definition types_connect :: "'t class_table \<Rightarrow> 't \<Rightarrow> 't \<Rightarrow> bool" where
  "types_connect ct output_type input_type =
    (if output_type = ct_object ct \<or> input_type = ct_object ct then True else ct_subclass ct output_type input_type)"

section \<open>Stages\<close>

datatype stage_kind = Decode_kind "string option" bool | Transform_kind | Collate_kind | Foreign_kind

text \<open>\<open>sg_fn\<close> is \<^const>\<open>None\<close> for an object that is not callable.\<close>

record ('t, 'v) stage =
  sn_kind :: stage_kind
  sn_fn :: "('v \<Rightarrow> 'v res) option"
  sn_input_type :: 't
  sn_output_type :: 't
  sn_io :: string
  sn_thread_safety :: string
  sn_cost_hint_ns :: pyval

record ('t, 'v) source_stage =
  so_getitem :: "(int \<Rightarrow> 'v res) option"
  so_call :: "(int \<Rightarrow> 'v res) option"
  so_output_type :: 't
  so_io :: string
  so_thread_safety :: string
  so_cost_hint_ns :: pyval
  so_length :: "pyval option"
  so_provider_length :: "pyval option"  \<comment> \<open>\<^verbatim>\<open>len(source)\<close>, if it has one\<close>

definition check_declarations :: "string \<Rightarrow> string \<Rightarrow> (stage_io \<times> thread_safety) res" where
  "check_declarations stage_io safety =
    rbind (normalize_io stage_io) (\<lambda>i. rmap (Pair i) (normalize_thread_safety safety))"

definition codec_check :: "stage_kind \<Rightarrow> unit res" where
  "codec_check kind =
    (case kind of
       Decode_kind codec substitute \<Rightarrow>
         (case codec of
            None \<Rightarrow> if substitute then Inl (ValueError ''substituted Decode stages require an explicit codec'') else Inr ()
          | Some c \<Rightarrow> if c \<notin> {''jpeg'', ''png'', ''audio''} then Inl (ValueError ''codec must be jpeg, png, audio, or None'') else Inr ())
     | _ \<Rightarrow> Inr ())"

text \<open>\<^verbatim>\<open>Decode\<close>, \<^verbatim>\<open>Transform\<close> and \<^verbatim>\<open>Collate\<close> check the same declarations; only the first has a codec.\<close>

definition stage_post_init :: "('t, 'v) stage \<Rightarrow> unit res" where
  "stage_post_init s =
    (if sn_fn s = None then Inl (TypeError ''function must be callable'')
     else
       rbind (validate_cost_hint (sn_cost_hint_ns s)) (\<lambda>_.
       rbind (codec_check (sn_kind s)) (\<lambda>_.
       rmap (\<lambda>_. ()) (check_declarations (sn_io s) (sn_thread_safety s)))))"

definition resolved_length :: "('t, 'v) source_stage \<Rightarrow> pyval res" where
  "resolved_length s =
    (case so_length s of
       Some n \<Rightarrow> Inr n
     | None \<Rightarrow> (case so_provider_length s of
         Some n \<Rightarrow> Inr n
       | None \<Rightarrow> Inl (TypeError ''a callable source requires an explicit length'')))"

definition source_post_init :: "('t, 'v) source_stage \<Rightarrow> int res" where
  "source_post_init s =
    rbind (validate_cost_hint (so_cost_hint_ns s)) (\<lambda>_.
    rbind (check_declarations (so_io s) (so_thread_safety s)) (\<lambda>_.
    rbind (resolved_length s) (\<lambda>n.
      case n of
        PInt i \<Rightarrow> if i < 0 then Inl (ValueError ''source length must be a nonnegative integer'') else Inr i
      | _ \<Rightarrow> Inl (ValueError ''source length must be a nonnegative integer''))))"

definition call_source :: "('t, 'v) source_stage \<Rightarrow> int \<Rightarrow> 'v res" where
  "call_source s index =
    (case so_getitem s of
       Some f \<Rightarrow> f index
     | None \<Rightarrow> (case so_call s of Some f \<Rightarrow> f index | None \<Rightarrow> Inl (TypeError ''source must be indexable or callable'')))"

definition call_stage :: "('t, 'v) stage \<Rightarrow> 'v \<Rightarrow> 'v res" where
  "call_stage s v = (case sn_fn s of Some f \<Rightarrow> f v | None \<Rightarrow> Inl (TypeError ''function must be callable''))"

section \<open>Pipelines\<close>

record ('t, 'v) pipeline =
  pi_source :: "('t, 'v) source_stage"
  pi_sample_stages :: "('t, 'v) stage list"
  pi_collate_stage :: "('t, 'v) stage"

fun check_stages :: "'t class_table \<Rightarrow> 't \<Rightarrow> bool \<Rightarrow> bool \<Rightarrow> ('t, 'v) stage list \<Rightarrow> 't res" where
  "check_stages ct previous decode_seen transform_seen [] = Inr previous"
| "check_stages ct previous decode_seen transform_seen (s # ss) =
    rbind
      (case sn_kind s of
         Decode_kind _ _ \<Rightarrow>
           if decode_seen \<or> transform_seen then Inl (ValueError ''Decode must appear at most once before Transform'')
           else Inr (True, transform_seen)
       | Transform_kind \<Rightarrow> Inr (decode_seen, True)
       | _ \<Rightarrow> Inl (TypeError ''pipeline stage must be Decode or Transform''))
      (\<lambda>(decode_seen, transform_seen).
        if types_connect ct previous (sn_input_type s)
        then check_stages ct (sn_output_type s) decode_seen transform_seen ss
        else Inl (TypeError ''pipeline type edge is incompatible''))"

definition pipeline_post_init :: "'t class_table \<Rightarrow> ('t, 'v) pipeline \<Rightarrow> unit res" where
  "pipeline_post_init ct p =
    rbind (check_stages ct (so_output_type (pi_source p)) False False (pi_sample_stages p)) (\<lambda>previous.
      if types_connect ct previous (sn_input_type (pi_collate_stage p)) then Inr ()
      else Inl (TypeError ''pipeline type edge is incompatible''))"

fun run_stages :: "('t, 'v) stage list \<Rightarrow> 'v \<Rightarrow> 'v res" where
  "run_stages [] v = Inr v"
| "run_stages (s # ss) v = rbind (call_stage s v) (run_stages ss)"

definition pipeline_getitem :: "('t, 'v) pipeline \<Rightarrow> int \<Rightarrow> 'v res" where
  "pipeline_getitem p index = rbind (call_source (pi_source p) index) (run_stages (pi_sample_stages p))"

definition pipeline_thread_safe :: "('t, 'v) pipeline \<Rightarrow> bool" where
  "pipeline_thread_safe p \<longleftrightarrow>
    so_thread_safety (pi_source p) = ''thread-safe'' \<and> (\<forall>s \<in> set (pi_sample_stages p). sn_thread_safety s = ''thread-safe'')"

text \<open>\<^verbatim>\<open>pipeline(*stages)\<close>: a source first and a collation last; a source between them is a foreign stage.\<close>

datatype ('t, 'v) any_stage = Any_source "('t, 'v) source_stage" | Any_stage "('t, 'v) stage"

fun middle_stage :: "('t, 'v) any_stage \<Rightarrow> ('t, 'v) stage" where
  "middle_stage (Any_stage s) = s"
| "middle_stage (Any_source s) =
    \<lparr>sn_kind = Foreign_kind, sn_fn = None, sn_input_type = so_output_type s, sn_output_type = so_output_type s,
     sn_io = so_io s, sn_thread_safety = so_thread_safety s, sn_cost_hint_ns = so_cost_hint_ns s\<rparr>"

definition compose_pipeline :: "'t class_table \<Rightarrow> ('t, 'v) any_stage list \<Rightarrow> ('t, 'v) pipeline res" where
  "compose_pipeline ct stages =
    (if length stages < 2 then Inl (ValueError ''pipeline requires Source and Collate stages'')
     else case hd stages of
       Any_stage _ \<Rightarrow> Inl (TypeError ''the first pipeline stage must be Source'')
     | Any_source source \<Rightarrow>
         (case last stages of
            Any_source _ \<Rightarrow> Inl (TypeError ''the final pipeline stage must be Collate'')
          | Any_stage c \<Rightarrow>
              if sn_kind c \<noteq> Collate_kind then Inl (TypeError ''the final pipeline stage must be Collate'')
              else
                let p = \<lparr>pi_source = source, pi_sample_stages = map middle_stage (butlast (tl stages)), pi_collate_stage = c\<rparr>
                in rmap (\<lambda>_. p) (pipeline_post_init ct p)))"

section \<open>Type soundness\<close>

text \<open>What \<^verbatim>\<open>isinstance\<close> is of \<^verbatim>\<open>issubclass\<close>, and a stage or source that keeps to its declaration.\<close>

definition instances_ok :: "'t class_table \<Rightarrow> ('v \<Rightarrow> 't \<Rightarrow> bool) \<Rightarrow> bool" where
  "instances_ok ct is_instance \<longleftrightarrow>
    (\<forall>v. is_instance v (ct_object ct)) \<and> (\<forall>v a b. is_instance v a \<and> ct_subclass ct a b \<longrightarrow> is_instance v b)"

definition stage_keeps :: "('v \<Rightarrow> 't \<Rightarrow> bool) \<Rightarrow> ('t, 'v) stage \<Rightarrow> bool" where
  "stage_keeps is_instance s \<longleftrightarrow>
    (\<forall>v w. is_instance v (sn_input_type s) \<and> call_stage s v = Inr w \<longrightarrow> is_instance w (sn_output_type s))"

definition source_keeps :: "('v \<Rightarrow> 't \<Rightarrow> bool) \<Rightarrow> ('t, 'v) source_stage \<Rightarrow> bool" where
  "source_keeps is_instance s \<longleftrightarrow> (\<forall>i v. call_source s i = Inr v \<longrightarrow> is_instance v (so_output_type s))"

text \<open>No undeclared output feeds a declared input: \<^verbatim>\<open>object\<close> as an output connects to everything.\<close>

fun declared_edges :: "'t class_table \<Rightarrow> 't \<Rightarrow> 't list \<Rightarrow> 't list \<Rightarrow> bool" where
  "declared_edges ct previous (i # ins) (out # outs) \<longleftrightarrow>
    (previous = ct_object ct \<longrightarrow> i = ct_object ct) \<and> declared_edges ct out ins outs"
| "declared_edges ct previous ins outs \<longleftrightarrow> (\<forall>i \<in> set (take 1 ins). previous = ct_object ct \<longrightarrow> i = ct_object ct)"

definition edges_declared :: "'t class_table \<Rightarrow> ('t, 'v) pipeline \<Rightarrow> bool" where
  "edges_declared ct p \<longleftrightarrow>
    declared_edges ct (so_output_type (pi_source p))
      (map sn_input_type (pi_sample_stages p) @ [sn_input_type (pi_collate_stage p)]) (map sn_output_type (pi_sample_stages p))"

lemma connect_instance:
  assumes "instances_ok ct is_instance" "types_connect ct a b" "a = ct_object ct \<longrightarrow> b = ct_object ct" "is_instance v a"
  shows "is_instance v b"
  using assms by (auto simp: types_connect_def instances_ok_def split: if_splits)

lemma run_stages_typed:
  "instances_ok ct is_instance \<Longrightarrow> check_stages ct previous d t ss = Inr out \<Longrightarrow> types_connect ct out final \<Longrightarrow>
   declared_edges ct previous (map sn_input_type ss @ [final]) (map sn_output_type ss) \<Longrightarrow>
   \<forall>s \<in> set ss. stage_keeps is_instance s \<Longrightarrow> is_instance v previous \<Longrightarrow> run_stages ss v = Inr w \<Longrightarrow> is_instance w final"
proof (induction ss arbitrary: previous d t v)
  case Nil
  then show ?case using connect_instance [OF Nil(1) Nil(3)] by simp
next
  case (Cons s ss)
  obtain d' t' where step: "check_stages ct (sn_output_type s) d' t' ss = Inr out" "types_connect ct previous (sn_input_type s)"
    using Cons.prems(2) by (auto simp: rbind_eq_Inr split: prod.splits if_splits)
  have input: "is_instance v (sn_input_type s)"
    using connect_instance [OF Cons.prems(1) step(2) _ Cons.prems(6)] Cons.prems(4) by simp
  obtain u where u: "call_stage s v = Inr u" "run_stages ss u = Inr w" using Cons.prems(7) by (auto simp: rbind_eq_Inr)
  have "is_instance u (sn_output_type s)" using Cons.prems(5) input u(1) by (auto simp: stage_keeps_def)
  with Cons.IH [OF Cons.prems(1) step(1) Cons.prems(3)] Cons.prems(4,5) u(2) show ?case by simp
qed

lemma check_stages_order:
  "check_stages ct previous d t ss = Inr out \<Longrightarrow>
   (\<exists>decodes transforms. ss = decodes @ transforms \<and> length decodes \<le> (if d \<or> t then 0 else 1) \<and>
     (\<forall>s \<in> set decodes. \<exists>c b. sn_kind s = Decode_kind c b) \<and> (\<forall>s \<in> set transforms. sn_kind s = Transform_kind))"
proof (induction ss arbitrary: previous d t)
  case (Cons s ss)
  show ?case
  proof (cases "sn_kind s")
    case (Decode_kind c b)
    then have "\<not> d \<and> \<not> t" "check_stages ct (sn_output_type s) True False ss = Inr out"
      using Cons.prems by (auto simp: rbind_eq_Inr split: if_splits)
    with Cons.IH obtain ts where "ss = ts" "\<forall>s \<in> set ts. sn_kind s = Transform_kind" by fastforce
    with Decode_kind \<open>\<not> d \<and> \<not> t\<close> show ?thesis by (intro exI [of _ "[s]"] exI [of _ ts]) auto
  next
    case Transform_kind
    then have "check_stages ct (sn_output_type s) d True ss = Inr out" using Cons.prems by (auto split: if_splits)
    with Cons.IH obtain ts where "ss = ts" "\<forall>s \<in> set ts. sn_kind s = Transform_kind" by fastforce
    with Transform_kind show ?thesis by (intro exI [of _ "[]"] exI [of _ "s # ts"]) auto
  qed (use Cons.prems in auto)
qed simp

text \<open>
  C27: An accepted pipeline is well typed: it has at most one decode stage, in front of its transforms; and if its source and
  stages keep to the types they declare, and no output declared \<^verbatim>\<open>object\<close> feeds a narrower input, every sample it
  gives has the type its collation expects.
\<close>

theorem pipeline_type_sound:
  assumes "pipeline_post_init ct p = Inr ()"
  shows "(\<exists>decodes transforms. pi_sample_stages p = decodes @ transforms \<and> length decodes \<le> 1 \<and>
      (\<forall>s \<in> set decodes. \<exists>c b. sn_kind s = Decode_kind c b) \<and> (\<forall>s \<in> set transforms. sn_kind s = Transform_kind)) \<and>
    (instances_ok ct is_instance \<and> edges_declared ct p \<and> source_keeps is_instance (pi_source p) \<and>
       (\<forall>s \<in> set (pi_sample_stages p). stage_keeps is_instance s) \<and> pipeline_getitem p index = Inr v \<longrightarrow>
     is_instance v (sn_input_type (pi_collate_stage p)))"
proof -
  obtain out where out: "check_stages ct (so_output_type (pi_source p)) False False (pi_sample_stages p) = Inr out"
    "types_connect ct out (sn_input_type (pi_collate_stage p))"
    using assms by (auto simp: pipeline_post_init_def rbind_eq_Inr split: if_splits)
  show ?thesis
  proof (intro conjI impI)
    show "\<exists>decodes transforms. pi_sample_stages p = decodes @ transforms \<and> length decodes \<le> 1 \<and>
      (\<forall>s \<in> set decodes. \<exists>c b. sn_kind s = Decode_kind c b) \<and> (\<forall>s \<in> set transforms. sn_kind s = Transform_kind)"
      using check_stages_order [OF out(1)] by simp
    assume a: "instances_ok ct is_instance \<and> edges_declared ct p \<and> source_keeps is_instance (pi_source p) \<and>
       (\<forall>s \<in> set (pi_sample_stages p). stage_keeps is_instance s) \<and> pipeline_getitem p index = Inr v"
    then obtain u where "call_source (pi_source p) index = Inr u" "run_stages (pi_sample_stages p) u = Inr v"
      by (auto simp: pipeline_getitem_def rbind_eq_Inr)
    moreover from a this(1) have "is_instance u (so_output_type (pi_source p))" unfolding source_keeps_def by blast
    ultimately show "is_instance v (sn_input_type (pi_collate_stage p))"
      using a run_stages_typed [OF _ out, of is_instance u v] unfolding edges_declared_def by blast
  qed
qed

text \<open>Classes \<^verbatim>\<open>object\<close>, \<^verbatim>\<open>int\<close> and \<^verbatim>\<open>bool\<close> as 0, 1 and 2; values are integers, 0 and 1 the booleans.\<close>

definition sample_classes :: "nat class_table" where
  "sample_classes = \<lparr>ct_object = 0, ct_subclass = (\<lambda>a b. a = b \<or> b = 0 \<or> a = 2 \<and> b = 1)\<rparr>"

definition sample_instance :: "int \<Rightarrow> nat \<Rightarrow> bool" where
  "sample_instance v t \<longleftrightarrow> t = 0 \<or> t = 1 \<or> t = 2 \<and> (v = 0 \<or> v = 1)"

definition sample_stage :: "stage_kind \<Rightarrow> (int \<Rightarrow> int res) \<Rightarrow> nat \<Rightarrow> nat \<Rightarrow> (nat, int) stage" where
  "sample_stage kind f input out =
    \<lparr>sn_kind = kind, sn_fn = Some f, sn_input_type = input, sn_output_type = out, sn_io = ''none'',
     sn_thread_safety = ''isolated'', sn_cost_hint_ns = PNone\<rparr>"

definition sample_pipeline :: "nat \<Rightarrow> (nat, int) pipeline" where
  "sample_pipeline out =
    \<lparr>pi_source = \<lparr>so_getitem = Some (\<lambda>i. Inr (i * i)), so_call = None, so_output_type = 1, so_io = ''read'',
       so_thread_safety = ''isolated'', so_cost_hint_ns = PNone, so_length = None, so_provider_length = Some (PInt 9)\<rparr>,
     pi_sample_stages =
       [sample_stage (Decode_kind (Some ''png'') False) (\<lambda>v. Inr (v + 1)) 1 1,
        sample_stage Transform_kind (\<lambda>v. if out = 2 then Inr (v mod 2) else Inr v) 1 out],
     pi_collate_stage = sample_stage Collate_kind Inr 2 0\<rparr>"

theorem pipeline_type_sound_witness:
  "pipeline_post_init sample_classes (sample_pipeline 2) = Inr () \<and> pipeline_getitem (sample_pipeline 2) 4 = Inr 1 \<and> sample_instance 1 2"
proof -
  have ok: "pipeline_post_init sample_classes (sample_pipeline 2) = Inr ()"
    by (simp add: pipeline_post_init_def sample_pipeline_def sample_stage_def types_connect_def sample_classes_def)
  have run: "pipeline_getitem (sample_pipeline 2) 4 = Inr 1"
    by (simp add: pipeline_getitem_def sample_pipeline_def sample_stage_def call_source_def call_stage_def)
  have "instances_ok sample_classes sample_instance" "edges_declared sample_classes (sample_pipeline 2)"
    "source_keeps sample_instance (pi_source (sample_pipeline 2))"
    "\<forall>s \<in> set (pi_sample_stages (sample_pipeline 2)). stage_keeps sample_instance s"
    by (auto simp: instances_ok_def sample_classes_def sample_instance_def edges_declared_def sample_pipeline_def sample_stage_def
      source_keeps_def stage_keeps_def call_stage_def)
  with pipeline_type_sound [OF ok, of sample_instance 4 1] run have "sample_instance 1 2"
    by (auto simp: sample_pipeline_def sample_stage_def)
  with ok run show ?thesis by blast
qed

text \<open>With an output declared \<^verbatim>\<open>object\<close> the check lets a value of another type through.\<close>

lemma undeclared_edge_unsound:
  "pipeline_post_init sample_classes (sample_pipeline 0) = Inr () \<and> pipeline_getitem (sample_pipeline 0) 4 = Inr 17 \<and>
   \<not> sample_instance 17 (sn_input_type (pi_collate_stage (sample_pipeline 0)))"
  by (simp add: pipeline_post_init_def sample_pipeline_def sample_stage_def types_connect_def sample_classes_def
    pipeline_getitem_def call_source_def call_stage_def sample_instance_def)

section \<open>Decoder pins\<close>

text \<open>\<^verbatim>\<open>value.rpartition("@")\<close>: the parts around the last separator.\<close>

definition rpartition_at :: "char \<Rightarrow> string \<Rightarrow> (string \<times> string) option" where
  "rpartition_at c s =
    (case dropWhile (\<lambda>x. x \<noteq> c) (rev s) of
       [] \<Rightarrow> None
     | _ # before \<Rightarrow> Some (rev before, rev (takeWhile (\<lambda>x. x \<noteq> c) (rev s))))"

definition pin_value :: "pyval \<Rightarrow> (string \<times> string) res" where
  "pin_value v =
    (case (case v of
             PStr s \<Rightarrow> rpartition_at (CHR ''@'') s
           | PDict d \<Rightarrow> (case (pget d ''backend'', pget d ''version'') of (Some (PStr b), Some (PStr w)) \<Rightarrow> Some (b, w) | _ \<Rightarrow> None)
           | _ \<Rightarrow> None) of
       Some (backend, version) \<Rightarrow>
         if backend \<noteq> [] \<and> version \<noteq> [] then Inr (backend, version)
         else Inl (ValueError ''decoder pin values must name a nonempty backend and version'')
     | None \<Rightarrow> Inl (ValueError ''decoder pin values must name a nonempty backend and version''))"

definition decoder_overrides :: "(pyval \<Rightarrow> string) \<Rightarrow> pyval auto \<Rightarrow> (string, string \<times> string) dict res" where
  "decoder_overrides str configured =
    (case configured of
       AUTO \<Rightarrow> Inr []
     | Explicit (PDict d) \<Rightarrow>
         rmap (\<lambda>pairs. fold (\<lambda>(k, v). dict_set k v) pairs []) (rtraverse (\<lambda>(k, v). rmap (Pair (str k)) (pin_value v)) d)
     | _ \<Rightarrow> Inl (TypeError ''determinism.decoder_pins must be a mapping or auto''))"

type_synonym pin_table = "(string, (string, string \<times> string) dict) dict"

definition platform_pin :: "pin_table \<Rightarrow> string \<Rightarrow> string \<Rightarrow> (string \<times> string) res" where
  "platform_pin platforms platform codec =
    (case dict_get platforms platform of
       None \<Rightarrow> Inl (ValueError ''decoder substitution has no static table for platform'')
     | Some table \<Rightarrow>
         (case dict_get table codec of
            None \<Rightarrow> Inl (ValueError ''decoder substitution does not support codec'')
          | Some pin \<Rightarrow> Inr pin))"

record decoder_selection =
  dx_stage :: string
  dx_codec :: string
  dx_backend :: string
  dx_version :: string
  dx_platform :: string
  dx_source :: string
  dx_substituted :: bool

text \<open>
  One pipeline stage; \<open>user\<close> is the identity of a user's own decoder, its name and code hash.  The stages of the
  loop are numbered from \<open>index\<close>.
\<close>

definition select_stage ::
    "pin_table \<Rightarrow> (string, string \<times> string) dict \<Rightarrow> (nat \<Rightarrow> string \<times> string) \<Rightarrow> (nat \<Rightarrow> string) \<Rightarrow> string \<Rightarrow> nat \<Rightarrow>
     string option \<Rightarrow> bool \<Rightarrow> (decoder_selection \<times> string list) res" where
  "select_stage pins overrides user stage_name platform index codec substitute =
    (if substitute then
       let codec = (case codec of None \<Rightarrow> '''' | Some c \<Rightarrow> c);
           key = (if stage_name index \<in> dict_keys overrides then stage_name index else codec)
       in case dict_get overrides key of
            Some (backend, version) \<Rightarrow>
              Inr (\<lparr>dx_stage = stage_name index, dx_codec = codec, dx_backend = backend, dx_version = version,
                    dx_platform = platform, dx_source = ''configured'', dx_substituted = True\<rparr>, [key])
          | None \<Rightarrow>
              rmap (\<lambda>(backend, version).
                (\<lparr>dx_stage = stage_name index, dx_codec = codec, dx_backend = backend, dx_version = version,
                  dx_platform = platform, dx_source = ''platform-table'', dx_substituted = True\<rparr>, []))
              (platform_pin pins platform codec)
     else
       Inr (\<lparr>dx_stage = stage_name index, dx_codec = (case codec of None \<Rightarrow> ''custom'' | Some c \<Rightarrow> if c = [] then ''custom'' else c),
             dx_backend = fst (user index), dx_version = snd (user index), dx_platform = platform,
             dx_source = ''user-callable'', dx_substituted = False\<rparr>, []))"

fun select_stages ::
    "pin_table \<Rightarrow> (string, string \<times> string) dict \<Rightarrow> (nat \<Rightarrow> string \<times> string) \<Rightarrow> (nat \<Rightarrow> string) \<Rightarrow> string \<Rightarrow> nat \<Rightarrow> stage_kind list \<Rightarrow>
     (decoder_selection list \<times> string list) res" where
  "select_stages pins overrides user stage_name platform index [] = Inr ([], [])"
| "select_stages pins overrides user stage_name platform index (kind # kinds) =
    (case kind of
       Decode_kind codec substitute \<Rightarrow>
         rbind
           (select_stage pins overrides user stage_name platform index codec substitute)
           (\<lambda>(selection, used). rmap (\<lambda>(selections, consumed). (selection # selections, used @ consumed))
              (select_stages pins overrides user stage_name platform (Suc index) kinds))
     | _ \<Rightarrow> select_stages pins overrides user stage_name platform (Suc index) kinds)"

definition select_decoder_pins ::
    "pin_table \<Rightarrow> (pyval \<Rightarrow> string) \<Rightarrow> (nat \<Rightarrow> string \<times> string) \<Rightarrow> (nat \<Rightarrow> string) \<Rightarrow> string \<Rightarrow> pyval auto \<Rightarrow> stage_kind list option \<Rightarrow>
     decoder_selection list res" where
  "select_decoder_pins pins str user stage_name platform configured kinds =
    rbind (decoder_overrides str configured) (\<lambda>overrides.
    rbind (case kinds of None \<Rightarrow> Inr ([], []) | Some ks \<Rightarrow> select_stages pins overrides user stage_name platform 0 ks) (\<lambda>(selections, consumed).
      if filter (\<lambda>k. k \<notin> set consumed) (map fst overrides) \<noteq> []
      then Inl (ValueError ''decoder pin overrides did not match substituted stages'')
      else Inr selections))"

definition selection_justified :: "pin_table \<Rightarrow> (string, string \<times> string) dict \<Rightarrow> (nat \<Rightarrow> string \<times> string) \<Rightarrow> string \<Rightarrow> decoder_selection \<Rightarrow> bool" where
  "selection_justified pins overrides user platform d \<longleftrightarrow>
    dx_platform d = platform \<and>
    (if \<not> dx_substituted d then (\<exists>i. (dx_backend d, dx_version d) = user i)
     else if dx_source d = ''configured''
     then dict_get overrides (dx_stage d) = Some (dx_backend d, dx_version d) \<or>
       dict_get overrides (dx_stage d) = None \<and> dict_get overrides (dx_codec d) = Some (dx_backend d, dx_version d)
     else platform_pin pins platform (dx_codec d) = Inr (dx_backend d, dx_version d) \<and> dict_get overrides (dx_stage d) = None \<and>
       dict_get overrides (dx_codec d) = None)"

lemma select_stage_ok:
  assumes "select_stage pins overrides user stage_name platform index codec substitute = Inr (d, used)"
  shows "selection_justified pins overrides user platform d \<and>
    (\<forall>k \<in> set used. dx_source d = ''configured'' \<and> k \<in> {dx_stage d, dx_codec d})"
proof (cases substitute)
  case False
  with assms show ?thesis
    by (auto simp: select_stage_def selection_justified_def intro!: exI [of _ index])
next
  case True
  with assms show ?thesis
    by (auto simp: select_stage_def selection_justified_def Let_def rmap_eq_Inr dict_get_None
      split: if_splits option.splits dest: dict_get_keys)
qed

lemma select_stages_ok:
  "select_stages pins overrides user stage_name platform index kinds = Inr (selections, consumed) \<Longrightarrow>
   list_all (selection_justified pins overrides user platform) selections \<and>
   length selections = length (filter (\<lambda>k. \<exists>c b. k = Decode_kind c b) kinds) \<and>
   (\<forall>k \<in> set consumed. \<exists>d \<in> set selections. dx_source d = ''configured'' \<and> k \<in> {dx_stage d, dx_codec d})"
proof (induction kinds arbitrary: index selections consumed)
  case (Cons kind kinds)
  show ?case
  proof (cases "\<exists>c b. kind = Decode_kind c b")
    case False
    then have "select_stages pins overrides user stage_name platform (Suc index) kinds = Inr (selections, consumed)"
      using Cons.prems by (cases kind) auto
    with Cons.IH False show ?thesis by auto
  next
    case True
    then obtain codec substitute where kind: "kind = Decode_kind codec substitute" by blast
    from Cons.prems obtain d used ds rest where
      one: "select_stage pins overrides user stage_name platform index codec substitute = Inr (d, used)" and
      out: "selections = d # ds" "consumed = used @ rest"
        "select_stages pins overrides user stage_name platform (Suc index) kinds = Inr (ds, rest)"
      by (auto simp: kind rbind_eq_Inr rmap_eq_Inr)
    note d = select_stage_ok [OF one]
    from Cons.IH [OF out(3)] d True show ?thesis by (auto simp: out)
  qed
qed simp

text \<open>
  The decoders of a pipeline are pinned exactly: every decode stage has one selection, taken from the configured
  override of the stage, else of its codec, else from the table of the platform, or is the user's own function; and no
  configured override is silently ignored.
\<close>

theorem decoder_pins_exact:
  assumes "select_decoder_pins pins str user stage_name platform configured kinds = Inr selections"
  shows "\<exists>overrides. decoder_overrides str configured = Inr overrides \<and>
    list_all (selection_justified pins overrides user platform) selections \<and>
    length selections = length (filter (\<lambda>k. \<exists>c b. k = Decode_kind c b) (case kinds of None \<Rightarrow> [] | Some ks \<Rightarrow> ks)) \<and>
    (\<forall>k \<in> dict_keys overrides. \<exists>d \<in> set selections. dx_source d = ''configured'' \<and> k \<in> {dx_stage d, dx_codec d})"
proof -
  obtain overrides consumed where o: "decoder_overrides str configured = Inr overrides"
    "(case kinds of None \<Rightarrow> Inr ([], []) | Some ks \<Rightarrow> select_stages pins overrides user stage_name platform 0 ks) = Inr (selections, consumed)"
    "filter (\<lambda>k. k \<notin> set consumed) (map fst overrides) = []"
    using assms by (auto simp: select_decoder_pins_def rbind_eq_Inr split: if_splits prod.splits)
  have "dict_keys overrides \<subseteq> set consumed" using o(3) by (auto simp: dict_keys_def filter_empty_conv)
  with o(1,2) select_stages_ok [of pins overrides user stage_name platform 0 _ selections consumed] show ?thesis
    by (cases kinds) fastforce+
qed

end
