(* ===== verification/Verify.thy ===== *)
theory Verify
  imports PyValue "HOL-Library.Word"
begin

text \<open>
  The evidence that a dataset may run in threads (\<^verbatim>\<open>verify.py\<close>): its samples from worker processes and from
  threads, compared bit by bit.  A float is its 64 bits, a tensor or array what the code compares of it; Python's
  \<^verbatim>\<open>==\<close> of keys and of other objects is an argument.
\<close>

section \<open>Bit equality\<close>

text \<open>Containers and other objects carry their class.\<close>

datatype sample =
    SFloat "64 word"
  | SInt int | SBool bool | SStr string | SBytes string | SNone
  | SMapping nat "(sample \<times> sample) list"
  | SSequence nat "sample list"
  | STensor nat string      \<comment> \<open>\<^verbatim>\<open>_tensor_identity\<close>\<close>
  | SArray nat string       \<comment> \<open>dtype, shape, strides and bytes\<close>
  | SObject nat nat

text \<open>\<open>key_eq\<close> compares keys; \<open>object_eq\<close> is \<^const>\<open>None\<close> when the comparison raises.\<close>

fun bit_equal :: "(sample \<Rightarrow> sample \<Rightarrow> bool) \<Rightarrow> (nat \<Rightarrow> nat \<Rightarrow> bool option) \<Rightarrow> sample \<Rightarrow> sample \<Rightarrow> bool"
  and all_bit_equal :: "(sample \<Rightarrow> sample \<Rightarrow> bool) \<Rightarrow> (nat \<Rightarrow> nat \<Rightarrow> bool option) \<Rightarrow> sample list \<Rightarrow> sample list \<Rightarrow> bool"
  and all_items_equal :: "(sample \<Rightarrow> sample \<Rightarrow> bool) \<Rightarrow> (nat \<Rightarrow> nat \<Rightarrow> bool option) \<Rightarrow> (sample \<times> sample) list \<Rightarrow> (sample \<times> sample) list \<Rightarrow> bool" where
  "bit_equal ke oe (SMapping c xs) right = (case right of SMapping d ys \<Rightarrow> c = d \<and> all_items_equal ke oe xs ys | _ \<Rightarrow> False)"
| "bit_equal ke oe (SSequence c xs) right = (case right of SSequence d ys \<Rightarrow> c = d \<and> all_bit_equal ke oe xs ys | _ \<Rightarrow> False)"
| "bit_equal ke oe (SObject c a) right = (case right of SObject d b \<Rightarrow> c = d \<and> oe a b = Some True | _ \<Rightarrow> False)"
| "bit_equal ke oe (SFloat a) right = (right = SFloat a)"
| "bit_equal ke oe (SInt a) right = (right = SInt a)"
| "bit_equal ke oe (SBool a) right = (right = SBool a)"
| "bit_equal ke oe (SStr a) right = (right = SStr a)"
| "bit_equal ke oe (SBytes a) right = (right = SBytes a)"
| "bit_equal ke oe SNone right = (right = SNone)"
| "bit_equal ke oe (STensor c a) right = (right = STensor c a)"
| "bit_equal ke oe (SArray c a) right = (right = SArray c a)"
| "all_bit_equal ke oe [] ys = (ys = [])"
| "all_bit_equal ke oe (x # xs) ys = (case ys of [] \<Rightarrow> False | y # ys \<Rightarrow> bit_equal ke oe x y \<and> all_bit_equal ke oe xs ys)"
| "all_items_equal ke oe [] ys = (ys = [])"
| "all_items_equal ke oe ((k, v) # xs) ys =
    (case ys of [] \<Rightarrow> False | (k', v') # ys \<Rightarrow> ke k k' \<and> bit_equal ke oe v v' \<and> all_items_equal ke oe xs ys)"

fun first_mismatch_from :: "(sample \<Rightarrow> sample \<Rightarrow> bool) \<Rightarrow> (nat \<Rightarrow> nat \<Rightarrow> bool option) \<Rightarrow> nat \<Rightarrow> sample list \<Rightarrow> sample list \<Rightarrow> nat option" where
  "first_mismatch_from ke oe n (x # xs) (y # ys) =
    (if \<not> bit_equal ke oe x y then Some n else first_mismatch_from ke oe (Suc n) xs ys)"
| "first_mismatch_from ke oe n _ _ = None"

definition first_mismatch :: "(sample \<Rightarrow> sample \<Rightarrow> bool) \<Rightarrow> (nat \<Rightarrow> nat \<Rightarrow> bool option) \<Rightarrow> sample list \<Rightarrow> sample list \<Rightarrow> nat option" where
  "first_mismatch ke oe left right =
    (case first_mismatch_from ke oe 0 left right of
       Some n \<Rightarrow> Some n
     | None \<Rightarrow> if length left = length right then None else Some (min (length left) (length right)))"

section \<open>The report\<close>

record verification =
  ve_bit_exact :: bool
  ve_compared_samples :: nat
  ve_first_mismatch :: "nat option"

definition check_count :: "string \<Rightarrow> int \<Rightarrow> string \<Rightarrow> pyval \<Rightarrow> int res" where
  "check_count name least message v =
    (case v of
       PInt i \<Rightarrow> if i < least then Inl (ValueError (name @ message)) else Inr i
     | _ \<Rightarrow> Inl (TypeError (name @ '' must be an integer'')))"

text \<open>The loaders are arguments: the samples a tier gives, in order, and the exception that ends them, if one does.\<close>

definition islice :: "int \<Rightarrow> sample list \<times> py_error option \<Rightarrow> sample list res" where
  "islice n run =
    (case run of (xs, e) \<Rightarrow>
      if nat n \<le> length xs then Inr (take (nat n) xs) else case e of None \<Rightarrow> Inr xs | Some e \<Rightarrow> Inl e)"

definition verify ::
    "(sample \<Rightarrow> sample \<Rightarrow> bool) \<Rightarrow> (nat \<Rightarrow> nat \<Rightarrow> bool option) \<Rightarrow> (int \<Rightarrow> int \<Rightarrow> sample list \<times> py_error option) \<Rightarrow>
     (int \<Rightarrow> int \<Rightarrow> sample list \<times> py_error option) \<Rightarrow>
     int \<Rightarrow> pyval \<Rightarrow> pyval \<Rightarrow> verification res" where
  "verify ke oe process threaded seed samples num_workers =
    rbind (check_count ''samples'' 0 '' must be nonnegative'' samples) (\<lambda>n.
    rbind (check_count ''num_workers'' 1 '' must be positive'' num_workers) (\<lambda>workers.
    rbind (islice n (process seed workers)) (\<lambda>left.
    rbind (islice n (threaded seed workers)) (\<lambda>right.
      let mismatch = first_mismatch ke oe left right in
      Inr \<lparr>ve_bit_exact = (mismatch = None), ve_compared_samples = min (length left) (length right),
           ve_first_mismatch = mismatch\<rparr>))))"

section \<open>What a report means\<close>

lemma first_mismatch_from_None:
  "first_mismatch_from ke oe n xs ys = None \<Longrightarrow>
   list_all2 (bit_equal ke oe) (take (min (length xs) (length ys)) xs) (take (min (length xs) (length ys)) ys)"
  by (induction ke oe n xs ys rule: first_mismatch_from.induct) (simp_all split: if_splits)

lemma first_mismatch_from_Some:
  "first_mismatch_from ke oe n xs ys = Some k \<Longrightarrow>
   \<exists>i. k = n + i \<and> i < min (length xs) (length ys) \<and> list_all2 (bit_equal ke oe) (take i xs) (take i ys) \<and>
     \<not> bit_equal ke oe (xs ! i) (ys ! i)"
proof (induction ke oe n xs ys rule: first_mismatch_from.induct)
  case (1 ke oe n x xs y ys)
  show ?case
  proof (cases "bit_equal ke oe x y")
    case False
    with 1(2) show ?thesis by (intro exI [of _ 0]) simp
  next
    case True
    with 1 obtain i where "k = Suc n + i" "i < min (length xs) (length ys)" "list_all2 (bit_equal ke oe) (take i xs) (take i ys)"
      "\<not> bit_equal ke oe (xs ! i) (ys ! i)" by (auto split: if_splits)
    with True show ?thesis by (intro exI [of _ "Suc i"]) simp
  qed
qed simp_all

text \<open>
  A report that two tiers agree means that they gave equally many samples and that every pair is equal bit by bit; one
  that they differ names the first sample where they do, or where one of them ends.
\<close>

theorem verify_report_exact:
  assumes "verify ke oe process threaded seed (PInt n) (PInt workers) = Inr report"
  shows "\<exists>left right. islice n (process seed workers) = Inr left \<and> islice n (threaded seed workers) = Inr right \<and>
    (ve_bit_exact report \<longleftrightarrow> list_all2 (bit_equal ke oe) left right) \<and>
    (case ve_first_mismatch report of
       None \<Rightarrow> ve_bit_exact report
     | Some k \<Rightarrow> list_all2 (bit_equal ke oe) (take k left) (take k right) \<and>
         (k < length left \<and> k < length right \<and> \<not> bit_equal ke oe (left ! k) (right ! k) \<or>
          k = min (length left) (length right) \<and> length left \<noteq> length right))"
proof -
  obtain left right where lr: "islice n (process seed workers) = Inr left" "islice n (threaded seed workers) = Inr right"
    and report: "report = \<lparr>ve_bit_exact = (first_mismatch ke oe left right = None),
      ve_compared_samples = min (length left) (length right), ve_first_mismatch = first_mismatch ke oe left right\<rparr>"
    using assms by (auto simp: verify_def rbind_eq_Inr check_count_def Let_def split: if_splits)
  show ?thesis
  proof (cases "first_mismatch_from ke oe 0 left right")
    case None
    from first_mismatch_from_None [OF None] show ?thesis
      by (intro exI [of _ left] exI [of _ right])
        (auto simp: lr report first_mismatch_def None min_def dest: list_all2_lengthD)
  next
    case (Some k)
    from first_mismatch_from_Some [OF Some] have k: "k < length left" "k < length right"
      "list_all2 (bit_equal ke oe) (take k left) (take k right)" "\<not> bit_equal ke oe (left ! k) (right ! k)" by auto
    then have "\<not> list_all2 (bit_equal ke oe) left right" by (auto dest: list_all2_nthD)
    with k show ?thesis
      by (intro exI [of _ left] exI [of _ right]) (auto simp: lr report first_mismatch_def Some)
  qed
qed

theorem verify_report_exact_witness:
  "\<exists>report. verify (=) (\<lambda>_ _. None) (\<lambda>_ _. ([SInt 1, SFloat 0, SNone], None)) (\<lambda>_ _. ([SInt 1, SFloat 9223372036854775808], None))
     7 (PInt 2) (PInt 2) = Inr report \<and> ve_first_mismatch report = Some 1 \<and> \<not> ve_bit_exact report"
proof -
  let ?run = "verify (=) (\<lambda>_ _. None) (\<lambda>_ _. ([SInt 1, SFloat 0, SNone], None)) (\<lambda>_ _. ([SInt 1, SFloat 9223372036854775808], None)) 7 (PInt 2) (PInt 2)"
  obtain report where run: "?run = Inr report" "ve_first_mismatch report = Some 1"
    by (simp add: verify_def check_count_def islice_def first_mismatch_def Let_def)
  from verify_report_exact [OF run(1)] run show ?thesis by (auto simp: islice_def numeral_2_eq_2)
qed

end
