(* ===== verification/Oracle.thy ===== *)
theory Oracle
  imports Placement Digest PyValue
begin

text \<open>
  The reference engine of the repository (\<^verbatim>\<open>src/oracles/contract-vectors/reference.py\<close>), written apart from the package:
  the generator, the permutation, the placement and the document of test vectors made of them.  The package's functions
  are shown to be the reference's; where a domain is refused only the message differs.
\<close>

unbundle bit_operations_syntax

section \<open>Words and blocks\<close>

definition PERM_STREAM :: int where "PERM_STREAM = 2"
definition PERM_FUNCTION_STREAM :: int where "PERM_FUNCTION_STREAM = 3"
definition FISHER_YATES_ROUND_WORD :: int where "FISHER_YATES_ROUND_WORD = 8"

definition ref_splitmix64 :: "int \<Rightarrow> int" where
  "ref_splitmix64 v =
    (let v = v AND MASK64;
         v = v XOR drop_bit 30 v;
         v = (v * 0xBF58476D1CE4E5B9) AND MASK64;
         v = v XOR drop_bit 27 v;
         v = (v * 0x94D049BB133111EB) AND MASK64
     in v XOR drop_bit 31 v)"

definition ref_key64 :: "int \<Rightarrow> int \<Rightarrow> int" where
  "ref_key64 root_seed epoch =
    ref_splitmix64 root_seed XOR ref_splitmix64 ((push_bit 32 epoch OR 0x9E37) AND MASK64)"

text \<open>The rounds to run, the words and the key.\<close>

fun ref_rounds :: "nat list \<Rightarrow> block \<Rightarrow> int \<Rightarrow> int \<Rightarrow> block" where
  "ref_rounds [] ws key0 key1 = ws"
| "ref_rounds (round_index # rest) (w0, w1, w2, w3) key0 key1 =
    (let product0 = PHILOX_M0 * w0;
         product1 = PHILOX_M1 * w2;
         ws = ((drop_bit 32 product1 XOR w1 XOR key0) AND MASK32, product1 AND MASK32,
               (drop_bit 32 product0 XOR w3 XOR key1) AND MASK32, product0 AND MASK32)
     in if round_index \<noteq> 9 then ref_rounds rest ws ((key0 + PHILOX_W0) AND MASK32) ((key1 + PHILOX_W1) AND MASK32)
        else ref_rounds rest ws key0 key1)"

definition ref_philox4x32_10 :: "block \<Rightarrow> int \<times> int \<Rightarrow> block" where
  "ref_philox4x32_10 counter key =
    (case counter of (c0, c1, c2, c3) \<Rightarrow>
       ref_rounds [0..<10] (c0 AND MASK32, c1 AND MASK32, c2 AND MASK32, c3 AND MASK32) (fst key AND MASK32) (snd key AND MASK32))"

definition ref_block :: "int \<Rightarrow> int \<Rightarrow> int \<Rightarrow> int \<Rightarrow> int \<Rightarrow> block" where
  "ref_block root_seed epoch coord draw_index stream_id =
    (let derived_key = ref_key64 root_seed epoch in
     ref_philox4x32_10 (coord AND MASK32, draw_index, stream_id, drop_bit 32 coord AND MASK32)
       (derived_key AND MASK32, drop_bit 32 derived_key))"

section \<open>Permutations\<close>

definition ref_permutation_key :: "int \<Rightarrow> int \<Rightarrow> int \<times> int" where
  "ref_permutation_key root_seed epoch =
    (let folded = ref_splitmix64 (ref_key64 root_seed epoch XOR (push_bit 1 PERM_STREAM OR 1))
     in (folded AND MASK32, drop_bit 32 folded))"

text \<open>Both halves and both widths, exchanged by every round.\<close>

fun ref_feistel_rounds :: "int \<times> int \<Rightarrow> nat list \<Rightarrow> int \<times> int \<times> nat \<times> nat \<Rightarrow> int \<times> int" where
  "ref_feistel_rounds key [] (high, low, high_width, low_width) = (high, low)"
| "ref_feistel_rounds key (round_index # rest) (high, low, high_width, low_width) =
    (let mask = push_bit high_width 1 - 1;
         function = fst (ref_philox4x32_10 (low, int round_index, PERM_FUNCTION_STREAM, 0) key) AND mask
     in ref_feistel_rounds key rest (low, (high + function) AND mask, low_width, high_width))"

definition ref_pass :: "nat \<Rightarrow> nat \<Rightarrow> int \<times> int \<Rightarrow> int \<Rightarrow> int" where
  "ref_pass bits lower_width key candidate =
    (case ref_feistel_rounds key [0..<8]
        (drop_bit lower_width candidate, candidate AND (push_bit lower_width 1 - 1), bits - lower_width, lower_width) of
       (high, low) \<Rightarrow> push_bit lower_width high OR low)"

definition ref_feistel_permute :: "int \<Rightarrow> int \<Rightarrow> int \<Rightarrow> int \<Rightarrow> int run" where
  "ref_feistel_permute root_seed epoch domain position =
    (if domain < FEISTEL_THRESHOLD \<or> \<not> (0 \<le> position \<and> position < domain)
     then Some (Inl (ValueError ''invalid Feistel domain or position''))
     else
       let bits = bit_length (domain - 1) in
       map_option Inr (cycle_walk (ref_pass bits (bits div 2) (ref_permutation_key root_seed epoch)) domain position))"

partial_function (option) ref_draw :: "int \<times> int \<Rightarrow> int \<Rightarrow> int \<Rightarrow> int \<Rightarrow> (int \<times> int) option" where
  "ref_draw key upper limit draw_ordinal =
    (let word = fst (ref_philox4x32_10 (draw_ordinal, FISHER_YATES_ROUND_WORD, PERM_FUNCTION_STREAM, 0) key) in
     if word < limit then Some (word mod upper, draw_ordinal + 1) else ref_draw key upper limit (draw_ordinal + 1))"

fun ref_shuffle :: "int \<times> int \<Rightarrow> int list \<Rightarrow> int list \<Rightarrow> int \<Rightarrow> (int list \<times> int) option" where
  "ref_shuffle key [] permutation draw_ordinal = Some (permutation, draw_ordinal)"
| "ref_shuffle key (upper # uppers) permutation draw_ordinal =
    (case ref_draw key upper (push_bit 32 1 - push_bit 32 1 mod upper) draw_ordinal of
       None \<Rightarrow> None
     | Some (selected, draw_ordinal) \<Rightarrow>
         ref_shuffle key uppers
           (permutation[nat (upper - 1) := permutation ! nat selected, nat selected := permutation ! nat (upper - 1)]) draw_ordinal)"

definition ref_materialized_permutation :: "int \<Rightarrow> int \<Rightarrow> int \<Rightarrow> (int list \<times> int) run" where
  "ref_materialized_permutation root_seed epoch domain =
    (if \<not> (0 \<le> domain \<and> domain < FEISTEL_THRESHOLD) then Some (Inl (ValueError ''invalid materialized domain''))
     else map_option Inr (ref_shuffle (ref_permutation_key root_seed epoch) (rev (irange 2 (domain + 1))) (irange 0 domain) 0))"

definition ref_permutation_index :: "int \<Rightarrow> int \<Rightarrow> int \<Rightarrow> int \<Rightarrow> int run" where
  "ref_permutation_index root_seed epoch domain position =
    (if \<not> (0 \<le> position \<and> position < domain) then Some (Inl (ValueError ''invalid permutation position''))
     else if domain < FEISTEL_THRESHOLD
     then obind (ref_materialized_permutation root_seed epoch domain) (\<lambda>(permutation, _). Some (Inr (permutation ! nat position)))
     else ref_feistel_permute root_seed epoch domain position)"

section \<open>Placement\<close>

text \<open>\<^verbatim>\<open>range(0, stop, step)\<close> for a positive step.\<close>

definition stepped :: "int \<Rightarrow> int \<Rightarrow> int list" where
  "stepped stop step = map (\<lambda>k. k * step) (irange 0 ((stop + step - 1) div step))"

definition ref_map_index :: "int \<Rightarrow> int \<Rightarrow> int \<Rightarrow> int list option \<Rightarrow> int \<Rightarrow> int run" where
  "ref_map_index root_seed epoch dataset_len small position =
    (case small of
       Some permutation \<Rightarrow> Some (Inr (permutation ! nat position))
     | None \<Rightarrow> ref_feistel_permute root_seed epoch dataset_len position)"

definition ref_rank_placements ::
    "int \<Rightarrow> int \<Rightarrow> int \<Rightarrow> int \<Rightarrow> int \<Rightarrow> int \<Rightarrow> bool \<Rightarrow> bool \<Rightarrow> (int \<times> int) list run" where
  "ref_rank_placements root_seed epoch dataset_len batch_size world_size rank drop_last exact_count =
    (if batch_size \<le> 0 \<or> world_size \<le> 0 \<or> \<not> (0 \<le> rank \<and> rank < world_size)
     then Some (Inl (ValueError ''invalid placement configuration''))
     else if dataset_len = 0 then Some (Inr [])
     else
       obind
         (if dataset_len < FEISTEL_THRESHOLD
          then obind (ref_materialized_permutation root_seed epoch dataset_len) (\<lambda>(permutation, _). Some (Inr (Some permutation)))
          else Some (Inr None)) (\<lambda>small.
       let global_batch = batch_size * world_size;
           full_end = dataset_len div global_batch * global_batch;
           regular_end = (if drop_last \<or> exact_count then full_end
                          else (dataset_len + global_batch - 1) div global_batch * global_batch);
           item = (\<lambda>(position, perm_position).
             obind (ref_map_index root_seed epoch dataset_len small perm_position) (\<lambda>index. Some (Inr (position, index))));
           regular = concat (map (\<lambda>batch_start.
             let rank_start = batch_start + rank * batch_size in
             map (\<lambda>position. (position, if position < dataset_len then position else (position - dataset_len) mod dataset_len))
               (irange rank_start (rank_start + batch_size))) (stepped regular_end global_batch));
           tail_size = dataset_len - full_end;
           tail = (if exact_count \<and> \<not> drop_last
                   then map (\<lambda>position. (position, position))
                     (irange (full_end + rank * tail_size div world_size) (full_end + (rank + 1) * tail_size div world_size))
                   else [])
       in otraverse item (regular @ tail)))"

section \<open>The package computes what the reference computes\<close>

lemma ref_splitmix64_eq [simp]: "ref_splitmix64 = splitmix64"
  by (simp add: ref_splitmix64_def splitmix64_def fun_eq_iff Let_def)

lemma ref_key64_eq [simp]: "ref_key64 = key64"
  by (simp add: ref_key64_def key64_def epoch_tag_def fun_eq_iff)

lemma ref_rounds_eq: "ref_rounds rs ws key0 key1 = fst (fold philox_round rs (ws, key0, key1))"
  by (induction rs ws key0 key1 rule: ref_rounds.induct) (simp_all add: Let_def philox_round.simps)

lemma ref_philox_eq [simp]: "ref_philox4x32_10 = philox4x32_10"
  by (simp add: ref_philox4x32_10_def philox4x32_10_def ref_rounds_eq Let_def fun_eq_iff del: and_MASK32)

lemma ref_permutation_key_eq [simp]: "ref_permutation_key = permutation_key"
  by (simp add: ref_permutation_key_def permutation_key_def PERM_STREAM_def Let_def fun_eq_iff)

lemma ref_feistel_rounds_eq:
  "high_width + low_width = bits \<Longrightarrow>
   ref_feistel_rounds key rs (high, low, high_width, low_width) =
     (case fold (feistel_round bits key) rs (high, low, high_width) of (h, l, _) \<Rightarrow> (h, l))"
  by (induction rs arbitrary: high low high_width low_width) (auto simp: Let_def PERM_FUNCTION_STREAM_def feistel_round.simps)

lemma ref_pass_eq: "ref_pass bits (bits div 2) key = feistel_pass bits key"
  by (rule ext)
    (simp add: ref_pass_def feistel_pass_def Let_def ref_feistel_rounds_eq [where bits = bits] split: prod.splits)

lemmas draw_bodies = Let_def draw_word_def FISHER_YATES_ROUND_WORD_def PERM_FUNCTION_STREAM_def

lemma draw_below_ref:
  assumes "draw_below key upper ordinal = Some r"
  shows "ref_draw key upper (draw_limit upper) ordinal = Some r"
proof (rule draw_below.raw_induct [where P = "\<lambda>key upper ordinal r. ref_draw key upper (draw_limit upper) ordinal = Some r", OF _ assms])
  fix f key upper ordinal r
  assume "\<And>key upper ordinal r. f key upper ordinal = Some r \<Longrightarrow> ref_draw key upper (draw_limit upper) ordinal = Some r"
    and "(let word = draw_word key ordinal in if word < draw_limit upper
           then Some (word mod upper, ordinal + 1) else f key upper (ordinal + 1)) = Some r"
  then show "ref_draw key upper (draw_limit upper) ordinal = Some r"
    by (subst ref_draw.simps) (auto simp: draw_bodies simp del: mod_less split: if_splits)
qed

lemma ref_draw_package:
  assumes "ref_draw key upper (draw_limit upper) ordinal = Some r"
  shows "draw_below key upper ordinal = Some r"
proof -
  have "l = draw_limit upper \<longrightarrow> draw_below key upper ordinal = Some r" if run: "ref_draw key upper l ordinal = Some r" for l
  proof (rule ref_draw.raw_induct [where P = "\<lambda>key upper l ordinal r. l = draw_limit upper \<longrightarrow> draw_below key upper ordinal = Some r", OF _ run])
    fix f key upper l ordinal r
    assume "\<And>key upper l ordinal r. f key upper l ordinal = Some r \<Longrightarrow> l = draw_limit upper \<longrightarrow> draw_below key upper ordinal = Some r"
      and "(let word = fst (ref_philox4x32_10 (ordinal, FISHER_YATES_ROUND_WORD, PERM_FUNCTION_STREAM, 0) key) in
            if word < l then Some (word mod upper, ordinal + 1) else f key upper l (ordinal + 1)) = Some r"
    then show "l = draw_limit upper \<longrightarrow> draw_below key upper ordinal = Some r"
      by (subst draw_below.simps) (auto simp: draw_bodies simp del: mod_less split: if_splits)
  qed
  with assms show ?thesis by blast
qed

lemma ref_draw_below: "ref_draw key upper (draw_limit upper) ordinal = draw_below key upper ordinal"
  using draw_below_ref [of key upper ordinal] ref_draw_package [of key upper ordinal]
  by (cases "draw_below key upper ordinal"; cases "ref_draw key upper (draw_limit upper) ordinal") auto

lemma ref_shuffle_eq: "map_option fst (ref_shuffle key uppers permutation ordinal) = fisher_yates key uppers permutation ordinal"
proof (induction uppers arbitrary: permutation ordinal)
  case (Cons upper uppers)
  have "ref_draw key upper (push_bit 32 1 - push_bit 32 1 mod upper) ordinal = draw_below key upper ordinal"
    using ref_draw_below by (simp only: draw_limit_def)
  with Cons show ?case by (cases "draw_below key upper ordinal") (auto simp: swap_slots_def)
qed simp

text \<open>The same value, both a \<^verbatim>\<open>ValueError\<close>, or neither returns.\<close>

fun same_outcome :: "'a run \<Rightarrow> 'a run \<Rightarrow> bool" where
  "same_outcome None r = (r = None)"
| "same_outcome (Some (Inr v)) r = (r = Some (Inr v))"
| "same_outcome (Some (Inl e)) r = (\<exists>m n. e = ValueError m \<and> r = Some (Inl (ValueError n)))"

lemma feistel_same: "same_outcome (feistel_permute root_seed epoch domain position) (ref_feistel_permute root_seed epoch domain position)"
  by (cases "cycle_walk (feistel_pass (bit_length (domain - 1)) (permutation_key root_seed epoch)) domain position")
    (simp_all add: feistel_permute_def ref_feistel_permute_def ref_pass_eq Let_def)

lemma materialized_same:
  "same_outcome (materialized_permutation root_seed epoch domain)
    (map_option (rmap fst) (ref_materialized_permutation root_seed epoch domain))"
proof -
  let ?shuffle = "ref_shuffle (permutation_key root_seed epoch) (rev (irange 2 (domain + 1))) (irange 0 domain) 0"
  have "fisher_yates (permutation_key root_seed epoch) (rev (irange 2 (domain + 1))) (irange 0 domain) 0 = map_option fst ?shuffle"
    by (simp add: ref_shuffle_eq)
  then show ?thesis by (cases ?shuffle) (auto simp: materialized_permutation_def ref_materialized_permutation_def)
qed

lemma obind_assoc: "obind (obind m f) g = obind m (\<lambda>v. obind (f v) g)"
  by (cases m rule: option.exhaust; cases "the m") auto

lemma same_outcome_obind:
  "same_outcome m n \<Longrightarrow> (\<And>v. same_outcome (f v) (g v)) \<Longrightarrow> same_outcome (obind m f) (obind n g)"
  by (cases m rule: option.exhaust; cases "the m") auto

lemma same_outcome_otraverse: "(\<And>x. same_outcome (f x) (g x)) \<Longrightarrow> same_outcome (otraverse f xs) (otraverse g xs)"
  by (induction xs) (auto intro!: same_outcome_obind)

lemma same_outcome_first:
  assumes "same_outcome m (map_option (rmap fst) n)" "\<And>a b. same_outcome (f a) (g (a, b))"
  shows "same_outcome (obind m f) (obind n g)"
  using assms by (cases n rule: option.exhaust; cases "the n"; cases m rule: option.exhaust; cases "the m") auto

lemma permutation_index_same:
  "same_outcome (permutation_index root_seed epoch domain position) (ref_permutation_index root_seed epoch domain position)"
  by (auto simp: permutation_index_def ref_permutation_index_def feistel_same intro!: same_outcome_first [OF materialized_same])

lemma stepped_multiple: "0 < step \<Longrightarrow> stepped (q * step) step = map (\<lambda>k. k * step) (irange 0 q)"
  using ceil_div [of step "q * step"] by (simp add: stepped_def)

lemma stepped_regular_end:
  assumes "0 < step"
  shows "stepped (if c then q * step else r * step) step =
    map (\<lambda>k. k * step) (irange 0 ((if c then q * step else r * step) div step))"
  using assms by (simp add: stepped_multiple)

lemma rank_placements_same:
  "same_outcome (rank_placements root_seed epoch dataset_len batch_size world_size rank drop_last exact_count)
     (ref_rank_placements root_seed epoch dataset_len batch_size world_size rank drop_last exact_count)"
proof (cases "batch_size \<le> 0 \<or> world_size \<le> 0 \<or> \<not> (0 \<le> rank \<and> rank < world_size) \<or> dataset_len = 0")
  case True
  then show ?thesis by (auto simp: rank_placements_def ref_rank_placements_def)
next
  case False
  define small where "small = (if dataset_len < FEISTEL_THRESHOLD
    then obind (ref_materialized_permutation root_seed epoch dataset_len) (\<lambda>(permutation, _). Some (Inr (Some permutation)))
    else Some (Inr None))"
  let ?visits = "placement_positions dataset_len batch_size world_size rank drop_last exact_count"
  have "0 < batch_size * world_size" using False by simp
  then have ref: "ref_rank_placements root_seed epoch dataset_len batch_size world_size rank drop_last exact_count =
      obind small (\<lambda>small. otraverse (\<lambda>(position, perm_position).
        obind (ref_map_index root_seed epoch dataset_len small perm_position) (\<lambda>index. Some (Inr (position, index)))) ?visits)"
    using False
    by (simp add: ref_rank_placements_def small_def placement_positions_def Let_def stepped_regular_end comp_def)
  show ?thesis
  proof (cases "dataset_len < FEISTEL_THRESHOLD")
    case True
    then show ?thesis
      using False unfolding ref small_def
      by (auto simp: rank_placements_def Let_def ref_map_index_def obind_assoc
        intro!: same_outcome_first [OF materialized_same] same_outcome_otraverse split: prod.splits)
  next
    case big: False
    then show ?thesis
      using False unfolding ref small_def
      by (auto simp: rank_placements_def Let_def ref_map_index_def
        intro!: same_outcome_otraverse same_outcome_obind feistel_same)
  qed
qed


section \<open>The document of test vectors\<close>

definition REQUIRED_DOMAINS :: "int list" where
  "REQUIRED_DOMAINS =
    [1, 2, 3, 65536, push_bit 17 1 - 1, push_bit 17 1, push_bit 17 1 + 1, 300000, push_bit 20 1, 1000000007]"

definition SEED_EPOCHS :: "(int \<times> int) list" where
  "SEED_EPOCHS = [(0, 0), (1, 0), (1, 7), (MASK64, MASK32)]"

definition ref_positions :: "int \<Rightarrow> int list" where
  "ref_positions domain =
    filter (\<lambda>position. 0 \<le> position \<and> position < domain) (sort (remdups [0, 1, domain div 2, domain - 2, domain - 1]))"

definition permutation_digest :: "int list \<Rightarrow> string" where
  "permutation_digest permutation =
    sha256_hex (concat (map (\<lambda>v. map (\<lambda>k. take_bit 8 (drop_bit (8 * k) v)) [0..<8]) permutation))"

definition philox_inputs :: "(int \<times> int \<times> int \<times> int \<times> int) list" where
  "philox_inputs =
    List.product [0, 1, MASK64]
      (List.product [0, 1, MASK32]
        (List.product [0, 1, MASK32, push_bit 32 1, MASK64] (List.product [0, 1, 2, MASK32] [0, 1, 4, 5, 6])))"

definition philox_vectors :: "pyval list" where
  "philox_vectors =
    map (\<lambda>(root_seed, epoch, coord, draw_index, stream_id).
      PDict [(PStr ''root_seed'', PInt root_seed), (PStr ''epoch'', PInt epoch), (PStr ''coord'', PInt coord),
        (PStr ''draw_index'', PInt draw_index), (PStr ''stream_id'', PInt stream_id),
        (PStr ''words'',
          case ref_block root_seed epoch coord draw_index stream_id of
            (w0, w1, w2, w3) \<Rightarrow> PList [PInt w0, PInt w1, PInt w2, PInt w3])])
    philox_inputs"

definition permutation_vector :: "int \<times> int \<times> int \<Rightarrow> pyval run" where
  "permutation_vector = (\<lambda>(domain, root_seed, epoch).
    let positions = ref_positions domain;
        start = [(PStr ''root_seed'', PInt root_seed), (PStr ''epoch'', PInt epoch), (PStr ''domain'', PInt domain),
          (PStr ''regime'', PStr (if domain < FEISTEL_THRESHOLD then ''materialized'' else ''feistel''))]
    in if domain < FEISTEL_THRESHOLD
       then obind (ref_materialized_permutation root_seed epoch domain) (\<lambda>(permutation, draws).
         Some (Inr (PDict (start @
           [(PStr ''draw_count'', PInt draws), (PStr ''digest'', PStr (permutation_digest permutation)),
            (PStr ''points'', PList (map (\<lambda>position. PList [PInt position, PInt (permutation ! nat position)]) positions))]))))
       else obind (otraverse (\<lambda>position. obind (ref_feistel_permute root_seed epoch domain position)
           (\<lambda>index. Some (Inr (PList [PInt position, PInt index])))) positions) (\<lambda>points.
         Some (Inr (PDict (start @ [(PStr ''points'', PList points)])))))"

definition permutation_vectors :: "pyval list run" where
  "permutation_vectors = otraverse permutation_vector (List.product REQUIRED_DOMAINS SEED_EPOCHS)"

definition placement_cases :: "(string \<times> int \<times> int \<times> int \<times> bool \<times> bool) list" where
  "placement_cases =
    [(''empty'', 0, 1, 1, False, False), (''padded-tail'', 5, 4, 8, False, False),
     (''exact-count-tail'', 103, 4, 8, False, True), (''dropped-tail'', 103, 4, 8, True, False),
     (''tiny-large-world'', 7, 2, 48, False, False), (''single-rank'', 17, 4, 1, False, False)]"

definition placement_vector :: "string \<times> int \<times> int \<times> int \<times> bool \<times> bool \<Rightarrow> pyval run" where
  "placement_vector = (\<lambda>(name, dataset_len, batch_size, world_size, drop_last, exact_count).
    obind
      (otraverse (\<lambda>rank.
        obind (ref_rank_placements 11 3 dataset_len batch_size world_size rank drop_last exact_count) (\<lambda>items.
          Some (Inr (PDict [(PStr ''rank'', PInt rank),
            (PStr ''items'', PList (map (\<lambda>(position, index). PList [PInt position, PInt index]) items))]))))
        (irange 0 world_size)) (\<lambda>ranks.
      Some (Inr (PDict
        [(PStr ''name'', PStr name), (PStr ''root_seed'', PInt 11), (PStr ''epoch'', PInt 3),
         (PStr ''dataset_len'', PInt dataset_len), (PStr ''batch_size'', PInt batch_size),
         (PStr ''world_size'', PInt world_size), (PStr ''drop_last'', PBool drop_last),
         (PStr ''exact_count'', PBool exact_count), (PStr ''ranks'', PList ranks)]))))"

definition placement_vectors :: "pyval list run" where
  "placement_vectors = otraverse placement_vector placement_cases"

definition build_document :: "payload run" where
  "build_document =
    obind permutation_vectors (\<lambda>permutations.
    obind placement_vectors (\<lambda>placements.
      Some (Inr
        [(PStr ''contract_version'', PInt 1),
         (PStr ''bindings'', PDict
           [(PStr ''fisher_yates_counter'', PList [PStr ''draw_ordinal'', PInt 8, PInt 3, PInt 0]),
            (PStr ''fisher_yates_rejections_advance'', PBool True), (PStr ''feistel_rounds'', PInt 8),
            (PStr ''feistel_threshold'', PInt FEISTEL_THRESHOLD), (PStr ''philox_rounds'', PInt 10)]),
         (PStr ''philox'', PDict
           [(PStr ''random123_zero'', PList [PInt 0x6627E8D5, PInt 0xE169C58D, PInt 0xBC57AC4C, PInt 0x9B00DBD8]),
            (PStr ''vectors'', PList philox_vectors)]),
         (PStr ''permutations'', PList permutations), (PStr ''placements'', PList placements)])))"

text \<open>Iterating over a value, asking a value for a key, and comparing a set of answers with a set of constants.\<close>

fun iter_values :: "pyval \<Rightarrow> pyval list res" where
  "iter_values (PList xs) = Inr xs"
| "iter_values (PTuple xs) = Inr xs"
| "iter_values (PDict d) = Inr (map fst d)"
| "iter_values (PStr s) = Inr (map (\<lambda>c. PStr [c]) s)"
| "iter_values (PBytes b) = Inr (map PInt b)"
| "iter_values _ = Inl (TypeError ''object is not iterable'')"

fun get_key :: "string \<Rightarrow> pyval \<Rightarrow> pyval res" where
  "get_key key (PDict d) = Inr (get_or_none d key)"
| "get_key key _ = Inl (AttributeError ''get'')"

fun hashable :: "pyval \<Rightarrow> bool" where
  "hashable (PList xs) = False"
| "hashable (PDict d) = False"
| "hashable (PTuple xs) = (\<forall>x \<in> set xs. hashable x)"
| "hashable _ = True"

definition field_set :: "string \<Rightarrow> pyval \<Rightarrow> pyval list res" where
  "field_set key vectors =
    rbind (iter_values vectors) (rtraverse (\<lambda>v.
      rbind (get_key key v) (\<lambda>w. if hashable w then Inr w else Inl (TypeError ''unhashable type''))))"

definition same_set :: "pyval list \<Rightarrow> pyval list \<Rightarrow> bool" where
  "same_set xs ys \<longleftrightarrow> (\<forall>x \<in> set xs. \<exists>y \<in> set ys. py_eq x y) \<and> (\<forall>y \<in> set ys. \<exists>x \<in> set xs. py_eq x y)"

definition validate_document :: "payload \<Rightarrow> unit res" where
  "validate_document document =
    (if \<not> same_set (map fst document)
          (map PStr [''contract_version'', ''bindings'', ''philox'', ''permutations'', ''placements''])
     then Inl (ValueError ''contract-vector top-level fields do not match the schema'')
     else
       rbind (get_item document ''contract_version'') (\<lambda>version.
       if \<not> py_eq version (PInt 1) then Inl (ValueError ''unsupported contract version'')
       else
       rbind (get_item document ''bindings'') (\<lambda>bindings.
       rbind (get_key ''fisher_yates_counter'' bindings) (\<lambda>counter.
       if \<not> py_eq counter (PList [PStr ''draw_ordinal'', PInt 8, PInt 3, PInt 0])
       then Inl (ValueError ''the Fisher-Yates counter binding is not normative'')
       else
       rbind (get_key ''fisher_yates_rejections_advance'' bindings) (\<lambda>advance.
       if advance \<noteq> PBool True then Inl (ValueError ''Fisher-Yates rejections must advance the draw ordinal'')
       else
       rbind (get_item document ''philox'') (\<lambda>philox.
       rbind (get_key ''vectors'' philox) (\<lambda>vectors.
       if (case vectors of PList vs \<Rightarrow> length vs \<noteq> 900 | _ \<Rightarrow> True)
       then Inl (ValueError ''the Philox boundary matrix must contain 900 vectors'')
       else
       rbind (rbind (get_item document ''permutations'') (field_set ''domain'')) (\<lambda>domains.
       if \<not> same_set domains (map PInt REQUIRED_DOMAINS)
       then Inl (ValueError ''the permutation vectors do not cover every required domain'')
       else
       rbind (rbind (get_item document ''placements'') (field_set ''name'')) (\<lambda>names.
       if \<not> same_set names
            (map PStr [''empty'', ''padded-tail'', ''exact-count-tail'', ''dropped-tail'', ''tiny-large-world'', ''single-rank''])
       then Inl (ValueError ''the placement vectors do not cover every required mode'')
       else Inr ())))))))))"

text \<open>The words that let the shuffles of the document's seeds end.\<close>

lemma accepted_draw_0: "draw_word (permutation_key 0 0) 0 < 2 ^ 32 - FEISTEL_THRESHOLD" by code_simp
lemma accepted_draw_1: "draw_word (permutation_key 1 0) 0 < 2 ^ 32 - FEISTEL_THRESHOLD" by code_simp
lemma accepted_draw_2: "draw_word (permutation_key 1 7) 0 < 2 ^ 32 - FEISTEL_THRESHOLD" by code_simp
lemma accepted_draw_3: "draw_word (permutation_key 18446744073709551615 4294967295) 0 < 2 ^ 32 - FEISTEL_THRESHOLD" by code_simp
lemma accepted_draw_4: "draw_word (permutation_key 11 3) 0 < 2 ^ 32 - FEISTEL_THRESHOLD" by code_simp

lemma accepted_draws:
  "(r, e) \<in> set ((11, 3) # SEED_EPOCHS) \<Longrightarrow> draw_word (permutation_key r e) 0 < 2 ^ 32 - FEISTEL_THRESHOLD"
  using accepted_draw_0 accepted_draw_1 accepted_draw_2 accepted_draw_3 accepted_draw_4
  by (auto simp add: SEED_EPOCHS_def MASK64_def MASK32_def)

lemma ref_materialized_returns:
  assumes "(r, e) \<in> set ((11, 3) # SEED_EPOCHS)" "0 \<le> domain" "domain < FEISTEL_THRESHOLD"
  shows "\<exists>permutation draws. ref_materialized_permutation r e domain = Some (Inr (permutation, draws))"
proof -
  obtain xs where "materialized_permutation r e domain = Some (Inr xs)"
    using materialized_permutation_total [OF assms(2,3) accepted_draws [OF assms(1)]] by blast
  with materialized_same [of r e domain] show ?thesis
    by (cases "ref_materialized_permutation r e domain" rule: option.exhaust; cases "the (ref_materialized_permutation r e domain)") auto
qed

lemma ref_feistel_returns:
  assumes "FEISTEL_THRESHOLD \<le> domain" "0 \<le> position" "position < domain"
  shows "\<exists>index. ref_feistel_permute r e domain position = Some (Inr index)"
  using feistel_permute_total [OF assms(1), of r e] feistel_same [of r e domain position] assms(2,3) by auto

lemma otraverse_all2:
  "(\<And>x. x \<in> set xs \<Longrightarrow> \<exists>v. f x = Some (Inr v) \<and> P x v) \<Longrightarrow> \<exists>vs. otraverse f xs = Some (Inr vs) \<and> list_all2 P xs vs"
proof (induction xs)
  case (Cons x xs)
  then obtain v vs where "f x = Some (Inr v)" "P x v" "otraverse f xs = Some (Inr vs)" "list_all2 P xs vs" by (metis list.set_intros)
  then show ?case by simp
qed simp

lemma permutation_vector_returns:
  assumes "(r, e) \<in> set SEED_EPOCHS" "0 \<le> domain"
  shows "\<exists>v. permutation_vector (domain, r, e) = Some (Inr v) \<and> get_key ''domain'' v = Inr (PInt domain)"
proof (cases "domain < FEISTEL_THRESHOLD")
  case True
  with ref_materialized_returns [of r e domain] assms obtain xs draws
    where "ref_materialized_permutation r e domain = Some (Inr (xs, draws))" by auto
  with True show ?thesis by (simp add: permutation_vector_def get_or_none_def)
next
  case False
  have "\<exists>points. otraverse (\<lambda>position. obind (ref_feistel_permute r e domain position)
      (\<lambda>index. Some (Inr (PList [PInt position, PInt index])))) (ref_positions domain) = Some (Inr points)
      \<and> list_all2 (\<lambda>_ _. True) (ref_positions domain) points"
  proof (rule otraverse_all2)
    fix position
    assume "position \<in> set (ref_positions domain)"
    with False obtain index where "ref_feistel_permute r e domain position = Some (Inr index)"
      using ref_feistel_returns [of domain position r e] by (auto simp: ref_positions_def)
    then show "\<exists>v. obind (ref_feistel_permute r e domain position)
        (\<lambda>index. Some (Inr (PList [PInt position, PInt index]))) = Some (Inr v) \<and> True" by simp
  qed
  with False show ?thesis by (auto simp: permutation_vector_def get_or_none_def)
qed

lemma ref_placements_return:
  assumes "0 < batch_size" "0 < world_size" "0 \<le> rank" "rank < world_size" "0 \<le> n" "n < FEISTEL_THRESHOLD"
  shows "\<exists>items. ref_rank_placements 11 3 n batch_size world_size rank drop_last exact_count = Some (Inr items)"
proof -
  obtain xs draws where "ref_materialized_permutation 11 3 n = Some (Inr (xs, draws))"
    using ref_materialized_returns [of 11 3 n] assms by auto
  moreover have "\<exists>items. otraverse (\<lambda>(position, perm_position). Some (Inr (position, xs ! nat perm_position))) ps = Some (Inr items)" for ps :: "(int \<times> int) list"
    by (induction ps) auto
  ultimately show ?thesis using assms by (simp add: ref_rank_placements_def ref_map_index_def Let_def)
qed

lemma placement_vector_returns:
  assumes "(name, n, b, w, d, x) \<in> set placement_cases"
  shows "\<exists>v. placement_vector (name, n, b, w, d, x) = Some (Inr v) \<and> get_key ''name'' v = Inr (PStr name)"
proof -
  have ok: "0 < b" "0 < w" "0 \<le> n" "n < FEISTEL_THRESHOLD"
    using assms by (auto simp: placement_cases_def FEISTEL_THRESHOLD_eq)
  have "\<exists>ranks. otraverse (\<lambda>rank. obind (ref_rank_placements 11 3 n b w rank d x) (\<lambda>items.
      Some (Inr (PDict [(PStr ''rank'', PInt rank),
        (PStr ''items'', PList (map (\<lambda>(position, index). PList [PInt position, PInt index]) items))])))) (irange 0 w) = Some (Inr ranks)
      \<and> list_all2 (\<lambda>_ _. True) (irange 0 w) ranks"
  proof (rule otraverse_all2)
    fix rank
    assume "rank \<in> set (irange 0 w)"
    then obtain items where "ref_rank_placements 11 3 n b w rank d x = Some (Inr items)"
      using ref_placements_return [OF ok(1,2) _ _ ok(3,4), of rank d x] by auto
    then show "\<exists>v. obind (ref_rank_placements 11 3 n b w rank d x) (\<lambda>items.
      Some (Inr (PDict [(PStr ''rank'', PInt rank),
        (PStr ''items'', PList (map (\<lambda>(position, index). PList [PInt position, PInt index]) items))]))) = Some (Inr v) \<and> True" by simp
  qed
  then show ?thesis by (auto simp: placement_vector_def get_or_none_def)
qed

lemma field_set_Inr:
  "list_all2 (\<lambda>x v. get_key key v = Inr (f x) \<and> hashable (f x)) xs vs \<Longrightarrow> field_set key (PList vs) = Inr (map f xs)"
  unfolding field_set_def by (simp, induction xs vs rule: list_all2_induct) simp_all

lemma same_set_eq: "set xs = set ys \<Longrightarrow> same_set xs ys"
  by (auto simp: same_set_def intro: py_eq_refl)

lemma philox_count: "length philox_vectors = 900"
  by (simp add: philox_vectors_def philox_inputs_def)

text \<open>
  The document of test vectors is built and accepted: every shuffle and every cycle walk of its seeds and domains
  ends, it has its 900 blocks and covers each required domain and mode.
\<close>

theorem document_built_and_valid: "\<exists>d. build_document = Some (Inr d) \<and> validate_document d = Inr ()"
proof -
  have domains: "\<forall>x \<in> set REQUIRED_DOMAINS. 0 \<le> x" by (simp add: REQUIRED_DOMAINS_def)
  obtain ps where ps: "permutation_vectors = Some (Inr ps)"
    "list_all2 (\<lambda>x v. get_key ''domain'' v = Inr (PInt (fst x))) (List.product REQUIRED_DOMAINS SEED_EPOCHS) ps"
    using otraverse_all2 [of "List.product REQUIRED_DOMAINS SEED_EPOCHS" permutation_vector "\<lambda>x v. get_key ''domain'' v = Inr (PInt (fst x))"]
      permutation_vector_returns domains
    unfolding permutation_vectors_def by fastforce
  obtain qs where qs: "placement_vectors = Some (Inr qs)" "list_all2 (\<lambda>x v. get_key ''name'' v = Inr (PStr (fst x))) placement_cases qs"
    using otraverse_all2 [of placement_cases placement_vector "\<lambda>x v. get_key ''name'' v = Inr (PStr (fst x))"] placement_vector_returns
    unfolding placement_vectors_def by fastforce
  have "field_set ''domain'' (PList ps) = Inr (map (\<lambda>x. PInt (fst x)) (List.product REQUIRED_DOMAINS SEED_EPOCHS))"
    using ps(2) by (intro field_set_Inr) simp
  moreover have "same_set (map (\<lambda>x. PInt (fst x)) (List.product REQUIRED_DOMAINS SEED_EPOCHS)) (map PInt REQUIRED_DOMAINS)"
    by (rule same_set_eq) (force simp: SEED_EPOCHS_def)
  moreover have "field_set ''name'' (PList qs) = Inr (map (\<lambda>x. PStr (fst x)) placement_cases)"
    using qs(2) by (intro field_set_Inr) simp
  ultimately show ?thesis
    by (simp add: build_document_def ps(1) qs(1) validate_document_def get_item_def get_or_none_def philox_count
      same_set_eq placement_cases_def)
qed

end
