(* ===== verification/DatasetIdentity.thy ===== *)
theory DatasetIdentity
  imports Contract
begin

text \<open>
  The identity of a dataset in a fingerprint: callables and configured objects (\<^verbatim>\<open>fingerprint/callable.py\<close>), which
  are read from a heap of Python objects, since they may share parts and refer to themselves, and the elements of each
  family of datasets with their inventories (\<^verbatim>\<open>dataset.py\<close>, \<^verbatim>\<open>arrays.py\<close>, \<^verbatim>\<open>arrow.py\<close>, \<^verbatim>\<open>files.py\<close>).
\<close>

section \<open>Code objects\<close>

text \<open>The fields that are hashed: four numbers, the bytecode in hexadecimal digits, the constants and four lists of names.\<close>

datatype code = Code "int list" string "const list" "string list list"
  and const = C_value pyval | C_tuple "const list" | C_frozenset "const list" | C_code code | C_other string

fun code_payload :: "(pyval \<Rightarrow> string) \<Rightarrow> code \<Rightarrow> pyval"
  and const_payload :: "(pyval \<Rightarrow> string) \<Rightarrow> const \<Rightarrow> pyval" where
  "code_payload repr (Code numbers bytecode consts names) =
    PTuple (map PInt numbers @ [PStr bytecode, PTuple (map (const_payload repr) consts)] @
      map (\<lambda>ns. PTuple (map PStr ns)) names)"
| "const_payload repr (C_value v) = v"
| "const_payload repr (C_tuple cs) = PTuple (map (const_payload repr) cs)"
| "const_payload repr (C_frozenset cs) = PTuple (sort_key repr (map (const_payload repr) cs))"
| "const_payload repr (C_code c) = code_payload repr c"
| "const_payload repr (C_other type_name) = PDict [(PStr ''type'', PStr type_name)]"

definition code_hash :: "(pyval \<Rightarrow> string) \<Rightarrow> code \<Rightarrow> pyval" where
  "code_hash repr c = PStr (sha256_hex (text_bytes (repr (code_payload repr c))))"

section \<open>Objects\<close>

text \<open>
  References are numbers.  A member of an \<^verbatim>\<open>Enum\<close> that is a string is plain; a method is its function; the state of an
  instance is \<^const>\<open>None\<close> when it has no \<^verbatim>\<open>__dict__\<close>, and its fields come in their order when it is a dataclass.
\<close>

datatype obj =
    Plain_obj pyval
  | Bytes_obj "int list"
  | Enum_obj string nat
  | Class_obj string
  | Sequence_obj string "nat list"
  | Set_obj string "nat list"
  | Dict_obj string "(string \<times> nat) list"
  | Builtin_obj string
  | Partial_obj nat nat nat
  | Function_obj string code
  | Instance_obj string bool "code option" bool "(string \<times> nat) list option"

fun plain_type :: "pyval \<Rightarrow> string" where
  "plain_type PNone = ''builtins.NoneType''"
| "plain_type (PBool b) = ''builtins.bool''"
| "plain_type (PInt i) = ''builtins.int''"
| "plain_type (PFloat r) = ''builtins.float''"
| "plain_type _ = ''builtins.str''"

fun type_name :: "obj \<Rightarrow> string" where
  "type_name (Plain_obj v) = plain_type v"
| "type_name (Bytes_obj b) = ''builtins.bytes''"
| "type_name (Enum_obj q r) = q"
| "type_name (Class_obj q) = ''builtins.type''"
| "type_name (Sequence_obj q rs) = q"
| "type_name (Set_obj q rs) = q"
| "type_name (Dict_obj q d) = q"
| "type_name (Builtin_obj q) = ''builtins.builtin_function_or_method''"
| "type_name (Partial_obj a f k) = ''functools.partial''"
| "type_name (Function_obj q c) = ''builtins.function''"
| "type_name (Instance_obj q callable call dataclass state) = q"

fun is_callable :: "obj \<Rightarrow> bool" where
  "is_callable (Builtin_obj q) = True"
| "is_callable (Partial_obj a f k) = True"
| "is_callable (Function_obj q c) = True"
| "is_callable (Instance_obj q callable call dataclass state) = callable"
| "is_callable _ = False"

fun public_fields :: "obj \<Rightarrow> (string \<times> nat) list" where
  "public_fields (Instance_obj q callable call dataclass (Some state)) =
    filter (\<lambda>(name, _). take 1 name \<noteq> ''_'') (if dataclass then state else sort_key fst state)"
| "public_fields _ = []"

text \<open>
  \<^verbatim>\<open>callable_identity\<close> and \<^verbatim>\<open>stable_value\<close> call each other; \<^const>\<open>None\<close> when the fuel ends first.  The second carries
  its depth, which the first does not.
\<close>

datatype task = Identity nat | Stable nat nat

fun stable_task :: "(pyval \<Rightarrow> string) \<Rightarrow> (nat \<Rightarrow> obj) \<Rightarrow> (task \<Rightarrow> pyval option) \<Rightarrow> nat \<Rightarrow> nat \<Rightarrow> pyval option"
  and identity_task :: "(pyval \<Rightarrow> string) \<Rightarrow> (nat \<Rightarrow> obj) \<Rightarrow> (task \<Rightarrow> pyval option) \<Rightarrow> nat \<Rightarrow> pyval option" where
  "stable_task repr h call depth r =
    (if 12 < depth then Some (PDict [(PStr ''qualname'', PStr (type_name (h r))), (PStr ''truncated'', PBool True)])
     else case h r of
       Plain_obj v \<Rightarrow> Some v
     | Bytes_obj b \<Rightarrow> Some (PDict [(PStr ''bytes_sha256'', PStr (sha256_hex b)), (PStr ''length'', PInt (int (length b)))])
     | Enum_obj q v \<Rightarrow> call (Stable (depth + 1) v)
     | Class_obj q \<Rightarrow> Some (PDict [(PStr ''type'', PStr q)])
     | Sequence_obj q rs \<Rightarrow> map_option PList (those (map (\<lambda>s. call (Stable (depth + 1) s)) rs))
     | Set_obj q rs \<Rightarrow> map_option (\<lambda>vs. PList (sort_key repr vs)) (those (map (\<lambda>s. call (Stable (depth + 1) s)) rs))
     | Dict_obj q d \<Rightarrow>
         map_option PDict (those (map (\<lambda>(k, s). map_option (Pair (PStr k)) (call (Stable (depth + 1) s))) (sort_key fst d)))
     | x \<Rightarrow>
         if is_callable x then call (Identity r)
         else
           map_option (\<lambda>state. PDict [(PStr ''qualname'', PStr (type_name x)), (PStr ''state'', PDict state)])
             (those (map (\<lambda>(k, s). map_option (Pair (PStr k)) (call (Stable (depth + 2) s))) (public_fields x))))"
| "identity_task repr h call r =
    (case h r of
       Plain_obj PNone \<Rightarrow> Some (PDict [(PStr ''kind'', PStr ''none'')])
     | Class_obj q \<Rightarrow> Some (PDict [(PStr ''kind'', PStr ''type''), (PStr ''qualname'', PStr q)])
     | Builtin_obj q \<Rightarrow> Some (PDict [(PStr ''kind'', PStr ''builtin''), (PStr ''qualname'', PStr q)])
     | Partial_obj a f k \<Rightarrow>
         (case (call (Stable 0 a), call (Identity f), call (Stable 0 k)) of
            (Some va, Some vf, Some vk) \<Rightarrow>
              Some (PDict [(PStr ''args'', va), (PStr ''callable'', vf), (PStr ''keywords'', vk), (PStr ''kind'', PStr ''partial'')])
          | _ \<Rightarrow> None)
     | Function_obj q c \<Rightarrow>
         Some (PDict [(PStr ''code_sha256'', code_hash repr c), (PStr ''kind'', PStr ''function''), (PStr ''qualname'', PStr q)])
     | x \<Rightarrow>
         map_option (\<lambda>state.
           PDict [(PStr ''call_sha256'',
                     case x of Instance_obj q True (Some c) d s \<Rightarrow> code_hash repr c | _ \<Rightarrow> PNone),
                  (PStr ''config'', PDict state),
                  (PStr ''kind'', PStr (if is_callable x then ''callable-object'' else ''object'')),
                  (PStr ''qualname'', PStr (type_name x))])
           (those (map (\<lambda>(k, s). map_option (Pair (PStr k)) (call (Stable 1 s))) (public_fields x))))"

fun identify :: "(pyval \<Rightarrow> string) \<Rightarrow> (nat \<Rightarrow> obj) \<Rightarrow> nat \<Rightarrow> task \<Rightarrow> pyval option" where
  "identify repr h 0 t = None"
| "identify repr h (Suc fuel) t =
    (case t of Stable depth r \<Rightarrow> stable_task repr h (identify repr h fuel) depth r
             | Identity r \<Rightarrow> identity_task repr h (identify repr h fuel) r)"

definition callable_identity :: "(pyval \<Rightarrow> string) \<Rightarrow> (nat \<Rightarrow> obj) \<Rightarrow> nat \<Rightarrow> nat \<Rightarrow> pyval option" where
  "callable_identity repr h fuel r = identify repr h fuel (Identity r)"

definition stable_value :: "(pyval \<Rightarrow> string) \<Rightarrow> (nat \<Rightarrow> obj) \<Rightarrow> nat \<Rightarrow> nat \<Rightarrow> pyval option" where
  "stable_value repr h fuel r = identify repr h fuel (Stable 0 r)"

section \<open>Which objects have an identity\<close>

text \<open>What an object refers to.\<close>

fun refers :: "obj \<Rightarrow> nat list" where
  "refers (Enum_obj q r) = [r]"
| "refers (Sequence_obj q rs) = rs"
| "refers (Set_obj q rs) = rs"
| "refers (Dict_obj q d) = map snd d"
| "refers (Partial_obj a f k) = [a, f, k]"
| "refers (Instance_obj q callable call dataclass (Some state)) = map snd state"
| "refers _ = []"

lemma public_refers: "(k, s) \<in> set (public_fields x) \<Longrightarrow> s \<in> set (refers x)"
  by (cases x rule: public_fields.cases) (auto split: if_splits intro: rev_image_eqI)

lemma those_Some: "(\<And>x. x \<in> set xs \<Longrightarrow> \<exists>v. f x = Some v) \<Longrightarrow> \<exists>vs. those (map f xs) = Some vs"
  by (induction xs) force+

lemma those_None: "x \<in> set xs \<Longrightarrow> f x = None \<Longrightarrow> those (map f xs) = None"
  by (induction xs) (auto split: option.splits)

text \<open>A cycle may run through containers and plain objects: no callable is on it.\<close>

definition callables_ranked :: "(nat \<Rightarrow> obj) \<Rightarrow> (nat \<Rightarrow> nat) \<Rightarrow> bool" where
  "callables_ranked h rank \<longleftrightarrow>
    (\<forall>r. \<forall>s \<in> set (refers (h r)). rank s \<le> rank r \<and> (is_callable (h r) \<longrightarrow> rank s < rank r))"

fun task_size :: "(nat \<Rightarrow> obj) \<Rightarrow> (nat \<Rightarrow> nat) \<Rightarrow> task \<Rightarrow> nat" where
  "task_size h rank (Stable depth r) = 16 * rank r + (15 - depth)"
| "task_size h rank (Identity r) = 16 * rank r + (if is_callable (h r) then 0 else 15)"

lemma field_tasks:
  assumes "\<And>k s. (k, s) \<in> set (public_fields x) \<Longrightarrow> \<exists>v. call (Stable d s) = Some v"
  shows "\<exists>vs. those (map (\<lambda>(k, s). map_option (Pair (PStr k)) (call (Stable d s))) (public_fields x)) = Some vs"
  by (rule those_Some) (use assms in fastforce)

lemma identify_returns:
  assumes "callables_ranked h rank"
  shows "task_size h rank t < fuel \<Longrightarrow> \<exists>v. identify repr h fuel t = Some v"
proof (induction fuel arbitrary: t)
  case (Suc fuel)
  have edge: "rank s \<le> rank r" "is_callable (h r) \<Longrightarrow> rank s < rank r" if "s \<in> set (refers (h r))" for r s
    using assms that by (auto simp: callables_ranked_def)
  show ?case
  proof (cases t)
    case (Stable depth r)
    show ?thesis
    proof (cases "12 < depth")
      case False
      have deeper: "\<exists>v. identify repr h fuel (Stable (depth + d) s) = Some v" if "s \<in> set (refers (h r))" "0 < d" "d \<le> 2" for s d
        using edge(1) [OF that(1)] that(2,3) Suc.prems False by (intro Suc.IH) (simp add: Stable)
      show ?thesis
      proof (cases "is_callable (h r)")
        case True
        then have "\<exists>v. identify repr h fuel (Identity r) = Some v"
          using Suc.prems False by (intro Suc.IH) (simp add: Stable)
        with True False show ?thesis by (cases "h r") (simp_all add: Stable)
      next
        case calm: False
        have one: "\<exists>v. identify repr h fuel (Stable (Suc depth) s) = Some v" if "s \<in> set (refers (h r))" for s
          using deeper [OF that, of 1] by simp
        have fields: "\<exists>vs. those (map (\<lambda>(k, s). map_option (Pair (PStr k)) (identify repr h fuel (Stable (depth + 2) s)))
            (public_fields (h r))) = Some vs"
          by (rule field_tasks) (use deeper public_refers in fastforce)
        show ?thesis
        proof (cases "h r")
          case (Sequence_obj q rs)
          with one have "\<exists>vs. those (map (\<lambda>s. identify repr h fuel (Stable (Suc depth) s)) rs) = Some vs" by (intro those_Some) simp
          with Sequence_obj False show ?thesis by (auto simp: Stable)
        next
          case (Set_obj q rs)
          with one have "\<exists>vs. those (map (\<lambda>s. identify repr h fuel (Stable (Suc depth) s)) rs) = Some vs" by (intro those_Some) simp
          with Set_obj False show ?thesis by (auto simp: Stable)
        next
          case (Dict_obj q d)
          have "\<exists>vs. those (map (\<lambda>(k, s). map_option (Pair (PStr k)) (identify repr h fuel (Stable (Suc depth) s))) (sort_key fst d)) = Some vs"
            by (intro those_Some) (use one Dict_obj in force)
          with Dict_obj False show ?thesis by (auto simp: Stable)
        next
          case (Instance_obj q c call d s)
          with fields calm False show ?thesis by (auto simp: Stable)
        qed (use one calm False in \<open>auto simp: Stable\<close>)
      qed
    qed (simp add: Stable)
  next
    case (Identity r)
    have "\<exists>vs. those (map (\<lambda>(k, s). map_option (Pair (PStr k)) (identify repr h fuel (Stable 1 s))) (public_fields (h r))) = Some vs"
    proof (rule field_tasks)
      fix k s
      assume "(k, s) \<in> set (public_fields (h r))"
      from edge [OF public_refers [OF this]] Suc.prems show "\<exists>v. identify repr h fuel (Stable 1 s) = Some v"
        by (intro Suc.IH) (auto simp: Identity split: if_splits)
    qed
    then obtain vs where fields:
      "those (map (\<lambda>(k, s). map_option (Pair (PStr k)) (identify repr h fuel (Stable 1 s))) (public_fields (h r))) = Some vs" by blast
    show ?thesis
    proof (cases "h r")
      case (Partial_obj a f k)
      have part: "\<exists>v. identify repr h fuel (Stable 0 s) = Some v \<and> (\<exists>v. identify repr h fuel (Identity s) = Some v)"
        if "s \<in> {a, f, k}" for s
        using edge(2) [of s r] that Suc.prems Partial_obj by (auto intro!: Suc.IH simp: Identity)
      obtain va vf vk where "identify repr h fuel (Stable 0 a) = Some va" "identify repr h fuel (Identity f) = Some vf"
        "identify repr h fuel (Stable 0 k) = Some vk" using part [of a] part [of f] part [of k] by auto
      with Partial_obj show ?thesis by (simp add: Identity)
    next
      case (Plain_obj v)
      with fields show ?thesis by (cases v) (simp_all add: Identity del: One_nat_def)
    qed (use fields in \<open>simp_all add: Identity del: One_nat_def\<close>)
  qed
qed simp

text \<open>
  C28: Reading the identity of an object ends, however its parts are shared and also when plain objects and containers refer
  to each other in a cycle, as long as no callable is on a cycle; the fuel needed grows with the nesting of
  callables alone.
\<close>

theorem identities_returned:
  assumes "callables_ranked h rank"
  shows "(\<exists>v. callable_identity repr h (16 * (rank r + 1)) r = Some v) \<and> (\<exists>v. stable_value repr h (16 * (rank r + 1)) r = Some v)"
  unfolding callable_identity_def stable_value_def
  by (intro conjI identify_returns [OF assms]) simp_all

text \<open>A transform whose configuration is a dictionary that contains itself.\<close>

definition looped_heap :: "nat \<Rightarrow> obj" where
  "looped_heap r =
    (if r = 0 then Instance_obj ''app.Scale'' True None False (Some [(''options'', 1)])
     else if r = 1 then Dict_obj ''builtins.dict'' [(''again'', 1), (''factor'', 2)]
     else Plain_obj (PInt 3))"

theorem identities_returned_witness: "\<exists>v. callable_identity (\<lambda>_. '''') looped_heap 32 0 = Some v"
proof -
  have "callables_ranked looped_heap (\<lambda>r. if r = 0 then 1 else 0)"
    by (simp add: callables_ranked_def looped_heap_def)
  from identities_returned [OF this, of _ 0] show ?thesis by (simp add: numeral_eq_Suc)
qed

text \<open>
  With a callable on the cycle it does not: the depth that cuts other cycles is lost where a callable is
  read.
\<close>

definition self_caller :: "nat \<Rightarrow> obj" where
  "self_caller r = Instance_obj ''app.Scale'' True None False (Some [(''parent'', r)])"

theorem callable_cycle_diverges: "callable_identity repr self_caller fuel r = None \<and> stable_value repr self_caller fuel r = None"
proof -
  have "identify repr self_caller fuel (Identity r) = None \<and> (\<forall>depth \<le> 1. identify repr self_caller fuel (Stable depth r) = None)"
    by (induction fuel) (simp_all add: self_caller_def)
  then show ?thesis by (simp add: callable_identity_def stable_value_def)
qed

end
