(* ===== verification/Inventory.thy ===== *)
theory Inventory
  imports DatasetIdentity "HOL-Library.Sublist"
begin

text \<open>
  The elements of a dataset's fingerprint, one family at a time (\<^verbatim>\<open>fingerprint/dataset.py\<close>), with the inventories of
  its files and the digests of its contents (\<^verbatim>\<open>files.py\<close>, \<^verbatim>\<open>arrays.py\<close>, \<^verbatim>\<open>arrow.py\<close>).  What is read of the dataset, the
  identities of its callables among it, is its view.
\<close>

section \<open>Files\<close>

text \<open>Resolved paths are their components; a file has a directory, a name, the size \<^verbatim>\<open>stat\<close> gives if it can, and bytes.\<close>

type_synonym path = "string list"

record file_facts =
  ff_dir :: path
  ff_name :: string
  ff_size :: "int option"
  ff_bytes :: "int list"

definition el :: "string \<Rightarrow> pyval \<Rightarrow> fingerprint_element" where
  "el path v = \<lparr>fe_path = path, fe_value = v\<rparr>"

definition indexed :: "string \<Rightarrow> nat \<Rightarrow> string" where
  "indexed pre i = pre @ ''['' @ str_of_int (int i) @ '']''"

fun common_prefix :: "path \<Rightarrow> path \<Rightarrow> path" where
  "common_prefix (x # xs) (y # ys) = (if x = y then x # common_prefix xs ys else [])"
| "common_prefix _ _ = []"

definition dataset_root :: "path \<Rightarrow> file_facts list \<Rightarrow> path option \<Rightarrow> path" where
  "dataset_root cwd files explicit_root =
    (case explicit_root of
       Some base \<Rightarrow> base
     | None \<Rightarrow> (case map ff_dir files of [] \<Rightarrow> cwd | d # ds \<Rightarrow> fold common_prefix ds d))"

text \<open>\<^verbatim>\<open>path.relative_to(root)\<close>, and \<^verbatim>\<open>os.path.relpath\<close> for a path outside the root.\<close>

definition relative_path :: "path \<Rightarrow> path \<Rightarrow> path" where
  "relative_path base path =
    (if take (length base) path = base then drop (length base) path
     else
       let shared = length (common_prefix base path)
       in replicate (length base - shared) ''..'' @ drop shared path)"

fun join_slash :: "path \<Rightarrow> string" where
  "join_slash [] = ''.''"
| "join_slash [x] = x"
| "join_slash (x # xs) = x @ ''/'' @ join_slash xs"

definition file_item :: "path \<Rightarrow> string \<Rightarrow> string \<Rightarrow> file_facts \<Rightarrow> fingerprint_element list" where
  "file_item base mode pre f =
    [el (pre @ ''.path'') (PStr (join_slash (relative_path base (ff_dir f @ [ff_name f])))),
     el (pre @ ''.size'') (optional_int (ff_size f))] @
    (if mode = ''strict''
     then [el (pre @ ''.sha256'') (PStr (if ff_size f \<noteq> None then sha256_hex (ff_bytes f) else ''missing''))] else [])"

definition indexed_elements :: "(string \<Rightarrow> 'a \<Rightarrow> fingerprint_element list) \<Rightarrow> string \<Rightarrow> 'a list \<Rightarrow> fingerprint_element list" where
  "indexed_elements F pre xs = concat (map (\<lambda>(i, x). F (indexed pre i) x) (enumerate 0 xs))"

definition file_elements ::
    "path \<Rightarrow> string \<Rightarrow> string \<Rightarrow> path option \<Rightarrow> file_facts list \<Rightarrow> fingerprint_element list" where
  "file_elements cwd mode pre explicit_root files =
    [el (pre @ ''.root_kind'') (PStr ''dataset-relative''), el (pre @ ''.count'') (PInt (int (length files)))] @
    indexed_elements (file_item (dataset_root cwd files explicit_root) mode) pre files"

section \<open>Arrays and tables\<close>

record array_facts =
  af_shape :: "int list"
  af_dtype :: string
  af_bytes :: "int list"

definition array_elements :: "string \<Rightarrow> string \<Rightarrow> array_facts \<Rightarrow> fingerprint_element list" where
  "array_elements mode pre a =
    [el (pre @ ''.shape'') (int_list (af_shape a)), el (pre @ ''.dtype'') (PStr (af_dtype a))] @
    (if mode = ''strict'' then [el (pre @ ''.content_sha256'') (PStr (sha256_hex (af_bytes a)))] else [])"

record arrow_facts =
  rf_schema :: string
  rf_row_count :: int
  rf_format_type :: pyval
  rf_format_columns :: pyval
  rf_output_all_columns :: bool
  rf_format_kwargs :: pyval
  rf_cache_files :: "file_facts list"
  rf_buffers :: "int list list"

definition arrow_elements :: "path \<Rightarrow> string \<Rightarrow> string \<Rightarrow> arrow_facts \<Rightarrow> fingerprint_element list" where
  "arrow_elements cwd mode pre r =
    [el (pre @ ''.schema'') (PStr (rf_schema r)), el (pre @ ''.row_count'') (PInt (rf_row_count r)),
     el (pre @ ''.format_type'') (rf_format_type r), el (pre @ ''.format_columns'') (rf_format_columns r),
     el (pre @ ''.output_all_columns'') (PBool (rf_output_all_columns r)), el (pre @ ''.format_kwargs'') (rf_format_kwargs r)] @
    (if rf_cache_files r \<noteq> [] then file_elements cwd mode (pre @ ''.files'') None (rf_cache_files r) else []) @
    (if mode = ''strict'' then [el (pre @ ''.content_sha256'') (PStr (sha256_hex (concat (rf_buffers r))))] else [])"

definition parquet_elements :: "path \<Rightarrow> string \<Rightarrow> string \<Rightarrow> string \<Rightarrow> int \<Rightarrow> file_facts list \<Rightarrow> fingerprint_element list" where
  "parquet_elements cwd mode pre schema row_count fragments =
    [el (pre @ ''.schema'') (PStr schema), el (pre @ ''.row_count'') (PInt row_count)] @
    file_elements cwd mode (pre @ ''.files'') None fragments"

section \<open>Datasets\<close>

record stage_facts =
  gf_type :: string
  gf_callable :: pyval
  gf_input_type :: string
  gf_output_type :: string
  gf_io :: pyval
  gf_thread_safety :: pyval

record folder_facts =
  of_samples :: "(file_facts \<times> pyval) list"   \<comment> \<open>each with its stable target\<close>
  of_root :: "path option"
  of_loader :: pyval
  of_transform :: pyval
  of_target_transform :: pyval

datatype family =
    Pipeline_family string family "stage_facts list"
  | Tensor_family string array_facts
  | Tensors_family string "array_facts list"
  | Folder_family string folder_facts
  | Arrow_family string arrow_facts
  | Memmap_family string array_facts int bool file_facts
  | Parquet_family string string int "file_facts list"
  | Generic_family string "int option" pyval "int list option"

definition stage_item :: "string \<Rightarrow> stage_facts \<Rightarrow> fingerprint_element list" where
  "stage_item pre s =
    [el (pre @ ''.type'') (PStr (gf_type s)), el (pre @ ''.callable'') (gf_callable s),
     el (pre @ ''.input_type'') (PStr (gf_input_type s)), el (pre @ ''.output_type'') (PStr (gf_output_type s)),
     el (pre @ ''.io'') (gf_io s), el (pre @ ''.thread_safety'') (gf_thread_safety s)]"

definition folder_elements :: "path \<Rightarrow> string \<Rightarrow> string \<Rightarrow> folder_facts \<Rightarrow> fingerprint_element list" where
  "folder_elements cwd mode pre d =
    file_elements cwd mode (pre @ ''.files'') (of_root d) (map fst (of_samples d)) @
    indexed_elements (\<lambda>p (_, target). [el (p @ ''.target'') target]) (pre @ ''.files'') (of_samples d) @
    [el (pre @ ''.loader'') (of_loader d), el (pre @ ''.transform'') (of_transform d),
     el (pre @ ''.target_transform'') (of_target_transform d)]"

definition generic_elements :: "string \<Rightarrow> string \<Rightarrow> int option \<Rightarrow> pyval \<Rightarrow> int list option \<Rightarrow> fingerprint_element list" where
  "generic_elements mode pre len getitem pickled =
    [el (pre @ ''.length'') (optional_int len), el (pre @ ''.getitem'') getitem] @
    (if mode = ''strict''
     then [el (pre @ ''.content_sha256'') (PStr (case pickled of None \<Rightarrow> ''unavailable'' | Some b \<Rightarrow> sha256_hex b))] else [])"

fun dataset_elements :: "path \<Rightarrow> string \<Rightarrow> string \<Rightarrow> family \<Rightarrow> fingerprint_element list" where
  "dataset_elements cwd mode pre (Pipeline_family kind source stages) =
    el (pre @ ''.type'') (PStr kind) #
    dataset_elements cwd mode (pre @ ''.source'') source @
    [el (pre @ ''.stage_count'') (PInt (int (length stages)))] @
    indexed_elements stage_item (pre @ ''.stages'') stages"
| "dataset_elements cwd mode pre (Tensor_family kind a) =
    el (pre @ ''.type'') (PStr kind) # array_elements mode pre a"
| "dataset_elements cwd mode pre (Tensors_family kind tensors) =
    el (pre @ ''.type'') (PStr kind) #
    [el (pre @ ''.tensor_count'') (PInt (int (length tensors)))] @
    indexed_elements (array_elements mode) (pre @ ''.tensors'') tensors"
| "dataset_elements cwd mode pre (Folder_family kind d) =
    el (pre @ ''.type'') (PStr kind) # folder_elements cwd mode pre d"
| "dataset_elements cwd mode pre (Arrow_family kind r) =
    el (pre @ ''.type'') (PStr kind) # arrow_elements cwd mode pre r"
| "dataset_elements cwd mode pre (Memmap_family kind a offset fortran f) =
    el (pre @ ''.type'') (PStr kind) # array_elements mode pre a @
    [el (pre @ ''.offset'') (PInt offset), el (pre @ ''.order'') (PStr (if fortran then ''F'' else ''C''))] @
    file_elements cwd mode (pre @ ''.files'') None [f]"
| "dataset_elements cwd mode pre (Parquet_family kind schema rows fragments) =
    el (pre @ ''.type'') (PStr kind) # parquet_elements cwd mode pre schema rows fragments"
| "dataset_elements cwd mode pre (Generic_family kind len getitem pickled) =
    el (pre @ ''.type'') (PStr kind) # generic_elements mode pre len getitem pickled"

definition build_dataset_fingerprint :: "(rat \<Rightarrow> string) \<Rightarrow> path \<Rightarrow> string \<Rightarrow> family \<Rightarrow> contract_fingerprint res" where
  "build_dataset_fingerprint rf cwd mode dataset =
    (if mode \<notin> {''content'', ''strict''} then Inl (ValueError ''dataset fingerprint mode must be content or strict'')
     else make_fingerprint rf
       (el ''dataset.fingerprint_mode'' (PStr mode) # dataset_elements cwd mode ''dataset'' dataset))"

section \<open>The paths of the elements are distinct\<close>

abbreviation paths :: "fingerprint_element list \<Rightarrow> string list" where
  "paths es \<equiv> map fe_path es"

text \<open>Distinct paths, all of them below one string.\<close>

definition below :: "string \<Rightarrow> fingerprint_element list \<Rightarrow> bool" where
  "below p es \<longleftrightarrow> distinct (paths es) \<and> (\<forall>x \<in> set (paths es). prefix p x)"

definition apart :: "string \<Rightarrow> string \<Rightarrow> bool" where
  "apart p q \<longleftrightarrow> \<not> prefix p q \<and> \<not> prefix q p"

lemma below_Nil [simp]: "below p []" by (simp add: below_def)

lemma below_el [simp]: "below p [el q v] \<longleftrightarrow> prefix p q" by (simp add: below_def el_def)

lemma apart_same [simp]: "apart (p @ q) (p @ r) \<longleftrightarrow> apart q r" by (simp add: apart_def)

lemma apart_Cons [simp]: "apart (x # p) (y # q) \<longleftrightarrow> x \<noteq> y \<or> apart p q"
  by (auto simp: apart_def)

lemma apart_disjoint: "apart p q \<Longrightarrow> prefix p x \<Longrightarrow> prefix q y \<Longrightarrow> x \<noteq> y"
  by (auto simp: apart_def dest: prefix_same_cases)

lemma below_append:
  assumes "below p es" "below q fs" "apart p q" "prefix r p" "prefix r q"
  shows "below r (es @ fs)"
proof -
  have "set (paths es) \<inter> set (paths fs) = {}" using assms apart_disjoint [OF assms(3)] by (fastforce simp: below_def)
  moreover have "prefix r x" if "prefix p x \<or> prefix q x" for x using that assms(4,5) prefix_order.trans by blast
  ultimately show ?thesis using assms(1,2) by (auto simp: below_def)
qed

text \<open>Blocks of elements, each below a head of its own.\<close>

lemma below_blocks:
  "list_all2 (\<lambda>h es. below (p @ h) es) heads blocks \<Longrightarrow> sorted_wrt apart heads \<Longrightarrow> below p (concat blocks)"
proof (induction heads arbitrary: blocks)
  case (Cons h hs)
  then obtain b bs where bs: "blocks = b # bs" "below (p @ h) b" "list_all2 (\<lambda>h es. below (p @ h) es) hs bs"
    by (auto simp: list_all2_Cons1)
  have "x \<noteq> y" if "x \<in> set (paths b)" "y \<in> set (paths (concat bs))" for x y
  proof -
    obtain c where "c \<in> set bs" "y \<in> set (paths c)" using \<open>y \<in> set (paths (concat bs))\<close> by auto
    then obtain i where i: "i < length bs" "y \<in> set (paths (bs ! i))" by (auto simp: in_set_conv_nth)
    then have "below (p @ hs ! i) (bs ! i)" "apart h (hs ! i)"
      using bs(3) Cons.prems(2) by (auto simp: list_all2_conv_all_nth)
    with bs(2) that(1) i(2) show ?thesis by (intro apart_disjoint [of "p @ h" "p @ hs ! i"]) (auto simp: below_def)
  qed
  moreover have "below p (concat bs)" using Cons bs by simp
  moreover have "prefix p x" if "x \<in> set (paths b)" for x
    using that bs(2) append_prefixD by (auto simp: below_def)
  ultimately show ?case using bs(1,2) by (auto simp: below_def)
qed (auto simp: list_all2_conv_all_nth)

lemma no_bracket: "CHR '']'' \<notin> set (str_of_int (int i))"
proof -
  have "digit_char d \<noteq> CHR '']''" if "d < 10" for d
  proof
    assume "digit_char d = CHR '']''"
    from arg_cong [OF this, of "of_char :: char \<Rightarrow> nat"] digit_char_code [OF that] that show False by simp
  qed
  then show ?thesis using digits_of_chars [of i] by (fastforce simp: str_of_int_def)
qed

lemma bracket_prefix:
  "c \<notin> set a \<Longrightarrow> c \<notin> set b \<Longrightarrow> prefix (a @ [c]) (b @ [c]) \<longleftrightarrow> a = b"
proof (induction a arbitrary: b)
  case Nil
  then show ?case by (cases b) auto
next
  case (Cons x a)
  then show ?case by (cases b) auto
qed

lemma indexed_apart: "i \<noteq> j \<Longrightarrow> apart (indexed p i) (indexed p j)"
  using bracket_prefix [OF no_bracket no_bracket, of i j] bracket_prefix [OF no_bracket no_bracket, of j i]
  by (auto simp: indexed_def apart_def)

lemma below_indexed:
  assumes "\<And>q x. x \<in> set xs \<Longrightarrow> below q (F q x)"
  shows "below (p @ ''['') (indexed_elements F p xs)"
proof -
  define heads where "heads = map (\<lambda>i. str_of_int (int i) @ '']'') [0..<length xs]"
  have "sorted_wrt apart heads"
    unfolding heads_def sorted_wrt_map
  proof (rule sorted_wrt_mono_rel [OF _ sorted_wrt_upt])
    fix i j :: nat
    assume "i < j"
    then show "apart (str_of_int (int i) @ '']'') (str_of_int (int j) @ '']'')" using indexed_apart [of i j p] by (simp add: indexed_def)
  qed
  moreover have "list_all2 (\<lambda>h es. below ((p @ ''['') @ h) es) heads (map (\<lambda>(i, x). F (indexed p i) x) (enumerate 0 xs))"
    using assms by (auto simp: list_all2_conv_all_nth heads_def nth_enumerate_eq indexed_def)
  ultimately show ?thesis unfolding indexed_elements_def by (rule below_blocks [rotated])
qed

lemma below_concat:
  "\<exists>heads. list_all2 (\<lambda>h es. below (p @ h) es) heads blocks \<and> sorted_wrt apart heads \<Longrightarrow> es = concat blocks \<Longrightarrow> below p es"
  using below_blocks by blast

lemma below_weaken: "below (p @ q) es \<Longrightarrow> below p es"
  by (auto simp: below_def dest: append_prefixD)

lemma file_item_below: "below q (file_item base mode q f)"
  by (auto simp: file_item_def el_def below_def)

lemma array_elements_below: "below q (array_elements mode q a)"
  by (auto simp: array_elements_def el_def below_def)

lemma stage_item_below: "below q (stage_item q s)"
  by (simp add: stage_item_def el_def below_def)

lemma file_elements_below: "below p (file_elements cwd mode p explicit_base files)"
  unfolding file_elements_def
  by (rule below_concat [of _ "[[el (p @ ''.root_kind'') (PStr ''dataset-relative'')], [el (p @ ''.count'') (PInt (int (length files)))],
        indexed_elements (file_item (dataset_root cwd files explicit_base) mode) p files]"],
      rule exI [of _ "[''.root_kind'', ''.count'', ''['']"])
    (simp_all add: below_indexed file_item_below)

text \<open>The files of a folder and their targets have the same indices and different last parts.\<close>

lemma folder_files_below:
  "below p (file_elements cwd mode p explicit_base (map fst samples) @
    indexed_elements (\<lambda>q (_, target). [el (q @ ''.target'') target]) p samples)"
proof -
  let ?files = "file_elements cwd mode p explicit_base (map fst samples)"
  let ?target = "\<lambda>q (_ :: file_facts, target). [el (q @ ''.target'') target]"
  have targets: "below (p @ ''['') (indexed_elements ?target p samples)" by (rule below_indexed) auto
  have "x \<noteq> y" if x: "x \<in> set (paths ?files)" and y: "y \<in> set (paths (indexed_elements ?target p samples))" for x y
  proof -
    obtain j where j: "y = indexed p j @ ''.target''" using y by (auto simp: indexed_elements_def el_def set_zip)
    from x consider "x = p @ ''.root_kind''" | "x = p @ ''.count''"
      | i s where "x = indexed p i @ s" "s \<in> {''.path'', ''.size'', ''.sha256''}"
      by (auto simp: file_elements_def indexed_elements_def file_item_def el_def split: if_splits)
    then show ?thesis
    proof cases
      case (3 i s)
      show ?thesis
      proof (cases "i = j")
        case False
        from indexed_apart [OF this, of p] show ?thesis by (rule apart_disjoint) (simp_all add: 3 j)
      qed (use 3 j in auto)
    qed (simp_all add: j indexed_def)
  qed
  then show ?thesis using file_elements_below [of p cwd mode explicit_base "map fst samples"] below_weaken [OF targets]
    by (auto simp: below_def)
qed

text \<open>Every family, with the mode in front.\<close>

lemma dataset_elements_below:
  "below p (el (p @ ''.fingerprint_mode'') m # dataset_elements cwd mode p v)"
proof (induction v arbitrary: p m)
  case (Pipeline_family kind source stages)
  have source: "below (p @ ''.source'') (dataset_elements cwd mode (p @ ''.source'') source)"
    using Pipeline_family [of "p @ ''.source''" PNone] by (simp add: below_def el_def)
  show ?case
    by (rule below_concat [of _ "[[el (p @ ''.fingerprint_mode'') m], [el (p @ ''.type'') (PStr kind)],
        dataset_elements cwd mode (p @ ''.source'') source, [el (p @ ''.stage_count'') (PInt (int (length stages)))],
        indexed_elements stage_item (p @ ''.stages'') stages]"],
      rule exI [of _ "[''.fingerprint_mode'', ''.type'', ''.source'', ''.stage_count'', ''.stages['']"])
      (use source below_indexed [of stages stage_item "p @ ''.stages''"] stage_item_below in \<open>simp_all\<close>)
next
  case (Tensor_family kind a)
  then show ?case by (auto simp: array_elements_def el_def below_def)
next
  case (Tensors_family kind tensors)
  show ?case
    by (rule below_concat [of _ "[[el (p @ ''.fingerprint_mode'') m], [el (p @ ''.type'') (PStr kind)],
        [el (p @ ''.tensor_count'') (PInt (int (length tensors)))], indexed_elements (array_elements mode) (p @ ''.tensors'') tensors]"],
      rule exI [of _ "[''.fingerprint_mode'', ''.type'', ''.tensor_count'', ''.tensors['']"])
      (use below_indexed [of tensors "array_elements mode" "p @ ''.tensors''"] array_elements_below in \<open>simp_all\<close>)
next
  case (Folder_family kind d)
  show ?case
    by (rule below_concat [of _ "[[el (p @ ''.fingerprint_mode'') m], [el (p @ ''.type'') (PStr kind)],
        file_elements cwd mode (p @ ''.files'') (of_root d) (map fst (of_samples d)) @
          indexed_elements (\<lambda>p (_, target). [el (p @ ''.target'') target]) (p @ ''.files'') (of_samples d),
        [el (p @ ''.loader'') (of_loader d)], [el (p @ ''.transform'') (of_transform d)],
        [el (p @ ''.target_transform'') (of_target_transform d)]]"],
      rule exI [of _ "[''.fingerprint_mode'', ''.type'', ''.files'', ''.loader'', ''.transform'', ''.target_transform'']"])
      (use folder_files_below [of "p @ ''.files''"] in \<open>simp_all add: folder_elements_def\<close>)
next
  case (Arrow_family kind r)
  let ?files = "if rf_cache_files r \<noteq> [] then file_elements cwd mode (p @ ''.files'') None (rf_cache_files r) else []"
  let ?digest = "if mode = ''strict'' then [el (p @ ''.content_sha256'') (PStr (sha256_hex (concat (rf_buffers r))))] else []"
  show ?case
    by (rule below_concat [of _ "[[el (p @ ''.fingerprint_mode'') m], [el (p @ ''.type'') (PStr kind)],
        [el (p @ ''.schema'') (PStr (rf_schema r))], [el (p @ ''.row_count'') (PInt (rf_row_count r))],
        [el (p @ ''.format_type'') (rf_format_type r)], [el (p @ ''.format_columns'') (rf_format_columns r)],
        [el (p @ ''.output_all_columns'') (PBool (rf_output_all_columns r))], [el (p @ ''.format_kwargs'') (rf_format_kwargs r)],
        ?files, ?digest]"],
      rule exI [of _ "[''.fingerprint_mode'', ''.type'', ''.schema'', ''.row_count'', ''.format_type'', ''.format_columns'',
        ''.output_all_columns'', ''.format_kwargs'', ''.files'', ''.content_sha256'']"])
      (simp_all add: arrow_elements_def file_elements_below)
next
  case (Memmap_family kind a offset fortran f)
  let ?digest = "if mode = ''strict'' then [el (p @ ''.content_sha256'') (PStr (sha256_hex (af_bytes a)))] else []"
  show ?case
    by (rule below_concat [of _ "[[el (p @ ''.fingerprint_mode'') m], [el (p @ ''.type'') (PStr kind)],
        [el (p @ ''.shape'') (int_list (af_shape a))], [el (p @ ''.dtype'') (PStr (af_dtype a))], ?digest,
        [el (p @ ''.offset'') (PInt offset)], [el (p @ ''.order'') (PStr (if fortran then ''F'' else ''C''))],
        file_elements cwd mode (p @ ''.files'') None [f]]"],
      rule exI [of _ "[''.fingerprint_mode'', ''.type'', ''.shape'', ''.dtype'', ''.content_sha256'', ''.offset'', ''.order'', ''.files'']"])
      (simp_all add: array_elements_def file_elements_below)
next
  case (Parquet_family kind schema rows fragments)
  show ?case
    by (rule below_concat [of _ "[[el (p @ ''.fingerprint_mode'') m], [el (p @ ''.type'') (PStr kind)],
        [el (p @ ''.schema'') (PStr schema)], [el (p @ ''.row_count'') (PInt rows)],
        file_elements cwd mode (p @ ''.files'') None fragments]"],
      rule exI [of _ "[''.fingerprint_mode'', ''.type'', ''.schema'', ''.row_count'', ''.files'']"])
      (simp_all add: parquet_elements_def file_elements_below)
next
  case (Generic_family kind len getitem pickled)
  then show ?case by (auto simp: generic_elements_def el_def below_def)
qed

text \<open>
  The fingerprint of a dataset is refused for its mode or for a value that is not canonical JSON, never for its paths:
  whatever the family, the nesting of pipelines and the number of files, tensors and stages, each element
  has a path of its own.
\<close>

theorem dataset_fingerprint_total:
  "build_dataset_fingerprint rf cwd mode dataset =
    (if mode \<notin> {''content'', ''strict''} then Inl (ValueError ''dataset fingerprint mode must be content or strict'')
     else
       let elements = el ''dataset.fingerprint_mode'' (PStr mode) # dataset_elements cwd mode ''dataset'' dataset
       in rmap (\<lambda>_. \<lparr>cf_elements = elements\<rparr>) (canonical_bytes rf elements))"
proof -
  have "distinct (paths (el ''dataset.fingerprint_mode'' (PStr mode) # dataset_elements cwd mode ''dataset'' dataset))"
    using dataset_elements_below [of "''dataset''" "PStr mode" cwd mode dataset] by (simp add: below_def)
  then show ?thesis by (simp only: build_dataset_fingerprint_def make_fingerprint_def Let_def) simp
qed

section \<open>What the fingerprint does not depend on\<close>

text \<open>A dataset moved below another directory, and one whose contents are left out.\<close>

definition move_file :: "path \<Rightarrow> file_facts \<Rightarrow> file_facts" where
  "move_file p f = f\<lparr>ff_dir := p @ ff_dir f\<rparr>"

fun relocate :: "path \<Rightarrow> family \<Rightarrow> family" where
  "relocate p (Pipeline_family kind source stages) = Pipeline_family kind (relocate p source) stages"
| "relocate p (Folder_family kind d) =
    Folder_family kind
      (d\<lparr>of_samples := map (\<lambda>(f, target). (move_file p f, target)) (of_samples d), of_root := map_option ((@) p) (of_root d)\<rparr>)"
| "relocate p (Arrow_family kind r) = Arrow_family kind (r\<lparr>rf_cache_files := map (move_file p) (rf_cache_files r)\<rparr>)"
| "relocate p (Memmap_family kind a offset fortran f) = Memmap_family kind a offset fortran (move_file p f)"
| "relocate p (Parquet_family kind schema rows fragments) = Parquet_family kind schema rows (map (move_file p) fragments)"
| "relocate p v = v"

definition blank_file :: "file_facts \<Rightarrow> file_facts" where
  "blank_file f = f\<lparr>ff_bytes := []\<rparr>"

definition blank_array :: "array_facts \<Rightarrow> array_facts" where
  "blank_array a = a\<lparr>af_bytes := []\<rparr>"

fun blank :: "family \<Rightarrow> family" where
  "blank (Pipeline_family kind source stages) = Pipeline_family kind (blank source) stages"
| "blank (Tensor_family kind a) = Tensor_family kind (blank_array a)"
| "blank (Tensors_family kind tensors) = Tensors_family kind (map blank_array tensors)"
| "blank (Folder_family kind d) =
    Folder_family kind (d\<lparr>of_samples := map (\<lambda>(f, target). (blank_file f, target)) (of_samples d)\<rparr>)"
| "blank (Arrow_family kind r) =
    Arrow_family kind (r\<lparr>rf_cache_files := map blank_file (rf_cache_files r), rf_buffers := []\<rparr>)"
| "blank (Memmap_family kind a offset fortran f) = Memmap_family kind (blank_array a) offset fortran (blank_file f)"
| "blank (Parquet_family kind schema rows fragments) = Parquet_family kind schema rows (map blank_file fragments)"
| "blank (Generic_family kind len getitem pickled) = Generic_family kind len getitem None"

lemma common_prefix_append: "common_prefix (p @ xs) (p @ ys) = p @ common_prefix xs ys"
  by (induction p) simp_all

lemma fold_common_prefix: "fold common_prefix (map ((@) p) ds) (p @ d) = p @ fold common_prefix ds d"
  by (induction ds arbitrary: d) (simp_all add: common_prefix_append)

lemma relative_path_append: "relative_path (p @ base) (p @ path) = relative_path base path"
  by (simp add: relative_path_def common_prefix_append Let_def)

lemma indexed_elements_map: "indexed_elements F p (map g xs) = indexed_elements (\<lambda>q x. F q (g x)) p xs"
  by (simp add: indexed_elements_def enumerate_map_upt [symmetric] zip_map2 enumerate_eq_zip comp_def split_def)

lemma indexed_elements_cong: "(\<And>q x. x \<in> set xs \<Longrightarrow> F q x = G q x) \<Longrightarrow> indexed_elements F p xs = indexed_elements G p xs"
  unfolding indexed_elements_def by (intro arg_cong [of _ _ concat] map_cong) (auto simp: enumerate_eq_zip dest: set_zip_rightD)

lemma file_item_moved: "file_item (q @ base) mode p (move_file q f) = file_item base mode p f"
  by (simp add: file_item_def move_file_def relative_path_append)

lemma moved_root:
  assumes "files \<noteq> []"
  shows "dataset_root cwd (map (move_file q) files) (map_option ((@) q) explicit_base) = q @ dataset_root cwd' files explicit_base"
proof -
  have "map ff_dir (map (move_file q) files) = map ((@) q) (map ff_dir files)" by (simp add: move_file_def)
  with assms show ?thesis
    by (auto simp: dataset_root_def fold_common_prefix simp del: map_map split: option.splits list.splits)
qed

lemma file_elements_moved:
  "file_elements cwd mode p (map_option ((@) q) explicit_base) (map (move_file q) files) =
   file_elements cwd' mode p explicit_base files"
proof (cases "files = []")
  case True
  then show ?thesis by (simp add: file_elements_def indexed_elements_def)
next
  case False
  from moved_root [OF this, of cwd q explicit_base cwd'] show ?thesis
    by (simp add: file_elements_def indexed_elements_map file_item_moved)
qed

lemma file_elements_moved_none:
  "file_elements cwd mode p None (map (move_file q) files) = file_elements cwd' mode p None files"
  using file_elements_moved [of cwd mode p q None files cwd'] by simp

lemma dataset_elements_moved: "dataset_elements cwd mode p (relocate q v) = dataset_elements cwd' mode p v"
proof (induction v arbitrary: p)
  case (Folder_family kind d)
  have "map fst (map (\<lambda>(f, target). (move_file q f, target)) (of_samples d)) = map (move_file q) (map fst (of_samples d))" by auto
  then show ?case
    using file_elements_moved [of cwd mode "p @ ''.files''" q "of_root d" "map fst (of_samples d)" cwd']
    by (simp add: folder_elements_def indexed_elements_map split_def del: map_map)
next
  case (Arrow_family kind r)
  then show ?case by (simp add: arrow_elements_def file_elements_moved_none [of cwd _ _ _ _ cwd'])
next
  case (Memmap_family kind a offset fortran f)
  then show ?case using file_elements_moved_none [of cwd mode "p @ ''.files''" q "[f]" cwd'] by simp
next
  case (Parquet_family kind schema rows fragments)
  then show ?case by (simp add: parquet_elements_def file_elements_moved_none [of cwd _ _ _ _ cwd'])
qed simp_all

lemma file_item_blank: "file_item base ''content'' q (blank_file f) = file_item base ''content'' q f"
  by (simp add: file_item_def blank_file_def)

lemma file_elements_blank: "file_elements cwd ''content'' p explicit_base (map blank_file files) = file_elements cwd ''content'' p explicit_base files"
proof -
  have "map ff_dir (map blank_file files) = map ff_dir files" by (simp add: blank_file_def)
  then have "dataset_root cwd (map blank_file files) explicit_base = dataset_root cwd files explicit_base"
    by (simp only: dataset_root_def)
  then show ?thesis by (simp add: file_elements_def indexed_elements_map file_item_blank)
qed

lemma dataset_elements_blank: "dataset_elements cwd ''content'' p (blank v) = dataset_elements cwd ''content'' p v"
proof (induction v arbitrary: p)
  case (Tensors_family kind tensors)
  have "indexed_elements (\<lambda>q a. array_elements ''content'' q (blank_array a)) p tensors = indexed_elements (array_elements ''content'') p tensors" for p
    by (rule indexed_elements_cong) (simp add: array_elements_def blank_array_def)
  then show ?case by (simp add: indexed_elements_map)
next
  case (Folder_family kind d)
  have "map fst (map (\<lambda>(f, target). (blank_file f, target)) (of_samples d)) = map blank_file (map fst (of_samples d))" by auto
  then show ?case
    using file_elements_blank [of cwd "p @ ''.files''" "of_root d" "map fst (of_samples d)"]
    by (simp add: folder_elements_def indexed_elements_map split_def del: map_map)
next
  case (Memmap_family kind a offset fortran f)
  then show ?case using file_elements_blank [of cwd "p @ ''.files''" None "[f]"] by (simp add: array_elements_def blank_array_def)
qed (simp_all add: array_elements_def blank_array_def arrow_elements_def parquet_elements_def generic_elements_def file_elements_blank)


text \<open>Strict mode sees what content mode does not: another digest of a tensor's bytes.\<close>

lemma strict_sees_content:
  "sha256_hex b \<noteq> sha256_hex c \<Longrightarrow>
   dataset_elements cwd ''strict'' p (Tensor_family kind (a\<lparr>af_bytes := b\<rparr>)) \<noteq>
   dataset_elements cwd ''strict'' p (Tensor_family kind (a\<lparr>af_bytes := c\<rparr>))"
  by (simp add: array_elements_def el_def)

end
