(* ===== verification/WorkerLoop.thy ===== *)
theory WorkerLoop
  imports Worker
begin

text \<open>
  The life of one worker process (\<^verbatim>\<open>worker_main\<close> and \<^verbatim>\<open>run_commands\<close> of \<^verbatim>\<open>process/worker.py\<close>): start-up with the
  construction probe, the attachment to its endpoint, and the loop over commands until the owner says stop.
\<close>

section \<open>The loop\<close>

text \<open>
  What each turn of the loop finds: a message on the control channel, nothing, or a command with the attempts
  to publish its completion, each with what the control channel holds after it failed.
\<close>

datatype 'a turn = Control_turn control | Quiet_turn | Command_turn "'a dispatch" "(bool \<times> control option) list"

datatype worker_status = Looping | Publishing | Left | Crashed py_error

record ('a, 'v) worker_loop =
  wl_probe_values :: "('v \<times> int) list"
  wl_published :: "('a dispatch \<times> 'v outcome) list"
  wl_signals :: nat

fun run_commands ::
    "('s, 'b, 'a, 'v) user_code \<Rightarrow> ('v \<Rightarrow> array_facts) \<Rightarrow> int \<Rightarrow> layout option \<Rightarrow> py_error option \<Rightarrow> int option \<Rightarrow>
     'a turn list \<Rightarrow> ('a, 'v) worker_loop \<Rightarrow> ('a, 'v) worker_loop \<times> worker_status" where
  "run_commands uc facts root_seed layout startup stride [] s = (s, Looping)"
| "run_commands uc facts root_seed layout startup stride (Control_turn c # turns) s =
    (s, if c = Stop then Left else Crashed (RuntimeError ''worker received an invalid control command''))"
| "run_commands uc facts root_seed layout startup stride (Quiet_turn # turns) s =
    run_commands uc facts root_seed layout startup stride turns s"
| "run_commands uc facts root_seed layout startup stride (Command_turn d attempts # turns) s =
    (case run_command uc facts root_seed layout startup d (wl_probe_values s) of
       (probe_values, outcome, _) \<Rightarrow>
         let s = s\<lparr>wl_probe_values := probe_values\<rparr> in
         (case publish_completion stride d attempts of
           None \<Rightarrow> (s, Publishing)
         | Some (Failed e) \<Rightarrow> (s, Crashed e)
         | Some Stopped \<Rightarrow> run_commands uc facts root_seed layout startup stride turns s
         | Some (Published signal) \<Rightarrow>
             run_commands uc facts root_seed layout startup stride turns
               (s\<lparr>wl_published := wl_published s @ [(d, outcome)], wl_signals := wl_signals s + (if signal then 1 else 0)\<rparr>)))"

section \<open>Start-up\<close>

text \<open>The reply to the construction probe: what was raised or the value, its layout, its shape and its cost.\<close>

record 'v probe_reply =
  pr_outcome :: "'v outcome"
  pr_layout :: "layout option"
  pr_shape :: pyval
  pr_cost_ns :: int

datatype first_command = Stop_first | Attach "layout option" | Other_first

definition construction_probe ::
    "('s, 'b, 'a, 'v) user_code \<Rightarrow> ('v \<Rightarrow> array_facts) \<Rightarrow> (pyval \<Rightarrow> 'v \<Rightarrow> pyval) \<Rightarrow> int \<Rightarrow> int option \<Rightarrow> py_error option \<Rightarrow>
     int \<Rightarrow> int \<times> int \<times> 'a \<Rightarrow> 'v probe_reply" where
  "construction_probe uc facts shape root_seed delivery_batch_size startup cost probe =
    (case startup of
       Some e \<Rightarrow> \<lparr>pr_outcome = Raised e, pr_layout = None, pr_shape = PNone, pr_cost_ns = 1\<rparr>
     | None \<Rightarrow>
         (case probe of (epoch, position, index) \<Rightarrow>
            (case evaluate_sample uc root_seed epoch position index of
              Inl e \<Rightarrow> \<lparr>pr_outcome = Raised e, pr_layout = None, pr_shape = PNone, pr_cost_ns = max 1 cost\<rparr>
            | Inr v \<Rightarrow>
                \<lparr>pr_outcome = Ready v, pr_layout = batch_layout (facts v),
                 pr_shape = shape (case delivery_batch_size of None \<Rightarrow> PNone | Some b \<Rightarrow> PInt b) v, pr_cost_ns = max 1 cost\<rparr>)))"

definition probe_values_of :: "'v probe_reply option \<Rightarrow> ('v \<times> int) list" where
  "probe_values_of reply =
    (case reply of
       None \<Rightarrow> []
     | Some r \<Rightarrow> (case pr_outcome r of Ready v \<Rightarrow> [(v, pr_cost_ns r)] | _ \<Rightarrow> []))"

definition worker_main ::
    "('s, 'b, 'a, 'v) user_code \<Rightarrow> ('v \<Rightarrow> array_facts) \<Rightarrow> (pyval \<Rightarrow> 'v \<Rightarrow> pyval) \<Rightarrow> int \<Rightarrow> int option \<Rightarrow> int option \<Rightarrow>
     py_error option \<Rightarrow> int \<Rightarrow> (int \<times> int \<times> 'a) option \<Rightarrow> first_command \<Rightarrow> 'a turn list \<Rightarrow>
     'v probe_reply option \<times> ('a, 'v) worker_loop \<times> worker_status" where
  "worker_main uc facts shape root_seed stride delivery_batch_size startup cost probe first turns =
    (let reply = map_option (construction_probe uc facts shape root_seed delivery_batch_size startup cost) probe;
         s = \<lparr>wl_probe_values = probe_values_of reply, wl_published = [], wl_signals = 0\<rparr>
     in (reply,
         case first of
           Stop_first \<Rightarrow> (s, Left)
         | Other_first \<Rightarrow> (s, Crashed (RuntimeError ''worker received an invalid control command''))
         | Attach layout \<Rightarrow> run_commands uc facts root_seed layout startup stride turns s))"

section \<open>What a worker answers\<close>

text \<open>The commands of a run whose completion the endpoint takes, up to where the loop ends.\<close>

fun taken_commands :: "int option \<Rightarrow> 'a turn list \<Rightarrow> 'a dispatch list" where
  "taken_commands stride [] = []"
| "taken_commands stride (Control_turn c # turns) = []"
| "taken_commands stride (Quiet_turn # turns) = taken_commands stride turns"
| "taken_commands stride (Command_turn d attempts # turns) =
    (case publish_completion stride d attempts of
       None \<Rightarrow> []
     | Some (Failed e) \<Rightarrow> []
     | Some Stopped \<Rightarrow> taken_commands stride turns
     | Some (Published signal) \<Rightarrow> d # taken_commands stride turns)"

text \<open>The value a retained probe has when the sample is read again.\<close>

definition probe_faithful :: "('s, 'b, 'a, 'v) user_code \<Rightarrow> int \<Rightarrow> 'a turn list \<Rightarrow> ('v \<times> int) list \<Rightarrow> bool" where
  "probe_faithful uc root_seed turns probe_values \<longleftrightarrow>
    (\<forall>d attempts. Command_turn d attempts \<in> set turns \<longrightarrow>
       (\<forall>v \<in> fst ` set probe_values. evaluate_sample uc root_seed (dp_epoch d) 0 (uc_native uc 0) = Inr v))"

lemma evaluate_rows_faithful:
  assumes "\<forall>v \<in> fst ` set probe_values. evaluate_sample uc root_seed epoch 0 (uc_native uc 0) = Inr v"
  shows "snd (snd (evaluate_rows uc root_seed epoch positions probe_values acc retained)) =
      snd (snd (evaluate_rows uc root_seed epoch positions [] acc 0)) \<and>
    set (fst (evaluate_rows uc root_seed epoch positions probe_values acc retained)) \<subseteq> set probe_values"
  using assms
proof (induction positions arbitrary: probe_values acc retained)
  case (Cons p ps)
  have empty: "snd (snd (evaluate_rows uc root_seed epoch ps [] acc r)) = snd (snd (evaluate_rows uc root_seed epoch ps [] acc 0))" for acc r
    using Cons.IH [of "[]" acc r] by simp
  show ?case
  proof (cases "p = 0 \<and> probe_values \<noteq> []")
    case True
    obtain v c where l: "last probe_values = (v, c)" by fastforce
    with True have "v \<in> fst ` set probe_values" using last_in_set [of probe_values] by force
    with Cons.prems have v: "evaluate_sample uc root_seed epoch 0 (uc_native uc 0) = Inr v" by blast
    have sub: "set (butlast probe_values) \<subseteq> set probe_values" by (auto dest: in_set_butlastD)
    with Cons.prems have "\<forall>v \<in> fst ` set (butlast probe_values). evaluate_sample uc root_seed epoch 0 (uc_native uc 0) = Inr v" by blast
    from Cons.IH [OF this, of "acc @ [v]" c] True l v sub show ?thesis by auto
  next
    case False
    then show ?thesis
      using Cons.IH [OF Cons.prems] empty by (cases "evaluate_sample uc root_seed epoch p (uc_native uc p)") auto
  qed
qed simp

lemma run_command_faithful:
  assumes "\<forall>v \<in> fst ` set probe_values. evaluate_sample uc root_seed (dp_epoch d) 0 (uc_native uc 0) = Inr v"
    and "run_command uc facts root_seed layout startup d probe_values = (rest, outcome, retained)"
  shows "outcome = fst (snd (run_command uc facts root_seed layout startup d [])) \<and> set rest \<subseteq> set probe_values"
proof -
  let ?rows = "\<lambda>pv. evaluate_rows uc root_seed (dp_epoch d) (irange (dp_index d) (dp_index d + dp_batch_len d)) pv [] 0"
  from evaluate_rows_faithful [OF assms(1), of "irange (dp_index d) (dp_index d + dp_batch_len d)" "[]" 0]
  have rows: "snd (snd (?rows probe_values)) = snd (snd (?rows []))" "set (fst (?rows probe_values)) \<subseteq> set probe_values" by auto
  obtain a b c where abc: "?rows probe_values = (a, b, c)" by (metis prod_cases3)
  obtain a' b' where abc': "?rows [] = (a', b', c)" using rows(1) abc by (metis prod_cases3 snd_conv)
  from assms(2) rows(2) abc abc' show ?thesis
    by (auto simp: run_command_def evaluate_dispatch_def split: option.splits if_splits sum.splits)
qed

lemma run_commands_published:
  "probe_faithful uc root_seed turns (wl_probe_values s) \<Longrightarrow>
   run_commands uc facts root_seed layout startup stride turns s = (t, status) \<Longrightarrow>
   wl_published t = wl_published s @
     map (\<lambda>d. (d, fst (snd (run_command uc facts root_seed layout startup d [])))) (taken_commands stride turns)"
proof (induction turns arbitrary: s)
  case (Cons turn turns)
  show ?case
  proof (cases turn)
    case (Command_turn d attempts)
    obtain rest outcome retained where run: "run_command uc facts root_seed layout startup d (wl_probe_values s) = (rest, outcome, retained)"
      by (metis prod_cases3)
    have "\<forall>v \<in> fst ` set (wl_probe_values s). evaluate_sample uc root_seed (dp_epoch d) 0 (uc_native uc 0) = Inr v"
      using Cons.prems(1) Command_turn by (auto simp: probe_faithful_def)
    note one = run_command_faithful [OF this run]
    have later: "probe_faithful uc root_seed turns rest"
      using Cons.prems(1) one by (fastforce simp: probe_faithful_def)
    let ?s = "s\<lparr>wl_probe_values := rest\<rparr>"
    show ?thesis
    proof (cases "publish_completion stride d attempts")
      case None
      then show ?thesis using Cons.prems(2) run by (auto simp: Command_turn)
    next
      case (Some p)
      show ?thesis
      proof (cases p)
        case (Published signal)
        let ?t = "?s\<lparr>wl_published := wl_published s @ [(d, outcome)], wl_signals := wl_signals s + (if signal then 1 else 0)\<rparr>"
        have "run_commands uc facts root_seed layout startup stride turns ?t = (t, status)"
          using Cons.prems(2) run Some Published by (simp add: Command_turn Let_def)
        from Cons.IH [OF _ this] later one Some Published show ?thesis by (simp add: Command_turn)
      next
        case Stopped
        have "run_commands uc facts root_seed layout startup stride turns ?s = (t, status)"
          using Cons.prems(2) run Some Stopped by (simp add: Command_turn)
        from Cons.IH [OF _ this] later Some Stopped show ?thesis by (simp add: Command_turn)
      next
        case (Failed e)
        then show ?thesis using Cons.prems(2) run Some by (auto simp: Command_turn)
      qed
    qed
  qed (use Cons in \<open>auto simp: probe_faithful_def\<close>)
qed simp


lemma quiet_turns: "run_commands uc facts root_seed layout startup stride (replicate n Quiet_turn) s = (s, Looping)"
  by (induction n) simp_all

text \<open>
  A stop that arrives while a completion is retried is read and forgotten: the completion is dropped, and the worker goes on as
  if nothing had been asked, for as long as the owner says nothing more.
\<close>

theorem stop_while_publishing_lost:
  "\<exists>s'. run_commands uc facts root_seed layout startup stride (Command_turn d [(False, Some Stop)] # replicate n Quiet_turn) s = (s', Looping) \<and>
     wl_published s' = wl_published s"
proof -
  obtain rest outcome retained where "run_command uc facts root_seed layout startup d (wl_probe_values s) = (rest, outcome, retained)"
    by (metis prod_cases3)
  then show ?thesis by (simp add: Let_def quiet_turns)
qed

text \<open>Two commands of a worker that keeps its probe, one of them published at the second attempt.\<close>

definition constant_code :: "(unit, unit, int, int) user_code" where
  "constant_code = \<lparr>uc_next = \<lambda>u. (u, Inl StopIteration), uc_next_batch = \<lambda>u. (u, Inl StopIteration),
     uc_tuple = \<lambda>_. None, uc_dumps = \<lambda>_. Inr [], uc_native = id, uc_getitem = \<lambda>_ i. Inr (10 * i),
     uc_collate_fn = None, uc_default_collate = \<lambda>vs. Inr (sum_list vs)\<rparr>"

definition batch_command :: "int \<Rightarrow> int dispatch" where
  "batch_command start = \<lparr>dp_stage_plan = BLACK_BOX_STAGE, dp_epoch = 3, dp_position = 0, dp_index = start, dp_batch_len = 2,
     dp_command = Inl ZeroDivisionError\<rparr>"


end
