(* ===== verification/Columns.thy ===== *)
theory Columns
  imports Config
begin

text \<open>
  Batches of columns (\<^verbatim>\<open>planner/structured/columns.py\<close>) against batches of rows (\<^verbatim>\<open>default_collate\<close>, the engine's
  mirror of it in \<^verbatim>\<open>src/engine/src/collate/\<close>), and the adapters that read both (\<^verbatim>\<open>parquet.py\<close>,
  \<^verbatim>\<open>tensor_dataset.py\<close>, \<^verbatim>\<open>numpy_memmap.py\<close>).  \<open>tensor\<close> is \<^verbatim>\<open>torch.tensor\<close> with the dtype it is given, if any.
\<close>

section \<open>Cells and batches\<close>

datatype cell =
    CNone | CBool bool | CInt int | CFloat rat | CStr string | CBytes "int list"
  | CDict "(string \<times> cell) list" | CList "cell list" | CTuple "cell list" | COther nat

datatype tensor_dtype = Bool_dtype | Int64_dtype | Float64_dtype

datatype 't batch_value = BTensor 't | BRaw "cell list" | BDict "(string \<times> 't batch_value) list" | BSeq "'t batch_value list"

type_synonym 't tensor_api = "tensor_dtype option \<Rightarrow> cell list \<Rightarrow> 't res"

text \<open>\<^verbatim>\<open>item[key]\<close>, \<^verbatim>\<open>len(item)\<close> and \<^verbatim>\<open>item[index]\<close>.\<close>

fun cell_field :: "string \<Rightarrow> cell \<Rightarrow> cell res" where
  "cell_field key (CDict d) = (case map_of d key of None \<Rightarrow> Inl (KeyError key) | Some v \<Rightarrow> Inr v)"
| "cell_field key _ = Inl (TypeError ''indices must be integers'')"

fun cell_len :: "cell \<Rightarrow> nat res" where
  "cell_len (CList xs) = Inr (length xs)"
| "cell_len (CTuple xs) = Inr (length xs)"
| "cell_len (CStr s) = Inr (length s)"
| "cell_len (CBytes b) = Inr (length b)"
| "cell_len (CDict d) = Inr (length d)"
| "cell_len _ = Inl (TypeError ''object has no len()'')"

fun cell_at :: "nat \<Rightarrow> cell \<Rightarrow> cell res" where
  "cell_at i (CList xs) = (if i < length xs then Inr (xs ! i) else Inl (IndexError ''list index out of range''))"
| "cell_at i (CTuple xs) = (if i < length xs then Inr (xs ! i) else Inl (IndexError ''tuple index out of range''))"
| "cell_at i (CStr s) = (if i < length s then Inr (CStr [s ! i]) else Inl (IndexError ''string index out of range''))"
| "cell_at i (CBytes b) = (if i < length b then Inr (CInt (b ! i)) else Inl (IndexError ''index out of range''))"
| "cell_at i (CDict d) = Inl (KeyError ''index'')"
| "cell_at i _ = Inl (TypeError ''object is not subscriptable'')"

fun sequence_items :: "cell \<Rightarrow> cell list option" where
  "sequence_items (CList xs) = Some xs"
| "sequence_items (CTuple xs) = Some xs"
| "sequence_items _ = None"

lemma sequence_cell: "sequence_items c = Some xs \<Longrightarrow> cell_len c = Inr (length xs) \<and> (i < length xs \<longrightarrow> cell_at i c = Inr (xs ! i))"
  by (cases c) auto

text \<open>The parts of a cell are smaller, which ends both recursions: they follow the first row.\<close>

lemma field_smaller: "cell_field key c = Inr v \<Longrightarrow> size v < size c"
proof (cases c)
  case (CDict d)
  assume "cell_field key c = Inr v"
  then have "(key, v) \<in> set d" by (auto simp: CDict split: option.splits dest: map_of_SomeD)
  then have "size v < Suc (size_list (size_prod (\<lambda>x. 0) size) d)" by (induction d) auto
  then show ?thesis by (simp add: CDict)
qed simp_all

lemma item_smaller: "sequence_items c = Some xs \<Longrightarrow> x \<in> set xs \<Longrightarrow> size x < size c"
  by (cases c) (auto dest: size_list_estimation' [where f = size, OF _ order_refl] simp: less_Suc_eq_le)

lemma rbind_cong [fundef_cong]: "m = n \<Longrightarrow> (\<And>v. n = Inr v \<Longrightarrow> f v = g v) \<Longrightarrow> rbind m f = rbind n g"
  by (cases n) simp_all

lemma rmap_cong [fundef_cong]: "m = n \<Longrightarrow> (\<And>v. n = Inr v \<Longrightarrow> f v = g v) \<Longrightarrow> rmap f m = rmap g n"
  by (cases n) simp_all

lemma rtraverse_cong [fundef_cong]: "xs = ys \<Longrightarrow> (\<And>x. x \<in> set ys \<Longrightarrow> f x = g x) \<Longrightarrow> rtraverse f xs = rtraverse g ys"
  by (induction xs arbitrary: ys) auto

lemma rtraverse_hd: "rtraverse f xs = Inr ys \<Longrightarrow> xs \<noteq> [] \<Longrightarrow> ys \<noteq> [] \<and> f (hd xs) = Inr (hd ys)"
  by (cases xs) (auto simp: rbind_eq_Inr)

section \<open>Collating rows\<close>

text \<open>\<^verbatim>\<open>default_collate\<close> on values without arrays: it decides by the first one.\<close>

function default_collate :: "'t tensor_api \<Rightarrow> cell list \<Rightarrow> 't batch_value res" where
  "default_collate tensor vals =
    (case vals of
       [] \<Rightarrow> Inl (IndexError ''list index out of range'')
     | first # rest \<Rightarrow>
         (case first of
            CFloat r \<Rightarrow> rmap BTensor (tensor (Some Float64_dtype) vals)
          | CInt i \<Rightarrow> rmap BTensor (tensor None vals)
          | CBool b \<Rightarrow> rmap BTensor (tensor None vals)
          | CStr s \<Rightarrow> Inr (BRaw vals)
          | CBytes b \<Rightarrow> Inr (BRaw vals)
          | CDict d \<Rightarrow>
              rmap BDict (rtraverse (\<lambda>key. rbind (rtraverse (cell_field key) vals) (\<lambda>samples.
                rmap (Pair key) (default_collate tensor samples))) (map fst d))
          | CList xs \<Rightarrow>
              rbind (rtraverse cell_len rest) (\<lambda>lens.
                if \<exists>n \<in> set lens. n \<noteq> length xs
                then Inl (RuntimeError ''each element in list of batch should be of equal size'')
                else rmap BSeq (rtraverse (\<lambda>i. rbind (rtraverse (cell_at i) vals) (default_collate tensor)) [0..<length xs]))
          | CTuple xs \<Rightarrow>
              rbind (rtraverse cell_len rest) (\<lambda>lens.
                if \<exists>n \<in> set lens. n \<noteq> length xs
                then Inl (RuntimeError ''each element in list of batch should be of equal size'')
                else rmap BSeq (rtraverse (\<lambda>i. rbind (rtraverse (cell_at i) vals) (default_collate tensor)) [0..<length xs]))
          | _ \<Rightarrow> Inl (TypeError ''default_collate: batch must contain tensors, numpy arrays, numbers, dicts or lists'')))"
  by pat_completeness auto
termination
proof (relation "measure (\<lambda>(_, vals). size (hd vals))", goal_cases)
  case 1
  then show ?case by simp
next
  case (2 tensor vals first rest d key samples)
  then have "cell_field key first = Inr (hd samples)" using rtraverse_hd [of "cell_field key" vals samples] by simp
  from field_smaller [OF this] 2 show ?case by simp
next
  case (3 tensor vals first rest xs lens i samples)
  then have "hd samples = xs ! i" "i < length xs" using rtraverse_hd [of "cell_at i" vals samples] by simp_all
  with item_smaller [of first xs "xs ! i"] nth_mem [of i xs] 3 show ?case by simp
next
  case (4 tensor vals first rest xs lens i samples)
  then have "hd samples = xs ! i" "i < length xs" using rtraverse_hd [of "cell_at i" vals samples] by simp_all
  with item_smaller [of first xs "xs ! i"] nth_mem [of i xs] 4 show ?case by simp
qed

declare default_collate.simps [simp del]

section \<open>Collating columns\<close>

definition every :: "(cell \<Rightarrow> bool) \<Rightarrow> cell list \<Rightarrow> bool" where
  "every p vals \<longleftrightarrow> (\<forall>v \<in> set vals. p v)"

fun is_text :: "cell \<Rightarrow> bool" where "is_text (CStr s) = True" | "is_text (CBytes b) = True" | "is_text _ = False"
fun is_boolean :: "cell \<Rightarrow> bool" where "is_boolean (CBool b) = True" | "is_boolean _ = False"
fun is_integer :: "cell \<Rightarrow> bool" where "is_integer (CInt i) = True" | "is_integer _ = False"
fun is_float :: "cell \<Rightarrow> bool" where "is_float (CFloat r) = True" | "is_float _ = False"
fun is_mapping :: "cell \<Rightarrow> bool" where "is_mapping (CDict d) = True" | "is_mapping _ = False"
fun mapping_keys :: "cell \<Rightarrow> string list" where "mapping_keys (CDict d) = map fst d" | "mapping_keys _ = []"

text \<open>\<^verbatim>\<open>_collate_list\<close>, which \<^verbatim>\<open>collate_columns\<close> applies to a list.\<close>

function collate_list :: "'t tensor_api \<Rightarrow> cell list \<Rightarrow> 't batch_value res" where
  "collate_list tensor vals =
    (if vals = [] \<or> every is_text vals then Inr (BRaw vals)
     else if every is_boolean vals then rmap BTensor (tensor (Some Bool_dtype) vals)
     else if every is_integer vals then rmap BTensor (tensor (Some Int64_dtype) vals)
     else if every is_float vals then rmap BTensor (tensor (Some Float64_dtype) vals)
     else if every is_mapping vals
     then rmap BDict (rtraverse (\<lambda>key. rbind (rtraverse (cell_field key) vals) (\<lambda>samples.
            rmap (Pair key) (collate_list tensor samples))) (mapping_keys (hd vals)))
     else if every (\<lambda>v. sequence_items v \<noteq> None) vals
     then (let items = map (\<lambda>v. the (sequence_items v)) vals; n = length (hd items) in
           if \<forall>xs \<in> set items. length xs = n
           then rmap BSeq (rtraverse (\<lambda>i. collate_list tensor (map (\<lambda>xs. xs ! i) items)) [0..<n])
           else Inr (BRaw vals))
     else Inr (BRaw vals))"
  by pat_completeness auto
termination
proof (relation "measure (\<lambda>(_, vals). size (hd vals))", goal_cases)
  case 1
  then show ?case by simp
next
  case (2 tensor vals key samples)
  with rtraverse_hd [of "cell_field key" vals samples] field_smaller show ?case by auto
next
  case (3 tensor vals items n i)
  then have "vals \<noteq> []" "every (\<lambda>v. sequence_items v \<noteq> None) vals" by auto
  then obtain xs where xs: "sequence_items (hd vals) = Some xs" by (cases vals) (auto simp: every_def)
  moreover have "hd items = xs" using 3 \<open>vals \<noteq> []\<close> xs by (cases vals) auto
  moreover have "hd (map (\<lambda>xs. xs ! i) items) = hd items ! i" using 3 \<open>vals \<noteq> []\<close> by (cases vals) auto
  ultimately show ?case using 3 item_smaller [OF xs, of "xs ! i"] by auto
qed

declare collate_list.simps [simp del]

section \<open>Where both agree\<close>

text \<open>Rows of one type throughout: no missing cell, no ragged list, no mixture of numbers.\<close>

inductive uniform :: "cell list \<Rightarrow> bool" where
  text_cells: "vals \<noteq> [] \<Longrightarrow> every is_text vals \<Longrightarrow> uniform vals"
| boolean_cells: "vals \<noteq> [] \<Longrightarrow> every is_boolean vals \<Longrightarrow> uniform vals"
| integer_cells: "vals \<noteq> [] \<Longrightarrow> every is_integer vals \<Longrightarrow> uniform vals"
| float_cells: "vals \<noteq> [] \<Longrightarrow> every is_float vals \<Longrightarrow> uniform vals"
| mapping_cells: "vals \<noteq> [] \<Longrightarrow> every is_mapping vals \<Longrightarrow>
    \<forall>key \<in> set (mapping_keys (hd vals)). \<exists>samples. rtraverse (cell_field key) vals = Inr samples \<and> uniform samples \<Longrightarrow> uniform vals"
| sequence_cells: "vals \<noteq> [] \<Longrightarrow> every (\<lambda>v. \<exists>xs. sequence_items v = Some xs \<and> length xs = n) vals \<Longrightarrow>
    \<forall>i < n. uniform (map (\<lambda>v. the (sequence_items v) ! i) vals) \<Longrightarrow> uniform vals"

text \<open>What \<^verbatim>\<open>torch.tensor\<close> documents of the dtype it infers.\<close>

definition infers_dtype :: "'t tensor_api \<Rightarrow> bool" where
  "infers_dtype tensor \<longleftrightarrow>
    (\<forall>vals. vals \<noteq> [] \<longrightarrow>
      (every is_boolean vals \<longrightarrow> tensor None vals = tensor (Some Bool_dtype) vals) \<and>
      (every is_integer vals \<longrightarrow> tensor None vals = tensor (Some Int64_dtype) vals))"

lemma sequence_lens:
  "every (\<lambda>v. \<exists>xs. sequence_items v = Some xs \<and> length xs = n) vals \<Longrightarrow>
   rtraverse cell_len vals = Inr (map (\<lambda>_. n) vals) \<and>
   (i < n \<longrightarrow> rtraverse (cell_at i) vals = Inr (map (\<lambda>v. the (sequence_items v) ! i) vals))"
proof (induction vals)
  case (Cons v vals)
  then obtain xs where "sequence_items v = Some xs" "length xs = n" by (auto simp: every_def)
  with Cons sequence_cell [of v xs i] show ?case by (simp add: every_def)
qed simp

lemma collate_agrees:
  assumes "infers_dtype tensor" "uniform vals"
  shows "default_collate tensor vals = collate_list tensor vals"
  using assms(2)
proof (induction rule: uniform.induct)
  case (text_cells vals)
  then show ?case by (cases vals; cases "hd vals") (auto simp: default_collate.simps collate_list.simps every_def)
next
  case (boolean_cells vals)
  then obtain v vs where vals: "vals = v # vs" by (cases vals) auto
  have "\<not> every is_text vals" "tensor None vals = tensor (Some Bool_dtype) vals"
    using boolean_cells assms(1) by (auto simp: infers_dtype_def every_def vals elim!: is_boolean.elims(2))
  with boolean_cells show ?case
    by (subst default_collate.simps, subst collate_list.simps) (auto simp: vals every_def elim!: is_boolean.elims(2))
next
  case (integer_cells vals)
  then obtain v vs where vals: "vals = v # vs" by (cases vals) auto
  have "\<not> every is_text vals" "\<not> every is_boolean vals" "tensor None vals = tensor (Some Int64_dtype) vals"
    using integer_cells assms(1) by (auto simp: infers_dtype_def every_def vals elim!: is_integer.elims(2))
  with integer_cells show ?case
    by (subst default_collate.simps, subst collate_list.simps) (auto simp: vals every_def elim!: is_integer.elims(2))
next
  case (float_cells vals)
  then obtain v vs where vals: "vals = v # vs" by (cases vals) auto
  have "\<not> every is_text vals" "\<not> every is_boolean vals" "\<not> every is_integer vals"
    using float_cells by (auto simp: every_def vals elim!: is_float.elims(2))
  with float_cells show ?case
    by (subst default_collate.simps, subst collate_list.simps) (auto simp: vals every_def elim!: is_float.elims(2))
next
  case (mapping_cells vals)
  then obtain d vs where vals: "vals = CDict d # vs" by (cases vals) (auto simp: every_def elim!: is_mapping.elims(2))
  have not: "\<not> every is_text vals" "\<not> every is_boolean vals" "\<not> every is_integer vals" "\<not> every is_float vals"
    by (simp_all add: every_def vals)
  have "rtraverse (\<lambda>key. rbind (rtraverse (cell_field key) vals) (\<lambda>samples. rmap (Pair key) (default_collate tensor samples))) (map fst d) =
      rtraverse (\<lambda>key. rbind (rtraverse (cell_field key) vals) (\<lambda>samples. rmap (Pair key) (collate_list tensor samples))) (map fst d)"
  proof (rule rtraverse_cong [OF refl])
    fix key
    assume "key \<in> set (map fst d)"
    with mapping_cells(3) obtain samples where "rtraverse (cell_field key) vals = Inr samples"
      "default_collate tensor samples = collate_list tensor samples" by (auto simp: vals)
    then show "rbind (rtraverse (cell_field key) vals) (\<lambda>samples. rmap (Pair key) (default_collate tensor samples)) =
      rbind (rtraverse (cell_field key) vals) (\<lambda>samples. rmap (Pair key) (collate_list tensor samples))" by simp
  qed
  with not mapping_cells(2) show ?case
    by (subst default_collate.simps, subst collate_list.simps) (simp add: vals)
next
  case (sequence_cells vals n)
  then obtain v vs xs where vals: "vals = v # vs" and v: "sequence_items v = Some xs" "length xs = n"
    by (cases vals) (auto simp: every_def)
  have items: "every (\<lambda>v. sequence_items v \<noteq> None) vals" "\<forall>xs \<in> set (map (\<lambda>v. the (sequence_items v)) vals). length xs = n"
    using sequence_cells(2) by (auto simp: every_def)
  have not: "\<not> every is_text vals" "\<not> every is_boolean vals" "\<not> every is_integer vals" "\<not> every is_float vals" "\<not> every is_mapping vals"
    using v by (cases v; simp add: every_def vals)+
  have lens: "rtraverse cell_len vs = Inr (map (\<lambda>_. n) vs)"
    using sequence_lens [of n vs] sequence_cells(2) by (simp add: vals every_def)
  have columns: "rtraverse (\<lambda>i. rbind (rtraverse (cell_at i) vals) (default_collate tensor)) [0..<n] =
      rtraverse (\<lambda>i. collate_list tensor (map (\<lambda>xs. xs ! i) (map (\<lambda>v. the (sequence_items v)) vals))) [0..<n]"
    using sequence_lens [OF sequence_cells(2)] sequence_cells(3) by (intro rtraverse_cong [OF refl]) (simp add: comp_def)
  have "default_collate tensor vals = rmap BSeq (rtraverse (\<lambda>i. rbind (rtraverse (cell_at i) vals) (default_collate tensor)) [0..<n])"
    using v lens by (subst default_collate.simps) (cases v; auto simp: vals)
  moreover have "collate_list tensor vals = rmap BSeq (rtraverse (\<lambda>i. collate_list tensor (map (\<lambda>xs. xs ! i) (map (\<lambda>v. the (sequence_items v)) vals))) [0..<n])"
    using not items v by (subst collate_list.simps) (simp add: Let_def, simp add: vals)
  ultimately show ?case by (simp only: columns)
qed

lemma default_collate_mapping:
  "default_collate tensor (CDict d # rest) =
    rmap BDict (rtraverse (\<lambda>key. rbind (rtraverse (cell_field key) (CDict d # rest)) (\<lambda>samples.
      rmap (Pair key) (default_collate tensor samples))) (map fst d))"
  by (subst default_collate.simps) simp

section \<open>The Parquet adapter\<close>

text \<open>A table is its columns with their names; \<^verbatim>\<open>to_pylist\<close> gives rows and \<^verbatim>\<open>to_pydict\<close> columns.\<close>

type_synonym table = "(string \<times> cell list) list"

definition table_ok :: "int \<Rightarrow> table \<Rightarrow> bool" where
  "table_ok n t \<longleftrightarrow> distinct (map fst t) \<and> (\<forall>(k, col) \<in> set t. int (length col) = n)"

definition parquet_getitem :: "int \<Rightarrow> table \<Rightarrow> int \<Rightarrow> cell res" where
  "parquet_getitem n t index =
    (if \<not> (0 \<le> index \<and> index < n) then Inl (IndexError ''Parquet row index is outside the dataset'')
     else Inr (CDict (map (\<lambda>(k, col). (k, col ! nat index)) t)))"

definition parquet_native_batch :: "'t tensor_api \<Rightarrow> table \<Rightarrow> int \<Rightarrow> int \<Rightarrow> 't batch_value res" where
  "parquet_native_batch tensor t start stop =
    rmap BDict (rtraverse (\<lambda>(k, col). rmap (Pair k) (collate_list tensor (map (\<lambda>i. col ! nat i) (irange start stop)))) t)"

text \<open>What the calling process does with the same range: its rows, collated.\<close>

definition row_batch :: "'t tensor_api \<Rightarrow> int \<Rightarrow> table \<Rightarrow> int \<Rightarrow> int \<Rightarrow> 't batch_value res" where
  "row_batch tensor n t start stop = rbind (rtraverse (parquet_getitem n t) (irange start stop)) (default_collate tensor)"

lemma row_fields:
  assumes "distinct (map fst t)" "(k, col) \<in> set t"
  shows "rtraverse (cell_field k) (map (\<lambda>i. CDict (map (\<lambda>(k, col). (k, col ! nat i)) t)) is) = Inr (map (\<lambda>i. col ! nat i) is)"
proof -
  have "map_of (map (\<lambda>(k, col). (k, col ! nat i)) t) k = Some (col ! nat i)" for i
    using assms by (intro map_of_is_SomeI) (force simp: comp_def split_def)+
  then show ?thesis by (induction "is") simp_all
qed

text \<open>
  C12: The structured tier reads a table by columns and every other tier by rows; on columns of one type throughout both give
  the same batch, whatever the nesting of structures and lists in them.
\<close>

theorem columns_match_rows:
  assumes "infers_dtype tensor" "table_ok n t" "0 \<le> start" "start < stop" "stop \<le> n"
    and "\<forall>(k, col) \<in> set t. uniform (map (\<lambda>i. col ! nat i) (irange start stop))"
  shows "parquet_native_batch tensor t start stop = row_batch tensor n t start stop"
proof -
  let ?is = "irange start stop" and ?row = "\<lambda>i. CDict (map (\<lambda>(k, col). (k, col ! nat i)) t)"
  have rows: "rtraverse (parquet_getitem n t) ?is = Inr (map ?row ?is)"
    using assms(3-5) by (intro rtraverse_Inr) (simp add: parquet_getitem_def)
  have "?is = start # irange (start + 1) stop" using assms(4) by (rule irange_Cons)
  then have hd: "map ?row ?is = ?row start # map ?row (irange (start + 1) stop)" by simp
  have columns: "rtraverse (\<lambda>key. rbind (rtraverse (cell_field key) (map ?row ?is)) (\<lambda>samples. rmap (Pair key) (default_collate tensor samples)))
      (map fst ts) = rtraverse (\<lambda>(k, col). rmap (Pair k) (collate_list tensor (map (\<lambda>i. col ! nat i) ?is))) ts" if "set ts \<subseteq> set t" for ts
    using that
  proof (induction ts)
    case (Cons kc ts)
    obtain k col where kc: "kc = (k, col)" by fastforce
    with Cons.prems have "(k, col) \<in> set t" by simp
    with assms(2,6) row_fields [of t k col ?is] collate_agrees [OF assms(1), of "map (\<lambda>i. col ! nat i) ?is"] Cons
    show ?case by (auto simp: kc table_ok_def)
  qed simp
  have "row_batch tensor n t start stop = default_collate tensor (map ?row ?is)" by (simp add: row_batch_def rows)
  also have "\<dots> = rmap BDict (rtraverse (\<lambda>key. rbind (rtraverse (cell_field key) (map ?row ?is)) (\<lambda>samples.
      rmap (Pair key) (default_collate tensor samples))) (map fst t))"
    by (simp only: hd default_collate_mapping) (simp add: comp_def split_def)
  finally show ?thesis using columns [of t] by (simp add: parquet_native_batch_def)
qed

text \<open>A table with a structure and lists, and a library of tensors that keeps the cells.\<close>

definition sample_tensor :: "(tensor_dtype \<times> cell list) tensor_api" where
  "sample_tensor dtype vals =
    Inr (case dtype of Some d \<Rightarrow> d | None \<Rightarrow> if every is_boolean vals then Bool_dtype else Int64_dtype, vals)"

definition sample_table :: table where
  "sample_table = [(''id'', [CInt 5, CInt 6, CInt 7]), (''name'', [CStr ''a'', CStr ''b'', CNone]),
     (''box'', [CList [CFloat 1, CFloat 2], CList [CFloat 3, CFloat 4], CList []])]"

theorem columns_match_rows_witness:
  "parquet_native_batch sample_tensor sample_table 0 2 = row_batch sample_tensor 3 sample_table 0 2 \<and>
   parquet_native_batch sample_tensor sample_table 0 2 =
     Inr (BDict [(''id'', BTensor (Int64_dtype, [CInt 5, CInt 6])), (''name'', BRaw [CStr ''a'', CStr ''b'']),
       (''box'', BSeq [BTensor (Float64_dtype, [CFloat 1, CFloat 3]), BTensor (Float64_dtype, [CFloat 2, CFloat 4])])])"
proof -
  have r: "irange 0 2 = [0, 1]" by (simp add: irange_def upto_rec1)
  have "uniform [CList [CFloat 1, CFloat 2], CList [CFloat 3, CFloat 4]]"
    by (rule sequence_cells [where n = 2]) (auto simp: every_def less_Suc_eq numeral_2_eq_2 intro!: float_cells)
  moreover have "uniform [CInt 5, CInt 6]" "uniform [CStr ''a'', CStr ''b'']"
    by (auto simp: every_def intro: integer_cells text_cells)
  ultimately have "\<forall>(k, col) \<in> set sample_table. uniform (map (\<lambda>i. col ! nat i) (irange 0 2))"
    by (simp add: sample_table_def r)
  moreover have "infers_dtype sample_tensor"
    by (auto simp: infers_dtype_def sample_tensor_def every_def neq_Nil_conv elim!: is_integer.elims(2))
  ultimately have "parquet_native_batch sample_tensor sample_table 0 2 = row_batch sample_tensor 3 sample_table 0 2"
    by (intro columns_match_rows) (auto simp: table_ok_def sample_table_def)
  moreover have "parquet_native_batch sample_tensor sample_table 0 2 =
     Inr (BDict [(''id'', BTensor (Int64_dtype, [CInt 5, CInt 6])), (''name'', BRaw [CStr ''a'', CStr ''b'']),
       (''box'', BSeq [BTensor (Float64_dtype, [CFloat 1, CFloat 3]), BTensor (Float64_dtype, [CFloat 2, CFloat 4])])])"
    by (simp add: parquet_native_batch_def sample_table_def r collate_list.simps every_def sample_tensor_def Let_def upt_rec)
  ultimately show ?thesis by blast
qed

text \<open>
  Elsewhere the batch depends on the tier: with a missing cell, or lists of different lengths, the calling process raises and
  the structured tier delivers the cells as they are.
\<close>

theorem missing_cell_depends_on_tier:
  "row_batch tensor 2 [(''label'', [CNone, CInt 1])] 0 2 =
     Inl (TypeError ''default_collate: batch must contain tensors, numpy arrays, numbers, dicts or lists'') \<and>
   parquet_native_batch tensor [(''label'', [CNone, CInt 1])] 0 2 = Inr (BDict [(''label'', BRaw [CNone, CInt 1])])"
proof -
  have r: "irange 0 2 = [0, 1]" by (simp add: irange_def upto_rec1)
  show ?thesis
    by (simp add: row_batch_def parquet_getitem_def parquet_native_batch_def r default_collate.simps collate_list.simps every_def)
qed

theorem ragged_list_depends_on_tier:
  "row_batch tensor 2 [(''box'', [CList [CInt 1], CList []])] 0 2 =
     Inl (RuntimeError ''each element in list of batch should be of equal size'') \<and>
   parquet_native_batch tensor [(''box'', [CList [CInt 1], CList []])] 0 2 =
     Inr (BDict [(''box'', BRaw [CList [CInt 1], CList []])])"
proof -
  have r: "irange 0 2 = [0, 1]" by (simp add: irange_def upto_rec1)
  show ?thesis
    by (simp add: row_batch_def parquet_getitem_def parquet_native_batch_def r default_collate.simps collate_list.simps every_def Let_def)
qed

section \<open>Tensors and memory maps\<close>

text \<open>A tensor is its rows; stacking rows gives a tensor of them.\<close>

definition tensor_dataset_getitem :: "'r list list \<Rightarrow> nat \<Rightarrow> 'r list" where
  "tensor_dataset_getitem tensors index = map (\<lambda>t. t ! index) tensors"

definition slice :: "nat \<Rightarrow> nat \<Rightarrow> 'r list \<Rightarrow> 'r list" where
  "slice start stop rows = take (stop - start) (drop start rows)"

definition tensor_dataset_native_batch :: "'r list list \<Rightarrow> nat \<Rightarrow> nat \<Rightarrow> 'r list list" where
  "tensor_dataset_native_batch tensors start stop = map (slice start stop) tensors"

definition memmap_native_batch :: "'r list \<Rightarrow> nat \<Rightarrow> nat \<Rightarrow> 'r list" where
  "memmap_native_batch rows start stop = slice start stop rows"

text \<open>The default collation of tuples of rows: one stack for each place of the tuple.\<close>

definition collate_tuples :: "nat \<Rightarrow> 'r list list \<Rightarrow> 'r list list" where
  "collate_tuples width rows = map (\<lambda>place. map (\<lambda>row. row ! place) rows) [0..<width]"

lemma slice_rows: "stop \<le> length rows \<Longrightarrow> slice start stop rows = map (\<lambda>i. rows ! i) [start..<stop]"
  by (rule nth_equalityI) (auto simp: slice_def)

lemma tensor_dataset_batches:
  assumes "\<forall>t \<in> set tensors. length t = n" "stop \<le> n"
  shows "tensor_dataset_native_batch tensors start stop =
    collate_tuples (length tensors) (map (tensor_dataset_getitem tensors) [start..<stop])"
  by (rule nth_equalityI) (use assms in \<open>auto simp: tensor_dataset_native_batch_def collate_tuples_def tensor_dataset_getitem_def slice_rows\<close>)

end
