(* ===== verification/Planner.thy ===== *)
theory Planner
  imports Placement PyValue Columns
begin

text \<open>
  Choosing the plan of a dataset (\<^verbatim>\<open>planner/registry.py\<close>) and the structured builders it may choose
  (\<^verbatim>\<open>planner/structured/\<close>).  What a builder asks of a dataset is an argument; the attribute of a module a row names is
  a function of the two names.
\<close>

section \<open>Plans and builders\<close>

text \<open>A plan is its coordinates, and for pipelines the declared safety, for structures the mapping and whether batches are native.\<close>

datatype plan =
    Black_box index_plan
  | Stage_plan index_plan bool
  | Tensor_plan index_plan
  | Structure_plan index_plan string bool

definition coordinates :: "int \<Rightarrow> bool option \<Rightarrow> index_plan" where
  "coordinates n shuffle = \<lparr>plan_length = n, plan_shuffle = (shuffle = Some True)\<rparr>"

definition structure_plan :: "int \<Rightarrow> bool option \<Rightarrow> string \<Rightarrow> bool \<Rightarrow> plan option res" where
  "structure_plan n shuffle mapping native = Inr (Some (Structure_plan (coordinates n shuffle) mapping native))"

fun len_of :: "sized \<Rightarrow> int res" where
  "len_of (Integer_length n) = Inr n"
| "len_of (Boolean_length b) = Inr (of_bool b)"
| "len_of _ = Inl (TypeError ''object has no len()'')"

definition build_tensor_plan :: "sized \<Rightarrow> bool option \<Rightarrow> plan option res" where
  "build_tensor_plan len shuffle = rmap (\<lambda>n. Some (Tensor_plan (coordinates n shuffle))) (len_of len)"

definition build_stage_plan :: "sized \<Rightarrow> bool \<Rightarrow> bool option \<Rightarrow> plan option res" where
  "build_stage_plan len sample_thread_safe shuffle =
    rmap (\<lambda>n. Some (Stage_plan (coordinates n shuffle) sample_thread_safe)) (len_of len)"

text \<open>\<^verbatim>\<open>tensor.size(0)\<close> raises for a tensor without dimensions; the sizes are asked until one differs.\<close>

fun other_size :: "int \<Rightarrow> int res list \<Rightarrow> bool res" where
  "other_size len [] = Inr False"
| "other_size len (tensor # tensors) = rbind tensor (\<lambda>n. if n \<noteq> len then Inr True else other_size len tensors)"

definition build_tensor_dataset :: "int res list option \<Rightarrow> bool option \<Rightarrow> plan option res" where
  "build_tensor_dataset tensors shuffle =
    (case tensors of
       None \<Rightarrow> Inr None
     | Some [] \<Rightarrow> Inr None
     | Some (first # rest) \<Rightarrow>
         rbind first (\<lambda>len.
         rbind (other_size len (first # rest)) (\<lambda>other.
           if other then Inr None
           else structure_plan len shuffle ''torch-tensor-dataset'' (shuffle \<noteq> Some True))))"

record memmap_facts =
  mf_filename :: bool      \<comment> \<open>a string, bytes or path\<close>
  mf_shape :: "int list"
  mf_c_contiguous :: bool
  mf_f_contiguous :: bool
  mf_mode :: string

definition memmap_order :: "memmap_facts \<Rightarrow> string" where
  "memmap_order m = (if mf_f_contiguous m \<and> \<not> mf_c_contiguous m then ''F'' else ''C'')"

text \<open>A map opened for writing is reopened without being truncated.\<close>

definition memmap_mode :: "memmap_facts \<Rightarrow> string" where
  "memmap_mode m = (if mf_mode m = ''w+'' then ''r+'' else mf_mode m)"

definition build_memmap :: "memmap_facts \<Rightarrow> bool option \<Rightarrow> plan option res" where
  "build_memmap m shuffle =
    (if \<not> mf_filename m \<or> mf_shape m = [] then Inr None
     else structure_plan (hd (mf_shape m)) shuffle ''numpy-memmap'' (shuffle \<noteq> Some True \<and> memmap_order m = ''C''))"

record fragment_facts =
  gm_parquet :: bool
  gm_same_schema :: bool
  gm_remote :: bool      \<comment> \<open>a path with a scheme\<close>

definition build_parquet :: "fragment_facts list option \<Rightarrow> int \<Rightarrow> bool option \<Rightarrow> plan option res" where
  "build_parquet fragments rows shuffle =
    (case fragments of
       None \<Rightarrow> Inr None
     | Some fs \<Rightarrow>
         if fs = [] \<or> (\<exists>f \<in> set fs. \<not> gm_parquet f) \<or> (\<exists>f \<in> set fs. \<not> gm_same_schema f) \<or> (\<exists>f \<in> set fs. gm_remote f)
         then Inr None
         else structure_plan rows shuffle ''pyarrow-parquet-dataset'' (shuffle \<noteq> Some True))"

definition build_huggingface :: "bool \<Rightarrow> string option \<Rightarrow> sized \<Rightarrow> bool option \<Rightarrow> plan option res" where
  "build_huggingface has_fields format_type len shuffle =
    (if \<not> has_fields then Inr None
     else rbind (len_of len) (\<lambda>n. structure_plan n shuffle ''huggingface-arrow-dataset''
       (shuffle \<noteq> Some True \<and> format_type \<in> {None, Some ''numpy'', Some ''torch''})))"

definition build_folder :: "bool \<Rightarrow> int \<Rightarrow> bool option \<Rightarrow> plan option res" where
  "build_folder has_fields samples shuffle =
    (if \<not> has_fields then Inr None else structure_plan samples shuffle ''torchvision-dataset-folder'' False)"

text \<open>\<^verbatim>\<open>FolderAdapter.__getitem__\<close>: the path, the loader and both transforms, in that order.\<close>

definition folder_getitem ::
    "('p \<times> 't) list \<Rightarrow> ('p \<Rightarrow> 'v res) \<Rightarrow> ('v \<Rightarrow> 'v res) option \<Rightarrow> ('t \<Rightarrow> 't res) option \<Rightarrow> nat \<Rightarrow> ('v \<times> 't) res" where
  "folder_getitem samples loader transform target_transform index =
    (if \<not> index < length samples then Inl (IndexError ''list index out of range'')
     else (case samples ! index of (path, target) \<Rightarrow>
       rbind (loader path) (\<lambda>sample.
       rbind (case transform of None \<Rightarrow> Inr sample | Some f \<Rightarrow> f sample) (\<lambda>sample.
       rbind (case target_transform of None \<Rightarrow> Inr target | Some f \<Rightarrow> f target) (\<lambda>target.
         Inr (sample, target))))))"

section \<open>The registry\<close>

definition load_mappings :: "pyval \<Rightarrow> pyval list res" where
  "load_mappings document =
    (case document of
       PDict d \<Rightarrow>
         if \<not> py_eq (get_or_none d ''schema_version'') (PInt 1)
         then Inl (RuntimeError ''planner mappings must use schema version 1'')
         else (case get_or_none d ''mappings'' of
             PList rows \<Rightarrow> Inr rows
           | _ \<Rightarrow> Inl (RuntimeError ''planner mappings must contain a list''))
     | _ \<Rightarrow> Inl (RuntimeError ''planner mappings must use schema version 1''))"

text \<open>The classes of a dataset in their resolution order, its own first.\<close>

fun names_candidate :: "payload \<Rightarrow> (string \<times> string) list \<Rightarrow> bool res" where
  "names_candidate row [] = Inr False"
| "names_candidate row ((home, name) # candidates) =
    rbind (get_item row ''dataset_module'') (\<lambda>m.
      if \<not> py_eq m (PStr home) then names_candidate row candidates
      else rbind (get_item row ''dataset_type'') (\<lambda>n.
        if py_eq n (PStr name) then Inr True else names_candidate row candidates))"

definition row_candidates :: "payload \<Rightarrow> (string \<times> string) list \<Rightarrow> (string \<times> string) list" where
  "row_candidates row mro =
    (if (case pget row ''match'' of None \<Rightarrow> True | Some m \<Rightarrow> py_eq m (PStr ''exact'')) then take 1 mro else mro)"

fun registered_builder :: "(string \<times> string) list \<Rightarrow> pyval list \<Rightarrow> pyval option res" where
  "registered_builder mro [] = Inr None"
| "registered_builder mro (PDict row # rows) =
    rbind (names_candidate row (row_candidates row mro)) (\<lambda>found.
      if found then rmap Some (get_item row ''builder'') else registered_builder mro rows)"
| "registered_builder mro (_ # rows) = Inl (AttributeError ''get'')"

text \<open>\<^verbatim>\<open>path.partition(":")\<close>\<close>

definition partition_colon :: "string \<Rightarrow> (string \<times> string) option" where
  "partition_colon path =
    (case dropWhile (\<lambda>c. c \<noteq> CHR '':'') path of [] \<Rightarrow> None | _ # attribute \<Rightarrow> Some (takeWhile (\<lambda>c. c \<noteq> CHR '':'') path, attribute))"

definition build_registered :: "(string \<Rightarrow> string \<Rightarrow> plan option res) \<Rightarrow> pyval \<Rightarrow> plan option res" where
  "build_registered builders path =
    (case path of
       PStr p \<Rightarrow>
         (case partition_colon p of
            None \<Rightarrow> Inr None
          | Some (home, attribute) \<Rightarrow> if home = [] \<or> attribute = [] then Inr None else builders home attribute)
     | _ \<Rightarrow> Inl (AttributeError ''partition''))"

definition build_by_mapping ::
    "(string \<Rightarrow> string \<Rightarrow> plan option res) \<Rightarrow> pyval \<Rightarrow> (string \<times> string) list \<Rightarrow> plan option res" where
  "build_by_mapping builders document mro =
    rbind (load_mappings document) (\<lambda>rows.
    rbind (registered_builder mro rows) (\<lambda>path.
      if path = None \<or> path = Some PNone then Inr None else build_registered builders (the path)))"

text \<open>\<open>pipeline\<close> is the declared safety of a \<^verbatim>\<open>Pipeline\<close>.\<close>

definition build_plan ::
    "(string \<Rightarrow> string \<Rightarrow> plan option res) \<Rightarrow> pyval \<Rightarrow> (string \<times> string) list \<Rightarrow> bool option \<Rightarrow> sized \<Rightarrow> bool option \<Rightarrow> plan option res" where
  "build_plan builders document mro pipeline len shuffle =
    (case pipeline of
       Some safe \<Rightarrow> build_stage_plan len safe shuffle
     | None \<Rightarrow>
         (case build_by_mapping builders document mro of
            Inr (Some plan) \<Rightarrow> Inr (Some plan)
          | _ \<Rightarrow> rmap (map_option Black_box) (build_black_box_plan len shuffle)))"

definition mapping_row :: "string \<Rightarrow> string \<Rightarrow> string \<Rightarrow> string \<Rightarrow> string \<Rightarrow> pyval" where
  "mapping_row name home kind match builder =
    PDict [(PStr ''id'', PStr name), (PStr ''dataset_module'', PStr home), (PStr ''dataset_type'', PStr kind),
      (PStr ''match'', PStr match), (PStr ''builder'', PStr builder)]"

text \<open>\<^verbatim>\<open>mappings.json\<close>\<close>

definition mappings :: pyval where
  "mappings = PDict [(PStr ''schema_version'', PInt 1), (PStr ''mappings'', PList [
     mapping_row ''contiguous-torch-tensor'' ''torch'' ''Tensor'' ''exact'' ''hyperloader.planner.tensor:build_tensor_plan'',
     mapping_row ''torch-tensor-dataset'' ''torch.utils.data.dataset'' ''TensorDataset'' ''exact''
       ''hyperloader.planner.structured.tensor_dataset:build_plan'',
     mapping_row ''torchvision-dataset-folder'' ''torchvision.datasets.folder'' ''DatasetFolder'' ''subclass''
       ''hyperloader.planner.structured.torchvision:build_plan'',
     mapping_row ''huggingface-arrow-dataset'' ''datasets.arrow_dataset'' ''Dataset'' ''exact''
       ''hyperloader.planner.structured.huggingface:build_plan'',
     mapping_row ''numpy-memmap'' ''numpy'' ''memmap'' ''exact'' ''hyperloader.planner.structured.numpy_memmap:build_plan'',
     mapping_row ''pyarrow-parquet-dataset'' ''pyarrow._dataset'' ''FileSystemDataset'' ''exact''
       ''hyperloader.planner.structured.parquet:build_plan''])]"

text \<open>What the builders read of a dataset: its length, and the attributes of each library's class.\<close>

record dataset_facts =
  df_mro :: "(string \<times> string) list"
  df_len :: sized
  df_pipeline :: "bool option"
  df_tensors :: "int res list option"
  df_memmap :: memmap_facts
  df_fragments :: "fragment_facts list option"
  df_rows :: int
  df_arrow :: "bool \<times> string option"
  df_samples :: "bool \<times> int"

definition package_builders :: "dataset_facts \<Rightarrow> bool option \<Rightarrow> string \<Rightarrow> string \<Rightarrow> plan option res" where
  "package_builders d shuffle home attribute =
    (if home = ''hyperloader.planner.tensor'' \<and> attribute = ''build_tensor_plan'' then build_tensor_plan (df_len d) shuffle
     else if attribute \<noteq> ''build_plan'' then Inl (AttributeError attribute)
     else if home = ''hyperloader.planner.structured.tensor_dataset'' then build_tensor_dataset (df_tensors d) shuffle
     else if home = ''hyperloader.planner.structured.torchvision'' then build_folder (fst (df_samples d)) (snd (df_samples d)) shuffle
     else if home = ''hyperloader.planner.structured.huggingface''
     then build_huggingface (fst (df_arrow d)) (snd (df_arrow d)) (df_len d) shuffle
     else if home = ''hyperloader.planner.structured.numpy_memmap'' then build_memmap (df_memmap d) shuffle
     else if home = ''hyperloader.planner.structured.parquet'' then build_parquet (df_fragments d) (df_rows d) shuffle
     else Inl (RuntimeError home))"

definition plan_dataset :: "dataset_facts \<Rightarrow> bool option \<Rightarrow> plan option res" where
  "plan_dataset d shuffle = build_plan (package_builders d shuffle) mappings (df_mro d) (df_pipeline d) (df_len d) shuffle"

fun plan_index :: "plan \<Rightarrow> int \<Rightarrow> int \<Rightarrow> int \<Rightarrow> int run" where
  "plan_index (Black_box p) = black_box_index p"
| "plan_index (Stage_plan p safe) = stage_index p"
| "plan_index (Tensor_plan p) = tensor_index p"
| "plan_index (Structure_plan p mapping native) = structure_index p"

fun plan_native :: "plan \<Rightarrow> bool" where
  "plan_native (Structure_plan p mapping native) = native"
| "plan_native _ = False"

section \<open>What is chosen\<close>

lemma build_registered_from:
  "build_registered builders path = Inr (Some plan) \<Longrightarrow> \<exists>home attribute. builders home attribute = Inr (Some plan)"
  by (cases path) (auto simp: build_registered_def split: option.splits if_splits prod.splits)

lemma build_by_mapping_from:
  "build_by_mapping builders document mro = Inr (Some plan) \<Longrightarrow> \<exists>home attribute. builders home attribute = Inr (Some plan)"
  by (auto simp: build_by_mapping_def rbind_eq_Inr split: if_splits dest!: build_registered_from)

text \<open>
  Planning never fails a dataset that has a length: a damaged table of mappings, a row without its fields, a builder that
  cannot be imported, raises or declines all lead to the black box, which has the dataset's length; a plan is structured
  only when a builder gave it.
\<close>

theorem planning_has_refuge:
  "\<exists>plan. build_plan builders document mro pipeline (Integer_length (int n)) shuffle = Inr (Some plan) \<and>
    (plan = Black_box (coordinates (int n) shuffle) \<or>
     (\<exists>safe. pipeline = Some safe \<and> plan = Stage_plan (coordinates (int n) shuffle) safe) \<or>
     (\<exists>home attribute. builders home attribute = Inr (Some plan)))"
  by (cases "build_by_mapping builders document mro")
    (auto simp: build_plan_def build_black_box_plan_def build_stage_plan_def coordinates_def split: option.split dest: build_by_mapping_from)

text \<open>What the libraries document: the lengths of a dataset of \<open>n\<close> samples, which need not have a length of its own.\<close>

definition dataset_ok :: "int \<Rightarrow> dataset_facts \<Rightarrow> bool" where
  "dataset_ok n d \<longleftrightarrow>
    0 \<le> n \<and> df_len d \<in> {Unsized, Integer_length n} \<and> df_rows d = n \<and> snd (df_samples d) = n \<and>
    (case df_tensors d of Some (first # rest) \<Rightarrow> first = Inr n | _ \<Rightarrow> True) \<and>
    (mf_shape (df_memmap d) \<noteq> [] \<longrightarrow> hd (mf_shape (df_memmap d)) = n)"

definition plan_ok :: "int \<Rightarrow> bool option \<Rightarrow> plan \<Rightarrow> bool" where
  "plan_ok n shuffle plan \<longleftrightarrow>
    (\<forall>root_seed epoch position. 0 \<le> position \<and> position < n \<longrightarrow>
       plan_index plan root_seed epoch position = black_box_index (coordinates n shuffle) root_seed epoch position) \<and>
    (plan_native plan \<longrightarrow> shuffle \<noteq> Some True)"

lemma plans_ok [simp]:
  "plan_ok n shuffle (Black_box (coordinates n shuffle))"
  "plan_ok n shuffle (Stage_plan (coordinates n shuffle) safe)"
  "plan_ok n shuffle (Tensor_plan (coordinates n shuffle))"
  "plan_ok n shuffle (Structure_plan (coordinates n shuffle) mapping native) \<longleftrightarrow> (native \<longrightarrow> shuffle \<noteq> Some True)"
  by (auto simp: plan_ok_def black_box_index_def stage_index_def tensor_index_def structure_index_def sampler_index_def coordinates_def)

lemma len_of_ok: "dataset_ok n d \<Longrightarrow> len_of (df_len d) = Inr m \<Longrightarrow> m = n"
  by (auto simp: dataset_ok_def)

lemma package_builders_ok:
  assumes "dataset_ok n d" "package_builders d shuffle home attribute = Inr (Some plan)"
  shows "plan_ok n shuffle plan"
  using assms len_of_ok [OF assms(1)]
  by (auto simp: package_builders_def build_tensor_plan_def build_tensor_dataset_def build_folder_def build_huggingface_def build_memmap_def
    build_parquet_def structure_plan_def dataset_ok_def rbind_eq_Inr rmap_eq_Inr split: if_splits option.splits list.splits)

text \<open>
  C13: Whatever plan a dataset gets, through any row of the table or none, the samples come in the order of the black box: a
  plan addresses the positions of the dataset's own length by the same permutation, and batches are only read natively in
  the order of the dataset.  A dataset with a length always gets a plan.
\<close>

theorem planning_keeps_order:
  assumes "dataset_ok n d"
  shows "case plan_dataset d shuffle of Inr (Some plan) \<Rightarrow> plan_ok n shuffle plan | _ \<Rightarrow> df_len d = Unsized"
proof (cases "df_pipeline d")
  case None
  show ?thesis
  proof (cases "\<exists>plan. build_by_mapping (package_builders d shuffle) mappings (df_mro d) = Inr (Some plan)")
    case True
    then obtain plan where plan: "build_by_mapping (package_builders d shuffle) mappings (df_mro d) = Inr (Some plan)" by blast
    from build_by_mapping_from [OF this] package_builders_ok [OF assms] have "plan_ok n shuffle plan" by blast
    with None plan show ?thesis by (simp add: plan_dataset_def build_plan_def)
  next
    case False
    then have "plan_dataset d shuffle = rmap (map_option Black_box) (build_black_box_plan (df_len d) shuffle)"
      using None by (auto simp: plan_dataset_def build_plan_def split: sum.split option.split)
    then show ?thesis using assms by (auto simp: build_black_box_plan_def dataset_ok_def simp flip: coordinates_def)
  qed
next
  case (Some safe)
  then show ?thesis using assms by (auto simp: plan_dataset_def build_plan_def build_stage_plan_def dataset_ok_def)
qed

text \<open>A subclass of a folder dataset matches its row, one of a tensor dataset does not; both keep their order.\<close>

definition sample_dataset :: "(string \<times> string) list \<Rightarrow> dataset_facts" where
  "sample_dataset mro = \<lparr>df_mro = mro, df_len = Integer_length 4, df_pipeline = None, df_tensors = Some [Inr 4, Inr 4],
     df_memmap = \<lparr>mf_filename = False, mf_shape = [], mf_c_contiguous = True, mf_f_contiguous = False, mf_mode = ''r''\<rparr>,
     df_fragments = None, df_rows = 4, df_arrow = (False, None), df_samples = (True, 4)\<rparr>"

definition folder_mro :: "(string \<times> string) list" where
  "folder_mro = [(''app'', ''Images''), (''torchvision.datasets.folder'', ''DatasetFolder'')]"

definition tensor_mro :: "(string \<times> string) list" where
  "tensor_mro = [(''app'', ''Rows''), (''torch.utils.data.dataset'', ''TensorDataset'')]"

lemmas planning_defs = plan_dataset_def build_plan_def build_by_mapping_def load_mappings_def mappings_def mapping_row_def
  row_candidates_def get_item_def get_or_none_def build_registered_def partition_colon_def package_builders_def build_folder_def
  build_tensor_dataset_def structure_plan_def build_black_box_plan_def coordinates_def sample_dataset_def

lemma sample_plans:
  "plan_dataset (sample_dataset folder_mro) (Some True) = Inr (Some (Structure_plan (coordinates 4 (Some True)) ''torchvision-dataset-folder'' False))"
  "plan_dataset (sample_dataset tensor_mro) None = Inr (Some (Black_box (coordinates 4 None)))"
  "plan_dataset (sample_dataset (tl tensor_mro)) None = Inr (Some (Structure_plan (coordinates 4 None) ''torch-tensor-dataset'' True))"
  by (simp_all add: planning_defs folder_mro_def tensor_mro_def)

theorem planning_keeps_order_witness:
  "\<exists>plan. plan_dataset (sample_dataset folder_mro) (Some True) = Inr (Some plan) \<and> plan_ok 4 (Some True) plan \<and>
    plan_index plan 1701 3 2 = permutation_index 1701 3 4 2"
proof -
  have "dataset_ok 4 (sample_dataset folder_mro)" by (simp add: dataset_ok_def sample_dataset_def)
  from planning_keeps_order [OF this, of "Some True"] show ?thesis
    by (simp add: sample_plans structure_index_def sampler_index_def coordinates_def del: plans_ok)
qed

end
