(* ===== verification/Spec2Isabelle.thy ===== *)
theory Spec2Isabelle
  imports Placement Frontier Sizing Epoch Contract MapState Ordered ThreadRuns LaneResume CompatOrder PinnedMemory Staging Structured TensorTier Construction MachineKeeping Stages Verify Oracle Inventory WorkerLoop Planner
begin

text \<open>
  The Python core of \<^verbatim>\<open>hyperloader\<close>, a data loader with a sealed random contract: what a loader
  delivers is a function of the dataset, the seed, the epoch and the placement, never of the number
  of workers, of their speed or of an interruption.  Paths are relative to
  \<^verbatim>\<open>src/python/hyperloader/\<close>; a definition has the name of the Python function it translates,
  prefixed where a HOL constant has that name.

  \<^bold>\<open>Conventions.\<close>  Python integers are \<^typ>\<open>int\<close>, dictionaries association lists in insertion order
  (\<open>Collections.dict\<close>), exceptions values of \<open>Prelude.py_error\<close> in the left summand of
  \<open>'a res\<close>; a state-changing method takes and returns the record of its object, also when it
  raises.  A loop that may not end is a \<^theory_text>\<open>partial_function\<close> of type \<open>'a run\<close>, so that \<^const>\<open>None\<close> is
  not returning.  A loop that waits for other processes consumes a list of worlds or turns, one per
  iteration: \<^const>\<open>None\<close> when the list ends first.  Floats are exact rationals.

  \<^bold>\<open>Randomness and order.\<close>  \<open>Rng\<close> (\<^verbatim>\<open>fallback/contract.py\<close>): SplitMix64, Philox 4x32-10, keys and
  streams on words of their width.  \<open>Permutation\<close>: the materialised shuffle and the cycle-walked
  Feistel network.  \<open>Placement\<close> (\<^verbatim>\<open>distributed/placement.py\<close>, \<^verbatim>\<open>fallback/index.py\<close>): which rank
  delivers which position.  \<open>Streams\<close> (\<^verbatim>\<open>rng/\<close>): the generators user code sees.  The lemmas show
  bijectivity, disjoint streams, history-free generators, and that the ranks partition the epoch.

  \<^bold>\<open>Delivery state.\<close>  \<open>Epoch\<close>, \<open>Delivery\<close>, \<open>MapState\<close> (\<^verbatim>\<open>state/\<close>): epochs, delivered
  batches with their bitmap, checkpoints.  \<open>Samplers\<close>: replayable user samplers with rolling
  checksums.  \<open>InProcess\<close> and \<open>Pooled\<close>: execution in the calling process and of user samplers over a
  pool.  Their properties are resumption (a restored loader continues the stream) and agreement
  between the two executions.

  \<^bold>\<open>Contract.\<close>  \<open>PyValue\<close>, \<open>Decimal\<close>, \<open>Json\<close>, \<open>Digest\<close> (SHA-256) are the carriers;
  \<open>Fingerprint\<close> and \<open>Contract\<close> the fingerprint of a loader and its elastic form.  \<open>DatasetIdentity\<close>
  (\<^verbatim>\<open>fingerprint/callable.py\<close>) reads the identities of callables and configured objects from a heap with cycles,
  by fuel that its theorem bounds; \<open>Inventory\<close> (\<^verbatim>\<open>dataset.py\<close>, \<^verbatim>\<open>files.py\<close>, \<^verbatim>\<open>arrays.py\<close>, \<^verbatim>\<open>arrow.py\<close>) has the elements
  of every family of datasets, with distinct paths and independent of where the dataset lies.

  \<^bold>\<open>The process tier.\<close>  \<open>Schedule\<close> and \<open>Frontier\<close> (\<^verbatim>\<open>fallback/schedule.py\<close>,
  \<^verbatim>\<open>process/frontier.py\<close>): the bounded out-of-order window.  \<open>Transport\<close> (\<^verbatim>\<open>fallback/\<close>): pipes
  and arena slots between owner and workers, refined to a queue of results.  \<open>Worker\<close>
  (\<^verbatim>\<open>process/worker.py\<close> and its wire format), \<open>Pool\<close> (\<^verbatim>\<open>process/pool.py\<close> and recovery), and
  \<open>ProcessTier\<close> (\<^verbatim>\<open>process/iterator.py\<close>) which composes them with \<open>Control\<close> and
  \<open>Calibration\<close> (\<^verbatim>\<open>control/\<close>), \<open>Sizing\<close>, \<open>Profile\<close> and \<open>Config\<close>.  The frontier's step
  relation, the pool's and the transport's carry one invariant each (\<open>schedule_ok\<close>,
  \<open>pool_ok\<close>, \<open>transport_ok\<close>), kept by every step.  \<open>Answers\<close> adds to the pool's that every
  completion answers the work of its position when the workers are honest; with it \<open>Ordered\<close>
  proves that strict-order delivery through workers gives the batches of the calling process.
  \<open>WorkerLoop\<close> is the life of one worker, start-up and command loop: its answers depend on the command alone.

  \<^bold>\<open>The thread tier.\<close>  \<open>Threads\<close> (\<^verbatim>\<open>thread/\<close>): bounded calls of a declared thread-safe
  dataset.  \<open>ThreadRuns\<close> relates every call in flight to its position and shows that in order the
  batches are the calling process's, and that on completion an epoch delivers each batch once.

  \<^bold>\<open>Iterable loaders.\<close>  \<open>LaneState\<close> (\<^verbatim>\<open>iterable/snapshot.py\<close>, \<^verbatim>\<open>rng.py\<close>, \<^verbatim>\<open>state.py\<close>): bounded
  rings of source states, sample coordinates, the checkpoint and its public form.  \<open>Lanes\<close>
  (\<^verbatim>\<open>runtime.py\<close>, \<^verbatim>\<open>iterator.py\<close>): lanes over copies of a pickled source, an object store that the
  queue and the table of lanes share.  \<open>LaneResume\<close> refines them to a queue of lane names and their
  arrivals, for sources that keep the documented promises of a stateful source
  (\<open>stateful_source\<close>): checkpoints resume exactly and recovery is invisible; every call of
  \<^verbatim>\<open>__next__\<close> returns.

  \<^bold>\<open>The torch-compatible mode.\<close>  \<open>CompatZero\<close> (\<^verbatim>\<open>compat/rng.py\<close>, \<^verbatim>\<open>state.py\<close>, \<^verbatim>\<open>zero.py\<close>): torch's loader
  in the calling process and checkpoints of the random states; a checkpoint resumes to the same
  iterator.  \<open>CompatLanes\<close> and \<open>CompatMulti\<close> (\<^verbatim>\<open>compat/lane_*.py\<close>, \<^verbatim>\<open>multi*.py\<close>): worker lanes fed from
  torch's index sampler read ahead, with two ways they depart from torch.  \<open>CompatPool\<close> has the
  invariant of the lanes, \<open>CompatOrder\<close> refines the runtime to torch's rule (\<open>torch_values\<close>) and
  shows what an exception of a lane does to it.

  \<^bold>\<open>Batch-native tiers.\<close>  \<open>Structured\<close> is \<^verbatim>\<open>structured/\<close>: a frontier of complete batches, produced ahead and
  delivered in order, shown equal to producing each batch when it is asked for (\<open>direct_answers\<close>) and bounded in
  what it reads ahead; the rounds of its filling loop are the samples left, each of which submits one.
  \<open>TensorTier\<close> is \<^verbatim>\<open>tensor/iterator.py\<close>, slices and gathers of one tensor with sampled telemetry.

  \<^bold>\<open>Delivery memory and telemetry.\<close>  \<open>Staging\<close> is the staging thread of \<^verbatim>\<open>memory/pinned/iterator.py\<close> as a step
  relation of two threads over a queue of one place, refined to reading without a thread, with the ways its
  closing and its checkpoint depart from that.  \<open>Pinned\<close> is the pool of reusable buffers over an explicit store
  (\<^verbatim>\<open>memory/pinned/pool.py\<close>), \<open>PinnedMemory\<close> the registration of source allocations and the choice between
  the two (\<^verbatim>\<open>registration.py\<close>, \<^verbatim>\<open>delivery.py\<close>).  \<open>Telemetry\<close> is the recorder of \<^verbatim>\<open>fallback/telemetry.py\<close>, the
  grouping of \<^verbatim>\<open>telemetry/delivery.py\<close> and the byte ledger of \<^verbatim>\<open>memory/accounting.py\<close>.

  \<^bold>\<open>Construction.\<close>  \<open>Stages\<close> (\<^verbatim>\<open>stages/\<close>, \<^verbatim>\<open>decoder/\<close>): typed pipelines, their type soundness, and the pins of their
  decoders.  \<open>Construction\<close> (\<^verbatim>\<open>constructor.py\<close>, \<^verbatim>\<open>api.py\<close>): which options a loader accepts, how it resolves them,
  and that it prepares what its tier uses.  \<open>MachineKeeping\<close> (\<^verbatim>\<open>control/machine_keeping.py\<close>): the wrapper that keeps the
  machine awake, transparent for the batches and never with two keepers.  \<open>Planner\<close> (\<^verbatim>\<open>planner/registry.py\<close> and
  \<^verbatim>\<open>planner/structured/\<close>): which plan a dataset gets.  \<open>Columns\<close> (\<^verbatim>\<open>columns.py\<close> and its adapters): batches of columns
  against the default collation of rows, where they agree and where they do not.  \<open>Verify\<close> (\<^verbatim>\<open>verify.py\<close>): the report that
  compares two tiers.

  \<^bold>\<open>The reference engine.\<close>  \<open>Oracle\<close> is \<^verbatim>\<open>src/oracles/contract-vectors/reference.py\<close>, the second implementation of
  generator, permutation and placement that the repository tests itself against: shown equal to the package's, and its
  document of test vectors is built and accepted.

  \<^bold>\<open>Interfaces.\<close>  Contracts several components share are locales of \<open>Prelude\<close> and
  \<open>Collections\<close>, each interpreted on the model's definitions where they are provided: codecs that
  round-trip, machines that deliver once, resumable streams.

  \<^bold>\<open>Not modelled.\<close>  The Rust engine and its Python binding (not this language); starting, joining and
  signalling operating-system processes, shared memory and file writing (effects of the system, of
  which the model keeps the outcome as an argument); tensors and arrays of the libraries \<^verbatim>\<open>torch\<close> and
  \<^verbatim>\<open>numpy\<close>, whose values are a type parameter; diagnostics and command-line front ends.
\<close>

end
